(* ===== verification/Prelude.thy ===== *)
theory Prelude
  imports Main "HOL-Library.Sublist"
begin

text \<open>
  Shared vocabulary of the development: the model's strings and paths, the few string
  operations of the Rust standard library the sources call, and generic lemmas on lists
  and options.

  A Rust \<open>char\<close> is modelled by HOL's \<open>char\<close>, read as the code points U+0000 to U+00FF; a
  \<open>str\<close> is a list of them. All string functions below work character by character, so
  nothing depends on the size of the alphabet except the UTF-8 length, which is written
  out in \<open>utf8_len\<close>.

  A \<open>PathBuf\<close> is modelled by the list of its components below the root directory: every
  path in the modelled code is absolute. Comparing \<open>to_string_lossy\<close> renderings of two
  such paths is comparing the lists.
\<close>

named_theorems outcome_simps "equations of outcome and state predicates"
named_theorems world_simps "how each effect changes the world record"
named_theorems frame_simps "what an operation leaves unchanged"

type_synonym path = "string list"

section \<open>Characters and strings\<close>

definition to_ascii_lower_char :: "char \<Rightarrow> char" where
  "to_ascii_lower_char c =
     (let n = (of_char c :: nat) in if 65 \<le> n \<and> n \<le> 90 then char_of (n + 32) else c)"

definition to_ascii_lowercase :: "string \<Rightarrow> string" where
  "to_ascii_lowercase s = map to_ascii_lower_char s"

definition eq_ignore_ascii_case :: "string \<Rightarrow> string \<Rightarrow> bool" where
  "eq_ignore_ascii_case a b \<longleftrightarrow> to_ascii_lowercase a = to_ascii_lowercase b"

text \<open>\<open>char::is_whitespace\<close> and \<open>char::is_control\<close> on U+0000 to U+00FF.\<close>

definition is_whitespace :: "char \<Rightarrow> bool" where
  "is_whitespace c \<longleftrightarrow>
     (let n = (of_char c :: nat) in (9 \<le> n \<and> n \<le> 13) \<or> n = 32 \<or> n = 133 \<or> n = 160)"

definition is_control :: "char \<Rightarrow> bool" where
  "is_control c \<longleftrightarrow> (let n = (of_char c :: nat) in n < 32 \<or> (127 \<le> n \<and> n < 160))"

definition trim :: "string \<Rightarrow> string" where
  "trim s = rev (dropWhile is_whitespace (rev (dropWhile is_whitespace s)))"

definition utf8_len :: "string \<Rightarrow> nat" where
  "utf8_len s = sum_list (map (\<lambda>c. if (of_char c :: nat) < 128 then 1 else 2) s)"

text \<open>\<open>str::rsplit_once('.')\<close>: the parts before and after the last occurrence.\<close>

fun split_first :: "char \<Rightarrow> string \<Rightarrow> (string \<times> string) option" where
  "split_first d [] = None"
| "split_first d (c # cs) =
     (if c = d then Some ([], cs)
      else (case split_first d cs of None \<Rightarrow> None | Some (a, b) \<Rightarrow> Some (c # a, b)))"

definition rsplit_once :: "char \<Rightarrow> string \<Rightarrow> (string \<times> string) option" where
  "rsplit_once d s =
     (case split_first d (rev s) of None \<Rightarrow> None | Some (a, b) \<Rightarrow> Some (rev b, rev a))"

definition ends_with :: "string \<Rightarrow> string \<Rightarrow> bool" where
  "ends_with s t \<longleftrightarrow> suffix t s"

fun split_on :: "char \<Rightarrow> string \<Rightarrow> string list" where
  "split_on d [] = [[]]"
| "split_on d (c # cs) =
     (if c = d then [] # split_on d cs
      else (case split_on d cs of [] \<Rightarrow> [[c]] | w # ws \<Rightarrow> (c # w) # ws))"

fun join_with :: "string \<Rightarrow> string list \<Rightarrow> string" where
  "join_with sep [] = []"
| "join_with sep [s] = s"
| "join_with sep (s # t # ss) = s @ sep @ join_with sep (t # ss)"

abbreviation slash :: char where "slash \<equiv> CHR 0x2F"
abbreviation backslash :: char where "backslash \<equiv> CHR 0x5C"
abbreviation nul :: char where "nul \<equiv> CHR 0x00"
abbreviation dot :: char where "dot \<equiv> CHR 0x2E"
abbreviation quote :: char where "quote \<equiv> CHR 0x27"

text \<open>Decimal rendering of a natural number, as \<open>format!\<close> does it.\<close>

fun nat_to_string :: "nat \<Rightarrow> string" where
  "nat_to_string n =
     (if n < 10 then [char_of (48 + n)]
      else nat_to_string (n div 10) @ [char_of (48 + n mod 10)])"

declare nat_to_string.simps [simp del]

section \<open>Paths\<close>

definition path_parent :: "path \<Rightarrow> path option" where
  "path_parent p = (if p = [] then None else Some (butlast p))"

text \<open>\<open>Path::file_name\<close>: no name for the root and for a path that ends in \<open>..\<close>.\<close>

definition path_file_name :: "path \<Rightarrow> string option" where
  "path_file_name p = (if p = [] \<or> last p = ''..'' then None else Some (last p))"

text \<open>
  \<open>Path::join\<close> with a string: an absolute string replaces the path; otherwise its
  components are appended, empty and \<open>.\<close> components being dropped as \<open>components()\<close> does.
\<close>

definition path_components :: "string \<Rightarrow> string list" where
  "path_components s = filter (\<lambda>c. c \<noteq> [] \<and> c \<noteq> ''.'') (split_on slash s)"

definition path_join :: "path \<Rightarrow> string \<Rightarrow> path" where
  "path_join p s =
     (if s \<noteq> [] \<and> hd s = slash then path_components s else p @ path_components s)"

definition path_starts_with :: "path \<Rightarrow> path \<Rightarrow> bool" where
  "path_starts_with p root \<longleftrightarrow> prefix root p"

section \<open>Shared lemmas\<close>

lemma split_on_no_sep: "d \<notin> set s \<Longrightarrow> split_on d s = [s]"
  by (induction s) auto

lemma path_components_single:
  assumes "slash \<notin> set s" and "s \<noteq> []" and "s \<noteq> ''.''"
  shows "path_components s = [s]"
  using assms by (simp add: path_components_def split_on_no_sep)

lemma path_join_single:
  assumes "slash \<notin> set s" and "s \<noteq> []" and "s \<noteq> ''.''"
  shows "path_join p s = p @ [s]"
proof -
  from assms(1,2) have "hd s \<noteq> slash" using hd_in_set [of s] by metis
  then show ?thesis using assms by (simp add: path_join_def path_components_single)
qed

lemma path_parent_snoc [simp]: "path_parent (p @ [c]) = Some p"
  by (simp add: path_parent_def)

lemma path_parent_Some: "path_parent p = Some q \<Longrightarrow> p \<noteq> [] \<and> q = butlast p"
  by (simp add: path_parent_def split: if_splits)

lemma to_ascii_lowercase_length [simp]: "length (to_ascii_lowercase s) = length s"
  by (simp add: to_ascii_lowercase_def)

lemma to_ascii_lowercase_append [simp]:
  "to_ascii_lowercase (s @ t) = to_ascii_lowercase s @ to_ascii_lowercase t"
  by (simp add: to_ascii_lowercase_def)

lemma to_ascii_lower_char_idem [simp]:
  "to_ascii_lower_char (to_ascii_lower_char c) = to_ascii_lower_char c"
  by (auto simp: to_ascii_lower_char_def Let_def)

lemma to_ascii_lowercase_idem [simp]:
  "to_ascii_lowercase (to_ascii_lowercase s) = to_ascii_lowercase s"
  by (simp add: to_ascii_lowercase_def)

lemma split_first_Some:
  "split_first d s = Some (a, b) \<longleftrightarrow> s = a @ d # b \<and> d \<notin> set a"
proof (induction s arbitrary: a b)
  case Nil
  then show ?case by simp
next
  case (Cons c cs)
  show ?case
  proof (cases "c = d")
    case True
    then show ?thesis by (auto simp: Cons_eq_append_conv)
  next
    case False
    have "split_first d (c # cs) = Some (a, b) \<longleftrightarrow>
        (\<exists>a'. split_first d cs = Some (a', b) \<and> a = c # a')"
      using False by (auto split: option.splits)
    also have "\<dots> \<longleftrightarrow> (\<exists>a'. cs = a' @ d # b \<and> d \<notin> set a' \<and> a = c # a')"
      by (simp add: Cons.IH)
    also have "\<dots> \<longleftrightarrow> c # cs = a @ d # b \<and> d \<notin> set a"
      using False by (cases a) auto
    finally show ?thesis .
  qed
qed

lemma split_first_None: "split_first d s = None \<longleftrightarrow> d \<notin> set s"
  by (induction s) (auto split: option.splits)

lemma rsplit_once_Some:
  "rsplit_once d s = Some (a, b) \<longleftrightarrow> s = a @ d # b \<and> d \<notin> set b"
proof -
  have "rsplit_once d s = Some (a, b) \<longleftrightarrow> split_first d (rev s) = Some (rev b, rev a)"
    by (auto simp: rsplit_once_def split: option.splits)
  also have "\<dots> \<longleftrightarrow> rev s = rev b @ d # rev a \<and> d \<notin> set b"
    by (simp add: split_first_Some)
  also have "\<dots> \<longleftrightarrow> s = a @ d # b \<and> d \<notin> set b"
    by (metis append.assoc append_Cons append_Nil rev.simps(2) rev_append rev_swap)
  finally show ?thesis .
qed

lemma rsplit_once_None: "rsplit_once d s = None \<longleftrightarrow> d \<notin> set s"
proof -
  have "rsplit_once d s = None \<longleftrightarrow> split_first d (rev s) = None"
    by (simp add: rsplit_once_def split: option.splits)
  then show ?thesis by (simp add: split_first_None)
qed

lemma trim_subset: "set (trim s) \<subseteq> set s"
  by (auto simp: trim_def dest!: set_dropWhileD)

lemma dropWhile_hd: "dropWhile P xs \<noteq> [] \<Longrightarrow> \<not> P (hd (dropWhile P xs))"
  by (rule hd_dropWhile)

lemma list_update_same_length:
  "i < length xs \<Longrightarrow> (xs[i := x]) ! j = (if i = j then x else xs ! j)"
  by simp

lemma count_list_ge2_iff:
  "2 \<le> count_list xs x \<longleftrightarrow> (\<exists>i j. i < j \<and> j < length xs \<and> xs ! i = x \<and> xs ! j = x)"
proof (induction xs)
  case Nil
  then show ?case by simp
next
  case (Cons y ys)
  have one: "1 \<le> count_list ys x \<longleftrightarrow> (\<exists>j < length ys. ys ! j = x)"
    by (metis One_nat_def Suc_leI count_list_0_iff in_set_conv_nth le_zero_eq neq0_conv not_one_le_zero)
  have shift: "(\<exists>i j. i < j \<and> j < length (y # ys) \<and> (y # ys) ! i = x \<and> (y # ys) ! j = x) \<longleftrightarrow>
      (y = x \<and> (\<exists>j < length ys. ys ! j = x)) \<or>
      (\<exists>i j. i < j \<and> j < length ys \<and> ys ! i = x \<and> ys ! j = x)" (is "?L = ?R")
  proof
    assume ?L
    then obtain i j where *: "i < j" "j < length (y # ys)" "(y # ys) ! i = x" "(y # ys) ! j = x"
      by blast
    then obtain j' where j': "j = Suc j'" by (cases j) auto
    show ?R
    proof (cases i)
      case 0
      with * j' show ?thesis by auto
    next
      case (Suc i')
      with * j' have "i' < j' \<and> j' < length ys \<and> ys ! i' = x \<and> ys ! j' = x" by auto
      then show ?thesis by blast
    qed
  next
    assume ?R
    then show ?L
    proof
      assume "y = x \<and> (\<exists>j < length ys. ys ! j = x)"
      then obtain j where "y = x" "j < length ys" "ys ! j = x" by blast
      then have "0 < Suc j \<and> Suc j < length (y # ys) \<and> (y # ys) ! 0 = x \<and> (y # ys) ! Suc j = x"
        by simp
      then show ?L by blast
    next
      assume "\<exists>i j. i < j \<and> j < length ys \<and> ys ! i = x \<and> ys ! j = x"
      then obtain i j where "i < j" "j < length ys" "ys ! i = x" "ys ! j = x" by blast
      then have "Suc i < Suc j \<and> Suc j < length (y # ys) \<and> (y # ys) ! Suc i = x \<and>
          (y # ys) ! Suc j = x"
        by simp
      then show ?L by blast
    qed
  qed
  show ?case using Cons.IH one shift by auto
qed

lemma mem_map_filter: "y \<in> set (List.map_filter g xs) \<longleftrightarrow> (\<exists>x \<in> set xs. g x = Some y)"
  by (auto simp: List.map_filter_def intro!: image_eqI)

end
