(* ===== verification/FileSystem.thy ===== *)
theory FileSystem
  imports Prelude "HOL-Library.Finite_Map"
begin

text \<open>
  The part of \<open>std::fs\<close> and of the operating system that the transaction engine uses:
  directory entries with an inode identity, path resolution through symbolic links,
  \<open>symlink_metadata\<close>, \<open>metadata\<close>, \<open>canonicalize\<close>, \<open>read_dir\<close>, and the contract of
  \<open>renameat2(RENAME_NOREPLACE)\<close>.

  The system call itself is not code of the repository: it is a parameter of the model
  (\<open>ren\<close> below), and what its manual page documents of it is the locale
  \<open>noreplace_rename\<close>. The extension \<open>live_rename\<close> adds that the call succeeds when
  nothing documented forbids it. \<open>linux_rename\<close> is a concrete call that meets both.
\<close>

datatype node_kind = FileNode | DirNode | LinkNode path | SpecialNode

record fs_node =
  n_kind :: node_kind
  n_size :: nat
  n_mtime :: int
  n_ino :: nat
  n_dev :: nat

type_synonym fs = "(path, fs_node) fmap"

datatype sys_error = EEXIST | ENOENT | EXDEV | EOther string

type_synonym rename_call = "fs \<Rightarrow> path \<Rightarrow> path \<Rightarrow> sys_error + fs"

text \<open>The kernel follows at most forty links in one resolution.\<close>

definition max_symlinks :: nat where
  "max_symlinks = 40"

text \<open>Resolution of \<open>cs\<close> from the directory \<open>cur\<close>, with \<open>k\<close> links left to follow.\<close>

function fs_walk :: "nat \<Rightarrow> fs \<Rightarrow> path \<Rightarrow> path \<Rightarrow> path option" where
  "fs_walk k f cur [] = Some cur"
| "fs_walk k f cur (c # cs) =
     (case fmlookup f (cur @ [c]) of
        None \<Rightarrow> None
      | Some n \<Rightarrow>
          (case n_kind n of
             DirNode \<Rightarrow> fs_walk k f (cur @ [c]) cs
           | LinkNode t \<Rightarrow> (if k = 0 then None else fs_walk (k - 1) f [] (t @ cs))
           | FileNode \<Rightarrow> (if cs = [] then Some (cur @ [c]) else None)
           | SpecialNode \<Rightarrow> (if cs = [] then Some (cur @ [c]) else None)))"
  by pat_completeness auto
termination
  by (relation "measures [\<lambda>(k, f, cur, cs). k, \<lambda>(k, f, cur, cs). length cs]") auto

definition is_dir :: "fs \<Rightarrow> path \<Rightarrow> bool" where
  "is_dir f p \<longleftrightarrow>
     p = [] \<or> (case fmlookup f p of None \<Rightarrow> False | Some n \<Rightarrow> n_kind n = DirNode)"

definition canonicalize :: "fs \<Rightarrow> path \<Rightarrow> path option" where
  "canonicalize f p = fs_walk max_symlinks f [] p"

text \<open>The directory a path resolves to.\<close>

definition resolve_dir :: "fs \<Rightarrow> path \<Rightarrow> path option" where
  "resolve_dir f p =
     (case canonicalize f p of
        None \<Rightarrow> None
      | Some d \<Rightarrow> if is_dir f d then Some d else None)"

text \<open>
  The directory entry a path names: its parent is resolved through links, the last
  component is not followed.
\<close>

definition locate :: "fs \<Rightarrow> path \<Rightarrow> path option" where
  "locate f p =
     (if p = [] then Some []
      else map_option (\<lambda>d. d @ [last p]) (resolve_dir f (butlast p)))"

definition symlink_metadata :: "fs \<Rightarrow> path \<Rightarrow> fs_node option" where
  "symlink_metadata f p = Option.bind (locate f p) (fmlookup f)"

definition metadata :: "fs \<Rightarrow> path \<Rightarrow> fs_node option" where
  "metadata f p = Option.bind (canonicalize f p) (fmlookup f)"

text \<open>\<open>read_dir\<close>: the names in the directory a path resolves to.\<close>

definition read_dir :: "fs \<Rightarrow> path \<Rightarrow> string fset option" where
  "read_dir f p =
     map_option (\<lambda>d. last |`| ffilter (\<lambda>q. q \<noteq> [] \<and> butlast q = d) (fmdom f)) (resolve_dir f p)"

section \<open>What a resolution depends on\<close>

text \<open>Only directories and links take part in resolving a parent directory.\<close>

definition skeleton :: "fs \<Rightarrow> path \<Rightarrow> node_kind option" where
  "skeleton f p =
     (case fmlookup f p of
        None \<Rightarrow> None
      | Some n \<Rightarrow> (case n_kind n of FileNode \<Rightarrow> None | SpecialNode \<Rightarrow> None | k \<Rightarrow> Some k))"

lemma is_dir_skeleton: "skeleton f = skeleton g \<Longrightarrow> is_dir f = is_dir g"
proof
  fix p
  assume "skeleton f = skeleton g"
  then have "skeleton f p = skeleton g p" by simp
  then show "is_dir f p = is_dir g p"
    by (auto simp: skeleton_def is_dir_def split: option.splits node_kind.splits)
qed

definition dir_at :: "fs \<Rightarrow> path option \<Rightarrow> path option" where
  "dir_at f r = (case r of None \<Rightarrow> None | Some d \<Rightarrow> if is_dir f d then Some d else None)"

lemma dir_at_simps [simp]:
  "dir_at f None = None"
  "dir_at f (Some d) = (if is_dir f d then Some d else None)"
  by (simp_all add: dir_at_def)

lemma not_dir_leaf:
  "fmlookup f q = Some n \<Longrightarrow> q \<noteq> [] \<Longrightarrow> n_kind n \<noteq> DirNode \<Longrightarrow> \<not> is_dir f q"
  by (simp add: is_dir_def)

lemma not_dir_absent: "fmlookup f q = None \<Longrightarrow> q \<noteq> [] \<Longrightarrow> \<not> is_dir f q"
  by (simp add: is_dir_def)

lemma fs_walk_leaf:
  assumes "skeleton f (cur @ [c]) = None"
  shows "dir_at f (fs_walk k f cur (c # cs)) = None"
  using assms
  by (auto simp: skeleton_def dest: not_dir_leaf split: option.splits node_kind.splits)

lemma fs_walk_skeleton:
  "skeleton f = skeleton g \<Longrightarrow> dir_at f (fs_walk k f cur cs) = dir_at g (fs_walk k g cur cs)"
proof (induction k f cur cs rule: fs_walk.induct)
  case (1 k f cur)
  from is_dir_skeleton [OF 1] show ?case by simp
next
  case (2 k f cur c cs)
  have sk: "skeleton f (cur @ [c]) = skeleton g (cur @ [c])" using "2.prems" by simp
  show ?case
  proof (cases "skeleton f (cur @ [c])")
    case None
    then show ?thesis using sk fs_walk_leaf by metis
  next
    case (Some kd)
    then obtain n m where n: "fmlookup f (cur @ [c]) = Some n" "n_kind n = kd"
      and m: "fmlookup g (cur @ [c]) = Some m" "n_kind m = kd"
      and kd: "kd \<noteq> FileNode" "kd \<noteq> SpecialNode"
      using sk by (auto simp: skeleton_def split: option.splits node_kind.splits)
    show ?thesis
    proof (cases kd)
      case DirNode
      then show ?thesis using "2.IH"(1) [OF n(1)] "2.prems" n m by simp
    next
      case (LinkNode t)
      then show ?thesis using "2.IH"(2) [OF n(1)] "2.prems" n m by simp
    qed (use kd in auto)
  qed
qed

lemma resolve_dir_dir_at: "resolve_dir f p = dir_at f (canonicalize f p)"
  by (simp add: resolve_dir_def dir_at_def)

lemma resolve_dir_skeleton: "skeleton f = skeleton g \<Longrightarrow> resolve_dir f p = resolve_dir g p"
  unfolding resolve_dir_dir_at canonicalize_def by (rule fs_walk_skeleton)

lemma locate_skeleton: "skeleton f = skeleton g \<Longrightarrow> locate f p = locate g p"
  unfolding locate_def using resolve_dir_skeleton by metis

lemma skeleton_move_file:
  assumes "fmlookup f qs = Some n" and "n_kind n = FileNode" and "fmlookup f qd = None"
  shows "skeleton (fmupd qd n (fmdrop qs f)) = skeleton f"
  using assms by (auto simp: skeleton_def fun_eq_iff)

section \<open>The no-replace rename\<close>

text \<open>
  What the manual page says of \<open>renameat2\<close> with \<open>RENAME_NOREPLACE\<close>: it does nothing but
  fail when the new name exists, it needs the old name, it needs the parent directory of
  the new name, and it moves the directory entry of a file that is not a directory
  without touching the inode or any other entry.
\<close>

locale noreplace_rename =
  fixes ren :: rename_call
  assumes target_free: "ren f s d = Inr f' \<Longrightarrow> symlink_metadata f d = None"
    and source_there: "ren f s d = Inr f' \<Longrightarrow> symlink_metadata f s \<noteq> None"
    and target_dir: "ren f s d = Inr f' \<Longrightarrow> locate f d \<noteq> None"
    and moves_entry:
      "ren f s d = Inr f' \<Longrightarrow> locate f s = Some qs \<Longrightarrow> locate f d = Some qd \<Longrightarrow>
       fmlookup f qs = Some n \<Longrightarrow> n_kind n \<noteq> DirNode \<Longrightarrow> f' = fmupd qd n (fmdrop qs f)"
begin

lemma moved:
  assumes "ren f s d = Inr f'" and "symlink_metadata f s = Some n" and "n_kind n \<noteq> DirNode"
  obtains qs qd where "locate f s = Some qs" "locate f d = Some qd" "fmlookup f qs = Some n"
    "fmlookup f qd = None" "qs \<noteq> qd" "f' = fmupd qd n (fmdrop qs f)"
proof -
  from assms(2) obtain qs where qs: "locate f s = Some qs" "fmlookup f qs = Some n"
    by (auto simp: symlink_metadata_def bind_eq_Some_conv)
  from target_dir [OF assms(1)] obtain qd where qd: "locate f d = Some qd" by blast
  with target_free [OF assms(1)] have free: "fmlookup f qd = None"
    by (simp add: symlink_metadata_def)
  from moves_entry [OF assms(1) qs(1) qd qs(2) assms(3)]
  have "f' = fmupd qd n (fmdrop qs f)" .
  with qs qd free that show thesis by force
qed

lemma moved_file_locate:
  assumes "ren f s d = Inr f'" and "symlink_metadata f s = Some n" and "n_kind n = FileNode"
  shows "locate f' p = locate f p"
proof -
  obtain qs qd where "fmlookup f qs = Some n" "fmlookup f qd = None"
      "f' = fmupd qd n (fmdrop qs f)"
    by (rule moved [OF assms(1,2)]) (use assms(3) in auto)
  then have "skeleton f' = skeleton f" using skeleton_move_file [OF _ assms(3)] by metis
  then show ?thesis by (rule locate_skeleton)
qed

lemma moved_file_metadata:
  assumes "ren f s d = Inr f'" and "symlink_metadata f s = Some n" and "n_kind n = FileNode"
  shows "symlink_metadata f' p =
    (if locate f p = locate f d then Some n
     else if locate f p = locate f s then None
     else symlink_metadata f p)"
proof -
  obtain qs qd where q: "locate f s = Some qs" "locate f d = Some qd" "qs \<noteq> qd"
      "f' = fmupd qd n (fmdrop qs f)"
    by (rule moved [OF assms(1,2)]) (use assms(3) in auto)
  show ?thesis
    unfolding symlink_metadata_def moved_file_locate [OF assms]
    using q by (cases "locate f p") auto
qed

lemma moved_keeps_nodes:
  assumes "ren f s d = Inr f'" and "symlink_metadata f s = Some n" and "n_kind n \<noteq> DirNode"
  shows "fmran f' = fmran f"
proof -
  obtain qs qd where q: "fmlookup f qs = Some n" "fmlookup f qd = None" "qs \<noteq> qd"
      "f' = fmupd qd n (fmdrop qs f)"
    by (rule moved [OF assms])
  have "x |\<in>| fmran f' \<longleftrightarrow> x |\<in>| fmran f" for x
  proof
    assume "x |\<in>| fmran f'"
    then obtain p where p: "fmlookup f' p = Some x" by (auto simp: fmlookup_ran_iff)
    show "x |\<in>| fmran f"
    proof (cases "p = qd")
      case True
      then show ?thesis using p q by (auto simp: fmlookup_ran_iff)
    next
      case False
      then have "fmlookup f p = Some x" using p q by (auto split: if_splits)
      then show ?thesis by (auto simp: fmlookup_ran_iff)
    qed
  next
    assume "x |\<in>| fmran f"
    then obtain p where p: "fmlookup f p = Some x" by (auto simp: fmlookup_ran_iff)
    have "fmlookup f' (if p = qs then qd else p) = Some x" using p q by auto
    then show "x |\<in>| fmran f'" by (auto simp: fmlookup_ran_iff)
  qed
  then show ?thesis by blast
qed

end

text \<open>
  The same call when nothing refuses it: a file that exists and a free new name in an
  existing directory. The law leaves out the devices: it speaks of a tree on one device,
  where the call cannot fail with \<open>EXDEV\<close>. That the two directories are on one device is
  what the preflight checks of the code (\<open>same_filesystem\<close>) before a batch is applied.
\<close>

locale live_rename = noreplace_rename +
  assumes progress:
    "symlink_metadata f s = Some n \<Longrightarrow> n_kind n \<noteq> DirNode \<Longrightarrow> locate f d = Some qd \<Longrightarrow>
     fmlookup f qd = None \<Longrightarrow> \<exists>f'. ren f s d = Inr f'"

text \<open>
  A concrete call: one device, and directories are refused (which the contract allows).
\<close>

definition linux_rename :: rename_call where
  "linux_rename f s d =
     (case locate f s of
        None \<Rightarrow> Inl ENOENT
      | Some qs \<Rightarrow>
          (case fmlookup f qs of
             None \<Rightarrow> Inl ENOENT
           | Some n \<Rightarrow>
               (case locate f d of
                  None \<Rightarrow> Inl ENOENT
                | Some qd \<Rightarrow>
                    if fmlookup f qd \<noteq> None then Inl EEXIST
                    else if n_kind n = DirNode then Inl (EOther ''directory'')
                    else Inr (fmupd qd n (fmdrop qs f)))))"

interpretation lnx: live_rename linux_rename
proof unfold_locales
  fix f s d f'
  assume *: "linux_rename f s d = Inr f'"
  then show "symlink_metadata f d = None" and "symlink_metadata f s \<noteq> None"
      and "locate f d \<noteq> None"
    by (auto simp: linux_rename_def symlink_metadata_def split: option.splits if_splits)
next
  fix f s d f' qs qd n
  assume "linux_rename f s d = Inr f'" "locate f s = Some qs" "locate f d = Some qd"
    "fmlookup f qs = Some n" "n_kind n \<noteq> DirNode"
  then show "f' = fmupd qd n (fmdrop qs f)"
    by (auto simp: linux_rename_def split: if_splits)
next
  fix f s n d qd
  assume "symlink_metadata f s = Some n" "n_kind n \<noteq> DirNode" "locate f d = Some qd"
    "fmlookup f qd = None"
  then show "\<exists>f'. linux_rename f s d = Inr f'"
    by (auto simp: linux_rename_def symlink_metadata_def bind_eq_Some_conv)
qed

end
