(* ===== verification/TxnModel.thy ===== *)
theory TxnModel
  imports FileSystem
begin

text \<open>
  The transaction model: \<open>dat/rename_apply/model.rs\<close>, and the object identities of
  \<open>dat/rename_apply/identity.rs\<close>.

  A record field is the source's field with a two-letter prefix; an enumeration's
  variant is the source's variant, prefixed where two enumerations share a name
  (\<open>Ts\<close> for \<open>TransactionState\<close>, \<open>Es\<close> for \<open>EntryState\<close>, \<open>Rs\<close> for \<open>RollbackStatus\<close>).
  The \<open>unknown\<close> maps hold the raw JSON text of keys this build does not read.
\<close>

section \<open>States\<close>

datatype transaction_state =
  TsPlanned | TsApplying | TsApplied | TsApplyFailed | TsRollingBack | TsRolledBack
| TsRollbackFailed

fun needs_recovery :: "transaction_state \<Rightarrow> bool" where
  "needs_recovery TsPlanned = True"
| "needs_recovery TsApplying = True"
| "needs_recovery TsApplyFailed = True"
| "needs_recovery TsRollingBack = True"
| "needs_recovery TsRollbackFailed = True"
| "needs_recovery _ = False"

datatype entry_state =
  EsPlanned | EsPreflightPassed | EsApplying | EsApplied | EsApplyFailed | EsRollingBack
| EsRolledBack | EsRollbackFailed | EsSkipped

datatype object_kind = RegularFile | Symlink | BrokenSymlink | OtherObject

record object_identity =
  id_size_bytes :: nat
  id_modified_unix :: int
  id_kind :: object_kind
  id_ino :: nat
  id_dev :: nat

record transaction_entry =
  te_source_path :: path
  te_destination_path :: path
  te_original_basename :: string
  te_proposed_basename :: string
  te_identity :: object_identity
  te_preflight_passed :: bool
  te_preflight_failures :: "string list"
  te_state :: entry_state
  te_failure_reason :: "string option"
  te_applied_at_unix :: "nat option"
  te_rolled_back_at_unix :: "nat option"
  te_unknown :: "(string \<times> string) list"

definition is_eligible_for_rollback :: "transaction_entry \<Rightarrow> bool" where
  "is_eligible_for_rollback e \<longleftrightarrow> te_state e = EsApplied"

record rename_transaction =
  tx_transaction_id :: string
  tx_plan_generation :: nat
  tx_classifier_version :: "string option"
  tx_created_at_unix :: nat
  tx_source_scan_root :: string
  tx_state :: transaction_state
  tx_entries :: "transaction_entry list"
  tx_created_directories :: "path list"
  tx_unknown :: "(string \<times> string) list"

section \<open>Counts and predicates\<close>

definition count_state :: "entry_state \<Rightarrow> transaction_entry list \<Rightarrow> nat" where
  "count_state s es = length (filter (\<lambda>e. te_state e = s) es)"

definition applied_count :: "rename_transaction \<Rightarrow> nat" where
  "applied_count t = count_state EsApplied (tx_entries t)"

definition skipped_count :: "rename_transaction \<Rightarrow> nat" where
  "skipped_count t = count_state EsSkipped (tx_entries t)"

definition failed_count :: "rename_transaction \<Rightarrow> nat" where
  "failed_count t = count_state EsApplyFailed (tx_entries t)"

definition rolled_back_count :: "rename_transaction \<Rightarrow> nat" where
  "rolled_back_count t = count_state EsRolledBack (tx_entries t)"

definition has_applied_entries :: "rename_transaction \<Rightarrow> bool" where
  "has_applied_entries t \<longleftrightarrow> applied_count t > 0"

definition is_settled :: "rename_transaction \<Rightarrow> bool" where
  "is_settled t \<longleftrightarrow> tx_state t \<notin> {TsPlanned, TsApplying, TsRollingBack}"

definition is_rollbackable :: "rename_transaction \<Rightarrow> bool" where
  "is_rollbackable t \<longleftrightarrow>
     (tx_state t = TsApplied \<and> has_applied_entries t) \<or> needs_recovery (tx_state t)"

section \<open>Summaries and results\<close>

datatype rollback_status =
  RsNotRequested | RsFullyRolledBack | RsPartiallyRolledBack | RsRollbackFailed

record transaction_summary =
  ts_transaction_id :: string
  ts_requested :: nat
  ts_applied :: nat
  ts_skipped :: nat
  ts_failed :: nat
  ts_rollback :: rollback_status
  ts_started_at_unix :: "nat option"
  ts_ended_at_unix :: "nat option"

definition summary_from_transaction :: "rename_transaction \<Rightarrow> transaction_summary" where
  "summary_from_transaction t =
     \<lparr> ts_transaction_id = tx_transaction_id t,
       ts_requested = length (tx_entries t),
       ts_applied = applied_count t,
       ts_skipped = skipped_count t,
       ts_failed = failed_count t,
       ts_rollback =
         (case tx_state t of
            TsRolledBack \<Rightarrow> RsFullyRolledBack
          | TsRollbackFailed \<Rightarrow> RsRollbackFailed
          | TsApplyFailed \<Rightarrow>
              (if rolled_back_count t > 0 then RsPartiallyRolledBack else RsNotRequested)
          | TsApplied \<Rightarrow>
              (if rolled_back_count t > 0 then RsPartiallyRolledBack else RsNotRequested)
          | _ \<Rightarrow> RsNotRequested),
       ts_started_at_unix = None,
       ts_ended_at_unix = None \<rparr>"

datatype rollback_result =
  FullyRolledBack
| PartiallyRolledBack "path list" "(path \<times> string) list"
| RollbackFailed "(path \<times> string) list"

fun rolled_back_paths :: "rollback_result \<Rightarrow> path list" where
  "rolled_back_paths FullyRolledBack = []"
| "rolled_back_paths (PartiallyRolledBack rolled_back failed) = rolled_back"
| "rolled_back_paths (RollbackFailed failed) = []"

fun rollback_failures :: "rollback_result \<Rightarrow> (path \<times> string) list" where
  "rollback_failures FullyRolledBack = []"
| "rollback_failures (PartiallyRolledBack rolled_back failed) = failed"
| "rollback_failures (RollbackFailed failed) = failed"

section \<open>Object identity\<close>

text \<open>\<open>classify_at\<close>: the kind of the object itself; a link is broken when its target is.\<close>

definition classify_at :: "fs \<Rightarrow> path \<Rightarrow> object_kind option" where
  "classify_at f p =
     (case symlink_metadata f p of
        None \<Rightarrow> None
      | Some n \<Rightarrow>
          (case n_kind n of
             LinkNode t \<Rightarrow> Some (if metadata f p \<noteq> None then Symlink else BrokenSymlink)
           | FileNode \<Rightarrow> Some RegularFile
           | _ \<Rightarrow> Some OtherObject))"

text \<open>\<open>capture_identity\<close>: a modification time before the epoch is recorded as 0.\<close>

definition capture_identity :: "fs \<Rightarrow> path \<Rightarrow> object_identity option" where
  "capture_identity f p =
     (case symlink_metadata f p of
        None \<Rightarrow> None
      | Some n \<Rightarrow>
          (case classify_at f p of
             None \<Rightarrow> None
           | Some k \<Rightarrow>
               Some \<lparr> id_size_bytes = n_size n,
                      id_modified_unix = (if n_mtime n < 0 then 0 else n_mtime n),
                      id_kind = k,
                      id_ino = n_ino n,
                      id_dev = n_dev n \<rparr>))"

definition identity_matches :: "object_identity \<Rightarrow> object_identity \<Rightarrow> bool" where
  "identity_matches expected current =
     (if id_kind expected \<noteq> id_kind current \<or> id_size_bytes expected \<noteq> id_size_bytes current
      then False
      else if id_ino expected \<noteq> id_ino current \<or> id_dev expected \<noteq> id_dev current then False
      else True)"

text \<open>Whether the object at a path is the recorded one.\<close>

definition holds_object :: "fs \<Rightarrow> path \<Rightarrow> object_identity \<Rightarrow> bool" where
  "holds_object f p ident \<longleftrightarrow>
     (case capture_identity f p of None \<Rightarrow> False | Some cur \<Rightarrow> identity_matches ident cur)"

definition absent :: "fs \<Rightarrow> path \<Rightarrow> bool" where
  "absent f p \<longleftrightarrow> symlink_metadata f p = None"

section \<open>Facts about identities\<close>

lemma identity_matches_refl [simp]: "identity_matches i i"
  by (simp add: identity_matches_def)

lemma identity_matches_sym: "identity_matches a b \<Longrightarrow> identity_matches b a"
  by (simp add: identity_matches_def split: if_splits)

lemma identity_matches_trans:
  "identity_matches a b \<Longrightarrow> identity_matches b c \<Longrightarrow> identity_matches a c"
  by (simp add: identity_matches_def split: if_splits)

lemma capture_identity_None: "capture_identity f p = None \<longleftrightarrow> absent f p"
  by (auto simp: capture_identity_def classify_at_def absent_def
      split: option.splits node_kind.splits)

lemma holds_object_present: "holds_object f p i \<Longrightarrow> \<not> absent f p"
  unfolding capture_identity_None [symmetric] by (auto simp: holds_object_def split: option.splits)

lemma capture_regular:
  "capture_identity f p = Some i \<Longrightarrow> id_kind i = RegularFile \<Longrightarrow>
   \<exists>n. symlink_metadata f p = Some n \<and> n_kind n = FileNode"
  by (auto simp: capture_identity_def classify_at_def split: option.splits node_kind.splits if_splits)

lemma holds_regular_file:
  assumes "holds_object f p i" and "id_kind i = RegularFile"
  obtains n where "symlink_metadata f p = Some n" and "n_kind n = FileNode"
  using assms capture_regular
  by (fastforce simp: holds_object_def identity_matches_def split: option.splits if_splits)

text \<open>For a regular file the identity is a function of its directory entry.\<close>

definition file_identity :: "fs_node \<Rightarrow> object_identity" where
  "file_identity n =
     \<lparr> id_size_bytes = n_size n, id_modified_unix = (if n_mtime n < 0 then 0 else n_mtime n),
       id_kind = RegularFile, id_ino = n_ino n, id_dev = n_dev n \<rparr>"

lemma capture_file:
  "symlink_metadata f p = Some n \<Longrightarrow> n_kind n = FileNode \<Longrightarrow>
   capture_identity f p = Some (file_identity n)"
  by (simp add: capture_identity_def classify_at_def file_identity_def)

lemma holds_file:
  "symlink_metadata f p = Some n \<Longrightarrow> n_kind n = FileNode \<Longrightarrow>
   holds_object f p i \<longleftrightarrow> identity_matches i (file_identity n)"
  by (simp add: holds_object_def capture_file)

lemma holds_object_cong:
  assumes "symlink_metadata f p = symlink_metadata g q" and "id_kind i = RegularFile"
  shows "holds_object f p i = holds_object g q i"
proof -
  have *: "holds_object g' q' i \<Longrightarrow> symlink_metadata f' p' = symlink_metadata g' q' \<Longrightarrow>
      holds_object f' p' i" for f' p' g' q'
    by (metis holds_file holds_regular_file assms(2))
  show ?thesis using * [of f p g q] * [of g q f p] assms(1) by metis
qed

lemma applied_count_pos: "applied_count t > 0 \<longleftrightarrow> (\<exists>e \<in> set (tx_entries t). te_state e = EsApplied)"
  by (auto simp: applied_count_def count_state_def filter_empty_conv)

end
