(* ===== verification/TxnJournal.thy ===== *)
theory TxnJournal
  imports TxnModel
begin

text \<open>
  The durable journal (\<open>dat/rename_apply/journal.rs\<close>), the rename primitive
  (\<open>dat/rename_apply/noclobber.rs\<close>) and the world they act on.

  The world holds the file system, the journal directory (journal file name to the last
  transaction written there), a count of the steps taken so far, and a ghost history of
  the durable effects, each with the file system around it: a journal write and a rename,
  and for the organisation of a library (\<open>OrgTransaction\<close>) a directory made or removed. The
  history is what a crash can interrupt; no operation reads it.

  Everything outside the program is the environment: the rename system call, the clock,
  the cancellation flag, whether a journal write fails, and what other processes do to
  the file system before each step. All but the call are indexed by the step count.
\<close>

datatype event =
  JournalWritten rename_transaction fs
| Renamed path path fs fs
| DirCreated path fs fs
| DirRemoved path fs fs

record world =
  w_fs :: fs
  w_disk :: "(string, rename_transaction) fmap"
  w_tick :: nat
  w_hist :: "event list"

record env =
  e_ren :: rename_call
  e_now :: "nat \<Rightarrow> nat"
  e_cancel :: "nat \<Rightarrow> bool"
  e_journal_err :: "nat \<Rightarrow> string option"
  e_other :: "nat \<Rightarrow> fs \<Rightarrow> fs"

definition interleave :: "env \<Rightarrow> world \<Rightarrow> world" where
  "interleave env w = w\<lparr>w_fs := e_other env (w_tick w) (w_fs w), w_tick := Suc (w_tick w)\<rparr>"

definition read_cancel :: "env \<Rightarrow> world \<Rightarrow> bool \<times> world" where
  "read_cancel env w = (e_cancel env (w_tick w), interleave env w)"

definition now_unix :: "env \<Rightarrow> world \<Rightarrow> nat" where
  "now_unix env w = e_now env (w_tick w)"

section \<open>Journal files\<close>

definition max_journal_name_bytes :: nat where
  "max_journal_name_bytes = 128"

text \<open>\<open>new_transaction_id\<close>: the time and a process-wide sequence number.\<close>

definition new_transaction_id :: "nat \<Rightarrow> nat \<Rightarrow> string" where
  "new_transaction_id now sequence = nat_to_string now @ ''-'' @ nat_to_string sequence"

definition journal_file_name :: "string \<Rightarrow> string option" where
  "journal_file_name transaction_id =
     (if transaction_id = [] \<or> utf8_len transaction_id > max_journal_name_bytes
         \<or> slash \<in> set transaction_id \<or> backslash \<in> set transaction_id \<or> nul \<in> set transaction_id
         \<or> transaction_id = ''.'' \<or> transaction_id = ''..''
      then None
      else Some (transaction_id @ ''.json''))"

text \<open>
  \<open>write_journal\<close>: a name that is not usable is an error; \<open>atomic_write_text\<close> either puts
  the whole new text in place or reports an error and leaves the old text.
\<close>

definition write_journal :: "env \<Rightarrow> rename_transaction \<Rightarrow> world \<Rightarrow> (string + unit) \<times> world" where
  "write_journal env t w =
     (let w1 = interleave env w in
      case journal_file_name (tx_transaction_id t) of
        None \<Rightarrow>
          (Inl (''transaction id '' @ [quote] @ tx_transaction_id t @ [quote] @
                '' cannot name a journal file''), w1)
      | Some name \<Rightarrow>
          (case e_journal_err env (w_tick w) of
             Some err \<Rightarrow> (Inl err, w1)
           | None \<Rightarrow>
               (Inr (), w1\<lparr>w_disk := fmupd name t (w_disk w1),
                           w_hist := w_hist w1 @ [JournalWritten t (w_fs w1)]\<rparr>)))"

text \<open>
  \<open>read_journal\<close> gives back the transaction written last (the JSON encoding is \<open>serde\<close>'s);
  a journal that does not parse would be a problem line, which this store cannot hold.
\<close>

definition read_journal :: "world \<Rightarrow> string \<Rightarrow> rename_transaction option" where
  "read_journal w transaction_id =
     Option.bind (journal_file_name transaction_id) (fmlookup (w_disk w))"

definition journal_exists :: "world \<Rightarrow> string \<Rightarrow> bool" where
  "journal_exists w transaction_id \<longleftrightarrow>
     (case journal_file_name transaction_id of
        None \<Rightarrow> False
      | Some name \<Rightarrow> fmlookup (w_disk w) name \<noteq> None)"

definition remove_journal :: "string \<Rightarrow> world \<Rightarrow> world" where
  "remove_journal transaction_id w =
     (case journal_file_name transaction_id of
        None \<Rightarrow> w
      | Some name \<Rightarrow> w\<lparr>w_disk := fmdrop name (w_disk w)\<rparr>)"

text \<open>
  \<open>find_recovery_transactions\<close> and \<open>find_rollbackable_transactions\<close> on the list
  \<open>list_journals\<close> returns.
\<close>

definition find_recovery_transactions :: "rename_transaction list \<Rightarrow> rename_transaction list" where
  "find_recovery_transactions all = filter (\<lambda>t. needs_recovery (tx_state t)) all"

definition find_rollbackable_transactions :: "rename_transaction list \<Rightarrow> rename_transaction list" where
  "find_rollbackable_transactions all = filter is_rollbackable all"

definition terminal_state_after_apply :: "rename_transaction \<Rightarrow> transaction_state" where
  "terminal_state_after_apply t = (if failed_count t > 0 then TsApplyFailed else TsApplied)"

section \<open>The rename primitive\<close>

datatype no_clobber_error = DestinationExists | UnsupportedPlatform | Io string

fun no_clobber_display :: "no_clobber_error \<Rightarrow> string" where
  "no_clobber_display DestinationExists = ''the destination already exists''"
| "no_clobber_display UnsupportedPlatform =
     ''no no-clobber rename primitive is available on this platform''"
| "no_clobber_display (Io detail) = detail"

primrec sys_error_text :: "sys_error \<Rightarrow> string" where
  "sys_error_text EEXIST = ''File exists (os error 17)''"
| "sys_error_text ENOENT = ''No such file or directory (os error 2)''"
| "sys_error_text EXDEV = ''Invalid cross-device link (os error 18)''"
| "sys_error_text (EOther s) = s"

definition has_nul :: "path \<Rightarrow> bool" where
  "has_nul p \<longleftrightarrow> (\<exists>c \<in> set p. nul \<in> set c)"

definition rename_noreplace ::
    "env \<Rightarrow> path \<Rightarrow> path \<Rightarrow> world \<Rightarrow> (no_clobber_error + unit) \<times> world" where
  "rename_noreplace env source destination w =
     (let w1 = interleave env w in
      if has_nul source then (Inl (Io ''source path contains a NUL byte''), w1)
      else if has_nul destination then (Inl (Io ''destination path contains a NUL byte''), w1)
      else (case e_ren env (w_fs w1) source destination of
              Inl EEXIST \<Rightarrow> (Inl DestinationExists, w1)
            | Inl err \<Rightarrow> (Inl (Io (sys_error_text err)), w1)
            | Inr f' \<Rightarrow>
                (Inr (), w1\<lparr>w_fs := f',
                            w_hist := w_hist w1 @ [Renamed source destination (w_fs w1) f']\<rparr>)))"

section \<open>What the effects change\<close>

text \<open>A quiet environment: no other process touches the file system.\<close>

definition quiet :: "env \<Rightarrow> bool" where
  "quiet env \<longleftrightarrow> (\<forall>n f. e_other env n f = f)"

text \<open>Every journal write succeeds.\<close>

definition journal_works :: "env \<Rightarrow> bool" where
  "journal_works env \<longleftrightarrow> (\<forall>n. e_journal_err env n = None)"

definition never_cancelled :: "env \<Rightarrow> bool" where
  "never_cancelled env \<longleftrightarrow> (\<forall>n. \<not> e_cancel env n)"

lemma interleave_simps [world_simps, simp]:
  "w_disk (interleave env w) = w_disk w"
  "w_hist (interleave env w) = w_hist w"
  "w_tick (interleave env w) = Suc (w_tick w)"
  by (simp_all add: interleave_def)

lemma interleave_fs_quiet [simp]: "quiet env \<Longrightarrow> w_fs (interleave env w) = w_fs w"
  by (simp add: interleave_def quiet_def)

lemma read_cancel_world [simp]: "snd (read_cancel env w) = interleave env w"
  by (simp add: read_cancel_def)

lemma write_journal_cases:
  assumes "write_journal env t w = (r, w')"
  obtains (written) name where "journal_file_name (tx_transaction_id t) = Some name"
      "r = Inr ()" "w_fs w' = w_fs (interleave env w)" "w_disk w' = fmupd name t (w_disk w)"
      "w_hist w' = w_hist w @ [JournalWritten t (w_fs w')]"
  | (failed) err where "r = Inl err" "w' = interleave env w"
  using assms
  by (auto simp: write_journal_def Let_def split: option.splits)

lemma write_journal_fs [simp]:
  "write_journal env t w = (r, w') \<Longrightarrow> quiet env \<Longrightarrow> w_fs w' = w_fs w"
  by (erule write_journal_cases) simp_all

lemma rename_noreplace_cases:
  assumes "rename_noreplace env s d w = (r, w')"
  obtains (moved) f' where "r = Inr ()"
      "e_ren env (w_fs (interleave env w)) s d = Inr f'" "w_fs w' = f'" "w_disk w' = w_disk w"
      "w_hist w' = w_hist w @ [Renamed s d (w_fs (interleave env w)) f']"
  | (refused) err where "r = Inl err" "w' = interleave env w"
  using assms
  by (auto simp: rename_noreplace_def Let_def split: if_splits sum.splits sys_error.splits)

lemma journal_file_name_Some:
  "journal_file_name i = Some n \<Longrightarrow> n = i @ ''.json'' \<and> slash \<notin> set i \<and> i \<noteq> []"
  by (simp add: journal_file_name_def split: if_splits)

lemma journal_file_name_inj:
  "journal_file_name i = Some n \<Longrightarrow> journal_file_name j = Some n \<Longrightarrow> i = j"
  by (auto dest!: journal_file_name_Some)

end
