(* ===== verification/TxnPreflight.thy ===== *)
theory TxnPreflight
  imports TxnJournal
begin

text \<open>
  The preflight of one entry: \<open>dat/rename_apply/preflight.rs\<close>, with the trusted roots of
  \<open>safe_read/mod.rs\<close>. A preflight reads the file system and lists every failing check.
  It is proved sound and complete: no failure is listed exactly when the entry is safe to
  rename, and what that means is spelled out check by check.
\<close>

section \<open>Failures\<close>

datatype preflight_failure =
  SourceMissing
| SourceNotRegular
| SourceIsSymlink
| SourceIdentityChanged
| SourceBasenameChanged
| DestinationAlreadyExists
| DestinationCaseCollision
| DestinationUnsafe
| DestinationParentChanged
| OutsideTrustedRoot
| CrossFilesystemUnsupported
| DestinationOnDifferentFilesystem
| GenerationMismatch nat nat
| NotApproved
| NotActionable
| ConflictingBatchTarget

primrec preflight_reason :: "preflight_failure \<Rightarrow> string" where
  "preflight_reason SourceMissing = ''the source file no longer exists''"
| "preflight_reason SourceNotRegular = ''the source is no longer a regular file''"
| "preflight_reason SourceIsSymlink =
     ''the source has been replaced by a symlink; a symlink is never renamed''"
| "preflight_reason SourceIdentityChanged =
     ''the source file is no longer the same object that was reviewed''"
| "preflight_reason SourceBasenameChanged = ''the source file has been renamed since review''"
| "preflight_reason DestinationAlreadyExists =
     ''the destination name now exists; it is never overwritten''"
| "preflight_reason DestinationCaseCollision =
     ''a sibling whose name differs from the destination only by case now exists''"
| "preflight_reason DestinationUnsafe = ''the destination name is no longer a safe filename''"
| "preflight_reason DestinationParentChanged =
     ''the destination parent directory is no longer the same directory''"
| "preflight_reason OutsideTrustedRoot =
     ''the rename would operate outside the configured trusted roots''"
| "preflight_reason CrossFilesystemUnsupported =
     ''the source and destination are not in the same directory''"
| "preflight_reason DestinationOnDifferentFilesystem =
     ''the source and destination are on different filesystems; a cross-filesystem '' @
     ''move is not yet supported safely''"
| "preflight_reason (GenerationMismatch current expected) =
     ''the plan generation changed since approval (now '' @ nat_to_string current @
     '', expected '' @ nat_to_string expected @ ''); the plan is stale''"
| "preflight_reason NotApproved =
     ''this proposal has not been explicitly approved by the user''"
| "preflight_reason NotActionable = ''this proposal is not in a Suggested, actionable state''"
| "preflight_reason ConflictingBatchTarget =
     ''two proposals in this batch target the same destination''"

datatype directory_policy = SameDirectory | SameFilesystem

type_synonym trusted_roots = "path list"

text \<open>\<open>TrustedRoots::contains_canonical\<close>: whole components, so a sibling with a longer name
  is outside.\<close>

definition contains_canonical :: "trusted_roots \<Rightarrow> path \<Rightarrow> bool" where
  "contains_canonical roots candidate \<longleftrightarrow> (\<exists>root \<in> set roots. path_starts_with candidate root)"

record preflight_options =
  po_plan_generation :: nat
  po_current_generation :: nat
  po_approved_paths :: "path set"
  po_trusted :: trusted_roots
  po_batch_destinations :: "path set"
  po_directory_policy :: directory_policy
  po_allow_symlink_source :: bool

section \<open>The checks\<close>

definition is_safe_basename :: "string \<Rightarrow> bool" where
  "is_safe_basename basename \<longleftrightarrow>
     basename \<noteq> [] \<and> basename \<noteq> ''.'' \<and> basename \<noteq> ''..'' \<and>
     slash \<notin> set basename \<and> backslash \<notin> set basename \<and> nul \<notin> set basename"

definition same_filesystem :: "fs \<Rightarrow> path option \<Rightarrow> path option \<Rightarrow> bool" where
  "same_filesystem f left right =
     (case (left, right) of
        (Some l, Some r) \<Rightarrow>
          (case (metadata f l, metadata f r) of
             (Some ml, Some mr) \<Rightarrow> n_dev ml = n_dev mr
           | _ \<Rightarrow> False)
      | _ \<Rightarrow> False)"

text \<open>\<open>batch_destinations\<close>: one pass with the sets \<open>seen\<close> and \<open>duplicates\<close>.\<close>

fun batch_destinations_loop :: "path set \<Rightarrow> path set \<Rightarrow> transaction_entry list \<Rightarrow> path set" where
  "batch_destinations_loop seen duplicates [] = duplicates"
| "batch_destinations_loop seen duplicates (e # es) =
     (let d = te_destination_path e in
      if d \<in> seen then batch_destinations_loop seen (insert d duplicates) es
      else batch_destinations_loop (insert d seen) duplicates es)"

definition batch_destinations :: "transaction_entry list \<Rightarrow> path set" where
  "batch_destinations es = batch_destinations_loop {} {} es"

definition check_generation :: "preflight_options \<Rightarrow> preflight_failure list" where
  "check_generation opts =
     (if po_plan_generation opts \<noteq> po_current_generation opts
      then [GenerationMismatch (po_current_generation opts) (po_plan_generation opts)] else [])"

definition check_approved :: "transaction_entry \<Rightarrow> preflight_options \<Rightarrow> preflight_failure list" where
  "check_approved e opts =
     (if te_source_path e \<notin> po_approved_paths opts then [NotApproved] else [])"

definition check_basename :: "transaction_entry \<Rightarrow> preflight_failure list" where
  "check_basename e =
     (if \<not> is_safe_basename (te_proposed_basename e) then [DestinationUnsafe] else [])"

definition check_directory :: "fs \<Rightarrow> transaction_entry \<Rightarrow> preflight_options \<Rightarrow> preflight_failure list" where
  "check_directory f e opts =
     (let sp = path_parent (te_source_path e); dp = path_parent (te_destination_path e) in
      case po_directory_policy opts of
        SameDirectory \<Rightarrow> (if sp \<noteq> dp then [CrossFilesystemUnsupported] else [])
      | SameFilesystem \<Rightarrow>
          (if \<not> same_filesystem f sp dp then [DestinationOnDifferentFilesystem] else []))"

definition inside_roots :: "fs \<Rightarrow> trusted_roots \<Rightarrow> path \<Rightarrow> bool" where
  "inside_roots f roots p =
     (case canonicalize f p of None \<Rightarrow> False | Some c \<Rightarrow> contains_canonical roots c)"

definition check_trusted :: "fs \<Rightarrow> transaction_entry \<Rightarrow> preflight_options \<Rightarrow> preflight_failure list" where
  "check_trusted f e opts =
     (if po_trusted opts = [] then []
      else (case path_parent (te_source_path e) of
              None \<Rightarrow> [OutsideTrustedRoot]
            | Some sp \<Rightarrow>
                (let inside = inside_roots f (po_trusted opts) sp;
                     destination_parent_ok =
                       (case path_parent (te_destination_path e) of
                          None \<Rightarrow> False
                        | Some dp \<Rightarrow> inside_roots f (po_trusted opts) dp)
                 in if \<not> inside \<or> \<not> destination_parent_ok then [OutsideTrustedRoot] else [])))"

definition check_identity :: "fs \<Rightarrow> transaction_entry \<Rightarrow> preflight_options \<Rightarrow> preflight_failure list" where
  "check_identity f e opts =
     (case capture_identity f (te_source_path e) of
        None \<Rightarrow> [SourceMissing]
      | Some current \<Rightarrow>
          (if id_kind current = Symlink \<or> id_kind current = BrokenSymlink
           then (if \<not> po_allow_symlink_source opts then [SourceIsSymlink] else [])
           else if id_kind current \<noteq> RegularFile then [SourceNotRegular] else []) @
          (if \<not> identity_matches (te_identity e) current then [SourceIdentityChanged] else []))"

definition check_source_name :: "transaction_entry \<Rightarrow> preflight_failure list" where
  "check_source_name e =
     (if path_file_name (te_source_path e) \<noteq> Some (te_original_basename e)
      then [SourceBasenameChanged] else [])"

definition case_collision :: "transaction_entry \<Rightarrow> string fset \<Rightarrow> bool" where
  "case_collision e names =
     fBex names (\<lambda>name.
       to_ascii_lowercase name = to_ascii_lowercase (te_proposed_basename e) \<and>
       name \<noteq> te_original_basename e \<and> name \<noteq> te_proposed_basename e)"

definition check_destination :: "fs \<Rightarrow> transaction_entry \<Rightarrow> preflight_failure list" where
  "check_destination f e =
     (if symlink_metadata f (te_destination_path e) \<noteq> None then [DestinationAlreadyExists]
      else (case path_parent (te_destination_path e) of
              None \<Rightarrow> []
            | Some parent \<Rightarrow>
                (case read_dir f parent of
                   None \<Rightarrow> []
                 | Some names \<Rightarrow>
                     if case_collision e names then [DestinationCaseCollision] else [])))"

definition check_batch :: "transaction_entry \<Rightarrow> preflight_options \<Rightarrow> preflight_failure list" where
  "check_batch e opts =
     (if te_destination_path e \<in> po_batch_destinations opts then [ConflictingBatchTarget] else [])"

text \<open>
  The checks in the source's order. Where the trusted-root check finds no parent
  directory of the source, the source returns at once with the failures found so far.
\<close>

definition preflight_failures :: "fs \<Rightarrow> transaction_entry \<Rightarrow> preflight_options \<Rightarrow> preflight_failure list" where
  "preflight_failures f e opts =
     (let first = check_generation opts @ check_approved e opts @ check_basename e @
                  check_directory f e opts
      in if po_trusted opts \<noteq> [] \<and> path_parent (te_source_path e) = None
         then first @ [OutsideTrustedRoot]
         else first @ check_trusted f e opts @ check_identity f e opts @ check_source_name e @
              check_destination f e @ check_batch e opts)"

definition run_preflight ::
    "fs \<Rightarrow> transaction_entry \<Rightarrow> preflight_options \<Rightarrow> preflight_failure list + unit" where
  "run_preflight f e opts =
     (let failures = preflight_failures f e opts in
      if failures = [] then Inr () else Inl failures)"

section \<open>What a passed preflight says\<close>

text \<open>The abstract contract: an entry that is safe to rename now.\<close>

definition safe_to_rename :: "fs \<Rightarrow> transaction_entry \<Rightarrow> preflight_options \<Rightarrow> bool" where
  "safe_to_rename f e opts \<longleftrightarrow>
     po_plan_generation opts = po_current_generation opts \<and>
     te_source_path e \<in> po_approved_paths opts \<and>
     is_safe_basename (te_proposed_basename e) \<and>
     (case po_directory_policy opts of
        SameDirectory \<Rightarrow> path_parent (te_source_path e) = path_parent (te_destination_path e)
      | SameFilesystem \<Rightarrow>
          same_filesystem f (path_parent (te_source_path e)) (path_parent (te_destination_path e))) \<and>
     (po_trusted opts = [] \<or>
        (\<exists>sp dp. path_parent (te_source_path e) = Some sp \<and>
                 path_parent (te_destination_path e) = Some dp \<and>
                 inside_roots f (po_trusted opts) sp \<and> inside_roots f (po_trusted opts) dp)) \<and>
     (\<exists>current. capture_identity f (te_source_path e) = Some current \<and>
        identity_matches (te_identity e) current \<and>
        (id_kind current = RegularFile \<or>
         po_allow_symlink_source opts \<and> id_kind current \<in> {Symlink, BrokenSymlink})) \<and>
     path_file_name (te_source_path e) = Some (te_original_basename e) \<and>
     absent f (te_destination_path e) \<and>
     (\<forall>parent names. path_parent (te_destination_path e) = Some parent \<longrightarrow>
        read_dir f parent = Some names \<longrightarrow> \<not> case_collision e names) \<and>
     te_destination_path e \<notin> po_batch_destinations opts"

lemma check_trusted_Nil:
  "check_trusted f e opts = [] \<longleftrightarrow>
     po_trusted opts = [] \<or>
     (\<exists>sp dp. path_parent (te_source_path e) = Some sp \<and>
              path_parent (te_destination_path e) = Some dp \<and>
              inside_roots f (po_trusted opts) sp \<and> inside_roots f (po_trusted opts) dp)"
  by (auto simp: check_trusted_def Let_def split: option.splits)

lemma check_identity_Nil:
  "check_identity f e opts = [] \<longleftrightarrow>
     (\<exists>current. capture_identity f (te_source_path e) = Some current \<and>
        identity_matches (te_identity e) current \<and>
        (id_kind current = RegularFile \<or>
         po_allow_symlink_source opts \<and> id_kind current \<in> {Symlink, BrokenSymlink}))"
  by (auto simp: check_identity_def split: option.splits if_splits)

lemma check_destination_Nil:
  "check_destination f e = [] \<longleftrightarrow>
     absent f (te_destination_path e) \<and>
     (\<forall>parent names. path_parent (te_destination_path e) = Some parent \<longrightarrow>
        read_dir f parent = Some names \<longrightarrow> \<not> case_collision e names)"
  by (auto simp: check_destination_def absent_def split: option.splits if_splits)

lemma check_directory_Nil:
  "check_directory f e opts = [] \<longleftrightarrow>
     (case po_directory_policy opts of
        SameDirectory \<Rightarrow> path_parent (te_source_path e) = path_parent (te_destination_path e)
      | SameFilesystem \<Rightarrow>
          same_filesystem f (path_parent (te_source_path e)) (path_parent (te_destination_path e)))"
  by (simp add: check_directory_def Let_def split: directory_policy.splits)

lemmas check_Nil = check_trusted_Nil check_identity_Nil check_destination_Nil check_directory_Nil

lemma preflight_failures_Nil: "preflight_failures f e opts = [] \<longleftrightarrow> safe_to_rename f e opts"
proof (cases "po_trusted opts \<noteq> [] \<and> path_parent (te_source_path e) = None")
  case True
  then show ?thesis by (auto simp: preflight_failures_def safe_to_rename_def Let_def)
next
  case False
  then have "preflight_failures f e opts = [] \<longleftrightarrow>
      check_generation opts = [] \<and> check_approved e opts = [] \<and> check_basename e = [] \<and>
      check_directory f e opts = [] \<and> check_trusted f e opts = [] \<and>
      check_identity f e opts = [] \<and> check_source_name e = [] \<and>
      check_destination f e = [] \<and> check_batch e opts = []"
    by (auto simp: preflight_failures_def Let_def)
  then show ?thesis
    unfolding check_Nil safe_to_rename_def
    by (simp add: check_generation_def check_approved_def check_basename_def
        check_source_name_def check_batch_def)
qed

lemma run_preflight_iff: "run_preflight f e opts = Inr () \<longleftrightarrow> safe_to_rename f e opts"
  by (simp add: run_preflight_def Let_def preflight_failures_Nil)

lemma run_preflight_cases:
  obtains (safe) "run_preflight f e opts = Inr ()" "safe_to_rename f e opts"
  | (unsafe) fls where "run_preflight f e opts = Inl fls" "fls \<noteq> []" "\<not> safe_to_rename f e opts"
  using preflight_failures_Nil [of f e opts]
  by (auto simp: run_preflight_def Let_def split: if_splits)

lemma safe_to_renameD:
  assumes "safe_to_rename f e opts"
  shows "holds_object f (te_source_path e) (te_identity e)"
    and "absent f (te_destination_path e)"
    and "te_destination_path e \<notin> po_batch_destinations opts"
  using assms by (auto simp: safe_to_rename_def holds_object_def)

section \<open>Duplicate destinations\<close>

lemma batch_destinations_loop_iff:
  "d \<in> batch_destinations_loop seen dups es \<longleftrightarrow>
     d \<in> dups \<or> (d \<in> seen \<and> d \<in> te_destination_path ` set es) \<or>
     2 \<le> count_list (map te_destination_path es) d"
proof (induction es arbitrary: seen dups)
  case Nil
  then show ?case by simp
next
  case (Cons e es)
  have pos: "count_list (map te_destination_path es) d \<noteq> 0 \<longleftrightarrow> d \<in> te_destination_path ` set es"
    by (simp add: count_list_0_iff)
  show ?case
    using Cons.IH pos by (auto simp: Let_def Suc_le_eq)
qed

lemma batch_destinations_iff:
  "d \<in> batch_destinations es \<longleftrightarrow> 2 \<le> count_list (map te_destination_path es) d"
  by (simp add: batch_destinations_def batch_destinations_loop_iff)

text \<open>
  The conflicting targets of a batch are exactly the destinations that two different
  entries name.
\<close>

theorem batch_destinations_index:
  "d \<in> batch_destinations es \<longleftrightarrow>
     (\<exists>i j. i < j \<and> j < length es \<and> te_destination_path (es ! i) = d \<and>
            te_destination_path (es ! j) = d)"
proof -
  have "(\<exists>i j. i < j \<and> j < length (map te_destination_path es) \<and>
          map te_destination_path es ! i = d \<and> map te_destination_path es ! j = d) \<longleftrightarrow>
        (\<exists>i j. i < j \<and> j < length es \<and> te_destination_path (es ! i) = d \<and>
          te_destination_path (es ! j) = d)"
    by (metis length_map nth_map order_less_trans)
  then show ?thesis
    unfolding batch_destinations_iff count_list_ge2_iff .
qed

text \<open>
  The preflight is sound and complete: it passes exactly the entries that are safe to
  rename - current generation, approved source, safe name, allowed directory, inside the
  trusted roots, still the reviewed regular file under its old name, destination absent,
  no sibling differing only by case, and no other entry with the same target - and a
  failing preflight lists at least one reason.
\<close>

theorem preflight_decides:
  "(run_preflight f e opts = Inr () \<longleftrightarrow> safe_to_rename f e opts) \<and>
   run_preflight f e opts \<noteq> Inl []"
  by (cases rule: run_preflight_cases [of f e opts]) auto

end
