(* ===== verification/Text.thy ===== *)
theory Text
  imports Prelude
begin

text \<open>
  The string operations of the Rust standard library that the DAT code calls beyond those
  of \<open>Prelude\<close>: hexadecimal digits, \<open>replace\<close>, \<open>split_whitespace\<close>, \<open>split\<close> on a string,
  \<open>parse\<close> for unsigned numbers, and the \<open>{:?}\<close> rendering of characters and strings. As in \<open>Prelude\<close> a
  character is a code point from U+0000 to U+00FF.
\<close>

section \<open>Hexadecimal digits and numbers\<close>

definition is_ascii_digit :: "char \<Rightarrow> bool" where
  "is_ascii_digit c \<longleftrightarrow> (let n = (of_char c :: nat) in 48 \<le> n \<and> n \<le> 57)"

definition is_ascii_hexdigit :: "char \<Rightarrow> bool" where
  "is_ascii_hexdigit c \<longleftrightarrow>
     (let n = (of_char c :: nat) in (48 \<le> n \<and> n \<le> 57) \<or> (65 \<le> n \<and> n \<le> 70) \<or> (97 \<le> n \<and> n \<le> 102))"

definition digit_value :: "char \<Rightarrow> nat" where
  "digit_value c = of_char c - 48"

definition decimal_value :: "string \<Rightarrow> nat" where
  "decimal_value s = foldl (\<lambda>n c. 10 * n + digit_value c) 0 s"

text \<open>
  \<open>str::parse\<close> for an unsigned type: an optional plus sign, then decimal digits, at most
  the type's largest value.
\<close>

definition parse_unsigned :: "nat \<Rightarrow> string \<Rightarrow> nat option" where
  "parse_unsigned max_value s =
     (let digits = (if length s > 1 \<and> hd s = CHR ''+'' then tl s else s) in
      if digits = [] \<or> \<not> list_all is_ascii_digit digits then None
      else if decimal_value digits > max_value then None
      else Some (decimal_value digits))"

definition parse_u16 :: "string \<Rightarrow> nat option" where
  "parse_u16 s = parse_unsigned 65535 s"

definition parse_u32 :: "string \<Rightarrow> nat option" where
  "parse_u32 s = parse_unsigned 4294967295 s"

definition is_ascii_alphabetic :: "char \<Rightarrow> bool" where
  "is_ascii_alphabetic c \<longleftrightarrow>
     (let n = (of_char c :: nat) in (65 \<le> n \<and> n \<le> 90) \<or> (97 \<le> n \<and> n \<le> 122))"

definition is_ascii_alphanumeric :: "char \<Rightarrow> bool" where
  "is_ascii_alphanumeric c \<longleftrightarrow> is_ascii_alphabetic c \<or> is_ascii_digit c"

definition strip_prefix :: "string \<Rightarrow> string \<Rightarrow> string option" where
  "strip_prefix p s = (if prefix p s then Some (drop (length p) s) else None)"

section \<open>Splitting and replacing\<close>

definition replace_chars :: "char set \<Rightarrow> char \<Rightarrow> string \<Rightarrow> string" where
  "replace_chars cs r s = map (\<lambda>c. if c \<in> cs then r else c) s"

text \<open>\<open>str::split_whitespace\<close>: the maximal runs of characters that are not white space.\<close>

fun split_words :: "string \<Rightarrow> string \<Rightarrow> string list" where
  "split_words w [] = (if w = [] then [] else [rev w])"
| "split_words w (c # cs) =
     (if is_whitespace c then (if w = [] then [] else [rev w]) @ split_words [] cs
      else split_words (c # w) cs)"

definition split_whitespace :: "string \<Rightarrow> string list" where
  "split_whitespace s = split_words [] s"

text \<open>\<open>str::split\<close> on a non-empty pattern, without overlaps, from the left.\<close>

function split_str_from :: "string \<Rightarrow> string \<Rightarrow> string \<Rightarrow> string list" where
  "split_str_from pat w [] = [rev w]"
| "split_str_from pat w (c # cs) =
     (if pat \<noteq> [] \<and> prefix pat (c # cs)
      then rev w # split_str_from pat [] (drop (length pat) (c # cs))
      else split_str_from pat (c # w) cs)"
  by pat_completeness auto
termination
  by (relation "measure (\<lambda>(pat, w, s). length s)") auto

definition split_str :: "string \<Rightarrow> string \<Rightarrow> string list" where
  "split_str pat s = split_str_from pat [] s"

section \<open>Paths\<close>

text \<open>A path as text.\<close>

definition path_text :: "path \<Rightarrow> string" where
  "path_text p = (if p = [] then ''/'' else concat (map (\<lambda>name. ''/'' @ name) p))"

section \<open>Debug rendering\<close>

definition hex_digit :: "nat \<Rightarrow> char" where
  "hex_digit n = (if n < 10 then char_of (48 + n) else char_of (87 + n))"

definition hex_byte :: "nat \<Rightarrow> string" where
  "hex_byte n = (if n < 16 then [hex_digit n] else [hex_digit (n div 16), hex_digit (n mod 16)])"

text \<open>
  \<open>char::escape_debug\<close>: the named escapes, the quote and the backslash, a Unicode escape
  for what is not printable (controls, the no-break space and the soft hyphen).
\<close>

definition escape_debug :: "char \<Rightarrow> char \<Rightarrow> string" where
  "escape_debug q c =
     (let n = (of_char c :: nat) in
      if n = 0 then [backslash, CHR ''0'']
      else if n = 9 then [backslash, CHR ''t'']
      else if n = 10 then [backslash, CHR ''n'']
      else if n = 13 then [backslash, CHR ''r'']
      else if c = q \<or> c = backslash then [backslash, c]
      else if is_control c \<or> n = 160 \<or> n = 173 then [backslash, CHR ''u'', CHR ''{''] @ hex_byte n @ ''}''
      else [c])"

definition debug_char :: "char \<Rightarrow> string" where
  "debug_char c = [quote] @ escape_debug quote c @ [quote]"

definition debug_str :: "string \<Rightarrow> string" where
  "debug_str s = [CHR 0x22] @ concat (map (escape_debug (CHR 0x22)) s) @ [CHR 0x22]"

section \<open>Lemmas\<close>

lemma of_char_less_256: "(of_char c :: nat) < 256"
  by (metis nat_of_char_less_256)

lemma whitespace_not_hexdigit: "is_ascii_hexdigit c \<Longrightarrow> \<not> is_whitespace c"
  by (auto simp: is_ascii_hexdigit_def is_whitespace_def Let_def)

lemma dropWhile_none: "\<forall>c \<in> set s. \<not> P c \<Longrightarrow> dropWhile P s = s"
  by (cases s) auto

lemma trim_no_whitespace: "\<forall>c \<in> set s. \<not> is_whitespace c \<Longrightarrow> trim s = s"
  by (simp add: trim_def dropWhile_none)

lemma utf8_len_ascii: "\<forall>c \<in> set s. (of_char c :: nat) < 128 \<Longrightarrow> utf8_len s = length s"
  unfolding utf8_len_def by (induction s) auto

lemma hexdigit_ascii: "is_ascii_hexdigit c \<Longrightarrow> (of_char c :: nat) < 128"
  by (auto simp: is_ascii_hexdigit_def Let_def)

lemma utf8_len_hex: "list_all is_ascii_hexdigit s \<Longrightarrow> utf8_len s = length s"
  by (rule utf8_len_ascii) (auto simp: list_all_iff dest: hexdigit_ascii)

lemma lower_char_whitespace [simp]: "is_whitespace (to_ascii_lower_char c) = is_whitespace c"
  using of_char_less_256 [of c]
  by (auto simp: is_whitespace_def to_ascii_lower_char_def Let_def)

lemma dropWhile_map_lower:
  "dropWhile is_whitespace (map to_ascii_lower_char s) = map to_ascii_lower_char (dropWhile is_whitespace s)"
  by (induction s) auto

lemma trim_lowercase: "trim (to_ascii_lowercase s) = to_ascii_lowercase (trim s)"
  by (simp add: trim_def to_ascii_lowercase_def dropWhile_map_lower rev_map)

lemma trim_idem [simp]: "trim (trim s) = trim s"
proof -
  let ?a = "dropWhile is_whitespace s"
  let ?b = "rev (dropWhile is_whitespace (rev ?a))"
  have "dropWhile is_whitespace ?b = ?b"
  proof (cases "?b = []")
    case True
    then show ?thesis by (metis dropWhile.simps(1))
  next
    case False
    then have "?a \<noteq> []" by (metis dropWhile.simps(1) rev.simps(1))
    obtain zs where "rev ?a = zs @ dropWhile is_whitespace (rev ?a)"
      by (metis takeWhile_dropWhile_id)
    then have "?a = ?b @ rev zs" by (metis rev_append rev_rev_ident)
    then have "hd ?b = hd ?a" using False by (metis hd_append2)
    then have "\<not> is_whitespace (hd ?b)" using \<open>?a \<noteq> []\<close> hd_dropWhile by metis
    then show ?thesis using False by (cases ?b) auto
  qed
  moreover have "dropWhile is_whitespace (rev ?b) = rev ?b"
    unfolding rev_rev_ident dropWhile_eq_self_iff by (metis hd_dropWhile)
  ultimately show ?thesis by (simp add: trim_def)
qed

lemma split_words_words: "w \<in> set (split_words a s) \<Longrightarrow> \<forall>c \<in> set a. \<not> is_whitespace c \<Longrightarrow>
    w \<noteq> [] \<and> (\<forall>c \<in> set w. \<not> is_whitespace c)"
  by (induction a s rule: split_words.induct) (auto split: if_splits)

lemma split_whitespace_words:
  "w \<in> set (split_whitespace s) \<Longrightarrow> w \<noteq> [] \<and> (\<forall>c \<in> set w. \<not> is_whitespace c)"
  unfolding split_whitespace_def using split_words_words by fastforce

lemma rsplit_once_length:
  "rsplit_once d s = Some (a, b) \<Longrightarrow> length a < length s"
  by (simp add: rsplit_once_Some)

end
