(* ===== verification/DatModel.thy ===== *)
theory DatModel
  imports Text "HOL-Library.Finite_Map"
begin

text \<open>
  The provider-neutral catalogue model: \<open>dat/model.rs\<close>, the hash normalisation of
  \<open>dat/hash.rs\<close>, and the data types of \<open>dat/classification.rs\<close> that a catalogue entry
  carries. Record fields are the source's with a short prefix.
\<close>

section \<open>Content classification data\<close>

definition classifier_version :: string where
  "classifier_version = ''dat-content-p0-v1''"

datatype dat_content_class =
  Game | GameCompilation | RequiredMultidiscPart | NonGame | UnknownContent

primrec content_class_label :: "dat_content_class \<Rightarrow> string" where
  "content_class_label Game = ''Game''"
| "content_class_label GameCompilation = ''Game compilation''"
| "content_class_label RequiredMultidiscPart = ''Required multidisc part''"
| "content_class_label NonGame = ''Non-game''"
| "content_class_label UnknownContent = ''Unknown''"

datatype classifier_confidence = HighConfidence | MediumConfidence | NoConfidence

fun confidence_label :: "classifier_confidence \<Rightarrow> string" where
  "confidence_label HighConfidence = ''High''"
| "confidence_label MediumConfidence = ''Medium''"
| "confidence_label NoConfidence = ''No confident classification''"

datatype classification_evidence_kind =
  StructuredEntryMetadata | CanonicalTosecSourceCategory | CanonicalTosecMediaToken
| NoTrustworthyMetadata

primrec evidence_kind_label :: "classification_evidence_kind \<Rightarrow> string" where
  "evidence_kind_label StructuredEntryMetadata = ''Structured entry metadata''"
| "evidence_kind_label CanonicalTosecSourceCategory = ''Canonical TOSEC source category''"
| "evidence_kind_label CanonicalTosecMediaToken = ''Canonical TOSEC media token''"
| "evidence_kind_label NoTrustworthyMetadata = ''No trustworthy category metadata''"

record classification_evidence =
  ce_kind :: classification_evidence_kind
  ce_field :: "string option"
  ce_original_value :: "string option"
  ce_rule :: string

record dat_content_classification =
  cc_class :: dat_content_class
  cc_confidence :: classifier_confidence
  cc_evidence :: "classification_evidence list"
  cc_classifier_version :: string

definition unknown_classification :: dat_content_classification where
  "unknown_classification =
     \<lparr> cc_class = UnknownContent, cc_confidence = NoConfidence,
       cc_evidence = [\<lparr> ce_kind = NoTrustworthyMetadata, ce_field = None, ce_original_value = None,
                         ce_rule = ''fallback.unknown'' \<rparr>],
       cc_classifier_version = classifier_version \<rparr>"

type_synonym dat_original_metadata = "(string, string) fmap"

datatype content_selection_policy = AllEntries | GamesOnly

datatype content_eligibility = Selected | ExcludedNonGame | NeedsReview

section \<open>Catalogues\<close>

datatype dat_ecosystem = GenericLogiqx | NoIntro | Redump | GenericClrMamePro | Tosec

primrec ecosystem_label :: "dat_ecosystem \<Rightarrow> string" where
  "ecosystem_label GenericLogiqx = ''Generic Logiqx''"
| "ecosystem_label NoIntro = ''No-Intro''"
| "ecosystem_label Redump = ''Redump''"
| "ecosystem_label GenericClrMamePro = ''Generic ClrMamePro''"
| "ecosystem_label Tosec = ''TOSEC''"

datatype dat_format = Logiqx | ClrMamePro

fun format_label :: "dat_format \<Rightarrow> string" where
  "format_label Logiqx = ''Logiqx XML''"
| "format_label ClrMamePro = ''ClrMamePro''"

record dat_source =
  ds_format :: dat_format
  ds_ecosystem :: dat_ecosystem
  ds_file_path :: string
  ds_name :: "string option"
  ds_description :: "string option"
  ds_version :: "string option"
  ds_author :: "string option"
  ds_homepage :: "string option"
  ds_clrmamepro_header :: "string option"
  ds_entry_count :: nat
  ds_rom_count :: nat
  ds_parse_warnings :: "string list"

datatype checksum_algorithm = Crc32 | Md5 | Sha1 | Sha256

primrec algorithm_label :: "checksum_algorithm \<Rightarrow> string" where
  "algorithm_label Crc32 = ''CRC32''"
| "algorithm_label Md5 = ''MD5''"
| "algorithm_label Sha1 = ''SHA-1''"
| "algorithm_label Sha256 = ''SHA-256''"

fun hex_length :: "checksum_algorithm \<Rightarrow> nat" where
  "hex_length Crc32 = 8"
| "hex_length Md5 = 32"
| "hex_length Sha1 = 40"
| "hex_length Sha256 = 64"

text \<open>The derived order of the enumeration: declaration order, strength.\<close>

fun algorithm_rank :: "checksum_algorithm \<Rightarrow> nat" where
  "algorithm_rank Crc32 = 0"
| "algorithm_rank Md5 = 1"
| "algorithm_rank Sha1 = 2"
| "algorithm_rank Sha256 = 3"

instantiation checksum_algorithm :: linorder
begin

definition less_eq_checksum_algorithm :: "checksum_algorithm \<Rightarrow> checksum_algorithm \<Rightarrow> bool" where
  "less_eq_checksum_algorithm a b \<longleftrightarrow> algorithm_rank a \<le> algorithm_rank b"

definition less_checksum_algorithm :: "checksum_algorithm \<Rightarrow> checksum_algorithm \<Rightarrow> bool" where
  "less_checksum_algorithm a b \<longleftrightarrow> algorithm_rank a < algorithm_rank b"

instance
proof
  fix a b :: checksum_algorithm
  assume "a \<le> b" "b \<le> a"
  then show "a = b"
    by (cases a; cases b) (simp_all add: less_eq_checksum_algorithm_def)
qed (auto simp: less_eq_checksum_algorithm_def less_checksum_algorithm_def)

end

record dat_checksum =
  ck_algorithm :: checksum_algorithm
  ck_value :: string

definition parse_checksum :: "checksum_algorithm \<Rightarrow> string \<Rightarrow> dat_checksum option" where
  "parse_checksum algorithm raw =
     (let trimmed = to_ascii_lowercase (trim raw) in
      if utf8_len trimmed \<noteq> hex_length algorithm \<or> \<not> list_all is_ascii_hexdigit trimmed
      then None
      else Some \<lparr> ck_algorithm = algorithm, ck_value = trimmed \<rparr>)"

record dat_rom_entry =
  dr_name :: string
  dr_size_bytes :: "nat option"
  dr_crc32 :: "string option"
  dr_md5 :: "string option"
  dr_sha1 :: "string option"
  dr_sha256 :: "string option"
  dr_status :: "string option"
  dr_merge :: "string option"
  dr_date :: "string option"
  dr_offset :: "string option"
  dr_loadflag :: "string option"
  dr_value :: "string option"
  dr_optional :: "string option"
  dr_bios :: "string option"
  dr_region :: "string option"

definition checksum_of :: "checksum_algorithm \<Rightarrow> string option \<Rightarrow> dat_checksum list" where
  "checksum_of algorithm v =
     (case v of
        None \<Rightarrow> []
      | Some raw \<Rightarrow> (case parse_checksum algorithm raw of None \<Rightarrow> [] | Some c \<Rightarrow> [c]))"

definition checksums :: "dat_rom_entry \<Rightarrow> dat_checksum list" where
  "checksums rom =
     checksum_of Crc32 (dr_crc32 rom) @ checksum_of Md5 (dr_md5 rom) @
     checksum_of Sha1 (dr_sha1 rom) @ checksum_of Sha256 (dr_sha256 rom)"

text \<open>\<open>Iterator::max_by_key\<close>: of several maxima the last.\<close>

fun max_by_key_from :: "('a \<Rightarrow> 'k::linorder) \<Rightarrow> 'a \<Rightarrow> 'a list \<Rightarrow> 'a" where
  "max_by_key_from k m [] = m"
| "max_by_key_from k m (x # xs) = max_by_key_from k (if k x \<ge> k m then x else m) xs"

definition strongest_checksum :: "dat_rom_entry \<Rightarrow> dat_checksum option" where
  "strongest_checksum rom =
     (case checksums rom of [] \<Rightarrow> None | c # cs \<Rightarrow> Some (max_by_key_from ck_algorithm c cs))"

record dat_disk_entry =
  dd_name :: "string option"
  dd_sha1 :: "string option"
  dd_merge :: "string option"
  dd_region :: "string option"
  dd_index :: "string option"
  dd_writable :: "string option"
  dd_status :: "string option"
  dd_optional :: "string option"

record dat_device_ref_entry =
  dv_name :: "string option"

record dat_sample_entry =
  dsm_name :: "string option"

record dat_bios_set_entry =
  bs_name :: "string option"
  bs_description :: "string option"
  bs_default :: "string option"

record dat_data_area_entry =
  da_name :: "string option"
  da_roms :: "dat_rom_entry list"

record dat_disk_area_entry =
  dk_name :: "string option"
  dk_disks :: "dat_disk_entry list"

record dat_part_entry =
  dp_name :: "string option"
  dp_interface :: "string option"
  dp_data_areas :: "dat_data_area_entry list"
  dp_disk_areas :: "dat_disk_area_entry list"

record dat_game_entry =
  dg_name :: string
  dg_id :: "string option"
  dg_description :: "string option"
  dg_roms :: "dat_rom_entry list"
  dg_clone_of :: "string option"
  dg_rom_of :: "string option"
  dg_sample_of :: "string option"
  dg_is_bios :: "string option"
  dg_is_device :: "string option"
  dg_runnable :: "string option"
  dg_supported :: "string option"
  dg_disks :: "dat_disk_entry list"
  dg_device_refs :: "dat_device_ref_entry list"
  dg_samples :: "dat_sample_entry list"
  dg_bios_sets :: "dat_bios_set_entry list"
  dg_parts :: "dat_part_entry list"
  dg_board :: "string option"
  dg_rebuild_to :: "string option"
  dg_year :: "string option"
  dg_manufacturer :: "string option"
  dg_source_file :: "string option"
  dg_comment :: "string option"
  dg_original_metadata :: dat_original_metadata
  dg_content_classification :: dat_content_classification
  dg_unsupported_structure :: bool

definition game_rom_count :: "dat_game_entry \<Rightarrow> nat" where
  "game_rom_count g = length (dg_roms g)"

record parsed_dat =
  pd_source :: dat_source
  pd_games :: "dat_game_entry list"

definition total_roms :: "parsed_dat \<Rightarrow> nat" where
  "total_roms dat = sum_list (map game_rom_count (pd_games dat))"

section \<open>Hash normalisation\<close>

definition normalise_hex :: "nat \<Rightarrow> string \<Rightarrow> string option" where
  "normalise_hex n raw =
     (let v = to_ascii_lowercase (trim raw) in
      if utf8_len v = n \<and> list_all is_ascii_hexdigit v then Some v else None)"

definition normalise_crc32 :: "string \<Rightarrow> string option" where
  "normalise_crc32 raw = normalise_hex 8 raw"

definition normalise_md5 :: "string \<Rightarrow> string option" where
  "normalise_md5 raw = normalise_hex 32 raw"

definition normalise_sha1 :: "string \<Rightarrow> string option" where
  "normalise_sha1 raw = normalise_hex 40 raw"

definition normalise_sha256 :: "string \<Rightarrow> string option" where
  "normalise_sha256 raw = normalise_hex 64 raw"

lemmas normalise_defs = normalise_crc32_def normalise_md5_def normalise_sha1_def normalise_sha256_def

section \<open>Facts about checksums\<close>

lemma normalise_hex_Some:
  "normalise_hex n raw = Some v \<Longrightarrow>
   v = to_ascii_lowercase (trim raw) \<and> length v = n \<and> list_all is_ascii_hexdigit v"
  using utf8_len_hex by (auto simp: normalise_hex_def Let_def split: if_splits)

lemma normalise_hex_idem:
  assumes "normalise_hex n raw = Some v"
  shows "normalise_hex n v = Some v"
proof -
  note v = normalise_hex_Some [OF assms]
  have "trim v = v"
    using v by (intro trim_no_whitespace) (auto simp: list_all_iff dest: whitespace_not_hexdigit)
  moreover have "to_ascii_lowercase v = v" using v by simp
  moreover have "utf8_len v = n" using v by (metis utf8_len_hex)
  ultimately show ?thesis using v by (auto simp: normalise_hex_def Let_def)
qed

lemma normalise_hex_lowercase: "normalise_hex n (to_ascii_lowercase raw) = normalise_hex n raw"
  by (simp add: normalise_hex_def trim_lowercase)

lemma normalise_hex_trim: "normalise_hex n (trim raw) = normalise_hex n raw"
  by (simp add: normalise_hex_def)

lemma normalise_hex_replicate:
  assumes "is_ascii_hexdigit c" and "to_ascii_lower_char c = c"
  shows "normalise_hex n (replicate n c) = Some (replicate n c)"
proof -
  have "trim (replicate n c) = replicate n c"
    using whitespace_not_hexdigit [OF assms(1)] by (intro trim_no_whitespace) auto
  moreover have hex: "list_all is_ascii_hexdigit (replicate n c)" using assms(1) by (simp add: list_all_iff)
  ultimately show ?thesis
    using assms(2) utf8_len_hex [OF hex] by (simp add: normalise_hex_def Let_def to_ascii_lowercase_def)
qed

lemma parse_checksum_normalise:
  "parse_checksum a raw = map_option (\<lambda>v. \<lparr> ck_algorithm = a, ck_value = v \<rparr>) (normalise_hex (hex_length a) raw)"
  by (simp add: parse_checksum_def normalise_hex_def Let_def)

lemma checksum_of_algorithm: "c \<in> set (checksum_of a v) \<Longrightarrow> ck_algorithm c = a"
  by (auto simp: checksum_of_def parse_checksum_def Let_def split: option.splits if_splits)

lemma max_by_key_from_max:
  "max_by_key_from k m xs \<in> insert m (set xs) \<and>
   (\<forall>x \<in> insert m (set xs). k x \<le> k (max_by_key_from k m xs))"
proof (induction xs arbitrary: m)
  case Nil
  then show ?case by simp
next
  case (Cons x xs)
  from Cons.IH [of "if k x \<ge> k m then x else m"] show ?case
    by (auto split: if_splits intro: order_trans order.strict_implies_order)
qed

text \<open>
  The strongest checksum of a rom entry is one of its well-formed checksums, and no
  other of them uses a stronger algorithm.
\<close>

theorem strongest_checksum_is_strongest:
  "case strongest_checksum rom of
     None \<Rightarrow> checksums rom = []
   | Some c \<Rightarrow> c \<in> set (checksums rom) \<and> list_all (\<lambda>d. ck_algorithm d \<le> ck_algorithm c) (checksums rom)"
proof (cases "checksums rom")
  case Nil
  then show ?thesis by (simp add: strongest_checksum_def)
next
  case (Cons x xs)
  show ?thesis
    using max_by_key_from_max [of ck_algorithm x xs] Cons
    by (simp add: strongest_checksum_def list_all_iff)
qed

text \<open>
  Hash normalisation is idempotent and insensitive to case and surrounding white space,
  and agrees with the checksum parser of the catalogue model for all four algorithms.
\<close>

theorem normalisation_agrees:
  "map_option ck_value (parse_checksum Crc32 raw) = normalise_crc32 (to_ascii_lowercase (trim raw)) \<and>
   map_option ck_value (parse_checksum Md5 raw) = normalise_md5 (to_ascii_lowercase (trim raw)) \<and>
   map_option ck_value (parse_checksum Sha1 raw) = normalise_sha1 (to_ascii_lowercase (trim raw)) \<and>
   map_option ck_value (parse_checksum Sha256 raw) = normalise_sha256 (to_ascii_lowercase (trim raw)) \<and>
   Option.bind (normalise_sha1 raw) normalise_sha1 = normalise_sha1 raw"
proof -
  have "Option.bind (normalise_hex n raw) (normalise_hex n) = normalise_hex n raw" for n
    using normalise_hex_idem [of n raw] by (cases "normalise_hex n raw") simp_all
  then show ?thesis
    by (simp add: parse_checksum_normalise normalise_defs normalise_hex_lowercase normalise_hex_trim
        option.map_comp comp_def option.map_ident normalise_sha1_def [abs_def])
qed

end
