(* ===== verification/TxnExecutor.thy ===== *)
theory TxnExecutor
  imports TxnPreflight DatModel
begin

text \<open>
  The executor: \<open>dat/rename_apply/executor.rs\<close>. \<open>apply_transaction\<close> is the source's
  function of the same name; the body of its \<open>for\<close> loop is \<open>apply_step\<close>, and the loop is
  recursion over the remaining indices. A mutable borrow of the transaction is a
  transaction passed in and returned, also when the result is an error.
\<close>

section \<open>Errors and options\<close>

datatype hard_conflict_mode = AbortAll | SkipUnsafeSubset

datatype apply_error =
  NothingApproved
| StalePlan nat nat
| StaleClassifierVersion "string option" string
| HardConflicts "(path \<times> string list) list"
| InvalidTransactionId string
| JournalError string
| ApplyCancelled

record apply_outcome =
  ao_transaction :: rename_transaction
  ao_summary :: transaction_summary

record apply_execution =
  ex_approved_paths :: "path set"
  ex_current_generation :: nat
  ex_trusted :: trusted_roots
  ex_hard_conflict_mode :: hard_conflict_mode
  ex_directory_policy :: directory_policy
  ex_allow_symlink_source :: bool

definition validate_classifier_version :: "string option \<Rightarrow> apply_error + unit" where
  "validate_classifier_version plan_version =
     (if plan_version = Some classifier_version then Inr ()
      else Inl (StaleClassifierVersion plan_version classifier_version))"

section \<open>The mutation window\<close>

text \<open>\<open>confirm_rename\<close>: the file system must show the rename.\<close>

definition confirm_rename :: "fs \<Rightarrow> transaction_entry \<Rightarrow> string + unit" where
  "confirm_rename f e =
     (if symlink_metadata f (te_source_path e) \<noteq> None
      then Inl ''the source still exists after the rename''
      else (case capture_identity f (te_destination_path e) of
              None \<Rightarrow> Inl ''the destination does not exist after the rename''
            | Some current \<Rightarrow>
                if identity_matches (te_identity e) current then Inr ()
                else Inl ''the destination identity does not match the recorded source''))"

definition apply_mutation ::
    "env \<Rightarrow> transaction_entry \<Rightarrow> world \<Rightarrow> (entry_state \<times> string + unit) \<times> world" where
  "apply_mutation env e w =
     (case rename_noreplace env (te_source_path e) (te_destination_path e) w of
        (Inr _, w1) \<Rightarrow>
          (let w2 = interleave env w1 in
           case confirm_rename (w_fs w2) e of
             Inr _ \<Rightarrow> (Inr (), w2)
           | Inl reason \<Rightarrow> (Inl (EsApplyFailed, reason), w2))
      | (Inl DestinationExists, w1) \<Rightarrow>
          (Inl (EsApplyFailed,
                ''the destination appeared during apply and was never overwritten''), w1)
      | (Inl err, w1) \<Rightarrow> (Inl (EsApplyFailed, no_clobber_display err), w1))"

section \<open>The preflight pass over the batch\<close>

definition preflight_entry ::
    "fs \<Rightarrow> preflight_options \<Rightarrow> transaction_entry \<Rightarrow> transaction_entry \<times> (path \<times> string list) list" where
  "preflight_entry f opts e =
     (case run_preflight f e opts of
        Inl failures \<Rightarrow>
          (let reasons = map preflight_reason failures in
           (e\<lparr>te_preflight_failures := reasons, te_preflight_passed := False\<rparr>,
            [(te_source_path e, reasons)]))
      | Inr _ \<Rightarrow> (e\<lparr>te_preflight_passed := True\<rparr>, []))"

fun preflight_batch ::
    "env \<Rightarrow> preflight_options \<Rightarrow> transaction_entry list \<Rightarrow> world \<Rightarrow>
     transaction_entry list \<times> (path \<times> string list) list \<times> world" where
  "preflight_batch env opts [] w = ([], [], w)"
| "preflight_batch env opts (e # es) w =
     (let w1 = interleave env w;
          (e', conflict) = preflight_entry (w_fs w1) opts e;
          (es', conflicts, w2) = preflight_batch env opts es w1
      in (e' # es', conflict @ conflicts, w2))"

definition skip_unsafe :: "transaction_entry list \<Rightarrow> transaction_entry list" where
  "skip_unsafe es =
     map (\<lambda>e. if \<not> te_preflight_passed e then e\<lparr>te_state := EsSkipped\<rparr> else e) es"

section \<open>The apply loop\<close>

datatype step_result = StepNext | StepBreak | StepFail apply_error

definition set_entry :: "rename_transaction \<Rightarrow> nat \<Rightarrow> transaction_entry \<Rightarrow> rename_transaction" where
  "set_entry t i e = t\<lparr>tx_entries := (tx_entries t)[i := e]\<rparr>"

text \<open>Writes the journal; an error ends the pass.\<close>

definition checkpoint ::
    "env \<Rightarrow> step_result \<Rightarrow> rename_transaction \<Rightarrow> world \<Rightarrow> step_result \<times> rename_transaction \<times> world" where
  "checkpoint env next t w =
     (case write_journal env t w of
        (Inl err, w1) \<Rightarrow> (StepFail (JournalError err), t, w1)
      | (Inr _, w1) \<Rightarrow> (next, t, w1))"

text \<open>
  One entry: preflight again, record \<open>Applying\<close> durably, rename and confirm, record the
  outcome durably.
\<close>

definition apply_step ::
    "env \<Rightarrow> preflight_options \<Rightarrow> nat \<Rightarrow> rename_transaction \<Rightarrow> world \<Rightarrow>
     step_result \<times> rename_transaction \<times> world" where
  "apply_step env opts i t w =
     (let e = tx_entries t ! i; w1 = interleave env w in
      case run_preflight (w_fs w1) e opts of
        Inl failures \<Rightarrow>
          (let reasons = map preflight_reason failures;
               e1 = e\<lparr>te_preflight_passed := False, te_preflight_failures := reasons,
                      te_state := EsApplyFailed,
                      te_failure_reason := Some (join_with ''; '' reasons)\<rparr>
           in checkpoint env StepBreak ((set_entry t i e1)\<lparr>tx_state := TsApplyFailed\<rparr>) w1)
      | Inr _ \<Rightarrow>
          (let e1 = e\<lparr>te_preflight_passed := True, te_state := EsApplying\<rparr>;
               t1 = set_entry t i e1
           in case write_journal env t1 w1 of
                (Inl err, w2) \<Rightarrow> (StepFail (JournalError err), t1, w2)
              | (Inr _, w2) \<Rightarrow>
                  (case apply_mutation env e1 w2 of
                     (Inr _, w3) \<Rightarrow>
                       checkpoint env StepNext
                         (set_entry t1 i (e1\<lparr>te_state := EsApplied,
                            te_applied_at_unix := Some (now_unix env w3)\<rparr>)) w3
                   | (Inl (state, reason), w3) \<Rightarrow>
                       checkpoint env StepBreak
                         ((set_entry t1 i (e1\<lparr>te_state := state,
                            te_failure_reason := Some reason\<rparr>))\<lparr>tx_state := TsApplyFailed\<rparr>) w3)))"

datatype loop_exit = LoopEnd | LoopReturn | LoopFail apply_error

text \<open>
  The loop. A cancelled pass returns its outcome at once; a break and the end of the
  range both fall through to the code after the loop.
\<close>

fun apply_loop ::
    "env \<Rightarrow> preflight_options \<Rightarrow> nat list \<Rightarrow> rename_transaction \<Rightarrow> world \<Rightarrow>
     loop_exit \<times> rename_transaction \<times> world" where
  "apply_loop env opts [] t w = (LoopEnd, t, w)"
| "apply_loop env opts (i # is) t w =
     (case read_cancel env w of
        (True, w1) \<Rightarrow>
          (case write_journal env (t\<lparr>tx_state := TsApplyFailed\<rparr>) w1 of
             (Inl err, w2) \<Rightarrow> (LoopFail (JournalError err), t\<lparr>tx_state := TsApplyFailed\<rparr>, w2)
           | (Inr _, w2) \<Rightarrow> (LoopReturn, t\<lparr>tx_state := TsApplyFailed\<rparr>, w2))
      | (False, w1) \<Rightarrow>
          (if te_state (tx_entries t ! i) = EsSkipped then apply_loop env opts is t w1
           else (case apply_step env opts i t w1 of
                   (StepFail err, t1, w2) \<Rightarrow> (LoopFail err, t1, w2)
                 | (StepBreak, t1, w2) \<Rightarrow> (LoopEnd, t1, w2)
                 | (StepNext, t1, w2) \<Rightarrow> apply_loop env opts is t1 w2)))"

definition outcome_of :: "rename_transaction \<Rightarrow> apply_outcome" where
  "outcome_of t = \<lparr> ao_transaction = t, ao_summary = summary_from_transaction t \<rparr>"

type_synonym apply_result = "(apply_error + apply_outcome) \<times> rename_transaction \<times> world"

text \<open>Writes the journal and returns the outcome, or the journal's error.\<close>

definition finish_apply :: "env \<Rightarrow> rename_transaction \<Rightarrow> world \<Rightarrow> apply_result" where
  "finish_apply env t w =
     (case write_journal env t w of
        (Inl err, w1) \<Rightarrow> (Inl (JournalError err), t, w1)
      | (Inr _, w1) \<Rightarrow> (Inr (outcome_of t), t, w1))"

definition options_of :: "apply_execution \<Rightarrow> rename_transaction \<Rightarrow> preflight_options" where
  "options_of ex t =
     \<lparr> po_plan_generation = tx_plan_generation t,
       po_current_generation = ex_current_generation ex,
       po_approved_paths = ex_approved_paths ex,
       po_trusted = ex_trusted ex,
       po_batch_destinations = batch_destinations (tx_entries t),
       po_directory_policy = ex_directory_policy ex,
       po_allow_symlink_source = ex_allow_symlink_source ex \<rparr>"

text \<open>After the batch preflight: journal the batch, run the loop, journal the end.\<close>

definition run_batch :: "env \<Rightarrow> preflight_options \<Rightarrow> rename_transaction \<Rightarrow> world \<Rightarrow> apply_result" where
  "run_batch env opts t w =
     (case write_journal env t w of
        (Inl err, w1) \<Rightarrow> (Inl (JournalError err), t, w1)
      | (Inr _, w1) \<Rightarrow>
          (if list_all (\<lambda>e. te_state e = EsSkipped) (tx_entries t)
           then finish_apply env (t\<lparr>tx_state := TsApplyFailed\<rparr>) w1
           else
             (let t1 = t\<lparr>tx_state := TsApplying\<rparr> in
              case write_journal env t1 w1 of
                (Inl err, w2) \<Rightarrow> (Inl (JournalError err), t1, w2)
              | (Inr _, w2) \<Rightarrow>
                  (case apply_loop env opts [0..<length (tx_entries t1)] t1 w2 of
                     (LoopFail err, t2, w3) \<Rightarrow> (Inl err, t2, w3)
                   | (LoopReturn, t2, w3) \<Rightarrow> (Inr (outcome_of t2), t2, w3)
                   | (LoopEnd, t2, w3) \<Rightarrow>
                       finish_apply env
                         (if tx_state t2 = TsApplying then t2\<lparr>tx_state := TsApplied\<rparr> else t2)
                         w3))))"

definition apply_transaction ::
    "env \<Rightarrow> apply_execution \<Rightarrow> rename_transaction \<Rightarrow> world \<Rightarrow> apply_result" where
  "apply_transaction env ex t w =
     (case validate_classifier_version (tx_classifier_version t) of
        Inl err \<Rightarrow> (Inl err, t, w)
      | Inr _ \<Rightarrow>
          (case read_cancel env w of
             (True, w1) \<Rightarrow> (Inl ApplyCancelled, t, w1)
           | (False, w1) \<Rightarrow>
               (if tx_plan_generation t \<noteq> ex_current_generation ex
                then (Inl (StalePlan (tx_plan_generation t) (ex_current_generation ex)), t, w1)
                else
                  (let opts = options_of ex t;
                       (es, hard_conflicts, w2) = preflight_batch env opts (tx_entries t) w1;
                       t1 = t\<lparr>tx_entries := es\<rparr>
                   in case ex_hard_conflict_mode ex of
                        AbortAll \<Rightarrow>
                          (if hard_conflicts \<noteq> [] then (Inl (HardConflicts hard_conflicts), t1, w2)
                           else run_batch env opts t1 w2)
                      | SkipUnsafeSubset \<Rightarrow>
                          run_batch env opts (t1\<lparr>tx_entries := skip_unsafe es\<rparr>) w2))))"

end
