(* ===== verification/TxnRecovery.thy ===== *)
theory TxnRecovery
  imports TxnExecutor
begin

text \<open>
  Recovery after a crash and rollback: \<open>dat/rename_apply/reconcile.rs\<close> and
  \<open>dat/rename_apply/rollback.rs\<close>. Reconciling an in-flight entry reads the file system
  and never renames; rollback reverses the applied entries in reverse order, each behind
  a durable \<open>RollingBack\<close> record.
\<close>

section \<open>Classification of an in-flight entry\<close>

datatype recovery_issue_kind =
  RenameDidNotHappen | RenameConfirmed | BothSourceAndDestination | BothAbsent
| DestinationIdentityChanged | RecoverySourceIdentityChanged

primrec recovery_label :: "recovery_issue_kind \<Rightarrow> string" where
  "recovery_label RenameDidNotHappen = ''Rename did not happen''"
| "recovery_label RenameConfirmed = ''Rename confirmed by the filesystem''"
| "recovery_label BothSourceAndDestination = ''Source and destination both exist''"
| "recovery_label BothAbsent = ''Neither source nor destination exists''"
| "recovery_label DestinationIdentityChanged = ''Destination identity changed''"
| "recovery_label RecoverySourceIdentityChanged = ''Source identity changed''"

record recovery_issue =
  ri_entry_index :: nat
  ri_kind :: recovery_issue_kind
  ri_detail :: string

definition classify_entry :: "fs \<Rightarrow> transaction_entry \<Rightarrow> nat \<Rightarrow> recovery_issue" where
  "classify_entry f e index =
     (let source_present = symlink_metadata f (te_source_path e) \<noteq> None;
          destination_present = symlink_metadata f (te_destination_path e) \<noteq> None;
          source_matches = source_present \<and> holds_object f (te_source_path e) (te_identity e);
          destination_matches =
            destination_present \<and> holds_object f (te_destination_path e) (te_identity e)
      in if destination_present \<and> \<not> destination_matches
         then \<lparr> ri_entry_index = index, ri_kind = DestinationIdentityChanged,
                ri_detail = ''the destination exists but is not the recorded object; manual review is '' @
                            ''required'' \<rparr>
         else if source_present \<and> \<not> source_matches
         then \<lparr> ri_entry_index = index, ri_kind = RecoverySourceIdentityChanged,
                ri_detail = ''the source exists but is not the recorded object; manual review is required'' \<rparr>
         else if source_matches \<and> \<not> destination_present
         then \<lparr> ri_entry_index = index, ri_kind = RenameDidNotHappen,
                ri_detail = ''the source is intact and the destination is absent; no rename happened'' \<rparr>
         else if \<not> source_present \<and> destination_matches
         then \<lparr> ri_entry_index = index, ri_kind = RenameConfirmed,
                ri_detail = ''the source is gone and the destination matches the recorded identity; the '' @
                            ''rename happened'' \<rparr>
         else if source_present \<and> destination_present
         then \<lparr> ri_entry_index = index, ri_kind = BothSourceAndDestination,
                ri_detail = ''source and destination both exist; refusing to guess which is intended'' \<rparr>
         else \<lparr> ri_entry_index = index, ri_kind = BothAbsent,
                ri_detail = ''neither the source nor the destination exists; manual review is required'' \<rparr>)"

section \<open>Reconciliation\<close>

definition in_flight :: "entry_state \<Rightarrow> bool" where
  "in_flight s \<longleftrightarrow> s = EsApplying \<or> s = EsRollingBack"

text \<open>The new state of one in-flight entry, and whether anything changed.\<close>

definition reconcile_entry ::
    "nat \<Rightarrow> recovery_issue_kind \<Rightarrow> transaction_entry \<Rightarrow> transaction_entry \<times> bool" where
  "reconcile_entry now kind e =
     (case kind of
        RenameDidNotHappen \<Rightarrow>
          (if te_state e = EsApplying then (e\<lparr>te_state := EsSkipped\<rparr>, True)
           else (e\<lparr>te_state := EsRolledBack, te_rolled_back_at_unix := Some now\<rparr>, True))
      | RenameConfirmed \<Rightarrow>
          (if te_state e = EsApplying
           then (e\<lparr>te_state := EsApplied, te_applied_at_unix := Some now\<rparr>, True)
           else (e\<lparr>te_state := EsApplied\<rparr>, True))
      | _ \<Rightarrow> (e, False))"

text \<open>The loop over the entries, from index \<open>i\<close>.\<close>

fun reconcile_entries ::
    "env \<Rightarrow> nat \<Rightarrow> transaction_entry list \<Rightarrow> world \<Rightarrow>
     transaction_entry list \<times> recovery_issue list \<times> bool \<times> world" where
  "reconcile_entries env i [] w = ([], [], False, w)"
| "reconcile_entries env i (e # es) w =
     (if \<not> in_flight (te_state e) then
        (case reconcile_entries env (Suc i) es w of
           (es', issues, changed, w') \<Rightarrow> (e # es', issues, changed, w'))
      else
        (let w1 = interleave env w;
             issue = classify_entry (w_fs w1) e i;
             (e', changed) = reconcile_entry (now_unix env w1) (ri_kind issue) e
         in case reconcile_entries env (Suc i) es w1 of
              (es', issues, changed', w') \<Rightarrow> (e' # es', issue # issues, changed \<or> changed', w')))"

definition reconcile_transaction_level_state :: "rename_transaction \<Rightarrow> rename_transaction \<times> bool" where
  "reconcile_transaction_level_state t =
     (if tx_state t \<noteq> TsApplying then (t, False)
      else if \<not> list_all (\<lambda>e. te_state e = EsApplied \<or> te_state e = EsSkipped) (tx_entries t)
      then (t, False)
      else (t\<lparr>tx_state := TsApplied\<rparr>, True))"

definition reconcile_recovery ::
    "env \<Rightarrow> rename_transaction \<Rightarrow> world \<Rightarrow>
     (string + recovery_issue list) \<times> rename_transaction \<times> world" where
  "reconcile_recovery env t w =
     (case reconcile_entries env 0 (tx_entries t) w of
        (es, issues, changed, w1) \<Rightarrow>
          (case reconcile_transaction_level_state (t\<lparr>tx_entries := es\<rparr>) of
             (t1, changed1) \<Rightarrow>
               (if changed \<or> changed1
                then (case write_journal env t1 w1 of
                        (Inl err, w2) \<Rightarrow> (Inl err, t1, w2)
                      | (Inr _, w2) \<Rightarrow> (Inr issues, t1, w2))
                else (Inr issues, t1, w1))))"

section \<open>Rollback\<close>

record rollback_outcome =
  ro_result :: rollback_result
  ro_transaction :: rename_transaction

definition rollback_mutation :: "env \<Rightarrow> transaction_entry \<Rightarrow> world \<Rightarrow> (string + unit) \<times> world" where
  "rollback_mutation env e w =
     (let w1 = interleave env w in
      case capture_identity (w_fs w1) (te_destination_path e) of
        None \<Rightarrow>
          (Inl ''rollback refused: the destination no longer exists (it was changed externally)'', w1)
      | Some current \<Rightarrow>
          (if \<not> identity_matches (te_identity e) current
           then (Inl ''rollback refused: the destination is no longer the object that was renamed'', w1)
           else if symlink_metadata (w_fs w1) (te_source_path e) \<noteq> None
           then (Inl ''rollback refused: the original source path is now occupied'', w1)
           else (case rename_noreplace env (te_destination_path e) (te_source_path e) w1 of
                   (Inr _, w2) \<Rightarrow>
                     (let w3 = interleave env w2 in
                      case capture_identity (w_fs w3) (te_source_path e) of
                        Some cur \<Rightarrow>
                          (if identity_matches (te_identity e) cur then (Inr (), w3)
                           else (Inl ''rollback renamed but the restored source identity does not match'', w3))
                      | None \<Rightarrow>
                          (Inl ''rollback renamed but the restored source path is not readable'', w3))
                 | (Inl DestinationExists, w2) \<Rightarrow>
                     (Inl ''rollback refused: the original source path is occupied (no-overwrite)'', w2)
                 | (Inl err, w2) \<Rightarrow>
                     (Inl (''rollback rename failed: '' @ no_clobber_display err), w2))))"

text \<open>How the loop ended: cancelled, or not; with what was reversed and what failed.\<close>

record rollback_progress =
  rp_rolled_back :: "path list"
  rp_failed :: "(path \<times> string) list"
  rp_cancelled :: bool

definition no_progress :: rollback_progress where
  "no_progress = \<lparr> rp_rolled_back = [], rp_failed = [], rp_cancelled = False \<rparr>"

datatype rollback_step_result =
  RollbackNext rollback_progress | RollbackBreak rollback_progress | RollbackAbort string

text \<open>
  One eligible entry: record \<open>RollingBack\<close> durably, rename back and confirm, record the
  outcome. On a refused reversal the source breaks before the journal write that ends
  the body.
\<close>

definition rollback_step ::
    "env \<Rightarrow> nat \<Rightarrow> rollback_progress \<Rightarrow> rename_transaction \<Rightarrow> world \<Rightarrow>
     rollback_step_result \<times> rename_transaction \<times> world" where
  "rollback_step env i p t w =
     (let e = tx_entries t ! i;
          e1 = e\<lparr>te_state := EsRollingBack\<rparr>;
          t1 = set_entry t i e1
      in case write_journal env t1 w of
           (Inl err, w2) \<Rightarrow> (RollbackAbort err, t1, w2)
         | (Inr _, w2) \<Rightarrow>
             (case rollback_mutation env e1 w2 of
                (Inl reason, w3) \<Rightarrow>
                  (RollbackBreak (p\<lparr>rp_failed := rp_failed p @ [(te_source_path e, reason)]\<rparr>),
                   set_entry t1 i (e1\<lparr>te_state := EsRollbackFailed,
                     te_failure_reason := Some reason\<rparr>), w3)
              | (Inr _, w3) \<Rightarrow>
                  (let t2 = set_entry t1 i (e1\<lparr>te_state := EsRolledBack,
                              te_rolled_back_at_unix := Some (now_unix env w3),
                              te_failure_reason := None\<rparr>)
                   in case write_journal env t2 w3 of
                        (Inl err, w4) \<Rightarrow> (RollbackAbort err, t2, w4)
                      | (Inr _, w4) \<Rightarrow>
                          (RollbackNext
                             (p\<lparr>rp_rolled_back := rp_rolled_back p @ [te_source_path e]\<rparr>),
                           t2, w4))))"

text \<open>The loop over the indices in the order given; the caller passes them in reverse.\<close>

fun rollback_loop ::
    "env \<Rightarrow> nat list \<Rightarrow> rollback_progress \<Rightarrow> rename_transaction \<Rightarrow> world \<Rightarrow>
     (string + rollback_progress) \<times> rename_transaction \<times> world" where
  "rollback_loop env [] p t w = (Inr p, t, w)"
| "rollback_loop env (i # is) p t w =
     (case read_cancel env w of
        (True, w1) \<Rightarrow> (Inr (p\<lparr>rp_cancelled := True\<rparr>), t, w1)
      | (False, w1) \<Rightarrow>
          (if \<not> is_eligible_for_rollback (tx_entries t ! i) then rollback_loop env is p t w1
           else (case rollback_step env i p t w1 of
                   (RollbackAbort err, t1, w2) \<Rightarrow> (Inl err, t1, w2)
                 | (RollbackBreak p1, t1, w2) \<Rightarrow> (Inr p1, t1, w2)
                 | (RollbackNext p1, t1, w2) \<Rightarrow> rollback_loop env is p1 t1 w2)))"

definition remaining_incomplete :: "rename_transaction \<Rightarrow> path list" where
  "remaining_incomplete t =
     map te_source_path
       (filter (\<lambda>e. te_state e = EsApplied \<or> te_state e = EsRollingBack) (tx_entries t))"

definition rollback_result_of :: "rollback_progress \<Rightarrow> path list \<Rightarrow> rollback_result" where
  "rollback_result_of p remaining =
     (if rp_failed p = [] \<and> remaining = [] then FullyRolledBack
      else if rp_cancelled p
      then (let cancelled_remaining =
                  map (\<lambda>q. (q, ''rollback cancelled while entries were still applied'')) remaining
            in if rp_rolled_back p = [] then RollbackFailed cancelled_remaining
               else PartiallyRolledBack (rp_rolled_back p) cancelled_remaining)
      else if rp_rolled_back p = [] then RollbackFailed (rp_failed p)
      else PartiallyRolledBack (rp_rolled_back p) (rp_failed p))"

definition is_unresolved :: "recovery_issue \<Rightarrow> bool" where
  "is_unresolved issue \<longleftrightarrow>
     ri_kind issue \<noteq> RenameDidNotHappen \<and> ri_kind issue \<noteq> RenameConfirmed"

definition issue_text :: "recovery_issue \<Rightarrow> string" where
  "issue_text issue = recovery_label (ri_kind issue) @ '': '' @ ri_detail issue"

text \<open>The refusal when reconciliation left an entry unresolved.\<close>

definition manual_review :: "rename_transaction \<Rightarrow> recovery_issue list \<Rightarrow> rollback_result" where
  "manual_review t issues =
     RollbackFailed
       [(case tx_entries t of [] \<Rightarrow> [] | e # _ \<Rightarrow> te_source_path e,
         ''manual review required: '' @
           join_with ''; '' (map issue_text (filter is_unresolved issues)))]"

type_synonym rollback_return = "(string + rollback_outcome) \<times> rename_transaction \<times> world"

definition finish_rollback ::
    "env \<Rightarrow> rollback_result \<Rightarrow> rename_transaction \<Rightarrow> world \<Rightarrow> rollback_return" where
  "finish_rollback env result t w =
     (case write_journal env t w of
        (Inl err, w1) \<Rightarrow> (Inl err, t, w1)
      | (Inr _, w1) \<Rightarrow> (Inr \<lparr>ro_result = result, ro_transaction = t\<rparr>, t, w1))"

definition rollback_transaction :: "env \<Rightarrow> rename_transaction \<Rightarrow> world \<Rightarrow> rollback_return" where
  "rollback_transaction env t w =
     (if tx_state t = TsRolledBack
      then (Inr \<lparr>ro_result = FullyRolledBack, ro_transaction = t\<rparr>, t, w)
      else
        (case reconcile_recovery env t w of
           (Inl err, t1, w1) \<Rightarrow> (Inl err, t1, w1)
         | (Inr issues, t1, w1) \<Rightarrow>
             (if filter is_unresolved issues \<noteq> []
              then finish_rollback env (manual_review t1 issues)
                     (t1\<lparr>tx_state := TsRollbackFailed\<rparr>) w1
              else
                (let t2 = t1\<lparr>tx_state := TsRollingBack\<rparr> in
                 case write_journal env t2 w1 of
                   (Inl err, w2) \<Rightarrow> (Inl err, t2, w2)
                 | (Inr _, w2) \<Rightarrow>
                     (case rollback_loop env (rev [0..<length (tx_entries t2)]) no_progress t2 w2 of
                        (Inl err, t3, w3) \<Rightarrow> (Inl err, t3, w3)
                      | (Inr p, t3, w3) \<Rightarrow>
                          (let remaining = remaining_incomplete t3;
                               fully = (rp_failed p = [] \<and> remaining = [])
                           in finish_rollback env (rollback_result_of p remaining)
                                (t3\<lparr>tx_state := (if fully then TsRolledBack else TsRollbackFailed)\<rparr>)
                                w3))))))"

end
