(* ===== verification/TxnSafety.thy ===== *)
theory TxnSafety
  imports TxnRecovery
begin

text \<open>
  Safety of the transaction engine in any environment: other processes may change the
  file system between any two steps, journal writes may fail, the user may cancel.

  The invariant is on the ghost history of durable effects (\<open>hist_ok\<close>): it grows only by
  journal writes and by renames the system call accepted, and each rename comes directly
  after a journal write that holds the entry in the matching in-flight state.
\<close>

section \<open>The history invariant\<close>

definition announces :: "rename_transaction \<Rightarrow> path \<Rightarrow> path \<Rightarrow> bool" where
  "announces t s d \<longleftrightarrow>
     (\<exists>e \<in> set (tx_entries t).
        (te_state e = EsApplying \<and> s = te_source_path e \<and> d = te_destination_path e) \<or>
        (te_state e = EsRollingBack \<and> s = te_destination_path e \<and> d = te_source_path e))"

definition announced :: "event list \<Rightarrow> path \<Rightarrow> path \<Rightarrow> bool" where
  "announced h s d \<longleftrightarrow> (\<exists>h' t f. h = h' @ [JournalWritten t f] \<and> announces t s d)"

inductive hist_ok :: "env \<Rightarrow> event list \<Rightarrow> bool" for env where
  start: "hist_ok env []"
| journal: "hist_ok env h \<Longrightarrow> hist_ok env (h @ [JournalWritten t f])"
| renamed: "hist_ok env h \<Longrightarrow> announced h s d \<Longrightarrow> e_ren env f s d = Inr f' \<Longrightarrow>
    hist_ok env (h @ [Renamed s d f f'])"

declare hist_ok.intros [intro]

lemma hist_ok_renamedD:
  assumes "hist_ok env h" and "h = a @ Renamed s d f f' # b"
  shows "announced a s d \<and> e_ren env f s d = Inr f'"
  using assms
proof (induction arbitrary: b rule: hist_ok.induct)
  case start
  then show ?case by simp
next
  case (journal h t g)
  then obtain b' where "h = a @ Renamed s d f f' # b'"
    by (cases b rule: rev_cases) auto
  then show ?case by (rule journal.IH)
next
  case (renamed h s' d' g g')
  show ?case
  proof (cases b rule: rev_cases)
    case Nil
    then show ?thesis using renamed by auto
  next
    case (snoc b' x)
    then have "h = a @ Renamed s d f f' # b'" using renamed.prems by simp
    then show ?thesis by (rule renamed.IH)
  qed
qed

section \<open>Every operation keeps it\<close>

lemma write_journal_hist_ok:
  assumes "write_journal env t w = (r, w')" and "hist_ok env (w_hist w)"
  shows "hist_ok env (w_hist w')"
  using assms(1) by (rule write_journal_cases) (use assms(2) in auto)

lemma write_journal_announced:
  assumes "write_journal env t w = (Inr u, w')" and "announces t s d"
  shows "announced (w_hist w') s d"
  using assms(1) by (rule write_journal_cases) (use assms(2) in \<open>auto simp: announced_def\<close>)

lemma rename_hist_ok:
  assumes "rename_noreplace env s d w = (r, w')" and "hist_ok env (w_hist w)"
    and "announced (w_hist w) s d"
  shows "hist_ok env (w_hist w')"
  using assms(1) by (rule rename_noreplace_cases) (use assms(2,3) in auto)

lemma apply_mutation_hist_ok:
  assumes "apply_mutation env e w = (r, w')" and "hist_ok env (w_hist w)"
    and "announced (w_hist w) (te_source_path e) (te_destination_path e)"
  shows "hist_ok env (w_hist w')"
proof -
  obtain r1 w1 where ren: "rename_noreplace env (te_source_path e) (te_destination_path e) w = (r1, w1)"
    by force
  have "w_hist w' = w_hist w1"
    using assms(1) ren
    by (auto simp: apply_mutation_def Let_def split: sum.splits no_clobber_error.splits)
  with rename_hist_ok [OF ren assms(2,3)] show ?thesis by simp
qed

lemma rollback_mutation_hist_ok:
  assumes "rollback_mutation env e w = (r, w')" and "hist_ok env (w_hist w)"
    and "announced (w_hist w) (te_destination_path e) (te_source_path e)"
  shows "hist_ok env (w_hist w')"
proof (cases "w_hist w' = w_hist w")
  case True
  then show ?thesis using assms(2) by simp
next
  case False
  let ?w = "interleave env w"
  obtain r1 w1 where ren:
      "rename_noreplace env (te_destination_path e) (te_source_path e) ?w = (r1, w1)"
    by force
  have "w_hist w' = w_hist w1"
    using assms(1) ren False
    by (auto simp: rollback_mutation_def Let_def
        split: sum.splits no_clobber_error.splits option.splits if_splits)
  with rename_hist_ok [OF ren] assms(2,3) show ?thesis by simp
qed

lemma preflight_batch_hist:
  "preflight_batch env opts es w = (es', cs, w') \<Longrightarrow> w_hist w' = w_hist w \<and> w_disk w' = w_disk w"
proof (induction es arbitrary: w es' cs w')
  case Nil
  then show ?case by simp
next
  case (Cons e es)
  obtain es1 cs1 w1 where rec: "preflight_batch env opts es (interleave env w) = (es1, cs1, w1)"
    by (metis prod_cases3)
  have "w' = w1" using Cons.prems rec by (auto simp: Let_def split: prod.splits)
  with Cons.IH [OF rec] show ?case by simp
qed

lemma checkpoint_hist_ok:
  assumes "checkpoint env nx t w = (r, t', w')" and "hist_ok env (w_hist w)"
  shows "hist_ok env (w_hist w')"
  using assms write_journal_hist_ok
  by (force simp: checkpoint_def split: prod.splits sum.splits)

lemma set_entry_announces:
  assumes "i < length (tx_entries t)" and "te_state e = EsApplying"
  shows "announces (set_entry t i e) (te_source_path e) (te_destination_path e)"
  using assms by (auto simp: announces_def set_entry_def set_update_memI)

lemma set_entry_announces_back:
  assumes "i < length (tx_entries t)" and "te_state e = EsRollingBack"
  shows "announces (set_entry t i e) (te_destination_path e) (te_source_path e)"
  using assms by (auto simp: announces_def set_entry_def set_update_memI)

lemma set_entry_length [simp]: "length (tx_entries (set_entry t i e)) = length (tx_entries t)"
  by (simp add: set_entry_def)

lemma checkpoint_tx: "checkpoint env nx t w = (r, t', w') \<Longrightarrow> t' = t"
  by (auto simp: checkpoint_def split: prod.splits sum.splits)

lemma apply_step_hist_ok:
  assumes step: "apply_step env opts i t w = (r, t', w')" and ok: "hist_ok env (w_hist w)"
    and i: "i < length (tx_entries t)"
  shows "hist_ok env (w_hist w') \<and> length (tx_entries t') = length (tx_entries t)"
proof (cases "run_preflight (w_fs (interleave env w)) (tx_entries t ! i) opts")
  case (Inl failures)
  then obtain t1 where "checkpoint env StepBreak t1 (interleave env w) = (r, t', w')"
      "length (tx_entries t1) = length (tx_entries t)"
    using step by (force simp: apply_step_def Let_def)
  with checkpoint_hist_ok checkpoint_tx ok show ?thesis by fastforce
next
  case (Inr u)
  let ?e = "(tx_entries t ! i)\<lparr>te_preflight_passed := True, te_state := EsApplying\<rparr>"
  let ?t1 = "set_entry t i ?e"
  obtain r1 w1 where wj: "write_journal env ?t1 (interleave env w) = (r1, w1)" by force
  have ok1: "hist_ok env (w_hist w1)" using write_journal_hist_ok [OF wj] ok by simp
  show ?thesis
  proof (cases r1)
    case (Inl err)
    then show ?thesis using step wj ok1 \<open>run_preflight _ _ _ = Inr u\<close>
      by (auto simp: apply_step_def Let_def)
  next
    case (Inr u1)
    obtain r2 w2 where am: "apply_mutation env ?e w1 = (r2, w2)" by force
    have "announces ?t1 (te_source_path ?e) (te_destination_path ?e)"
      by (rule set_entry_announces [OF i]) simp
    from write_journal_announced [OF wj [unfolded Inr] this]
    have "announced (w_hist w1) (te_source_path ?e) (te_destination_path ?e)" .
    from apply_mutation_hist_ok [OF am ok1 this] have ok2: "hist_ok env (w_hist w2)" .
    have "\<exists>nx t2. checkpoint env nx t2 w2 = (r, t', w') \<and> length (tx_entries t2) = length (tx_entries t)"
      using step wj Inr am \<open>run_preflight _ _ _ = Inr u\<close>
      by (auto simp: apply_step_def Let_def split: sum.splits intro!: exI)
    with checkpoint_hist_ok checkpoint_tx ok2 show ?thesis by blast
  qed
qed

lemma apply_loop_hist_ok:
  "apply_loop env opts is t w = (x, t', w') \<Longrightarrow> hist_ok env (w_hist w) \<Longrightarrow>
   \<forall>i \<in> set is. i < length (tx_entries t) \<Longrightarrow> hist_ok env (w_hist w')"
proof (induction env opts "is" t w rule: apply_loop.induct)
  case (1 env opts t w)
  then show ?case by simp
next
  case (2 env opts i "is" t w)
  obtain c w1 where rc: "read_cancel env w = (c, w1)" by force
  then have w1: "w_hist w1 = w_hist w" using read_cancel_world [of env w] by auto
  show ?case
  proof (cases c)
    case True
    then show ?thesis using "2.prems" rc w1 write_journal_hist_ok
      by (force split: prod.splits sum.splits)
  next
    case False
    show ?thesis
    proof (cases "te_state (tx_entries t ! i) = EsSkipped")
      case True
      then show ?thesis using "2.IH"(1) "2.prems" rc False w1 by simp
    next
      case ns: False
      obtain r t1 w2 where st: "apply_step env opts i t w1 = (r, t1, w2)" by (metis prod_cases3)
      have ok: "hist_ok env (w_hist w2)" "length (tx_entries t1) = length (tx_entries t)"
        using apply_step_hist_ok [OF st] "2.prems" w1 by auto
      show ?thesis
        using "2.IH"(2) "2.prems" rc False ns st ok by (cases r) auto
    qed
  qed
qed

lemma finish_apply_hist_ok:
  assumes "finish_apply env t w = (r, t', w')" and "hist_ok env (w_hist w)"
  shows "hist_ok env (w_hist w')"
  using assms write_journal_hist_ok
  by (force simp: finish_apply_def split: prod.splits sum.splits)

lemma run_batch_hist_ok:
  assumes run: "run_batch env opts t w = (r, t', w')" and ok: "hist_ok env (w_hist w)"
  shows "hist_ok env (w_hist w')"
proof -
  obtain r1 w1 where j1: "write_journal env t w = (r1, w1)" by force
  let ?t1 = "t\<lparr>tx_state := TsApplying\<rparr>"
  obtain r2 w2 where j2: "write_journal env ?t1 w1 = (r2, w2)" by force
  obtain x t2 w3 where lp:
      "apply_loop env opts [0..<length (tx_entries ?t1)] ?t1 w2 = (x, t2, w3)"
    by (metis prod_cases3)
  have ok1: "hist_ok env (w_hist w1)" by (rule write_journal_hist_ok [OF j1 ok])
  have ok2: "hist_ok env (w_hist w2)" by (rule write_journal_hist_ok [OF j2 ok1])
  have ok3: "hist_ok env (w_hist w3)" by (rule apply_loop_hist_ok [OF lp ok2]) simp
  show ?thesis
    using run j1 j2 lp ok1 ok2 ok3
    by (auto simp: run_batch_def Let_def intro: finish_apply_hist_ok
        split: sum.splits if_splits loop_exit.splits)
qed

lemma apply_transaction_hist_ok:
  assumes run: "apply_transaction env ex t w = (r, t', w')" and ok: "hist_ok env (w_hist w)"
  shows "hist_ok env (w_hist w')"
proof -
  obtain c w1 where rc: "read_cancel env w = (c, w1)" by force
  then have w1: "w_hist w1 = w_hist w" using read_cancel_world [of env w] by auto
  obtain es cs w2 where pb: "preflight_batch env (options_of ex t) (tx_entries t) w1 = (es, cs, w2)"
    by (metis prod_cases3)
  have w2: "w_hist w2 = w_hist w" using preflight_batch_hist [OF pb] w1 by simp
  show ?thesis
    using run rc pb w1 w2 ok
    by (auto simp: apply_transaction_def Let_def intro: run_batch_hist_ok
        split: sum.splits if_splits hard_conflict_mode.splits bool.splits)
qed

lemma reconcile_entries_hist:
  "reconcile_entries env i es w = (es', issues, ch, w') \<Longrightarrow>
   w_hist w' = w_hist w \<and> w_disk w' = w_disk w \<and> length es' = length es"
proof (induction es arbitrary: i w es' issues ch w')
  case Nil
  then show ?case by simp
next
  case (Cons e es)
  show ?case
  proof (cases "in_flight (te_state e)")
    case True
    obtain es1 is1 c1 w1 where
        rec: "reconcile_entries env (Suc i) es (interleave env w) = (es1, is1, c1, w1)"
      by (metis prod_cases4)
    then show ?thesis using Cons.prems True Cons.IH [OF rec]
      by (auto simp: Let_def split: prod.splits)
  next
    case False
    obtain es1 is1 c1 w1 where rec: "reconcile_entries env (Suc i) es w = (es1, is1, c1, w1)"
      by (metis prod_cases4)
    then show ?thesis using Cons.prems False Cons.IH [OF rec] by auto
  qed
qed

lemma reconcile_level_entries:
  "reconcile_transaction_level_state t = (t', c) \<Longrightarrow> tx_entries t' = tx_entries t"
  by (auto simp: reconcile_transaction_level_state_def split: if_splits)

lemma reconcile_recovery_hist_ok:
  assumes rr: "reconcile_recovery env t w = (r, t', w')" and ok: "hist_ok env (w_hist w)"
  shows "hist_ok env (w_hist w') \<and> length (tx_entries t') = length (tx_entries t)"
proof -
  obtain es "is" c w1 where re: "reconcile_entries env 0 (tx_entries t) w = (es, is, c, w1)"
    by (metis prod_cases4)
  obtain t1 c1 where lv: "reconcile_transaction_level_state (t\<lparr>tx_entries := es\<rparr>) = (t1, c1)"
    by force
  have "length (tx_entries t1) = length (tx_entries t)" "hist_ok env (w_hist w1)"
    using reconcile_entries_hist [OF re] reconcile_level_entries [OF lv] ok by simp_all
  then show ?thesis using rr re lv write_journal_hist_ok
    by (force simp: reconcile_recovery_def split: if_splits prod.splits sum.splits)
qed

lemma rollback_step_hist_ok:
  assumes step: "rollback_step env i p t w = (r, t', w')" and ok: "hist_ok env (w_hist w)"
    and i: "i < length (tx_entries t)"
  shows "hist_ok env (w_hist w') \<and> length (tx_entries t') = length (tx_entries t)"
proof -
  let ?e1 = "(tx_entries t ! i)\<lparr>te_state := EsRollingBack\<rparr>"
  let ?t1 = "set_entry t i ?e1"
  obtain r2 w2 where wj: "write_journal env ?t1 w = (r2, w2)" by force
  obtain r3 w3 where rm: "rollback_mutation env ?e1 w2 = (r3, w3)" by force
  let ?e2 = "?e1\<lparr>te_state := EsRolledBack,
      te_rolled_back_at_unix := Some (now_unix env w3), te_failure_reason := None\<rparr>"
  obtain r4 w4 where wj2: "write_journal env (set_entry ?t1 i ?e2) w3 = (r4, w4)" by force
  have ok2: "hist_ok env (w_hist w2)" by (rule write_journal_hist_ok [OF wj ok])
  show ?thesis
  proof (cases r2)
    case (Inl err)
    then show ?thesis using step wj ok2 by (auto simp: rollback_step_def Let_def)
  next
    case (Inr u)
    have "announces ?t1 (te_destination_path ?e1) (te_source_path ?e1)"
      by (rule set_entry_announces_back [OF i]) simp
    from write_journal_announced [OF wj [unfolded Inr] this]
    have ok3: "hist_ok env (w_hist w3)" by (rule rollback_mutation_hist_ok [OF rm ok2])
    have ok4: "hist_ok env (w_hist w4)" by (rule write_journal_hist_ok [OF wj2 ok3])
    show ?thesis
      using step wj Inr rm wj2 ok3 ok4
      by (auto simp: rollback_step_def Let_def split: sum.splits)
  qed
qed

lemma rollback_loop_hist_ok:
  "rollback_loop env is p t w = (r, t', w') \<Longrightarrow> hist_ok env (w_hist w) \<Longrightarrow>
   \<forall>i \<in> set is. i < length (tx_entries t) \<Longrightarrow> hist_ok env (w_hist w')"
proof (induction env "is" p t w rule: rollback_loop.induct)
  case (1 env p t w)
  then show ?case by simp
next
  case (2 env i "is" p t w)
  obtain c w1 where rc: "read_cancel env w = (c, w1)" by force
  then have w1: "w_hist w1 = w_hist w" using read_cancel_world [of env w] by auto
  show ?case
  proof (cases "c \<or> \<not> is_eligible_for_rollback (tx_entries t ! i)")
    case True
    then show ?thesis using "2.IH"(1) "2.prems" rc w1 by (cases c) auto
  next
    case False
    obtain x t1 w2 where st: "rollback_step env i p t w1 = (x, t1, w2)" by (metis prod_cases3)
    have ok: "hist_ok env (w_hist w2)" "length (tx_entries t1) = length (tx_entries t)"
      using rollback_step_hist_ok [OF st] "2.prems" w1 by auto
    show ?thesis
      using "2.IH"(2) "2.prems" rc False st ok by (cases x) auto
  qed
qed

lemma finish_rollback_hist_ok:
  assumes "finish_rollback env res t w = (r, t', w')" and "hist_ok env (w_hist w)"
  shows "hist_ok env (w_hist w')"
  using assms write_journal_hist_ok
  by (force simp: finish_rollback_def split: prod.splits sum.splits)

lemma rollback_transaction_hist_ok:
  assumes run: "rollback_transaction env t w = (r, t', w')" and ok: "hist_ok env (w_hist w)"
  shows "hist_ok env (w_hist w')"
proof -
  obtain r1 t1 w1 where rr: "reconcile_recovery env t w = (r1, t1, w1)" by (metis prod_cases3)
  let ?t2 = "t1\<lparr>tx_state := TsRollingBack\<rparr>"
  obtain r2 w2 where j2: "write_journal env ?t2 w1 = (r2, w2)" by force
  obtain x t3 w3 where lp:
      "rollback_loop env (rev [0..<length (tx_entries ?t2)]) no_progress ?t2 w2 = (x, t3, w3)"
    by (metis prod_cases3)
  have ok1: "hist_ok env (w_hist w1)" using reconcile_recovery_hist_ok [OF rr ok] by simp
  have ok2: "hist_ok env (w_hist w2)" by (rule write_journal_hist_ok [OF j2 ok1])
  have ok3: "hist_ok env (w_hist w3)" by (rule rollback_loop_hist_ok [OF lp ok2]) simp
  show ?thesis
  proof (cases "tx_state t = TsRolledBack")
    case True
    then show ?thesis using run ok by (simp add: rollback_transaction_def)
  next
    case False
    show ?thesis
      using run rr j2 lp ok1 ok2 ok3 False
      by (auto simp: rollback_transaction_def Let_def intro: finish_rollback_hist_ok
          split: sum.splits if_splits)
  qed
qed

section \<open>No clobber, and write-ahead\<close>

lemma hist_ok_safe_rename:
  assumes "hist_ok env h" and "noreplace_rename (e_ren env)"
    and "h = a @ Renamed s d f f' # b"
  shows "absent f d \<and> \<not> absent f s \<and> announced a s d"
  using hist_ok_renamedD [OF assms(1,3)] noreplace_rename.target_free [OF assms(2)]
    noreplace_rename.source_there [OF assms(2)]
  by (auto simp: absent_def)

text \<open>
  C2: Whatever other processes do, however journal writes fail and whenever the user
  cancels, every rename an apply pass performs moves an existing object onto a name that
  does not exist at that moment, and comes directly after a durable journal write in
  which its entry is \<open>Applying\<close> (or \<open>RollingBack\<close>).
\<close>

theorem apply_never_clobbers:
  assumes "noreplace_rename (e_ren env)"
    and "apply_transaction env ex t w = (r, t', w')" and "w_hist w = []"
    and "w_hist w' = a @ Renamed s d f f' # b"
  shows "absent f d \<and> \<not> absent f s \<and> announced a s d"
proof -
  have "hist_ok env (w_hist w')"
    by (rule apply_transaction_hist_ok [OF assms(2)]) (simp add: assms(3) hist_ok.start)
  from hist_ok_safe_rename [OF this assms(1,4)] show ?thesis .
qed

text \<open>
  C3: The same for a rollback pass, whose renames go from the destination back to the
  source: it never replaces an object that took the original name.
\<close>

theorem rollback_never_clobbers:
  assumes "noreplace_rename (e_ren env)"
    and "rollback_transaction env t w = (r, t', w')" and "w_hist w = []"
    and "w_hist w' = a @ Renamed s d f f' # b"
  shows "absent f d \<and> \<not> absent f s \<and> announced a s d"
proof -
  have "hist_ok env (w_hist w')"
    by (rule rollback_transaction_hist_ok [OF assms(2)]) (simp add: assms(3) hist_ok.start)
  from hist_ok_safe_rename [OF this assms(1,4)] show ?thesis .
qed

end
