(* ===== verification/TxnCrash.thy ===== *)
theory TxnCrash
  imports TxnSafety
begin

text \<open>
  Crash recovery when no other process touches the files (\<open>quiet\<close>).

  The invariant \<open>chain f0 es f\<close> relates the file system \<open>f0\<close> before the batch, the entries
  as recorded and the file system now: performing, in order, the moves of the applied
  entries leads from \<open>f0\<close> to \<open>f\<close>, where one entry, the last touched, may be in flight and
  its move done or not. Every state a crash can leave satisfies it, and a rollback from
  any state that satisfies it restores \<open>f0\<close> exactly.
\<close>

section \<open>Where an entry's file is\<close>

definition at_source :: "fs \<Rightarrow> transaction_entry \<Rightarrow> bool" where
  "at_source f e \<longleftrightarrow>
     holds_object f (te_source_path e) (te_identity e) \<and> absent f (te_destination_path e)"

definition at_destination :: "fs \<Rightarrow> transaction_entry \<Rightarrow> bool" where
  "at_destination f e \<longleftrightarrow>
     absent f (te_source_path e) \<and> holds_object f (te_destination_path e) (te_identity e)"

definition regular :: "transaction_entry \<Rightarrow> bool" where
  "regular e \<longleftrightarrow> id_kind (te_identity e) = RegularFile"

definition move_entry :: "fs \<Rightarrow> transaction_entry \<Rightarrow> fs" where
  "move_entry f e =
     (case (locate f (te_source_path e), locate f (te_destination_path e)) of
        (Some qs, Some qd) \<Rightarrow>
          (case fmlookup f qs of None \<Rightarrow> f | Some n \<Rightarrow> fmupd qd n (fmdrop qs f))
      | _ \<Rightarrow> f)"

definition movable :: "fs \<Rightarrow> transaction_entry \<Rightarrow> bool" where
  "movable f e \<longleftrightarrow> at_source f e \<and> regular e \<and> locate f (te_destination_path e) \<noteq> None"

lemma movable_cases:
  assumes "movable f e"
  obtains qs qd n where "locate f (te_source_path e) = Some qs"
    "locate f (te_destination_path e) = Some qd" "fmlookup f qs = Some n" "n_kind n = FileNode"
    "fmlookup f qd = None" "qs \<noteq> qd" "move_entry f e = fmupd qd n (fmdrop qs f)"
    "locate (move_entry f e) = locate f" "identity_matches (te_identity e) (file_identity n)"
proof -
  from assms have hold: "holds_object f (te_source_path e) (te_identity e)"
    and reg: "id_kind (te_identity e) = RegularFile"
    by (auto simp: movable_def at_source_def regular_def)
  obtain n where n: "symlink_metadata f (te_source_path e) = Some n" "n_kind n = FileNode"
    by (rule holds_regular_file [OF hold reg])
  from n(1) obtain qs where qs: "locate f (te_source_path e) = Some qs" "fmlookup f qs = Some n"
    by (auto simp: symlink_metadata_def bind_eq_Some_conv)
  from assms obtain qd where qd: "locate f (te_destination_path e) = Some qd"
    by (auto simp: movable_def)
  with assms have free: "fmlookup f qd = None"
    by (simp add: movable_def at_source_def absent_def symlink_metadata_def)
  have mv: "move_entry f e = fmupd qd n (fmdrop qs f)"
    using qs qd by (simp add: move_entry_def)
  have "skeleton (move_entry f e) = skeleton f"
    unfolding mv by (rule skeleton_move_file [OF qs(2) n(2) free])
  then have "locate (move_entry f e) = locate f" using locate_skeleton by blast
  moreover have "identity_matches (te_identity e) (file_identity n)"
    using hold holds_file [OF n] by simp
  ultimately show thesis using that qs qd n(2) free mv by fastforce
qed

lemma movable_at_destination: "movable f e \<Longrightarrow> at_destination (move_entry f e) e"
proof (erule movable_cases)
  fix qs qd n
  assume *: "locate f (te_source_path e) = Some qs" "locate f (te_destination_path e) = Some qd"
    "qs \<noteq> qd" "move_entry f e = fmupd qd n (fmdrop qs f)" "n_kind n = FileNode"
    "locate (move_entry f e) = locate f" "identity_matches (te_identity e) (file_identity n)"
  then have "symlink_metadata (move_entry f e) (te_destination_path e) = Some n"
      and "symlink_metadata (move_entry f e) (te_source_path e) = None"
    by (simp_all add: symlink_metadata_def)
  with * show ?thesis
    by (simp add: at_destination_def absent_def holds_file)
qed

lemma move_entry_undo:
  assumes "movable f e" and "noreplace_rename ren"
    and "ren (move_entry f e) (te_destination_path e) (te_source_path e) = Inr g"
  shows "g = f"
  using assms(1)
proof (rule movable_cases)
  fix qs qd n
  assume *: "locate f (te_source_path e) = Some qs" "locate f (te_destination_path e) = Some qd"
    "fmlookup f qs = Some n" "n_kind n = FileNode" "fmlookup f qd = None" "qs \<noteq> qd"
    "move_entry f e = fmupd qd n (fmdrop qs f)" "locate (move_entry f e) = locate f"
  have "g = fmupd qs n (fmdrop qd (move_entry f e))"
    by (rule noreplace_rename.moves_entry [OF assms(2,3)]) (use * in simp_all)
  then show "g = f" using * by (auto intro!: fmap_ext)
qed

lemma move_entry_undo_possible:
  assumes "movable f e" and "live_rename ren"
  shows "\<exists>g. ren (move_entry f e) (te_destination_path e) (te_source_path e) = Inr g"
  using assms(1)
proof (rule movable_cases)
  fix qs qd n
  assume *: "locate f (te_source_path e) = Some qs" "locate f (te_destination_path e) = Some qd"
    "n_kind n = FileNode" "qs \<noteq> qd"
    "move_entry f e = fmupd qd n (fmdrop qs f)" "locate (move_entry f e) = locate f"
  show ?thesis
    by (rule live_rename.progress [OF assms(2), where n = n and qd = qs])
      (use * in \<open>simp_all add: symlink_metadata_def\<close>)
qed

lemma rename_is_move:
  assumes "at_source f e" and "regular e" and "noreplace_rename ren"
    and "ren f (te_source_path e) (te_destination_path e) = Inr g"
  shows "movable f e \<and> g = move_entry f e"
proof -
  have mv: "movable f e"
    using assms noreplace_rename.target_dir [OF assms(3,4)] by (simp add: movable_def)
  then show ?thesis
  proof (rule movable_cases)
    fix qs qd n
    assume *: "locate f (te_source_path e) = Some qs" "locate f (te_destination_path e) = Some qd"
      "fmlookup f qs = Some n" "n_kind n = FileNode" "move_entry f e = fmupd qd n (fmdrop qs f)"
    have "g = fmupd qd n (fmdrop qs f)"
      by (rule noreplace_rename.moves_entry [OF assms(3,4)]) (use * in simp_all)
    with mv * show ?thesis by simp
  qed
qed

text \<open>None of these notions reads the recorded state of the entry.\<close>

lemma entry_frame [simp]:
  "at_source f (e\<lparr>te_state := s\<rparr>) = at_source f e"
  "at_destination f (e\<lparr>te_state := s\<rparr>) = at_destination f e"
  "regular (e\<lparr>te_state := s\<rparr>) = regular e"
  "move_entry f (e\<lparr>te_state := s\<rparr>) = move_entry f e"
  "movable f (e\<lparr>te_state := s\<rparr>) = movable f e"
  "at_source f (e\<lparr>te_preflight_passed := b\<rparr>) = at_source f e"
  "regular (e\<lparr>te_preflight_passed := b\<rparr>) = regular e"
  "move_entry f (e\<lparr>te_preflight_passed := b\<rparr>) = move_entry f e"
  "movable f (e\<lparr>te_preflight_passed := b\<rparr>) = movable f e"
  "at_destination f (e\<lparr>te_preflight_passed := b\<rparr>) = at_destination f e"
  "at_source f (e\<lparr>te_applied_at_unix := a\<rparr>) = at_source f e"
  "regular (e\<lparr>te_applied_at_unix := a\<rparr>) = regular e"
  "move_entry f (e\<lparr>te_applied_at_unix := a\<rparr>) = move_entry f e"
  "movable f (e\<lparr>te_applied_at_unix := a\<rparr>) = movable f e"
  "at_destination f (e\<lparr>te_applied_at_unix := a\<rparr>) = at_destination f e"
  by (simp_all add: at_source_def at_destination_def regular_def move_entry_def movable_def)

section \<open>The chain of moves\<close>

definition unmoved :: "transaction_entry \<Rightarrow> bool" where
  "unmoved e \<longleftrightarrow>
     te_state e \<notin> {EsApplied, EsApplying, EsRollingBack, EsRollbackFailed}"

inductive chain :: "fs \<Rightarrow> transaction_entry list \<Rightarrow> fs \<Rightarrow> bool" where
  finished: "chain f [] f"
| still: "unmoved e \<Longrightarrow> chain f es g \<Longrightarrow> chain f (e # es) g"
| shifted: "te_state e = EsApplied \<Longrightarrow> movable f e \<Longrightarrow> chain (move_entry f e) es g \<Longrightarrow>
    chain f (e # es) g"
| flight: "in_flight (te_state e) \<Longrightarrow> at_source f e \<Longrightarrow> regular e \<Longrightarrow> list_all unmoved es \<Longrightarrow>
    g = f \<or> (movable f e \<and> g = move_entry f e) \<Longrightarrow> chain f (e # es) g"

inductive_cases chain_NilE [elim!]: "chain f [] g"
inductive_cases chain_ConsE: "chain f (e # es) g"

abbreviation none_in_flight :: "transaction_entry list \<Rightarrow> bool" where
  "none_in_flight es \<equiv> list_all (\<lambda>e. \<not> in_flight (te_state e)) es"

lemma unmoved_not_in_flight: "unmoved e \<Longrightarrow> \<not> in_flight (te_state e)"
  by (auto simp: unmoved_def in_flight_def)

lemma unmoved_none_in_flight: "list_all unmoved es \<Longrightarrow> none_in_flight es"
  by (auto simp: list_all_iff dest: unmoved_not_in_flight)

lemma chain_unmoved: "list_all unmoved es \<Longrightarrow> chain f es g \<longleftrightarrow> g = f"
proof (induction es)
  case Nil
  then show ?case by (auto intro: chain.finished)
next
  case (Cons e es)
  then have u: "unmoved e" and IH: "chain f es g \<longleftrightarrow> g = f" by auto
  show ?case
  proof
    assume "chain f (e # es) g"
    then show "g = f"
      using u IH by (auto elim!: chain_ConsE simp: unmoved_def in_flight_def)
  next
    assume "g = f"
    then show "chain f (e # es) g" using u IH by (auto intro: chain.still)
  qed
qed

lemma chain_append:
  "none_in_flight xs \<Longrightarrow> chain f (xs @ ys) g \<longleftrightarrow> (\<exists>h. chain f xs h \<and> chain h ys g)"
proof (induction xs arbitrary: f)
  case Nil
  then show ?case by (auto intro: chain.finished)
next
  case (Cons x xs)
  have nf: "\<not> in_flight (te_state x)" and IH: "\<And>f. chain f (xs @ ys) g \<longleftrightarrow> (\<exists>h. chain f xs h \<and> chain h ys g)"
    using Cons by auto
  show ?case
  proof
    assume "chain f ((x # xs) @ ys) g"
    then show "\<exists>h. chain f (x # xs) h \<and> chain h ys g"
      using nf IH by (fastforce elim: chain_ConsE intro: chain.intros)
  next
    assume "\<exists>h. chain f (x # xs) h \<and> chain h ys g"
    then obtain h where "chain f (x # xs) h" "chain h ys g" by blast
    then show "chain f ((x # xs) @ ys) g"
      using nf IH by (fastforce elim: chain_ConsE intro: chain.intros)
  qed
qed

lemma split_at: "i < length es \<Longrightarrow> es = take i es @ es ! i # drop (Suc i) es"
  by (rule id_take_nth_drop)

lemma update_split: "i < length es \<Longrightarrow> es[i := e] = take i es @ e # drop (Suc i) es"
  by (rule upd_conv_take_nth_drop)

text \<open>Replacing the entry at \<open>i\<close> when everything from \<open>i\<close> on is unmoved.\<close>

lemma chain_update:
  assumes "chain f0 es f" and "none_in_flight es" and "i < length es"
    and "list_all unmoved (drop i es)" and "chain f (e # drop (Suc i) es) g"
  shows "chain f0 (es[i := e]) g"
proof -
  have nf: "none_in_flight (take i es)" using assms(2) by (auto simp: list_all_iff dest: in_set_takeD)
  have "chain f0 (take i es @ drop i es) f" using assms(1) by simp
  then have "chain f0 (take i es) f"
    unfolding chain_append [OF nf] chain_unmoved [OF assms(4)] by auto
  with assms(5) show ?thesis
    unfolding update_split [OF assms(3)] chain_append [OF nf] by blast
qed

lemma unmoved_tail:
  assumes "list_all unmoved (drop i es)"
  shows "list_all unmoved (drop (Suc i) es)"
proof -
  have "drop (Suc i) es = tl (drop i es)" by (simp add: drop_Suc tl_drop)
  with assms show ?thesis by (cases "drop i es") auto
qed

section \<open>The states a crash can leave\<close>

text \<open>
  A crash leaves the last journal written and the file system of that moment. Going
  through a history, \<open>lt\<close> is the transaction in the journal.
\<close>

fun crash_points ::
    "rename_transaction option \<Rightarrow> event list \<Rightarrow> (rename_transaction \<times> fs) list" where
  "crash_points lt [] = []"
| "crash_points lt (JournalWritten t f # h) = (t, f) # crash_points (Some t) h"
| "crash_points lt (Renamed s d f f' # h) =
     (case lt of None \<Rightarrow> [] | Some t \<Rightarrow> [(t, f')]) @ crash_points lt h"
| "crash_points lt (DirCreated d f f' # h) =
     (case lt of None \<Rightarrow> [] | Some t \<Rightarrow> [(t, f')]) @ crash_points lt h"
| "crash_points lt (DirRemoved d f f' # h) =
     (case lt of None \<Rightarrow> [] | Some t \<Rightarrow> [(t, f')]) @ crash_points lt h"

fun journal_after :: "rename_transaction option \<Rightarrow> event list \<Rightarrow> rename_transaction option" where
  "journal_after lt [] = lt"
| "journal_after lt (JournalWritten t f # h) = journal_after (Some t) h"
| "journal_after lt (Renamed s d f f' # h) = journal_after lt h"
| "journal_after lt (DirCreated d f f' # h) = journal_after lt h"
| "journal_after lt (DirRemoved d f f' # h) = journal_after lt h"

lemma crash_points_append:
  "crash_points lt (h @ k) = crash_points lt h @ crash_points (journal_after lt h) k"
  by (induction lt h rule: crash_points.induct) auto

lemma journal_after_append:
  "journal_after lt (h @ k) = journal_after (journal_after lt h) k"
  by (induction lt h rule: journal_after.induct) auto

text \<open>Every crash point of the world's history satisfies the chain invariant.\<close>

definition crash_safe :: "fs \<Rightarrow> world \<Rightarrow> bool" where
  "crash_safe f0 w \<longleftrightarrow>
     (\<forall>(t, f) \<in> set (crash_points None (w_hist w)). chain f0 (tx_entries t) f)"

lemma crash_safe_hist: "w_hist w' = w_hist w \<Longrightarrow> crash_safe f0 w' = crash_safe f0 w"
  by (simp add: crash_safe_def)

lemma crash_safe_interleave [simp]: "crash_safe f0 (interleave env w) = crash_safe f0 w"
  by (rule crash_safe_hist) simp

lemma write_journal_crash_safe:
  assumes "write_journal env t w = (r, w')" and "quiet env"
    and "crash_safe f0 w" and "chain f0 (tx_entries t) (w_fs w)"
  shows "crash_safe f0 w' \<and> w_fs w' = w_fs w \<and>
    (r = Inr () \<longrightarrow> journal_after None (w_hist w') = Some t)"
  using assms(1)
proof (rule write_journal_cases)
  fix name
  assume *: "w_fs w' = w_fs (interleave env w)"
    "w_hist w' = w_hist w @ [JournalWritten t (w_fs w')]"
  then show ?thesis
    using assms(2-4) by (auto simp: crash_safe_def crash_points_append journal_after_append)
next
  fix err
  assume "r = Inl err" "w' = interleave env w"
  then show ?thesis using assms(2,3) by simp
qed

lemma rename_crash_safe:
  assumes "rename_noreplace env s d w = (r, w')" and "quiet env"
    and "crash_safe f0 w" and "journal_after None (w_hist w) = Some t"
    and "chain f0 (tx_entries t) (w_fs w')"
  shows "crash_safe f0 w' \<and> journal_after None (w_hist w') = Some t"
  using assms(1)
proof (rule rename_noreplace_cases)
  fix f'
  assume "w_hist w' = w_hist w @ [Renamed s d (w_fs (interleave env w)) f']" "w_fs w' = f'"
  then show ?thesis
    using assms(3-5) by (auto simp: crash_safe_def crash_points_append journal_after_append)
next
  fix err
  assume "w' = interleave env w"
  then show ?thesis using assms(3,4) by simp
qed

section \<open>The mutation window\<close>

lemma apply_mutation_quiet:
  assumes am: "apply_mutation env e w = (r, w')" and q: "quiet env"
    and nr: "noreplace_rename (e_ren env)"
    and src: "at_source (w_fs w) e" and reg: "regular e"
  shows "(r = Inr () \<and> movable (w_fs w) e \<and> w_fs w' = move_entry (w_fs w) e) \<or>
    (\<exists>reason. r = Inl (EsApplyFailed, reason) \<and> w_fs w' = w_fs w \<and> w_hist w' = w_hist w)"
proof -
  obtain r1 w1 where rn: "rename_noreplace env (te_source_path e) (te_destination_path e) w = (r1, w1)"
    by force
  from rn show ?thesis
  proof (rule rename_noreplace_cases)
    fix f'
    assume r1: "r1 = Inr ()" and fs: "w_fs w1 = f'"
      and ren: "e_ren env (w_fs (interleave env w)) (te_source_path e) (te_destination_path e) = Inr f'"
    have mv: "movable (w_fs w) e \<and> f' = move_entry (w_fs w) e"
      using ren q by (intro rename_is_move [OF src reg nr]) simp
    then have "at_destination f' e" using movable_at_destination by blast
    then have "confirm_rename f' e = Inr ()"
      by (auto simp: confirm_rename_def at_destination_def absent_def holds_object_def
          split: option.splits)
    then show ?thesis using am rn r1 fs mv q by (auto simp: apply_mutation_def Let_def)
  next
    fix err
    assume "r1 = Inl err" "w1 = interleave env w"
    then show ?thesis using am rn q by (cases err) (auto simp: apply_mutation_def)
  qed
qed

lemma apply_mutation_hist:
  assumes "apply_mutation env e w = (r, w')"
    and "rename_noreplace env (te_source_path e) (te_destination_path e) w = (r1, w1)"
  shows "w_hist w' = w_hist w1"
  using assms by (auto simp: apply_mutation_def Let_def split: sum.splits no_clobber_error.splits)

lemma apply_mutation_fs:
  assumes "apply_mutation env e w = (r, w')" and "quiet env"
    and "rename_noreplace env (te_source_path e) (te_destination_path e) w = (r1, w1)"
  shows "w_fs w' = w_fs w1"
  using assms by (auto simp: apply_mutation_def Let_def split: sum.splits no_clobber_error.splits)

lemma apply_mutation_crash_safe:
  assumes am: "apply_mutation env e w = (r, w')" and q: "quiet env"
    and "crash_safe f0 w" and "journal_after None (w_hist w) = Some t"
    and "chain f0 (tx_entries t) (w_fs w')"
  shows "crash_safe f0 w'"
proof -
  obtain r1 w1 where rn: "rename_noreplace env (te_source_path e) (te_destination_path e) w = (r1, w1)"
    by force
  have "crash_safe f0 w1"
    using rename_crash_safe [OF rn q assms(3,4)] assms(5) apply_mutation_fs [OF am q rn] by simp
  then show ?thesis using crash_safe_hist [OF apply_mutation_hist [OF am rn]] by simp
qed

section \<open>The apply loop keeps the chain\<close>

text \<open>Before index \<open>i\<close> of the loop: the entries from \<open>i\<close> on are untouched.\<close>

definition loop_inv :: "fs \<Rightarrow> nat \<Rightarrow> rename_transaction \<Rightarrow> world \<Rightarrow> bool" where
  "loop_inv f0 i t w \<longleftrightarrow>
     chain f0 (tx_entries t) (w_fs w) \<and> none_in_flight (tx_entries t) \<and>
     list_all unmoved (drop i (tx_entries t)) \<and> crash_safe f0 w"

lemma none_in_flight_update:
  "none_in_flight es \<Longrightarrow> \<not> in_flight (te_state e) \<Longrightarrow> none_in_flight (es[i := e])"
  by (auto simp: list_all_iff dest!: subsetD [OF set_update_subset_insert])

lemma drop_update_after: "j > i \<Longrightarrow> drop j (es[i := e]) = drop j es"
  by (rule drop_update_cancel)

lemma checkpoint_chain:
  assumes "checkpoint env nx t w = (r, t', w')" and "quiet env"
    and "crash_safe f0 w" and "chain f0 (tx_entries t) (w_fs w)"
  shows "t' = t \<and> crash_safe f0 w' \<and> w_fs w' = w_fs w \<and> (r = nx \<or> (\<exists>err. r = StepFail err))"
proof -
  obtain r1 w1 where wj: "write_journal env t w = (r1, w1)" by force
  from write_journal_crash_safe [OF wj assms(2-4)] assms(1) wj show ?thesis
    by (cases r1) (auto simp: checkpoint_def)
qed

text \<open>A safe preflight without links permitted finds the reviewed regular file.\<close>

lemma safe_at_source:
  assumes "safe_to_rename f e opts" and "\<not> po_allow_symlink_source opts"
  shows "at_source f e \<and> regular e"
proof -
  obtain cur where cur: "capture_identity f (te_source_path e) = Some cur"
      "identity_matches (te_identity e) cur" "id_kind cur = RegularFile"
    using assms by (auto simp: safe_to_rename_def)
  then have "id_kind (te_identity e) = RegularFile"
    by (auto simp: identity_matches_def split: if_splits)
  with cur assms(1) show ?thesis
    by (auto simp: at_source_def regular_def holds_object_def safe_to_rename_def)
qed

lemma apply_step_chain:
  assumes step: "apply_step env opts i t w = (r, t', w')" and q: "quiet env"
    and nr: "noreplace_rename (e_ren env)" and nl: "\<not> po_allow_symlink_source opts"
    and inv: "loop_inv f0 i t w" and i: "i < length (tx_entries t)"
  shows "crash_safe f0 w' \<and> chain f0 (tx_entries t') (w_fs w') \<and>
    (r = StepNext \<or> r = StepBreak \<longrightarrow> loop_inv f0 (Suc i) t' w')"
proof -
  let ?es = "tx_entries t" and ?e = "tx_entries t ! i"
  have ch: "chain f0 ?es (w_fs w)" and nf: "none_in_flight ?es"
    and un: "list_all unmoved (drop i ?es)" and cs: "crash_safe f0 w"
    using inv by (auto simp: loop_inv_def)
  have tail: "list_all unmoved (drop (Suc i) ?es)" by (rule unmoved_tail [OF un])
  have upd: "chain f0 (?es[i := e']) g" if "chain (w_fs w) (e' # drop (Suc i) ?es) g" for e' g
    by (rule chain_update [OF ch nf i un that])
  have inv': "loop_inv f0 (Suc i) t1 w1"
    if "tx_entries t1 = ?es[i := e']" "\<not> in_flight (te_state e')"
      "chain f0 (tx_entries t1) (w_fs w1)" "crash_safe f0 w1" for t1 e' w1
    using that nf tail by (simp add: loop_inv_def none_in_flight_update)
  have fs1: "w_fs (interleave env w) = w_fs w" using q by simp
  show ?thesis
  proof (cases rule: run_preflight_cases [of "w_fs w" ?e opts])
    case (unsafe fls)
    let ?e1 = "?e\<lparr>te_preflight_passed := False,
        te_preflight_failures := map preflight_reason fls, te_state := EsApplyFailed,
        te_failure_reason := Some (join_with ''; '' (map preflight_reason fls))\<rparr>"
    let ?t1 = "(set_entry t i ?e1)\<lparr>tx_state := TsApplyFailed\<rparr>"
    have cp: "checkpoint env StepBreak ?t1 (interleave env w) = (r, t', w')"
      using step unsafe(1) fs1 by (simp add: apply_step_def Let_def)
    have "unmoved ?e1" by (simp add: unmoved_def)
    then have ch1: "chain f0 (tx_entries ?t1) (w_fs w)"
      using tail by (simp add: set_entry_def upd chain.still chain_unmoved)
    have "tx_entries ?t1 = ?es[i := ?e1]" "\<not> in_flight (te_state ?e1)"
      by (simp_all add: set_entry_def in_flight_def)
    then show ?thesis
      using checkpoint_chain [OF cp q, of f0] cs ch1 fs1 inv' [of ?t1 ?e1 w'] by auto
  next
    case safe
    let ?e1 = "?e\<lparr>te_preflight_passed := True, te_state := EsApplying\<rparr>"
    let ?t1 = "set_entry t i ?e1"
    have src: "at_source (w_fs w) ?e" and reg: "regular ?e"
      using safe_at_source [OF safe(2) nl] by auto
    have fl: "in_flight (te_state ?e1)" by (simp add: in_flight_def)
    have stay: "chain f0 (tx_entries ?t1) (w_fs w)"
      using src reg tail fl by (auto simp: set_entry_def intro!: upd chain.flight)
    have move: "chain f0 (tx_entries ?t1) (move_entry (w_fs w) ?e)" if "movable (w_fs w) ?e"
      using src reg tail fl that by (auto simp: set_entry_def intro!: upd chain.flight)
    obtain r1 w1 where wj: "write_journal env ?t1 (interleave env w) = (r1, w1)" by force
    have j1: "crash_safe f0 w1 \<and> w_fs w1 = w_fs w \<and>
        (r1 = Inr () \<longrightarrow> journal_after None (w_hist w1) = Some ?t1)"
      using write_journal_crash_safe [OF wj q, of f0] cs stay fs1 by simp
    show ?thesis
    proof (cases r1)
      case (Inl err)
      then show ?thesis using step safe(1) wj j1 stay fs1
        by (auto simp: apply_step_def Let_def)
    next
      case (Inr u)
      obtain r2 w2 where am: "apply_mutation env ?e1 w1 = (r2, w2)" by force
      have src1: "at_source (w_fs w1) ?e1" and reg1: "regular ?e1" using src reg j1 by auto
      have aq: "(r2 = Inr () \<and> movable (w_fs w) ?e \<and> w_fs w2 = move_entry (w_fs w) ?e) \<or>
          (\<exists>reason. r2 = Inl (EsApplyFailed, reason) \<and> w_fs w2 = w_fs w \<and> w_hist w2 = w_hist w1)"
        using apply_mutation_quiet [OF am q nr src1 reg1] j1 by auto
      then have "chain f0 (tx_entries ?t1) (w_fs w2)" using stay move by auto
      then have cs2: "crash_safe f0 w2"
        using apply_mutation_crash_safe [OF am q, of f0 ?t1] j1 Inr by simp
      from aq show ?thesis
      proof
        assume ok: "r2 = Inr () \<and> movable (w_fs w) ?e \<and> w_fs w2 = move_entry (w_fs w) ?e"
        let ?e2 = "?e1\<lparr>te_state := EsApplied, te_applied_at_unix := Some (now_unix env w2)\<rparr>"
        let ?t2 = "set_entry ?t1 i ?e2"
        have cp: "checkpoint env StepNext ?t2 w2 = (r, t', w')"
          using step safe(1) wj Inr am ok fs1 by (simp add: apply_step_def Let_def)
        have es2: "tx_entries ?t2 = ?es[i := ?e2]" by (simp add: set_entry_def)
        have "chain (w_fs w) (?e2 # drop (Suc i) ?es) (w_fs w2)"
          by (rule chain.shifted) (use ok tail chain_unmoved in auto)
        then have ch2: "chain f0 (tx_entries ?t2) (w_fs w2)" unfolding es2 by (rule upd)
        have "\<not> in_flight (te_state ?e2)" by (simp add: in_flight_def)
        then show ?thesis
          using checkpoint_chain [OF cp q cs2 ch2] ch2 inv' [OF es2, of w'] by auto
      next
        assume "\<exists>reason. r2 = Inl (EsApplyFailed, reason) \<and> w_fs w2 = w_fs w \<and> w_hist w2 = w_hist w1"
        then obtain reason where bad: "r2 = Inl (EsApplyFailed, reason)" "w_fs w2 = w_fs w" by blast
        let ?e2 = "?e1\<lparr>te_state := EsApplyFailed, te_failure_reason := Some reason\<rparr>"
        let ?t2 = "(set_entry ?t1 i ?e2)\<lparr>tx_state := TsApplyFailed\<rparr>"
        have cp: "checkpoint env StepBreak ?t2 w2 = (r, t', w')"
          using step safe(1) wj Inr am bad fs1 by (simp add: apply_step_def Let_def)
        have es2: "tx_entries ?t2 = ?es[i := ?e2]" by (simp add: set_entry_def)
        have "unmoved ?e2" by (simp add: unmoved_def)
        then have "chain (w_fs w) (?e2 # drop (Suc i) ?es) (w_fs w2)"
          using tail bad by (simp add: chain.still chain_unmoved)
        then have ch2: "chain f0 (tx_entries ?t2) (w_fs w2)" unfolding es2 by (rule upd)
        have "\<not> in_flight (te_state ?e2)" by (simp add: in_flight_def)
        then show ?thesis
          using checkpoint_chain [OF cp q cs2 ch2] ch2 inv' [OF es2, of w'] by auto
      qed
    qed
  qed
qed

lemma apply_step_length:
  "apply_step env opts i t w = (r, t', w') \<Longrightarrow> length (tx_entries t') = length (tx_entries t)"
  by (auto simp: apply_step_def Let_def split: sum.splits prod.splits dest!: checkpoint_tx)

lemma apply_loop_chain:
  assumes "apply_loop env opts is t w = (x, t', w')" and "is = [i..<length (tx_entries t)]"
    and "quiet env" and "noreplace_rename (e_ren env)" and "\<not> po_allow_symlink_source opts"
    and "loop_inv f0 i t w"
  shows "crash_safe f0 w' \<and> chain f0 (tx_entries t') (w_fs w')"
  using assms
proof (induction env opts "is" t w arbitrary: i rule: apply_loop.induct)
  case (1 env opts t w)
  then show ?case by (simp add: loop_inv_def)
next
  case (2 env opts j "is" t w)
  from "2.prems"(2) have i: "j = i" "i < length (tx_entries t)" "is = [Suc i..<length (tx_entries t)]"
    using upt_eq_Cons_conv [of i "length (tx_entries t)" j "is"] by auto
  obtain c w1 where rc: "read_cancel env w = (c, w1)" by force
  then have w1: "w1 = interleave env w" using read_cancel_world [of env w] by simp
  have inv1: "loop_inv f0 i t w1" using "2.prems"(3,6) w1 by (simp add: loop_inv_def)
  show ?case
  proof (cases c)
    case True
    obtain r2 w2 where wj: "write_journal env (t\<lparr>tx_state := TsApplyFailed\<rparr>) w1 = (r2, w2)" by force
    have "crash_safe f0 w2 \<and> w_fs w2 = w_fs w1"
      using write_journal_crash_safe [OF wj "2.prems"(3), of f0] inv1 by (simp add: loop_inv_def)
    then show ?thesis using "2.prems"(1) rc True wj inv1
      by (auto simp: loop_inv_def split: sum.splits)
  next
    case False
    show ?thesis
    proof (cases "te_state (tx_entries t ! j) = EsSkipped")
      case True
      have "loop_inv f0 (Suc i) t w1" using inv1 unmoved_tail by (auto simp: loop_inv_def)
      moreover have "apply_loop env opts is t w1 = (x, t', w')"
        using "2.prems"(1) rc False True by simp
      ultimately show ?thesis
        using "2.IH"(1) [OF rc [symmetric]] False True i(3) "2.prems"(3-5) by simp
    next
      case ns: False
      obtain r t1 w2 where st: "apply_step env opts i t w1 = (r, t1, w2)" by (metis prod_cases3)
      have stp: "crash_safe f0 w2 \<and> chain f0 (tx_entries t1) (w_fs w2) \<and>
          (r = StepNext \<or> r = StepBreak \<longrightarrow> loop_inv f0 (Suc i) t1 w2)"
        by (rule apply_step_chain [OF st "2.prems"(3-5) inv1 i(2)])
      have len: "length (tx_entries t1) = length (tx_entries t)" by (rule apply_step_length [OF st])
      show ?thesis
      proof (cases "r = StepNext")
        case True
        then have "apply_loop env opts is t1 w2 = (x, t', w')"
          using "2.prems"(1) rc False ns st i(1) by simp
        then show ?thesis
          using "2.IH"(2) [OF rc [symmetric]] False ns st i(1,3) True "2.prems"(3-5) stp len by simp
      next
        case nn: False
        then have "t' = t1 \<and> w' = w2"
          using "2.prems"(1) rc False ns st i(1) by (cases r) auto
        with stp show ?thesis by simp
      qed
    qed
  qed
qed

lemma finish_apply_chain:
  assumes "finish_apply env t w = (r, t', w')" and "quiet env"
    and "crash_safe f0 w" and "chain f0 (tx_entries t) (w_fs w)"
  shows "crash_safe f0 w' \<and> chain f0 (tx_entries t') (w_fs w')"
proof -
  obtain r1 w1 where wj: "write_journal env t w = (r1, w1)" by force
  from write_journal_crash_safe [OF wj assms(2-4)] assms(1,4) wj show ?thesis
    by (cases r1) (auto simp: finish_apply_def)
qed

lemma run_batch_chain:
  assumes run: "run_batch env opts t w = (r, t', w')" and q: "quiet env"
    and nr: "noreplace_rename (e_ren env)" and nl: "\<not> po_allow_symlink_source opts"
    and un: "list_all unmoved (tx_entries t)" and cs: "crash_safe f0 w" and f0: "w_fs w = f0"
  shows "crash_safe f0 w' \<and> chain f0 (tx_entries t') (w_fs w')"
proof -
  have ch: "chain f0 (tx_entries t) f0" using un by (simp add: chain_unmoved)
  obtain r1 w1 where j1: "write_journal env t w = (r1, w1)" by force
  have c1: "crash_safe f0 w1" "w_fs w1 = f0"
    using write_journal_crash_safe [OF j1 q cs] ch f0 by auto
  let ?t1 = "t\<lparr>tx_state := TsApplying\<rparr>"
  obtain r2 w2 where j2: "write_journal env ?t1 w1 = (r2, w2)" by force
  have c2: "crash_safe f0 w2" "w_fs w2 = f0"
    using write_journal_crash_safe [OF j2 q c1(1)] ch c1(2) by auto
  obtain x t2 w3 where lp: "apply_loop env opts [0..<length (tx_entries ?t1)] ?t1 w2 = (x, t2, w3)"
    by (metis prod_cases3)
  have "loop_inv f0 0 ?t1 w2"
    using ch c2 un by (simp add: loop_inv_def unmoved_none_in_flight)
  then have c3: "crash_safe f0 w3 \<and> chain f0 (tx_entries t2) (w_fs w3)"
    by (intro apply_loop_chain [OF lp refl q nr nl])
  show ?thesis
  proof (cases r1)
    case (Inl e)
    then show ?thesis using run j1 c1 ch by (simp add: run_batch_def)
  next
    case (Inr u)
    show ?thesis
    proof (cases "list_all (\<lambda>e. te_state e = EsSkipped) (tx_entries t)")
      case True
      then have "finish_apply env (t\<lparr>tx_state := TsApplyFailed\<rparr>) w1 = (r, t', w')"
        using run j1 Inr by (simp add: run_batch_def)
      then show ?thesis using finish_apply_chain [OF _ q c1(1)] ch c1(2) by auto
    next
      case False
      show ?thesis
      proof (cases r2)
        case (Inl e)
        then show ?thesis using run j1 Inr False j2 c2 ch by (auto simp: run_batch_def Let_def)
      next
        case r2: (Inr u2)
        show ?thesis
        proof (cases "x = LoopEnd")
          case True
          let ?t3 = "if tx_state t2 = TsApplying then t2\<lparr>tx_state := TsApplied\<rparr> else t2"
          have "finish_apply env ?t3 w3 = (r, t', w')"
            using run j1 Inr False j2 r2 lp True by (simp add: run_batch_def Let_def)
          moreover have "chain f0 (tx_entries ?t3) (w_fs w3)" using c3 by simp
          ultimately show ?thesis using finish_apply_chain [OF _ q] c3 by blast
        next
          case nx: False
          then have "t' = t2 \<and> w' = w3"
            using run j1 Inr False j2 r2 lp by (cases x) (auto simp: run_batch_def Let_def)
          with c3 show ?thesis by simp
        qed
      qed
    qed
  qed
qed

lemma preflight_entry_frame:
  assumes "preflight_entry f opts e = (e', c)"
  shows "te_state e' = te_state e" "te_source_path e' = te_source_path e"
    "te_destination_path e' = te_destination_path e" "te_identity e' = te_identity e"
    "te_preflight_passed e' \<longleftrightarrow> safe_to_rename f e opts" "c = [] \<longleftrightarrow> safe_to_rename f e opts"
  using assms run_preflight_iff [of f e opts]
  by (auto simp: preflight_entry_def Let_def split: sum.splits)

lemma preflight_batch_frame:
  "preflight_batch env opts es w = (es', cs, w') \<Longrightarrow> quiet env \<Longrightarrow>
   w_fs w' = w_fs w \<and> w_hist w' = w_hist w \<and> map te_state es' = map te_state es"
proof (induction es arbitrary: w es' cs w')
  case Nil
  then show ?case by simp
next
  case (Cons e es)
  obtain es1 cs1 w1 where rec: "preflight_batch env opts es (interleave env w) = (es1, cs1, w1)"
    by (metis prod_cases3)
  obtain e1 c1 where pe: "preflight_entry (w_fs (interleave env w)) opts e = (e1, c1)" by force
  have "es' = e1 # es1" "w' = w1" using Cons.prems rec pe by (auto simp: Let_def)
  with Cons.IH [OF rec Cons.prems(2)] preflight_entry_frame(1) [OF pe] Cons.prems(2)
  show ?case by simp
qed

lemma unmoved_states: "map te_state es' = map te_state es \<Longrightarrow> list_all unmoved es' = list_all unmoved es"
proof (induction es arbitrary: es')
  case Nil
  then show ?case by simp
next
  case (Cons e es)
  then obtain e' es1 where "es' = e' # es1" "te_state e' = te_state e" "map te_state es1 = map te_state es"
    by auto
  with Cons.IH [of es1] show ?case by (simp add: unmoved_def)
qed

lemma skip_unsafe_unmoved: "list_all unmoved es \<Longrightarrow> list_all unmoved (skip_unsafe es)"
  by (auto simp: skip_unsafe_def list_all_iff unmoved_def)

lemma apply_transaction_chain:
  assumes run: "apply_transaction env ex t w = (r, t', w')" and q: "quiet env"
    and nr: "noreplace_rename (e_ren env)" and nl: "\<not> ex_allow_symlink_source ex"
    and un: "list_all unmoved (tx_entries t)" and cs: "crash_safe (w_fs w) w"
  shows "crash_safe (w_fs w) w' \<and> chain (w_fs w) (tx_entries t') (w_fs w')"
proof -
  have ch: "chain (w_fs w) (tx_entries t) (w_fs w)" using un by (simp add: chain_unmoved)
  obtain c w1 where rc: "read_cancel env w = (c, w1)" by force
  then have w1: "w1 = interleave env w" using read_cancel_world [of env w] by simp
  let ?o = "options_of ex t"
  obtain es cs2 w2 where pb: "preflight_batch env ?o (tx_entries t) w1 = (es, cs2, w2)"
    by (metis prod_cases3)
  have fr: "w_fs w2 = w_fs w" "w_hist w2 = w_hist w" "list_all unmoved es"
    using preflight_batch_frame [OF pb q] w1 q un unmoved_states [of es "tx_entries t"] by simp_all
  have cs2: "crash_safe (w_fs w) w2" using cs crash_safe_hist [OF fr(2)] by simp
  have nl': "\<not> po_allow_symlink_source ?o" using nl by (simp add: options_of_def)
  have es: "chain (w_fs w) es (w_fs w)" using fr(3) by (simp add: chain_unmoved)
  have batch: "run_batch env ?o t1 w2 = (r, t', w') \<Longrightarrow> list_all unmoved (tx_entries t1) \<Longrightarrow>
      crash_safe (w_fs w) w' \<and> chain (w_fs w) (tx_entries t') (w_fs w')" for t1
    by (rule run_batch_chain [OF _ q nr nl' _ cs2 fr(1)])
  show ?thesis
  proof (cases "w_fs w' = w_fs w \<and> w_hist w' = w_hist w \<and> list_all unmoved (tx_entries t')")
    case True
    then show ?thesis using cs crash_safe_hist [of w' w] by (simp add: chain_unmoved)
  next
    case False
    have "run_batch env ?o (t\<lparr>tx_entries := es\<rparr>) w2 = (r, t', w') \<or>
        run_batch env ?o (t\<lparr>tx_entries := skip_unsafe es\<rparr>) w2 = (r, t', w')"
    proof (cases "validate_classifier_version (tx_classifier_version t)")
      case (Inl err)
      then show ?thesis using run False un by (auto simp: apply_transaction_def)
    next
      case (Inr u)
      show ?thesis
      proof (cases "c \<or> tx_plan_generation t \<noteq> ex_current_generation ex")
        case True
        then show ?thesis using run False un Inr rc w1 q
          by (cases c) (auto simp: apply_transaction_def)
      next
        case go: False
        show ?thesis
        proof (cases "ex_hard_conflict_mode ex")
          case AbortAll
          then show ?thesis using run False fr Inr rc go pb
            by (auto simp: apply_transaction_def Let_def split: if_splits)
        next
          case SkipUnsafeSubset
          then show ?thesis using run Inr rc go pb
            by (auto simp: apply_transaction_def Let_def)
        qed
      qed
    qed
    then show ?thesis using batch fr(3) skip_unsafe_unmoved by auto
  qed
qed

end
