(* ===== verification/TxnFrame.thy ===== *)
theory TxnFrame
  imports TxnSafety
begin

text \<open>
  What no pass changes. A pass rewrites the states, the time stamps and the preflight
  results of a transaction; it never changes what an entry renames, its recorded object,
  the number of entries or the identity of the batch. The locale states that contract
  once for any predicate that is kept by such updates; it gives the frame property of
  every journal write of a pass.
\<close>

section \<open>What stays fixed\<close>

definition te_frame :: "transaction_entry \<Rightarrow> path \<times> path \<times> object_identity" where
  "te_frame e = (te_source_path e, te_destination_path e, te_identity e)"

lemma te_frame_simps [simp]:
  "te_frame (e\<lparr>te_state := s\<rparr>) = te_frame e"
  "te_frame (e\<lparr>te_preflight_passed := b\<rparr>) = te_frame e"
  "te_frame (e\<lparr>te_preflight_failures := r\<rparr>) = te_frame e"
  "te_frame (e\<lparr>te_applied_at_unix := a\<rparr>) = te_frame e"
  "te_frame (e\<lparr>te_rolled_back_at_unix := a\<rparr>) = te_frame e"
  "te_frame (e\<lparr>te_failure_reason := m\<rparr>) = te_frame e"
  by (simp_all add: te_frame_def)

definition same_batch :: "rename_transaction \<Rightarrow> rename_transaction \<Rightarrow> bool" where
  "same_batch t0 t \<longleftrightarrow>
     tx_transaction_id t = tx_transaction_id t0 \<and>
     tx_plan_generation t = tx_plan_generation t0 \<and>
     map te_frame (tx_entries t) = map te_frame (tx_entries t0)"

lemma same_batch_refl [simp]: "same_batch t t"
  by (simp add: same_batch_def)

lemma preflight_batch_te_frame:
  "preflight_batch env opts es w = (es', cs, w') \<Longrightarrow> map te_frame es' = map te_frame es"
proof (induction es arbitrary: w es' cs w')
  case Nil
  then show ?case by simp
next
  case (Cons e es)
  obtain es1 cs1 w1 where rec: "preflight_batch env opts es (interleave env w) = (es1, cs1, w1)"
    by (metis prod_cases3)
  obtain e1 c1 where pe: "preflight_entry (w_fs (interleave env w)) opts e = (e1, c1)" by force
  have "te_frame e1 = te_frame e"
    using pe by (auto simp: preflight_entry_def Let_def split: sum.splits)
  moreover have "es' = e1 # es1" using Cons.prems rec pe by (auto simp: Let_def)
  ultimately show ?case using Cons.IH [OF rec] by simp
qed

lemma skip_unsafe_te_frame [simp]: "map te_frame (skip_unsafe es) = map te_frame es"
  by (simp add: skip_unsafe_def)

lemma reconcile_entry_te_frame [simp]: "te_frame (fst (reconcile_entry now k e)) = te_frame e"
  by (cases k) (auto simp: reconcile_entry_def)

lemma reconcile_entries_te_frame:
  "reconcile_entries env i es w = (es', iss, c, w') \<Longrightarrow> map te_frame es' = map te_frame es"
proof (induction es arbitrary: i w es' iss c w')
  case Nil
  then show ?case by simp
next
  case (Cons e es)
  let ?w = "interleave env w"
  obtain es1 is1 c1 w1 where r1: "reconcile_entries env (Suc i) es ?w = (es1, is1, c1, w1)"
    by (metis prod_cases4)
  obtain es2 is2 c2 w2 where r2: "reconcile_entries env (Suc i) es w = (es2, is2, c2, w2)"
    by (metis prod_cases4)
  obtain e1 c3 where e1:
      "reconcile_entry (now_unix env ?w) (ri_kind (classify_entry (w_fs ?w) e i)) e = (e1, c3)"
    by force
  then have "te_frame e1 = te_frame e" using reconcile_entry_te_frame by (metis fst_conv)
  then show ?case
    using Cons.prems r1 r2 e1 Cons.IH [OF r1] Cons.IH [OF r2] by (auto simp: Let_def split: if_splits)
qed

section \<open>The contract\<close>

text \<open>A predicate on transactions that the updates of an apply pass keep.\<close>

locale txn_frame =
  fixes P :: "rename_transaction \<Rightarrow> bool"
  assumes entry: "P t \<Longrightarrow> te_frame e = te_frame (tx_entries t ! i) \<Longrightarrow> P (set_entry t i e)"
    and entries: "P t \<Longrightarrow> map te_frame es = map te_frame (tx_entries t) \<Longrightarrow> P (t\<lparr>tx_entries := es\<rparr>)"
    and state: "P t \<Longrightarrow> s \<noteq> TsRolledBack \<Longrightarrow> P (t\<lparr>tx_state := s\<rparr>)"
begin

definition journalled :: "world \<Rightarrow> bool" where
  "journalled w \<longleftrightarrow> (\<forall>t f. JournalWritten t f \<in> set (w_hist w) \<longrightarrow> P t)"

lemma journalled_hist: "w_hist w' = w_hist w \<Longrightarrow> journalled w' = journalled w"
  by (simp add: journalled_def)

lemma journalled_interleave [simp]: "journalled (interleave env w) = journalled w"
  by (rule journalled_hist) simp

lemma write_journal_frame:
  "write_journal env t w = (r, w') \<Longrightarrow> P t \<Longrightarrow> journalled w \<Longrightarrow> journalled w'"
  by (erule write_journal_cases) (auto simp: journalled_def)

lemma rename_frame:
  "rename_noreplace env s d w = (r, w') \<Longrightarrow> journalled w \<Longrightarrow> journalled w'"
  by (erule rename_noreplace_cases) (auto simp: journalled_def)

lemma apply_mutation_frame:
  assumes "apply_mutation env e w = (r, w')" and "journalled w"
  shows "journalled w'"
proof -
  obtain r1 w1 where ren: "rename_noreplace env (te_source_path e) (te_destination_path e) w = (r1, w1)"
    by force
  have "w_hist w' = w_hist w1"
    using assms(1) ren
    by (auto simp: apply_mutation_def Let_def split: sum.splits no_clobber_error.splits)
  with rename_frame [OF ren assms(2)] show ?thesis using journalled_hist by blast
qed

lemma rollback_mutation_frame:
  assumes "rollback_mutation env e w = (r, w')" and "journalled w"
  shows "journalled w'"
proof (cases "w_hist w' = w_hist w")
  case True
  then show ?thesis using assms(2) journalled_hist by blast
next
  case False
  let ?w = "interleave env w"
  obtain r1 w1 where ren:
      "rename_noreplace env (te_destination_path e) (te_source_path e) ?w = (r1, w1)"
    by force
  have "w_hist w' = w_hist w1"
    using assms(1) ren False
    by (auto simp: rollback_mutation_def Let_def
        split: sum.splits no_clobber_error.splits option.splits if_splits)
  with rename_frame [OF ren] assms(2) show ?thesis using journalled_hist [of w' w1] by simp
qed

lemma checkpoint_frame:
  "checkpoint env nx t w = (r, t', w') \<Longrightarrow> P t \<Longrightarrow> journalled w \<Longrightarrow> P t' \<and> journalled w'"
  by (auto simp: checkpoint_def split: prod.splits sum.splits dest: write_journal_frame)

lemma entry_twice:
  assumes "P t" and "te_frame e1 = te_frame (tx_entries t ! i)"
    and "te_frame e2 = te_frame (tx_entries t ! i)"
  shows "P (set_entry (set_entry t i e1) i e2)"
proof -
  have "set_entry (set_entry t i e1) i e2 = set_entry t i e2" by (simp add: set_entry_def)
  then show ?thesis using entry [OF assms(1,3)] by simp
qed

lemma apply_step_frame:
  assumes step: "apply_step env opts i t w = (r, t', w')" and P: "P t" and j: "journalled w"
  shows "P t' \<and> journalled w'"
proof (cases "run_preflight (w_fs (interleave env w)) (tx_entries t ! i) opts")
  case (Inl failures)
  let ?rs = "map preflight_reason failures"
  let ?e1 = "(tx_entries t ! i)\<lparr>te_preflight_passed := False, te_preflight_failures := ?rs,
      te_state := EsApplyFailed, te_failure_reason := Some (join_with ''; '' ?rs)\<rparr>"
  have "checkpoint env StepBreak ((set_entry t i ?e1)\<lparr>tx_state := TsApplyFailed\<rparr>)
      (interleave env w) = (r, t', w')"
    using step Inl by (simp add: apply_step_def Let_def)
  then show ?thesis by (rule checkpoint_frame) (simp_all add: state entry P j)
next
  case ok: (Inr u)
  let ?e1 = "(tx_entries t ! i)\<lparr>te_preflight_passed := True, te_state := EsApplying\<rparr>"
  let ?t1 = "set_entry t i ?e1"
  have P1: "P ?t1" by (simp add: entry P)
  obtain r1 w1 where wj: "write_journal env ?t1 (interleave env w) = (r1, w1)" by force
  have j1: "journalled w1" by (rule write_journal_frame [OF wj P1]) (simp add: j)
  show ?thesis
  proof (cases r1)
    case (Inl err)
    then show ?thesis using step wj ok P1 j1 by (simp add: apply_step_def Let_def)
  next
    case (Inr u1)
    obtain r2 w2 where am: "apply_mutation env ?e1 w1 = (r2, w2)" by force
    have j2: "journalled w2" by (rule apply_mutation_frame [OF am j1])
    show ?thesis
    proof (cases r2)
      case (Inl sr)
      obtain s reason where sr: "sr = (s, reason)" by force
      let ?e2 = "?e1\<lparr>te_state := s, te_failure_reason := Some reason\<rparr>"
      have "checkpoint env StepBreak ((set_entry ?t1 i ?e2)\<lparr>tx_state := TsApplyFailed\<rparr>) w2 = (r, t', w')"
        using step wj ok Inr am Inl sr by (simp add: apply_step_def Let_def)
      then show ?thesis by (rule checkpoint_frame) (simp_all add: state entry_twice P j2)
    next
      case done2: (Inr u2)
      let ?e2 = "?e1\<lparr>te_state := EsApplied, te_applied_at_unix := Some (now_unix env w2)\<rparr>"
      have "checkpoint env StepNext (set_entry ?t1 i ?e2) w2 = (r, t', w')"
        using step wj ok Inr am done2 by (simp add: apply_step_def Let_def)
      then show ?thesis by (rule checkpoint_frame) (simp_all add: entry_twice P j2)
    qed
  qed
qed

lemma apply_loop_frame:
  "apply_loop env opts is t w = (x, t', w') \<Longrightarrow> P t \<Longrightarrow> journalled w \<Longrightarrow> P t' \<and> journalled w'"
proof (induction env opts "is" t w rule: apply_loop.induct)
  case (1 env opts t w)
  then show ?case by simp
next
  case (2 env opts i "is" t w)
  obtain c w1 where rc: "read_cancel env w = (c, w1)" by force
  then have j1: "journalled w1" using read_cancel_world [of env w] "2.prems"(3) by auto
  show ?case
  proof (cases c)
    case True
    let ?t1 = "t\<lparr>tx_state := TsApplyFailed\<rparr>"
    have P1: "P ?t1" by (simp add: state "2.prems"(2))
    obtain r2 w2 where wj: "write_journal env ?t1 w1 = (r2, w2)" by force
    have "journalled w2" by (rule write_journal_frame [OF wj P1 j1])
    then show ?thesis using "2.prems"(1) rc True wj P1 by (auto split: sum.splits)
  next
    case False
    show ?thesis
    proof (cases "te_state (tx_entries t ! i) = EsSkipped")
      case True
      then show ?thesis using "2.IH"(1) "2.prems" rc False j1 by simp
    next
      case ns: False
      obtain r t1 w2 where st: "apply_step env opts i t w1 = (r, t1, w2)" by (metis prod_cases3)
      have ok: "P t1 \<and> journalled w2" by (rule apply_step_frame [OF st "2.prems"(2) j1])
      show ?thesis
        using "2.IH"(2) "2.prems" rc False ns st ok by (cases r) auto
    qed
  qed
qed

lemma finish_apply_frame:
  "finish_apply env t w = (r, t', w') \<Longrightarrow> P t \<Longrightarrow> journalled w \<Longrightarrow> P t' \<and> journalled w'"
  by (auto simp: finish_apply_def split: prod.splits sum.splits dest: write_journal_frame)

lemma run_batch_frame:
  assumes run: "run_batch env opts t w = (r, t', w')" and P: "P t" and j: "journalled w"
  shows "P t' \<and> journalled w'"
proof -
  obtain r1 w1 where j1: "write_journal env t w = (r1, w1)" by force
  let ?t1 = "t\<lparr>tx_state := TsApplying\<rparr>"
  obtain r2 w2 where j2: "write_journal env ?t1 w1 = (r2, w2)" by force
  obtain x t2 w3 where lp:
      "apply_loop env opts [0..<length (tx_entries ?t1)] ?t1 w2 = (x, t2, w3)"
    by (metis prod_cases3)
  have P1: "P ?t1" "P (t\<lparr>tx_state := TsApplyFailed\<rparr>)" by (simp_all add: state P)
  have ok1: "journalled w1" by (rule write_journal_frame [OF j1 P j])
  have ok2: "journalled w2" by (rule write_journal_frame [OF j2 P1(1) ok1])
  have ok3: "P t2 \<and> journalled w3" by (rule apply_loop_frame [OF lp P1(1) ok2])
  have P3: "P (if tx_state t2 = TsApplying then t2\<lparr>tx_state := TsApplied\<rparr> else t2)"
    using ok3 by (simp add: state)
  show ?thesis
    using run j1 j2 lp ok1 ok2 ok3 P1 P P3 finish_apply_frame
    by (fastforce simp: run_batch_def Let_def split: sum.splits if_splits loop_exit.splits)
qed

lemma apply_transaction_frame:
  assumes run: "apply_transaction env ex t w = (r, t', w')" and P: "P t" and j: "journalled w"
  shows "P t' \<and> journalled w'"
proof -
  obtain c w1 where rc: "read_cancel env w = (c, w1)" by force
  then have w1: "w_hist w1 = w_hist w" using read_cancel_world [of env w] by auto
  obtain es cs w2 where pb: "preflight_batch env (options_of ex t) (tx_entries t) w1 = (es, cs, w2)"
    by (metis prod_cases3)
  have j1: "journalled w1" "journalled w2"
    using j w1 preflight_batch_hist [OF pb] journalled_hist by metis+
  have P1: "P (t\<lparr>tx_entries := es\<rparr>)" "P (t\<lparr>tx_entries := skip_unsafe es\<rparr>)"
    using preflight_batch_te_frame [OF pb] by (simp_all add: entries P)
  show ?thesis
    using run rc pb j j1 P P1
    by (auto simp: apply_transaction_def Let_def dest: run_batch_frame
        split: sum.splits if_splits hard_conflict_mode.splits bool.splits)
qed

lemma reconcile_recovery_frame:
  assumes rr: "reconcile_recovery env t w = (r, t', w')" and P: "P t" and j: "journalled w"
  shows "P t' \<and> journalled w'"
proof -
  obtain es iss c w1 where re: "reconcile_entries env 0 (tx_entries t) w = (es, iss, c, w1)"
    by (metis prod_cases4)
  obtain t1 c1 where lv: "reconcile_transaction_level_state (t\<lparr>tx_entries := es\<rparr>) = (t1, c1)"
    by force
  have "P (t\<lparr>tx_entries := es\<rparr>)" using reconcile_entries_te_frame [OF re] by (simp add: entries P)
  then have P1: "P t1"
    using lv by (auto simp: reconcile_transaction_level_state_def state split: if_splits)
  have "journalled w1" using reconcile_entries_hist [OF re] j journalled_hist by blast
  with P1 show ?thesis
    using rr re lv
    by (auto simp: reconcile_recovery_def split: if_splits prod.splits sum.splits
        dest: write_journal_frame)
qed

end

text \<open>With the final state allowed as well, the contract covers a rollback pass.\<close>

locale txn_frame_full = txn_frame +
  assumes rolled_back: "P t \<Longrightarrow> P (t\<lparr>tx_state := TsRolledBack\<rparr>)"
begin

lemma any_state: "P t \<Longrightarrow> P (t\<lparr>tx_state := s\<rparr>)"
  using state rolled_back by (cases "s = TsRolledBack") auto

lemma rollback_step_frame:
  assumes step: "rollback_step env i p t w = (r, t', w')" and P: "P t" and j: "journalled w"
  shows "P t' \<and> journalled w'"
proof -
  let ?e1 = "(tx_entries t ! i)\<lparr>te_state := EsRollingBack\<rparr>"
  let ?t1 = "set_entry t i ?e1"
  obtain r2 w2 where wj: "write_journal env ?t1 w = (r2, w2)" by force
  obtain r3 w3 where rm: "rollback_mutation env ?e1 w2 = (r3, w3)" by force
  let ?e2 = "?e1\<lparr>te_state := EsRolledBack,
      te_rolled_back_at_unix := Some (now_unix env w3), te_failure_reason := None\<rparr>"
  let ?t2 = "set_entry ?t1 i ?e2"
  obtain r4 w4 where wj2: "write_journal env ?t2 w3 = (r4, w4)" by force
  have P1: "P ?t1" and P2: "P ?t2" by (simp_all add: entry entry_twice P)
  have fail: "P (set_entry ?t1 i (?e1\<lparr>te_state := EsRollbackFailed, te_failure_reason := Some m\<rparr>))" for m
    by (simp add: entry_twice P)
  have j2: "journalled w2" by (rule write_journal_frame [OF wj P1 j])
  have j3: "journalled w3" by (rule rollback_mutation_frame [OF rm j2])
  have j4: "journalled w4" by (rule write_journal_frame [OF wj2 P2 j3])
  show ?thesis
    using step wj rm wj2 j2 j3 j4 P1 P2 fail
    by (auto simp: rollback_step_def Let_def split: sum.splits)
qed

lemma rollback_loop_frame:
  "rollback_loop env is p t w = (r, t', w') \<Longrightarrow> P t \<Longrightarrow> journalled w \<Longrightarrow> P t' \<and> journalled w'"
proof (induction env "is" p t w rule: rollback_loop.induct)
  case (1 env p t w)
  then show ?case by simp
next
  case (2 env i "is" p t w)
  obtain c w1 where rc: "read_cancel env w = (c, w1)" by force
  then have j1: "journalled w1" using read_cancel_world [of env w] "2.prems"(3) by auto
  show ?case
  proof (cases "c \<or> \<not> is_eligible_for_rollback (tx_entries t ! i)")
    case True
    then show ?thesis using "2.IH"(1) "2.prems" rc j1 by (cases c) auto
  next
    case False
    obtain x t1 w2 where st: "rollback_step env i p t w1 = (x, t1, w2)" by (metis prod_cases3)
    have ok: "P t1 \<and> journalled w2" by (rule rollback_step_frame [OF st "2.prems"(2) j1])
    show ?thesis
      using "2.IH"(2) "2.prems" rc False st ok by (cases x) auto
  qed
qed

lemma finish_rollback_frame:
  "finish_rollback env res t w = (r, t', w') \<Longrightarrow> P t \<Longrightarrow> journalled w \<Longrightarrow> P t' \<and> journalled w'"
  by (auto simp: finish_rollback_def split: prod.splits sum.splits dest: write_journal_frame)

lemma rollback_transaction_frame:
  assumes run: "rollback_transaction env t w = (r, t', w')" and P: "P t" and j: "journalled w"
  shows "P t' \<and> journalled w'"
proof (cases "tx_state t = TsRolledBack")
  case True
  then show ?thesis using run P j by (simp add: rollback_transaction_def)
next
  case False
  obtain r1 t1 w1 where rr: "reconcile_recovery env t w = (r1, t1, w1)" by (metis prod_cases3)
  let ?t2 = "t1\<lparr>tx_state := TsRollingBack\<rparr>"
  obtain r2 w2 where j2: "write_journal env ?t2 w1 = (r2, w2)" by force
  obtain x t3 w3 where lp:
      "rollback_loop env (rev [0..<length (tx_entries ?t2)]) no_progress ?t2 w2 = (x, t3, w3)"
    by (metis prod_cases3)
  have ok1: "P t1 \<and> journalled w1" by (rule reconcile_recovery_frame [OF rr P j])
  then have P2: "P ?t2" by (simp add: any_state)
  have ok2: "journalled w2" using write_journal_frame [OF j2 P2] ok1 by blast
  have ok3: "P t3 \<and> journalled w3" by (rule rollback_loop_frame [OF lp P2 ok2])
  have P3: "P (t1\<lparr>tx_state := s\<rparr>)" "P (t3\<lparr>tx_state := s\<rparr>)" for s
    using ok1 ok3 by (simp_all add: any_state)
  show ?thesis
    using run rr j2 lp ok1 ok2 ok3 False P2 P3
    by (auto simp: rollback_transaction_def Let_def dest: finish_rollback_frame
        split: sum.splits if_splits)
qed

end

section \<open>Instances\<close>

interpretation batch: txn_frame_full "same_batch t0" for t0
proof (unfold_locales, goal_cases)
  case (1 t e i)
  then have "map te_frame ((tx_entries t)[i := e]) = map te_frame (tx_entries t)"
    by (cases "i < length (tx_entries t)") (simp_all add: map_update list_update_same_conv list_update_beyond)
  with 1(1) show ?case by (simp add: same_batch_def set_entry_def)
qed (auto simp: same_batch_def)

text \<open>During an apply pass the batch is in addition never recorded as rolled back.\<close>

definition not_rolled_back :: "rename_transaction \<Rightarrow> bool" where
  "not_rolled_back t \<longleftrightarrow> tx_state t \<noteq> TsRolledBack"

interpretation applying: txn_frame not_rolled_back
  by unfold_locales (auto simp: not_rolled_back_def set_entry_def)

text \<open>
  Every journal write of an apply pass, and the transaction it returns, is the same
  batch: same id, same plan generation, and entry by entry the same source, destination
  and recorded object.
\<close>

theorem apply_keeps_batch:
  assumes "apply_transaction env ex t w = (r, t', w')" and "w_hist w = []"
  shows "same_batch t t' \<and> (\<forall>tj f. JournalWritten tj f \<in> set (w_hist w') \<longrightarrow> same_batch t tj)"
  using batch.apply_transaction_frame [OF assms(1)] assms(2)
  by (simp add: batch.journalled_def)

text \<open>
  The same for a rollback pass, the reconciliation it starts with included.
\<close>

theorem rollback_keeps_batch:
  assumes "rollback_transaction env t w = (r, t', w')" and "w_hist w = []"
  shows "same_batch t t' \<and> (\<forall>tj f. JournalWritten tj f \<in> set (w_hist w') \<longrightarrow> same_batch t tj)"
  using batch.rollback_transaction_frame [OF assms(1)] assms(2)
  by (simp add: batch.journalled_def)

end
