(* ===== verification/TxnRestore.thy ===== *)
theory TxnRestore
  imports TxnCrash TxnFrame
begin

text \<open>
  Rollback restores. In a quiet environment whose rename call works (\<open>live_rename\<close>), a
  rollback keeps the chain invariant at every crash point, also when it is cancelled or
  its journal writes fail; when neither happens it reports a full rollback and the file
  system is the one before the batch. Together with \<open>TxnCrash\<close>: whatever step a crash
  interrupts, rolling back restores every file.
\<close>

section \<open>Reconciling a crash state\<close>

lemma classify_at_source:
  "at_source f e \<Longrightarrow> ri_kind (classify_entry f e i) = RenameDidNotHappen"
  using holds_object_present [of f "te_source_path e" "te_identity e"]
  by (auto simp: classify_entry_def Let_def at_source_def absent_def)

lemma classify_at_destination:
  "at_destination f e \<Longrightarrow> ri_kind (classify_entry f e i) = RenameConfirmed"
  using holds_object_present [of f "te_destination_path e" "te_identity e"]
  by (auto simp: classify_entry_def Let_def at_destination_def absent_def)

lemma reconcile_entries_settled:
  "none_in_flight es \<Longrightarrow> reconcile_entries env i es w = (es, [], False, w)"
  by (induction es arbitrary: i) auto

lemma reconcile_entry_not_moved:
  "in_flight (te_state e) \<Longrightarrow> unmoved (fst (reconcile_entry now RenameDidNotHappen e))"
  by (auto simp: reconcile_entry_def in_flight_def unmoved_def)

lemma reconcile_entry_moved:
  "in_flight (te_state e) \<Longrightarrow>
   te_state (fst (reconcile_entry now RenameConfirmed e)) = EsApplied \<and>
   movable f (fst (reconcile_entry now RenameConfirmed e)) = movable f e \<and>
   move_entry f (fst (reconcile_entry now RenameConfirmed e)) = move_entry f e"
  by (auto simp: reconcile_entry_def in_flight_def)

lemma reconcile_entries_chain:
  assumes "chain f0 es f" and "reconcile_entries env i es w = (es', iss, c, w')"
    and "quiet env" and "w_fs w = f"
  shows "chain f0 es' f \<and> none_in_flight es' \<and> filter is_unresolved iss = [] \<and> w_fs w' = f"
  using assms
proof (induction arbitrary: i w es' iss c w' rule: chain.induct)
  case (finished f)
  then show ?case by (auto intro: chain.finished)
next
  case (still e f es g)
  then have nf: "\<not> in_flight (te_state e)" using unmoved_not_in_flight by blast
  obtain es1 is1 c1 w1 where rec: "reconcile_entries env (Suc i) es w = (es1, is1, c1, w1)"
    by (metis prod_cases4)
  from still.IH [OF rec still.prems(2,3)] still.prems(1) rec nf still.hyps(1) show ?case
    by (auto intro: chain.still)
next
  case (shifted e f es g)
  then have nf: "\<not> in_flight (te_state e)" by (simp add: in_flight_def)
  obtain es1 is1 c1 w1 where rec: "reconcile_entries env (Suc i) es w = (es1, is1, c1, w1)"
    by (metis prod_cases4)
  from shifted.IH [OF rec shifted.prems(2,3)] shifted.prems(1) rec nf shifted.hyps(1,2) show ?case
    by (auto intro: chain.shifted)
next
  case (flight e f es g)
  have nf: "none_in_flight es" by (rule unmoved_none_in_flight [OF flight.hyps(4)])
  let ?w = "interleave env w"
  let ?kind = "ri_kind (classify_entry g e i)"
  let ?e = "fst (reconcile_entry (now_unix env ?w) ?kind e)"
  have wg: "w_fs ?w = g" using flight.prems(2,3) by simp
  have "reconcile_entries env (Suc i) es ?w = (es, [], False, ?w)"
    by (rule reconcile_entries_settled [OF nf])
  then have "es' = ?e # es \<and> iss = [classify_entry g e i] \<and> w' = ?w"
    using flight.prems(1) flight.hyps(1) wg by (auto simp: Let_def split_beta)
  then have out: "es' = ?e # es" "iss = [classify_entry g e i]" "w' = ?w" by simp_all
  from flight.hyps(5) show ?case
  proof
    assume gf: "g = f"
    then have k: "?kind = RenameDidNotHappen" using classify_at_source flight.hyps(2) by blast
    have u: "unmoved ?e" unfolding k by (rule reconcile_entry_not_moved [OF flight.hyps(1)])
    then have "list_all unmoved (?e # es)" using flight.hyps(4) by simp
    then have "chain f (?e # es) g" by (simp only: chain_unmoved gf)
    then show ?thesis
      using out k nf wg unmoved_not_in_flight [OF u] by (simp add: is_unresolved_def)
  next
    assume mv: "movable f e \<and> g = move_entry f e"
    then have k: "?kind = RenameConfirmed" using classify_at_destination movable_at_destination by blast
    have a: "te_state ?e = EsApplied" "movable f ?e" "move_entry f ?e = move_entry f e"
      unfolding k using reconcile_entry_moved [OF flight.hyps(1)] mv by auto
    have "chain (move_entry f ?e) es g" using a(3) mv flight.hyps(4) by (simp add: chain_unmoved)
    then have "chain f (?e # es) g" using a by (intro chain.shifted)
    then show ?thesis
      using out k a(1) nf wg by (simp add: is_unresolved_def in_flight_def)
  qed
qed

lemma reconcile_level_id:
  "reconcile_transaction_level_state t = (t', c) \<Longrightarrow>
   tx_transaction_id t' = tx_transaction_id t \<and> tx_entries t' = tx_entries t"
  by (auto simp: reconcile_transaction_level_state_def split: if_splits)

lemma write_journal_ok:
  assumes "journal_works env" and "journal_file_name (tx_transaction_id t) \<noteq> None"
    and "write_journal env t w = (r, w')"
  shows "r = Inr ()"
proof -
  from assms(2) obtain name where "journal_file_name (tx_transaction_id t) = Some name" by blast
  moreover have "e_journal_err env n = None" for n using assms(1) by (simp add: journal_works_def)
  ultimately show ?thesis using assms(3) by (simp add: write_journal_def Let_def)
qed

lemma reconcile_recovery_chain:
  assumes rr: "reconcile_recovery env t w = (r, t', w')" and q: "quiet env"
    and ch: "chain f0 (tx_entries t) (w_fs w)" and cs: "crash_safe f0 w"
  shows "chain f0 (tx_entries t') (w_fs w') \<and> none_in_flight (tx_entries t') \<and>
    crash_safe f0 w' \<and> w_fs w' = w_fs w \<and> tx_transaction_id t' = tx_transaction_id t \<and>
    (\<forall>iss. r = Inr iss \<longrightarrow> filter is_unresolved iss = []) \<and>
    (journal_works env \<longrightarrow> journal_file_name (tx_transaction_id t) \<noteq> None \<longrightarrow> (\<exists>iss. r = Inr iss))"
proof -
  obtain es "is" c w1 where re: "reconcile_entries env 0 (tx_entries t) w = (es, is, c, w1)"
    by (metis prod_cases4)
  obtain t1 c1 where lv: "reconcile_transaction_level_state (t\<lparr>tx_entries := es\<rparr>) = (t1, c1)"
    by force
  have e: "chain f0 es (w_fs w) \<and> none_in_flight es \<and> filter is_unresolved is = [] \<and> w_fs w1 = w_fs w"
    by (rule reconcile_entries_chain [OF ch re q refl])
  have cs1: "crash_safe f0 w1" using reconcile_entries_hist [OF re] crash_safe_hist [of w1 w] cs by simp
  have t1: "tx_transaction_id t1 = tx_transaction_id t" "tx_entries t1 = es"
    using reconcile_level_id [OF lv] by simp_all
  obtain r2 w2 where wj: "write_journal env t1 w1 = (r2, w2)" by force
  have j: "crash_safe f0 w2 \<and> w_fs w2 = w_fs w1"
    using write_journal_crash_safe [OF wj q cs1] e t1 by simp
  show ?thesis
  proof (cases "c \<or> c1")
    case True
    then show ?thesis
      using rr re lv wj j e t1 write_journal_ok [of env t1 w1 r2 w2]
      by (cases r2) (auto simp: reconcile_recovery_def)
  next
    case False
    then show ?thesis using rr re lv e t1 cs1 by (auto simp: reconcile_recovery_def)
  qed
qed

section \<open>One reversal\<close>

lemma rollback_mutation_live:
  assumes rm: "rollback_mutation env e w = (r, w')" and q: "quiet env"
    and lr: "live_rename (e_ren env)" and mv: "movable h e" and fs: "w_fs w = move_entry h e"
    and nn: "\<not> has_nul (te_source_path e)" "\<not> has_nul (te_destination_path e)"
  shows "r = Inr () \<and> w_fs w' = h \<and>
    w_hist w' = w_hist w @ [Renamed (te_destination_path e) (te_source_path e) (w_fs w) h]"
proof -
  have nr: "noreplace_rename (e_ren env)" using lr by (simp add: live_rename_def)
  let ?w = "interleave env w"
  have dest: "at_destination (w_fs w) e" using movable_at_destination [OF mv] fs by simp
  obtain g where g: "e_ren env (w_fs w) (te_destination_path e) (te_source_path e) = Inr g"
    using move_entry_undo_possible [OF mv lr] fs by auto
  have gh: "g = h" by (rule move_entry_undo [OF mv nr]) (use g fs in simp)
  obtain r1 w1 where rn: "rename_noreplace env (te_destination_path e) (te_source_path e) ?w = (r1, w1)"
    by force
  have ren: "r1 = Inr ()" "w_fs w1 = h"
      "w_hist w1 = w_hist w @ [Renamed (te_destination_path e) (te_source_path e) (w_fs w) h]"
    using rn g gh q nn by (auto simp: rename_noreplace_def Let_def)
  have src: "at_source h e" using mv by (simp add: movable_def)
  obtain cur where cur: "capture_identity h (te_source_path e) = Some cur" "identity_matches (te_identity e) cur"
    using src by (auto simp: at_source_def holds_object_def split: option.splits)
  obtain cd where cd: "capture_identity (w_fs w) (te_destination_path e) = Some cd"
      "identity_matches (te_identity e) cd"
    using dest by (auto simp: at_destination_def holds_object_def split: option.splits)
  have free: "symlink_metadata (w_fs w) (te_source_path e) = None"
    using dest by (simp add: at_destination_def absent_def)
  show ?thesis
    using rm rn ren q cur cd free by (auto simp: rollback_mutation_def Let_def)
qed

text \<open>Before the loop looks at index \<open>k - 1\<close>: the entries from \<open>k\<close> on are back.\<close>

definition back_inv :: "fs \<Rightarrow> nat \<Rightarrow> rename_transaction \<Rightarrow> world \<Rightarrow> bool" where
  "back_inv f0 k t w \<longleftrightarrow>
     chain f0 (tx_entries t) (w_fs w) \<and> none_in_flight (tx_entries t) \<and>
     list_all unmoved (drop k (tx_entries t)) \<and> crash_safe f0 w"

definition no_nul_paths :: "transaction_entry list \<Rightarrow> bool" where
  "no_nul_paths es \<longleftrightarrow>
     (\<forall>e \<in> set es. \<not> has_nul (te_source_path e) \<and> \<not> has_nul (te_destination_path e))"

lemma no_nul_update:
  "no_nul_paths es \<Longrightarrow> i < length es \<Longrightarrow> te_source_path e = te_source_path (es ! i) \<Longrightarrow>
   te_destination_path e = te_destination_path (es ! i) \<Longrightarrow> no_nul_paths (es[i := e])"
  by (auto simp: no_nul_paths_def dest!: subsetD [OF set_update_subset_insert])

lemma rollback_step_chain:
  assumes step: "rollback_step env i p t w = (r, t', w')" and q: "quiet env"
    and lr: "live_rename (e_ren env)" and inv: "back_inv f0 (Suc i) t w"
    and i: "i < length (tx_entries t)" and ap: "te_state (tx_entries t ! i) = EsApplied"
    and nn: "no_nul_paths (tx_entries t)"
  shows "chain f0 (tx_entries t') (w_fs w') \<and> crash_safe f0 w' \<and>
    tx_transaction_id t' = tx_transaction_id t \<and> no_nul_paths (tx_entries t') \<and>
    length (tx_entries t') = length (tx_entries t) \<and>
    (\<forall>p'. r = RollbackNext p' \<longrightarrow> back_inv f0 i t' w' \<and> rp_failed p' = rp_failed p) \<and>
    (\<forall>p'. r \<noteq> RollbackBreak p') \<and>
    (journal_works env \<longrightarrow> journal_file_name (tx_transaction_id t) \<noteq> None \<longrightarrow>
      (\<exists>p'. r = RollbackNext p'))"
proof -
  let ?es = "tx_entries t" and ?e = "tx_entries t ! i"
  let ?e1 = "?e\<lparr>te_state := EsRollingBack\<rparr>"
  let ?t1 = "set_entry t i ?e1"
  let ?tail = "drop (Suc i) ?es"
  have ch: "chain f0 ?es (w_fs w)" and nf: "none_in_flight ?es" and tail: "list_all unmoved ?tail"
    and cs: "crash_safe f0 w" using inv by (auto simp: back_inv_def)
  have nft: "none_in_flight (take i ?es)" using nf by (auto simp: list_all_iff dest: in_set_takeD)
  have "chain f0 (take i ?es @ ?e # ?tail) (w_fs w)" using ch split_at [OF i] by simp
  then obtain h where h: "chain f0 (take i ?es) h" "chain h (?e # ?tail) (w_fs w)"
    unfolding chain_append [OF nft] by blast
  from h(2) have mv: "movable h ?e" and fs: "w_fs w = move_entry h ?e"
    using ap tail by (auto elim!: chain_ConsE simp: unmoved_def in_flight_def chain_unmoved)
  have upd: "chain f0 (?es[i := e']) g" if "chain h (e' # ?tail) g" for e' g
    unfolding update_split [OF i] chain_append [OF nft] using h(1) that by blast
  have ne: "no_nul_paths (?es[i := e'])"
    if "te_source_path e' = te_source_path ?e" "te_destination_path e' = te_destination_path ?e" for e'
    by (rule no_nul_update [OF nn i that])
  have fl: "in_flight (te_state ?e1)" by (simp add: in_flight_def)
  have sr: "at_source h ?e" "regular ?e" using mv by (auto simp: movable_def)
  have c1: "chain f0 (tx_entries ?t1) (w_fs w)"
    using sr tail fl mv fs by (auto simp: set_entry_def intro!: upd chain.flight)
  have c1': "chain f0 (tx_entries ?t1) h"
    using sr tail fl by (auto simp: set_entry_def intro!: upd chain.flight)
  obtain r2 w2 where wj: "write_journal env ?t1 w = (r2, w2)" by force
  have j: "crash_safe f0 w2" "w_fs w2 = w_fs w" "r2 = Inr () \<Longrightarrow> journal_after None (w_hist w2) = Some ?t1"
    using write_journal_crash_safe [OF wj q cs c1] by auto
  show ?thesis
  proof (cases r2)
    case (Inl err)
    have "\<not> (journal_works env \<and> journal_file_name (tx_transaction_id t) \<noteq> None)"
    proof
      assume "journal_works env \<and> journal_file_name (tx_transaction_id t) \<noteq> None"
      then have "r2 = Inr ()" by (intro write_journal_ok [OF _ _ wj]) (simp_all add: set_entry_def)
      with Inl show False by simp
    qed
    then show ?thesis
      using step wj Inl j c1 ne [of ?e1] by (auto simp: rollback_step_def Let_def set_entry_def)
  next
    case (Inr u)
    obtain r3 w3 where rm: "rollback_mutation env ?e1 w2 = (r3, w3)" by force
    have m: "r3 = Inr () \<and> w_fs w3 = h \<and> w_hist w3 = w_hist w2 @
        [Renamed (te_destination_path ?e1) (te_source_path ?e1) (w_fs w2) h]"
      by (rule rollback_mutation_live [OF rm q lr])
        (use mv fs j nn i in \<open>auto simp: no_nul_paths_def\<close>)
    have cs3: "crash_safe f0 w3"
      using m j(1,3) Inr c1' by (auto simp: crash_safe_def crash_points_append)
    let ?e2 = "?e1\<lparr>te_state := EsRolledBack,
        te_rolled_back_at_unix := Some (now_unix env w3), te_failure_reason := None\<rparr>"
    let ?t2 = "set_entry ?t1 i ?e2"
    have es2: "tx_entries ?t2 = ?es[i := ?e2]" by (simp add: set_entry_def)
    have u2: "unmoved ?e2" by (simp add: unmoved_def)
    then have c2: "chain f0 (tx_entries ?t2) h"
      unfolding es2 using tail by (intro upd) (simp add: chain.still chain_unmoved)
    obtain r4 w4 where wj2: "write_journal env ?t2 w3 = (r4, w4)" by force
    have j2: "crash_safe f0 w4 \<and> w_fs w4 = h"
      using write_journal_crash_safe [OF wj2 q cs3] c2 m by simp
    have res: "t' = ?t2 \<and> w' = w4 \<and>
        (case r4 of Inl err \<Rightarrow> r = RollbackAbort err
         | Inr _ \<Rightarrow> r = RollbackNext (p\<lparr>rp_rolled_back := rp_rolled_back p @ [te_source_path ?e]\<rparr>))"
      using step wj Inr rm m wj2 by (auto simp: rollback_step_def Let_def split: sum.splits)
    have "drop i (?es[i := ?e2]) = ?e2 # ?tail" using i by (simp add: drop_update_swap Cons_nth_drop_Suc [symmetric])
    then have bi: "back_inv f0 i ?t2 w4"
      using c2 j2 u2 tail nf unmoved_not_in_flight [OF u2] es2
      by (simp add: back_inv_def none_in_flight_update)
    have ok4: "journal_works env \<longrightarrow> journal_file_name (tx_transaction_id t) = None \<or> r4 = Inr ()"
    proof (intro impI disjCI)
      assume "journal_works env" and "r4 \<noteq> Inr ()"
      then show "journal_file_name (tx_transaction_id t) = None"
        using write_journal_ok [OF _ _ wj2] by (cases "journal_file_name (tx_transaction_id t)")
          (auto simp: set_entry_def)
    qed
    have id2: "tx_transaction_id ?t2 = tx_transaction_id t" by (simp add: set_entry_def)
    have nn2: "no_nul_paths (tx_entries ?t2)" unfolding es2 by (rule ne) simp_all
    show ?thesis
      using res c2 j2 bi ok4 id2 nn2 by (cases r4) auto
  qed
qed

section \<open>The whole rollback\<close>

lemma chain_entry_cases:
  "chain f0 es g \<Longrightarrow> e \<in> set es \<Longrightarrow> unmoved e \<or> te_state e = EsApplied \<or> in_flight (te_state e)"
  by (induction rule: chain.induct) (auto simp: list_all_iff)

lemma back_inv_skip:
  assumes "back_inv f0 (Suc i) t w" and "i < length (tx_entries t)"
    and "te_state (tx_entries t ! i) \<noteq> EsApplied"
  shows "back_inv f0 i t w"
proof -
  let ?e = "tx_entries t ! i"
  have "?e \<in> set (tx_entries t)" using assms(2) by simp
  moreover have "chain f0 (tx_entries t) (w_fs w)" and "\<not> in_flight (te_state ?e)"
    using assms(1,2) by (auto simp: back_inv_def list_all_length)
  ultimately have "unmoved ?e" using chain_entry_cases assms(3) by blast
  moreover have "drop i (tx_entries t) = ?e # drop (Suc i) (tx_entries t)"
    using assms(2) by (simp add: Cons_nth_drop_Suc)
  ultimately show ?thesis using assms(1) by (simp add: back_inv_def)
qed

lemma rollback_loop_chain:
  assumes "rollback_loop env (rev [0..<k]) p t w = (x, t', w')" and "quiet env"
    and "live_rename (e_ren env)" and "k \<le> length (tx_entries t)"
    and "back_inv f0 k t w" and "no_nul_paths (tx_entries t)"
  shows "chain f0 (tx_entries t') (w_fs w') \<and> crash_safe f0 w' \<and>
    tx_transaction_id t' = tx_transaction_id t \<and>
    (journal_works env \<longrightarrow> journal_file_name (tx_transaction_id t) \<noteq> None \<longrightarrow>
      never_cancelled env \<longrightarrow>
      (\<exists>p'. x = Inr p' \<and> rp_failed p' = rp_failed p \<and> list_all unmoved (tx_entries t')))"
  using assms
proof (induction k arbitrary: p t w)
  case 0
  then show ?case by (auto simp: back_inv_def)
next
  case (Suc i)
  have i: "i < length (tx_entries t)" using Suc.prems(4) by simp
  obtain c w1 where rc: "read_cancel env w = (c, w1)" by force
  then have w1: "w1 = interleave env w" using read_cancel_world [of env w] by simp
  have inv1: "back_inv f0 (Suc i) t w1" using Suc.prems(2,5) w1 by (simp add: back_inv_def)
  show ?case
  proof (cases c)
    case True
    then have "\<not> never_cancelled env" using rc by (auto simp: read_cancel_def never_cancelled_def Let_def)
    then show ?thesis using True Suc.prems(1) rc inv1 by (simp add: back_inv_def)
  next
    case nc: False
    show ?thesis
    proof (cases "te_state (tx_entries t ! i) = EsApplied")
      case False
      then have "rollback_loop env (rev [0..<i]) p t w1 = (x, t', w')"
        using Suc.prems(1) rc nc by (simp add: is_eligible_for_rollback_def)
      then show ?thesis
        by (rule Suc.IH [OF _ Suc.prems(2,3) _ back_inv_skip [OF inv1 i False] Suc.prems(6)])
          (use i in simp)
    next
      case True
      obtain r t1 w2 where st: "rollback_step env i p t w1 = (r, t1, w2)" by (metis prod_cases3)
      note stp = rollback_step_chain [OF st Suc.prems(2,3) inv1 i True Suc.prems(6)]
      show ?thesis
      proof (cases r)
        case (RollbackNext p1)
        then have "rollback_loop env (rev [0..<i]) p1 t1 w2 = (x, t', w')"
          using Suc.prems(1) rc nc True st by (simp add: is_eligible_for_rollback_def)
        moreover have "i \<le> length (tx_entries t1)" "back_inv f0 i t1 w2" "no_nul_paths (tx_entries t1)"
          "tx_transaction_id t1 = tx_transaction_id t" "rp_failed p1 = rp_failed p"
          using stp i RollbackNext by auto
        ultimately show ?thesis using Suc.IH [of p1 t1 w2] Suc.prems(2,3) by simp
      next
        case (RollbackBreak p1)
        then show ?thesis using stp by simp
      next
        case (RollbackAbort err)
        then have "t' = t1 \<and> w' = w2"
          using Suc.prems(1) rc nc True st by (simp add: is_eligible_for_rollback_def)
        then show ?thesis using stp RollbackAbort by simp
      qed
    qed
  qed
qed

lemma finish_rollback_chain:
  assumes "finish_rollback env res t w = (r, t', w')" and "quiet env"
    and "crash_safe f0 w" and "chain f0 (tx_entries t) (w_fs w)"
  shows "crash_safe f0 w' \<and> chain f0 (tx_entries t') (w_fs w') \<and> w_fs w' = w_fs w \<and> t' = t \<and>
    (journal_works env \<longrightarrow> journal_file_name (tx_transaction_id t) \<noteq> None \<longrightarrow>
      r = Inr \<lparr>ro_result = res, ro_transaction = t\<rparr>)"
proof -
  obtain r1 w1 where wj: "write_journal env t w = (r1, w1)" by force
  have wok: "journal_works env \<longrightarrow> journal_file_name (tx_transaction_id t) \<noteq> None \<longrightarrow> r1 = Inr ()"
    using write_journal_ok [OF _ _ wj] by blast
  have cs1: "crash_safe f0 w1 \<and> w_fs w1 = w_fs w"
    using write_journal_crash_safe [OF wj assms(2-4)] by simp
  show ?thesis
  proof (cases r1)
    case (Inl err)
    then show ?thesis using assms(1,4) wj cs1 wok by (auto simp: finish_rollback_def)
  next
    case (Inr u)
    then show ?thesis using assms(1,4) wj cs1 by (auto simp: finish_rollback_def)
  qed
qed

lemma no_nul_frame:
  "no_nul_paths es \<longleftrightarrow> (\<forall>(s, d, _) \<in> set (map te_frame es). \<not> has_nul s \<and> \<not> has_nul d)"
  by (auto simp: no_nul_paths_def te_frame_def)

lemma no_nul_te_frame: "map te_frame es' = map te_frame es \<Longrightarrow> no_nul_paths es' = no_nul_paths es"
  by (simp only: no_nul_frame)

lemma reconcile_no_nul:
  assumes "reconcile_recovery env t w = (r, t', w')"
  shows "no_nul_paths (tx_entries t') = no_nul_paths (tx_entries t)"
proof -
  obtain es iss c w1 where re: "reconcile_entries env 0 (tx_entries t) w = (es, iss, c, w1)"
    by (metis prod_cases4)
  obtain t1 c1 where lv: "reconcile_transaction_level_state (t\<lparr>tx_entries := es\<rparr>) = (t1, c1)"
    by force
  have "t' = t1" using assms re lv
    by (auto simp: reconcile_recovery_def split: if_splits sum.splits prod.splits)
  then show ?thesis
    using reconcile_level_id [OF lv] no_nul_te_frame [OF reconcile_entries_te_frame [OF re]] by simp
qed

text \<open>
  Every rollback in a quiet environment keeps the chain invariant; when the journal works
  and nobody cancels it moves every file back and says so.
\<close>

lemma rollback_transaction_chain:
  assumes run: "rollback_transaction env t w = (r, t', w')" and q: "quiet env"
    and lr: "live_rename (e_ren env)" and ns: "tx_state t \<noteq> TsRolledBack"
    and ch: "chain f0 (tx_entries t) (w_fs w)" and cs: "crash_safe f0 w"
    and nn: "no_nul_paths (tx_entries t)"
  shows "crash_safe f0 w' \<and> chain f0 (tx_entries t') (w_fs w') \<and>
    (journal_works env \<longrightarrow> journal_file_name (tx_transaction_id t) \<noteq> None \<longrightarrow> never_cancelled env \<longrightarrow>
      r = Inr \<lparr>ro_result = FullyRolledBack, ro_transaction = t'\<rparr> \<and>
      tx_state t' = TsRolledBack \<and> w_fs w' = f0)"
proof -
  let ?ok = "journal_works env \<and> journal_file_name (tx_transaction_id t) \<noteq> None"
  obtain r1 t1 w1 where rr: "reconcile_recovery env t w = (r1, t1, w1)" by (metis prod_cases3)
  let ?t2 = "t1\<lparr>tx_state := TsRollingBack\<rparr>"
  obtain r2 w2 where j2: "write_journal env ?t2 w1 = (r2, w2)" by force
  obtain x t3 w3 where lp:
      "rollback_loop env (rev [0..<length (tx_entries ?t2)]) no_progress ?t2 w2 = (x, t3, w3)"
    by (metis prod_cases3)
  note rc = reconcile_recovery_chain [OF rr q ch cs]
  have wj2: "crash_safe f0 w2" "w_fs w2 = w_fs w1"
    using write_journal_crash_safe [OF j2 q, of f0] rc by auto
  have j2ok: "?ok \<longrightarrow> r2 = Inr ()" using write_journal_ok [OF _ _ j2] rc by simp
  have "back_inv f0 (length (tx_entries ?t2)) ?t2 w2" using rc wj2 by (auto simp: back_inv_def)
  note lc = rollback_loop_chain [OF lp q lr order_refl this]
  have lc': "chain f0 (tx_entries t3) (w_fs w3) \<and> crash_safe f0 w3 \<and>
      tx_transaction_id t3 = tx_transaction_id t \<and>
      (?ok \<longrightarrow> never_cancelled env \<longrightarrow>
        (\<exists>p. x = Inr p \<and> rp_failed p = [] \<and> list_all unmoved (tx_entries t3)))"
    using lc rc reconcile_no_nul [OF rr] nn by (simp add: no_progress_def)
  show ?thesis
  proof (cases r1)
    case (Inl err)
    then show ?thesis using run rr rc ns by (auto simp: rollback_transaction_def)
  next
    case (Inr iss)
    then have iss: "filter is_unresolved iss = []" using rc by simp
    show ?thesis
    proof (cases r2)
      case (Inl err)
      then have "t' = ?t2 \<and> w' = w2"
        using run rr ns \<open>r1 = Inr iss\<close> iss j2 by (simp add: rollback_transaction_def Let_def)
      then show ?thesis using j2ok Inl rc wj2 by auto
    next
      case r2: (Inr u)
      show ?thesis
      proof (cases x)
        case (Inl err)
        then have "t' = t3 \<and> w' = w3"
          using run rr ns \<open>r1 = Inr iss\<close> iss j2 r2 lp by (simp add: rollback_transaction_def Let_def)
        then show ?thesis using lc' Inl by auto
      next
        case x: (Inr p)
        let ?rem = "remaining_incomplete t3"
        let ?s = "if rp_failed p = [] \<and> ?rem = [] then TsRolledBack else TsRollbackFailed"
        have fin: "finish_rollback env (rollback_result_of p ?rem) (t3\<lparr>tx_state := ?s\<rparr>) w3 = (r, t', w')"
          using run rr ns \<open>r1 = Inr iss\<close> iss j2 r2 lp x
          by (simp add: rollback_transaction_def Let_def)
        note fc = finish_rollback_chain [OF fin q, of f0]
        have all_back: "?rem = []" if "list_all unmoved (tx_entries t3)"
          using that by (auto simp: remaining_incomplete_def filter_empty_conv list_all_iff unmoved_def)
        show ?thesis
        proof (cases "?ok \<and> never_cancelled env")
          case False
          then show ?thesis using fc lc' by auto
        next
          case True
          then have "rp_failed p = []" "list_all unmoved (tx_entries t3)" using lc' x by auto
          moreover from this have "w_fs w3 = f0" using lc' chain_unmoved by blast
          ultimately show ?thesis
            using fc lc' True all_back by (simp add: rollback_result_of_def)
        qed
      qed
    qed
  qed
qed

section \<open>Crash consistency and restoration\<close>

text \<open>The world when the program starts again after a crash: only the durable part is left.\<close>

definition restart :: "fs \<Rightarrow> (string, rename_transaction) fmap \<Rightarrow> nat \<Rightarrow> world" where
  "restart f d n = \<lparr> w_fs = f, w_disk = d, w_tick = n, w_hist = [] \<rparr>"

lemma restart_simps [simp]:
  "w_fs (restart f d n) = f" "w_hist (restart f d n) = []" "crash_safe f0 (restart f d n)"
  by (simp_all add: restart_def crash_safe_def)

lemma crash_points_journal:
  "(t, f) \<in> set (crash_points lt h) \<Longrightarrow> lt = Some t \<or> (\<exists>g. JournalWritten t g \<in> set h)"
  by (induction lt h rule: crash_points.induct) (auto split: option.splits)

text \<open>A batch that has not started: nothing is moved and no source may be a link.\<close>

definition fresh_batch :: "apply_execution \<Rightarrow> rename_transaction \<Rightarrow> bool" where
  "fresh_batch ex t \<longleftrightarrow>
     list_all unmoved (tx_entries t) \<and> tx_state t \<noteq> TsRolledBack \<and> \<not> ex_allow_symlink_source ex"

text \<open>
  C4: When no other process touches the files, at every instant of an apply pass, also one
  that fails, is cancelled or cannot write its journal, the journal on disk and the file
  system agree: performing the recorded moves of the applied entries in order leads from
  the file system before the pass to the present one, with at most one entry in flight.
\<close>

theorem apply_crash_consistent:
  assumes "apply_transaction env ex t w = (r, t', w')" and "quiet env"
    and "noreplace_rename (e_ren env)" and "fresh_batch ex t" and "w_hist w = []"
    and "(tj, f) \<in> set (crash_points None (w_hist w'))"
  shows "chain (w_fs w) (tx_entries tj) f"
proof -
  have "crash_safe (w_fs w) w" using assms(5) by (simp add: crash_safe_def)
  then have "crash_safe (w_fs w) w'"
    using apply_transaction_chain [OF assms(1-3)] assms(4) by (simp add: fresh_batch_def)
  with assms(6) show ?thesis by (auto simp: crash_safe_def)
qed

text \<open>
  Rolling back a journal that agrees with the file system, in flight entry included,
  restores the file system before the batch exactly, object by object, and reports a full
  rollback.
\<close>

theorem rollback_restores:
  assumes "chain f0 (tx_entries t) f" and "tx_state t \<noteq> TsRolledBack"
    and "quiet env" and "live_rename (e_ren env)" and "journal_works env" and "never_cancelled env"
    and "journal_file_name (tx_transaction_id t) \<noteq> None" and "no_nul_paths (tx_entries t)"
  shows "\<exists>t' w'. rollback_transaction env t (restart f d n) =
      (Inr \<lparr>ro_result = FullyRolledBack, ro_transaction = t'\<rparr>, t', w') \<and>
    w_fs w' = f0 \<and> tx_state t' = TsRolledBack"
proof -
  obtain r t' w' where run: "rollback_transaction env t (restart f d n) = (r, t', w')"
    by (metis prod_cases3)
  from rollback_transaction_chain [OF run assms(3,4,2), of f0] assms(1,5-8) run show ?thesis
    by auto
qed

text \<open>
  C5: A rollback that is itself interrupted stays recoverable: every crash point of a
  rollback pass is again consistent with the file system before the batch.
\<close>

theorem rollback_crash_consistent:
  assumes "rollback_transaction env t (restart f d n) = (r, t', w')"
    and "chain f0 (tx_entries t) f" and "tx_state t \<noteq> TsRolledBack"
    and "quiet env" and "live_rename (e_ren env)" and "no_nul_paths (tx_entries t)"
    and "(tj, g) \<in> set (crash_points None (w_hist w'))"
  shows "chain f0 (tx_entries tj) g"
  using rollback_transaction_chain [OF assms(1,4,5,3), of f0] assms(2,6,7)
  by (auto simp: crash_safe_def)

text \<open>
  C1: End to end: crash an apply pass at any instant, restart, roll back what the journal
  says; every file is back where it was.
\<close>

theorem crash_then_rollback_restores:
  assumes "apply_transaction env ex t w = (r, t1, w1)" and "quiet env"
    and "noreplace_rename (e_ren env)" and "fresh_batch ex t" and "w_hist w = []"
    and "(tj, f) \<in> set (crash_points None (w_hist w1))"
    and "quiet env'" and "live_rename (e_ren env')" and "journal_works env'" and "never_cancelled env'"
    and "journal_file_name (tx_transaction_id t) \<noteq> None" and "no_nul_paths (tx_entries t)"
  shows "\<exists>t' w'. rollback_transaction env' tj (restart f d n) =
      (Inr \<lparr>ro_result = FullyRolledBack, ro_transaction = t'\<rparr>, t', w') \<and> w_fs w' = w_fs w"
proof -
  have cs: "crash_safe (w_fs w) w" using assms(5) by (simp add: crash_safe_def)
  have ch: "chain (w_fs w) (tx_entries tj) f"
    using apply_transaction_chain [OF assms(1-3) _ _ cs] assms(4,6)
    by (auto simp: fresh_batch_def crash_safe_def)
  obtain g where g: "JournalWritten tj g \<in> set (w_hist w1)"
    using crash_points_journal [OF assms(6)] by blast
  have "same_batch t tj"
    using batch.apply_transaction_frame [OF assms(1) same_batch_refl] assms(5) g
    by (auto simp: batch.journalled_def)
  moreover have "tx_state tj \<noteq> TsRolledBack"
    using applying.apply_transaction_frame [OF assms(1)] assms(4,5) g
    by (auto simp: applying.journalled_def not_rolled_back_def fresh_batch_def)
  moreover obtain r2 t2 w2 where run: "rollback_transaction env' tj (restart f d n) = (r2, t2, w2)"
    by (metis prod_cases3)
  ultimately show ?thesis
    using rollback_transaction_chain [OF run assms(7,8) _ _ restart_simps(3)] ch assms(9-12) run
      no_nul_te_frame [of "tx_entries tj" "tx_entries t"]
    by (auto simp: same_batch_def)
qed

end
