(* ===== verification/TxnOutcomes.thy ===== *)
theory TxnOutcomes
  imports TxnFrame TxnCrash
begin

text \<open>
  What a pass reports and what it leaves undone: refusals have no durable effect, a
  failure stops the batch, reconciliation reads and never renames, and what a repeated
  rollback says of an entry whose reversal was refused.
\<close>

section \<open>Refusals\<close>

lemma apply_step_error:
  "apply_step env opts i t w = (StepFail err, t', w') \<Longrightarrow> \<exists>m. err = JournalError m"
  by (auto simp: apply_step_def checkpoint_def Let_def split: sum.splits prod.splits)

lemma apply_loop_error:
  "apply_loop env opts is t w = (LoopFail err, t', w') \<Longrightarrow> \<exists>m. err = JournalError m"
proof (induction env opts "is" t w rule: apply_loop.induct)
  case (1 env opts t w)
  then show ?case by simp
next
  case (2 env opts i "is" t w)
  obtain c w1 where rc: "read_cancel env w = (c, w1)" by force
  obtain r t1 w2 where st: "apply_step env opts i t w1 = (r, t1, w2)" by (metis prod_cases3)
  show ?case
  proof (cases c)
    case True
    then show ?thesis using "2.prems" rc by (auto split: prod.splits sum.splits)
  next
    case False
    show ?thesis
    proof (cases "te_state (tx_entries t ! i) = EsSkipped")
      case True
      then show ?thesis using "2.prems" "2.IH"(1) rc False by simp
    next
      case ns: False
      then show ?thesis
        using "2.prems" "2.IH"(2) rc st False apply_step_error [of env opts i t w1] by (cases r) simp_all
    qed
  qed
qed

lemma finish_apply_error:
  "finish_apply env t w = (Inl err, t', w') \<Longrightarrow> \<exists>m. err = JournalError m"
  by (auto simp: finish_apply_def split: sum.splits prod.splits)

lemma run_batch_error:
  assumes "run_batch env opts t w = (Inl err, t', w')"
  shows "\<exists>m. err = JournalError m"
proof -
  obtain r1 w1 where j1: "write_journal env t w = (r1, w1)" by force
  let ?t1 = "t\<lparr>tx_state := TsApplying\<rparr>"
  obtain r2 w2 where j2: "write_journal env ?t1 w1 = (r2, w2)" by force
  obtain x t2 w3 where lp:
      "apply_loop env opts [0..<length (tx_entries ?t1)] ?t1 w2 = (x, t2, w3)"
    by (metis prod_cases3)
  have "x = LoopFail e \<Longrightarrow> \<exists>m. e = JournalError m" for e using lp apply_loop_error by blast
  then show ?thesis
    using assms j1 j2 lp finish_apply_error
    by (cases r1; cases r2; cases x) (auto simp: run_batch_def Let_def split: if_splits)
qed

text \<open>
  An apply pass that ends with any error other than a failed journal write - a stale
  plan, a stale classifier, a cancellation, or a hard conflict in \<open>AbortAll\<close> mode - has
  written no journal and renamed nothing, whatever the environment does.
\<close>

theorem refusal_has_no_effect:
  assumes "apply_transaction env ex t w = (Inl err, t', w')" and "\<forall>m. err \<noteq> JournalError m"
  shows "w_hist w' = w_hist w \<and> w_disk w' = w_disk w"
proof -
  obtain c w1 where rc: "read_cancel env w = (c, w1)" by force
  then have w1: "w1 = interleave env w" using read_cancel_world [of env w] by simp
  obtain es cs w2 where pb: "preflight_batch env (options_of ex t) (tx_entries t) w1 = (es, cs, w2)"
    by (metis prod_cases3)
  have w2: "w_hist w2 = w_hist w \<and> w_disk w2 = w_disk w"
    using preflight_batch_hist [OF pb] w1 by simp
  show ?thesis
    using assms rc pb w1 w2
    by (auto simp: apply_transaction_def Let_def dest!: run_batch_error
        split: sum.splits if_splits hard_conflict_mode.splits bool.splits)
qed

lemma preflight_batch_conflicts:
  "preflight_batch env opts es w = (es', cs, w') \<Longrightarrow> quiet env \<Longrightarrow>
   map fst cs = map te_source_path (filter (\<lambda>e. \<not> safe_to_rename (w_fs w) e opts) es)"
proof (induction es arbitrary: w es' cs w')
  case Nil
  then show ?case by simp
next
  case (Cons e es)
  obtain es1 cs1 w1 where rec: "preflight_batch env opts es (interleave env w) = (es1, cs1, w1)"
    by (metis prod_cases3)
  obtain e1 c1 where pe: "preflight_entry (w_fs (interleave env w)) opts e = (e1, c1)" by force
  have "map fst c1 = (if safe_to_rename (w_fs w) e opts then [] else [te_source_path e])"
    using pe Cons.prems(2) run_preflight_iff [of "w_fs w" e opts]
    by (auto simp: preflight_entry_def Let_def split: sum.splits)
  moreover have "cs = c1 @ cs1" using Cons.prems(1) rec pe by (auto simp: Let_def)
  ultimately show ?case using Cons.IH [OF rec Cons.prems(2)] Cons.prems(2) by simp
qed

text \<open>
  In \<open>AbortAll\<close> mode, past the gates and with no other process acting, the batch is
  refused exactly when some entry is not safe to rename, and the refusal names exactly
  the unsafe entries, in batch order.
\<close>

theorem abort_all_iff_unsafe:
  assumes "tx_classifier_version t = Some classifier_version" and "\<not> e_cancel env (w_tick w)"
    and "tx_plan_generation t = ex_current_generation ex"
    and "ex_hard_conflict_mode ex = AbortAll" and "quiet env"
  shows "(\<exists>cs t' w'. apply_transaction env ex t w = (Inl (HardConflicts cs), t', w') \<and>
      map fst cs = map te_source_path
        (filter (\<lambda>e. \<not> safe_to_rename (w_fs w) e (options_of ex t)) (tx_entries t))) \<longleftrightarrow>
    (\<exists>e \<in> set (tx_entries t). \<not> safe_to_rename (w_fs w) e (options_of ex t))"
proof -
  let ?unsafe = "filter (\<lambda>e. \<not> safe_to_rename (w_fs w) e (options_of ex t)) (tx_entries t)"
  let ?w = "interleave env w"
  obtain es cs w2 where pb: "preflight_batch env (options_of ex t) (tx_entries t) ?w = (es, cs, w2)"
    by (metis prod_cases3)
  have cs: "map fst cs = map te_source_path ?unsafe"
    using preflight_batch_conflicts [OF pb assms(5)] assms(5) by simp
  then have none: "cs = [] \<longleftrightarrow> ?unsafe = []" by (metis map_is_Nil_conv)
  have run: "apply_transaction env ex t w =
      (if cs \<noteq> [] then (Inl (HardConflicts cs), t\<lparr>tx_entries := es\<rparr>, w2)
       else run_batch env (options_of ex t) (t\<lparr>tx_entries := es\<rparr>) w2)"
    using assms(1-4) pb
    by (simp add: apply_transaction_def validate_classifier_version_def read_cancel_def)
  have ex: "(\<exists>e \<in> set (tx_entries t). \<not> safe_to_rename (w_fs w) e (options_of ex t)) \<longleftrightarrow> ?unsafe \<noteq> []"
    by (auto simp: filter_empty_conv)
  show ?thesis
  proof (cases "cs = []")
    case True
    then have "\<not> (\<exists>cs' t' w'. apply_transaction env ex t w = (Inl (HardConflicts cs'), t', w'))"
      using run by (auto dest: run_batch_error)
    then show ?thesis using True none ex by blast
  next
    case False
    then have "apply_transaction env ex t w = (Inl (HardConflicts cs), t\<lparr>tx_entries := es\<rparr>, w2)"
      using run by simp
    then show ?thesis using False none ex cs by blast
  qed
qed

section \<open>A failure stops the batch\<close>

lemma preflight_batch_states:
  "preflight_batch env opts es w = (es', cs, w') \<Longrightarrow> map te_state es' = map te_state es"
proof (induction es arbitrary: w es' cs w')
  case Nil
  then show ?case by simp
next
  case (Cons e es)
  obtain es1 cs1 w1 where rec: "preflight_batch env opts es (interleave env w) = (es1, cs1, w1)"
    by (metis prod_cases3)
  obtain e1 c1 where pe: "preflight_entry (w_fs (interleave env w)) opts e = (e1, c1)" by force
  have "te_state e1 = te_state e" using pe by (auto simp: preflight_entry_def Let_def split: sum.splits)
  moreover have "es' = e1 # es1" using Cons.prems rec pe by (auto simp: Let_def)
  ultimately show ?case using Cons.IH [OF rec] by simp
qed

definition settled_state :: "entry_state \<Rightarrow> bool" where
  "settled_state s \<longleftrightarrow> s = EsApplied \<or> s = EsSkipped"

definition waiting_state :: "entry_state \<Rightarrow> bool" where
  "waiting_state s \<longleftrightarrow> s = EsPlanned \<or> s = EsSkipped"

text \<open>Applied or skipped entries, then at most one in trouble, then entries never touched.\<close>

fun batch_order :: "entry_state list \<Rightarrow> bool" where
  "batch_order [] = True"
| "batch_order (s # ss) =
     (if settled_state s then batch_order ss
      else s \<in> {EsApplying, EsApplyFailed, EsPlanned} \<and> list_all waiting_state ss)"

lemma batch_order_waiting: "list_all waiting_state ss \<Longrightarrow> batch_order ss"
  by (induction ss) (auto simp: waiting_state_def settled_state_def)

lemma batch_order_split:
  "list_all settled_state xs \<Longrightarrow> s \<in> {EsApplied, EsApplying, EsApplyFailed} \<Longrightarrow>
   list_all waiting_state ys \<Longrightarrow> batch_order (xs @ s # ys)"
  by (induction xs) (auto simp: settled_state_def batch_order_waiting)

lemma batch_order_append:
  "list_all settled_state xs \<Longrightarrow> list_all waiting_state ys \<Longrightarrow> batch_order (xs @ ys)"
  by (induction xs) (auto simp: batch_order_waiting)

definition reached :: "nat \<Rightarrow> rename_transaction \<Rightarrow> bool" where
  "reached i t \<longleftrightarrow>
     list_all settled_state (take i (map te_state (tx_entries t))) \<and>
     list_all waiting_state (drop i (map te_state (tx_entries t)))"

lemma reached_order: "reached i t \<Longrightarrow> batch_order (map te_state (tx_entries t))"
  unfolding reached_def by (metis append_take_drop_id batch_order_append)

lemma reached_update:
  assumes "reached i t" and "i < length (tx_entries t)" and "tx_entries t' = (tx_entries t)[i := e]"
    and "te_state e \<in> {EsApplied, EsApplying, EsApplyFailed}"
  shows "batch_order (map te_state (tx_entries t')) \<and>
    (te_state e = EsApplied \<longrightarrow> reached (Suc i) t')"
proof -
  let ?ss = "map te_state (tx_entries t)"
  have i: "i < length ?ss" using assms(2) by simp
  have eq: "map te_state (tx_entries t') = take i ?ss @ te_state e # drop (Suc i) ?ss"
    using assms(3) upd_conv_take_nth_drop [OF i] by (simp add: map_update)
  have tail: "list_all waiting_state (drop (Suc i) ?ss)"
    using assms(1) Cons_nth_drop_Suc [OF i, symmetric] by (simp add: reached_def)
  have "batch_order (map te_state (tx_entries t'))"
    unfolding eq by (rule batch_order_split) (use assms(1,4) tail in \<open>auto simp: reached_def\<close>)
  moreover have "reached (Suc i) t'" if "te_state e = EsApplied"
    using that assms(1) tail i unfolding reached_def eq by (simp add: settled_state_def)
  ultimately show ?thesis by blast
qed

lemma reached_skip:
  assumes "reached i t" and "i < length (tx_entries t)" and "te_state (tx_entries t ! i) = EsSkipped"
  shows "reached (Suc i) t"
proof -
  let ?ss = "map te_state (tx_entries t)"
  have i: "i < length ?ss" using assms(2) by simp
  have "take (Suc i) ?ss = take i ?ss @ [EsSkipped]"
    using take_Suc_conv_app_nth [OF i] assms(2,3) by simp
  moreover have "list_all waiting_state (drop (Suc i) ?ss)"
    using assms(1) Cons_nth_drop_Suc [OF i, symmetric] by (simp add: reached_def)
  ultimately show ?thesis using assms(1) by (simp add: reached_def settled_state_def)
qed

lemma apply_mutation_failure:
  "apply_mutation env e w = (Inl (s, reason), w') \<Longrightarrow> s = EsApplyFailed"
  by (auto simp: apply_mutation_def Let_def split: prod.splits sum.splits no_clobber_error.splits)

lemma apply_step_order:
  assumes step: "apply_step env opts i t w = (r, t', w')" and i: "i < length (tx_entries t)"
    and re: "reached i t"
  shows "batch_order (map te_state (tx_entries t')) \<and> length (tx_entries t') = length (tx_entries t) \<and>
    (r = StepNext \<longrightarrow> reached (Suc i) t')"
proof -
  have upd: "\<exists>e. tx_entries t' = (tx_entries t)[i := e] \<and>
      te_state e \<in> {EsApplied, EsApplying, EsApplyFailed} \<and>
      (r = StepNext \<longrightarrow> te_state e = EsApplied)"
    using step
    by (auto simp: apply_step_def Let_def set_entry_def checkpoint_def
        dest!: apply_mutation_failure split: sum.splits prod.splits intro!: exI)
  then obtain e where "tx_entries t' = (tx_entries t)[i := e]"
      "te_state e \<in> {EsApplied, EsApplying, EsApplyFailed}" "r = StepNext \<longrightarrow> te_state e = EsApplied"
    by blast
  with reached_update [OF re i] show ?thesis by fastforce
qed

lemma apply_loop_order:
  assumes "apply_loop env opts is t w = (x, t', w')" and "is = [i..<length (tx_entries t)]"
    and "reached i t"
  shows "batch_order (map te_state (tx_entries t'))"
  using assms
proof (induction env opts "is" t w arbitrary: i rule: apply_loop.induct)
  case (1 env opts t w)
  then show ?case using reached_order by auto
next
  case (2 env opts j "is" t w)
  from "2.prems"(2) have i: "j = i" "i < length (tx_entries t)" "is = [Suc i..<length (tx_entries t)]"
    using upt_eq_Cons_conv [of i "length (tx_entries t)" j "is"] by auto
  obtain c w1 where rc: "read_cancel env w = (c, w1)" by force
  show ?case
  proof (cases c)
    case True
    have "tx_entries t' = tx_entries t" using "2.prems"(1) rc True by (auto split: prod.splits sum.splits)
    then show ?thesis using reached_order "2.prems"(3) by simp
  next
    case False
    show ?thesis
    proof (cases "te_state (tx_entries t ! j) = EsSkipped")
      case True
      then show ?thesis
        using "2.IH"(1) [OF rc [symmetric]] "2.prems"(1,3) rc False i reached_skip by simp
    next
      case ns: False
      obtain r t1 w2 where st: "apply_step env opts i t w1 = (r, t1, w2)" by (metis prod_cases3)
      note stp = apply_step_order [OF st i(2) "2.prems"(3)]
      show ?thesis
      proof (cases "r = StepNext")
        case True
        then have "apply_loop env opts is t1 w2 = (x, t', w')"
          using "2.prems"(1) rc False ns st i(1) by simp
        then show ?thesis
          using "2.IH"(2) [OF rc [symmetric]] False ns st i(1,3) True stp by simp
      next
        case nn: False
        then have "t' = t1" using "2.prems"(1) rc False ns st i(1) by (cases r) auto
        with stp show ?thesis by simp
      qed
    qed
  qed
qed

lemma run_batch_order:
  assumes run: "run_batch env opts t w = (r, t', w')"
    and ss: "list_all waiting_state (map te_state (tx_entries t))"
  shows "batch_order (map te_state (tx_entries t'))"
proof -
  obtain r1 w1 where j1: "write_journal env t w = (r1, w1)" by force
  let ?t1 = "t\<lparr>tx_state := TsApplying\<rparr>"
  obtain r2 w2 where j2: "write_journal env ?t1 w1 = (r2, w2)" by force
  obtain x t2 w3 where lp:
      "apply_loop env opts [0..<length (tx_entries ?t1)] ?t1 w2 = (x, t2, w3)"
    by (metis prod_cases3)
  have "batch_order (map te_state (tx_entries t2))"
    by (rule apply_loop_order [OF lp refl]) (use ss in \<open>simp add: reached_def\<close>)
  moreover have fin: "finish_apply env t3 w4 = (r, t', w') \<Longrightarrow> t' = t3" for t3 w4
    by (auto simp: finish_apply_def split: prod.splits sum.splits)
  ultimately have "tx_entries t' = tx_entries t2 \<or> tx_entries t' = tx_entries t"
    using run j1 j2 lp
    by (cases r1; cases r2; cases x) (auto simp: run_batch_def Let_def split: if_splits dest!: fin)
  then show ?thesis using \<open>batch_order (map te_state (tx_entries t2))\<close> batch_order_waiting [OF ss] by auto
qed

text \<open>
  C25: One bad entry stops the batch. However the pass ends and whatever the environment
  does, the states form applied or skipped entries, then at most one entry that failed or
  whose outcome is not recorded, then entries that were never touched.
\<close>

theorem apply_stops_at_failure:
  assumes "apply_transaction env ex t w = (r, t', w')"
    and "list_all (\<lambda>e. te_state e = EsPlanned) (tx_entries t)"
  shows "batch_order (map te_state (tx_entries t'))"
proof -
  obtain c w1 where rc: "read_cancel env w = (c, w1)" by force
  obtain es cs w2 where pb: "preflight_batch env (options_of ex t) (tx_entries t) w1 = (es, cs, w2)"
    by (metis prod_cases3)
  have st: "map te_state es = map te_state (tx_entries t)"
    using pb by (rule preflight_batch_states)
  have w0: "list_all waiting_state (map te_state (tx_entries t))"
    using assms(2) by (auto simp: waiting_state_def list_all_iff)
  have w2: "list_all waiting_state (map te_state (skip_unsafe es))"
    using w0 unfolding st [symmetric] by (auto simp: skip_unsafe_def waiting_state_def list_all_iff)
  show ?thesis
    using assms(1) rc pb run_batch_order [of env "options_of ex t" "t\<lparr>tx_entries := es\<rparr>" w2 r t' w']
      run_batch_order [of env "options_of ex t" "t\<lparr>tx_entries := skip_unsafe es\<rparr>" w2 r t' w'] w0 w2 st
      batch_order_waiting
    by (cases "ex_hard_conflict_mode ex"; cases c)
      (auto simp: apply_transaction_def Let_def split: sum.splits if_splits)
qed

section \<open>Reconciliation reads, and decides by what it reads\<close>

text \<open>
  The file system decides an in-flight entry: it is taken as not renamed exactly when
  its recorded object is still at the source and the destination is free, as renamed
  exactly when the object is at the destination and the source is free; every other
  situation is left for manual review.
\<close>

theorem classify_entry_decides:
  "(ri_kind (classify_entry f e i) = RenameDidNotHappen \<longleftrightarrow> at_source f e) \<and>
   (ri_kind (classify_entry f e i) = RenameConfirmed \<longleftrightarrow> at_destination f e) \<and>
   (is_unresolved (classify_entry f e i) \<longleftrightarrow> \<not> at_source f e \<and> \<not> at_destination f e)"
  using holds_object_present [of f "te_source_path e" "te_identity e"]
    holds_object_present [of f "te_destination_path e" "te_identity e"]
  by (auto simp: classify_entry_def is_unresolved_def Let_def at_source_def at_destination_def absent_def)

lemma reconcile_entries_untouched:
  "reconcile_entries env i es w = (es', iss, c, w') \<Longrightarrow>
   list_all2 (\<lambda>e e'. \<not> in_flight (te_state e) \<longrightarrow> e' = e) es es'"
proof (induction es arbitrary: i w es' iss c w')
  case Nil
  then show ?case by simp
next
  case (Cons e es)
  let ?w = "interleave env w"
  obtain es1 is1 c1 w1 where r1: "reconcile_entries env (Suc i) es ?w = (es1, is1, c1, w1)"
    by (metis prod_cases4)
  obtain es2 is2 c2 w2 where r2: "reconcile_entries env (Suc i) es w = (es2, is2, c2, w2)"
    by (metis prod_cases4)
  show ?case
    using Cons.prems r1 r2 Cons.IH [OF r1] Cons.IH [OF r2]
    by (cases "in_flight (te_state e)") (auto simp: Let_def split_beta)
qed

text \<open>
  Reconciliation renames nothing: its only durable effect is at most one journal write
  of the reconciled transaction, and every entry that was not in flight stays as it was.
\<close>

theorem reconcile_never_renames:
  assumes "reconcile_recovery env t w = (r, t', w')"
  shows "(w_hist w' = w_hist w \<or> (\<exists>f. w_hist w' = w_hist w @ [JournalWritten t' f])) \<and>
    list_all2 (\<lambda>e e'. \<not> in_flight (te_state e) \<longrightarrow> e' = e) (tx_entries t) (tx_entries t')"
proof -
  obtain es iss c w1 where re: "reconcile_entries env 0 (tx_entries t) w = (es, iss, c, w1)"
    by (metis prod_cases4)
  obtain t1 c1 where lv: "reconcile_transaction_level_state (t\<lparr>tx_entries := es\<rparr>) = (t1, c1)"
    by force
  obtain r2 w2 where wj: "write_journal env t1 w1 = (r2, w2)" by force
  have w1: "w_hist w1 = w_hist w" using reconcile_entries_hist [OF re] by simp
  have w2: "w_hist w2 = w_hist w1 \<or> (\<exists>f. w_hist w2 = w_hist w1 @ [JournalWritten t1 f])"
    using wj by (rule write_journal_cases) auto
  have t1: "tx_entries t1 = es" using reconcile_level_entries [OF lv] by simp
  have "t' = t1 \<and> (w' = w1 \<or> w' = w2)"
    using assms re lv wj by (cases r2) (auto simp: reconcile_recovery_def split: if_splits)
  then show ?thesis using w1 w2 t1 reconcile_entries_untouched [OF re] by auto
qed

section \<open>A repeated rollback\<close>

lemma rollback_loop_idle:
  "\<forall>i \<in> set is. \<not> is_eligible_for_rollback (tx_entries t ! i) \<Longrightarrow> never_cancelled env \<Longrightarrow>
   \<exists>w'. rollback_loop env is p t w = (Inr p, t, w') \<and> w_hist w' = w_hist w"
proof (induction "is" arbitrary: w)
  case Nil
  then show ?case by simp
next
  case (Cons i "is")
  have "read_cancel env w = (False, interleave env w)"
    using Cons.prems(2) by (simp add: read_cancel_def never_cancelled_def)
  then show ?case using Cons.IH [of "interleave env w"] Cons.prems by simp
qed

lemma write_journal_written:
  assumes "journal_works env" and "journal_file_name (tx_transaction_id t) = Some name"
  shows "\<exists>w' f. write_journal env t w = (Inr (), w') \<and> w_hist w' = w_hist w @ [JournalWritten t f]"
  using assms by (simp add: write_journal_def journal_works_def Let_def)

lemma reconcile_settled:
  assumes "none_in_flight (tx_entries t)" and "tx_state t \<noteq> TsApplying"
  shows "reconcile_recovery env t w = (Inr [], t, w)"
proof -
  have "reconcile_entries env i es w = (es, [], False, w)" if "none_in_flight es" for i es
    using that by (induction es arbitrary: i) auto
  then show ?thesis
    using assms by (simp add: reconcile_recovery_def reconcile_transaction_level_state_def)
qed

text \<open>
  An entry whose reversal was refused is not tried again and not counted. Once no entry of
  a batch is applied or in flight any more, a further rollback renames nothing, leaves the
  refused entries as they are, and records and reports the batch as fully rolled back. While
  entries are still applied, as when a refusal has stopped the loop before them, a further
  rollback does go on with those.
\<close>

theorem rollback_retry_reports_full:
  assumes "tx_state t = TsRollbackFailed"
    and "\<forall>e \<in> set (tx_entries t). te_state e \<notin> {EsApplied, EsApplying, EsRollingBack}"
    and "journal_works env" and "never_cancelled env"
    and "journal_file_name (tx_transaction_id t) \<noteq> None"
  shows "\<exists>t' w' tj f g. rollback_transaction env t w =
      (Inr \<lparr>ro_result = FullyRolledBack, ro_transaction = t'\<rparr>, t', w') \<and>
    tx_state t' = TsRolledBack \<and> tx_entries t' = tx_entries t \<and>
    w_hist w' = w_hist w @ [JournalWritten tj f, JournalWritten t' g]"
proof -
  obtain name where name: "journal_file_name (tx_transaction_id t) = Some name" using assms(5) by blast
  let ?t2 = "t\<lparr>tx_state := TsRollingBack\<rparr>" and ?t3 = "t\<lparr>tx_state := TsRolledBack\<rparr>"
  have nf: "none_in_flight (tx_entries t)" using assms(2) by (auto simp: list_all_iff in_flight_def)
  have rr: "reconcile_recovery env t w = (Inr [], t, w)"
    by (rule reconcile_settled [OF nf]) (simp add: assms(1))
  obtain w2 f where j2: "write_journal env ?t2 w = (Inr (), w2)"
      "w_hist w2 = w_hist w @ [JournalWritten ?t2 f]"
    using write_journal_written [OF assms(3), of ?t2 name w] name by auto
  obtain w3 where lp:
      "rollback_loop env (rev [0..<length (tx_entries ?t2)]) no_progress ?t2 w2 = (Inr no_progress, ?t2, w3)"
      "w_hist w3 = w_hist w2"
    using rollback_loop_idle [OF _ assms(4), of "rev [0..<length (tx_entries ?t2)]" ?t2 no_progress w2] assms(2)
    by (auto simp: is_eligible_for_rollback_def)
  obtain w4 g where j4: "write_journal env ?t3 w3 = (Inr (), w4)"
      "w_hist w4 = w_hist w3 @ [JournalWritten ?t3 g]"
    using write_journal_written [OF assms(3), of ?t3 name w3] name by auto
  have rem: "remaining_incomplete ?t2 = []"
    using assms(2) by (auto simp: remaining_incomplete_def filter_empty_conv)
  have "rollback_transaction env t w = (Inr \<lparr>ro_result = FullyRolledBack, ro_transaction = ?t3\<rparr>, ?t3, w4)"
    using rr j2(1) lp(1) j4(1) rem assms(1)
    by (simp add: rollback_transaction_def finish_rollback_def rollback_result_of_def no_progress_def Let_def)
  then show ?thesis using j2(2) lp(2) j4(2) by auto
qed

end
