(* ===== verification/TxnExample.thy ===== *)
theory TxnExample
  imports TxnRestore TxnOutcomes
begin

text \<open>
  One concrete world, in which the hypotheses of the properties hold: two files in a
  trusted directory, a batch that renames both, the concrete rename call of
  \<open>FileSystem\<close>, an environment that does nothing else and one in which another process
  takes a destination name during the pass.
\<close>

section \<open>The world\<close>

definition dir_node :: fs_node where
  "dir_node = \<lparr> n_kind = DirNode, n_size = 0, n_mtime = 0, n_ino = 1, n_dev = 5 \<rparr>"

definition file_node :: "nat \<Rightarrow> nat \<Rightarrow> fs_node" where
  "file_node bytes ino = \<lparr> n_kind = FileNode, n_size = bytes, n_mtime = 100, n_ino = ino, n_dev = 5 \<rparr>"

definition rom :: "string \<Rightarrow> path" where
  "rom name = [''roms'', name]"

definition demo_fs :: fs where
  "demo_fs = fmap_of_list
     [([''roms''], dir_node), (rom ''a.bin'', file_node 10 7), (rom ''b.bin'', file_node 20 8)]"

definition demo_entry :: "string \<Rightarrow> string \<Rightarrow> fs_node \<Rightarrow> transaction_entry" where
  "demo_entry s d n =
     \<lparr> te_source_path = rom s, te_destination_path = rom d, te_original_basename = s,
       te_proposed_basename = d, te_identity = file_identity n, te_preflight_passed = False,
       te_preflight_failures = [], te_state = EsPlanned, te_failure_reason = None,
       te_applied_at_unix = None, te_rolled_back_at_unix = None, te_unknown = [] \<rparr>"

definition demo_tx :: rename_transaction where
  "demo_tx =
     \<lparr> tx_transaction_id = ''9-0'', tx_plan_generation = 1,
       tx_classifier_version = Some classifier_version, tx_created_at_unix = 9,
       tx_source_scan_root = ''roms'', tx_state = TsPlanned,
       tx_entries = [demo_entry ''a.bin'' ''x.bin'' (file_node 10 7),
                     demo_entry ''b.bin'' ''y.bin'' (file_node 20 8)],
       tx_created_directories = [], tx_unknown = [] \<rparr>"

text \<open>The same batch with its first entry only.\<close>

definition small_tx :: rename_transaction where
  "small_tx = demo_tx\<lparr>tx_entries := [demo_entry ''a.bin'' ''x.bin'' (file_node 10 7)]\<rparr>"

definition demo_exec :: "hard_conflict_mode \<Rightarrow> apply_execution" where
  "demo_exec mode =
     \<lparr> ex_approved_paths = {rom ''a.bin'', rom ''b.bin''}, ex_current_generation = 1,
       ex_trusted = [[''roms'']], ex_hard_conflict_mode = mode,
       ex_directory_policy = SameDirectory, ex_allow_symlink_source = False \<rparr>"

definition demo_env :: env where
  "demo_env =
     \<lparr> e_ren = linux_rename, e_now = (\<lambda>n. 1000 + n), e_cancel = (\<lambda>_. False),
       e_journal_err = (\<lambda>_. None), e_other = (\<lambda>_ f. f) \<rparr>"

text \<open>At step \<open>k\<close> another process creates \<open>roms/name\<close>.\<close>

definition busy_env :: "nat \<Rightarrow> string \<Rightarrow> env" where
  "busy_env k name =
     demo_env\<lparr>e_other := (\<lambda>n f. if n = k then fmupd (rom name) (file_node 99 99) f else f)\<rparr>"

definition demo_world :: world where
  "demo_world = restart demo_fs fmempty 0"

lemma demo_env_facts [simp]:
  "quiet demo_env" "journal_works demo_env" "never_cancelled demo_env"
  "e_ren demo_env = linux_rename" "e_ren (busy_env k name) = linux_rename"
  by (simp_all add: demo_env_def busy_env_def quiet_def journal_works_def never_cancelled_def)

lemma linux_rename_contract [simp]: "noreplace_rename linux_rename" "live_rename linux_rename"
  by (rule lnx.noreplace_rename_axioms, rule lnx.live_rename_axioms)

section \<open>Evaluating the small batch\<close>

text \<open>Each fact is one evaluation; together they let a whole pass be rewritten to its result.\<close>

definition moved_fs :: fs where
  "moved_fs = fmupd (rom ''x.bin'') (file_node 10 7) (fmdrop (rom ''a.bin'') demo_fs)"

abbreviation small_entry :: transaction_entry where
  "small_entry \<equiv> demo_entry ''a.bin'' ''x.bin'' (file_node 10 7)"

named_theorems demo_eval

lemma demo_lookup [demo_eval]:
  "locate demo_fs (rom x) = Some (rom x)" "locate moved_fs (rom x) = Some (rom x)"
  "fmlookup demo_fs (rom ''a.bin'') = Some (file_node 10 7)"
  "fmlookup demo_fs (rom ''x.bin'') = None"
  "fmlookup moved_fs (rom ''x.bin'') = Some (file_node 10 7)"
  "fmlookup moved_fs (rom ''a.bin'') = None"
  by (code_simp, code_simp, code_simp, code_simp, code_simp, code_simp)

lemma file_node_fields [simp]:
  "n_kind (file_node s i) = FileNode" "n_size (file_node s i) = s" "n_mtime (file_node s i) = 100"
  "n_ino (file_node s i) = i" "n_dev (file_node s i) = 5"
  by (simp_all add: file_node_def)

lemma demo_metadata [demo_eval]:
  "symlink_metadata demo_fs (rom ''a.bin'') = Some (file_node 10 7)"
  "symlink_metadata demo_fs (rom ''x.bin'') = None"
  "symlink_metadata moved_fs (rom ''x.bin'') = Some (file_node 10 7)"
  "symlink_metadata moved_fs (rom ''a.bin'') = None"
  by (simp_all add: symlink_metadata_def demo_lookup)

lemma demo_identity [demo_eval]:
  "capture_identity demo_fs (rom ''a.bin'') = Some (file_identity (file_node 10 7))"
  "capture_identity moved_fs (rom ''x.bin'') = Some (file_identity (file_node 10 7))"
  by (simp_all add: capture_file demo_metadata)

lemma demo_preflight [demo_eval]:
  "run_preflight demo_fs small_entry (options_of (demo_exec mode) small_tx) = Inr ()"
  "run_preflight demo_fs (small_entry\<lparr>te_preflight_passed := b\<rparr>)
     (options_of (demo_exec mode) small_tx) = Inr ()"
  by (code_simp, code_simp)

lemma demo_rename [demo_eval]:
  "linux_rename demo_fs (rom ''a.bin'') (rom ''x.bin'') = Inr moved_fs"
  by (simp add: linux_rename_def moved_fs_def demo_lookup)

lemma demo_names [demo_eval]:
  "journal_file_name ''9-0'' = Some ''9-0.json''"
  "has_nul (rom ''a.bin'') = False" "has_nul (rom ''x.bin'') = False"
  by (code_simp, code_simp, code_simp)

lemma demo_entry_fields [simp]:
  "te_source_path (demo_entry s d n) = rom s" "te_destination_path (demo_entry s d n) = rom d"
  "te_state (demo_entry s d n) = EsPlanned" "te_identity (demo_entry s d n) = file_identity n"
  by (simp_all add: demo_entry_def)

lemma small_tx_fields [simp]:
  "tx_entries small_tx = [small_entry]" "tx_classifier_version small_tx = Some classifier_version"
  "tx_plan_generation small_tx = 1" "tx_transaction_id small_tx = ''9-0''"
  "tx_state small_tx = TsPlanned"
  "ex_current_generation (demo_exec m) = 1" "ex_hard_conflict_mode (demo_exec m) = m"
  "ex_allow_symlink_source (demo_exec m) = False"
  by (simp_all add: small_tx_def demo_tx_def demo_exec_def)

lemma demo_steps [demo_eval]:
  "interleave demo_env (restart f d n) = restart f d (Suc n)"
  "interleave demo_env \<lparr>w_fs = f, w_disk = d, w_tick = n, w_hist = h\<rparr> =
     \<lparr>w_fs = f, w_disk = d, w_tick = Suc n, w_hist = h\<rparr>"
  "e_cancel demo_env n = False" "e_journal_err demo_env n = None"
  by (simp_all add: interleave_def restart_def demo_env_def)

lemmas apply_eval =
  apply_transaction_def validate_classifier_version_def read_cancel_def preflight_entry_def
  run_batch_def write_journal_def Let_def apply_step_def set_entry_def apply_mutation_def
  rename_noreplace_def checkpoint_def finish_apply_def confirm_rename_def demo_world_def restart_def

lemmas rollback_eval =
  rollback_transaction_def reconcile_recovery_def reconcile_entry_def in_flight_def
  classify_entry_def holds_object_def reconcile_transaction_level_state_def write_journal_def
  read_cancel_def is_eligible_for_rollback_def rollback_step_def rollback_mutation_def
  rename_noreplace_def set_entry_def finish_rollback_def is_unresolved_def restart_def Let_def

definition small_pass :: apply_result where
  "small_pass = apply_transaction demo_env (demo_exec AbortAll) small_tx demo_world"

definition small_crashes :: "(rename_transaction \<times> fs) list" where
  "small_crashes = crash_points None (w_hist (snd (snd small_pass)))"

lemma small_pass_renames: "Renamed (rom ''a.bin'') (rom ''x.bin'') demo_fs moved_fs \<in>
    set (w_hist (snd (snd small_pass)))"
  by (simp add: small_pass_def apply_eval demo_eval)

text \<open>The six instants at which the pass can be interrupted.\<close>

lemma small_crashes_states:
  "map (\<lambda>(t, f). (map te_state (tx_entries t), f)) small_crashes =
     [([EsPlanned], demo_fs), ([EsPlanned], demo_fs), ([EsApplying], demo_fs),
      ([EsApplying], moved_fs), ([EsApplied], moved_fs), ([EsApplied], moved_fs)]"
  by (simp add: small_crashes_def small_pass_def apply_eval demo_eval)

lemma small_pass_eq:
  "apply_transaction demo_env (demo_exec mode) small_tx demo_world =
     (fst (apply_transaction demo_env (demo_exec mode) small_tx demo_world),
      fst (snd (apply_transaction demo_env (demo_exec mode) small_tx demo_world)),
      snd (snd (apply_transaction demo_env (demo_exec mode) small_tx demo_world)))"
  by simp

lemma small_pass_run:
  "apply_transaction demo_env (demo_exec AbortAll) small_tx demo_world =
     (fst small_pass, fst (snd small_pass), snd (snd small_pass))"
  by (simp add: small_pass_def)

lemma demo_world_fields [simp]: "w_fs demo_world = demo_fs" "w_hist demo_world = []"
  by (simp_all add: demo_world_def)

lemma small_fresh: "fresh_batch (demo_exec AbortAll) small_tx"
  by (simp add: fresh_batch_def unmoved_def)

lemma small_no_nul: "no_nul_paths (tx_entries small_tx)"
  by (simp add: no_nul_paths_def demo_names)

lemma small_crash_3:
  "(fst (small_crashes ! 3), snd (small_crashes ! 3))
     \<in> set (crash_points None (w_hist (snd (snd small_pass))))"
proof -
  have "length small_crashes = 6" using arg_cong [OF small_crashes_states, of length] by simp
  then show ?thesis using nth_mem [of 3 small_crashes] by (simp add: small_crashes_def)
qed

section \<open>A crash between the rename and its record\<close>

text \<open>The journal says \<open>Applying\<close>; the file is at its destination.\<close>

definition flight_tx :: rename_transaction where
  "flight_tx = small_tx\<lparr>tx_state := TsApplying, tx_entries := [small_entry\<lparr>te_state := EsApplying\<rparr>]\<rparr>"

lemma flight_chain: "chain demo_fs (tx_entries flight_tx) moved_fs"
proof -
  have "movable demo_fs small_entry"
    by (simp add: movable_def at_source_def regular_def holds_object_def absent_def demo_eval file_identity_def)
  moreover have "move_entry demo_fs small_entry = moved_fs"
    by (simp add: move_entry_def moved_fs_def demo_lookup)
  ultimately have "chain demo_fs [small_entry\<lparr>te_state := EsApplying\<rparr>] moved_fs"
    by (intro chain.flight) (auto simp: in_flight_def movable_def)
  then show ?thesis by (simp add: flight_tx_def)
qed

lemma flight_tx_fields [simp]:
  "tx_transaction_id flight_tx = ''9-0''" "tx_state flight_tx = TsApplying"
  "tx_entries flight_tx = [small_entry\<lparr>te_state := EsApplying\<rparr>]"
  by (simp_all add: flight_tx_def)

definition flight_rollback :: rollback_return where
  "flight_rollback = rollback_transaction demo_env flight_tx (restart moved_fs fmempty 0)"

lemma demo_rename_back [demo_eval]:
  "linux_rename moved_fs (rom ''x.bin'') (rom ''a.bin'') = Inr demo_fs"
proof -
  have "fmupd (rom ''a.bin'') (file_node 10 7) (fmdrop (rom ''x.bin'') moved_fs) = demo_fs"
    unfolding moved_fs_def using demo_lookup(3,4) by (auto intro!: fmap_ext simp: rom_def)
  then show ?thesis by (simp add: linux_rename_def demo_lookup)
qed

lemma flight_rollback_renames: "Renamed (rom ''x.bin'') (rom ''a.bin'') moved_fs demo_fs \<in>
    set (w_hist (snd (snd flight_rollback)))"
  by (simp add: flight_rollback_def rollback_eval demo_eval)

lemma flight_rollback_crashes:
  "map (\<lambda>(t, f). (map te_state (tx_entries t), f))
     (crash_points None (w_hist (snd (snd flight_rollback)))) =
   [([EsApplied], moved_fs), ([EsApplied], moved_fs), ([EsRollingBack], moved_fs),
    ([EsRollingBack], demo_fs), ([EsRolledBack], demo_fs), ([EsRolledBack], demo_fs)]"
  by (simp add: flight_rollback_def rollback_eval demo_eval)

end
