(* ===== verification/TxnReport.thy ===== *)
theory TxnReport
  imports TxnOutcomes
begin

text \<open>
  What a rollback reports, against what it did. The loop of \<open>rollback.rs\<close> is related to
  the entries it was given; from that, the variant of the result and the paths it lists
  follow for any environment.
\<close>

section \<open>The loop\<close>

text \<open>How the loop left an entry it was given, with what it was before.\<close>

definition undone :: "transaction_entry list \<Rightarrow> transaction_entry list \<Rightarrow> nat \<Rightarrow> bool" where
  "undone es es' i \<longleftrightarrow> te_state (es ! i) = EsApplied \<and> te_state (es' ! i) = EsRolledBack"

text \<open>Entries that were not applied, or not in the list, are left alone.\<close>

definition loop_kept :: "nat list \<Rightarrow> transaction_entry list \<Rightarrow> transaction_entry list \<Rightarrow> bool" where
  "loop_kept is es es' \<longleftrightarrow> length es' = length es \<and>
     (\<forall>i < length es. te_source_path (es' ! i) = te_source_path (es ! i) \<and>
        (te_state (es ! i) \<noteq> EsApplied \<or> i \<notin> set is \<longrightarrow> es' ! i = es ! i) \<and>
        (te_state (es ! i) = EsApplied \<longrightarrow>
           te_state (es' ! i) \<in> {EsApplied, EsRolledBack, EsRollbackFailed}))"

text \<open>
  The loop ends in one of three ways: everything eligible was reversed, it was cancelled,
  or exactly one reversal was refused.
\<close>

definition loop_ended ::
    "nat list \<Rightarrow> rollback_progress \<Rightarrow> transaction_entry list \<Rightarrow> rollback_progress \<Rightarrow>
     transaction_entry list \<Rightarrow> bool" where
  "loop_ended is p es p' es' \<longleftrightarrow>
     (rp_failed p' = rp_failed p \<and> rp_cancelled p' = rp_cancelled p \<and>
        (\<forall>i \<in> set is. te_state (es ! i) = EsApplied \<longrightarrow> undone es es' i)) \<or>
     (rp_failed p' = rp_failed p \<and> rp_cancelled p' \<and>
        (\<forall>i \<in> set is. te_state (es ! i) = EsApplied \<longrightarrow> te_state (es' ! i) \<noteq> EsRollbackFailed)) \<or>
     (rp_cancelled p' = rp_cancelled p \<and>
        (\<exists>i \<in> set is. \<exists>reason. te_state (es ! i) = EsApplied \<and> te_state (es' ! i) = EsRollbackFailed \<and>
           rp_failed p' = rp_failed p @ [(te_source_path (es ! i), reason)]))"

definition loop_listed ::
    "nat list \<Rightarrow> rollback_progress \<Rightarrow> transaction_entry list \<Rightarrow> rollback_progress \<Rightarrow>
     transaction_entry list \<Rightarrow> bool" where
  "loop_listed is p es p' es' \<longleftrightarrow>
     rp_rolled_back p' =
       rp_rolled_back p @ map (\<lambda>i. te_source_path (es ! i)) (filter (undone es es') is)"

lemmas loop_defs = loop_kept_def loop_ended_def loop_listed_def

lemma rollback_step_next:
  assumes "rollback_step env i p t w = (RollbackNext p1, t1, w1)"
  shows "p1 = p\<lparr>rp_rolled_back := rp_rolled_back p @ [te_source_path (tx_entries t ! i)]\<rparr> \<and>
    (\<exists>e. tx_entries t1 = (tx_entries t)[i := e] \<and> te_state e = EsRolledBack \<and>
       te_source_path e = te_source_path (tx_entries t ! i))"
  using assms
  by (auto simp: rollback_step_def set_entry_def Let_def split: prod.splits sum.splits)

lemma rollback_step_break:
  assumes "rollback_step env i p t w = (RollbackBreak p1, t1, w1)"
  shows "\<exists>reason e. p1 = p\<lparr>rp_failed := rp_failed p @ [(te_source_path (tx_entries t ! i), reason)]\<rparr> \<and>
    tx_entries t1 = (tx_entries t)[i := e] \<and> te_state e = EsRollbackFailed \<and>
    te_source_path e = te_source_path (tx_entries t ! i)"
  using assms
  by (auto simp: rollback_step_def set_entry_def Let_def split: prod.splits sum.splits)

definition loop_report ::
    "nat list \<Rightarrow> rollback_progress \<Rightarrow> transaction_entry list \<Rightarrow> rollback_progress \<Rightarrow>
     transaction_entry list \<Rightarrow> bool" where
  "loop_report is p es p' es' \<longleftrightarrow>
     loop_kept is es es' \<and> loop_ended is p es p' es' \<and> loop_listed is p es p' es'"

lemma loop_report_refl:
  "(\<forall>i \<in> set is. te_state (es ! i) \<noteq> EsApplied) \<Longrightarrow> loop_report is p es p es"
  by (auto simp: loop_report_def loop_defs undone_def filter_empty_conv)

lemma loop_report_cancel: "loop_report is p es (p\<lparr>rp_cancelled := True\<rparr>) es"
  by (auto simp: loop_report_def loop_defs undone_def filter_empty_conv)

lemma loop_report_skip:
  assumes "loop_report is p es p' es'" and "te_state (es ! i) \<noteq> EsApplied"
  shows "loop_report (i # is) p es p' es'"
  using assms by (auto simp: loop_report_def loop_defs undone_def)

lemma loop_report_break:
  assumes "i < length es" and "te_state (es ! i) = EsApplied" and "i \<notin> set is"
    and "te_state e = EsRollbackFailed" and "te_source_path e = te_source_path (es ! i)"
  shows "loop_report (i # is) p es
    (p\<lparr>rp_failed := rp_failed p @ [(te_source_path (es ! i), reason)]\<rparr>) (es[i := e])"
proof -
  have "filter (undone es (es[i := e])) (i # is) = []"
    using assms by (auto simp: undone_def filter_empty_conv nth_list_update)
  then show ?thesis
    using assms by (auto simp: loop_report_def loop_defs nth_list_update)
qed

lemma loop_report_next:
  assumes rep: "loop_report is (p\<lparr>rp_rolled_back := rp_rolled_back p @ [te_source_path (es ! i)]\<rparr>)
      (es[i := e]) p' es'"
    and i: "i < length es" "te_state (es ! i) = EsApplied" "i \<notin> set is"
    and e: "te_state e = EsRolledBack" "te_source_path e = te_source_path (es ! i)"
  shows "loop_report (i # is) p es p' es'"
proof -
  have kept: "loop_kept is (es[i := e]) es'" using rep by (simp add: loop_report_def)
  then have at_i: "es' ! i = e" using i by (simp add: loop_kept_def)
  have other: "es[i := e] ! k = es ! k" if "k \<in> set is" for k using that i(3) by (metis nth_list_update_neq)
  have und: "undone (es[i := e]) es' k = undone es es' k" if "k \<in> set is" for k
    using other [OF that] by (simp add: undone_def)
  have here: "undone es es' i" using at_i i(2) e(1) by (simp add: undone_def)
  have "te_source_path (es' ! k) = te_source_path (es ! k) \<and>
        (te_state (es ! k) \<noteq> EsApplied \<or> k \<notin> set (i # is) \<longrightarrow> es' ! k = es ! k) \<and>
        (te_state (es ! k) = EsApplied \<longrightarrow>
           te_state (es' ! k) \<in> {EsApplied, EsRolledBack, EsRollbackFailed})"
    if k: "k < length es" for k
  proof (cases "k = i")
    case True
    then show ?thesis using at_i i e by simp
  next
    case False
    then have same: "es[i := e] ! k = es ! k" by simp
    have "te_source_path (es' ! k) = te_source_path (es[i := e] ! k) \<and>
        (te_state (es[i := e] ! k) \<noteq> EsApplied \<or> k \<notin> set is \<longrightarrow> es' ! k = es[i := e] ! k) \<and>
        (te_state (es[i := e] ! k) = EsApplied \<longrightarrow>
           te_state (es' ! k) \<in> {EsApplied, EsRolledBack, EsRollbackFailed})"
      using kept k unfolding loop_kept_def length_list_update by blast
    then show ?thesis using False unfolding same by simp
  qed
  then have "loop_kept (i # is) es es'" using kept by (simp add: loop_kept_def)
  moreover have "loop_ended (i # is) p es p' es'"
    using rep other und here by (auto simp: loop_report_def loop_ended_def undone_def)
  moreover have "filter (undone (es[i := e]) es') is = filter (undone es es') is"
    using und by (auto intro: filter_cong)
  then have "loop_listed (i # is) p es p' es'"
    using rep other here by (auto simp: loop_report_def loop_listed_def)
  ultimately show ?thesis by (simp add: loop_report_def)
qed

lemma rollback_loop_report:
  "rollback_loop env is p t w = (Inr p', t', w') \<Longrightarrow> distinct is \<Longrightarrow>
   set is \<subseteq> {..<length (tx_entries t)} \<Longrightarrow>
   loop_report is p (tx_entries t) p' (tx_entries t')"
proof (induction env "is" p t w rule: rollback_loop.induct)
  case (1 env p t w)
  then show ?case by (auto intro: loop_report_refl)
next
  case (2 env i "is" p t w)
  obtain c w1 where rc: "read_cancel env w = (c, w1)" by force
  obtain r t1 w2 where st: "rollback_step env i p t w1 = (r, t1, w2)" by (metis prod_cases3)
  let ?es = "tx_entries t"
  have i: "i < length ?es" "i \<notin> set is" "distinct is" "set is \<subseteq> {..<length ?es}"
    using "2.prems" by auto
  consider "c" | "\<not> c" "\<not> is_eligible_for_rollback (?es ! i)"
    | "\<not> c" "is_eligible_for_rollback (?es ! i)" by blast
  then show ?case
  proof cases
    case 1
    then show ?thesis using "2.prems"(1) rc by (auto intro: loop_report_cancel)
  next
    case 2
    then have "loop_report is p ?es p' (tx_entries t')"
      using "2.IH"(1) [OF rc [symmetric]] "2.prems"(1) rc i by simp
    then show ?thesis using 2 by (auto simp: is_eligible_for_rollback_def intro: loop_report_skip)
  next
    case 3
    then have ap: "te_state (?es ! i) = EsApplied" by (simp add: is_eligible_for_rollback_def)
    show ?thesis
    proof (cases r)
      case (RollbackNext p1)
      obtain e where e: "tx_entries t1 = ?es[i := e]" "te_state e = EsRolledBack"
          "te_source_path e = te_source_path (?es ! i)"
        and p1: "p1 = p\<lparr>rp_rolled_back := rp_rolled_back p @ [te_source_path (?es ! i)]\<rparr>"
        using rollback_step_next [OF st [unfolded RollbackNext]] by blast
      have "loop_report is p1 (tx_entries t1) p' (tx_entries t')"
        using "2.IH"(2) [OF rc [symmetric] _ _ st [symmetric]] "2.prems"(1) rc st 3 i RollbackNext e(1)
        by simp
      then show ?thesis using loop_report_next ap i e p1 by metis
    next
      case (RollbackBreak p1)
      then have "p' = p1 \<and> t' = t1" using "2.prems"(1) rc st 3 by simp
      then show ?thesis
        using rollback_step_break [OF st [unfolded RollbackBreak]] loop_report_break [OF i(1) ap i(2)]
        by metis
    next
      case (RollbackAbort err)
      then show ?thesis using "2.prems"(1) rc st 3 by simp
    qed
  qed
qed

section \<open>Reconciliation before it\<close>

definition reconciled :: "transaction_entry \<Rightarrow> transaction_entry \<Rightarrow> bool" where
  "reconciled e e' \<longleftrightarrow> te_source_path e' = te_source_path e \<and>
     (case te_state e of
        EsApplying \<Rightarrow> te_state e' \<in> {EsSkipped, EsApplied}
      | EsRollingBack \<Rightarrow> te_state e' \<in> {EsRolledBack, EsApplied}
      | _ \<Rightarrow> e' = e)"

lemma reconcile_entry_reconciled:
  "in_flight (te_state e) \<Longrightarrow> \<not> is_unresolved issue \<Longrightarrow>
   reconciled e (fst (reconcile_entry now (ri_kind issue) e))"
  by (auto simp: is_unresolved_def reconcile_entry_def reconciled_def in_flight_def
      split: recovery_issue_kind.splits)

lemma reconcile_entry_unresolved:
  "is_unresolved issue \<Longrightarrow> fst (reconcile_entry now (ri_kind issue) e) = e"
  by (auto simp: is_unresolved_def reconcile_entry_def split: recovery_issue_kind.splits)

lemma not_in_flight_reconciled: "\<not> in_flight (te_state e) \<Longrightarrow> reconciled e e"
  by (auto simp: reconciled_def in_flight_def split: entry_state.splits)

lemma reconcile_entries_reconciled:
  "reconcile_entries env i es w = (es', iss, c, w') \<Longrightarrow> filter is_unresolved iss = [] \<Longrightarrow>
   list_all2 reconciled es es'"
proof (induction es arbitrary: i w es' iss c w')
  case Nil
  then show ?case by simp
next
  case (Cons e es)
  let ?w = "interleave env w"
  obtain es1 is1 c1 w1 where r1: "reconcile_entries env (Suc i) es ?w = (es1, is1, c1, w1)"
    by (metis prod_cases4)
  obtain es2 is2 c2 w2 where r2: "reconcile_entries env (Suc i) es w = (es2, is2, c2, w2)"
    by (metis prod_cases4)
  show ?case
  proof (cases "in_flight (te_state e)")
    case True
    then have "iss = classify_entry (w_fs ?w) e i # is1"
      and "es' = fst (reconcile_entry (now_unix env ?w) (ri_kind (classify_entry (w_fs ?w) e i)) e) # es1"
      using Cons.prems(1) r1 by (auto simp: Let_def split: prod.splits)
    then show ?thesis
      using Cons.prems(2) Cons.IH [OF r1] reconcile_entry_reconciled [OF True] by (auto split: if_splits)
  next
    case False
    then show ?thesis
      using Cons.prems r2 Cons.IH [OF r2] not_in_flight_reconciled by auto
  qed
qed

lemma reconcile_entries_stuck:
  "reconcile_entries env i es w = (es', iss, c, w') \<Longrightarrow> filter is_unresolved iss \<noteq> [] \<Longrightarrow>
   \<exists>k < length es. in_flight (te_state (es ! k)) \<and> es' ! k = es ! k"
proof (induction es arbitrary: i w es' iss c w')
  case Nil
  then show ?case by simp
next
  case (Cons e es)
  let ?w = "interleave env w"
  obtain es1 is1 c1 w1 where r1: "reconcile_entries env (Suc i) es ?w = (es1, is1, c1, w1)"
    by (metis prod_cases4)
  obtain es2 is2 c2 w2 where r2: "reconcile_entries env (Suc i) es w = (es2, is2, c2, w2)"
    by (metis prod_cases4)
  have later: ?case if "\<exists>k < length es. in_flight (te_state (es ! k)) \<and> esx ! k = es ! k"
      "es' = e' # esx" for esx e'
    using that by auto
  show ?case
  proof (cases "in_flight (te_state e)")
    case True
    let ?iss = "classify_entry (w_fs ?w) e i"
    have eq: "iss = ?iss # is1"
      "es' = fst (reconcile_entry (now_unix env ?w) (ri_kind ?iss) e) # es1"
      using True Cons.prems(1) r1 by (auto simp: Let_def split: prod.splits)
    show ?thesis
    proof (cases "is_unresolved ?iss")
      case un: True
      then show ?thesis using True eq(2) reconcile_entry_unresolved [OF un] by (auto intro: exI [of _ 0])
    next
      case False
      then show ?thesis using Cons.prems(2) Cons.IH [OF r1] eq later by simp
    qed
  next
    case False
    then have eq: "iss = is2" "es' = e # es2" using Cons.prems(1) r2 by auto
    show ?thesis by (rule later [OF Cons.IH [OF r2]]) (use Cons.prems(2) eq in simp_all)
  qed
qed

section \<open>What is reported\<close>

text \<open>
  An entry of a batch that is fully rolled back: an applied one was reversed, one that was
  in flight was reversed or never renamed, and any other is as it was.
\<close>

definition fully_reversed :: "transaction_entry \<Rightarrow> transaction_entry \<Rightarrow> bool" where
  "fully_reversed e e' \<longleftrightarrow> te_source_path e' = te_source_path e \<and>
     (case te_state e of
        EsApplied \<Rightarrow> te_state e' = EsRolledBack
      | EsRollingBack \<Rightarrow> te_state e' = EsRolledBack
      | EsApplying \<Rightarrow> te_state e' = EsRolledBack \<or> te_state e' = EsSkipped
      | _ \<Rightarrow> e' = e)"

text \<open>The states in which the file of an entry may be at its new name, before a rollback.\<close>

definition maybe_renamed :: "entry_state \<Rightarrow> bool" where
  "maybe_renamed s \<longleftrightarrow> s = EsApplied \<or> s = EsApplying \<or> s = EsRollingBack"

definition report_exact ::
    "transaction_entry list \<Rightarrow> transaction_entry list \<Rightarrow> rollback_result \<Rightarrow> bool" where
  "report_exact es es' result =
     (case result of
        FullyRolledBack \<Rightarrow> list_all2 fully_reversed es es'
      | PartiallyRolledBack reversed failed \<Rightarrow>
          \<not> list_all2 fully_reversed es es' \<and> reversed \<noteq> [] \<and> failed \<noteq> [] \<and>
          (\<forall>i < length es. undone es es' i \<longrightarrow> te_source_path (es ! i) \<in> set reversed) \<and>
          (\<forall>q \<in> set reversed. \<exists>i < length es. te_source_path (es ! i) = q \<and>
             maybe_renamed (te_state (es ! i)) \<and> te_state (es' ! i) = EsRolledBack) \<and>
          (\<forall>q \<in> fst ` set failed. \<exists>i < length es. te_source_path (es ! i) = q \<and>
             maybe_renamed (te_state (es ! i)) \<and> te_state (es' ! i) \<in> {EsApplied, EsRollbackFailed})
      | RollbackFailed failed \<Rightarrow>
          \<not> list_all2 fully_reversed es es' \<and> failed \<noteq> [] \<and> (\<forall>i < length es. \<not> undone es es' i))"

lemma reconciled_before_applied:
  "reconciled e e1 \<Longrightarrow> te_state e1 = EsApplied \<Longrightarrow> maybe_renamed (te_state e)"
  by (auto simp: reconciled_def maybe_renamed_def split: entry_state.splits)

lemma reconciled_not_rolling: "reconciled e e1 \<Longrightarrow> te_state e1 \<noteq> EsRollingBack"
  by (auto simp: reconciled_def split: entry_state.splits)

lemma reversed_not_refused:
  "fully_reversed e e' \<Longrightarrow> maybe_renamed (te_state e) \<Longrightarrow>
   te_state e' \<noteq> EsRollbackFailed \<and> te_state e' \<noteq> EsApplied"
  by (auto simp: fully_reversed_def maybe_renamed_def)

lemma reconciled_then_reversed:
  assumes "reconciled e e1" and "te_source_path e' = te_source_path e1"
    and "if te_state e1 = EsApplied then te_state e' = EsRolledBack else e' = e1"
  shows "fully_reversed e e'"
  using assms by (auto simp: reconciled_def fully_reversed_def split: entry_state.splits if_splits)

text \<open>One pass: the entries reconciled, then the loop over them in reverse.\<close>

definition whole_pass ::
    "transaction_entry list \<Rightarrow> transaction_entry list \<Rightarrow> rollback_progress \<Rightarrow>
     transaction_entry list \<Rightarrow> bool" where
  "whole_pass es es1 p es' \<longleftrightarrow> list_all2 reconciled es es1 \<and>
     loop_report (rev [0..<length es1]) no_progress es1 p es'"

lemma whole_pass_lengths:
  "whole_pass es es1 p es' \<Longrightarrow> length es1 = length es \<and> length es' = length es"
  by (auto simp: whole_pass_def loop_report_def loop_kept_def dest: list_all2_lengthD)

lemma whole_pass_entry:
  assumes "whole_pass es es1 p es'" and "i < length es"
  shows "reconciled (es ! i) (es1 ! i)"
    and "te_source_path (es' ! i) = te_source_path (es ! i)"
    and "te_source_path (es1 ! i) = te_source_path (es ! i)"
    and "te_state (es1 ! i) \<noteq> EsApplied \<Longrightarrow> es' ! i = es1 ! i"
    and "te_state (es1 ! i) = EsApplied \<Longrightarrow>
      te_state (es' ! i) \<in> {EsApplied, EsRolledBack, EsRollbackFailed}"
proof -
  show r: "reconciled (es ! i) (es1 ! i)"
    using assms by (auto simp: whole_pass_def intro: list_all2_nthD)
  then show "te_source_path (es1 ! i) = te_source_path (es ! i)" by (simp add: reconciled_def)
  with assms whole_pass_lengths [OF assms(1)]
  show "te_source_path (es' ! i) = te_source_path (es ! i)"
    and "te_state (es1 ! i) \<noteq> EsApplied \<Longrightarrow> es' ! i = es1 ! i"
    and "te_state (es1 ! i) = EsApplied \<Longrightarrow>
      te_state (es' ! i) \<in> {EsApplied, EsRolledBack, EsRollbackFailed}"
    by (auto simp: whole_pass_def loop_report_def loop_kept_def)
qed

lemma whole_pass_listed:
  assumes "whole_pass es es1 p es'"
  shows "i < length es \<Longrightarrow> undone es es' i \<Longrightarrow> te_source_path (es ! i) \<in> set (rp_rolled_back p)"
    and "q \<in> set (rp_rolled_back p) \<Longrightarrow> \<exists>i < length es. te_source_path (es ! i) = q \<and>
      maybe_renamed (te_state (es ! i)) \<and> te_state (es' ! i) = EsRolledBack"
proof -
  note e = whole_pass_entry [OF assms] and len = whole_pass_lengths [OF assms]
  have rolled: "rp_rolled_back p =
      map (\<lambda>i. te_source_path (es1 ! i)) (filter (undone es1 es') (rev [0..<length es1]))"
    using assms by (simp add: whole_pass_def loop_report_def loop_listed_def no_progress_def)
  show "te_source_path (es ! i) \<in> set (rp_rolled_back p)" if "i < length es" "undone es es' i" for i
  proof -
    have "undone es1 es' i" using e(1) [OF that(1)] that(2) by (auto simp: undone_def reconciled_def)
    then show ?thesis unfolding rolled using e(3) [OF that(1), symmetric] that(1) len by auto
  qed
  show "\<exists>i < length es. te_source_path (es ! i) = q \<and> maybe_renamed (te_state (es ! i)) \<and>
      te_state (es' ! i) = EsRolledBack" if "q \<in> set (rp_rolled_back p)" for q
    using that e(1,3) reconciled_before_applied len unfolding rolled by (fastforce simp: undone_def)
qed

lemma whole_pass_remaining:
  assumes pass: "whole_pass es es1 p (tx_entries t)" and "q \<in> set (remaining_incomplete t)"
  shows "\<exists>i < length es. te_source_path (es ! i) = q \<and> maybe_renamed (te_state (es ! i)) \<and>
    te_state (es1 ! i) = EsApplied \<and> te_state (tx_entries t ! i) = EsApplied"
proof -
  note e = whole_pass_entry [OF pass]
  obtain i where i: "i < length es" "te_source_path (tx_entries t ! i) = q"
      "te_state (tx_entries t ! i) = EsApplied \<or> te_state (tx_entries t ! i) = EsRollingBack"
    using assms(2) whole_pass_lengths [OF pass] by (auto simp: remaining_incomplete_def in_set_conv_nth)
  have ap: "te_state (es1 ! i) = EsApplied"
    using i(3) e(4) [OF i(1)] reconciled_not_rolling [OF e(1) [OF i(1)]] by metis
  moreover from ap have "te_state (tx_entries t ! i) = EsApplied" using i(3) e(5) [OF i(1) ap] by auto
  ultimately show ?thesis using i e(2) reconciled_before_applied [OF e(1) ap] by auto
qed

lemma whole_pass_failed:
  assumes pass: "whole_pass es es1 p es'" and "x \<in> set (rp_failed p)"
  shows "\<exists>i < length es. te_source_path (es ! i) = fst x \<and> maybe_renamed (te_state (es ! i)) \<and>
    te_state (es' ! i) = EsRollbackFailed"
proof -
  obtain i where "i < length es" "te_state (es1 ! i) = EsApplied" "te_state (es' ! i) = EsRollbackFailed"
      "fst x = te_source_path (es1 ! i)"
    using assms whole_pass_lengths [OF pass]
    by (auto simp: whole_pass_def loop_report_def loop_ended_def no_progress_def)
  then show ?thesis using whole_pass_entry [OF pass] reconciled_before_applied by metis
qed

lemma whole_pass_clean:
  assumes pass: "whole_pass es es1 p es'" and "rp_failed p = []" and i: "i < length es"
    and ap: "te_state (es1 ! i) = EsApplied"
  shows "te_state (es' ! i) \<noteq> EsRollbackFailed \<and> (te_state (es' ! i) = EsRolledBack \<or> rp_cancelled p)"
  using assms whole_pass_lengths [OF pass]
  by (auto simp: whole_pass_def loop_report_def loop_ended_def undone_def no_progress_def)

text \<open>A pass is complete exactly when nothing failed and nothing remains.\<close>

lemma whole_pass_full:
  assumes pass: "whole_pass es es1 p (tx_entries t)"
  shows "rp_failed p = [] \<and> remaining_incomplete t = [] \<longleftrightarrow>
    list_all2 fully_reversed es (tx_entries t)"
proof
  let ?es = "tx_entries t"
  note e = whole_pass_entry [OF pass] and len = whole_pass_lengths [OF pass]
  assume none: "rp_failed p = [] \<and> remaining_incomplete t = []"
  show "list_all2 fully_reversed es ?es"
  proof (rule list_all2_all_nthI)
    show "length es = length ?es" using len by simp
    fix i assume i: "i < length es"
    have "te_state (?es ! i) \<noteq> EsApplied"
      using none i len by (auto simp: remaining_incomplete_def filter_empty_conv)
    then have "te_state (?es ! i) = EsRolledBack" if "te_state (es1 ! i) = EsApplied"
      using e(5) [OF i that] whole_pass_clean [OF pass _ i that] none by auto
    then show "fully_reversed (es ! i) (?es ! i)"
      using e(1,2,3,4) [OF i] by (intro reconciled_then_reversed [of _ "es1 ! i"]) auto
  qed
next
  let ?es = "tx_entries t"
  assume all: "list_all2 fully_reversed es ?es"
  show "rp_failed p = [] \<and> remaining_incomplete t = []"
  proof (rule ccontr)
    assume "\<not> (rp_failed p = [] \<and> remaining_incomplete t = [])"
    then obtain i where "i < length es" "maybe_renamed (te_state (es ! i))"
        "te_state (?es ! i) = EsApplied \<or> te_state (?es ! i) = EsRollbackFailed"
      using whole_pass_remaining [OF pass] whole_pass_failed [OF pass]
      by (metis list.set_intros(1) neq_Nil_conv)
    with reversed_not_refused [OF list_all2_nthD [OF all]] show False by blast
  qed
qed

lemma whole_pass_stopped:
  assumes pass: "whole_pass es es1 p (tx_entries t)" and "remaining_incomplete t \<noteq> []"
  shows "rp_failed p \<noteq> [] \<or> rp_cancelled p"
proof -
  obtain i where "i < length es" "te_state (es1 ! i) = EsApplied" "te_state (tx_entries t ! i) = EsApplied"
    using assms(2) whole_pass_remaining [OF pass] by (metis list.set_intros(1) neq_Nil_conv)
  then show ?thesis using whole_pass_clean [OF pass] by fastforce
qed

lemma report_of_loop:
  assumes pass: "whole_pass es es1 p (tx_entries t)"
  shows "report_exact es (tx_entries t) (rollback_result_of p (remaining_incomplete t))"
proof (cases "rp_failed p = [] \<and> remaining_incomplete t = []")
  case True
  then show ?thesis using whole_pass_full [OF pass] by (simp add: report_exact_def rollback_result_of_def)
next
  case False
  let ?es = "tx_entries t" and ?rem = "remaining_incomplete t"
  define bad where
    "bad = (if rp_cancelled p
            then map (\<lambda>q. (q, ''rollback cancelled while entries were still applied'')) ?rem
            else rp_failed p)"
  have result: "rollback_result_of p ?rem =
      (if rp_rolled_back p = [] then RollbackFailed bad else PartiallyRolledBack (rp_rolled_back p) bad)"
    using False by (simp add: rollback_result_of_def bad_def Let_def)
  have "bad \<noteq> []"
    using False whole_pass_stopped [OF pass] pass
    by (auto simp: bad_def whole_pass_def loop_report_def loop_ended_def no_progress_def)
  moreover have "\<forall>q \<in> fst ` set bad. \<exists>i < length es. te_source_path (es ! i) = q \<and>
      maybe_renamed (te_state (es ! i)) \<and> te_state (?es ! i) \<in> {EsApplied, EsRollbackFailed}"
    using whole_pass_remaining [OF pass] whole_pass_failed [OF pass]
    by (fastforce simp: bad_def split: if_splits)
  moreover have "\<forall>i < length es. \<not> undone es ?es i" if "rp_rolled_back p = []"
    using whole_pass_listed(1) [OF pass] that by auto
  ultimately show ?thesis
    using whole_pass_full [OF pass] False whole_pass_listed [OF pass]
    unfolding result report_exact_def by auto
qed

text \<open>An entry left for manual review: nothing was reversed, and that is what is reported.\<close>

lemma report_of_review:
  assumes re: "reconcile_entries env 0 es w = (es', iss, c, w')" and un: "filter is_unresolved iss \<noteq> []"
  shows "report_exact es es' (manual_review t iss)"
proof -
  obtain k where k: "k < length es" "in_flight (te_state (es ! k))" "es' ! k = es ! k"
    using reconcile_entries_stuck [OF re un] by blast
  have "\<not> list_all2 fully_reversed es es'"
  proof
    assume "list_all2 fully_reversed es es'"
    from list_all2_nthD [OF this k(1)] k(2,3) show False by (auto simp: fully_reversed_def in_flight_def)
  qed
  moreover have "\<not> undone es es' i" if "i < length es" for i
    using list_all2_nthD [OF reconcile_entries_untouched [OF re] that] by (auto simp: undone_def in_flight_def)
  ultimately show ?thesis by (simp add: report_exact_def manual_review_def)
qed

text \<open>The result decides the state that is recorded, and whether the batch counts as reversed.\<close>

lemma report_exact_full:
  "report_exact es es' result \<Longrightarrow> result = FullyRolledBack \<longleftrightarrow> list_all2 fully_reversed es es'"
  by (cases result) (auto simp: report_exact_def)

lemma finish_rollback_returns:
  "finish_rollback env result t w = (Inr out, t', w') \<Longrightarrow>
   ro_result out = result \<and> ro_transaction out = t' \<and> t' = t \<and>
   (\<exists>h f. w_hist w' = h @ [JournalWritten t' f])"
  by (auto simp: finish_rollback_def elim!: write_journal_cases split: prod.splits sum.splits)

lemma rollback_ends:
  assumes run: "rollback_transaction env t w = (Inr out, t', w')" and "tx_state t \<noteq> TsRolledBack"
  obtains (review) es iss c w1 t1 w2 where
      "reconcile_entries env 0 (tx_entries t) w = (es, iss, c, w1)" "filter is_unresolved iss \<noteq> []"
      "tx_entries t1 = es"
      "finish_rollback env (manual_review t1 iss) (t1\<lparr>tx_state := TsRollbackFailed\<rparr>) w2 = (Inr out, t', w')"
  | (loop) es1 p t3 w4 where "whole_pass (tx_entries t) es1 p (tx_entries t3)"
      "finish_rollback env (rollback_result_of p (remaining_incomplete t3))
         (t3\<lparr>tx_state := (if rp_failed p = [] \<and> remaining_incomplete t3 = [] then TsRolledBack
                          else TsRollbackFailed)\<rparr>) w4 = (Inr out, t', w')"
proof -
  obtain es iss c w1 where re: "reconcile_entries env 0 (tx_entries t) w = (es, iss, c, w1)"
    by (metis prod_cases4)
  obtain x t1 w2 where rr: "reconcile_recovery env t w = (x, t1, w2)" by (metis prod_cases3)
  have t1: "tx_entries t1 = es \<and> (\<forall>issues. x = Inr issues \<longrightarrow> issues = iss)"
    using rr re by (auto simp: reconcile_recovery_def dest: reconcile_level_entries
        split: prod.splits sum.splits if_splits)
  obtain issues where x: "x = Inr issues" using assms rr by (cases x) (auto simp: rollback_transaction_def)
  show thesis
  proof (cases "filter is_unresolved iss = []")
    case False
    then show thesis using assms rr x t1 by (intro review [OF re]) (auto simp: rollback_transaction_def)
  next
    case True
    let ?t2 = "t1\<lparr>tx_state := TsRollingBack\<rparr>"
    obtain y w3 where wj: "write_journal env ?t2 w2 = (y, w3)" by force
    obtain z t3 w4 where lp: "rollback_loop env (rev [0..<length (tx_entries ?t2)]) no_progress ?t2 w3
        = (z, t3, w4)" by (metis prod_cases3)
    obtain p where p: "y = Inr ()" "z = Inr p"
      using assms rr x t1 True wj lp by (cases y; cases z) (auto simp: rollback_transaction_def Let_def)
    have "loop_report (rev [0..<length es]) no_progress es p (tx_entries t3)"
      using rollback_loop_report [OF lp [unfolded p]] t1 by (simp add: atLeast0LessThan)
    then have "whole_pass (tx_entries t) es p (tx_entries t3)"
      using reconcile_entries_reconciled [OF re True] by (simp add: whole_pass_def)
    then show thesis
      by (rule loop) (use assms rr x t1 True wj lp p in \<open>simp add: rollback_transaction_def Let_def\<close>)
  qed
qed


end
