(* ===== verification/TxnWitness.thy ===== *)
theory TxnWitness
  imports TxnExample TxnReport
begin

text \<open>
  The properties of the transaction engine applied in the concrete world of
  \<open>TxnExample\<close>: every hypothesis holds there.
\<close>

lemma flight_rollback_run:
  "rollback_transaction demo_env flight_tx (restart moved_fs fmempty 0) =
     (fst flight_rollback, fst (snd flight_rollback), snd (snd flight_rollback))"
  by (simp add: flight_rollback_def)

theorem apply_never_clobbers_witness:
  "absent demo_fs (rom ''x.bin'') \<and> \<not> absent demo_fs (rom ''a.bin'') \<and>
   (\<exists>h. announced h (rom ''a.bin'') (rom ''x.bin''))"
proof -
  obtain a b where "w_hist (snd (snd small_pass)) =
      a @ Renamed (rom ''a.bin'') (rom ''x.bin'') demo_fs moved_fs # b"
    using split_list [OF small_pass_renames] by blast
  from apply_never_clobbers [OF _ small_pass_run _ this] show ?thesis by auto
qed

theorem rollback_never_clobbers_witness:
  "absent moved_fs (rom ''a.bin'') \<and> \<not> absent moved_fs (rom ''x.bin'') \<and>
   (\<exists>h. announced h (rom ''x.bin'') (rom ''a.bin''))"
proof -
  obtain a b where "w_hist (snd (snd flight_rollback)) =
      a @ Renamed (rom ''x.bin'') (rom ''a.bin'') moved_fs demo_fs # b"
    using split_list [OF flight_rollback_renames] by blast
  from rollback_never_clobbers [OF _ flight_rollback_run _ this] show ?thesis by auto
qed

theorem apply_keeps_batch_witness: "same_batch small_tx (fst (snd small_pass))"
  using apply_keeps_batch [OF small_pass_run] by simp

theorem rollback_keeps_batch_witness: "same_batch flight_tx (fst (snd flight_rollback))"
  using rollback_keeps_batch [OF flight_rollback_run] by simp

theorem apply_crash_consistent_witness:
  "chain demo_fs (tx_entries (fst (small_crashes ! 3))) (snd (small_crashes ! 3))"
  using apply_crash_consistent [OF small_pass_run _ _ small_fresh _ small_crash_3] by simp

theorem rollback_restores_witness:
  "\<exists>t' w'. rollback_transaction demo_env flight_tx (restart moved_fs fmempty 0) =
      (Inr \<lparr>ro_result = FullyRolledBack, ro_transaction = t'\<rparr>, t', w') \<and>
    w_fs w' = demo_fs \<and> tx_state t' = TsRolledBack"
  by (rule rollback_restores [OF flight_chain]) (simp_all add: demo_names no_nul_paths_def)

theorem rollback_crash_consistent_witness:
  "chain demo_fs
     (tx_entries (fst (crash_points None (w_hist (snd (snd flight_rollback))) ! 2)))
     (snd (crash_points None (w_hist (snd (snd flight_rollback))) ! 2))"
proof -
  let ?cs = "crash_points None (w_hist (snd (snd flight_rollback)))"
  have "length ?cs = 6" using arg_cong [OF flight_rollback_crashes, of length] by simp
  then have "(fst (?cs ! 2), snd (?cs ! 2)) \<in> set ?cs" using nth_mem [of 2 ?cs] by simp
  from rollback_crash_consistent [OF flight_rollback_run flight_chain _ _ _ _ this] show ?thesis
    by (simp add: demo_names no_nul_paths_def)
qed

theorem crash_then_rollback_restores_witness:
  "\<exists>t' w'. rollback_transaction demo_env (fst (small_crashes ! 3))
        (restart (snd (small_crashes ! 3)) fmempty 0) =
      (Inr \<lparr>ro_result = FullyRolledBack, ro_transaction = t'\<rparr>, t', w') \<and> w_fs w' = demo_fs"
  using crash_then_rollback_restores
    [OF small_pass_run _ _ small_fresh _ small_crash_3, of demo_env fmempty 0] small_no_nul
  by (simp add: demo_names)

section \<open>Refusals and failures\<close>

text \<open>The same batch against a file system where the destination is taken.\<close>

definition taken_fs :: fs where
  "taken_fs = fmupd (rom ''x.bin'') (file_node 99 99) demo_fs"

lemma taken_unsafe:
  "run_preflight taken_fs small_entry (options_of (demo_exec mode) small_tx) =
     Inl [DestinationAlreadyExists]"
  by code_simp

lemma taken_refused:
  "apply_transaction demo_env (demo_exec AbortAll) small_tx (restart taken_fs fmempty 0) =
     (Inl (HardConflicts [(rom ''a.bin'', [preflight_reason DestinationAlreadyExists])]),
      small_tx\<lparr>tx_entries := [small_entry\<lparr>te_preflight_failures := [preflight_reason DestinationAlreadyExists],
        te_preflight_passed := False\<rparr>]\<rparr>,
      restart taken_fs fmempty 2)"
  by (simp add: apply_transaction_def validate_classifier_version_def read_cancel_def demo_eval
      preflight_entry_def taken_unsafe restart_def Let_def)

theorem refusal_has_no_effect_witness:
  "w_hist (restart taken_fs fmempty 2) = w_hist (restart taken_fs fmempty 0) \<and>
   w_disk (restart taken_fs fmempty 2) = w_disk (restart taken_fs fmempty 0)"
  by (rule refusal_has_no_effect [OF taken_refused]) simp

theorem abort_all_iff_unsafe_witness:
  "\<not> safe_to_rename taken_fs small_entry (options_of (demo_exec AbortAll) small_tx) \<and>
   (\<exists>cs t' w'. apply_transaction demo_env (demo_exec AbortAll) small_tx (restart taken_fs fmempty 0) =
      (Inl (HardConflicts cs), t', w') \<and> map fst cs = [rom ''a.bin''])"
proof -
  have u: "\<not> safe_to_rename taken_fs small_entry (options_of (demo_exec AbortAll) small_tx)"
    using run_preflight_iff [of taken_fs small_entry "options_of (demo_exec AbortAll) small_tx"]
    by (simp add: taken_unsafe)
  then show ?thesis
    using abort_all_iff_unsafe [of small_tx demo_env "restart taken_fs fmempty 0" "demo_exec AbortAll"]
    by (simp add: demo_steps)
qed

theorem apply_stops_at_failure_witness:
  "batch_order (map te_state (tx_entries (fst (snd small_pass))))"
  by (rule apply_stops_at_failure [OF small_pass_run]) simp

theorem reconcile_never_renames_witness:
  "\<exists>r t' w'. reconcile_recovery demo_env flight_tx (restart moved_fs fmempty 0) = (r, t', w') \<and>
    (w_hist w' = [] \<or> (\<exists>f. w_hist w' = [JournalWritten t' f]))"
proof -
  obtain r t' w' where run:
      "reconcile_recovery demo_env flight_tx (restart moved_fs fmempty 0) = (r, t', w')"
    by (metis prod_cases3)
  from reconcile_never_renames [OF run] run show ?thesis by simp
qed

text \<open>
  The first rollback is refused, because another process has taken the original name; the
  second one, with the file still at its new name, reports a full rollback.
\<close>

definition applied_tx :: rename_transaction where
  "applied_tx = small_tx\<lparr>tx_state := TsApplied, tx_entries := [small_entry\<lparr>te_state := EsApplied\<rparr>]\<rparr>"

definition occupied_fs :: fs where
  "occupied_fs = fmupd (rom ''a.bin'') (file_node 99 99) moved_fs"

definition refused_tx :: rename_transaction where
  "refused_tx = fst (snd (rollback_transaction demo_env applied_tx (restart occupied_fs fmempty 0)))"

lemma occupied_facts:
  "symlink_metadata occupied_fs (rom ''a.bin'') = Some (file_node 99 99)"
  "capture_identity occupied_fs (rom ''x.bin'') = Some (file_identity (file_node 10 7))"
  by (code_simp, code_simp)

lemma refused_tx_fields:
  "tx_state refused_tx = TsRollbackFailed" "map te_state (tx_entries refused_tx) = [EsRollbackFailed]"
  "tx_transaction_id refused_tx = ''9-0''"
  by (simp_all add: refused_tx_def applied_tx_def rollback_eval demo_eval occupied_facts no_progress_def
      remaining_incomplete_def rollback_result_of_def)

lemma refused_run:
  "\<exists>out t' w'. rollback_transaction demo_env applied_tx (restart occupied_fs fmempty 0) =
      (Inr out, t', w') \<and> t' = refused_tx"
  by (simp add: refused_tx_def applied_tx_def rollback_eval demo_eval occupied_facts no_progress_def
      remaining_incomplete_def rollback_result_of_def)


theorem rollback_retry_reports_full_witness:
  "\<exists>t' w' tj f g. rollback_transaction demo_env refused_tx (restart occupied_fs fmempty 0) =
      (Inr \<lparr>ro_result = FullyRolledBack, ro_transaction = t'\<rparr>, t', w') \<and>
    tx_state t' = TsRolledBack \<and> tx_entries t' = tx_entries refused_tx \<and>
    w_hist w' = w_hist (restart occupied_fs fmempty 0) @ [JournalWritten tj f, JournalWritten t' g]"
proof (rule rollback_retry_reports_full)
  have "set (map te_state (tx_entries refused_tx)) = {EsRollbackFailed}"
    by (simp add: refused_tx_fields(2))
  then have "te_state e = EsRollbackFailed" if "e \<in> set (tx_entries refused_tx)" for e
    using that by (metis imageI list.set_map singletonD)
  then show "\<forall>e \<in> set (tx_entries refused_tx). te_state e \<notin> {EsApplied, EsApplying, EsRollingBack}"
    by simp
qed (simp_all add: refused_tx_fields demo_names)

end
