(* ===== verification/Classification.thy ===== *)
theory Classification
  imports DatModel
begin

text \<open>
  Conservative content classification: \<open>dat/classification.rs\<close>. An entry is classified
  from structured fields (No-Intro only) or from the source's category and the entry's
  media token (TOSEC only), and stays \<open>Unknown\<close> otherwise.
\<close>

section \<open>Selection policy\<close>

fun policy_as_str :: "content_selection_policy \<Rightarrow> string" where
  "policy_as_str AllEntries = ''all_entries''"
| "policy_as_str GamesOnly = ''games_only''"

definition all_policies :: "content_selection_policy list" where
  "all_policies = [AllEntries, GamesOnly]"

definition parse_policy :: "string \<Rightarrow> content_selection_policy option" where
  "parse_policy value = find (\<lambda>p. policy_as_str p = to_ascii_lowercase value) all_policies"

fun policy_label :: "content_selection_policy \<Rightarrow> string" where
  "policy_label AllEntries = ''All entries''"
| "policy_label GamesOnly = ''Games only''"

definition eligibility ::
    "content_selection_policy \<Rightarrow> dat_content_classification \<Rightarrow> content_eligibility" where
  "eligibility policy c =
     (case policy of
        AllEntries \<Rightarrow> Selected
      | GamesOnly \<Rightarrow>
          (if cc_class c \<in> {Game, GameCompilation, RequiredMultidiscPart} \<and>
              cc_confidence c \<noteq> NoConfidence then Selected
           else if cc_class c = NonGame \<and> cc_confidence c \<noteq> NoConfidence then ExcludedNonGame
           else NeedsReview))"

section \<open>Summaries\<close>

record dat_content_summary =
  cs_total :: nat
  cs_games :: nat
  cs_game_compilations :: nat
  cs_required_multidisc_parts :: nat
  cs_non_game :: nat
  cs_unknown :: nat
  cs_selected :: nat
  cs_excluded_non_game :: nat
  cs_needs_review :: nat

definition empty_summary :: dat_content_summary where
  "empty_summary =
     \<lparr> cs_total = 0, cs_games = 0, cs_game_compilations = 0, cs_required_multidisc_parts = 0,
       cs_non_game = 0, cs_unknown = 0, cs_selected = 0, cs_excluded_non_game = 0,
       cs_needs_review = 0 \<rparr>"

definition count_class :: "dat_content_class \<Rightarrow> dat_content_summary \<Rightarrow> dat_content_summary" where
  "count_class k s =
     (case k of
        Game \<Rightarrow> s\<lparr>cs_games := cs_games s + 1\<rparr>
      | GameCompilation \<Rightarrow> s\<lparr>cs_game_compilations := cs_game_compilations s + 1\<rparr>
      | RequiredMultidiscPart \<Rightarrow> s\<lparr>cs_required_multidisc_parts := cs_required_multidisc_parts s + 1\<rparr>
      | NonGame \<Rightarrow> s\<lparr>cs_non_game := cs_non_game s + 1\<rparr>
      | UnknownContent \<Rightarrow> s\<lparr>cs_unknown := cs_unknown s + 1\<rparr>)"

definition count_eligibility :: "content_eligibility \<Rightarrow> dat_content_summary \<Rightarrow> dat_content_summary" where
  "count_eligibility e s =
     (case e of
        Selected \<Rightarrow> s\<lparr>cs_selected := cs_selected s + 1\<rparr>
      | ExcludedNonGame \<Rightarrow> s\<lparr>cs_excluded_non_game := cs_excluded_non_game s + 1\<rparr>
      | NeedsReview \<Rightarrow> s\<lparr>cs_needs_review := cs_needs_review s + 1\<rparr>)"

definition summarize :: "dat_game_entry list \<Rightarrow> content_selection_policy \<Rightarrow> dat_content_summary" where
  "summarize games policy =
     fold (\<lambda>g s. count_eligibility (eligibility policy (dg_content_classification g))
                   (count_class (cc_class (dg_content_classification g)) s))
       games (empty_summary\<lparr>cs_total := length games\<rparr>)"

section \<open>Rules\<close>

definition classification ::
    "dat_content_class \<Rightarrow> classifier_confidence \<Rightarrow> classification_evidence list \<Rightarrow>
     dat_content_classification" where
  "classification k confidence ev =
     \<lparr> cc_class = k, cc_confidence = confidence, cc_evidence = ev,
       cc_classifier_version = classifier_version \<rparr>"

definition evidence ::
    "classification_evidence_kind \<Rightarrow> string option \<Rightarrow> string option \<Rightarrow> string \<Rightarrow>
     classification_evidence" where
  "evidence kind field original_value rule =
     \<lparr> ce_kind = kind, ce_field = field, ce_original_value = original_value, ce_rule = rule \<rparr>"

definition non_game_categories :: "string list" where
  "non_game_categories =
     [''application'', ''applications'', ''bios'', ''coverdisc'', ''coverdiscs'', ''coverdisk'',
      ''coverdisks'', ''demo'', ''demos'', ''device driver'', ''device drivers'',
      ''documentation'', ''educational'', ''firmware'', ''magazine'', ''magazines'', ''manual'',
      ''manuals'', ''multimedia'', ''music'', ''operating system'', ''operating systems'',
      ''sampler'', ''samplers'', ''theme'', ''themes'', ''utilities'', ''utility'', ''video'']"

definition is_non_game_category :: "string \<Rightarrow> bool" where
  "is_non_game_category category \<longleftrightarrow> category \<in> set non_game_categories"

definition normalize_category :: "string \<Rightarrow> string" where
  "normalize_category raw =
     join_with '' ''
       (split_whitespace (replace_chars {CHR ''_'', slash} (CHR '' '') (to_ascii_lowercase (trim raw))))"

text \<open>The class a normalised category names, if any.\<close>

definition category_class :: "string \<Rightarrow> dat_content_class option" where
  "category_class normalized =
     (if normalized \<in> {''game'', ''games''} then Some Game
      else if normalized \<in> {''game compilation'', ''games compilation'', ''compilation games''}
      then Some GameCompilation
      else if is_non_game_category normalized then Some NonGame
      else None)"

fun classify_structured_keys ::
    "string list \<Rightarrow> dat_original_metadata \<Rightarrow> dat_content_classification option" where
  "classify_structured_keys [] metadata = None"
| "classify_structured_keys (key # keys) metadata =
     (case fmlookup metadata key of
        None \<Rightarrow> classify_structured_keys keys metadata
      | Some raw \<Rightarrow>
          (case category_class (normalize_category raw) of
             None \<Rightarrow> classify_structured_keys keys metadata
           | Some k \<Rightarrow>
               Some (classification k HighConfidence
                 [evidence StructuredEntryMetadata (Some key) (Some raw) ''structured.entry_category''])))"

definition classify_structured :: "dat_original_metadata \<Rightarrow> dat_content_classification option" where
  "classify_structured metadata =
     classify_structured_keys [''category'', ''type'', ''content_type''] metadata"

definition classify_tosec_source :: "string \<Rightarrow> (dat_content_class \<times> string) option" where
  "classify_tosec_source source_name =
     (let parts = map normalize_category (split_str '' - '' source_name);
          has_games = list_ex (\<lambda>part. part = ''game'' \<or> part = ''games'') parts;
          has_compilation = list_ex (\<lambda>part. part = ''compilation'' \<or> part = ''compilations'') parts
      in if has_games \<and> has_compilation then Some (GameCompilation, source_name)
         else if has_games then Some (Game, source_name)
         else if list_ex is_non_game_category parts then Some (NonGame, source_name)
         else None)"

text \<open>A media token: \<open>disc n of m\<close> with \<open>0 < n \<le> m\<close> and \<open>m > 1\<close>.\<close>

definition is_media_token :: "string \<Rightarrow> bool" where
  "is_media_token token =
     (case split_whitespace token of
        [w0, w1, w2, w3] \<Rightarrow>
          to_ascii_lowercase w0 \<in> {''disc'', ''disk'', ''part'', ''side''} \<and>
          eq_ignore_ascii_case w2 ''of'' \<and>
          (case (parse_u16 w1, parse_u16 w3) of
             (Some part, Some whole) \<Rightarrow> whole > 1 \<and> part > 0 \<and> part \<le> whole
           | _ \<Rightarrow> False)
      | _ \<Rightarrow> False)"

text \<open>The loop over the parenthesised groups of a name, from the right.\<close>

function strict_multidisc_token :: "string \<Rightarrow> string option" where
  "strict_multidisc_token rest =
     (case rsplit_once (CHR '')'') rest of
        None \<Rightarrow> None
      | Some (before_close, _) \<Rightarrow>
          (case rsplit_once (CHR ''('') before_close of
             None \<Rightarrow> None
           | Some (before_open, token) \<Rightarrow>
               (if is_media_token token then Some token
                else strict_multidisc_token before_open)))"
  by pat_completeness auto
termination
proof (relation "measure length")
  fix rest x before_close z y before_open token
  assume "rsplit_once (CHR '')'') rest = Some x" "(before_close, z) = x"
    "rsplit_once (CHR ''('') before_close = Some y" "(before_open, token) = y"
  then show "(before_open, rest) \<in> measure length"
    using rsplit_once_length [of "CHR '')''" rest before_close z]
      rsplit_once_length [of "CHR ''(''" before_close before_open token]
    by auto
qed simp

declare strict_multidisc_token.simps [simp del]

definition classify_entry ::
    "dat_ecosystem \<Rightarrow> string option \<Rightarrow> dat_game_entry \<Rightarrow> dat_content_classification" where
  "classify_entry ecosystem source_name game =
     (case (if ecosystem = NoIntro then classify_structured (dg_original_metadata game) else None) of
        Some c \<Rightarrow> c
      | None \<Rightarrow>
          (case (if ecosystem = Tosec then Option.bind source_name classify_tosec_source else None) of
             None \<Rightarrow> unknown_classification
           | Some (base_class, category) \<Rightarrow>
               (case (if base_class \<in> {Game, GameCompilation}
                      then strict_multidisc_token (dg_name game) else None) of
                  Some token \<Rightarrow>
                    classification RequiredMultidiscPart HighConfidence
                      [evidence CanonicalTosecSourceCategory (Some ''source.name'') (Some category)
                         ''tosec.source_category'',
                       evidence CanonicalTosecMediaToken (Some ''entry.name'') (Some token)
                         ''tosec.required_multidisc_token'']
                | None \<Rightarrow>
                    classification base_class HighConfidence
                      [evidence CanonicalTosecSourceCategory (Some ''source.name'') (Some category)
                         ''tosec.source_category''])))"

definition classify_catalogue :: "parsed_dat \<Rightarrow> parsed_dat" where
  "classify_catalogue dat =
     dat\<lparr>pd_games := map (\<lambda>game. game\<lparr>dg_content_classification :=
           classify_entry (ds_ecosystem (pd_source dat)) (ds_name (pd_source dat)) game\<rparr>) (pd_games dat)\<rparr>"

section \<open>What the classifier guarantees\<close>

text \<open>A verdict is confident exactly when it is not \<open>Unknown\<close>, and it carries evidence.\<close>

definition classification_wf :: "dat_content_classification \<Rightarrow> bool" where
  "classification_wf c \<longleftrightarrow>
     (cc_class c = UnknownContent \<longleftrightarrow> cc_confidence c = NoConfidence) \<and>
     cc_evidence c \<noteq> [] \<and> cc_classifier_version c = classifier_version"

lemma classification_high_wf:
  "k \<noteq> UnknownContent \<Longrightarrow> ev \<noteq> [] \<Longrightarrow> classification_wf (classification k HighConfidence ev)"
  by (simp add: classification_wf_def classification_def)

lemma unknown_wf: "classification_wf unknown_classification"
  by (simp add: classification_wf_def unknown_classification_def)

lemma classify_structured_keys_wf:
  "classify_structured_keys keys m = Some c \<Longrightarrow> classification_wf c"
  by (induction keys)
    (auto simp: category_class_def intro!: classification_high_wf split: option.splits if_splits)

lemma classify_structured_wf: "classify_structured m = Some c \<Longrightarrow> classification_wf c"
  unfolding classify_structured_def by (rule classify_structured_keys_wf)

lemma classify_tosec_source_class:
  "classify_tosec_source s = Some (k, category) \<Longrightarrow>
   k \<in> {Game, GameCompilation, NonGame} \<and> category = s"
  by (auto simp: classify_tosec_source_def Let_def split: if_splits)

lemma classify_entry_wf: "classification_wf (classify_entry ecosystem source_name game)"
proof (cases "if ecosystem = NoIntro then classify_structured (dg_original_metadata game) else None")
  case (Some c)
  then have "classify_entry ecosystem source_name game = c" by (simp add: classify_entry_def)
  then show ?thesis
    using Some classify_structured_wf by (simp split: if_splits)
next
  case s: None
  show ?thesis
  proof (cases "if ecosystem = Tosec then Option.bind source_name classify_tosec_source else None")
    case None
    then show ?thesis using s unknown_wf by (simp add: classify_entry_def)
  next
    case (Some kc)
    obtain k c where kc: "kc = (k, c)" by force
    then have "k \<noteq> UnknownContent"
      using Some classify_tosec_source_class by (fastforce simp: bind_eq_Some_conv split: if_splits)
    moreover have "\<exists>k' ev. classify_entry ecosystem source_name game = classification k' HighConfidence ev \<and>
        ev \<noteq> [] \<and> k' \<in> {k, RequiredMultidiscPart}"
      unfolding classify_entry_def s Some kc
      by (cases "if k \<in> {Game, GameCompilation} then strict_multidisc_token (dg_name game) else None") auto
    ultimately show ?thesis using classification_high_wf by fastforce
  qed
qed

text \<open>
  Classification is conservative. An entry is classified with confidence exactly when
  its class is not \<open>Unknown\<close>, never without evidence, and only for a No-Intro catalogue
  with a structured field or a TOSEC catalogue with a name; every other source stays
  \<open>Unknown\<close>, so under \<open>GamesOnly\<close> its entries need review.
\<close>

theorem classify_entry_conservative:
  "classification_wf (classify_entry ecosystem source_name game) \<and>
   (eligibility GamesOnly (classify_entry ecosystem source_name game) = NeedsReview \<longleftrightarrow>
      cc_class (classify_entry ecosystem source_name game) = UnknownContent) \<and>
   classify_entry GenericLogiqx source_name game = unknown_classification \<and>
   classify_entry Redump source_name game = unknown_classification \<and>
   classify_entry GenericClrMamePro source_name game = unknown_classification \<and>
   classify_entry Tosec None game = unknown_classification"
proof -
  let ?c = "classify_entry ecosystem source_name game"
  have wf: "classification_wf ?c" by (rule classify_entry_wf)
  have "eligibility GamesOnly ?c = NeedsReview \<longleftrightarrow> cc_class ?c = UnknownContent"
    using wf by (cases "cc_class ?c") (auto simp: eligibility_def classification_wf_def)
  with wf show ?thesis by (simp add: classify_entry_def)
qed

lemma summarize_fold:
  "let s' = fold (\<lambda>g s. count_eligibility (eligibility policy (dg_content_classification g))
                   (count_class (cc_class (dg_content_classification g)) s)) games s
   in cs_total s' = cs_total s \<and>
      cs_games s' + cs_game_compilations s' + cs_required_multidisc_parts s' + cs_non_game s' + cs_unknown s' =
        cs_games s + cs_game_compilations s + cs_required_multidisc_parts s + cs_non_game s + cs_unknown s
        + length games \<and>
      cs_selected s' + cs_excluded_non_game s' + cs_needs_review s' =
        cs_selected s + cs_excluded_non_game s + cs_needs_review s + length games"
proof (induction games arbitrary: s)
  case Nil
  then show ?case by simp
next
  case (Cons g games)
  let ?s1 = "count_eligibility (eligibility policy (dg_content_classification g))
      (count_class (cc_class (dg_content_classification g)) s)"
  have "cs_total ?s1 = cs_total s \<and>
      cs_games ?s1 + cs_game_compilations ?s1 + cs_required_multidisc_parts ?s1 + cs_non_game ?s1 + cs_unknown ?s1 =
        cs_games s + cs_game_compilations s + cs_required_multidisc_parts s + cs_non_game s + cs_unknown s + 1 \<and>
      cs_selected ?s1 + cs_excluded_non_game ?s1 + cs_needs_review ?s1 =
        cs_selected s + cs_excluded_non_game s + cs_needs_review s + 1"
    by (cases "cc_class (dg_content_classification g)";
        cases "eligibility policy (dg_content_classification g)")
      (simp_all add: count_class_def count_eligibility_def)
  with Cons.IH [of ?s1] show ?case by (simp add: Let_def)
qed

text \<open>
  The counts of a summary are orthogonal and complete: the five classes, and the three
  eligibilities, each add up to the number of catalogue entries, whatever the policy.
\<close>

theorem summary_counts_total:
  "cs_total (summarize games policy) = length games \<and>
   cs_games (summarize games policy) + cs_game_compilations (summarize games policy) +
     cs_required_multidisc_parts (summarize games policy) + cs_non_game (summarize games policy) +
     cs_unknown (summarize games policy) = length games \<and>
   cs_selected (summarize games policy) + cs_excluded_non_game (summarize games policy) +
     cs_needs_review (summarize games policy) = length games"
  using summarize_fold [of policy games "empty_summary\<lparr>cs_total := length games\<rparr>"]
  by (simp add: summarize_def empty_summary_def Let_def)

text \<open>
  A reported media token really is one complete parenthesised group of the name, with
  no parenthesis opening inside it, and has the form \<open>disc n of m\<close> with a valid count.
\<close>

theorem multidisc_token_delimited:
  assumes "strict_multidisc_token name = Some token"
  shows "is_media_token token \<and> CHR ''('' \<notin> set token \<and>
    (\<exists>a b. name = a @ ''('' @ token @ '')'' @ b)"
  using assms
proof (induction name rule: strict_multidisc_token.induct)
  case (1 rest)
  obtain before_close z where close: "rsplit_once (CHR '')'') rest = Some (before_close, z)"
    using "1.prems" by (subst (asm) strict_multidisc_token.simps) (auto split: option.splits)
  obtain before_open tok where "open": "rsplit_once (CHR ''('') before_close = Some (before_open, tok)"
    using "1.prems" close by (subst (asm) strict_multidisc_token.simps) (auto split: option.splits)
  have rest: "rest = before_open @ ''('' @ tok @ '')'' @ z" "CHR ''('' \<notin> set tok"
    using close "open" by (auto simp: rsplit_once_Some)
  show ?case
  proof (cases "is_media_token tok")
    case True
    then have "token = tok"
      using "1.prems" close "open" by (subst (asm) strict_multidisc_token.simps) simp
    then show ?thesis using True rest by blast
  next
    case False
    then have "strict_multidisc_token before_open = Some token"
      using "1.prems" close "open" by (subst (asm) strict_multidisc_token.simps) simp
    from "1.IH" [OF close refl "open" refl False this]
    obtain a b where ih: "is_media_token token" "CHR ''('' \<notin> set token"
        "before_open = a @ ''('' @ token @ '')'' @ b" by blast
    then have "rest = a @ ''('' @ token @ '')'' @ (b @ ''('' @ tok @ '')'' @ z)" using rest by simp
    then show ?thesis using ih by blast
  qed
qed

theorem multidisc_token_delimited_witness:
  "is_media_token ''Disk 1 of 2'' \<and> CHR ''('' \<notin> set ''Disk 1 of 2'' \<and>
   (\<exists>a b. ''Turrican II (1991)(Rainbow Arts)(Disk 1 of 2)[a]'' = a @ ''('' @ ''Disk 1 of 2'' @ '')'' @ b)"
proof (rule multidisc_token_delimited)
  let ?name = "''Turrican II (1991)(Rainbow Arts)(Disk 1 of 2)[a]''"
  let ?before = "''Turrican II (1991)(Rainbow Arts)''"
  have "rsplit_once (CHR '')'') ?name = Some (?before @ ''(Disk 1 of 2'', ''[a]'')" by code_simp
  moreover have "rsplit_once (CHR ''('') (?before @ ''(Disk 1 of 2'') = Some (?before, ''Disk 1 of 2'')"
    by code_simp
  moreover have "is_media_token ''Disk 1 of 2''"
  proof -
    have "split_whitespace ''Disk 1 of 2'' = [''Disk'', ''1'', ''of'', ''2'']"
      and "to_ascii_lowercase ''Disk'' = ''disk''" and "eq_ignore_ascii_case ''of'' ''of''"
      by (code_simp, code_simp, code_simp)
    moreover have "parse_u16 ''1'' = Some 1" and "parse_u16 ''2'' = Some 2"
      by (simp_all add: parse_u16_def parse_unsigned_def decimal_value_def digit_value_def is_ascii_digit_def)
    ultimately show ?thesis by (simp add: is_media_token_def)
  qed
  ultimately show "strict_multidisc_token ?name = Some ''Disk 1 of 2''"
    by (subst strict_multidisc_token.simps) simp
qed

lemma classify_entry_annotated:
  "classify_entry ecosystem source_name (g\<lparr>dg_content_classification := c\<rparr>) =
   classify_entry ecosystem source_name g"
proof -
  have "dg_name (g\<lparr>dg_content_classification := c\<rparr>) = dg_name g"
    and "dg_original_metadata (g\<lparr>dg_content_classification := c\<rparr>) = dg_original_metadata g"
    by simp_all
  then show ?thesis by (simp only: classify_entry_def)
qed

text \<open>
  Classifying a catalogue only annotates: the number and order of the entries and every
  other field of every entry stay as parsed, and classifying again changes nothing.
\<close>

theorem classify_catalogue_annotates:
  "map (\<lambda>g. g\<lparr>dg_content_classification := unknown_classification\<rparr>) (pd_games (classify_catalogue dat)) =
     map (\<lambda>g. g\<lparr>dg_content_classification := unknown_classification\<rparr>) (pd_games dat) \<and>
   pd_source (classify_catalogue dat) = pd_source dat \<and>
   classify_catalogue (classify_catalogue dat) = classify_catalogue dat"
  by (simp add: classify_catalogue_def classify_entry_annotated comp_def)

end
