(* ===== verification/RenameDerive.thy ===== *)
theory RenameDerive
  imports TxnPreflight Text
begin

text \<open>
  Canonical file names from catalogue names: \<open>dat/rename_plan/derive.rs\<close> (the build for
  platforms other than Windows). What is derived is always one safe path component, and it
  keeps the extension of the source.
\<close>

datatype extension_status = Preserved | Changed

record derived_name =
  dn_proposed_basename :: string
  dn_extension_status :: extension_status
  dn_sanitisation_notes :: "string list"

datatype derive_outcome = DeriveOk derived_name | DeriveBlocked string | DeriveUnsupported string

definition reject_unsafe_component :: "string \<Rightarrow> string \<Rightarrow> derive_outcome option" where
  "reject_unsafe_component trimmed source_label =
     (if trimmed = [] then Some (DeriveBlocked (''the '' @ source_label @ '' is empty''))
      else if trimmed = ''.'' \<or> trimmed = ''..''
      then Some (DeriveBlocked (''the '' @ source_label @ '' is a reserved path component ('' @
             [quote] @ ''.'' @ [quote] @ '' or '' @ [quote] @ ''..'' @ [quote] @ '')''))
      else if slash \<in> set trimmed \<or> backslash \<in> set trimmed \<or> nul \<in> set trimmed
      then Some (DeriveBlocked (''the '' @ source_label @ '' '' @ debug_str trimmed @
             '' contains a path separator; refusing to derive a name that could traverse or escape its directory''))
      else None)"

definition extension_of :: "string \<Rightarrow> string option" where
  "extension_of name =
     (case rsplit_once dot name of
        None \<Rightarrow> None
      | Some (stem, ext) \<Rightarrow> if stem = [] then None else Some (to_ascii_lowercase ext))"

definition is_invalid_on_current_filesystem :: "char \<Rightarrow> bool" where
  "is_invalid_on_current_filesystem ch = is_control ch"

definition sanitise_note :: "char \<Rightarrow> string" where
  "sanitise_note ch =
     ''replaced '' @ debug_char ch @ '' (not allowed in a filename on this filesystem) with '' @
     [quote] @ ''_'' @ [quote]"

fun sanitise_from :: "string \<Rightarrow> string list \<Rightarrow> string \<Rightarrow> string \<times> string list" where
  "sanitise_from out ns [] = (out, ns)"
| "sanitise_from out ns (ch # rest) =
     (if is_invalid_on_current_filesystem ch
      then sanitise_from (out @ ''_'')
             (if sanitise_note ch \<in> set ns then ns else ns @ [sanitise_note ch]) rest
      else sanitise_from (out @ [ch]) ns rest)"

definition sanitise :: "string \<Rightarrow> string \<times> string list" where
  "sanitise name = sanitise_from [] [] name"

definition unusable :: "string \<Rightarrow> bool" where
  "unusable s \<longleftrightarrow> s = [] \<or> s = ''.'' \<or> s = ''..''"

definition derive_proposed_basename :: "string \<Rightarrow> string \<Rightarrow> derive_outcome" where
  "derive_proposed_basename rom_name source_basename =
     (let trimmed = trim rom_name;
          named = (let (proposed, ns) = sanitise trimmed in
             if unusable proposed
             then DeriveBlocked ''sanitising the DAT entry name produced no usable name''
             else DeriveOk \<lparr> dn_proposed_basename = proposed, dn_extension_status = Preserved,
                            dn_sanitisation_notes = ns \<rparr>)
      in case reject_unsafe_component trimmed ''DAT entry name'' of
           Some rejected \<Rightarrow> rejected
         | None \<Rightarrow>
             (case (extension_of source_basename, extension_of trimmed) of
                (None, None) \<Rightarrow> named
              | (Some s, Some r) \<Rightarrow>
                  if s = r then named
                  else DeriveUnsupported (''the DAT entry names a different file kind ('' @ [quote] @ r @ [quote] @
                         '' vs the file'' @ [quote] @ ''s '' @ [quote] @ s @ [quote] @
                         ''); renaming a container or an archive member is not supported'')
              | (Some s, None) \<Rightarrow>
                  DeriveUnsupported (''the DAT entry names no extension while the file has '' @ [quote] @ s @ [quote] @
                    ''; refusing to strip the file'' @ [quote] @ ''s extension'')
              | (None, Some r) \<Rightarrow>
                  DeriveUnsupported (''the DAT entry names extension '' @ [quote] @ r @ [quote] @
                    '' while the file has none; refusing to add an extension the file does not have'')))"

definition derive_outer_archive_basename :: "string \<Rightarrow> string \<Rightarrow> derive_outcome" where
  "derive_outer_archive_basename set_name source_basename =
     (let trimmed = trim set_name; lower = to_ascii_lowercase trimmed
      in case reject_unsafe_component trimmed ''DAT set name'' of
           Some rejected \<Rightarrow> rejected
         | None \<Rightarrow>
             if ends_with lower ''.zip'' \<or> ends_with lower ''.7z'' \<or> ends_with lower ''.rar''
             then DeriveBlocked ''the DAT set name already ends in an archive extension; refusing to reinterpret it''
             else (case rsplit_once dot source_basename of
                     None \<Rightarrow> DeriveBlocked ''the source archive has no extension to preserve''
                   | Some (_, ext) \<Rightarrow>
                       if ext = [] then DeriveBlocked ''the source archive has no extension to preserve''
                       else (let (stem, ns) = sanitise trimmed in
                             if unusable stem
                             then DeriveBlocked ''sanitising the DAT set name produced no usable name''
                             else DeriveOk \<lparr> dn_proposed_basename = stem @ ''.'' @ ext,
                                            dn_extension_status = Preserved,
                                            dn_sanitisation_notes = ns \<rparr>)))"

section \<open>What sanitising does\<close>

definition clean_char :: "char \<Rightarrow> char" where
  "clean_char ch = (if is_control ch then CHR ''_'' else ch)"

lemma sanitise_from_out: "fst (sanitise_from out ns s) = out @ map clean_char s"
  by (induction s arbitrary: out ns)
     (simp_all add: is_invalid_on_current_filesystem_def clean_char_def)

lemma fst_sanitise [simp]: "fst (sanitise s) = map clean_char s"
  by (simp add: sanitise_def sanitise_from_out)

lemma clean_char_safe [simp]:
  "clean_char ch = slash \<longleftrightarrow> ch = slash" "clean_char ch = backslash \<longleftrightarrow> ch = backslash"
  "clean_char ch = dot \<longleftrightarrow> ch = dot" "clean_char ch \<noteq> nul"
  by (auto simp: clean_char_def is_control_def)

lemma clean_char_idem [simp]: "clean_char (clean_char ch) = clean_char ch"
  by (simp add: clean_char_def is_control_def)

lemma clean_no_control: "\<not> is_control (clean_char ch)"
  by (simp add: clean_char_def is_control_def)

lemma clean_char_lower: "clean_char (to_ascii_lower_char ch) = to_ascii_lower_char (clean_char ch)"
proof (cases "65 \<le> (of_char ch :: nat) \<and> (of_char ch :: nat) \<le> 90")
  case True
  then show ?thesis by (simp add: clean_char_def is_control_def to_ascii_lower_char_def Let_def)
next
  case False
  then have l: "to_ascii_lower_char ch = ch" by (auto simp: to_ascii_lower_char_def Let_def)
  have "to_ascii_lower_char (CHR ''_'') = CHR ''_''" by code_simp
  then show ?thesis using l by (simp add: clean_char_def)
qed

lemma reject_None: "reject_unsafe_component t label = None \<longleftrightarrow> is_safe_basename t"
  by (auto simp: reject_unsafe_component_def is_safe_basename_def)

lemma in_clean: "c \<in> set (map clean_char t) \<Longrightarrow> \<exists>d \<in> set t. clean_char d = c"
  by auto

lemma safe_clean: "is_safe_basename t \<Longrightarrow> is_safe_basename (map clean_char t)"
proof -
  assume t: "is_safe_basename t"
  have "map clean_char t \<noteq> ''.''" "map clean_char t \<noteq> ''..''"
    using t by (auto simp: is_safe_basename_def map_eq_Cons_conv)
  moreover have "slash \<notin> set (map clean_char t)" "backslash \<notin> set (map clean_char t)" "nul \<notin> set (map clean_char t)"
    using t by (auto simp: is_safe_basename_def)
       (metis clean_char_safe(1) clean_char_safe(2) clean_char_safe(4))+
  ultimately show ?thesis using t by (simp add: is_safe_basename_def)
qed

lemma extension_of_clean: "extension_of (map clean_char t) = map_option (map clean_char) (extension_of t)"
proof (cases "rsplit_once dot t")
  case None
  then have "dot \<notin> set (map clean_char t)" by (auto simp: rsplit_once_None) (metis clean_char_safe(3))
  then have "rsplit_once dot (map clean_char t) = None" by (simp add: rsplit_once_None)
  then show ?thesis using None by (simp add: extension_of_def)
next
  case (Some p)
  obtain a b where p: "p = (a, b)" by (cases p)
  then have t: "t = a @ dot # b" "dot \<notin> set b" using Some by (simp_all add: rsplit_once_Some)
  have "dot \<notin> set (map clean_char b)" using t(2) by auto (metis clean_char_safe(3))
  moreover have "map clean_char t = map clean_char a @ dot # map clean_char b"
    using t(1) by (simp add: clean_char_def is_control_def)
  ultimately have "rsplit_once dot (map clean_char t) = Some (map clean_char a, map clean_char b)"
    by (simp add: rsplit_once_Some)
  moreover have "to_ascii_lowercase (map clean_char b) = map clean_char (to_ascii_lowercase b)"
    by (simp add: to_ascii_lowercase_def clean_char_lower)
  ultimately show ?thesis using Some p by (simp add: extension_of_def)
qed

lemma derive_proposed_Ok:
  "derive_proposed_basename rom_name source_basename = DeriveOk d \<longleftrightarrow>
   is_safe_basename (trim rom_name) \<and> extension_of source_basename = extension_of (trim rom_name) \<and>
   d = \<lparr> dn_proposed_basename = map clean_char (trim rom_name), dn_extension_status = Preserved,
         dn_sanitisation_notes = snd (sanitise (trim rom_name)) \<rparr>"
proof -
  have usable: "is_safe_basename (trim rom_name) \<Longrightarrow> \<not> unusable (map clean_char (trim rom_name))"
    using safe_clean [of "trim rom_name"] by (simp add: unusable_def is_safe_basename_def)
  have fst: "fst (sanitise (trim rom_name)) = map clean_char (trim rom_name)" by simp
  show ?thesis
  proof (cases "is_safe_basename (trim rom_name)")
    case True
    then have "reject_unsafe_component (trim rom_name) ''DAT entry name'' = None" by (simp add: reject_None)
    then show ?thesis using True usable fst
      by (auto simp: derive_proposed_basename_def Let_def case_prod_beta split: option.splits)
  next
    case False
    then obtain r where "reject_unsafe_component (trim rom_name) ''DAT entry name'' = Some r"
      using reject_None [of "trim rom_name" "''DAT entry name''"] by auto
    moreover from this have "\<nexists>d. r = DeriveOk d" by (auto simp: reject_unsafe_component_def split: if_splits)
    ultimately show ?thesis using False by (auto simp: derive_proposed_basename_def)
  qed
qed

lemma derive_outer_Ok:
  "derive_outer_archive_basename set_name source_basename = DeriveOk d \<Longrightarrow>
   \<exists>a ext. is_safe_basename (trim set_name) \<and> rsplit_once dot source_basename = Some (a, ext) \<and> ext \<noteq> [] \<and>
     dn_proposed_basename d = map clean_char (trim set_name) @ ''.'' @ ext \<and> dn_extension_status d = Preserved"
proof -
  assume ok: "derive_outer_archive_basename set_name source_basename = DeriveOk d"
  have "is_safe_basename (trim set_name)"
  proof (rule ccontr)
    assume "\<not> is_safe_basename (trim set_name)"
    then obtain r where "reject_unsafe_component (trim set_name) ''DAT set name'' = Some r"
      using reject_None [of "trim set_name" "''DAT set name''"] by auto
    moreover from this have "\<nexists>d. r = DeriveOk d" by (auto simp: reject_unsafe_component_def split: if_splits)
    ultimately show False using ok by (auto simp: derive_outer_archive_basename_def)
  qed
  moreover from this have "reject_unsafe_component (trim set_name) ''DAT set name'' = None" by (simp add: reject_None)
  ultimately show ?thesis using ok fst_sanitise [of "trim set_name"]
    by (auto simp: derive_outer_archive_basename_def Let_def case_prod_beta simp del: fst_sanitise
        split: option.splits if_splits)
qed

lemma clean_char_fixed: "clean_char c = c \<longleftrightarrow> \<not> is_control c"
  by (auto simp: clean_char_def is_control_def)

lemma map_clean_fixed: "map clean_char s = s \<longleftrightarrow> list_all (\<lambda>c. \<not> is_control c) s"
  by (induction s) (simp_all add: clean_char_fixed)

definition no_control_extension :: "string \<Rightarrow> bool" where
  "no_control_extension name \<longleftrightarrow>
     (case extension_of name of None \<Rightarrow> True | Some e \<Rightarrow> list_all (\<lambda>c. \<not> is_control c) e)"

text \<open>
  A derived name is a safe file name without control characters whose extension is that
  of the source, cleaned; and deriving again for the renamed file gives the same name back -
  the plan of a renamed library proposes nothing more - exactly when the extension holds no
  control character.
\<close>

theorem derived_names_are_stable:
  assumes "derive_proposed_basename rom_name source_basename = DeriveOk d"
  shows "is_safe_basename (dn_proposed_basename d) \<and>
         list_all (\<lambda>c. \<not> is_control c) (dn_proposed_basename d) \<and>
         extension_of (dn_proposed_basename d) = map_option (map clean_char) (extension_of source_basename) \<and>
         (derive_proposed_basename rom_name (dn_proposed_basename d) = DeriveOk d \<longleftrightarrow>
          no_control_extension source_basename)"
proof -
  let ?t = "trim rom_name"
  have ok: "is_safe_basename ?t" "extension_of source_basename = extension_of ?t"
    and d: "dn_proposed_basename d = map clean_char ?t" "derive_proposed_basename rom_name ?t = DeriveOk d"
    using assms by (auto simp: derive_proposed_Ok)
  have ext: "extension_of (map clean_char ?t) = map_option (map clean_char) (extension_of ?t)"
    by (rule extension_of_clean)
  have "derive_proposed_basename rom_name (map clean_char ?t) = DeriveOk d \<longleftrightarrow>
      map_option (map clean_char) (extension_of ?t) = extension_of ?t"
    using d(2) ok(1) ext by (simp add: derive_proposed_Ok)
  also have "\<dots> \<longleftrightarrow> no_control_extension source_basename"
    using ok(2) by (cases "extension_of ?t") (simp_all add: no_control_extension_def map_clean_fixed)
  finally show ?thesis
    using d ok ext safe_clean clean_no_control by (simp add: list_all_iff)
qed

theorem derived_names_are_stable_witness:
  "derive_proposed_basename ''Game (USA).bin'' ''game.BIN'' =
     DeriveOk \<lparr> dn_proposed_basename = ''Game (USA).bin'', dn_extension_status = Preserved,
                dn_sanitisation_notes = [] \<rparr> \<and>
   derive_proposed_basename ''Game (USA).bin'' ''Game (USA).bin'' =
     DeriveOk \<lparr> dn_proposed_basename = ''Game (USA).bin'', dn_extension_status = Preserved,
                dn_sanitisation_notes = [] \<rparr>"
proof -
  have first: "derive_proposed_basename ''Game (USA).bin'' ''game.BIN'' =
     DeriveOk \<lparr> dn_proposed_basename = ''Game (USA).bin'', dn_extension_status = Preserved,
                dn_sanitisation_notes = [] \<rparr>" by code_simp
  moreover have "no_control_extension ''game.BIN''" by code_simp
  ultimately show ?thesis using derived_names_are_stable [OF first] by simp
qed

end
