(* ===== verification/Ordering.thy ===== *)
theory Ordering
  imports Prelude "HOL-Library.Multiset"
begin

text \<open>
  Comparators and sorting as the standard library has them: \<open>std::cmp::Ordering\<close>,
  \<open>then_with\<close>, the orders of integers, strings, lists and options, and the stable
  \<open>sort_by\<close>.

  \<open>sort_by\<close> asks for a total order of its comparator; the locale \<open>total_cmp\<close> is that
  contract, and under it the result is sorted, stable and a permutation, so it is the
  result of any stable sort. For a comparator that breaks the contract the library leaves
  the result unspecified and may panic; the model then gives one possible result.
\<close>

datatype cmp_ordering = Less | Equal | Greater

fun reverse_ordering :: "cmp_ordering \<Rightarrow> cmp_ordering" where
  "reverse_ordering Less = Greater"
| "reverse_ordering Equal = Equal"
| "reverse_ordering Greater = Less"

fun then_with :: "cmp_ordering \<Rightarrow> cmp_ordering \<Rightarrow> cmp_ordering" where
  "then_with Equal k = k"
| "then_with o1 k = o1"

definition cmp_nat :: "nat \<Rightarrow> nat \<Rightarrow> cmp_ordering" where
  "cmp_nat a b = (if a < b then Less else if a = b then Equal else Greater)"

definition cmp_char :: "char \<Rightarrow> char \<Rightarrow> cmp_ordering" where
  "cmp_char a b = cmp_nat (of_char a) (of_char b)"

fun cmp_list :: "('a \<Rightarrow> 'a \<Rightarrow> cmp_ordering) \<Rightarrow> 'a list \<Rightarrow> 'a list \<Rightarrow> cmp_ordering" where
  "cmp_list c [] [] = Equal"
| "cmp_list c [] (y # ys) = Less"
| "cmp_list c (x # xs) [] = Greater"
| "cmp_list c (x # xs) (y # ys) = then_with (c x y) (cmp_list c xs ys)"

definition cmp_string :: "string \<Rightarrow> string \<Rightarrow> cmp_ordering" where
  "cmp_string = cmp_list cmp_char"

definition cmp_path :: "path \<Rightarrow> path \<Rightarrow> cmp_ordering" where
  "cmp_path = cmp_list cmp_string"

fun cmp_option :: "('a \<Rightarrow> 'a \<Rightarrow> cmp_ordering) \<Rightarrow> 'a option \<Rightarrow> 'a option \<Rightarrow> cmp_ordering" where
  "cmp_option c None None = Equal"
| "cmp_option c None (Some y) = Less"
| "cmp_option c (Some x) None = Greater"
| "cmp_option c (Some x) (Some y) = c x y"

fun insert_by :: "('a \<Rightarrow> 'a \<Rightarrow> cmp_ordering) \<Rightarrow> 'a \<Rightarrow> 'a list \<Rightarrow> 'a list" where
  "insert_by c x [] = [x]"
| "insert_by c x (y # ys) = (if c x y = Greater then y # insert_by c x ys else x # y # ys)"

definition sort_by :: "('a \<Rightarrow> 'a \<Rightarrow> cmp_ordering) \<Rightarrow> 'a list \<Rightarrow> 'a list" where
  "sort_by c xs = foldr (insert_by c) xs []"

lemma mset_insert_by [simp]: "mset (insert_by c x xs) = add_mset x (mset xs)"
  by (induction xs) auto

lemma mset_sort_by [simp]: "mset (sort_by c xs) = mset xs"
  by (induction xs) (simp_all add: sort_by_def)

lemma set_sort_by [simp]: "set (sort_by c xs) = set xs"
  by (metis mset_sort_by set_mset_mset)

lemma length_sort_by [simp]: "length (sort_by c xs) = length xs"
  by (metis mset_sort_by size_mset)

text \<open>A symmetric relation between all pairs of a list survives sorting.\<close>

lemma pairwise_insert_by:
  "symp R \<Longrightarrow> sorted_wrt R xs \<Longrightarrow> (\<And>y. y \<in> set xs \<Longrightarrow> R x y) \<Longrightarrow> sorted_wrt R (insert_by c x xs)"
proof (induction xs)
  case (Cons y ys)
  have "set (insert_by c x ys) = insert x (set ys)"
    by (metis mset_insert_by set_mset_add_mset_insert set_mset_mset)
  moreover have "R y x" using Cons.prems(1,3) by (simp add: sympD)
  ultimately show ?case using Cons by auto
qed simp

lemma pairwise_sort_by: "symp R \<Longrightarrow> sorted_wrt R xs \<Longrightarrow> sorted_wrt R (sort_by c xs)"
proof (induction xs)
  case (Cons x xs)
  then have "sorted_wrt R (sort_by c xs)" "\<And>y. y \<in> set (sort_by c xs) \<Longrightarrow> R x y" by simp_all
  then show ?case using pairwise_insert_by [OF Cons.prems(1)] by (simp add: sort_by_def)
qed (simp add: sort_by_def)

lemma then_with_Equal [simp]: "then_with o1 Equal = o1"
  by (cases o1) simp_all

lemma then_with_eq_Equal [simp]: "then_with o1 k = Equal \<longleftrightarrow> o1 = Equal \<and> k = Equal"
  by (cases o1) simp_all

lemma then_with_assoc: "then_with (then_with a b) c = then_with a (then_with b c)"
  by (cases a) simp_all

lemma reverse_then_with: "reverse_ordering (then_with a b) = then_with (reverse_ordering a) (reverse_ordering b)"
  by (cases a) simp_all

lemma reverse_reverse [simp]: "reverse_ordering (reverse_ordering a) = a"
  by (cases a) simp_all

lemma reverse_eq [simp]:
  "reverse_ordering a = Less \<longleftrightarrow> a = Greater" "reverse_ordering a = Greater \<longleftrightarrow> a = Less"
  "reverse_ordering a = Equal \<longleftrightarrow> a = Equal"
  by (cases a; simp)+

section \<open>The contract of a comparator\<close>

locale total_cmp =
  fixes cmp :: "'a \<Rightarrow> 'a \<Rightarrow> cmp_ordering"
  assumes flip: "cmp y x = reverse_ordering (cmp x y)"
    and chain_le: "cmp x y \<noteq> Greater \<Longrightarrow> cmp y z \<noteq> Greater \<Longrightarrow> cmp x z \<noteq> Greater"
begin

lemma cmp_refl [simp]: "cmp x x = Equal"
  using flip [of x x] by (cases "cmp x x") simp_all

lemma cmp_swap: "cmp x y = Greater \<longleftrightarrow> cmp y x = Less"
  using flip [of y x] by simp

lemma equal_left: "cmp x y = Equal \<Longrightarrow> cmp x z = cmp y z"
proof -
  assume xy: "cmp x y = Equal"
  then have yx: "cmp y x = Equal" using flip [of y x] by simp
  have le: "cmp x z \<noteq> Greater \<longleftrightarrow> cmp y z \<noteq> Greater"
    using chain_le [of x y z] chain_le [of y x z] xy yx by auto
  have ge: "cmp z x \<noteq> Greater \<longleftrightarrow> cmp z y \<noteq> Greater"
    using chain_le [of z y x] chain_le [of z x y] xy yx by auto
  show ?thesis using le ge cmp_swap [of z x] cmp_swap [of z y]
    by (cases "cmp x z"; cases "cmp y z") auto
qed

abbreviation sorted_cmp :: "'a list \<Rightarrow> bool" where
  "sorted_cmp xs \<equiv> sorted_wrt (\<lambda>x y. cmp x y \<noteq> Greater) xs"

lemma sorted_insert_by: "sorted_cmp xs \<Longrightarrow> sorted_cmp (insert_by cmp x xs)"
proof (induction xs)
  case Nil
  then show ?case by simp
next
  case (Cons y ys)
  show ?case
  proof (cases "cmp x y = Greater")
    case True
    then have "cmp y x \<noteq> Greater" using cmp_swap [of x y] by simp
    moreover have "set (insert_by cmp x ys) = insert x (set ys)"
      by (metis mset_insert_by set_mset_add_mset_insert set_mset_mset)
    ultimately show ?thesis using Cons True by auto
  next
    case False
    have "cmp x z \<noteq> Greater" if "z \<in> set ys" for z
      using False Cons.prems that chain_le [of x y z] by simp
    then show ?thesis using False Cons.prems by simp
  qed
qed

lemma sorted_sort_by: "sorted_cmp (sort_by cmp xs)"
  unfolding sort_by_def by (induction xs) (simp_all add: sorted_insert_by)

lemma filter_insert_by:
  "sorted_cmp xs \<Longrightarrow>
   filter (\<lambda>y. cmp y z = Equal) (insert_by cmp x xs) = filter (\<lambda>y. cmp y z = Equal) (x # xs)"
proof (induction xs)
  case Nil
  then show ?case by simp
next
  case (Cons y ys)
  show ?case
  proof (cases "cmp x y = Greater")
    case True
    then have "\<not> (cmp x z = Equal \<and> cmp y z = Equal)"
      using equal_left [of x z y] flip [of z y] by auto
    then show ?thesis using True Cons by auto
  next
    case False
    then show ?thesis by simp
  qed
qed

text \<open>Stability: elements that compare equal keep their order.\<close>

lemma stable_sort_by:
  "filter (\<lambda>y. cmp y z = Equal) (sort_by cmp xs) = filter (\<lambda>y. cmp y z = Equal) xs"
proof (induction xs)
  case Nil
  then show ?case by (simp add: sort_by_def)
next
  case (Cons x xs)
  have "sort_by cmp (x # xs) = insert_by cmp x (sort_by cmp xs)" by (simp add: sort_by_def)
  then show ?case using filter_insert_by [OF sorted_sort_by] Cons by simp
qed

text \<open>When only equal elements compare equal, the sorted list is determined by the multiset.\<close>

lemma sorted_unique:
  assumes strict: "\<And>x y. x \<in> set xs \<Longrightarrow> y \<in> set xs \<Longrightarrow> cmp x y = Equal \<Longrightarrow> x = y"
    and "mset xs = mset ys" and "sorted_cmp xs" and "sorted_cmp ys"
  shows "xs = ys"
  using assms
proof (induction xs arbitrary: ys)
  case Nil
  then show ?case by simp
next
  case (Cons x xs)
  then obtain y ys' where ys: "ys = y # ys'" by (cases ys) auto
  have sets: "set (x # xs) = set (y # ys')" using Cons.prems(2) ys by (metis set_mset_mset)
  have "cmp x y \<noteq> Greater"
  proof (cases "y = x")
    case False
    then have "y \<in> set xs" using sets by auto
    then show ?thesis using Cons.prems(3) by simp
  qed simp
  moreover have "cmp y x \<noteq> Greater"
  proof (cases "y = x")
    case False
    then have "x \<in> set ys'" using sets by auto
    then show ?thesis using Cons.prems(4) ys by simp
  qed simp
  ultimately have "cmp x y = Equal" using flip [of y x] by (cases "cmp x y") auto
  then have "x = y" using Cons.prems(1) sets by (metis list.set_intros(1))
  moreover have "xs = ys'"
    by (rule Cons.IH) (use Cons.prems ys \<open>x = y\<close> in auto)
  ultimately show ?case using ys by simp
qed

lemma sort_by_input_order:
  assumes "\<And>x y. x \<in> set xs \<Longrightarrow> y \<in> set xs \<Longrightarrow> cmp x y = Equal \<Longrightarrow> x = y"
    and "mset xs = mset ys"
  shows "sort_by cmp xs = sort_by cmp ys"
  by (rule sorted_unique) (use assms sorted_sort_by in auto)

end

section \<open>The library's orders meet it\<close>

interpretation nats: total_cmp cmp_nat
  by unfold_locales (auto simp: cmp_nat_def split: if_splits)

interpretation chars: total_cmp cmp_char
  by unfold_locales (auto simp: cmp_char_def cmp_nat_def split: if_splits)

lemma cmp_list_flip:
  assumes "total_cmp c"
  shows "cmp_list c ys xs = reverse_ordering (cmp_list c xs ys)"
proof (induction xs arbitrary: ys)
  case Nil
  then show ?case by (cases ys) simp_all
next
  case (Cons x xs)
  then show ?case
    by (cases ys) (simp_all add: reverse_then_with total_cmp.flip [OF assms, of x])
qed

lemma cmp_list_trans:
  assumes "total_cmp c"
  shows "cmp_list c xs ys \<noteq> Greater \<Longrightarrow> cmp_list c ys zs \<noteq> Greater \<Longrightarrow> cmp_list c xs zs \<noteq> Greater"
proof (induction xs arbitrary: ys zs)
  case Nil
  then show ?case by (cases zs) auto
next
  case (Cons x xs)
  then obtain y ys' where ys: "ys = y # ys'" by (cases ys) auto
  then obtain z zs' where zs: "zs = z # zs'" using Cons.prems by (cases zs) auto
  have xy: "c x y \<noteq> Greater" "c x y = Equal \<Longrightarrow> cmp_list c xs ys' \<noteq> Greater"
    using Cons.prems(1) ys by (cases "c x y"; simp)+
  have yz: "c y z \<noteq> Greater" "c y z = Equal \<Longrightarrow> cmp_list c ys' zs' \<noteq> Greater"
    using Cons.prems(2) ys zs by (cases "c y z"; simp)+
  have xz: "c x z \<noteq> Greater" by (rule total_cmp.chain_le [OF assms xy(1) yz(1)])
  show ?case
  proof (cases "c x z")
    case Equal
    have "c z x = Equal" using total_cmp.flip [OF assms, of z x] Equal by simp
    then have "c y x \<noteq> Greater" "c z y \<noteq> Greater"
      using total_cmp.chain_le [OF assms yz(1), of x] total_cmp.chain_le [OF assms _ xy(1), of z] by auto
    then have "c x y = Equal" "c y z = Equal"
      using xy(1) yz(1) total_cmp.flip [OF assms, of y x] total_cmp.flip [OF assms, of z y]
      by (cases "c x y"; simp; cases "c y z"; simp)+
    then show ?thesis using Cons.IH [OF xy(2) yz(2)] Equal zs by simp
  qed (use xz zs in auto)
qed

lemma total_cmp_list: "total_cmp c \<Longrightarrow> total_cmp (cmp_list c)"
  by (rule total_cmp.intro) (erule cmp_list_flip, rule cmp_list_trans)

interpretation strings: total_cmp cmp_string
  unfolding cmp_string_def by (rule total_cmp_list) (rule chars.total_cmp_axioms)

interpretation paths: total_cmp cmp_path
  unfolding cmp_path_def by (rule total_cmp_list) (rule strings.total_cmp_axioms)

lemma total_cmp_option:
  assumes "total_cmp c"
  shows "total_cmp (cmp_option c)"
proof
  fix x y z :: "'a option"
  show "cmp_option c y x = reverse_ordering (cmp_option c x y)"
  proof (cases "x = None \<or> y = None")
    case True
    then show ?thesis by (cases x; cases y) simp_all
  next
    case False
    then obtain a b where "x = Some a" "y = Some b" by auto
    then show ?thesis using total_cmp.flip [OF assms, of b a] by simp
  qed
  assume "cmp_option c x y \<noteq> Greater" "cmp_option c y z \<noteq> Greater"
  then show "cmp_option c x z \<noteq> Greater"
    by (cases x; cases y; cases z) (auto dest: total_cmp.chain_le [OF assms])
qed

lemma total_cmp_then:
  assumes "total_cmp c" and "total_cmp d"
  shows "total_cmp (\<lambda>x y. then_with (c x y) (d x y))"
proof
  fix x y z
  show "then_with (c y x) (d y x) = reverse_ordering (then_with (c x y) (d x y))"
    using total_cmp.flip [OF assms(1), of y x] total_cmp.flip [OF assms(2), of y x]
    by (simp add: reverse_then_with)
  assume xy: "then_with (c x y) (d x y) \<noteq> Greater" and yz: "then_with (c y z) (d y z) \<noteq> Greater"
  have cxy: "c x y \<noteq> Greater" "c x y = Equal \<Longrightarrow> d x y \<noteq> Greater" using xy by (cases "c x y"; simp)+
  have cyz: "c y z \<noteq> Greater" "c y z = Equal \<Longrightarrow> d y z \<noteq> Greater" using yz by (cases "c y z"; simp)+
  have cxz: "c x z \<noteq> Greater" by (rule total_cmp.chain_le [OF assms(1) cxy(1) cyz(1)])
  show "then_with (c x z) (d x z) \<noteq> Greater"
  proof (cases "c x z")
    case Equal
    have "c z x = Equal" using total_cmp.flip [OF assms(1), of z x] Equal by simp
    then have "c y x \<noteq> Greater" "c z y \<noteq> Greater"
      using total_cmp.chain_le [OF assms(1) cyz(1), of x] total_cmp.chain_le [OF assms(1) _ cxy(1), of z] by auto
    then have "c x y = Equal" "c y z = Equal"
      using cxy(1) cyz(1) total_cmp.flip [OF assms(1), of y x] total_cmp.flip [OF assms(1), of z y]
      by (cases "c x y"; simp; cases "c y z"; simp)+
    then show ?thesis using total_cmp.chain_le [OF assms(2) cxy(2) cyz(2)] Equal by simp
  qed (use cxz in auto)
qed

lemma total_cmp_key: "total_cmp c \<Longrightarrow> total_cmp (\<lambda>x y. c (k x) (k y))"
  by (rule total_cmp.intro) (erule total_cmp.flip, rule total_cmp.chain_le)

lemma total_cmp_reverse: "total_cmp c \<Longrightarrow> total_cmp (\<lambda>x y. c y x)"
  by (rule total_cmp.intro) (erule total_cmp.flip, rule total_cmp.chain_le)

lemma cmp_list_Equal: "(\<And>x y. c x y = Equal \<longleftrightarrow> x = y) \<Longrightarrow> cmp_list c xs ys = Equal \<longleftrightarrow> xs = ys"
  by (induction c xs ys rule: cmp_list.induct) simp_all

lemma cmp_char_Equal [simp]: "cmp_char x y = Equal \<longleftrightarrow> x = y"
  by (simp add: cmp_char_def cmp_nat_def)

lemma cmp_string_Equal [simp]: "cmp_string x y = Equal \<longleftrightarrow> x = y"
  unfolding cmp_string_def by (rule cmp_list_Equal) simp

lemma cmp_path_Equal [simp]: "cmp_path x y = Equal \<longleftrightarrow> x = y"
  unfolding cmp_path_def by (rule cmp_list_Equal) simp

lemma cmp_option_Equal:
  "(\<And>x y. c x y = Equal \<longleftrightarrow> x = y) \<Longrightarrow> cmp_option c x y = Equal \<longleftrightarrow> x = y"
  by (cases x; cases y) simp_all

end
