(* ===== verification/Platforms.thy ===== *)
theory Platforms
  imports Text
begin

text \<open>
  The platform registry's lookups: \<open>platform/mod.rs\<close>, and the adapter
  \<open>canonical_platform_for_alias\<close> of \<open>lib.rs\<close>. The table \<open>PLATFORMS\<close> is data: every lookup
  takes the registry as an argument, and what the callers rely on (identifiers are
  distinct) is a hypothesis on it.
\<close>

record magic_rule =
  mr_offset :: nat
  mr_bytes :: "nat list"
  mr_description :: string

record layout_rule =
  lr_any_of_files :: "string list"
  lr_description :: string

record platform =
  pl_id :: string
  pl_display_name :: string
  pl_folder_aliases :: "string list"
  pl_filename_aliases :: "string list"
  pl_strong_extensions :: "string list"
  pl_weak_extensions :: "string list"
  pl_magic :: "magic_rule list"
  pl_layout :: "layout_rule list"
  pl_conflicts_with :: "string list"
  pl_preferred_emulator :: "string option"
  pl_explanation :: string

type_synonym registry = "platform list"

definition has_strong_extension :: "platform \<Rightarrow> string \<Rightarrow> bool" where
  "has_strong_extension p ext \<longleftrightarrow> ext \<in> set (pl_strong_extensions p)"

definition has_weak_extension :: "platform \<Rightarrow> string \<Rightarrow> bool" where
  "has_weak_extension p ext \<longleftrightarrow> ext \<in> set (pl_weak_extensions p)"

definition accepts_extension :: "platform \<Rightarrow> string \<Rightarrow> bool" where
  "accepts_extension p ext \<longleftrightarrow> has_strong_extension p ext \<or> has_weak_extension p ext"

definition can_be_confirmed_by_signature :: "platform \<Rightarrow> bool" where
  "can_be_confirmed_by_signature p \<longleftrightarrow> pl_magic p \<noteq> []"

text \<open>\<open>normalize_alias\<close>: ASCII letters and digits only, in lower case.\<close>

definition normalize_alias :: "string \<Rightarrow> string" where
  "normalize_alias value = map to_ascii_lower_char (filter is_ascii_alphanumeric value)"

definition platform_by_id :: "registry \<Rightarrow> string \<Rightarrow> platform option" where
  "platform_by_id ps i = find (\<lambda>p. pl_id p = i) ps"

definition platform_for_alias :: "registry \<Rightarrow> string \<Rightarrow> platform option" where
  "platform_for_alias ps hint =
     (let normalized = normalize_alias hint in
      if normalized = [] then None
      else (case filter (\<lambda>p. normalized \<in> set (pl_folder_aliases p)) ps of
              [p] \<Rightarrow> Some p
            | _ \<Rightarrow> None))"

definition platforms_with_strong_extension :: "registry \<Rightarrow> string \<Rightarrow> platform list" where
  "platforms_with_strong_extension ps ext = filter (\<lambda>p. has_strong_extension p ext) ps"

definition platforms_with_weak_extension :: "registry \<Rightarrow> string \<Rightarrow> platform list" where
  "platforms_with_weak_extension ps ext = filter (\<lambda>p. has_weak_extension p ext) ps"

definition display_name_for :: "registry \<Rightarrow> string \<Rightarrow> string" where
  "display_name_for ps i =
     (case platform_by_id ps i of None \<Rightarrow> i | Some p \<Rightarrow> pl_display_name p)"

definition canonical_platform_for_alias :: "registry \<Rightarrow> string \<Rightarrow> string option" where
  "canonical_platform_for_alias ps hint =
     map_option pl_id
       (case platform_by_id ps hint of None \<Rightarrow> platform_for_alias ps hint | Some p \<Rightarrow> Some p)"

section \<open>Lemmas\<close>

lemma platform_by_id_Some: "platform_by_id ps i = Some p \<Longrightarrow> p \<in> set ps \<and> pl_id p = i"
  by (auto simp: platform_by_id_def find_Some_iff)

lemma platform_for_alias_Some:
  "platform_for_alias ps hint = Some p \<longleftrightarrow>
   normalize_alias hint \<noteq> [] \<and> filter (\<lambda>q. normalize_alias hint \<in> set (pl_folder_aliases q)) ps = [p]"
  by (auto simp: platform_for_alias_def Let_def split: list.splits)

lemma platform_for_alias_mem: "platform_for_alias ps hint = Some p \<Longrightarrow> p \<in> set ps"
  by (metis filter_is_subset list.set_intros(1) platform_for_alias_Some subsetD)

lemma canonical_platform_known:
  "canonical_platform_for_alias ps hint = Some i \<Longrightarrow> \<exists>p \<in> set ps. pl_id p = i"
  by (auto simp: canonical_platform_for_alias_def split: option.splits
      dest: platform_by_id_Some platform_for_alias_mem)

text \<open>A canonical identifier resolves to itself, so canonicalising is idempotent.\<close>

lemma canonical_platform_of_id:
  assumes "p \<in> set ps"
  shows "canonical_platform_for_alias ps (pl_id p) = Some (pl_id p)"
proof -
  obtain q where "platform_by_id ps (pl_id p) = Some q"
    using assms by (cases "platform_by_id ps (pl_id p)") (auto simp: platform_by_id_def find_None_iff)
  then show ?thesis using platform_by_id_Some by (fastforce simp: canonical_platform_for_alias_def)
qed

lemma canonical_platform_idem:
  "canonical_platform_for_alias ps hint = Some i \<Longrightarrow> canonical_platform_for_alias ps i = Some i"
  using canonical_platform_known canonical_platform_of_id by metis

end
