(* ===== verification/PolicyModel.thy ===== *)
theory PolicyModel
  imports Ordering DatModel Platforms
begin

text \<open>
  The typed vocabulary of the DAT matching policy, \<open>dat/policy/model.rs\<close>, and the
  persisted policy document, \<open>dat/policy/config.rs\<close>. The document keeps raw strings; a
  table of keys this build does not define is a list of raw pairs, and the map of
  per-platform overrides is an association list in key order.
\<close>

definition max_policy_preference_len :: nat where
  "max_policy_preference_len = 16"

section \<open>Regions and languages\<close>

datatype region_id = Europe | Usa | Japan | World | OtherRegion

definition all_regions :: "region_id list" where
  "all_regions = [Europe, Usa, Japan, World, OtherRegion]"

primrec region_as_str :: "region_id \<Rightarrow> string" where
  "region_as_str Europe = ''europe''"
| "region_as_str Usa = ''usa''"
| "region_as_str Japan = ''japan''"
| "region_as_str World = ''world''"
| "region_as_str OtherRegion = ''other''"

primrec region_label :: "region_id \<Rightarrow> string" where
  "region_label Europe = ''Europe''"
| "region_label Usa = ''USA''"
| "region_label Japan = ''Japan''"
| "region_label World = ''World''"
| "region_label OtherRegion = ''Other''"

text \<open>The parsers all scan the listed values for one whose stored name is the given one in lower case.\<close>

definition parse_stored :: "('a \<Rightarrow> string) \<Rightarrow> 'a list \<Rightarrow> string \<Rightarrow> 'a option" where
  "parse_stored as_str all value = find (\<lambda>x. as_str x = to_ascii_lowercase value) all"

definition parse_region :: "string \<Rightarrow> region_id option" where
  "parse_region value = parse_stored region_as_str all_regions value"

datatype language_id =
  En | Ja | De | Fr | Es | It | Pt | Ru | Zh | Ko | Nl | Sv | No | Da | Fi | Pl | El | Tr | Cs | Hu
| Ar | He | Hi | Th | Id | Vi

definition all_languages :: "language_id list" where
  "all_languages = [En, Ja, De, Fr, Es, It, Pt, Ru, Zh, Ko, Nl, Sv, No, Da, Fi, Pl, El, Tr, Cs, Hu,
     Ar, He, Hi, Th, Id, Vi]"

primrec language_as_str :: "language_id \<Rightarrow> string" where
  "language_as_str En = ''en''" | "language_as_str Ja = ''ja''" | "language_as_str De = ''de''"
| "language_as_str Fr = ''fr''" | "language_as_str Es = ''es''" | "language_as_str It = ''it''"
| "language_as_str Pt = ''pt''" | "language_as_str Ru = ''ru''" | "language_as_str Zh = ''zh''"
| "language_as_str Ko = ''ko''" | "language_as_str Nl = ''nl''" | "language_as_str Sv = ''sv''"
| "language_as_str No = ''no''" | "language_as_str Da = ''da''" | "language_as_str Fi = ''fi''"
| "language_as_str Pl = ''pl''" | "language_as_str El = ''el''" | "language_as_str Tr = ''tr''"
| "language_as_str Cs = ''cs''" | "language_as_str Hu = ''hu''" | "language_as_str Ar = ''ar''"
| "language_as_str He = ''he''" | "language_as_str Hi = ''hi''" | "language_as_str Th = ''th''"
| "language_as_str Id = ''id''" | "language_as_str Vi = ''vi''"

primrec language_label :: "language_id \<Rightarrow> string" where
  "language_label En = ''English''" | "language_label Ja = ''Japanese''"
| "language_label De = ''German''" | "language_label Fr = ''French''"
| "language_label Es = ''Spanish''" | "language_label It = ''Italian''"
| "language_label Pt = ''Portuguese''" | "language_label Ru = ''Russian''"
| "language_label Zh = ''Chinese''" | "language_label Ko = ''Korean''"
| "language_label Nl = ''Dutch''" | "language_label Sv = ''Swedish''"
| "language_label No = ''Norwegian''" | "language_label Da = ''Danish''"
| "language_label Fi = ''Finnish''" | "language_label Pl = ''Polish''"
| "language_label El = ''Greek''" | "language_label Tr = ''Turkish''"
| "language_label Cs = ''Czech''" | "language_label Hu = ''Hungarian''"
| "language_label Ar = ''Arabic''" | "language_label He = ''Hebrew''"
| "language_label Hi = ''Hindi''" | "language_label Th = ''Thai''"
| "language_label Id = ''Indonesian''" | "language_label Vi = ''Vietnamese''"

definition parse_language :: "string \<Rightarrow> language_id option" where
  "parse_language value = parse_stored language_as_str all_languages value"

datatype language_preference = Language language_id | MultiLanguage | OriginalLanguage

fun preference_as_str :: "language_preference \<Rightarrow> string" where
  "preference_as_str (Language l) = language_as_str l"
| "preference_as_str MultiLanguage = ''multi''"
| "preference_as_str OriginalLanguage = ''original''"

fun preference_label :: "language_preference \<Rightarrow> string" where
  "preference_label (Language l) = language_label l"
| "preference_label MultiLanguage = ''Multi-language''"
| "preference_label OriginalLanguage = ''Original language''"

definition parse_preference :: "string \<Rightarrow> language_preference option" where
  "parse_preference value =
     (let v = to_ascii_lowercase value in
      if v = ''multi'' then Some MultiLanguage
      else if v = ''original'' then Some OriginalLanguage
      else map_option Language (parse_language value))"

section \<open>Revision and clone policies\<close>

datatype revision_policy = LatestVerified | EarliestVerified | PreferOriginal | AskWhenAmbiguous

definition all_revision_policies :: "revision_policy list" where
  "all_revision_policies = [LatestVerified, EarliestVerified, PreferOriginal, AskWhenAmbiguous]"

primrec revision_as_str :: "revision_policy \<Rightarrow> string" where
  "revision_as_str LatestVerified = ''latest_verified''"
| "revision_as_str EarliestVerified = ''earliest_verified''"
| "revision_as_str PreferOriginal = ''prefer_original''"
| "revision_as_str AskWhenAmbiguous = ''ask_when_ambiguous''"

primrec revision_label :: "revision_policy \<Rightarrow> string" where
  "revision_label LatestVerified = ''Latest verified revision''"
| "revision_label EarliestVerified = ''Earliest verified revision''"
| "revision_label PreferOriginal = ''Prefer original''"
| "revision_label AskWhenAmbiguous = ''Ask when ambiguous''"

definition parse_revision_policy :: "string \<Rightarrow> revision_policy option" where
  "parse_revision_policy value = parse_stored revision_as_str all_revision_policies value"

datatype clone_policy = PreferParent | PreferClone | KeepAllVariants | RequireExplicitChoice

definition all_clone_policies :: "clone_policy list" where
  "all_clone_policies = [PreferParent, PreferClone, KeepAllVariants, RequireExplicitChoice]"

primrec clone_as_str :: "clone_policy \<Rightarrow> string" where
  "clone_as_str PreferParent = ''prefer_parent''"
| "clone_as_str PreferClone = ''prefer_clone''"
| "clone_as_str KeepAllVariants = ''keep_all_variants''"
| "clone_as_str RequireExplicitChoice = ''require_explicit_choice''"

primrec clone_label :: "clone_policy \<Rightarrow> string" where
  "clone_label PreferParent = ''Prefer parent''"
| "clone_label PreferClone = ''Prefer clone when its region/language fits''"
| "clone_label KeepAllVariants = ''Keep all variants''"
| "clone_label RequireExplicitChoice = ''Require explicit choice when ambiguous''"

definition parse_clone_policy :: "string \<Rightarrow> clone_policy option" where
  "parse_clone_policy value = parse_stored clone_as_str all_clone_policies value"

datatype policy_field = ContentField | RegionField | LanguageField | RevisionField | CloneField

primrec policy_field_label :: "policy_field \<Rightarrow> string" where
  "policy_field_label ContentField = ''content selection''"
| "policy_field_label RegionField = ''region preference''"
| "policy_field_label LanguageField = ''language preference''"
| "policy_field_label RevisionField = ''revision policy''"
| "policy_field_label CloneField = ''clone policy''"

datatype policy_scope = GlobalScope | PlatformOverride

fun policy_scope_label :: "policy_scope \<Rightarrow> string" where
  "policy_scope_label GlobalScope = ''Global''"
| "policy_scope_label PlatformOverride = ''Platform override''"

section \<open>The policy document\<close>

record dat_platform_policy_config =
  pp_content_selection :: "string option"
  pp_region_preferences :: "string list option"
  pp_language_preferences :: "string list option"
  pp_revision_policy :: "string option"
  pp_clone_policy :: "string option"
  pp_unknown_fields :: "(string \<times> string) list"

record dat_policy_config =
  pc_content_selection :: "string option"
  pc_region_preferences :: "string list option"
  pc_language_preferences :: "string list option"
  pc_revision_policy :: "string option"
  pc_clone_policy :: "string option"
  pc_platforms :: "(string \<times> dat_platform_policy_config) list option"
  pc_unknown_fields :: "(string \<times> string) list"

definition default_dat_policy :: dat_policy_config where
  "default_dat_policy =
     \<lparr> pc_content_selection = None, pc_region_preferences = None, pc_language_preferences = None,
       pc_revision_policy = None, pc_clone_policy = None, pc_platforms = None,
       pc_unknown_fields = [] \<rparr>"

section \<open>Stored names round trip\<close>

lemma parse_stored_all:
  assumes "distinct (map as_str all)" and "list_all (\<lambda>x. to_ascii_lowercase (as_str x) = as_str x) all"
    and "x \<in> set all"
  shows "parse_stored as_str all (as_str x) = Some x"
  using assms
proof (induction all)
  case Nil
  then show ?case by simp
next
  case (Cons y ys)
  then show ?case by (auto simp: parse_stored_def list_all_iff)
qed

text \<open>Parsing folds case, so two spellings of one stored value parse alike.\<close>

lemma parse_stored_lowercase:
  "parse_stored as_str all (to_ascii_lowercase value) = parse_stored as_str all value"
  by (simp add: parse_stored_def)

lemma region_round_trip: "parse_region (region_as_str r) = Some r"
  unfolding parse_region_def
proof (rule parse_stored_all)
  show "distinct (map region_as_str all_regions)" by code_simp
  show "list_all (\<lambda>x. to_ascii_lowercase (region_as_str x) = region_as_str x) all_regions" by code_simp
  show "r \<in> set all_regions" by (cases r) (simp_all add: all_regions_def)
qed

lemma language_round_trip: "parse_language (language_as_str l) = Some l"
  unfolding parse_language_def
proof (rule parse_stored_all)
  show "distinct (map language_as_str all_languages)" by code_simp
  show "list_all (\<lambda>x. to_ascii_lowercase (language_as_str x) = language_as_str x) all_languages"
    by code_simp
  show "l \<in> set all_languages" by (cases l) (simp_all add: all_languages_def)
qed

lemma revision_round_trip: "parse_revision_policy (revision_as_str r) = Some r"
  unfolding parse_revision_policy_def
proof (rule parse_stored_all)
  show "distinct (map revision_as_str all_revision_policies)" by code_simp
  show "list_all (\<lambda>x. to_ascii_lowercase (revision_as_str x) = revision_as_str x) all_revision_policies"
    by code_simp
  show "r \<in> set all_revision_policies" by (cases r) (simp_all add: all_revision_policies_def)
qed

lemma clone_round_trip: "parse_clone_policy (clone_as_str c) = Some c"
  unfolding parse_clone_policy_def
proof (rule parse_stored_all)
  show "distinct (map clone_as_str all_clone_policies)" by code_simp
  show "list_all (\<lambda>x. to_ascii_lowercase (clone_as_str x) = clone_as_str x) all_clone_policies"
    by code_simp
  show "c \<in> set all_clone_policies" by (cases c) (simp_all add: all_clone_policies_def)
qed

lemma language_not_special: "length (language_as_str l) = 2"
  by (cases l) simp_all

lemma language_lowercase: "to_ascii_lowercase (language_as_str l) = language_as_str l"
proof -
  have "list_all (\<lambda>x. to_ascii_lowercase (language_as_str x) = language_as_str x) all_languages"
    by code_simp
  moreover have "l \<in> set all_languages" by (cases l) (simp_all add: all_languages_def)
  ultimately show ?thesis by (simp add: list_all_iff)
qed

lemma preference_round_trip: "parse_preference (preference_as_str p) = Some p"
proof (cases p)
  case (Language l)
  have "language_as_str l \<noteq> ''multi''" and "language_as_str l \<noteq> ''original''"
    using language_not_special [of l] by auto
  then show ?thesis
    by (simp add: Language parse_preference_def Let_def language_lowercase language_round_trip)
next
  case MultiLanguage
  have "parse_preference ''multi'' = Some MultiLanguage" by code_simp
  then show ?thesis by (simp add: MultiLanguage)
next
  case OriginalLanguage
  have "parse_preference ''original'' = Some OriginalLanguage" by code_simp
  then show ?thesis by (simp add: OriginalLanguage)
qed

end
