(* ===== verification/PolicyTags.thy ===== *)
theory PolicyTags
  imports PolicyModel
begin

text \<open>
  Region, language and revision markers of catalogue entry names: \<open>dat/policy/tags.rs\<close>.
  The groups, tokens and scans are the source's, character by character.
\<close>

section \<open>Groups and tokens\<close>

text \<open>
  The \<open>( ... )\<close> groups, outermost parentheses stripped: \<open>w\<close> is the text of the group being
  read, in reverse.
\<close>

fun groups_from :: "nat \<Rightarrow> string \<Rightarrow> string \<Rightarrow> string list" where
  "groups_from depth w [] = []"
| "groups_from depth w (c # cs) =
     (if c = CHR ''('' then (if depth = 0 then groups_from 1 [] cs else groups_from (Suc depth) (c # w) cs)
      else if c = CHR '')'' \<and> depth > 0
        then (if depth = 1 then rev w # groups_from 0 [] cs else groups_from (depth - 1) (c # w) cs)
      else groups_from depth (c # w) cs)"

definition parenthesised_groups :: "string \<Rightarrow> string list" where
  "parenthesised_groups name = groups_from 0 [] name"

definition normalize_token :: "string \<Rightarrow> string" where
  "normalize_token token = map to_ascii_lower_char (filter is_ascii_alphanumeric token)"

definition parenthesised_tokens :: "string \<Rightarrow> string list" where
  "parenthesised_tokens name =
     filter (\<lambda>t. t \<noteq> [])
       (concat (map (\<lambda>g. map normalize_token (split_on (CHR '','') g)) (parenthesised_groups name)))"

section \<open>Regions\<close>

definition canonical_region_words :: "(string \<times> region_id) list" where
  "canonical_region_words =
     [(''world'', World), (''usa'', Usa), (''us'', Usa), (''japan'', Japan), (''jp'', Japan),
      (''europe'', Europe), (''eu'', Europe)]"

definition other_region_words :: "string list" where
  "other_region_words =
     [''asia'', ''australia'', ''aus'', ''brazil'', ''br'', ''canada'', ''china'', ''cn'', ''korea'',
      ''kr'', ''russia'', ''ru'', ''germany'', ''ger'', ''france'', ''fra'', ''spain'', ''esp'',
      ''italy'', ''ita'', ''netherlands'', ''holland'', ''sweden'', ''swe'', ''finland'', ''fin'',
      ''norway'', ''nor'', ''denmark'', ''den'', ''poland'', ''pol'', ''uk'', ''united-kingdom'',
      ''england'', ''mexico'', ''argentina'', ''india'', ''hong-kong'', ''taiwan'']"

definition region_from_word :: "string \<Rightarrow> region_id option" where
  "region_from_word word =
     (case find (\<lambda>(candidate, r). candidate = word) canonical_region_words of
        Some (candidate, r) \<Rightarrow> Some r
      | None \<Rightarrow> if word \<in> set other_region_words then Some OtherRegion else None)"

text \<open>The scan of \<open>regions_of_name\<close> and its siblings: parsed values in order, first occurrences only.\<close>

definition collect_new :: "('b \<Rightarrow> 'a option) \<Rightarrow> 'b list \<Rightarrow> 'a list" where
  "collect_new f ts =
     foldl (\<lambda>found t. case f t of
                        None \<Rightarrow> found
                      | Some r \<Rightarrow> if r \<in> set found then found else found @ [r]) [] ts"

definition regions_of_name :: "string \<Rightarrow> region_id list" where
  "regions_of_name name = collect_new region_from_word (parenthesised_tokens name)"

definition languages_of_name :: "string \<Rightarrow> language_id list" where
  "languages_of_name name = collect_new parse_language (parenthesised_tokens name)"

section \<open>Revisions\<close>

definition revision_of_token :: "string \<Rightarrow> nat option" where
  "revision_of_token token =
     (case strip_prefix ''rev'' token of
        None \<Rightarrow> None
      | Some raw \<Rightarrow>
          (let rest = trim raw in
           case parse_u32 rest of
             Some number \<Rightarrow> Some number
           | None \<Rightarrow>
               (case rest of
                  [letter] \<Rightarrow>
                    if is_ascii_alphabetic letter
                    then Some (of_char (if (of_char letter :: nat) \<ge> 97
                                        then char_of ((of_char letter :: nat) - 32) else letter) - 65 + 1)
                    else None
                | _ \<Rightarrow> None)))"

fun first_revision :: "string list \<Rightarrow> nat \<times> bool" where
  "first_revision [] = (0, False)"
| "first_revision (t # ts) =
     (case revision_of_token t of Some number \<Rightarrow> (number, True) | None \<Rightarrow> first_revision ts)"

definition revision_of_name :: "string \<Rightarrow> nat \<times> bool" where
  "revision_of_name name = first_revision (parenthesised_tokens name)"

section \<open>Lemmas\<close>

lemma collect_new_snoc:
  "collect_new f (ts @ [t]) =
     (case f t of None \<Rightarrow> collect_new f ts
      | Some r \<Rightarrow> if r \<in> set (collect_new f ts) then collect_new f ts else collect_new f ts @ [r])"
  unfolding collect_new_def by simp

lemma distinct_collect_new [simp]: "distinct (collect_new f ts)"
  by (induction ts rule: rev_induct)
     (simp_all add: collect_new_def [of f "[]"] collect_new_snoc split: option.splits)

lemma set_collect_new: "set (collect_new f ts) = {r. \<exists>t \<in> set ts. f t = Some r}"
proof (induction ts rule: rev_induct)
  case Nil
  then show ?case by (simp add: collect_new_def)
next
  case (snoc t ts)
  then show ?case by (auto simp: collect_new_snoc split: option.splits)
qed

lemma length_collect_new: "length (collect_new f ts) \<le> length ts"
  by (induction ts rule: rev_induct)
     (auto simp: collect_new_def [of f "[]"] collect_new_snoc split: option.splits)

lemma lower_alphanumeric: "is_ascii_alphanumeric c \<Longrightarrow> is_ascii_alphanumeric (to_ascii_lower_char c)"
  by (auto simp: is_ascii_alphanumeric_def is_ascii_alphabetic_def is_ascii_digit_def
      to_ascii_lower_char_def Let_def)

lemma normalize_token_chars: "c \<in> set (normalize_token t) \<Longrightarrow> is_ascii_alphanumeric c"
  by (auto simp: normalize_token_def lower_alphanumeric)

lemma token_chars:
  "t \<in> set (parenthesised_tokens name) \<Longrightarrow> c \<in> set t \<Longrightarrow> is_ascii_alphanumeric c"
  by (auto simp: parenthesised_tokens_def dest: normalize_token_chars)

lemma normalize_token_idem [simp]: "normalize_token (normalize_token t) = normalize_token t"
proof -
  have "filter is_ascii_alphanumeric (normalize_token t) = normalize_token t"
    by (simp add: filter_id_conv normalize_token_chars)
  then show ?thesis by (simp add: normalize_token_def [of "normalize_token t"]) (simp add: normalize_token_def)
qed

text \<open>A token is only letters and digits, so a table word with a hyphen is never met.\<close>

lemma hyphen_not_alphanumeric [simp]: "\<not> is_ascii_alphanumeric (CHR ''-'')"
  by code_simp

lemma hyphenated_word_unreachable:
  assumes "CHR ''-'' \<in> set word"
  shows "word \<notin> set (parenthesised_tokens name)"
  using assms token_chars hyphen_not_alphanumeric by metis

text \<open>
  A token that names a language code is never a spelled-out region: no word of the
  region tables that is longer than two letters parses as a language; and the words
  \<open>united-kingdom\<close> and \<open>hong-kong\<close> of the region table can never be the token of any name,
  because tokens carry letters and digits only.
\<close>

theorem tag_tables:
  "(\<forall>name. ''united-kingdom'' \<notin> set (parenthesised_tokens name) \<and> ''hong-kong'' \<notin> set (parenthesised_tokens name))
   \<and> filter (\<lambda>w. parse_language w \<noteq> None) (map fst canonical_region_words @ other_region_words) = [''ru'']"
proof (intro conjI allI)
  fix name
  show "''united-kingdom'' \<notin> set (parenthesised_tokens name)"
    by (rule hyphenated_word_unreachable) simp
  show "''hong-kong'' \<notin> set (parenthesised_tokens name)"
    by (rule hyphenated_word_unreachable) simp
qed code_simp

text \<open>Names on which the code and its documentation differ.\<close>

lemma united_kingdom_has_no_region: "regions_of_name ''Elite (United Kingdom)'' = []"
  by code_simp

lemma hyphenated_languages_are_lost:
  "languages_of_name ''Game (EN-FR)'' = [] \<and> languages_of_name ''Game (En,Fr)'' = [En, Fr]"
  by code_simp

lemma russian_is_also_a_region:
  "languages_of_name ''Game (Ru)'' = [Ru] \<and> regions_of_name ''Game (Ru)'' = [OtherRegion]"
  by code_simp

lemma dotted_revision: "revision_of_name ''Game (Rev 1.1)'' = (11, True)"
proof -
  have "parenthesised_tokens ''Game (Rev 1.1)'' = [''rev11'']"
    and "strip_prefix ''rev'' ''rev11'' = Some ''11''" and "trim ''11'' = ''11''"
    by (code_simp, code_simp, code_simp)
  moreover have "parse_u32 ''11'' = Some 11"
    by (simp add: parse_u32_def parse_unsigned_def decimal_value_def digit_value_def is_ascii_digit_def)
  ultimately show ?thesis by (simp add: revision_of_name_def revision_of_token_def)
qed

end
