(* ===== verification/PolicyRank.thy ===== *)
theory PolicyRank
  imports PolicyTags Classification
begin

text \<open>
  Verified candidates, the effective policy and the ranking:
  \<open>dat/policy/candidate.rs\<close> and \<open>dat/policy/evaluate.rs\<close>. \<open>sort_by\<close> is the stable sort of
  \<open>Ordering\<close>; whether the comparator meets the contract of a sort depends on the clone
  policy, and both answers are proved below.
\<close>

section \<open>Candidates\<close>

record dat_candidate =
  ca_source_id :: string
  ca_source_priority :: nat
  ca_game_name :: string
  ca_rom_name :: string
  ca_regions :: "region_id list"
  ca_languages :: "language_id list"
  ca_revision :: nat
  ca_has_revision_marker :: bool
  ca_parent_name :: "string option"

definition candidate_label :: "dat_candidate \<Rightarrow> string" where
  "candidate_label c =
     (if ca_rom_name c = ca_game_name c then ca_game_name c
      else ca_game_name c @ '' ('' @ ca_rom_name c @ '')'')"

definition is_clone :: "dat_candidate \<Rightarrow> bool" where
  "is_clone c \<longleftrightarrow> ca_parent_name c \<noteq> None"

definition is_parent_of :: "dat_candidate \<Rightarrow> dat_candidate \<Rightarrow> bool" where
  "is_parent_of c other \<longleftrightarrow> ca_parent_name other = Some (ca_game_name c)"

text \<open>The markers of the rom name are appended to those of the game name, first occurrences only.\<close>

definition append_new :: "'a list \<Rightarrow> 'a list \<Rightarrow> 'a list" where
  "append_new xs ys = foldl (\<lambda>acc y. if y \<in> set acc then acc else acc @ [y]) xs ys"

definition candidate_for_rom :: "dat_game_entry \<Rightarrow> dat_rom_entry \<Rightarrow> string \<Rightarrow> nat \<Rightarrow> dat_candidate" where
  "candidate_for_rom game rom source_id source_priority =
     (let regions = append_new (regions_of_name (dg_name game)) (regions_of_name (dr_name rom));
          languages = append_new (languages_of_name (dg_name game)) (languages_of_name (dr_name rom));
          (rom_revision, rom_marker) = revision_of_name (dr_name rom);
          (revision, marker) = (if rom_marker then (rom_revision, True) else revision_of_name (dg_name game))
      in \<lparr> ca_source_id = source_id, ca_source_priority = source_priority,
           ca_game_name = dg_name game, ca_rom_name = dr_name rom, ca_regions = regions,
           ca_languages = languages, ca_revision = revision, ca_has_revision_marker = marker,
           ca_parent_name = dg_clone_of game \<rparr>)"

section \<open>The effective policy\<close>

record participating_source =
  ps_id :: string
  ps_display_name :: string
  ps_priority :: nat

record effective_dat_policy =
  ep_platform :: "string option"
  ep_content_selection :: content_selection_policy
  ep_region_preferences :: "region_id list"
  ep_language_preferences :: "language_preference list"
  ep_revision_policy :: revision_policy
  ep_clone_policy :: clone_policy
  ep_source_ordering :: "participating_source list"
  ep_scope_of :: "(policy_field \<times> policy_scope) list"

definition or_default :: "'a \<Rightarrow> 'a option \<Rightarrow> 'a" where
  "or_default d v = (case v of None \<Rightarrow> d | Some x \<Rightarrow> x)"

definition parse_regions :: "string list \<Rightarrow> region_id list" where
  "parse_regions values = collect_new parse_region values"

definition parse_languages :: "string list \<Rightarrow> language_preference list" where
  "parse_languages values = collect_new parse_preference values"

definition scope_for ::
    "dat_platform_policy_config option \<Rightarrow> (dat_platform_policy_config \<Rightarrow> bool) \<Rightarrow> policy_scope" where
  "scope_for ov check = (case ov of Some o1 \<Rightarrow> if check o1 then PlatformOverride else GlobalScope | None \<Rightarrow> GlobalScope)"

definition resolve_policy ::
    "registry \<Rightarrow> dat_policy_config \<Rightarrow> string option \<Rightarrow> participating_source list \<Rightarrow> effective_dat_policy" where
  "resolve_policy platforms config platform participating =
     (let canonical = Option.bind platform
            (\<lambda>i. if canonical_platform_for_alias platforms i = Some i then Some i else None);
          ov = Option.bind canonical (\<lambda>i. Option.bind (pc_platforms config) (\<lambda>m. map_of m i));
          regions = (case Option.bind ov pp_region_preferences of
                       Some values \<Rightarrow> parse_regions values
                     | None \<Rightarrow> parse_regions (or_default [] (pc_region_preferences config)));
          content = (case Option.bind ov pp_content_selection of
                       Some v \<Rightarrow> or_default AllEntries (parse_policy v)
                     | None \<Rightarrow> or_default AllEntries (Option.bind (pc_content_selection config) parse_policy));
          languages = (case Option.bind ov pp_language_preferences of
                         Some values \<Rightarrow> parse_languages values
                       | None \<Rightarrow> parse_languages (or_default [] (pc_language_preferences config)));
          revision = (case Option.bind ov pp_revision_policy of
                        Some v \<Rightarrow> or_default AskWhenAmbiguous (parse_revision_policy v)
                      | None \<Rightarrow> or_default AskWhenAmbiguous (Option.bind (pc_revision_policy config) parse_revision_policy));
          clone = (case Option.bind ov pp_clone_policy of
                     Some v \<Rightarrow> or_default KeepAllVariants (parse_clone_policy v)
                   | None \<Rightarrow> or_default KeepAllVariants (Option.bind (pc_clone_policy config) parse_clone_policy))
      in \<lparr> ep_platform = canonical, ep_content_selection = content,
           ep_region_preferences = regions, ep_language_preferences = languages,
           ep_revision_policy = revision, ep_clone_policy = clone,
           ep_source_ordering = participating,
           ep_scope_of =
             [(ContentField, scope_for ov (\<lambda>o1. pp_content_selection o1 \<noteq> None)),
              (RegionField, scope_for ov (\<lambda>o1. pp_region_preferences o1 \<noteq> None)),
              (LanguageField, scope_for ov (\<lambda>o1. pp_language_preferences o1 \<noteq> None)),
              (RevisionField, scope_for ov (\<lambda>o1. pp_revision_policy o1 \<noteq> None)),
              (CloneField, scope_for ov (\<lambda>o1. pp_clone_policy o1 \<noteq> None))] \<rparr>)"

section \<open>The comparator\<close>

definition parent_vs_clone :: "dat_candidate \<Rightarrow> dat_candidate \<Rightarrow> cmp_ordering option" where
  "parent_vs_clone a b =
     (if is_parent_of a b then Some Less else if is_parent_of b a then Some Greater else None)"

fun position :: "('a \<Rightarrow> bool) \<Rightarrow> 'a list \<Rightarrow> nat option" where
  "position p [] = None"
| "position p (x # xs) = (if p x then Some 0 else map_option Suc (position p xs))"

definition best_region_position :: "region_id list \<Rightarrow> region_id list \<Rightarrow> nat option" where
  "best_region_position regions preferences = position (\<lambda>preferred. preferred \<in> set regions) preferences"

definition original_language_of :: "dat_candidate \<Rightarrow> language_id option" where
  "original_language_of c =
     (case ca_regions c of
        [] \<Rightarrow> None
      | primary # _ \<Rightarrow>
          (case primary of
             Usa \<Rightarrow> Some En | World \<Rightarrow> Some En | Europe \<Rightarrow> Some En
           | Japan \<Rightarrow> Some Ja | OtherRegion \<Rightarrow> None))"

fun language_preference_matches :: "language_preference \<Rightarrow> dat_candidate \<Rightarrow> bool" where
  "language_preference_matches (Language l) c = (l \<in> set (ca_languages c))"
| "language_preference_matches MultiLanguage c = (length (ca_languages c) > 1)"
| "language_preference_matches OriginalLanguage c =
     (case original_language_of c of None \<Rightarrow> False | Some original \<Rightarrow> original \<in> set (ca_languages c))"

definition best_language_position :: "dat_candidate \<Rightarrow> language_preference list \<Rightarrow> nat option" where
  "best_language_position c preferences = position (\<lambda>p. language_preference_matches p c) preferences"

definition compare_region ::
    "dat_candidate \<Rightarrow> dat_candidate \<Rightarrow> effective_dat_policy \<Rightarrow> (cmp_ordering \<times> string) option" where
  "compare_region a b policy =
     (let prefs = ep_region_preferences policy;
          matched = (\<lambda>i. ''preferred region matched ('' @ region_label (prefs ! i) @ '')'')
      in if prefs = [] then None
         else (case (best_region_position (ca_regions a) prefs, best_region_position (ca_regions b) prefs) of
                 (Some pa, Some pb) \<Rightarrow> if pa = pb then None else Some (cmp_nat pa pb, matched (min pa pb))
               | (Some pa, None) \<Rightarrow> Some (Less, matched pa)
               | (None, Some pb) \<Rightarrow> Some (Greater, matched pb)
               | (None, None) \<Rightarrow> None))"

definition compare_language ::
    "dat_candidate \<Rightarrow> dat_candidate \<Rightarrow> effective_dat_policy \<Rightarrow> (cmp_ordering \<times> string) option" where
  "compare_language a b policy =
     (let prefs = ep_language_preferences policy;
          matched = (\<lambda>i. ''preferred language matched ('' @ preference_label (prefs ! i) @ '')'')
      in if prefs = [] then None
         else (case (best_language_position a prefs, best_language_position b prefs) of
                 (Some pa, Some pb) \<Rightarrow> if pa = pb then None else Some (cmp_nat pa pb, matched (min pa pb))
               | (Some pa, None) \<Rightarrow> Some (Less, matched pa)
               | (None, Some pb) \<Rightarrow> Some (Greater, matched pb)
               | (None, None) \<Rightarrow> None))"

text \<open>\<open>bool::cmp\<close>: false is less than true.\<close>

definition cmp_bool :: "bool \<Rightarrow> bool \<Rightarrow> cmp_ordering" where
  "cmp_bool a b = cmp_nat (of_bool a) (of_bool b)"

definition compare_revision ::
    "dat_candidate \<Rightarrow> dat_candidate \<Rightarrow> effective_dat_policy \<Rightarrow> (cmp_ordering \<times> string) option" where
  "compare_revision a b policy =
     (case ep_revision_policy policy of
        AskWhenAmbiguous \<Rightarrow> None
      | LatestVerified \<Rightarrow>
          if ca_revision a \<noteq> ca_revision b
          then Some (cmp_nat (ca_revision b) (ca_revision a),
                     ''newer verified revision preferred (Rev '' @
                       nat_to_string (max (ca_revision a) (ca_revision b)) @ '')'')
          else if ca_has_revision_marker a \<noteq> ca_has_revision_marker b
          then Some (cmp_bool (ca_has_revision_marker b) (ca_has_revision_marker a),
                     ''newer verified revision preferred'')
          else None
      | EarliestVerified \<Rightarrow>
          if ca_revision a \<noteq> ca_revision b
          then Some (cmp_nat (ca_revision a) (ca_revision b),
                     ''earliest verified revision preferred (Rev '' @
                       nat_to_string (min (ca_revision a) (ca_revision b)) @ '')'')
          else None
      | PreferOriginal \<Rightarrow>
          (if \<not> ca_has_revision_marker a \<and> ca_has_revision_marker b
           then Some (Less, ''original (unrevised) revision preferred'')
           else if ca_has_revision_marker a \<and> \<not> ca_has_revision_marker b
           then Some (Greater, ''original (unrevised) revision preferred'')
           else None))"

text \<open>The steps of the comparator in order: the first that separates the pair decides.\<close>

definition compare_with_reason ::
    "dat_candidate \<Rightarrow> dat_candidate \<Rightarrow> effective_dat_policy \<Rightarrow> cmp_ordering \<times> string option" where
  "compare_with_reason a b policy =
     (if ca_source_priority a \<noteq> ca_source_priority b
      then (cmp_nat (ca_source_priority a) (ca_source_priority b),
            Some (''source priority '' @ nat_to_string (ca_source_priority a) @
                  '' outranked source priority '' @ nat_to_string (ca_source_priority b)))
      else (case (if ep_clone_policy policy = PreferParent then parent_vs_clone a b else None) of
        Some result \<Rightarrow> (result, Some ''parent preferred'')
      | None \<Rightarrow>
      (case compare_region a b policy of
        Some (result, reason) \<Rightarrow> (result, Some reason)
      | None \<Rightarrow>
      (case compare_language a b policy of
        Some (result, reason) \<Rightarrow> (result, Some reason)
      | None \<Rightarrow>
      (case compare_revision a b policy of
        Some (result, reason) \<Rightarrow> (result, Some reason)
      | None \<Rightarrow>
      (case (if ep_clone_policy policy = PreferClone then parent_vs_clone a b else None) of
        Some result \<Rightarrow> (result, Some ''parent preferred on a tie'')
      | None \<Rightarrow> (Equal, None)))))))"

definition compare_candidates :: "dat_candidate \<Rightarrow> dat_candidate \<Rightarrow> effective_dat_policy \<Rightarrow> cmp_ordering" where
  "compare_candidates a b policy = fst (compare_with_reason a b policy)"

section \<open>Ranking\<close>

record ranked_candidate =
  rc_candidate :: dat_candidate
  rc_position :: nat

record excluded_candidate =
  xc_candidate :: dat_candidate
  xc_reason :: string

record candidate_resolution =
  cr_entries :: "ranked_candidate list"
  cr_excluded :: "excluded_candidate list"
  cr_decided :: bool
  cr_winner_index :: "nat option"
  cr_ambiguous :: bool
  cr_ambiguity_reason :: "string option"
  cr_explanations :: "string list"
  cr_summary :: string

definition in_scope :: "effective_dat_policy \<Rightarrow> dat_candidate \<Rightarrow> bool" where
  "in_scope policy c \<longleftrightarrow> ca_source_id c \<in> ps_id ` set (ep_source_ordering policy)"

definition exclude :: "effective_dat_policy \<Rightarrow> dat_candidate \<Rightarrow> excluded_candidate" where
  "exclude policy c =
     \<lparr> xc_candidate = c,
       xc_reason = (case ep_platform policy of
          Some p \<Rightarrow> [quote] @ ca_source_id c @ [quote] @ '' does not participate in platform '' @
                     [quote] @ p @ [quote]
        | None \<Rightarrow> [quote] @ ca_source_id c @ [quote] @ '' is not a participating source'') \<rparr>"

text \<open>The comparator handed to the sort: the policy's, then the labels.\<close>

definition display_order :: "effective_dat_policy \<Rightarrow> dat_candidate \<Rightarrow> dat_candidate \<Rightarrow> cmp_ordering" where
  "display_order policy a b =
     then_with (compare_candidates a b policy) (cmp_string (candidate_label a) (candidate_label b))"

text \<open>The reasons that separate neighbours in the display order, each once.\<close>

definition explain_pairs ::
    "effective_dat_policy \<Rightarrow> (dat_candidate \<times> dat_candidate) list \<Rightarrow> string list" where
  "explain_pairs policy pairs =
     foldl (\<lambda>acc (a, b).
         case compare_with_reason a b policy of
           (result, Some reason) \<Rightarrow>
             if result \<noteq> Equal \<and> reason \<notin> set acc then acc @ [reason] else acc
         | (result, None) \<Rightarrow> acc) [] pairs"

definition decided_of :: "effective_dat_policy \<Rightarrow> dat_candidate list \<Rightarrow> bool" where
  "decided_of policy ordered =
     (case ordered of
        [] \<Rightarrow> False
      | [c] \<Rightarrow> True
      | best # others \<Rightarrow> list_all (\<lambda>other. compare_candidates best other policy = Less) others)"

definition ambiguity_reason_of :: "effective_dat_policy \<Rightarrow> dat_candidate list \<Rightarrow> string option" where
  "ambiguity_reason_of policy ordered =
     (if decided_of policy ordered \<or> length ordered \<le> 1 then None
      else if ep_clone_policy policy = RequireExplicitChoice \<and>
              list_ex (\<lambda>other. is_parent_of (hd ordered) other \<or> is_parent_of other (hd ordered)) (tl ordered)
      then Some ''a clone and its parent are tied and the policy requires an explicit choice''
      else Some (nat_to_string (length ordered) @
                 '' candidates are tied and the policy cannot decide between them''))"

definition rank_candidates :: "dat_candidate list \<Rightarrow> effective_dat_policy \<Rightarrow> candidate_resolution" where
  "rank_candidates candidates policy =
     (let ordered = sort_by (display_order policy) (filter (in_scope policy) candidates);
          decided = decided_of policy ordered;
          reason = ambiguity_reason_of policy ordered
      in \<lparr> cr_entries = map (\<lambda>(i, c). \<lparr> rc_candidate = c, rc_position = i + 1 \<rparr>) (enumerate 0 ordered),
           cr_excluded = map (exclude policy) (filter (\<lambda>c. \<not> in_scope policy c) candidates),
           cr_decided = decided,
           cr_winner_index = (if decided then Some 0 else None),
           cr_ambiguous = (\<not> decided \<and> length ordered > 1),
           cr_ambiguity_reason = reason,
           cr_explanations = explain_pairs policy (zip ordered (tl ordered)),
           cr_summary =
             (if decided then ''policy prefers '' @ [quote] @ candidate_label (hd ordered) @ [quote]
              else if ordered = [] then ''no candidates to rank''
              else or_default ''ambiguity remains'' reason) \<rparr>)"

section \<open>Validation\<close>

record policy_problem =
  pb_field :: policy_field
  pb_message :: string

text \<open>The entries of a list, with the values seen before each: unknown values, then repeats.\<close>

fun entry_problems ::
    "policy_field \<Rightarrow> string \<Rightarrow> (string \<Rightarrow> bool) \<Rightarrow> string set \<Rightarrow> string list \<Rightarrow> policy_problem list" where
  "entry_problems field kind known seen [] = []"
| "entry_problems field kind known seen (value # rest) =
     (if known value then []
      else [\<lparr> pb_field = field,
              pb_message = ''unknown '' @ kind @ '' '' @ [quote] @ value @ [quote] @
                '' in preferences; kept as written, ignored for matching'' \<rparr>]) @
     (if value \<in> seen
      then [\<lparr> pb_field = field,
              pb_message = ''duplicate '' @ kind @ '' '' @ [quote] @ value @ [quote] @ '' in preferences'' \<rparr>]
      else []) @
     entry_problems field kind known (insert value seen) rest"

definition validate_preference_list ::
    "string list option \<Rightarrow> policy_field \<Rightarrow> string \<Rightarrow> (string \<Rightarrow> bool) \<Rightarrow> policy_problem list" where
  "validate_preference_list values field kind known =
     (case values of
        None \<Rightarrow> []
      | Some vs \<Rightarrow>
          (if length vs > max_policy_preference_len
           then [\<lparr> pb_field = field,
                   pb_message = kind @ '' preference list has '' @ nat_to_string (length vs) @
                     '' entries; the limit is '' @ nat_to_string max_policy_preference_len \<rparr>]
           else []) @ entry_problems field kind known {} vs)"

definition unknown_name ::
    "string option \<Rightarrow> (string \<Rightarrow> bool) \<Rightarrow> policy_field \<Rightarrow> (string \<Rightarrow> string) \<Rightarrow> policy_problem list" where
  "unknown_name value known field message =
     (case value of
        Some v \<Rightarrow> if known v then [] else [\<lparr> pb_field = field, pb_message = message v \<rparr>]
      | None \<Rightarrow> [])"

definition quoted :: "string \<Rightarrow> string" where
  "quoted s = [quote] @ s @ [quote]"

definition override_problems :: "registry \<Rightarrow> string \<times> dat_platform_policy_config \<Rightarrow> policy_problem list" where
  "override_problems platforms = (\<lambda>(platform_id, o1).
     (if canonical_platform_for_alias platforms platform_id \<noteq> Some platform_id
      then [\<lparr> pb_field = RegionField,
              pb_message = ''per-platform override key '' @ quoted platform_id @
                '' is not a canonical platform id; kept as written, not applied'' \<rparr>]
      else []) @
     validate_preference_list (pp_region_preferences o1) RegionField ''region'' (\<lambda>v. parse_region v \<noteq> None) @
     unknown_name (pp_content_selection o1) (\<lambda>v. parse_policy v \<noteq> None) ContentField
       (\<lambda>v. ''unknown content selection '' @ quoted v @ '' for platform '' @ quoted platform_id @
            ''; kept as written, All entries applies'') @
     validate_preference_list (pp_language_preferences o1) LanguageField ''language preference''
       (\<lambda>v. parse_preference v \<noteq> None) @
     unknown_name (pp_revision_policy o1) (\<lambda>v. parse_revision_policy v \<noteq> None) RevisionField
       (\<lambda>v. ''unknown revision policy '' @ quoted v @ '' for platform '' @ quoted platform_id @
            ''; kept as written, safe default applies'') @
     unknown_name (pp_clone_policy o1) (\<lambda>v. parse_clone_policy v \<noteq> None) CloneField
       (\<lambda>v. ''unknown clone policy '' @ quoted v @ '' for platform '' @ quoted platform_id @
            ''; kept as written, safe default applies''))"

definition validate_policy_config :: "registry \<Rightarrow> dat_policy_config \<Rightarrow> policy_problem list" where
  "validate_policy_config platforms config =
     unknown_name (pc_content_selection config) (\<lambda>v. parse_policy v \<noteq> None) ContentField
       (\<lambda>v. ''unknown content selection '' @ quoted v @ ''; kept as written, All entries applies'') @
     validate_preference_list (pc_region_preferences config) RegionField ''region'' (\<lambda>v. parse_region v \<noteq> None) @
     validate_preference_list (pc_language_preferences config) LanguageField ''language preference''
       (\<lambda>v. parse_preference v \<noteq> None) @
     unknown_name (pc_revision_policy config) (\<lambda>v. parse_revision_policy v \<noteq> None) RevisionField
       (\<lambda>v. ''unknown revision policy '' @ quoted v @ ''; kept as written, safe default applies'') @
     unknown_name (pc_clone_policy config) (\<lambda>v. parse_clone_policy v \<noteq> None) CloneField
       (\<lambda>v. ''unknown clone policy '' @ quoted v @ ''; kept as written, safe default applies'') @
     (case pc_platforms config of
        None \<Rightarrow> []
      | Some overrides \<Rightarrow> concat (map (override_problems platforms) overrides))"

section \<open>When the comparator is a total preorder\<close>

lemma position_less: "position p xs = Some i \<Longrightarrow> i < length xs"
  by (induction xs arbitrary: i) (auto split: if_splits)

definition key_of :: "'a list \<Rightarrow> nat option \<Rightarrow> nat" where
  "key_of prefs p = (case p of None \<Rightarrow> length prefs | Some i \<Rightarrow> i)"

definition ord_of :: "(cmp_ordering \<times> string) option \<Rightarrow> cmp_ordering" where
  "ord_of r = (case r of None \<Rightarrow> Equal | Some (result, reason) \<Rightarrow> result)"

definition region_key :: "effective_dat_policy \<Rightarrow> dat_candidate \<Rightarrow> nat" where
  "region_key policy c =
     key_of (ep_region_preferences policy) (best_region_position (ca_regions c) (ep_region_preferences policy))"

definition language_key :: "effective_dat_policy \<Rightarrow> dat_candidate \<Rightarrow> nat" where
  "language_key policy c =
     key_of (ep_language_preferences policy) (best_language_position c (ep_language_preferences policy))"

definition cmp_revisions :: "revision_policy \<Rightarrow> dat_candidate \<Rightarrow> dat_candidate \<Rightarrow> cmp_ordering" where
  "cmp_revisions rp a b =
     (case rp of
        AskWhenAmbiguous \<Rightarrow> Equal
      | LatestVerified \<Rightarrow>
          then_with (cmp_nat (ca_revision b) (ca_revision a))
            (cmp_bool (ca_has_revision_marker b) (ca_has_revision_marker a))
      | EarliestVerified \<Rightarrow> cmp_nat (ca_revision a) (ca_revision b)
      | PreferOriginal \<Rightarrow> cmp_bool (ca_has_revision_marker a) (ca_has_revision_marker b))"

lemma cmp_nat_eq [simp]: "cmp_nat a b = Equal \<longleftrightarrow> a = b"
  by (simp add: cmp_nat_def)

lemma compare_region_key:
  "ord_of (compare_region a b policy) = cmp_nat (region_key policy a) (region_key policy b)"
proof (cases "ep_region_preferences policy = []")
  case True
  then show ?thesis
    by (simp add: compare_region_def region_key_def best_region_position_def key_of_def ord_of_def)
next
  case False
  show ?thesis
    using False position_less [of "\<lambda>q. q \<in> set (ca_regions a)" "ep_region_preferences policy"]
      position_less [of "\<lambda>q. q \<in> set (ca_regions b)" "ep_region_preferences policy"]
    by (auto simp: compare_region_def region_key_def best_region_position_def key_of_def ord_of_def
        cmp_nat_def Let_def split: option.splits)
qed

lemma compare_language_key:
  "ord_of (compare_language a b policy) = cmp_nat (language_key policy a) (language_key policy b)"
proof (cases "ep_language_preferences policy = []")
  case True
  then show ?thesis
    by (simp add: compare_language_def language_key_def best_language_position_def key_of_def ord_of_def)
next
  case False
  show ?thesis
    using False
      position_less [of "\<lambda>q. language_preference_matches q a" "ep_language_preferences policy"]
      position_less [of "\<lambda>q. language_preference_matches q b" "ep_language_preferences policy"]
    by (auto simp: compare_language_def language_key_def best_language_position_def key_of_def ord_of_def
        cmp_nat_def Let_def split: option.splits)
qed

lemma compare_revision_key:
  "ord_of (compare_revision a b policy) = cmp_revisions (ep_revision_policy policy) a b"
  by (auto simp: compare_revision_def cmp_revisions_def ord_of_def cmp_bool_def cmp_nat_def
      split: revision_policy.splits)

lemma separates:
  "compare_region a b policy = Some (r, s) \<Longrightarrow> r \<noteq> Equal"
  "compare_language a b policy = Some (r, s) \<Longrightarrow> r \<noteq> Equal"
  "compare_revision a b policy = Some (r, s) \<Longrightarrow> r \<noteq> Equal"
  by (auto simp: compare_region_def compare_language_def compare_revision_def cmp_nat_def cmp_bool_def Let_def
      split: if_splits option.splits revision_policy.splits)

definition separable :: "effective_dat_policy \<Rightarrow> bool" where
  "separable policy \<longleftrightarrow> ep_clone_policy policy \<in> {KeepAllVariants, RequireExplicitChoice}"

lemma then_with_ord_of:
  assumes "\<And>r s. x = Some (r, s) \<Longrightarrow> r \<noteq> Equal"
  shows "fst (case x of Some (result, reason) \<Rightarrow> (result, Some reason) | None \<Rightarrow> rest) =
    then_with (ord_of x) (fst rest)"
proof (cases x)
  case None
  then show ?thesis by (simp add: ord_of_def)
next
  case (Some p)
  obtain r s where p: "p = (r, s)" by (cases p)
  then have "r \<noteq> Equal" using assms Some by blast
  then show ?thesis using Some p by (cases r) (simp_all add: ord_of_def)
qed

lemma compare_candidates_lex:
  assumes "separable policy"
  shows "compare_candidates a b policy =
    then_with (cmp_nat (ca_source_priority a) (ca_source_priority b))
      (then_with (cmp_nat (region_key policy a) (region_key policy b))
        (then_with (cmp_nat (language_key policy a) (language_key policy b))
          (cmp_revisions (ep_revision_policy policy) a b)))"
proof -
  have c: "ep_clone_policy policy \<noteq> PreferParent" "ep_clone_policy policy \<noteq> PreferClone"
    using assms by (auto simp: separable_def)
  have prio: "ca_source_priority a \<noteq> ca_source_priority b \<Longrightarrow>
      then_with (cmp_nat (ca_source_priority a) (ca_source_priority b)) k =
      cmp_nat (ca_source_priority a) (ca_source_priority b)" for k
    by (simp add: cmp_nat_def)
  show ?thesis
    unfolding compare_candidates_def compare_with_reason_def
    using c
    by (simp add: prio then_with_ord_of separates compare_region_key compare_language_key
        compare_revision_key)
qed

lemma total_cmp_nat_key: "total_cmp (\<lambda>a b. cmp_nat (k a) (k b))"
  by (rule total_cmp_key) (rule nats.total_cmp_axioms)

lemma total_cmp_bool_key: "total_cmp (\<lambda>a b. cmp_bool (k a) (k b))"
  unfolding cmp_bool_def by (rule total_cmp_nat_key)

lemma total_cmp_constant: "total_cmp (\<lambda>a b. Equal)"
  by unfold_locales simp_all

lemma total_cmp_revisions: "total_cmp (cmp_revisions rp)"
proof (cases rp)
  case LatestVerified
  have "total_cmp (\<lambda>a b. then_with (cmp_nat (ca_revision b) (ca_revision a))
      (cmp_bool (ca_has_revision_marker b) (ca_has_revision_marker a)))"
    by (intro total_cmp_then total_cmp_reverse [OF total_cmp_nat_key [of ca_revision]]
        total_cmp_reverse [OF total_cmp_bool_key [of ca_has_revision_marker]])
  moreover have "cmp_revisions rp = (\<lambda>a b. then_with (cmp_nat (ca_revision b) (ca_revision a))
      (cmp_bool (ca_has_revision_marker b) (ca_has_revision_marker a)))"
    by (intro ext) (simp add: LatestVerified cmp_revisions_def)
  ultimately show ?thesis by simp
next
  case EarliestVerified
  then have "cmp_revisions rp = (\<lambda>a b. cmp_nat (ca_revision a) (ca_revision b))"
    by (intro ext) (simp add: cmp_revisions_def)
  then show ?thesis using total_cmp_nat_key [of ca_revision] by simp
next
  case PreferOriginal
  then have "cmp_revisions rp = (\<lambda>a b. cmp_bool (ca_has_revision_marker a) (ca_has_revision_marker b))"
    by (intro ext) (simp add: cmp_revisions_def)
  then show ?thesis using total_cmp_bool_key [of ca_has_revision_marker] by simp
next
  case AskWhenAmbiguous
  then have "cmp_revisions rp = (\<lambda>a b. Equal)"
    by (intro ext) (simp add: cmp_revisions_def)
  then show ?thesis using total_cmp_constant by simp
qed

lemma total_compare_candidates:
  assumes "separable policy"
  shows "total_cmp (\<lambda>a b. compare_candidates a b policy)"
  unfolding compare_candidates_lex [OF assms]
  by (intro total_cmp_then total_cmp_nat_key total_cmp_revisions)

lemma total_labels: "total_cmp (\<lambda>a b. cmp_string (candidate_label a) (candidate_label b))"
  by (rule total_cmp_key) (rule strings.total_cmp_axioms)

lemma total_display_order:
  assumes "separable policy"
  shows "total_cmp (display_order policy)"
proof -
  have "display_order policy = (\<lambda>a b. then_with (compare_candidates a b policy)
      (cmp_string (candidate_label a) (candidate_label b)))"
    by (intro ext) (simp add: display_order_def)
  then show ?thesis
    using total_cmp_then [OF total_compare_candidates [OF assms] total_labels] by simp
qed

section \<open>What a ranking decides\<close>

lemma entries_candidates:
  "map rc_candidate (cr_entries (rank_candidates cs policy)) =
   sort_by (display_order policy) (filter (in_scope policy) cs)"
proof -
  have "map rc_candidate (map (\<lambda>(i, c). \<lparr> rc_candidate = c, rc_position = i + 1 \<rparr>) (enumerate 0 xs)) = xs"
    for xs by (rule nth_equalityI) (simp_all add: nth_enumerate_eq)
  then show ?thesis by (simp add: rank_candidates_def Let_def del: map_map)
qed

lemma entries_positions:
  "map rc_position (cr_entries (rank_candidates cs policy)) =
   [1..<Suc (length (filter (in_scope policy) cs))]"
proof -
  have "map rc_position (map (\<lambda>(i, c). \<lparr> rc_candidate = c, rc_position = i + 1 \<rparr>) (enumerate 0 xs)) =
      [1..<Suc (length xs)]" for xs
    by (rule nth_equalityI) (simp_all add: nth_enumerate_eq del: upt_Suc)
  then show ?thesis by (simp add: rank_candidates_def Let_def del: map_map upt_Suc)
qed

lemma decided_of_tl:
  "decided_of policy ordered \<longleftrightarrow>
   ordered \<noteq> [] \<and> list_all (\<lambda>other. compare_candidates (hd ordered) other policy = Less) (tl ordered)"
  by (auto simp: decided_of_def split: list.splits)

lemma ranking_facts:
  fixes cs policy
  defines "r \<equiv> rank_candidates cs policy"
  shows "mset (map rc_candidate (cr_entries r)) = mset (filter (in_scope policy) cs)
    \<and> map rc_position (cr_entries r) = [1..<Suc (length (cr_entries r))]
    \<and> map xc_candidate (cr_excluded r) = filter (\<lambda>c. \<not> in_scope policy c) cs
    \<and> cr_decided r = (cr_entries r \<noteq> [] \<and>
        list_all (\<lambda>e. compare_candidates (rc_candidate (hd (cr_entries r))) (rc_candidate e) policy = Less)
          (tl (cr_entries r)))
    \<and> cr_winner_index r = (if cr_decided r then Some 0 else None)
    \<and> cr_ambiguous r = (\<not> cr_decided r \<and> length (cr_entries r) > 1)"
proof -
  let ?o = "sort_by (display_order policy) (filter (in_scope policy) cs)"
  have cands: "map rc_candidate (cr_entries r) = ?o" unfolding r_def by (rule entries_candidates)
  then have len: "length (cr_entries r) = length ?o" by (metis length_map)
  have hd: "cr_entries r \<noteq> [] \<Longrightarrow> hd ?o = rc_candidate (hd (cr_entries r))"
    using cands by (metis hd_map)
  have tl: "tl ?o = map rc_candidate (tl (cr_entries r))" using cands by (metis map_tl)
  have ne: "?o \<noteq> [] \<longleftrightarrow> cr_entries r \<noteq> []" using cands by auto
  have dec: "cr_decided r = decided_of policy ?o"
    by (simp add: r_def rank_candidates_def Let_def)
  have win: "cr_winner_index r = (if cr_decided r then Some 0 else None)"
    by (simp add: r_def rank_candidates_def Let_def)
  have amb: "cr_ambiguous r = (\<not> cr_decided r \<and> length ?o > 1)"
    by (simp add: r_def rank_candidates_def Let_def)
  have exc: "map xc_candidate (cr_excluded r) = filter (\<lambda>c. \<not> in_scope policy c) cs"
    by (simp add: r_def rank_candidates_def Let_def comp_def exclude_def)
  have pos: "map rc_position (cr_entries r) = [1..<Suc (length (cr_entries r))]"
    using entries_positions [of cs policy] len unfolding r_def by simp
  have "cr_decided r = (cr_entries r \<noteq> [] \<and>
        list_all (\<lambda>e. compare_candidates (rc_candidate (hd (cr_entries r))) (rc_candidate e) policy = Less)
          (tl (cr_entries r)))"
    unfolding dec decided_of_tl tl list.pred_map comp_def using ne hd by auto
  moreover have "mset (map rc_candidate (cr_entries r)) = mset (filter (in_scope policy) cs)"
    unfolding cands by simp
  ultimately show ?thesis using win amb exc pos len by simp
qed

text \<open>
  For every policy the ranking shows each participating candidate exactly once, at
  positions 1, 2, ..., excludes exactly the others, and decides exactly when the first
  candidate shown strictly outranks every other one shown; the winner, when there is
  one, is the first; otherwise two or more candidates are reported ambiguous.
\<close>

theorem ranking_shows_all:
  "let r = rank_candidates cs policy in
    mset (map rc_candidate (cr_entries r)) = mset (filter (in_scope policy) cs)
    \<and> map rc_position (cr_entries r) = [1..<Suc (length (cr_entries r))]
    \<and> map xc_candidate (cr_excluded r) = filter (\<lambda>c. \<not> in_scope policy c) cs
    \<and> cr_decided r = (cr_entries r \<noteq> [] \<and>
        list_all (\<lambda>e. compare_candidates (rc_candidate (hd (cr_entries r))) (rc_candidate e) policy = Less)
          (tl (cr_entries r)))
    \<and> cr_winner_index r = (if cr_decided r then Some 0 else None)
    \<and> cr_ambiguous r = (\<not> cr_decided r \<and> length (cr_entries r) > 1)"
  unfolding Let_def by (rule ranking_facts)

definition preferred_among :: "effective_dat_policy \<Rightarrow> dat_candidate multiset \<Rightarrow> dat_candidate \<Rightarrow> bool" where
  "preferred_among policy M c \<longleftrightarrow> c \<in># M \<and> (\<forall>d \<in># M - {#c#}. compare_candidates c d policy = Less)"

lemma decided_preferred:
  assumes "decided_of policy ordered"
  shows "preferred_among policy (mset ordered) (hd ordered)"
  using assms unfolding decided_of_tl preferred_among_def by (cases ordered) (auto simp: list_all_iff)

lemma preferred_first:
  assumes sep: "separable policy" and pref: "preferred_among policy (mset ordered) c"
    and sorted: "sorted_wrt (\<lambda>x y. display_order policy x y \<noteq> Greater) ordered"
  shows "hd ordered = c \<and> decided_of policy ordered"
proof -
  obtain x xs where ordered: "ordered = x # xs" using pref by (cases ordered) (auto simp: preferred_among_def)
  have "x = c"
  proof (rule ccontr)
    assume ne: "x \<noteq> c"
    then have "x \<in># mset ordered - {#c#}" using ordered by simp
    then have "compare_candidates c x policy = Less" using pref by (simp add: preferred_among_def)
    then have "display_order policy c x = Less" by (simp add: display_order_def)
    then have "display_order policy x c = Greater"
      using total_cmp.flip [OF total_display_order [OF sep], of x c] by simp
    moreover have "c \<in> set xs" using pref ordered ne by (simp add: preferred_among_def)
    ultimately show False using sorted ordered by auto
  qed
  then have "list_all (\<lambda>d. compare_candidates c d policy = Less) xs"
    using pref ordered by (auto simp: preferred_among_def list_all_iff)
  then show ?thesis using \<open>x = c\<close> ordered by (simp add: decided_of_tl)
qed

text \<open>
  C26: Under the clone policies that do not look at parents, the ranking decides exactly
  when some participating candidate strictly outranks all others, and then it is the
  one shown first; as the right-hand sides speak of the candidates as a multiset, neither
  the decision nor the winner depends on the order in which the candidates were given.
\<close>

theorem ranking_decides:
  assumes "separable policy"
  shows "cr_decided (rank_candidates cs policy) =
      (\<exists>c. preferred_among policy (mset (filter (in_scope policy) cs)) c)
    \<and> (\<forall>c. preferred_among policy (mset (filter (in_scope policy) cs)) c \<longrightarrow>
         rc_candidate (hd (cr_entries (rank_candidates cs policy))) = c)"
proof -
  let ?s = "filter (in_scope policy) cs"
  let ?o = "sort_by (display_order policy) ?s"
  have ms: "mset ?o = mset ?s" by simp
  have sorted: "sorted_wrt (\<lambda>x y. display_order policy x y \<noteq> Greater) ?o"
    by (rule total_cmp.sorted_sort_by [OF total_display_order [OF assms]])
  have dec: "cr_decided (rank_candidates cs policy) = decided_of policy ?o"
    by (simp add: rank_candidates_def Let_def)
  have first: "preferred_among policy (mset ?s) c \<Longrightarrow> hd ?o = c \<and> decided_of policy ?o" for c
    using preferred_first [OF assms _ sorted] ms by simp
  have "decided_of policy ?o \<Longrightarrow> preferred_among policy (mset ?s) (hd ?o)"
    using decided_preferred [of policy ?o] ms by simp
  moreover have "rc_candidate (hd (cr_entries (rank_candidates cs policy))) = hd ?o" if "?o \<noteq> []"
    using that entries_candidates [of cs policy] by (metis hd_map list.map_disc_iff)
  moreover have "preferred_among policy (mset ?s) c \<Longrightarrow> ?o \<noteq> []" for c
  proof -
    assume "preferred_among policy (mset ?s) c"
    then have "c \<in> set ?o" by (simp add: preferred_among_def)
    then show "?o \<noteq> []" by (metis list.distinct(1) list.set_cases)
  qed
  ultimately show ?thesis using dec first by blast
qed

section \<open>When it is not\<close>

definition example_policy :: "clone_policy \<Rightarrow> effective_dat_policy" where
  "example_policy cp =
     \<lparr> ep_platform = None, ep_content_selection = AllEntries,
       ep_region_preferences = (if cp = PreferClone then [] else [Europe, Usa, Japan]),
       ep_language_preferences = [], ep_revision_policy = AskWhenAmbiguous, ep_clone_policy = cp,
       ep_source_ordering = [\<lparr> ps_id = ''local'', ps_display_name = ''Local'', ps_priority = 1 \<rparr>],
       ep_scope_of = [] \<rparr>"

definition example_candidate :: "string \<Rightarrow> region_id \<Rightarrow> string option \<Rightarrow> dat_candidate" where
  "example_candidate name r parent =
     \<lparr> ca_source_id = ''local'', ca_source_priority = 1, ca_game_name = name, ca_rom_name = name,
       ca_regions = [r], ca_languages = [], ca_revision = 0, ca_has_revision_marker = False,
       ca_parent_name = parent \<rparr>"

text \<open>
  Under PreferParent the policy comparator itself has a cycle, and under PreferClone the
  comparator handed to the sort has one: neither is a total order, so the contract of
  \<open>sort_by\<close> is broken. The three candidates are a parent, its clone and an unrelated entry.
\<close>

theorem clone_policies_cycle:
  "(let p = example_policy PreferParent; a = example_candidate ''A (Japan)'' Japan None;
        b = example_candidate ''A (Europe)'' Europe (Some ''A (Japan)''); c = example_candidate ''C (USA)'' Usa None
    in map (\<lambda>(x, y). compare_candidates x y p) [(a, b), (b, c), (c, a)] = [Less, Less, Less])
   \<and> (let p = example_policy PreferClone; a = example_candidate ''Zed'' Japan None;
        b = example_candidate ''Ape'' Europe (Some ''Zed''); c = example_candidate ''Cat'' Usa None
    in map (\<lambda>(x, y). display_order p x y) [(a, b), (b, c), (c, a)] = [Less, Less, Less])"
  by code_simp

text \<open>Two entries that tie on the policy and the label are shown in the order they came in.\<close>

lemma display_depends_on_input:
  fixes c
  defines "c \<equiv> example_candidate ''A'' Japan None"
  shows "sort_by (display_order (example_policy KeepAllVariants)) [c, c\<lparr>ca_parent_name := Some ''B''\<rparr>] \<noteq>
    sort_by (display_order (example_policy KeepAllVariants)) [c\<lparr>ca_parent_name := Some ''B''\<rparr>, c]"
  unfolding c_def by code_simp

section \<open>A decided ranking\<close>

lemma ranking_decides_witness:
  "let p = example_policy KeepAllVariants; a = example_candidate ''A (Japan)'' Japan None;
       b = example_candidate ''A (Europe)'' Europe None
   in separable p \<and> cr_decided (rank_candidates [a, b] p) \<and>
      rc_candidate (hd (cr_entries (rank_candidates [a, b] p))) = b"
proof -
  let ?p = "example_policy KeepAllVariants" and ?a = "example_candidate ''A (Japan)'' Japan None"
  let ?b = "example_candidate ''A (Europe)'' Europe None"
  have sep: "separable ?p" by (simp add: separable_def example_policy_def)
  have scope: "filter (in_scope ?p) [?a, ?b] = [?a, ?b]" by code_simp
  have "compare_candidates ?b ?a ?p = Less" by code_simp
  then have "preferred_among ?p (mset (filter (in_scope ?p) [?a, ?b])) ?b"
    unfolding scope by (simp add: preferred_among_def)
  then show ?thesis using ranking_decides [OF sep, of "[?a, ?b]"] sep by (auto simp: Let_def)
qed

end
