(* ===== verification/DatIndex.thy ===== *)
theory DatIndex
  imports DatModel
begin

text \<open>
  The collision-aware hash indexes over catalogue entries: \<open>dat/index.rs\<close>. A
  \<open>HashMap<String, Vec<_>>\<close> is a finite map from keys to lists; pushing appends.

  The specification of an index is \<open>rom_slots\<close>, the declared roms of a catalogue in
  declaration order: a lookup returns exactly the slots with that key, in that order.
\<close>

section \<open>References\<close>

datatype member_location = TopLevelRom nat | DataAreaRom nat nat nat

record dat_member_key =
  mk_game_index :: nat
  mk_location :: member_location

record dat_rom_ref =
  rr_game_index :: nat
  rr_game_name :: string
  rr_rom_index :: nat
  rr_member_key :: dat_member_key
  rr_rom_name :: string
  rr_size_bytes :: "nat option"
  rr_checksums :: "dat_checksum list"
  rr_status :: "string option"
  rr_merge :: "string option"
  rr_content_classification :: dat_content_classification
  rr_original_metadata :: dat_original_metadata

definition rom_ref_key :: "dat_rom_ref \<Rightarrow> dat_member_key" where
  "rom_ref_key r = rr_member_key r"

datatype disk_location = TopLevelDisk nat | DiskAreaDisk nat nat nat

record dat_disk_key =
  dk_game_index :: nat
  dk_location :: disk_location

record dat_disk_ref =
  kr_game_index :: nat
  kr_game_name :: string
  kr_disk_key :: dat_disk_key
  kr_disk_name :: string
  kr_sha1 :: string
  kr_status :: "string option"
  kr_merge :: "string option"
  kr_optional :: "string option"

definition disk_ref_key :: "dat_disk_ref \<Rightarrow> dat_disk_key" where
  "disk_ref_key r = kr_disk_key r"

section \<open>Maps of lists\<close>

type_synonym 'a multi_map = "(string, 'a list) fmap"

definition push :: "string \<Rightarrow> 'a \<Rightarrow> 'a multi_map \<Rightarrow> 'a multi_map" where
  "push k x m = fmupd k (case fmlookup m k of None \<Rightarrow> [x] | Some xs \<Rightarrow> xs @ [x]) m"

definition candidates :: "'a multi_map \<Rightarrow> string \<Rightarrow> 'a list" where
  "candidates m k = (case fmlookup m k of None \<Rightarrow> [] | Some xs \<Rightarrow> xs)"

definition push_opt :: "string option \<Rightarrow> 'a \<Rightarrow> 'a multi_map \<Rightarrow> 'a multi_map" where
  "push_opt k x m = (case k of None \<Rightarrow> m | Some h \<Rightarrow> push h x m)"

lemma candidates_empty [simp]: "candidates fmempty k = []"
  by (simp add: candidates_def)

lemma candidates_push [simp]:
  "candidates (push k x m) k' = candidates m k' @ (if k = k' then [x] else [])"
  by (simp add: candidates_def push_def split: option.splits)

lemma candidates_push_opt [simp]:
  "candidates (push_opt k x m) k' = candidates m k' @ (if k = Some k' then [x] else [])"
  by (cases k) (simp_all add: push_opt_def)

lemma enumerate_Cons: "enumerate n (x # xs) = (n, x) # enumerate (Suc n) xs"
  by simp

section \<open>Disk index\<close>

definition parse_disk_sha1 :: "string \<Rightarrow> string option" where
  "parse_disk_sha1 raw =
     (case parse_checksum Sha1 raw of
        None \<Rightarrow> None
      | Some c \<Rightarrow> if list_all (\<lambda>b. b = CHR ''0'') (ck_value c) then None else Some (ck_value c))"

record dat_disk_index =
  by_disk_sha1 :: "dat_disk_ref multi_map"

definition disk_ref :: "nat \<Rightarrow> string \<Rightarrow> dat_disk_key \<Rightarrow> dat_disk_entry \<Rightarrow> string \<Rightarrow> dat_disk_ref" where
  "disk_ref game_index game_name key disk sha1 =
     \<lparr> kr_game_index = game_index, kr_game_name = game_name, kr_disk_key = key,
       kr_disk_name = (case dd_name disk of None \<Rightarrow> [] | Some n \<Rightarrow> n), kr_sha1 = sha1,
       kr_status = dd_status disk, kr_merge = dd_merge disk, kr_optional = dd_optional disk \<rparr>"

definition insert_disk ::
    "nat \<Rightarrow> string \<Rightarrow> dat_disk_key \<Rightarrow> dat_disk_entry \<Rightarrow> dat_disk_index \<Rightarrow> dat_disk_index" where
  "insert_disk game_index game_name key disk index =
     (case dd_sha1 disk of
        None \<Rightarrow> index
      | Some raw_sha1 \<Rightarrow>
          (case parse_disk_sha1 raw_sha1 of
             None \<Rightarrow> index
           | Some sha1 \<Rightarrow>
               index\<lparr>by_disk_sha1 :=
                 push sha1 (disk_ref game_index game_name key disk sha1) (by_disk_sha1 index)\<rparr>))"

definition index_game_disks :: "nat \<times> dat_game_entry \<Rightarrow> dat_disk_index \<Rightarrow> dat_disk_index" where
  "index_game_disks = (\<lambda>(game_index, game) index.
     fold (\<lambda>(part_index, part). fold (\<lambda>(area_index, area). fold (\<lambda>(member_index, disk).
         insert_disk game_index (dg_name game)
           \<lparr> dk_game_index = game_index,
             dk_location = DiskAreaDisk part_index area_index member_index \<rparr> disk)
         (enumerate 0 (dk_disks area))) (enumerate 0 (dp_disk_areas part)))
       (enumerate 0 (dg_parts game))
       (fold (\<lambda>(disk_index, disk).
           insert_disk game_index (dg_name game)
             \<lparr> dk_game_index = game_index, dk_location = TopLevelDisk disk_index \<rparr> disk)
         (enumerate 0 (dg_disks game)) index))"

definition build_disk_index :: "parsed_dat \<Rightarrow> dat_disk_index" where
  "build_disk_index dat =
     fold index_game_disks (enumerate 0 (pd_games dat)) \<lparr> by_disk_sha1 = fmempty \<rparr>"

definition lookup_disk_sha1 :: "dat_disk_index \<Rightarrow> string \<Rightarrow> dat_disk_ref list" where
  "lookup_disk_sha1 index sha1 = candidates (by_disk_sha1 index) sha1"

section \<open>Rom index\<close>

record dat_index =
  by_crc32 :: "dat_rom_ref multi_map"
  by_md5 :: "dat_rom_ref multi_map"
  by_sha1 :: "dat_rom_ref multi_map"
  by_sha256 :: "dat_rom_ref multi_map"
  by_filename :: "dat_rom_ref multi_map"

definition rom_ref :: "nat \<Rightarrow> dat_game_entry \<Rightarrow> nat \<Rightarrow> member_location \<Rightarrow> dat_rom_entry \<Rightarrow> dat_rom_ref" where
  "rom_ref game_index game rom_index location rom =
     \<lparr> rr_game_index = game_index, rr_game_name = dg_name game, rr_rom_index = rom_index,
       rr_member_key = \<lparr> mk_game_index = game_index, mk_location = location \<rparr>,
       rr_rom_name = dr_name rom, rr_size_bytes = dr_size_bytes rom,
       rr_checksums = checksums rom, rr_status = dr_status rom, rr_merge = dr_merge rom,
       rr_content_classification = dg_content_classification game,
       rr_original_metadata = dg_original_metadata game \<rparr>"

definition insert_rom :: "dat_rom_entry \<Rightarrow> dat_rom_ref \<Rightarrow> dat_index \<Rightarrow> dat_index" where
  "insert_rom rom r index =
     \<lparr> by_crc32 = push_opt (dr_crc32 rom) r (by_crc32 index),
       by_md5 = push_opt (dr_md5 rom) r (by_md5 index),
       by_sha1 = push_opt (dr_sha1 rom) r (by_sha1 index),
       by_sha256 = push_opt (dr_sha256 rom) r (by_sha256 index),
       by_filename = push (to_ascii_lowercase (dr_name rom)) r (by_filename index) \<rparr>"

definition index_game_roms :: "nat \<times> dat_game_entry \<Rightarrow> dat_index \<Rightarrow> dat_index" where
  "index_game_roms = (\<lambda>(game_index, game) index.
     fold (\<lambda>(part_index, part). fold (\<lambda>(area_index, area). fold (\<lambda>(member_index, rom).
         insert_rom rom (rom_ref game_index game member_index
           (DataAreaRom part_index area_index member_index) rom))
         (enumerate 0 (da_roms area))) (enumerate 0 (dp_data_areas part)))
       (enumerate 0 (dg_parts game))
       (fold (\<lambda>(rom_index, rom).
           insert_rom rom (rom_ref game_index game rom_index (TopLevelRom rom_index) rom))
         (enumerate 0 (dg_roms game)) index))"

definition build_index :: "parsed_dat \<Rightarrow> dat_index" where
  "build_index dat =
     fold index_game_roms (enumerate 0 (pd_games dat))
       \<lparr> by_crc32 = fmempty, by_md5 = fmempty, by_sha1 = fmempty, by_sha256 = fmempty,
         by_filename = fmempty \<rparr>"

definition lookup_crc32 :: "dat_index \<Rightarrow> string \<Rightarrow> dat_rom_ref list" where
  "lookup_crc32 index crc = candidates (by_crc32 index) crc"

definition lookup_md5 :: "dat_index \<Rightarrow> string \<Rightarrow> dat_rom_ref list" where
  "lookup_md5 index md5 = candidates (by_md5 index) md5"

definition lookup_sha1 :: "dat_index \<Rightarrow> string \<Rightarrow> dat_rom_ref list" where
  "lookup_sha1 index sha1 = candidates (by_sha1 index) sha1"

definition lookup_sha256 :: "dat_index \<Rightarrow> string \<Rightarrow> dat_rom_ref list" where
  "lookup_sha256 index sha256 = candidates (by_sha256 index) sha256"

definition lookup_filename :: "dat_index \<Rightarrow> string \<Rightarrow> dat_rom_ref list" where
  "lookup_filename index filename = candidates (by_filename index) (to_ascii_lowercase filename)"

definition key_count :: "'a multi_map \<Rightarrow> nat" where
  "key_count m = fcard (fmdom m)"

definition crc32_count :: "dat_index \<Rightarrow> nat" where "crc32_count index = key_count (by_crc32 index)"
definition md5_count :: "dat_index \<Rightarrow> nat" where "md5_count index = key_count (by_md5 index)"
definition sha1_count :: "dat_index \<Rightarrow> nat" where "sha1_count index = key_count (by_sha1 index)"
definition sha256_count :: "dat_index \<Rightarrow> nat" where "sha256_count index = key_count (by_sha256 index)"

definition collisions :: "'a multi_map \<Rightarrow> nat" where
  "collisions m = fcard (ffilter (\<lambda>k. length (candidates m k) > 1) (fmdom m))"

definition crc32_collisions :: "dat_index \<Rightarrow> nat" where "crc32_collisions index = collisions (by_crc32 index)"
definition md5_collisions :: "dat_index \<Rightarrow> nat" where "md5_collisions index = collisions (by_md5 index)"
definition sha1_collisions :: "dat_index \<Rightarrow> nat" where "sha1_collisions index = collisions (by_sha1 index)"
definition sha256_collisions :: "dat_index \<Rightarrow> nat" where "sha256_collisions index = collisions (by_sha256 index)"

section \<open>Specification: the declared slots\<close>

definition game_rom_slots :: "nat \<times> dat_game_entry \<Rightarrow> (dat_rom_entry \<times> dat_rom_ref) list" where
  "game_rom_slots = (\<lambda>(gi, game).
     map (\<lambda>(ri, rom). (rom, rom_ref gi game ri (TopLevelRom ri) rom)) (enumerate 0 (dg_roms game)) @
     concat (map (\<lambda>(pi, part). concat (map (\<lambda>(ai, area).
       map (\<lambda>(mi, rom). (rom, rom_ref gi game mi (DataAreaRom pi ai mi) rom)) (enumerate 0 (da_roms area)))
       (enumerate 0 (dp_data_areas part)))) (enumerate 0 (dg_parts game))))"

definition rom_slots :: "parsed_dat \<Rightarrow> (dat_rom_entry \<times> dat_rom_ref) list" where
  "rom_slots dat = concat (map game_rom_slots (enumerate 0 (pd_games dat)))"

definition insert_slots :: "(dat_rom_entry \<times> dat_rom_ref) list \<Rightarrow> dat_index \<Rightarrow> dat_index" where
  "insert_slots = fold (\<lambda>(rom, r). insert_rom rom r)"

lemma insert_slots_Nil [simp]: "insert_slots [] = id"
  by (simp add: insert_slots_def)

lemma insert_slots_append: "insert_slots (xs @ ys) = insert_slots ys \<circ> insert_slots xs"
  by (simp add: insert_slots_def)

lemma index_game_roms_slots: "index_game_roms g index = insert_slots (game_rom_slots g) index"
proof (cases g)
  case (Pair gi game)
  have top: "fold (\<lambda>(ri, rom). insert_rom rom (rom_ref gi game ri (TopLevelRom ri) rom)) xs =
      insert_slots (map (\<lambda>(ri, rom). (rom, rom_ref gi game ri (TopLevelRom ri) rom)) xs)" for xs
    by (induction xs) (auto simp: insert_slots_def)
  have area: "fold (\<lambda>(mi, rom). insert_rom rom (rom_ref gi game mi (DataAreaRom pi ai mi) rom)) xs =
      insert_slots (map (\<lambda>(mi, rom). (rom, rom_ref gi game mi (DataAreaRom pi ai mi) rom)) xs)"
    for pi ai xs
    by (induction xs) (auto simp: insert_slots_def)
  have part: "fold (\<lambda>(ai, area). fold (\<lambda>(mi, rom). insert_rom rom (rom_ref gi game mi (DataAreaRom pi ai mi) rom))
        (enumerate 0 (da_roms area))) ys =
      insert_slots (concat (map (\<lambda>(ai, area).
        map (\<lambda>(mi, rom). (rom, rom_ref gi game mi (DataAreaRom pi ai mi) rom)) (enumerate 0 (da_roms area))) ys))"
    for pi ys
    by (induction ys) (auto simp: area insert_slots_append)
  have parts: "fold (\<lambda>(pi, part). fold (\<lambda>(ai, area). fold (\<lambda>(mi, rom). insert_rom rom (rom_ref gi game mi (DataAreaRom pi ai mi) rom))
        (enumerate 0 (da_roms area))) (enumerate 0 (dp_data_areas part))) zs =
      insert_slots (concat (map (\<lambda>(pi, part). concat (map (\<lambda>(ai, area).
        map (\<lambda>(mi, rom). (rom, rom_ref gi game mi (DataAreaRom pi ai mi) rom)) (enumerate 0 (da_roms area)))
        (enumerate 0 (dp_data_areas part)))) zs))" for zs
    by (induction zs) (auto simp: part insert_slots_append)
  show ?thesis
    unfolding Pair index_game_roms_def game_rom_slots_def
    by (simp only: prod.case top parts insert_slots_append comp_def)
qed

lemma build_index_slots:
  "build_index dat = insert_slots (rom_slots dat)
     \<lparr> by_crc32 = fmempty, by_md5 = fmempty, by_sha1 = fmempty, by_sha256 = fmempty, by_filename = fmempty \<rparr>"
proof -
  have "fold index_game_roms gs i = insert_slots (concat (map game_rom_slots gs)) i" for gs i
    by (induction gs arbitrary: i)
      (simp_all add: index_game_roms_slots insert_slots_append)
  then show ?thesis by (simp add: build_index_def rom_slots_def)
qed

lemma insert_slots_candidates:
  "candidates (by_crc32 (insert_slots xs i)) h =
     candidates (by_crc32 i) h @ map snd (filter (\<lambda>(rom, r). dr_crc32 rom = Some h) xs) \<and>
   candidates (by_md5 (insert_slots xs i)) h =
     candidates (by_md5 i) h @ map snd (filter (\<lambda>(rom, r). dr_md5 rom = Some h) xs) \<and>
   candidates (by_sha1 (insert_slots xs i)) h =
     candidates (by_sha1 i) h @ map snd (filter (\<lambda>(rom, r). dr_sha1 rom = Some h) xs) \<and>
   candidates (by_sha256 (insert_slots xs i)) h =
     candidates (by_sha256 i) h @ map snd (filter (\<lambda>(rom, r). dr_sha256 rom = Some h) xs) \<and>
   candidates (by_filename (insert_slots xs i)) h =
     candidates (by_filename i) h @ map snd (filter (\<lambda>(rom, r). to_ascii_lowercase (dr_name rom) = h) xs)"
  by (induction xs arbitrary: i) (simp_all add: insert_slots_def insert_rom_def split_beta)

text \<open>What every lookup returns.\<close>

lemma index_lookups:
  "lookup_crc32 (build_index dat) h = map snd (filter (\<lambda>(rom, r). dr_crc32 rom = Some h) (rom_slots dat)) \<and>
   lookup_md5 (build_index dat) h = map snd (filter (\<lambda>(rom, r). dr_md5 rom = Some h) (rom_slots dat)) \<and>
   lookup_sha1 (build_index dat) h = map snd (filter (\<lambda>(rom, r). dr_sha1 rom = Some h) (rom_slots dat)) \<and>
   lookup_sha256 (build_index dat) h = map snd (filter (\<lambda>(rom, r). dr_sha256 rom = Some h) (rom_slots dat)) \<and>
   lookup_filename (build_index dat) name =
     map snd (filter (\<lambda>(rom, r). eq_ignore_ascii_case (dr_name rom) name) (rom_slots dat))"
  using insert_slots_candidates [of "rom_slots dat"]
  by (simp add: build_index_slots lookup_crc32_def lookup_md5_def lookup_sha1_def lookup_sha256_def
      lookup_filename_def eq_ignore_ascii_case_def)

text \<open>
  The index is exact. A lookup by any hash, or by file name, returns precisely the
  declared roms that carry it, top-level and nested alike, in declaration order:
  collisions are kept, nothing is lost and nothing is invented.
\<close>

theorem lookup_exact:
  "lookup_crc32 (build_index dat) h = map snd (filter (\<lambda>(rom, r). dr_crc32 rom = Some h) (rom_slots dat)) \<and>
   lookup_md5 (build_index dat) h = map snd (filter (\<lambda>(rom, r). dr_md5 rom = Some h) (rom_slots dat)) \<and>
   lookup_sha1 (build_index dat) h = map snd (filter (\<lambda>(rom, r). dr_sha1 rom = Some h) (rom_slots dat)) \<and>
   lookup_sha256 (build_index dat) h = map snd (filter (\<lambda>(rom, r). dr_sha256 rom = Some h) (rom_slots dat)) \<and>
   lookup_filename (build_index dat) name =
     map snd (filter (\<lambda>(rom, r). eq_ignore_ascii_case (dr_name rom) name) (rom_slots dat))"
  by (rule index_lookups)

section \<open>Keys are positions\<close>

lemma enumerate_mem: "(i, x) \<in> set (enumerate n xs) \<longleftrightarrow> n \<le> i \<and> i < n + length xs \<and> x = xs ! (i - n)"
  by (auto simp: in_set_enumerate_eq)

text \<open>The rom entry at a key.\<close>

definition rom_at :: "parsed_dat \<Rightarrow> dat_member_key \<Rightarrow> dat_rom_entry option" where
  "rom_at dat k =
     (if mk_game_index k < length (pd_games dat)
      then (let game = pd_games dat ! mk_game_index k in
            case mk_location k of
              TopLevelRom i \<Rightarrow> if i < length (dg_roms game) then Some (dg_roms game ! i) else None
            | DataAreaRom p a m \<Rightarrow>
                if p < length (dg_parts game) then
                  (let part = dg_parts game ! p in
                   if a < length (dp_data_areas part) then
                     (let area = dp_data_areas part ! a in
                      if m < length (da_roms area) then Some (da_roms area ! m) else None)
                   else None)
                else None)
      else None)"

lemma slot_position:
  assumes "(rom, r) \<in> set (rom_slots dat)"
  shows "rom_at dat (rr_member_key r) = Some rom"
  using assms
  by (auto simp: rom_slots_def game_rom_slots_def rom_at_def rom_ref_def enumerate_mem)

text \<open>
  A reference identifies its declaration by position: the rom entry at the member key of
  each indexed reference is the very entry that was indexed, whatever its name.
\<close>

theorem slot_key_position:
  "map (\<lambda>(rom, r). rom_at dat (rom_ref_key r)) (rom_slots dat) = map (\<lambda>(rom, r). Some rom) (rom_slots dat)"
  using slot_position by (auto simp: rom_ref_key_def)

end
