(* ===== verification/DatAudit.thy ===== *)
theory DatAudit
  imports DatIndex
begin

text \<open>
  The read-only audit: \<open>dat/audit.rs\<close>. Every algorithm the caller holds is tried from the
  strongest down; the first that finds candidates decides. The verdict is characterised
  against the declared roms of the catalogue (\<open>matches\<close>), not against the index.
\<close>

section \<open>Verdicts\<close>

datatype audit_verdict =
  Exact string string string
| ExactMultipleCandidates string nat "string list"
| Probable string string
| ProbableMultipleCandidates string nat "string list"
| FilenameOnly string string
| AmbiguousEvidence string
| NotInDat
| NoUsableEvidence

fun verdict_label :: "audit_verdict \<Rightarrow> string" where
  "verdict_label (Exact _ _ _) = ''Exact''"
| "verdict_label (ExactMultipleCandidates _ _ _) = ''Exact (multiple)''"
| "verdict_label (ProbableMultipleCandidates _ _ _) = ''Probable (multiple)''"
| "verdict_label (Probable _ _) = ''Probable''"
| "verdict_label (FilenameOnly _ _) = ''Filename only''"
| "verdict_label (AmbiguousEvidence _) = ''Ambiguous''"
| "verdict_label NotInDat = ''Not in DAT''"
| "verdict_label NoUsableEvidence = ''No usable evidence''"

fun is_confident :: "audit_verdict \<Rightarrow> bool" where
  "is_confident (Exact _ _ _) = True"
| "is_confident (ExactMultipleCandidates _ _ _) = True"
| "is_confident _ = False"

record audit_entry =
  ae_local_path :: path
  ae_local_filename :: string
  ae_verdict :: audit_verdict

record audit_summary =
  as_total :: nat
  as_exact :: nat
  as_exact_multiple :: nat
  as_probable :: nat
  as_filename_only :: nat
  as_probable_multiple :: nat
  as_ambiguous :: nat
  as_not_in_dat :: nat
  as_no_evidence :: nat

record audit_report =
  ar_entries :: "audit_entry list"
  ar_summary :: audit_summary

record known_file_evidence =
  kf_filepath :: path
  kf_filename :: string
  kf_size_bytes :: "nat option"
  kf_crc32 :: "string option"
  kf_md5 :: "string option"
  kf_sha1 :: "string option"
  kf_sha256 :: "string option"

definition new_evidence :: "path \<Rightarrow> string \<Rightarrow> known_file_evidence" where
  "new_evidence filepath filename =
     \<lparr> kf_filepath = filepath, kf_filename = filename, kf_size_bytes = None, kf_crc32 = None,
       kf_md5 = None, kf_sha1 = None, kf_sha256 = None \<rparr>"

definition with_size :: "nat \<Rightarrow> known_file_evidence \<Rightarrow> known_file_evidence" where
  "with_size n k = k\<lparr>kf_size_bytes := Some n\<rparr>"

definition with_crc32 :: "string \<Rightarrow> known_file_evidence \<Rightarrow> known_file_evidence" where
  "with_crc32 crc k = k\<lparr>kf_crc32 := Some crc\<rparr>"

definition with_md5 :: "string \<Rightarrow> known_file_evidence \<Rightarrow> known_file_evidence" where
  "with_md5 md5 k = k\<lparr>kf_md5 := Some md5\<rparr>"

definition with_sha1 :: "string \<Rightarrow> known_file_evidence \<Rightarrow> known_file_evidence" where
  "with_sha1 sha1 k = k\<lparr>kf_sha1 := Some sha1\<rparr>"

definition with_sha256 :: "string \<Rightarrow> known_file_evidence \<Rightarrow> known_file_evidence" where
  "with_sha256 sha256 k = k\<lparr>kf_sha256 := Some sha256\<rparr>"

section \<open>Comparing one file\<close>

definition normalise_for_lookup :: "string \<Rightarrow> string \<Rightarrow> string option" where
  "normalise_for_lookup value algorithm =
     (if algorithm = ''SHA-256'' then normalise_sha256 value
      else if algorithm = ''SHA-1'' then normalise_sha1 value
      else if algorithm = ''MD5'' then normalise_md5 value
      else normalise_crc32 value)"

definition handle_candidates :: "dat_rom_ref list \<Rightarrow> string \<Rightarrow> audit_verdict" where
  "handle_candidates cs algorithm =
     (case cs of
        [] \<Rightarrow> NotInDat
      | [c] \<Rightarrow> Exact (rr_game_name c) (rr_rom_name c) algorithm
      | _ \<Rightarrow> ExactMultipleCandidates algorithm (length cs) (map rr_game_name cs))"

text \<open>
  The loop over the cryptographic hashes: \<open>Inl\<close> the verdict that returns from the
  function, or \<open>Inr\<close> whether anything has been compared.
\<close>

fun audit_hashes :: "dat_index \<Rightarrow> (string option \<times> string) list \<Rightarrow> bool \<Rightarrow> audit_verdict + bool" where
  "audit_hashes index [] compared_any = Inr compared_any"
| "audit_hashes index ((v, algorithm) # rest) compared_any =
     (case Option.bind v (\<lambda>value. normalise_for_lookup value algorithm) of
        None \<Rightarrow> audit_hashes index rest compared_any
      | Some normalised \<Rightarrow>
          (let cs = (if algorithm = ''SHA-256'' then lookup_sha256 index normalised
                     else if algorithm = ''SHA-1'' then lookup_sha1 index normalised
                     else lookup_md5 index normalised)
           in if cs \<noteq> [] then Inl (handle_candidates cs algorithm)
              else audit_hashes index rest True))"

definition audit_crc :: "string \<Rightarrow> nat option \<Rightarrow> dat_rom_ref list \<Rightarrow> audit_verdict" where
  "audit_crc normalised known_size cs =
     (case known_size of
        Some file_size \<Rightarrow>
          (let matched = filter (\<lambda>r. rr_size_bytes r = Some file_size) cs in
           case matched of
             [r] \<Rightarrow> Probable (rr_game_name r) (rr_rom_name r)
           | [] \<Rightarrow>
               AmbiguousEvidence (''CRC32 '' @ normalised @ '' matches '' @ nat_to_string (length cs) @
                 '' DAT entry(s), but size '' @ nat_to_string file_size @ '' disagrees with all of them'')
           | _ \<Rightarrow> ProbableMultipleCandidates ''CRC32+size'' (length matched) (map rr_game_name matched))
      | None \<Rightarrow>
          (case cs of
             [r] \<Rightarrow> Probable (rr_game_name r) (rr_rom_name r)
           | _ \<Rightarrow> ProbableMultipleCandidates ''CRC32'' (length cs) (map rr_game_name cs)))"

definition audited_filename :: "known_file_evidence \<Rightarrow> string" where
  "audited_filename known =
     (case path_file_name (kf_filepath known) of Some n \<Rightarrow> n | None \<Rightarrow> kf_filename known)"

text \<open>What remains when no hash was comparable: the file name.\<close>

definition audit_filename :: "known_file_evidence \<Rightarrow> dat_index \<Rightarrow> audit_verdict" where
  "audit_filename known index =
     (let filename = audited_filename known in
      if filename = [] then NoUsableEvidence
      else (case lookup_filename index filename of
              [] \<Rightarrow> NoUsableEvidence
            | r # _ \<Rightarrow> FilenameOnly (rr_game_name r) (rr_rom_name r)))"

definition audit_one :: "known_file_evidence \<Rightarrow> dat_index \<Rightarrow> audit_verdict" where
  "audit_one known index =
     (case audit_hashes index
             [(kf_sha256 known, ''SHA-256''), (kf_sha1 known, ''SHA-1''), (kf_md5 known, ''MD5'')] False of
        Inl verdict \<Rightarrow> verdict
      | Inr compared_any \<Rightarrow>
          (case Option.bind (kf_crc32 known) (\<lambda>crc. normalise_for_lookup crc ''CRC32'') of
             Some normalised \<Rightarrow>
               (let cs = lookup_crc32 index normalised in
                if cs \<noteq> [] then audit_crc normalised (kf_size_bytes known) cs else NotInDat)
           | None \<Rightarrow> if compared_any then NotInDat else audit_filename known index))"

section \<open>Auditing a set of files\<close>

definition count_verdict :: "audit_verdict \<Rightarrow> audit_summary \<Rightarrow> audit_summary" where
  "count_verdict v s =
     (case v of
        Exact _ _ _ \<Rightarrow> s\<lparr>as_exact := as_exact s + 1\<rparr>
      | ExactMultipleCandidates _ _ _ \<Rightarrow> s\<lparr>as_exact_multiple := as_exact_multiple s + 1\<rparr>
      | Probable _ _ \<Rightarrow> s\<lparr>as_probable := as_probable s + 1\<rparr>
      | ProbableMultipleCandidates _ _ _ \<Rightarrow> s\<lparr>as_probable_multiple := as_probable_multiple s + 1\<rparr>
      | FilenameOnly _ _ \<Rightarrow> s\<lparr>as_filename_only := as_filename_only s + 1\<rparr>
      | AmbiguousEvidence _ \<Rightarrow> s\<lparr>as_ambiguous := as_ambiguous s + 1\<rparr>
      | NotInDat \<Rightarrow> s\<lparr>as_not_in_dat := as_not_in_dat s + 1\<rparr>
      | NoUsableEvidence \<Rightarrow> s\<lparr>as_no_evidence := as_no_evidence s + 1\<rparr>)"

definition empty_audit_summary :: audit_summary where
  "empty_audit_summary =
     \<lparr> as_total = 0, as_exact = 0, as_exact_multiple = 0, as_probable = 0, as_filename_only = 0,
       as_probable_multiple = 0, as_ambiguous = 0, as_not_in_dat = 0, as_no_evidence = 0 \<rparr>"

definition build_summary :: "audit_entry list \<Rightarrow> audit_summary" where
  "build_summary es =
     fold (\<lambda>e. count_verdict (ae_verdict e)) es (empty_audit_summary\<lparr>as_total := length es\<rparr>)"

definition audit_files :: "known_file_evidence list \<Rightarrow> dat_index \<Rightarrow> audit_report" where
  "audit_files known index =
     (let es = map (\<lambda>file. \<lparr> ae_local_path = kf_filepath file,
                             ae_local_filename = audited_filename file,
                             ae_verdict = audit_one file index \<rparr>) known
      in \<lparr> ar_entries = es, ar_summary = build_summary es \<rparr>)"

section \<open>What a verdict means\<close>

text \<open>The well-formed hash of a file, and the hash a rom declares, by algorithm.\<close>

fun file_hash :: "known_file_evidence \<Rightarrow> checksum_algorithm \<Rightarrow> string option" where
  "file_hash k Crc32 = Option.bind (kf_crc32 k) normalise_crc32"
| "file_hash k Md5 = Option.bind (kf_md5 k) normalise_md5"
| "file_hash k Sha1 = Option.bind (kf_sha1 k) normalise_sha1"
| "file_hash k Sha256 = Option.bind (kf_sha256 k) normalise_sha256"

fun rom_hash :: "dat_rom_entry \<Rightarrow> checksum_algorithm \<Rightarrow> string option" where
  "rom_hash r Crc32 = dr_crc32 r"
| "rom_hash r Md5 = dr_md5 r"
| "rom_hash r Sha1 = dr_sha1 r"
| "rom_hash r Sha256 = dr_sha256 r"

text \<open>The declared roms whose hash is the file's; none when the file has no such hash.\<close>

definition matches :: "parsed_dat \<Rightarrow> known_file_evidence \<Rightarrow> checksum_algorithm \<Rightarrow> dat_rom_ref list" where
  "matches dat known a =
     (case file_hash known a of
        None \<Rightarrow> []
      | Some h \<Rightarrow> map snd (filter (\<lambda>(rom, r). rom_hash rom a = Some h) (rom_slots dat)))"

lemma normalise_for_lookup_simps [simp]:
  "normalise_for_lookup v ''SHA-256'' = normalise_sha256 v"
  "normalise_for_lookup v ''SHA-1'' = normalise_sha1 v"
  "normalise_for_lookup v ''MD5'' = normalise_md5 v"
  "normalise_for_lookup v ''CRC32'' = normalise_crc32 v"
  by (simp_all add: normalise_for_lookup_def)

lemma audit_one_cases:
  "audit_one known (build_index dat) =
     (if matches dat known Sha256 \<noteq> [] then handle_candidates (matches dat known Sha256) ''SHA-256''
      else if matches dat known Sha1 \<noteq> [] then handle_candidates (matches dat known Sha1) ''SHA-1''
      else if matches dat known Md5 \<noteq> [] then handle_candidates (matches dat known Md5) ''MD5''
      else if matches dat known Crc32 \<noteq> []
      then audit_crc (the (file_hash known Crc32)) (kf_size_bytes known) (matches dat known Crc32)
      else if file_hash known Sha256 \<noteq> None \<or> file_hash known Sha1 \<noteq> None \<or>
              file_hash known Md5 \<noteq> None \<or> file_hash known Crc32 \<noteq> None then NotInDat
      else audit_filename known (build_index dat))"
  by (cases "file_hash known Sha256"; cases "file_hash known Sha1"; cases "file_hash known Md5";
      cases "file_hash known Crc32")
    (simp_all add: audit_one_def matches_def index_lookups Let_def)

lemma handle_candidates_not_weak:
  assumes "cs \<noteq> []"
  shows "is_confident (handle_candidates cs alg)"
    and "handle_candidates cs alg = Exact g r alg' \<longleftrightarrow>
      (\<exists>c. cs = [c] \<and> g = rr_game_name c \<and> r = rr_rom_name c \<and> alg' = alg)"
  using assms by (auto simp: handle_candidates_def split: list.splits)

lemma audit_crc_weak: "\<not> is_confident (audit_crc h n cs)" "audit_crc h n cs \<noteq> NotInDat"
  by (auto simp: audit_crc_def Let_def split: option.splits list.splits)

lemma audit_filename_weak:
  "\<not> is_confident (audit_filename k i)" "audit_filename k i \<noteq> NotInDat"
  by (auto simp: audit_filename_def Let_def split: list.splits)

text \<open>
  C23: An \<open>Exact\<close> verdict is sound and complete. It is reported for an algorithm exactly when
  that algorithm is cryptographic, exactly one declared rom carries the file's hash, the
  verdict names that rom, and every stronger algorithm found nothing.
\<close>

theorem audit_exact_iff:
  "audit_one known (build_index dat) = Exact g r (algorithm_label a) \<longleftrightarrow>
   a \<noteq> Crc32 \<and> (\<exists>c. matches dat known a = [c] \<and> g = rr_game_name c \<and> r = rr_rom_name c) \<and>
   filter (\<lambda>b. a < b \<and> matches dat known b \<noteq> []) [Crc32, Md5, Sha1, Sha256] = []"
proof -
  have weak: "audit_crc h n cs \<noteq> Exact x y z" "audit_filename k i \<noteq> Exact x y z"
    for h n cs x y z k i
    using audit_crc_weak(1) [of h n cs] audit_filename_weak(1) [of k i] by (metis is_confident.simps(1))+
  show ?thesis
    unfolding audit_one_cases
    by (cases a; cases "matches dat known Sha256 = []"; cases "matches dat known Sha1 = []";
        cases "matches dat known Md5 = []")
      (simp_all add: handle_candidates_not_weak(2) weak less_checksum_algorithm_def conj_commute)
qed

text \<open>
  A file is confidently identified exactly when one of its cryptographic hashes is
  declared by some rom: a CRC32 or a file name never makes a verdict confident.
\<close>

theorem audit_confident_iff:
  "is_confident (audit_one known (build_index dat)) \<longleftrightarrow>
   matches dat known Sha256 @ matches dat known Sha1 @ matches dat known Md5 \<noteq> []"
  unfolding audit_one_cases
  by (cases "matches dat known Sha256 = []"; cases "matches dat known Sha1 = []";
      cases "matches dat known Md5 = []")
    (simp_all add: handle_candidates_not_weak(1) audit_crc_weak audit_filename_weak)

text \<open>
  A file is reported as not in the catalogue exactly when at least one of its hashes is
  well formed and none of them, the CRC32 included, is declared by any rom. In particular
  holding a stronger hash the catalogue does not publish never hides a weaker match, and
  a matching file name never overrides a hash.
\<close>

theorem audit_not_in_dat_iff:
  "audit_one known (build_index dat) = NotInDat \<longleftrightarrow>
   (\<exists>a. file_hash known a \<noteq> None) \<and> (\<nexists>a. matches dat known a \<noteq> [])"
proof -
  have ex: "(\<exists>a. P a) \<longleftrightarrow> P Sha256 \<or> P Sha1 \<or> P Md5 \<or> P Crc32" for P
    by (metis checksum_algorithm.exhaust)
  have conf: "cs \<noteq> [] \<Longrightarrow> handle_candidates cs alg \<noteq> NotInDat" for cs alg
    by (auto simp: handle_candidates_def split: list.splits)
  show ?thesis
    unfolding audit_one_cases ex
    by (cases "matches dat known Sha256 = []"; cases "matches dat known Sha1 = []";
        cases "matches dat known Md5 = []"; cases "matches dat known Crc32 = []")
      (auto simp: conf audit_crc_weak audit_filename_weak)
qed

lemma build_summary_fold:
  "let s' = fold (\<lambda>e. count_verdict (ae_verdict e)) es s in
   as_total s' = as_total s \<and>
   as_exact s' + as_exact_multiple s' + as_probable s' + as_filename_only s' + as_probable_multiple s' +
     as_ambiguous s' + as_not_in_dat s' + as_no_evidence s' =
   as_exact s + as_exact_multiple s + as_probable s + as_filename_only s + as_probable_multiple s +
     as_ambiguous s + as_not_in_dat s + as_no_evidence s + length es"
proof (induction es arbitrary: s)
  case Nil
  then show ?case by simp
next
  case (Cons e es)
  from Cons.IH [of "count_verdict (ae_verdict e) s"] show ?case
    by (cases "ae_verdict e") (simp_all add: count_verdict_def Let_def)
qed

text \<open>
  An audit reports every file once, in order, and its eight counts add up to the number
  of files.
\<close>

theorem audit_files_complete:
  "map ae_local_path (ar_entries (audit_files known index)) = map kf_filepath known \<and>
   (let s = ar_summary (audit_files known index) in
    as_total s = length known \<and>
    as_exact s + as_exact_multiple s + as_probable s + as_filename_only s + as_probable_multiple s +
      as_ambiguous s + as_not_in_dat s + as_no_evidence s = length known)"
proof -
  let ?es = "ar_entries (audit_files known index)"
  have es: "map ae_local_path ?es = map kf_filepath known" "length ?es = length known"
    "ar_summary (audit_files known index) = build_summary ?es"
    by (simp_all add: audit_files_def Let_def)
  show ?thesis
    using build_summary_fold [of ?es "empty_audit_summary\<lparr>as_total := length ?es\<rparr>"] es
    by (simp add: build_summary_def empty_audit_summary_def Let_def)
qed

end
