(* ===== verification/ArchiveModel.thy ===== *)
theory ArchiveModel
  imports DatAudit TxnModel "HOL-Library.Word"
begin

text \<open>
  Archive-member evidence: the data types and the run budget of \<open>dat/archive/mod.rs\<close>, and
  the per-archive audit records of \<open>dat/sources/audit_run.rs\<close>. Budgets are \<open>u64\<close>: machine
  words of 64 bits, with the source's checked addition written out.
\<close>

section \<open>Member evidence\<close>

record archive_member_hashes =
  mh_crc32 :: string
  mh_md5 :: string
  mh_sha1 :: string
  mh_sha256 :: string

datatype archive_member_status =
  HashComplete | EmptyFile | NestedArchive | Encrypted | UnsupportedCodec string
| RefusedLimits string | CorruptMember string | NotVerified string

record archive_member_evidence =
  me_archive_path :: path
  me_member_name_raw :: "nat list"
  me_member_name_display :: string
  me_index :: nat
  me_logical_size :: nat
  me_is_nested_archive :: bool
  me_status :: archive_member_status
  me_hashes :: "archive_member_hashes option"

definition is_hash_complete :: "archive_member_evidence \<Rightarrow> bool" where
  "is_hash_complete e \<longleftrightarrow> me_status e = HashComplete"

datatype archive_pass_stop_reason =
  PassCancelled | MemberRefused nat archive_member_status | RunLogicalBudget | OuterFileChanged
| SourceError string

datatype archive_pass_completion = PassComplete | PassIncomplete archive_pass_stop_reason

record archive_pass_outcome =
  po_members :: "archive_member_evidence list"
  po_total_members :: nat
  po_completion :: archive_pass_completion

definition pass_is_complete :: "archive_pass_outcome \<Rightarrow> bool" where
  "pass_is_complete p \<longleftrightarrow> po_completion p = PassComplete"

section \<open>The budget of a run\<close>

record archive_run_budget =
  rb_maximum :: "64 word"
  rb_consumed :: "64 word"

definition new_budget :: "64 word \<Rightarrow> archive_run_budget" where
  "new_budget m = \<lparr> rb_maximum = m, rb_consumed = 0 \<rparr>"

text \<open>\<open>saturating_sub\<close> and \<open>checked_add\<close>.\<close>

definition saturating_sub :: "64 word \<Rightarrow> 64 word \<Rightarrow> 64 word" where
  "saturating_sub a b = (if b \<le> a then a - b else 0)"

definition checked_add :: "64 word \<Rightarrow> 64 word \<Rightarrow> 64 word option" where
  "checked_add a b = (if a + b < a then None else Some (a + b))"

definition budget_remaining :: "archive_run_budget \<Rightarrow> 64 word" where
  "budget_remaining b = saturating_sub (rb_maximum b) (rb_consumed b)"

definition try_charge :: "64 word \<Rightarrow> archive_run_budget \<Rightarrow> bool \<times> archive_run_budget" where
  "try_charge bytes b =
     (case checked_add (rb_consumed b) bytes of
        None \<Rightarrow> (False, b)
      | Some next_total \<Rightarrow>
          if next_total > rb_maximum b then (False, b)
          else (True, b\<lparr>rb_consumed := next_total\<rparr>))"

lemma checked_add_Some:
  "checked_add a b = (if unat a + unat b < 2 ^ 64 then Some (a + b) else None)"
proof (cases "unat a + unat b < 2 ^ 64")
  case True
  then have "unat (a + b) = unat a + unat b" by (simp add: unat_add_lem [symmetric])
  then have "\<not> a + b < a" by (simp add: word_less_nat_alt)
  then show ?thesis using True by (simp add: checked_add_def)
next
  case False
  have a: "unat a < 2 ^ 64" and b: "unat b < 2 ^ 64"
    using unsigned_less [of a, where 'a = nat] unsigned_less [of b, where 'a = nat] by simp_all
  have "unat (a + b) = (unat a + unat b) mod 2 ^ 64" by (simp add: unat_word_ariths)
  also have "\<dots> = unat a + unat b - 2 ^ 64" using a b False by (simp add: mod_if)
  finally have "a + b < a" using False a b by (simp add: word_less_nat_alt)
  then show ?thesis using False by (simp add: checked_add_def)
qed

text \<open>
  A charge is accepted exactly when the true sum of the consumed and the charged bytes
  is at most the maximum, also where the 64-bit addition would wrap around; an accepted
  charge adds exactly the bytes, a refused one changes nothing, and the maximum never moves.
\<close>

theorem charge_is_exact:
  "(fst (try_charge bytes b) \<longleftrightarrow> unat (rb_consumed b) + unat bytes \<le> unat (rb_maximum b)) \<and>
   unat (rb_consumed (snd (try_charge bytes b))) =
     unat (rb_consumed b) + (if fst (try_charge bytes b) then unat bytes else 0) \<and>
   rb_maximum (snd (try_charge bytes b)) = rb_maximum b"
proof (cases "unat (rb_consumed b) + unat bytes < 2 ^ 64")
  case True
  then have "unat (rb_consumed b + bytes) = unat (rb_consumed b) + unat bytes"
    by (simp add: unat_add_lem [symmetric])
  then show ?thesis using True by (auto simp: try_charge_def checked_add_Some word_less_nat_alt)
next
  case False
  then have "\<not> unat (rb_consumed b) + unat bytes \<le> unat (rb_maximum b)"
    using unsigned_less [of "rb_maximum b", where 'a = nat] by simp
  then show ?thesis using False by (simp add: try_charge_def checked_add_Some)
qed

section \<open>Archives in an audit\<close>

record dat_archive_member_audit =
  am_evidence :: archive_member_evidence
  am_verdict :: "audit_verdict option"
  am_matched_refs :: "dat_rom_ref list"

record dat_archive_audit =
  aa_archive_path :: path
  aa_outer_identity :: "object_identity option"
  aa_format :: string
  aa_total_members :: nat
  aa_completion :: archive_pass_completion
  aa_members :: "dat_archive_member_audit list"

end
