(* ===== verification/ChdHeader.thy ===== *)
theory ChdHeader
  imports Text "HOL-Library.Word"
begin

text \<open>
  The bounded reader of CHD v5 headers: \<open>dat/archive/chd.rs\<close>. Bytes are 8-bit words, header
  fields machine words of their width.

  A \<open>Read + Seek\<close> is a byte string with a position and a script of what the next calls of
  \<open>read\<close> do beyond the ordinary: deliver fewer bytes than asked for (at least one before
  the end), be interrupted, or fail. \<open>read\<close> returns 0 exactly at the end of the data.
\<close>

type_synonym byte = "8 word"

section \<open>Readers\<close>

datatype read_event = ShortRead nat | Interrupted | ReadFails string

record byte_reader =
  br_data :: "byte list"
  br_pos :: nat
  br_script :: "read_event list"
  br_seek_error :: "string option"

datatype read_result = ReadOk "byte list" | ReadInterrupted | ReadError string

definition deliver :: "nat \<Rightarrow> byte_reader \<Rightarrow> read_result \<times> byte_reader" where
  "deliver n r =
     (let bs = take n (drop (br_pos r) (br_data r))
      in (ReadOk bs, r\<lparr>br_pos := br_pos r + length bs\<rparr>))"

definition read_call :: "nat \<Rightarrow> byte_reader \<Rightarrow> read_result \<times> byte_reader" where
  "read_call want r =
     (case br_script r of
        [] \<Rightarrow> deliver want r
      | ShortRead k # s \<Rightarrow> deliver (min want (Suc k)) (r\<lparr>br_script := s\<rparr>)
      | Interrupted # s \<Rightarrow> (ReadInterrupted, r\<lparr>br_script := s\<rparr>)
      | ReadFails e # s \<Rightarrow> (ReadError e, r\<lparr>br_script := s\<rparr>))"

definition seek_start :: "byte_reader \<Rightarrow> string option \<times> byte_reader" where
  "seek_start r =
     (case br_seek_error r of Some e \<Rightarrow> (Some e, r) | None \<Rightarrow> (None, r\<lparr>br_pos := 0\<rparr>))"

section \<open>Headers and refusals\<close>

definition chd_v5_header_bytes :: nat where "chd_v5_header_bytes = 124"
definition chd_v5_max_hunk_bytes :: "32 word" where "chd_v5_max_hunk_bytes = 524288"
definition fixed_prefix_bytes :: nat where "fixed_prefix_bytes = 16"

definition chd_magic :: "byte list" where
  "chd_magic = [77, 67, 111, 109, 112, 114, 72, 68]"

record chd_v5_header =
  ch_compressors :: "32 word list"
  ch_logical_bytes :: "64 word"
  ch_map_offset :: "64 word"
  ch_meta_offset :: "64 word"
  ch_hunk_bytes :: "32 word"
  ch_unit_bytes :: "32 word"
  ch_raw_sha1 :: "byte list"
  ch_overall_sha1 :: "byte list"
  ch_parent_sha1 :: "byte list"

definition parent_required :: "chd_v5_header \<Rightarrow> bool" where
  "parent_required h = list_ex (\<lambda>b. b \<noteq> 0) (ch_parent_sha1 h)"

datatype chd_geometry_error =
  HunkBytesZero | HunkBytesTooLarge "32 word" "32 word" | UnitBytesZero
| UnitBytesExceedHunk "32 word" "32 word"

datatype chd_header_error =
  Truncated nat nat | InvalidMagic | InvalidLength "32 word" | UnsupportedVersion "32 word"
| InvalidGeometry chd_geometry_error | ChdIo string

section \<open>Reading\<close>

text \<open>
  \<open>read_required\<close>: \<open>filled\<close> is what the destination already holds, \<open>want\<close> its length. A
  read that delivers nothing is the end of the data; an interrupted one is tried again.
\<close>

function read_required ::
    "nat \<Rightarrow> nat \<Rightarrow> byte list \<Rightarrow> byte_reader \<Rightarrow> (chd_header_error + byte list) \<times> byte_reader" where
  "read_required already_read want filled r =
     (if length filled \<ge> want then (Inr filled, r)
      else (case read_call (want - length filled) r of
              (ReadOk bs, r') \<Rightarrow>
                if bs = [] then (Inl (Truncated (already_read + want) (already_read + length filled)), r')
                else read_required already_read want (filled @ bs) r'
            | (ReadInterrupted, r') \<Rightarrow> read_required already_read want filled r'
            | (ReadError e, r') \<Rightarrow> (Inl (ChdIo e), r')))"
  by pat_completeness auto
termination
  by (relation "measures [\<lambda>(already_read, want, filled, r). want - length filled,
        \<lambda>(already_read, want, filled, r). length (br_script r)]")
     (auto simp: read_call_def deliver_def Let_def min_def split: list.splits read_event.splits if_splits)

declare read_required.simps [simp del]

definition be_nat :: "byte list \<Rightarrow> nat" where
  "be_nat bs = foldl (\<lambda>n b. 256 * n + unat b) 0 bs"

definition u32_at :: "byte list \<Rightarrow> nat \<Rightarrow> 32 word" where
  "u32_at bytes offset = of_nat (be_nat (take 4 (drop offset bytes)))"

definition u64_at :: "byte list \<Rightarrow> nat \<Rightarrow> 64 word" where
  "u64_at bytes offset = of_nat (be_nat (take 8 (drop offset bytes)))"

definition array_at :: "nat \<Rightarrow> byte list \<Rightarrow> nat \<Rightarrow> byte list" where
  "array_at len bytes offset = take len (drop offset bytes)"

definition validate_geometry :: "32 word \<Rightarrow> 32 word \<Rightarrow> chd_header_error + unit" where
  "validate_geometry hunk_bytes unit_bytes =
     (if hunk_bytes = 0 then Inl (InvalidGeometry HunkBytesZero)
      else if hunk_bytes > chd_v5_max_hunk_bytes
      then Inl (InvalidGeometry (HunkBytesTooLarge hunk_bytes chd_v5_max_hunk_bytes))
      else if unit_bytes = 0 then Inl (InvalidGeometry UnitBytesZero)
      else if unit_bytes > hunk_bytes
      then Inl (InvalidGeometry (UnitBytesExceedHunk unit_bytes hunk_bytes))
      else Inr ())"

definition decode_header :: "byte list \<Rightarrow> chd_v5_header" where
  "decode_header bytes =
     \<lparr> ch_compressors = [u32_at bytes 16, u32_at bytes 20, u32_at bytes 24, u32_at bytes 28],
       ch_logical_bytes = u64_at bytes 32, ch_map_offset = u64_at bytes 40,
       ch_meta_offset = u64_at bytes 48, ch_hunk_bytes = u32_at bytes 56,
       ch_unit_bytes = u32_at bytes 60, ch_raw_sha1 = array_at 20 bytes 64,
       ch_overall_sha1 = array_at 20 bytes 84, ch_parent_sha1 = array_at 20 bytes 104 \<rparr>"

definition read_chd_v5_header :: "byte_reader \<Rightarrow> (chd_header_error + chd_v5_header) \<times> byte_reader" where
  "read_chd_v5_header r0 =
     (case seek_start r0 of
        (Some e, r) \<Rightarrow> (Inl (ChdIo e), r)
      | (None, r) \<Rightarrow>
     (case read_required 0 fixed_prefix_bytes [] r of
        (Inl e, r1) \<Rightarrow> (Inl e, r1)
      | (Inr head, r1) \<Rightarrow>
          if take 8 head \<noteq> chd_magic then (Inl InvalidMagic, r1)
          else if u32_at head 12 \<noteq> 5 then (Inl (UnsupportedVersion (u32_at head 12)), r1)
          else if u32_at head 8 \<noteq> of_nat chd_v5_header_bytes then (Inl (InvalidLength (u32_at head 8)), r1)
          else
     (case read_required fixed_prefix_bytes (chd_v5_header_bytes - fixed_prefix_bytes) [] r1 of
        (Inl e, r2) \<Rightarrow> (Inl e, r2)
      | (Inr tail, r2) \<Rightarrow>
          (let bytes = head @ tail in
           case validate_geometry (u32_at bytes 56) (u32_at bytes 60) of
             Inl e \<Rightarrow> (Inl e, r2)
           | Inr _ \<Rightarrow> (Inr (decode_header bytes), r2)))))"

section \<open>What a read returns does not depend on how the bytes arrive\<close>

definition no_failure :: "byte_reader \<Rightarrow> bool" where
  "no_failure r \<longleftrightarrow> list_all (\<lambda>e. \<forall>m. e \<noteq> ReadFails m) (br_script r)"

lemma read_call_cases:
  assumes "no_failure r" and "0 < n"
  obtains (interrupted) r' where "read_call n r = (ReadInterrupted, r')" and "no_failure r'"
      and "br_data r' = br_data r" and "br_pos r' = br_pos r"
  | (bytes) k r' where "read_call n r = (ReadOk (take k (drop (br_pos r) (br_data r))), r')"
      and "0 < k" and "k \<le> n" and "no_failure r'" and "br_data r' = br_data r"
      and "br_pos r' = br_pos r + length (take k (drop (br_pos r) (br_data r)))"
proof (cases "br_script r")
  case Nil
  then show ?thesis using assms by (intro bytes [of n "snd (read_call n r)"]) (auto simp: read_call_def deliver_def no_failure_def Let_def)
next
  case (Cons e s)
  show ?thesis
  proof (cases e)
    case (ShortRead k)
    then show ?thesis using assms Cons
      by (intro bytes [of "min n (Suc k)" "snd (read_call n r)"]) (auto simp: read_call_def deliver_def no_failure_def Let_def)
  next
    case Interrupted
    then show ?thesis using assms Cons by (intro interrupted [of "snd (read_call n r)"]) (auto simp: read_call_def no_failure_def)
  next
    case (ReadFails m)
    then show ?thesis using assms Cons by (simp add: no_failure_def)
  qed
qed

definition required_result :: "nat \<Rightarrow> nat \<Rightarrow> byte list \<Rightarrow> byte list \<Rightarrow> chd_header_error + byte list" where
  "required_result already_read want filled avail =
     (if want - length filled \<le> length avail then Inr (filled @ take (want - length filled) avail)
      else Inl (Truncated (already_read + want) (already_read + length filled + length avail)))"

lemma required_result_step:
  assumes "k \<le> want - length filled"
  shows "required_result a want (filled @ take k avail) (drop k avail) = required_result a want filled avail"
proof -
  have "k + (want - (length filled + k)) = want - length filled" using assms by arith
  then show ?thesis
    using assms by (auto simp: required_result_def min_def take_add [symmetric] split: if_splits)
qed

lemma min_chunks:
  "k \<le> w - f \<Longrightarrow> min (d - p) k + min (w - (f + min (d - p) k)) (d - (p + min (d - p) k)) = min (w - f) (d - p)"
  for k w f d p :: nat
  by (auto simp: min_def)

lemma read_required_spec:
  assumes "no_failure r" and "length filled \<le> want"
  shows "fst (read_required a want filled r) = required_result a want filled (drop (br_pos r) (br_data r))
    \<and> no_failure (snd (read_required a want filled r))
    \<and> br_data (snd (read_required a want filled r)) = br_data r
    \<and> br_pos (snd (read_required a want filled r)) =
        br_pos r + min (want - length filled) (length (br_data r) - br_pos r)"
  using assms
proof (induction a want filled r rule: read_required.induct)
  case (1 a want filled r)
  show ?case
  proof (cases "length filled \<ge> want")
    case True
    then show ?thesis using "1.prems" by (simp add: read_required.simps required_result_def)
  next
    case False
    then have pos: "0 < want - length filled" by simp
    show ?thesis
    proof (rule read_call_cases [OF "1.prems"(1) pos])
      fix r' assume c: "read_call (want - length filled) r = (ReadInterrupted, r')" "no_failure r'"
        "br_data r' = br_data r" "br_pos r' = br_pos r"
      have step: "read_required a want filled r = read_required a want filled r'"
        using False c(1) by (subst read_required.simps) simp
      show ?thesis unfolding step using "1.IH"(2) [OF False c(1) [symmetric] refl c(2) "1.prems"(2)] c(3,4) by simp
    next
      fix k r' let ?bs = "take k (drop (br_pos r) (br_data r))"
      assume c: "read_call (want - length filled) r = (ReadOk ?bs, r')" "0 < k" "k \<le> want - length filled"
        "no_failure r'" "br_data r' = br_data r" "br_pos r' = br_pos r + length ?bs"
      show ?thesis
      proof (cases "?bs = []")
        case True
        then have avail: "drop (br_pos r) (br_data r) = []" using c(2) by simp
        have step: "read_required a want filled r = (Inl (Truncated (a + want) (a + length filled)), r')"
          using False c(1) True by (subst read_required.simps) simp
        show ?thesis unfolding step using c False avail by (auto simp: required_result_def)
      next
        case ne: False
        have len: "length (filled @ ?bs) \<le> want" using c(3) False by simp
        have step: "read_required a want filled r = read_required a want (filled @ ?bs) r'"
          using False c(1) ne by (subst read_required.simps) simp
        have rest: "drop (br_pos r') (br_data r') = drop k (drop (br_pos r) (br_data r))"
          using c(5,6) by (simp add: min_def add.commute)
        have "required_result a want (filled @ ?bs) (drop (br_pos r') (br_data r')) =
            required_result a want filled (drop (br_pos r) (br_data r))"
          unfolding rest by (rule required_result_step [OF c(3)])
        then show ?thesis unfolding step
          using "1.IH"(1) [OF False c(1) [symmetric] refl ne c(4) len] c(3,5,6) by (auto simp: min_chunks)
      qed
    qed
  qed
qed

section \<open>The reader is the parser of the first 124 bytes\<close>

text \<open>The specification: what the bytes of a file say, the refusals in the code's order.\<close>

definition parse_chd :: "byte list \<Rightarrow> chd_header_error + chd_v5_header" where
  "parse_chd d =
     (if length d < 16 then Inl (Truncated 16 (length d))
      else if take 8 d \<noteq> chd_magic then Inl InvalidMagic
      else if u32_at d 12 \<noteq> 5 then Inl (UnsupportedVersion (u32_at d 12))
      else if u32_at d 8 \<noteq> 124 then Inl (InvalidLength (u32_at d 8))
      else if length d < 124 then Inl (Truncated 124 (length d))
      else (case validate_geometry (u32_at d 56) (u32_at d 60) of
              Inl e \<Rightarrow> Inl e
            | Inr _ \<Rightarrow> Inr (decode_header d)))"

lemma at_take:
  "off + 4 \<le> n \<Longrightarrow> u32_at (take n d) off = u32_at d off"
  "off + 8 \<le> n \<Longrightarrow> u64_at (take n d) off = u64_at d off"
  "off + len \<le> n \<Longrightarrow> array_at len (take n d) off = array_at len d off"
  by (simp_all add: u32_at_def u64_at_def array_at_def drop_take min_def)

lemma decode_take: "decode_header (take 124 d) = decode_header d"
  by (simp add: decode_header_def at_take)

lemma required_head: "required_result 0 16 [] d = (if 16 \<le> length d then Inr (take 16 d) else Inl (Truncated 16 (length d)))"
  by (simp add: required_result_def)

lemma required_tail:
  assumes "16 \<le> length d"
  shows "required_result 16 108 [] (drop 16 d) =
    (if 124 \<le> length d then Inr (take 108 (drop 16 d)) else Inl (Truncated 124 (length d)))"
  using assms by (auto simp: required_result_def)

lemma head_tail: "take 16 d @ take 108 (drop 16 d) = take 124 d"
  using take_add [of 16 108 d] by simp

lemma read_chd_spec:
  assumes "br_seek_error r = None" and "no_failure r"
  shows "fst (read_chd_v5_header r) = parse_chd (br_data r) \<and> br_pos (snd (read_chd_v5_header r)) \<le> 124"
proof -
  let ?d = "br_data r" and ?r0 = "r\<lparr>br_pos := 0\<rparr>"
  have seek: "seek_start r = (None, ?r0)" using assms(1) by (simp add: seek_start_def)
  have nf: "no_failure ?r0" using assms(2) by (simp add: no_failure_def)
  obtain x1 r1 where first: "read_required 0 16 [] ?r0 = (x1, r1)" by (cases "read_required 0 16 [] ?r0")
  have one: "x1 = required_result 0 16 [] ?d" "no_failure r1" "br_data r1 = ?d" "br_pos r1 = min 16 (length ?d)"
    using read_required_spec [OF nf, of "[]" 16 0] first by simp_all
  obtain x2 r2 where second: "read_required 16 108 [] r1 = (x2, r2)" by (cases "read_required 16 108 [] r1")
  have two: "x2 = required_result 16 108 [] (drop (br_pos r1) ?d)" "br_pos r2 \<le> br_pos r1 + 108"
    using read_required_spec [OF one(2), of "[]" 108 16] second one(3) by simp_all
  have run: "read_chd_v5_header r =
      (case x1 of Inl e \<Rightarrow> (Inl e, r1)
       | Inr head \<Rightarrow>
          if take 8 head \<noteq> chd_magic then (Inl InvalidMagic, r1)
          else if u32_at head 12 \<noteq> 5 then (Inl (UnsupportedVersion (u32_at head 12)), r1)
          else if u32_at head 8 \<noteq> 124 then (Inl (InvalidLength (u32_at head 8)), r1)
          else (case x2 of Inl e \<Rightarrow> (Inl e, r2)
                | Inr tail \<Rightarrow>
                    (case validate_geometry (u32_at (head @ tail) 56) (u32_at (head @ tail) 60) of
                       Inl e \<Rightarrow> (Inl e, r2)
                     | Inr _ \<Rightarrow> (Inr (decode_header (head @ tail)), r2))))"
    by (simp add: read_chd_v5_header_def seek fixed_prefix_bytes_def chd_v5_header_bytes_def first second
        Let_def split: sum.splits)
  have pos: "br_pos r1 \<le> 16" "br_pos r2 \<le> 124" using one(4) two(2) by simp_all
  show ?thesis
  proof (cases "16 \<le> length ?d")
    case False
    then have "x1 = Inl (Truncated 16 (length ?d))" using one(1) by (simp add: required_head)
    then show ?thesis using False pos unfolding run by (simp add: parse_chd_def)
  next
    case True
    have x1: "x1 = Inr (take 16 ?d)" using True one(1) by (simp add: required_head)
    have x2: "x2 = (if 124 \<le> length ?d then Inr (take 108 (drop 16 ?d)) else Inl (Truncated 124 (length ?d)))"
      using two(1) one(4) True by (simp add: required_tail)
    show ?thesis
      unfolding run x1 x2 using True pos
      by (simp add: parse_chd_def at_take head_tail decode_take min_def split: sum.splits)
  qed
qed

text \<open>
  Whatever pieces the bytes arrive in and however often a read is interrupted, as long as
  no read fails the header reader returns exactly what the bytes of the file say, refusals
  included, and it never reads past byte 124.
\<close>

theorem header_read_is_parse:
  assumes "br_seek_error r = None" and "no_failure r"
  shows "fst (read_chd_v5_header r) = parse_chd (br_data r) \<and> br_pos (snd (read_chd_v5_header r)) \<le> 124"
  by (rule read_chd_spec [OF assms])

section \<open>Round trip\<close>

text \<open>\<open>encode_chd\<close> lays a header out as the CHD v5 format does; it is a specification, not code.\<close>

fun be_bytes :: "nat \<Rightarrow> nat \<Rightarrow> byte list" where
  "be_bytes 0 n = []"
| "be_bytes (Suc k) n = be_bytes k (n div 256) @ [of_nat n]"

definition encode_chd :: "chd_v5_header \<Rightarrow> byte list" where
  "encode_chd h =
     chd_magic @ be_bytes 4 124 @ be_bytes 4 5 @
     concat (map (\<lambda>c. be_bytes 4 (unat c)) (ch_compressors h)) @
     be_bytes 8 (unat (ch_logical_bytes h)) @ be_bytes 8 (unat (ch_map_offset h)) @
     be_bytes 8 (unat (ch_meta_offset h)) @ be_bytes 4 (unat (ch_hunk_bytes h)) @
     be_bytes 4 (unat (ch_unit_bytes h)) @ ch_raw_sha1 h @ ch_overall_sha1 h @ ch_parent_sha1 h"

definition wf_header :: "chd_v5_header \<Rightarrow> bool" where
  "wf_header h \<longleftrightarrow>
     length (ch_compressors h) = 4 \<and> length (ch_raw_sha1 h) = 20 \<and> length (ch_overall_sha1 h) = 20 \<and>
     length (ch_parent_sha1 h) = 20 \<and> validate_geometry (ch_hunk_bytes h) (ch_unit_bytes h) = Inr ()"

lemma length_be_bytes [simp]: "length (be_bytes k n) = k"
  by (induction k arbitrary: n) simp_all

lemma be_nat_be_bytes: "be_nat (be_bytes k n) = n mod 256 ^ k"
proof (induction k arbitrary: n)
  case 0
  then show ?case by (simp add: be_nat_def)
next
  case (Suc k)
  have "be_nat (be_bytes (Suc k) n) = 256 * (n div 256 mod 256 ^ k) + n mod 256"
    using Suc.IH [of "n div 256"] by (simp add: be_nat_def unsigned_of_nat take_bit_eq_mod)
  also have "\<dots> = n mod 256 ^ Suc k" by (simp add: mod_mult2_eq)
  finally show ?case .
qed

lemma be_word32 [simp]: "of_nat (be_nat (be_bytes 4 (unat w))) = w" for w :: "32 word"
  using unsigned_less [of w, where 'a = nat] by (simp add: be_nat_be_bytes)

lemma be_word64 [simp]: "of_nat (be_nat (be_bytes 8 (unat w))) = w" for w :: "64 word"
  using unsigned_less [of w, where 'a = nat] by (simp add: be_nat_be_bytes)

lemma be_bytes_4_124 [simp]: "be_nat (be_bytes 4 124) = 124" and be_bytes_4_5 [simp]: "be_nat (be_bytes 4 5) = 5"
  by (simp_all add: be_nat_be_bytes)

lemma length_chd_magic [simp]: "length chd_magic = 8"
  by (simp add: chd_magic_def)

lemma length_encode_chd: "wf_header h \<Longrightarrow> length (encode_chd h) = 124"
  by (auto simp: encode_chd_def wf_header_def length_concat comp_def sum_list_triv)

text \<open>
  C40: Laying out a header with legal geometry in the CHD v5 format and reading the bytes
  back gives the header, whatever follows the 124 bytes, however the bytes arrive.
\<close>

theorem chd_round_trip:
  assumes "wf_header h" and "br_data r = encode_chd h @ rest"
    and "br_seek_error r = None" and "no_failure r"
  shows "fst (read_chd_v5_header r) = Inr h"
proof -
  let ?d = "encode_chd h @ rest"
  have len: "124 \<le> length ?d" using length_encode_chd [OF assms(1)] by simp
  obtain c0 c1 c2 c3 where cs: "ch_compressors h = [c0, c1, c2, c3]"
    using assms(1) by (auto simp: wf_header_def length_Suc_conv numeral_eq_Suc)
  have sha: "length (ch_raw_sha1 h) = 20" "length (ch_overall_sha1 h) = 20" "length (ch_parent_sha1 h) = 20"
    and geo: "validate_geometry (ch_hunk_bytes h) (ch_unit_bytes h) = Inr ()"
    using assms(1) by (simp_all add: wf_header_def)
  note at = u32_at_def u64_at_def array_at_def encode_chd_def cs
  have head: "take 8 ?d = chd_magic" "u32_at ?d 12 = 5" "u32_at ?d 8 = 124" by (simp_all add: at)
  have comp: "u32_at ?d 16 = c0" "u32_at ?d 20 = c1" "u32_at ?d 24 = c2" "u32_at ?d 28 = c3"
    by (simp_all add: at)
  have offs: "u64_at ?d 32 = ch_logical_bytes h" "u64_at ?d 40 = ch_map_offset h" "u64_at ?d 48 = ch_meta_offset h"
    by (simp_all add: at)
  have geom: "u32_at ?d 56 = ch_hunk_bytes h" "u32_at ?d 60 = ch_unit_bytes h" by (simp_all add: at)
  have sums: "array_at 20 ?d 64 = ch_raw_sha1 h" "array_at 20 ?d 84 = ch_overall_sha1 h"
    "array_at 20 ?d 104 = ch_parent_sha1 h"
    using sha by (simp_all add: at)
  have "decode_header ?d = h"
    by (simp add: decode_header_def comp offs geom sums cs [symmetric])
  then have "parse_chd ?d = Inr h" using len by (simp add: parse_chd_def head geom geo del: take_append)
  then show ?thesis using read_chd_spec [OF assms(3,4)] assms(2) by simp
qed

section \<open>A header read in pieces\<close>

definition example_header :: chd_v5_header where
  "example_header =
     \<lparr> ch_compressors = [0x63646C7A, 0x63647A6C, 0x6364666C, 0], ch_logical_bytes = 0x123456789A,
       ch_map_offset = 5000, ch_meta_offset = 124, ch_hunk_bytes = 19584, ch_unit_bytes = 2448,
       ch_raw_sha1 = replicate 20 1, ch_overall_sha1 = replicate 20 2, ch_parent_sha1 = replicate 20 0 \<rparr>"

definition example_reader :: byte_reader where
  "example_reader =
     \<lparr> br_data = encode_chd example_header @ [1, 2, 3], br_pos = 7,
       br_script = [Interrupted, ShortRead 4, ShortRead 0, Interrupted, ShortRead 60],
       br_seek_error = None \<rparr>"

lemma example_header_wf: "wf_header example_header"
  by (simp add: wf_header_def example_header_def validate_geometry_def chd_v5_max_hunk_bytes_def)

lemma example_reader_ok: "no_failure example_reader" "br_seek_error example_reader = None"
  by (simp_all add: no_failure_def example_reader_def)

lemma chd_round_trip_witness:
  "wf_header example_header \<and> no_failure example_reader \<and>
   fst (read_chd_v5_header example_reader) = Inr example_header"
  using chd_round_trip [OF example_header_wf _ example_reader_ok(2,1), of "[1, 2, 3]"]
    example_header_wf example_reader_ok by (simp add: example_reader_def)

lemma header_read_is_parse_witness:
  "no_failure example_reader \<and>
   fst (read_chd_v5_header (example_reader\<lparr>br_data := [0]\<rparr>)) = Inl (Truncated 16 1) \<and>
   br_pos (snd (read_chd_v5_header example_reader)) \<le> 124"
proof -
  let ?r = "example_reader\<lparr>br_data := [0]\<rparr>"
  have r: "br_seek_error ?r = None" "no_failure ?r"
    by (simp_all add: no_failure_def example_reader_def)
  have "parse_chd [0] = Inl (Truncated 16 1)" by (simp add: parse_chd_def)
  then show ?thesis
    using header_read_is_parse [OF r] header_read_is_parse [OF example_reader_ok(2,1)] example_reader_ok
    by simp
qed

end
