(* ===== verification/SetModel.thy ===== *)
theory SetModel
  imports ArchiveModel ChdHeader
begin

text \<open>
  The vocabulary of set completeness: the types of \<open>dat/set.rs\<close>, the dependency vocabulary of
  \<open>dat/dependency/mod.rs\<close> and the disk evidence of \<open>dat/disk_audit.rs\<close>.
\<close>

section \<open>States of a set\<close>

record set_identity =
  si_source_id :: string
  si_game_name :: string

datatype bad_metadata_reason = NoDump | BadDump

datatype needs_review_reason =
  AmbiguousMemberAttribution | UnsupportedSetStructure | PartialArchivePass | DuplicateGameName
| DuplicateArchiveEvidence | ContradictoryMemberFlags | UnknownLoadflagReason | UnsupportedSoftware
| NoDeclaredMembers | OnlyNonFileOrOptionalMembers | AmbiguousDependency | DependencyCycle
| ContradictoryDependencyMetadata | UnsupportedDependencyStructure | DependencyEvidenceIncomplete

datatype set_state =
  SetComplete | SetIncomplete | SetBadMetadata bad_metadata_reason | SetNeedsReview needs_review_reason

record set_bad_member =
  bm_rom_name :: string
  bm_reason :: bad_metadata_reason

section \<open>Dependencies\<close>

datatype dependency_kind =
  ParentSet | RomSource | MergedRom | MergedDisk | BiosDependency | DeviceDependency
| SampleDependency | ChdParent

primrec dependency_kind_label :: "dependency_kind \<Rightarrow> string" where
  "dependency_kind_label ParentSet = ''parent set''"
| "dependency_kind_label RomSource = ''ROM source set''"
| "dependency_kind_label MergedRom = ''merged ROM''"
| "dependency_kind_label MergedDisk = ''merged disk''"
| "dependency_kind_label BiosDependency = ''BIOS''"
| "dependency_kind_label DeviceDependency = ''device''"
| "dependency_kind_label SampleDependency = ''sample''"
| "dependency_kind_label ChdParent = ''parent CHD''"

datatype dependency_target =
  SetTarget string | SetMember string string | BiosSet string string | SampleSet string
| ChdIdentity string | Undeclared

datatype dependency_outcome =
  OutSatisfied | OutMissing | OutAmbiguous | OutCycle | OutContradictory | OutUnsupported
| OutEvidenceUnavailable

definition outcome_permits_complete :: "dependency_outcome \<Rightarrow> bool" where
  "outcome_permits_complete outcome \<longleftrightarrow> outcome = OutSatisfied"

record dependency_requirement =
  rq_kind :: dependency_kind
  rq_target :: dependency_target
  rq_outcome :: dependency_outcome
  rq_via_member :: "string option"

datatype dependency_state =
  DepNotApplicable | DepNotEvaluated | DepSatisfied | DepMissing | DepAmbiguous | DepCycle
| DepContradictory | DepUnsupported | DepEvidenceUnavailable

definition state_permits_complete :: "dependency_state \<Rightarrow> bool" where
  "state_permits_complete s \<longleftrightarrow> s = DepNotApplicable \<or> s = DepSatisfied"

fun severity :: "dependency_outcome \<Rightarrow> nat" where
  "severity OutSatisfied = 0"
| "severity OutMissing = 1"
| "severity OutEvidenceUnavailable = 2"
| "severity OutUnsupported = 3"
| "severity OutAmbiguous = 4"
| "severity OutCycle = 5"
| "severity OutContradictory = 6"

fun state_of_outcome :: "dependency_outcome \<Rightarrow> dependency_state" where
  "state_of_outcome OutSatisfied = DepSatisfied"
| "state_of_outcome OutMissing = DepMissing"
| "state_of_outcome OutAmbiguous = DepAmbiguous"
| "state_of_outcome OutCycle = DepCycle"
| "state_of_outcome OutContradictory = DepContradictory"
| "state_of_outcome OutUnsupported = DepUnsupported"
| "state_of_outcome OutEvidenceUnavailable = DepEvidenceUnavailable"

definition worst_of :: "dependency_outcome list \<Rightarrow> dependency_outcome option" where
  "worst_of outcomes =
     foldl (\<lambda>worst outcome.
         case worst of
           None \<Rightarrow> Some outcome
         | Some current \<Rightarrow> if severity outcome > severity current then Some outcome else worst)
       None outcomes"

definition roll_up :: "dependency_outcome list \<Rightarrow> dependency_state" where
  "roll_up outcomes =
     (if outcomes = [] then DepNotApplicable
      else (case worst_of outcomes of None \<Rightarrow> DepSatisfied | Some w \<Rightarrow> state_of_outcome w))"

record set_dependency_report =
  dr_state :: dependency_state
  dr_requirements :: "dependency_requirement list"

definition not_evaluated :: set_dependency_report where
  "not_evaluated = \<lparr> dr_state = DepNotEvaluated, dr_requirements = [] \<rparr>"

definition from_requirements :: "dependency_requirement list \<Rightarrow> set_dependency_report" where
  "from_requirements rs = \<lparr> dr_state = roll_up (map rq_outcome rs), dr_requirements = rs \<rparr>"

definition blocking :: "set_dependency_report \<Rightarrow> dependency_requirement list" where
  "blocking rep = filter (\<lambda>r. \<not> outcome_permits_complete (rq_outcome r)) (dr_requirements rep)"

fun dependency_downgrade :: "dependency_state \<Rightarrow> set_state" where
  "dependency_downgrade DepNotApplicable = SetComplete"
| "dependency_downgrade DepSatisfied = SetComplete"
| "dependency_downgrade DepNotEvaluated = SetNeedsReview DependencyEvidenceIncomplete"
| "dependency_downgrade DepMissing = SetIncomplete"
| "dependency_downgrade DepAmbiguous = SetNeedsReview AmbiguousDependency"
| "dependency_downgrade DepCycle = SetNeedsReview DependencyCycle"
| "dependency_downgrade DepContradictory = SetNeedsReview ContradictoryDependencyMetadata"
| "dependency_downgrade DepUnsupported = SetNeedsReview UnsupportedDependencyStructure"
| "dependency_downgrade DepEvidenceUnavailable = SetNeedsReview DependencyEvidenceIncomplete"

definition apply_dependency_state :: "set_state \<Rightarrow> dependency_state \<Rightarrow> set_state" where
  "apply_dependency_state storage dependency =
     (if storage \<noteq> SetComplete then storage else dependency_downgrade dependency)"

record set_resolution =
  sr_identity :: set_identity
  sr_archive_path :: path
  sr_state :: set_state
  sr_members_required :: "string list"
  sr_members_verified :: "string list"
  sr_members_bad :: "set_bad_member list"
  sr_members_optional :: "string list"
  sr_members_borrowed :: "string list"
  sr_disks_required :: "string list"
  sr_disks_verified :: "string list"
  sr_disks_parent_required :: "string list"
  sr_dependencies :: set_dependency_report

section \<open>Disk evidence\<close>

datatype disk_audit_verdict =
  DiskExact string string | DiskExactMultipleCandidates nat "string list" | DiskNotInDat
| HeaderMalformed chd_header_error

record dat_disk_audit =
  da_chd_path :: path
  da_overall_sha1 :: "string option"
  da_parent_required :: bool
  da_parent_sha1 :: "string option"
  da_verdict :: "disk_audit_verdict option"
  da_matched_refs :: "dat_disk_ref list"

definition hex_lower :: "byte list \<Rightarrow> string" where
  "hex_lower bytes = concat (map (\<lambda>b. [hex_digit (unat b div 16), hex_digit (unat b mod 16)]) bytes)"

definition malformed_disk :: "path \<Rightarrow> chd_header_error \<Rightarrow> dat_disk_audit" where
  "malformed_disk p e =
     \<lparr> da_chd_path = p, da_overall_sha1 = None, da_parent_required = False, da_parent_sha1 = None,
       da_verdict = Some (HeaderMalformed e), da_matched_refs = [] \<rparr>"

text \<open>
  \<open>audit_chd_disk\<close>: \<open>open_read\<close> is \<open>open_bounded_read\<close> under the caller's trusted roots, a
  refusal with its text or a reader.
\<close>

definition audit_chd_disk ::
    "(path \<Rightarrow> string + byte_reader) \<Rightarrow> path \<Rightarrow> dat_disk_index \<Rightarrow> dat_disk_audit" where
  "audit_chd_disk open_read p index =
     (case open_read p of
        Inl detail \<Rightarrow> malformed_disk p (ChdIo detail)
      | Inr reader \<Rightarrow>
          (case fst (read_chd_v5_header reader) of
             Inl e \<Rightarrow> malformed_disk p e
           | Inr header \<Rightarrow>
               (let overall = hex_lower (ch_overall_sha1 header);
                    parent = parent_required header;
                    parent_sha1 = (if parent then parse_disk_sha1 (hex_lower (ch_parent_sha1 header)) else None);
                    found = (case parse_disk_sha1 overall of
                               Some valid \<Rightarrow> lookup_disk_sha1 index valid
                             | None \<Rightarrow> []);
                    (verdict, refs) =
                      (case found of
                         [] \<Rightarrow> (DiskNotInDat, [])
                       | [c] \<Rightarrow> (DiskExact (kr_game_name c) (kr_disk_name c), found)
                       | _ \<Rightarrow> (DiskExactMultipleCandidates (length found) (map kr_game_name found), found))
                in \<lparr> da_chd_path = p, da_overall_sha1 = Some overall, da_parent_required = parent,
                     da_parent_sha1 = parent_sha1, da_verdict = Some verdict, da_matched_refs = refs \<rparr>)))"

section \<open>Dependency states only ever downgrade\<close>

lemma severity_inj: "severity a = severity b \<longleftrightarrow> a = b"
  by (cases a; cases b) simp_all

lemma severity_0 [simp]: "severity x = 0 \<longleftrightarrow> x = OutSatisfied"
  by (cases x) simp_all

lemma worst_of_snoc:
  "worst_of (os @ [x]) =
     (case worst_of os of
        None \<Rightarrow> Some x
      | Some current \<Rightarrow> if severity x > severity current then Some x else Some current)"
  by (simp add: worst_of_def split: option.splits)

lemma worst_of_spec:
  "os \<noteq> [] \<Longrightarrow> \<exists>w. worst_of os = Some w \<and> w \<in> set os \<and> (\<forall>x \<in> set os. severity x \<le> severity w)"
proof (induction os rule: rev_induct)
  case Nil
  then show ?case by simp
next
  case (snoc x os)
  show ?case
  proof (cases "os = []")
    case True
    then show ?thesis by (simp add: worst_of_def)
  next
    case False
    then obtain w where w: "worst_of os = Some w" "w \<in> set os" "\<forall>x \<in> set os. severity x \<le> severity w"
      using snoc.IH by blast
    then show ?thesis by (cases "severity x > severity w") (auto simp: worst_of_snoc)
  qed
qed

lemma state_of_outcome_permits: "state_permits_complete (state_of_outcome x) \<longleftrightarrow> x = OutSatisfied"
  by (cases x) (simp_all add: state_permits_complete_def)

lemma roll_up_permits: "state_permits_complete (roll_up os) \<longleftrightarrow> list_all outcome_permits_complete os"
proof (cases "os = []")
  case True
  then show ?thesis by (simp add: roll_up_def state_permits_complete_def)
next
  case False
  obtain w where w: "worst_of os = Some w" "w \<in> set os" "\<forall>x \<in> set os. severity x \<le> severity w"
    using worst_of_spec [OF False] by blast
  have "w = OutSatisfied \<longleftrightarrow> (\<forall>x \<in> set os. x = OutSatisfied)"
    using w(2,3) by (metis bot_nat_0.extremum_uniqueI severity_0)
  then show ?thesis
    using False w(1) by (simp add: roll_up_def state_of_outcome_permits list_all_iff outcome_permits_complete_def)
qed

lemma downgrade_permits: "dependency_downgrade d = SetComplete \<longleftrightarrow> state_permits_complete d"
  by (cases d) (simp_all add: state_permits_complete_def)

text \<open>
  Folding the dependency report into a storage state never promotes: the result is
  complete exactly when storage was already complete and every requirement is satisfied
  (equivalently, nothing is blocking); any other storage state is returned unchanged; and
  the reported reason is that of a requirement of greatest severity.
\<close>

theorem dependencies_only_downgrade:
  "(apply_dependency_state storage (dr_state (from_requirements rs)) = SetComplete \<longleftrightarrow>
      storage = SetComplete \<and> blocking (from_requirements rs) = []) \<and>
   (storage = SetComplete \<or> apply_dependency_state storage d = storage) \<and>
   (rs = [] \<or> (\<exists>w \<in> set rs. dr_state (from_requirements rs) = state_of_outcome (rq_outcome w) \<and>
      list_all (\<lambda>r. severity (rq_outcome r) \<le> severity (rq_outcome w)) rs))"
proof (intro conjI)
  have "blocking (from_requirements rs) = [] \<longleftrightarrow> list_all outcome_permits_complete (map rq_outcome rs)"
    by (simp add: blocking_def from_requirements_def filter_empty_conv list_all_iff)
  then show "apply_dependency_state storage (dr_state (from_requirements rs)) = SetComplete \<longleftrightarrow>
      storage = SetComplete \<and> blocking (from_requirements rs) = []"
    using roll_up_permits [of "map rq_outcome rs"]
    by (simp add: apply_dependency_state_def downgrade_permits from_requirements_def)
  show "storage = SetComplete \<or> apply_dependency_state storage d = storage"
    by (simp add: apply_dependency_state_def)
  show "rs = [] \<or> (\<exists>w \<in> set rs. dr_state (from_requirements rs) = state_of_outcome (rq_outcome w) \<and>
      list_all (\<lambda>r. severity (rq_outcome r) \<le> severity (rq_outcome w)) rs)"
  proof (cases "rs = []")
    case False
    then obtain w where "worst_of (map rq_outcome rs) = Some w" "w \<in> set (map rq_outcome rs)"
        "\<forall>x \<in> set (map rq_outcome rs). severity x \<le> severity w"
      using worst_of_spec [of "map rq_outcome rs"] by auto
    then show ?thesis using False by (auto simp: from_requirements_def roll_up_def list_all_iff)
  qed simp
qed

end
