(* ===== verification/OrderedMap.thy ===== *)
theory OrderedMap
  imports Ordering
begin

text \<open>
  \<open>BTreeMap\<close>: an association list whose keys are strictly increasing for a comparator.
  \<open>adjust\<close> is \<open>*map.entry(k).or_insert(d) = f(*map.entry(k).or_insert(d))\<close>.
\<close>

fun adjust :: "('k \<Rightarrow> 'k \<Rightarrow> cmp_ordering) \<Rightarrow> 'k \<Rightarrow> 'v \<Rightarrow> ('v \<Rightarrow> 'v) \<Rightarrow> ('k \<times> 'v) list \<Rightarrow> ('k \<times> 'v) list"
where
  "adjust c k d f [] = [(k, f d)]"
| "adjust c k d f ((k', v) # m) =
     (case c k k' of
        Less \<Rightarrow> (k, f d) # (k', v) # m
      | Equal \<Rightarrow> (k', f v) # m
      | Greater \<Rightarrow> (k', v) # adjust c k d f m)"

definition keys_sorted :: "('k \<Rightarrow> 'k \<Rightarrow> cmp_ordering) \<Rightarrow> ('k \<times> 'v) list \<Rightarrow> bool" where
  "keys_sorted c m \<longleftrightarrow> sorted_wrt (\<lambda>x y. c x y = Less) (map fst m)"

lemma keys_sorted_Nil [simp]: "keys_sorted c []"
  by (simp add: keys_sorted_def)

lemma keys_sorted_Cons:
  "keys_sorted c ((k, v) # m) \<longleftrightarrow> (\<forall>k' \<in> set (map fst m). c k k' = Less) \<and> keys_sorted c m"
  by (simp add: keys_sorted_def)

lemma adjust_entries:
  "(x, y) \<in> set (adjust c k d f m) \<Longrightarrow>
   (x, y) \<in> set m \<or> (x = k \<and> y = f d) \<or> (\<exists>v. (x, v) \<in> set m \<and> c k x = Equal \<and> y = f v)"
  by (induction c k d f m rule: adjust.induct) (auto split: cmp_ordering.splits)

lemma adjust_keys: "fst ` set (adjust c k d f m) \<subseteq> insert k (fst ` set m)"
  by (induction c k d f m rule: adjust.induct) (auto split: cmp_ordering.splits)

text \<open>An ordered map over an order in which only equal keys compare equal.\<close>

locale ordered_keys = total_cmp cmp for cmp :: "'k \<Rightarrow> 'k \<Rightarrow> cmp_ordering" +
  assumes equal_keys: "cmp x y = Equal \<Longrightarrow> x = y"
begin

lemma less_not_refl: "cmp x y = Less \<Longrightarrow> x \<noteq> y"
  by auto

lemma less_trans: "cmp x y = Less \<Longrightarrow> cmp y z = Less \<Longrightarrow> cmp x z = Less"
proof -
  assume xy: "cmp x y = Less" and yz: "cmp y z = Less"
  have "cmp x z \<noteq> Greater" using chain_le [of x y z] xy yz by simp
  moreover have "cmp x z \<noteq> Equal"
  proof
    assume "cmp x z = Equal"
    then have "x = z" by (rule equal_keys)
    then show False using xy yz flip [of y x] by simp
  qed
  ultimately show "cmp x z = Less" by (cases "cmp x z") simp_all
qed

lemma keys_sorted_adjust: "keys_sorted cmp m \<Longrightarrow> keys_sorted cmp (adjust cmp k d f m)"
proof (induction m)
  case Nil
  then show ?case by (simp add: keys_sorted_def)
next
  case (Cons kv m)
  obtain k' v where kv: "kv = (k', v)" by (cases kv)
  have below: "\<forall>x \<in> set (map fst m). cmp k' x = Less" and tail: "keys_sorted cmp m"
    using Cons.prems by (simp_all add: kv keys_sorted_Cons)
  show ?case
  proof (cases "cmp k k'")
    case Less
    then show ?thesis using Cons.prems below less_trans by (auto simp: kv keys_sorted_Cons)
  next
    case Equal
    then show ?thesis using Cons.prems by (simp add: kv keys_sorted_Cons)
  next
    case Greater
    then have "cmp k' k = Less" using cmp_swap by simp
    then have "\<forall>x \<in> fst ` set (adjust cmp k d f m). cmp k' x = Less"
      using adjust_keys [of cmp k d f m] below by fastforce
    then show ?thesis using Greater Cons.IH [OF tail] by (simp add: kv keys_sorted_Cons)
  qed
qed

lemma map_of_sorted_less:
  "keys_sorted cmp m \<Longrightarrow> (\<And>x. x \<in> set (map fst m) \<Longrightarrow> cmp k x = Less) \<Longrightarrow> map_of m k = None"
  using less_not_refl by (auto simp: map_of_eq_None_iff)

lemma map_of_adjust:
  "keys_sorted cmp m \<Longrightarrow>
   map_of (adjust cmp k d f m) x =
     (if x = k then Some (f (case map_of m k of None \<Rightarrow> d | Some v \<Rightarrow> v)) else map_of m x)"
proof (induction m)
  case Nil
  then show ?case by simp
next
  case (Cons kv m)
  obtain k' v where kv: "kv = (k', v)" by (cases kv)
  have below: "\<forall>x \<in> set (map fst m). cmp k' x = Less" and tail: "keys_sorted cmp m"
    using Cons.prems by (simp_all add: kv keys_sorted_Cons)
  show ?case
  proof (cases "cmp k k'")
    case Less
    have "map_of (kv # m) k = None"
      by (rule map_of_sorted_less [OF Cons.prems]) (use Less below less_trans kv in auto)
    then show ?thesis using Less by (auto simp: kv)
  next
    case Equal
    then have "k = k'" by (rule equal_keys)
    then show ?thesis by (auto simp: kv)
  next
    case Greater
    then have "k \<noteq> k'" by auto
    then show ?thesis using Greater Cons.IH [OF tail] by (auto simp: kv)
  qed
qed

lemma keys_distinct: "keys_sorted cmp m \<Longrightarrow> distinct (map fst m)"
  by (induction m) (auto simp: keys_sorted_def)

lemma keys_sorted_fold:
  "keys_sorted cmp m \<Longrightarrow> keys_sorted cmp (fold (\<lambda>x. adjust cmp (k x) (d x) (f x)) xs m)"
  by (induction xs arbitrary: m) (simp_all add: keys_sorted_adjust)

end

lemma ordered_keysI: "total_cmp c \<Longrightarrow> (\<And>x y. c x y = Equal \<Longrightarrow> x = y) \<Longrightarrow> ordered_keys c"
  by (simp add: ordered_keys_def ordered_keys_axioms_def)

interpretation path_keys: ordered_keys cmp_path
  by (rule ordered_keysI) (simp_all add: paths.total_cmp_axioms)

interpretation string_keys: ordered_keys cmp_string
  by (rule ordered_keysI) (simp_all add: strings.total_cmp_axioms)

definition cmp_pair ::
    "('a \<Rightarrow> 'a \<Rightarrow> cmp_ordering) \<Rightarrow> ('b \<Rightarrow> 'b \<Rightarrow> cmp_ordering) \<Rightarrow> 'a \<times> 'b \<Rightarrow> 'a \<times> 'b \<Rightarrow> cmp_ordering" where
  "cmp_pair c d p q = then_with (c (fst p) (fst q)) (d (snd p) (snd q))"

lemma total_cmp_pair: "total_cmp c \<Longrightarrow> total_cmp d \<Longrightarrow> total_cmp (cmp_pair c d)"
  unfolding cmp_pair_def [abs_def]
  by (rule total_cmp_then [OF total_cmp_key [of c fst] total_cmp_key [of d snd]])

interpretation pair_keys: ordered_keys "cmp_pair cmp_string cmp_string"
  by (rule ordered_keysI)
     (auto intro: total_cmp_pair strings.total_cmp_axioms simp: cmp_pair_def prod_eq_iff)

interpretation path_string_keys: ordered_keys "cmp_pair cmp_path cmp_string"
  by (rule ordered_keysI)
     (auto intro: total_cmp_pair strings.total_cmp_axioms paths.total_cmp_axioms simp: cmp_pair_def prod_eq_iff)

section \<open>Sets of strings\<close>

text \<open>A \<open>BTreeSet\<close> of strings is their sorted list.\<close>

fun set_insert :: "string \<Rightarrow> string list \<Rightarrow> string list" where
  "set_insert n [] = [n]"
| "set_insert n (m # ms) =
     (case cmp_string n m of
        Less \<Rightarrow> n # m # ms
      | Equal \<Rightarrow> m # ms
      | Greater \<Rightarrow> m # set_insert n ms)"

lemma set_set_insert [simp]: "set (set_insert n ms) = insert n (set ms)"
  by (induction n ms rule: set_insert.induct) (auto split: cmp_ordering.splits)

lemma set_insert_sorted:
  "sorted_wrt (\<lambda>x y. cmp_string x y = Less) ms \<Longrightarrow>
   sorted_wrt (\<lambda>x y. cmp_string x y = Less) (set_insert n ms)"
proof (induction n ms rule: set_insert.induct)
  case (2 n m ms)
  have "cmp_string n m = Greater \<Longrightarrow> cmp_string m n = Less" using strings.cmp_swap by blast
  then show ?case using 2 string_keys.less_trans [of n m]
    by (auto split: cmp_ordering.splits)
qed simp

end
