(* ===== verification/RenameModel.thy ===== *)
theory RenameModel
  imports RenameDerive PolicyRank SetModel OrderedMap
begin

text \<open>
  The data of a rename plan and its collision detection: \<open>dat/rename_plan/model.rs\<close>,
  \<open>dat/rename_plan/collisions.rs\<close>, and of \<open>dat/sources/audit_run.rs\<close> the outcome of an audit
  that a plan is built from. A \<open>local_path\<close> is a path; the key of the grouping by directory is
  the directory itself.
\<close>

section \<open>The outcome of an audit\<close>

record unhashed_file =
  uf_path :: path
  uf_file_name :: string
  uf_code :: string
  uf_detail :: string

record dat_content_candidate =
  cn_game_name :: string
  cn_rom_name :: string
  cn_classification :: dat_content_classification
  cn_eligibility :: content_eligibility
  cn_original_metadata :: dat_original_metadata

record dat_content_match =
  cm_local_path :: path
  cm_candidates :: "dat_content_candidate list"

record dat_audit_content_outcome =
  co_selection :: content_selection_policy
  co_catalogue :: dat_content_summary
  co_matches :: "dat_content_match list"

record dat_policy_note =
  pn_local_path :: path
  pn_verdict_label :: string
  pn_resolution :: candidate_resolution

record dat_audit_policy_outcome =
  pu_source_ordering :: "string list"
  pu_notes :: "dat_policy_note list"

record dat_audit_outcome =
  ao_source_id :: string
  ao_source_display_name :: string
  ao_dat_path :: path
  ao_scan_root :: string
  ao_catalogue_names :: "string list"
  ao_catalogue_entries :: nat
  ao_catalogue_roms :: nat
  ao_content :: dat_audit_content_outcome
  ao_unreadable_catalogues :: "string list"
  ao_report :: audit_report
  ao_archives :: "dat_archive_audit list"
  ao_sets :: "set_resolution list"
  ao_unhashed :: "unhashed_file list"
  ao_files_scanned :: nat
  ao_bytes_hashed :: nat
  ao_archive_bytes_hashed :: nat
  ao_truncated :: bool
  ao_policy :: "dat_audit_policy_outcome option"
  ao_platform :: "string option"

section \<open>Proposals\<close>

datatype source_object_kind = SrcRegularFile | SrcSymlink | SrcBrokenSymlink

datatype proposal_state =
  Suggested | AlreadyCanonical | Ambiguous | Conflict | Unsupported | Blocked
| ExcludedByContentPolicy | UnclassifiedContent

definition is_actionable :: "proposal_state \<Rightarrow> bool" where
  "is_actionable s \<longleftrightarrow> s = Suggested"

datatype collision_kind = ExistingTarget | CaseCollision | TwoProposalsSameTarget | DuplicateSource

record collision_info =
  ci_kind :: collision_kind
  ci_colliding_with :: "string option"
  ci_colliding_is_symlink :: bool
  ci_detail :: string

datatype review_decision = AcceptedForReview | Ignored | NeedsManualReview

record rename_proposal =
  rp_source_path :: path
  rp_current_basename :: string
  rp_proposed_basename :: "string option"
  rp_platform :: "string option"
  rp_platform_display :: "string option"
  rp_source_id :: string
  rp_source_display_name :: string
  rp_game_name :: "string option"
  rp_rom_name :: "string option"
  rp_verdict_label :: string
  rp_match_confident :: bool
  rp_explanations :: "string list"
  rp_content_policy :: content_selection_policy
  rp_content_classification :: dat_content_classification
  rp_original_metadata :: dat_original_metadata
  rp_state :: proposal_state
  rp_object_kind :: source_object_kind
  rp_ambiguity_reason :: "string option"
  rp_collision :: "collision_info option"
  rp_blockers :: "string list"
  rp_extension_status :: "extension_status option"
  rp_sanitisation_notes :: "string list"
  rp_actionable :: bool
  rp_audited_identity :: "object_identity option"
  rp_is_outer_archive :: bool

record rename_plan_counts =
  pc_suggested :: nat
  pc_already_canonical :: nat
  pc_ambiguous :: nat
  pc_conflicts :: nat
  pc_unsupported :: nat
  pc_blocked :: nat
  pc_excluded_by_content_policy :: nat
  pc_unclassified_content :: nat
  pc_total :: nat

definition count_proposal :: "rename_proposal \<Rightarrow> rename_plan_counts \<Rightarrow> rename_plan_counts" where
  "count_proposal p c =
     (case rp_state p of
        Suggested \<Rightarrow> c\<lparr>pc_suggested := pc_suggested c + 1\<rparr>
      | AlreadyCanonical \<Rightarrow> c\<lparr>pc_already_canonical := pc_already_canonical c + 1\<rparr>
      | Ambiguous \<Rightarrow> c\<lparr>pc_ambiguous := pc_ambiguous c + 1\<rparr>
      | Conflict \<Rightarrow> c\<lparr>pc_conflicts := pc_conflicts c + 1\<rparr>
      | Unsupported \<Rightarrow> c\<lparr>pc_unsupported := pc_unsupported c + 1\<rparr>
      | Blocked \<Rightarrow> c\<lparr>pc_blocked := pc_blocked c + 1\<rparr>
      | ExcludedByContentPolicy \<Rightarrow>
          c\<lparr>pc_excluded_by_content_policy := pc_excluded_by_content_policy c + 1\<rparr>
      | UnclassifiedContent \<Rightarrow> c\<lparr>pc_unclassified_content := pc_unclassified_content c + 1\<rparr>)"

definition counts_from_proposals :: "rename_proposal list \<Rightarrow> rename_plan_counts" where
  "counts_from_proposals ps =
     fold count_proposal ps
       \<lparr> pc_suggested = 0, pc_already_canonical = 0, pc_ambiguous = 0, pc_conflicts = 0,
         pc_unsupported = 0, pc_blocked = 0, pc_excluded_by_content_policy = 0,
         pc_unclassified_content = 0, pc_total = length ps \<rparr>"

record rename_plan =
  rn_generation :: nat
  rn_source_id :: string
  rn_source_display_name :: string
  rn_scan_root :: string
  rn_platform :: "string option"
  rn_platform_display :: "string option"
  rn_content_policy :: content_selection_policy
  rn_classifier_version :: string
  rn_proposals :: "rename_proposal list"
  rn_counts :: rename_plan_counts
  rn_audited_total :: nat
  rn_verified_total :: nat
  rn_truncated :: bool

section \<open>Collisions with what is there\<close>

record dir_siblings =
  ds_names :: "string list"
  ds_names_lower :: "string list"

definition no_siblings :: dir_siblings where
  "no_siblings = \<lparr> ds_names = [], ds_names_lower = [] \<rparr>"

definition add_sibling :: "string \<Rightarrow> dir_siblings \<Rightarrow> dir_siblings" where
  "add_sibling name s =
     \<lparr> ds_names = set_insert name (ds_names s),
       ds_names_lower = set_insert (to_ascii_lowercase name) (ds_names_lower s) \<rparr>"

definition detect_target_collision :: "string \<Rightarrow> string \<Rightarrow> dir_siblings \<Rightarrow> collision_info option" where
  "detect_target_collision current_basename proposed_basename siblings =
     (if proposed_basename \<in> set (ds_names siblings)
      then Some \<lparr> ci_kind = ExistingTarget, ci_colliding_with = Some proposed_basename,
                  ci_colliding_is_symlink = False,
                  ci_detail = ''a file named '' @ [quote] @ proposed_basename @ [quote] @
                    '' already exists in the same folder'' \<rparr>
      else map_option
             (\<lambda>colliding. \<lparr> ci_kind = CaseCollision, ci_colliding_with = Some colliding,
                ci_colliding_is_symlink = False,
                ci_detail = ''a file whose name differs from '' @ [quote] @ proposed_basename @ [quote] @
                  '' only by case already exists in the same folder'' \<rparr>)
             (find (\<lambda>name. to_ascii_lowercase name = to_ascii_lowercase proposed_basename \<and>
                           name \<noteq> current_basename) (ds_names siblings)))"

section \<open>Collisions between proposals\<close>

text \<open>
  The indices of a list by key, in the list's order. The groups are disjoint and each is
  handled on its own, so the order in which the map yields them does not matter.
\<close>

fun add_to_group :: "'k \<Rightarrow> nat \<Rightarrow> ('k \<times> nat list) list \<Rightarrow> ('k \<times> nat list) list" where
  "add_to_group k i [] = [(k, [i])]"
| "add_to_group k i ((k', g) # m) =
     (if k = k' then (k', g @ [i]) # m else (k', g) # add_to_group k i m)"

definition group_by_key :: "('a \<Rightarrow> 'k option) \<Rightarrow> 'a list \<Rightarrow> ('k \<times> nat list) list" where
  "group_by_key key xs =
     fold (\<lambda>(i, x) m. case key x of None \<Rightarrow> m | Some k \<Rightarrow> add_to_group k i m) (enumerate 0 xs) []"

definition mark_conflict :: "collision_info \<Rightarrow> rename_proposal \<Rightarrow> rename_proposal" where
  "mark_conflict info p = p\<lparr>rp_collision := Some info, rp_state := Conflict, rp_actionable := False\<rparr>"

definition target_key :: "rename_proposal \<Rightarrow> (path option \<times> string) option" where
  "target_key p =
     (if rp_state p \<noteq> Suggested then None
      else map_option (\<lambda>proposed. (path_parent (rp_source_path p), to_ascii_lowercase proposed))
             (rp_proposed_basename p))"

definition target_conflict :: "rename_proposal list \<Rightarrow> nat list \<Rightarrow> rename_proposal \<Rightarrow> collision_info" where
  "target_conflict ps grp p =
     (let exacts = remdups (map (\<lambda>i. rp_proposed_basename (ps ! i)) grp);
          kind = (if length exacts = 1 then TwoProposalsSameTarget else CaseCollision)
      in \<lparr> ci_kind = kind, ci_colliding_with = rp_proposed_basename p, ci_colliding_is_symlink = False,
           ci_detail =
             (if kind = TwoProposalsSameTarget
              then ''another proposal in the same folder also targets '' @ [quote] @
                   or_default [] (rp_proposed_basename (ps ! hd grp)) @ [quote]
              else ''another proposal in the same folder targets a name differing only by case'') \<rparr>)"

definition source_conflict :: "rename_proposal \<Rightarrow> collision_info" where
  "source_conflict p =
     \<lparr> ci_kind = DuplicateSource, ci_colliding_with = Some (rp_current_basename p),
       ci_colliding_is_symlink = False,
       ci_detail = ''another proposal targets a different rename for this same source path'' \<rparr>"

text \<open>One pass over the groups: a group with at least two members is marked, member by member.\<close>

definition mark_group ::
    "(nat list \<Rightarrow> rename_proposal \<Rightarrow> collision_info) \<Rightarrow> nat list \<Rightarrow> rename_proposal list \<Rightarrow> rename_proposal list"
where
  "mark_group info grp ps =
     (if length grp < 2 then ps
      else fold (\<lambda>i qs. qs[i := mark_conflict (info grp (qs ! i)) (qs ! i)]) grp ps)"

definition detect_proposal_collisions :: "rename_proposal list \<Rightarrow> rename_proposal list" where
  "detect_proposal_collisions ps =
     fold (mark_group (target_conflict ps)) (map snd (group_by_key target_key ps)) ps"

definition detect_duplicate_sources :: "rename_proposal list \<Rightarrow> rename_proposal list" where
  "detect_duplicate_sources ps =
     fold (mark_group (\<lambda>grp. source_conflict))
       (map snd (group_by_key (\<lambda>p. Some (rp_source_path p)) ps)) ps"

section \<open>Counts\<close>

definition count_in_state :: "proposal_state \<Rightarrow> rename_proposal list \<Rightarrow> nat" where
  "count_in_state s ps = length (filter (\<lambda>p. rp_state p = s) ps)"

lemma fold_count_proposal:
  "fold count_proposal ps c =
     \<lparr> pc_suggested = pc_suggested c + count_in_state Suggested ps,
       pc_already_canonical = pc_already_canonical c + count_in_state AlreadyCanonical ps,
       pc_ambiguous = pc_ambiguous c + count_in_state Ambiguous ps,
       pc_conflicts = pc_conflicts c + count_in_state Conflict ps,
       pc_unsupported = pc_unsupported c + count_in_state Unsupported ps,
       pc_blocked = pc_blocked c + count_in_state Blocked ps,
       pc_excluded_by_content_policy =
         pc_excluded_by_content_policy c + count_in_state ExcludedByContentPolicy ps,
       pc_unclassified_content = pc_unclassified_content c + count_in_state UnclassifiedContent ps,
       pc_total = pc_total c \<rparr>"
proof (induction ps arbitrary: c)
  case Nil
  then show ?case by (simp add: count_in_state_def)
next
  case (Cons p ps)
  then show ?case
    by (cases "rp_state p") (simp_all add: count_proposal_def count_in_state_def)
qed

section \<open>Facts about the sibling index\<close>

text \<open>What a clash with a sibling is, without the search.\<close>

definition sibling_clash :: "string \<Rightarrow> string \<Rightarrow> string set \<Rightarrow> bool" where
  "sibling_clash current proposed names \<longleftrightarrow>
     proposed \<in> names \<or>
     (\<exists>name \<in> names. to_ascii_lowercase name = to_ascii_lowercase proposed \<and> name \<noteq> current)"

lemma detect_target_collision_None:
  "detect_target_collision current proposed s = None \<longleftrightarrow> \<not> sibling_clash current proposed (set (ds_names s))"
  by (auto simp: detect_target_collision_def sibling_clash_def find_None_iff)

section \<open>Facts about groups\<close>

lemma map_of_add_to_group:
  "map_of (add_to_group k i m) x =
     (if x = k then Some ((case map_of m k of None \<Rightarrow> [] | Some g \<Rightarrow> g) @ [i]) else map_of m x)"
  by (induction k i m rule: add_to_group.induct) auto

lemma keys_add_to_group: "fst ` set (add_to_group k i m) = insert k (fst ` set m)"
  by (induction k i m rule: add_to_group.induct) auto

lemma distinct_add_to_group: "distinct (map fst m) \<Longrightarrow> distinct (map fst (add_to_group k i m))"
proof (induction k i m rule: add_to_group.induct)
  case (2 k i k' g m)
  have "set (map fst (add_to_group k i m)) = insert k (set (map fst m))"
    using keys_add_to_group [of k i m] by (simp only: set_map)
  then show ?case using 2 by (simp del: set_map)
qed simp

definition indices_with :: "('a \<Rightarrow> 'k option) \<Rightarrow> 'a list \<Rightarrow> 'k \<Rightarrow> nat list" where
  "indices_with key xs k = filter (\<lambda>i. key (xs ! i) = Some k) [0 ..< length xs]"

lemma indices_with_snoc:
  "indices_with key (xs @ [x]) k = indices_with key xs k @ (if key x = Some k then [length xs] else [])"
  by (auto simp: indices_with_def nth_append intro: filter_cong)

lemma group_by_key_snoc:
  "group_by_key key (xs @ [x]) =
     (case key x of None \<Rightarrow> group_by_key key xs
      | Some k \<Rightarrow> add_to_group k (length xs) (group_by_key key xs))"
  by (cases "key x") (simp_all add: group_by_key_def enumerate_append_eq)

lemma group_by_key_spec:
  "distinct (map fst (group_by_key key xs)) \<and>
   map_of (group_by_key key xs) k =
     (if indices_with key xs k = [] then None else Some (indices_with key xs k))"
proof (induction xs arbitrary: k rule: rev_induct)
  case Nil
  then show ?case by (simp add: group_by_key_def indices_with_def)
next
  case (snoc x xs)
  show ?case
  proof (cases "key x")
    case None
    then show ?thesis using snoc.IH by (simp add: group_by_key_snoc indices_with_snoc)
  next
    case (Some j)
    have d: "distinct (map fst (group_by_key key xs))" using snoc.IH by blast
    have "map_of (group_by_key key xs) i = (if indices_with key xs i = [] then None else Some (indices_with key xs i))" for i
      using snoc.IH by blast
    then show ?thesis using d Some
      by (auto simp: group_by_key_snoc indices_with_snoc map_of_add_to_group distinct_add_to_group)
  qed
qed

lemma group_by_key_mem:
  "(k, g) \<in> set (group_by_key key xs) \<longleftrightarrow> g = indices_with key xs k \<and> g \<noteq> []"
proof -
  have "(k, g) \<in> set (group_by_key key xs) \<longleftrightarrow> map_of (group_by_key key xs) k = Some g"
    using group_by_key_spec [of key xs k] by (metis map_of_eq_Some_iff)
  then show ?thesis using group_by_key_spec [of key xs k] by auto
qed

section \<open>What the passes over the groups do\<close>

text \<open>Another element of the list has the same key.\<close>

definition shares_key :: "('a \<Rightarrow> 'k option) \<Rightarrow> 'a list \<Rightarrow> nat \<Rightarrow> bool" where
  "shares_key key xs i \<longleftrightarrow>
     (\<exists>j k. j < length xs \<and> j \<noteq> i \<and> key (xs ! i) = Some k \<and> key (xs ! j) = Some k)"

lemma fold_updates:
  "distinct is \<Longrightarrow> (\<And>i. i \<in> set is \<Longrightarrow> i < length ps) \<Longrightarrow>
   length (fold (\<lambda>i qs. qs[i := f (qs ! i)]) is ps) = length ps \<and>
   (i < length ps \<longrightarrow>
     fold (\<lambda>i qs. qs[i := f (qs ! i)]) is ps ! i = (if i \<in> set is then f (ps ! i) else ps ! i))"
proof (induction "is" arbitrary: ps)
  case Nil
  then show ?case by simp
next
  case (Cons j js)
  then have "j < length ps" by simp
  then show ?case using Cons.IH [of "ps[j := f (ps ! j)]"] Cons.prems by (auto simp: nth_list_update)
qed

definition in_large_group :: "nat list list \<Rightarrow> nat \<Rightarrow> nat list option" where
  "in_large_group gs i = find (\<lambda>g. i \<in> set g \<and> 2 \<le> length g) gs"

lemma mark_group_nth:
  assumes "distinct g" and "\<And>i. i \<in> set g \<Longrightarrow> i < length ps"
  shows "length (mark_group info g ps) = length ps \<and>
    (i < length ps \<longrightarrow> mark_group info g ps ! i =
      (if i \<in> set g \<and> 2 \<le> length g then mark_conflict (info g (ps ! i)) (ps ! i) else ps ! i))"
  using fold_updates [OF assms, of "\<lambda>p. mark_conflict (info g p) p"] by (simp add: mark_group_def not_less)

lemma fold_mark_group:
  "distinct (concat gs) \<Longrightarrow> (\<And>i. i \<in> set (concat gs) \<Longrightarrow> i < length ps) \<Longrightarrow>
   length (fold (mark_group info) gs ps) = length ps \<and>
   (i < length ps \<longrightarrow>
     fold (mark_group info) gs ps ! i =
       (case in_large_group gs i of None \<Rightarrow> ps ! i
        | Some g \<Rightarrow> mark_conflict (info g (ps ! i)) (ps ! i)))"
proof (induction gs arbitrary: ps)
  case Nil
  then show ?case by (simp add: in_large_group_def)
next
  case (Cons g gs)
  let ?qs = "mark_group info g ps"
  have g: "distinct g" "\<And>i. i \<in> set g \<Longrightarrow> i < length ps" using Cons.prems by auto
  note one = mark_group_nth [OF g, where info = info]
  have len: "length ?qs = length ps" using one by blast
  then have ih: "length (fold (mark_group info) gs ?qs) = length ?qs \<and>
     (i < length ?qs \<longrightarrow> fold (mark_group info) gs ?qs ! i =
       (case in_large_group gs i of None \<Rightarrow> ?qs ! i
        | Some g \<Rightarrow> mark_conflict (info g (?qs ! i)) (?qs ! i)))"
    using Cons.IH [of ?qs] Cons.prems by simp
  have other: "in_large_group gs i = None" if "i \<in> set g"
    using that Cons.prems(1) by (auto simp: in_large_group_def find_None_iff)
  show ?case
  proof (cases "i \<in> set g")
    case True
    then have "in_large_group (g # gs) i = (if 2 \<le> length g then Some g else None)"
      using other by (simp add: in_large_group_def)
    then show ?thesis using ih len one [of i] other [OF True] True by simp
  next
    case False
    then have "in_large_group (g # gs) i = in_large_group gs i" by (simp add: in_large_group_def)
    then show ?thesis using ih len one [of i] False by (cases "i < length ps") (simp_all split: option.splits)
  qed
qed

lemma concat_groups:
  "distinct (concat (map snd (group_by_key key xs)))"
  "i \<in> set (concat (map snd (group_by_key key xs))) \<Longrightarrow> i < length xs"
proof -
  have "distinct (concat (map snd m))"
    if "distinct (map fst m)" "\<And>k g. (k, g) \<in> set m \<Longrightarrow> g = indices_with key xs k" for m
    using that
  proof (induction m)
    case (Cons kg m)
    obtain k g where kg: "kg = (k, g)" by (cases kg)
    then have g: "g = indices_with key xs k" using Cons.prems(2) by simp
    have "set g \<inter> set (concat (map snd m)) = {}"
    proof (rule ccontr)
      assume "set g \<inter> set (concat (map snd m)) \<noteq> {}"
      then obtain i k' g' where "i \<in> set g" "(k', g') \<in> set m" "i \<in> set g'" by auto
      moreover from this have "g' = indices_with key xs k'" using Cons.prems(2) by simp
      ultimately have "k' = k" using g by (simp add: indices_with_def)
      then show False using \<open>(k', g') \<in> set m\<close> Cons.prems(1) kg by force
    qed
    moreover have "distinct (concat (map snd m))" using Cons.IH Cons.prems by simp
    ultimately show ?case using kg g by (simp add: indices_with_def)
  qed simp
  then show "distinct (concat (map snd (group_by_key key xs)))"
    using group_by_key_spec [of key xs] group_by_key_mem by metis
  show "i \<in> set (concat (map snd (group_by_key key xs))) \<Longrightarrow> i < length xs"
    by (auto simp: group_by_key_mem indices_with_def)
qed

lemma find_unique:
  "x \<in> set xs \<Longrightarrow> P x \<Longrightarrow> (\<And>y. y \<in> set xs \<Longrightarrow> P y \<Longrightarrow> y = x) \<Longrightarrow> find P xs = Some x"
proof (induction xs)
  case (Cons y ys)
  show ?case
  proof (cases "P y")
    case True
    then show ?thesis using Cons.prems(3) [of y] by simp
  next
    case False
    then have "x \<in> set ys" using Cons.prems(1,2) by auto
    then have "find P ys = Some x" by (rule Cons.IH [OF _ Cons.prems(2)]) (simp add: Cons.prems(3))
    then show ?thesis using False by (simp only: find.simps if_False)
  qed
qed simp

lemma in_large_group_of_keys:
  assumes "i < length xs"
  shows "in_large_group (map snd (group_by_key key xs)) i =
    (if shares_key key xs i then map_option (indices_with key xs) (key (xs ! i)) else None)"
proof (cases "shares_key key xs i")
  case True
  then obtain j k where j: "j < length xs" "j \<noteq> i" "key (xs ! i) = Some k" "key (xs ! j) = Some k"
    by (auto simp: shares_key_def)
  let ?g = "indices_with key xs k"
  have two: "i \<in> set ?g" "j \<in> set ?g" using assms j by (simp_all add: indices_with_def)
  have "card {i, j} \<le> card (set ?g)" using two by (intro card_mono) auto
  then have large: "2 \<le> length ?g" using j(2) card_length [of ?g] by simp
  have mem: "?g \<in> set (map snd (group_by_key key xs))"
    using two group_by_key_mem [of k ?g key xs] by force
  have uniq: "g = ?g" if "g \<in> set (map snd (group_by_key key xs))" "i \<in> set g \<and> 2 \<le> length g" for g
    using that j(3) by (auto simp: group_by_key_mem indices_with_def)
  have "in_large_group (map snd (group_by_key key xs)) i = Some ?g"
    unfolding in_large_group_def by (rule find_unique [OF mem _ uniq]) (use two(1) large in simp_all)
  then show ?thesis using True j(3) by simp
next
  case False
  have "in_large_group (map snd (group_by_key key xs)) i = None"
  proof (rule ccontr)
    assume "in_large_group (map snd (group_by_key key xs)) i \<noteq> None"
    then obtain g where "in_large_group (map snd (group_by_key key xs)) i = Some g" by blast
    then have g: "i \<in> set g" "2 \<le> length g" "g \<in> set (map snd (group_by_key key xs))"
      by (auto simp: in_large_group_def find_Some_iff)
    then obtain k where k: "g = indices_with key xs k" by (auto simp: group_by_key_mem)
    have "distinct g" using k by (simp add: indices_with_def)
    then have "card (set g) = length g" by (rule distinct_card)
    then have "\<not> set g \<subseteq> {i}" using g(2) card_mono [of "{i}" "set g"] by auto
    then obtain j where "j \<in> set g" "j \<noteq> i" by blast
    then show False using False g(1) k by (auto simp: shares_key_def indices_with_def)
  qed
  then show ?thesis using False by simp
qed

lemma pass_nth:
  "length (fold (mark_group info) (map snd (group_by_key key ps)) ps) = length ps"
  "i < length ps \<Longrightarrow> fold (mark_group info) (map snd (group_by_key key ps)) ps ! i =
     (if shares_key key ps i
      then mark_conflict (info (indices_with key ps (the (key (ps ! i)))) (ps ! i)) (ps ! i)
      else ps ! i)"
proof -
  have all: "length (fold (mark_group info) (map snd (group_by_key key ps)) ps) = length ps \<and>
     (i < length ps \<longrightarrow>
       fold (mark_group info) (map snd (group_by_key key ps)) ps ! i =
         (case in_large_group (map snd (group_by_key key ps)) i of None \<Rightarrow> ps ! i
          | Some g \<Rightarrow> mark_conflict (info g (ps ! i)) (ps ! i)))" for i
    by (rule fold_mark_group [OF concat_groups(1)]) (rule concat_groups(2))
  show "length (fold (mark_group info) (map snd (group_by_key key ps)) ps) = length ps"
    using all by blast
  assume i: "i < length ps"
  have "key (ps ! i) = Some (the (key (ps ! i)))" if "shares_key key ps i"
    using that by (auto simp: shares_key_def)
  then show "fold (mark_group info) (map snd (group_by_key key ps)) ps ! i =
     (if shares_key key ps i
      then mark_conflict (info (indices_with key ps (the (key (ps ! i)))) (ps ! i)) (ps ! i)
      else ps ! i)"
    using all [of i] i in_large_group_of_keys [OF i, of key] by (auto split: option.splits)
qed

end
