(* ===== verification/RenamePlan.thy ===== *)
theory RenamePlan
  imports RenameModel TxnExecutor
begin

text \<open>
  Building a rename plan from the outcome of an audit, \<open>dat/rename_plan/plan.rs\<close>, and the
  entries of a transaction from the approved proposals of a plan, \<open>build_transaction\<close> of
  \<open>dat/rename_apply/executor.rs\<close>. Planning reads the file system and writes nothing: the
  model takes it as an argument. The cancellation flag is read once at the start and once
  before every audited file; \<open>cancel n\<close> is what read \<open>n\<close> returns.
\<close>

section \<open>One proposal\<close>

datatype rename_plan_failure = PlanCancelled | PlanPanicked

record proposal_context =
  px_content_policy :: content_selection_policy
  px_platform :: "string option"
  px_platform_display :: "string option"
  px_source_id :: string
  px_source_display_name :: string

definition plan_matches_generation :: "rename_plan \<Rightarrow> nat \<Rightarrow> bool" where
  "plan_matches_generation plan current_generation \<longleftrightarrow> rn_generation plan = current_generation"

definition classify_object :: "fs \<Rightarrow> path \<Rightarrow> source_object_kind option" where
  "classify_object f p =
     (case symlink_metadata f p of
        None \<Rightarrow> None
      | Some n \<Rightarrow>
          (case n_kind n of
             LinkNode t \<Rightarrow> Some (if metadata f p \<noteq> None then SrcSymlink else SrcBrokenSymlink)
           | _ \<Rightarrow> Some SrcRegularFile))"

record matched_name =
  mn_game :: "string option"
  mn_rom :: "string option"
  mn_explanations :: "string list"
  mn_ambiguity_reason :: "string option"

text \<open>
  The verified match. A decided resolution is indexed at its winner; an index past the
  entries is a panic, \<open>None\<close>.
\<close>

definition matched_name_of :: "audit_verdict \<Rightarrow> dat_policy_note option \<Rightarrow> matched_name option" where
  "matched_name_of verdict note =
     (case verdict of
        Exact game rom _ \<Rightarrow>
          Some \<lparr> mn_game = Some game, mn_rom = Some rom, mn_explanations = [], mn_ambiguity_reason = None \<rparr>
      | ExactMultipleCandidates _ _ _ \<Rightarrow>
          (case note of
             Some nt \<Rightarrow>
               (let res = pn_resolution nt in
                if cr_decided res
                then (let i = or_default 0 (cr_winner_index res) in
                      if i < length (cr_entries res)
                      then (let winner = rc_candidate (cr_entries res ! i) in
                            Some \<lparr> mn_game = Some (ca_game_name winner), mn_rom = Some (ca_rom_name winner),
                                   mn_explanations = cr_explanations res, mn_ambiguity_reason = None \<rparr>)
                      else None)
                else Some \<lparr> mn_game = None, mn_rom = None, mn_explanations = cr_explanations res,
                            mn_ambiguity_reason = cr_ambiguity_reason res \<rparr>)
           | None \<Rightarrow>
               Some \<lparr> mn_game = None, mn_rom = None, mn_explanations = [],
                      mn_ambiguity_reason =
                        Some ''the audit reported several verified candidates but no policy resolution was available'' \<rparr>)
      | _ \<Rightarrow> Some \<lparr> mn_game = None, mn_rom = None, mn_explanations = [], mn_ambiguity_reason = None \<rparr>)"

definition content_candidate_of ::
    "matched_name \<Rightarrow> dat_content_match option \<Rightarrow> dat_content_candidate option" where
  "content_candidate_of matched content =
     (case (mn_game matched, mn_rom matched, content) of
        (Some game, Some rom, Some cm) \<Rightarrow>
          find (\<lambda>c. cn_game_name c = game \<and> cn_rom_name c = rom) (cm_candidates cm)
      | _ \<Rightarrow> None)"

text \<open>The part of a proposal that the decisions fill in, one decision after the other.\<close>

record proposal_decision =
  pd_state :: proposal_state
  pd_blockers :: "string list"
  pd_proposed :: "string option"
  pd_extension_status :: "extension_status option"
  pd_sanitisation_notes :: "string list"

definition decision_of_object :: "source_object_kind \<Rightarrow> proposal_decision" where
  "decision_of_object kind =
     (let d = \<lparr> pd_state = Suggested, pd_blockers = [], pd_proposed = None,
                pd_extension_status = None, pd_sanitisation_notes = [] \<rparr>
      in case kind of
           SrcSymlink \<Rightarrow>
             d\<lparr>pd_state := Unsupported,
               pd_blockers := [''the source is a symlink; renaming a link is not supported yet - a future stage would rename the link itself, never its target'']\<rparr>
         | SrcBrokenSymlink \<Rightarrow>
             d\<lparr>pd_state := Unsupported,
               pd_blockers := [''the source is a broken symlink; planning cannot verify what a rename would move'']\<rparr>
         | SrcRegularFile \<Rightarrow> d)"

definition decide_content ::
    "content_eligibility \<Rightarrow> proposal_decision \<Rightarrow> proposal_decision" where
  "decide_content e d =
     (case e of
        Selected \<Rightarrow> d
      | ExcludedNonGame \<Rightarrow>
          d\<lparr>pd_state := ExcludedByContentPolicy,
            pd_blockers := pd_blockers d @ [''Games only does not select content confidently classified as non-game'']\<rparr>
      | NeedsReview \<Rightarrow>
          d\<lparr>pd_state := UnclassifiedContent,
            pd_blockers := pd_blockers d @ [''this entry'' @ [quote] @ ''s content classification is Unknown; Games only never renames it automatically'']\<rparr>)"

definition decide_name :: "derive_outcome \<Rightarrow> string \<Rightarrow> proposal_decision \<Rightarrow> proposal_decision" where
  "decide_name derived current_basename d =
     (case derived of
        DeriveOk n \<Rightarrow>
          (let d' = d\<lparr>pd_extension_status := Some (dn_extension_status n),
                      pd_sanitisation_notes := dn_sanitisation_notes n\<rparr>
           in if dn_proposed_basename n = current_basename then d'\<lparr>pd_state := AlreadyCanonical\<rparr>
              else d'\<lparr>pd_proposed := Some (dn_proposed_basename n)\<rparr>)
      | DeriveBlocked reason \<Rightarrow> d\<lparr>pd_state := Blocked, pd_blockers := pd_blockers d @ [reason]\<rparr>
      | DeriveUnsupported reason \<Rightarrow> d\<lparr>pd_state := Unsupported, pd_blockers := pd_blockers d @ [reason]\<rparr>)"

definition decide_match :: "matched_name \<Rightarrow> string \<Rightarrow> proposal_decision \<Rightarrow> proposal_decision" where
  "decide_match matched current_basename d =
     (if mn_ambiguity_reason matched \<noteq> None then d\<lparr>pd_state := Ambiguous\<rparr>
      else (case mn_rom matched of
              Some rom \<Rightarrow> decide_name (derive_proposed_basename rom current_basename) current_basename d
            | None \<Rightarrow>
                d\<lparr>pd_state := Blocked,
                  pd_blockers := pd_blockers d @ [''no matched catalogue ROM name is available'']\<rparr>))"

definition derive_proposal ::
    "audit_entry \<Rightarrow> dat_policy_note option \<Rightarrow> dat_content_match option \<Rightarrow> proposal_context \<Rightarrow>
     source_object_kind \<Rightarrow> rename_proposal option" where
  "derive_proposal entry note content ctx kind =
     map_option (\<lambda>matched.
       (let candidate = content_candidate_of matched content;
            cls = (case candidate of None \<Rightarrow> unknown_classification | Some c \<Rightarrow> cn_classification c);
            meta = (case candidate of None \<Rightarrow> fmempty | Some c \<Rightarrow> cn_original_metadata c);
            d0 = decision_of_object kind;
            d1 = (if pd_state d0 = Suggested \<and> mn_ambiguity_reason matched = None
                  then decide_content (eligibility (px_content_policy ctx) cls) d0 else d0);
            d2 = (if pd_state d1 = Suggested then decide_match matched (ae_local_filename entry) d1 else d1)
        in \<lparr> rp_source_path = ae_local_path entry, rp_current_basename = ae_local_filename entry,
             rp_proposed_basename = pd_proposed d2, rp_platform = px_platform ctx,
             rp_platform_display = px_platform_display ctx, rp_source_id = px_source_id ctx,
             rp_source_display_name = px_source_display_name ctx, rp_game_name = mn_game matched,
             rp_rom_name = mn_rom matched, rp_verdict_label = verdict_label (ae_verdict entry),
             rp_match_confident = is_confident (ae_verdict entry),
             rp_explanations = mn_explanations matched, rp_content_policy = px_content_policy ctx,
             rp_content_classification = cls, rp_original_metadata = meta, rp_state = pd_state d2,
             rp_object_kind = kind, rp_ambiguity_reason = mn_ambiguity_reason matched,
             rp_collision = None, rp_blockers = pd_blockers d2,
             rp_extension_status = pd_extension_status d2,
             rp_sanitisation_notes = pd_sanitisation_notes d2,
             rp_actionable = (pd_state d2 = Suggested), rp_audited_identity = None,
             rp_is_outer_archive = False \<rparr>))
       (matched_name_of (ae_verdict entry) note)"

definition blocked_missing_source ::
    "audit_entry \<Rightarrow> dat_policy_note option \<Rightarrow> dat_content_match option \<Rightarrow> proposal_context \<Rightarrow>
     rename_proposal option" where
  "blocked_missing_source entry note content ctx =
     map_option (\<lambda>p. p\<lparr>rp_state := Blocked, rp_proposed_basename := None, rp_actionable := False,
         rp_blockers := rp_blockers p @ [''the source file is no longer present on disk; its plan cannot be verified'']\<rparr>)
       (derive_proposal entry note content ctx SrcRegularFile)"

section \<open>Outer archives\<close>

text \<open>\<open>Path::extension\<close>: after the last dot of the name, unless the dot is its first character.\<close>

definition path_extension :: "path \<Rightarrow> string option" where
  "path_extension p =
     Option.bind (path_file_name p)
       (\<lambda>name. case rsplit_once dot name of
          None \<Rightarrow> None
        | Some (stem, ext) \<Rightarrow> if stem = [] then None else Some ext)"

definition bump :: "string \<Rightarrow> (string \<times> nat) list \<Rightarrow> (string \<times> nat) list" where
  "bump name m = map (\<lambda>(n, c). if n = name then (n, c + 1) else (n, c)) m"

text \<open>The loop over the members: \<open>None\<close> where the source returns false.\<close>

fun count_members ::
    "string \<Rightarrow> dat_archive_member_audit list \<Rightarrow> nat set \<Rightarrow> (string \<times> nat) list \<Rightarrow> (string \<times> nat) list option"
where
  "count_members game_name [] seen required = Some required"
| "count_members game_name (m # ms) seen required =
     (if me_index (am_evidence m) \<in> seen then None
      else (case am_verdict m of
              Some (Exact game rom _) \<Rightarrow>
                if game \<noteq> game_name then None
                else (case map_of required rom of
                        None \<Rightarrow> None
                      | Some c \<Rightarrow>
                          if c + 1 > 1 then None
                          else count_members game_name ms (insert (me_index (am_evidence m)) seen)
                                 (bump rom required))
            | _ \<Rightarrow> None))"

definition archive_exactly_matches_set :: "dat_archive_audit \<Rightarrow> set_resolution \<Rightarrow> bool" where
  "archive_exactly_matches_set archive resolution =
     (if length (aa_members archive) \<noteq> aa_total_members archive \<or>
         length (aa_members archive) \<noteq> length (sr_members_required resolution) \<or>
         length (sr_members_verified resolution) \<noteq> length (sr_members_required resolution)
      then False
      else (let required = map (\<lambda>n. (n, 0)) (remdups (sr_members_required resolution))
            in if length required \<noteq> length (sr_members_required resolution) then False
               else (case count_members (si_game_name (sr_identity resolution)) (aa_members archive) {} required of
                       None \<Rightarrow> False
                     | Some counted \<Rightarrow> list_all (\<lambda>(n, c). c = 1) counted)))"

definition is_archive_extension :: "string option \<Rightarrow> bool" where
  "is_archive_extension ext =
     (case ext of
        None \<Rightarrow> False
      | Some e \<Rightarrow> eq_ignore_ascii_case e ''zip'' \<or> eq_ignore_ascii_case e ''7z'' \<or>
                  eq_ignore_ascii_case e ''rar'')"

text \<open>The gates before a proposal: the resolution, the audited identity, the name and the kind.\<close>

definition outer_archive_evidence ::
    "fs \<Rightarrow> set_resolution list \<Rightarrow> proposal_context \<Rightarrow> dat_archive_audit \<Rightarrow>
     (set_resolution \<times> object_identity \<times> string \<times> source_object_kind) option" where
  "outer_archive_evidence f sets ctx archive =
     (if aa_completion archive \<noteq> PassComplete then None
      else if \<not> is_archive_extension (path_extension (aa_archive_path archive)) then None
      else (case filter (\<lambda>r. sr_archive_path r = aa_archive_path archive) sets of
              [resolution] \<Rightarrow>
                if sr_state resolution \<noteq> SetComplete then None
                else if si_source_id (sr_identity resolution) \<noteq> px_source_id ctx then None
                else if \<not> archive_exactly_matches_set archive resolution then None
                else (case aa_outer_identity archive of
                        None \<Rightarrow> None
                      | Some audited \<Rightarrow>
                          if \<not> (case capture_identity f (aa_archive_path archive) of
                                  None \<Rightarrow> False
                                | Some current \<Rightarrow> identity_matches audited current)
                          then None
                          else (case path_file_name (aa_archive_path archive) of
                                  None \<Rightarrow> None
                                | Some current_basename \<Rightarrow>
                                    map_option (\<lambda>kind. (resolution, audited, current_basename, kind))
                                      (classify_object f (aa_archive_path archive))))
            | _ \<Rightarrow> None))"

definition outer_archive_proposal ::
    "proposal_context \<Rightarrow> dat_archive_audit \<Rightarrow>
     set_resolution \<times> object_identity \<times> string \<times> source_object_kind \<Rightarrow> rename_proposal" where
  "outer_archive_proposal ctx archive ev =
     (case ev of (resolution, audited, current_basename, kind) \<Rightarrow>
       (let game = si_game_name (sr_identity resolution);
            d0 = decision_of_object kind;
            d = (if pd_state d0 = Suggested
                 then decide_name (derive_outer_archive_basename game current_basename) current_basename d0
                 else d0)
        in \<lparr> rp_source_path = aa_archive_path archive, rp_current_basename = current_basename,
             rp_proposed_basename = pd_proposed d, rp_platform = px_platform ctx,
             rp_platform_display = px_platform_display ctx, rp_source_id = px_source_id ctx,
             rp_source_display_name = px_source_display_name ctx, rp_game_name = Some game,
             rp_rom_name = None, rp_verdict_label = ''Set complete'', rp_match_confident = True,
             rp_explanations = [], rp_content_policy = px_content_policy ctx,
             rp_content_classification = unknown_classification, rp_original_metadata = fmempty,
             rp_state = pd_state d, rp_object_kind = kind, rp_ambiguity_reason = None,
             rp_collision = None, rp_blockers = pd_blockers d,
             rp_extension_status = pd_extension_status d,
             rp_sanitisation_notes = pd_sanitisation_notes d,
             rp_actionable = (pd_state d = Suggested), rp_audited_identity = Some audited,
             rp_is_outer_archive = True \<rparr>))"

definition derive_outer_archive_proposals ::
    "fs \<Rightarrow> dat_archive_audit list \<Rightarrow> set_resolution list \<Rightarrow> proposal_context \<Rightarrow> rename_proposal list" where
  "derive_outer_archive_proposals f archives sets ctx =
     concat (map (\<lambda>archive.
       case outer_archive_evidence f sets ctx archive of
         None \<Rightarrow> []
       | Some ev \<Rightarrow> [outer_archive_proposal ctx archive ev]) archives)"

section \<open>The plan\<close>

definition siblings_index :: "audit_entry list \<Rightarrow> (path \<times> dir_siblings) list" where
  "siblings_index entries =
     fold (\<lambda>entry m.
         case path_parent (ae_local_path entry) of
           None \<Rightarrow> m
         | Some parent \<Rightarrow> adjust cmp_path parent no_siblings (add_sibling (ae_local_filename entry)) m)
       entries []"

definition detect_target :: "(path \<times> dir_siblings) list \<Rightarrow> rename_proposal \<Rightarrow> rename_proposal" where
  "detect_target index p =
     (if rp_state p \<noteq> Suggested then p
      else (case rp_proposed_basename p of
              None \<Rightarrow> p
            | Some proposed \<Rightarrow>
                (case Option.bind (path_parent (rp_source_path p)) (map_of index) of
                   None \<Rightarrow> p
                 | Some siblings \<Rightarrow>
                     (case detect_target_collision (rp_current_basename p) proposed siblings of
                        None \<Rightarrow> p
                      | Some info \<Rightarrow> mark_conflict info p))))"

definition detect_target_collisions ::
    "(path \<times> dir_siblings) list \<Rightarrow> rename_proposal list \<Rightarrow> rename_proposal list" where
  "detect_target_collisions index ps = map (detect_target index) ps"

fun is_verified :: "audit_verdict \<Rightarrow> bool" where
  "is_verified (Exact _ _ _) = True"
| "is_verified (ExactMultipleCandidates _ _ _) = True"
| "is_verified _ = False"

text \<open>\<open>collect\<close> into a \<open>HashMap\<close>: the last value of a key wins.\<close>

definition last_by :: "('a \<Rightarrow> path) \<Rightarrow> 'a list \<Rightarrow> path \<Rightarrow> 'a option" where
  "last_by key xs p = find (\<lambda>x. key x = p) (rev xs)"

fun loose_proposals ::
    "fs \<Rightarrow> (path \<Rightarrow> dat_policy_note option) \<Rightarrow> (path \<Rightarrow> dat_content_match option) \<Rightarrow> proposal_context \<Rightarrow>
     (nat \<Rightarrow> bool) \<Rightarrow> nat \<Rightarrow> audit_entry list \<Rightarrow> rename_proposal list \<Rightarrow> nat \<Rightarrow>
     rename_plan_failure + (rename_proposal list \<times> nat)" where
  "loose_proposals f notes_by content_by ctx cancel n [] acc verified = Inr (acc, verified)"
| "loose_proposals f notes_by content_by ctx cancel n (entry # entries) acc verified =
     (if cancel n then Inl PlanCancelled
      else if \<not> is_verified (ae_verdict entry)
      then loose_proposals f notes_by content_by ctx cancel (n + 1) entries acc verified
      else (let note = notes_by (ae_local_path entry);
                content = content_by (ae_local_path entry);
                derived = (case classify_object f (ae_local_path entry) of
                             Some kind \<Rightarrow> derive_proposal entry note content ctx kind
                           | None \<Rightarrow> blocked_missing_source entry note content ctx)
            in case derived of
                 None \<Rightarrow> Inl PlanPanicked
               | Some p \<Rightarrow>
                   loose_proposals f notes_by content_by ctx cancel (n + 1) entries (acc @ [p]) (verified + 1)))"

definition proposal_order :: "rename_proposal \<Rightarrow> rename_proposal \<Rightarrow> cmp_ordering" where
  "proposal_order a b =
     then_with (cmp_path (rp_source_path a) (rp_source_path b))
       (cmp_option cmp_string (rp_proposed_basename a) (rp_proposed_basename b))"

definition context_of :: "registry \<Rightarrow> dat_audit_outcome \<Rightarrow> proposal_context" where
  "context_of platforms outcome =
     \<lparr> px_content_policy = co_selection (ao_content outcome), px_platform = ao_platform outcome,
       px_platform_display = map_option (display_name_for platforms) (ao_platform outcome),
       px_source_id = ao_source_id outcome, px_source_display_name = ao_source_display_name outcome \<rparr>"

text \<open>The three collision passes and the final order.\<close>

definition finish_proposals :: "(path \<times> dir_siblings) list \<Rightarrow> rename_proposal list \<Rightarrow> rename_proposal list" where
  "finish_proposals index ps =
     sort_by proposal_order
       (detect_duplicate_sources (detect_proposal_collisions (detect_target_collisions index ps)))"

definition build_rename_plan ::
    "fs \<Rightarrow> registry \<Rightarrow> dat_audit_outcome \<Rightarrow> nat \<Rightarrow> (nat \<Rightarrow> bool) \<Rightarrow> rename_plan_failure + rename_plan" where
  "build_rename_plan f platforms outcome generation cancel =
     (if cancel 0 then Inl PlanCancelled
      else (let notes_list = (case ao_policy outcome of None \<Rightarrow> [] | Some policy \<Rightarrow> pu_notes policy);
                ctx = context_of platforms outcome;
                entries = ar_entries (ao_report outcome)
            in case loose_proposals f (last_by pn_local_path notes_list)
                      (last_by cm_local_path (co_matches (ao_content outcome))) ctx cancel 1 entries [] 0 of
                 Inl e \<Rightarrow> Inl e
               | Inr (loose, verified) \<Rightarrow>
                   (let ps = finish_proposals (siblings_index entries)
                          (loose @ derive_outer_archive_proposals f (ao_archives outcome) (ao_sets outcome) ctx)
                    in Inr \<lparr> rn_generation = generation, rn_source_id = ao_source_id outcome,
                             rn_source_display_name = ao_source_display_name outcome,
                             rn_scan_root = ao_scan_root outcome, rn_platform = ao_platform outcome,
                             rn_platform_display = px_platform_display ctx,
                             rn_content_policy = co_selection (ao_content outcome),
                             rn_classifier_version = classifier_version, rn_proposals = ps,
                             rn_counts = counts_from_proposals ps,
                             rn_audited_total = as_total (ar_summary (ao_report outcome)),
                             rn_verified_total = verified, rn_truncated = ao_truncated outcome \<rparr>)))"

section \<open>From a plan to a transaction\<close>

definition is_applicable_proposal :: "rename_proposal \<Rightarrow> bool" where
  "is_applicable_proposal p \<longleftrightarrow>
     rp_state p = Suggested \<and> rp_actionable p \<and> rp_collision p = None \<and>
     rp_proposed_basename p \<noteq> None \<and> rp_object_kind p = SrcRegularFile"

definition is_approved :: "review_decision \<Rightarrow> bool" where
  "is_approved decision \<longleftrightarrow> decision = AcceptedForReview"

definition build_entry :: "fs \<Rightarrow> path set \<Rightarrow> rename_proposal \<Rightarrow> transaction_entry option" where
  "build_entry f approved p =
     (if \<not> is_applicable_proposal p then None
      else if rp_source_path p \<notin> approved then None
      else (case (rp_proposed_basename p, path_parent (rp_source_path p), capture_identity f (rp_source_path p)) of
              (Some proposed, Some parent, Some current) \<Rightarrow>
                map_option (\<lambda>ident.
                    \<lparr> te_source_path = rp_source_path p, te_destination_path = path_join parent proposed,
                      te_original_basename = rp_current_basename p, te_proposed_basename = proposed,
                      te_identity = ident, te_preflight_passed = False, te_preflight_failures = [],
                      te_state = EsPlanned, te_failure_reason = None, te_applied_at_unix = None,
                      te_rolled_back_at_unix = None, te_unknown = [] \<rparr>)
                  (case rp_audited_identity p of
                     Some audited \<Rightarrow> if identity_matches audited current then Some audited else None
                   | None \<Rightarrow> Some current)
            | _ \<Rightarrow> None))"

definition build_transaction_entries :: "fs \<Rightarrow> rename_plan \<Rightarrow> path set \<Rightarrow> transaction_entry list" where
  "build_transaction_entries f plan approved = List.map_filter (build_entry f approved) (rn_proposals plan)"

text \<open>
  The clock is read for the identifier and again for the creation time; \<open>sequence\<close> is the
  process-wide counter of transaction identifiers.
\<close>

definition build_transaction ::
    "fs \<Rightarrow> nat \<Rightarrow> nat \<Rightarrow> nat \<Rightarrow> rename_plan \<Rightarrow> path set \<Rightarrow> nat \<Rightarrow> apply_error + rename_transaction" where
  "build_transaction f id_now sequence created_now plan approved current_generation =
     (case validate_classifier_version (Some (rn_classifier_version plan)) of
        Inl e \<Rightarrow> Inl e
      | Inr _ \<Rightarrow>
          if rn_generation plan \<noteq> current_generation
          then Inl (StalePlan (rn_generation plan) current_generation)
          else (let entries = build_transaction_entries f plan approved in
                if entries = [] then Inl NothingApproved
                else Inr \<lparr> tx_transaction_id = new_transaction_id id_now sequence,
                           tx_plan_generation = rn_generation plan,
                           tx_classifier_version = Some (rn_classifier_version plan),
                           tx_created_at_unix = created_now, tx_source_scan_root = rn_scan_root plan,
                           tx_state = TsPlanned, tx_entries = entries, tx_created_directories = [],
                           tx_unknown = [] \<rparr>))"

end
