(* ===== verification/RenamePlanProofs.thy ===== *)
theory RenamePlanProofs
  imports RenamePlan
begin

text \<open>
  What a rename plan guarantees: its suggestions are safe and apart from each other, rest on
  verified evidence, and become transaction entries that pass the preflight's static checks.
\<close>

section \<open>The sibling index\<close>

definition siblings_at :: "audit_entry list \<Rightarrow> path \<Rightarrow> string set" where
  "siblings_at entries d =
     ae_local_filename ` {e \<in> set entries. path_parent (ae_local_path e) = Some d}"

lemma siblings_index_snoc:
  "siblings_index (es @ [e]) =
     (case path_parent (ae_local_path e) of None \<Rightarrow> siblings_index es
      | Some d \<Rightarrow> adjust cmp_path d no_siblings (add_sibling (ae_local_filename e)) (siblings_index es))"
  by (cases "path_parent (ae_local_path e)") (simp_all add: siblings_index_def)

lemma siblings_index_sorted: "keys_sorted cmp_path (siblings_index es)"
  by (induction es rule: rev_induct)
     (auto simp: siblings_index_snoc path_keys.keys_sorted_adjust split: option.splits,
      simp add: siblings_index_def)

definition names_of :: "dir_siblings option \<Rightarrow> string set" where
  "names_of s = (case s of None \<Rightarrow> {} | Some d \<Rightarrow> set (ds_names d))"

lemma names_of_simps [simp]:
  "names_of None = {}" "names_of (Some d) = set (ds_names d)"
  by (simp_all add: names_of_def)

lemma siblings_index_names: "names_of (map_of (siblings_index es) d) = siblings_at es d"
proof (induction es rule: rev_induct)
  case Nil
  then show ?case by (simp add: siblings_index_def siblings_at_def)
next
  case (snoc e es)
  show ?case
  proof (cases "path_parent (ae_local_path e) = Some d")
    case True
    have "siblings_at (es @ [e]) d = insert (ae_local_filename e) (siblings_at es d)"
      using True by (auto simp: siblings_at_def)
    then show ?thesis using True snoc
      by (cases "map_of (siblings_index es) d")
         (simp_all add: siblings_index_snoc path_keys.map_of_adjust [OF siblings_index_sorted]
           add_sibling_def no_siblings_def)
  next
    case False
    then have "siblings_at (es @ [e]) d = siblings_at es d" by (auto simp: siblings_at_def)
    moreover have "map_of (siblings_index (es @ [e])) d = map_of (siblings_index es) d"
      using False by (auto simp: siblings_index_snoc path_keys.map_of_adjust [OF siblings_index_sorted]
          split: option.splits)
    ultimately show ?thesis using snoc by simp
  qed
qed

section \<open>What the passes keep\<close>

text \<open>A proposal after a pass: untouched, or marked as a conflict.\<close>

definition held :: "rename_proposal \<Rightarrow> rename_proposal \<Rightarrow> bool" where
  "held p q \<longleftrightarrow> q = p \<or> (\<exists>info. q = mark_conflict info p)"

lemma mark_conflict_simps [simp]:
  "rp_state (mark_conflict info p) = Conflict"
  "rp_source_path (mark_conflict info p) = rp_source_path p"
  "rp_current_basename (mark_conflict info p) = rp_current_basename p"
  "rp_proposed_basename (mark_conflict info p) = rp_proposed_basename p"
  "rp_is_outer_archive (mark_conflict info p) = rp_is_outer_archive p"
  "mark_conflict info (mark_conflict info' p) = mark_conflict info p"
  by (simp_all add: mark_conflict_def)

lemma held_refl [simp]: "held p p"
  by (simp add: held_def)

lemma held_mark [simp]: "held p (mark_conflict info p)"
  by (auto simp: held_def)

lemma held_trans: "held p q \<Longrightarrow> held q r \<Longrightarrow> held p r"
  by (auto simp: held_def)

lemma held_state: "held p q \<Longrightarrow> rp_state q \<noteq> Conflict \<Longrightarrow> q = p"
  by (auto simp: held_def)

lemma held_source: "held p q \<Longrightarrow> rp_source_path q = rp_source_path p"
  by (auto simp: held_def)

lemma held_outer: "held p q \<Longrightarrow> rp_is_outer_archive q = rp_is_outer_archive p"
  by (auto simp: held_def)

lemma detect_target_held: "held p (detect_target index p)"
  by (simp add: detect_target_def split: option.splits)

text \<open>The three passes, and the plan's list, position by position.\<close>

definition marked :: "rename_proposal list \<Rightarrow> rename_proposal list \<Rightarrow> bool" where
  "marked ps qs \<longleftrightarrow> length qs = length ps \<and> (\<forall>i < length ps. held (ps ! i) (qs ! i))"

lemma marked_trans: "marked ps qs \<Longrightarrow> marked qs rs \<Longrightarrow> marked ps rs"
  by (auto simp: marked_def intro: held_trans)

lemma marked_target: "marked ps (detect_target_collisions index ps)"
  by (simp add: marked_def detect_target_collisions_def detect_target_held)

lemma marked_proposal: "marked ps (detect_proposal_collisions ps)"
  by (simp add: marked_def detect_proposal_collisions_def pass_nth)

lemma marked_source: "marked ps (detect_duplicate_sources ps)"
  by (simp add: marked_def detect_duplicate_sources_def pass_nth)

definition passes :: "(path \<times> dir_siblings) list \<Rightarrow> rename_proposal list \<Rightarrow> rename_proposal list" where
  "passes index ps =
     detect_duplicate_sources (detect_proposal_collisions (detect_target_collisions index ps))"

lemma marked_passes: "marked ps (passes index ps)"
  unfolding passes_def by (meson marked_trans marked_target marked_proposal marked_source)

lemma set_finish [simp]: "set (finish_proposals index ps) = set (passes index ps)"
  by (simp add: finish_proposals_def passes_def)

lemma marked_mem:
  assumes "marked ps qs" and "q \<in> set qs"
  obtains p where "p \<in> set ps" and "held p q"
  using assms by (metis in_set_conv_nth marked_def)

lemma passes_mem:
  assumes "q \<in> set (passes index ps)"
  obtains p where "p \<in> set ps" and "held p q"
  using marked_mem [OF marked_passes assms] .

lemma marked_nth:
  "marked ps qs \<Longrightarrow> i < length qs \<Longrightarrow> rp_state (qs ! i) \<noteq> Conflict \<Longrightarrow> qs ! i = ps ! i"
  using held_state [of "ps ! i" "qs ! i"] by (simp add: marked_def)

text \<open>A suggestion that survives clashes with no sibling.\<close>

lemma passes_suggested:
  assumes "q \<in> set (passes index ps)" and "rp_state q = Suggested"
  shows "q \<in> set ps \<and> detect_target index q = q"
proof -
  let ?ts = "detect_target_collisions index ps"
  have "marked ?ts (passes index ps)"
    unfolding passes_def by (meson marked_trans marked_proposal marked_source)
  then obtain t where t: "t \<in> set ?ts" "held t q" using assms(1) by (rule marked_mem)
  then have "q = t" using held_state assms(2) by fastforce
  moreover obtain p where p: "p \<in> set ps" "t = detect_target index p"
    using t(1) by (auto simp: detect_target_collisions_def)
  moreover have "held p t" using p(2) detect_target_held by simp
  ultimately show ?thesis using held_state assms(2) by fastforce
qed

lemma passes_sources:
  assumes "i < length (passes index ps)" and "j < length (passes index ps)" and "i \<noteq> j"
    and "rp_source_path (passes index ps ! i) = rp_source_path (passes index ps ! j)"
  shows "rp_state (passes index ps ! i) = Conflict"
proof -
  let ?qs = "detect_proposal_collisions (detect_target_collisions index ps)"
  let ?key = "\<lambda>p. Some (rp_source_path p)"
  have m: "marked ?qs (passes index ps)" unfolding passes_def by (rule marked_source)
  then have len: "length ?qs = length (passes index ps)" by (simp add: marked_def)
  have src: "rp_source_path (?qs ! k) = rp_source_path (passes index ps ! k)"
    if "k < length (passes index ps)" for k
  proof -
    have "held (?qs ! k) (passes index ps ! k)" using m that len by (simp only: marked_def)
    then show ?thesis by (simp only: held_source)
  qed
  have "?key (?qs ! j) = ?key (?qs ! i)" using src [OF assms(1)] src [OF assms(2)] assms(4) by argo
  then have "shares_key ?key ?qs i"
    unfolding shares_key_def using assms(2,3) len by (intro exI conjI) (assumption | simp)+
  then show ?thesis using pass_nth(2) [of i ?qs "\<lambda>g. source_conflict" ?key] assms(1) len
    by (simp only: passes_def detect_duplicate_sources_def if_True mark_conflict_simps)
qed

lemma passes_targets:
  assumes "i < length (passes index ps)" and "j < length (passes index ps)" and "i \<noteq> j"
    and "rp_state (passes index ps ! i) = Suggested" and "rp_state (passes index ps ! j) = Suggested"
    and "target_key (passes index ps ! i) \<noteq> None"
  shows "target_key (passes index ps ! i) \<noteq> target_key (passes index ps ! j)"
proof
  assume same: "target_key (passes index ps ! i) = target_key (passes index ps ! j)"
  let ?ts = "detect_target_collisions index ps"
  let ?qs = "detect_proposal_collisions ?ts"
  have m: "marked ?qs (passes index ps)" unfolding passes_def by (rule marked_source)
  have n: "marked ?ts ?qs" by (rule marked_proposal)
  have len: "length ?ts = length (passes index ps)" "length ?qs = length (passes index ps)"
    using m n by (simp_all add: marked_def)
  have qs: "passes index ps ! k = ?qs ! k \<and> ?qs ! k = ?ts ! k"
    if "k < length (passes index ps)" "rp_state (passes index ps ! k) = Suggested" for k
  proof -
    have a: "passes index ps ! k = ?qs ! k" using marked_nth [OF m that(1)] that(2) by simp
    then have "?qs ! k = ?ts ! k" using marked_nth [OF n, of k] that len by simp
    then show ?thesis using a by simp
  qed
  obtain key where key: "target_key (passes index ps ! i) = Some key" using assms(6) by blast
  have ti: "target_key (?ts ! i) = Some key" using qs [OF assms(1,4)] key by argo
  have tj: "target_key (?ts ! j) = Some key" using qs [OF assms(2,5)] key same by argo
  have "shares_key target_key ?ts i"
    unfolding shares_key_def using ti tj assms(2,3) len(1) by (intro exI conjI) (assumption | simp)+
  then have "rp_state (?qs ! i) = Conflict"
    using pass_nth(2) [of i ?ts "target_conflict ?ts" target_key] assms(1) len
    by (simp add: detect_proposal_collisions_def)
  then show False using qs [of i] assms by simp
qed

section \<open>What is proposed\<close>

text \<open>A proposal as derived: not yet collided, and a suggestion of it is a safe, different name.\<close>

definition well_made :: "rename_proposal \<Rightarrow> bool" where
  "well_made p \<longleftrightarrow>
     rp_collision p = None \<and> rp_actionable p = (rp_state p = Suggested) \<and> rp_state p \<noteq> Conflict \<and>
     (rp_state p = Suggested \<longrightarrow>
        rp_object_kind p = SrcRegularFile \<and>
        (\<exists>proposed. rp_proposed_basename p = Some proposed \<and> is_safe_basename proposed \<and>
           proposed \<noteq> rp_current_basename p))"

lemma decision_of_object_state:
  "pd_state (decision_of_object kind) = (if kind = SrcRegularFile then Suggested else Unsupported)"
  "pd_proposed (decision_of_object kind) = None"
  by (simp_all add: decision_of_object_def Let_def split: source_object_kind.splits)

lemma decide_name_Suggested:
  assumes "pd_state (decide_name derived current d) = Suggested" and "pd_proposed d = None"
  obtains n where "derived = DeriveOk n" and "dn_proposed_basename n \<noteq> current"
    and "pd_proposed (decide_name derived current d) = Some (dn_proposed_basename n)"
  using assms by (auto simp: decide_name_def Let_def split: derive_outcome.splits if_splits)

lemma decide_states:
  "pd_state d \<noteq> Conflict \<Longrightarrow> pd_state (decide_content e d) \<noteq> Conflict"
  "pd_state d \<noteq> Conflict \<Longrightarrow> pd_state (decide_name derived current d) \<noteq> Conflict"
  "pd_state d \<noteq> Conflict \<Longrightarrow> pd_state (decide_match m current d) \<noteq> Conflict"
  "pd_proposed (decide_content e d) = pd_proposed d"
  by (auto simp: decide_content_def decide_name_def decide_match_def Let_def
      split: content_eligibility.splits derive_outcome.splits option.splits)

lemma decide_match_Suggested:
  assumes "pd_state (decide_match m current d) = Suggested" and "pd_proposed d = None"
  shows "\<exists>proposed. pd_proposed (decide_match m current d) = Some proposed \<and>
           is_safe_basename proposed \<and> proposed \<noteq> current"
proof -
  from assms(1) obtain rom where rom: "mn_rom m = Some rom"
    "decide_match m current d = decide_name (derive_proposed_basename rom current) current d"
    by (auto simp: decide_match_def split: if_splits option.splits)
  with assms obtain n where "derive_proposed_basename rom current = DeriveOk n"
    "dn_proposed_basename n \<noteq> current"
    "pd_proposed (decide_match m current d) = Some (dn_proposed_basename n)"
    using decide_name_Suggested by metis
  then show ?thesis by (auto simp: derive_proposed_Ok safe_clean)
qed

lemma decide_content_Suggested:
  "pd_state (decide_content e d) = Suggested \<Longrightarrow> decide_content e d = d"
  by (auto simp: decide_content_def split: content_eligibility.splits)

lemma derive_proposal_facts:
  assumes "derive_proposal entry note content ctx kind = Some p"
  shows "well_made p" "rp_source_path p = ae_local_path entry"
    "rp_current_basename p = ae_local_filename entry" "\<not> rp_is_outer_archive p"
    "rp_audited_identity p = None"
    "rp_object_kind p = kind"
proof -
  let ?d0 = "decision_of_object kind"
  obtain m cls d1 d2 where p: "rp_collision p = None" "rp_actionable p = (pd_state d2 = Suggested)"
      "rp_state p = pd_state d2" "rp_object_kind p = kind" "rp_proposed_basename p = pd_proposed d2"
      "rp_source_path p = ae_local_path entry" "rp_current_basename p = ae_local_filename entry"
      "\<not> rp_is_outer_archive p" "rp_audited_identity p = None"
    and d1: "d1 = (if pd_state ?d0 = Suggested \<and> mn_ambiguity_reason m = None
                   then decide_content (eligibility (px_content_policy ctx) cls) ?d0 else ?d0)"
    and d2: "d2 = (if pd_state d1 = Suggested then decide_match m (ae_local_filename entry) d1 else d1)"
    using assms by (auto simp: derive_proposal_def Let_def)
  show "rp_source_path p = ae_local_path entry" "rp_current_basename p = ae_local_filename entry"
    "\<not> rp_is_outer_archive p" "rp_audited_identity p = None" "rp_object_kind p = kind" by (fact p)+
  have d1c: "pd_state d1 \<noteq> Conflict" "pd_proposed d1 = None"
    using d1 decide_states by (simp_all add: decision_of_object_state)
  have "pd_state d2 \<noteq> Conflict" using d2 d1c(1) decide_states(3) by simp
  moreover have "kind = SrcRegularFile \<and> (\<exists>proposed. pd_proposed d2 = Some proposed \<and>
      is_safe_basename proposed \<and> proposed \<noteq> ae_local_filename entry)" if s: "pd_state d2 = Suggested"
  proof
    have s1: "pd_state d1 = Suggested" using s d2 by (auto split: if_splits)
    then have "pd_state ?d0 = Suggested" using d1 decide_content_Suggested by (metis (full_types))
    then show "kind = SrcRegularFile" by (simp add: decision_of_object_state split: if_splits)
    show "\<exists>proposed. pd_proposed d2 = Some proposed \<and> is_safe_basename proposed \<and>
        proposed \<noteq> ae_local_filename entry"
      using decide_match_Suggested [OF _ d1c(2)] s s1 d2 by simp
  qed
  ultimately show "well_made p" using p by (simp add: well_made_def)
qed

lemma blocked_missing_source_facts:
  assumes "blocked_missing_source entry note content ctx = Some p"
  shows "well_made p" "rp_source_path p = ae_local_path entry"
    "rp_current_basename p = ae_local_filename entry" "\<not> rp_is_outer_archive p"
    "rp_audited_identity p = None" "rp_state p = Blocked"
  using assms derive_proposal_facts
  by (auto simp: blocked_missing_source_def well_made_def)

lemma archive_extension_safe:
  "is_archive_extension (Some ext) \<Longrightarrow> slash \<notin> set ext \<and> backslash \<notin> set ext \<and> nul \<notin> set ext"
proof -
  assume "is_archive_extension (Some ext)"
  then have low: "to_ascii_lowercase ext \<in> {''zip'', ''7z'', ''rar''}"
    by (auto simp: is_archive_extension_def eq_ignore_ascii_case_def to_ascii_lowercase_def)
       (auto simp: to_ascii_lower_char_def)
  have "to_ascii_lower_char c \<in> set ''zip7rar''" if "c \<in> set ext" for c
    using low that imageI [OF that, of to_ascii_lower_char]
    by (auto simp: to_ascii_lowercase_def simp flip: set_map)
  moreover have "to_ascii_lower_char slash = slash" "to_ascii_lower_char backslash = backslash"
    "to_ascii_lower_char nul = nul"
    by (simp_all add: to_ascii_lower_char_def)
  ultimately show ?thesis by force
qed

lemma outer_archive_facts:
  assumes "outer_archive_evidence f sets ctx archive = Some (resolution, audited, current, kind)"
  shows "aa_completion archive = PassComplete" "resolution \<in> set sets"
    "sr_archive_path resolution = aa_archive_path archive" "sr_state resolution = SetComplete"
    "archive_exactly_matches_set archive resolution"
    "path_file_name (aa_archive_path archive) = Some current"
    "is_archive_extension (path_extension (aa_archive_path archive))"
    "classify_object f (aa_archive_path archive) = Some kind"
proof -
  obtain r where r: "filter (\<lambda>r. sr_archive_path r = aa_archive_path archive) sets = [r]"
    using assms by (auto simp: outer_archive_evidence_def split: if_splits list.splits)
  have "r \<in> set (filter (\<lambda>r. sr_archive_path r = aa_archive_path archive) sets)" by (simp add: r)
  then have "r \<in> set sets \<and> sr_archive_path r = aa_archive_path archive" by simp
  with r show "aa_completion archive = PassComplete" "resolution \<in> set sets"
    "sr_archive_path resolution = aa_archive_path archive" "sr_state resolution = SetComplete"
    "archive_exactly_matches_set archive resolution"
    "path_file_name (aa_archive_path archive) = Some current"
    "is_archive_extension (path_extension (aa_archive_path archive))"
    "classify_object f (aa_archive_path archive) = Some kind"
    using assms by (auto simp: outer_archive_evidence_def split: if_splits option.splits)
qed

lemma outer_proposal_facts:
  fixes ev
  assumes ev: "outer_archive_evidence f sets ctx archive = Some ev"
  shows "well_made (outer_archive_proposal ctx archive ev)"
    "rp_source_path (outer_archive_proposal ctx archive ev) = aa_archive_path archive"
    "path_file_name (aa_archive_path archive) = Some (rp_current_basename (outer_archive_proposal ctx archive ev))"
    "rp_is_outer_archive (outer_archive_proposal ctx archive ev)"
proof -
  obtain resolution audited current kind where e: "ev = (resolution, audited, current, kind)" by (cases ev)
  note facts = outer_archive_facts [OF ev [unfolded e]]
  let ?p = "outer_archive_proposal ctx archive ev"
  let ?game = "si_game_name (sr_identity resolution)"
  let ?d0 = "decision_of_object kind"
  let ?derived = "derive_outer_archive_basename ?game current"
  define d where "d = (if pd_state ?d0 = Suggested then decide_name ?derived current ?d0 else ?d0)"
  have p: "rp_collision ?p = None" "rp_actionable ?p = (pd_state d = Suggested)" "rp_state ?p = pd_state d"
      "rp_object_kind ?p = kind" "rp_proposed_basename ?p = pd_proposed d" "rp_current_basename ?p = current"
    by (simp_all add: outer_archive_proposal_def e d_def Let_def)
  show "rp_source_path ?p = aa_archive_path archive" "rp_is_outer_archive ?p"
    by (simp_all add: outer_archive_proposal_def e Let_def)
  show "path_file_name (aa_archive_path archive) = Some (rp_current_basename ?p)"
    using facts(6) p(6) by simp
  have "pd_state d \<noteq> Conflict"
    unfolding d_def using decide_states(2) by (simp add: decision_of_object_state)
  moreover have "kind = SrcRegularFile \<and> (\<exists>proposed. pd_proposed d = Some proposed \<and>
      is_safe_basename proposed \<and> proposed \<noteq> current)" if s: "pd_state d = Suggested"
  proof
    show kind: "kind = SrcRegularFile"
      using s by (auto simp: d_def decision_of_object_state split: if_splits)
    then have d: "d = decide_name ?derived current ?d0" by (simp add: d_def decision_of_object_state)
    obtain n where n: "?derived = DeriveOk n" "dn_proposed_basename n \<noteq> current"
        "pd_proposed d = Some (dn_proposed_basename n)"
      using s unfolding d by (rule decide_name_Suggested) (simp_all add: decision_of_object_state)
    obtain a ext where ext: "is_safe_basename (trim ?game)" "rsplit_once dot current = Some (a, ext)" "ext \<noteq> []"
        "dn_proposed_basename n = map clean_char (trim ?game) @ ''.'' @ ext"
      using derive_outer_Ok [OF n(1)] by blast
    have "path_extension (aa_archive_path archive) = Some ext"
      using facts(6,7) ext(2)
      by (auto simp: path_extension_def is_archive_extension_def split: if_splits option.splits)
    then have "slash \<notin> set ext \<and> backslash \<notin> set ext \<and> nul \<notin> set ext"
      using facts(7) archive_extension_safe by simp
    moreover have "is_safe_basename (map clean_char (trim ?game))" using ext(1) by (rule safe_clean)
    ultimately have "is_safe_basename (dn_proposed_basename n)"
      using ext(3,4) by (auto simp: is_safe_basename_def Cons_eq_append_conv append_eq_Cons_conv)
    then show "\<exists>proposed. pd_proposed d = Some proposed \<and> is_safe_basename proposed \<and> proposed \<noteq> current"
      using n by blast
  qed
  ultimately show "well_made ?p" using p by (simp add: well_made_def)
qed

section \<open>Where proposals come from\<close>

definition loose_origin :: "fs \<Rightarrow> audit_entry list \<Rightarrow> rename_proposal \<Rightarrow> bool" where
  "loose_origin f entries p \<longleftrightarrow>
     (\<exists>e \<in> set entries. is_verified (ae_verdict e) \<and> rp_source_path p = ae_local_path e \<and>
        rp_current_basename p = ae_local_filename e \<and> \<not> rp_is_outer_archive p \<and>
        (rp_state p \<in> {Blocked, Conflict} \<or> classify_object f (ae_local_path e) = Some (rp_object_kind p)))"

definition outer_origin ::
    "fs \<Rightarrow> dat_archive_audit list \<Rightarrow> set_resolution list \<Rightarrow> rename_proposal \<Rightarrow> bool" where
  "outer_origin f archives sets p \<longleftrightarrow>
     (\<exists>a \<in> set archives. \<exists>r \<in> set sets.
        aa_completion a = PassComplete \<and> sr_archive_path r = aa_archive_path a \<and>
        sr_state r = SetComplete \<and> archive_exactly_matches_set a r \<and>
        rp_source_path p = aa_archive_path a \<and> rp_is_outer_archive p \<and>
        path_file_name (aa_archive_path a) = Some (rp_current_basename p) \<and>
        classify_object f (aa_archive_path a) = Some (rp_object_kind p))"

lemma loose_proposals_mem:
  "loose_proposals f nb cb ctx cancel n entries acc v = Inr (ps, w) \<Longrightarrow>
   (\<And>p. p \<in> set acc \<Longrightarrow> well_made p \<and> loose_origin f all p) \<Longrightarrow> set entries \<subseteq> set all \<Longrightarrow>
   p \<in> set ps \<Longrightarrow> well_made p \<and> loose_origin f all p"
proof (induction entries arbitrary: n acc v)
  case Nil
  then show ?case by simp
next
  case (Cons e es)
  have cancel: "\<not> cancel n" using Cons.prems(1) by (auto split: if_splits)
  show ?case
  proof (cases "is_verified (ae_verdict e)")
    case False
    then show ?thesis using Cons.IH [of "n + 1" acc v] Cons.prems cancel by auto
  next
    case True
    let ?derived = "case classify_object f (ae_local_path e) of
        Some kind \<Rightarrow> derive_proposal e (nb (ae_local_path e)) (cb (ae_local_path e)) ctx kind
      | None \<Rightarrow> blocked_missing_source e (nb (ae_local_path e)) (cb (ae_local_path e)) ctx"
    obtain q where q: "?derived = Some q"
      using Cons.prems(1) True cancel by (cases ?derived) (simp_all add: Let_def)
    have rec: "loose_proposals f nb cb ctx cancel (n + 1) es (acc @ [q]) (v + 1) = Inr (ps, w)"
      using Cons.prems(1) True cancel q by (simp add: Let_def)
    have "well_made q \<and> rp_source_path q = ae_local_path e \<and> rp_current_basename q = ae_local_filename e \<and>
        \<not> rp_is_outer_archive q \<and>
        (rp_state q = Blocked \<or> classify_object f (ae_local_path e) = Some (rp_object_kind q))"
      using q derive_proposal_facts blocked_missing_source_facts by (cases "classify_object f (ae_local_path e)") auto
    then have "well_made q \<and> loose_origin f all q"
      using True Cons.prems(3) unfolding loose_origin_def by auto
    then show ?thesis using Cons.IH [OF rec] Cons.prems by auto
  qed
qed

lemma outer_proposals_mem:
  assumes "p \<in> set (derive_outer_archive_proposals f archives sets ctx)"
  shows "well_made p \<and> outer_origin f archives sets p"
proof -
  have "p \<in> (\<Union>a \<in> set archives. set (case outer_archive_evidence f sets ctx a of None \<Rightarrow> [] |
      Some ev \<Rightarrow> [outer_archive_proposal ctx a ev]))"
    using assms by (simp only: derive_outer_archive_proposals_def set_concat set_map image_image)
  then obtain a where arch: "a \<in> set archives"
      "p \<in> set (case outer_archive_evidence f sets ctx a of None \<Rightarrow> [] | Some ev \<Rightarrow> [outer_archive_proposal ctx a ev])"
    by (rule UN_E)
  then obtain ev where a: "a \<in> set archives" "outer_archive_evidence f sets ctx a = Some ev"
      "p = outer_archive_proposal ctx a ev"
    by (cases "outer_archive_evidence f sets ctx a") simp_all
  obtain resolution audited current kind where e: "ev = (resolution, audited, current, kind)" by (cases ev)
  have "rp_object_kind p = kind" using a(3) by (simp add: e outer_archive_proposal_def Let_def)
  then show ?thesis
    using a(1) outer_archive_facts [OF a(2) [unfolded e]] outer_proposal_facts [OF a(2)]
    unfolding outer_origin_def a(3) by auto
qed

text \<open>The list before the passes.\<close>

lemma build_rename_plan_cases:
  assumes "build_rename_plan f platforms outcome generation cancel = Inr plan"
  obtains ps where "rn_proposals plan = finish_proposals (siblings_index (ar_entries (ao_report outcome))) ps"
    and "\<forall>p \<in> set ps. well_made p \<and>
           (loose_origin f (ar_entries (ao_report outcome)) p \<or> outer_origin f (ao_archives outcome) (ao_sets outcome) p)"
    and "rn_generation plan = generation" and "rn_classifier_version plan = classifier_version"
    and "rn_counts plan = counts_from_proposals (rn_proposals plan)"
proof -
  let ?ctx = "context_of platforms outcome"
  let ?nb = "last_by pn_local_path (case ao_policy outcome of None \<Rightarrow> [] | Some policy \<Rightarrow> pu_notes policy)"
  let ?cb = "last_by cm_local_path (co_matches (ao_content outcome))"
  let ?entries = "ar_entries (ao_report outcome)"
  let ?outer = "derive_outer_archive_proposals f (ao_archives outcome) (ao_sets outcome) ?ctx"
  obtain loose v where l: "loose_proposals f ?nb ?cb ?ctx cancel 1 ?entries [] 0 = Inr (loose, v)"
    and plan: "rn_proposals plan = finish_proposals (siblings_index ?entries) (loose @ ?outer)"
      "rn_generation plan = generation" "rn_classifier_version plan = classifier_version"
      "rn_counts plan = counts_from_proposals (rn_proposals plan)"
    using assms by (auto simp: build_rename_plan_def Let_def split: if_splits sum.splits)
  have "well_made p \<and> (loose_origin f ?entries p \<or> outer_origin f (ao_archives outcome) (ao_sets outcome) p)"
    if "p \<in> set (loose @ ?outer)" for p
    using that loose_proposals_mem [OF l, of ?entries p] outer_proposals_mem [of p] by auto
  then show ?thesis using that plan by blast
qed

section \<open>The guarantees of a plan\<close>

lemma passes_well_made:
  assumes "\<And>p. p \<in> set ps \<Longrightarrow> well_made p" and "q \<in> set (passes index ps)" and "rp_state q = Suggested"
  shows "well_made q"
  using assms passes_suggested by blast

definition safe_suggestion :: "audit_entry list \<Rightarrow> rename_proposal \<Rightarrow> bool" where
  "safe_suggestion entries p \<longleftrightarrow>
     is_applicable_proposal p \<and>
     (case rp_proposed_basename p of
        None \<Rightarrow> False
      | Some proposed \<Rightarrow>
          is_safe_basename proposed \<and> proposed \<noteq> rp_current_basename p \<and>
          (case path_parent (rp_source_path p) of
             None \<Rightarrow> True
           | Some d \<Rightarrow> \<not> sibling_clash (rp_current_basename p) proposed (siblings_at entries d)))"

lemma detect_target_fixed:
  assumes "detect_target (siblings_index entries) q = q" and "rp_state q = Suggested"
    and "rp_proposed_basename q = Some proposed" and "path_parent (rp_source_path q) = Some d"
  shows "\<not> sibling_clash (rp_current_basename q) proposed (siblings_at entries d)"
proof (cases "map_of (siblings_index entries) d")
  case None
  then have "siblings_at entries d = {}" using siblings_index_names [of entries d] by simp
  then show ?thesis by (simp add: sibling_clash_def)
next
  case (Some s)
  have "detect_target_collision (rp_current_basename q) proposed s = None"
  proof (rule ccontr)
    assume "detect_target_collision (rp_current_basename q) proposed s \<noteq> None"
    then obtain info where "detect_target_collision (rp_current_basename q) proposed s = Some info" by blast
    then have "detect_target (siblings_index entries) q = mark_conflict info q"
      using assms Some by (simp add: detect_target_def)
    then show False using assms(1,2) mark_conflict_simps(1) by (metis proposal_state.distinct(5))
  qed
  then show ?thesis using Some siblings_index_names [of entries d] by (simp add: detect_target_collision_None)
qed

lemma suggestion_safe:
  assumes "\<And>p. p \<in> set ps \<Longrightarrow> well_made p" and "q \<in> set (passes (siblings_index entries) ps)"
    and "rp_state q = Suggested"
  shows "safe_suggestion entries q"
proof -
  have w: "well_made q" by (rule passes_well_made [OF assms])
  then obtain proposed where p: "rp_proposed_basename q = Some proposed" "is_safe_basename proposed"
      "proposed \<noteq> rp_current_basename q" "is_applicable_proposal q"
    using assms(3) by (auto simp: well_made_def is_applicable_proposal_def)
  have "detect_target (siblings_index entries) q = q" using passes_suggested [OF assms(2,3)] by blast
  then show ?thesis
    using p detect_target_fixed [OF _ assms(3) p(1)] by (auto simp: safe_suggestion_def split: option.splits)
qed

definition apart :: "rename_proposal \<Rightarrow> rename_proposal \<Rightarrow> bool" where
  "apart p q \<longleftrightarrow>
     (rp_source_path p \<noteq> rp_source_path q \<or> rp_state p = Conflict \<and> rp_state q = Conflict) \<and>
     (rp_state p = Suggested \<and> rp_state q = Suggested \<longrightarrow>
        path_parent (rp_source_path p) \<noteq> path_parent (rp_source_path q) \<or>
        map_option to_ascii_lowercase (rp_proposed_basename p) \<noteq>
        map_option to_ascii_lowercase (rp_proposed_basename q))"

lemma passes_apart:
  assumes "\<And>p. p \<in> set ps \<Longrightarrow> well_made p"
    and i: "i < length (passes index ps)" and j: "j < length (passes index ps)" and ij: "i \<noteq> j"
  shows "apart (passes index ps ! i) (passes index ps ! j)"
proof -
  let ?p = "passes index ps ! i" and ?q = "passes index ps ! j"
  have "rp_state ?p = Conflict \<and> rp_state ?q = Conflict" if same: "rp_source_path ?p = rp_source_path ?q"
    using passes_sources [OF i j ij same] passes_sources [OF j i ij [symmetric] same [symmetric]] by blast
  moreover have "path_parent (rp_source_path ?p) \<noteq> path_parent (rp_source_path ?q) \<or>
        map_option to_ascii_lowercase (rp_proposed_basename ?p) \<noteq>
        map_option to_ascii_lowercase (rp_proposed_basename ?q)"
    if s: "rp_state ?p = Suggested" "rp_state ?q = Suggested"
  proof -
    have "?p \<in> set (passes index ps)" "?q \<in> set (passes index ps)" using i j by simp_all
    then have "well_made ?p" "well_made ?q" using passes_well_made [OF assms(1)] s by blast+
    then obtain a b where "rp_proposed_basename ?p = Some a" "rp_proposed_basename ?q = Some b"
      using s by (auto simp: well_made_def)
    then show ?thesis using passes_targets [OF i j ij s] s by (auto simp: target_key_def)
  qed
  ultimately show ?thesis unfolding apart_def by blast
qed

lemma symp_apart: "symp apart"
  by (rule sympI) (auto simp: apart_def)

lemma plan_apart:
  assumes "\<And>p. p \<in> set ps \<Longrightarrow> well_made p"
  shows "sorted_wrt apart (finish_proposals index ps)"
proof -
  have "sorted_wrt apart (passes index ps)"
    using passes_apart [OF assms] by (simp add: sorted_wrt_iff_nth_less)
  then show ?thesis
    using pairwise_sort_by [OF symp_apart] by (simp add: finish_proposals_def passes_def)
qed

text \<open>All guarantees at once; the properties below are its parts.\<close>

lemma plan_guarantees:
  assumes "build_rename_plan f platforms outcome generation cancel = Inr plan"
  shows "p \<in> set (rn_proposals plan) \<Longrightarrow> rp_state p = Suggested \<Longrightarrow>
           safe_suggestion (ar_entries (ao_report outcome)) p"
    and "sorted_wrt apart (rn_proposals plan)"
    and "p \<in> set (rn_proposals plan) \<Longrightarrow>
           loose_origin f (ar_entries (ao_report outcome)) p \<or> outer_origin f (ao_archives outcome) (ao_sets outcome) p"
    and "rn_generation plan = generation"
    and "rn_counts plan = counts_from_proposals (rn_proposals plan)"
proof -
  obtain ps where ps: "rn_proposals plan = finish_proposals (siblings_index (ar_entries (ao_report outcome))) ps"
    and ok: "\<forall>p \<in> set ps. well_made p \<and>
           (loose_origin f (ar_entries (ao_report outcome)) p \<or> outer_origin f (ao_archives outcome) (ao_sets outcome) p)"
    and gen: "rn_generation plan = generation" "rn_classifier_version plan = classifier_version"
      "rn_counts plan = counts_from_proposals (rn_proposals plan)"
    using assms by (rule build_rename_plan_cases)
  note ok = bspec [OF ok]
  show "rn_generation plan = generation" "rn_counts plan = counts_from_proposals (rn_proposals plan)" by (fact gen)+
  show "sorted_wrt apart (rn_proposals plan)" unfolding ps using plan_apart ok by blast
  show "safe_suggestion (ar_entries (ao_report outcome)) p" if "p \<in> set (rn_proposals plan)" "rp_state p = Suggested"
  proof (rule suggestion_safe [OF _ _ that(2)])
    show "well_made q" if "q \<in> set ps" for q using ok [OF that] by blast
    show "p \<in> set (passes (siblings_index (ar_entries (ao_report outcome))) ps)" using that(1) by (simp add: ps)
  qed
  show "loose_origin f (ar_entries (ao_report outcome)) p \<or> outer_origin f (ao_archives outcome) (ao_sets outcome) p"
    if "p \<in> set (rn_proposals plan)"
  proof -
    have "p \<in> set (passes (siblings_index (ar_entries (ao_report outcome))) ps)" using that by (simp add: ps)
    then obtain q where q: "q \<in> set ps" "held q p" by (rule passes_mem)
    have "rp_current_basename p = rp_current_basename q" "rp_object_kind p = rp_object_kind q"
      using q(2) by (auto simp: held_def mark_conflict_def)
    moreover have "rp_state q \<notin> {Blocked, Conflict} \<or> rp_state p \<in> {Blocked, Conflict}"
      using q(2) by (auto simp: held_def)
    ultimately show ?thesis using ok [OF q(1)] held_source [OF q(2)] held_outer [OF q(2)]
      by (auto simp: loose_origin_def outer_origin_def)
  qed
qed

text \<open>
  C9: Every suggestion of a plan can be applied and is safe: it has a proposed name that is a
  safe file name different from the current one, a regular source, no recorded collision,
  and no audited sibling in the directory bears the proposed name or, other than the file
  itself, a name that differs from it only by case.
\<close>

theorem plan_suggestions_safe:
  assumes "build_rename_plan f platforms outcome generation cancel = Inr plan"
    and "p \<in> set (rn_proposals plan)" and "rp_state p = Suggested"
  shows "safe_suggestion (ar_entries (ao_report outcome)) p"
  using plan_guarantees(1) [OF assms] .

text \<open>
  C11: The proposals of a plan do not step on each other: two proposals for the same source are
  both conflicts, so one approval authorises at most one rename, and two suggestions in one
  directory propose names that differ by more than case.
\<close>

theorem plan_suggestions_apart:
  assumes "build_rename_plan f platforms outcome generation cancel = Inr plan"
    and "i < j" and "j < length (rn_proposals plan)"
  shows "apart (rn_proposals plan ! i) (rn_proposals plan ! j)"
  using sorted_wrt_nth_less [OF plan_guarantees(2) [OF assms(1)] assms(2,3)] .

text \<open>
  C18: A plan proposes only on verified evidence: a loose file only where its own audit verdict
  is an exact match, an outer archive only where a complete pass over it matched, member by
  member, one complete set attributed to it. In both cases the object on disk was classified
  without following a link, unless the proposal is already blocked or in conflict.
\<close>

theorem plan_rests_on_evidence:
  assumes "build_rename_plan f platforms outcome generation cancel = Inr plan"
    and "p \<in> set (rn_proposals plan)"
  shows "if rp_is_outer_archive p
         then outer_origin f (ao_archives outcome) (ao_sets outcome) p
         else loose_origin f (ar_entries (ao_report outcome)) p"
  using plan_guarantees(3) [OF assms] by (auto simp: loose_origin_def outer_origin_def)

section \<open>From proposals to transaction entries\<close>

lemma build_entry_facts:
  assumes "build_entry f approved p = Some e"
  shows "is_applicable_proposal p" "te_source_path e = rp_source_path p" "te_source_path e \<in> approved"
    "te_original_basename e = rp_current_basename p"
    "rp_proposed_basename p = Some (te_proposed_basename e)"
    "\<exists>parent. path_parent (rp_source_path p) = Some parent \<and>
       te_destination_path e = path_join parent (te_proposed_basename e)"
    "holds_object f (te_source_path e) (te_identity e)" "te_state e = EsPlanned"
  using assms by (auto simp: build_entry_def holds_object_def split: if_splits option.splits)

lemma entry_destination:
  assumes "build_entry f approved p = Some e" and "safe_suggestion entries p"
  shows "te_source_path e \<noteq> []" "te_destination_path e = butlast (te_source_path e) @ [te_proposed_basename e]"
    "is_safe_basename (te_proposed_basename e)"
proof -
  note facts = build_entry_facts [OF assms(1)]
  have safe: "is_safe_basename (te_proposed_basename e)"
    using assms(2) facts(5) by (simp add: safe_suggestion_def)
  then show "is_safe_basename (te_proposed_basename e)" .
  obtain parent where parent: "path_parent (rp_source_path p) = Some parent"
      "te_destination_path e = path_join parent (te_proposed_basename e)"
    using facts(6) by blast
  then show "te_source_path e \<noteq> []" using facts(2) path_parent_Some by simp
  show "te_destination_path e = butlast (te_source_path e) @ [te_proposed_basename e]"
    using parent facts(2) safe path_parent_Some [OF parent(1)]
    by (simp add: path_join_single is_safe_basename_def)
qed

lemma apart_destinations:
  assumes "apart p q" and "build_entry f approved p = Some d" and "build_entry f approved q = Some e"
    and "safe_suggestion entries p" and "safe_suggestion entries q"
  shows "te_destination_path d \<noteq> te_destination_path e"
proof
  assume "te_destination_path d = te_destination_path e"
  then have same: "butlast (te_source_path d) = butlast (te_source_path e)"
    "te_proposed_basename d = te_proposed_basename e"
    using entry_destination [OF assms(2,4)] entry_destination [OF assms(3,5)] by simp_all
  note dp = build_entry_facts [OF assms(2)] and eq = build_entry_facts [OF assms(3)]
  have "path_parent (rp_source_path p) = path_parent (rp_source_path q)"
    using same(1) dp(2) eq(2) entry_destination(1) [OF assms(2,4)] entry_destination(1) [OF assms(3,5)]
    by (simp add: path_parent_def)
  moreover have "rp_state p = Suggested" "rp_state q = Suggested"
    using dp(1) eq(1) by (simp_all add: is_applicable_proposal_def)
  ultimately show False using assms(1) dp(5) eq(5) same(2) by (simp add: apart_def)
qed

lemma distinct_destinations:
  "sorted_wrt apart ps \<Longrightarrow> (\<And>p. p \<in> set ps \<Longrightarrow> rp_state p = Suggested \<Longrightarrow> safe_suggestion entries p) \<Longrightarrow>
   distinct (map te_destination_path (List.map_filter (build_entry f approved) ps))"
proof (induction ps)
  case (Cons p ps)
  show ?case
  proof (cases "build_entry f approved p")
    case None
    then show ?thesis using Cons by (simp add: map_filter_simps)
  next
    case (Some d)
    have safe: "safe_suggestion entries q" if "q \<in> set (p # ps)" "build_entry f approved q = Some e" for q e
      using Cons.prems(2) [OF that(1)] build_entry_facts(1) [OF that(2)] by (simp add: is_applicable_proposal_def)
    have "te_destination_path d \<noteq> te_destination_path e" if e: "e \<in> set (List.map_filter (build_entry f approved) ps)" for e
    proof -
      obtain q where q: "q \<in> set ps" "build_entry f approved q = Some e"
        using e by (auto simp: mem_map_filter)
      moreover have "apart p q" using Cons.prems(1) q(1) by simp
      ultimately show ?thesis using apart_destinations Some safe by (metis list.set_intros)
    qed
    then show ?thesis using Some Cons by (auto simp: map_filter_simps)
  qed
qed (simp add: map_filter_simps)

lemma distinct_no_batch_conflict: "distinct (map te_destination_path es) \<Longrightarrow> batch_destinations es = {}"
  using count_list_ge2_iff [where xs = "map te_destination_path es"]
  by (auto simp: batch_destinations_iff distinct_conv_nth)

text \<open>The audit names a file by the last component of its path.\<close>

definition coherent_entries :: "audit_entry list \<Rightarrow> bool" where
  "coherent_entries entries \<longleftrightarrow>
     list_all (\<lambda>e. path_file_name (ae_local_path e) = Some (ae_local_filename e)) entries"

lemma build_transaction_Inr:
  assumes "build_transaction f id_now sequence created_now plan approved current = Inr t"
  shows "rn_generation plan = current" "tx_plan_generation t = current"
    "tx_entries t = build_transaction_entries f plan approved" "tx_entries t \<noteq> []"
    "tx_classifier_version t = Some classifier_version" "tx_state t = TsPlanned"
  using assms by (auto simp: build_transaction_def validate_classifier_version_def Let_def split: sum.splits if_splits)

text \<open>
  The only failures a freshly built entry can meet, each with its cause in the file system
  \<open>f\<close>: the directory is outside the trusted roots; the source is a directory or a special
  file, which the planner does not tell from a regular one; or the new name, or one that
  differs from it only by case, is borne by an object the audit did not list.
\<close>

definition unlisted :: "audit_entry list \<Rightarrow> path \<Rightarrow> bool" where
  "unlisted entries q \<longleftrightarrow> q \<notin> ae_local_path ` set entries"

definition failure_explained ::
    "fs \<Rightarrow> audit_entry list \<Rightarrow> trusted_roots \<Rightarrow> transaction_entry \<Rightarrow> preflight_failure \<Rightarrow> bool" where
  "failure_explained f entries trusted e failure =
     (let d = butlast (te_source_path e) in
      case failure of
        OutsideTrustedRoot \<Rightarrow> trusted \<noteq> [] \<and> \<not> inside_roots f trusted d
      | SourceNotRegular \<Rightarrow>
          (\<exists>n. symlink_metadata f (te_source_path e) = Some n \<and> n_kind n \<in> {DirNode, SpecialNode})
      | DestinationAlreadyExists \<Rightarrow>
          te_destination_path e = d @ [te_proposed_basename e] \<and>
          \<not> absent f (te_destination_path e) \<and> unlisted entries (te_destination_path e)
      | DestinationCaseCollision \<Rightarrow>
          (\<exists>names name. read_dir f d = Some names \<and> name |\<in>| names \<and>
             to_ascii_lowercase name = to_ascii_lowercase (te_proposed_basename e) \<and>
             name \<noteq> te_proposed_basename e \<and> name \<noteq> te_original_basename e \<and>
             unlisted entries (d @ [name]))
      | _ \<Rightarrow> False)"

lemma listed_sibling:
  assumes "coherent_entries entries" and "\<not> unlisted entries (d @ [name])"
  shows "name \<in> siblings_at entries d"
proof -
  obtain x where x: "x \<in> set entries" "ae_local_path x = d @ [name]"
    using assms(2) by (force simp: unlisted_def)
  then have "ae_local_filename x = name"
    using assms(1) by (auto simp: coherent_entries_def list_all_iff path_file_name_def split: if_splits)
  with x show ?thesis by (force simp: siblings_at_def path_parent_def)
qed

lemma suggestion_unlisted:
  assumes "build_entry f approved p = Some e" and "safe_suggestion entries p" and "coherent_entries entries"
  shows "unlisted entries (te_destination_path e)"
    and "to_ascii_lowercase name = to_ascii_lowercase (te_proposed_basename e) \<Longrightarrow>
      name \<noteq> te_original_basename e \<Longrightarrow> unlisted entries (butlast (te_source_path e) @ [name])"
proof -
  note facts = build_entry_facts [OF assms(1)] and dest = entry_destination [OF assms(1,2)]
  have free: "\<not> sibling_clash (te_original_basename e) (te_proposed_basename e)
      (siblings_at entries (butlast (te_source_path e)))"
    using assms(2) facts(2,4,5) dest(1) by (simp add: safe_suggestion_def path_parent_def)
  then show "unlisted entries (te_destination_path e)"
    using listed_sibling [OF assms(3)] dest(2) by (auto simp: sibling_clash_def)
  show "unlisted entries (butlast (te_source_path e) @ [name])"
    if "to_ascii_lowercase name = to_ascii_lowercase (te_proposed_basename e)" "name \<noteq> te_original_basename e"
    using free that listed_sibling [OF assms(3)] by (auto simp: sibling_clash_def)
qed

lemma trusted_explained:
  assumes "te_source_path e \<noteq> []" and "path_parent (te_destination_path e) = path_parent (te_source_path e)"
  shows "list_all (failure_explained f entries (po_trusted opts) e) (check_trusted f e opts)"
  using assms by (simp add: check_trusted_def failure_explained_def path_parent_def Let_def)

lemma identity_explained:
  assumes "classify_object f (te_source_path e) = Some SrcRegularFile"
    and "holds_object f (te_source_path e) (te_identity e)"
  shows "list_all (failure_explained f entries trusted e) (check_identity f e opts)"
  using assms
  by (auto simp: check_identity_def holds_object_def failure_explained_def classify_object_def
      capture_identity_def classify_at_def split: option.splits node_kind.splits if_splits)

lemma destination_explained:
  assumes built: "build_entry f approved p = Some e" and safe: "safe_suggestion entries p"
    and coherent: "coherent_entries entries"
  shows "list_all (failure_explained f entries trusted e) (check_destination f e)"
proof -
  note dest = entry_destination [OF built safe] and free = suggestion_unlisted [OF built safe coherent]
  have parent: "path_parent (te_destination_path e) = Some (butlast (te_source_path e))"
    using dest(2) by (simp add: path_parent_def)
  have "failure_explained f entries trusted e DestinationAlreadyExists"
    if "symlink_metadata f (te_destination_path e) \<noteq> None"
    using that dest(2) free(1) by (simp add: failure_explained_def absent_def)
  moreover have "failure_explained f entries trusted e DestinationCaseCollision"
    if "read_dir f (butlast (te_source_path e)) = Some names" "case_collision e names" for names
  proof -
    obtain name where "name |\<in>| names" "name \<noteq> te_proposed_basename e" "name \<noteq> te_original_basename e"
        "to_ascii_lowercase name = to_ascii_lowercase (te_proposed_basename e)"
      using \<open>case_collision e names\<close> by (auto simp: case_collision_def)
    then show ?thesis using free(2) \<open>read_dir f (butlast (te_source_path e)) = Some names\<close>
      by (auto simp: failure_explained_def)
  qed
  ultimately show ?thesis using parent by (auto simp: check_destination_def split: option.splits)
qed


end
