(* ===== verification/DatSet.thy ===== *)
theory DatSet
  imports SetModel OrderedMap
begin

text \<open>
  Storage completeness of the catalogue sets one archive touches: \<open>dat/set.rs\<close>. A
  \<open>BTreeMap\<close> is a key-ordered association list, a \<open>HashSet\<close> a set, a \<open>HashMap\<close> a map.
\<close>

section \<open>Classification of members\<close>

datatype member_class =
  PhysicalRequired | OptionalPhysical | Borrowed | NonFile | UnverifiableNodump | KnownBad
| Contradictory | UnknownLoadflag

definition non_file_loadflags :: "string list" where
  "non_file_loadflags = [''fill'', ''reload'', ''reload_plain'', ''continue'', ''ignore'']"

definition physical_loadflags :: "string list" where
  "physical_loadflags =
     [''load16_byte'', ''load16_word'', ''load16_word_swap'', ''load32_byte'', ''load32_word'',
      ''load32_word_swap'', ''load32_dword'', ''load64_word'', ''load64_word_swap'']"

datatype status_value = StatusOrdinary | StatusNoDump | StatusBadDump | StatusMalformed
datatype marker_value = MarkerAbsent | MarkerPresent | MarkerMalformed

definition ordinary_status :: "string option \<Rightarrow> status_value" where
  "ordinary_status value =
     (case map_option trim value of
        None \<Rightarrow> StatusOrdinary
      | Some v \<Rightarrow>
          if eq_ignore_ascii_case v ''good'' then StatusOrdinary
          else if eq_ignore_ascii_case v ''verified'' then StatusOrdinary
          else if eq_ignore_ascii_case v ''nodump'' then StatusNoDump
          else if eq_ignore_ascii_case v ''baddump'' then StatusBadDump
          else StatusMalformed)"

definition nonempty_marker :: "string option \<Rightarrow> marker_value" where
  "nonempty_marker value =
     (case map_option trim value of
        None \<Rightarrow> MarkerAbsent
      | Some v \<Rightarrow> if v = [] then MarkerMalformed else MarkerPresent)"

definition yes_no_marker :: "string option \<Rightarrow> marker_value" where
  "yes_no_marker value =
     (case map_option trim value of
        None \<Rightarrow> MarkerAbsent
      | Some v \<Rightarrow>
          if eq_ignore_ascii_case v ''yes'' then MarkerPresent
          else if eq_ignore_ascii_case v ''no'' then MarkerAbsent
          else MarkerMalformed)"

text \<open>The common tail of the two classifiers: status, then the merge marker, then the optional marker.\<close>

definition classify_markers :: "string option \<Rightarrow> string option \<Rightarrow> string option \<Rightarrow> member_class" where
  "classify_markers status merge_marker optional_marker =
     (case ordinary_status status of
        StatusNoDump \<Rightarrow> UnverifiableNodump
      | StatusBadDump \<Rightarrow> KnownBad
      | StatusMalformed \<Rightarrow> Contradictory
      | StatusOrdinary \<Rightarrow>
          (case nonempty_marker merge_marker of
             MarkerPresent \<Rightarrow> Borrowed
           | MarkerMalformed \<Rightarrow> Contradictory
           | MarkerAbsent \<Rightarrow>
               (case yes_no_marker optional_marker of
                  MarkerPresent \<Rightarrow> OptionalPhysical
                | MarkerMalformed \<Rightarrow> Contradictory
                | MarkerAbsent \<Rightarrow> PhysicalRequired)))"

definition classify_rom_member :: "dat_rom_entry \<Rightarrow> member_class" where
  "classify_rom_member rom =
     (let loadflag = map_option trim (dr_loadflag rom);
          is_non_file = (case loadflag of
                           None \<Rightarrow> False
                         | Some v \<Rightarrow> list_ex (\<lambda>known. eq_ignore_ascii_case v known) non_file_loadflags)
      in if is_non_file \<and> dr_merge rom \<noteq> None then Contradictory
         else if is_non_file then NonFile
         else if (case loadflag of
                    None \<Rightarrow> False
                  | Some v \<Rightarrow> \<not> list_ex (\<lambda>known. eq_ignore_ascii_case v known) physical_loadflags)
         then UnknownLoadflag
         else classify_markers (dr_status rom) (dr_merge rom) (dr_optional rom))"

definition classify_disk_member :: "dat_disk_entry \<Rightarrow> member_class" where
  "classify_disk_member disk = classify_markers (dd_status disk) (dd_merge disk) (dd_optional disk)"

section \<open>Declarations and references\<close>

text \<open>Every declaration a set owns, with its positional key: top-level ones, then the parts' areas.\<close>

definition declared_roms :: "nat \<Rightarrow> dat_game_entry \<Rightarrow> (dat_member_key \<times> dat_rom_entry) list" where
  "declared_roms game_index game =
     map (\<lambda>(rom_index, rom). (\<lparr> mk_game_index = game_index, mk_location = TopLevelRom rom_index \<rparr>, rom))
       (enumerate 0 (dg_roms game)) @
     concat (map (\<lambda>(part_index, part).
       concat (map (\<lambda>(area_index, area).
         map (\<lambda>(member_index, rom).
           (\<lparr> mk_game_index = game_index,
              mk_location = DataAreaRom part_index area_index member_index \<rparr>, rom))
           (enumerate 0 (da_roms area)))
         (enumerate 0 (dp_data_areas part))))
       (enumerate 0 (dg_parts game)))"

definition declared_disks :: "nat \<Rightarrow> dat_game_entry \<Rightarrow> (dat_disk_key \<times> dat_disk_entry) list" where
  "declared_disks game_index game =
     map (\<lambda>(disk_index, disk). (\<lparr> dk_game_index = game_index, dk_location = TopLevelDisk disk_index \<rparr>, disk))
       (enumerate 0 (dg_disks game)) @
     concat (map (\<lambda>(part_index, part).
       concat (map (\<lambda>(area_index, area).
         map (\<lambda>(member_index, disk).
           (\<lparr> dk_game_index = game_index,
              dk_location = DiskAreaDisk part_index area_index member_index \<rparr>, disk))
           (enumerate 0 (dk_disks area)))
         (enumerate 0 (dp_disk_areas part))))
       (enumerate 0 (dg_parts game)))"

text \<open>\<open>slice::get\<close>.\<close>

definition get_at :: "'a list \<Rightarrow> nat \<Rightarrow> 'a option" where
  "get_at xs i = (if i < length xs then Some (xs ! i) else None)"

definition rom_at :: "dat_game_entry \<Rightarrow> member_location \<Rightarrow> dat_rom_entry option" where
  "rom_at game location =
     (case location of
        TopLevelRom rom_index \<Rightarrow> get_at (dg_roms game) rom_index
      | DataAreaRom part_index area_index member_index \<Rightarrow>
          Option.bind (get_at (dg_parts game) part_index) (\<lambda>part.
          Option.bind (get_at (dp_data_areas part) area_index) (\<lambda>area.
          get_at (da_roms area) member_index)))"

definition disk_at :: "dat_game_entry \<Rightarrow> disk_location \<Rightarrow> dat_disk_entry option" where
  "disk_at game location =
     (case location of
        TopLevelDisk disk_index \<Rightarrow> get_at (dg_disks game) disk_index
      | DiskAreaDisk part_index area_index member_index \<Rightarrow>
          Option.bind (get_at (dg_parts game) part_index) (\<lambda>part.
          Option.bind (get_at (dp_disk_areas part) area_index) (\<lambda>area.
          get_at (dk_disks area) member_index)))"

definition ref_matches_catalogue :: "dat_rom_ref \<Rightarrow> dat_game_entry list \<Rightarrow> bool" where
  "ref_matches_catalogue r games =
     (let key = rom_ref_key r in
      mk_game_index key = rr_game_index r \<and>
      (case get_at games (mk_game_index key) of
         None \<Rightarrow> False
       | Some game \<Rightarrow>
           dg_name game = rr_game_name r \<and>
           (case rom_at game (mk_location key) of
              None \<Rightarrow> False
            | Some rom \<Rightarrow>
                dr_name rom = rr_rom_name r \<and> dr_size_bytes rom = rr_size_bytes r \<and>
                checksums rom = rr_checksums r)))"

definition ref_matches_disk_catalogue :: "dat_disk_ref \<Rightarrow> dat_game_entry list \<Rightarrow> bool" where
  "ref_matches_disk_catalogue r games =
     (let key = disk_ref_key r in
      dk_game_index key = kr_game_index r \<and>
      (case get_at games (dk_game_index key) of
         None \<Rightarrow> False
       | Some game \<Rightarrow>
           dg_name game = kr_game_name r \<and>
           (case disk_at game (dk_location key) of
              None \<Rightarrow> False
            | Some disk \<Rightarrow>
                (case dd_name disk of None \<Rightarrow> [] | Some n \<Rightarrow> n) = kr_disk_name r \<and>
                Option.bind (dd_sha1 disk) parse_disk_sha1 = Some (kr_sha1 r))))"

section \<open>Shared cryptographic identity\<close>

definition ref_checksum_value :: "dat_rom_ref \<Rightarrow> checksum_algorithm \<Rightarrow> string option" where
  "ref_checksum_value r algorithm =
     map_option ck_value (find (\<lambda>c. ck_algorithm c = algorithm) (rr_checksums r))"

fun conflicting_checksums :: "dat_checksum list \<Rightarrow> bool" where
  "conflicting_checksums [] = False"
| "conflicting_checksums (c # cs) =
     (list_ex (\<lambda>c'. ck_algorithm c' = ck_algorithm c \<and> ck_value c' \<noteq> ck_value c) cs \<or>
      conflicting_checksums cs)"

definition ref_has_conflicting_checksums :: "dat_rom_ref \<Rightarrow> bool" where
  "ref_has_conflicting_checksums r = conflicting_checksums (rr_checksums r)"

definition ref_has_malformed_checksums :: "dat_rom_ref \<Rightarrow> bool" where
  "ref_has_malformed_checksums r = list_ex (\<lambda>c. trim (ck_value c) = []) (rr_checksums r)"

definition declared_algorithms :: "dat_rom_ref list \<Rightarrow> checksum_algorithm list" where
  "declared_algorithms refs =
     foldl (\<lambda>acc a. if a \<in> set acc then acc else acc @ [a]) []
       (concat (map (\<lambda>r. map ck_algorithm (rr_checksums r)) refs))"

text \<open>
  One algorithm over all references: \<open>None\<close> when two values disagree, otherwise how many
  references populate it and whether all do.
\<close>

fun scan_algorithm ::
    "checksum_algorithm \<Rightarrow> dat_rom_ref list \<Rightarrow> string option \<Rightarrow> nat \<Rightarrow> bool \<Rightarrow> (nat \<times> bool) option" where
  "scan_algorithm a [] agreed populated all = Some (populated, all)"
| "scan_algorithm a (r # rs) agreed populated all =
     (case ref_checksum_value r a of
        None \<Rightarrow> scan_algorithm a rs agreed populated False
      | Some v \<Rightarrow>
          (case agreed of
             None \<Rightarrow> scan_algorithm a rs (Some v) (Suc populated) all
           | Some existing \<Rightarrow>
               if existing = v then scan_algorithm a rs agreed (Suc populated) all else None))"

fun share_loop :: "dat_rom_ref list \<Rightarrow> checksum_algorithm list \<Rightarrow> bool \<Rightarrow> bool" where
  "share_loop refs [] strong = strong"
| "share_loop refs (a # as) strong =
     (case scan_algorithm a refs None 0 True of
        None \<Rightarrow> False
      | Some (populated, all) \<Rightarrow> share_loop refs as (strong \<or> (populated \<ge> 2 \<and> all \<and> a \<noteq> Crc32)))"

definition refs_share_cryptographic_identity :: "dat_rom_ref list \<Rightarrow> bool" where
  "refs_share_cryptographic_identity refs =
     (if length refs < 2 then False
      else if list_ex (\<lambda>r. ref_has_malformed_checksums r \<or> ref_has_conflicting_checksums r) refs then False
      else share_loop refs (declared_algorithms refs) False)"

section \<open>Attribution of an archive's members\<close>

record touched_set =
  ts_verified_member_keys :: "dat_member_key set"
  ts_legacy_verified_rom_names :: "string set"
  ts_used_legacy_evidence :: bool
  ts_ambiguous :: bool
  ts_duplicate_evidence :: bool

definition untouched :: touched_set where
  "untouched =
     \<lparr> ts_verified_member_keys = {}, ts_legacy_verified_rom_names = {}, ts_used_legacy_evidence = False,
       ts_ambiguous = False, ts_duplicate_evidence = False \<rparr>"

type_synonym touched_map = "(string \<times> touched_set) list"

definition touch :: "string \<Rightarrow> (touched_set \<Rightarrow> touched_set) \<Rightarrow> touched_map \<Rightarrow> touched_map" where
  "touch game f m = adjust cmp_string game untouched f m"

definition mark_ambiguous :: "bool \<Rightarrow> touched_set \<Rightarrow> touched_set" where
  "mark_ambiguous dup t =
     t\<lparr>ts_ambiguous := True, ts_duplicate_evidence := ts_duplicate_evidence t \<or> dup\<rparr>"

definition mark_verified :: "bool \<Rightarrow> dat_member_key set \<Rightarrow> touched_set \<Rightarrow> touched_set" where
  "mark_verified dup keys t =
     t\<lparr>ts_verified_member_keys := ts_verified_member_keys t \<union> keys,
       ts_duplicate_evidence := ts_duplicate_evidence t \<or> dup\<rparr>"

definition mark_legacy :: "bool \<Rightarrow> string \<Rightarrow> touched_set \<Rightarrow> touched_set" where
  "mark_legacy dup name t =
     t\<lparr>ts_legacy_verified_rom_names := insert name (ts_legacy_verified_rom_names t),
       ts_used_legacy_evidence := True,
       ts_duplicate_evidence := ts_duplicate_evidence t \<or> dup\<rparr>"

definition duplicate_index :: "dat_archive_audit \<Rightarrow> nat \<Rightarrow> bool" where
  "duplicate_index archive i \<longleftrightarrow>
     count_list (map (\<lambda>m. me_index (am_evidence m)) (aa_members archive)) i > 1"

definition strong_verdict :: "audit_verdict option \<Rightarrow> bool" where
  "strong_verdict v =
     (case v of
        Some (Exact _ _ _) \<Rightarrow> True
      | Some (ExactMultipleCandidates _ _ _) \<Rightarrow> True
      | _ \<Rightarrow> False)"

definition one_game :: "dat_rom_ref list \<Rightarrow> bool" where
  "one_game refs =
     (case refs of [] \<Rightarrow> False | r # _ \<Rightarrow> list_all (\<lambda>c. rr_game_name c = rr_game_name r) refs)"

text \<open>When positional references count as verification of their slots.\<close>

definition safely_attributed :: "dat_game_entry list \<Rightarrow> dat_archive_member_audit \<Rightarrow> bool" where
  "safely_attributed games m =
     (let refs = am_matched_refs m; valid = list_all (\<lambda>c. ref_matches_catalogue c games) refs
      in strong_verdict (am_verdict m) \<and> valid \<and>
         (length refs = 1 \<or> (one_game refs \<and> valid \<and> refs_share_cryptographic_identity refs)))"

definition attribute_member ::
    "dat_archive_audit \<Rightarrow> dat_game_entry list \<Rightarrow> dat_archive_member_audit \<Rightarrow> touched_map \<Rightarrow> touched_map" where
  "attribute_member archive games m touched =
     (let dup = duplicate_index archive (me_index (am_evidence m)); refs = am_matched_refs m in
      if refs \<noteq> []
      then (if safely_attributed games m
            then touch (rr_game_name (hd refs)) (mark_verified dup (set (map rom_ref_key refs))) touched
            else fold (\<lambda>c. touch (rr_game_name c) (mark_ambiguous dup)) refs touched)
      else (case am_verdict m of
              Some (Exact game_name rom_name _) \<Rightarrow> touch game_name (mark_legacy dup rom_name) touched
            | Some (ExactMultipleCandidates _ _ game_names) \<Rightarrow>
                fold (\<lambda>game_name. touch game_name (mark_ambiguous dup)) game_names touched
            | _ \<Rightarrow> touched))"

definition attribute_archive_members :: "dat_archive_audit \<Rightarrow> dat_game_entry list \<Rightarrow> touched_map" where
  "attribute_archive_members archive games = fold (attribute_member archive games) (aa_members archive) []"

section \<open>Disk evidence\<close>

record disk_evidence_summary =
  de_verified :: "string \<Rightarrow> dat_disk_key set option"
  de_parent_required :: "string \<Rightarrow> dat_disk_key set option"
  de_ambiguous_games :: "string set"
  de_duplicate_evidence_games :: "string set"
  de_verified_identity :: "dat_disk_key \<Rightarrow> string option"
  de_verified_parent_identity :: "dat_disk_key \<Rightarrow> string option option"

definition no_disk_evidence :: disk_evidence_summary where
  "no_disk_evidence =
     \<lparr> de_verified = (\<lambda>_. None), de_parent_required = (\<lambda>_. None), de_ambiguous_games = {},
       de_duplicate_evidence_games = {}, de_verified_identity = (\<lambda>_. None),
       de_verified_parent_identity = (\<lambda>_. None) \<rparr>"

definition insert_key :: "string \<Rightarrow> 'a \<Rightarrow> (string \<Rightarrow> 'a set option) \<Rightarrow> (string \<Rightarrow> 'a set option)" where
  "insert_key game k m = m(game := Some (insert k (case m game of None \<Rightarrow> {} | Some ks \<Rightarrow> ks)))"

definition duplicate_path :: "dat_disk_audit list \<Rightarrow> path \<Rightarrow> bool" where
  "duplicate_path evidence p \<longleftrightarrow> count_list (map da_chd_path evidence) p > 1"

definition summarize_disk ::
    "dat_disk_audit list \<Rightarrow> dat_game_entry list \<Rightarrow> dat_disk_audit \<Rightarrow> disk_evidence_summary \<Rightarrow> disk_evidence_summary"
where
  "summarize_disk evidence games audit s =
     (let dup = duplicate_path evidence (da_chd_path audit); refs = da_matched_refs audit in
      case da_verdict audit of
        Some (DiskExact _ _) \<Rightarrow>
          (if length refs = 1 \<and> ref_matches_disk_catalogue (hd refs) games
           then (let only = hd refs; key = disk_ref_key only; game = kr_game_name only;
                     s1 = s\<lparr>de_verified := insert_key game key (de_verified s)\<rparr>;
                     s2 = (case Option.bind (da_overall_sha1 audit) parse_disk_sha1 of
                             None \<Rightarrow> s1
                           | Some identity \<Rightarrow>
                               s1\<lparr>de_verified_identity := (de_verified_identity s1)(key := Some identity)\<rparr>);
                     s3 = (if da_parent_required audit
                           then s2\<lparr>de_parent_required := insert_key game key (de_parent_required s2),
                                   de_verified_parent_identity :=
                                     (de_verified_parent_identity s2)(key := Some (da_parent_sha1 audit))\<rparr>
                           else s2)
                 in if dup then s3\<lparr>de_duplicate_evidence_games := insert game (de_duplicate_evidence_games s3)\<rparr>
                    else s3)
           else s\<lparr>de_ambiguous_games := de_ambiguous_games s \<union> set (map kr_game_name refs)\<rparr>)
      | Some (DiskExactMultipleCandidates _ _) \<Rightarrow>
          s\<lparr>de_ambiguous_games := de_ambiguous_games s \<union> set (map kr_game_name refs),
            de_duplicate_evidence_games :=
              de_duplicate_evidence_games s \<union> (if dup then set (map kr_game_name refs) else {})\<rparr>
      | _ \<Rightarrow> s)"

definition summarize_disk_evidence :: "dat_disk_audit list \<Rightarrow> dat_game_entry list \<Rightarrow> disk_evidence_summary" where
  "summarize_disk_evidence evidence games = fold (summarize_disk evidence games) evidence no_disk_evidence"

section \<open>Classification of one touched set\<close>

definition member_slot_verified :: "touched_set \<Rightarrow> dat_member_key \<Rightarrow> string \<Rightarrow> bool" where
  "member_slot_verified t key name \<longleftrightarrow>
     key \<in> ts_verified_member_keys t \<or> name \<in> ts_legacy_verified_rom_names t"

type_synonym classified_rom = "dat_member_key \<times> dat_rom_entry \<times> member_class"
type_synonym classified_disk = "dat_disk_key \<times> dat_disk_entry \<times> member_class"

definition disk_display_name :: "dat_disk_entry \<Rightarrow> string" where
  "disk_display_name disk = (case dd_name disk of None \<Rightarrow> [] | Some n \<Rightarrow> n)"

definition has_unsupported_member_shape :: "classified_rom list \<Rightarrow> classified_disk list \<Rightarrow> bool" where
  "has_unsupported_member_shape roms disks =
     (list_ex (\<lambda>(_, rom, cls).
         (if cls \<in> {PhysicalRequired, OptionalPhysical, Borrowed}
          then trim (dr_name rom) = [] \<or> dr_size_bytes rom = None \<or> checksums rom = []
          else if cls \<in> {UnverifiableNodump, KnownBad} then trim (dr_name rom) = []
          else False)) roms \<or>
      list_ex (\<lambda>(_, disk, cls).
         (let unnamed = (case dd_name disk of None \<Rightarrow> True | Some n \<Rightarrow> trim n = []) in
          if cls \<in> {PhysicalRequired, OptionalPhysical}
          then unnamed \<or> Option.bind (dd_sha1 disk) parse_disk_sha1 = None
          else if cls \<in> {Borrowed, UnverifiableNodump, KnownBad} then unnamed
          else False)) disks)"

definition is_top_level :: "member_location \<Rightarrow> bool" where
  "is_top_level l = (case l of TopLevelRom _ \<Rightarrow> True | DataAreaRom _ _ _ \<Rightarrow> False)"

text \<open>\<open>seen\<close> holds, for every file-bearing name met so far, its last location.\<close>

fun unsafe_duplicates :: "bool \<Rightarrow> (string \<Rightarrow> member_location option) \<Rightarrow> classified_rom list \<Rightarrow> bool" where
  "unsafe_duplicates legacy seen [] = False"
| "unsafe_duplicates legacy seen ((key, rom, cls) # rest) =
     (if cls \<in> {PhysicalRequired, OptionalPhysical, Borrowed}
      then (case seen (dr_name rom) of
              None \<Rightarrow> unsafe_duplicates legacy (seen(dr_name rom := Some (mk_location key))) rest
            | Some previous \<Rightarrow>
                legacy \<or> is_top_level previous \<or> is_top_level (mk_location key) \<or>
                unsafe_duplicates legacy (seen(dr_name rom := Some (mk_location key))) rest)
      else unsafe_duplicates legacy seen rest)"

definition has_unsafe_duplicate_evidence_names :: "classified_rom list \<Rightarrow> bool \<Rightarrow> bool" where
  "has_unsafe_duplicate_evidence_names roms used_legacy_evidence =
     unsafe_duplicates used_legacy_evidence (\<lambda>_. None) roms"

text \<open>The lists the two loops over the classified members fill, and their flags.\<close>

definition names_of_class :: "member_class \<Rightarrow> classified_rom list \<Rightarrow> string list" where
  "names_of_class cls roms = map (\<lambda>(_, rom, _). dr_name rom) (filter (\<lambda>(_, _, c). c = cls) roms)"

definition disk_names_of_class :: "member_class \<Rightarrow> classified_disk list \<Rightarrow> string list" where
  "disk_names_of_class cls disks =
     map (\<lambda>(_, disk, _). disk_display_name disk) (filter (\<lambda>(_, _, c). c = cls) disks)"

definition bad_members :: "('k \<times> 'm \<times> member_class) list \<Rightarrow> ('m \<Rightarrow> string) \<Rightarrow> set_bad_member list" where
  "bad_members ms name =
     concat (map (\<lambda>(_, m, cls).
       (case cls of
          UnverifiableNodump \<Rightarrow> [\<lparr> bm_rom_name = name m, bm_reason = NoDump \<rparr>]
        | KnownBad \<Rightarrow> [\<lparr> bm_rom_name = name m, bm_reason = BadDump \<rparr>]
        | _ \<Rightarrow> [])) ms)"

definition has_class :: "member_class list \<Rightarrow> ('k \<times> 'm \<times> member_class) list \<Rightarrow> bool" where
  "has_class cs ms = list_ex (\<lambda>(_, _, c). c \<in> set cs) ms"

definition supported_refusal :: "dat_game_entry \<Rightarrow> needs_review_reason option" where
  "supported_refusal game =
     (case map_option trim (dg_supported game) of
        None \<Rightarrow> None
      | Some v \<Rightarrow> if eq_ignore_ascii_case v ''yes'' then None else Some UnsupportedSoftware)"

definition empty_resolution :: "set_identity \<Rightarrow> path \<Rightarrow> set_state \<Rightarrow> set_resolution" where
  "empty_resolution identity p state =
     \<lparr> sr_identity = identity, sr_archive_path = p, sr_state = state, sr_members_required = [],
       sr_members_verified = [], sr_members_bad = [], sr_members_optional = [],
       sr_members_borrowed = [], sr_disks_required = [], sr_disks_verified = [],
       sr_disks_parent_required = [], sr_dependencies = not_evaluated \<rparr>"

text \<open>
  The state once the evidence is trusted: classification refusals, unrepresentable
  structure, the support marker, known-bad metadata, empty sets, and then presence.
\<close>

definition all_present ::
    "classified_rom list \<Rightarrow> classified_disk list \<Rightarrow> touched_set \<Rightarrow> dat_disk_key set \<Rightarrow> bool" where
  "all_present roms disks t disk_keys \<longleftrightarrow>
     list_all (\<lambda>(key, rom, cls). cls \<noteq> PhysicalRequired \<or> member_slot_verified t key (dr_name rom)) roms \<and>
     list_all (\<lambda>(key, disk, cls). cls \<noteq> PhysicalRequired \<or> key \<in> disk_keys) disks"

definition storage_state ::
    "nat \<Rightarrow> dat_game_entry \<Rightarrow> classified_rom list \<Rightarrow> classified_disk list \<Rightarrow> touched_set \<Rightarrow>
     dat_disk_key set \<Rightarrow> set_state" where
  "storage_state game_index game roms disks t disk_keys =
     (let bads = map bm_reason (bad_members roms dr_name @ bad_members disks disk_display_name);
          unsupported = dg_unsupported_structure game \<or> has_unsupported_member_shape roms disks \<or>
            has_unsafe_duplicate_evidence_names roms (ts_used_legacy_evidence t) \<or>
            (\<exists>key \<in> ts_verified_member_keys t. mk_game_index key \<noteq> game_index) \<or>
            (\<exists>key \<in> disk_keys. dk_game_index key \<noteq> game_index);
          only_optional = names_of_class PhysicalRequired roms = [] \<and>
            names_of_class Borrowed roms = [] \<and> disk_names_of_class Borrowed disks = [] \<and>
            (has_class [OptionalPhysical, NonFile] roms \<or> has_class [OptionalPhysical] disks) \<and>
            NoDump \<notin> set bads \<and> BadDump \<notin> set bads
      in if has_class [Contradictory] roms \<or> has_class [Contradictory, NonFile, UnknownLoadflag] disks
           then SetNeedsReview ContradictoryMemberFlags
         else if has_class [UnknownLoadflag] roms then SetNeedsReview UnknownLoadflagReason
         else if unsupported then SetNeedsReview UnsupportedSetStructure
         else (case supported_refusal game of
                 Some reason \<Rightarrow> SetNeedsReview reason
               | None \<Rightarrow>
                   if NoDump \<in> set bads then SetBadMetadata NoDump
                   else if BadDump \<in> set bads then SetBadMetadata BadDump
                   else if roms = [] \<and> disks = [] then SetNeedsReview NoDeclaredMembers
                   else if only_optional then SetNeedsReview OnlyNonFileOrOptionalMembers
                   else if \<not> all_present roms disks t disk_keys then SetIncomplete
                   else SetComplete))"

definition evidence_refusal ::
    "string \<Rightarrow> touched_set \<Rightarrow> disk_evidence_summary \<Rightarrow> needs_review_reason option" where
  "evidence_refusal game_name t s =
     (if ts_duplicate_evidence t \<or> game_name \<in> de_duplicate_evidence_games s
      then Some DuplicateArchiveEvidence
      else if ts_ambiguous t \<or> game_name \<in> de_ambiguous_games s
      then Some AmbiguousMemberAttribution
      else None)"

definition keys_or_empty :: "'a set option \<Rightarrow> 'a set" where
  "keys_or_empty m = (case m of None \<Rightarrow> {} | Some ks \<Rightarrow> ks)"

definition classify_matched_set ::
    "dat_archive_audit \<Rightarrow> disk_evidence_summary \<Rightarrow> bool \<Rightarrow> set_identity \<Rightarrow> nat \<Rightarrow> dat_game_entry \<Rightarrow>
     touched_set \<Rightarrow> set_resolution" where
  "classify_matched_set archive s disk_scan_complete identity game_index game t =
     (let name = si_game_name identity;
          roms = map (\<lambda>(key, rom). (key, rom, classify_rom_member rom)) (declared_roms game_index game);
          disks = map (\<lambda>(key, disk). (key, disk, classify_disk_member disk)) (declared_disks game_index game);
          disk_keys = keys_or_empty (de_verified s name);
          parent_keys = keys_or_empty (de_parent_required s name);
          present = filter (\<lambda>(key, disk, cls). cls = PhysicalRequired \<and> key \<in> disk_keys) disks;
          pass_complete = aa_completion archive = PassComplete \<and>
            (disk_scan_complete \<or> disk_names_of_class PhysicalRequired disks = []);
          (state, bads) =
            (if \<not> pass_complete then (SetNeedsReview PartialArchivePass, [])
             else (case evidence_refusal name t s of
                     Some reason \<Rightarrow> (SetNeedsReview reason, [])
                   | None \<Rightarrow> (storage_state game_index game roms disks t disk_keys,
                              bad_members roms dr_name @ bad_members disks disk_display_name)))
      in \<lparr> sr_identity = identity, sr_archive_path = aa_archive_path archive, sr_state = state,
           sr_members_required = names_of_class PhysicalRequired roms,
           sr_members_verified = map (\<lambda>(_, rom, _). dr_name rom)
             (filter (\<lambda>(key, rom, cls). cls = PhysicalRequired \<and> member_slot_verified t key (dr_name rom)) roms),
           sr_members_bad = bads,
           sr_members_optional = map (\<lambda>(_, rom, _). dr_name rom)
             (filter (\<lambda>(key, rom, cls). cls = OptionalPhysical \<and> member_slot_verified t key (dr_name rom)) roms),
           sr_members_borrowed = names_of_class Borrowed roms @ disk_names_of_class Borrowed disks,
           sr_disks_required = disk_names_of_class PhysicalRequired disks,
           sr_disks_verified = map (\<lambda>(_, disk, _). disk_display_name disk) present,
           sr_disks_parent_required = map (\<lambda>(_, disk, _). disk_display_name disk)
             (filter (\<lambda>(key, disk, cls). key \<in> parent_keys) present),
           sr_dependencies = not_evaluated \<rparr>)"

definition classify_touched_set ::
    "dat_archive_audit \<Rightarrow> disk_evidence_summary \<Rightarrow> bool \<Rightarrow> dat_game_entry list \<Rightarrow> string \<Rightarrow>
     string \<times> touched_set \<Rightarrow> set_resolution option" where
  "classify_touched_set archive s disk_scan_complete games source_id = (\<lambda>(game_name, t).
     (let identity = \<lparr> si_source_id = source_id, si_game_name = game_name \<rparr> in
      case filter (\<lambda>(_, candidate). dg_name candidate = game_name) (enumerate 0 games) of
        [] \<Rightarrow> None
      | [(game_index, game)] \<Rightarrow>
          Some (classify_matched_set archive s disk_scan_complete identity game_index game t)
      | _ \<Rightarrow>
          Some (empty_resolution identity (aa_archive_path archive)
            (SetNeedsReview (if aa_completion archive = PassComplete then DuplicateGameName
                             else PartialArchivePass)))))"

definition classify_archive_sets ::
    "dat_archive_audit \<Rightarrow> dat_disk_audit list \<Rightarrow> bool \<Rightarrow> dat_game_entry list \<Rightarrow> string \<Rightarrow> set_resolution list"
where
  "classify_archive_sets archive disk_evidence disk_scan_complete games source_id =
     List.map_filter
       (classify_touched_set archive (summarize_disk_evidence disk_evidence games) disk_scan_complete
          games source_id)
       (attribute_archive_members archive games)"

end
