(* ===== verification/DatSetProofs.thy ===== *)
theory DatSetProofs
  imports DatSet
begin

text \<open>
  A set called complete is proved complete: every locally required rom and disk of its one
  catalogue entry rests on unambiguous evidence of this archive and this run.
\<close>

section \<open>Where verified slots come from\<close>

definition member_dup :: "dat_archive_audit \<Rightarrow> dat_archive_member_audit \<Rightarrow> bool" where
  "member_dup archive m = duplicate_index archive (me_index (am_evidence m))"

text \<open>The evidence one member gives for a slot, and for a name of the legacy, name-only kind.\<close>

definition proves_key :: "dat_game_entry list \<Rightarrow> string \<Rightarrow> dat_member_key \<Rightarrow> dat_archive_member_audit \<Rightarrow> bool" where
  "proves_key games g key m \<longleftrightarrow>
     am_matched_refs m \<noteq> [] \<and> safely_attributed games m \<and> rr_game_name (hd (am_matched_refs m)) = g \<and>
     key \<in> rom_ref_key ` set (am_matched_refs m)"

definition proves_name :: "string \<Rightarrow> string \<Rightarrow> dat_archive_member_audit \<Rightarrow> bool" where
  "proves_name g name m \<longleftrightarrow> am_matched_refs m = [] \<and> (\<exists>algorithm. am_verdict m = Some (Exact g name algorithm))"

definition backed :: "dat_archive_audit \<Rightarrow> dat_archive_member_audit set \<Rightarrow> (dat_archive_member_audit \<Rightarrow> bool) \<Rightarrow> bool \<Rightarrow> bool"
where
  "backed archive ms P dup \<longleftrightarrow> (\<exists>m \<in> ms. P m \<and> (member_dup archive m \<longrightarrow> dup))"

definition touched_ok ::
    "dat_archive_audit \<Rightarrow> dat_game_entry list \<Rightarrow> dat_archive_member_audit set \<Rightarrow> string \<Rightarrow> touched_set \<Rightarrow> bool" where
  "touched_ok archive games ms g t \<longleftrightarrow>
     (\<forall>key \<in> ts_verified_member_keys t. backed archive ms (proves_key games g key) (ts_duplicate_evidence t)) \<and>
     (\<forall>name \<in> ts_legacy_verified_rom_names t. backed archive ms (proves_name g name) (ts_duplicate_evidence t))"

definition map_ok ::
    "dat_archive_audit \<Rightarrow> dat_game_entry list \<Rightarrow> dat_archive_member_audit set \<Rightarrow> touched_map \<Rightarrow> bool" where
  "map_ok archive games ms T \<longleftrightarrow> (\<forall>g t. (g, t) \<in> set T \<longrightarrow> touched_ok archive games ms g t)"

lemma backed_mono: "backed archive ms P dup \<Longrightarrow> ms \<subseteq> ms' \<Longrightarrow> backed archive ms' P (dup \<or> dup')"
  by (auto simp: backed_def)

lemma touched_ok_mono: "touched_ok archive games ms g t \<Longrightarrow> ms \<subseteq> ms' \<Longrightarrow> touched_ok archive games ms' g t"
  unfolding touched_ok_def using backed_mono [where dup' = False] by auto

lemma map_ok_mono: "map_ok archive games ms T \<Longrightarrow> ms \<subseteq> ms' \<Longrightarrow> map_ok archive games ms' T"
  unfolding map_ok_def using touched_ok_mono by blast

lemma untouched_ok [simp]: "touched_ok archive games ms g untouched"
  by (simp add: touched_ok_def untouched_def)

lemma touch_ok:
  assumes "map_ok archive games ms T"
    and "\<And>t. touched_ok archive games ms g t \<Longrightarrow> touched_ok archive games ms g (f t)"
  shows "map_ok archive games ms (touch g f T)"
  unfolding map_ok_def touch_def
proof (intro allI impI)
  fix x y assume "(x, y) \<in> set (adjust cmp_string g untouched f T)"
  from adjust_entries [OF this] show "touched_ok archive games ms x y"
    using assms unfolding map_ok_def by auto
qed

lemma fold_touch_ok:
  assumes "map_ok archive games ms T"
    and "\<And>x t. touched_ok archive games ms (k x) t \<Longrightarrow> touched_ok archive games ms (k x) (f t)"
  shows "map_ok archive games ms (fold (\<lambda>x. touch (k x) f) xs T)"
  using assms(1) by (induction xs arbitrary: T) (simp_all add: touch_ok assms(2))

lemma mark_ambiguous_ok: "touched_ok archive games ms g t \<Longrightarrow> touched_ok archive games ms g (mark_ambiguous dup t)"
  unfolding touched_ok_def mark_ambiguous_def using backed_mono by fastforce

lemma mark_verified_ok:
  assumes "touched_ok archive games ms g t" and "m \<in> ms"
    and "\<And>key. key \<in> keys \<Longrightarrow> proves_key games g key m"
  shows "touched_ok archive games ms g (mark_verified (member_dup archive m) keys t)"
proof -
  have "backed archive ms (proves_key games g key) (ts_duplicate_evidence t \<or> member_dup archive m)"
    if "key \<in> keys" for key
    using that assms(2,3) by (auto simp: backed_def)
  then show ?thesis
    using assms(1) backed_mono [where dup' = "member_dup archive m"]
    unfolding touched_ok_def mark_verified_def by fastforce
qed

lemma mark_legacy_ok:
  assumes "touched_ok archive games ms g t" and "m \<in> ms" and "proves_name g name m"
  shows "touched_ok archive games ms g (mark_legacy (member_dup archive m) name t)"
proof -
  have "backed archive ms (proves_name g name) (ts_duplicate_evidence t \<or> member_dup archive m)"
    using assms(2,3) by (auto simp: backed_def)
  then show ?thesis
    using assms(1) backed_mono [where dup' = "member_dup archive m"]
    unfolding touched_ok_def mark_legacy_def by fastforce
qed

lemma attribute_member_ok:
  assumes ok: "map_ok archive games ms T" and m: "m \<in> ms"
  shows "map_ok archive games ms (attribute_member archive games m T)"
proof (cases "am_matched_refs m = []")
  case False
  show ?thesis
  proof (cases "safely_attributed games m")
    case True
    let ?g = "rr_game_name (hd (am_matched_refs m))"
    have "touched_ok archive games ms ?g
        (mark_verified (member_dup archive m) (rom_ref_key ` set (am_matched_refs m)) t)"
      if "touched_ok archive games ms ?g t" for t
      by (rule mark_verified_ok [OF that m]) (use True False in \<open>simp add: proves_key_def\<close>)
    then show ?thesis
      using touch_ok [OF ok] True False by (simp add: attribute_member_def Let_def member_dup_def)
  next
    case unsafe: False
    then show ?thesis
      using fold_touch_ok [OF ok mark_ambiguous_ok] False by (simp add: attribute_member_def Let_def)
  qed
next
  case True
  show ?thesis
  proof (cases "am_verdict m")
    case None
    then show ?thesis using ok True by (simp add: attribute_member_def Let_def)
  next
    case (Some v)
    show ?thesis
    proof (cases v)
      case (Exact g name algorithm)
      have "touched_ok archive games ms g (mark_legacy (member_dup archive m) name t)"
        if "touched_ok archive games ms g t" for t
        by (rule mark_legacy_ok [OF that m]) (use True Some Exact in \<open>simp add: proves_name_def\<close>)
      then show ?thesis
        using touch_ok [OF ok] True Some Exact by (simp add: attribute_member_def Let_def member_dup_def)
    next
      case (ExactMultipleCandidates algorithm n names)
      then show ?thesis
        using fold_touch_ok [OF ok mark_ambiguous_ok, of "\<lambda>x. x"] True Some
        by (simp add: attribute_member_def Let_def)
    qed (use ok True Some in \<open>simp_all add: attribute_member_def Let_def\<close>)
  qed
qed

lemma attribute_ok: "map_ok archive games (set (aa_members archive)) (attribute_archive_members archive games)"
proof -
  have "map_ok archive games ms (fold (attribute_member archive games) xs T)"
    if "map_ok archive games ms T" and "set xs \<subseteq> ms" for xs ms T
    using that by (induction xs arbitrary: T) (simp_all add: attribute_member_ok)
  from this [of _ "[]", OF _ subset_refl] show ?thesis
    unfolding attribute_archive_members_def by (simp add: map_ok_def [of _ _ _ "[]"])
qed

section \<open>Where verified disks come from\<close>

definition proves_disk :: "dat_game_entry list \<Rightarrow> string \<Rightarrow> dat_disk_key \<Rightarrow> dat_disk_audit \<Rightarrow> bool" where
  "proves_disk games g key a \<longleftrightarrow>
     (\<exists>x y r. da_verdict a = Some (DiskExact x y) \<and> da_matched_refs a = [r] \<and>
        ref_matches_disk_catalogue r games \<and> kr_game_name r = g \<and> disk_ref_key r = key)"

definition disks_ok :: "dat_disk_audit list \<Rightarrow> dat_game_entry list \<Rightarrow> disk_evidence_summary \<Rightarrow> bool" where
  "disks_ok evidence games s \<longleftrightarrow>
     (\<forall>g key. key \<in> keys_or_empty (de_verified s g) \<longrightarrow>
        (\<exists>a \<in> set evidence. proves_disk games g key a \<and>
           (duplicate_path evidence (da_chd_path a) \<longrightarrow> g \<in> de_duplicate_evidence_games s)))"

lemma keys_insert_key: "keys_or_empty (insert_key g k m g') = (if g' = g then insert k (keys_or_empty (m g)) else keys_or_empty (m g'))"
  by (auto simp: insert_key_def keys_or_empty_def)

lemma disks_ok_mono:
  assumes "disks_ok evidence games s" and "de_verified s' = de_verified s"
    and "de_duplicate_evidence_games s \<subseteq> de_duplicate_evidence_games s'"
  shows "disks_ok evidence games s'"
  using assms unfolding disks_ok_def by (metis subsetD)

lemma summarize_disk_ok:
  assumes ok: "disks_ok evidence games s" and a: "a \<in> set evidence"
  shows "disks_ok evidence games (summarize_disk evidence games a s)"
proof (cases "\<exists>x y r. da_verdict a = Some (DiskExact x y) \<and> da_matched_refs a = [r] \<and> ref_matches_disk_catalogue r games")
  case True
  then obtain x y r where r: "da_verdict a = Some (DiskExact x y)" "da_matched_refs a = [r]"
      "ref_matches_disk_catalogue r games" by blast
  let ?s = "summarize_disk evidence games a s" and ?g = "kr_game_name r"
  have v: "de_verified ?s = insert_key ?g (disk_ref_key r) (de_verified s)"
    using r by (simp add: summarize_disk_def Let_def split: option.splits)
  have d: "de_duplicate_evidence_games ?s = de_duplicate_evidence_games s \<union>
      (if duplicate_path evidence (da_chd_path a) then {?g} else {})"
    using r by (simp add: summarize_disk_def Let_def split: option.splits)
  have "proves_disk games ?g (disk_ref_key r) a" using r by (auto simp: proves_disk_def)
  then show ?thesis
    using ok a unfolding disks_ok_def v d keys_insert_key by (auto split: if_splits)
next
  case False
  have "de_verified (summarize_disk evidence games a s) = de_verified s \<and>
      de_duplicate_evidence_games s \<subseteq> de_duplicate_evidence_games (summarize_disk evidence games a s)"
    using False
    by (auto simp: summarize_disk_def Let_def length_Suc_conv split: option.splits disk_audit_verdict.splits)
  then show ?thesis using disks_ok_mono [OF ok] by blast
qed

lemma summarize_ok: "disks_ok evidence games (summarize_disk_evidence evidence games)"
proof -
  have "disks_ok evidence games (fold (summarize_disk evidence games) xs s)"
    if "disks_ok evidence games s" and "set xs \<subseteq> set evidence" for xs s
    using that by (induction xs arbitrary: s) (simp_all add: summarize_disk_ok)
  then show ?thesis
    by (simp add: summarize_disk_evidence_def disks_ok_def no_disk_evidence_def keys_or_empty_def)
qed

section \<open>Complete means proved\<close>

lemma has_class_iff: "has_class cs ms \<longleftrightarrow> (\<exists>k m c. (k, m, c) \<in> set ms \<and> c \<in> set cs)"
  by (auto simp: has_class_def list_ex_iff)

lemma bad_members_Cons:
  "bad_members ((k, m, c) # ms) name =
   (if c = UnverifiableNodump then [\<lparr> bm_rom_name = name m, bm_reason = NoDump \<rparr>]
    else if c = KnownBad then [\<lparr> bm_rom_name = name m, bm_reason = BadDump \<rparr>] else []) @ bad_members ms name"
  by (cases c) (simp_all add: bad_members_def)

lemma bad_members_reasons:
  "bm_reason ` set (bad_members ms name) =
   {r. \<exists>k m c. (k, m, c) \<in> set ms \<and> ((c = UnverifiableNodump \<and> r = NoDump) \<or> (c = KnownBad \<and> r = BadDump))}"
proof (induction ms)
  case Nil
  then show ?case by (simp add: bad_members_def)
next
  case (Cons x ms)
  obtain k m c where x: "x = (k, m, c)" by (cases x)
  show ?case
    unfolding x bad_members_Cons set_append image_Un Cons.IH
    by (cases "c = UnverifiableNodump"; cases "c = KnownBad") auto
qed

lemma complete_chain:
  "(if a then SetNeedsReview r1 else if b then SetNeedsReview r2 else if u then SetNeedsReview r3
    else (case r of Some q \<Rightarrow> SetNeedsReview q
      | None \<Rightarrow> if c then SetBadMetadata b1 else if d then SetBadMetadata b2
          else if e then SetNeedsReview r4 else if f then SetNeedsReview r5
          else if \<not> p then SetIncomplete else SetComplete)) = SetComplete \<longleftrightarrow>
   \<not> a \<and> \<not> b \<and> \<not> u \<and> r = None \<and> \<not> c \<and> \<not> d \<and> \<not> e \<and> \<not> f \<and> p"
  by (cases r) simp_all

lemma storage_complete:
  assumes "storage_state i game roms disks t disk_keys = SetComplete"
  shows "all_present roms disks t disk_keys"
    and "\<not> has_class [Contradictory, UnknownLoadflag, UnverifiableNodump, KnownBad] roms"
    and "\<not> has_class [Contradictory, UnknownLoadflag, UnverifiableNodump, KnownBad] disks"
    and "roms \<noteq> [] \<or> disks \<noteq> []"
    and "\<forall>key \<in> ts_verified_member_keys t. mk_game_index key = i"
    and "\<forall>key \<in> disk_keys. dk_game_index key = i"
proof -
  let ?bads = "map bm_reason (bad_members roms dr_name @ bad_members disks disk_display_name)"
  have facts: "\<not> has_class [Contradictory] roms" "\<not> has_class [Contradictory, NonFile, UnknownLoadflag] disks"
    "\<not> has_class [UnknownLoadflag] roms" "NoDump \<notin> set ?bads" "BadDump \<notin> set ?bads"
    "\<not> (roms = [] \<and> disks = [])" "all_present roms disks t disk_keys"
    "\<not> (\<exists>key \<in> ts_verified_member_keys t. mk_game_index key \<noteq> i)"
    "\<not> (\<exists>key \<in> disk_keys. dk_game_index key \<noteq> i)"
    using assms unfolding storage_state_def Let_def complete_chain by blast+
  show "all_present roms disks t disk_keys" "roms \<noteq> [] \<or> disks \<noteq> []"
    "\<forall>key \<in> ts_verified_member_keys t. mk_game_index key = i"
    "\<forall>key \<in> disk_keys. dk_game_index key = i"
    using facts by auto
  have bad: "\<nexists>k m. (k, m, UnverifiableNodump) \<in> set roms" "\<nexists>k m. (k, m, KnownBad) \<in> set roms"
    "\<nexists>k m. (k, m, UnverifiableNodump) \<in> set disks" "\<nexists>k m. (k, m, KnownBad) \<in> set disks"
    using facts(4,5) unfolding map_append set_append set_map bad_members_reasons by blast+
  show "\<not> has_class [Contradictory, UnknownLoadflag, UnverifiableNodump, KnownBad] roms"
    "\<not> has_class [Contradictory, UnknownLoadflag, UnverifiableNodump, KnownBad] disks"
    using facts(1-3) bad by (auto simp: has_class_iff)
qed

lemma matched_complete:
  assumes "sr_state (classify_matched_set archive s dsc identity i game t) = SetComplete"
  shows "aa_completion archive = PassComplete"
    and "dsc \<or> disk_names_of_class PhysicalRequired
           (map (\<lambda>(key, disk). (key, disk, classify_disk_member disk)) (declared_disks i game)) = []"
    and "evidence_refusal (si_game_name identity) t s = None"
    and "storage_state i game
           (map (\<lambda>(key, rom). (key, rom, classify_rom_member rom)) (declared_roms i game))
           (map (\<lambda>(key, disk). (key, disk, classify_disk_member disk)) (declared_disks i game))
           t (keys_or_empty (de_verified s (si_game_name identity))) = SetComplete"
  using assms unfolding classify_matched_set_def Let_def
  by (auto split: if_splits option.splits)

definition good_member :: "member_class \<Rightarrow> bool" where
  "good_member c \<longleftrightarrow> c \<notin> {Contradictory, UnknownLoadflag, UnverifiableNodump, KnownBad}"

text \<open>What a complete set rests on, stated over the evidence itself.\<close>

definition rom_proved ::
    "dat_archive_audit \<Rightarrow> dat_game_entry list \<Rightarrow> string \<Rightarrow> dat_member_key \<times> dat_rom_entry \<Rightarrow> bool" where
  "rom_proved archive games g = (\<lambda>(key, rom).
     good_member (classify_rom_member rom) \<and>
     (classify_rom_member rom = PhysicalRequired \<longrightarrow>
        list_ex (\<lambda>m. \<not> member_dup archive m \<and> (proves_key games g key m \<or> proves_name g (dr_name rom) m))
          (aa_members archive)))"

definition disk_proved ::
    "dat_disk_audit list \<Rightarrow> bool \<Rightarrow> dat_game_entry list \<Rightarrow> string \<Rightarrow> dat_disk_key \<times> dat_disk_entry \<Rightarrow> bool" where
  "disk_proved evidence dsc games g = (\<lambda>(key, disk).
     good_member (classify_disk_member disk) \<and>
     (classify_disk_member disk = PhysicalRequired \<longrightarrow>
        dsc \<and> list_ex (\<lambda>a. \<not> duplicate_path evidence (da_chd_path a) \<and> proves_disk games g key a) evidence))"

lemma matched_set_proved:
  fixes archive evidence dsc games identity i game t
  defines "s \<equiv> summarize_disk_evidence evidence games" and "g \<equiv> si_game_name identity"
  assumes complete: "sr_state (classify_matched_set archive s dsc identity i game t) = SetComplete"
    and t: "touched_ok archive games (set (aa_members archive)) g t"
  shows "list_all (rom_proved archive games g) (declared_roms i game)"
    and "list_all (disk_proved evidence dsc games g) (declared_disks i game)"
    and "aa_completion archive = PassComplete"
proof -
  note facts = matched_complete [OF complete, folded g_def]
  note store = storage_complete [OF facts(4)]
  have clean: "\<not> ts_duplicate_evidence t" "g \<notin> de_duplicate_evidence_games s"
    using facts(3) by (auto simp: evidence_refusal_def split: if_splits)
  show "aa_completion archive = PassComplete" by (rule facts(1))
  show "list_all (rom_proved archive games g) (declared_roms i game)"
    unfolding list_all_iff
  proof (rule ballI, clarify)
    fix key rom assume d: "(key, rom) \<in> set (declared_roms i game)"
    then have entry: "(key, rom, classify_rom_member rom) \<in>
        set (map (\<lambda>(key, rom). (key, rom, classify_rom_member rom)) (declared_roms i game))" by force
    have good: "good_member (classify_rom_member rom)"
      using store(2) entry by (auto simp: has_class_iff good_member_def)
    have "list_ex (\<lambda>m. \<not> member_dup archive m \<and> (proves_key games g key m \<or> proves_name g (dr_name rom) m))
        (aa_members archive)" if req: "classify_rom_member rom = PhysicalRequired"
    proof -
      have "member_slot_verified t key (dr_name rom)"
        using store(1) entry req by (force simp: all_present_def list_all_iff)
      then show ?thesis
        using t clean(1) unfolding member_slot_verified_def touched_ok_def backed_def list_ex_iff by blast
    qed
    then show "rom_proved archive games g (key, rom)" using good by (simp add: rom_proved_def)
  qed
  show "list_all (disk_proved evidence dsc games g) (declared_disks i game)"
    unfolding list_all_iff
  proof (rule ballI, clarify)
    fix key disk assume d: "(key, disk) \<in> set (declared_disks i game)"
    then have entry: "(key, disk, classify_disk_member disk) \<in>
        set (map (\<lambda>(key, disk). (key, disk, classify_disk_member disk)) (declared_disks i game))" by force
    have good: "good_member (classify_disk_member disk)"
      using store(3) entry by (auto simp: has_class_iff good_member_def)
    have "dsc \<and> list_ex (\<lambda>a. \<not> duplicate_path evidence (da_chd_path a) \<and> proves_disk games g key a) evidence"
      if req: "classify_disk_member disk = PhysicalRequired"
    proof
      show dsc using facts(2) entry req by (force simp: disk_names_of_class_def filter_empty_conv)
      have "key \<in> keys_or_empty (de_verified s g)"
        using store(1) entry req by (force simp: all_present_def list_all_iff)
      then show "list_ex (\<lambda>a. \<not> duplicate_path evidence (da_chd_path a) \<and> proves_disk games g key a) evidence"
        using summarize_ok [of evidence games] clean(2) unfolding s_def disks_ok_def list_ex_iff by blast
    qed
    then show "disk_proved evidence dsc games g (key, disk)" using good by (simp add: disk_proved_def)
  qed
qed

lemma classify_touched_Some:
  assumes "classify_touched_set archive s dsc games source_id (g, t) = Some r"
  shows "si_game_name (sr_identity r) = g"
  using assms
  by (auto simp: classify_touched_set_def Let_def empty_resolution_def classify_matched_set_def split: list.splits prod.splits)

lemma map_filter_Some: "r \<in> set (List.map_filter f xs) \<longleftrightarrow> (\<exists>x \<in> set xs. f x = Some r)"
  by (force simp: List.map_filter_def image_iff)

lemma complete_set_evidence:
  assumes "r \<in> set (classify_archive_sets archive evidence dsc games source_id)"
    and "sr_state r = SetComplete"
  shows "aa_completion archive = PassComplete \<and>
    (\<exists>i game. filter (\<lambda>(_, c). dg_name c = si_game_name (sr_identity r)) (enumerate 0 games) = [(i, game)] \<and>
       list_all (rom_proved archive games (si_game_name (sr_identity r))) (declared_roms i game) \<and>
       list_all (disk_proved evidence dsc games (si_game_name (sr_identity r))) (declared_disks i game))"
proof -
  let ?s = "summarize_disk_evidence evidence games"
  obtain g t where gt: "(g, t) \<in> set (attribute_archive_members archive games)"
      "classify_touched_set archive ?s dsc games source_id (g, t) = Some r"
    using assms(1) by (auto simp: classify_archive_sets_def map_filter_Some)
  have t: "touched_ok archive games (set (aa_members archive)) g t"
    using attribute_ok [of archive games] gt(1) by (simp add: map_ok_def)
  have name: "si_game_name (sr_identity r) = g" by (rule classify_touched_Some [OF gt(2)])
  let ?identity = "\<lparr> si_source_id = source_id, si_game_name = g \<rparr>"
  obtain i game where one: "filter (\<lambda>(_, c). dg_name c = g) (enumerate 0 games) = [(i, game)]"
    and r: "r = classify_matched_set archive ?s dsc ?identity i game t"
    using gt(2) assms(2)
    by (auto simp: classify_touched_set_def Let_def empty_resolution_def split: list.splits prod.splits)
  have "sr_state (classify_matched_set archive ?s dsc ?identity i game t) = SetComplete" using assms(2) r by simp
  note proved = matched_set_proved [OF this, simplified, OF t]
  show ?thesis unfolding name using proved one by blast
qed

text \<open>
  C12: A set is called complete only when its name is borne by exactly one entry of the catalogue,
  the archive's pass finished, no declared rom or disk of the entry is a known bad dump,
  undumped or contradictory, and each locally required one is proved present: by a member
  whose index is unique in the archive and whose strong match is attributed to exactly this
  declaration (or, for evidence without positions, exactly this name), and by a disk image
  whose header identity is attributed to exactly this declaration in a finished disk scan.
\<close>

theorem complete_sets_are_proved:
  assumes "r \<in> set (classify_archive_sets archive evidence dsc games source_id)"
    and "sr_state r = SetComplete"
  shows "aa_completion archive = PassComplete \<and>
    (\<exists>i game. filter (\<lambda>(_, c). dg_name c = si_game_name (sr_identity r)) (enumerate 0 games) = [(i, game)] \<and>
       list_all (rom_proved archive games (si_game_name (sr_identity r))) (declared_roms i game) \<and>
       list_all (disk_proved evidence dsc games (si_game_name (sr_identity r))) (declared_disks i game))"
  by (rule complete_set_evidence [OF assms])

section \<open>Each touched set once\<close>

lemma touch_sorted: "keys_sorted cmp_string T \<Longrightarrow> keys_sorted cmp_string (touch g f T)"
  unfolding touch_def by (rule string_keys.keys_sorted_adjust)

lemma fold_touch_sorted: "keys_sorted cmp_string T \<Longrightarrow> keys_sorted cmp_string (fold (\<lambda>x. touch (k x) f) xs T)"
  by (induction xs arbitrary: T) (simp_all add: touch_sorted)

lemma attribute_sorted: "keys_sorted cmp_string (attribute_archive_members archive games)"
proof -
  have step: "keys_sorted cmp_string (attribute_member archive games m T)" if "keys_sorted cmp_string T" for m T
    using that fold_touch_sorted [OF that, of "\<lambda>x. x"] fold_touch_sorted [OF that]
    by (auto simp: attribute_member_def Let_def touch_sorted split: option.splits audit_verdict.splits)
  have "keys_sorted cmp_string (fold (attribute_member archive games) xs T)"
    if "keys_sorted cmp_string T" for xs T
    using that by (induction xs arbitrary: T) (simp_all add: step)
  then show ?thesis by (simp add: attribute_archive_members_def)
qed

lemma sorted_map_filter:
  assumes "sorted_wrt P (map fst xs)" and "\<And>x r. x \<in> set xs \<Longrightarrow> f x = Some r \<Longrightarrow> n r = fst x"
  shows "sorted_wrt P (map n (List.map_filter f xs))"
  using assms
proof (induction xs)
  case Nil
  then show ?case by (simp add: List.map_filter_def)
next
  case (Cons x xs)
  have rest: "n r \<in> fst ` set xs" if "r \<in> set (List.map_filter f xs)" for r
    using that Cons.prems(2) unfolding map_filter_Some by force
  have IH: "sorted_wrt P (map n (List.map_filter f xs))"
    by (rule Cons.IH) (use Cons.prems in auto)
  show ?case
  proof (cases "f x")
    case None
    then show ?thesis using IH by (simp add: List.map_filter_simps)
  next
    case (Some y)
    have "n y = fst x" using Cons.prems(2) Some by simp
    then have "\<forall>r \<in> set (List.map_filter f xs). P (n y) (n r)" using rest Cons.prems(1) by fastforce
    then show ?thesis using IH Some by (simp add: List.map_filter_simps)
  qed
qed

text \<open>
  Every touched set is reported at most once, in the order of the names, and each is named
  by a member's evidence: the report never mentions a set no member speaks of.
\<close>

theorem sets_reported_once:
  "sorted_wrt (\<lambda>x y. cmp_string x y = Less)
     (map (\<lambda>r. si_game_name (sr_identity r)) (classify_archive_sets archive evidence dsc games source_id))
   \<and> distinct (map (\<lambda>r. si_game_name (sr_identity r)) (classify_archive_sets archive evidence dsc games source_id))
   \<and> list_all (\<lambda>r. si_source_id (sr_identity r) = source_id \<and> sr_archive_path r = aa_archive_path archive)
       (classify_archive_sets archive evidence dsc games source_id)"
proof -
  let ?f = "classify_touched_set archive (summarize_disk_evidence evidence games) dsc games source_id"
  have sorted: "sorted_wrt (\<lambda>x y. cmp_string x y = Less)
     (map (\<lambda>r. si_game_name (sr_identity r)) (classify_archive_sets archive evidence dsc games source_id))"
    unfolding classify_archive_sets_def
    by (rule sorted_map_filter)
       (use attribute_sorted [of archive games] in \<open>auto simp: keys_sorted_def dest: classify_touched_Some\<close>)
  have "distinct xs" if "sorted_wrt (\<lambda>x y. cmp_string x y = Less) xs" for xs
    using that by (induction xs) auto
  moreover have "si_source_id (sr_identity r) = source_id \<and> sr_archive_path r = aa_archive_path archive"
    if mem: "r \<in> set (classify_archive_sets archive evidence dsc games source_id)" for r
  proof -
    obtain x where "?f x = Some r"
      using mem unfolding classify_archive_sets_def map_filter_Some by blast
    moreover obtain g t where "x = (g, t)" by (cases x)
    ultimately show ?thesis
      by (auto simp: classify_touched_set_def Let_def empty_resolution_def classify_matched_set_def
          split: list.splits prod.splits)
  qed
  ultimately show ?thesis using sorted by (simp add: list_all_iff)
qed

section \<open>What it takes to share an identity\<close>

definition populates :: "checksum_algorithm \<Rightarrow> dat_rom_ref \<Rightarrow> bool" where
  "populates a r = (\<not> Option.is_none (ref_checksum_value r a))"

lemma populates_Some [simp]: "ref_checksum_value r a = Some v \<Longrightarrow> populates a r"
  and populates_None [simp]: "ref_checksum_value r a = None \<Longrightarrow> \<not> populates a r"
  by (simp_all add: populates_def)

definition values_of :: "checksum_algorithm \<Rightarrow> dat_rom_ref list \<Rightarrow> string list" where
  "values_of a refs = List.map_filter (\<lambda>r. ref_checksum_value r a) refs"

lemma values_of_simps [simp]:
  "values_of a [] = []"
  "values_of a (r # rs) = (case ref_checksum_value r a of None \<Rightarrow> values_of a rs | Some v \<Rightarrow> v # values_of a rs)"
  by (simp_all add: values_of_def List.map_filter_simps split: option.splits)

definition agree_with :: "string option \<Rightarrow> string list \<Rightarrow> bool" where
  "agree_with agreed vs \<longleftrightarrow>
     (case agreed of None \<Rightarrow> vs = [] \<or> list_all (\<lambda>v. v = hd vs) vs | Some e \<Rightarrow> list_all (\<lambda>v. v = e) vs)"

lemma length_values_of: "length (values_of a refs) \<le> length refs"
  by (induction refs) (auto split: option.splits)

lemma values_of_all: "length (values_of a refs) = length refs \<longleftrightarrow> list_all (populates a) refs"
proof (induction refs)
  case Nil
  then show ?case by simp
next
  case (Cons r rs)
  then show ?case using length_values_of [of a rs] by (auto split: option.splits)
qed

lemma scan_algorithm_spec:
  "scan_algorithm a refs agreed n all =
   (if agree_with agreed (values_of a refs)
    then Some (n + length (values_of a refs), all \<and> length (values_of a refs) = length refs) else None)"
proof (induction refs arbitrary: agreed n all)
  case Nil
  then show ?case by (cases agreed) (simp_all add: agree_with_def)
next
  case (Cons r rs)
  have short: "length (values_of a rs) \<noteq> Suc (length rs)" using length_values_of [of a rs] by simp
  show ?case
  proof (cases "ref_checksum_value r a")
    case None
    then show ?thesis using Cons short by (simp add: agree_with_def)
  next
    case (Some v)
    then show ?thesis using Cons
      by (cases agreed) (auto simp: agree_with_def list_all_iff split: option.splits)
  qed
qed

lemma share_loop_spec:
  assumes "2 \<le> length refs"
  shows "share_loop refs as strong \<longleftrightarrow>
    list_all (\<lambda>a. agree_with None (values_of a refs)) as \<and>
    (strong \<or> list_ex (\<lambda>a. a \<noteq> Crc32 \<and> list_all (populates a) refs) as)"
proof (induction as arbitrary: strong)
  case Nil
  then show ?case by simp
next
  case (Cons a as)
  have "length (values_of a refs) = length refs \<and> 2 \<le> length (values_of a refs) \<longleftrightarrow> list_all (populates a) refs"
    using assms values_of_all [of a refs] by auto
  then show ?case
    by (auto simp: Cons scan_algorithm_spec)
qed

lemma ref_checksum_value_declared:
  "populates a r \<longleftrightarrow> a \<in> ck_algorithm ` set (rr_checksums r)"
  by (auto simp: populates_def Option.is_none_def ref_checksum_value_def find_None_iff)

lemma declared_algorithms_set:
  "a \<in> set (declared_algorithms refs) \<longleftrightarrow> (\<exists>r \<in> set refs. populates a r)"
proof -
  have "set (foldl (\<lambda>acc a. if a \<in> set acc then acc else acc @ [a]) acc xs) = set acc \<union> set xs"
    for acc xs :: "checksum_algorithm list"
    by (induction xs arbitrary: acc) auto
  then show ?thesis by (auto simp: declared_algorithms_def ref_checksum_value_declared)
qed

lemma values_of_undeclared: "a \<notin> set (declared_algorithms refs) \<Longrightarrow> values_of a refs = []"
  by (auto simp: declared_algorithms_set values_of_def List.map_filter_def filter_empty_conv populates_def Option.is_none_def)

text \<open>
  Several references count as one physical member exactly when there are at least two, none
  carries an empty or internally contradictory checksum, no two of them disagree on any
  algorithm, CRC32 included, and some algorithm stronger than CRC32 is declared by all.
\<close>

theorem shared_identity_iff:
  "refs_share_cryptographic_identity refs \<longleftrightarrow>
     2 \<le> length refs \<and>
     \<not> list_ex (\<lambda>r. ref_has_malformed_checksums r \<or> ref_has_conflicting_checksums r) refs \<and>
     list_all (\<lambda>a. agree_with None (values_of a refs)) [Crc32, Md5, Sha1, Sha256] \<and>
     list_ex (\<lambda>a. list_all (populates a) refs) [Md5, Sha1, Sha256]"
proof (cases "2 \<le> length refs")
  case True
  let ?as = "declared_algorithms refs"
  have every: "\<And>P. (\<forall>a. P a) \<longleftrightarrow> P Crc32 \<and> P Md5 \<and> P Sha1 \<and> P Sha256"
    by (metis checksum_algorithm.exhaust)
  have "list_all (\<lambda>a. agree_with None (values_of a refs)) ?as \<longleftrightarrow> (\<forall>a. agree_with None (values_of a refs))"
    using values_of_undeclared [of _ refs] by (auto simp: list_all_iff agree_with_def)
  moreover have "list_ex (\<lambda>a. a \<noteq> Crc32 \<and> list_all (populates a) refs) ?as \<longleftrightarrow>
      (\<exists>a. a \<noteq> Crc32 \<and> list_all (populates a) refs)"
  proof -
    obtain r where "r \<in> set refs" using True by (cases refs) auto
    then have "a \<in> set ?as" if "list_all (populates a) refs" for a
      using that unfolding declared_algorithms_set list_all_iff by blast
    then show ?thesis unfolding list_ex_iff by blast
  qed
  moreover have "(\<exists>a. a \<noteq> Crc32 \<and> Q a) \<longleftrightarrow> Q Md5 \<or> Q Sha1 \<or> Q Sha256" for Q
    by (metis checksum_algorithm.distinct checksum_algorithm.exhaust)
  ultimately show ?thesis
    using True by (simp add: refs_share_cryptographic_identity_def share_loop_spec every)
qed (simp add: refs_share_cryptographic_identity_def)

end
