(* ===== verification/DatExample.thy ===== *)
theory DatExample
  imports DatSetProofs
begin

text \<open>
  One small catalogue and an audited archive, in which the hypotheses of the set and rename
  plan properties hold: a game with a required rom and a nodump-free, optional one.
\<close>

definition sonic_sha1 :: string where
  "sonic_sha1 = replicate 40 (CHR ''a'')"

lemma sonic_sha1_normal: "normalise_sha1 sonic_sha1 = Some sonic_sha1"
  unfolding normalise_sha1_def sonic_sha1_def
  by (rule normalise_hex_replicate) (simp_all add: is_ascii_hexdigit_def to_ascii_lower_char_def)

definition demo_rom :: "string \<Rightarrow> string option \<Rightarrow> dat_rom_entry" where
  "demo_rom name opt =
     \<lparr> dr_name = name, dr_size_bytes = Some 3, dr_crc32 = None, dr_md5 = None,
       dr_sha1 = Some sonic_sha1, dr_sha256 = None, dr_status = None, dr_merge = None,
       dr_date = None, dr_offset = None, dr_loadflag = None, dr_value = None, dr_optional = opt,
       dr_bios = None, dr_region = None \<rparr>"

definition demo_game :: "string \<Rightarrow> dat_rom_entry list \<Rightarrow> dat_game_entry" where
  "demo_game name roms =
     \<lparr> dg_name = name, dg_id = None, dg_description = None, dg_roms = roms, dg_clone_of = None,
       dg_rom_of = None, dg_sample_of = None, dg_is_bios = None, dg_is_device = None,
       dg_runnable = None, dg_supported = None, dg_disks = [], dg_device_refs = [],
       dg_samples = [], dg_bios_sets = [], dg_parts = [], dg_board = None, dg_rebuild_to = None,
       dg_year = None, dg_manufacturer = None, dg_source_file = None, dg_comment = None,
       dg_original_metadata = fmempty, dg_content_classification = unknown_classification,
       dg_unsupported_structure = False \<rparr>"

definition sonic_rom :: dat_rom_entry where "sonic_rom = demo_rom ''Sonic.bin'' None"

definition sonic_game :: dat_game_entry where "sonic_game = demo_game ''Sonic'' [sonic_rom]"

definition demo_games :: "dat_game_entry list" where
  "demo_games = [demo_game ''Tails'' [], sonic_game]"

definition sonic_ref :: dat_rom_ref where
  "sonic_ref = rom_ref 1 sonic_game 0 (TopLevelRom 0) sonic_rom"

definition demo_object :: object_identity where
  "demo_object = \<lparr> id_size_bytes = 3, id_modified_unix = 7, id_kind = RegularFile, id_ino = 1, id_dev = 1 \<rparr>"

definition demo_hashes :: archive_member_hashes where
  "demo_hashes =
     \<lparr> mh_crc32 = replicate 8 (CHR ''0''), mh_md5 = replicate 32 (CHR ''0''), mh_sha1 = sonic_sha1,
       mh_sha256 = replicate 64 (CHR ''0'') \<rparr>"

definition demo_evidence :: "nat \<Rightarrow> archive_member_evidence" where
  "demo_evidence i =
     \<lparr> me_archive_path = [''roms'', ''s.zip''], me_member_name_raw = [115], me_member_name_display = ''s'',
       me_index = i, me_logical_size = 3, me_is_nested_archive = False, me_status = HashComplete,
       me_hashes = Some demo_hashes \<rparr>"

definition sonic_member :: dat_archive_member_audit where
  "sonic_member =
     \<lparr> am_evidence = demo_evidence 0, am_verdict = Some (Exact ''Sonic'' ''Sonic.bin'' ''SHA-1''),
       am_matched_refs = [sonic_ref] \<rparr>"

definition demo_archive :: dat_archive_audit where
  "demo_archive =
     \<lparr> aa_archive_path = [''roms'', ''s.zip''], aa_outer_identity = Some demo_object, aa_format = ''zip'',
       aa_total_members = 1, aa_completion = PassComplete, aa_members = [sonic_member] \<rparr>"

lemma sonic_names [simp]:
  "dg_name sonic_game = ''Sonic''" "rr_game_name sonic_ref = ''Sonic''" "dg_roms sonic_game = [sonic_rom]"
  "dg_parts sonic_game = []" "dg_disks sonic_game = []" "dr_name sonic_rom = ''Sonic.bin''"
  by (simp_all add: sonic_game_def sonic_ref_def rom_ref_def demo_game_def sonic_rom_def demo_rom_def)

lemma sonic_key [simp]: "rom_ref_key sonic_ref = \<lparr> mk_game_index = Suc 0, mk_location = TopLevelRom 0 \<rparr>"
  by (simp add: rom_ref_key_def sonic_ref_def rom_ref_def)

lemma sonic_ref_matches: "ref_matches_catalogue sonic_ref demo_games"
  by (simp add: ref_matches_catalogue_def Let_def demo_games_def get_at_def rom_at_def)
     (simp add: sonic_ref_def rom_ref_def)

lemma sonic_attributed: "safely_attributed demo_games sonic_member"
  using sonic_ref_matches
  by (simp add: safely_attributed_def Let_def sonic_member_def strong_verdict_def)

lemma demo_touched:
  "attribute_archive_members demo_archive demo_games =
   [(''Sonic'', \<lparr> ts_verified_member_keys = {\<lparr> mk_game_index = Suc 0, mk_location = TopLevelRom 0 \<rparr>},
       ts_legacy_verified_rom_names = {}, ts_used_legacy_evidence = False, ts_ambiguous = False,
       ts_duplicate_evidence = False \<rparr>)]"
proof -
  have refs: "am_matched_refs sonic_member = [sonic_ref]" by (simp add: sonic_member_def)
  have dup: "\<not> duplicate_index demo_archive (me_index (am_evidence sonic_member))"
    by (simp add: duplicate_index_def demo_archive_def)
  show ?thesis
    using sonic_attributed dup refs
    by (simp add: attribute_archive_members_def demo_archive_def attribute_member_def Let_def
        touch_def mark_verified_def untouched_def)
qed

lemma sonic_classified: "classify_rom_member sonic_rom = PhysicalRequired"
  by (simp add: sonic_rom_def demo_rom_def classify_rom_member_def Let_def classify_markers_def
      ordinary_status_def nonempty_marker_def yes_no_marker_def)

lemma sonic_declared:
  "declared_roms (Suc 0) sonic_game = [(\<lparr> mk_game_index = Suc 0, mk_location = TopLevelRom 0 \<rparr>, sonic_rom)]"
  "declared_disks (Suc 0) sonic_game = []"
  by (simp_all add: declared_roms_def declared_disks_def)

lemma sonic_shape: "trim (dr_name sonic_rom) \<noteq> []" "dr_size_bytes sonic_rom = Some 3" "checksums sonic_rom \<noteq> []"
proof -
  show "trim (dr_name sonic_rom) \<noteq> []" unfolding sonic_names by code_simp
  show "dr_size_bytes sonic_rom = Some 3" by (simp add: sonic_rom_def demo_rom_def)
  have "parse_checksum Sha1 sonic_sha1 \<noteq> None"
    using sonic_sha1_normal by (simp add: parse_checksum_normalise normalise_sha1_def)
  then show "checksums sonic_rom \<noteq> []"
    by (auto simp: checksums_def checksum_of_def sonic_rom_def demo_rom_def)
qed

definition sonic_slot :: dat_member_key where
  "sonic_slot = \<lparr> mk_game_index = Suc 0, mk_location = TopLevelRom 0 \<rparr>"

definition sonic_touched :: touched_set where
  "sonic_touched = untouched\<lparr>ts_verified_member_keys := {sonic_slot}\<rparr>"

lemma demo_touched': "attribute_archive_members demo_archive demo_games = [(''Sonic'', sonic_touched)]"
  by (simp add: demo_touched sonic_touched_def untouched_def sonic_slot_def)

lemma bad_members_Nil [simp]: "bad_members [] name = []"
  by (simp add: bad_members_def)

lemma sonic_storage:
  "storage_state (Suc 0) sonic_game [(sonic_slot, sonic_rom, PhysicalRequired)] [] sonic_touched {} = SetComplete"
proof -
  let ?roms = "[(sonic_slot, sonic_rom, PhysicalRequired)]"
  have shape: "\<not> has_unsupported_member_shape ?roms []"
    using sonic_shape unfolding has_unsupported_member_shape_def by (simp del: sonic_names)
  have dup: "\<not> has_unsafe_duplicate_evidence_names ?roms False"
    by (simp add: has_unsafe_duplicate_evidence_names_def)
  have bad: "bad_members ?roms dr_name = []" by (simp add: bad_members_def)
  have cls: "\<not> has_class [Contradictory] ?roms" "\<not> has_class [UnknownLoadflag] ?roms"
    "\<not> has_class [Contradictory, NonFile, UnknownLoadflag] ([] :: classified_disk list)"
    by (simp_all add: has_class_def)
  have t: "ts_used_legacy_evidence sonic_touched = False" "ts_verified_member_keys sonic_touched = {sonic_slot}"
    "mk_game_index sonic_slot = Suc 0"
    by (simp_all add: sonic_touched_def untouched_def sonic_slot_def)
  have supported: "supported_refusal sonic_game = None" "\<not> dg_unsupported_structure sonic_game"
    by (simp_all add: supported_refusal_def sonic_game_def demo_game_def)
  have present: "all_present ?roms [] sonic_touched {}"
    by (simp add: all_present_def member_slot_verified_def t)
  have required: "names_of_class PhysicalRequired ?roms \<noteq> []" by (simp add: names_of_class_def)
  show ?thesis
    unfolding storage_state_def Let_def complete_chain
    using shape dup bad cls t supported present required by simp
qed

lemma demo_set_complete:
  "\<exists>r. classify_archive_sets demo_archive [] True demo_games ''src'' = [r] \<and> sr_state r = SetComplete \<and>
     si_game_name (sr_identity r) = ''Sonic''"
proof -
  let ?s = "summarize_disk_evidence [] demo_games"
  let ?i = "\<lparr> si_source_id = ''src'', si_game_name = ''Sonic'' \<rparr>"
  let ?r = "classify_matched_set demo_archive ?s True ?i (Suc 0) sonic_game sonic_touched"
  have find: "filter (\<lambda>(_, c). dg_name c = ''Sonic'') (enumerate 0 demo_games) = [(Suc 0, sonic_game)]"
    by (simp add: demo_games_def demo_game_def)
  have pass: "aa_completion demo_archive = PassComplete" by (simp add: demo_archive_def)
  have touched: "classify_touched_set demo_archive ?s True demo_games ''src'' (''Sonic'', sonic_touched) = Some ?r"
    by (simp add: classify_touched_set_def Let_def find)
  have run: "classify_archive_sets demo_archive [] True demo_games ''src'' = [?r]"
    unfolding classify_archive_sets_def demo_touched' by (simp add: List.map_filter_simps touched)
  have disks: "keys_or_empty (de_verified ?s ''Sonic'') = {}" "de_duplicate_evidence_games ?s = {}"
    "de_ambiguous_games ?s = {}"
    by (simp_all add: summarize_disk_evidence_def no_disk_evidence_def keys_or_empty_def)
  have refusal: "evidence_refusal ''Sonic'' sonic_touched ?s = None"
    by (simp add: evidence_refusal_def disks sonic_touched_def untouched_def)
  have "sr_state ?r = SetComplete"
    unfolding classify_matched_set_def Let_def
    by (simp add: pass refusal disks sonic_declared sonic_classified sonic_storage
        disk_names_of_class_def flip: sonic_slot_def)
  moreover have "sr_identity ?r = ?i" by (simp add: classify_matched_set_def Let_def split: prod.splits)
  ultimately show ?thesis using run by auto
qed

theorem complete_sets_are_proved_witness:
  "\<exists>r. r \<in> set (classify_archive_sets demo_archive [] True demo_games ''src'') \<and> sr_state r = SetComplete \<and>
     list_ex (\<lambda>m. proves_key demo_games ''Sonic'' \<lparr> mk_game_index = Suc 0, mk_location = TopLevelRom 0 \<rparr> m)
       (aa_members demo_archive)"
proof -
  obtain r where r: "classify_archive_sets demo_archive [] True demo_games ''src'' = [r]" "sr_state r = SetComplete"
      "si_game_name (sr_identity r) = ''Sonic''"
    using demo_set_complete by blast
  have mem: "r \<in> set (classify_archive_sets demo_archive [] True demo_games ''src'')" using r(1) by simp
  have find: "filter (\<lambda>(_, c). dg_name c = ''Sonic'') (enumerate 0 demo_games) = [(Suc 0, sonic_game)]"
    by (simp add: demo_games_def demo_game_def)
  have "list_all (rom_proved demo_archive demo_games ''Sonic'') (declared_roms (Suc 0) sonic_game)"
    using complete_sets_are_proved [OF mem r(2)] find r(3) by auto
  then have "list_ex (\<lambda>m. \<not> member_dup demo_archive m \<and>
      (proves_key demo_games ''Sonic'' \<lparr> mk_game_index = Suc 0, mk_location = TopLevelRom 0 \<rparr> m \<or>
       proves_name ''Sonic'' ''Sonic.bin'' m)) (aa_members demo_archive)"
    unfolding sonic_declared rom_proved_def using sonic_classified by simp
  then have "list_ex (\<lambda>m. proves_key demo_games ''Sonic'' \<lparr> mk_game_index = Suc 0, mk_location = TopLevelRom 0 \<rparr> m)
      (aa_members demo_archive)"
    by (simp add: demo_archive_def proves_name_def sonic_member_def)
  then show ?thesis using mem r(2) by blast
qed

end
