(* ===== verification/RenameChecks.thy ===== *)
theory RenameChecks
  imports RenamePlanProofs DatExample
begin

text \<open>
  More about building a plan: which archives count as exact copies of a set, when the build
  returns a plan, and a worked example.
\<close>

section \<open>Exact copies of a set\<close>

definition member_match :: "dat_archive_member_audit \<Rightarrow> (string \<times> string) option" where
  "member_match m =
     (case am_verdict m of
        Some (Exact game rom algorithm) \<Rightarrow> Some (game, rom)
      | _ \<Rightarrow> None)"

definition member_index :: "dat_archive_member_audit \<Rightarrow> nat" where
  "member_index m = me_index (am_evidence m)"

definition counts :: "string list \<Rightarrow> (string \<Rightarrow> nat) \<Rightarrow> (string \<times> nat) list" where
  "counts ks f = map (\<lambda>n. (n, f n)) ks"

lemma bump_counts: "bump rom (counts ks f) = counts ks (f(rom := f rom + 1))"
  by (simp add: bump_def counts_def)

lemma map_of_counts: "map_of (counts ks f) n = (if n \<in> set ks then Some (f n) else None)"
  by (induction ks) (auto simp: counts_def)

lemma count_members_step:
  "count_members game (m # ms) seen required =
     (if member_index m \<in> seen then None
      else (case member_match m of
              None \<Rightarrow> None
            | Some (g, rom) \<Rightarrow>
                if g = game \<and> map_of required rom = Some 0
                then count_members game ms (insert (member_index m) seen) (bump rom required)
                else None))"
  by (auto simp: member_index_def member_match_def split: option.splits audit_verdict.splits)

text \<open>The roms that a run over the members counts, when it gets to the end.\<close>

lemma count_members_spec:
  "count_members game ms seen (counts ks f) = Some counted \<longleftrightarrow>
     distinct (map member_index ms) \<and> set (map member_index ms) \<inter> seen = {} \<and>
     (\<exists>roms. map member_match ms = map (\<lambda>r. Some (game, r)) roms \<and> distinct roms \<and>
        set roms \<subseteq> {n \<in> set ks. f n = 0} \<and>
        counted = counts ks (\<lambda>n. if n \<in> set roms then 1 else f n))"
proof (induction ms arbitrary: seen f)
  case Nil
  then show ?case by auto
next
  case (Cons m ms)
  show ?case
  proof (cases "member_index m \<notin> seen \<and> (\<exists>rom. member_match m = Some (game, rom) \<and> rom \<in> set ks \<and> f rom = 0)")
    case False
    then have "count_members game (m # ms) seen (counts ks f) = None"
      by (auto simp: count_members_step map_of_counts simp del: count_members.simps split: option.splits)
    then show ?thesis using False by (auto simp: Cons_eq_map_conv)
  next
    case True
    then obtain rom where rom: "member_match m = Some (game, rom)" "rom \<in> set ks" "f rom = 0"
      "member_index m \<notin> seen" by blast
    let ?f = "f(rom := 1)"
    have step: "count_members game (m # ms) seen (counts ks f) =
        count_members game ms (insert (member_index m) seen) (counts ks ?f)"
      using rom by (simp add: count_members_step map_of_counts bump_counts del: count_members.simps)
    have same: "(\<lambda>n. if n \<in> set roms then 1 else ?f n) = (\<lambda>n. if n \<in> set (rom # roms) then 1 else f n)" for roms
      by auto
    have iff: "(\<exists>roms. map member_match ms = map (\<lambda>r. Some (game, r)) roms \<and> distinct roms \<and>
              set roms \<subseteq> {n \<in> set ks. ?f n = 0} \<and>
              counted = counts ks (\<lambda>n. if n \<in> set roms then 1 else ?f n)) \<longleftrightarrow>
          (\<exists>roms. map member_match (m # ms) = map (\<lambda>r. Some (game, r)) roms \<and> distinct roms \<and>
              set roms \<subseteq> {n \<in> set ks. f n = 0} \<and>
              counted = counts ks (\<lambda>n. if n \<in> set roms then 1 else f n))" (is "?l \<longleftrightarrow> ?r")
    proof
      assume ?l
      then obtain roms where r: "map member_match ms = map (\<lambda>r. Some (game, r)) roms" "distinct roms"
          "set roms \<subseteq> {n \<in> set ks. ?f n = 0}" "counted = counts ks (\<lambda>n. if n \<in> set roms then 1 else ?f n)"
        by blast
      have "rom \<notin> set roms" "\<forall>x \<in> set roms. x \<in> set ks \<and> f x = 0"
        using r(3) by (auto split: if_splits)
      then show ?r using r(1,2,4) unfolding same using rom by (intro exI [of _ "rom # roms"]) auto
    next
      assume ?r
      then obtain roms where r: "map member_match (m # ms) = map (\<lambda>r. Some (game, r)) roms" "distinct roms"
          "set roms \<subseteq> {n \<in> set ks. f n = 0}" "counted = counts ks (\<lambda>n. if n \<in> set roms then 1 else f n)"
        by blast
      then obtain rs where "roms = rom # rs" using rom(1) by (auto simp: Cons_eq_map_conv)
      then show ?l unfolding same using r rom by (intro exI [of _ rs]) auto
    qed
    have pre: "(distinct (map member_index ms) \<and> set (map member_index ms) \<inter> insert (member_index m) seen = {}) \<longleftrightarrow>
        (distinct (map member_index (m # ms)) \<and> set (map member_index (m # ms)) \<inter> seen = {})"
      using rom(4) by auto
    show ?thesis unfolding step Cons.IH iff using pre by argo
  qed
qed

text \<open>
  An archive counts as an exact copy of a set exactly when all its members were listed, no
  index or required name repeats, and the multiset of its members' exact matches is the
  multiset of the required roms of that very set: nothing missing, doubled or extra.
\<close>

theorem exact_copies:
  "archive_exactly_matches_set a r \<longleftrightarrow>
     length (aa_members a) = aa_total_members a \<and>
     length (sr_members_verified r) = length (sr_members_required r) \<and>
     distinct (sr_members_required r) \<and> distinct (map member_index (aa_members a)) \<and>
     mset (map member_match (aa_members a)) =
       mset (map (\<lambda>n. Some (si_game_name (sr_identity r), n)) (sr_members_required r))"
proof -
  let ?ms = "aa_members a" and ?ks = "sr_members_required r" and ?g = "si_game_name (sr_identity r)"
  have dist: "length (remdups ?ks) = length ?ks \<longleftrightarrow> distinct ?ks"
    by simp
  have core: "(case count_members ?g ?ms {} (counts ?ks (\<lambda>n. 0)) of
          None \<Rightarrow> False | Some counted \<Rightarrow> list_all (\<lambda>(n, c). c = 1) counted) \<longleftrightarrow>
      distinct (map member_index ?ms) \<and>
      mset (map member_match ?ms) = mset (map (\<lambda>n. Some (?g, n)) ?ks)" (is "?l \<longleftrightarrow> ?r")
    if d: "distinct ?ks"
  proof
    assume ?l
    then obtain counted where c: "count_members ?g ?ms {} (counts ?ks (\<lambda>n. 0)) = Some counted"
        "list_all (\<lambda>(n, c). c = 1) counted"
      by (auto split: option.splits)
    then obtain roms where roms: "distinct (map member_index ?ms)"
        "map member_match ?ms = map (\<lambda>r. Some (?g, r)) roms" "distinct roms" "set roms \<subseteq> set ?ks"
        "counted = counts ?ks (\<lambda>n. if n \<in> set roms then 1 else 0)"
      unfolding count_members_spec by auto
    have "set ?ks \<subseteq> set roms" using c(2) roms(5) by (auto simp: counts_def list_all_iff split: if_splits)
    then have "set roms = set ?ks" using roms(4) by (rule equalityI [rotated])
    then have "mset roms = mset ?ks" using set_eq_iff_mset_eq_distinct [OF roms(3) d] by blast
    then have "mset (map (\<lambda>r. Some (?g, r)) roms) = mset (map (\<lambda>n. Some (?g, n)) ?ks)" by (simp only: mset_map)
    then show ?r using roms(1,2) by simp
  next
    assume r: ?r
    have "set (map member_match ?ms) = set (map (\<lambda>n. Some (?g, n)) ?ks)" using r by (metis set_mset_mset)
    then have all: "\<forall>m \<in> set ?ms. \<exists>n. member_match m = Some (?g, n)" by auto
    define roms where "roms = map (snd \<circ> the \<circ> member_match) ?ms"
    have roms: "map member_match ?ms = map (\<lambda>r. Some (?g, r)) roms"
      using all by (auto simp: roms_def)
    have "mset (map (\<lambda>r. Some (?g, r)) roms) = mset (map (\<lambda>n. Some (?g, n)) ?ks)" using r roms by simp
    then have "image_mset (snd \<circ> the) (mset (map (\<lambda>r. Some (?g, r)) roms)) =
        image_mset (snd \<circ> the) (mset (map (\<lambda>n. Some (?g, n)) ?ks))" by (rule arg_cong)
    then have m: "mset roms = mset ?ks" by (simp add: multiset.map_comp comp_def)
    then have "distinct roms" "set roms = set ?ks" using d mset_eq_imp_distinct_iff [OF m] mset_eq_setD [OF m] by blast+
    then have "count_members ?g ?ms {} (counts ?ks (\<lambda>n. 0)) = Some (counts ?ks (\<lambda>n. if n \<in> set roms then 1 else 0))"
      unfolding count_members_spec using r roms by auto
    then show ?l using \<open>set roms = set ?ks\<close> by (simp add: counts_def list_all_iff)
  qed
  have len: "length ?ms = length ?ks" if "mset (map member_match ?ms) = mset (map (\<lambda>n. Some (?g, n)) ?ks)"
    using mset_eq_length [OF that] by simp
  have req: "distinct ?ks \<Longrightarrow> map (\<lambda>n. (n, 0 :: nat)) (remdups ?ks) = counts ?ks (\<lambda>n. 0)"
    by (simp add: counts_def distinct_remdups_id)
  show ?thesis
  proof (cases "distinct ?ks")
    case True
    then have "length (map (\<lambda>n. (n, 0 :: nat)) (remdups ?ks)) = length ?ks" using dist by simp
    then have "archive_exactly_matches_set a r \<longleftrightarrow>
        length ?ms = aa_total_members a \<and> length ?ms = length ?ks \<and>
        length (sr_members_verified r) = length ?ks \<and>
        distinct (map member_index ?ms) \<and> mset (map member_match ?ms) = mset (map (\<lambda>n. Some (?g, n)) ?ks)"
      unfolding archive_exactly_matches_set_def Let_def req [OF True] core [OF True, symmetric] by auto
    then show ?thesis using True len by blast
  next
    case False
    then have "length (remdups ?ks) < length ?ks"
      using dist length_remdups_leq [of ?ks] by linarith
    then show ?thesis using False by (auto simp: archive_exactly_matches_set_def Let_def)
  qed
qed

section \<open>When a plan is built\<close>

definition ranked_note :: "dat_policy_note \<Rightarrow> bool" where
  "ranked_note n \<longleftrightarrow> (\<exists>cs policy. pn_resolution n = rank_candidates cs policy)"

definition ranked_notes :: "dat_audit_outcome \<Rightarrow> bool" where
  "ranked_notes outcome \<longleftrightarrow>
     (case ao_policy outcome of None \<Rightarrow> True | Some policy \<Rightarrow> list_all ranked_note (pu_notes policy))"

lemma decided_entries:
  "cr_decided (rank_candidates cs policy) \<Longrightarrow> cr_entries (rank_candidates cs policy) \<noteq> []"
  by (auto simp: rank_candidates_def Let_def decided_of_def split: list.splits)

lemma matched_name_total:
  assumes "nt = None \<or> (\<exists>n. nt = Some n \<and> ranked_note n)"
  shows "matched_name_of verdict nt \<noteq> None"
proof (cases nt)
  case None
  then show ?thesis by (cases verdict) (simp_all add: matched_name_of_def)
next
  case (Some n)
  then obtain cs pol where n: "pn_resolution n = rank_candidates cs pol"
    using assms by (auto simp: ranked_note_def)
  have "cr_decided (rank_candidates cs pol) \<Longrightarrow> cr_winner_index (rank_candidates cs pol) = Some 0"
    by (simp add: rank_candidates_def Let_def)
  then show ?thesis using Some decided_entries [of cs pol]
    by (cases verdict) (simp_all add: matched_name_of_def Let_def n or_default_def)
qed

lemma last_by_mem: "last_by key xs p = Some x \<Longrightarrow> x \<in> set xs"
  by (auto simp: last_by_def find_Some_iff) (metis in_set_conv_nth length_rev set_rev)

lemma loose_proposals_outcome:
  assumes "\<forall>p. nb p = None \<or> (\<exists>n. nb p = Some n \<and> ranked_note n)"
  shows "case loose_proposals f nb cb ctx cancel k entries acc v of
           Inl e \<Rightarrow> e = PlanCancelled \<and> list_ex cancel [k ..< k + length entries]
         | Inr r \<Rightarrow> \<not> list_ex cancel [k ..< k + length entries]"
proof (induction entries arbitrary: k acc v)
  case Nil
  then show ?case by simp
next
  case (Cons e es)
  have upt: "[k ..< k + length (e # es)] = k # [k + 1 ..< k + 1 + length es]" by (simp add: upt_rec)
  let ?derived = "case classify_object f (ae_local_path e) of
      Some kind \<Rightarrow> derive_proposal e (nb (ae_local_path e)) (cb (ae_local_path e)) ctx kind
    | None \<Rightarrow> blocked_missing_source e (nb (ae_local_path e)) (cb (ae_local_path e)) ctx"
  have "?derived \<noteq> None"
    using matched_name_total [OF spec [OF assms], of "ae_verdict e" "ae_local_path e"]
    by (simp add: derive_proposal_def blocked_missing_source_def split: option.splits)
  then obtain q where q: "?derived = Some q" by blast
  show ?case
  proof (cases "cancel k")
    case True
    then show ?thesis unfolding upt by simp
  next
    case False
    then have "loose_proposals f nb cb ctx cancel k (e # es) acc v =
        (if is_verified (ae_verdict e)
         then loose_proposals f nb cb ctx cancel (k + 1) es (acc @ [q]) (v + 1)
         else loose_proposals f nb cb ctx cancel (k + 1) es acc v)"
      using q by (simp add: Let_def)
    moreover have "list_ex cancel [k ..< k + length (e # es)] = list_ex cancel [k + 1 ..< k + 1 + length es]"
      unfolding upt using False by simp
    ultimately show ?thesis
      using Cons.IH [of "k + 1" "acc @ [q]" "v + 1"] Cons.IH [of "k + 1" acc v]
      by (cases "is_verified (ae_verdict e)") (simp_all only: if_True if_False)
  qed
qed

text \<open>
  Building a plan never indexes past a ranking's entries, and it always answers: with an
  audit whose policy notes were produced by the ranking, it is cancelled exactly when one of
  its reads of the flag - one at the start, one per audited file - returns true, and returns
  a plan otherwise.
\<close>

theorem plan_or_cancelled:
  assumes "ranked_notes outcome"
  shows "if list_ex cancel [0 ..< Suc (length (ar_entries (ao_report outcome)))]
         then build_rename_plan f platforms outcome generation cancel = Inl PlanCancelled
         else \<not> isl (build_rename_plan f platforms outcome generation cancel)"
proof -
  let ?list = "case ao_policy outcome of None \<Rightarrow> [] | Some policy \<Rightarrow> pu_notes policy"
  let ?entries = "ar_entries (ao_report outcome)"
  have "last_by pn_local_path ?list p = None \<or>
      (\<exists>n. last_by pn_local_path ?list p = Some n \<and> ranked_note n)" for p
    using assms last_by_mem [of pn_local_path ?list p]
    by (cases "last_by pn_local_path ?list p")
       (auto simp: ranked_notes_def list_all_iff split: option.splits)
  then have all: "\<forall>p. last_by pn_local_path ?list p = None \<or>
      (\<exists>n. last_by pn_local_path ?list p = Some n \<and> ranked_note n)" by (rule allI)
  note loop = loose_proposals_outcome [OF all, where f = f and
      cb = "last_by cm_local_path (co_matches (ao_content outcome))" and
      ctx = "context_of platforms outcome" and cancel = cancel and k = 1 and entries = ?entries and
      acc = "[]" and v = 0]
  have upt: "[0 ..< Suc (length ?entries)] = 0 # [1 ..< 1 + length ?entries]" by (simp add: upt_rec)
  define later where "later = list_ex cancel [1 ..< 1 + length ?entries]"
  show ?thesis
    using loop unfolding upt list_ex_Cons_iff later_def [symmetric]
    by (auto simp: build_rename_plan_def Let_def split: sum.splits)
qed

end
