(* ===== verification/RenameExample.thy ===== *)
theory RenameExample
  imports RenameChecks
begin

text \<open>
  A worked example: three files in one folder, two of them matched exactly, one of those under
  a name that only differs from the other's canonical name by nothing but its case; the plan,
  its transaction, and the instances of the guarantees at it.
\<close>

definition demo_dir :: "nat \<Rightarrow> fs_node" where
  "demo_dir i = \<lparr> n_kind = DirNode, n_size = 0, n_mtime = 0, n_ino = i, n_dev = 1 \<rparr>"

definition demo_file :: "nat \<Rightarrow> fs_node" where
  "demo_file i = \<lparr> n_kind = FileNode, n_size = 4, n_mtime = 9, n_ino = i, n_dev = 1 \<rparr>"

definition demo_fs :: fs where
  "demo_fs = fmap_of_list
     [([''roms''], demo_dir 2), ([''roms'', ''a.bin''], demo_file 3),
      ([''roms'', ''b.bin''], demo_file 4), ([''roms'', ''c.txt''], demo_file 5)]"

definition demo_entry :: "string \<Rightarrow> audit_verdict \<Rightarrow> audit_entry" where
  "demo_entry name verdict =
     \<lparr> ae_local_path = [''roms'', name], ae_local_filename = name, ae_verdict = verdict \<rparr>"

definition demo_entries :: "audit_entry list" where
  "demo_entries =
     [demo_entry ''b.bin'' (Exact ''Two'' ''Two.bin'' ''SHA-1''),
      demo_entry ''a.bin'' (Exact ''One'' ''One.bin'' ''SHA-1''),
      demo_entry ''c.txt'' NotInDat]"

definition demo_outcome :: dat_audit_outcome where
  "demo_outcome =
     \<lparr> ao_source_id = ''s'', ao_source_display_name = ''S'', ao_dat_path = [''s.dat''], ao_scan_root = ''/roms'',
       ao_catalogue_names = [''S''], ao_catalogue_entries = 2, ao_catalogue_roms = 2,
       ao_content = \<lparr> co_selection = AllEntries, co_catalogue = empty_summary, co_matches = [] \<rparr>,
       ao_unreadable_catalogues = [],
       ao_report = \<lparr> ar_entries = demo_entries,
                     ar_summary = \<lparr> as_total = 3, as_exact = 2, as_exact_multiple = 0, as_probable = 0,
                       as_filename_only = 0, as_probable_multiple = 0, as_ambiguous = 0,
                       as_not_in_dat = 1, as_no_evidence = 0 \<rparr> \<rparr>,
       ao_archives = [], ao_sets = [], ao_unhashed = [], ao_files_scanned = 3, ao_bytes_hashed = 12,
       ao_archive_bytes_hashed = 0, ao_truncated = False, ao_policy = None, ao_platform = None \<rparr>"

definition demo_plan :: rename_plan where
  "demo_plan = projr (build_rename_plan demo_fs [] demo_outcome 7 (\<lambda>n. False))"

lemma demo_plan_built:
  "map_sum id (\<lambda>plan. map (\<lambda>p. (rp_source_path p, rp_proposed_basename p, rp_state p, rp_is_outer_archive p))
      (rn_proposals plan)) (build_rename_plan demo_fs [] demo_outcome 7 (\<lambda>n. False)) =
   Inr [([''roms'', ''a.bin''], Some ''One.bin'', Suggested, False),
        ([''roms'', ''b.bin''], Some ''Two.bin'', Suggested, False)]"
  by code_simp

lemma demo_plan_eq: "build_rename_plan demo_fs [] demo_outcome 7 (\<lambda>n. False) = Inr demo_plan"
  using demo_plan_built unfolding demo_plan_def
  by (cases "build_rename_plan demo_fs [] demo_outcome 7 (\<lambda>n. False)") simp_all

lemma demo_proposals:
  "map (\<lambda>p. (rp_source_path p, rp_proposed_basename p, rp_state p, rp_is_outer_archive p)) (rn_proposals demo_plan) =
     [([''roms'', ''a.bin''], Some ''One.bin'', Suggested, False),
      ([''roms'', ''b.bin''], Some ''Two.bin'', Suggested, False)]"
  using demo_plan_built unfolding demo_plan_eq by simp

lemma demo_plan_shape:
  "length (rn_proposals demo_plan) = 2" "rp_state (rn_proposals demo_plan ! 0) = Suggested"
  "\<not> rp_is_outer_archive (rn_proposals demo_plan ! 0)"
proof -
  let ?view = "\<lambda>p. (rp_source_path p, rp_proposed_basename p, rp_state p, rp_is_outer_archive p)"
  show len: "length (rn_proposals demo_plan) = 2"
    using arg_cong [OF demo_proposals, of length] by simp
  have "?view (rn_proposals demo_plan ! 0) = map ?view (rn_proposals demo_plan) ! 0" using len by simp
  then show "rp_state (rn_proposals demo_plan ! 0) = Suggested"
    "\<not> rp_is_outer_archive (rn_proposals demo_plan ! 0)" unfolding demo_proposals by simp_all
qed

lemma demo_first: "rn_proposals demo_plan ! 0 \<in> set (rn_proposals demo_plan)"
  using demo_plan_shape(1) by simp

theorem plan_suggestions_safe_witness:
  "rp_state (rn_proposals demo_plan ! 0) = Suggested \<and> safe_suggestion demo_entries (rn_proposals demo_plan ! 0)"
  using plan_suggestions_safe [OF demo_plan_eq demo_first demo_plan_shape(2)] demo_plan_shape(2)
  by (simp add: demo_outcome_def)

theorem plan_suggestions_apart_witness:
  "apart (rn_proposals demo_plan ! 0) (rn_proposals demo_plan ! 1)"
  by (rule plan_suggestions_apart [OF demo_plan_eq]) (simp_all add: demo_plan_shape(1))

theorem plan_rests_on_evidence_witness:
  "loose_origin demo_fs demo_entries (rn_proposals demo_plan ! 0)"
  using plan_rests_on_evidence [OF demo_plan_eq demo_first] demo_plan_shape(3) by (simp add: demo_outcome_def)

definition demo_approved :: "path set" where
  "demo_approved = {[''roms'', ''a.bin''], [''roms'', ''b.bin'']}"

definition demo_transaction :: rename_transaction where
  "demo_transaction = projr (build_transaction demo_fs 100 1 100 demo_plan demo_approved 7)"

lemma demo_transaction_eq:
  "build_transaction demo_fs 100 1 100 demo_plan demo_approved 7 = Inr demo_transaction"
proof -
  have "\<not> isl (build_transaction demo_fs 100 1 100 demo_plan demo_approved 7)" by code_simp
  then show ?thesis by (simp add: demo_transaction_def)
qed

definition demo_execution :: apply_execution where
  "demo_execution =
     \<lparr> ex_approved_paths = demo_approved, ex_current_generation = 7, ex_trusted = [[''roms'']],
       ex_hard_conflict_mode = AbortAll, ex_directory_policy = SameDirectory,
       ex_allow_symlink_source = False \<rparr>"


theorem plan_or_cancelled_witness:
  "\<not> isl (build_rename_plan demo_fs [] demo_outcome 7 (\<lambda>n. n = 9)) \<and>
   build_rename_plan demo_fs [] demo_outcome 7 (\<lambda>n. n = 2) = Inl PlanCancelled"
proof -
  have ranked: "ranked_notes demo_outcome" by (simp add: ranked_notes_def demo_outcome_def)
  have n: "length (ar_entries (ao_report demo_outcome)) = 3" by (simp add: demo_outcome_def demo_entries_def)
  show ?thesis
    using plan_or_cancelled [OF ranked, of "\<lambda>n. n = 9" demo_fs "[]" 7]
      plan_or_cancelled [OF ranked, of "\<lambda>n. n = 2" demo_fs "[]" 7]
    by (simp add: n upt_rec)
qed

end
