(* ===== verification/DepGraph.thy ===== *)
theory DepGraph
  imports DatSetProofs
begin

text \<open>
  Identity lookup for dependencies: \<open>dat/dependency/graph.rs\<close>. A declared name becomes a
  catalogue entry only when exactly one entry carries it; a chain is walked under a guard that
  refuses a revisit and more than \<open>max_dependency_depth\<close> sets on one path.
\<close>

section \<open>References\<close>

definition max_dependency_depth :: nat where
  "max_dependency_depth = 64"

datatype set_ref = SetUnique nat | SetDuplicate | SetAbsent

datatype name_decl = NameAbsent | NameMalformed | Named string

definition declared_name :: "string option \<Rightarrow> name_decl" where
  "declared_name value =
     (case map_option trim value of
        None \<Rightarrow> NameAbsent
      | Some name \<Rightarrow> if name = [] then NameMalformed else Named name)"

datatype flag = FlagYes | FlagNo | FlagAbsent | FlagMalformed

definition parse_flag :: "string option \<Rightarrow> flag" where
  "parse_flag value =
     (case map_option trim value of
        None \<Rightarrow> FlagAbsent
      | Some v \<Rightarrow>
          if eq_ignore_ascii_case v ''yes'' then FlagYes
          else if eq_ignore_ascii_case v ''no'' then FlagNo
          else FlagMalformed)"

datatype 'k member_ref = MemberUnique 'k | MemberDuplicate | MemberAbsent

datatype entry_slot = SlotUnique nat | SlotDuplicate

record dependency_graph =
  gr_games :: "dat_game_entry list"
  gr_by_name :: "string \<rightharpoonup> entry_slot"
  gr_by_id :: "string \<rightharpoonup> entry_slot"

text \<open>\<open>entry(k).and_modify(Duplicate).or_insert(Unique)\<close>.\<close>

definition add_slot :: "string \<Rightarrow> nat \<Rightarrow> (string \<rightharpoonup> entry_slot) \<Rightarrow> (string \<rightharpoonup> entry_slot)" where
  "add_slot k i m = m(k := Some (case m k of None \<Rightarrow> SlotUnique i | Some _ \<Rightarrow> SlotDuplicate))"

definition usable_id :: "dat_game_entry \<Rightarrow> string option" where
  "usable_id game =
     (case map_option trim (dg_id game) of None \<Rightarrow> None | Some i \<Rightarrow> if i = [] then None else Some i)"

definition usable_name :: "dat_game_entry \<Rightarrow> string option" where
  "usable_name game = (let name = trim (dg_name game) in if name = [] then None else Some name)"

definition build_slots ::
    "(dat_game_entry \<Rightarrow> string option) \<Rightarrow> dat_game_entry list \<Rightarrow> (string \<rightharpoonup> entry_slot)" where
  "build_slots key games =
     fold (\<lambda>(i, game) m. case key game of None \<Rightarrow> m | Some k \<Rightarrow> add_slot k i m) (enumerate 0 games) Map.empty"

definition build_graph :: "dat_game_entry list \<Rightarrow> dependency_graph" where
  "build_graph games =
     \<lparr> gr_games = games, gr_by_name = build_slots usable_name games, gr_by_id = build_slots usable_id games \<rparr>"

definition graph_game :: "dependency_graph \<Rightarrow> nat \<Rightarrow> dat_game_entry" where
  "graph_game gr i = gr_games gr ! i"

definition resolve_set :: "dependency_graph \<Rightarrow> string \<Rightarrow> set_ref" where
  "resolve_set gr reference =
     (let key = trim reference in
      case (gr_by_name gr key, gr_by_id gr key) of
        (Some SlotDuplicate, _) \<Rightarrow> SetDuplicate
      | (Some (SlotUnique by_name), Some (SlotUnique by_id)) \<Rightarrow>
          if by_name = by_id then SetUnique by_name else SetDuplicate
      | (Some (SlotUnique by_name), _) \<Rightarrow> SetUnique by_name
      | (None, Some (SlotUnique by_id)) \<Rightarrow> SetUnique by_id
      | (None, Some SlotDuplicate) \<Rightarrow> SetDuplicate
      | (None, None) \<Rightarrow> SetAbsent)"

text \<open>The one declaration in a list that carries the wanted name.\<close>

fun unique_member :: "('m \<Rightarrow> string option) \<Rightarrow> string \<Rightarrow> ('k \<times> 'm) option \<Rightarrow> ('k \<times> 'm) list \<Rightarrow> ('k \<times> 'm) member_ref"
where
  "unique_member name wanted found [] =
     (case found of None \<Rightarrow> MemberAbsent | Some km \<Rightarrow> MemberUnique km)"
| "unique_member name wanted found (km # rest) =
     (if map_option trim (name (snd km)) \<noteq> Some wanted then unique_member name wanted found rest
      else if found \<noteq> None then MemberDuplicate
      else unique_member name wanted (Some km) rest)"

definition rom_declared_as ::
    "dependency_graph \<Rightarrow> nat \<Rightarrow> string \<Rightarrow> (dat_member_key \<times> dat_rom_entry) member_ref" where
  "rom_declared_as gr i name =
     unique_member (\<lambda>rom. Some (dr_name rom)) (trim name) None (declared_roms i (graph_game gr i))"

definition disk_declared_as ::
    "dependency_graph \<Rightarrow> nat \<Rightarrow> string \<Rightarrow> (dat_disk_key \<times> dat_disk_entry) member_ref" where
  "disk_declared_as gr i name =
     unique_member dd_name (trim name) None (declared_disks i (graph_game gr i))"

section \<open>Guards\<close>

datatype chain_fault = FaultCycle | FaultDepthExceeded

text \<open>\<open>ChainGuard::visit\<close> and \<open>IdentityChainGuard::visit\<close>: the sets on the path so far.\<close>

definition visit :: "'a \<Rightarrow> 'a list \<Rightarrow> chain_fault + 'a list" where
  "visit x seen =
     (if x \<in> set seen then Inl FaultCycle
      else if length seen \<ge> max_dependency_depth then Inl FaultDepthExceeded
      else Inr (seen @ [x]))"

text \<open>How many more sets a guard admits: the measure of every walk.\<close>

definition room :: "'a list \<Rightarrow> nat" where
  "room seen = max_dependency_depth - length seen"

lemma visit_Inr:
  "visit x seen = Inr seen' \<longleftrightarrow> seen' = seen @ [x] \<and> x \<notin> set seen \<and> length seen < max_dependency_depth"
  by (auto simp: visit_def)

lemma visit_room: "visit x seen = Inr seen' \<Longrightarrow> room seen' < room seen"
  by (auto simp: visit_Inr room_def)

lemma visit_fault:
  "visit x seen = Inl f \<longleftrightarrow>
     (if x \<in> set seen then f = FaultCycle
      else length seen \<ge> max_dependency_depth \<and> f = FaultDepthExceeded)"
  by (auto simp: visit_def)

section \<open>What a reference means\<close>

text \<open>The positions of the entries that carry a key.\<close>

definition entries_with :: "(dat_game_entry \<Rightarrow> string option) \<Rightarrow> dat_game_entry list \<Rightarrow> string \<Rightarrow> nat list" where
  "entries_with key games k = filter (\<lambda>i. key (games ! i) = Some k) [0 ..< length games]"

definition slot_of :: "nat list \<Rightarrow> entry_slot option" where
  "slot_of is = (case is of [] \<Rightarrow> None | [i] \<Rightarrow> Some (SlotUnique i) | _ \<Rightarrow> Some SlotDuplicate)"

lemma entries_with_snoc:
  "entries_with key (gs @ [g]) k = entries_with key gs k @ (if key g = Some k then [length gs] else [])"
  by (auto simp: entries_with_def nth_append intro: filter_cong)

lemma slot_of_snoc:
  "slot_of (is @ [i]) = Some (case slot_of is of None \<Rightarrow> SlotUnique i | Some _ \<Rightarrow> SlotDuplicate)"
  by (cases "is" rule: list.exhaust; cases "tl is") (auto simp: slot_of_def split: list.splits)

lemma build_slots_eq: "build_slots key games k = slot_of (entries_with key games k)"
proof (induction games arbitrary: k rule: rev_induct)
  case Nil
  then show ?case by (simp add: build_slots_def entries_with_def slot_of_def)
next
  case (snoc g gs)
  have "build_slots key (gs @ [g]) =
      (case key g of None \<Rightarrow> build_slots key gs | Some j \<Rightarrow> add_slot j (length gs) (build_slots key gs))"
    by (cases "key g") (simp_all add: build_slots_def enumerate_append_eq)
  then show ?case using snoc by (auto simp: add_slot_def entries_with_snoc slot_of_snoc split: option.splits)
qed

lemma slot_of_unique: "slot_of is = Some (SlotUnique i) \<longleftrightarrow> is = [i]"
  by (auto simp: slot_of_def split: list.splits)

lemma slot_of_None: "slot_of is = None \<longleftrightarrow> is = []"
  by (auto simp: slot_of_def split: list.splits)

text \<open>
  A reference resolves to an entry exactly when that entry is the only one with that name
  and no other entry alone has it as its identifier, or when nobody has the name and it is the
  only one with that identifier; it is absent exactly when nobody has either. Everything else
  is refused as ambiguous, so the position of an entry never decides.
\<close>

theorem resolve_set_exact:
  "(resolve_set (build_graph games) reference = SetUnique i \<longleftrightarrow>
      (let names = entries_with usable_name games (trim reference);
           ids = entries_with usable_id games (trim reference)
       in (names = [i] \<and> (ids = [] \<or> ids = [i] \<or> length ids \<ge> 2)) \<or> (names = [] \<and> ids = [i]))) \<and>
   (resolve_set (build_graph games) reference = SetAbsent \<longleftrightarrow>
      entries_with usable_name games (trim reference) = [] \<and>
      entries_with usable_id games (trim reference) = [])"
proof -
  let ?names = "entries_with usable_name games (trim reference)"
  let ?ids = "entries_with usable_id games (trim reference)"
  have r: "resolve_set (build_graph games) reference =
      (case (slot_of ?names, slot_of ?ids) of
        (Some SlotDuplicate, _) \<Rightarrow> SetDuplicate
      | (Some (SlotUnique by_name), Some (SlotUnique by_id)) \<Rightarrow>
          if by_name = by_id then SetUnique by_name else SetDuplicate
      | (Some (SlotUnique by_name), _) \<Rightarrow> SetUnique by_name
      | (None, Some (SlotUnique by_id)) \<Rightarrow> SetUnique by_id
      | (None, Some SlotDuplicate) \<Rightarrow> SetDuplicate
      | (None, None) \<Rightarrow> SetAbsent)"
    by (simp add: resolve_set_def build_graph_def build_slots_eq Let_def)
  consider "?names = []" | n where "?names = [n]" | n m rest where "?names = n # m # rest"
    by (metis list.exhaust)
  then show ?thesis
  proof cases
    case 1
    then show ?thesis unfolding r by (cases "?ids" rule: list.exhaust; cases "tl ?ids") (auto simp: slot_of_def Let_def)
  next
    case 2
    then show ?thesis unfolding r by (cases "?ids" rule: list.exhaust; cases "tl ?ids") (auto simp: slot_of_def Let_def)
  next
    case 3
    then show ?thesis unfolding r by (simp add: slot_of_def Let_def)
  qed
qed

lemma resolve_set_range:
  assumes "resolve_set (build_graph games) reference = SetUnique i"
  shows "i < length games"
proof -
  have "i \<in> set (entries_with usable_name games (trim reference)) \<or>
        i \<in> set (entries_with usable_id games (trim reference))"
    using assms unfolding resolve_set_def build_graph_def
    by (auto simp: build_slots_eq slot_of_unique slot_of_None Let_def
        split: option.splits entry_slot.splits if_splits)
  then show ?thesis by (auto simp: entries_with_def)
qed

section \<open>What a member lookup means\<close>

definition members_named :: "('m \<Rightarrow> string option) \<Rightarrow> string \<Rightarrow> ('k \<times> 'm) list \<Rightarrow> ('k \<times> 'm) list" where
  "members_named name wanted ms = filter (\<lambda>km. map_option trim (name (snd km)) = Some wanted) ms"

lemma unique_member_found:
  "unique_member name wanted (Some km) ms =
     (if members_named name wanted ms = [] then MemberUnique km else MemberDuplicate)"
  by (induction ms) (auto simp: members_named_def)

lemma unique_member_eq:
  "unique_member name wanted None ms =
     (case members_named name wanted ms of
        [] \<Rightarrow> MemberAbsent | [km] \<Rightarrow> MemberUnique km | _ \<Rightarrow> MemberDuplicate)"
proof (induction ms)
  case Nil
  then show ?case by (simp add: members_named_def)
next
  case (Cons m ms)
  show ?case
  proof (cases "map_option trim (name (snd m)) = Some wanted")
    case True
    then show ?thesis
      by (cases "members_named name wanted ms") (auto simp: unique_member_found members_named_def)
  next
    case False
    then have "members_named name wanted (m # ms) = members_named name wanted ms"
      by (simp only: members_named_def filter.simps if_False)
    then show ?thesis using Cons False by simp
  qed
qed

lemma unique_member_Unique:
  "unique_member name wanted None ms = MemberUnique km \<longleftrightarrow> members_named name wanted ms = [km]"
  by (auto simp: unique_member_eq split: list.splits)

end
