(* ===== verification/DepResolve.thy ===== *)
theory DepResolve
  imports DepGraph
begin

text \<open>
  Dependency resolution over a whole collection: \<open>dat/dependency/resolve.rs\<close>. The evidence of
  every archive and disk is aggregated once; each set's declared dependencies are resolved
  against it, and the result is folded into the set's state.
\<close>

section \<open>The evidence of a collection\<close>

datatype parent_fact = NoParent | UnusableParent | ParentIdentity string

record set_evidence_flags =
  sf_ambiguous :: bool
  sf_duplicate_evidence :: bool
  sf_used_legacy_evidence :: bool

definition default_flags :: set_evidence_flags where
  "default_flags =
     \<lparr> sf_ambiguous = False, sf_duplicate_evidence = False, sf_used_legacy_evidence = False \<rparr>"

record collection_evidence =
  ev_verified_members :: "dat_member_key set"
  ev_set_flags :: "string \<rightharpoonup> set_evidence_flags"
  ev_verified_disks :: "dat_disk_key set"
  ev_verified_disk_identity :: "dat_disk_key \<rightharpoonup> string"
  ev_verified_disk_parent :: "dat_disk_key \<rightharpoonup> string option"
  ev_disk_tainted_sets :: "string set"
  ev_chd_identities :: "string \<rightharpoonup> parent_fact list"
  ev_scan_complete :: bool

definition merge_flags :: "touched_set \<Rightarrow> set_evidence_flags \<Rightarrow> set_evidence_flags" where
  "merge_flags t f =
     \<lparr> sf_ambiguous = (sf_ambiguous f \<or> ts_ambiguous t),
       sf_duplicate_evidence = (sf_duplicate_evidence f \<or> ts_duplicate_evidence t),
       sf_used_legacy_evidence = (sf_used_legacy_evidence f \<or> ts_used_legacy_evidence t) \<rparr>"

definition flags_in :: "(string \<rightharpoonup> set_evidence_flags) \<Rightarrow> string \<Rightarrow> set_evidence_flags" where
  "flags_in m name = (case m name of None \<Rightarrow> default_flags | Some f \<Rightarrow> f)"

definition collect_touched ::
    "touched_map \<Rightarrow> dat_member_key set \<times> (string \<rightharpoonup> set_evidence_flags) \<Rightarrow>
     dat_member_key set \<times> (string \<rightharpoonup> set_evidence_flags)" where
  "collect_touched touched acc =
     fold (\<lambda>(name, t) (ks, m). (ks \<union> ts_verified_member_keys t, m(name \<mapsto> merge_flags t (flags_in m name))))
       touched acc"

definition collect_archives ::
    "dat_archive_audit list \<Rightarrow> dat_game_entry list \<Rightarrow>
     dat_member_key set \<times> (string \<rightharpoonup> set_evidence_flags)" where
  "collect_archives archives games =
     fold (\<lambda>archive. collect_touched (attribute_archive_members archive games)) archives ({}, Map.empty)"

definition parent_fact_of :: "dat_disk_audit \<Rightarrow> parent_fact" where
  "parent_fact_of audit =
     (if \<not> da_parent_required audit then NoParent
      else (case da_parent_sha1 audit of None \<Rightarrow> UnusableParent | Some p \<Rightarrow> ParentIdentity p))"

text \<open>The distinct facts about an identity; only their number and a single one are ever read.\<close>

definition add_parent_fact :: "dat_disk_audit \<Rightarrow> (string \<rightharpoonup> parent_fact list) \<Rightarrow> (string \<rightharpoonup> parent_fact list)" where
  "add_parent_fact audit m =
     (case Option.bind (da_overall_sha1 audit) parse_disk_sha1 of
        None \<Rightarrow> m
      | Some identity \<Rightarrow>
          (let facts = (case m identity of None \<Rightarrow> [] | Some fs \<Rightarrow> fs); pf = parent_fact_of audit
           in m(identity \<mapsto> (if pf \<in> set facts then facts else facts @ [pf]))))"

text \<open>All values of the map of verified disks: its keys are games that some evidence names.\<close>

definition verified_disk_values :: "dat_disk_audit list \<Rightarrow> disk_evidence_summary \<Rightarrow> dat_disk_key set" where
  "verified_disk_values disk_evidence s =
     \<Union> (set (map (\<lambda>game. keys_or_empty (de_verified s game))
                (concat (map (\<lambda>audit. map kr_game_name (da_matched_refs audit)) disk_evidence))))"

lemma summarize_disk_verified:
  "de_verified (summarize_disk evidence games audit s) = de_verified s \<or>
   (da_matched_refs audit \<noteq> [] \<and>
    de_verified (summarize_disk evidence games audit s) =
      insert_key (kr_game_name (hd (da_matched_refs audit))) (disk_ref_key (hd (da_matched_refs audit))) (de_verified s))"
proof (cases "da_verdict audit")
  case (Some v)
  show ?thesis
  proof (cases v)
    case (DiskExact g d)
    then show ?thesis using Some
      by (cases "Option.bind (da_overall_sha1 audit) parse_disk_sha1") (auto simp: summarize_disk_def Let_def)
  qed (use Some in \<open>simp_all add: summarize_disk_def Let_def\<close>)
qed (simp add: summarize_disk_def Let_def)

lemma summarize_disk_dom:
  "dom (de_verified (summarize_disk evidence games audit s)) \<subseteq>
   dom (de_verified s) \<union> set (map kr_game_name (da_matched_refs audit))"
proof (cases "de_verified (summarize_disk evidence games audit s) = de_verified s")
  case False
  then have "da_matched_refs audit \<noteq> []" and
      eq: "dom (de_verified (summarize_disk evidence games audit s)) =
        insert (kr_game_name (hd (da_matched_refs audit))) (dom (de_verified s))"
    using summarize_disk_verified [of evidence games audit s] by (simp_all add: insert_key_def)
  then show ?thesis unfolding eq by simp
qed simp

lemma summarize_fold_dom:
  "dom (de_verified (fold (summarize_disk evidence games) audits s)) \<subseteq>
   dom (de_verified s) \<union> set (concat (map (\<lambda>audit. map kr_game_name (da_matched_refs audit)) audits))"
proof (induction audits arbitrary: s)
  case (Cons audit audits)
  have "dom (de_verified (fold (summarize_disk evidence games) audits (summarize_disk evidence games audit s))) \<subseteq>
      dom (de_verified (summarize_disk evidence games audit s)) \<union>
      set (concat (map (\<lambda>audit. map kr_game_name (da_matched_refs audit)) audits))"
    by (rule Cons.IH)
  also have "\<dots> \<subseteq> (dom (de_verified s) \<union> set (map kr_game_name (da_matched_refs audit))) \<union>
      set (concat (map (\<lambda>audit. map kr_game_name (da_matched_refs audit)) audits))"
    by (rule Un_mono [OF summarize_disk_dom order_refl])
  finally show ?case by (simp only: fold_simps list.map concat.simps set_append Un_assoc)
qed simp

text \<open>So no value of the map is left out.\<close>

lemma verified_disk_values_all:
  "verified_disk_values evidence (summarize_disk_evidence evidence games) =
   \<Union> (ran (de_verified (summarize_disk_evidence evidence games)))"
proof -
  let ?m = "de_verified (summarize_disk_evidence evidence games)"
  let ?names = "set (concat (map (\<lambda>audit. map kr_game_name (da_matched_refs audit)) evidence))"
  have "dom ?m \<subseteq> ?names"
    using summarize_fold_dom [of evidence games evidence no_disk_evidence]
    by (simp add: summarize_disk_evidence_def no_disk_evidence_def)
  moreover have "\<Union> (ran ?m) = (\<Union>game \<in> dom ?m. keys_or_empty (?m game))"
    by (auto simp: ran_def keys_or_empty_def dom_def split: option.splits)
  moreover have "keys_or_empty (?m game) = {}" if "game \<notin> dom ?m" for game
    using that by (auto simp: keys_or_empty_def dom_def)
  ultimately show ?thesis unfolding verified_disk_values_def by (auto simp del: set_concat) blast
qed

definition build_evidence ::
    "dat_archive_audit list \<Rightarrow> dat_disk_audit list \<Rightarrow> dat_game_entry list \<Rightarrow> bool \<Rightarrow> collection_evidence" where
  "build_evidence archives disk_evidence games scan_complete =
     (let (members, flags) = collect_archives archives games;
          disks = summarize_disk_evidence disk_evidence games
      in \<lparr> ev_verified_members = members, ev_set_flags = flags,
           ev_verified_disks = verified_disk_values disk_evidence disks,
           ev_verified_disk_identity = de_verified_identity disks,
           ev_verified_disk_parent = de_verified_parent_identity disks,
           ev_disk_tainted_sets = de_ambiguous_games disks \<union> de_duplicate_evidence_games disks,
           ev_chd_identities = fold add_parent_fact disk_evidence Map.empty,
           ev_scan_complete = scan_complete \<rparr>)"

definition flags_of :: "collection_evidence \<Rightarrow> string \<Rightarrow> set_evidence_flags" where
  "flags_of ev name = flags_in (ev_set_flags ev) name"

section \<open>Small verdicts\<close>

definition absent_outcome :: "collection_evidence \<Rightarrow> dependency_outcome" where
  "absent_outcome ev = (if ev_scan_complete ev then OutMissing else OutEvidenceUnavailable)"

fun fault_outcome :: "chain_fault \<Rightarrow> dependency_outcome" where
  "fault_outcome FaultCycle = OutCycle"
| "fault_outcome FaultDepthExceeded = OutUnsupported"

definition combine_worst :: "dependency_outcome \<Rightarrow> dependency_outcome \<Rightarrow> dependency_outcome" where
  "combine_worst a b = (if severity b > severity a then b else a)"

definition worst_outcome :: "dependency_outcome list \<Rightarrow> dependency_outcome" where
  "worst_outcome outcomes = foldl combine_worst OutSatisfied outcomes"

definition checksums_conflict :: "dat_rom_entry \<Rightarrow> dat_rom_entry \<Rightarrow> bool" where
  "checksums_conflict left right =
     list_ex (\<lambda>mine. list_ex (\<lambda>theirs.
         ck_algorithm mine = ck_algorithm theirs \<and> \<not> eq_ignore_ascii_case (ck_value mine) (ck_value theirs))
       (checksums right)) (checksums left)"

definition disk_sha1_conflict :: "dat_disk_entry \<Rightarrow> dat_disk_entry \<Rightarrow> bool" where
  "disk_sha1_conflict left right =
     (case (Option.bind (dd_sha1 left) parse_disk_sha1, Option.bind (dd_sha1 right) parse_disk_sha1) of
        (Some mine, Some theirs) \<Rightarrow> mine \<noteq> theirs
      | _ \<Rightarrow> False)"

section \<open>Chains of sets\<close>

function walk_set_chain ::
    "dependency_graph \<Rightarrow> (dat_game_entry \<Rightarrow> string option) \<Rightarrow> nat \<Rightarrow> nat list \<Rightarrow> dependency_outcome" where
  "walk_set_chain gr chain current seen =
     (case visit current seen of
        Inl fault \<Rightarrow> fault_outcome fault
      | Inr seen' \<Rightarrow>
          (case declared_name (chain (graph_game gr current)) of
             NameAbsent \<Rightarrow> OutSatisfied
           | NameMalformed \<Rightarrow> OutContradictory
           | Named next_name \<Rightarrow>
               (case resolve_set gr next_name of
                  SetUnique i \<Rightarrow> walk_set_chain gr chain i seen'
                | SetDuplicate \<Rightarrow> OutAmbiguous
                | SetAbsent \<Rightarrow> OutContradictory)))"
  by pat_completeness auto
termination
  by (relation "measure (\<lambda>(gr, chain, current, seen). room seen)") (auto dest: visit_room)

declare walk_set_chain.simps [simp del]

definition set_reference ::
    "dependency_graph \<Rightarrow> nat \<Rightarrow> dependency_kind \<Rightarrow> string option \<Rightarrow> (dat_game_entry \<Rightarrow> string option) \<Rightarrow>
     dependency_requirement list" where
  "set_reference gr i kind declared chain =
     (let req = (\<lambda>target outcome. [\<lparr> rq_kind = kind, rq_target = target, rq_outcome = outcome, rq_via_member = None \<rparr>])
      in case declared_name declared of
           NameAbsent \<Rightarrow> []
         | NameMalformed \<Rightarrow> req Undeclared OutContradictory
         | Named name \<Rightarrow>
             if name = trim (dg_name (graph_game gr i)) then req (SetTarget name) OutContradictory
             else req (SetTarget name)
                    (case resolve_set gr name of
                       SetDuplicate \<Rightarrow> OutAmbiguous
                     | SetAbsent \<Rightarrow> OutContradictory
                     | SetUnique parent \<Rightarrow> walk_set_chain gr chain parent [i]))"

text \<open>The set a member-level borrow reads from: \<open>romof\<close>, or \<open>cloneof\<close> when that is absent.\<close>

definition borrow_provider :: "dependency_graph \<Rightarrow> nat \<Rightarrow> string option option" where
  "borrow_provider gr i =
     (let game = graph_game gr i in
      if declared_name (dg_rom_of game) = NameAbsent
      then (if declared_name (dg_clone_of game) = NameAbsent then None else Some (dg_clone_of game))
      else Some (dg_rom_of game))"

section \<open>CHD parents\<close>

function follow_chd_parents ::
    "collection_evidence \<Rightarrow> string \<Rightarrow> string list \<Rightarrow> dependency_outcome" where
  "follow_chd_parents ev wanted seen =
     (case visit wanted seen of
        Inl fault \<Rightarrow> fault_outcome fault
      | Inr seen' \<Rightarrow>
          (case ev_chd_identities ev wanted of
             None \<Rightarrow> absent_outcome ev
           | Some facts \<Rightarrow>
               if length facts > 1 then OutContradictory
               else (case facts of
                       [] \<Rightarrow> OutSatisfied
                     | pf # _ \<Rightarrow>
                         (case pf of
                            NoParent \<Rightarrow> OutSatisfied
                          | UnusableParent \<Rightarrow> OutContradictory
                          | ParentIdentity parent \<Rightarrow> follow_chd_parents ev parent seen'))))"
  by pat_completeness auto
termination
  by (relation "measure (\<lambda>(ev, wanted, seen). room seen)") (auto dest: visit_room)

declare follow_chd_parents.simps [simp del]

definition chd_parent_outcome :: "collection_evidence \<Rightarrow> dat_disk_key \<Rightarrow> dependency_outcome option" where
  "chd_parent_outcome ev key =
     map_option (\<lambda>parent.
       (case parent of
          None \<Rightarrow> OutContradictory
        | Some p \<Rightarrow>
            (case ev_verified_disk_identity ev key of
               Some own \<Rightarrow> if own = p then OutContradictory else follow_chd_parents ev p [own]
             | None \<Rightarrow> OutUnsupported)))
       (ev_verified_disk_parent ev key)"

section \<open>Borrowed members\<close>

definition member_outcome :: "dependency_graph \<Rightarrow> collection_evidence \<Rightarrow> nat \<Rightarrow> dat_member_key \<Rightarrow> dependency_outcome" where
  "member_outcome gr ev owner key =
     (let flags = flags_of ev (trim (dg_name (graph_game gr owner))) in
      if sf_duplicate_evidence flags \<or> sf_ambiguous flags then OutAmbiguous
      else if key \<in> ev_verified_members ev then OutSatisfied
      else if sf_used_legacy_evidence flags then OutUnsupported
      else absent_outcome ev)"

definition disk_outcome :: "dependency_graph \<Rightarrow> collection_evidence \<Rightarrow> nat \<Rightarrow> dat_disk_key \<Rightarrow> dependency_outcome" where
  "disk_outcome gr ev owner key =
     (if trim (dg_name (graph_game gr owner)) \<in> ev_disk_tainted_sets ev then OutAmbiguous
      else if key \<notin> ev_verified_disks ev then absent_outcome ev
      else (case chd_parent_outcome ev key of None \<Rightarrow> OutSatisfied | Some outcome \<Rightarrow> outcome))"

text \<open>
  The two loops \<open>follow_rom_merge\<close> and \<open>follow_disk_merge\<close> have one shape: what differs is how
  a declaration is found, compared, classified, and finally decided.
\<close>

record ('k, 'm) borrow_ops =
  bo_declared_as :: "nat \<Rightarrow> string \<Rightarrow> ('k \<times> 'm) member_ref"
  bo_conflict :: "'m \<Rightarrow> 'm \<Rightarrow> bool"
  bo_class :: "'m \<Rightarrow> member_class"
  bo_merge :: "'m \<Rightarrow> string option"
  bo_outcome :: "nat \<Rightarrow> 'k \<Rightarrow> dependency_outcome"

text \<open>The provider a borrowed declaration names next, or the verdict when there is none.\<close>

definition next_provider :: "dependency_graph \<Rightarrow> nat \<Rightarrow> dependency_outcome + nat" where
  "next_provider gr provider =
     (case borrow_provider gr provider of
        None \<Rightarrow> Inl OutContradictory
      | Some declared \<Rightarrow>
          (case declared_name declared of
             Named name \<Rightarrow>
               (case resolve_set gr name of
                  SetUnique i \<Rightarrow> Inr i
                | SetDuplicate \<Rightarrow> Inl OutAmbiguous
                | SetAbsent \<Rightarrow> Inl OutContradictory)
           | _ \<Rightarrow> Inl OutContradictory))"

function follow_merge ::
    "dependency_graph \<Rightarrow> ('k, 'm) borrow_ops \<Rightarrow> nat \<Rightarrow> string \<Rightarrow> 'm \<Rightarrow> nat list \<Rightarrow> dependency_outcome" where
  "follow_merge gr ops provider wanted borrower seen =
     (case visit provider seen of
        Inl fault \<Rightarrow> fault_outcome fault
      | Inr seen' \<Rightarrow>
          if dg_unsupported_structure (graph_game gr provider) then OutUnsupported
          else (case bo_declared_as ops provider wanted of
                  MemberDuplicate \<Rightarrow> OutAmbiguous
                | MemberAbsent \<Rightarrow> OutContradictory
                | MemberUnique km \<Rightarrow>
                    if bo_conflict ops borrower (snd km) then OutContradictory
                    else if bo_class ops (snd km) = Borrowed
                    then (case declared_name (bo_merge ops (snd km)) of
                            Named next_name \<Rightarrow>
                              (case next_provider gr provider of
                                 Inl outcome \<Rightarrow> outcome
                               | Inr i \<Rightarrow> follow_merge gr ops i next_name (snd km) seen')
                          | _ \<Rightarrow> OutContradictory)
                    else if bo_class ops (snd km) \<in> {PhysicalRequired, OptionalPhysical}
                    then bo_outcome ops provider (fst km)
                    else OutUnsupported))"
  by pat_completeness auto
termination
  by (relation "measure (\<lambda>(gr, ops, provider, wanted, borrower, seen). room seen)") (auto dest: visit_room)

declare follow_merge.simps [simp del]

definition rom_ops :: "dependency_graph \<Rightarrow> collection_evidence \<Rightarrow> (dat_member_key, dat_rom_entry) borrow_ops" where
  "rom_ops gr ev =
     \<lparr> bo_declared_as = rom_declared_as gr, bo_conflict = checksums_conflict,
       bo_class = classify_rom_member, bo_merge = dr_merge, bo_outcome = member_outcome gr ev \<rparr>"

definition disk_ops :: "dependency_graph \<Rightarrow> collection_evidence \<Rightarrow> (dat_disk_key, dat_disk_entry) borrow_ops" where
  "disk_ops gr ev =
     \<lparr> bo_declared_as = disk_declared_as gr, bo_conflict = disk_sha1_conflict,
       bo_class = classify_disk_member, bo_merge = dd_merge, bo_outcome = disk_outcome gr ev \<rparr>"

definition follow_rom_merge ::
    "dependency_graph \<Rightarrow> collection_evidence \<Rightarrow> nat \<Rightarrow> string \<Rightarrow> dat_rom_entry \<Rightarrow> nat list \<Rightarrow> dependency_outcome" where
  "follow_rom_merge gr ev = follow_merge gr (rom_ops gr ev)"

definition follow_disk_merge ::
    "dependency_graph \<Rightarrow> collection_evidence \<Rightarrow> nat \<Rightarrow> string \<Rightarrow> dat_disk_entry \<Rightarrow> nat list \<Rightarrow> dependency_outcome" where
  "follow_disk_merge gr ev = follow_merge gr (disk_ops gr ev)"

definition resolve_borrow ::
    "dependency_graph \<Rightarrow> nat \<Rightarrow> string \<Rightarrow> (nat \<Rightarrow> nat list \<Rightarrow> dependency_outcome) \<Rightarrow>
     dependency_target \<times> dependency_outcome" where
  "resolve_borrow gr i merge_name follow =
     (case borrow_provider gr i of
        None \<Rightarrow> (Undeclared, OutContradictory)
      | Some declared \<Rightarrow>
          (case declared_name declared of
             Named provider_name \<Rightarrow>
               (SetMember provider_name merge_name,
                if provider_name = trim (dg_name (graph_game gr i)) then OutContradictory
                else (case resolve_set gr provider_name of
                        SetUnique provider \<Rightarrow> follow provider [i]
                      | SetDuplicate \<Rightarrow> OutAmbiguous
                      | SetAbsent \<Rightarrow> OutContradictory))
           | _ \<Rightarrow> (Undeclared, OutContradictory)))"

definition merged_requirement ::
    "dependency_kind \<Rightarrow> string option \<Rightarrow> (string \<Rightarrow> dependency_target \<times> dependency_outcome) \<Rightarrow>
     string option \<Rightarrow> dependency_requirement" where
  "merged_requirement kind merge_field borrow via =
     (case declared_name merge_field of
        Named name \<Rightarrow>
          (let (target, outcome) = borrow name
           in \<lparr> rq_kind = kind, rq_target = target, rq_outcome = outcome, rq_via_member = via \<rparr>)
      | _ \<Rightarrow> \<lparr> rq_kind = kind, rq_target = Undeclared, rq_outcome = OutContradictory, rq_via_member = via \<rparr>)"

definition resolve_merged_rom ::
    "dependency_graph \<Rightarrow> collection_evidence \<Rightarrow> nat \<Rightarrow> dat_rom_entry \<Rightarrow> dependency_requirement" where
  "resolve_merged_rom gr ev i rom =
     merged_requirement MergedRom (dr_merge rom)
       (\<lambda>name. resolve_borrow gr i name (\<lambda>provider. follow_rom_merge gr ev provider name rom)) (Some (dr_name rom))"

definition resolve_merged_disk ::
    "dependency_graph \<Rightarrow> collection_evidence \<Rightarrow> nat \<Rightarrow> dat_disk_entry \<Rightarrow> dependency_requirement" where
  "resolve_merged_disk gr ev i disk =
     merged_requirement MergedDisk (dd_merge disk)
       (\<lambda>name. resolve_borrow gr i name (\<lambda>provider. follow_disk_merge gr ev provider name disk)) (dd_name disk)"

section \<open>BIOS\<close>

definition biosset_declarations :: "dat_game_entry \<Rightarrow> (string \<times> nat) list \<times> bool" where
  "biosset_declarations game =
     fold (\<lambda>bios_set (declared, malformed).
         case declared_name (bs_name bios_set) of
           Named name \<Rightarrow> (adjust cmp_string name 0 Suc declared, malformed)
         | _ \<Rightarrow> (declared, True))
       (dg_bios_sets game) ([], False)"

definition bios_requirement :: "dependency_target \<Rightarrow> dependency_outcome \<Rightarrow> dependency_requirement" where
  "bios_requirement target outcome =
     \<lparr> rq_kind = BiosDependency, rq_target = target, rq_outcome = outcome, rq_via_member = None \<rparr>"

definition variant_outcome :: "(string \<times> nat) list \<Rightarrow> string \<Rightarrow> dependency_outcome" where
  "variant_outcome declared variant =
     (case map_of declared variant of
        None \<Rightarrow> OutContradictory
      | Some n \<Rightarrow> if n = 1 then OutSatisfied else OutAmbiguous)"

definition bios_declaration_outcome :: "dependency_graph \<Rightarrow> nat \<Rightarrow> dependency_outcome" where
  "bios_declaration_outcome gr i =
     (let game = graph_game gr i; (declared, malformed) = biosset_declarations game in
      if malformed \<or> list_ex (\<lambda>(name, n). n > 1) declared then OutContradictory
      else worst_outcome
             (concat (map (\<lambda>(key, rom).
                 case declared_name (dr_bios rom) of
                   NameAbsent \<Rightarrow> []
                 | NameMalformed \<Rightarrow> [OutContradictory]
                 | Named variant \<Rightarrow> [variant_outcome declared variant])
               (declared_roms i game))))"

section \<open>Samples and CHD parents of a set\<close>

definition sample_requirement :: "dependency_target \<Rightarrow> dependency_outcome \<Rightarrow> string option \<Rightarrow> dependency_requirement" where
  "sample_requirement target outcome via =
     \<lparr> rq_kind = SampleDependency, rq_target = target, rq_outcome = outcome, rq_via_member = via \<rparr>"

definition resolve_samples :: "dependency_graph \<Rightarrow> nat \<Rightarrow> dependency_requirement list" where
  "resolve_samples gr i =
     (let game = graph_game gr i in
      (case declared_name (dg_sample_of game) of
         Named name \<Rightarrow> [sample_requirement (SampleSet name) OutUnsupported None]
       | NameMalformed \<Rightarrow> [sample_requirement Undeclared OutContradictory None]
       | NameAbsent \<Rightarrow> []) @
      map (\<lambda>s. case declared_name (dsm_name s) of
             Named name \<Rightarrow> sample_requirement (SampleSet name) OutUnsupported (dsm_name s)
           | _ \<Rightarrow> sample_requirement Undeclared OutContradictory (dsm_name s)) (dg_samples game))"

definition chd_parent_requirement ::
    "collection_evidence \<Rightarrow> dat_disk_key \<times> dat_disk_entry \<Rightarrow> dependency_requirement option" where
  "chd_parent_requirement ev kd =
     (case kd of (key, disk) \<Rightarrow>
       if key \<notin> ev_verified_disks ev then None
       else map_option (\<lambda>outcome.
           \<lparr> rq_kind = ChdParent,
             rq_target = (case Option.bind (ev_verified_disk_parent ev key) id of
                            Some p \<Rightarrow> ChdIdentity p | None \<Rightarrow> Undeclared),
             rq_outcome = outcome, rq_via_member = dd_name disk \<rparr>)
         (chd_parent_outcome ev key))"

definition resolve_chd_parents ::
    "dependency_graph \<Rightarrow> collection_evidence \<Rightarrow> nat \<Rightarrow> dependency_requirement list" where
  "resolve_chd_parents gr ev i =
     List.map_filter (chd_parent_requirement ev) (declared_disks i (graph_game gr i))"

section \<open>The storage of a target set\<close>

text \<open>What one declared member of a target contributes; \<open>seen\<close> is the path down to the target.\<close>

definition borrowed_storage ::
    "dependency_graph \<Rightarrow> nat \<Rightarrow> string option \<Rightarrow> (nat \<Rightarrow> string \<Rightarrow> dependency_outcome) \<Rightarrow> dependency_outcome" where
  "borrowed_storage gr i merge_field follow =
     (case declared_name merge_field of
        Named name \<Rightarrow> (case next_provider gr i of Inl outcome \<Rightarrow> outcome | Inr provider \<Rightarrow> follow provider name)
      | _ \<Rightarrow> OutContradictory)"

definition rom_storage ::
    "dependency_graph \<Rightarrow> collection_evidence \<Rightarrow> nat \<Rightarrow> nat list \<Rightarrow> dat_member_key \<times> dat_rom_entry \<Rightarrow>
     dependency_outcome list" where
  "rom_storage gr ev i seen kr =
     (case kr of (key, rom) \<Rightarrow>
       (case classify_rom_member rom of
          PhysicalRequired \<Rightarrow> [member_outcome gr ev i key]
        | Borrowed \<Rightarrow>
            [borrowed_storage gr i (dr_merge rom) (\<lambda>provider name. follow_rom_merge gr ev provider name rom seen)]
        | OptionalPhysical \<Rightarrow> []
        | NonFile \<Rightarrow> []
        | _ \<Rightarrow> [OutUnsupported]))"

definition disk_storage ::
    "dependency_graph \<Rightarrow> collection_evidence \<Rightarrow> nat \<Rightarrow> nat list \<Rightarrow> dat_disk_key \<times> dat_disk_entry \<Rightarrow>
     dependency_outcome list" where
  "disk_storage gr ev i seen kd =
     (case kd of (key, disk) \<Rightarrow>
       (case classify_disk_member disk of
          PhysicalRequired \<Rightarrow> [disk_outcome gr ev i key]
        | Borrowed \<Rightarrow>
            [borrowed_storage gr i (dd_merge disk) (\<lambda>provider name. follow_disk_merge gr ev provider name disk seen)]
        | OptionalPhysical \<Rightarrow> []
        | NonFile \<Rightarrow> []
        | _ \<Rightarrow> [OutUnsupported]))"

text \<open>Everything a target contributes apart from its devices, in the order of the source.\<close>

definition own_storage ::
    "dependency_graph \<Rightarrow> collection_evidence \<Rightarrow> nat \<Rightarrow> nat list \<Rightarrow> dependency_outcome list" where
  "own_storage gr ev i seen =
     (let game = graph_game gr i in
      concat (map (rom_storage gr ev i seen) (declared_roms i game)) @
      concat (map (disk_storage gr ev i seen) (declared_disks i game)) @
      map rq_outcome (resolve_chd_parents gr ev i) @
      [bios_declaration_outcome gr i] @
      map rq_outcome (resolve_samples gr i))"

text \<open>\<open>device_outcome\<close> before the storage: \<open>None\<close> when the node is confirmed to be a device.\<close>

definition device_gate :: "dat_game_entry \<Rightarrow> dependency_outcome option" where
  "device_gate node =
     (case parse_flag (dg_is_device node) of
        FlagYes \<Rightarrow>
          (case parse_flag (dg_runnable node) of
             FlagNo \<Rightarrow> None
           | FlagAbsent \<Rightarrow> None
           | _ \<Rightarrow> Some OutContradictory)
      | FlagNo \<Rightarrow> Some OutContradictory
      | FlagMalformed \<Rightarrow> Some OutContradictory
      | FlagAbsent \<Rightarrow> Some OutUnsupported)"

text \<open>The device a reference names, or the verdict when it names none.\<close>

definition device_target :: "dependency_graph \<Rightarrow> nat \<Rightarrow> dat_device_ref_entry \<Rightarrow> dependency_outcome + nat" where
  "device_target gr i device_ref =
     (case declared_name (dv_name device_ref) of
        Named name \<Rightarrow>
          if name = trim (dg_name (graph_game gr i)) then Inl OutContradictory
          else (case resolve_set gr name of
                  SetUnique device \<Rightarrow> Inr device
                | SetDuplicate \<Rightarrow> Inl OutAmbiguous
                | SetAbsent \<Rightarrow> Inl OutContradictory)
      | _ \<Rightarrow> Inl OutContradictory)"

definition tainted :: "dependency_graph \<Rightarrow> collection_evidence \<Rightarrow> nat \<Rightarrow> bool" where
  "tainted gr ev i \<longleftrightarrow>
     (let name = trim (dg_name (graph_game gr i)); flags = flags_of ev name
      in sf_duplicate_evidence flags \<or> sf_ambiguous flags \<or> name \<in> ev_disk_tainted_sets ev)"

function set_storage_outcome ::
    "dependency_graph \<Rightarrow> collection_evidence \<Rightarrow> nat \<Rightarrow> nat list \<Rightarrow> dependency_outcome" where
  "set_storage_outcome gr ev i seen =
     (case visit i seen of
        Inl fault \<Rightarrow> fault_outcome fault
      | Inr seen' \<Rightarrow>
          if dg_unsupported_structure (graph_game gr i) then OutUnsupported
          else if tainted gr ev i then OutAmbiguous
          else worst_outcome
                 (own_storage gr ev i seen' @
                  map (\<lambda>device_ref.
                      case device_target gr i device_ref of
                        Inl outcome \<Rightarrow> outcome
                      | Inr device \<Rightarrow>
                          (case device_gate (graph_game gr device) of
                             Some outcome \<Rightarrow> outcome
                           | None \<Rightarrow> set_storage_outcome gr ev device seen'))
                    (dg_device_refs (graph_game gr i))))"
  by pat_completeness auto
termination
  by (relation "measure (\<lambda>(gr, ev, i, seen). room seen)") (auto dest: visit_room)

declare set_storage_outcome.simps [simp del]

definition device_outcome ::
    "dependency_graph \<Rightarrow> collection_evidence \<Rightarrow> nat \<Rightarrow> nat list \<Rightarrow> dependency_outcome" where
  "device_outcome gr ev device seen =
     (case device_gate (graph_game gr device) of
        Some outcome \<Rightarrow> outcome
      | None \<Rightarrow> set_storage_outcome gr ev device seen)"

definition resolve_devices ::
    "dependency_graph \<Rightarrow> collection_evidence \<Rightarrow> nat \<Rightarrow> dependency_requirement list" where
  "resolve_devices gr ev i =
     map (\<lambda>device_ref.
         \<lparr> rq_kind = DeviceDependency,
           rq_target = (case declared_name (dv_name device_ref) of Named name \<Rightarrow> SetTarget name | _ \<Rightarrow> Undeclared),
           rq_outcome = (case device_target gr i device_ref of
                           Inl outcome \<Rightarrow> outcome
                         | Inr device \<Rightarrow> device_outcome gr ev device [i]),
           rq_via_member = None \<rparr>)
       (dg_device_refs (graph_game gr i))"

section \<open>BIOS of a set\<close>

function resolve_bios_root ::
    "dependency_graph \<Rightarrow> collection_evidence \<Rightarrow> nat \<Rightarrow> nat \<Rightarrow> nat list \<Rightarrow> dependency_requirement option" where
  "resolve_bios_root gr ev subject current seen =
     (case borrow_provider gr current of
        None \<Rightarrow> None
      | Some declared \<Rightarrow>
          (case declared_name declared of
             NameMalformed \<Rightarrow> Some (bios_requirement Undeclared OutContradictory)
           | NameAbsent \<Rightarrow> None
           | Named name \<Rightarrow>
               (case resolve_set gr name of
                  SetDuplicate \<Rightarrow> Some (bios_requirement (SetTarget name) OutAmbiguous)
                | SetAbsent \<Rightarrow> Some (bios_requirement (SetTarget name) OutContradictory)
                | SetUnique i \<Rightarrow>
                    (case visit i seen of
                       Inl fault \<Rightarrow> Some (bios_requirement (SetTarget name) (fault_outcome fault))
                     | Inr seen' \<Rightarrow>
                         if dg_unsupported_structure (graph_game gr i)
                         then Some (bios_requirement (SetTarget name) OutUnsupported)
                         else (case parse_flag (dg_is_bios (graph_game gr i)) of
                                 FlagYes \<Rightarrow>
                                   Some (bios_requirement (SetTarget name) (set_storage_outcome gr ev i [subject]))
                               | FlagMalformed \<Rightarrow> Some (bios_requirement (SetTarget name) OutContradictory)
                               | _ \<Rightarrow> resolve_bios_root gr ev subject i seen')))))"
  by pat_completeness auto
termination
  by (relation "measure (\<lambda>(gr, ev, subject, current, seen). room seen)") (auto dest: visit_room)

declare resolve_bios_root.simps [simp del]

definition resolve_bios ::
    "dependency_graph \<Rightarrow> collection_evidence \<Rightarrow> nat \<Rightarrow> dependency_requirement list" where
  "resolve_bios gr ev i =
     (let game = graph_game gr i;
          (declared, malformed) = biosset_declarations game;
          roms = map snd (declared_roms i game);
          referenced = fold (\<lambda>rom acc. case declared_name (dr_bios rom) of Named v \<Rightarrow> set_insert v acc | _ \<Rightarrow> acc) roms []
      in (if malformed then [bios_requirement Undeclared OutContradictory] else []) @
         concat (map (\<lambda>rom.
             if declared_name (dr_bios rom) = NameMalformed
             then [\<lparr> rq_kind = BiosDependency, rq_target = Undeclared, rq_outcome = OutContradictory,
                     rq_via_member = Some (dr_name rom) \<rparr>]
             else []) roms) @
         map (\<lambda>variant. bios_requirement (BiosSet (dg_name game) variant) (variant_outcome declared variant)) referenced @
         (case resolve_bios_root gr ev i i [i] of None \<Rightarrow> [] | Some r \<Rightarrow> [r]))"

section \<open>The requirements of a set, and the collection\<close>

definition requirements_for ::
    "dependency_graph \<Rightarrow> collection_evidence \<Rightarrow> nat \<Rightarrow> dependency_requirement list" where
  "requirements_for gr ev i =
     (let game = graph_game gr i in
      set_reference gr i ParentSet (dg_clone_of game) dg_clone_of @
      set_reference gr i RomSource (dg_rom_of game) dg_rom_of @
      map (\<lambda>(key, rom). resolve_merged_rom gr ev i rom)
        (filter (\<lambda>(key, rom). classify_rom_member rom = Borrowed) (declared_roms i game)) @
      map (\<lambda>(key, disk). resolve_merged_disk gr ev i disk)
        (filter (\<lambda>(key, disk). classify_disk_member disk = Borrowed) (declared_disks i game)) @
      resolve_bios gr ev i @
      resolve_devices gr ev i @
      resolve_samples gr i @
      resolve_chd_parents gr ev i)"

definition dependency_report :: "dependency_graph \<Rightarrow> collection_evidence \<Rightarrow> string \<Rightarrow> set_dependency_report" where
  "dependency_report gr ev name =
     (case resolve_set gr name of
        SetUnique i \<Rightarrow> from_requirements (requirements_for gr ev i)
      | _ \<Rightarrow> not_evaluated)"

text \<open>The loop over the resolutions, with one report per set name.\<close>

fun resolve_loop ::
    "dependency_graph \<Rightarrow> collection_evidence \<Rightarrow> (string \<rightharpoonup> set_dependency_report) \<Rightarrow> set_resolution list \<Rightarrow>
     set_resolution list" where
  "resolve_loop gr ev cache [] = []"
| "resolve_loop gr ev cache (r # rs) =
     (let name = si_game_name (sr_identity r);
          (report, cache') =
            (case cache name of
               Some cached \<Rightarrow> (cached, cache)
             | None \<Rightarrow> (let built = dependency_report gr ev name in (built, cache(name \<mapsto> built))))
      in r\<lparr>sr_state := apply_dependency_state (sr_state r) (dr_state report), sr_dependencies := report\<rparr> #
         resolve_loop gr ev cache' rs)"

definition resolve_collection ::
    "set_resolution list \<Rightarrow> dat_game_entry list \<Rightarrow> collection_evidence \<Rightarrow> set_resolution list" where
  "resolve_collection resolutions games ev = resolve_loop (build_graph games) ev Map.empty resolutions"

end
