(* ===== verification/DepProofs.thy ===== *)
theory DepProofs
  imports DepResolve
begin

text \<open>
  What dependency resolution guarantees: partial scans only weaken absences, a satisfied
  borrow ends at verified content, a satisfied device or BIOS has its whole closure verified,
  and the report of a collection is the report of each of its sets.
\<close>

section \<open>Partial scans\<close>

definition with_scan :: "bool \<Rightarrow> collection_evidence \<Rightarrow> collection_evidence" where
  "with_scan b ev = ev\<lparr>ev_scan_complete := b\<rparr>"

text \<open>What an outcome of a complete scan becomes when the scan was partial.\<close>

definition unobserved :: "dependency_outcome \<Rightarrow> dependency_outcome" where
  "unobserved outcome = (if outcome = OutMissing then OutEvidenceUnavailable else outcome)"

lemma unobserved_simps [simp]:
  "unobserved OutSatisfied = OutSatisfied" "unobserved OutMissing = OutEvidenceUnavailable"
  "unobserved OutAmbiguous = OutAmbiguous" "unobserved OutCycle = OutCycle"
  "unobserved OutContradictory = OutContradictory" "unobserved OutUnsupported = OutUnsupported"
  by (simp_all add: unobserved_def)

lemma unobserved_Satisfied [simp]: "unobserved x = OutSatisfied \<longleftrightarrow> x = OutSatisfied"
  by (simp add: unobserved_def)

lemma unobserved_fault [simp]: "unobserved (fault_outcome f) = fault_outcome f"
  by (cases f) simp_all

lemma unobserved_combine: "unobserved (combine_worst a b) = combine_worst (unobserved a) (unobserved b)"
  by (cases a; cases b) (simp_all add: combine_worst_def unobserved_def)

lemma foldl_unobserved:
  "unobserved (foldl combine_worst a os) = foldl combine_worst (unobserved a) (map unobserved os)"
  by (induction os arbitrary: a) (simp_all add: unobserved_combine)

lemma unobserved_worst: "unobserved (worst_outcome os) = worst_outcome (map unobserved os)"
  by (simp add: worst_outcome_def foldl_unobserved)

lemma with_scan_simps [simp]:
  "ev_verified_members (with_scan b ev) = ev_verified_members ev"
  "ev_set_flags (with_scan b ev) = ev_set_flags ev"
  "ev_verified_disks (with_scan b ev) = ev_verified_disks ev"
  "ev_verified_disk_identity (with_scan b ev) = ev_verified_disk_identity ev"
  "ev_verified_disk_parent (with_scan b ev) = ev_verified_disk_parent ev"
  "ev_disk_tainted_sets (with_scan b ev) = ev_disk_tainted_sets ev"
  "ev_chd_identities (with_scan b ev) = ev_chd_identities ev"
  "ev_scan_complete (with_scan b ev) = b"
  "flags_of (with_scan b ev) = flags_of ev"
  "tainted gr (with_scan b ev) = tainted gr ev"
  by (simp_all add: with_scan_def flags_of_def tainted_def fun_eq_iff)

lemma absent_scan [simp]: "absent_outcome (with_scan False ev) = unobserved (absent_outcome (with_scan True ev))"
  by (simp add: absent_outcome_def)

lemma follow_chd_scan:
  "follow_chd_parents (with_scan False ev) wanted seen =
   unobserved (follow_chd_parents (with_scan True ev) wanted seen)"
proof (induction "with_scan True ev" wanted seen rule: follow_chd_parents.induct)
  case (1 wanted seen)
  show ?case
    unfolding follow_chd_parents.simps [of "with_scan False ev" wanted seen]
      follow_chd_parents.simps [of "with_scan True ev" wanted seen]
    using 1 by (auto split: sum.splits option.splits list.splits parent_fact.splits)
qed

lemma chd_parent_scan:
  "chd_parent_outcome (with_scan False ev) key =
   map_option unobserved (chd_parent_outcome (with_scan True ev) key)"
proof (cases "ev_verified_disk_parent ev key")
  case (Some declared)
  then show ?thesis
    by (simp add: chd_parent_outcome_def follow_chd_scan split: option.split)
qed (simp add: chd_parent_outcome_def)

lemma member_scan: "member_outcome gr (with_scan False ev) i key = unobserved (member_outcome gr (with_scan True ev) i key)"
  by (simp add: member_outcome_def Let_def)

lemma disk_scan: "disk_outcome gr (with_scan False ev) i key = unobserved (disk_outcome gr (with_scan True ev) i key)"
  by (simp add: disk_outcome_def chd_parent_scan split: option.splits)

text \<open>A walk whose final verdict is mapped by \<open>unobserved\<close> is mapped as a whole.\<close>

lemma next_provider_unobserved:
  "next_provider gr i = Inl outcome \<Longrightarrow> unobserved outcome = outcome"
  by (auto simp: next_provider_def split: option.splits name_decl.splits set_ref.splits)

lemma follow_merge_scan:
  "follow_merge gr (ops\<lparr>bo_outcome := \<lambda>i k. unobserved (bo_outcome ops i k)\<rparr>) provider wanted borrower seen =
   unobserved (follow_merge gr ops provider wanted borrower seen)"
proof (induction gr ops provider wanted borrower seen rule: follow_merge.induct)
  case (1 gr ops provider wanted borrower seen)
  show ?case
    unfolding follow_merge.simps [of gr "ops\<lparr>bo_outcome := \<lambda>i k. unobserved (bo_outcome ops i k)\<rparr>"
        provider wanted borrower seen]
      follow_merge.simps [of gr ops provider wanted borrower seen]
    using 1 next_provider_unobserved
    by (auto split: sum.splits member_ref.splits name_decl.splits)
qed

lemma rom_merge_scan:
  "follow_rom_merge gr (with_scan False ev) p w b seen = unobserved (follow_rom_merge gr (with_scan True ev) p w b seen)"
proof -
  have "rom_ops gr (with_scan False ev) =
      (rom_ops gr (with_scan True ev))
        \<lparr>bo_outcome := \<lambda>i k. unobserved (bo_outcome (rom_ops gr (with_scan True ev)) i k)\<rparr>"
    by (simp add: rom_ops_def member_scan fun_eq_iff)
  then show ?thesis unfolding follow_rom_merge_def using follow_merge_scan by metis
qed

lemma disk_merge_scan:
  "follow_disk_merge gr (with_scan False ev) p w b seen = unobserved (follow_disk_merge gr (with_scan True ev) p w b seen)"
proof -
  have "disk_ops gr (with_scan False ev) =
      (disk_ops gr (with_scan True ev))
        \<lparr>bo_outcome := \<lambda>i k. unobserved (bo_outcome (disk_ops gr (with_scan True ev)) i k)\<rparr>"
    by (simp add: disk_ops_def disk_scan fun_eq_iff)
  then show ?thesis unfolding follow_disk_merge_def using follow_merge_scan by metis
qed

lemmas scan_leaves = member_scan disk_scan rom_merge_scan disk_merge_scan

lemma borrowed_storage_scan:
  "(\<And>p n. follow' p n = unobserved (follow p n)) \<Longrightarrow>
   borrowed_storage gr i m follow' = unobserved (borrowed_storage gr i m follow)"
  using next_provider_unobserved
  by (auto simp: borrowed_storage_def split: name_decl.splits sum.splits)

lemma rom_storage_scan:
  "rom_storage gr (with_scan False ev) i seen kr = map unobserved (rom_storage gr (with_scan True ev) i seen kr)"
  by (auto simp: rom_storage_def scan_leaves intro!: borrowed_storage_scan split: prod.splits member_class.splits)

lemma disk_storage_scan:
  "disk_storage gr (with_scan False ev) i seen kd = map unobserved (disk_storage gr (with_scan True ev) i seen kd)"
  by (auto simp: disk_storage_def scan_leaves intro!: borrowed_storage_scan split: prod.splits member_class.splits)

definition weaken :: "dependency_requirement \<Rightarrow> dependency_requirement" where
  "weaken r = r\<lparr>rq_outcome := unobserved (rq_outcome r)\<rparr>"

lemma chd_requirement_scan:
  "chd_parent_requirement (with_scan False ev) kd = map_option weaken (chd_parent_requirement (with_scan True ev) kd)"
  by (auto simp: chd_parent_requirement_def chd_parent_scan weaken_def option.map_comp comp_def split: prod.splits)

lemma map_filter_map_option: "List.map_filter (\<lambda>x. map_option f (g x)) xs = map f (List.map_filter g xs)"
  by (induction xs) (simp_all add: map_filter_simps split: option.splits)

lemma resolve_chd_scan:
  "resolve_chd_parents gr (with_scan False ev) i = map weaken (resolve_chd_parents gr (with_scan True ev) i)"
proof -
  have "chd_parent_requirement (with_scan False ev) =
      (\<lambda>kd. map_option weaken (chd_parent_requirement (with_scan True ev) kd))"
    by (rule ext) (rule chd_requirement_scan)
  then show ?thesis by (simp only: resolve_chd_parents_def map_filter_map_option)
qed

lemma variant_unobserved: "unobserved (variant_outcome d v) = variant_outcome d v"
  by (simp add: variant_outcome_def split: option.splits)

definition bios_references :: "(string \<times> nat) list \<Rightarrow> 'k \<times> dat_rom_entry \<Rightarrow> dependency_outcome list" where
  "bios_references declared kr =
     (case declared_name (dr_bios (snd kr)) of
        NameAbsent \<Rightarrow> []
      | NameMalformed \<Rightarrow> [OutContradictory]
      | Named variant \<Rightarrow> [variant_outcome declared variant])"

lemma bios_declaration_unobserved: "unobserved (bios_declaration_outcome gr i) = bios_declaration_outcome gr i"
proof -
  obtain d m where d: "biosset_declarations (graph_game gr i) = (d, m)"
    by (cases "biosset_declarations (graph_game gr i)")
  have eq: "bios_declaration_outcome gr i =
      (if m \<or> list_ex (\<lambda>(name, n). n > 1) d then OutContradictory
       else worst_outcome (concat (map (bios_references d) (declared_roms i (graph_game gr i)))))"
    unfolding bios_declaration_outcome_def Let_def d prod.case bios_references_def [abs_def]
    by (simp only: case_prod_unfold)
  have "map unobserved (bios_references d kr) = bios_references d kr" for kr :: "dat_member_key \<times> dat_rom_entry"
    by (simp add: bios_references_def variant_unobserved split: name_decl.split)
  then show ?thesis by (simp add: eq unobserved_worst map_concat comp_def)
qed

lemma samples_unobserved: "map weaken (resolve_samples gr i) = resolve_samples gr i"
  by (auto simp: resolve_samples_def Let_def weaken_def sample_requirement_def split: name_decl.splits)

lemma weaken_outcomes: "map rq_outcome (map weaken rs) = map unobserved (map rq_outcome rs)"
  by (simp add: weaken_def)

lemma own_storage_scan:
  "own_storage gr (with_scan False ev) i seen = map unobserved (own_storage gr (with_scan True ev) i seen)"
proof -
  have roms: "concat (map (rom_storage gr (with_scan False ev) i seen) xs) =
      map unobserved (concat (map (rom_storage gr (with_scan True ev) i seen) xs))" for xs
    by (induction xs) (simp_all add: rom_storage_scan)
  have disks: "concat (map (disk_storage gr (with_scan False ev) i seen) xs) =
      map unobserved (concat (map (disk_storage gr (with_scan True ev) i seen) xs))" for xs
    by (induction xs) (simp_all add: disk_storage_scan)
  have bios: "map unobserved [bios_declaration_outcome gr i] = [bios_declaration_outcome gr i]"
    by (simp add: bios_declaration_unobserved)
  have samples: "map unobserved (map rq_outcome (resolve_samples gr i)) = map rq_outcome (resolve_samples gr i)"
    using arg_cong [OF samples_unobserved, of "map rq_outcome" gr i] by (simp only: weaken_outcomes)
  show ?thesis
    by (simp only: own_storage_def Let_def roms disks resolve_chd_scan weaken_outcomes map_append bios samples)
qed

lemma device_gate_unobserved: "device_gate g = Some outcome \<Longrightarrow> unobserved outcome = outcome"
  by (auto simp: device_gate_def split: flag.splits)

lemma device_target_unobserved: "device_target gr i d = Inl outcome \<Longrightarrow> unobserved outcome = outcome"
  by (auto simp: device_target_def split: name_decl.splits set_ref.splits if_splits)

lemma set_storage_scan:
  "set_storage_outcome gr (with_scan False ev) i seen = unobserved (set_storage_outcome gr (with_scan True ev) i seen)"
proof (induction gr "with_scan True ev" i seen rule: set_storage_outcome.induct)
  case (1 gr i seen)
  show ?case
  proof (cases "visit i seen")
    case (Inl f)
    then show ?thesis by (simp add: set_storage_outcome.simps [of gr _ i])
  next
    case (Inr seen')
    let ?dev = "\<lambda>ev d. case device_target gr i d of Inl outcome \<Rightarrow> outcome
        | Inr device \<Rightarrow> (case device_gate (graph_game gr device) of Some outcome \<Rightarrow> outcome
             | None \<Rightarrow> set_storage_outcome gr ev device seen')"
    let ?ds = "dg_device_refs (graph_game gr i)"
    show ?thesis
    proof (cases "dg_unsupported_structure (graph_game gr i) \<or> tainted gr ev i")
      case True
      then show ?thesis using Inr by (auto simp: set_storage_outcome.simps [of gr _ i])
    next
      case False
      have "?dev (with_scan False ev) d = unobserved (?dev (with_scan True ev) d)" if "d \<in> set ?ds" for d
        using 1 [OF Inr _ _ that] False device_target_unobserved device_gate_unobserved
        by (auto split: sum.splits option.splits)
      then have "map (?dev (with_scan False ev)) ?ds = map unobserved (map (?dev (with_scan True ev)) ?ds)"
        by simp
      moreover have "dg_unsupported_structure (graph_game gr i) = False" "tainted gr ev i = False"
        using False by auto
      ultimately show ?thesis
        by (simp only: set_storage_outcome.simps [of gr _ i] Inr sum.case with_scan_simps if_False
            unobserved_worst map_append own_storage_scan)
    qed
  qed
qed

lemma req_weaken: "weaken \<lparr> rq_kind = k, rq_target = t, rq_outcome = x, rq_via_member = v \<rparr> =
    \<lparr> rq_kind = k, rq_target = t, rq_outcome = unobserved x, rq_via_member = v \<rparr>"
  by (simp add: weaken_def)

lemma walk_unobserved: "unobserved (walk_set_chain gr chain i seen) = walk_set_chain gr chain i seen"
proof (induction gr chain i seen rule: walk_set_chain.induct)
  case (1 gr chain i seen)
  then show ?case
    unfolding walk_set_chain.simps [of gr chain i seen]
    by (auto split: sum.split name_decl.split set_ref.split)
qed

lemma set_reference_unobserved: "map weaken (set_reference gr i k d chain) = set_reference gr i k d chain"
  by (simp add: set_reference_def Let_def req_weaken walk_unobserved split: name_decl.split set_ref.split)

lemma resolve_borrow_scan:
  assumes "\<And>p s. follow' p s = unobserved (follow p s)"
  shows "resolve_borrow gr i n follow' = map_prod id unobserved (resolve_borrow gr i n follow)"
  by (simp add: resolve_borrow_def assms split: option.split name_decl.split set_ref.split)

lemma merged_requirement_scan:
  assumes "\<And>n. borrow' n = map_prod id unobserved (borrow n)"
  shows "merged_requirement k m borrow' v = weaken (merged_requirement k m borrow v)"
  by (simp add: merged_requirement_def assms req_weaken map_prod_def split: name_decl.split prod.split)

lemma merged_rom_scan:
  "resolve_merged_rom gr (with_scan False ev) i rom = weaken (resolve_merged_rom gr (with_scan True ev) i rom)"
  unfolding resolve_merged_rom_def
  by (rule merged_requirement_scan, rule resolve_borrow_scan, rule rom_merge_scan)

lemma merged_disk_scan:
  "resolve_merged_disk gr (with_scan False ev) i disk = weaken (resolve_merged_disk gr (with_scan True ev) i disk)"
  unfolding resolve_merged_disk_def
  by (rule merged_requirement_scan, rule resolve_borrow_scan, rule disk_merge_scan)

lemma devices_scan:
  "resolve_devices gr (with_scan False ev) i = map weaken (resolve_devices gr (with_scan True ev) i)"
  using device_target_unobserved device_gate_unobserved
  by (auto simp: resolve_devices_def req_weaken device_outcome_def set_storage_scan split: sum.split option.split)

lemma bios_root_scan:
  "resolve_bios_root gr (with_scan False ev) subject current seen =
   map_option weaken (resolve_bios_root gr (with_scan True ev) subject current seen)"
proof (induction gr "with_scan True ev" subject current seen rule: resolve_bios_root.induct)
  case (1 gr subject current seen)
  then show ?case
    unfolding resolve_bios_root.simps [of gr "with_scan False ev" subject current seen]
      resolve_bios_root.simps [of gr "with_scan True ev" subject current seen]
    by (auto simp: bios_requirement_def req_weaken set_storage_scan
        split: option.split name_decl.split set_ref.split sum.split flag.split)
qed

lemma bios_scan: "resolve_bios gr (with_scan False ev) i = map weaken (resolve_bios gr (with_scan True ev) i)"
proof -
  have bad: "map weaken (concat (map (\<lambda>rom. if declared_name (dr_bios rom) = NameMalformed
        then [\<lparr> rq_kind = BiosDependency, rq_target = Undeclared, rq_outcome = OutContradictory,
                rq_via_member = Some (dr_name rom) \<rparr>] else []) roms)) =
      concat (map (\<lambda>rom. if declared_name (dr_bios rom) = NameMalformed
        then [\<lparr> rq_kind = BiosDependency, rq_target = Undeclared, rq_outcome = OutContradictory,
                rq_via_member = Some (dr_name rom) \<rparr>] else []) roms)" for roms :: "dat_rom_entry list"
    by (induction roms) (simp_all add: req_weaken)
  have variants: "map weaken (map (\<lambda>v. bios_requirement (t v) (variant_outcome d v)) vs) =
      map (\<lambda>v. bios_requirement (t v) (variant_outcome d v)) vs" for t d vs
    by (simp add: bios_requirement_def req_weaken variant_unobserved)
  have root: "map weaken (case r of None \<Rightarrow> [] | Some x \<Rightarrow> [x]) = (case map_option weaken r of None \<Rightarrow> [] | Some x \<Rightarrow> [x])" for r
    by (cases r) simp_all
  obtain d m where d: "biosset_declarations (graph_game gr i) = (d, m)"
    by (cases "biosset_declarations (graph_game gr i)")
  have head: "map weaken (if m then [bios_requirement Undeclared OutContradictory] else []) =
      (if m then [bios_requirement Undeclared OutContradictory] else [])"
    by (simp add: bios_requirement_def req_weaken)
  show ?thesis
    by (simp only: resolve_bios_def Let_def d prod.case map_append bad variants root head bios_root_scan)
qed

text \<open>
  C21: When the scan was partial, the requirements of every set are those of a complete scan with
  the same evidence, except that what would be missing is reported as unavailable: a partial
  scan never turns anything into a verified, an ambiguous or a contradictory verdict, and never
  reports a missing dependency.
\<close>

theorem partial_scan_only_weakens:
  "requirements_for gr (with_scan False ev) i = map weaken (requirements_for gr (with_scan True ev) i) \<and>
   list_all (\<lambda>r. rq_outcome r \<noteq> OutMissing) (requirements_for gr (with_scan False ev) i)"
proof -
  have eq: "requirements_for gr (with_scan False ev) i = map weaken (requirements_for gr (with_scan True ev) i)"
    by (simp add: requirements_for_def Let_def set_reference_unobserved merged_rom_scan merged_disk_scan
        bios_scan devices_scan samples_unobserved resolve_chd_scan comp_def case_prod_unfold)
  have "rq_outcome (weaken r) \<noteq> OutMissing" for r
    by (cases "rq_outcome r") (simp_all add: weaken_def unobserved_def)
  then have "list_all (\<lambda>r. rq_outcome r \<noteq> OutMissing) (map weaken rs)" for rs
    by (induction rs) simp_all
  then show ?thesis unfolding eq by blast
qed

end
