(* ===== verification/DatScan.thy ===== *)
theory DatScan
  imports RenamePlan
begin

text \<open>
  The walk of an audit run, \<open>scan_local_files\<close> of \<open>dat/sources/audit_run.rs\<close>: breadth first,
  bounded in depth, files and entries, over what \<open>read_dir\<close> returns. The callback that shows
  progress reads the state and changes nothing; it is left out.
\<close>

section \<open>The walk\<close>

definition max_scan_depth :: nat where "max_scan_depth = 8"
definition max_scan_files :: nat where "max_scan_files = 25000"
definition max_scan_entries_examined :: nat where "max_scan_entries_examined = 200000"

datatype dat_audit_error =
  DatPathRefused string | ScanPathRefused string | NoCatalogue string | NothingToAudit string | AuditCancelled

text \<open>
  What the file system answers: \<open>read_dir\<close> fails or yields items, an item is an error or a name
  with its file type, which may fail too. \<open>le_cancel n\<close> is what the nth read of the flag returns.
\<close>

datatype entry_type = EntryDir | EntryFile | EntrySymlink | EntryOther
datatype dir_item = ItemError | DirItem string "entry_type option"

record listing_env =
  le_absolute :: "path \<Rightarrow> bool"
  le_root_is_dir :: "path \<Rightarrow> string + bool"
  le_read_dir :: "path \<Rightarrow> dir_item list option"
  le_cancel :: "nat \<Rightarrow> bool"

record local_scan =
  sc_files :: "path list"
  sc_truncated :: bool
  sc_complete :: bool

record scan_state = local_scan +
  sc_examined :: nat

definition empty_scan :: scan_state where
  "empty_scan = \<lparr> sc_files = [], sc_truncated = False, sc_complete = True, sc_examined = 0 \<rparr>"

text \<open>The loop over one directory: the children to descend into, and the state.\<close>

fun scan_items :: "nat \<Rightarrow> path \<Rightarrow> dir_item list \<Rightarrow> path list \<Rightarrow> scan_state \<Rightarrow> path list \<times> scan_state" where
  "scan_items depth directory [] children st = (children, st)"
| "scan_items depth directory (ItemError # items) children st =
     scan_items depth directory items children (st\<lparr>sc_complete := False\<rparr>)"
| "scan_items depth directory (DirItem name ty # items) children st =
     (let st1 = st\<lparr>sc_examined := sc_examined st + 1\<rparr>; p = directory @ [name] in
      if sc_examined st1 > max_scan_entries_examined then (children, st1\<lparr>sc_truncated := True\<rparr>)
      else (case ty of
              None \<Rightarrow> scan_items depth directory items children (st1\<lparr>sc_complete := False\<rparr>)
            | Some EntryDir \<Rightarrow>
                if depth < max_scan_depth then scan_items depth directory items (children @ [p]) st1
                else scan_items depth directory items children (st1\<lparr>sc_truncated := True\<rparr>)
            | Some EntryOther \<Rightarrow> scan_items depth directory items children st1
            | Some _ \<Rightarrow>
                if length (sc_files st1) \<ge> max_scan_files
                then scan_items depth directory items children (st1\<lparr>sc_truncated := True\<rparr>)
                else scan_items depth directory items children (st1\<lparr>sc_files := sc_files st1 @ [p]\<rparr>)))"

lemma scan_items_deep:
  "depth \<ge> max_scan_depth \<Longrightarrow> fst (scan_items depth directory items children st) = children"
  by (induction depth directory items children st rule: scan_items.induct)
    (auto simp: Let_def split: option.split entry_type.split)

text \<open>
  Each directory at depth \<open>d\<close> is replaced by finitely many at depth \<open>d + 1\<close>, and none below the
  deepest: the multiset of remaining depths decreases.
\<close>

definition queue_rank :: "(path \<times> nat) list \<Rightarrow> nat multiset" where
  "queue_rank queue = mset (map (\<lambda>(p, depth). max_scan_depth - depth) queue)"

lemma queue_rank_children:
  assumes "children \<noteq> [] \<Longrightarrow> depth < max_scan_depth"
  shows "(queue_rank (queue @ map (\<lambda>c. (c, depth + 1)) children), queue_rank ((directory, depth) # queue))
    \<in> mult less_than"
proof -
  have kids: "queue_rank (map (\<lambda>c. (c, depth + 1)) children) =
      mset (map (\<lambda>c. max_scan_depth - (depth + 1)) children)"
    by (simp add: queue_rank_def comp_def)
  have "\<forall>k \<in># queue_rank (map (\<lambda>c. (c, depth + 1)) children). k < max_scan_depth - depth"
    using assms unfolding kids by (cases children) auto
  then have "(queue_rank queue + queue_rank (map (\<lambda>c. (c, depth + 1)) children),
      queue_rank queue + {#max_scan_depth - depth#}) \<in> mult less_than"
    by (intro one_step_implies_mult) auto
  then show ?thesis by (simp add: queue_rank_def)
qed

function scan_loop ::
    "listing_env \<Rightarrow> (path \<Rightarrow> bool) \<Rightarrow> nat \<Rightarrow> (path \<times> nat) list \<Rightarrow> scan_state \<Rightarrow>
     (dat_audit_error + local_scan) \<times> nat" where
  "scan_loop env inject n [] st = (Inr (local_scan.truncate st), n)"
| "scan_loop env inject n ((directory, depth) # queue) st =
     (if le_cancel env n then (Inl AuditCancelled, n + 1)
      else if inject directory then scan_loop env inject (n + 1) queue (st\<lparr>sc_complete := False\<rparr>)
      else (case le_read_dir env directory of
              None \<Rightarrow> scan_loop env inject (n + 1) queue (st\<lparr>sc_complete := False\<rparr>)
            | Some items \<Rightarrow>
                (let (children, st1) = scan_items depth directory items [] st;
                     queue1 = queue @ map (\<lambda>c. (c, depth + 1)) (sort_by cmp_path children)
                 in if sc_truncated st1 \<and> length (sc_files st1) \<ge> max_scan_files
                    then (Inr (local_scan.truncate st1), n + 1)
                    else scan_loop env inject (n + 1) queue1 st1)))"
  by pat_completeness auto

termination
proof (relation "inv_image (mult less_than) (\<lambda>(env, inject, n, queue, st). queue_rank queue)", goal_cases)
  case 1
  show ?case by (rule wf_inv_image) (rule wf_mult [OF wf_less_than])
next
  case (2 env inject n directory depth queue st)
  then show ?case using queue_rank_children [of "[]" depth queue directory] by simp
next
  case (3 env inject n directory depth queue st)
  then show ?case using queue_rank_children [of "[]" depth queue directory] by simp
next
  case (4 env inject n directory depth queue st items x children st1 queue1)
  have "depth < max_scan_depth" if "sort_by cmp_path children \<noteq> []"
  proof (rule ccontr)
    assume "\<not> depth < max_scan_depth"
    then have "children = []" using 4 scan_items_deep [of depth directory items "[]" st] by (metis fst_conv not_le)
    then show False using that by (simp add: sort_by_def)
  qed
  then show ?case using 4 queue_rank_children [of "sort_by cmp_path children" depth queue directory] by simp
qed

declare scan_loop.simps(2) [simp del]

definition scan_local_files_impl ::
    "listing_env \<Rightarrow> (path \<Rightarrow> bool) \<Rightarrow> path \<Rightarrow> nat \<Rightarrow> (dat_audit_error + local_scan) \<times> nat" where
  "scan_local_files_impl env inject root n =
     (if \<not> le_absolute env root then (Inl (ScanPathRefused ''the folder path is not absolute''), n)
      else (case le_root_is_dir env root of
              Inl err \<Rightarrow> (Inl (ScanPathRefused (path_text root @ '': '' @ err)), n)
            | Inr folder \<Rightarrow>
                if \<not> folder then (Inl (ScanPathRefused (path_text root @ '' is not a folder'')), n)
                else (case scan_loop env inject n [(root, 0)] empty_scan of
                        (Inl err, m) \<Rightarrow> (Inl err, m)
                      | (Inr scan, m) \<Rightarrow> (Inr (scan\<lparr>sc_files := sort_by cmp_path (sc_files scan)\<rparr>), m))))"

definition scan_local_files :: "listing_env \<Rightarrow> path \<Rightarrow> nat \<Rightarrow> (dat_audit_error + local_scan) \<times> nat" where
  "scan_local_files env root n = scan_local_files_impl env (\<lambda>_. False) root n"

section \<open>What the walk has seen\<close>

definition subdir :: "listing_env \<Rightarrow> path \<Rightarrow> path \<Rightarrow> bool" where
  "subdir env d d' \<longleftrightarrow>
     (\<exists>items name. le_read_dir env d = Some items \<and> DirItem name (Some EntryDir) \<in> set items \<and> d' = d @ [name])"

definition file_in :: "listing_env \<Rightarrow> path \<Rightarrow> path \<Rightarrow> bool" where
  "file_in env d p \<longleftrightarrow>
     (\<exists>items name. le_read_dir env d = Some items \<and> p = d @ [name] \<and>
        (DirItem name (Some EntryFile) \<in> set items \<or> DirItem name (Some EntrySymlink) \<in> set items))"

text \<open>The files of a folder, at any depth, and those within the depth of the walk.\<close>

definition files_below :: "listing_env \<Rightarrow> path \<Rightarrow> path set" where
  "files_below env root = {p. \<exists>d. (subdir env)\<^sup>*\<^sup>* root d \<and> file_in env d p}"

definition files_within :: "listing_env \<Rightarrow> path \<Rightarrow> path set" where
  "files_within env root = {p. \<exists>d k. k \<le> max_scan_depth \<and> (subdir env ^^ k) root d \<and> file_in env d p}"

definition dirs_of_items :: "path \<Rightarrow> dir_item list \<Rightarrow> path set" where
  "dirs_of_items d items = {d @ [name] |name. DirItem name (Some EntryDir) \<in> set items}"

definition files_of_items :: "path \<Rightarrow> dir_item list \<Rightarrow> path set" where
  "files_of_items d items =
     {d @ [name] |name. DirItem name (Some EntryFile) \<in> set items \<or> DirItem name (Some EntrySymlink) \<in> set items}"

lemma items_simps [simp]:
  "dirs_of_items d [] = {}" "files_of_items d [] = {}"
  "dirs_of_items d (ItemError # items) = dirs_of_items d items"
  "files_of_items d (ItemError # items) = files_of_items d items"
  "dirs_of_items d (DirItem name ty # items) = (if ty = Some EntryDir then {d @ [name]} else {}) \<union> dirs_of_items d items"
  "files_of_items d (DirItem name ty # items) =
     (if ty = Some EntryFile \<or> ty = Some EntrySymlink then {d @ [name]} else {}) \<union> files_of_items d items"
  by (auto simp: dirs_of_items_def files_of_items_def)

lemma subdir_items: "le_read_dir env d = Some items \<Longrightarrow> subdir env d d' \<longleftrightarrow> d' \<in> dirs_of_items d items"
  by (auto simp: subdir_def dirs_of_items_def)

lemma file_in_items: "le_read_dir env d = Some items \<Longrightarrow> file_in env d p \<longleftrightarrow> p \<in> files_of_items d items"
  by (auto simp: file_in_def files_of_items_def)

text \<open>One directory: nothing is invented, and with neither flag set nothing is lost.\<close>

definition items_ok :: "nat \<Rightarrow> path \<Rightarrow> dir_item list \<Rightarrow> path list \<Rightarrow> scan_state \<Rightarrow> path list \<times> scan_state \<Rightarrow> bool" where
  "items_ok depth d items children st r \<longleftrightarrow>
     set (fst r) \<subseteq> set children \<union> dirs_of_items d items \<and>
     set (sc_files (snd r)) \<subseteq> set (sc_files st) \<union> files_of_items d items \<and>
     (length (sc_files st) \<le> max_scan_files \<longrightarrow> length (sc_files (snd r)) \<le> max_scan_files) \<and>
     (fst r = children \<or> depth < max_scan_depth) \<and>
     (\<not> sc_truncated (snd r) \<and> sc_complete (snd r) \<longrightarrow>
        \<not> sc_truncated st \<and> sc_complete st \<and>
        set (fst r) = set children \<union> dirs_of_items d items \<and>
        set (sc_files (snd r)) = set (sc_files st) \<union> files_of_items d items)"

lemma scan_items_ok: "items_ok depth d items children st (scan_items depth d items children st)"
proof (induction items arbitrary: children st)
  case Nil
  then show ?case by (simp add: items_ok_def)
next
  case (Cons item items)
  show ?case
  proof (cases item)
    case ItemError
    then show ?thesis
      using Cons [of children "st\<lparr>sc_complete := False\<rparr>"] by (auto simp: items_ok_def)
  next
    case (DirItem name ty)
    let ?st = "st\<lparr>sc_examined := sc_examined st + 1\<rparr>"
    show ?thesis
    proof (cases "sc_examined st + 1 > max_scan_entries_examined")
      case True
      then show ?thesis using DirItem by (simp add: items_ok_def)
    next
      case room: False
      consider (untyped) "ty = None" | (folder) "ty = Some EntryDir" | (other) "ty = Some EntryOther"
        | (plain) "ty = Some EntryFile \<or> ty = Some EntrySymlink"
        by (cases ty; cases "the ty") auto
      then show ?thesis
      proof cases
        case untyped
        then show ?thesis
          using Cons [of children "?st\<lparr>sc_complete := False\<rparr>"] room DirItem by (auto simp: items_ok_def)
      next
        case folder
        show ?thesis
        proof (cases "depth < max_scan_depth")
          case True
          then show ?thesis
            using Cons [of "children @ [d @ [name]]" ?st] room DirItem folder by (simp add: items_ok_def)
        next
          case False
          then show ?thesis
            using Cons [of children "?st\<lparr>sc_truncated := True\<rparr>"] room DirItem folder by (simp add: items_ok_def) auto
        qed
      next
        case other
        then show ?thesis using Cons [of children ?st] room DirItem by (simp add: items_ok_def)
      next
        case plain
        show ?thesis
        proof (cases "length (sc_files st) \<ge> max_scan_files")
          case True
          then have "scan_items depth d (item # items) children st =
              scan_items depth d items children (?st\<lparr>sc_truncated := True\<rparr>)"
            using plain room DirItem by (auto simp: Let_def)
          then show ?thesis
            using Cons [of children "?st\<lparr>sc_truncated := True\<rparr>"] DirItem plain by (auto simp: items_ok_def)
        next
          case False
          then have "scan_items depth d (item # items) children st =
              scan_items depth d items children (?st\<lparr>sc_files := sc_files st @ [d @ [name]]\<rparr>)"
            using plain room DirItem by (auto simp: Let_def)
          then show ?thesis
            using Cons [of children "?st\<lparr>sc_files := sc_files st @ [d @ [name]]\<rparr>"] DirItem plain False
            by (simp add: items_ok_def) auto
        qed
      qed
    qed
  qed
qed

lemma scan_loop_sound:
  assumes "scan_loop env inject n queue st = (Inr scan, m)"
    and "\<forall>(d, k) \<in> set queue. k \<le> max_scan_depth \<and> (subdir env ^^ k) root d"
    and "set (sc_files st) \<subseteq> files_within env root" and "length (sc_files st) \<le> max_scan_files"
  shows "set (sc_files scan) \<subseteq> files_within env root \<and> length (sc_files scan) \<le> max_scan_files"
  using assms
proof (induction env inject n queue st rule: scan_loop.induct)
  case (1 env inject n st)
  then show ?case by (auto simp: local_scan.defs)
next
  case (2 env inject n d k queue st)
  have eq: "scan_loop env inject n ((d, k) # queue) st = (Inr scan, m)" by (rule 2)
  have go: "\<not> le_cancel env n" using eq by (auto simp: scan_loop.simps(2) [of env inject n d k])
  show ?case
  proof (cases "inject d \<or> le_read_dir env d = None")
    case True
    then show ?thesis
      using 2 go eq by (cases "inject d") (simp_all add: scan_loop.simps(2) [of env inject n d k])
  next
    case False
    then obtain items where items: "\<not> inject d" "le_read_dir env d = Some items" by auto
    obtain children st1 where one: "scan_items k d items [] st = (children, st1)"
      by (cases "scan_items k d items [] st") simp
    note sound = scan_items_ok [of k d items "[]" st, unfolded one items_ok_def fst_conv snd_conv]
    have here: "k \<le> max_scan_depth" "(subdir env ^^ k) root d" using "2.prems"(2) by auto
    have here_files: "files_of_items d items \<subseteq> files_within env root"
      using here file_in_items [OF items(2)] by (auto simp: files_within_def)
    have files: "set (sc_files st1) \<subseteq> files_within env root" "length (sc_files st1) \<le> max_scan_files"
      using sound "2.prems"(3,4) here_files by auto
    have kids: "\<forall>(c, j) \<in> set (map (\<lambda>c. (c, k + 1)) (sort_by cmp_path children)).
        j \<le> max_scan_depth \<and> (subdir env ^^ j) root c"
      using sound here subdir_items [OF items(2)] by auto
    show ?thesis
    proof (cases "sc_truncated st1 \<and> length (sc_files st1) \<ge> max_scan_files")
      case True
      then show ?thesis
        using eq go items one files by (auto simp: scan_loop.simps(2) [of env inject n d k] local_scan.defs)
    next
      case False
      then have "scan_loop env inject (n + 1) (queue @ map (\<lambda>c. (c, k + 1)) (sort_by cmp_path children)) st1 = (Inr scan, m)"
        using eq by (simp only: scan_loop.simps(2) [of env inject n d k] go items one if_False option.case
            Let_def prod.case if_not_P [OF False])
      from "2.IH"(3) [OF go items one [symmetric] refl refl False this] show ?thesis
        using kids files "2.prems"(2) by (simp only: set_append ball_Un set_simps list.set_intros) auto
    qed
  qed
qed

text \<open>A walk that claims to be whole has seen every folder below those in the queue.\<close>

lemma scan_loop_complete:
  assumes "scan_loop env inject n queue st = (Inr scan, m)"
    and "\<not> sc_truncated scan" and "sc_complete scan"
  shows "\<not> sc_truncated st \<and> sc_complete st \<and> set (sc_files st) \<subseteq> set (sc_files scan) \<and>
    (\<forall>d \<in> fst ` set queue. \<forall>d'. (subdir env)\<^sup>*\<^sup>* d d' \<longrightarrow> Collect (file_in env d') \<subseteq> set (sc_files scan))"
  using assms
proof (induction env inject n queue st rule: scan_loop.induct)
  case (1 env inject n st)
  then show ?case by (auto simp: local_scan.defs)
next
  case (2 env inject n d k queue st)
  have eq: "scan_loop env inject n ((d, k) # queue) st = (Inr scan, m)" by (rule 2)
  have go: "\<not> le_cancel env n" using eq by (auto simp: scan_loop.simps(2) [of env inject n d k])
  have seen: "\<not> inject d" "le_read_dir env d \<noteq> None"
  proof -
    show "\<not> inject d"
    proof
      assume *: "inject d"
      then have "scan_loop env inject (n + 1) queue (st\<lparr>sc_complete := False\<rparr>) = (Inr scan, m)"
        using eq go by (simp add: scan_loop.simps(2) [of env inject n d k])
      from "2.IH"(1) [OF go * this] "2.prems"(2,3) show False by simp
    qed
    show "le_read_dir env d \<noteq> None"
    proof
      assume *: "le_read_dir env d = None"
      then have "scan_loop env inject (n + 1) queue (st\<lparr>sc_complete := False\<rparr>) = (Inr scan, m)"
        using eq go \<open>\<not> inject d\<close> by (simp add: scan_loop.simps(2) [of env inject n d k])
      from "2.IH"(2) [OF go \<open>\<not> inject d\<close> * this] "2.prems"(2,3) show False by simp
    qed
  qed
  then obtain items where items: "\<not> inject d" "le_read_dir env d = Some items" by auto
  obtain children st1 where one: "scan_items k d items [] st = (children, st1)"
    by (cases "scan_items k d items [] st") simp
  note ok = scan_items_ok [of k d items "[]" st, unfolded one items_ok_def fst_conv snd_conv]
  show ?case
  proof (cases "sc_truncated st1 \<and> length (sc_files st1) \<ge> max_scan_files")
    case True
    then have "scan = local_scan.truncate st1"
      using eq go items one by (simp add: scan_loop.simps(2) [of env inject n d k])
    then show ?thesis using True "2.prems"(2) by (simp add: local_scan.defs)
  next
    case False
    then have "scan_loop env inject (n + 1) (queue @ map (\<lambda>c. (c, k + 1)) (sort_by cmp_path children)) st1 = (Inr scan, m)"
      using eq by (simp only: scan_loop.simps(2) [of env inject n d k] go items one if_False option.case
          Let_def prod.case if_not_P [OF False])
    note IH = "2.IH"(3) [OF go items one [symmetric] refl refl False this "2.prems"(2,3)]
    have flags: "\<not> sc_truncated st1 \<and> sc_complete st1" using IH by simp
    then have st: "\<not> sc_truncated st \<and> sc_complete st" "set children = dirs_of_items d items"
        "set (sc_files st1) = set (sc_files st) \<union> files_of_items d items"
      using ok by auto
    have "c \<in> fst ` set (queue @ map (\<lambda>c. (c, k + 1)) (sort_by cmp_path children))" if "subdir env d c" for c
      using st(2) that subdir_items [OF items(2)] by force
    then have kids: "Collect (file_in env d') \<subseteq> set (sc_files scan)" if "subdir env d c" "(subdir env)\<^sup>*\<^sup>* c d'" for c d'
      using IH that by blast
    have here: "Collect (file_in env d) \<subseteq> set (sc_files scan)"
      using IH st(3) file_in_items [OF items(2)] by auto
    have "Collect (file_in env d') \<subseteq> set (sc_files scan)" if "(subdir env)\<^sup>*\<^sup>* d d'" for d'
      using that here kids by (cases rule: converse_rtranclpE) auto
    moreover have "\<forall>e \<in> fst ` set queue. \<forall>d'. (subdir env)\<^sup>*\<^sup>* e d' \<longrightarrow> Collect (file_in env d') \<subseteq> set (sc_files scan)"
      using IH by auto
    ultimately show ?thesis using st IH by auto
  qed
qed

lemma scan_exact:
  assumes "scan_local_files env root n = (Inr scan, m)"
  shows "set (sc_files scan) \<subseteq> files_within env root \<and> length (sc_files scan) \<le> max_scan_files \<and>
         sorted_wrt (\<lambda>p q. cmp_path p q \<noteq> Greater) (sc_files scan) \<and>
         (sc_truncated scan \<or> \<not> sc_complete scan \<or> set (sc_files scan) = files_below env root)"
proof -
  obtain scan0 where loop: "scan_loop env (\<lambda>_. False) n [(root, 0)] empty_scan = (Inr scan0, m)"
      and scan: "scan = scan0\<lparr>sc_files := sort_by cmp_path (sc_files scan0)\<rparr>"
    using assms by (auto simp: scan_local_files_def scan_local_files_impl_def split: if_splits sum.splits prod.splits)
  have "set (sc_files scan0) \<subseteq> files_within env root \<and> length (sc_files scan0) \<le> max_scan_files"
    by (rule scan_loop_sound [OF loop]) (simp_all add: empty_scan_def)
  moreover have "files_within env root \<subseteq> files_below env root"
    by (auto simp: files_within_def files_below_def intro: relpowp_imp_rtranclp)
  moreover have "files_below env root \<subseteq> set (sc_files scan0)" if "\<not> sc_truncated scan0" "sc_complete scan0"
    using scan_loop_complete [OF loop that] by (auto simp: files_below_def)
  moreover have "paths.sorted_cmp (sc_files scan)"
    unfolding scan by simp (rule paths.sorted_sort_by)
  ultimately show ?thesis unfolding scan by auto
qed

lemma scan_files_within: "scan_local_files env root n = (Inr scan, m) \<Longrightarrow> set (sc_files scan) \<subseteq> files_within env root"
  using scan_exact by blast

text \<open>
  C16: The walk terminates on every tree, and what it reports is exact. It reports only files of
  the folder, none deeper than the limit and at most as many as allowed, in path order; and a
  walk that reports neither a ceiling nor a read failure has seen every file below the folder,
  at whatever depth.
\<close>

theorem scan_sees_everything:
  assumes "scan_local_files env root n = (Inr scan, m)"
  shows "set (sc_files scan) \<subseteq> files_within env root \<and> length (sc_files scan) \<le> max_scan_files \<and>
         sorted_wrt (\<lambda>p q. cmp_path p q \<noteq> Greater) (sc_files scan) \<and>
         (sc_truncated scan \<or> \<not> sc_complete scan \<or> set (sc_files scan) = files_below env root)"
  by (rule scan_exact [OF assms])

end
