(* ===== verification/IdentityModel.thy ===== *)
theory IdentityModel
  imports Text
begin

text \<open>
  The model of external identities: \<open>identity_source/model.rs\<close>. A local path is a list of
  components; signed times are \<open>int\<close>, sizes \<open>nat\<close>.
\<close>

section \<open>Providers and published hashes\<close>

datatype identity_provider = Romm

primrec identity_provider_label :: "identity_provider \<Rightarrow> string" where
  "identity_provider_label Romm = ''RomM''"

primrec identity_provider_slug :: "identity_provider \<Rightarrow> string" where
  "identity_provider_slug Romm = ''romm''"

datatype external_algorithm = ExtCrc32 | ExtMd5 | ExtSha1

primrec external_algorithm_label :: "external_algorithm \<Rightarrow> string" where
  "external_algorithm_label ExtCrc32 = ''CRC32''"
| "external_algorithm_label ExtMd5 = ''MD5''"
| "external_algorithm_label ExtSha1 = ''SHA-1''"

primrec external_hex_length :: "external_algorithm \<Rightarrow> nat" where
  "external_hex_length ExtCrc32 = 8"
| "external_hex_length ExtMd5 = 32"
| "external_hex_length ExtSha1 = 40"

text \<open>The derived order of \<open>HashAlgorithm\<close>, weakest first.\<close>

primrec external_algorithm_rank :: "external_algorithm \<Rightarrow> nat" where
  "external_algorithm_rank ExtCrc32 = 0"
| "external_algorithm_rank ExtMd5 = 1"
| "external_algorithm_rank ExtSha1 = 2"

record external_hash =
  eh_algorithm :: external_algorithm
  eh_value :: string

definition parse_external_hash :: "external_algorithm \<Rightarrow> string \<Rightarrow> external_hash option" where
  "parse_external_hash a v =
     (let trimmed = to_ascii_lowercase (trim v) in
      if utf8_len trimmed \<noteq> external_hex_length a \<or> \<not> list_all is_ascii_hexdigit trimmed then None
      else Some \<lparr> eh_algorithm = a, eh_value = trimmed \<rparr>)"

record metadata_provider_id =
  mi_provider :: string
  mi_id :: string

record artwork_reference =
  aw_reference :: string
  aw_small_reference :: "string option"

section \<open>Verification levels\<close>

datatype external_verification =
  VUnmatched | VStale | VAmbiguous | ProbableExternal | StrongExternal | ConfirmedExternal

primrec external_verification_label :: "external_verification \<Rightarrow> string" where
  "external_verification_label VUnmatched = ''Unmatched''"
| "external_verification_label VStale = ''Stale''"
| "external_verification_label VAmbiguous = ''Ambiguous''"
| "external_verification_label ProbableExternal = ''Probable (external)''"
| "external_verification_label StrongExternal = ''Strong (external)''"
| "external_verification_label ConfirmedExternal = ''Confirmed (external)''"

primrec external_verification_explanation :: "external_verification \<Rightarrow> string" where
  "external_verification_explanation VUnmatched =
     ''no local file matched this record's path, so nothing was compared''"
| "external_verification_explanation VStale =
     ''the file this record described is missing or has changed since it was imported''"
| "external_verification_explanation VAmbiguous =
     ''the external record disagrees with what EmuWiz determined locally, so neither '' @
     ''is treated as settled''"
| "external_verification_explanation ProbableExternal =
     ''the path, title and platform agree, but no hash was compared''"
| "external_verification_explanation StrongExternal = ''the path, file size and platform all agree''"
| "external_verification_explanation ConfirmedExternal =
     ''an external hash and a locally computed hash of the same algorithm agree''"

primrec is_usable :: "external_verification \<Rightarrow> bool" where
  "is_usable VUnmatched = False"
| "is_usable VStale = False"
| "is_usable VAmbiguous = False"
| "is_usable ProbableExternal = True"
| "is_usable StrongExternal = True"
| "is_usable ConfirmedExternal = True"

datatype local_evidence_strength = NoEvidence | WeakEvidence | VerifiedEvidence

primrec outranks :: "external_verification \<Rightarrow> local_evidence_strength \<Rightarrow> bool" where
  "outranks v NoEvidence = is_usable v"
| "outranks v WeakEvidence = (v = StrongExternal \<or> v = ConfirmedExternal)"
| "outranks v VerifiedEvidence = False"

section \<open>Conflicts and records\<close>

datatype conflict_field = PlatformField | HashField | FileSizeField | SignatureField | FileStateField

primrec conflict_field_label :: "conflict_field \<Rightarrow> string" where
  "conflict_field_label PlatformField = ''Platform''"
| "conflict_field_label HashField = ''Hash''"
| "conflict_field_label FileSizeField = ''File size''"
| "conflict_field_label SignatureField = ''Format signature''"
| "conflict_field_label FileStateField = ''File state''"

record identity_conflict =
  ic_field :: conflict_field
  ic_external :: string
  ic_local :: string
  ic_detail :: string

record external_record =
  er_provider :: identity_provider
  er_server_id :: string
  er_provider_platform_id :: "string option"
  er_provider_game_id :: string
  er_provider_file_id :: "string option"
  er_provider_path :: string
  er_archivefs_path :: "path option"
  er_title :: "string option"
  er_platform_candidate :: "string option"
  er_provider_platform_name :: "string option"
  er_regions :: "string list"
  er_revision :: "string option"
  er_hashes :: "external_hash list"
  er_file_size_bytes :: "nat option"
  er_metadata_provider_ids :: "metadata_provider_id list"
  er_artwork :: "artwork_reference option"
  er_related_files :: "string list"
  er_sibling_game_ids :: "string list"
  er_imported_at_unix_seconds :: int
  er_provider_updated_at :: "string option"
  er_verification :: external_verification
  er_conflicts :: "identity_conflict list"
  er_evidence :: "string list"

definition record_hash :: "external_record \<Rightarrow> external_algorithm \<Rightarrow> external_hash option" where
  "record_hash r a = find (\<lambda>h. eh_algorithm h = a) (er_hashes r)"

text \<open>\<open>max_by_key\<close> keeps the last of the greatest.\<close>

definition strongest_hash :: "external_record \<Rightarrow> external_hash option" where
  "strongest_hash r =
     fold (\<lambda>h best. (case best of
             None \<Rightarrow> Some h
           | Some b \<Rightarrow> if external_algorithm_rank (eh_algorithm h) \<ge> external_algorithm_rank (eh_algorithm b) then Some h else Some b))
       (er_hashes r) None"

definition has_conflicts :: "external_record \<Rightarrow> bool" where
  "has_conflicts r \<longleftrightarrow> er_conflicts r \<noteq> []"

definition record_summary :: "external_record \<Rightarrow> string" where
  "record_summary r =
     (case er_title r of None \<Rightarrow> ''(untitled)'' | Some t \<Rightarrow> t) @ '' - '' @
     (case er_platform_candidate r of
        Some p \<Rightarrow> p
      | None \<Rightarrow> (case er_provider_platform_name r of None \<Rightarrow> ''unknown platform'' | Some p \<Rightarrow> p)) @
     '' ('' @ external_verification_label (er_verification r) @ '')''"

section \<open>Counts\<close>

record import_counts =
  ct_total :: nat
  ct_confirmed :: nat
  ct_strong :: nat
  ct_probable :: nat
  ct_ambiguous :: nat
  ct_stale :: nat
  ct_unmatched :: nat
  ct_with_hashes :: nat
  ct_with_artwork :: nat
  ct_multi_file :: nat

definition no_counts :: import_counts where
  "no_counts = \<lparr> ct_total = 0, ct_confirmed = 0, ct_strong = 0, ct_probable = 0, ct_ambiguous = 0,
     ct_stale = 0, ct_unmatched = 0, ct_with_hashes = 0, ct_with_artwork = 0, ct_multi_file = 0 \<rparr>"

primrec count_level :: "external_verification \<Rightarrow> import_counts \<Rightarrow> import_counts" where
  "count_level ConfirmedExternal c = c\<lparr>ct_confirmed := Suc (ct_confirmed c)\<rparr>"
| "count_level StrongExternal c = c\<lparr>ct_strong := Suc (ct_strong c)\<rparr>"
| "count_level ProbableExternal c = c\<lparr>ct_probable := Suc (ct_probable c)\<rparr>"
| "count_level VAmbiguous c = c\<lparr>ct_ambiguous := Suc (ct_ambiguous c)\<rparr>"
| "count_level VStale c = c\<lparr>ct_stale := Suc (ct_stale c)\<rparr>"
| "count_level VUnmatched c = c\<lparr>ct_unmatched := Suc (ct_unmatched c)\<rparr>"

definition count_record :: "external_record \<Rightarrow> import_counts \<Rightarrow> import_counts" where
  "count_record r c =
     (let c1 = count_level (er_verification r) c;
          c2 = (if er_hashes r \<noteq> [] then c1\<lparr>ct_with_hashes := Suc (ct_with_hashes c1)\<rparr> else c1);
          c3 = (if er_artwork r \<noteq> None then c2\<lparr>ct_with_artwork := Suc (ct_with_artwork c2)\<rparr> else c2)
      in if er_related_files r \<noteq> [] then c3\<lparr>ct_multi_file := Suc (ct_multi_file c3)\<rparr> else c3)"

definition counts_of :: "external_record list \<Rightarrow> import_counts" where
  "counts_of rs = fold count_record rs (no_counts\<lparr>ct_total := length rs\<rparr>)"

definition usable_count :: "import_counts \<Rightarrow> nat" where
  "usable_count c = ct_confirmed c + ct_strong c + ct_probable c"

section \<open>Lemmas\<close>

lemma count_level_adds:
  "ct_confirmed (count_level v c) = ct_confirmed c + of_bool (v = ConfirmedExternal)"
  "ct_strong (count_level v c) = ct_strong c + of_bool (v = StrongExternal)"
  "ct_probable (count_level v c) = ct_probable c + of_bool (v = ProbableExternal)"
  "ct_ambiguous (count_level v c) = ct_ambiguous c + of_bool (v = VAmbiguous)"
  "ct_stale (count_level v c) = ct_stale c + of_bool (v = VStale)"
  "ct_unmatched (count_level v c) = ct_unmatched c + of_bool (v = VUnmatched)"
  "ct_total (count_level v c) = ct_total c"
  by (cases v; simp)+

lemma count_record_adds:
  "ct_confirmed (count_record r c) = ct_confirmed c + of_bool (er_verification r = ConfirmedExternal)"
  "ct_strong (count_record r c) = ct_strong c + of_bool (er_verification r = StrongExternal)"
  "ct_probable (count_record r c) = ct_probable c + of_bool (er_verification r = ProbableExternal)"
  "ct_ambiguous (count_record r c) = ct_ambiguous c + of_bool (er_verification r = VAmbiguous)"
  "ct_stale (count_record r c) = ct_stale c + of_bool (er_verification r = VStale)"
  "ct_unmatched (count_record r c) = ct_unmatched c + of_bool (er_verification r = VUnmatched)"
  "ct_total (count_record r c) = ct_total c"
  by (simp_all add: count_record_def Let_def count_level_adds)

definition levels_total :: "import_counts \<Rightarrow> nat" where
  "levels_total c =
     ct_confirmed c + ct_strong c + ct_probable c + ct_ambiguous c + ct_stale c + ct_unmatched c"

lemma fold_count_levels:
  "levels_total (fold count_record rs c) = levels_total c + length rs \<and>
    usable_count (fold count_record rs c) =
      usable_count c + length (filter (\<lambda>r. is_usable (er_verification r)) rs) \<and>
    ct_total (fold count_record rs c) = ct_total c"
proof (induction rs arbitrary: c)
  case Nil
  then show ?case by simp
next
  case (Cons r rs)
  show ?case
    using Cons.IH [of "count_record r c"]
    by (cases "er_verification r") (simp_all add: count_record_adds levels_total_def usable_count_def)
qed

text \<open>Every record is counted under exactly one level, and the usable ones are the usable levels.\<close>

lemma counts_partition:
  "ct_total (counts_of rs) = ct_confirmed (counts_of rs) + ct_strong (counts_of rs) +
     ct_probable (counts_of rs) + ct_ambiguous (counts_of rs) + ct_stale (counts_of rs) +
     ct_unmatched (counts_of rs)"
  "usable_count (counts_of rs) = length (filter (\<lambda>r. is_usable (er_verification r)) rs)"
  using fold_count_levels [of rs "no_counts\<lparr>ct_total := length rs\<rparr>"]
  by (simp_all add: counts_of_def no_counts_def usable_count_def levels_total_def)

lemma outranks_usable: "outranks v l \<Longrightarrow> is_usable v"
  by (cases l) auto

end
