(* ===== verification/FileHashing.thy ===== *)
theory FileHashing
  imports IdentityModel FileSystem "HOL-Library.Word"
begin

text \<open>
  Local hashing: \<open>identity_source/hashing.rs\<close>. The CRC-32 of the module is modelled bit by
  bit on 32-bit words; MD5 and SHA-1 are the digests of other crates and are parameters.
  A fingerprint is observed on the file system, a file is read in chunks, and the cache of
  computed hashes is a list of entries.

  The loop over the chunks has no bound of its own, so it is a partial function: a reader
  that never ends gives \<open>None\<close>.
\<close>

unbundle bit_operations_syntax

section \<open>Refusals\<close>

datatype hash_refusal =
  NotReadable string string | TooLarge nat nat | ChangedWhileReading | ReadFailed string | HashCancelled

primrec refusal_detail :: "hash_refusal \<Rightarrow> string" where
  "refusal_detail (NotReadable code detail) = detail"
| "refusal_detail (TooLarge bytes maximum) =
     ''that file is '' @ nat_to_string bytes @ '' bytes, above the '' @ nat_to_string maximum @
     ''-byte limit for automatic hashing; verify it explicitly if you want it hashed''"
| "refusal_detail ChangedWhileReading = ''the file changed while it was being read, so no hash is reported''"
| "refusal_detail (ReadFailed detail) = ''the file could not be read: '' @ detail"
| "refusal_detail HashCancelled = ''hashing was cancelled''"

primrec refusal_code :: "hash_refusal \<Rightarrow> string" where
  "refusal_code (NotReadable code detail) = code"
| "refusal_code (TooLarge bytes maximum) = ''too_large''"
| "refusal_code ChangedWhileReading = ''changed_while_reading''"
| "refusal_code (ReadFailed detail) = ''read_failed''"
| "refusal_code HashCancelled = ''cancelled''"

definition max_automatic_hash_bytes :: nat where
  "max_automatic_hash_bytes = 8 * 1024 * 1024 * 1024"

section \<open>CRC-32\<close>

definition crc_new :: "32 word" where
  "crc_new = NOT 0"

definition crc_bit :: "32 word \<Rightarrow> 32 word" where
  "crc_bit s = (let mask = - (s AND 1) in drop_bit 1 s XOR (0xEDB88320 AND mask))"

definition crc_byte :: "32 word \<Rightarrow> 8 word \<Rightarrow> 32 word" where
  "crc_byte s b = (crc_bit ^^ 8) (s XOR ucast b)"

definition crc_update :: "32 word \<Rightarrow> 8 word list \<Rightarrow> 32 word" where
  "crc_update s bs = foldl crc_byte s bs"

definition crc_finish :: "32 word \<Rightarrow> 32 word" where
  "crc_finish s = NOT s"

text \<open>The format \<open>{:08x}\<close>.\<close>

definition hex_u32 :: "32 word \<Rightarrow> string" where
  "hex_u32 w = map (\<lambda>i. hex_digit (unat (drop_bit (4 * i) w AND 15))) [7, 6, 5, 4, 3, 2, 1, 0]"

definition crc_finish_hex :: "32 word \<Rightarrow> string" where
  "crc_finish_hex s = hex_u32 (crc_finish s)"

definition crc_of :: "8 word list \<Rightarrow> string" where
  "crc_of bs = crc_finish_hex (crc_update crc_new bs)"

definition hex_bytes :: "8 word list \<Rightarrow> string" where
  "hex_bytes bs = concat (map (\<lambda>b. [hex_digit (unat b div 16), hex_digit (unat b mod 16)]) bs)"

section \<open>Fingerprints\<close>

record file_fingerprint =
  fp_path :: path
  fp_size_bytes :: nat
  fp_modified_unix_seconds :: "int option"

text \<open>A symbolic link is followed; anything but a regular file has no fingerprint.\<close>

definition observe_fingerprint :: "fs \<Rightarrow> path \<Rightarrow> file_fingerprint option" where
  "observe_fingerprint f p =
     (case symlink_metadata f p of
        None \<Rightarrow> None
      | Some n \<Rightarrow>
          (case (case n_kind n of LinkNode t \<Rightarrow> metadata f p | _ \<Rightarrow> Some n) of
             None \<Rightarrow> None
           | Some m \<Rightarrow>
               if n_kind m \<noteq> FileNode then None
               else Some \<lparr> fp_path = p, fp_size_bytes = n_size m,
                           fp_modified_unix_seconds = (if n_mtime m < 0 then None else Some (n_mtime m)) \<rparr>))"

definition still_current :: "fs \<Rightarrow> file_fingerprint \<Rightarrow> bool" where
  "still_current f fp \<longleftrightarrow> observe_fingerprint f (fp_path fp) = Some fp"

record local_hashes =
  lh_fingerprint :: file_fingerprint
  lh_crc32 :: string
  lh_md5 :: string
  lh_sha1 :: string
  lh_bytes_hashed :: nat

primrec hashes_value :: "external_algorithm \<Rightarrow> local_hashes \<Rightarrow> string" where
  "hashes_value ExtCrc32 h = lh_crc32 h"
| "hashes_value ExtMd5 h = lh_md5 h"
| "hashes_value ExtSha1 h = lh_sha1 h"

definition agrees_with :: "local_hashes \<Rightarrow> external_hash \<Rightarrow> bool" where
  "agrees_with h published \<longleftrightarrow> hashes_value (eh_algorithm published) h = eh_value published"

section \<open>The cache\<close>

type_synonym hash_cache = "local_hashes list"

definition cache_get :: "fs \<Rightarrow> hash_cache \<Rightarrow> path \<Rightarrow> local_hashes option" where
  "cache_get f c p =
     (case observe_fingerprint f p of
        None \<Rightarrow> None
      | Some current \<Rightarrow> find (\<lambda>h. lh_fingerprint h = current) c)"

definition has_entry_for :: "hash_cache \<Rightarrow> path \<Rightarrow> bool" where
  "has_entry_for c p \<longleftrightarrow> list_ex (\<lambda>h. fp_path (lh_fingerprint h) = p) c"

definition cache_insert :: "local_hashes \<Rightarrow> hash_cache \<Rightarrow> hash_cache" where
  "cache_insert h c = filter (\<lambda>g. fp_path (lh_fingerprint g) \<noteq> fp_path (lh_fingerprint h)) c @ [h]"

definition cache_prune :: "fs \<Rightarrow> hash_cache \<Rightarrow> nat \<times> hash_cache" where
  "cache_prune f c =
     (let kept = filter (\<lambda>h. still_current f (lh_fingerprint h)) c in (length c - length kept, kept))"

section \<open>Hashing a file\<close>

text \<open>
  What happens while a file is hashed: the file system before and after, whether opening
  it is refused, what each read returns (no bytes at the end), what each check of the flag
  answers, and the two digests.
\<close>

record hash_env =
  he_before :: fs
  he_after :: fs
  he_open :: "path \<Rightarrow> (string \<times> string) option"
  he_read :: "nat \<Rightarrow> string + 8 word list"
  he_cancel :: "nat \<Rightarrow> bool"
  he_md5 :: "8 word list \<Rightarrow> 8 word list"
  he_sha1 :: "8 word list \<Rightarrow> 8 word list"

record hash_state =
  hs_crc :: "32 word"
  hs_fed :: "8 word list"
  hs_bytes :: nat

definition saturating_add_u64 :: "nat \<Rightarrow> nat \<Rightarrow> nat" where
  "saturating_add_u64 a b = min (2 ^ 64 - 1) (a + b)"

definition feed :: "8 word list \<Rightarrow> hash_state \<Rightarrow> hash_state" where
  "feed chunk s =
     \<lparr> hs_crc = crc_update (hs_crc s) chunk, hs_fed = hs_fed s @ chunk,
       hs_bytes = saturating_add_u64 (hs_bytes s) (length chunk) \<rparr>"

partial_function (option) hash_loop ::
    "hash_env \<Rightarrow> nat \<Rightarrow> hash_state \<Rightarrow> (hash_refusal + hash_state) option" where
  "hash_loop env k s =
     (if he_cancel env (Suc k) then Some (Inl HashCancelled)
      else (case he_read env k of
              Inl err \<Rightarrow> Some (Inl (ReadFailed err))
            | Inr chunk \<Rightarrow> if chunk = [] then Some (Inr s) else hash_loop env (Suc k) (feed chunk s)))"

definition finish_hash :: "hash_env \<Rightarrow> path \<Rightarrow> file_fingerprint \<Rightarrow> hash_state \<Rightarrow> hash_refusal + local_hashes" where
  "finish_hash env p before s =
     (case observe_fingerprint (he_after env) p of
        None \<Rightarrow> Inl ChangedWhileReading
      | Some after \<Rightarrow>
          if after \<noteq> before then Inl ChangedWhileReading
          else Inr \<lparr> lh_fingerprint = before, lh_crc32 = crc_finish_hex (hs_crc s),
                     lh_md5 = hex_bytes (he_md5 env (hs_fed s)),
                     lh_sha1 = hex_bytes (he_sha1 env (hs_fed s)),
                     lh_bytes_hashed = hs_bytes s \<rparr>)"

definition hash_file :: "hash_env \<Rightarrow> path \<Rightarrow> (hash_refusal + local_hashes) option" where
  "hash_file env p =
     (case observe_fingerprint (he_before env) p of
        None \<Rightarrow> Some (Inl (NotReadable ''unreadable'' (path_text p @ '' is not a readable regular file'')))
      | Some before \<Rightarrow>
          if fp_size_bytes before > max_automatic_hash_bytes
          then Some (Inl (TooLarge (fp_size_bytes before) max_automatic_hash_bytes))
          else if he_cancel env 0 then Some (Inl HashCancelled)
          else (case he_open env p of
                  Some (code, detail) \<Rightarrow> Some (Inl (NotReadable code detail))
                | None \<Rightarrow>
                    (case hash_loop env 0 \<lparr> hs_crc = crc_new, hs_fed = [], hs_bytes = 0 \<rparr> of
                       None \<Rightarrow> None
                     | Some (Inl refusal) \<Rightarrow> Some (Inl refusal)
                     | Some (Inr s) \<Rightarrow> Some (finish_hash env p before s))))"

definition hash_file_cached ::
    "hash_env \<Rightarrow> path \<Rightarrow> hash_cache \<Rightarrow> ((hash_refusal + local_hashes) \<times> hash_cache) option" where
  "hash_file_cached env p c =
     (case cache_get (he_before env) c p of
        Some h \<Rightarrow> Some (Inr h, c)
      | None \<Rightarrow>
          (case hash_file env p of
             None \<Rightarrow> None
           | Some (Inl refusal) \<Rightarrow> Some (Inl refusal, c)
           | Some (Inr h) \<Rightarrow> Some (Inr h, cache_insert h c)))"

end
