(* ===== verification/DatRun.thy ===== *)
theory DatRun
  imports DatScan DepResolve FileHashing
begin

text \<open>
  An audit run, \<open>dat/sources/audit_run.rs\<close>: read the catalogues of a source, walk the folder,
  hash what was found, compare, look into archives, classify sets, resolve dependencies and rank
  several candidates. What reads files is an argument: parsing a catalogue, hashing a file, opening
  a CHD, opening and verifying an archive, capturing an identity. Reads of the cancellation flag are
  numbered; callbacks that show progress change nothing and are left out.
\<close>

section \<open>Steps\<close>

type_synonym 'a step = "nat \<Rightarrow> (dat_audit_error + 'a) \<times> nat"

definition return :: "'a \<Rightarrow> 'a step" where
  "return x n = (Inr x, n)"

definition and_then :: "'a step \<Rightarrow> ('a \<Rightarrow> 'b step) \<Rightarrow> 'b step" where
  "and_then m k n = (case m n of (Inl err, n1) \<Rightarrow> (Inl err, n1) | (Inr x, n1) \<Rightarrow> k x n1)"

definition fail :: "dat_audit_error \<Rightarrow> 'a step" where
  "fail err n = (Inl err, n)"

text \<open>A loop over a list with an early return.\<close>

fun each :: "('a \<Rightarrow> 's \<Rightarrow> 's step) \<Rightarrow> 'a list \<Rightarrow> 's \<Rightarrow> 's step" where
  "each f [] s = return s"
| "each f (x # xs) s = and_then (f x s) (each f xs)"

section \<open>What a run reads\<close>

record file_hashes =
  fh_size_bytes :: nat
  fh_crc32 :: string
  fh_md5 :: string
  fh_sha1 :: string
  fh_bytes_hashed :: nat

datatype archive_source_error =
  SourceCancelled | SourceOpen string | SourceCorrupt string | SourceEncrypted
| SourceUnsupported string | SourceRefusedLimits string

record archive_source =
  as_format :: string
  as_verify_all :: "archive_run_budget \<Rightarrow> archive_pass_outcome \<times> archive_run_budget"

datatype dat_source_kind = SourceFile | SourceFolder

record run_env =
  re_listing :: listing_env
  re_validate :: "path \<Rightarrow> string option"
  re_discover :: "path \<Rightarrow> string + path list"
  re_parse :: "path \<Rightarrow> string + parsed_dat"
  re_hash :: "path \<Rightarrow> hash_refusal + file_hashes"
  re_open_chd :: "path \<Rightarrow> string + byte_reader"
  re_identity_before :: "path \<Rightarrow> object_identity option"
  re_identity_after :: "path \<Rightarrow> object_identity option"
  re_open_zip :: "path \<Rightarrow> archive_source_error + archive_source"
  re_open_7z :: "path \<Rightarrow> archive_source_error + archive_source"
  re_open_rar :: "path \<Rightarrow> archive_source_error + archive_source"
  re_rar_failure :: "string option"
  re_debug :: "archive_source_error \<Rightarrow> string"

record dat_audit_request =
  rq_source_id :: string
  rq_source_display_name :: string
  rq_dat_path :: path
  rq_dat_kind :: dat_source_kind
  rq_scan_root :: path
  rq_policy :: "effective_dat_policy option"
  rq_platform :: "string option"

definition cancelled :: "run_env \<Rightarrow> unit step" where
  "cancelled env n = (if le_cancel (re_listing env) n then (Inl AuditCancelled, n + 1) else (Inr (), n + 1))"

text \<open>Saturating 64-bit addition; \<open>usize\<close> is 64 bits.\<close>

definition saturating_add :: "nat \<Rightarrow> nat \<Rightarrow> nat" where
  "saturating_add a b = min (2 ^ 64 - 1) (a + b)"

definition file_name_of :: "path \<Rightarrow> string" where
  "file_name_of p = (case path_file_name p of Some name \<Rightarrow> name | None \<Rightarrow> path_text p)"

definition has_extension :: "string \<Rightarrow> path \<Rightarrow> bool" where
  "has_extension ext p = (case path_extension p of None \<Rightarrow> False | Some e \<Rightarrow> eq_ignore_ascii_case e ext)"

definition is_chd_path :: "path \<Rightarrow> bool" where "is_chd_path = has_extension ''chd''"
definition is_zip_path :: "path \<Rightarrow> bool" where "is_zip_path = has_extension ''zip''"
definition is_sevenz_path :: "path \<Rightarrow> bool" where "is_sevenz_path = has_extension ''7z''"
definition is_rar_path :: "path \<Rightarrow> bool" where "is_rar_path = has_extension ''rar''"

section \<open>Reading the catalogue\<close>

definition dat_files_of :: "run_env \<Rightarrow> dat_audit_request \<Rightarrow> path list step" where
  "dat_files_of env req =
     (case rq_dat_kind req of
        SourceFile \<Rightarrow>
          (case re_validate env (rq_dat_path req) of
             Some detail \<Rightarrow> fail (DatPathRefused detail)
           | None \<Rightarrow> return [rq_dat_path req])
      | SourceFolder \<Rightarrow>
          (case re_discover env (rq_dat_path req) of
             Inl detail \<Rightarrow> fail (DatPathRefused detail)
           | Inr files \<Rightarrow> return files))"

definition merge_catalogue :: "parsed_dat option \<Rightarrow> parsed_dat \<Rightarrow> parsed_dat" where
  "merge_catalogue merged parsed =
     (case merged of
        None \<Rightarrow> parsed
      | Some target \<Rightarrow>
          target\<lparr>pd_games := pd_games target @ pd_games parsed,
                 pd_source := (pd_source target)
                   \<lparr>ds_entry_count := saturating_add (ds_entry_count (pd_source target)) (ds_entry_count (pd_source parsed)),
                    ds_rom_count := saturating_add (ds_rom_count (pd_source target)) (ds_rom_count (pd_source parsed))\<rparr>\<rparr>)"

record catalogues =
  ct_names :: "string list"
  ct_unreadable :: "string list"
  ct_merged :: "parsed_dat option"

definition read_catalogue :: "run_env \<Rightarrow> path \<Rightarrow> catalogues \<Rightarrow> catalogues step" where
  "read_catalogue env p c =
     and_then (cancelled env) (\<lambda>_.
       return (case re_parse env p of
          Inr parsed \<Rightarrow>
            c\<lparr>ct_names := ct_names c @ [case ds_name (pd_source parsed) of Some name \<Rightarrow> name | None \<Rightarrow> file_name_of p],
              ct_merged := Some (merge_catalogue (ct_merged c) parsed)\<rparr>
        | Inl err \<Rightarrow> c\<lparr>ct_unreadable := ct_unreadable c @ [file_name_of p @ '': '' @ err]\<rparr>))"

definition read_catalogues :: "run_env \<Rightarrow> path list \<Rightarrow> (catalogues \<times> parsed_dat) step" where
  "read_catalogues env files =
     (if files = [] then fail (NoCatalogue ''the source contains no DAT files'')
      else and_then (each (read_catalogue env) files \<lparr> ct_names = [], ct_unreadable = [], ct_merged = None \<rparr>)
             (\<lambda>c. case ct_merged c of
                None \<Rightarrow> fail (NoCatalogue (join_with ''; '' (ct_unreadable c)))
              | Some catalogue \<Rightarrow> return (c, catalogue)))"

section \<open>Hashing loose files\<close>

record hashed_files =
  hf_known :: "known_file_evidence list"
  hf_unhashed :: "unhashed_file list"
  hf_bytes :: nat

definition hash_one :: "run_env \<Rightarrow> path \<Rightarrow> hashed_files \<Rightarrow> hashed_files step" where
  "hash_one env p h =
     and_then (cancelled env) (\<lambda>_.
       if is_chd_path p then return h
       else if is_rar_path p then return h
       else (let evidence = new_evidence p (file_name_of p) in
             case re_hash env p of
               Inr hashes \<Rightarrow>
                 return (h\<lparr>hf_bytes := saturating_add (hf_bytes h) (fh_bytes_hashed hashes),
                           hf_known := hf_known h @
                             [with_sha1 (fh_sha1 hashes) (with_md5 (fh_md5 hashes)
                               (with_crc32 (fh_crc32 hashes) (with_size (fh_size_bytes hashes) evidence)))]\<rparr>)
             | Inl HashCancelled \<Rightarrow> fail AuditCancelled
             | Inl refusal \<Rightarrow>
                 return (h\<lparr>hf_unhashed := hf_unhashed h @
                             [\<lparr> uf_path = p, uf_file_name = file_name_of p, uf_code = refusal_code refusal,
                                uf_detail = refusal_detail refusal \<rparr>],
                           hf_known := hf_known h @ [evidence]\<rparr>)))"

definition hash_files :: "run_env \<Rightarrow> path list \<Rightarrow> hashed_files step" where
  "hash_files env files = each (hash_one env) files \<lparr> hf_known = [], hf_unhashed = [], hf_bytes = 0 \<rparr>"

definition audit_disk_files :: "run_env \<Rightarrow> dat_disk_index \<Rightarrow> path list \<Rightarrow> dat_disk_audit list step" where
  "audit_disk_files env disk_index files =
     each (\<lambda>p audits. and_then (cancelled env) (\<lambda>_. return (audits @ [audit_chd_disk (re_open_chd env) p disk_index])))
       (filter is_chd_path files) []"

section \<open>The candidates of a verdict\<close>

definition lookup_by_length :: "dat_index \<Rightarrow> string \<Rightarrow> dat_rom_ref list" where
  "lookup_by_length index value =
     (if utf8_len value = 64 then lookup_sha256 index value
      else if utf8_len value = 40 then lookup_sha1 index value
      else if utf8_len value = 32 then lookup_md5 index value
      else [])"

fun first_candidates :: "dat_index \<Rightarrow> string option list \<Rightarrow> dat_rom_ref list" where
  "first_candidates index [] = []"
| "first_candidates index (None # values) = first_candidates index values"
| "first_candidates index (Some value # values) =
     (case lookup_by_length index value of [] \<Rightarrow> first_candidates index values | cs \<Rightarrow> cs)"

definition verified_candidate_refs :: "known_file_evidence \<Rightarrow> dat_index \<Rightarrow> dat_rom_ref list" where
  "verified_candidate_refs known index = first_candidates index [kf_sha256 known, kf_sha1 known, kf_md5 known]"

definition matched_refs_for_verdict :: "audit_verdict \<Rightarrow> known_file_evidence \<Rightarrow> dat_index \<Rightarrow> dat_rom_ref list" where
  "matched_refs_for_verdict verdict known index =
     (case verdict of
        Exact _ _ _ \<Rightarrow> verified_candidate_refs known index
      | ExactMultipleCandidates _ _ _ \<Rightarrow> verified_candidate_refs known index
      | _ \<Rightarrow> [])"

section \<open>Archives\<close>

text \<open>
  \<open>rar_provider\<close> is the result of the one probe for a RAR backend: not probed, capable, or the
  text of the failure.
\<close>

definition open_archive_source ::
    "run_env \<Rightarrow> path \<Rightarrow> string option option \<Rightarrow> archive_source_error + archive_source" where
  "open_archive_source env p rar_provider =
     (if is_zip_path p then re_open_zip env p
      else if is_sevenz_path p then re_open_7z env p
      else if is_rar_path p
      then (case rar_provider of
              Some None \<Rightarrow> re_open_rar env p
            | Some (Some err) \<Rightarrow> Inl (SourceUnsupported (''no capable RAR backend is available: '' @ err))
            | None \<Rightarrow> Inl (SourceUnsupported ''RAR backend was not probed for this run''))
      else Inl (SourceUnsupported ''unrecognised archive extension''))"

definition format_guess :: "path \<Rightarrow> string" where
  "format_guess p = (if is_zip_path p then ''zip'' else if is_sevenz_path p then ''7z'' else ''rar'')"

text \<open>One member: matched only when the outer file is stable and the hashes are there.\<close>

definition member_path :: "path \<Rightarrow> nat \<Rightarrow> path" where
  "member_path p index = (if p = [] then [''::#'' @ nat_to_string index]
     else butlast p @ [last p @ ''::#'' @ nat_to_string index])"

definition member_known :: "path \<Rightarrow> archive_member_evidence \<Rightarrow> archive_member_hashes \<Rightarrow> known_file_evidence" where
  "member_known p ev hashes =
     with_sha256 (mh_sha256 hashes) (with_sha1 (mh_sha1 hashes) (with_md5 (mh_md5 hashes)
       (with_crc32 (mh_crc32 hashes) (with_size (me_logical_size ev)
         (new_evidence (member_path p (me_index ev)) (me_member_name_display ev))))))"

definition audit_member ::
    "dat_index \<Rightarrow> path \<Rightarrow> bool \<Rightarrow> archive_member_evidence \<Rightarrow> dat_archive_member_audit list \<times> nat \<Rightarrow>
     dat_archive_member_audit list \<times> nat" where
  "audit_member index p outer_changed ev acc =
     (case (outer_changed, me_status ev, me_hashes ev) of
        (False, HashComplete, Some hashes) \<Rightarrow>
          (let known = member_known p ev hashes; verdict = audit_one known index
           in (fst acc @ [\<lparr> am_evidence = ev, am_verdict = Some verdict,
                            am_matched_refs = matched_refs_for_verdict verdict known index \<rparr>],
               saturating_add (snd acc) (me_logical_size ev)))
      | _ \<Rightarrow> (fst acc @ [\<lparr> am_evidence = ev, am_verdict = None, am_matched_refs = [] \<rparr>], snd acc))"

definition stable_identity :: "run_env \<Rightarrow> path \<Rightarrow> object_identity option" where
  "stable_identity env p =
     (case re_identity_before env p of
        None \<Rightarrow> None
      | Some earlier \<Rightarrow>
          (case re_identity_after env p of
             None \<Rightarrow> None
           | Some later \<Rightarrow> if identity_matches earlier later then Some earlier else None))"

record archive_pass =
  ap_archives :: "dat_archive_audit list"
  ap_bytes :: nat
  ap_sets :: "set_resolution list"
  ap_budget :: archive_run_budget
  ap_rar :: "string option option"

definition failed_archive :: "run_env \<Rightarrow> path \<Rightarrow> archive_source_error \<Rightarrow> dat_archive_audit" where
  "failed_archive env p err =
     \<lparr> aa_archive_path = p, aa_outer_identity = None, aa_format = format_guess p, aa_total_members = 0,
       aa_completion = PassIncomplete (SourceError (re_debug env err)), aa_members = [] \<rparr>"

definition completed_archive ::
    "run_env \<Rightarrow> dat_index \<Rightarrow> path \<Rightarrow> string \<Rightarrow> archive_pass_outcome \<Rightarrow> nat \<Rightarrow> dat_archive_audit \<times> nat" where
  "completed_archive env index p format outcome bytes =
     (let completion = (if stable_identity env p = None then PassIncomplete OuterFileChanged else po_completion outcome);
          (members, bytes1) = fold (audit_member index p (completion = PassIncomplete OuterFileChanged))
             (po_members outcome) ([], bytes)
      in (\<lparr> aa_archive_path = p, aa_outer_identity = stable_identity env p, aa_format = format,
            aa_total_members = po_total_members outcome, aa_completion = completion, aa_members = members \<rparr>,
          bytes1))"

definition audit_archive ::
    "run_env \<Rightarrow> dat_index \<Rightarrow> dat_disk_audit list \<Rightarrow> bool \<Rightarrow> dat_game_entry list \<Rightarrow> string \<Rightarrow> path \<Rightarrow>
     archive_pass \<Rightarrow> archive_pass step" where
  "audit_archive env index disk_evidence disk_scan_complete games source_id p a =
     and_then (cancelled env) (\<lambda>_.
       let a1 = (if is_rar_path p \<and> ap_rar a = None then a\<lparr>ap_rar := Some (re_rar_failure env)\<rparr> else a) in
       case open_archive_source env p (ap_rar a1) of
         Inl SourceCancelled \<Rightarrow> fail AuditCancelled
       | Inl err \<Rightarrow> return (a1\<lparr>ap_archives := ap_archives a1 @ [failed_archive env p err]\<rparr>)
       | Inr source \<Rightarrow>
           (let (outcome, budget) = as_verify_all source (ap_budget a1);
                (audit, bytes) = completed_archive env index p (as_format source) outcome (ap_bytes a1)
            in and_then (cancelled env) (\<lambda>_. return
                 (a1\<lparr>ap_archives := ap_archives a1 @ [audit], ap_bytes := bytes,
                     ap_sets := ap_sets a1 @ classify_archive_sets audit disk_evidence disk_scan_complete games source_id,
                     ap_budget := budget\<rparr>))))"

definition max_archive_run_logical_bytes :: "64 word" where
  "max_archive_run_logical_bytes = 68719476736"

definition is_archive_path :: "path \<Rightarrow> bool" where
  "is_archive_path p \<longleftrightarrow> is_zip_path p \<or> is_sevenz_path p \<or> is_rar_path p"

definition audit_archives ::
    "run_env \<Rightarrow> path list \<Rightarrow> dat_index \<Rightarrow> dat_disk_audit list \<Rightarrow> bool \<Rightarrow> dat_game_entry list \<Rightarrow> string \<Rightarrow>
     archive_pass step" where
  "audit_archives env files index disk_evidence disk_scan_complete games source_id =
     each (audit_archive env index disk_evidence disk_scan_complete games source_id) (filter is_archive_path files)
       \<lparr> ap_archives = [], ap_bytes = 0, ap_sets = [], ap_budget = new_budget max_archive_run_logical_bytes,
         ap_rar = None \<rparr>"

section \<open>Annotations\<close>

definition crc_refs :: "dat_index \<Rightarrow> known_file_evidence \<Rightarrow> dat_rom_ref list" where
  "crc_refs index ev =
     (case kf_crc32 ev of
        None \<Rightarrow> []
      | Some crc \<Rightarrow> filter (\<lambda>candidate. case kf_size_bytes ev of
             None \<Rightarrow> True | Some n \<Rightarrow> rr_size_bytes candidate = Some n) (lookup_crc32 index crc))"

definition content_refs :: "dat_index \<Rightarrow> audit_verdict \<Rightarrow> known_file_evidence \<Rightarrow> dat_rom_ref list" where
  "content_refs index verdict ev =
     (case verdict of
        Exact _ _ _ \<Rightarrow> verified_candidate_refs ev index
      | ExactMultipleCandidates _ _ _ \<Rightarrow> verified_candidate_refs ev index
      | Probable _ _ \<Rightarrow> crc_refs index ev
      | ProbableMultipleCandidates _ _ _ \<Rightarrow> crc_refs index ev
      | FilenameOnly _ _ \<Rightarrow> lookup_filename index (kf_filename ev)
      | _ \<Rightarrow> [])"

definition content_match ::
    "dat_index \<Rightarrow> content_selection_policy \<Rightarrow> audit_entry \<times> known_file_evidence \<Rightarrow> dat_content_match option" where
  "content_match index selection = (\<lambda>(entry, ev).
     (let refs = content_refs index (ae_verdict entry) ev in
      if refs = [] then None
      else Some \<lparr> cm_local_path = ae_local_path entry,
                  cm_candidates = map (\<lambda>candidate.
                      \<lparr> cn_game_name = rr_game_name candidate, cn_rom_name = rr_rom_name candidate,
                        cn_classification = rr_content_classification candidate,
                        cn_eligibility = eligibility selection (rr_content_classification candidate),
                        cn_original_metadata = rr_original_metadata candidate \<rparr>) refs \<rparr>))"

definition annotate_content_matches ::
    "audit_report \<Rightarrow> known_file_evidence list \<Rightarrow> dat_index \<Rightarrow> content_selection_policy \<Rightarrow> dat_content_match list" where
  "annotate_content_matches report known index selection =
     List.map_filter (content_match index selection) (zip (ar_entries report) known)"

definition rom_for_key :: "dat_game_entry list \<Rightarrow> dat_member_key \<Rightarrow> dat_rom_entry option" where
  "rom_for_key games key =
     Option.bind (get_at games (mk_game_index key)) (\<lambda>game. DatSet.rom_at game (mk_location key))"

definition candidate_of_ref ::
    "dat_game_entry list \<Rightarrow> string \<Rightarrow> nat \<Rightarrow> dat_rom_ref \<Rightarrow> dat_candidate option" where
  "candidate_of_ref games source_id priority r =
     Option.bind (get_at games (mk_game_index (rom_ref_key r))) (\<lambda>game.
     Option.bind (rom_for_key games (rom_ref_key r)) (\<lambda>rom.
       Some (candidate_for_rom game rom source_id priority)))"

definition policy_note ::
    "dat_index \<Rightarrow> dat_game_entry list \<Rightarrow> effective_dat_policy \<Rightarrow> string \<Rightarrow> nat \<Rightarrow>
     audit_entry \<times> known_file_evidence \<Rightarrow> dat_policy_note option" where
  "policy_note index games policy source_id priority = (\<lambda>(entry, ev).
     (case ae_verdict entry of
        ExactMultipleCandidates _ _ _ \<Rightarrow>
          (let refs = verified_candidate_refs ev index in
           if length refs < 2 then None
           else (let cs = List.map_filter (candidate_of_ref games source_id priority) refs in
                 if length cs < 2 then None
                 else Some \<lparr> pn_local_path = ae_local_path entry,
                             pn_verdict_label = verdict_label (ae_verdict entry),
                             pn_resolution = rank_candidates cs policy \<rparr>))
      | _ \<Rightarrow> None))"

definition annotate_with_policy ::
    "audit_report \<Rightarrow> known_file_evidence list \<Rightarrow> dat_index \<Rightarrow> dat_game_entry list \<Rightarrow> effective_dat_policy \<Rightarrow>
     string \<Rightarrow> dat_audit_policy_outcome" where
  "annotate_with_policy report known index games policy source_id =
     (let priority = (case find (\<lambda>source. ps_id source = source_id) (ep_source_ordering policy) of
            None \<Rightarrow> 0 | Some source \<Rightarrow> ps_priority source)
      in \<lparr> pu_source_ordering = map ps_display_name (ep_source_ordering policy),
           pu_notes = List.map_filter (policy_note index games policy source_id priority)
             (zip (ar_entries report) known) \<rparr>)"

section \<open>The run\<close>

definition collection_complete :: "bool \<Rightarrow> dat_archive_audit list \<Rightarrow> bool" where
  "collection_complete disk_scan_complete archives \<longleftrightarrow>
     disk_scan_complete \<and> list_all (\<lambda>archive. aa_completion archive = PassComplete) archives"

definition finish_run ::
    "dat_audit_request \<Rightarrow> catalogues \<Rightarrow> parsed_dat \<Rightarrow> local_scan \<Rightarrow> hashed_files \<Rightarrow> dat_disk_audit list \<Rightarrow>
     archive_pass \<Rightarrow> dat_audit_outcome" where
  "finish_run req c catalogue scan hashed disk_evidence a =
     (let index = build_index catalogue; games = pd_games catalogue;
          selection = (case rq_policy req of None \<Rightarrow> AllEntries | Some policy \<Rightarrow> ep_content_selection policy);
          disk_scan_complete = (\<not> sc_truncated scan \<and> sc_complete scan);
          report = audit_files (hf_known hashed) index;
          ev = build_evidence (ap_archives a) disk_evidence games
            (collection_complete disk_scan_complete (ap_archives a))
      in \<lparr> ao_source_id = rq_source_id req, ao_source_display_name = rq_source_display_name req,
           ao_dat_path = rq_dat_path req, ao_scan_root = path_text (rq_scan_root req),
           ao_catalogue_names = ct_names c, ao_catalogue_entries = ds_entry_count (pd_source catalogue),
           ao_catalogue_roms = ds_rom_count (pd_source catalogue),
           ao_content = \<lparr> co_selection = selection, co_catalogue = summarize games selection,
                          co_matches = annotate_content_matches report (hf_known hashed) index selection \<rparr>,
           ao_unreadable_catalogues = ct_unreadable c, ao_report = report, ao_archives = ap_archives a,
           ao_sets = resolve_collection (ap_sets a) games ev, ao_unhashed = hf_unhashed hashed,
           ao_files_scanned = length (sc_files scan), ao_bytes_hashed = hf_bytes hashed,
           ao_archive_bytes_hashed = ap_bytes a, ao_truncated = sc_truncated scan,
           ao_policy = map_option (\<lambda>policy.
             annotate_with_policy report (hf_known hashed) index games policy (rq_source_id req)) (rq_policy req),
           ao_platform = rq_platform req \<rparr>)"

definition run_dat_audit :: "run_env \<Rightarrow> dat_audit_request \<Rightarrow> dat_audit_outcome step" where
  "run_dat_audit env req =
     and_then (cancelled env) (\<lambda>_.
     and_then (dat_files_of env req) (\<lambda>dat_files.
     and_then (read_catalogues env dat_files) (\<lambda>(c, catalogue).
     and_then (cancelled env) (\<lambda>_.
     and_then (scan_local_files (re_listing env) (rq_scan_root req)) (\<lambda>scan.
       if sc_files scan = []
       then fail (NothingToAudit (''no files were found in '' @ path_text (rq_scan_root req)))
       else
         and_then (hash_files env (sc_files scan)) (\<lambda>hashed.
         and_then (audit_disk_files env (build_disk_index catalogue) (sc_files scan)) (\<lambda>disk_evidence.
         and_then (cancelled env) (\<lambda>_.
         and_then (audit_archives env (sc_files scan) (build_index catalogue) disk_evidence
             (\<not> sc_truncated scan \<and> sc_complete scan) (pd_games catalogue) (rq_source_id req)) (\<lambda>a.
           return (finish_run req c catalogue scan hashed disk_evidence a))))))))))"

end
