(* ===== verification/DepClosure.thy ===== *)
theory DepClosure
  imports DepResolve
begin

text \<open>
  What a satisfied verdict rests on, stated without the traversals: a path of lenders that ends
  at verified content, a closure of devices that are all verified, and for a whole collection
  the report of each set on its own.
\<close>

section \<open>Borrowed content\<close>

text \<open>
  \<open>lent gr ops ok path wanted borrower\<close>: along \<open>path\<close> every set declares the wanted member exactly
  once, without a conflicting checksum, and hands on to the next under the name it declares,
  until the last one holds the content itself and it is \<open>ok\<close>.
\<close>

inductive lent :: "dependency_graph \<Rightarrow> ('k, 'm) borrow_ops \<Rightarrow> (nat \<Rightarrow> 'k \<Rightarrow> bool) \<Rightarrow> nat list \<Rightarrow> string \<Rightarrow> 'm \<Rightarrow> bool"
  for gr :: dependency_graph and ops :: "('k, 'm) borrow_ops" and ok :: "nat \<Rightarrow> 'k \<Rightarrow> bool"
where
  here: "\<lbrakk> \<not> dg_unsupported_structure (graph_game gr p); bo_declared_as ops p wanted = MemberUnique (key, m);
     \<not> bo_conflict ops borrower m; bo_class ops m = PhysicalRequired \<or> bo_class ops m = OptionalPhysical;
     ok p key \<rbrakk> \<Longrightarrow> lent gr ops ok [p] wanted borrower"
| onward: "\<lbrakk> \<not> dg_unsupported_structure (graph_game gr p); bo_declared_as ops p wanted = MemberUnique (key, m);
     \<not> bo_conflict ops borrower m; bo_class ops m = Borrowed; declared_name (bo_merge ops m) = Named name;
     next_provider gr p = Inr q; lent gr ops ok (q # path) name m \<rbrakk> \<Longrightarrow> lent gr ops ok (p # q # path) wanted borrower"

inductive_cases lentE: "lent gr ops ok (p # path) wanted borrower"

text \<open>A path the guard admits after \<open>seen\<close>.\<close>

definition fresh_path :: "nat list \<Rightarrow> nat list \<Rightarrow> bool" where
  "fresh_path seen path \<longleftrightarrow>
     distinct path \<and> set path \<inter> set seen = {} \<and> length seen + length path \<le> max_dependency_depth"

lemma fresh_path_single: "fresh_path seen [p] \<longleftrightarrow> visit p seen = Inr (seen @ [p])"
  by (auto simp: fresh_path_def visit_Inr)

lemma fresh_path_step:
  "fresh_path seen (p # q # path) \<longleftrightarrow> visit p seen = Inr (seen @ [p]) \<and> fresh_path (seen @ [p]) (q # path)"
  by (auto simp: fresh_path_def visit_Inr)

lemma next_provider_Satisfied: "next_provider gr i \<noteq> Inl OutSatisfied"
  by (simp add: next_provider_def split: option.split name_decl.split set_ref.split)

lemma fault_outcome_Satisfied [simp]: "fault_outcome f \<noteq> OutSatisfied"
  by (cases f) simp_all

definition holds :: "('k, 'm) borrow_ops \<Rightarrow> nat \<Rightarrow> 'k \<Rightarrow> bool" where
  "holds ops i key \<longleftrightarrow> bo_outcome ops i key = OutSatisfied"

lemma follow_merge_lent:
  assumes "follow_merge gr ops p wanted borrower seen = OutSatisfied"
  shows "\<exists>path. lent gr ops (holds ops) (p # path) wanted borrower \<and> fresh_path seen (p # path)"
  using assms
proof (induction gr ops p wanted borrower seen rule: follow_merge.induct)
  case (1 gr ops p wanted borrower seen)
  note eq = 1(2) [unfolded follow_merge.simps [of gr ops p wanted borrower seen]]
  obtain seen' where v: "visit p seen = Inr seen'" using eq by (cases "visit p seen") simp_all
  then have seen': "seen' = seen @ [p]" by (simp add: visit_Inr)
  have plain: "\<not> dg_unsupported_structure (graph_game gr p)" using eq v by auto
  obtain key m where km: "bo_declared_as ops p wanted = MemberUnique (key, m)"
    using eq v plain by (cases "bo_declared_as ops p wanted") auto
  have agrees: "\<not> bo_conflict ops borrower m" using eq v plain km by auto
  show ?case
  proof (cases "bo_class ops m = Borrowed")
    case True
    obtain name where name: "declared_name (bo_merge ops m) = Named name"
      using eq v plain km agrees True by (cases "declared_name (bo_merge ops m)") auto
    obtain q where q: "next_provider gr p = Inr q"
      using eq v plain km agrees True name next_provider_Satisfied
      by (cases "next_provider gr p") auto
    have "follow_merge gr ops q name m seen' = OutSatisfied"
      using eq v plain km agrees True name q by simp
    then obtain path where "lent gr ops (holds ops) (q # path) name m" "fresh_path seen' (q # path)"
      using 1(1) v plain km agrees True name q by fastforce
    then show ?thesis
      using onward [OF plain km agrees True name q] v seen' fresh_path_step by blast
  next
    case False
    then have "(bo_class ops m = PhysicalRequired \<or> bo_class ops m = OptionalPhysical) \<and>
        holds ops p key"
      using eq v plain km agrees by (auto simp: holds_def split: if_splits)
    then show ?thesis
      using here [OF plain km agrees] v seen' fresh_path_single by blast
  qed
qed

lemma lent_follow_merge:
  assumes "lent gr ops (holds ops) path wanted borrower" and "fresh_path seen path"
  shows "follow_merge gr ops (hd path) wanted borrower seen = OutSatisfied"
  using assms
proof (induction arbitrary: seen rule: lent.induct)
  case (here p wanted key m borrower)
  then show ?case
    by (auto simp: follow_merge.simps [of gr ops p wanted borrower seen] fresh_path_single holds_def)
next
  case (onward p wanted key m borrower name q path)
  then have "follow_merge gr ops q name m (seen @ [p]) = OutSatisfied"
    by (simp add: fresh_path_step)
  then show ?case
    using onward by (simp add: follow_merge.simps [of gr ops p wanted borrower seen] fresh_path_step)
qed

lemma follow_merge_Satisfied:
  "follow_merge gr ops p wanted borrower seen = OutSatisfied \<longleftrightarrow>
   (\<exists>path. lent gr ops (holds ops) (p # path) wanted borrower \<and> fresh_path seen (p # path))"
  using follow_merge_lent lent_follow_merge by fastforce

text \<open>When a member of a set itself counts as verified.\<close>

definition rom_verified :: "dependency_graph \<Rightarrow> collection_evidence \<Rightarrow> nat \<Rightarrow> dat_member_key \<Rightarrow> bool" where
  "rom_verified gr ev owner key \<longleftrightarrow>
     (let flags = flags_of ev (trim (dg_name (graph_game gr owner))) in
      key \<in> ev_verified_members ev \<and> \<not> sf_duplicate_evidence flags \<and> \<not> sf_ambiguous flags)"

lemma absent_Satisfied [simp]: "absent_outcome ev \<noteq> OutSatisfied"
  by (simp add: absent_outcome_def)

lemma member_outcome_Satisfied: "member_outcome gr ev i key = OutSatisfied \<longleftrightarrow> rom_verified gr ev i key"
  by (simp add: member_outcome_def rom_verified_def Let_def)

definition disk_verified :: "dependency_graph \<Rightarrow> collection_evidence \<Rightarrow> nat \<Rightarrow> dat_disk_key \<Rightarrow> bool" where
  "disk_verified gr ev owner key \<longleftrightarrow>
     trim (dg_name (graph_game gr owner)) \<notin> ev_disk_tainted_sets ev \<and> key \<in> ev_verified_disks ev \<and>
     (chd_parent_outcome ev key = None \<or> chd_parent_outcome ev key = Some OutSatisfied)"

lemma disk_outcome_Satisfied: "disk_outcome gr ev i key = OutSatisfied \<longleftrightarrow> disk_verified gr ev i key"
  by (simp add: disk_outcome_def disk_verified_def split: option.split)

text \<open>The lender a set names, which must not be the set itself.\<close>

definition first_lender :: "dependency_graph \<Rightarrow> nat \<Rightarrow> nat \<Rightarrow> bool" where
  "first_lender gr i q \<longleftrightarrow>
     next_provider gr i = Inr q \<and>
     Option.bind (borrow_provider gr i) (map_option trim) \<noteq> Some (trim (dg_name (graph_game gr i)))"

lemma resolve_borrow_Satisfied:
  "snd (resolve_borrow gr i name follow) = OutSatisfied \<longleftrightarrow>
   (\<exists>q. first_lender gr i q \<and> follow q [i] = OutSatisfied)"
proof (cases "borrow_provider gr i")
  case None
  then show ?thesis by (simp add: resolve_borrow_def first_lender_def next_provider_def)
next
  case (Some declared)
  then show ?thesis
    by (auto simp: resolve_borrow_def first_lender_def next_provider_def declared_name_def
        split: name_decl.split set_ref.split option.splits if_splits)
qed

lemma merged_requirement_Satisfied:
  "rq_outcome (merged_requirement k declared borrow via) = OutSatisfied \<longleftrightarrow>
   (\<exists>name. declared_name declared = Named name \<and> snd (borrow name) = OutSatisfied)"
  by (simp add: merged_requirement_def split: name_decl.split prod.split)

text \<open>
  C20: A borrowed rom or disk is reported as satisfied exactly when there is a path of sets from
  the borrower, without repetition and within the depth limit, along which every lender declares
  the member exactly once and without a conflicting hash, and the last one holds content that is
  verified by unambiguous evidence.
\<close>

theorem borrow_ends_at_verified_content:
  "(rq_outcome (resolve_merged_rom gr ev i rom) = OutSatisfied \<longleftrightarrow>
      (\<exists>name q path. declared_name (dr_merge rom) = Named name \<and> first_lender gr i q \<and>
         fresh_path [i] (q # path) \<and> lent gr (rom_ops gr ev) (rom_verified gr ev) (q # path) name rom)) \<and>
   (rq_outcome (resolve_merged_disk gr ev i disk) = OutSatisfied \<longleftrightarrow>
      (\<exists>name q path. declared_name (dd_merge disk) = Named name \<and> first_lender gr i q \<and>
         fresh_path [i] (q # path) \<and> lent gr (disk_ops gr ev) (disk_verified gr ev) (q # path) name disk))"
proof -
  have roms: "holds (rom_ops gr ev) = rom_verified gr ev"
    by (rule ext, rule ext) (simp add: holds_def rom_ops_def member_outcome_Satisfied)
  have disks: "holds (disk_ops gr ev) = disk_verified gr ev"
    by (rule ext, rule ext) (simp add: holds_def disk_ops_def disk_outcome_Satisfied)
  show ?thesis
    unfolding resolve_merged_rom_def resolve_merged_disk_def merged_requirement_Satisfied
      resolve_borrow_Satisfied follow_rom_merge_def follow_disk_merge_def follow_merge_Satisfied roms disks
    by blast
qed

section \<open>The closure of a device or a BIOS\<close>

lemma combine_worst_Satisfied: "combine_worst a b = OutSatisfied \<longleftrightarrow> a = OutSatisfied \<and> b = OutSatisfied"
  by (cases a; cases b) (simp_all add: combine_worst_def)

lemma foldl_Satisfied:
  "foldl combine_worst a os = OutSatisfied \<longleftrightarrow> a = OutSatisfied \<and> list_all (\<lambda>x. x = OutSatisfied) os"
  by (induction os arbitrary: a) (auto simp: combine_worst_Satisfied)

lemma worst_Satisfied: "worst_outcome os = OutSatisfied \<longleftrightarrow> list_all (\<lambda>x. x = OutSatisfied) os"
  by (simp add: worst_outcome_def foldl_Satisfied)

text \<open>What each declared rom and disk of a set must come to, path \<open>seen\<close> included.\<close>

definition rom_settled ::
    "dependency_graph \<Rightarrow> collection_evidence \<Rightarrow> nat \<Rightarrow> nat list \<Rightarrow> dat_member_key \<times> dat_rom_entry \<Rightarrow> bool" where
  "rom_settled gr ev i seen kr \<longleftrightarrow>
     (case classify_rom_member (snd kr) of
        PhysicalRequired \<Rightarrow> rom_verified gr ev i (fst kr)
      | Borrowed \<Rightarrow> (\<exists>name q path. declared_name (dr_merge (snd kr)) = Named name \<and> next_provider gr i = Inr q \<and>
          fresh_path seen (q # path) \<and> lent gr (rom_ops gr ev) (rom_verified gr ev) (q # path) name (snd kr))
      | OptionalPhysical \<Rightarrow> True | NonFile \<Rightarrow> True | _ \<Rightarrow> False)"

definition disk_settled ::
    "dependency_graph \<Rightarrow> collection_evidence \<Rightarrow> nat \<Rightarrow> nat list \<Rightarrow> dat_disk_key \<times> dat_disk_entry \<Rightarrow> bool" where
  "disk_settled gr ev i seen kd \<longleftrightarrow>
     (case classify_disk_member (snd kd) of
        PhysicalRequired \<Rightarrow> disk_verified gr ev i (fst kd)
      | Borrowed \<Rightarrow> (\<exists>name q path. declared_name (dd_merge (snd kd)) = Named name \<and> next_provider gr i = Inr q \<and>
          fresh_path seen (q # path) \<and> lent gr (disk_ops gr ev) (disk_verified gr ev) (q # path) name (snd kd))
      | OptionalPhysical \<Rightarrow> True | NonFile \<Rightarrow> True | _ \<Rightarrow> False)"

definition chd_parent_settled :: "collection_evidence \<Rightarrow> dat_disk_key \<times> dat_disk_entry \<Rightarrow> bool" where
  "chd_parent_settled ev kd \<longleftrightarrow>
     fst kd \<notin> ev_verified_disks ev \<or> chd_parent_outcome ev (fst kd) = None \<or>
     chd_parent_outcome ev (fst kd) = Some OutSatisfied"

text \<open>One set of a closure: clean evidence, and everything it declares settled.\<close>

definition set_settled :: "dependency_graph \<Rightarrow> collection_evidence \<Rightarrow> nat \<Rightarrow> nat list \<Rightarrow> bool" where
  "set_settled gr ev i seen \<longleftrightarrow>
     (let game = graph_game gr i in
      \<not> dg_unsupported_structure game \<and> \<not> tainted gr ev i \<and>
      list_all (rom_settled gr ev i seen) (declared_roms i game) \<and>
      list_all (disk_settled gr ev i seen) (declared_disks i game) \<and>
      list_all (chd_parent_settled ev) (declared_disks i game) \<and>
      bios_declaration_outcome gr i = OutSatisfied \<and>
      dg_sample_of game = None \<and> dg_samples game = [])"

text \<open>A device reference that names one set, confirmed to be a device.\<close>

definition device_edge :: "dependency_graph \<Rightarrow> nat \<Rightarrow> dat_device_ref_entry \<Rightarrow> nat \<Rightarrow> bool" where
  "device_edge gr i d j \<longleftrightarrow>
     d \<in> set (dg_device_refs (graph_game gr i)) \<and> device_target gr i d = Inr j \<and>
     device_gate (graph_game gr j) = None"

fun device_path :: "dependency_graph \<Rightarrow> nat list \<Rightarrow> bool" where
  "device_path gr (i # j # path) \<longleftrightarrow> (\<exists>d. device_edge gr i d j) \<and> device_path gr (j # path)"
| "device_path gr _ \<longleftrightarrow> True"

text \<open>
  The specification: along every chain of device references no set repeats and the depth limit
  holds, the last set of the chain is settled, and each of its references is a confirmed device.
\<close>

definition closure_settled :: "dependency_graph \<Rightarrow> collection_evidence \<Rightarrow> nat \<Rightarrow> nat list \<Rightarrow> bool" where
  "closure_settled gr ev i seen \<longleftrightarrow>
     (\<forall>path. device_path gr (i # path) \<longrightarrow>
        fresh_path seen (i # path) \<and>
        set_settled gr ev (List.last (i # path)) (seen @ i # path) \<and>
        list_all (\<lambda>d. \<exists>j. device_edge gr (List.last (i # path)) d j)
          (dg_device_refs (graph_game gr (List.last (i # path)))))"

lemma list_all_concat_map: "list_all P (concat (map f xs)) \<longleftrightarrow> list_all (\<lambda>x. list_all P (f x)) xs"
  by (induction xs) simp_all

lemma borrowed_storage_Satisfied:
  "borrowed_storage gr i declared follow = OutSatisfied \<longleftrightarrow>
   (\<exists>name q. declared_name declared = Named name \<and> next_provider gr i = Inr q \<and> follow q name = OutSatisfied)"
  using next_provider_Satisfied [of gr i]
  by (auto simp: borrowed_storage_def split: name_decl.splits sum.splits)

lemma rom_storage_Satisfied:
  "list_all (\<lambda>x. x = OutSatisfied) (rom_storage gr ev i seen kr) \<longleftrightarrow> rom_settled gr ev i seen kr"
proof -
  have roms: "holds (rom_ops gr ev) = rom_verified gr ev"
    by (rule ext, rule ext) (simp add: holds_def rom_ops_def member_outcome_Satisfied)
  show ?thesis
    by (auto simp: rom_storage_def rom_settled_def member_outcome_Satisfied borrowed_storage_Satisfied
        follow_rom_merge_def follow_merge_Satisfied roms split: prod.splits member_class.splits)
qed

lemma disk_storage_Satisfied:
  "list_all (\<lambda>x. x = OutSatisfied) (disk_storage gr ev i seen kd) \<longleftrightarrow> disk_settled gr ev i seen kd"
proof -
  have disks: "holds (disk_ops gr ev) = disk_verified gr ev"
    by (rule ext, rule ext) (simp add: holds_def disk_ops_def disk_outcome_Satisfied)
  show ?thesis
    by (auto simp: disk_storage_def disk_settled_def disk_outcome_Satisfied borrowed_storage_Satisfied
        follow_disk_merge_def follow_merge_Satisfied disks split: prod.splits member_class.splits)
qed

lemma chd_parents_Satisfied:
  "list_all (\<lambda>x. x = OutSatisfied) (map rq_outcome (resolve_chd_parents gr ev i)) \<longleftrightarrow>
   list_all (chd_parent_settled ev) (declared_disks i (graph_game gr i))"
proof -
  have one: "list_all (\<lambda>x. x = OutSatisfied) (map rq_outcome (case chd_parent_requirement ev kd of None \<Rightarrow> [] | Some r \<Rightarrow> [r])) \<longleftrightarrow>
      chd_parent_settled ev kd" for kd
    by (cases "chd_parent_outcome ev (fst kd)") (auto simp: chd_parent_requirement_def chd_parent_settled_def split: prod.split)
  have "list_all (\<lambda>x. x = OutSatisfied) (map rq_outcome (List.map_filter (chd_parent_requirement ev) ds)) \<longleftrightarrow>
      list_all (chd_parent_settled ev) ds" for ds
  proof (induction ds)
    case (Cons kd ds)
    then show ?case using one [of kd]
      by (cases "chd_parent_requirement ev kd") (simp_all add: map_filter_simps)
  qed (simp add: map_filter_simps)
  then show ?thesis by (simp add: resolve_chd_parents_def)
qed

lemma declared_name_None [simp]: "declared_name None = NameAbsent"
  by (simp add: declared_name_def)

lemma declared_name_Absent: "declared_name v = NameAbsent \<longleftrightarrow> v = None"
  by (auto simp: declared_name_def split: option.splits)

lemma samples_Satisfied:
  "list_all (\<lambda>x. x = OutSatisfied) (map rq_outcome (resolve_samples gr i)) \<longleftrightarrow>
   dg_sample_of (graph_game gr i) = None \<and> dg_samples (graph_game gr i) = []"
proof -
  have never: "\<not> list_all (\<lambda>x. x = OutSatisfied) (map rq_outcome (map (\<lambda>s. case declared_name (dsm_name s) of
             Named name \<Rightarrow> sample_requirement (SampleSet name) OutUnsupported (dsm_name s)
           | _ \<Rightarrow> sample_requirement Undeclared OutContradictory (dsm_name s)) (s # ss)))" for s ss
    by (simp add: sample_requirement_def split: name_decl.split)
  show ?thesis
  proof (cases "dg_samples (graph_game gr i)")
    case Nil
    then show ?thesis
      by (cases "dg_sample_of (graph_game gr i)")
        (auto simp: resolve_samples_def Let_def sample_requirement_def declared_name_Absent split: name_decl.split)
  next
    case (Cons s ss)
    then show ?thesis using never [of s ss]
      by (simp only: resolve_samples_def Let_def map_append list_all_append simp_thms list.distinct)
  qed
qed

lemma own_storage_Satisfied:
  "\<not> dg_unsupported_structure (graph_game gr i) \<and> \<not> tainted gr ev i \<and>
   list_all (\<lambda>x. x = OutSatisfied) (own_storage gr ev i seen) \<longleftrightarrow> set_settled gr ev i seen"
  by (simp only: own_storage_def Let_def list_all_append list_all_concat_map rom_storage_Satisfied
      disk_storage_Satisfied chd_parents_Satisfied samples_Satisfied set_settled_def
      list.pred_inject simp_thms conj_assoc)

lemma device_outcome_Satisfied:
  "(case device_target gr i d of Inl outcome \<Rightarrow> outcome
    | Inr device \<Rightarrow> (case device_gate (graph_game gr device) of Some outcome \<Rightarrow> outcome
         | None \<Rightarrow> f device)) = OutSatisfied \<longleftrightarrow>
   (\<exists>j. device_target gr i d = Inr j \<and> device_gate (graph_game gr j) = None \<and> f j = OutSatisfied)"
proof -
  have "device_target gr i d \<noteq> Inl OutSatisfied" "device_gate g \<noteq> Some OutSatisfied" for g
    by (auto simp: device_target_def device_gate_def split: name_decl.split set_ref.split flag.split)
  then show ?thesis by (auto split: sum.splits option.splits)
qed

lemma set_storage_Satisfied:
  "set_storage_outcome gr ev i seen = OutSatisfied \<longleftrightarrow>
   visit i seen = Inr (seen @ [i]) \<and> set_settled gr ev i (seen @ [i]) \<and>
   list_all (\<lambda>d. \<exists>j. device_edge gr i d j \<and> set_storage_outcome gr ev j (seen @ [i]) = OutSatisfied)
     (dg_device_refs (graph_game gr i))"
proof (cases "visit i seen")
  case (Inl f)
  then show ?thesis by (simp add: set_storage_outcome.simps [of gr ev i seen])
next
  case (Inr seen')
  then have seen': "seen' = seen @ [i]" by (simp add: visit_Inr)
  let ?f = "\<lambda>d. case device_target gr i d of Inl outcome \<Rightarrow> outcome
    | Inr device \<Rightarrow> (case device_gate (graph_game gr device) of Some outcome \<Rightarrow> outcome
         | None \<Rightarrow> set_storage_outcome gr ev device seen')"
  have "list_all (\<lambda>x. x = OutSatisfied) (map ?f (dg_device_refs (graph_game gr i))) \<longleftrightarrow>
      list_all (\<lambda>d. \<exists>j. device_edge gr i d j \<and> set_storage_outcome gr ev j seen' = OutSatisfied)
        (dg_device_refs (graph_game gr i))"
    by (simp add: list_all_iff device_edge_def device_outcome_Satisfied)
  moreover have "set_storage_outcome gr ev i seen =
      (if dg_unsupported_structure (graph_game gr i) then OutUnsupported else if tainted gr ev i then OutAmbiguous
       else worst_outcome (own_storage gr ev i seen' @ map ?f (dg_device_refs (graph_game gr i))))"
    by (subst set_storage_outcome.simps) (simp only: Inr sum.case)
  ultimately show ?thesis
    using own_storage_Satisfied [of gr i ev seen'] by (auto simp: worst_Satisfied Inr seen')
qed

lemma closure_unfold:
  "closure_settled gr ev i seen \<longleftrightarrow>
   visit i seen = Inr (seen @ [i]) \<and> set_settled gr ev i (seen @ [i]) \<and>
   list_all (\<lambda>d. \<exists>j. device_edge gr i d j \<and> closure_settled gr ev j (seen @ [i]))
     (dg_device_refs (graph_game gr i))" (is "_ \<longleftrightarrow> ?R")
proof
  assume *: "closure_settled gr ev i seen"
  have here: "fresh_path seen [i]" "set_settled gr ev i (seen @ [i])"
    "list_all (\<lambda>d. \<exists>j. device_edge gr i d j) (dg_device_refs (graph_game gr i))"
    using * [unfolded closure_settled_def, THEN spec, of "[]"] by simp_all
  have edge: "closure_settled gr ev j (seen @ [i])" if "device_edge gr i d j" for d j
    unfolding closure_settled_def
  proof (intro allI impI)
    fix path assume "device_path gr (j # path)"
    then have "device_path gr (i # j # path)" using that by auto
    then show "fresh_path (seen @ [i]) (j # path) \<and>
        set_settled gr ev (List.last (j # path)) ((seen @ [i]) @ j # path) \<and>
        list_all (\<lambda>d. \<exists>j'. device_edge gr (List.last (j # path)) d j')
          (dg_device_refs (graph_game gr (List.last (j # path))))"
      using * [unfolded closure_settled_def, THEN spec, of "j # path"] by (simp add: fresh_path_step)
  qed
  show ?R using here by (simp add: fresh_path_single list_all_iff) (blast intro: edge)
next
  assume *: ?R
  have edge: "device_edge gr i d j \<Longrightarrow> closure_settled gr ev j (seen @ [i])" for d j
    using * by (auto simp: list_all_iff device_edge_def)
  show "closure_settled gr ev i seen"
    unfolding closure_settled_def
  proof (intro allI impI)
    fix path assume p: "device_path gr (i # path)"
    show "fresh_path seen (i # path) \<and> set_settled gr ev (List.last (i # path)) (seen @ i # path) \<and>
        list_all (\<lambda>d. \<exists>j'. device_edge gr (List.last (i # path)) d j')
          (dg_device_refs (graph_game gr (List.last (i # path))))"
    proof (cases path)
      case Nil
      then show ?thesis using * by (auto simp: fresh_path_single list_all_iff)
    next
      case (Cons j rest)
      then obtain d where "device_edge gr i d j" and q: "device_path gr (j # rest)" using p by auto
      from edge [OF this(1), unfolded closure_settled_def, THEN spec, of rest] q
      show ?thesis using * Cons by (simp add: fresh_path_step)
    qed
  qed
qed

text \<open>
  C19: The storage of a device or BIOS set is reported as satisfied exactly when its whole closure
  is settled: along every chain of device references no set repeats and the depth limit holds,
  every set on it has untainted evidence and every required rom and disk verified (borrowed ones
  through a lender), and every reference names exactly one set that is confirmed to be a device.
\<close>

theorem storage_satisfied_iff_closure_settled:
  "set_storage_outcome gr ev i seen = OutSatisfied \<longleftrightarrow> closure_settled gr ev i seen"
proof (induction "room seen" arbitrary: i seen rule: less_induct)
  case less
  have "set_storage_outcome gr ev j (seen @ [i]) = OutSatisfied \<longleftrightarrow> closure_settled gr ev j (seen @ [i])"
    if "visit i seen = Inr (seen @ [i])" for j
    using less [OF visit_room [OF that]] .
  then show ?case
    unfolding set_storage_Satisfied [of gr ev i seen] closure_unfold [of gr ev i seen] by (simp cong: conj_cong)
qed

section \<open>A collection\<close>

definition with_report :: "dependency_graph \<Rightarrow> collection_evidence \<Rightarrow> set_resolution \<Rightarrow> set_resolution" where
  "with_report gr ev r =
     (let report = dependency_report gr ev (si_game_name (sr_identity r))
      in r\<lparr>sr_state := apply_dependency_state (sr_state r) (dr_state report), sr_dependencies := report\<rparr>)"

definition honest_cache :: "dependency_graph \<Rightarrow> collection_evidence \<Rightarrow> (string \<rightharpoonup> set_dependency_report) \<Rightarrow> bool" where
  "honest_cache gr ev cache \<longleftrightarrow> (\<forall>name \<in> dom cache. cache name = Some (dependency_report gr ev name))"

lemma honest_cache_empty: "honest_cache gr ev Map.empty"
  by (simp add: honest_cache_def)

lemma honest_cache_add: "honest_cache gr ev cache \<Longrightarrow> honest_cache gr ev (cache(name \<mapsto> dependency_report gr ev name))"
  by (simp add: honest_cache_def)

lemma honest_cache_hit: "honest_cache gr ev cache \<Longrightarrow> cache name = Some cached \<Longrightarrow> cached = dependency_report gr ev name"
  unfolding honest_cache_def by force

lemma resolve_loop_eq: "honest_cache gr ev cache \<Longrightarrow> resolve_loop gr ev cache rs = map (with_report gr ev) rs"
proof (induction rs arbitrary: cache)
  case (Cons r rs)
  show ?case
  proof (cases "cache (si_game_name (sr_identity r))")
    case None
    then show ?thesis
      by (simp only: resolve_loop.simps None Let_def option.case prod.case list.map with_report_def
          Cons.IH [OF honest_cache_add [OF Cons.prems, of "si_game_name (sr_identity r)"]])
  next
    case (Some cached)
    then show ?thesis
      using honest_cache_hit [OF Cons.prems Some] Cons.IH [OF Cons.prems] by (simp add: with_report_def Let_def)
  qed
qed simp

lemma resolve_collection_eq: "resolve_collection rs games ev = map (with_report (build_graph games) ev) rs"
  by (simp add: resolve_collection_def resolve_loop_eq honest_cache_empty)

lemma report_permits:
  "state_permits_complete (dr_state (dependency_report gr ev name)) \<longleftrightarrow>
   (\<exists>i. resolve_set gr name = SetUnique i \<and>
        list_all (\<lambda>r. rq_outcome r = OutSatisfied) (requirements_for gr ev i))"
proof (cases "resolve_set gr name")
  case (SetUnique i)
  have "list_all outcome_permits_complete (map rq_outcome rs) \<longleftrightarrow> list_all (\<lambda>r. rq_outcome r = OutSatisfied) rs" for rs
    by (induction rs) (simp_all add: outcome_permits_complete_def)
  then show ?thesis using SetUnique by (simp add: dependency_report_def from_requirements_def roll_up_permits)
qed (simp_all add: dependency_report_def not_evaluated_def state_permits_complete_def)

text \<open>
  C22: Resolving a collection gives every set the report it would get on its own, whatever was
  resolved before it; a set is complete afterwards exactly when its storage was and its name
  resolves to one entry all of whose requirements are satisfied; and a storage state that was
  not complete is never changed.
\<close>

theorem collection_reports_each_set:
  "resolve_collection rs games ev = map (with_report (build_graph games) ev) rs \<and>
   (sr_state (with_report gr ev r) = SetComplete \<longleftrightarrow>
      sr_state r = SetComplete \<and>
      (\<exists>i. resolve_set gr (si_game_name (sr_identity r)) = SetUnique i \<and>
           list_all (\<lambda>q. rq_outcome q = OutSatisfied) (requirements_for gr ev i))) \<and>
   (sr_state r = SetComplete \<or> sr_state (with_report gr ev r) = sr_state r)"
proof (intro conjI)
  show "resolve_collection rs games ev = map (with_report (build_graph games) ev) rs"
    by (rule resolve_collection_eq)
  show "sr_state (with_report gr ev r) = SetComplete \<longleftrightarrow>
      sr_state r = SetComplete \<and>
      (\<exists>i. resolve_set gr (si_game_name (sr_identity r)) = SetUnique i \<and>
           list_all (\<lambda>q. rq_outcome q = OutSatisfied) (requirements_for gr ev i))"
    by (simp add: with_report_def Let_def apply_dependency_state_def downgrade_permits report_permits)
  show "sr_state r = SetComplete \<or> sr_state (with_report gr ev r) = sr_state r"
    by (simp add: with_report_def Let_def apply_dependency_state_def)
qed

end
