(* ===== verification/DatRunProofs.thy ===== *)
theory DatRunProofs
  imports DatRun DepClosure RenameChecks
begin

text \<open>
  What an audit run guarantees: its annotations agree with its verdicts, its outcome is fit for
  planning, a set it reports as complete is backed by a stable archive, by evidence for every
  member and by satisfied dependencies, and it never outlives a request to stop.
\<close>

section \<open>Steps that succeed\<close>

named_theorems step_iff

lemma and_then_Inr [step_iff]:
  "and_then m k n = (Inr y, n2) \<longleftrightarrow> (\<exists>x n1. m n = (Inr x, n1) \<and> k x n1 = (Inr y, n2))"
  by (auto simp: and_then_def split: prod.splits sum.splits)

lemma return_Inr [step_iff]: "return x n = (Inr y, n2) \<longleftrightarrow> y = x \<and> n2 = n"
  by (auto simp: return_def)

lemma fail_Inr [step_iff]: "fail err n = (Inr y, n2) \<longleftrightarrow> False"
  by (simp add: fail_def)

lemma cancelled_Inr [step_iff]: "cancelled env n = (Inr y, n2) \<longleftrightarrow> n2 = n + 1 \<and> \<not> le_cancel (re_listing env) n"
  by (auto simp: cancelled_def)

lemma each_invariant:
  assumes "each f xs s n = (Inr t, n2)" and "P s"
    and "\<And>x s n t n2. x \<in> set xs \<Longrightarrow> P s \<Longrightarrow> f x s n = (Inr t, n2) \<Longrightarrow> P t"
  shows "P t"
  using assms
proof (induction xs arbitrary: s n)
  case (Cons x xs)
  obtain s1 n1 where one: "f x s n = (Inr s1, n1)" and rest: "each f xs s1 n1 = (Inr t, n2)"
    using Cons.prems(1) by (auto simp: step_iff)
  have "P s1" by (rule Cons.prems(3) [OF _ Cons.prems(2) one]) simp
  then show ?case using Cons.IH [OF rest] Cons.prems(3) by (meson list.set_intros(2))
qed (simp add: step_iff)

section \<open>The candidates of a verdict\<close>

text \<open>Hashes as the hashers print them: each is its own normal form.\<close>

definition normal_hashes :: "known_file_evidence \<Rightarrow> bool" where
  "normal_hashes k \<longleftrightarrow>
     (case kf_sha256 k of None \<Rightarrow> True | Some v \<Rightarrow> normalise_sha256 v = Some v) \<and>
     (case kf_sha1 k of None \<Rightarrow> True | Some v \<Rightarrow> normalise_sha1 v = Some v) \<and>
     (case kf_md5 k of None \<Rightarrow> True | Some v \<Rightarrow> normalise_md5 v = Some v)"

lemma normal_form_length:
  "normalise_sha256 v = Some v \<Longrightarrow> utf8_len v = 64"
  "normalise_sha1 v = Some v \<Longrightarrow> utf8_len v = 40"
  "normalise_md5 v = Some v \<Longrightarrow> utf8_len v = 32"
  using normalise_hex_Some [of _ v v] utf8_len_hex [of v]
  by (auto simp: normalise_sha256_def normalise_sha1_def normalise_md5_def)

lemma candidate_refs_eq:
  assumes "normal_hashes k"
  shows "verified_candidate_refs k (build_index dat) =
    (if matches dat k Sha256 \<noteq> [] then matches dat k Sha256
     else if matches dat k Sha1 \<noteq> [] then matches dat k Sha1 else matches dat k Md5)"
proof -
  let ?i = "build_index dat"
  have tail: "first_candidates ?i (v # vs) = (if cs \<noteq> [] then cs else first_candidates ?i vs)"
    if "cs = (case v of None \<Rightarrow> [] | Some x \<Rightarrow> lookup_by_length ?i x)" for v vs cs
    using that by (cases v) (auto split: list.split)
  have sha256: "matches dat k Sha256 = (case kf_sha256 k of None \<Rightarrow> [] | Some x \<Rightarrow> lookup_by_length ?i x)"
    using assms by (cases "kf_sha256 k")
      (simp_all add: normal_hashes_def matches_def lookup_by_length_def index_lookups normal_form_length(1))
  have sha1: "matches dat k Sha1 = (case kf_sha1 k of None \<Rightarrow> [] | Some x \<Rightarrow> lookup_by_length ?i x)"
    using assms by (cases "kf_sha1 k")
      (simp_all add: normal_hashes_def matches_def lookup_by_length_def index_lookups normal_form_length(2))
  have md5: "matches dat k Md5 = (case kf_md5 k of None \<Rightarrow> [] | Some x \<Rightarrow> lookup_by_length ?i x)"
    using assms by (cases "kf_md5 k")
      (simp_all add: normal_hashes_def matches_def lookup_by_length_def index_lookups normal_form_length(3))
  show ?thesis
    unfolding verified_candidate_refs_def tail [OF sha256] tail [OF sha1] tail [OF md5]
    by simp
qed

definition agrees :: "dat_rom_ref list \<Rightarrow> audit_verdict \<Rightarrow> bool" where
  "agrees refs v \<longleftrightarrow>
     (case v of
        Exact g r a \<Rightarrow> (\<exists>c. refs = [c] \<and> rr_game_name c = g \<and> rr_rom_name c = r)
      | ExactMultipleCandidates a n names \<Rightarrow> length refs = n \<and> n \<ge> 2 \<and> map rr_game_name refs = names
      | _ \<Rightarrow> refs = [])"

lemma agrees_strong: "cs \<noteq> [] \<Longrightarrow> agrees cs (handle_candidates cs a)"
  by (cases cs; cases "tl cs") (auto simp: handle_candidates_def agrees_def)

lemma agrees_weak: "\<not> is_confident v \<Longrightarrow> agrees [] v"
  by (cases v) (simp_all add: agrees_def)

lemma candidates_agree:
  assumes "normal_hashes k"
  shows "agrees (verified_candidate_refs k (build_index dat)) (audit_one k (build_index dat))"
proof (cases "matches dat k Sha256 = [] \<and> matches dat k Sha1 = [] \<and> matches dat k Md5 = []")
  case True
  then have "\<not> is_confident (audit_one k (build_index dat))"
    unfolding audit_one_cases using audit_crc_weak(1) audit_filename_weak(1) by simp
  then show ?thesis using agrees_weak True by (simp add: candidate_refs_eq [OF assms])
next
  case False
  then show ?thesis
    by (auto simp: candidate_refs_eq [OF assms] audit_one_cases agrees_strong)
qed

text \<open>
  The candidates an annotation shows are those of the verdict: with hashes in the form the
  hashers print, an exact verdict has exactly the one candidate it names, a multiple verdict has
  as many as it says with those names in that order, and any other verdict has none.
\<close>

theorem candidates_agree_with_verdict:
  assumes "normal_hashes k"
  shows "case audit_one k (build_index dat) of
           Exact g r a \<Rightarrow> (\<exists>c. verified_candidate_refs k (build_index dat) = [c] \<and> rr_game_name c = g \<and> rr_rom_name c = r)
         | ExactMultipleCandidates a n names \<Rightarrow>
             length (verified_candidate_refs k (build_index dat)) = n \<and> n \<ge> 2 \<and>
             map rr_game_name (verified_candidate_refs k (build_index dat)) = names
         | _ \<Rightarrow> verified_candidate_refs k (build_index dat) = []"
  using candidates_agree [OF assms] by (simp add: agrees_def)

section \<open>The outcome of a run\<close>

lemma run_Inr:
  assumes "run_dat_audit env req n = (Inr outcome, m)"
  obtains c catalogue scan hashed disks a n1 n2 n3 n4 n5 n6 n7
  where "scan_local_files (re_listing env) (rq_scan_root req) n1 = (Inr scan, n2)"
    and "hash_files env (sc_files scan) n2 = (Inr hashed, n3)"
    and "audit_disk_files env (build_disk_index catalogue) (sc_files scan) n3 = (Inr disks, n4)"
    and "audit_archives env (sc_files scan) (build_index catalogue) disks
           (\<not> sc_truncated scan \<and> sc_complete scan) (pd_games catalogue) (rq_source_id req) (n4 + 1) = (Inr a, n5)"
    and "outcome = finish_run req c catalogue scan hashed disks a"
  using assms unfolding run_dat_audit_def by (auto simp: step_iff split: if_splits)

text \<open>What has been hashed: one record per file that is neither a CHD nor a RAR.\<close>

definition loose :: "path \<Rightarrow> bool" where
  "loose p \<longleftrightarrow> \<not> is_chd_path p \<and> \<not> is_rar_path p"

lemma hash_one_known:
  assumes "hash_one env p h n = (Inr h', n')"
  shows "map kf_filepath (hf_known h') = map kf_filepath (hf_known h) @ filter loose [p]"
  using assms
  by (auto simp: hash_one_def step_iff loose_def Let_def new_evidence_def with_size_def with_crc32_def
      with_md5_def with_sha1_def split: if_splits sum.splits hash_refusal.splits)

lemma hash_loop_known:
  "each (hash_one env) files h n = (Inr h', n') \<Longrightarrow>
   map kf_filepath (hf_known h') = map kf_filepath (hf_known h) @ filter loose files"
proof (induction files arbitrary: h n)
  case (Cons p files)
  obtain h1 n1 where "hash_one env p h n = (Inr h1, n1)" "each (hash_one env) files h1 n1 = (Inr h', n')"
    using Cons.prems by (auto simp: step_iff)
  then show ?case using hash_one_known [of env p h n h1 n1] Cons.IH by simp
qed (simp add: step_iff)

lemma hash_files_known: "hash_files env files n = (Inr h, n') \<Longrightarrow> map kf_filepath (hf_known h) = filter loose files"
  using hash_loop_known [of env files "\<lparr> hf_known = [], hf_unhashed = [], hf_bytes = 0 \<rparr>"] by (simp add: hash_files_def)

lemma report_entries:
  "ar_entries (audit_files known index) =
     map (\<lambda>k. \<lparr> ae_local_path = kf_filepath k, ae_local_filename = audited_filename k,
               ae_verdict = audit_one k index \<rparr>) known"
  by (simp add: audit_files_def Let_def)

lemma annotated_notes: "list_all ranked_note (pu_notes (annotate_with_policy report known index games policy source_id))"
proof -
  have "ranked_note x" if "policy_note index games policy source_id p e = Some x" for p e x
  proof -
    have "\<exists>cs. pn_resolution x = rank_candidates cs policy"
      using that by (cases e; cases "ae_verdict (fst e)") (auto simp: policy_note_def Let_def split: if_splits)
    then show ?thesis by (auto simp: ranked_note_def)
  qed
  then show ?thesis
    by (auto simp: annotate_with_policy_def Let_def list_all_iff mem_map_filter)
qed

text \<open>\<open>read_dir\<close> never yields the entries of the directory itself and its parent.\<close>

definition plain_listing :: "listing_env \<Rightarrow> bool" where
  "plain_listing env \<longleftrightarrow> (\<forall>d items name ty. le_read_dir env d = Some items \<longrightarrow> DirItem name ty \<in> set items \<longrightarrow> name \<noteq> ''..'')"

lemma scanned_names:
  assumes "plain_listing env" and "scan_local_files env root n = (Inr scan, m)" and "p \<in> set (sc_files scan)"
  shows "path_file_name p \<noteq> None"
proof -
  have "p \<in> files_within env root" using scan_files_within [OF assms(2)] assms(3) by blast
  then obtain d items name ty where "le_read_dir env d = Some items" "DirItem name ty \<in> set items" "p = d @ [name]"
    by (auto simp: files_within_def file_in_def)
  moreover from this(1,2) have "name \<noteq> ''..''" using assms(1) unfolding plain_listing_def by blast
  ultimately show ?thesis by (simp add: path_file_name_def)
qed

lemma audited_name: "path_file_name (kf_filepath k) = Some name \<Longrightarrow> audited_filename k = name"
  by (simp add: audited_filename_def)

text \<open>
  C15: Whatever a run answers is fit for planning: every audited file is a file of the folder within
  the depth of the walk and is named by the last component of its path, no CHD and no RAR is ever
  compared as a loose file, and every policy note holds a ranking.
\<close>

theorem run_outcome_fit_for_planning:
  assumes "run_dat_audit env req n = (Inr outcome, m)" and "plain_listing (re_listing env)"
  shows "coherent_entries (ar_entries (ao_report outcome)) \<and> ranked_notes outcome \<and>
    list_all (\<lambda>e. loose (ae_local_path e) \<and> ae_local_path e \<in> files_within (re_listing env) (rq_scan_root req))
      (ar_entries (ao_report outcome))"
proof -
  obtain c catalogue scan hashed disks a n1 n2 n3 where
    scan: "scan_local_files (re_listing env) (rq_scan_root req) n1 = (Inr scan, n2)" and
    hashed: "hash_files env (sc_files scan) n2 = (Inr hashed, n3)" and
    outcome: "outcome = finish_run req c catalogue scan hashed disks a"
    by (rule run_Inr [OF assms(1)]) (rule that)
  have known: "kf_filepath k \<in> set (sc_files scan) \<and> loose (kf_filepath k)" if "k \<in> set (hf_known hashed)" for k
  proof -
    have "kf_filepath k \<in> set (map kf_filepath (hf_known hashed))" using that by simp
    then show ?thesis unfolding hash_files_known [OF hashed] by simp
  qed
  have entries: "ar_entries (ao_report outcome) = ar_entries (audit_files (hf_known hashed) (build_index catalogue))"
    by (simp add: outcome finish_run_def Let_def)
  have "path_file_name (kf_filepath k) = Some (audited_filename k)" if k: "k \<in> set (hf_known hashed)" for k
  proof -
    obtain name where "path_file_name (kf_filepath k) = Some name"
      using scanned_names [OF assms(2) scan] known [OF k] by auto
    with audited_name [OF this] show ?thesis by simp
  qed
  then have "coherent_entries (ar_entries (ao_report outcome))"
    unfolding coherent_entries_def entries report_entries list_all_iff by simp
  moreover have "ranked_notes outcome"
    using annotated_notes by (simp add: ranked_notes_def outcome finish_run_def Let_def split: option.split)
  moreover have "list_all (\<lambda>e. loose (ae_local_path e) \<and>
      ae_local_path e \<in> files_within (re_listing env) (rq_scan_root req)) (ar_entries (ao_report outcome))"
    using known scan_files_within [OF scan] by (auto simp: entries report_entries list_all_iff)
  ultimately show ?thesis by simp
qed

section \<open>Sets a run reports as complete\<close>

definition parsed_games :: "run_env \<Rightarrow> path list \<Rightarrow> dat_game_entry list" where
  "parsed_games env files =
     concat (map (\<lambda>p. case re_parse env p of Inr parsed \<Rightarrow> pd_games parsed | Inl _ \<Rightarrow> []) files)"

text \<open>The games of a source: those of its readable catalogues, in the order of the files.\<close>

definition source_games :: "run_env \<Rightarrow> dat_audit_request \<Rightarrow> dat_game_entry list" where
  "source_games env req =
     (case fst (dat_files_of env req 0) of Inl _ \<Rightarrow> [] | Inr files \<Rightarrow> parsed_games env files)"

definition merged_games :: "parsed_dat option \<Rightarrow> dat_game_entry list" where
  "merged_games merged = (case merged of None \<Rightarrow> [] | Some catalogue \<Rightarrow> pd_games catalogue)"

lemma read_catalogue_games:
  "read_catalogue env p c n = (Inr c', n') \<Longrightarrow>
   merged_games (ct_merged c') = merged_games (ct_merged c) @ parsed_games env [p]"
  by (auto simp: read_catalogue_def step_iff merged_games_def merge_catalogue_def parsed_games_def
      split: sum.splits option.splits)

lemma catalogue_loop_games:
  "each (read_catalogue env) files c n = (Inr c', n') \<Longrightarrow>
   merged_games (ct_merged c') = merged_games (ct_merged c) @ parsed_games env files"
proof (induction files arbitrary: c n)
  case (Cons p files)
  obtain c1 n1 where "read_catalogue env p c n = (Inr c1, n1)" "each (read_catalogue env) files c1 n1 = (Inr c', n')"
    using Cons.prems by (auto simp: step_iff)
  then show ?case using read_catalogue_games [of env p c n c1 n1] Cons.IH by (simp add: parsed_games_def)
qed (simp add: step_iff parsed_games_def)

lemma read_catalogues_games: "read_catalogues env files n = (Inr (c, catalogue), n') \<Longrightarrow> pd_games catalogue = parsed_games env files"
  by (auto simp: read_catalogues_def step_iff merged_games_def split: if_splits option.splits
      dest!: catalogue_loop_games)

lemma dat_files_any: "dat_files_of env req n = (Inr files, n') \<Longrightarrow> fst (dat_files_of env req 0) = Inr files"
  by (auto simp: dat_files_of_def fail_def return_def split: dat_source_kind.splits option.splits sum.splits)

lemma run_games:
  assumes "run_dat_audit env req n = (Inr outcome, m)"
  obtains c catalogue scan hashed disks a n1 n2 n3 n4 n5
  where "pd_games catalogue = source_games env req"
    and "audit_disk_files env (build_disk_index catalogue) (sc_files scan) n3 = (Inr disks, n4)"
    and "scan_local_files (re_listing env) (rq_scan_root req) n1 = (Inr scan, n2)"
    and "audit_archives env (sc_files scan) (build_index catalogue) disks
           (\<not> sc_truncated scan \<and> sc_complete scan) (pd_games catalogue) (rq_source_id req) (n4 + 1) = (Inr a, n5)"
    and "outcome = finish_run req c catalogue scan hashed disks a"
proof -
  obtain files k1 k2 c catalogue k3 where "dat_files_of env req k1 = (Inr files, k2)"
      "read_catalogues env files k2 = (Inr (c, catalogue), k3)"
      "\<exists>scan hashed disks a n1 n2 n3 n4 n5.
        audit_disk_files env (build_disk_index catalogue) (sc_files scan) n3 = (Inr disks, n4) \<and>
        scan_local_files (re_listing env) (rq_scan_root req) n1 = (Inr scan, n2) \<and>
        audit_archives env (sc_files scan) (build_index catalogue) disks
           (\<not> sc_truncated scan \<and> sc_complete scan) (pd_games catalogue) (rq_source_id req) (n4 + 1) = (Inr a, n5) \<and>
        outcome = finish_run req c catalogue scan hashed disks a"
    using assms unfolding run_dat_audit_def by (auto simp: step_iff split: if_splits) blast
  moreover from this(1,2) have "pd_games catalogue = source_games env req"
    using dat_files_any read_catalogues_games by (simp add: source_games_def)
  ultimately show ?thesis using that by blast
qed

text \<open>Every set of the pass comes from an archive of the pass, and a finished archive is stable.\<close>

definition pass_ok ::
    "run_env \<Rightarrow> dat_disk_audit list \<Rightarrow> bool \<Rightarrow> dat_game_entry list \<Rightarrow> string \<Rightarrow> archive_pass \<Rightarrow> bool" where
  "pass_ok env disks dsc games source_id a \<longleftrightarrow>
     (\<forall>r \<in> set (ap_sets a). \<exists>archive \<in> set (ap_archives a).
        r \<in> set (classify_archive_sets archive disks dsc games source_id)) \<and>
     (\<forall>archive \<in> set (ap_archives a). aa_completion archive = PassComplete \<longrightarrow>
        stable_identity env (aa_archive_path archive) \<noteq> None)"

lemma completed_archive_facts:
  "aa_archive_path (fst (completed_archive env index p format outcome bytes)) = p"
  "aa_completion (fst (completed_archive env index p format outcome bytes)) = PassComplete \<Longrightarrow>
   stable_identity env p \<noteq> None"
  by (auto simp: completed_archive_def Let_def split: prod.splits if_splits)

lemma audit_archive_ok:
  assumes ok: "pass_ok env disks dsc games source_id a"
    and step: "audit_archive env index disks dsc games source_id p a n = (Inr b, n')"
  shows "pass_ok env disks dsc games source_id b"
proof -
  let ?a = "if is_rar_path p \<and> ap_rar a = None then a\<lparr>ap_rar := Some (re_rar_failure env)\<rparr> else a"
  have same: "ap_sets ?a = ap_sets a" "ap_archives ?a = ap_archives a" by simp_all
  show ?thesis
  proof (cases "open_archive_source env p (ap_rar ?a)")
    case (Inl err)
    then have b: "b = ?a\<lparr>ap_archives := ap_archives ?a @ [failed_archive env p err]\<rparr>"
      using step by (cases err) (auto simp: audit_archive_def step_iff Let_def)
    show ?thesis using ok unfolding b pass_ok_def by (auto simp: failed_archive_def)
  next
    case (Inr src)
    let ?r = "completed_archive env index p (as_format src) (fst (as_verify_all src (ap_budget ?a))) (ap_bytes ?a)"
    have "ap_sets b = ap_sets a @ classify_archive_sets (fst ?r) disks dsc games source_id"
      "ap_archives b = ap_archives a @ [fst ?r]"
      using step Inr by (auto simp: audit_archive_def step_iff Let_def split: prod.splits)
    then show ?thesis
      using ok completed_archive_facts [of env index p "as_format src"] unfolding pass_ok_def by auto
  qed
qed

lemma audit_archives_ok:
  assumes "audit_archives env files index disks dsc games source_id n = (Inr a, n')"
  shows "pass_ok env disks dsc games source_id a"
  using assms unfolding audit_archives_def
  by (rule each_invariant) (simp add: pass_ok_def, rule audit_archive_ok)

lemma audit_disks_of_run:
  "each (\<lambda>p audits. and_then (cancelled env) (\<lambda>_. return (audits @ [f p]))) files acc n = (Inr disks, n') \<Longrightarrow>
   disks = acc @ map f files"
proof (induction files arbitrary: acc n)
  case (Cons p files)
  then show ?case using Cons.IH [of "acc @ [f p]" "n + 1"] by (auto simp: step_iff)
qed (simp add: step_iff)

lemma matched_path: "sr_archive_path (classify_matched_set archive s dsc identity i game t) = aa_archive_path archive"
  by (simp add: classify_matched_set_def Let_def split: prod.split)

lemma touched_path:
  "classify_touched_set archive s dsc games source_id p = Some r \<Longrightarrow> sr_archive_path r = aa_archive_path archive"
  by (cases p) (auto simp: classify_touched_set_def Let_def empty_resolution_def matched_path split: list.splits prod.splits)

lemma classified_path:
  "r \<in> set (classify_archive_sets archive disks dsc games source_id) \<Longrightarrow> sr_archive_path r = aa_archive_path archive"
  using touched_path by (auto simp: classify_archive_sets_def mem_map_filter)

lemma audit_chd_path: "da_chd_path (audit_chd_disk open_read p index) = p"
  by (simp add: audit_chd_disk_def Let_def malformed_disk_def split: sum.split prod.split)

text \<open>What a complete set of a run rests on.\<close>

definition set_backed ::
    "run_env \<Rightarrow> dat_game_entry list \<Rightarrow> dat_disk_audit list \<Rightarrow> bool \<Rightarrow> string \<Rightarrow> dat_archive_audit \<Rightarrow> bool" where
  "set_backed env games disks dsc name archive \<longleftrightarrow>
     aa_completion archive = PassComplete \<and> stable_identity env (aa_archive_path archive) \<noteq> None \<and>
     (\<exists>i game. filter (\<lambda>(_, c). dg_name c = name) (enumerate 0 games) = [(i, game)] \<and>
        list_all (rom_proved archive games name) (declared_roms i game) \<and>
        list_all (disk_proved disks dsc games name) (declared_disks i game))"

lemma with_report_fields:
  "sr_identity (with_report gr ev r) = sr_identity r" "sr_archive_path (with_report gr ev r) = sr_archive_path r"
  by (simp_all add: with_report_def Let_def)

lemma with_report_complete:
  "sr_state (with_report gr ev r) = SetComplete \<longleftrightarrow>
   sr_state r = SetComplete \<and>
   (\<exists>i. resolve_set gr (si_game_name (sr_identity r)) = SetUnique i \<and>
        list_all (\<lambda>q. rq_outcome q = OutSatisfied) (requirements_for gr ev i))"
  by (simp add: with_report_def Let_def apply_dependency_state_def downgrade_permits report_permits)

lemma run_set_classified:
  assumes "run_dat_audit env req n = (Inr outcome, m)" and "r \<in> set (ao_sets outcome)" and "sr_state r = SetComplete"
  shows "\<exists>archive disks dsc r0. sr_identity r = sr_identity r0 \<and> sr_state r0 = SetComplete \<and>
    r0 \<in> set (classify_archive_sets archive disks dsc (source_games env req) (rq_source_id req))"
proof -
  obtain c catalogue scan hashed disks a n4 n5 where
    games: "pd_games catalogue = source_games env req" and
    archives: "audit_archives env (sc_files scan) (build_index catalogue) disks
       (\<not> sc_truncated scan \<and> sc_complete scan) (pd_games catalogue) (rq_source_id req) (n4 + 1) = (Inr a, n5)" and
    outcome: "outcome = finish_run req c catalogue scan hashed disks a"
    by (rule run_games [OF assms(1)]) (rule that)
  have "\<exists>gr ev. ao_sets outcome = map (with_report gr ev) (ap_sets a)"
    by (auto simp: outcome finish_run_def Let_def resolve_collection_eq simp del: map_eq_conv)
  then obtain gr ev where "ao_sets outcome = map (with_report gr ev) (ap_sets a)" by blast
  then obtain r0 where r0: "r0 \<in> set (ap_sets a)" "r = with_report gr ev r0" using assms(2) by auto
  then have "sr_state r0 = SetComplete" "sr_identity r = sr_identity r0"
    using assms(3) by (simp_all add: with_report_complete with_report_fields)
  then show ?thesis using r0(1) audit_archives_ok [OF archives, unfolded games] unfolding pass_ok_def by blast
qed

text \<open>
  C13: A set that a run reports as complete is proved complete. It comes from an archive of the run
  that was read to the end and was the same file before and after; its name is borne by exactly one
  game of the source's catalogues; every required rom rests on a verified member of that archive and
  every required disk on a CHD header, found in a walk that neither hit a ceiling nor failed to read
  a folder; and every dependency of the set is satisfied by the evidence of the whole run.
\<close>

theorem complete_sets_of_a_run:
  assumes "run_dat_audit env req n = (Inr outcome, m)"
    and "r \<in> set (ao_sets outcome)" and "sr_state r = SetComplete"
  shows "\<exists>archive scan disks ev i.
    archive \<in> set (ao_archives outcome) \<and> aa_archive_path archive = sr_archive_path r \<and>
    set_backed env (source_games env req) disks (\<not> sc_truncated scan \<and> sc_complete scan)
      (si_game_name (sr_identity r)) archive \<and>
    fst (scan_local_files (re_listing env) (rq_scan_root req) i) = Inr scan \<and>
    map da_chd_path disks = filter is_chd_path (sc_files scan) \<and>
    ev = build_evidence (ao_archives outcome) disks (source_games env req)
           (collection_complete (\<not> sc_truncated scan \<and> sc_complete scan) (ao_archives outcome)) \<and>
    (\<exists>j. resolve_set (build_graph (source_games env req)) (si_game_name (sr_identity r)) = SetUnique j \<and>
         list_all (\<lambda>q. rq_outcome q = OutSatisfied)
           (requirements_for (build_graph (source_games env req)) ev j))"
proof -
  obtain c catalogue scan hashed disks a n1 n2 n3 n4 n5 where
    games: "pd_games catalogue = source_games env req" and
    heads: "audit_disk_files env (build_disk_index catalogue) (sc_files scan) n3 = (Inr disks, n4)" and
    scan: "scan_local_files (re_listing env) (rq_scan_root req) n1 = (Inr scan, n2)" and
    archives: "audit_archives env (sc_files scan) (build_index catalogue) disks
       (\<not> sc_truncated scan \<and> sc_complete scan) (pd_games catalogue) (rq_source_id req) (n4 + 1) = (Inr a, n5)" and
    outcome: "outcome = finish_run req c catalogue scan hashed disks a"
    by (rule run_games [OF assms(1)]) (rule that)
  let ?dsc = "\<not> sc_truncated scan \<and> sc_complete scan"
  let ?games = "source_games env req"
  let ?ev = "build_evidence (ao_archives outcome) disks ?games (collection_complete ?dsc (ao_archives outcome))"
  note ok = audit_archives_ok [OF archives, unfolded games]
  have out: "ao_archives outcome = ap_archives a" by (simp add: outcome finish_run_def Let_def)
  have "ao_sets outcome = map (with_report (build_graph ?games) ?ev) (ap_sets a)"
    unfolding out by (simp add: outcome finish_run_def Let_def games resolve_collection_eq)
  then obtain r0 where r0: "r0 \<in> set (ap_sets a)" and r: "r = with_report (build_graph ?games) ?ev r0"
    using assms(2) by auto
  have complete: "sr_state r0 = SetComplete"
      "\<exists>j. resolve_set (build_graph ?games) (si_game_name (sr_identity r0)) = SetUnique j \<and>
         list_all (\<lambda>q. rq_outcome q = OutSatisfied) (requirements_for (build_graph ?games) ?ev j)"
    using assms(3) unfolding r with_report_complete by blast+
  obtain archive where archive: "archive \<in> set (ap_archives a)"
      and from_archive: "r0 \<in> set (classify_archive_sets archive disks ?dsc ?games (rq_source_id req))"
    using ok r0 unfolding pass_ok_def by blast
  note proved = complete_set_evidence [OF from_archive complete(1)]
  have "set_backed env ?games disks ?dsc (si_game_name (sr_identity r0)) archive"
    using proved archive ok unfolding set_backed_def pass_ok_def by blast
  moreover have "map da_chd_path disks = filter is_chd_path (sc_files scan)"
    using audit_disks_of_run [OF heads [unfolded audit_disk_files_def]]
    by (simp add: audit_chd_path comp_def)
  moreover have "fst (scan_local_files (re_listing env) (rq_scan_root req) n1) = Inr scan" using scan by simp
  ultimately show ?thesis
    using archive complete(2) classified_path [OF from_archive] unfolding r with_report_fields out by metis
qed

section \<open>Cancellation\<close>

text \<open>A step that answers has read the flag \<open>j\<close> times or more, and never found it raised.\<close>

definition unstopped :: "listing_env \<Rightarrow> nat \<Rightarrow> 'a step \<Rightarrow> bool" where
  "unstopped env j m \<longleftrightarrow>
     (\<forall>n y n'. m n = (Inr y, n') \<longrightarrow> n + j \<le> n' \<and> (\<forall>k. n \<le> k \<and> k < n' \<longrightarrow> \<not> le_cancel env k))"

lemma unstopped_simple:
  "unstopped env 0 (return x)" "unstopped env j (fail err)" "unstopped (re_listing renv) 1 (cancelled renv)"
  by (auto simp: unstopped_def step_iff less_Suc_eq)

lemma unstopped_less: "unstopped env j m \<Longrightarrow> i \<le> j \<Longrightarrow> unstopped env i m"
  unfolding unstopped_def by (meson add_le_mono le_refl order_trans)

lemma clear_trans:
  fixes a b c :: nat
  shows "\<forall>k. a \<le> k \<and> k < b \<longrightarrow> \<not> le_cancel env k \<Longrightarrow> \<forall>k. b \<le> k \<and> k < c \<longrightarrow> \<not> le_cancel env k \<Longrightarrow>
    \<forall>k. a \<le> k \<and> k < c \<longrightarrow> \<not> le_cancel env k"
  by (meson not_le)

lemma clear_step:
  fixes a c :: nat
  shows "\<not> le_cancel env a \<Longrightarrow> \<forall>k. a + 1 \<le> k \<and> k < c \<longrightarrow> \<not> le_cancel env k \<Longrightarrow>
    \<forall>k. a \<le> k \<and> k < c \<longrightarrow> \<not> le_cancel env k"
  by (metis Suc_eq_plus1 Suc_leI le_neq_implies_less)

lemma unstopped_then:
  assumes "unstopped env i m" and "\<And>x. unstopped env j (k x)"
  shows "unstopped env (i + j) (and_then m k)"
  unfolding unstopped_def
proof (intro allI impI)
  fix n y n' assume "and_then m k n = (Inr y, n')"
  then obtain x n1 where 1: "m n = (Inr x, n1)" and 2: "k x n1 = (Inr y, n')" by (auto simp: step_iff)
  have a: "n + i \<le> n1 \<and> (\<forall>q. n \<le> q \<and> q < n1 \<longrightarrow> \<not> le_cancel env q)" using assms(1) 1 unfolding unstopped_def by blast
  have b: "n1 + j \<le> n' \<and> (\<forall>q. n1 \<le> q \<and> q < n' \<longrightarrow> \<not> le_cancel env q)"
    using assms(2) 2 unfolding unstopped_def by blast
  have "\<not> le_cancel env q" if "n \<le> q \<and> q < n'" for q
    using a b that by (cases "q < n1") simp_all
  then show "n + (i + j) \<le> n' \<and> (\<forall>q. n \<le> q \<and> q < n' \<longrightarrow> \<not> le_cancel env q)"
    using a b by simp
qed

lemma unstopped_then0: "unstopped env i m \<Longrightarrow> (\<And>x. unstopped env 0 (k x)) \<Longrightarrow> unstopped env i (and_then m k)"
  using unstopped_then [of env i m 0 k] by simp

lemma unstopped_each: "(\<And>x s. unstopped env 1 (f x s)) \<Longrightarrow> unstopped env (length xs) (each f xs s)"
proof (induction xs arbitrary: s)
  case Nil
  then show ?case by (simp add: unstopped_simple)
next
  case (Cons x xs)
  then show ?case using unstopped_then [of env 1 "f x s" "length xs" "each f xs"] by simp
qed

lemma unstopped_cases: "(\<And>n. m n = m1 n \<or> m n = m2 n) \<Longrightarrow> unstopped env j m1 \<Longrightarrow> unstopped env j m2 \<Longrightarrow> unstopped env j m"
  unfolding unstopped_def by metis

lemma scan_loop_unstopped:
  "scan_loop env inject n queue st = (Inr scan, n') \<Longrightarrow> n \<le> n' \<and> (\<forall>k. n \<le> k \<and> k < n' \<longrightarrow> \<not> le_cancel env k)"
proof (induction env inject n queue st rule: scan_loop.induct)
  case (1 env inject n st)
  then show ?case by auto
next
  case (2 env inject n d k queue st)
  have eq: "scan_loop env inject n ((d, k) # queue) st = (Inr scan, n')" by (rule 2)
  have go: "\<not> le_cancel env n" using eq by (auto simp: scan_loop.simps(2) [of env inject n d k])
  have "n + 1 \<le> n' \<and> (\<forall>k. n + 1 \<le> k \<and> k < n' \<longrightarrow> \<not> le_cancel env k)"
  proof (cases "inject d")
    case True
    then show ?thesis using 2(1) [OF go True] eq go by (simp add: scan_loop.simps(2) [of env inject n d k])
  next
    case inj: False
    show ?thesis
    proof (cases "le_read_dir env d")
      case None
      then show ?thesis using 2(2) [OF go inj None] eq go inj by (simp add: scan_loop.simps(2) [of env inject n d k])
    next
      case (Some items)
      obtain children st1 where one: "scan_items k d items [] st = (children, st1)"
        by (cases "scan_items k d items [] st") simp
      show ?thesis
      proof (cases "sc_truncated st1 \<and> length (sc_files st1) \<ge> max_scan_files")
        case True
        then show ?thesis using eq go inj Some one by (auto simp: scan_loop.simps(2) [of env inject n d k])
      next
        case False
        then have "scan_loop env inject (n + 1) (queue @ map (\<lambda>c. (c, k + 1)) (sort_by cmp_path children)) st1 = (Inr scan, n')"
          using eq by (simp only: scan_loop.simps(2) [of env inject n d k] go inj Some one if_False option.case
              Let_def prod.case if_not_P [OF False])
        from 2(3) [OF go inj Some one [symmetric] refl refl False this] show ?thesis .
      qed
    qed
  qed
  then show ?case using go by (metis Suc_eq_plus1 Suc_leI Suc_leD le_neq_implies_less)
qed

lemma scan_unstopped: "unstopped env 0 (scan_local_files env root)"
  unfolding unstopped_def scan_local_files_def scan_local_files_impl_def
  by (auto split: if_splits sum.splits prod.splits dest: scan_loop_unstopped)

lemma hash_unstopped: "unstopped (re_listing env) (length files) (hash_files env files)"
proof -
  have "unstopped (re_listing env) 1 (hash_one env p h)" for p h
    unfolding hash_one_def
    by (rule unstopped_then0 [OF unstopped_simple(3)])
      (auto simp: unstopped_simple Let_def split: sum.split hash_refusal.split)
  then show ?thesis unfolding hash_files_def by (rule unstopped_each)
qed

lemma disks_unstopped: "unstopped (re_listing env) 0 (audit_disk_files env index files)"
  unfolding audit_disk_files_def
  by (rule unstopped_less [OF unstopped_each], rule unstopped_then0 [OF unstopped_simple(3)])
    (simp_all add: unstopped_simple)

lemma archives_unstopped: "unstopped (re_listing env) 0 (audit_archives env files index disks dsc games source_id)"
proof -
  have "unstopped (re_listing env) 1 (audit_archive env index disks dsc games source_id p a)" for p a
    unfolding audit_archive_def
    by (rule unstopped_then0 [OF unstopped_simple(3)])
      (auto simp: Let_def unstopped_simple intro!: unstopped_less [OF unstopped_then0 [OF unstopped_simple(3)]]
        split: sum.split archive_source_error.split prod.split)
  then show ?thesis unfolding audit_archives_def by (rule unstopped_less [OF unstopped_each]) simp
qed

lemma catalogues_unstopped: "unstopped (re_listing env) 0 (read_catalogues env files)"
proof -
  have "unstopped (re_listing env) 1 (read_catalogue env p c)" for p c
    unfolding read_catalogue_def by (rule unstopped_then0 [OF unstopped_simple(3)]) (simp add: unstopped_simple)
  then have "unstopped (re_listing env) 0 (each (read_catalogue env) files c)" for c
    by (rule unstopped_less [OF unstopped_each]) simp
  then show ?thesis
    unfolding read_catalogues_def
    by (auto intro!: unstopped_then0 simp: unstopped_simple split: option.split)
qed

text \<open>
  C17: A run that answers was never asked to stop: it reads the cancellation flag at least once for
  every file it found and three times more, and every read, from the first to the last, returned
  false. So a raised flag always ends the run, at the latest before the next file.
\<close>

theorem run_stops_when_asked:
  assumes "run_dat_audit env req 0 = (Inr outcome, m)"
  shows "ao_files_scanned outcome + 3 \<le> m \<and> \<not> list_ex (le_cancel (re_listing env)) [0 ..< m]"
proof -
  let ?env = "re_listing env"
  obtain files c catalogue n1 scan n2 hashed n3 disks n4 a where
    go: "\<not> le_cancel ?env 0" "\<not> le_cancel ?env n1" "\<not> le_cancel ?env n4" and
    catalogues: "read_catalogues env files 1 = (Inr (c, catalogue), n1)" and
    scan: "scan_local_files ?env (rq_scan_root req) (n1 + 1) = (Inr scan, n2)" and
    hashed: "hash_files env (sc_files scan) n2 = (Inr hashed, n3)" and
    disks: "audit_disk_files env (build_disk_index catalogue) (sc_files scan) n3 = (Inr disks, n4)" and
    archives: "audit_archives env (sc_files scan) (build_index catalogue) disks
       (\<not> sc_truncated scan \<and> sc_complete scan) (pd_games catalogue) (rq_source_id req) (n4 + 1) = (Inr a, m)" and
    outcome: "outcome = finish_run req c catalogue scan hashed disks a"
  proof -
    have same: "n' = n" if "dat_files_of env req n = (Inr files, n')" for files n n'
      using that by (auto simp: dat_files_of_def step_iff split: dat_source_kind.splits option.splits sum.splits)
    show ?thesis
      using assms that unfolding run_dat_audit_def by (auto simp: step_iff split: if_splits dest!: same)
  qed
  have steps: "m0 + j \<le> m1 \<and> (\<forall>k. m0 \<le> k \<and> k < m1 \<longrightarrow> \<not> le_cancel ?env k)"
    if "unstopped ?env j f" "f m0 = (Inr y, m1)" for j f m0 y m1
    using that unfolding unstopped_def by blast
  note s = steps [OF catalogues_unstopped catalogues] steps [OF scan_unstopped scan] steps [OF hash_unstopped hashed]
    steps [OF disks_unstopped disks] steps [OF archives_unstopped archives]
  have "\<forall>k. 1 \<le> k \<and> k < m \<longrightarrow> \<not> le_cancel ?env k"
    by (rule clear_trans [OF s(1) [THEN conjunct2]],
        rule clear_step [OF go(2)], rule clear_trans [OF s(2) [THEN conjunct2]],
        rule clear_trans [OF s(3) [THEN conjunct2]], rule clear_trans [OF s(4) [THEN conjunct2]],
        rule clear_step [OF go(3)], rule s(5) [THEN conjunct2])
  then have "\<forall>k. 0 \<le> k \<and> k < m \<longrightarrow> \<not> le_cancel ?env k"
    using clear_step [OF go(1), of m] by simp
  then have "\<not> list_ex (le_cancel ?env) [0 ..< m]" by (simp add: list_ex_iff)
  moreover have "ao_files_scanned outcome = length (sc_files scan)" by (simp add: outcome finish_run_def Let_def)
  then have "ao_files_scanned outcome + 3 \<le> m"
    using s(1,2,3,4,5) [THEN conjunct1] by linarith
  ultimately show ?thesis by simp
qed

end
