(* ===== verification/DatRunExample.thy ===== *)
theory DatRunExample
  imports DatRunProofs DatExample
begin

text \<open>
  One whole run over one folder that holds one archive, in which the hypotheses of the run's
  properties hold: the catalogue of \<open>DatExample\<close>, and a ZIP whose single member has the hash of
  the catalogue's rom.
\<close>

definition small_source :: dat_source where
  "small_source =
     \<lparr> ds_format = Logiqx, ds_ecosystem = GenericLogiqx, ds_file_path = ''/d.dat'', ds_name = Some ''Demo'',
       ds_description = None, ds_version = None, ds_author = None, ds_homepage = None,
       ds_clrmamepro_header = None, ds_entry_count = 2, ds_rom_count = 1, ds_parse_warnings = [] \<rparr>"

definition small_catalogue :: parsed_dat where
  "small_catalogue = \<lparr> pd_source = small_source, pd_games = demo_games \<rparr>"

definition small_listing :: listing_env where
  "small_listing =
     \<lparr> le_absolute = (\<lambda>_. True), le_root_is_dir = (\<lambda>_. Inr True),
       le_read_dir = (\<lambda>p. if p = [''roms''] then Some [DirItem ''s.zip'' (Some EntryFile)] else None),
       le_cancel = (\<lambda>_. False) \<rparr>"

definition small_zip :: archive_source where
  "small_zip =
     \<lparr> as_format = ''zip'',
       as_verify_all = (\<lambda>budget.
         (\<lparr> po_members = [demo_evidence 0], po_total_members = 1,
            po_completion = PassComplete \<rparr>, budget\<lparr>rb_consumed := rb_consumed budget + 3\<rparr>)) \<rparr>"

definition small_env :: run_env where
  "small_env =
     \<lparr> re_listing = small_listing, re_validate = (\<lambda>_. None), re_discover = (\<lambda>p. Inr [p]),
       re_parse = (\<lambda>_. Inr small_catalogue),
       re_hash = (\<lambda>_. Inr \<lparr> fh_size_bytes = 9, fh_crc32 = replicate 8 (CHR ''1''), fh_md5 = replicate 32 (CHR ''1''),
         fh_sha1 = replicate 40 (CHR ''1''), fh_bytes_hashed = 9 \<rparr>),
       re_open_chd = (\<lambda>_. Inl ''none''), re_identity_before = (\<lambda>_. Some demo_object),
       re_identity_after = (\<lambda>_. Some demo_object), re_open_zip = (\<lambda>_. Inr small_zip),
       re_open_7z = (\<lambda>_. Inl SourceCancelled), re_open_rar = (\<lambda>_. Inl SourceCancelled),
       re_rar_failure = None, re_debug = (\<lambda>_. []) \<rparr>"

definition small_request :: dat_audit_request where
  "small_request =
     \<lparr> rq_source_id = ''src'', rq_source_display_name = ''Demo'', rq_dat_path = [''d.dat''], rq_dat_kind = SourceFile,
       rq_scan_root = [''roms''], rq_policy = None, rq_platform = None \<rparr>"


lemmas small_defs = small_source_def small_listing_def small_zip_def small_env_def small_request_def small_catalogue_def

lemma small_fields [simp]:
  "re_listing small_env = small_listing" "le_cancel small_listing = (\<lambda>_. False)"
  "pd_games small_catalogue = demo_games" "pd_source small_catalogue = small_source"
  by (simp_all add: small_defs)

lemma small_paths [simp]:
  "is_chd_path [''roms'', ''s.zip''] = False" "is_rar_path [''roms'', ''s.zip''] = False"
  "is_zip_path [''roms'', ''s.zip''] = True" "file_name_of [''roms'', ''s.zip''] = ''s.zip''"
  by (simp_all add: is_chd_path_def is_rar_path_def is_zip_path_def has_extension_def file_name_of_def path_extension_def
      path_file_name_def rsplit_once_def eq_ignore_ascii_case_def to_ascii_lowercase_def to_ascii_lower_char_def)

definition small_scan :: local_scan where
  "small_scan = \<lparr> sc_files = [[''roms'', ''s.zip'']], sc_truncated = False, sc_complete = True \<rparr>"

lemma small_scanned: "scan_local_files small_listing [''roms''] n = (Inr small_scan, n + 1)"
  by (simp add: scan_local_files_def scan_local_files_impl_def scan_loop.simps(2) small_listing_def small_scan_def
      empty_scan_def max_scan_entries_examined_def max_scan_files_def sort_by_def local_scan.defs)

lemma small_catalogues:
  "read_catalogues small_env [[''d.dat'']] n =
     (Inr (\<lparr> ct_names = [''Demo''], ct_unreadable = [], ct_merged = Some small_catalogue \<rparr>, small_catalogue), n + 1)"
  by (simp add: read_catalogues_def read_catalogue_def and_then_def cancelled_def return_def merge_catalogue_def)
     (simp add: small_defs return_def merge_catalogue_def)

lemma small_slots: "rom_slots small_catalogue = [(sonic_rom, sonic_ref)]"
  by (simp add: rom_slots_def game_rom_slots_def demo_games_def sonic_ref_def sonic_game_def demo_game_def)

definition small_known :: known_file_evidence where
  "small_known = member_known [''roms'', ''s.zip''] (demo_evidence 0) demo_hashes"

lemma small_normal: "normal_hashes small_known"
proof -
  have zeros: "normalise_hex n (replicate n (CHR ''0'')) = Some (replicate n (CHR ''0''))" for n
    by (rule normalise_hex_replicate) (simp_all add: is_ascii_hexdigit_def to_ascii_lower_char_def)
  have hashes: "kf_sha256 small_known = Some (replicate 64 (CHR ''0''))" "kf_sha1 small_known = Some sonic_sha1"
    "kf_md5 small_known = Some (replicate 32 (CHR ''0''))"
    by (simp_all add: small_known_def member_known_def demo_hashes_def new_evidence_def with_size_def with_crc32_def
        with_md5_def with_sha1_def with_sha256_def)
  show ?thesis
    unfolding normal_hashes_def hashes option.case sonic_sha1_normal normalise_sha256_def normalise_md5_def zeros by simp
qed

lemma small_hashes:
  "file_hash small_known Sha1 = Some sonic_sha1" "rom_hash sonic_rom Sha1 = Some sonic_sha1"
  "rom_hash sonic_rom Sha256 = None" "rom_hash sonic_rom Md5 = None"
  using sonic_sha1_normal by (simp_all add: small_known_def member_known_def Let_def demo_hashes_def sonic_rom_def demo_rom_def
    new_evidence_def with_size_def with_crc32_def with_md5_def with_sha1_def with_sha256_def)

lemma small_matches:
  "matches small_catalogue small_known Sha256 = []" "matches small_catalogue small_known Sha1 = [sonic_ref]"
  using small_hashes by (simp_all add: matches_def small_slots split: option.split)

lemma small_verdict: "audit_one small_known (build_index small_catalogue) = Exact ''Sonic'' ''Sonic.bin'' ''SHA-1''"
  unfolding audit_one_cases small_matches
  by (simp add: handle_candidates_def) (simp add: sonic_ref_def rom_ref_def)

lemma small_member:
  "audit_member (build_index small_catalogue) [''roms'', ''s.zip''] False (demo_evidence 0) ([], 0) = ([sonic_member], 3)"
proof -
  have refs: "verified_candidate_refs small_known (build_index small_catalogue) = [sonic_ref]"
    unfolding candidate_refs_eq [OF small_normal] by (simp add: small_matches)
  have "me_status (demo_evidence 0) = HashComplete" "me_hashes (demo_evidence 0) = Some demo_hashes" "me_logical_size (demo_evidence 0) = 3"
    by (simp_all add: demo_evidence_def)
  then show ?thesis
    by (simp add: audit_member_def Let_def small_verdict refs matched_refs_for_verdict_def saturating_add_def
        sonic_member_def flip: small_known_def)
qed

lemma small_archive:
  "completed_archive small_env (build_index small_catalogue) [''roms'', ''s.zip''] ''zip''
     \<lparr> po_members = [demo_evidence 0], po_total_members = 1, po_completion = PassComplete \<rparr> 0 = (demo_archive, 3)"
proof -
  have "stable_identity small_env [''roms'', ''s.zip''] = Some demo_object"
    by (simp add: stable_identity_def small_env_def identity_matches_def)
  then show ?thesis by (simp add: completed_archive_def Let_def small_member demo_archive_def)
qed

definition small_set :: set_resolution where
  "small_set = hd (classify_archive_sets demo_archive [] True demo_games ''src'')"

lemma small_sets:
  "classify_archive_sets demo_archive [] True demo_games ''src'' = [small_set]" "sr_state small_set = SetComplete"
  "si_game_name (sr_identity small_set) = ''Sonic''"
  using demo_set_complete by (auto simp: small_set_def)

lemma small_archives:
  "\<exists>a. audit_archives small_env [[''roms'', ''s.zip'']] (build_index small_catalogue) [] True demo_games ''src'' n =
     (Inr a, n + 2) \<and> ap_archives a = [demo_archive] \<and> ap_sets a = [small_set]"
proof -
  have source: "open_archive_source small_env [''roms'', ''s.zip''] None = Inr small_zip"
    by (simp add: open_archive_source_def) (simp add: small_env_def)
  show ?thesis
    by (simp add: audit_archives_def is_archive_path_def audit_archive_def and_then_def cancelled_def return_def source)
       (simp add: small_zip_def small_archive [simplified] small_sets return_def and_then_def cancelled_def)
qed


section \<open>The run\<close>

definition small_evidence :: collection_evidence where
  "small_evidence = build_evidence [demo_archive] [] demo_games (collection_complete True [demo_archive])"

definition small_report :: set_resolution where
  "small_report = with_report (build_graph demo_games) small_evidence small_set"

lemma small_run:
  obtains outcome where "run_dat_audit small_env small_request 0 = (Inr outcome, 8)"
    and "ao_archives outcome = [demo_archive]" and "ao_sets outcome = [small_report]"
proof -
  let ?n = "Suc (Suc (Suc (Suc (Suc (Suc 0)))))"
  obtain a where a: "audit_archives small_env [[''roms'', ''s.zip'']] (build_index small_catalogue) [] True demo_games ''src'' ?n =
      (Inr a, Suc (Suc ?n))" "ap_archives a = [demo_archive]" "ap_sets a = [small_set]"
    using small_archives [of ?n] by auto
  have files: "dat_files_of small_env small_request n = (Inr [[''d.dat'']], n)" for n
    by (simp add: dat_files_of_def small_env_def small_request_def return_def)
  have request: "rq_scan_root small_request = [''roms'']" "rq_source_id small_request = ''src''"
    by (simp_all add: small_request_def)
  obtain h where h: "re_hash small_env [''roms'', ''s.zip''] = Inr h" by (simp add: small_env_def)
  have "\<exists>hashed. \<forall>n. hash_files small_env [[''roms'', ''s.zip'']] n = (Inr hashed, Suc n)"
    by (simp add: hash_files_def hash_one_def and_then_def cancelled_def return_def Let_def h)
  then obtain hashed where hashed: "hash_files small_env [[''roms'', ''s.zip'']] n = (Inr hashed, Suc n)" for n by auto
  have disks: "audit_disk_files small_env index [[''roms'', ''s.zip'']] n = (Inr [], n)" for index n
    by (simp add: audit_disk_files_def return_def)
  have scan: "sc_files small_scan = [[''roms'', ''s.zip'']]" "sc_complete small_scan" "\<not> sc_truncated small_scan"
    by (simp_all add: small_scan_def)
  let ?c = "\<lparr> ct_names = [''Demo''], ct_unreadable = [], ct_merged = Some small_catalogue \<rparr>"
  have run: "run_dat_audit small_env small_request 0 =
      (Inr (finish_run small_request ?c small_catalogue small_scan hashed [] a), 8)"
    unfolding run_dat_audit_def and_then_def
    by (simp add: cancelled_def files small_catalogues [simplified] small_scanned request scan hashed disks
        a return_def)
  show ?thesis
    by (rule that [OF run])
      (simp_all add: finish_run_def Let_def a scan resolve_collection_eq small_report_def small_evidence_def)
qed

lemma small_report_complete: "sr_state small_report = SetComplete" "si_game_name (sr_identity small_report) = ''Sonic''"
proof -
  have "resolve_set (build_graph demo_games) ''Sonic'' = SetUnique 1" by code_simp
  moreover have "requirements_for (build_graph demo_games) ev 1 = []" for ev by code_simp
  ultimately show "sr_state small_report = SetComplete"
    unfolding small_report_def with_report_complete small_sets by simp
  show "si_game_name (sr_identity small_report) = ''Sonic''" by (simp add: small_report_def with_report_fields small_sets)
qed


section \<open>The guarantees at the example\<close>

theorem scan_sees_everything_witness:
  "\<exists>scan. scan_local_files small_listing [''roms''] 0 = (Inr scan, 1) \<and>
     set (sc_files scan) = files_below small_listing [''roms''] \<and> sc_files scan = [[''roms'', ''s.zip'']]"
  using scan_sees_everything [OF small_scanned [of 0]] small_scanned [of 0] by (auto simp: small_scan_def)

theorem candidates_agree_with_verdict_witness:
  "\<exists>c. verified_candidate_refs small_known (build_index small_catalogue) = [c] \<and>
     rr_game_name c = ''Sonic'' \<and> rr_rom_name c = ''Sonic.bin''"
  using candidates_agree_with_verdict [OF small_normal, of small_catalogue] small_verdict by simp

lemma small_plain: "plain_listing small_listing"
  by (simp add: plain_listing_def small_listing_def)

theorem run_outcome_fit_for_planning_witness:
  "\<exists>outcome. run_dat_audit small_env small_request 0 = (Inr outcome, 8) \<and>
     coherent_entries (ar_entries (ao_report outcome)) \<and> ranked_notes outcome"
proof -
  obtain outcome where "run_dat_audit small_env small_request 0 = (Inr outcome, 8)" by (rule small_run)
  then show ?thesis using run_outcome_fit_for_planning [of small_env small_request 0 outcome 8] small_plain by simp
qed

theorem complete_sets_of_a_run_witness:
  "\<exists>outcome r archive. run_dat_audit small_env small_request 0 = (Inr outcome, 8) \<and> r \<in> set (ao_sets outcome) \<and>
     sr_state r = SetComplete \<and> archive \<in> set (ao_archives outcome) \<and> aa_archive_path archive = sr_archive_path r"
proof -
  obtain outcome where run: "run_dat_audit small_env small_request 0 = (Inr outcome, 8)" "ao_sets outcome = [small_report]"
    by (rule small_run)
  then have "small_report \<in> set (ao_sets outcome)" by simp
  from complete_sets_of_a_run [OF run(1) this small_report_complete(1)] show ?thesis
    using run(1) \<open>small_report \<in> set (ao_sets outcome)\<close> small_report_complete(1) by blast
qed

theorem run_stops_when_asked_witness:
  "\<exists>outcome. run_dat_audit small_env small_request 0 = (Inr outcome, 8) \<and>
     ao_files_scanned outcome + 3 \<le> 8"
proof -
  obtain outcome where "run_dat_audit small_env small_request 0 = (Inr outcome, 8)" by (rule small_run)
  then show ?thesis using run_stops_when_asked [of small_env small_request outcome 8] by simp
qed

end
