(* ===== verification/PathMap.thy ===== *)
theory PathMap
  imports Text Ordering
begin

text \<open>
  Translating a provider's paths into local ones: \<open>identity_source/path_map.rs\<close>. A provider path is
  text from the network; a local prefix is the text of a \<open>PathBuf\<close>, and two of them are equal, or one
  starts with another, by their components.
\<close>

section \<open>Kinds, mappings and refusals\<close>

definition max_provider_path_bytes :: nat where "max_provider_path_bytes = 4096"
definition max_mappings :: nat where "max_mappings = 64"

datatype provider_path_kind = ProviderRelative | AbsoluteProviderPath

definition default_path_kind :: provider_path_kind where "default_path_kind = AbsoluteProviderPath"

fun path_kind_slug :: "provider_path_kind \<Rightarrow> string" where
  "path_kind_slug ProviderRelative = ''relative''"
| "path_kind_slug AbsoluteProviderPath = ''absolute''"

fun path_kind_label :: "provider_path_kind \<Rightarrow> string" where
  "path_kind_label ProviderRelative = ''provider-relative (e.g. roms/gb/game.gb)''"
| "path_kind_label AbsoluteProviderPath = ''absolute (e.g. /romm/library/gb/game.gb)''"

definition parse_path_kind :: "string \<Rightarrow> provider_path_kind option" where
  "parse_path_kind spelling =
     (let s = to_ascii_lowercase (trim spelling) in
      if s = ''relative'' \<or> s = ''provider_relative'' \<or> s = ''provider-relative'' then Some ProviderRelative
      else if s = ''absolute'' \<or> s = ''absolute_provider_path'' \<or> s = ''absolute-provider-path''
      then Some AbsoluteProviderPath
      else None)"

definition begins_with :: "string \<Rightarrow> string \<Rightarrow> bool" where
  "begins_with s p \<longleftrightarrow> prefix p s"

definition observed_in :: "string \<Rightarrow> provider_path_kind" where
  "observed_in p =
     (if begins_with (dropWhile is_whitespace p) [slash] then AbsoluteProviderPath else ProviderRelative)"

record path_mapping =
  mp_provider_prefix :: string
  mp_archivefs_prefix :: string

datatype mapping_refusal =
  EmptyPrefix
| NotAbsolute string string
| UnexpectedlyRelative string string
| UnexpectedlyAbsolute string string
| NonNormalComponent string string
| DotComponent string string
| EmptyComponent string string
| ControlCharacter string nat string
| WindowsSeparator string string
| DrivePrefix string string
| UncPath string string
| TooLong nat nat
| TooMany nat nat
| OutsideTrustedRoots string
| DuplicateDestination string
| DuplicateSource string

primrec mapping_refusal_code :: "mapping_refusal \<Rightarrow> string" where
  "mapping_refusal_code EmptyPrefix = ''empty_prefix''"
| "mapping_refusal_code (NotAbsolute a b) = ''not_absolute''"
| "mapping_refusal_code (UnexpectedlyRelative a b) = ''unexpectedly_relative''"
| "mapping_refusal_code (UnexpectedlyAbsolute a b) = ''unexpectedly_absolute''"
| "mapping_refusal_code (NonNormalComponent a b) = ''non_normal_component''"
| "mapping_refusal_code (DotComponent a b) = ''dot_component''"
| "mapping_refusal_code (EmptyComponent a b) = ''empty_component''"
| "mapping_refusal_code (ControlCharacter a b c) = ''control_character''"
| "mapping_refusal_code (WindowsSeparator a b) = ''windows_separator''"
| "mapping_refusal_code (DrivePrefix a b) = ''drive_prefix''"
| "mapping_refusal_code (UncPath a b) = ''unc_path''"
| "mapping_refusal_code (TooLong a b) = ''too_long''"
| "mapping_refusal_code (TooMany a b) = ''too_many''"
| "mapping_refusal_code (OutsideTrustedRoots a) = ''outside_trusted_roots''"
| "mapping_refusal_code (DuplicateDestination a) = ''duplicate_destination''"
| "mapping_refusal_code (DuplicateSource a) = ''duplicate_source''"

primrec mapping_refusal_detail :: "mapping_refusal \<Rightarrow> string" where
  "mapping_refusal_detail EmptyPrefix = ''a mapping needs both a RomM path and an EmuWiz path''"
| "mapping_refusal_detail (NotAbsolute side value) = ''the '' @ side @ '' path `'' @ value @ ''` must be absolute''"
| "mapping_refusal_detail (UnexpectedlyRelative side value) =
     ''the '' @ side @ '' path `'' @ value @ ''` is relative, but this source is configured for absolute '' @
     ''provider paths; if your RomM reports paths like `roms/gb/game.gb`, run '' @
     ''`configure --path-kind relative`''"
| "mapping_refusal_detail (UnexpectedlyAbsolute side value) =
     ''the '' @ side @ '' path `'' @ value @ ''` is absolute, but this source is configured for '' @
     ''provider-relative paths; if your RomM reports paths like '' @
     ''`/romm/library/gb/game.gb`, run `configure --path-kind absolute`''"
| "mapping_refusal_detail (NonNormalComponent side value) =
     ''the '' @ side @ '' path `'' @ value @ ''` must not contain a `..` component''"
| "mapping_refusal_detail (DotComponent side value) =
     ''the '' @ side @ '' path `'' @ value @ ''` contains a `.` component; it is not repaired, because a '' @
     ''path that needs repairing is one whose meaning is not agreed on''"
| "mapping_refusal_detail (EmptyComponent side value) =
     ''the '' @ side @ '' path `'' @ value @ ''` contains an empty component, from a doubled or trailing separator''"
| "mapping_refusal_detail (ControlCharacter side offset escaped) =
     ''the '' @ side @ '' path contains the control character '' @ escaped @ '' at byte '' @
     nat_to_string offset @ ''; the path is not shown here because printing it would emit that character''"
| "mapping_refusal_detail (WindowsSeparator side value) =
     ''the '' @ side @ '' path `'' @ value @ ''` contains a backslash, which is not treated as a '' @
     ''separator: on Linux it is a legal character in a filename, so reading it as one '' @
     ''would invent a directory level''"
| "mapping_refusal_detail (DrivePrefix side value) =
     ''the '' @ side @ '' path `'' @ value @ ''` starts with a drive letter, which is not supported''"
| "mapping_refusal_detail (UncPath side value) =
     ''the '' @ side @ '' path `'' @ value @ ''` is a UNC network path, which is not supported''"
| "mapping_refusal_detail (TooLong bytes maximum) =
     ''that path is '' @ nat_to_string bytes @ '' bytes, over the '' @ nat_to_string maximum @ ''-byte limit''"
| "mapping_refusal_detail (TooMany n maximum) =
     nat_to_string n @ '' mappings is over the '' @ nat_to_string maximum @ '' this source allows''"
| "mapping_refusal_detail (OutsideTrustedRoots value) =
     ''`'' @ value @ ''` is not inside any configured source folder; an imported identity must '' @
     ''point at a library EmuWiz already knows about''"
| "mapping_refusal_detail (DuplicateDestination value) =
     ''two mappings both translate to `'' @ value @ ''`, which would make the result depend on '' @
     ''which was applied first''"
| "mapping_refusal_detail (DuplicateSource value) = ''two mappings both start from `'' @ value @ ''`''"

section \<open>Normalising a provider path\<close>

definition has_drive_prefix :: "string \<Rightarrow> bool" where
  "has_drive_prefix p =
     (case hd (split_on slash p) of
        [letter, c] \<Rightarrow> c = CHR '':'' \<and> is_ascii_alphabetic letter
      | _ \<Rightarrow> False)"

fun check_parts :: "string \<Rightarrow> string \<Rightarrow> string list \<Rightarrow> mapping_refusal + string list" where
  "check_parts side p [] = Inr []"
| "check_parts side p (part # rest) =
     (if part = [] then Inl (EmptyComponent side p)
      else if part = ''.'' then Inl (DotComponent side p)
      else if part = ''..'' then Inl (NonNormalComponent side p)
      else (case check_parts side p rest of Inl r \<Rightarrow> Inl r | Inr parts \<Rightarrow> Inr (part # parts)))"

definition check_shape :: "provider_path_kind \<Rightarrow> string \<Rightarrow> string \<Rightarrow> mapping_refusal option" where
  "check_shape kind side p =
     (case (kind, begins_with p [slash]) of
        (AbsoluteProviderPath, False) \<Rightarrow> Some (UnexpectedlyRelative side p)
      | (ProviderRelative, True) \<Rightarrow> Some (UnexpectedlyAbsolute side p)
      | _ \<Rightarrow> None)"

definition normalise_provider_path ::
    "string \<Rightarrow> provider_path_kind \<Rightarrow> string \<Rightarrow> mapping_refusal + string" where
  "normalise_provider_path p kind side =
     (if utf8_len p > max_provider_path_bytes then Inl (TooLong (utf8_len p) max_provider_path_bytes)
      else
        (let trimmed = trim p in
         if trimmed = [] then Inl EmptyPrefix
         else
           (case find is_control trimmed of
              Some c \<Rightarrow>
                Inl (ControlCharacter side (utf8_len (takeWhile (\<lambda>c. \<not> is_control c) trimmed)) (escape_debug quote c))
            | None \<Rightarrow>
                if begins_with trimmed [backslash, backslash] \<or> begins_with trimmed [slash, slash]
                then Inl (UncPath side trimmed)
                else if backslash \<in> set trimmed then Inl (WindowsSeparator side trimmed)
                else if has_drive_prefix trimmed then Inl (DrivePrefix side trimmed)
                else
                  (case check_shape kind side trimmed of
                     Some refusal \<Rightarrow> Inl refusal
                   | None \<Rightarrow>
                       if trimmed = [slash] then Inr [slash]
                       else
                         (let absolute = begins_with trimmed [slash];
                              body = (if absolute then tl trimmed else trimmed)
                          in case check_parts side trimmed (split_on slash body) of
                               Inl refusal \<Rightarrow> Inl refusal
                             | Inr parts \<Rightarrow>
                                 (let joined = join_with [slash] parts
                                  in Inr (if absolute then slash # joined else joined)))))))"

definition trim_end_slashes :: "string \<Rightarrow> string" where
  "trim_end_slashes s = rev (dropWhile (\<lambda>c. c = slash) (rev s))"

definition normalise_configured_prefix :: "string \<Rightarrow> provider_path_kind \<Rightarrow> mapping_refusal + string" where
  "normalise_configured_prefix p kind =
     (let trimmed = trim p; stripped = trim_end_slashes trimmed;
          without_trailing = (if stripped = [] \<and> begins_with trimmed [slash] then [slash] else stripped)
      in normalise_provider_path without_trailing kind ''RomM'')"

definition normalise_prefix :: "string \<Rightarrow> provider_path_kind \<Rightarrow> mapping_refusal + string" where
  "normalise_prefix p kind = normalise_configured_prefix p kind"

section \<open>Component prefixes\<close>

definition strip_component_prefix :: "string \<Rightarrow> string \<Rightarrow> string option" where
  "strip_component_prefix p pre =
     (if pre = [slash] then Some (dropWhile (\<lambda>c. c = slash) p)
      else (case strip_prefix pre p of
              None \<Rightarrow> None
            | Some remainder \<Rightarrow> if remainder = [] then Some [] else strip_prefix [slash] remainder))"

definition nonempty_parts :: "string \<Rightarrow> string list" where
  "nonempty_parts p = filter (\<lambda>part. part \<noteq> []) (split_on slash p)"

definition component_count :: "string \<Rightarrow> nat" where
  "component_count p = length (nonempty_parts p)"

text \<open>\<open>PathBuf::push\<close> of a relative component, and comparisons by components.\<close>

definition push_component :: "string \<Rightarrow> string \<Rightarrow> string" where
  "push_component buffer part =
     (if buffer = [] \<or> last buffer = slash then buffer @ part else buffer @ slash # part)"

definition text_is_absolute :: "string \<Rightarrow> bool" where
  "text_is_absolute s \<longleftrightarrow> begins_with s [slash]"

definition containing_root :: "string \<Rightarrow> path list \<Rightarrow> path option" where
  "containing_root candidate roots = find (\<lambda>root. path_starts_with (path_components candidate) root) roots"

definition is_inside_any :: "string \<Rightarrow> path list \<Rightarrow> bool" where
  "is_inside_any candidate roots \<longleftrightarrow> containing_root candidate roots \<noteq> None"

section \<open>Validating a set of mappings\<close>

record path_mappings =
  pm_ordered :: "path_mapping list"
  pm_kind :: provider_path_kind
  pm_trusted_roots :: "path list"

definition validate_mapping ::
    "path list \<Rightarrow> provider_path_kind \<Rightarrow> path_mapping list \<Rightarrow> path_mapping \<Rightarrow> mapping_refusal + path_mapping" where
  "validate_mapping trusted kind validated m =
     (case normalise_configured_prefix (mp_provider_prefix m) kind of
        Inl refusal \<Rightarrow> Inl refusal
      | Inr provider \<Rightarrow>
          (let destination = mp_archivefs_prefix m in
           if destination = [] then Inl EmptyPrefix
           else if \<not> text_is_absolute destination then Inl (NotAbsolute ''EmuWiz'' destination)
           else if ''..'' \<in> set (path_components destination)
           then Inl (NonNormalComponent ''EmuWiz'' destination)
           else if trusted \<noteq> [] \<and> \<not> is_inside_any destination trusted
           then Inl (OutsideTrustedRoots destination)
           else if provider \<in> set (map mp_provider_prefix validated) then Inl (DuplicateSource provider)
           else if path_components destination \<in> set (map (path_components \<circ> mp_archivefs_prefix) validated)
           then Inl (DuplicateDestination destination)
           else Inr \<lparr> mp_provider_prefix = provider, mp_archivefs_prefix = destination \<rparr>))"

fun validate_loop ::
    "path list \<Rightarrow> provider_path_kind \<Rightarrow> path_mapping list \<Rightarrow> path_mapping list \<Rightarrow>
     mapping_refusal + path_mapping list" where
  "validate_loop trusted kind validated [] = Inr validated"
| "validate_loop trusted kind validated (m # ms) =
     (case validate_mapping trusted kind validated m of
        Inl refusal \<Rightarrow> Inl refusal
      | Inr v \<Rightarrow> validate_loop trusted kind (validated @ [v]) ms)"

definition cmp_mapping :: "path_mapping \<Rightarrow> path_mapping \<Rightarrow> cmp_ordering" where
  "cmp_mapping l r =
     then_with (cmp_nat (component_count (mp_provider_prefix r)) (component_count (mp_provider_prefix l)))
       (then_with (cmp_nat (utf8_len (mp_provider_prefix r)) (utf8_len (mp_provider_prefix l)))
          (cmp_string (mp_provider_prefix l) (mp_provider_prefix r)))"

definition validate_mappings ::
    "path_mapping list \<Rightarrow> path list \<Rightarrow> provider_path_kind \<Rightarrow> mapping_refusal + path_mappings" where
  "validate_mappings mappings trusted kind =
     (if length mappings > max_mappings then Inl (TooMany (length mappings) max_mappings)
      else (case validate_loop trusted kind [] mappings of
              Inl refusal \<Rightarrow> Inl refusal
            | Inr validated \<Rightarrow>
                Inr \<lparr> pm_ordered = sort_by cmp_mapping validated, pm_kind = kind, pm_trusted_roots = trusted \<rparr>))"

section \<open>Translating\<close>

datatype path_translation =
  Translated string string provider_path_kind string string "path option"
| Unmatched string string provider_path_kind
| Refused string mapping_refusal

definition translate_with ::
    "path_mappings \<Rightarrow> string \<Rightarrow> string \<Rightarrow> path_mapping \<Rightarrow> string \<Rightarrow> path_translation" where
  "translate_with pm p normalised m relative =
     (let translated = fold (\<lambda>part buffer. push_component buffer part) (nonempty_parts relative)
            (mp_archivefs_prefix m)
      in if \<not> path_starts_with (path_components translated) (path_components (mp_archivefs_prefix m))
         then Refused p (NonNormalComponent ''RomM'' normalised)
         else if pm_trusted_roots pm = []
         then Translated p normalised (pm_kind pm) translated (mp_provider_prefix m) None
         else (case containing_root translated (pm_trusted_roots pm) of
                 None \<Rightarrow> Refused p (OutsideTrustedRoots translated)
               | Some root \<Rightarrow>
                   Translated p normalised (pm_kind pm) translated (mp_provider_prefix m) (Some root)))"

fun translate_loop ::
    "path_mappings \<Rightarrow> string \<Rightarrow> string \<Rightarrow> path_mapping list \<Rightarrow> path_translation" where
  "translate_loop pm p normalised [] = Unmatched p normalised (pm_kind pm)"
| "translate_loop pm p normalised (m # ms) =
     (case strip_component_prefix normalised (mp_provider_prefix m) of
        None \<Rightarrow> translate_loop pm p normalised ms
      | Some relative \<Rightarrow> translate_with pm p normalised m relative)"

definition translate_path :: "path_mappings \<Rightarrow> string \<Rightarrow> path_translation" where
  "translate_path pm p =
     (case normalise_provider_path p (pm_kind pm) ''RomM'' of
        Inl refusal \<Rightarrow> Refused p refusal
      | Inr normalised \<Rightarrow> translate_loop pm p normalised (pm_ordered pm))"

fun translation_archivefs_path :: "path_translation \<Rightarrow> string option" where
  "translation_archivefs_path (Translated _ _ _ q _ _) = Some q"
| "translation_archivefs_path _ = None"

fun is_translated :: "path_translation \<Rightarrow> bool" where
  "is_translated (Translated _ _ _ _ _ _) = True"
| "is_translated _ = False"

fun translation_provider_path :: "path_translation \<Rightarrow> string" where
  "translation_provider_path (Translated p _ _ _ _ _) = p"
| "translation_provider_path (Unmatched p _ _) = p"
| "translation_provider_path (Refused p _) = p"

fun translation_refusal :: "path_translation \<Rightarrow> mapping_refusal option" where
  "translation_refusal (Refused _ r) = Some r"
| "translation_refusal _ = None"

section \<open>Preview\<close>

record mapping_preview =
  mv_translations :: "path_translation list"
  mv_translated :: nat
  mv_unmatched :: nat
  mv_refused :: nat
  mv_observed_relative :: nat
  mv_observed_absolute :: nat
  mv_configured_kind :: provider_path_kind

definition count_observed :: "string \<Rightarrow> mapping_preview \<Rightarrow> mapping_preview" where
  "count_observed p v =
     (case observed_in p of
        ProviderRelative \<Rightarrow> v\<lparr>mv_observed_relative := mv_observed_relative v + 1\<rparr>
      | AbsoluteProviderPath \<Rightarrow> v\<lparr>mv_observed_absolute := mv_observed_absolute v + 1\<rparr>)"

definition count_translation :: "path_translation \<Rightarrow> mapping_preview \<Rightarrow> mapping_preview" where
  "count_translation t v =
     (case t of
        Translated _ _ _ _ _ _ \<Rightarrow> v\<lparr>mv_translated := mv_translated v + 1\<rparr>
      | Unmatched _ _ _ \<Rightarrow> v\<lparr>mv_unmatched := mv_unmatched v + 1\<rparr>
      | Refused _ _ \<Rightarrow> v\<lparr>mv_refused := mv_refused v + 1\<rparr>)"

definition build_preview :: "path_mappings \<Rightarrow> string list \<Rightarrow> mapping_preview" where
  "build_preview pm samples =
     (let translations = map (translate_path pm) samples in
      fold count_translation translations
        (fold count_observed samples
          \<lparr> mv_translations = translations, mv_translated = 0, mv_unmatched = 0, mv_refused = 0,
            mv_observed_relative = 0, mv_observed_absolute = 0, mv_configured_kind = pm_kind pm \<rparr>))"

definition suggested_kind :: "mapping_preview \<Rightarrow> provider_path_kind option" where
  "suggested_kind v =
     (let relative = mv_observed_relative v; absolute = mv_observed_absolute v;
          suggest = (\<lambda>observed. if observed \<noteq> mv_configured_kind v then Some observed else None)
      in if relative = 0 \<and> absolute = 0 then None
         else if relative > absolute then suggest ProviderRelative
         else if absolute > relative then suggest AbsoluteProviderPath
         else None)"

end
