(* ===== verification/PathMapProofs.thy ===== *)
theory PathMapProofs
  imports PathMap
begin

text \<open>
  What a translation guarantees: a provider path is accepted as it is or refused, the mapping used is
  the only longest one whose components the path starts with, the result lies below that mapping's
  destination and inside a trusted root, and the order of the configured mappings is irrelevant.
\<close>

section \<open>Splitting at slashes\<close>

lemma split_on_not_Nil [simp]: "split_on d s \<noteq> []"
  by (cases s) (auto split: list.split)

lemma split_on_sep: "split_on d (a @ d # b) = split_on d a @ split_on d b"
proof (induction a)
  case (Cons c a)
  then show ?case by (cases "split_on d a") (auto simp: split_on_not_Nil)
qed simp

lemma split_on_free: "w \<in> set (split_on d s) \<Longrightarrow> d \<notin> set w"
proof (induction s arbitrary: w)
  case (Cons c s)
  show ?case
  proof (cases "split_on d s")
    case Nil
    then show ?thesis by simp
  next
    case (Cons v vs)
    then show ?thesis using Cons.prems Cons.IH [of v] Cons.IH [of w] by (auto split: if_splits)
  qed
qed simp

lemma join_split [simp]: "join_with [d] (split_on d s) = s"
proof (induction s)
  case (Cons c s)
  then show ?case by (cases "split_on d s"; cases "tl (split_on d s)") auto
qed simp

lemma join_append:
  "xs \<noteq> [] \<Longrightarrow> ys \<noteq> [] \<Longrightarrow> join_with [d] (xs @ ys) = join_with [d] xs @ d # join_with [d] ys"
proof (induction xs)
  case (Cons x xs)
  then show ?case by (cases xs; cases ys) auto
qed simp

lemma prefix_split:
  "prefix (split_on d a) (split_on d s) \<longleftrightarrow> s = a \<or> (\<exists>t. s = a @ d # t)"
proof
  assume "prefix (split_on d a) (split_on d s)"
  then obtain rest where rest: "split_on d s = split_on d a @ rest" by (auto simp: prefix_def)
  show "s = a \<or> (\<exists>t. s = a @ d # t)"
  proof (cases "rest = []")
    case True
    then show ?thesis using rest join_split [of d s] by simp
  next
    case False
    then have "join_with [d] (split_on d s) = a @ d # join_with [d] rest"
      unfolding rest by (simp add: join_append)
    then show ?thesis by auto
  qed
qed (auto simp: split_on_sep)

section \<open>Accepted paths\<close>

definition path_body :: "string \<Rightarrow> string" where
  "path_body n = (if begins_with n [slash] then tl n else n)"

definition usable_part :: "string \<Rightarrow> bool" where
  "usable_part part \<longleftrightarrow> part \<noteq> [] \<and> part \<noteq> ''.'' \<and> part \<noteq> ''..''"

definition acceptable :: "provider_path_kind \<Rightarrow> string \<Rightarrow> bool" where
  "acceptable kind n \<longleftrightarrow>
     n \<noteq> [] \<and> list_all (\<lambda>c. \<not> is_control c) n \<and> backslash \<notin> set n \<and> \<not> has_drive_prefix n \<and>
     (begins_with n [slash] \<longleftrightarrow> kind = AbsoluteProviderPath) \<and>
     (n = [slash] \<or> list_all usable_part (split_on slash (path_body n)))"

lemma check_parts_good: "list_all usable_part ps \<Longrightarrow> check_parts side p ps = Inr ps"
  by (induction ps) (simp_all add: usable_part_def)

lemma check_parts_bad: "\<not> list_all usable_part ps \<Longrightarrow> isl (check_parts side p ps)"
  by (induction ps) (auto simp: usable_part_def split: sum.split)

lemma check_parts_cases:
  "(case check_parts side p ps of Inl r \<Rightarrow> Inl r | Inr parts \<Rightarrow> Inr (f parts)) = Inr n \<longleftrightarrow>
   list_all usable_part ps \<and> n = f ps"
proof (cases "list_all usable_part ps")
  case True
  then show ?thesis by (auto simp: check_parts_good)
next
  case False
  then have "isl (check_parts side p ps)" by (rule check_parts_bad)
  then show ?thesis using False by (auto simp: isl_def)
qed

lemma check_shape_None: "check_shape kind side p = None \<longleftrightarrow> (begins_with p [slash] \<longleftrightarrow> kind = AbsoluteProviderPath)"
  by (cases kind) (auto simp: check_shape_def split: bool.split)

lemma begins_slash: "begins_with n [slash] \<longleftrightarrow> (\<exists>b. n = slash # b)"
  by (cases n) (auto simp: begins_with_def)

lemma acceptable_not_unc:
  assumes "acceptable kind n"
  shows "\<not> begins_with n [backslash, backslash]" "\<not> begins_with n [slash, slash]"
proof -
  show "\<not> begins_with n [backslash, backslash]"
    using assms by (metis acceptable_def begins_with_def list.set_intros(1) set_mono_prefix subsetD)
  show "\<not> begins_with n [slash, slash]"
  proof
    assume "begins_with n [slash, slash]"
    then obtain t where n: "n = slash # slash # t" by (auto simp: begins_with_def prefix_def)
    then have "path_body n = [] @ slash # t" by (simp add: path_body_def begins_slash)
    then have "[] \<in> set (split_on slash (path_body n))" by (simp add: split_on_sep)
    then show False using assms n by (auto simp: acceptable_def list_all_iff usable_part_def)
  qed
qed

lemma normalise_Inr:
  "normalise_provider_path p kind side = Inr n \<longleftrightarrow>
   utf8_len p \<le> max_provider_path_bytes \<and> n = trim p \<and> acceptable kind n"
proof (cases "utf8_len p > max_provider_path_bytes \<or> trim p = []")
  case True
  then show ?thesis by (auto simp: normalise_provider_path_def acceptable_def Let_def)
next
  case False
  show ?thesis
  proof (cases "find is_control (trim p)")
    case (Some c)
    then have "\<not> acceptable kind (trim p)"
      by (metis acceptable_def find_None_iff list_all_iff option.distinct(1))
    then show ?thesis using False Some by (auto simp: normalise_provider_path_def Let_def)
  next
    case None
    let ?t = "trim p"
    have clean: "list_all (\<lambda>c. \<not> is_control c) ?t" using None by (auto simp: find_None_iff list_all_iff)
    show ?thesis
    proof (cases "begins_with ?t [backslash, backslash] \<or> begins_with ?t [slash, slash] \<or> backslash \<in> set ?t \<or>
        has_drive_prefix ?t \<or> check_shape kind side ?t \<noteq> None")
      case True
      then have "\<not> acceptable kind ?t"
        using acceptable_not_unc [of kind ?t] check_shape_None by (auto simp: acceptable_def)
      then show ?thesis
        using False None True
        by (auto simp: normalise_provider_path_def Let_def split: if_splits option.splits)
    next
      case ok: False
      then have shape: "begins_with ?t [slash] \<longleftrightarrow> kind = AbsoluteProviderPath" using check_shape_None by auto
      have "normalise_provider_path p kind side =
        (if ?t = [slash] then Inr [slash]
         else case check_parts side ?t (split_on slash (path_body ?t)) of
           Inl refusal \<Rightarrow> Inl refusal
         | Inr parts \<Rightarrow> Inr (if begins_with ?t [slash] then slash # join_with [slash] parts else join_with [slash] parts))"
        using False None ok
        by (cases "begins_with ?t [slash]") (simp_all add: normalise_provider_path_def Let_def path_body_def split: sum.split)
      moreover have "(if begins_with ?t [slash] then slash # path_body ?t else path_body ?t) = ?t"
        by (auto simp: path_body_def begins_slash)
      ultimately show ?thesis
        using False ok clean shape
        by (auto simp: acceptable_def check_parts_cases)
    qed
  qed
qed

text \<open>The components of an accepted path determine it.\<close>

definition plain_part :: "string \<Rightarrow> bool" where
  "plain_part c \<longleftrightarrow> c \<noteq> [] \<and> c \<noteq> ''.'' \<and> c \<noteq> ''..'' \<and> slash \<notin> set c"

lemma acceptable_parts:
  assumes "acceptable kind n"
  shows "nonempty_parts n = (if n = [slash] then [] else split_on slash (path_body n))"
    and "list_all plain_part (nonempty_parts n)"
proof -
  show eq: "nonempty_parts n = (if n = [slash] then [] else split_on slash (path_body n))"
  proof (cases "n = [slash]")
    case True
    then show ?thesis by (simp add: nonempty_parts_def)
  next
    case False
    then have ne: "\<forall>part \<in> set (split_on slash (path_body n)). part \<noteq> []"
      using assms by (auto simp: acceptable_def list_all_iff usable_part_def)
    have "nonempty_parts n = filter (\<lambda>part. part \<noteq> []) (split_on slash (path_body n))"
    proof (cases "begins_with n [slash]")
      case True
      then obtain b where "n = [] @ slash # b" by (auto simp: begins_slash)
      then show ?thesis using split_on_sep [of slash "[]" b] by (simp add: nonempty_parts_def path_body_def begins_slash)
    next
      case False
      then show ?thesis by (simp add: nonempty_parts_def path_body_def)
    qed
    also have "\<dots> = split_on slash (path_body n)" using ne by simp
    finally show ?thesis using False by simp
  qed
  show "list_all plain_part (nonempty_parts n)"
    using assms split_on_free by (auto simp: eq acceptable_def list_all_iff plain_part_def usable_part_def)
qed

lemma acceptable_text:
  assumes "acceptable kind n"
  shows "n = (if kind = AbsoluteProviderPath then slash # join_with [slash] (nonempty_parts n)
              else join_with [slash] (nonempty_parts n))"
proof (cases "n = [slash]")
  case True
  then have "kind = AbsoluteProviderPath" using assms by (simp add: acceptable_def begins_slash)
  then show ?thesis using True acceptable_parts(1) [OF assms] by simp
next
  case False
  then show ?thesis
    using assms unfolding acceptable_parts(1) [OF assms]
    by (auto simp: acceptable_def path_body_def begins_slash)
qed

text \<open>A path is covered by a mapping whose components it starts with.\<close>

definition covers :: "string \<Rightarrow> string \<Rightarrow> bool" where
  "covers pre n \<longleftrightarrow> prefix (nonempty_parts pre) (nonempty_parts n)"

lemma dropWhile_slash_parts: "nonempty_parts (dropWhile (\<lambda>c. c = slash) n) = nonempty_parts n"
proof (induction n)
  case (Cons c n)
  then show ?case using split_on_sep [of slash "[]" n] by (auto simp: nonempty_parts_def)
qed simp

lemma strip_component_prefix_iff:
  assumes n: "acceptable kind n" and pre: "acceptable kind pre"
  shows "strip_component_prefix n pre \<noteq> None \<longleftrightarrow> covers pre n"
    and "strip_component_prefix n pre = Some rest \<Longrightarrow>
      nonempty_parts rest = drop (component_count pre) (nonempty_parts n)"
proof -
  have root: "nonempty_parts [slash] = []" by (simp add: nonempty_parts_def)
  have "(strip_component_prefix n pre \<noteq> None \<longleftrightarrow> covers pre n) \<and>
    (\<forall>rest. strip_component_prefix n pre = Some rest \<longrightarrow>
      nonempty_parts rest = drop (component_count pre) (nonempty_parts n))"
  proof (cases "pre = [slash]")
    case True
    then show ?thesis
      using dropWhile_slash_parts by (simp add: strip_component_prefix_def covers_def component_count_def root)
  next
    case pre_ne: False
    have strip: "strip_component_prefix n pre = Some rest \<longleftrightarrow> n = pre \<and> rest = [] \<or> n = pre @ slash # rest" for rest
      using pre_ne by (auto simp: strip_component_prefix_def strip_prefix_def prefix_def)
    have same: "begins_with n [slash] = begins_with pre [slash]" using n pre by (simp add: acceptable_def)
    have pre_not_empty: "pre \<noteq> []" using pre by (simp add: acceptable_def)
    have body: "n = pre \<longleftrightarrow> path_body n = path_body pre"
        "n = pre @ slash # t \<longleftrightarrow> path_body n = path_body pre @ slash # t" for t
    proof -
      have "n = path_body n \<and> pre = path_body pre \<or> n = slash # path_body n \<and> pre = slash # path_body pre"
        using same by (auto simp: path_body_def begins_slash)
      then show "n = pre \<longleftrightarrow> path_body n = path_body pre"
        "n = pre @ slash # t \<longleftrightarrow> path_body n = path_body pre @ slash # t"
        by (auto, metis append_Cons list.inject)
    qed
    have parts_pre: "nonempty_parts pre = split_on slash (path_body pre)"
      using acceptable_parts(1) [OF pre] pre_ne by simp
    show ?thesis
    proof (cases "n = [slash]")
      case True
      have "n \<noteq> pre" "\<And>t. n \<noteq> pre @ slash # t" using True pre_ne pre_not_empty by (auto simp: Cons_eq_append_conv)
      then have "strip_component_prefix n pre = None" using strip by (metis option.exhaust)
      moreover have "\<not> covers pre n"
        using True by (simp add: covers_def root parts_pre)
      ultimately show ?thesis by simp
    next
      case False
      then have parts_n: "nonempty_parts n = split_on slash (path_body n)"
        using acceptable_parts(1) [OF n] by simp
      have "covers pre n \<longleftrightarrow> n = pre \<or> (\<exists>t. n = pre @ slash # t)"
        unfolding covers_def parts_pre parts_n prefix_split body by blast
      moreover have "strip_component_prefix n pre \<noteq> None \<longleftrightarrow> n = pre \<or> (\<exists>t. n = pre @ slash # t)"
        using strip by (metis option.exhaust option.distinct(1))
      moreover have "nonempty_parts rest = drop (component_count pre) (nonempty_parts n)"
        if "strip_component_prefix n pre = Some rest" for rest
      proof -
        have "n = pre \<and> rest = [] \<or> n = pre @ slash # rest" using that strip [of rest] by simp
        then consider "n = pre" "rest = []" | "n = pre @ slash # rest" by blast
        then show ?thesis
        proof cases
          case 1
          then show ?thesis by (simp add: component_count_def nonempty_parts_def)
        next
          case 2
          then have "nonempty_parts n = nonempty_parts pre @ nonempty_parts rest"
            by (simp add: nonempty_parts_def split_on_sep)
          then show ?thesis by (simp add: component_count_def)
        qed
      qed
      ultimately show ?thesis by simp
    qed
  qed
  then show "strip_component_prefix n pre \<noteq> None \<longleftrightarrow> covers pre n"
    and "strip_component_prefix n pre = Some rest \<Longrightarrow>
      nonempty_parts rest = drop (component_count pre) (nonempty_parts n)"
    by blast+
qed


section \<open>Validated mappings\<close>

text \<open>What one mapping is turned into, and when it may stand by itself.\<close>

definition checked_mapping :: "path list \<Rightarrow> provider_path_kind \<Rightarrow> path_mapping \<Rightarrow> path_mapping option" where
  "checked_mapping trusted kind m =
     (case validate_mapping trusted kind [] m of Inl _ \<Rightarrow> None | Inr v \<Rightarrow> Some v)"

definition clash_free :: "path_mapping list \<Rightarrow> bool" where
  "clash_free vs \<longleftrightarrow> distinct (map mp_provider_prefix vs) \<and> distinct (map (path_components \<circ> mp_archivefs_prefix) vs)"

lemma validate_mapping_Inr:
  "validate_mapping trusted kind validated m = Inr v \<longleftrightarrow>
   checked_mapping trusted kind m = Some v \<and>
   mp_provider_prefix v \<notin> set (map mp_provider_prefix validated) \<and>
   path_components (mp_archivefs_prefix v) \<notin> set (map (path_components \<circ> mp_archivefs_prefix) validated)"
  by (auto simp: validate_mapping_def checked_mapping_def Let_def split: sum.split)

lemma checked_mapping_Some:
  assumes "checked_mapping trusted kind m = Some v"
  shows "acceptable kind (mp_provider_prefix v)" "text_is_absolute (mp_archivefs_prefix v)"
    "''..'' \<notin> set (path_components (mp_archivefs_prefix v))"
    "trusted = [] \<or> is_inside_any (mp_archivefs_prefix v) trusted"
  using assms
  by (auto simp: checked_mapping_def validate_mapping_def normalise_configured_prefix_def Let_def normalise_Inr
      split: sum.splits if_splits)

lemma validate_loop_Inr:
  "clash_free acc \<Longrightarrow>
   validate_loop trusted kind acc ms = Inr vs \<longleftrightarrow>
   (\<exists>xs. map (checked_mapping trusted kind) ms = map Some xs \<and> vs = acc @ xs \<and> clash_free vs)"
proof (induction ms arbitrary: acc)
  case Nil
  then show ?case by auto
next
  case (Cons m ms)
  show ?case
  proof (cases "validate_mapping trusted kind acc m")
    case (Inl r)
    have "\<not> clash_free (acc @ v # xs)" if "checked_mapping trusted kind m = Some v" for v xs
      using that Inl validate_mapping_Inr [of trusted kind acc m v] by (auto simp: clash_free_def)
    then show ?thesis using Inl by (auto simp: Cons_eq_map_conv)
  next
    case (Inr v)
    then have one: "checked_mapping trusted kind m = Some v" and free: "clash_free (acc @ [v])"
      using validate_mapping_Inr [of trusted kind acc m v] Cons.prems by (auto simp: clash_free_def)
    show ?thesis using Cons.IH [OF free] Inr one by (auto simp: Cons_eq_map_conv)
  qed
qed

lemma total_cmp_mapping: "total_cmp cmp_mapping"
  unfolding cmp_mapping_def
  by (intro total_cmp_then)
    (rule total_cmp_key [OF total_cmp_reverse [OF nats.total_cmp_axioms]]
      total_cmp_key [OF strings.total_cmp_axioms])+

interpretation mappings: total_cmp cmp_mapping
  by (rule total_cmp_mapping)

lemma validate_mappings_Inr:
  "validate_mappings ms trusted kind = Inr pm \<longleftrightarrow>
   length ms \<le> max_mappings \<and>
   (\<exists>xs. map (checked_mapping trusted kind) ms = map Some xs \<and> clash_free xs \<and>
      pm = \<lparr> pm_ordered = sort_by cmp_mapping xs, pm_kind = kind, pm_trusted_roots = trusted \<rparr>)"
  using validate_loop_Inr [of "[]" trusted kind ms]
  by (auto simp: validate_mappings_def clash_free_def split: sum.split)

lemma validated_mapping:
  assumes "validate_mappings ms trusted kind = Inr pm" and "m \<in> set (pm_ordered pm)"
  shows "acceptable kind (mp_provider_prefix m)" "trusted = [] \<or> is_inside_any (mp_archivefs_prefix m) trusted"
    "''..'' \<notin> set (path_components (mp_archivefs_prefix m))"
proof -
  obtain xs where "map (checked_mapping trusted kind) ms = map Some xs" "m \<in> set xs"
    using assms by (auto simp: validate_mappings_Inr)
  then have "Some m \<in> set (map (checked_mapping trusted kind) ms)" by simp
  then obtain m0 where "checked_mapping trusted kind m0 = Some m" by auto
  then show "acceptable kind (mp_provider_prefix m)" "trusted = [] \<or> is_inside_any (mp_archivefs_prefix m) trusted"
    "''..'' \<notin> set (path_components (mp_archivefs_prefix m))"
    by (rule checked_mapping_Some)+
qed

lemma mset_map_Some:
  assumes "mset ys = mset ms" and "map f ms = map Some xs"
  obtains zs where "map f ys = map Some zs" and "mset zs = mset xs"
proof -
  have "set (map f ys) \<subseteq> range Some" using assms by (metis image_subset_iff list.set_map mset_eq_setD rangeI subsetI imageE)
  then have "\<forall>y \<in> set ys. f y \<noteq> None" by auto
  then have zs: "map f ys = map Some (map (the \<circ> f) ys)" by auto
  have "image_mset Some (mset (map (the \<circ> f) ys)) = image_mset Some (mset xs)"
    using assms by (metis mset_map zs)
  from arg_cong [OF this, of "image_mset the"] have "mset (map (the \<circ> f) ys) = mset xs"
    by (simp add: multiset.map_comp comp_def)
  then show ?thesis using zs that by blast
qed

text \<open>The same mappings in another order give the same validated set.\<close>

lemma validate_order:
  assumes "validate_mappings ms trusted kind = Inr pm" and "mset ys = mset ms"
  shows "validate_mappings ys trusted kind = Inr pm"
proof -
  obtain xs where xs: "length ms \<le> max_mappings" "map (checked_mapping trusted kind) ms = map Some xs" "clash_free xs"
      "pm = \<lparr> pm_ordered = sort_by cmp_mapping xs, pm_kind = kind, pm_trusted_roots = trusted \<rparr>"
    using assms(1) validate_mappings_Inr by blast
  obtain zs where zs: "map (checked_mapping trusted kind) ys = map Some zs" "mset zs = mset xs"
    by (rule mset_map_Some [OF assms(2) xs(2)])
  have free: "clash_free zs" using xs(3) zs(2) unfolding clash_free_def by (metis mset_eq_imp_distinct_iff mset_map)
  have "sort_by cmp_mapping zs = sort_by cmp_mapping xs"
  proof (rule mappings.sort_by_input_order [OF _ zs(2)])
    fix x y assume "x \<in> set zs" "y \<in> set zs" "cmp_mapping x y = Equal"
    then show "x = y" using free by (auto simp: cmp_mapping_def clash_free_def distinct_map inj_on_def)
  qed
  moreover have "length ys \<le> max_mappings" using xs(1) assms(2) by (metis size_mset)
  ultimately show ?thesis unfolding validate_mappings_Inr xs(4) using zs(1) free by (intro conjI exI [of _ zs]) simp_all
qed

section \<open>Translations\<close>

lemma path_components_split: "path_components s = filter (\<lambda>c. c \<noteq> ''.'') (nonempty_parts s)"
  by (simp add: path_components_def nonempty_parts_def conj_commute)

lemma push_component_components:
  assumes "plain_part c"
  shows "path_components (push_component b c) = path_components b @ [c]"
proof -
  have c: "split_on slash c = [c]" "c \<noteq> []" "c \<noteq> ''.''" using assms by (simp_all add: plain_part_def split_on_no_sep)
  show ?thesis
  proof (cases "b = [] \<or> last b = slash")
    case True
    show ?thesis
    proof (cases "b = []")
      case True
      then show ?thesis using c by (simp add: push_component_def path_components_def)
    next
      case False
      then obtain b' where b: "b = b' @ slash # []" using True by (metis append_butlast_last_id)
      have "push_component b c = b' @ slash # c" using b by (simp add: push_component_def)
      then show ?thesis using c unfolding b path_components_def by (simp add: split_on_sep del: append_Cons)
    qed
  next
    case False
    then show ?thesis using c by (simp add: push_component_def path_components_def split_on_sep)
  qed
qed

lemma fold_push_components:
  "list_all plain_part cs \<Longrightarrow>
   path_components (fold (\<lambda>part buffer. push_component buffer part) cs b) = path_components b @ cs"
  by (induction cs arbitrary: b) (simp_all add: push_component_components)

lemma translate_loop_cases:
  "translate_loop pm p n ms =
   (case find (\<lambda>m. strip_component_prefix n (mp_provider_prefix m) \<noteq> None) ms of
      None \<Rightarrow> Unmatched p n (pm_kind pm)
    | Some m \<Rightarrow> translate_with pm p n m (the (strip_component_prefix n (mp_provider_prefix m))))"
  by (induction ms) (auto split: option.split)

lemma containing_root_Some: "containing_root q roots = Some r \<Longrightarrow> r \<in> set roots \<and> prefix r (path_components q)"
  by (auto simp: containing_root_def find_Some_iff path_starts_with_def)

lemma containing_root_below:
  assumes "is_inside_any d roots" and "prefix (path_components d) (path_components q)"
  shows "containing_root q roots \<noteq> None"
  using assms unfolding is_inside_any_def containing_root_def path_starts_with_def find_None_iff
  by (meson prefix_order.order_trans)


definition translation_of :: "path_mappings \<Rightarrow> string \<Rightarrow> path_mapping \<Rightarrow> path_translation \<Rightarrow> bool" where
  "translation_of pm n m t \<longleftrightarrow>
     (\<exists>p q root. t = Translated p n (pm_kind pm) q (mp_provider_prefix m) root \<and>
        path_components q = path_components (mp_archivefs_prefix m) @
          drop (component_count (mp_provider_prefix m)) (nonempty_parts n) \<and>
        (case root of
           None \<Rightarrow> pm_trusted_roots pm = []
         | Some r \<Rightarrow> r \<in> set (pm_trusted_roots pm) \<and> prefix r (path_components q)))"

lemma translate_with_ok:
  assumes n: "acceptable (pm_kind pm) n" and pre: "acceptable (pm_kind pm) (mp_provider_prefix m)"
    and rest: "strip_component_prefix n (mp_provider_prefix m) = Some rest"
    and inside: "pm_trusted_roots pm = [] \<or> is_inside_any (mp_archivefs_prefix m) (pm_trusted_roots pm)"
  shows "translation_of pm n m (translate_with pm p n m rest)"
proof -
  let ?q = "fold (\<lambda>part buffer. push_component buffer part) (nonempty_parts rest) (mp_archivefs_prefix m)"
  have parts: "nonempty_parts rest = drop (component_count (mp_provider_prefix m)) (nonempty_parts n)"
    by (rule strip_component_prefix_iff(2) [OF n pre rest])
  have "list_all plain_part (nonempty_parts rest)"
    using acceptable_parts(2) [OF n] unfolding parts by (auto simp: list_all_iff dest: in_set_dropD)
  then have q: "path_components ?q = path_components (mp_archivefs_prefix m) @ nonempty_parts rest"
    by (rule fold_push_components)
  then have below: "prefix (path_components (mp_archivefs_prefix m)) (path_components ?q)" by simp
  show ?thesis
  proof (cases "pm_trusted_roots pm = []")
    case True
    then show ?thesis
      using below q parts by (simp add: translate_with_def Let_def path_starts_with_def translation_of_def)
  next
    case False
    then have "containing_root ?q (pm_trusted_roots pm) \<noteq> None"
      using containing_root_below [OF _ below] inside by simp
    then obtain r where r: "containing_root ?q (pm_trusted_roots pm) = Some r" by blast
    show ?thesis
      using below q parts False r containing_root_Some [OF r]
      by (simp add: translate_with_def Let_def path_starts_with_def translation_of_def)
  qed
qed

lemma covers_count: "covers pre n \<Longrightarrow> take (component_count pre) (nonempty_parts n) = nonempty_parts pre"
  by (auto simp: covers_def component_count_def prefix_def)

lemma translate_cases:
  assumes valid: "validate_mappings ms trusted kind = Inr pm" and n: "normalise_provider_path p kind ''RomM'' = Inr n"
  shows "(case find (\<lambda>m. covers (mp_provider_prefix m) n) (pm_ordered pm) of
            None \<Rightarrow> translate_path pm p = Unmatched p n kind
          | Some m \<Rightarrow> translation_of pm n m (translate_path pm p))"
    and "find (\<lambda>m. covers (mp_provider_prefix m) n) (pm_ordered pm) = Some m \<Longrightarrow>
      m \<in> set (pm_ordered pm) \<and> covers (mp_provider_prefix m) n \<and>
      list_all (\<lambda>k. k = m \<or> component_count (mp_provider_prefix k) < component_count (mp_provider_prefix m))
        (filter (\<lambda>k. covers (mp_provider_prefix k) n) (pm_ordered pm))"
proof -
  obtain xs where xs: "map (checked_mapping trusted kind) ms = map Some xs" "clash_free xs"
      and pm: "pm = \<lparr> pm_ordered = sort_by cmp_mapping xs, pm_kind = kind, pm_trusted_roots = trusted \<rparr>"
    using valid validate_mappings_Inr by blast
  have acc: "acceptable kind n" using n normalise_Inr by blast
  have kind: "pm_kind pm = kind" by (simp add: pm)
  have inj: "inj_on mp_provider_prefix (set (pm_ordered pm))"
    using xs(2) by (simp add: pm clash_free_def distinct_map)
  note each = validated_mapping(1,2) [OF valid]
  have "find (\<lambda>m. strip_component_prefix n (mp_provider_prefix m) \<noteq> None) (pm_ordered pm) =
      find (\<lambda>m. covers (mp_provider_prefix m) n) (pm_ordered pm)"
    by (rule find_cong, rule refl, rule strip_component_prefix_iff(1) [OF acc each(1)])
  then have loop: "translate_path pm p =
      (case find (\<lambda>m. covers (mp_provider_prefix m) n) (pm_ordered pm) of
         None \<Rightarrow> Unmatched p n (pm_kind pm)
       | Some m \<Rightarrow> translate_with pm p n m (the (strip_component_prefix n (mp_provider_prefix m))))"
    using n kind by (simp add: translate_path_def translate_loop_cases)
  show "case find (\<lambda>m. covers (mp_provider_prefix m) n) (pm_ordered pm) of
            None \<Rightarrow> translate_path pm p = Unmatched p n kind
          | Some m \<Rightarrow> translation_of pm n m (translate_path pm p)"
  proof (cases "find (\<lambda>m. covers (mp_provider_prefix m) n) (pm_ordered pm)")
    case None
    then show ?thesis using loop by (simp add: pm)
  next
    case (Some m)
    then have m: "m \<in> set (pm_ordered pm)" "covers (mp_provider_prefix m) n" by (auto simp: find_Some_iff)
    then obtain rest where "strip_component_prefix n (mp_provider_prefix m) = Some rest"
      using strip_component_prefix_iff(1) [OF acc each(1)] by blast
    then show ?thesis using translate_with_ok [of pm n m rest p] acc each [OF m(1)] loop Some by (simp add: pm)
  qed
  assume found: "find (\<lambda>m. covers (mp_provider_prefix m) n) (pm_ordered pm) = Some m"
  then obtain i where i: "i < length (pm_ordered pm)" "covers (mp_provider_prefix (pm_ordered pm ! i)) n"
      "m = pm_ordered pm ! i" "\<forall>j < i. \<not> covers (mp_provider_prefix (pm_ordered pm ! j)) n"
    by (auto simp: find_Some_iff)
  have sorted: "mappings.sorted_cmp (pm_ordered pm)" by (simp add: pm mappings.sorted_sort_by)
  have "k = m \<or> component_count (mp_provider_prefix k) < component_count (mp_provider_prefix m)"
    if k: "k \<in> set (pm_ordered pm)" "covers (mp_provider_prefix k) n" for k
  proof -
    obtain j where j: "j < length (pm_ordered pm)" "k = pm_ordered pm ! j" using k(1) by (metis in_set_conv_nth)
    then have "i \<le> j" using i(4) k(2) by (meson not_le)
    then have "k = m \<or> cmp_mapping m k \<noteq> Greater"
      using sorted i(1,3) j by (cases "i = j") (auto simp: sorted_wrt_iff_nth_less)
    then have "k = m \<or> component_count (mp_provider_prefix k) \<le> component_count (mp_provider_prefix m)"
      by (auto simp: cmp_mapping_def cmp_nat_def split: if_splits)
    moreover have mem: "m \<in> set (pm_ordered pm)" using i(1,3) by simp
    moreover have "k = m" if "component_count (mp_provider_prefix k) = component_count (mp_provider_prefix m)"
    proof -
      have "nonempty_parts (mp_provider_prefix k) = nonempty_parts (mp_provider_prefix m)"
        using covers_count [OF k(2)] covers_count [OF i(2)] i(3) that by simp
      then have "mp_provider_prefix k = mp_provider_prefix m"
        using acceptable_text [OF each(1) [OF k(1)]] acceptable_text [OF each(1) [OF mem]] by metis
      then show "k = m"
        using inj k(1) mem by (simp add: inj_onD)
    qed
    ultimately show ?thesis by linarith
  qed
  then show "m \<in> set (pm_ordered pm) \<and> covers (mp_provider_prefix m) n \<and>
      list_all (\<lambda>k. k = m \<or> component_count (mp_provider_prefix k) < component_count (mp_provider_prefix m))
        (filter (\<lambda>k. covers (mp_provider_prefix k) n) (pm_ordered pm))"
    using i(1-3) by (auto simp: list_all_iff)
qed


section \<open>Guarantees\<close>

text \<open>
  Nothing is repaired. A provider path is accepted exactly when it is short enough and its text,
  without outer white space, is already in the declared shape: no control character, no backslash, no
  drive letter, and no empty, \<open>.\<close> or \<open>..\<close> component. The accepted form is that text, unchanged.
\<close>

theorem provider_path_never_repaired:
  "normalise_provider_path p kind side = Inr n \<longleftrightarrow>
   utf8_len p \<le> max_provider_path_bytes \<and> n = trim p \<and> n \<noteq> [] \<and>
   list_all (\<lambda>c. \<not> is_control c) n \<and> backslash \<notin> set n \<and> \<not> has_drive_prefix n \<and>
   (begins_with n [slash] \<longleftrightarrow> kind = AbsoluteProviderPath) \<and>
   (n = [slash] \<or> list_all (\<lambda>part. part \<noteq> [] \<and> part \<noteq> ''.'' \<and> part \<noteq> ''..'')
      (split_on slash (if begins_with n [slash] then tl n else n)))"
  unfolding normalise_Inr acceptable_def path_body_def usable_part_def [abs_def] by simp

text \<open>
  C27: Remote text stays inside the trusted roots. A translation under validated mappings uses the one
  mapping with the most components among all whose components the path starts with, never a sibling
  that only shares a string prefix; it appends the remaining components, none of them \<open>..\<close>, to that
  mapping's destination, and the result is inside a trusted root whenever there are any. A path is
  unmatched exactly when no mapping covers it, and refused only for its own text.
\<close>

theorem translation_confined:
  assumes "validate_mappings ms trusted kind = Inr pm"
  shows "case translate_path pm p of
      Translated p' n k q pre root \<Rightarrow> p' = p \<and> n = trim p \<and> k = kind \<and>
        (\<exists>m \<in> set (pm_ordered pm). pre = mp_provider_prefix m \<and> covers pre n \<and>
           path_components q = path_components (mp_archivefs_prefix m) @ drop (component_count pre) (nonempty_parts n) \<and>
           ''..'' \<notin> set (path_components q) \<and>
           list_all (\<lambda>k. k = m \<or> component_count (mp_provider_prefix k) < component_count pre)
             (filter (\<lambda>k. covers (mp_provider_prefix k) n) (pm_ordered pm))) \<and>
        (root = None \<and> trusted = [] \<or> (\<exists>r \<in> set trusted. root = Some r \<and> prefix r (path_components q)))
    | Unmatched p' n k \<Rightarrow> p' = p \<and> n = trim p \<and> k = kind \<and>
        filter (\<lambda>k. covers (mp_provider_prefix k) n) (pm_ordered pm) = []
    | Refused p' r \<Rightarrow> p' = p \<and> normalise_provider_path p kind ''RomM'' = Inl r"
proof (cases "normalise_provider_path p kind ''RomM''")
  case (Inl r)
  moreover have "pm_kind pm = kind" using assms by (auto simp: validate_mappings_Inr)
  ultimately show ?thesis by (simp add: translate_path_def)
next
  case n: (Inr n)
  have pm: "pm_kind pm = kind" "pm_trusted_roots pm = trusted" using assms by (auto simp: validate_mappings_Inr)
  have acc: "acceptable kind n" "n = trim p" using n normalise_Inr by blast+
  note outcome = translate_cases(1) [OF assms n]
  show ?thesis
  proof (cases "find (\<lambda>m. covers (mp_provider_prefix m) n) (pm_ordered pm)")
    case None
    then have "translate_path pm p = Unmatched p n kind" using outcome by simp
    moreover have "filter (\<lambda>k. covers (mp_provider_prefix k) n) (pm_ordered pm) = []"
      using None by (simp add: find_None_iff filter_empty_conv)
    ultimately show ?thesis using acc by simp
  next
    case (Some m)
    note best = translate_cases(2) [OF assms n Some]
    have dest: "''..'' \<notin> set (path_components (mp_archivefs_prefix m))"
      using validated_mapping(3) [OF assms] best by simp
    have "''..'' \<notin> set (drop i (nonempty_parts n))" for i
      using acceptable_parts(2) [OF acc(1)] by (auto simp: list_all_iff plain_part_def dest: in_set_dropD)
    moreover obtain p' q root where "translate_path pm p = Translated p' n kind q (mp_provider_prefix m) root"
        "path_components q = path_components (mp_archivefs_prefix m) @
          drop (component_count (mp_provider_prefix m)) (nonempty_parts n)"
        "case root of None \<Rightarrow> trusted = [] | Some r \<Rightarrow> r \<in> set trusted \<and> prefix r (path_components q)"
      using outcome [unfolded translation_of_def pm] Some by auto
    moreover have "p' = p" using calculation(2)
      by (auto simp: translate_path_def n pm translate_loop_cases translate_with_def Let_def
          split: option.splits if_splits)
    ultimately show ?thesis using best acc dest by (auto split: option.splits)
  qed
qed

text \<open>
  The order in which the mappings are configured never matters.
\<close>

theorem mapping_order_irrelevant:
  assumes "validate_mappings ms trusted kind = Inr pm" and "mset ys = mset ms"
  shows "validate_mappings ys trusted kind = Inr pm"
  by (rule validate_order [OF assms])

section \<open>An example\<close>

definition demo_mappings :: "path_mapping list" where
  "demo_mappings =
     [\<lparr> mp_provider_prefix = ''roms/'', mp_archivefs_prefix = ''/mnt/roms'' \<rparr>,
      \<lparr> mp_provider_prefix = ''roms/retro'', mp_archivefs_prefix = ''/mnt/old'' \<rparr>]"

definition demo_path_mappings :: path_mappings where
  "demo_path_mappings = projr (validate_mappings demo_mappings [[''mnt'']] ProviderRelative)"

lemma demo_mappings_valid: "validate_mappings demo_mappings [[''mnt'']] ProviderRelative = Inr demo_path_mappings"
proof -
  have "\<not> isl (validate_mappings demo_mappings [[''mnt'']] ProviderRelative)" by code_simp
  then show ?thesis by (simp add: demo_path_mappings_def)
qed

lemma demo_translations:
  "map (\<lambda>p. translation_archivefs_path (translate_path demo_path_mappings p))
     [''roms/gb/x.gb'', ''roms/retro/y.zip'', ''roms-backup/x.gb'', ''roms/../etc''] =
   [Some ''/mnt/roms/gb/x.gb'', Some ''/mnt/old/y.zip'', None, None]"
  by code_simp

theorem translation_confined_witness:
  "\<exists>q. translation_archivefs_path (translate_path demo_path_mappings ''roms/retro/y.zip'') = Some q \<and>
     prefix [''mnt''] (path_components q)"
proof -
  have "is_translated (translate_path demo_path_mappings ''roms/retro/y.zip'')" by code_simp
  then show ?thesis
    using translation_confined [OF demo_mappings_valid, of "''roms/retro/y.zip''"]
    by (cases "translate_path demo_path_mappings ''roms/retro/y.zip''") auto
qed

theorem mapping_order_irrelevant_witness:
  "validate_mappings (rev demo_mappings) [[''mnt'']] ProviderRelative = Inr demo_path_mappings \<and>
   rev demo_mappings \<noteq> demo_mappings"
  using mapping_order_irrelevant [OF demo_mappings_valid, of "rev demo_mappings"] by (simp add: demo_mappings_def)

text \<open>
  Outer white space is dropped, although it may be part of a file name: two different provider paths
  are translated to the same file.
\<close>

lemma outer_white_space_is_dropped:
  "translation_archivefs_path (translate_path demo_path_mappings ''roms/a '') =
   translation_archivefs_path (translate_path demo_path_mappings ''roms/a'')"
  by code_simp

end
