(* ===== verification/PlatformIdentity.thy ===== *)
theory PlatformIdentity
  imports IdentityModel Platforms DatRun
begin

text \<open>
  Platform identity enrichment: \<open>platform/identity.rs\<close>. The registry of platforms is an
  argument, as in \<open>Platforms\<close>; a generation is a natural number.
\<close>

section \<open>Evidence\<close>

datatype identity_source = Inference | ExistingStrongIdentity | RommSource | VerifiedDat | ManualSource

primrec identity_source_label :: "identity_source \<Rightarrow> string" where
  "identity_source_label Inference = ''Existing inference''"
| "identity_source_label ExistingStrongIdentity = ''Existing game identity''"
| "identity_source_label RommSource = ''RomM''"
| "identity_source_label VerifiedDat = ''Verified DAT''"
| "identity_source_label ManualSource = ''Manual assignment''"

text \<open>The derived orders, weakest first.\<close>

primrec source_rank :: "identity_source \<Rightarrow> nat" where
  "source_rank Inference = 0"
| "source_rank ExistingStrongIdentity = 1"
| "source_rank RommSource = 2"
| "source_rank VerifiedDat = 3"
| "source_rank ManualSource = 4"

datatype identity_confidence = IcInferred | IcStrong | IcHigh | IcVerified | IcUserSelected

primrec identity_confidence_label :: "identity_confidence \<Rightarrow> string" where
  "identity_confidence_label IcInferred = ''Inferred''"
| "identity_confidence_label IcStrong = ''Strong''"
| "identity_confidence_label IcHigh = ''High''"
| "identity_confidence_label IcVerified = ''Verified''"
| "identity_confidence_label IcUserSelected = ''User selected''"

primrec confidence_rank :: "identity_confidence \<Rightarrow> nat" where
  "confidence_rank IcInferred = 0"
| "confidence_rank IcStrong = 1"
| "confidence_rank IcHigh = 2"
| "confidence_rank IcVerified = 3"
| "confidence_rank IcUserSelected = 4"

record platform_evidence =
  pe_platform :: string
  pe_source :: identity_source
  pe_confidence :: identity_confidence
  pe_generation :: nat
  pe_detail :: string

definition canonical_platform :: "registry \<Rightarrow> string \<Rightarrow> string option" where
  "canonical_platform reg v =
     map_option pl_id (case platform_by_id reg v of None \<Rightarrow> platform_for_alias reg v | Some p \<Rightarrow> Some p)"

definition canonical_evidence ::
    "registry \<Rightarrow> string \<Rightarrow> identity_source \<Rightarrow> identity_confidence \<Rightarrow> nat \<Rightarrow> string \<Rightarrow> platform_evidence option" where
  "canonical_evidence reg v src conf gen detail =
     (case canonical_platform reg v of
        None \<Rightarrow> None
      | Some p \<Rightarrow> Some \<lparr> pe_platform = p, pe_source = src, pe_confidence = conf,
                        pe_generation = gen, pe_detail = detail \<rparr>)"

definition manual_evidence :: "registry \<Rightarrow> string \<Rightarrow> nat \<Rightarrow> platform_evidence option" where
  "manual_evidence reg v gen =
     (let trimmed = trim v in
      if trimmed = [] then None
      else Some \<lparr> pe_platform = (case canonical_platform reg trimmed of None \<Rightarrow> trimmed | Some p \<Rightarrow> p),
                  pe_source = ManualSource, pe_confidence = IcUserSelected, pe_generation = gen,
                  pe_detail = ''the user explicitly assigned this platform'' \<rparr>)"

definition romm_evidence :: "registry \<Rightarrow> external_record \<Rightarrow> nat \<Rightarrow> platform_evidence option" where
  "romm_evidence reg r gen =
     (if er_provider r \<noteq> Romm \<or> \<not> is_usable (er_verification r) \<or> has_conflicts r then None
      else (case er_platform_candidate r of
              None \<Rightarrow> None
            | Some candidate \<Rightarrow>
                (case platform_by_id reg candidate of
                   None \<Rightarrow> None
                 | Some p \<Rightarrow>
                     Some \<lparr> pe_platform = pl_id p, pe_source = RommSource, pe_confidence = IcHigh,
                            pe_generation = gen,
                            pe_detail = ''RomM record '' @ er_provider_game_id r @
                              '' resolved through the canonical platform registry ('' @
                              external_verification_label (er_verification r) @ '')'' \<rparr>)))"

text \<open>
  Evidence from a run: the first confident entry for the path, and its algorithm.
\<close>

definition verified_dat_evidence ::
    "registry \<Rightarrow> dat_audit_outcome \<Rightarrow> path \<Rightarrow> nat \<Rightarrow> platform_evidence option" where
  "verified_dat_evidence reg run local gen =
     (case ao_platform run of
        None \<Rightarrow> None
      | Some candidate \<Rightarrow>
          (case platform_by_id reg candidate of
             None \<Rightarrow> None
           | Some p \<Rightarrow>
               (case find (\<lambda>e. ae_local_path e = local \<and> is_confident (ae_verdict e))
                       (ar_entries (ao_report run)) of
                  None \<Rightarrow> None
                | Some e \<Rightarrow>
                    (case (case ae_verdict e of
                             Exact _ _ a \<Rightarrow> Some a
                           | ExactMultipleCandidates a _ _ \<Rightarrow> Some a
                           | _ \<Rightarrow> None) of
                       None \<Rightarrow> None
                     | Some a \<Rightarrow>
                         Some \<lparr> pe_platform = pl_id p, pe_source = VerifiedDat,
                                pe_confidence = IcVerified, pe_generation = gen,
                                pe_detail = ao_source_display_name run @ '' verified this file with '' @
                                  a @ '' ('' @ verdict_label (ae_verdict e) @ '')'' \<rparr>))))"

section \<open>Resolution\<close>

datatype platform_resolution =
  UnknownPlatform nat
| ResolvedPlatform nat string string identity_confidence "platform_evidence list"
| ConflictingPlatform nat "platform_evidence list"

primrec resolution_generation :: "platform_resolution \<Rightarrow> nat" where
  "resolution_generation (UnknownPlatform g) = g"
| "resolution_generation (ResolvedPlatform g p d c ev) = g"
| "resolution_generation (ConflictingPlatform g ev) = g"

primrec resolution_platform :: "platform_resolution \<Rightarrow> string option" where
  "resolution_platform (UnknownPlatform g) = None"
| "resolution_platform (ResolvedPlatform g p d c ev) = Some p"
| "resolution_platform (ConflictingPlatform g ev) = None"

primrec resolution_evidence :: "platform_resolution \<Rightarrow> platform_evidence list" where
  "resolution_evidence (UnknownPlatform g) = []"
| "resolution_evidence (ResolvedPlatform g p d c ev) = ev"
| "resolution_evidence (ConflictingPlatform g ev) = ev"

primrec resolution_is_conflict :: "platform_resolution \<Rightarrow> bool" where
  "resolution_is_conflict (UnknownPlatform g) = False"
| "resolution_is_conflict (ResolvedPlatform g p d c ev) = False"
| "resolution_is_conflict (ConflictingPlatform g ev) = True"

text \<open>\<open>Vec::dedup\<close>: of a run of equal neighbours the first is kept.\<close>

fun dedup :: "'a list \<Rightarrow> 'a list" where
  "dedup [] = []"
| "dedup [x] = [x]"
| "dedup (x # y # xs) = (if x = y then dedup (x # xs) else x # dedup (y # xs))"

definition cmp_evidence :: "platform_evidence \<Rightarrow> platform_evidence \<Rightarrow> cmp_ordering" where
  "cmp_evidence l r =
     then_with (cmp_nat (source_rank (pe_source r)) (source_rank (pe_source l)))
       (then_with (cmp_string (pe_platform l) (pe_platform r)) (cmp_string (pe_detail l) (pe_detail r)))"

definition max_confidence :: "platform_evidence list \<Rightarrow> identity_confidence" where
  "max_confidence ev =
     fold (\<lambda>e best. if confidence_rank (pe_confidence e) \<ge> confidence_rank best then pe_confidence e else best)
       ev IcInferred"

definition settle_tier :: "registry \<Rightarrow> nat \<Rightarrow> platform_evidence list \<Rightarrow> platform_resolution" where
  "settle_tier reg gen ev =
     (case remdups (map pe_platform ev) of
        [platform] \<Rightarrow>
          ResolvedPlatform gen platform (display_name_for reg platform) (max_confidence ev) ev
      | _ \<Rightarrow> ConflictingPlatform gen ev)"

definition of_source :: "identity_source \<Rightarrow> platform_evidence list \<Rightarrow> platform_evidence list" where
  "of_source src ev = filter (\<lambda>e. pe_source e = src) ev"

definition authoritative :: "platform_evidence list \<Rightarrow> platform_evidence list" where
  "authoritative ev = filter (\<lambda>e. pe_source e = VerifiedDat \<or> pe_source e = RommSource) ev"

definition settle_authoritative :: "registry \<Rightarrow> nat \<Rightarrow> platform_evidence list \<Rightarrow> platform_resolution" where
  "settle_authoritative reg gen ev =
     (case settle_tier reg gen (authoritative ev) of
        ResolvedPlatform g platform d c tier \<Rightarrow>
          (let existing = of_source ExistingStrongIdentity ev in
           if list_ex (\<lambda>e. pe_platform e \<noteq> platform) existing
           then ConflictingPlatform gen (tier @ existing)
           else ResolvedPlatform g platform d c tier)
      | other \<Rightarrow> other)"

definition resolve_platform_identity ::
    "registry \<Rightarrow> nat \<Rightarrow> platform_evidence list \<Rightarrow> platform_resolution" where
  "resolve_platform_identity reg gen all =
     (let ev = dedup (sort_by cmp_evidence (filter (\<lambda>e. pe_generation e = gen) all)) in
      if of_source ManualSource ev \<noteq> [] then settle_tier reg gen (of_source ManualSource ev)
      else if authoritative ev \<noteq> [] then settle_authoritative reg gen ev
      else if of_source ExistingStrongIdentity ev \<noteq> []
      then settle_tier reg gen (of_source ExistingStrongIdentity ev)
      else if of_source Inference ev \<noteq> [] then settle_tier reg gen (of_source Inference ev)
      else UnknownPlatform gen)"

end
