(* ===== verification/IdentityMatch.thy ===== *)
theory IdentityMatch
  imports FileHashing OrderedMap
begin

text \<open>
  Comparing imported records with local files: \<open>identity_source/matching.rs\<close>. The facts of a
  file are data the caller supplies; of the file system only the fingerprints behind cached
  hashes and the presence probe are read.
\<close>

section \<open>What is at a path\<close>

datatype local_presence =
  PresenceAbsent | ParentAbsent | PresenceFile | PresenceDirectory | DanglingSymlink | PresenceOther

text \<open>The root directory is always there; it has no entry of its own in the file-system model.\<close>

definition observe_presence :: "fs \<Rightarrow> path \<Rightarrow> local_presence" where
  "observe_presence f p =
     (if p = [] then PresenceDirectory
      else case symlink_metadata f p of
        None \<Rightarrow>
          (case path_parent p of
             Some parent \<Rightarrow> if resolve_dir f parent = None then ParentAbsent else PresenceAbsent
           | None \<Rightarrow> PresenceAbsent)
      | Some n \<Rightarrow>
          (case n_kind n of
             LinkNode t \<Rightarrow>
               (if resolve_dir f p \<noteq> None then PresenceDirectory
                else case metadata f p of
                  None \<Rightarrow> DanglingSymlink
                | Some m \<Rightarrow> if n_kind m = FileNode then PresenceFile else PresenceOther)
           | FileNode \<Rightarrow> PresenceFile
           | DirNode \<Rightarrow> PresenceDirectory
           | SpecialNode \<Rightarrow> PresenceOther))"

primrec presence_code :: "local_presence \<Rightarrow> string" where
  "presence_code PresenceAbsent = ''absent''"
| "presence_code ParentAbsent = ''parent_absent''"
| "presence_code PresenceFile = ''file''"
| "presence_code PresenceDirectory = ''directory''"
| "presence_code DanglingSymlink = ''dangling_symlink''"
| "presence_code PresenceOther = ''not_a_regular_file''"

primrec presence_label :: "local_presence \<Rightarrow> string" where
  "presence_label PresenceAbsent = ''nothing at that path''"
| "presence_label ParentAbsent = ''the folder that would hold it is missing too''"
| "presence_label PresenceFile = ''a regular file''"
| "presence_label PresenceDirectory = ''a directory, not a file''"
| "presence_label DanglingSymlink = ''a symlink whose target is gone''"
| "presence_label PresenceOther = ''something that is not a regular file''"

primrec stale_detail :: "local_presence \<Rightarrow> path \<Rightarrow> string" where
  "stale_detail PresenceAbsent p =
     path_text p @ '' does not exist, so the record describes a file this library no longer has''"
| "stale_detail ParentAbsent p =
     path_text p @ '' does not exist, and neither does the folder that would hold it - this '' @
     ''collection may not be on this machine at all''"
| "stale_detail PresenceDirectory p =
     path_text p @ '' exists but is a directory. The game is present as a folder; EmuWiz '' @
     ''identifies files, so there was no single file to compare against what RomM published''"
| "stale_detail DanglingSymlink p =
     path_text p @ '' is a symlink whose target no longer exists, so the file it stood for is '' @
     ''gone even though the link remains''"
| "stale_detail PresenceOther p =
     path_text p @ '' exists but is not a regular file, so it cannot be compared''"
| "stale_detail PresenceFile p = path_text p @ '' could not be measured''"

record local_file_facts =
  lf_fingerprint :: "file_fingerprint option"
  lf_presence :: local_presence
  lf_local_platform :: "string option"
  lf_local_strength :: local_evidence_strength

definition observe_facts :: "fs \<Rightarrow> path \<Rightarrow> local_file_facts" where
  "observe_facts f p =
     \<lparr> lf_fingerprint = observe_fingerprint f p, lf_presence = observe_presence f p,
       lf_local_platform = None, lf_local_strength = NoEvidence \<rparr>"

definition with_local_platform ::
    "string option \<Rightarrow> local_evidence_strength \<Rightarrow> local_file_facts \<Rightarrow> local_file_facts" where
  "with_local_platform platform strength facts =
     facts\<lparr>lf_local_platform := platform, lf_local_strength := strength\<rparr>"

definition facts_exist :: "local_file_facts \<Rightarrow> bool" where
  "facts_exist facts \<longleftrightarrow> lf_fingerprint facts \<noteq> None"

section \<open>Claims on a path\<close>

type_synonym path_claims = "(path \<times> nat) list"

definition claims_of :: "external_record list \<Rightarrow> path_claims" where
  "claims_of rs =
     fold (\<lambda>r m. (case er_archivefs_path r of None \<Rightarrow> m | Some p \<Rightarrow> adjust cmp_path p 0 Suc m)) rs []"

definition claimants :: "path_claims \<Rightarrow> path \<Rightarrow> nat" where
  "claimants m p = (case map_of m p of None \<Rightarrow> 0 | Some n \<Rightarrow> n)"

definition contested :: "path_claims \<Rightarrow> (path \<times> nat) list" where
  "contested m = filter (\<lambda>(p, n). n > 1) m"

section \<open>One record\<close>

record match_outcome =
  mo_verification :: external_verification
  mo_conflicts :: "identity_conflict list"
  mo_evidence :: "string list"
  mo_hash_compared :: bool

definition claimed_twice :: "nat \<Rightarrow> path \<Rightarrow> identity_conflict" where
  "claimed_twice n p =
     \<lparr> ic_field = FileStateField, ic_external = nat_to_string n @ '' RomM records'', ic_local = ''one file'',
       ic_detail = nat_to_string n @ '' RomM records translate to '' @ path_text p @
         '', so which one describes it cannot be decided from the mapping alone'' \<rparr>"

definition size_conflict :: "nat \<Rightarrow> nat \<Rightarrow> identity_conflict" where
  "size_conflict published bytes =
     \<lparr> ic_field = FileSizeField, ic_external = nat_to_string published, ic_local = nat_to_string bytes,
       ic_detail = ''RomM recorded '' @ nat_to_string published @ '' bytes but the file is now '' @
         nat_to_string bytes @ '' bytes'' \<rparr>"

text \<open>The platform: whether the two agree, what conflicts, and what is noted.\<close>

definition compare_platform ::
    "external_record \<Rightarrow> local_file_facts \<Rightarrow> bool option \<times> identity_conflict list \<times> string list" where
  "compare_platform r facts =
     (case (er_platform_candidate r, lf_local_platform facts) of
        (Some external, Some local) \<Rightarrow>
          (if external = local then (Some True, [], [''platform agrees: '' @ external])
           else (Some False,
                 [\<lparr> ic_field = PlatformField, ic_external = external, ic_local = local,
                    ic_detail = ''RomM says '' @ external @ '' but EmuWiz determined '' @ local @
                      '' from the file itself'' \<rparr>], []))
      | (Some external, None) \<Rightarrow>
          (None, [], [''RomM says '' @ external @ ''; EmuWiz has no platform of its own for this file''])
      | (None, _) \<Rightarrow>
          (None, [], [''RomM's platform could not be mapped to a canonical EmuWiz platform'']))"

definition hash_conflict :: "local_hashes \<Rightarrow> external_hash \<Rightarrow> identity_conflict" where
  "hash_conflict l h =
     \<lparr> ic_field = HashField, ic_external = eh_value h, ic_local = hashes_value (eh_algorithm h) l,
       ic_detail = ''the '' @ external_algorithm_label (eh_algorithm h) @
         '' RomM published does not match the file's own'' \<rparr>"

text \<open>The loop over the published hashes: it ends at the first that agrees.\<close>

fun compare_published ::
    "local_hashes \<Rightarrow> external_hash list \<Rightarrow> bool option \<times> identity_conflict list \<times> string list" where
  "compare_published l [] = (None, [], [])"
| "compare_published l (h # hs) =
     (if agrees_with l h
      then (Some True, [],
            [external_algorithm_label (eh_algorithm h) @ '' matches the locally computed value''])
      else (case compare_published l hs of
              (agrees, cs, ev) \<Rightarrow>
                (Some (case agrees of None \<Rightarrow> False | Some b \<Rightarrow> b), hash_conflict l h # cs, ev)))"

definition compare_hashes ::
    "local_hashes option \<Rightarrow> external_record \<Rightarrow> bool \<times> bool option \<times> identity_conflict list \<times> string list" where
  "compare_hashes cached r =
     (case cached of
        Some l \<Rightarrow>
          (case compare_published l (er_hashes r) of
             (agrees, cs, ev) \<Rightarrow>
               (er_hashes r \<noteq> [], agrees, cs,
                ev @ (if er_hashes r = []
                      then [''the file has been hashed locally, but RomM published no hash to compare'']
                      else [])))
      | None \<Rightarrow>
          (False, None, [],
           if er_hashes r \<noteq> []
           then [''RomM published a hash, but this file has not been verified locally yet, so nothing '' @
                 ''was compared'']
           else []))"

definition positive_verdict ::
    "external_record \<Rightarrow> bool option \<Rightarrow> bool option \<Rightarrow> bool option \<Rightarrow> external_verification \<times> string list" where
  "positive_verdict r hash_agrees size_agrees platform_agrees =
     (if hash_agrees = Some True then (ConfirmedExternal, [])
      else if size_agrees = Some True \<and> platform_agrees = Some True then (StrongExternal, [])
      else if er_title r \<noteq> None then (ProbableExternal, [])
      else (VUnmatched, [''the file exists but nothing in the record could be corroborated against it'']))"

primrec strength_text :: "local_evidence_strength \<Rightarrow> string" where
  "strength_text VerifiedEvidence = ''verified''"
| "strength_text WeakEvidence = ''weaker but still local''"
| "strength_text NoEvidence = ''absent''"

definition not_displaced :: "external_verification \<Rightarrow> local_evidence_strength \<Rightarrow> string list" where
  "not_displaced candidate strength =
     (if is_usable candidate \<and> \<not> outranks candidate strength
      then [''EmuWiz's own identity is '' @ strength_text strength @ '' and is not displaced by this record'']
      else [])"

text \<open>After the size: platform, hashes, and the verdict they allow.\<close>

definition settle_match ::
    "external_record \<Rightarrow> local_file_facts \<Rightarrow> local_hashes option \<Rightarrow> bool option \<Rightarrow> string list \<Rightarrow> match_outcome" where
  "settle_match r facts cached size_agrees ev =
     (case compare_platform r facts of
        (platform_agrees, cs1, ev1) \<Rightarrow>
          (case compare_hashes cached r of
             (compared, hash_agrees, cs2, ev2) \<Rightarrow>
               (if hash_agrees = Some False
                then \<lparr> mo_verification = VAmbiguous, mo_conflicts = cs1 @ cs2,
                       mo_evidence = ev @ ev1 @ ev2 @ [''a hash disagreement means this is not the same data''],
                       mo_hash_compared = compared \<rparr>
                else if platform_agrees = Some False
                then \<lparr> mo_verification = VAmbiguous, mo_conflicts = cs1 @ cs2,
                       mo_evidence = ev @ ev1 @ ev2 @
                         [if lf_local_strength facts = VerifiedEvidence
                          then ''EmuWiz verified a different platform from the file itself, so the two disagree''
                          else ''RomM and EmuWiz suggest different platforms''],
                       mo_hash_compared = compared \<rparr>
                else (case positive_verdict r hash_agrees size_agrees platform_agrees of
                        (candidate, ev3) \<Rightarrow>
                          \<lparr> mo_verification = candidate, mo_conflicts = cs1 @ cs2,
                            mo_evidence = ev @ ev1 @ ev2 @ ev3 @
                              not_displaced candidate (lf_local_strength facts),
                            mo_hash_compared = compared \<rparr>))))"

definition match_record ::
    "fs \<Rightarrow> external_record \<Rightarrow> local_file_facts \<Rightarrow> path_claims \<Rightarrow> hash_cache \<Rightarrow> match_outcome" where
  "match_record f r facts claims hashes =
     (case er_archivefs_path r of
        None \<Rightarrow>
          \<lparr> mo_verification = VUnmatched, mo_conflicts = [],
            mo_evidence = [''no configured path mapping covers this record, so no local file was compared''],
            mo_hash_compared = False \<rparr>
      | Some p \<Rightarrow>
          if claimants claims p > 1
          then \<lparr> mo_verification = VAmbiguous, mo_conflicts = [claimed_twice (claimants claims p) p],
                 mo_evidence = [''more than one RomM record claims this file''], mo_hash_compared = False \<rparr>
          else (case lf_fingerprint facts of
                  None \<Rightarrow>
                    \<lparr> mo_verification = VStale, mo_conflicts = [],
                      mo_evidence = [stale_detail (lf_presence facts) p], mo_hash_compared = False \<rparr>
                | Some fp \<Rightarrow>
                    (let found = path_text p @ '' exists'' in
                     case er_file_size_bytes r of
                       None \<Rightarrow>
                         settle_match r facts (cache_get f hashes p) None
                           [found, ''RomM published no file size, so size could not be compared'']
                     | Some published \<Rightarrow>
                         if published = fp_size_bytes fp
                         then settle_match r facts (cache_get f hashes p) (Some True)
                                [found, ''file size agrees at '' @ nat_to_string published @ '' bytes'']
                         else \<lparr> mo_verification = VStale,
                                mo_conflicts = [size_conflict published (fp_size_bytes fp)],
                                mo_evidence = [found, ''the file's size no longer matches what RomM recorded''],
                                mo_hash_compared = False \<rparr>)))"

section \<open>A set of records\<close>

definition apply_match :: "match_outcome \<Rightarrow> external_record \<Rightarrow> external_record" where
  "apply_match outcome r =
     r\<lparr>er_verification := mo_verification outcome, er_conflicts := mo_conflicts outcome,
       er_evidence := er_evidence r @ mo_evidence outcome\<rparr>"

text \<open>
  The nth record is looked at in the file system \<open>fs_at n\<close>, with the facts \<open>facts_for n\<close>
  gives, after the nth check of the flag. A cancelled run leaves the rest as it was.
\<close>

fun match_loop ::
    "(nat \<Rightarrow> fs) \<Rightarrow> path_claims \<Rightarrow> hash_cache \<Rightarrow> (nat \<Rightarrow> external_record \<Rightarrow> local_file_facts) \<Rightarrow>
     (nat \<Rightarrow> bool) \<Rightarrow> nat \<Rightarrow> external_record list \<Rightarrow> bool \<times> external_record list" where
  "match_loop fs_at claims hashes facts_for cancel n [] = (True, [])"
| "match_loop fs_at claims hashes facts_for cancel n (r # rs) =
     (if cancel n then (False, r # rs)
      else (let outcome = match_record (fs_at n) r (facts_for n r) claims hashes in
            case match_loop fs_at claims hashes facts_for cancel (Suc n) rs of
              (completed, rs') \<Rightarrow> (completed, apply_match outcome r # rs')))"

definition match_all ::
    "(nat \<Rightarrow> fs) \<Rightarrow> hash_cache \<Rightarrow> (nat \<Rightarrow> external_record \<Rightarrow> local_file_facts) \<Rightarrow> (nat \<Rightarrow> bool) \<Rightarrow>
     external_record list \<Rightarrow> bool \<times> external_record list" where
  "match_all fs_at hashes facts_for cancel rs =
     match_loop fs_at (claims_of rs) hashes facts_for cancel 0 rs"

section \<open>Groups\<close>

record identity_group =
  ig_primary_game_id :: string
  ig_title :: "string option"
  ig_member_game_ids :: "string list"
  ig_related_files :: "string list"
  ig_matched_members :: nat
  ig_partial :: bool

fun push_new :: "string list \<Rightarrow> string list \<Rightarrow> string list" where
  "push_new ids [] = ids"
| "push_new ids (s # ss) = push_new (if s \<in> set ids then ids else ids @ [s]) ss"

definition member_is_usable :: "external_record list \<Rightarrow> string \<Rightarrow> bool" where
  "member_is_usable rs i =
     (case find (\<lambda>r. er_provider_game_id r = i) rs of
        None \<Rightarrow> False
      | Some r \<Rightarrow> is_usable (er_verification r))"

definition group_of :: "external_record list \<Rightarrow> external_record \<Rightarrow> identity_group" where
  "group_of rs r =
     (let members = sort_by cmp_string (push_new [er_provider_game_id r] (er_sibling_game_ids r));
          matched = length (filter (member_is_usable rs) members)
      in \<lparr> ig_primary_game_id = er_provider_game_id r, ig_title = er_title r,
           ig_member_game_ids = members, ig_related_files = er_related_files r,
           ig_matched_members = matched, ig_partial = (matched > 0 \<and> matched < length members) \<rparr>)"

fun group_loop ::
    "external_record list \<Rightarrow> external_record list \<Rightarrow> string list \<Rightarrow> identity_group list" where
  "group_loop rs [] claimed = []"
| "group_loop rs (r # todo) claimed =
     (if er_sibling_game_ids r = [] \<and> length (er_related_files r) < 2 then group_loop rs todo claimed
      else if er_provider_game_id r \<in> set claimed then group_loop rs todo claimed
      else (let g = group_of rs r in g # group_loop rs todo (claimed @ ig_member_game_ids g)))"

definition build_groups :: "external_record list \<Rightarrow> identity_group list" where
  "build_groups rs =
     sort_by (\<lambda>a b. cmp_string (ig_primary_game_id a) (ig_primary_game_id b)) (group_loop rs rs [])"

end
