(* ===== verification/FileHashingProofs.thy ===== *)
theory FileHashingProofs
  imports FileHashing
begin

text \<open>
  What the hashes mean. The CRC is linear over exclusive or and every step is a bijection,
  so a change confined to four consecutive bytes always changes it. A hash that is reported
  describes the bytes that were read, whatever the chunks, of a file that did not change.
  The cache has one entry for a path and never answers for a file that has changed since.
\<close>

unbundle bit_operations_syntax

section \<open>One bit of the CRC\<close>

lemma xor_cancel: "x XOR w = y XOR w \<Longrightarrow> x = (y :: 32 word)"
proof -
  assume "x XOR w = y XOR w"
  then have "(x XOR w) XOR w = (y XOR w) XOR w" by simp
  then show "x = y" by (simp add: xor.assoc)
qed

lemma xor_cancel_left: "w XOR x = w XOR y \<Longrightarrow> x = (y :: 32 word)"
  using xor_cancel [of x w y] by (simp add: xor.commute)

lemma crc_bit_eq: "crc_bit s = drop_bit 1 s XOR (if bit s 0 then 0xEDB88320 else 0)"
  by (cases "bit s 0")
    (simp_all add: crc_bit_def Let_def and_one_eq bit_0 even_iff_mod_2_eq_zero odd_iff_mod_2_eq_one)

lemma crc_bit_xor: "crc_bit (x XOR y) = crc_bit x XOR crc_bit y"
  by (simp add: crc_bit_eq drop_bit_xor bit_xor_iff xor.assoc xor.left_commute)

lemma crc_bit_zero [simp]: "crc_bit 0 = 0"
  by (simp add: crc_bit_eq)

lemma crc_bit_kernel: "crc_bit x = 0 \<Longrightarrow> x = 0"
proof -
  assume z: "crc_bit x = 0"
  have "\<not> bit x 0"
  proof
    assume "bit x 0"
    moreover have "\<not> bit x 32" using bit_imp_le_length [of x 32] by auto
    ultimately have "bit (crc_bit x) 31" by (simp add: crc_bit_eq bit_xor_iff bit_drop_bit_eq)
    with z show False by simp
  qed
  moreover have "bit (crc_bit x) m = bit x (Suc m)" if "\<not> bit x 0" for m
    using that by (simp add: crc_bit_eq bit_drop_bit_eq)
  ultimately have "\<not> bit x n" for n using z by (cases n) auto
  then show "x = 0" by (auto intro: bit_word_eqI)
qed

lemma crc_bits_xor: "(crc_bit ^^ n) (x XOR y) = (crc_bit ^^ n) x XOR (crc_bit ^^ n) y"
  by (induction n) (simp_all add: crc_bit_xor)

lemma crc_bits_kernel: "(crc_bit ^^ n) x = 0 \<Longrightarrow> x = 0"
  by (induction n) (auto dest: crc_bit_kernel)

lemma crc_bits_inj: "(crc_bit ^^ n) x = (crc_bit ^^ n) y \<Longrightarrow> x = y"
proof -
  assume "(crc_bit ^^ n) x = (crc_bit ^^ n) y"
  then have "(crc_bit ^^ n) (x XOR y) = 0" by (simp add: crc_bits_xor)
  then have "x XOR y = y XOR y" using crc_bits_kernel by simp
  then show "x = y" by (rule xor_cancel)
qed

text \<open>A word shifted up and stepped down again is the word, while nothing falls off the top.\<close>

lemma crc_bit_shift:
  assumes "\<not> bit v 31"
  shows "crc_bit (push_bit 1 v) = v"
proof -
  have "drop_bit 1 (push_bit 1 v) = v"
  proof (rule bit_word_eqI)
    fix n :: nat
    assume "n < LENGTH(32)"
    then show "bit (drop_bit 1 (push_bit 1 v)) n = bit v n"
      using assms unfolding bit_drop_bit_eq comp_def bit_push_bit_iff
      by (cases "n = 31") (auto dest: bit_imp_le_length)
  qed
  moreover have "\<not> bit (push_bit 1 v) 0" by (simp only: bit_push_bit_iff) simp
  ultimately show ?thesis by (simp only: crc_bit_eq if_False xor.right_neutral)
qed

lemma crc_bits_shift:
  "(\<And>i. 32 - n \<le> i \<Longrightarrow> \<not> bit w i) \<Longrightarrow> n \<le> 32 \<Longrightarrow> (crc_bit ^^ n) (push_bit n w) = w"
proof (induction n)
  case 0
  then show ?case by simp
next
  case (Suc n)
  have "push_bit (Suc n) w = push_bit 1 (push_bit n w)"
    by (simp only: push_bit_push_bit) simp
  moreover have "\<not> bit (push_bit n w) 31"
    using Suc.prems(1) [of "31 - n"] Suc.prems(2) by (simp add: bit_push_bit_iff)
  ultimately have "crc_bit (push_bit (Suc n) w) = push_bit n w"
    using crc_bit_shift by metis
  moreover have "(crc_bit ^^ n) (push_bit n w) = w"
    using Suc by (intro Suc.IH) auto
  ultimately show ?case by (simp add: funpow_swap1 del: push_bit_Suc)
qed

section \<open>Blocks of bytes\<close>

lemma crc_update_append: "crc_update s (a @ b) = crc_update (crc_update s a) b"
  by (simp add: crc_update_def)

lemma crc_update_inj: "crc_update s bs = crc_update t bs \<Longrightarrow> s = t"
proof (induction bs arbitrary: s t)
  case Nil
  then show ?case by (simp add: crc_update_def)
next
  case (Cons b bs)
  then have "crc_byte s b = crc_byte t b" by (simp add: crc_update_def)
  then have "s XOR ucast b = t XOR ucast b" unfolding crc_byte_def by (rule crc_bits_inj)
  then show "s = t" by (rule xor_cancel)
qed

text \<open>The little-endian word of a block.\<close>

fun block_word :: "8 word list \<Rightarrow> 32 word" where
  "block_word [] = 0"
| "block_word (b # bs) = ucast b XOR push_bit 8 (block_word bs)"

lemma bit_block_word:
  "length bs \<le> 4 \<Longrightarrow> bit (block_word bs) i \<longleftrightarrow> i < 8 * length bs \<and> bit (bs ! (i div 8)) (i mod 8)"
proof (induction bs arbitrary: i)
  case Nil
  then show ?case by simp
next
  case (Cons b bs)
  have b: "bit b i \<Longrightarrow> i < 8" using bit_imp_le_length [of b i] by simp
  show ?case
  proof (cases "i < 8")
    case True
    then show ?thesis using Cons.prems by (auto simp: bit_simps)
  next
    case False
    then have i: "i div 8 = Suc ((i - 8) div 8)" "(i - 8) mod 8 = i mod 8"
      by (simp_all add: le_div_geq le_mod_geq)
    have "bit (block_word (b # bs)) i \<longleftrightarrow> i < 32 \<and> bit (block_word bs) (i - 8)"
      using False b by (auto simp: bit_xor_iff bit_push_bit_iff bit_ucast_iff)
    also have "\<dots> \<longleftrightarrow> i < 32 \<and> i - 8 < 8 * length bs \<and> bit (bs ! ((i - 8) div 8)) ((i - 8) mod 8)"
      using Cons.IH [of "i - 8"] Cons.prems by simp
    also have "\<dots> \<longleftrightarrow> i < 8 * length (b # bs) \<and> bit ((b # bs) ! (i div 8)) (i mod 8)"
      using i False Cons.prems by auto
    finally show ?thesis .
  qed
qed

lemma block_word_inj:
  assumes "length a = length b" "length b \<le> 4" "block_word a = block_word b"
  shows "a = b"
proof (rule nth_equalityI)
  fix k
  assume k: "k < length a"
  have "bit (a ! k) j = bit (b ! k) j" for j
  proof (cases "j < 8")
    case True
    then have "bit (block_word a) (8 * k + j) = bit (block_word b) (8 * k + j)" using assms by simp
    then show ?thesis using bit_block_word [of a "8 * k + j"] bit_block_word [of b "8 * k + j"] True k assms
      by simp
  next
    case False
    then show ?thesis using bit_imp_le_length [of "a ! k" j] bit_imp_le_length [of "b ! k" j] by auto
  qed
  then show "a ! k = b ! k" by (auto intro: bit_word_eqI)
qed (use assms in simp)

lemma crc_update_block:
  "length bs \<le> 4 \<Longrightarrow> crc_update s bs = (crc_bit ^^ (8 * length bs)) (s XOR block_word bs)"
proof (induction bs arbitrary: s)
  case Nil
  then show ?case by (simp add: crc_update_def)
next
  case (Cons b bs)
  have high: "\<not> bit (block_word bs) i" if "32 - 8 \<le> i" for i
    using bit_block_word [of bs i] Cons.prems that by auto
  have "crc_update s (b # bs) = (crc_bit ^^ (8 * length bs)) (crc_byte s b XOR block_word bs)"
    using Cons by (simp add: crc_update_def)
  also have "crc_byte s b XOR block_word bs = (crc_bit ^^ 8) (s XOR ucast b XOR push_bit 8 (block_word bs))"
    using crc_bits_shift [of 8 "block_word bs"] high by (simp only: crc_byte_def crc_bits_xor) (simp add: xor.assoc)
  also have "(crc_bit ^^ (8 * length bs)) \<dots> = (crc_bit ^^ (8 * length (b # bs))) (s XOR block_word (b # bs))"
  proof -
    have "8 * length (b # bs) = 8 * length bs + 8" by simp
    then show ?thesis by (simp only: funpow_add comp_apply block_word.simps xor.assoc)
  qed
  finally show ?case .
qed

lemma crc_block_differs:
  assumes "length a = length b" "length b \<le> 4" "a \<noteq> b"
  shows "crc_update s (a @ post) \<noteq> crc_update s (b @ post)"
proof
  assume "crc_update s (a @ post) = crc_update s (b @ post)"
  then have "crc_update s a = crc_update s b"
    unfolding crc_update_append by (rule crc_update_inj)
  then have "s XOR block_word a = s XOR block_word b"
    using assms by (simp add: crc_update_block crc_bits_inj)
  then have "block_word a = block_word b" by (rule xor_cancel_left)
  then show False using block_word_inj assms by blast
qed

section \<open>The hexadecimal form\<close>

lemma hex_digit_inj: "hex_digit a = hex_digit b \<Longrightarrow> a < 16 \<Longrightarrow> b < 16 \<Longrightarrow> a = b"
  by (auto simp: hex_digit_def of_char_eq_iff [symmetric] split: if_splits)

lemma hex_u32_inj:
  assumes "hex_u32 v = hex_u32 w"
  shows "v = w"
proof (rule bit_word_eqI)
  fix n :: nat
  assume "n < LENGTH(32)"
  then have n: "n < 32" by simp
  let ?i = "n div 4"
  have small: "unat (x AND 15 :: 32 word) < 16" for x
    using word_and_le1 [of x 15] by (simp add: word_le_nat_alt)
  have "?i \<in> set [7, 6, 5, 4, 3, 2, 1, 0]" using n by auto
  moreover have "\<forall>i \<in> set [7, 6, 5, 4, 3, 2, 1, 0]. hex_digit (unat (drop_bit (4 * i) v AND 15)) =
      hex_digit (unat (drop_bit (4 * i) w AND 15))"
    using assms unfolding hex_u32_def map_eq_conv .
  ultimately have "hex_digit (unat (drop_bit (4 * ?i) v AND 15)) = hex_digit (unat (drop_bit (4 * ?i) w AND 15))"
    by blast
  then have "drop_bit (4 * ?i) v AND 15 = drop_bit (4 * ?i) w AND 15"
    using hex_digit_inj [OF _ small small] by (simp add: word_unat_eq_iff)
  then have "bit (drop_bit (4 * ?i) v AND 15) (n mod 4) = bit (drop_bit (4 * ?i) w AND 15) (n mod 4)"
    by simp
  moreover have "bit (15 :: 32 word) (n mod 4)"
  proof -
    have "n mod 4 \<in> {0, 1, 2, 3}" by auto
    then show ?thesis by auto
  qed
  ultimately show "bit v n = bit w n"
    by (simp add: bit_and_iff bit_drop_bit_eq)
qed

lemma crc_of_eq: "crc_of a = crc_of b \<longleftrightarrow> crc_update crc_new a = crc_update crc_new b"
  by (auto simp: crc_of_def crc_finish_hex_def crc_finish_def dest!: hex_u32_inj)


text \<open>
  C39: A change confined to four consecutive bytes always changes the CRC: two contents that
  agree outside a block of at most four bytes have the same CRC exactly when they are equal.
\<close>

theorem crc_detects_short_change:
  assumes "length a = length b" and "length b \<le> 4"
  shows "crc_of (pre @ a @ post) = crc_of (pre @ b @ post) \<longleftrightarrow> a = b"
  using crc_block_differs [OF assms, of "crc_update crc_new pre" post]
  unfolding crc_of_eq crc_update_append [of crc_new pre] by auto

theorem crc_detects_short_change_witness:
  "crc_of [0x31, 0x32, 0x33, 0x34] \<noteq> crc_of [0x31, 0x33, 0x32, 0x34]"
  using crc_detects_short_change [of "[0x32, 0x33]" "[0x33, 0x32]" "[0x31]" "[0x34]"] by simp

section \<open>The loop over the chunks\<close>

definition chunk_at :: "hash_env \<Rightarrow> nat \<Rightarrow> 8 word list" where
  "chunk_at env k = (case he_read env k of Inl _ \<Rightarrow> [] | Inr c \<Rightarrow> c)"

definition reads_on :: "hash_env \<Rightarrow> nat \<Rightarrow> bool" where
  "reads_on env k \<longleftrightarrow> \<not> he_cancel env (Suc k) \<and> chunk_at env k \<noteq> []"

definition loop_stop :: "hash_env \<Rightarrow> nat \<Rightarrow> hash_state \<Rightarrow> hash_refusal + hash_state" where
  "loop_stop env k s =
     (if he_cancel env (Suc k) then Inl HashCancelled
      else (case he_read env k of Inl err \<Rightarrow> Inl (ReadFailed err) | Inr _ \<Rightarrow> Inr s))"

lemma hash_loop_stop: "\<not> reads_on env k \<Longrightarrow> hash_loop env k s = Some (loop_stop env k s)"
  by (subst hash_loop.simps) (auto simp: reads_on_def chunk_at_def loop_stop_def split: sum.splits)

lemma hash_loop_on: "reads_on env k \<Longrightarrow> hash_loop env k s = hash_loop env (Suc k) (feed (chunk_at env k) s)"
  by (subst hash_loop.simps) (auto simp: reads_on_def chunk_at_def split: sum.splits)

lemma hash_loop_reaches:
  assumes "\<And>j. k \<le> j \<Longrightarrow> j < n \<Longrightarrow> reads_on env j" and "k \<le> n"
  shows "hash_loop env k s = hash_loop env n (fold feed (map (chunk_at env) [k..<n]) s)"
  using assms(2,1)
proof (induction n rule: dec_induct)
  case base
  then show ?case by simp
next
  case (step n)
  then have "hash_loop env k s = hash_loop env n (fold feed (map (chunk_at env) [k..<n]) s)" by simp
  then show ?case using step hash_loop_on [of env n] by simp
qed

lemma hash_loop_ends: "hash_loop env k s = Some r \<Longrightarrow> \<exists>n\<ge>k. \<not> reads_on env n"
proof (erule hash_loop.raw_induct [of "\<lambda>env k s r. \<exists>n\<ge>k. \<not> reads_on env n", rotated])
  fix loop and env :: hash_env and k s r
  assume IH: "\<And>env k s r. loop env k s = Some r \<Longrightarrow> \<exists>n\<ge>k. \<not> reads_on env n"
    and step: "(if he_cancel env (Suc k) then Some (Inl HashCancelled)
      else (case he_read env k of
              Inl err \<Rightarrow> Some (Inl (ReadFailed err))
            | Inr chunk \<Rightarrow> if chunk = [] then Some (Inr s) else loop env (Suc k) (feed chunk s))) = Some r"
  show "\<exists>n\<ge>k. \<not> reads_on env n"
  proof (cases "reads_on env k")
    case True
    then have "loop env (Suc k) (feed (chunk_at env k) s) = Some r"
      using step by (auto simp: reads_on_def chunk_at_def split: sum.splits)
    with IH [OF this] show ?thesis by (meson Suc_leD)
  qed auto
qed

text \<open>The bytes of the first chunks, and what feeding them leaves.\<close>

definition content_read :: "hash_env \<Rightarrow> nat \<Rightarrow> 8 word list" where
  "content_read env n = concat (map (chunk_at env) [0..<n])"

definition reads_to_end :: "hash_env \<Rightarrow> nat \<Rightarrow> bool" where
  "reads_to_end env n \<longleftrightarrow>
     list_all (reads_on env) [0..<n] \<and> he_read env n = Inr [] \<and> \<not> he_cancel env (Suc n)"

definition state_after :: "8 word list \<Rightarrow> hash_state" where
  "state_after bs =
     \<lparr> hs_crc = crc_update crc_new bs, hs_fed = bs, hs_bytes = min (2 ^ 64 - 1) (length bs) \<rparr>"

lemma feed_state_after: "feed chunk (state_after bs) = state_after (bs @ chunk)"
  by (simp add: feed_def state_after_def crc_update_append saturating_add_u64_def)

lemma fold_feed: "fold feed cs (state_after bs) = state_after (bs @ concat cs)"
  by (induction cs arbitrary: bs) (simp_all add: feed_state_after)

lemma start_state: "\<lparr> hs_crc = crc_new, hs_fed = [], hs_bytes = 0 \<rparr> = state_after []"
  by (simp add: state_after_def crc_update_def)

lemma first_stop: "\<exists>k. \<not> P k \<Longrightarrow> \<exists>n. \<not> P (n :: nat) \<and> list_all P [0..<n]"
  using exists_least_iff [of "\<lambda>k. \<not> P k"] by (auto simp: list_all_iff)

lemma hash_loop_result:
  "hash_loop env 0 (state_after []) = Some (Inr s) \<longleftrightarrow>
     (\<exists>n. reads_to_end env n \<and> s = state_after (content_read env n))"
  "hash_loop env 0 (state_after []) = None \<longleftrightarrow> (\<forall>k. reads_on env k)"
proof -
  have at: "hash_loop env 0 (state_after []) = Some (loop_stop env n (state_after (content_read env n)))"
    if "list_all (reads_on env) [0..<n]" "\<not> reads_on env n" for n
    using hash_loop_reaches [of 0 n env "state_after []"] hash_loop_stop [OF that(2)] that(1)
    by (simp add: list_all_iff fold_feed content_read_def)
  show none: "hash_loop env 0 (state_after []) = None \<longleftrightarrow> (\<forall>k. reads_on env k)"
  proof
    assume none: "hash_loop env 0 (state_after []) = None"
    show "\<forall>k. reads_on env k"
    proof (rule ccontr)
      assume "\<not> (\<forall>k. reads_on env k)"
      then show False using first_stop [of "reads_on env"] at none by auto
    qed
  next
    assume "\<forall>k. reads_on env k"
    then show "hash_loop env 0 (state_after []) = None"
      using hash_loop_ends [of env 0 "state_after []"]
      by (cases "hash_loop env 0 (state_after [])") auto
  qed
  show "hash_loop env 0 (state_after []) = Some (Inr s) \<longleftrightarrow>
     (\<exists>n. reads_to_end env n \<and> s = state_after (content_read env n))"
  proof
    assume r: "hash_loop env 0 (state_after []) = Some (Inr s)"
    then have ex: "\<exists>k. \<not> reads_on env k" using none by auto
    then obtain n where n: "\<not> reads_on env n" and l: "list_all (reads_on env) [0..<n]"
      using first_stop [of "reads_on env"] by blast
    then have "loop_stop env n (state_after (content_read env n)) = Inr s" using at r by simp
    then have "reads_to_end env n \<and> s = state_after (content_read env n)"
      using n l by (auto simp: loop_stop_def reads_to_end_def reads_on_def chunk_at_def split: if_splits sum.splits)
    then show "\<exists>n. reads_to_end env n \<and> s = state_after (content_read env n)" by blast
  next
    assume "\<exists>n. reads_to_end env n \<and> s = state_after (content_read env n)"
    then obtain n where n: "reads_to_end env n" "s = state_after (content_read env n)" by blast
    then have "\<not> reads_on env n" by (simp add: reads_to_end_def reads_on_def chunk_at_def)
    with n show "hash_loop env 0 (state_after []) = Some (Inr s)"
      using at [of n] by (simp add: reads_to_end_def loop_stop_def)
  qed
qed

section \<open>A reported hash\<close>

definition hashes_of :: "hash_env \<Rightarrow> file_fingerprint \<Rightarrow> 8 word list \<Rightarrow> local_hashes" where
  "hashes_of env before bs =
     \<lparr> lh_fingerprint = before, lh_crc32 = crc_of bs, lh_md5 = hex_bytes (he_md5 env bs),
       lh_sha1 = hex_bytes (he_sha1 env bs), lh_bytes_hashed = min (2 ^ 64 - 1) (length bs) \<rparr>"

text \<open>What is checked before the first read.\<close>

definition may_hash :: "hash_env \<Rightarrow> path \<Rightarrow> file_fingerprint \<Rightarrow> bool" where
  "may_hash env p before \<longleftrightarrow>
     observe_fingerprint (he_before env) p = Some before \<and>
     fp_size_bytes before \<le> max_automatic_hash_bytes \<and> \<not> he_cancel env 0 \<and> he_open env p = None"

text \<open>
  C38: A hash is reported exactly when a regular file of permitted size was read to its end
  without an error or a cancellation and its fingerprint is the same before and after; it
  then describes exactly the bytes read, however the reads cut them. The only way not to
  answer is a reader that never ends.
\<close>

theorem hash_describes_bytes_read:
  "(hash_file env p = Some (Inr h) \<longleftrightarrow>
     (\<exists>before n. may_hash env p before \<and> reads_to_end env n \<and>
        observe_fingerprint (he_after env) p = Some before \<and>
        h = hashes_of env before (content_read env n))) \<and>
   (hash_file env p = None \<longleftrightarrow> (\<exists>before. may_hash env p before) \<and> (\<forall>k. reads_on env k))"
proof (cases "\<exists>before. may_hash env p before")
  case False
  then have "\<exists>refusal. hash_file env p = Some (Inl refusal)"
    by (cases "observe_fingerprint (he_before env) p"; cases "he_open env p")
      (auto simp: hash_file_def may_hash_def not_le)
  then show ?thesis using False by auto
next
  case True
  then obtain before where may: "may_hash env p before" by blast
  then have only: "may_hash env p b \<longleftrightarrow> b = before" for b by (auto simp: may_hash_def)
  have run: "hash_file env p =
      (case hash_loop env 0 (state_after []) of None \<Rightarrow> None | Some (Inl refusal) \<Rightarrow> Some (Inl refusal)
       | Some (Inr s) \<Rightarrow> Some (finish_hash env p before s))"
    using may by (simp add: hash_file_def may_hash_def start_state)
  have fin: "finish_hash env p before (state_after bs) = Inr h \<longleftrightarrow>
      observe_fingerprint (he_after env) p = Some before \<and> h = hashes_of env before bs" for bs
    by (auto simp: finish_hash_def state_after_def hashes_of_def crc_of_def split: option.splits)
  have "hash_file env p = Some (Inr h) \<longleftrightarrow>
      (\<exists>s. hash_loop env 0 (state_after []) = Some (Inr s) \<and> finish_hash env p before s = Inr h)"
    unfolding run by (auto split: option.splits sum.splits)
  also have "\<dots> \<longleftrightarrow> (\<exists>n. reads_to_end env n \<and> observe_fingerprint (he_after env) p = Some before \<and>
      h = hashes_of env before (content_read env n))"
    unfolding hash_loop_result using fin by blast
  finally have "hash_file env p = Some (Inr h) \<longleftrightarrow> \<dots>" .
  moreover have "hash_file env p = None \<longleftrightarrow> (\<forall>k. reads_on env k)"
    unfolding run hash_loop_result(2) [symmetric] by (auto split: option.splits sum.splits)
  ultimately show ?thesis using only by simp
qed

section \<open>The cache\<close>

definition one_entry_per_path :: "hash_cache \<Rightarrow> bool" where
  "one_entry_per_path c \<longleftrightarrow> distinct (map (fp_path \<circ> lh_fingerprint) c)"

lemma cache_insert_one_entry: "one_entry_per_path c \<Longrightarrow> one_entry_per_path (cache_insert h c)"
  by (auto simp: one_entry_per_path_def cache_insert_def distinct_map_filter)

lemma cache_prune_one_entry: "one_entry_per_path c \<Longrightarrow> one_entry_per_path (snd (cache_prune f c))"
  by (simp add: one_entry_per_path_def cache_prune_def Let_def distinct_map_filter)

lemma observe_path: "observe_fingerprint f p = Some fp \<Longrightarrow> fp_path fp = p"
  by (auto simp: observe_fingerprint_def split: option.splits if_splits)

lemma cache_get_current:
  "cache_get f c p = Some h \<Longrightarrow> h \<in> set c \<and> observe_fingerprint f p = Some (lh_fingerprint h)"
  by (auto simp: cache_get_def find_Some_iff split: option.splits)

lemma cache_get_insert:
  "cache_get f (cache_insert h c) p =
     (if p = fp_path (lh_fingerprint h) then (if still_current f (lh_fingerprint h) then Some h else None)
      else cache_get f c p)"
proof (cases "observe_fingerprint f p")
  case None
  then show ?thesis by (auto simp: cache_get_def still_current_def)
next
  case (Some fp)
  note path = observe_path [OF Some]
  have kept: "find (\<lambda>g. lh_fingerprint g = fp) (filter (\<lambda>g. fp_path (lh_fingerprint g) \<noteq> q) c @ [h]) =
      (if p = q then if lh_fingerprint h = fp then Some h else None
       else find (\<lambda>g. lh_fingerprint g = fp) c)" if "q = fp_path (lh_fingerprint h)" for q
    using path that by (induction c) auto
  show ?thesis
    using Some kept [OF refl] by (auto simp: cache_get_def cache_insert_def still_current_def)
qed

lemma cache_prune_keeps:
  "cache_get f (snd (cache_prune f c)) p = cache_get f c p"
proof (cases "observe_fingerprint f p")
  case None
  then show ?thesis by (simp add: cache_get_def)
next
  case (Some fp)
  have "find (\<lambda>g. lh_fingerprint g = fp) (filter (\<lambda>h. still_current f (lh_fingerprint h)) c) =
      find (\<lambda>g. lh_fingerprint g = fp) c"
    using Some observe_path [OF Some] by (induction c) (auto simp: still_current_def)
  then show ?thesis using Some by (simp add: cache_get_def cache_prune_def Let_def)
qed

text \<open>A hash obtained through the cache is the hash of a file that is still as it was read.\<close>

lemma hash_file_cached_current:
  assumes "hash_file_cached env p c = Some (Inr h, c')" and "he_after env = he_before env"
  shows "cache_get (he_after env) c' p = Some h"
proof (cases "cache_get (he_before env) c p")
  case None
  then have run: "hash_file env p = Some (Inr h)" "c' = cache_insert h c"
    using assms(1) by (auto simp: hash_file_cached_def split: option.splits sum.splits)
  have "\<exists>before. observe_fingerprint (he_after env) p = Some before \<and> lh_fingerprint h = before"
    using run(1) by (auto simp: hash_file_def finish_hash_def split: option.splits sum.splits if_splits)
  then show ?thesis
    using observe_path run(2) by (auto simp: cache_get_insert still_current_def)
qed (use assms in \<open>simp add: hash_file_cached_def\<close>)

end
