(* ===== verification/IdentityMatchProofs.thy ===== *)
theory IdentityMatchProofs
  imports IdentityMatch FileHashingProofs
begin

text \<open>
  What a verdict rests on. Every verdict that can be used as identity describes a file that
  is there, with the size the provider published, claimed by no other record and
  contradicted neither by a platform nor by every published hash; the exact conditions of
  each level are given. After a completed matching no two usable records share a file.
\<close>

section \<open>Claims\<close>

lemma claims_sorted: "keys_sorted cmp_path (claims_of rs)"
proof -
  have "keys_sorted cmp_path
      (fold (\<lambda>r m. (case er_archivefs_path r of None \<Rightarrow> m | Some p \<Rightarrow> adjust cmp_path p 0 Suc m)) rs m)"
    if "keys_sorted cmp_path m" for m
    using that
    by (induction rs arbitrary: m) (auto split: option.splits intro: path_keys.keys_sorted_adjust)
  then show ?thesis by (simp add: claims_of_def)
qed

lemma claimants_count:
  "claimants (claims_of rs) p = length (filter (\<lambda>r. er_archivefs_path r = Some p) rs)"
proof -
  have "keys_sorted cmp_path m \<Longrightarrow>
      claimants (fold (\<lambda>r m. (case er_archivefs_path r of None \<Rightarrow> m | Some p \<Rightarrow> adjust cmp_path p 0 Suc m)) rs m) p =
      claimants m p + length (filter (\<lambda>r. er_archivefs_path r = Some p) rs)" for m
  proof (induction rs arbitrary: m)
    case Nil
    then show ?case by simp
  next
    case (Cons r rs)
    show ?case
    proof (cases "er_archivefs_path r")
      case None
      then show ?thesis using Cons by simp
    next
      case (Some q)
      have "claimants (adjust cmp_path q 0 Suc m) p = claimants m p + (if q = p then 1 else 0)"
        using path_keys.map_of_adjust [OF Cons.prems, of q 0 Suc p]
        by (auto simp: claimants_def split: option.splits)
      then show ?thesis
        using Some Cons.IH [of "adjust cmp_path q 0 Suc m"] path_keys.keys_sorted_adjust [OF Cons.prems]
        by simp
    qed
  qed
  from this [of "[]"] show ?thesis by (simp add: claims_of_def claimants_def)
qed

lemma contested_exact:
  "(p, n) \<in> set (contested (claims_of rs)) \<longleftrightarrow>
     n = length (filter (\<lambda>r. er_archivefs_path r = Some p) rs) \<and> n > 1"
proof -
  have "(p, n) \<in> set (claims_of rs) \<longleftrightarrow> map_of (claims_of rs) p = Some n"
    using path_keys.keys_distinct [OF claims_sorted] by (metis map_of_eq_Some_iff)
  then show ?thesis
    using claimants_count [of rs p] by (auto simp: contested_def claimants_def split: option.splits)
qed

section \<open>The loop over the published hashes\<close>

lemma compare_published_verdict:
  "fst (compare_published l hs) =
     (if hs = [] then None else Some (list_ex (agrees_with l) hs))"
  by (induction l hs rule: compare_published.induct) (auto split: prod.splits option.splits if_splits)

lemma compare_hashes_verdict:
  "fst (snd (compare_hashes cached r)) =
     (case cached of None \<Rightarrow> None
      | Some l \<Rightarrow> if er_hashes r = [] then None else Some (list_ex (agrees_with l) (er_hashes r)))"
proof (cases cached)
  case (Some l)
  obtain a cs ev where "compare_published l (er_hashes r) = (a, cs, ev)" by (metis prod_cases3)
  then show ?thesis using compare_published_verdict [of l "er_hashes r"] Some
    by (simp add: compare_hashes_def)
qed (simp add: compare_hashes_def)

definition platforms_agree :: "external_record \<Rightarrow> local_file_facts \<Rightarrow> bool" where
  "platforms_agree r facts \<longleftrightarrow>
     er_platform_candidate r \<noteq> None \<and> er_platform_candidate r = lf_local_platform facts"

definition platforms_differ :: "external_record \<Rightarrow> local_file_facts \<Rightarrow> bool" where
  "platforms_differ r facts \<longleftrightarrow>
     er_platform_candidate r \<noteq> None \<and> lf_local_platform facts \<noteq> None \<and>
     er_platform_candidate r \<noteq> lf_local_platform facts"

lemma compare_platform_verdict:
  "fst (compare_platform r facts) =
     (if platforms_agree r facts then Some True
      else if platforms_differ r facts then Some False else None)"
  by (auto simp: compare_platform_def platforms_agree_def platforms_differ_def split: option.splits)

section \<open>The levels\<close>

text \<open>
  A record whose file can be compared: mapped, claimed by no other record, present as a
  regular file whose size is the published one when one is published.
\<close>

definition comparable :: "external_record \<Rightarrow> local_file_facts \<Rightarrow> path_claims \<Rightarrow> path \<Rightarrow> bool" where
  "comparable r facts claims p \<longleftrightarrow>
     er_archivefs_path r = Some p \<and> claimants claims p \<le> 1 \<and>
     (case lf_fingerprint facts of
        None \<Rightarrow> False
      | Some fp \<Rightarrow>
          (case er_file_size_bytes r of None \<Rightarrow> True | Some n \<Rightarrow> n = fp_size_bytes fp))"

text \<open>The hashes settle the matter: one of the published hashes is that of the file, or none is.\<close>

definition hash_agrees :: "fs \<Rightarrow> hash_cache \<Rightarrow> external_record \<Rightarrow> path \<Rightarrow> bool" where
  "hash_agrees f hashes r p \<longleftrightarrow>
     (case cache_get f hashes p of None \<Rightarrow> False | Some l \<Rightarrow> list_ex (agrees_with l) (er_hashes r))"

definition hash_refutes :: "fs \<Rightarrow> hash_cache \<Rightarrow> external_record \<Rightarrow> path \<Rightarrow> bool" where
  "hash_refutes f hashes r p \<longleftrightarrow>
     (case cache_get f hashes p of
        None \<Rightarrow> False
      | Some l \<Rightarrow> er_hashes r \<noteq> [] \<and> \<not> list_ex (agrees_with l) (er_hashes r))"

definition level_of :: "external_record \<Rightarrow> local_file_facts \<Rightarrow> bool \<Rightarrow> external_verification" where
  "level_of r facts confirmed =
     (if confirmed then ConfirmedExternal
      else if er_file_size_bytes r \<noteq> None \<and> platforms_agree r facts then StrongExternal
      else if er_title r \<noteq> None then ProbableExternal else VUnmatched)"

lemma settle_match_verdict:
  "mo_verification (settle_match r facts cached size_agrees ev) =
     (if (\<exists>l. cached = Some l \<and> er_hashes r \<noteq> [] \<and> \<not> list_ex (agrees_with l) (er_hashes r)) \<or>
         platforms_differ r facts
      then VAmbiguous
      else fst (positive_verdict r
             (if \<exists>l. cached = Some l \<and> list_ex (agrees_with l) (er_hashes r) then Some True else None)
             size_agrees (if platforms_agree r facts then Some True else None)))"
proof -
  obtain pa cs1 ev1 where p: "compare_platform r facts = (pa, cs1, ev1)" by (metis prod_cases3)
  obtain cmp ha cs2 ev2 where h: "compare_hashes cached r = (cmp, ha, cs2, ev2)" by (metis prod_cases4)
  have pa: "pa = (if platforms_agree r facts then Some True
      else if platforms_differ r facts then Some False else None)"
    using compare_platform_verdict [of r facts] p by simp
  have ha: "ha = (case cached of None \<Rightarrow> None
      | Some l \<Rightarrow> if er_hashes r = [] then None else Some (list_ex (agrees_with l) (er_hashes r)))"
    using compare_hashes_verdict [of cached r] h by simp
  have apart: "\<not> (platforms_agree r facts \<and> platforms_differ r facts)"
    by (simp add: platforms_agree_def platforms_differ_def)
  have v: "mo_verification (settle_match r facts cached size_agrees ev) =
      (if ha = Some False \<or> pa = Some False then VAmbiguous
       else fst (positive_verdict r ha size_agrees pa))"
    by (cases "positive_verdict r ha size_agrees pa") (simp add: settle_match_def p h)
  show ?thesis unfolding v pa ha using apart by (cases cached) auto
qed

lemma match_record_comparable:
  assumes "comparable r facts claims p"
  shows "mo_verification (match_record f r facts claims hashes) =
    (if hash_refutes f hashes r p \<or> platforms_differ r facts then VAmbiguous
     else level_of r facts (hash_agrees f hashes r p))"
proof -
  obtain fp where fp: "lf_fingerprint facts = Some fp"
      "er_file_size_bytes r = None \<or> er_file_size_bytes r = Some (fp_size_bytes fp)"
    using assms by (auto simp: comparable_def split: option.splits)
  let ?size = "if er_file_size_bytes r = None then None else Some True"
  obtain ev where "match_record f r facts claims hashes =
      settle_match r facts (cache_get f hashes p) ?size ev"
    using assms fp by (auto simp: comparable_def match_record_def)
  then show ?thesis
    by (auto simp: settle_match_verdict positive_verdict_def level_of_def hash_refutes_def hash_agrees_def
        split: option.splits)
qed

lemma match_record_not_comparable:
  "(\<And>p. \<not> comparable r facts claims p) \<Longrightarrow>
   mo_verification (match_record f r facts claims hashes) \<in> {VUnmatched, VAmbiguous, VStale}"
  by (auto simp: comparable_def match_record_def Let_def not_le split: option.splits)

text \<open>The file is not there as a regular file, or not with the published size.\<close>

definition gone_or_resized :: "external_record \<Rightarrow> local_file_facts \<Rightarrow> bool" where
  "gone_or_resized r facts \<longleftrightarrow>
     (case lf_fingerprint facts of
        None \<Rightarrow> True
      | Some fp \<Rightarrow> er_file_size_bytes r \<noteq> None \<and> er_file_size_bytes r \<noteq> Some (fp_size_bytes fp))"

lemma comparable_iff:
  "comparable r facts claims p \<longleftrightarrow>
     er_archivefs_path r = Some p \<and> claimants claims p \<le> 1 \<and> \<not> gone_or_resized r facts"
  by (auto simp: comparable_def gone_or_resized_def split: option.splits)

lemma match_record_unsettled:
  assumes "\<And>p. \<not> comparable r facts claims p"
  shows "mo_verification (match_record f r facts claims hashes) =
    (case er_archivefs_path r of None \<Rightarrow> VUnmatched
     | Some p \<Rightarrow> if claimants claims p > 1 then VAmbiguous else VStale)"
proof (cases "er_archivefs_path r")
  case None
  then show ?thesis by (simp add: match_record_def)
next
  case (Some p)
  then show ?thesis
    using assms [of p]
    by (auto simp: match_record_def comparable_def Let_def split: option.splits)
qed

text \<open>The published size is that of the file, and a local platform is the same.\<close>

definition corroborated :: "external_record \<Rightarrow> local_file_facts \<Rightarrow> bool" where
  "corroborated r facts \<longleftrightarrow> er_file_size_bytes r \<noteq> None \<and> platforms_agree r facts"

text \<open>No hash was compared: the file has no cached hash, or the record publishes none.\<close>

definition hashes_silent :: "fs \<Rightarrow> hash_cache \<Rightarrow> external_record \<Rightarrow> path \<Rightarrow> bool" where
  "hashes_silent f hashes r p \<longleftrightarrow> cache_get f hashes p = None \<or> er_hashes r = []"

lemma hash_cases:
  "hashes_silent f hashes r p \<longleftrightarrow> \<not> hash_agrees f hashes r p \<and> \<not> hash_refutes f hashes r p"
  "hash_agrees f hashes r p \<Longrightarrow> \<not> hash_refutes f hashes r p"
  by (auto simp: hashes_silent_def hash_agrees_def hash_refutes_def split: option.splits)

lemma verdict_usable:
  assumes "is_usable (mo_verification (match_record f r facts claims hashes))"
  obtains p where "comparable r facts claims p" and "\<not> platforms_differ r facts"
    and "\<not> hash_refutes f hashes r p"
proof -
  have "\<exists>p. comparable r facts claims p"
    using match_record_not_comparable [of r facts claims f hashes] assms by (rule_tac ccontr) auto
  then obtain p where p: "comparable r facts claims p" by blast
  with assms have "\<not> (hash_refutes f hashes r p \<or> platforms_differ r facts)"
    by (auto simp: match_record_comparable [OF p])
  with p that show thesis by blast
qed

text \<open>
  C28: The conditions of every verdict, as the code decides it. No mapping gives Unmatched, a
  second claim Ambiguous, and an absent file or another size Stale. A file that can be
  compared is Ambiguous when the local platform is another one or hashes were compared and
  none agrees; else Confirmed when one published hash is the cached hash of the file as it is
  now, even if another published hash is not; else Strong when the published size and the
  platform agree; else Probable when the record has a title, whether or not a platform is
  known; else Unmatched. The six conditions exclude each other and leave no case out.
\<close>

theorem verdict_levels:
  "let v = mo_verification (match_record f r facts claims hashes) in
   (v = ConfirmedExternal \<longleftrightarrow>
     (\<exists>p. comparable r facts claims p \<and> \<not> platforms_differ r facts \<and> hash_agrees f hashes r p)) \<and>
   (v = StrongExternal \<longleftrightarrow>
     (\<exists>p. comparable r facts claims p \<and> hashes_silent f hashes r p \<and> corroborated r facts)) \<and>
   (v = ProbableExternal \<longleftrightarrow>
     (\<exists>p. comparable r facts claims p \<and> hashes_silent f hashes r p \<and> \<not> platforms_differ r facts \<and>
        \<not> corroborated r facts \<and> er_title r \<noteq> None)) \<and>
   (v = VAmbiguous \<longleftrightarrow>
     (\<exists>p. er_archivefs_path r = Some p \<and> claimants claims p > 1) \<or>
     (\<exists>p. comparable r facts claims p \<and> (platforms_differ r facts \<or> hash_refutes f hashes r p))) \<and>
   (v = VStale \<longleftrightarrow>
     (\<exists>p. er_archivefs_path r = Some p \<and> claimants claims p \<le> 1 \<and> gone_or_resized r facts)) \<and>
   (v = VUnmatched \<longleftrightarrow>
     er_archivefs_path r = None \<or>
     (\<exists>p. comparable r facts claims p \<and> hashes_silent f hashes r p \<and> \<not> platforms_differ r facts \<and>
        \<not> corroborated r facts \<and> er_title r = None))"
proof (cases "\<exists>p. comparable r facts claims p")
  case False
  then have none: "\<not> comparable r facts claims p" for p by blast
  have stale: "gone_or_resized r facts" if "er_archivefs_path r = Some p" "\<not> claimants claims p > 1" for p
    using none [of p] that by (simp add: comparable_iff)
  show ?thesis
    unfolding match_record_unsettled [OF none] Let_def
    using stale by (auto simp: none split: option.splits)
next
  case True
  then obtain p where p: "comparable r facts claims p" by blast
  then have only: "comparable r facts claims q \<longleftrightarrow> q = p" for q by (auto simp: comparable_def)
  have path: "er_archivefs_path r = Some p" "claimants claims p \<le> 1" "\<not> gone_or_resized r facts"
    using p by (simp_all add: comparable_iff)
  have apart: "corroborated r facts \<Longrightarrow> \<not> platforms_differ r facts"
    by (simp add: platforms_agree_def platforms_differ_def corroborated_def)
  show ?thesis
    using apart path hash_cases [of f hashes r p]
    unfolding only match_record_comparable [OF p] Let_def
    by (auto simp: level_of_def corroborated_def)
qed

section \<open>A whole set\<close>

lemma match_loop_nth:
  "match_loop fs_at claims hashes facts_for cancel n rs = (True, rs') \<Longrightarrow>
   length rs' = length rs \<and>
   (\<forall>i < length rs. rs' ! i = apply_match
      (match_record (fs_at (n + i)) (rs ! i) (facts_for (n + i) (rs ! i)) claims hashes) (rs ! i))"
proof (induction rs arbitrary: n rs')
  case Nil
  then show ?case by simp
next
  case (Cons r rs)
  have nc: "\<not> cancel n" using Cons.prems by (auto split: if_splits)
  obtain ok out where rec: "match_loop fs_at claims hashes facts_for cancel (Suc n) rs = (ok, out)"
    by force
  then have out: "ok" "rs' = apply_match (match_record (fs_at n) r (facts_for n r) claims hashes) r # out"
    using Cons.prems nc by (simp_all add: Let_def)
  have IH: "length out = length rs \<and> (\<forall>i < length rs. out ! i = apply_match
      (match_record (fs_at (Suc n + i)) (rs ! i) (facts_for (Suc n + i) (rs ! i)) claims hashes) (rs ! i))"
    by (rule Cons.IH) (use rec out(1) in simp)
  show ?case using IH out(2) by (auto simp: less_Suc_eq_0_disj)
qed

lemma apply_match_simps [simp]:
  "er_archivefs_path (apply_match o1 r) = er_archivefs_path r"
  "er_verification (apply_match o1 r) = mo_verification o1"
  "er_conflicts (apply_match o1 r) = mo_conflicts o1"
  "er_provider (apply_match o1 r) = er_provider r"
  "er_platform_candidate (apply_match o1 r) = er_platform_candidate r"
  "er_provider_game_id (apply_match o1 r) = er_provider_game_id r"
  by (simp_all add: apply_match_def)

lemma usable_claims_alone:
  assumes "match_all fs_at hashes facts_for cancel rs = (True, rs')" and "i < length rs'"
    and "is_usable (er_verification (rs' ! i))"
  shows "\<exists>p. comparable (rs ! i) (facts_for i (rs ! i)) (claims_of rs) p \<and>
    er_archivefs_path (rs' ! i) = Some p"
proof -
  have i: "i < length rs" "rs' ! i = apply_match
      (match_record (fs_at i) (rs ! i) (facts_for i (rs ! i)) (claims_of rs) hashes) (rs ! i)"
    using match_loop_nth assms(1,2) unfolding match_all_def by fastforce+
  with assms(3) have "is_usable (mo_verification
      (match_record (fs_at i) (rs ! i) (facts_for i (rs ! i)) (claims_of rs) hashes))" by simp
  then obtain p where "comparable (rs ! i) (facts_for i (rs ! i)) (claims_of rs) p"
    using verdict_usable by blast
  then show ?thesis using i(2) by (auto simp: comparable_def)
qed

text \<open>
  C29: After a completed matching a local file has at most one usable record: two usable
  records at different positions never translate to the same path, and the file of each is
  there with the size the provider published.
\<close>

theorem one_usable_record_per_file:
  assumes "match_all fs_at hashes facts_for cancel rs = (True, rs')"
    and "i < length rs'" and "j < length rs'" and "i \<noteq> j"
    and "is_usable (er_verification (rs' ! i))" and "is_usable (er_verification (rs' ! j))"
  shows "er_archivefs_path (rs' ! i) \<noteq> er_archivefs_path (rs' ! j) \<and>
    (\<exists>p. comparable (rs ! i) (facts_for i (rs ! i)) (claims_of rs) p)"
proof -
  obtain p q where p: "comparable (rs ! i) (facts_for i (rs ! i)) (claims_of rs) p"
      "er_archivefs_path (rs' ! i) = Some p"
    and q: "er_archivefs_path (rs ! j) = Some q" "er_archivefs_path (rs' ! j) = Some q"
    using usable_claims_alone [OF assms(1,2,5)] usable_claims_alone [OF assms(1,3,6)]
    by (auto simp: comparable_def)
  have len: "length rs' = length rs" using match_loop_nth assms(1) unfolding match_all_def by blast
  have "p \<noteq> q"
  proof
    assume "p = q"
    then have "{i, j} \<subseteq> {k. k < length rs \<and> er_archivefs_path (rs ! k) = Some p}"
      using p q assms(2,3) len by (auto simp: comparable_def)
    then have "card {i, j} \<le> length (filter (\<lambda>r. er_archivefs_path r = Some p) rs)"
      unfolding length_filter_conv_card by (intro card_mono) auto
    with assms(4) p(1) show False by (simp add: comparable_def claimants_count)
  qed
  with p q show ?thesis by auto
qed

section \<open>A published hash that differs\<close>

lemma settle_match_conflicts:
  "mo_conflicts (settle_match r facts cached size_agrees ev) =
     fst (snd (compare_platform r facts)) @ fst (snd (snd (compare_hashes cached r)))"
  by (auto simp: settle_match_def split: prod.split)

lemma compare_platform_conflicts:
  "\<not> platforms_differ r facts \<Longrightarrow> fst (snd (compare_platform r facts)) = []"
  by (auto simp: compare_platform_def platforms_differ_def split: option.splits)

lemma match_record_conflicts:
  assumes "comparable r facts claims p" and "\<not> platforms_differ r facts"
  shows "mo_conflicts (match_record f r facts claims hashes) =
    fst (snd (snd (compare_hashes (cache_get f hashes p) r)))"
proof -
  obtain fp where fp: "lf_fingerprint facts = Some fp"
      "er_file_size_bytes r = None \<or> er_file_size_bytes r = Some (fp_size_bytes fp)"
    using assms(1) by (auto simp: comparable_def split: option.splits)
  then obtain s ev where "match_record f r facts claims hashes =
      settle_match r facts (cache_get f hashes p) s ev"
    using assms(1) by (auto simp: comparable_def match_record_def)
  then show ?thesis using compare_platform_conflicts [OF assms(2)] by (simp add: settle_match_conflicts)
qed

text \<open>
  The order of the published hashes matters: a hash that differs before one that agrees
  leaves a confirmed record with a conflict, the other way round leaves none.
\<close>

lemma confirmed_despite_hash_conflict:
  assumes "comparable r facts claims p" and "\<not> platforms_differ r facts"
    and "cache_get f hashes p = Some l" and "er_hashes r = h # g # hs"
    and "\<not> agrees_with l h" and "agrees_with l g"
  shows "mo_verification (match_record f r facts claims hashes) = ConfirmedExternal \<and>
    hash_conflict l h \<in> set (mo_conflicts (match_record f r facts claims hashes)) \<and>
    (let r' = r\<lparr>er_hashes := g # h # hs\<rparr> in
       mo_verification (match_record f r' facts claims hashes) = ConfirmedExternal \<and>
       mo_conflicts (match_record f r' facts claims hashes) = [])"
proof -
  let ?r = "r\<lparr>er_hashes := g # h # hs\<rparr>"
  have comp: "comparable ?r facts claims p" "\<not> platforms_differ ?r facts"
    using assms(1,2) by (auto simp: comparable_def platforms_differ_def split: option.splits)
  have "mo_verification (match_record f x facts claims hashes) = ConfirmedExternal"
    if "comparable x facts claims p" "\<not> platforms_differ x facts" "x = r \<or> x = ?r" for x
    using that(2,3) assms(3-6)
    by (auto simp: match_record_comparable [OF that(1)] hash_refutes_def hash_agrees_def level_of_def)
  then have "mo_verification (match_record f r facts claims hashes) = ConfirmedExternal"
    "mo_verification (match_record f ?r facts claims hashes) = ConfirmedExternal"
    using assms(1,2) comp by blast+
  moreover have "hash_conflict l h \<in> set (mo_conflicts (match_record f r facts claims hashes))"
    unfolding match_record_conflicts [OF assms(1,2)]
    using assms(3-6) by (simp add: compare_hashes_def)
  moreover have "mo_conflicts (match_record f ?r facts claims hashes) = []"
    unfolding match_record_conflicts [OF comp] using assms(3-6) by (simp add: compare_hashes_def)
  ultimately show ?thesis by (simp add: Let_def)
qed

end
