(* ===== verification/PlatformIdentityProofs.thy ===== *)
theory PlatformIdentityProofs
  imports PlatformIdentity IdentityMatchProofs
begin

text \<open>
  The resolution of a platform depends only on which facts of the current generation there
  are, never on their order or number: a manual choice decides alone, then verified DAT and
  RomM evidence together with existing strong identity, then existing identity, then
  inference, and a tier decides only when it is unanimous. RomM evidence in turn rests on a
  local file that the matching compared.
\<close>

section \<open>The decision as a set of facts\<close>

definition from_source :: "identity_source \<Rightarrow> platform_evidence set \<Rightarrow> platform_evidence set" where
  "from_source src E = {e \<in> E. pe_source e = src}"

definition current_facts :: "nat \<Rightarrow> platform_evidence list \<Rightarrow> platform_evidence set" where
  "current_facts gen all = {e \<in> set all. pe_generation e = gen}"

text \<open>The facts that have to agree for a platform to be resolved.\<close>

definition deciding_facts :: "platform_evidence set \<Rightarrow> platform_evidence set" where
  "deciding_facts E =
     (let existing = from_source ExistingStrongIdentity E;
          provider = from_source VerifiedDat E \<union> from_source RommSource E
      in if from_source ManualSource E \<noteq> {} then from_source ManualSource E
         else if provider \<noteq> {} then provider \<union> existing
         else if existing \<noteq> {} then existing
         else from_source Inference E)"

lemma set_dedup [simp]: "set (dedup xs) = set xs"
  by (induction xs rule: dedup.induct) auto

lemma unanimous: "remdups xs = [p] \<longleftrightarrow> set xs = {p}"
  by (metis distinct_remdups distinct_singleton empty_set list.simps(15) set_remdups
      distinct_card card_1_singleton_iff length_Suc_conv length_0_conv list.set_intros(1)
      One_nat_def singletonD)

lemma settle_tier_resolved:
  "resolution_platform (settle_tier reg gen ev) = Some p \<longleftrightarrow> pe_platform ` set ev = {p}"
  using unanimous [of "map pe_platform ev" p]
  by (auto simp: settle_tier_def split: list.splits)

lemma settle_tier_cases:
  "(\<exists>p d c. settle_tier reg gen ev = ResolvedPlatform gen p d c ev \<and> pe_platform ` set ev = {p}) \<or>
   (settle_tier reg gen ev = ConflictingPlatform gen ev \<and> (\<forall>p. pe_platform ` set ev \<noteq> {p}))"
proof (cases "\<exists>p. remdups (map pe_platform ev) = [p]")
  case True
  then obtain p where p: "remdups (map pe_platform ev) = [p]" by blast
  then have "pe_platform ` set ev = {p}" using unanimous [of "map pe_platform ev" p] by simp
  with p show ?thesis by (simp add: settle_tier_def)
next
  case False
  then have "settle_tier reg gen ev = ConflictingPlatform gen ev"
    by (auto simp: settle_tier_def split: list.splits)
  moreover have "pe_platform ` set ev \<noteq> {p}" for p
    using False unanimous [of "map pe_platform ev" p] by auto
  ultimately show ?thesis by simp
qed

lemma settle_tier_known: "settle_tier reg gen ev \<noteq> UnknownPlatform g"
  using settle_tier_cases [of reg gen ev] by auto

lemma settle_authoritative_known: "settle_authoritative reg gen ev \<noteq> UnknownPlatform g"
  using settle_tier_cases [of reg gen "authoritative ev"] by (auto simp: settle_authoritative_def Let_def split: if_splits)

lemma conflict_iff:
  "resolution_is_conflict r \<longleftrightarrow> resolution_platform r = None \<and> (\<forall>g. r \<noteq> UnknownPlatform g)"
  by (cases r) auto

lemma set_of_source [simp]: "set (of_source src ev) = from_source src (set ev)"
  by (auto simp: of_source_def from_source_def)

lemma set_authoritative [simp]:
  "set (authoritative ev) = from_source VerifiedDat (set ev) \<union> from_source RommSource (set ev)"
  by (auto simp: authoritative_def from_source_def)

lemma of_source_Nil: "of_source src ev = [] \<longleftrightarrow> from_source src (set ev) = {}"
  by (metis set_of_source set_empty)

lemma authoritative_Nil:
  "authoritative ev = [] \<longleftrightarrow> from_source VerifiedDat (set ev) \<union> from_source RommSource (set ev) = {}"
  by (metis set_authoritative set_empty)

lemma settle_authoritative_resolved:
  assumes "authoritative ev \<noteq> []"
  shows "resolution_platform (settle_authoritative reg gen ev) = Some p \<longleftrightarrow>
    pe_platform ` (set (authoritative ev) \<union> from_source ExistingStrongIdentity (set ev)) = {p}"
proof -
  let ?a = "authoritative ev" and ?s = "from_source ExistingStrongIdentity (set ev)"
  have ne: "pe_platform ` set ?a \<noteq> {}" using assms by (simp only: image_is_empty set_empty not_False_eq_True)
  from settle_tier_cases [of reg gen ?a] show ?thesis
  proof
    assume "\<exists>q d c. settle_tier reg gen ?a = ResolvedPlatform gen q d c ?a \<and> pe_platform ` set ?a = {q}"
    then obtain q d c where q: "settle_tier reg gen ?a = ResolvedPlatform gen q d c ?a"
        "pe_platform ` set ?a = {q}" by blast
    have both: "pe_platform ` (set ?a \<union> ?s) = {p} \<longleftrightarrow> q = p \<and> (\<forall>e \<in> ?s. pe_platform e = q)"
      unfolding image_Un q(2) by auto
    have "settle_authoritative reg gen ev =
        (if \<exists>e \<in> ?s. pe_platform e \<noteq> q
         then ConflictingPlatform gen (?a @ of_source ExistingStrongIdentity ev)
         else ResolvedPlatform gen q d c ?a)"
      by (simp add: settle_authoritative_def q(1) list_ex_iff Let_def)
    then show ?thesis unfolding both by auto
  next
    assume "settle_tier reg gen ?a = ConflictingPlatform gen ?a \<and> (\<forall>p. pe_platform ` set ?a \<noteq> {p})"
    moreover have "pe_platform ` (set ?a \<union> ?s) = {p} \<Longrightarrow> pe_platform ` set ?a = {p}"
      unfolding image_Un using ne by (metis Un_singleton_iff)
    ultimately show ?thesis by (auto simp: settle_authoritative_def)
  qed
qed

lemma resolve_unfold:
  "set (dedup (sort_by cmp_evidence (filter (\<lambda>e. pe_generation e = gen) all))) = current_facts gen all"
  by (auto simp: current_facts_def)

text \<open>
  C30: The platform is resolved exactly when the deciding facts of the current generation
  agree on it, and the answer is unknown exactly when there are none: no order of arrival, no
  repetition, no stale fact and no weaker tier changes the answer.
\<close>

theorem resolution_is_unanimity:
  "(resolution_platform (resolve_platform_identity reg gen all) = Some p \<longleftrightarrow>
     pe_platform ` deciding_facts (current_facts gen all) = {p}) \<and>
   (resolution_is_conflict (resolve_platform_identity reg gen all) \<longleftrightarrow>
     deciding_facts (current_facts gen all) \<noteq> {} \<and>
     (\<nexists>q. pe_platform ` deciding_facts (current_facts gen all) = {q}))"
proof -
  obtain ev where ev: "ev = dedup (sort_by cmp_evidence (filter (\<lambda>e. pe_generation e = gen) all))" by blast
  have E: "current_facts gen all = set ev" by (simp only: ev resolve_unfold)
  let ?r = "resolve_platform_identity reg gen all"
  have r: "?r =
     (if of_source ManualSource ev \<noteq> [] then settle_tier reg gen (of_source ManualSource ev)
      else if authoritative ev \<noteq> [] then settle_authoritative reg gen ev
      else if of_source ExistingStrongIdentity ev \<noteq> []
      then settle_tier reg gen (of_source ExistingStrongIdentity ev)
      else if of_source Inference ev \<noteq> [] then settle_tier reg gen (of_source Inference ev)
      else UnknownPlatform gen)"
    by (simp add: resolve_platform_identity_def Let_def ev)
  have resolved: "resolution_platform ?r = Some q \<longleftrightarrow> pe_platform ` deciding_facts (set ev) = {q}" for q
    using settle_authoritative_resolved [of ev reg gen q]
    unfolding r deciding_facts_def Let_def
    by (auto simp: settle_tier_resolved of_source_Nil authoritative_Nil)
  have "(\<exists>g. ?r = UnknownPlatform g) \<longleftrightarrow> deciding_facts (set ev) = {}"
    unfolding r deciding_facts_def Let_def
    by (cases "from_source ManualSource (set ev) = {}"; cases "from_source ExistingStrongIdentity (set ev) = {}";
        cases "from_source VerifiedDat (set ev) \<union> from_source RommSource (set ev) = {}";
        simp add: of_source_Nil authoritative_Nil settle_tier_known settle_authoritative_known)
  then show ?thesis unfolding E conflict_iff using resolved by (metis not_None_eq)
qed

section \<open>RomM evidence rests on the file\<close>

lemma romm_evidence_Some:
  assumes "romm_evidence reg r gen = Some e"
  shows "is_usable (er_verification r) \<and> er_conflicts r = [] \<and>
    (\<exists>q \<in> set reg. Some (pl_id q) = er_platform_candidate r \<and> pe_platform e = pl_id q)"
proof -
  obtain candidate q where q: "er_platform_candidate r = Some candidate"
      "platform_by_id reg candidate = Some q" "pe_platform e = pl_id q"
    using assms by (auto simp: romm_evidence_def split: if_splits option.splits)
  then have "q \<in> set reg" "pl_id q = candidate"
    by (auto simp: platform_by_id_def find_Some_iff)
  with q assms show ?thesis
    by (auto simp: romm_evidence_def has_conflicts_def split: if_splits)
qed

lemma no_hash_conflict:
  "fst (snd (compare_published l hs)) = [] \<longleftrightarrow> hs = [] \<or> agrees_with l (hd hs)"
  by (cases hs) (auto split: prod.split)

text \<open>
  C31: A platform taken from RomM rests on the local file: after a completed matching, RomM
  evidence for a record means that the record translates to a file that is there with the
  published size when one is published, that no other record claims it, that the local
  platform, when both are known, is the same, and that the first published hash is the hash
  of the file as it is, when the file has been hashed. The hashes published after it are not
  compared and may be those of other contents.
\<close>

theorem romm_evidence_rests_on_file:
  assumes "match_all fs_at hashes facts_for cancel rs = (True, rs')" and "i < length rs'"
    and "romm_evidence reg (rs' ! i) gen = Some e"
  shows "\<exists>p. comparable (rs ! i) (facts_for i (rs ! i)) (claims_of rs) p \<and>
    \<not> platforms_differ (rs ! i) (facts_for i (rs ! i)) \<and>
    (case cache_get (fs_at i) hashes p of None \<Rightarrow> True
     | Some l \<Rightarrow> er_hashes (rs ! i) = [] \<or> agrees_with l (hd (er_hashes (rs ! i)))) \<and>
    (\<exists>q \<in> set reg. Some (pl_id q) = er_platform_candidate (rs ! i) \<and> pe_platform e = pl_id q)"
proof -
  let ?r = "rs ! i" and ?facts = "facts_for i (rs ! i)"
  let ?m = "match_record (fs_at i) ?r ?facts (claims_of rs) hashes"
  have ri: "rs' ! i = apply_match ?m ?r"
    using match_loop_nth assms(1,2) unfolding match_all_def by fastforce
  have us: "is_usable (mo_verification ?m)" "mo_conflicts ?m = []"
    and reg: "\<exists>q \<in> set reg. Some (pl_id q) = er_platform_candidate ?r \<and> pe_platform e = pl_id q"
    using romm_evidence_Some [OF assms(3)] unfolding ri by simp_all
  obtain p where p: "comparable ?r ?facts (claims_of rs) p" "\<not> platforms_differ ?r ?facts"
    by (rule verdict_usable [OF us(1)])
  have "fst (snd (snd (compare_hashes (cache_get (fs_at i) hashes p) ?r))) = []"
    using match_record_conflicts [OF p, of "fs_at i" hashes] us(2) by simp
  then have "case cache_get (fs_at i) hashes p of None \<Rightarrow> True
     | Some l \<Rightarrow> er_hashes ?r = [] \<or> agrees_with l (hd (er_hashes ?r))"
    using no_hash_conflict by (fastforce simp: compare_hashes_def split: option.splits prod.splits)
  with p reg show ?thesis by blast
qed

end
