(* ===== verification/IdentityExample.thy ===== *)
theory IdentityExample
  imports PlatformIdentityProofs
begin

text \<open>
  One import in which the hypotheses of the identity properties hold: two records of a
  provider translate to two files that are there with the published sizes.
\<close>

definition demo_record :: "string \<Rightarrow> nat \<Rightarrow> external_record" where
  "demo_record name bytes =
     \<lparr> er_provider = Romm, er_server_id = ''romm'', er_provider_platform_id = None,
       er_provider_game_id = name, er_provider_file_id = None, er_provider_path = name,
       er_archivefs_path = Some [''roms'', name], er_title = Some name,
       er_platform_candidate = Some ''NES'', er_provider_platform_name = None, er_regions = [],
       er_revision = None, er_hashes = [], er_file_size_bytes = Some bytes,
       er_metadata_provider_ids = [], er_artwork = None, er_related_files = [],
       er_sibling_game_ids = [], er_imported_at_unix_seconds = 0, er_provider_updated_at = None,
       er_verification = VUnmatched, er_conflicts = [], er_evidence = [] \<rparr>"

definition demo_records :: "external_record list" where
  "demo_records = [demo_record ''a'' 10, demo_record ''b'' 20]"

definition demo_facts :: "nat \<Rightarrow> external_record \<Rightarrow> local_file_facts" where
  "demo_facts n r =
     \<lparr> lf_fingerprint = Some \<lparr> fp_path = [''roms'', er_provider_path r], fp_size_bytes = 10 * Suc n,
                               fp_modified_unix_seconds = Some 5 \<rparr>,
       lf_presence = PresenceFile, lf_local_platform = Some ''NES'', lf_local_strength = WeakEvidence \<rparr>"

definition demo_registry :: registry where
  "demo_registry =
     [\<lparr> pl_id = ''NES'', pl_display_name = ''Nintendo'', pl_folder_aliases = [''nes''],
        pl_filename_aliases = [], pl_strong_extensions = [''nes''], pl_weak_extensions = [],
        pl_magic = [], pl_layout = [], pl_conflicts_with = [], pl_preferred_emulator = None,
        pl_explanation = [] \<rparr>]"

definition demo_match :: "bool \<times> external_record list" where
  "demo_match = match_all (\<lambda>n. fmempty) [] demo_facts (\<lambda>n. False) demo_records"

lemma demo_comparable:
  "comparable (demo_record ''a'' 10) (demo_facts 0 (demo_record ''a'' 10)) (claims_of demo_records) [''roms'', ''a'']"
  "comparable (demo_record ''b'' 20) (demo_facts (Suc 0) (demo_record ''b'' 20)) (claims_of demo_records) [''roms'', ''b'']"
  by (simp_all add: comparable_def demo_record_def demo_facts_def claimants_count demo_records_def)

lemma demo_level:
  "level_of (demo_record name bytes) (demo_facts n (demo_record name bytes)) False = StrongExternal"
  "\<not> platforms_differ (demo_record name bytes) (demo_facts n (demo_record name bytes))"
  by (simp_all add: level_of_def platforms_agree_def platforms_differ_def demo_record_def demo_facts_def)

lemma no_cached_hash [simp]: "cache_get f [] p = None"
  by (simp add: cache_get_def split: option.split)

lemma demo_usable:
  assumes "comparable (demo_record name bytes) (demo_facts n (demo_record name bytes)) claims p"
  shows "mo_verification (match_record f (demo_record name bytes) (demo_facts n (demo_record name bytes)) claims []) =
      StrongExternal \<and>
    mo_conflicts (match_record f (demo_record name bytes) (demo_facts n (demo_record name bytes)) claims []) = []"
  using match_record_comparable [OF assms, of f "[]"] match_record_conflicts [OF assms demo_level(2), of f "[]"]
    demo_level
  by (simp add: hash_refutes_def hash_agrees_def compare_hashes_def)

lemma demo_match_done:
  "demo_match = (True, map snd [(0 :: nat, rs' ! 0), (1, rs' ! 1)]) \<and> length rs' = 2 \<and>
   er_verification (rs' ! 0) = StrongExternal \<and> er_verification (rs' ! 1) = StrongExternal \<and>
   er_conflicts (rs' ! 0) = []"
  if "rs' = snd demo_match"
  using that demo_usable [OF demo_comparable(1), of fmempty] demo_usable [OF demo_comparable(2), of fmempty]
  by (simp add: demo_match_def match_all_def demo_records_def)

lemma demo_completed: "match_all (\<lambda>n. fmempty) [] demo_facts (\<lambda>n. False) demo_records = (True, snd demo_match)"
  using demo_match_done [OF refl] unfolding demo_match_def by (metis prod.collapse fst_conv)

lemma one_usable_record_per_file_witness:
  "er_archivefs_path (snd demo_match ! 0) \<noteq> er_archivefs_path (snd demo_match ! 1)"
  using one_usable_record_per_file [OF demo_completed, of 0 1] demo_match_done [OF refl] by simp

lemma demo_romm_evidence: "\<exists>e. romm_evidence demo_registry (snd demo_match ! 0) 7 = Some e"
proof -
  have "snd demo_match ! 0 = apply_match
      (match_record fmempty (demo_record ''a'' 10) (demo_facts 0 (demo_record ''a'' 10)) (claims_of demo_records) [])
      (demo_record ''a'' 10)"
    by (simp add: demo_match_def match_all_def demo_records_def)
  then have "er_provider (snd demo_match ! 0) = Romm" "er_platform_candidate (snd demo_match ! 0) = Some ''NES''"
    by (simp_all add: demo_record_def)
  then show ?thesis
    using demo_match_done [OF refl]
    by (simp add: romm_evidence_def has_conflicts_def platform_by_id_def demo_registry_def)
qed

lemma romm_evidence_rests_on_file_witness:
  "\<exists>e. romm_evidence demo_registry (snd demo_match ! 0) 7 = Some e \<and>
    (\<exists>p. comparable (demo_records ! 0) (demo_facts 0 (demo_records ! 0)) (claims_of demo_records) p)"
proof -
  obtain e where e: "romm_evidence demo_registry (snd demo_match ! 0) 7 = Some e"
    using demo_romm_evidence by blast
  have "0 < length (snd demo_match)" using demo_match_done [OF refl] by simp
  from romm_evidence_rests_on_file [OF demo_completed this e] e show ?thesis by blast
qed

end
