(* ===== verification/OrgModel.thy ===== *)
theory OrgModel
  imports Classification TxnExecutor
begin

text \<open>
  The organisation of a library into platform directories: the plan of
  \<open>dat/rom_organisation/model.rs\<close>. The strings of a plan that only the interface shows
  (display name, source of the platform) are kept as the source has them.
\<close>

datatype organisation_mode = RenameInPlace | MoveRealFile | OrganiseSymlinkOnly

primrec organisation_mode_label :: "organisation_mode \<Rightarrow> string" where
  "organisation_mode_label RenameInPlace = ''Rename in place''"
| "organisation_mode_label MoveRealFile = ''Move real file''"
| "organisation_mode_label OrganiseSymlinkOnly = ''Organise symlink only''"

datatype organisation_status =
  OsSuggested | OsAlreadyOrganised | OsConflict | OsBlocked | OsUnsupported

primrec organisation_status_label :: "organisation_status \<Rightarrow> string" where
  "organisation_status_label OsSuggested = ''Suggested''"
| "organisation_status_label OsAlreadyOrganised = ''Already organised''"
| "organisation_status_label OsConflict = ''Conflict''"
| "organisation_status_label OsBlocked = ''Blocked''"
| "organisation_status_label OsUnsupported = ''Unsupported''"

text \<open>
  A path of the model is absolute, so the empty \<open>PathBuf\<close> of an entry that has no destination
  is \<open>None\<close>.
\<close>

record organisation_entry =
  oe_source_path :: path
  oe_destination_path :: "path option"
  oe_platform :: "string option"
  oe_platform_display_name :: string
  oe_platform_source :: string
  oe_slug :: "string option"
  oe_mode :: organisation_mode
  oe_content_classification :: "dat_content_classification option"
  oe_original_metadata :: dat_original_metadata
  oe_status :: organisation_status
  oe_reason :: "string option"

record organisation_plan =
  op_master_root :: path
  op_mode :: organisation_mode
  op_content_policy :: content_selection_policy
  op_classifier_version :: string
  op_generation :: nat
  op_entries :: "organisation_entry list"

definition suggested :: "organisation_plan \<Rightarrow> organisation_entry list" where
  "suggested plan = filter (\<lambda>e. oe_status e = OsSuggested) (op_entries plan)"

section \<open>From a plan to a transaction\<close>

text \<open>\<open>Display\<close> of the errors of an apply pass.\<close>

primrec apply_error_text :: "apply_error \<Rightarrow> string" where
  "apply_error_text NothingApproved = ''no approved, actionable proposals were selected''"
| "apply_error_text (StalePlan plan current) =
     ''the plan is stale (generation '' @ nat_to_string plan @ '', current '' @
     nat_to_string current @ ''); run a fresh audit''"
| "apply_error_text (StaleClassifierVersion plan current) =
     ''Rename plan is stale because classification rules changed. '' @
     ''Regenerate the plan before applying.''"
| "apply_error_text (HardConflicts conflicts) =
     ''preflight found '' @ nat_to_string (length conflicts) @ '' hard conflict(s)''"
| "apply_error_text (InvalidTransactionId i) =
     ''transaction id '' @ [quote] @ i @ [quote] @ '' is not usable''"
| "apply_error_text (JournalError detail) =
     ''could not write the transaction journal: '' @ detail"
| "apply_error_text ApplyCancelled = ''the apply was cancelled''"

text \<open>
  One entry of a transaction: skipped when it is not approved, has no destination, or the
  source has gone.
\<close>

definition organisation_transaction_entry ::
    "fs \<Rightarrow> path set \<Rightarrow> organisation_entry \<Rightarrow> transaction_entry option" where
  "organisation_transaction_entry f approved e =
     (if oe_source_path e \<notin> approved then None
      else (case oe_destination_path e of
              None \<Rightarrow> None
            | Some destination \<Rightarrow>
                (case capture_identity f (oe_source_path e) of
                   None \<Rightarrow> None
                 | Some ident \<Rightarrow>
                     (case path_file_name destination of
                        None \<Rightarrow> None
                      | Some proposed \<Rightarrow>
                          Some \<lparr> te_source_path = oe_source_path e,
                                 te_destination_path = destination,
                                 te_original_basename =
                                   (case path_file_name (oe_source_path e) of
                                      None \<Rightarrow> [] | Some name \<Rightarrow> name),
                                 te_proposed_basename = proposed,
                                 te_identity = ident,
                                 te_preflight_passed = False,
                                 te_preflight_failures = [],
                                 te_state = EsPlanned,
                                 te_failure_reason = None,
                                 te_applied_at_unix = None,
                                 te_rolled_back_at_unix = None,
                                 te_unknown = [] \<rparr>))))"

text \<open>
  The clock is read for the identifier and again for the creation time, as in
  \<open>build_transaction\<close>; \<open>sequence\<close> is the counter of transaction identifiers.
\<close>

definition build_organisation_transaction ::
    "fs \<Rightarrow> nat \<Rightarrow> nat \<Rightarrow> nat \<Rightarrow> organisation_plan \<Rightarrow> path set \<Rightarrow> nat \<Rightarrow> string + rename_transaction" where
  "build_organisation_transaction f id_now sequence created_now plan approved generation =
     (case validate_classifier_version (Some (op_classifier_version plan)) of
        Inl err \<Rightarrow> Inl (apply_error_text err)
      | Inr _ \<Rightarrow>
          if generation \<noteq> op_generation plan
          then Inl (''the organisation plan is stale (generation '' @ nat_to_string (op_generation plan) @
                    ''; current '' @ nat_to_string generation @ ''); regenerate it'')
          else (let entries = List.map_filter (organisation_transaction_entry f approved) (suggested plan)
                in if entries = [] then Inl ''no approved Suggested entries in the plan''
                   else Inr \<lparr> tx_transaction_id = new_transaction_id id_now sequence,
                              tx_plan_generation = op_generation plan,
                              tx_classifier_version = Some (op_classifier_version plan),
                              tx_created_at_unix = created_now,
                              tx_source_scan_root = path_text (op_master_root plan),
                              tx_state = TsPlanned,
                              tx_entries = entries,
                              tx_created_directories = [],
                              tx_unknown = [] \<rparr>))"

end
