(* ===== verification/DirCalls.thy ===== *)
theory DirCalls
  imports FileSystem
begin

text \<open>
  Making and removing a directory. The two system calls are parameters, as the rename is;
  what their manual pages document are the locales below: \<open>mkdir\<close> only adds an empty
  directory under a free name, \<open>rmdir\<close> only takes away a directory that holds nothing.
  \<open>live_dir_removal\<close> adds that an empty directory can be removed. \<open>linux_mkdir\<close> and
  \<open>linux_rmdir\<close> are concrete calls that meet the contracts.
\<close>

type_synonym dir_call = "fs \<Rightarrow> path \<Rightarrow> sys_error + fs"

definition holds_nothing :: "fs \<Rightarrow> path \<Rightarrow> bool" where
  "holds_nothing f q \<longleftrightarrow> fBall (fmdom f) (\<lambda>p. p = [] \<or> butlast p \<noteq> q)"

locale dir_creation =
  fixes mk :: dir_call
  assumes made: "mk f d = Inr f' \<Longrightarrow>
    \<exists>q n. locate f d = Some q \<and> fmlookup f q = None \<and> n_kind n = DirNode \<and> f' = fmupd q n f"
begin

lemma target_free: "mk f d = Inr f' \<Longrightarrow> symlink_metadata f d = None"
  using made [of f d f'] by (auto simp: symlink_metadata_def)

lemma keeps_entries: "mk f d = Inr f' \<Longrightarrow> fmlookup f p = Some n \<Longrightarrow> fmlookup f' p = Some n"
  using made [of f d f'] by auto

end

locale dir_removal =
  fixes rm :: dir_call
  assumes removed: "rm f d = Inr f' \<Longrightarrow>
    \<exists>q n. locate f d = Some q \<and> fmlookup f q = Some n \<and> n_kind n = DirNode \<and>
      holds_nothing f q \<and> f' = fmdrop q f"
begin

lemma keeps_files:
  "rm f d = Inr f' \<Longrightarrow> fmlookup f p = Some n \<Longrightarrow> n_kind n \<noteq> DirNode \<Longrightarrow> fmlookup f' p = Some n"
  using removed [of f d f'] by auto

lemma only_empty:
  assumes "rm f d = Inr f'"
  shows "\<exists>q n. locate f d = Some q \<and> fmlookup f q = Some n \<and> n_kind n = DirNode \<and> holds_nothing f q"
  using removed [OF assms] by blast

end

locale live_dir_removal = dir_removal +
  assumes progress:
    "locate f d = Some q \<Longrightarrow> fmlookup f q = Some n \<Longrightarrow> n_kind n = DirNode \<Longrightarrow> holds_nothing f q \<Longrightarrow>
     \<exists>f'. rm f d = Inr f'"
begin

lemma removes:
  assumes "locate f d = Some q" "fmlookup f q = Some n" "n_kind n = DirNode" "holds_nothing f q"
  shows "rm f d = Inr (fmdrop q f)"
proof -
  obtain f' where "rm f d = Inr f'" using progress [OF assms] by blast
  with removed [OF this] assms(1) show ?thesis by auto
qed

end

section \<open>Concrete calls\<close>

text \<open>The inode number of a new directory is an argument; its device is that of its parent.\<close>

definition new_dir :: "nat \<Rightarrow> fs \<Rightarrow> path \<Rightarrow> fs_node" where
  "new_dir ino f q =
     \<lparr> n_kind = DirNode, n_size = 0, n_mtime = 0, n_ino = ino,
       n_dev = (case fmlookup f (butlast q) of None \<Rightarrow> 0 | Some n \<Rightarrow> n_dev n) \<rparr>"

lemma new_dir_kind [simp]: "n_kind (new_dir ino f q) = DirNode"
  by (simp add: new_dir_def)

definition linux_mkdir :: "nat \<Rightarrow> dir_call" where
  "linux_mkdir ino f d =
     (case locate f d of
        None \<Rightarrow> Inl ENOENT
      | Some q \<Rightarrow>
          if fmlookup f q \<noteq> None then Inl EEXIST
          else Inr (fmupd q (new_dir ino f q) f))"

definition linux_rmdir :: dir_call where
  "linux_rmdir f d =
     (case locate f d of
        None \<Rightarrow> Inl ENOENT
      | Some q \<Rightarrow>
          (case fmlookup f q of
             None \<Rightarrow> Inl ENOENT
           | Some n \<Rightarrow>
               if n_kind n \<noteq> DirNode then Inl (EOther ''Not a directory (os error 20)'')
               else if \<not> holds_nothing f q then Inl (EOther ''Directory not empty (os error 39)'')
               else Inr (fmdrop q f)))"

interpretation lnx_mkdir: dir_creation "linux_mkdir ino"
  by unfold_locales (auto simp: linux_mkdir_def split: option.splits if_splits intro: new_dir_kind)

interpretation lnx_rmdir: live_dir_removal linux_rmdir
  by unfold_locales (auto simp: linux_rmdir_def split: option.splits if_splits)

section \<open>Adding directories keeps what resolves\<close>

text \<open>\<open>f'\<close> has every entry of \<open>f\<close>.\<close>

definition extends_fs :: "fs \<Rightarrow> fs \<Rightarrow> bool" where
  "extends_fs f f' \<longleftrightarrow> (\<forall>p n. fmlookup f p = Some n \<longrightarrow> fmlookup f' p = Some n)"

lemma extends_refl [simp]: "extends_fs f f"
  by (simp add: extends_fs_def)

lemma extends_trans: "extends_fs f g \<Longrightarrow> extends_fs g h \<Longrightarrow> extends_fs f h"
  by (simp add: extends_fs_def)

lemma extends_upd: "fmlookup f q = None \<Longrightarrow> extends_fs f (fmupd q n f)"
  by (auto simp: extends_fs_def)

lemma fs_walk_extends:
  "fs_walk k f cur cs = Some r \<Longrightarrow> extends_fs f f' \<Longrightarrow> fs_walk k f' cur cs = Some r"
proof (induction k f cur cs rule: fs_walk.induct)
  case (1 k f cur)
  then show ?case by simp
next
  case (2 k f cur c cs)
  then obtain n where n: "fmlookup f (cur @ [c]) = Some n" by (cases "fmlookup f (cur @ [c])") auto
  then have n': "fmlookup f' (cur @ [c]) = Some n" using "2.prems"(2) by (simp add: extends_fs_def)
  show ?case
  proof (cases "n_kind n")
    case DirNode
    then show ?thesis using "2.IH"(1) [OF n DirNode] "2.prems" n n' by simp
  next
    case (LinkNode t)
    then show ?thesis using "2.IH"(2) [OF n LinkNode] "2.prems" n n' by (cases "k = 0") simp_all
  qed (use "2.prems" n n' in \<open>simp_all split: if_splits\<close>)
qed

lemma is_dir_extends: "is_dir f p \<Longrightarrow> extends_fs f f' \<Longrightarrow> is_dir f' p"
  by (auto simp: is_dir_def extends_fs_def split: option.splits)

lemma resolve_dir_extends:
  assumes "resolve_dir f p = Some d" and "extends_fs f f'"
  shows "resolve_dir f' p = Some d"
proof -
  have "fs_walk max_symlinks f [] p = Some d" "is_dir f d"
    using assms(1) by (auto simp: resolve_dir_def canonicalize_def split: option.splits if_splits)
  from fs_walk_extends [OF this(1) assms(2)] is_dir_extends [OF this(2) assms(2)]
  show ?thesis by (simp add: resolve_dir_def canonicalize_def)
qed

lemma locate_extends: "locate f p = Some q \<Longrightarrow> extends_fs f f' \<Longrightarrow> locate f' p = Some q"
  by (auto simp: locate_def dest: resolve_dir_extends split: if_splits)

text \<open>A walk into a directory continues with a name inside it.\<close>

lemma fs_walk_into:
  assumes "fs_walk k f cur cs = Some d" and "is_dir f d"
    and "fmlookup f (d @ [c]) = Some n" and "n_kind n = DirNode"
  shows "fs_walk k f cur (cs @ [c]) = Some (d @ [c])"
  using assms
proof (induction k f cur cs rule: fs_walk.induct)
  case (1 k f cur)
  then show ?case by simp
next
  case (2 k f cur c' cs)
  then obtain m where m: "fmlookup f (cur @ [c']) = Some m" by (cases "fmlookup f (cur @ [c'])") auto
  show ?case
  proof (cases "n_kind m")
    case FileNode
    then have "d = cur @ [c']" using "2.prems"(1) m by (auto split: if_splits)
    then show ?thesis using "2.prems"(2) m FileNode by (simp add: is_dir_def)
  next
    case SpecialNode
    then have "d = cur @ [c']" using "2.prems"(1) m by (auto split: if_splits)
    then show ?thesis using "2.prems"(2) m SpecialNode by (simp add: is_dir_def)
  next
    case DirNode
    then show ?thesis using "2.IH"(1) [OF m] "2.prems" m by simp
  next
    case (LinkNode t)
    then show ?thesis using "2.IH"(2) [OF m] "2.prems" m by (auto split: if_splits)
  qed
qed

lemma resolve_dir_into:
  assumes "resolve_dir f p = Some d" and "fmlookup f (d @ [c]) = Some n" and "n_kind n = DirNode"
  shows "resolve_dir f (p @ [c]) = Some (d @ [c])"
proof -
  have w: "fs_walk max_symlinks f [] p = Some d" "is_dir f d"
    using assms(1) by (auto simp: resolve_dir_def canonicalize_def split: option.splits if_splits)
  have "canonicalize f (p @ [c]) = Some (d @ [c])"
    unfolding canonicalize_def by (rule fs_walk_into [OF w assms(2,3)])
  then show ?thesis using assms(2,3) by (simp add: resolve_dir_def is_dir_def)
qed

lemma read_dir_empty:
  "resolve_dir f p = Some d \<Longrightarrow> holds_nothing f d \<Longrightarrow> read_dir f p = Some {||}"
  by (auto simp: read_dir_def holds_nothing_def)

end
