(* ===== verification/OrgTransaction.thy ===== *)
theory OrgTransaction
  imports OrgModel TxnRecovery DirCalls
begin

text \<open>
  Applying and rolling back an organisation: \<open>dat/rom_organisation/transaction.rs\<close>. The pass
  runs in the world of \<open>TxnJournal\<close>; making and removing a directory add events to its ghost
  history. The environment of a rename pass is extended by the two calls of \<open>DirCalls\<close> and by
  whether a look at a directory fails for another reason than its absence.
\<close>

record organisation_env =
  og_env :: env
  og_mkdir :: dir_call
  og_rmdir :: dir_call
  og_look_fails :: "nat \<Rightarrow> path \<Rightarrow> bool"

section \<open>Directory steps\<close>

definition make_directory :: "organisation_env \<Rightarrow> path \<Rightarrow> world \<Rightarrow> (sys_error + unit) \<times> world" where
  "make_directory og d w =
     (let w1 = interleave (og_env og) w in
      case og_mkdir og (w_fs w1) d of
        Inl err \<Rightarrow> (Inl err, w1)
      | Inr f' \<Rightarrow> (Inr (), w1\<lparr>w_fs := f', w_hist := w_hist w1 @ [DirCreated d (w_fs w1) f']\<rparr>))"

definition remove_directory :: "organisation_env \<Rightarrow> path \<Rightarrow> world \<Rightarrow> bool \<times> world" where
  "remove_directory og d w =
     (let w1 = interleave (og_env og) w in
      case og_rmdir og (w_fs w1) d of
        Inl err \<Rightarrow> (False, w1)
      | Inr f' \<Rightarrow> (True, w1\<lparr>w_fs := f', w_hist := w_hist w1 @ [DirRemoved d (w_fs w1) f']\<rparr>))"

section \<open>Platform directories\<close>

definition is_platform_directory_candidate :: "path \<Rightarrow> path \<Rightarrow> bool" where
  "is_platform_directory_candidate parent master_root \<longleftrightarrow>
     (case path_file_name parent of
        None \<Rightarrow> False
      | Some name \<Rightarrow> is_safe_basename name \<and> path_parent parent = Some master_root)"

fun collect_directories :: "path \<Rightarrow> transaction_entry list \<Rightarrow> path list \<Rightarrow> path list" where
  "collect_directories master_root [] planned = planned"
| "collect_directories master_root (e # es) planned =
     collect_directories master_root es
       (case path_parent (te_destination_path e) of
          None \<Rightarrow> planned
        | Some parent \<Rightarrow>
            if is_platform_directory_candidate parent master_root \<and> parent \<notin> set planned
            then planned @ [parent] else planned)"

definition planned_platform_directories :: "rename_transaction \<Rightarrow> path \<Rightarrow> path list" where
  "planned_platform_directories t master_root = collect_directories master_root (tx_entries t) []"

definition is_owned_platform_directory :: "path \<Rightarrow> path \<Rightarrow> bool" where
  "is_owned_platform_directory d master_root \<longleftrightarrow>
     (case path_file_name d of
        None \<Rightarrow> False
      | Some name \<Rightarrow> is_safe_basename name \<and> path_parent d = Some master_root)"

section \<open>Creating the directories\<close>

type_synonym directory_result = "(apply_error + unit) \<times> rename_transaction \<times> world"

text \<open>Writes the journal and goes on with the given result.\<close>

definition journal_then ::
    "env \<Rightarrow> apply_error + unit \<Rightarrow> rename_transaction \<Rightarrow> world \<Rightarrow> directory_result" where
  "journal_then env r t w =
     (case write_journal env t w of
        (Inl err, w1) \<Rightarrow> (Inl (JournalError err), t, w1)
      | (Inr _, w1) \<Rightarrow> (r, t, w1))"

definition refuse_directory ::
    "env \<Rightarrow> string \<Rightarrow> rename_transaction \<Rightarrow> world \<Rightarrow> directory_result" where
  "refuse_directory env reason t w =
     journal_then env (Inl (JournalError reason)) (t\<lparr>tx_state := TsApplyFailed\<rparr>) w"

text \<open>The body of the loop: a directory is recorded, durably, only once it has been made.\<close>

definition ensure_directory ::
    "organisation_env \<Rightarrow> path \<Rightarrow> rename_transaction \<Rightarrow> world \<Rightarrow> directory_result" where
  "ensure_directory og d t w =
     (let env = og_env og; w1 = interleave env w in
      if og_look_fails og (w_tick w) d
      then refuse_directory env (''could not inspect platform directory '' @ path_text d) t w1
      else if symlink_metadata (w_fs w1) d \<noteq> None then (Inr (), t, w1)
      else (case make_directory og d w1 of
              (Inr _, w2) \<Rightarrow>
                journal_then env (Inr ())
                  (t\<lparr>tx_created_directories := tx_created_directories t @ [d]\<rparr>) w2
            | (Inl EEXIST, w2) \<Rightarrow> (Inr (), t, w2)
            | (Inl err, w2) \<Rightarrow>
                refuse_directory env
                  (''could not create platform directory '' @ path_text d @ '': '' @ sys_error_text err)
                  t w2))"

fun create_directories ::
    "organisation_env \<Rightarrow> path list \<Rightarrow> rename_transaction \<Rightarrow> world \<Rightarrow> directory_result" where
  "create_directories og [] t w = (Inr (), t, w)"
| "create_directories og (d # ds) t w =
     (case read_cancel (og_env og) w of
        (True, w1) \<Rightarrow> (Inr (), t, w1)
      | (False, w1) \<Rightarrow>
          (case ensure_directory og d t w1 of
             (Inl err, t1, w2) \<Rightarrow> (Inl err, t1, w2)
           | (Inr _, t1, w2) \<Rightarrow> create_directories og ds t1 w2))"

section \<open>The preflight before the shared executor\<close>

text \<open>Unlike the executor's, this pass marks the entries that fail and leaves the others alone.\<close>

definition conflict_entry ::
    "fs \<Rightarrow> preflight_options \<Rightarrow> transaction_entry \<Rightarrow> transaction_entry \<times> (path \<times> string list) list" where
  "conflict_entry f opts e =
     (case run_preflight f e opts of
        Inl failures \<Rightarrow>
          (let reasons = map preflight_reason failures in
           (e\<lparr>te_preflight_failures := reasons, te_preflight_passed := False\<rparr>,
            [(te_source_path e, reasons)]))
      | Inr _ \<Rightarrow> (e, []))"

fun conflict_batch ::
    "env \<Rightarrow> preflight_options \<Rightarrow> transaction_entry list \<Rightarrow> world \<Rightarrow>
     transaction_entry list \<times> (path \<times> string list) list \<times> world" where
  "conflict_batch env opts [] w = ([], [], w)"
| "conflict_batch env opts (e # es) w =
     (let w1 = interleave env w;
          (e', conflict) = conflict_entry (w_fs w1) opts e;
          (es', conflicts, w2) = conflict_batch env opts es w1
      in (e' # es', conflict @ conflicts, w2))"

text \<open>Taking the created directories away again; a refusal is ignored.\<close>

fun discard_directories :: "organisation_env \<Rightarrow> path list \<Rightarrow> world \<Rightarrow> world" where
  "discard_directories og [] w = w"
| "discard_directories og (d # ds) w = discard_directories og ds (snd (remove_directory og d w))"

section \<open>The apply pass\<close>

definition organisation_execution ::
    "path set \<Rightarrow> nat \<Rightarrow> trusted_roots \<Rightarrow> organisation_mode \<Rightarrow> apply_execution" where
  "organisation_execution approved generation trusted mode =
     \<lparr> ex_approved_paths = approved, ex_current_generation = generation, ex_trusted = trusted,
       ex_hard_conflict_mode = AbortAll, ex_directory_policy = SameFilesystem,
       ex_allow_symlink_source = (mode = OrganiseSymlinkOnly) \<rparr>"

definition abandon_organisation ::
    "organisation_env \<Rightarrow> (path \<times> string list) list \<Rightarrow> rename_transaction \<Rightarrow> world \<Rightarrow> apply_result" where
  "abandon_organisation og conflicts t w =
     (let w1 = discard_directories og (rev (tx_created_directories t)) w;
          t1 = t\<lparr>tx_created_directories := [], tx_state := TsApplyFailed\<rparr>
      in case write_journal (og_env og) t1 w1 of
           (Inl err, w2) \<Rightarrow> (Inl (JournalError err), t1, w2)
         | (Inr _, w2) \<Rightarrow> (Inl (HardConflicts conflicts), t1, w2))"

definition apply_organisation_transaction ::
    "organisation_env \<Rightarrow> rename_transaction \<Rightarrow> path set \<Rightarrow> nat \<Rightarrow> trusted_roots \<Rightarrow>
     organisation_mode \<Rightarrow> path \<Rightarrow> world \<Rightarrow> apply_result" where
  "apply_organisation_transaction og t approved generation trusted mode master_root w =
     (let env = og_env og; ex = organisation_execution approved generation trusted mode in
      case validate_classifier_version (tx_classifier_version t) of
        Inl err \<Rightarrow> (Inl err, t, w)
      | Inr _ \<Rightarrow>
          (case read_cancel env w of
             (True, w1) \<Rightarrow> (Inl ApplyCancelled, t, w1)
           | (False, w1) \<Rightarrow>
               (let t1 = t\<lparr>tx_state := TsApplying\<rparr> in
                case write_journal env t1 w1 of
                  (Inl err, w2) \<Rightarrow> (Inl (JournalError err), t1, w2)
                | (Inr _, w2) \<Rightarrow>
                    (case create_directories og (planned_platform_directories t1 master_root) t1 w2 of
                       (Inl err, t2, w3) \<Rightarrow> (Inl err, t2, w3)
                     | (Inr _, t2, w3) \<Rightarrow>
                         (case conflict_batch env (options_of ex t2) (tx_entries t2) w3 of
                            (es, conflicts, w4) \<Rightarrow>
                              (let t3 = t2\<lparr>tx_entries := es\<rparr> in
                               if conflicts \<noteq> [] then abandon_organisation og conflicts t3 w4
                               else apply_transaction env ex t3 w4))))))"

section \<open>Rollback\<close>

record organisation_rollback_outcome =
  or_rollback :: rollback_outcome
  or_directories_removed :: "path list"
  or_directories_remaining :: "path list"

text \<open>
  One recorded directory: it is removed when it is there, is a directory and is read as
  empty; what is not there is not reported.
\<close>

datatype directory_fate = DirectoryRemoved | DirectoryRemains | DirectoryGone

definition clean_directory ::
    "organisation_env \<Rightarrow> path \<Rightarrow> path \<Rightarrow> world \<Rightarrow> directory_fate \<times> world" where
  "clean_directory og master_root d w =
     (if \<not> is_owned_platform_directory d master_root then (DirectoryRemains, w)
      else
        (let w1 = interleave (og_env og) w in
         if og_look_fails og (w_tick w) d then (DirectoryGone, w1)
         else (case symlink_metadata (w_fs w1) d of
                 None \<Rightarrow> (DirectoryGone, w1)
               | Some n \<Rightarrow>
                   if n_kind n \<noteq> DirNode then (DirectoryGone, w1)
                   else (let w2 = interleave (og_env og) w1 in
                         if og_look_fails og (w_tick w1) d \<or> read_dir (w_fs w2) d \<noteq> Some {||}
                         then (DirectoryRemains, w2)
                         else (case remove_directory og d w2 of
                                 (True, w3) \<Rightarrow> (DirectoryRemoved, w3)
                               | (False, w3) \<Rightarrow> (DirectoryRemains, w3))))))"

fun clean_directories ::
    "organisation_env \<Rightarrow> path \<Rightarrow> path list \<Rightarrow> world \<Rightarrow> path list \<times> path list \<times> world" where
  "clean_directories og master_root [] w = ([], [], w)"
| "clean_directories og master_root (d # ds) w =
     (let (fate, w1) = clean_directory og master_root d w;
          (removed, remaining, w2) = clean_directories og master_root ds w1
      in ((if fate = DirectoryRemoved then [d] else []) @ removed,
          (if fate = DirectoryRemains then [d] else []) @ remaining, w2))"

definition rollback_organisation_transaction ::
    "organisation_env \<Rightarrow> rename_transaction \<Rightarrow> path \<Rightarrow> world \<Rightarrow>
     (string + organisation_rollback_outcome) \<times> rename_transaction \<times> world" where
  "rollback_organisation_transaction og t master_root w =
     (case rollback_transaction (og_env og) t w of
        (Inl err, t1, w1) \<Rightarrow> (Inl err, t1, w1)
      | (Inr rollback, t1, w1) \<Rightarrow>
          (case clean_directories og master_root (rev (tx_created_directories t1)) w1 of
             (removed, remaining, w2) \<Rightarrow>
               (Inr \<lparr> or_rollback = rollback, or_directories_removed = removed,
                      or_directories_remaining = remaining \<rparr>, t1, w2)))"

end
