(* ===== verification/TxnPast.thy ===== *)
theory TxnPast
  imports TxnFrame TxnCrash
begin

text \<open>
  The ghost history is never read: an apply pass that starts after other effects does what it
  does alone, and adds the same effects behind them.
\<close>

definition past :: "event list \<Rightarrow> world \<Rightarrow> world" where
  "past h w = w\<lparr>w_hist := h @ w_hist w\<rparr>"

lemma past_simps [simp]:
  "w_fs (past h w) = w_fs w" "w_disk (past h w) = w_disk w" "w_tick (past h w) = w_tick w"
  "w_hist (past h w) = h @ w_hist w"
  by (simp_all add: past_def)

lemma past_updates [simp]:
  "past h (w\<lparr>w_fs := f\<rparr>) = (past h w)\<lparr>w_fs := f\<rparr>"
  "past h (w\<lparr>w_disk := d\<rparr>) = (past h w)\<lparr>w_disk := d\<rparr>"
  "past h (w\<lparr>w_tick := n\<rparr>) = (past h w)\<lparr>w_tick := n\<rparr>"
  "past h (w\<lparr>w_hist := k\<rparr>) = (past h w)\<lparr>w_hist := h @ k\<rparr>"
  by (simp_all add: past_def)

lemma past_split: "w = past (w_hist w) (w\<lparr>w_hist := []\<rparr>)"
  by (simp add: past_def)

lemma interleave_past [simp]: "interleave env (past h w) = past h (interleave env w)"
  by (simp add: interleave_def past_def)

lemma now_past [simp]: "now_unix env (past h w) = now_unix env w"
  by (simp add: now_unix_def)

lemma read_cancel_past:
  "read_cancel env w = (c, w') \<Longrightarrow> read_cancel env (past h w) = (c, past h w')"
  by (auto simp: read_cancel_def)

lemma write_journal_past:
  "write_journal env t w = (r, w') \<Longrightarrow> write_journal env t (past h w) = (r, past h w')"
  unfolding write_journal_def Let_def interleave_past past_simps by (auto split: option.splits)

lemma rename_past:
  "rename_noreplace env s d w = (r, w') \<Longrightarrow> rename_noreplace env s d (past h w) = (r, past h w')"
  unfolding rename_noreplace_def Let_def interleave_past past_simps
  by (auto split: if_splits sum.splits sys_error.splits)

lemma apply_mutation_past:
  assumes "apply_mutation env e w = (r, w')"
  shows "apply_mutation env e (past h w) = (r, past h w')"
proof -
  obtain r1 w1 where ren: "rename_noreplace env (te_source_path e) (te_destination_path e) w = (r1, w1)"
    by force
  show ?thesis
    using assms ren rename_past [OF ren, of h]
    by (auto simp: apply_mutation_def Let_def split: sum.splits no_clobber_error.splits)
qed

lemma preflight_batch_past:
  "preflight_batch env opts es w = (es', cs, w') \<Longrightarrow>
   preflight_batch env opts es (past h w) = (es', cs, past h w')"
proof (induction es arbitrary: w es' cs w')
  case Nil
  then show ?case by simp
next
  case (Cons e es)
  obtain es1 cs1 w1 where rec: "preflight_batch env opts es (interleave env w) = (es1, cs1, w1)"
    by (metis prod_cases3)
  from Cons.IH [OF rec] Cons.prems rec show ?case by (auto simp: Let_def split: prod.splits)
qed

lemma checkpoint_past:
  assumes "checkpoint env nx t w = (r, t', w')"
  shows "checkpoint env nx t (past h w) = (r, t', past h w')"
proof -
  obtain r1 w1 where wj: "write_journal env t w = (r1, w1)" by force
  show ?thesis
    using assms wj write_journal_past [OF wj, of h] by (auto simp: checkpoint_def split: sum.splits)
qed

lemma apply_step_past:
  assumes "apply_step env opts i t w = (r, t', w')"
  shows "apply_step env opts i t (past h w) = (r, t', past h w')"
proof (cases "run_preflight (w_fs (interleave env w)) (tx_entries t ! i) opts")
  case (Inl failures)
  then show ?thesis using assms by (auto simp: apply_step_def Let_def dest: checkpoint_past)
next
  case (Inr u)
  let ?e = "(tx_entries t ! i)\<lparr>te_preflight_passed := True, te_state := EsApplying\<rparr>"
  obtain r1 w1 where wj: "write_journal env (set_entry t i ?e) (interleave env w) = (r1, w1)" by force
  obtain r2 w2 where am: "apply_mutation env ?e w1 = (r2, w2)" by force
  show ?thesis
    using assms Inr wj am write_journal_past [OF wj, of h] apply_mutation_past [OF am, of h]
    by (auto simp: apply_step_def Let_def dest: checkpoint_past split: sum.splits)
qed

lemma apply_loop_past:
  "apply_loop env opts is t w = (x, t', w') \<Longrightarrow>
   apply_loop env opts is t (past h w) = (x, t', past h w')"
proof (induction env opts "is" t w rule: apply_loop.induct)
  case (1 env opts t w)
  then show ?case by simp
next
  case (2 env opts i "is" t w)
  obtain c w1 where rc: "read_cancel env w = (c, w1)" by force
  obtain r2 w2 where wj: "write_journal env (t\<lparr>tx_state := TsApplyFailed\<rparr>) w1 = (r2, w2)" by force
  obtain r t1 w3 where st: "apply_step env opts i t w1 = (r, t1, w3)" by (metis prod_cases3)
  note later = read_cancel_past [OF rc, of h] write_journal_past [OF wj, of h]
    apply_step_past [OF st, of h]
  show ?case
  proof (cases c)
    case True
    then show ?thesis using "2.prems" rc wj later by (auto split: sum.splits)
  next
    case False
    show ?thesis
    proof (cases "te_state (tx_entries t ! i) = EsSkipped")
      case True
      then show ?thesis using "2.IH"(1) "2.prems" rc False later by simp
    next
      case ns: False
      show ?thesis using "2.IH"(2) "2.prems" rc False ns st later by (cases r) auto
    qed
  qed
qed

lemma finish_apply_past:
  assumes "finish_apply env t w = (r, t', w')"
  shows "finish_apply env t (past h w) = (r, t', past h w')"
proof -
  obtain r1 w1 where wj: "write_journal env t w = (r1, w1)" by force
  show ?thesis
    using assms wj write_journal_past [OF wj, of h] by (auto simp: finish_apply_def split: sum.splits)
qed

lemma run_batch_past:
  assumes "run_batch env opts t w = (r, t', w')"
  shows "run_batch env opts t (past h w) = (r, t', past h w')"
proof -
  obtain r1 w1 where j1: "write_journal env t w = (r1, w1)" by force
  let ?t1 = "t\<lparr>tx_state := TsApplying\<rparr>"
  obtain r2 w2 where j2: "write_journal env ?t1 w1 = (r2, w2)" by force
  obtain x t2 w3 where lp:
      "apply_loop env opts [0..<length (tx_entries ?t1)] ?t1 w2 = (x, t2, w3)"
    by (metis prod_cases3)
  show ?thesis
    using assms j1 j2 lp write_journal_past [OF j1, of h] write_journal_past [OF j2, of h]
      apply_loop_past [OF lp, of h]
    by (auto simp: run_batch_def Let_def dest: finish_apply_past
        split: sum.splits if_splits loop_exit.splits)
qed

lemma apply_transaction_past:
  assumes "apply_transaction env ex t w = (r, t', w')"
  shows "apply_transaction env ex t (past h w) = (r, t', past h w')"
proof -
  obtain c w1 where rc: "read_cancel env w = (c, w1)" by force
  obtain es cs w2 where pb: "preflight_batch env (options_of ex t) (tx_entries t) w1 = (es, cs, w2)"
    by (metis prod_cases3)
  show ?thesis
    using assms rc pb read_cancel_past [OF rc, of h] preflight_batch_past [OF pb, of h]
    by (auto simp: apply_transaction_def Let_def dest: run_batch_past
        split: sum.splits if_splits hard_conflict_mode.splits bool.splits)
qed

text \<open>The same read backwards: the pass after a past is the past of the pass alone.\<close>

lemma apply_transaction_alone:
  assumes "apply_transaction env ex t w = (r, t', w')"
  obtains w1 where "apply_transaction env ex t (w\<lparr>w_hist := []\<rparr>) = (r, t', w1)"
    "w' = past (w_hist w) w1"
proof -
  obtain r1 t1 w1 where run: "apply_transaction env ex t (w\<lparr>w_hist := []\<rparr>) = (r1, t1, w1)"
    by (metis prod_cases3)
  from apply_transaction_past [OF this, of "w_hist w"]
  have "apply_transaction env ex t w = (r1, t1, past (w_hist w) w1)"
    by (subst past_split) simp
  with assms run that show thesis by simp
qed

section \<open>Where a pass begins\<close>

text \<open>The first effect of a pass is a journal write.\<close>

lemma hist_ok_starts:
  "hist_ok env h \<Longrightarrow> h \<noteq> [] \<Longrightarrow> \<exists>t f k. h = JournalWritten t f # k"
proof (induction rule: hist_ok.induct)
  case start
  then show ?case by simp
next
  case (journal h t f)
  then show ?case by (cases h) auto
next
  case (renamed h s d f f')
  then have "h \<noteq> []" by (auto simp: announced_def)
  with renamed show ?case by auto
qed

lemma hist_ok_no_directories:
  "hist_ok env h \<Longrightarrow> DirCreated d f f' \<notin> set h \<and> DirRemoved d f f' \<notin> set h"
  by (induction rule: hist_ok.induct) auto

lemma crash_points_started:
  assumes "hist_ok env h"
  shows "crash_points lt h = crash_points None h"
proof (cases "h = []")
  case False
  from hist_ok_starts [OF assms this] show ?thesis by auto
qed simp

end
