(* ===== verification/OrgSafety.thy ===== *)
theory OrgSafety
  imports OrgTransaction TxnPast
begin

text \<open>
  Safety of an organisation in any environment: a directory is recorded as the program's own
  only after the program has made it under a name that was free, only such directories are
  ever taken away, only while they hold nothing, and the renames keep the guarantees of a
  rename pass.
\<close>

section \<open>Lawful histories\<close>

definition made :: "event list \<Rightarrow> path \<Rightarrow> bool" where
  "made h d \<longleftrightarrow> (\<exists>f f'. DirCreated d f f' \<in> set h)"

definition empty_directory :: "fs \<Rightarrow> path \<Rightarrow> bool" where
  "empty_directory f d \<longleftrightarrow>
     (\<exists>q n. locate f d = Some q \<and> fmlookup f q = Some n \<and> n_kind n = DirNode \<and> holds_nothing f q)"

text \<open>What each effect promises, given the effects before it.\<close>

fun lawful :: "path \<Rightarrow> event list \<Rightarrow> event \<Rightarrow> bool" where
  "lawful master_root h (JournalWritten t f) \<longleftrightarrow> (\<forall>d \<in> set (tx_created_directories t). made h d)"
| "lawful master_root h (Renamed s d f f') \<longleftrightarrow> absent f d \<and> \<not> absent f s \<and> announced h s d"
| "lawful master_root h (DirCreated d f f') \<longleftrightarrow>
     h \<noteq> [] \<and> absent f d \<and> is_platform_directory_candidate d master_root"
| "lawful master_root h (DirRemoved d f f') \<longleftrightarrow> made h d \<and> empty_directory f d"

definition lawful_history :: "path \<Rightarrow> event list \<Rightarrow> bool" where
  "lawful_history master_root h \<longleftrightarrow> (\<forall>a ev b. h = a @ ev # b \<longrightarrow> lawful master_root a ev)"

lemma lawful_Nil [simp]: "lawful_history r []"
  by (simp add: lawful_history_def)

lemma lawful_snoc:
  "lawful_history r (h @ [ev]) \<longleftrightarrow> lawful_history r h \<and> lawful r h ev" (is "?l \<longleftrightarrow> ?r")
proof
  assume ?l
  then show ?r by (auto simp: lawful_history_def)
next
  assume r: ?r
  have "lawful r a x" if "h @ [ev] = a @ x # b" for a x b
    using that r by (cases b rule: rev_cases) (auto simp: lawful_history_def)
  then show ?l by (simp add: lawful_history_def)
qed

lemma made_append: "made h d \<Longrightarrow> made (h @ k) d"
  by (auto simp: made_def)

lemma made_snoc:
  "made (h @ [ev]) d \<longleftrightarrow> made h d \<or> (\<exists>f f'. ev = DirCreated d f f')"
  by (auto simp: made_def)

lemma announced_append: "announced k s d \<Longrightarrow> announced (h @ k) s d"
  by (metis announced_def append.assoc)

section \<open>The directory steps\<close>

text \<open>The invariant of a pass: a lawful history, and every recorded directory was made.\<close>

definition owns :: "path \<Rightarrow> rename_transaction \<Rightarrow> world \<Rightarrow> bool" where
  "owns r t w \<longleftrightarrow>
     lawful_history r (w_hist w) \<and> (\<forall>d \<in> set (tx_created_directories t). made (w_hist w) d)"

lemma owns_interleave [simp]: "owns r t (interleave env w) = owns r t w"
  by (simp add: owns_def)

lemma owns_same:
  "owns r t w \<Longrightarrow> tx_created_directories t' = tx_created_directories t \<Longrightarrow>
   w_hist w' = w_hist w \<Longrightarrow> owns r t' w'"
  by (simp add: owns_def)

lemma write_journal_owns:
  assumes "write_journal env t w = (x, w')" and "owns r t w"
  shows "owns r t w'"
  using assms(1) by (rule write_journal_cases)
    (use assms(2) in \<open>auto simp: owns_def lawful_snoc made_snoc\<close>)

lemma write_journal_nonempty:
  "write_journal env t w = (Inr u, w') \<Longrightarrow> w_hist w' \<noteq> []"
  by (erule write_journal_cases) auto

lemma make_directory_cases:
  assumes "make_directory og d w = (x, w')"
  obtains (made) f' where "x = Inr ()" "og_mkdir og (w_fs (interleave (og_env og) w)) d = Inr f'"
      "w_fs w' = f'" "w_disk w' = w_disk w"
      "w_hist w' = w_hist w @ [DirCreated d (w_fs (interleave (og_env og) w)) f']"
  | (refused) err where "x = Inl err" "og_mkdir og (w_fs (interleave (og_env og) w)) d = Inl err"
      "w' = interleave (og_env og) w"
  using assms by (auto simp: make_directory_def Let_def split: sum.splits)

lemma remove_directory_cases:
  assumes "remove_directory og d w = (x, w')"
  obtains (removed) f' where "x" "og_rmdir og (w_fs (interleave (og_env og) w)) d = Inr f'"
      "w_fs w' = f'" "w_disk w' = w_disk w"
      "w_hist w' = w_hist w @ [DirRemoved d (w_fs (interleave (og_env og) w)) f']"
  | (refused) err where "\<not> x" "og_rmdir og (w_fs (interleave (og_env og) w)) d = Inl err"
      "w' = interleave (og_env og) w"
  using assms by (auto simp: remove_directory_def Let_def split: sum.splits)

lemma make_directory_owns:
  assumes "make_directory og d w = (x, w')" and "dir_creation (og_mkdir og)"
    and "owns r t w" and "w_hist w \<noteq> []" and "is_platform_directory_candidate d r"
  shows "owns r t w' \<and> w_hist w' \<noteq> [] \<and> (x = Inr () \<longrightarrow> made (w_hist w') d)"
  using assms(1)
proof (rule make_directory_cases)
  fix f' let ?f = "w_fs (interleave (og_env og) w)"
  assume *: "og_mkdir og ?f d = Inr f'" "w_hist w' = w_hist w @ [DirCreated d ?f f']"
  have "absent ?f d" using dir_creation.target_free [OF assms(2) *(1)] by (simp add: absent_def)
  with * assms(3-5) show ?thesis by (auto simp: owns_def lawful_snoc made_snoc)
qed (use assms in simp_all)

lemma remove_directory_owns:
  assumes "remove_directory og d w = (x, w')" and "dir_removal (og_rmdir og)"
    and "owns r t w" and "made (w_hist w) d"
  shows "owns r t w' \<and> (\<forall>d'. made (w_hist w) d' \<longrightarrow> made (w_hist w') d')"
  using assms(1)
proof (rule remove_directory_cases)
  fix f' let ?f = "w_fs (interleave (og_env og) w)"
  assume *: "og_rmdir og ?f d = Inr f'" "w_hist w' = w_hist w @ [DirRemoved d ?f f']"
  have "empty_directory ?f d"
    using dir_removal.only_empty [OF assms(2) *(1)] by (simp add: empty_directory_def)
  with * assms(3,4) show ?thesis by (auto simp: owns_def lawful_snoc made_snoc)
qed (use assms in simp_all)

lemma journal_then_owns:
  assumes "journal_then env x t w = (y, t', w')" and "owns r t w" and "w_hist w \<noteq> []"
  shows "owns r t' w' \<and> w_hist w' \<noteq> []"
proof -
  obtain z w1 where wj: "write_journal env t w = (z, w1)" by force
  have "w_hist w1 \<noteq> []" by (rule write_journal_cases [OF wj]) (use assms(3) in auto)
  with assms(1) wj write_journal_owns [OF wj assms(2)] show ?thesis
    by (auto simp: journal_then_def split: sum.splits)
qed

lemma refuse_directory_owns:
  assumes "refuse_directory env m t w = (y, t', w')" and "owns r t w" and "w_hist w \<noteq> []"
  shows "owns r t' w' \<and> w_hist w' \<noteq> []"
proof -
  have "owns r (t\<lparr>tx_state := TsApplyFailed\<rparr>) w" using assms(2) by (simp add: owns_def)
  from journal_then_owns [OF assms(1) [unfolded refuse_directory_def] this assms(3)] show ?thesis .
qed

lemma ensure_directory_owns:
  assumes run: "ensure_directory og d t w = (y, t', w')" and mk: "dir_creation (og_mkdir og)"
    and own: "owns r t w" and ne: "w_hist w \<noteq> []" and c: "is_platform_directory_candidate d r"
  shows "owns r t' w' \<and> w_hist w' \<noteq> []"
proof -
  let ?w = "interleave (og_env og) w"
  obtain x w2 where md: "make_directory og d ?w = (x, w2)" by force
  have w2: "owns r t w2" "w_hist w2 \<noteq> []" "x = Inr () \<longrightarrow> made (w_hist w2) d"
    using make_directory_owns [OF md mk _ _ c] own ne by auto
  have rec: "owns r (t\<lparr>tx_created_directories := tx_created_directories t @ [d]\<rparr>) w2" if "x = Inr ()"
    using w2 that by (auto simp: owns_def)
  show ?thesis
    using run md own ne w2 rec
    by (auto simp: ensure_directory_def Let_def split: if_splits sum.splits sys_error.splits
        dest: journal_then_owns refuse_directory_owns)
qed

lemma create_directories_owns:
  assumes "create_directories og ds t w = (y, t', w')" and "dir_creation (og_mkdir og)"
    and "owns r t w" and "w_hist w \<noteq> []" and "\<forall>d \<in> set ds. is_platform_directory_candidate d r"
  shows "owns r t' w' \<and> w_hist w' \<noteq> []"
  using assms
proof (induction og ds t w rule: create_directories.induct)
  case (1 og t w)
  then show ?case by simp
next
  case (2 og d ds t w)
  obtain c w1 where rc: "read_cancel (og_env og) w = (c, w1)" by force
  then have w1: "w_hist w1 = w_hist w" using read_cancel_world [of "og_env og" w] by auto
  have own1: "owns r t w1" using owns_same [OF "2.prems"(3) refl w1] .
  obtain x t1 w2 where en: "ensure_directory og d t w1 = (x, t1, w2)" by (metis prod_cases3)
  have own2: "owns r t1 w2 \<and> w_hist w2 \<noteq> []"
    using ensure_directory_owns [OF en "2.prems"(2) own1] "2.prems"(4,5) w1 by simp
  show ?case
    using "2.IH" "2.prems" rc en own1 own2 w1 by (cases c; cases x) auto
qed

lemma planned_candidates:
  "d \<in> set (collect_directories r es ds) \<Longrightarrow>
   d \<in> set ds \<or> is_platform_directory_candidate d r"
  by (induction r es ds rule: collect_directories.induct) (auto split: option.splits if_splits)

lemma discard_directories_owns:
  assumes "\<forall>d \<in> set ds. made (w_hist w) d" and "dir_removal (og_rmdir og)" and "owns r t w"
  shows "owns r t (discard_directories og ds w)"
  using assms
proof (induction ds arbitrary: w)
  case Nil
  then show ?case by simp
next
  case (Cons d ds)
  obtain x w1 where rd: "remove_directory og d w = (x, w1)" by force
  from remove_directory_owns [OF rd Cons.prems(2,3)] Cons.prems(1)
  have "owns r t w1" "\<forall>d \<in> set ds. made (w_hist w1) d" by auto
  with Cons.IH [of w1] Cons.prems(2) rd show ?case by simp
qed

lemma conflict_batch_hist:
  "conflict_batch env opts es w = (es', cs, w') \<Longrightarrow> w_hist w' = w_hist w \<and> w_disk w' = w_disk w"
proof (induction es arbitrary: w es' cs w')
  case Nil
  then show ?case by simp
next
  case (Cons e es)
  obtain es1 cs1 w1 where rec: "conflict_batch env opts es (interleave env w) = (es1, cs1, w1)"
    by (metis prod_cases3)
  have "w' = w1" using Cons.prems rec by (auto simp: Let_def split: prod.splits)
  with Cons.IH [OF rec] show ?case by simp
qed

section \<open>The pass\<close>

text \<open>The recorded directories never change during the shared pass or its rollback.\<close>

interpretation recorded: txn_frame_full "\<lambda>t. tx_created_directories t = ds" for ds
  by unfold_locales (auto simp: set_entry_def)

lemma shared_pass_lawful:
  assumes run: "apply_transaction env ex t w = (x, t', w')" and nr: "noreplace_rename (e_ren env)"
    and own: "owns r t w"
  shows "lawful_history r (w_hist w')"
proof -
  obtain w1 where alone: "apply_transaction env ex t (w\<lparr>w_hist := []\<rparr>) = (x, t', w1)"
      and w': "w' = past (w_hist w) w1"
    by (rule apply_transaction_alone [OF run])
  have ok: "hist_ok env (w_hist w1)"
    by (rule apply_transaction_hist_ok [OF alone]) (simp add: hist_ok.start)
  have dirs: "tx_created_directories tj = tx_created_directories t"
    if "JournalWritten tj f \<in> set (w_hist w1)" for tj f
    using recorded.apply_transaction_frame [OF alone refl] that by (auto simp: recorded.journalled_def)
  have "lawful_history r (w_hist w @ k)" if "\<exists>l. w_hist w1 = k @ l" for k
    using that
  proof (induction k rule: rev_induct)
    case Nil
    then show ?case using own by (simp add: owns_def)
  next
    case (snoc ev k)
    then obtain l where l: "w_hist w1 = k @ ev # l" by auto
    have IH: "lawful_history r (w_hist w @ k)" using snoc.IH l by auto
    have "lawful r (w_hist w @ k) ev"
    proof (cases ev)
      case (JournalWritten tj f)
      then have "tx_created_directories tj = tx_created_directories t" using dirs [of tj f] l by simp
      then show ?thesis using own JournalWritten by (auto simp: owns_def made_append)
    next
      case (Renamed s d f f')
      then show ?thesis
        using hist_ok_safe_rename [OF ok nr l [unfolded Renamed]] by (simp add: announced_append)
    next
      case (DirCreated d f f')
      then show ?thesis using hist_ok_no_directories [OF ok] l by auto
    next
      case (DirRemoved d f f')
      then show ?thesis using hist_ok_no_directories [OF ok] l by auto
    qed
    with IH show ?case by (simp add: lawful_snoc flip: append_assoc)
  qed
  then show ?thesis using w' by simp
qed

lemma abandon_lawful:
  assumes run: "abandon_organisation og cs t w = (x, t', w')" and rm: "dir_removal (og_rmdir og)"
    and own: "owns r t w"
  shows "lawful_history r (w_hist w')"
proof -
  let ?w1 = "discard_directories og (rev (tx_created_directories t)) w"
  let ?t1 = "t\<lparr>tx_created_directories := [], tx_state := TsApplyFailed\<rparr>"
  obtain y w2 where wj: "write_journal (og_env og) ?t1 ?w1 = (y, w2)" by force
  have "owns r t ?w1" by (rule discard_directories_owns [OF _ rm own]) (use own in \<open>simp add: owns_def\<close>)
  then have "owns r ?t1 ?w1" by (simp add: owns_def)
  from write_journal_owns [OF wj this] run wj show ?thesis
    by (auto simp: abandon_organisation_def Let_def owns_def split: sum.splits)
qed

text \<open>
  C7: Whatever other processes do, however journal writes fail and whenever the user cancels,
  in an organisation pass every directory that a journal on disk records as the program's own
  was made by this pass before, under a platform name directly below the master root that was
  free at that moment and after a durable record of the batch; a directory is removed only
  if this pass made it and it holds nothing at that moment; and every rename moves an
  existing object onto a free name, directly after the durable record of its intent.
\<close>

theorem organisation_lawful:
  assumes "apply_organisation_transaction og t approved generation trusted mode master_root w = (x, t', w')"
    and "noreplace_rename (e_ren (og_env og))" and "dir_creation (og_mkdir og)"
    and "dir_removal (og_rmdir og)" and "w_hist w = []" and "tx_created_directories t = []"
    and "w_hist w' = a @ ev # b"
  shows "lawful master_root a ev"
proof -
  let ?env = "og_env og" and ?r = master_root
  let ?t1 = "t\<lparr>tx_state := TsApplying\<rparr>"
  obtain c w1 where rc: "read_cancel ?env w = (c, w1)" by force
  then have w1: "w_hist w1 = []" using read_cancel_world [of ?env w] assms(5) by auto
  obtain y w2 where wj: "write_journal ?env ?t1 w1 = (y, w2)" by force
  obtain z t2 w3 where cd:
      "create_directories og (planned_platform_directories ?t1 ?r) ?t1 w2 = (z, t2, w3)"
    by (metis prod_cases3)
  obtain es cs w4 where cb: "conflict_batch ?env
      (options_of (organisation_execution approved generation trusted mode) t2) (tx_entries t2) w3 = (es, cs, w4)"
    by (metis prod_cases3)
  have own1: "owns ?r ?t1 w1" using w1 assms(6) by (simp add: owns_def)
  have own2: "owns ?r ?t1 w2" by (rule write_journal_owns [OF wj own1])
  have own3: "owns ?r t2 w3" if "y = Inr ()"
    using create_directories_owns [OF cd assms(3) own2] write_journal_nonempty wj that
      planned_candidates [of _ ?r "tx_entries ?t1" "[]"]
    by (force simp: planned_platform_directories_def)
  have own4: "owns ?r (t2\<lparr>tx_entries := es\<rparr>) w4" if "y = Inr ()"
    using owns_same [OF own3 [OF that]] conflict_batch_hist [OF cb] by simp
  have "lawful_history ?r (w_hist w')"
    using assms(1,5) rc w1 wj own2 cd own3 cb own4
      abandon_lawful [OF _ assms(4)] shared_pass_lawful [OF _ assms(2)]
    by (auto simp: apply_organisation_transaction_def Let_def owns_def split: sum.splits if_splits bool.splits)
  with assms(7) show ?thesis by (simp add: lawful_history_def)
qed

end
