(* ===== verification/OrgRestore.thy ===== *)
theory OrgRestore
  imports OrgSafety TxnRestore
begin

text \<open>
  Crash recovery of an organisation when no other process touches the files: the journal that
  a crash leaves is enough to move every file back and to take every recorded directory away.
  What can stay behind is one empty directory, made in the last instant before the crash and
  not yet recorded.
\<close>

section \<open>A file system with new platform directories\<close>

text \<open>Every entry lies in a directory.\<close>

definition tree_ok :: "fs \<Rightarrow> bool" where
  "tree_ok f \<longleftrightarrow> fBall (fmdom f) (\<lambda>p. p = [] \<or> is_dir f (butlast p))"

definition free_name :: "path \<Rightarrow> fs \<Rightarrow> path \<Rightarrow> bool" where
  "free_name r f0 d \<longleftrightarrow>
     is_platform_directory_candidate d r \<and> (\<exists>q. locate f0 d = Some q \<and> fmlookup f0 q = None)"

text \<open>\<open>f\<close> is \<open>f0\<close> with the directories of \<open>D\<close> added.\<close>

definition grown :: "path \<Rightarrow> fs \<Rightarrow> path set \<Rightarrow> fs \<Rightarrow> bool" where
  "grown r f0 D f \<longleftrightarrow>
     (\<forall>d \<in> D. free_name r f0 d \<and>
        (\<exists>q n. locate f0 d = Some q \<and> fmlookup f q = Some n \<and> n_kind n = DirNode)) \<and>
     (\<forall>p. (\<forall>d \<in> D. locate f0 d \<noteq> Some p) \<longrightarrow> fmlookup f p = fmlookup f0 p)"

lemma grown_none: "grown r f0 {} f \<longleftrightarrow> f = f0"
  by (auto simp: grown_def intro: fmap_ext)

lemma candidate_below:
  "is_platform_directory_candidate d r \<Longrightarrow> d \<noteq> [] \<and> butlast d = r \<and> d = r @ [last d]"
  by (auto simp: is_platform_directory_candidate_def path_file_name_def path_parent_def
      split: option.splits if_splits)

lemma locate_candidate:
  "is_platform_directory_candidate d r \<Longrightarrow>
   locate f d = map_option (\<lambda>q. q @ [last d]) (resolve_dir f r)"
  by (drule candidate_below) (simp add: locate_def)

lemma candidate_inj:
  assumes "is_platform_directory_candidate d r" "is_platform_directory_candidate d' r"
    and "locate f d = Some q" "locate f d' = Some q"
  shows "d = d'"
  using assms candidate_below [OF assms(1)] candidate_below [OF assms(2)]
  by (auto simp: locate_candidate)

lemma owned_is_candidate:
  "is_owned_platform_directory d r = is_platform_directory_candidate d r"
  by (simp add: is_owned_platform_directory_def is_platform_directory_candidate_def)

lemma grown_extends:
  assumes "grown r f0 D f"
  shows "extends_fs f0 f"
proof -
  have "fmlookup f p = Some n" if n: "fmlookup f0 p = Some n" for p n
  proof -
    have "locate f0 d \<noteq> Some p" if "d \<in> D" for d
      using assms that n by (fastforce simp: grown_def free_name_def)
    then show ?thesis using assms n by (simp add: grown_def)
  qed
  then show ?thesis by (simp add: extends_fs_def)
qed

lemma grown_at:
  assumes "grown r f0 D f" and "d \<in> D"
  obtains q n where "locate f0 d = Some q" "locate f d = Some q" "fmlookup f0 q = None"
    "fmlookup f q = Some n" "n_kind n = DirNode" "is_platform_directory_candidate d r"
  using assms locate_extends [OF _ grown_extends [OF assms(1)]]
  by (fastforce simp: grown_def free_name_def)

text \<open>A name that is free in \<open>f0\<close> and not among the added directories is still free.\<close>

lemma grown_elsewhere:
  assumes "grown r f0 D f" and "free_name r f0 d" and "d \<notin> D"
  obtains q where "locate f d = Some q" "fmlookup f q = None"
proof -
  obtain q where q: "locate f0 d = Some q" "fmlookup f0 q = None"
    using assms(2) by (auto simp: free_name_def)
  have "locate f0 d' \<noteq> Some q" if "d' \<in> D" for d'
    using grown_at [OF assms(1) that] candidate_inj [of d' r d f0 q] assms(2,3) q that
    by (metis free_name_def)
  with assms(1) q(2) have "fmlookup f q = None" by (simp add: grown_def)
  with locate_extends [OF q(1) grown_extends [OF assms(1)]] that show thesis by blast
qed

lemma grown_make:
  assumes g: "grown r f0 D f" and mk: "dir_creation mk" and run: "mk f d = Inr f'"
    and c: "is_platform_directory_candidate d r"
  shows "grown r f0 (insert d D) f'"
proof -
  obtain q n where q: "locate f d = Some q" "fmlookup f q = None" "n_kind n = DirNode" "f' = fmupd q n f"
    using dir_creation.made [OF mk run] by blast
  have q0: "locate f0 d = Some q"
  proof (cases "D = {}")
    case True
    then show ?thesis using g q(1) by (simp add: grown_none)
  next
    case False
    then obtain e where e: "e \<in> D" by blast
    obtain q' where "locate f0 e = Some q'" "is_platform_directory_candidate e r"
      by (rule grown_at [OF g e])
    then obtain s where "resolve_dir f0 r = Some s" by (auto simp: locate_candidate)
    then have l: "locate f0 d = Some (s @ [last d])" using c by (simp add: locate_candidate)
    with locate_extends [OF l grown_extends [OF g]] q(1) show ?thesis by simp
  qed
  have "fmlookup f0 q = None"
    using grown_extends [OF g] q(2) by (cases "fmlookup f0 q") (auto simp: extends_fs_def)
  with q0 c have free: "free_name r f0 d" by (simp add: free_name_def)
  have "\<exists>q' n'. locate f0 e = Some q' \<and> fmlookup f' q' = Some n' \<and> n_kind n' = DirNode" if "e \<in> D" for e
    using grown_at [OF g that] q(2,4) by (metis fmupd_lookup option.distinct(1))
  then show ?thesis using g free q0 q(3,4) by (auto simp: grown_def)
qed

lemma grown_remove:
  assumes g: "grown r f0 D f" and rm: "dir_removal rm" and run: "rm f d = Inr f'"
    and free: "free_name r f0 d"
  shows "d \<in> D \<and> grown r f0 (D - {d}) f'"
proof -
  obtain q n where q: "locate f d = Some q" "fmlookup f q = Some n" "f' = fmdrop q f"
    using dir_removal.removed [OF rm run] by blast
  have d: "d \<in> D" using grown_elsewhere [OF g free] q by force
  obtain q0 where "locate f0 d = Some q0" "locate f d = Some q0" "fmlookup f0 q0 = None"
    by (rule grown_at [OF g d])
  with q(1) have q0: "locate f0 d = Some q" "fmlookup f0 q = None" by simp_all
  have other: "locate f0 e \<noteq> Some q" if "e \<in> D - {d}" for e
    using grown_at [OF g, of e] candidate_inj [of e r d f0 q] free q0 that
    by (metis DiffE free_name_def singletonI)
  have "\<exists>q' n'. locate f0 e = Some q' \<and> fmlookup f' q' = Some n' \<and> n_kind n' = DirNode"
    if "e \<in> D - {d}" for e
  proof -
    from that have "e \<in> D" by simp
    then obtain q' n' where "locate f0 e = Some q'" "fmlookup f q' = Some n'" "n_kind n' = DirNode"
      by (rule grown_at [OF g])
    with other [OF that] q(3) show ?thesis by auto
  qed
  moreover have "fmlookup f' p = fmlookup f0 p" if "\<forall>e \<in> D - {d}. locate f0 e \<noteq> Some p" for p
  proof (cases "p = q")
    case True
    then show ?thesis using q(3) q0 by simp
  next
    case False
    then have "\<forall>e \<in> D. locate f0 e \<noteq> Some p" using that q0 by auto
    then show ?thesis using False q(3) g by (simp add: grown_def)
  qed
  ultimately show ?thesis using d g by (auto simp: grown_def)
qed

text \<open>An added directory holds nothing: its siblings are beside it, and nothing else is new.\<close>

lemma grown_empty:
  assumes g: "grown r f0 D f" and t: "tree_ok f0" and d: "d \<in> D" and q: "locate f d = Some q"
  shows "holds_nothing f q"
proof -
  obtain q1 where q1: "locate f0 d = Some q1" "locate f d = Some q1" "fmlookup f0 q1 = None"
      "is_platform_directory_candidate d r"
    by (rule grown_at [OF g d])
  with q have q0: "locate f0 d = Some q" "fmlookup f0 q = None" by simp_all
  obtain s where s: "resolve_dir f0 r = Some s" "q = s @ [last d]"
    using q0(1) q1(4) by (auto simp: locate_candidate)
  have "butlast p \<noteq> q" if p: "p |\<in>| fmdom f" "p \<noteq> []" for p
  proof (cases "\<exists>e \<in> D. locate f0 e = Some p")
    case True
    then obtain e where e: "e \<in> D" "locate f0 e = Some p" by blast
    have "is_platform_directory_candidate e r" by (rule grown_at [OF g e(1)])
    with e(2) s have "p = s @ [last e]" by (simp add: locate_candidate)
    then show ?thesis using s(2) by simp
  next
    case False
    then have "fmlookup f p = fmlookup f0 p" using g by (auto simp: grown_def)
    with p have "p |\<in>| fmdom f0" by (metis fmdom_notD fmdom_notI)
    with t p(2) have "is_dir f0 (butlast p)" by (auto simp: tree_ok_def)
    then show ?thesis using q0(2) s(2) by (auto simp: is_dir_def)
  qed
  then show ?thesis by (auto simp: holds_nothing_def)
qed

section \<open>Taking directories away\<close>

lemma remove_directory_grown:
  assumes run: "remove_directory og d w = (x, w')" and q: "quiet (og_env og)"
    and rm: "live_dir_removal (og_rmdir og)" and g: "grown r f0 D (w_fs w)" and t: "tree_ok f0"
    and free: "free_name r f0 d"
  shows "grown r f0 (D - {d}) (w_fs w') \<and> (x \<longleftrightarrow> d \<in> D) \<and>
    (w_hist w' = w_hist w \<or> (\<exists>f. w_hist w' = w_hist w @ [DirRemoved d f (w_fs w')]))"
  using run
proof (rule remove_directory_cases)
  fix f'
  assume *: "x" "og_rmdir og (w_fs (interleave (og_env og) w)) d = Inr f'" "w_fs w' = f'"
    "w_hist w' = w_hist w @ [DirRemoved d (w_fs (interleave (og_env og) w)) f']"
  have "dir_removal (og_rmdir og)" using rm by (simp add: live_dir_removal_def)
  from grown_remove [OF g this _ free] * q show ?thesis by auto
next
  fix err
  assume *: "\<not> x" "og_rmdir og (w_fs (interleave (og_env og) w)) d = Inl err"
    "w' = interleave (og_env og) w"
  have "d \<notin> D"
  proof
    assume d: "d \<in> D"
    obtain p n where p: "locate (w_fs w) d = Some p" "fmlookup (w_fs w) p = Some n" "n_kind n = DirNode"
      by (rule grown_at [OF g d])
    from live_dir_removal.removes [OF rm p grown_empty [OF g t d p(1)]] * q show False by simp
  qed
  with * q g show ?thesis by simp
qed

lemma clean_directory_grown:
  assumes run: "clean_directory og r d w = (fate, w')" and q: "quiet (og_env og)"
    and rm: "live_dir_removal (og_rmdir og)" and g: "grown r f0 D (w_fs w)" and t: "tree_ok f0"
    and free: "free_name r f0 d" and look: "\<And>n p. \<not> og_look_fails og n p"
  shows "grown r f0 (D - {d}) (w_fs w') \<and> fate = (if d \<in> D then DirectoryRemoved else DirectoryGone)"
proof -
  have own: "is_owned_platform_directory d r"
    using free by (simp add: owned_is_candidate free_name_def)
  let ?w1 = "interleave (og_env og) w" let ?w2 = "interleave (og_env og) ?w1"
  show ?thesis
  proof (cases "d \<in> D")
    case True
    obtain p n where p: "locate (w_fs w) d = Some p" "fmlookup (w_fs w) p = Some n" "n_kind n = DirNode"
        "is_platform_directory_candidate d r"
      by (rule grown_at [OF g True])
    obtain s where s: "resolve_dir (w_fs w) r = Some s" "p = s @ [last d]"
      using p(1,4) by (auto simp: locate_candidate)
    have "resolve_dir (w_fs w) (r @ [last d]) = Some p"
      using resolve_dir_into [OF s(1)] p(2,3) s(2) by simp
    then have "resolve_dir (w_fs w) d = Some p" using candidate_below [OF p(4)] by simp
    from read_dir_empty [OF this grown_empty [OF g t True p(1)]]
    have rd: "read_dir (w_fs w) d = Some {||}" .
    have sm: "symlink_metadata (w_fs w) d = Some n" using p by (simp add: symlink_metadata_def)
    obtain x w3 where rem: "remove_directory og d ?w2 = (x, w3)" by force
    have g2: "grown r f0 D (w_fs ?w2)" using g q by simp
    have "grown r f0 (D - {d}) (w_fs w3)" "x"
      using remove_directory_grown [OF rem q rm g2 t free] True by simp_all
    with run own look rd sm p(3) rem q True show ?thesis
      by (auto simp: clean_directory_def Let_def)
  next
    case False
    obtain p where "locate (w_fs w) d = Some p" "fmlookup (w_fs w) p = None"
      by (rule grown_elsewhere [OF g free False])
    then have "symlink_metadata (w_fs w) d = None" by (simp add: symlink_metadata_def)
    with run own look q False g show ?thesis by (auto simp: clean_directory_def Let_def)
  qed
qed

lemma clean_directories_grown:
  assumes "clean_directories og r ds w = (removed, remaining, w')" and "quiet (og_env og)"
    and "live_dir_removal (og_rmdir og)" and "grown r f0 D (w_fs w)" and "tree_ok f0"
    and "\<forall>d \<in> set ds. free_name r f0 d" and "\<And>n p. \<not> og_look_fails og n p"
  shows "grown r f0 (D - set ds) (w_fs w') \<and> remaining = []"
  using assms(1,4,6)
proof (induction ds arbitrary: w removed remaining w' D)
  case Nil
  then show ?case by simp
next
  case (Cons d ds)
  obtain fate w1 where c: "clean_directory og r d w = (fate, w1)" by force
  obtain rd rn w2 where cs: "clean_directories og r ds w1 = (rd, rn, w2)" by (metis prod_cases3)
  have one: "grown r f0 (D - {d}) (w_fs w1)" "fate \<noteq> DirectoryRemains"
    using clean_directory_grown [OF c assms(2,3) Cons.prems(2) assms(5) _ assms(7)] Cons.prems(3)
    by auto
  have "grown r f0 (D - {d} - set ds) (w_fs w2) \<and> rn = []"
    using Cons.IH [OF cs one(1)] Cons.prems(3) by simp
  moreover have "D - {d} - set ds = D - set (d # ds)" by auto
  ultimately show ?case using Cons.prems(1) c cs one(2) by auto
qed

section \<open>Recoverable crash points\<close>

text \<open>
  What the journal \<open>t\<close> has to say of the file system \<open>f\<close>: its moves lead to \<open>f\<close> from \<open>f0\<close> with
  added directories, all of them recorded but at most one.
\<close>

definition recoverable ::
    "path \<Rightarrow> fs \<Rightarrow> rename_transaction \<Rightarrow> rename_transaction \<Rightarrow> fs \<Rightarrow> bool" where
  "recoverable r f0 b t f \<longleftrightarrow>
     same_batch b t \<and> tx_state t \<noteq> TsRolledBack \<and>
     (\<forall>d \<in> set (tx_created_directories t). free_name r f0 d) \<and>
     (\<exists>f1 D x. chain f1 (tx_entries t) f \<and> grown r f0 D f1 \<and>
        D \<subseteq> set (tx_created_directories t) \<union> set_option x)"

lemma recoverableI:
  assumes "same_batch b t" and "tx_state t \<noteq> TsRolledBack"
    and "\<forall>d \<in> set (tx_created_directories t). free_name r f0 d"
    and "chain f1 (tx_entries t) f" and "grown r f0 D f1"
    and "D \<subseteq> set (tx_created_directories t) \<union> set_option x"
  shows "recoverable r f0 b t f"
  using assms by (auto simp: recoverable_def)

definition always_recoverable :: "path \<Rightarrow> fs \<Rightarrow> rename_transaction \<Rightarrow> world \<Rightarrow> bool" where
  "always_recoverable r f0 b w \<longleftrightarrow>
     (\<forall>(t, f) \<in> set (crash_points None (w_hist w)). recoverable r f0 b t f)"

lemma always_recoverable_hist:
  "always_recoverable r f0 b w \<Longrightarrow> w_hist w' = w_hist w \<Longrightarrow> always_recoverable r f0 b w'"
  by (simp add: always_recoverable_def)

text \<open>
  Rolling back at such a point restores \<open>f0\<close>, but for the one directory that was not recorded.
\<close>

lemma recoverable_restores:
  assumes rec: "recoverable r f0 b t f" and t: "tree_ok f0"
    and q: "quiet (og_env og)" and lr: "live_rename (e_ren (og_env og))"
    and jw: "journal_works (og_env og)" and nc: "never_cancelled (og_env og)"
    and rm: "live_dir_removal (og_rmdir og)" and look: "\<And>n p. \<not> og_look_fails og n p"
    and jn: "journal_file_name (tx_transaction_id b) \<noteq> None" and nn: "no_nul_paths (tx_entries b)"
  shows "\<exists>out t' w' x. rollback_organisation_transaction og t r (restart f disk n) = (Inr out, t', w') \<and>
    ro_result (or_rollback out) = FullyRolledBack \<and> or_directories_remaining out = [] \<and>
    grown r f0 (set_option x) (w_fs w')"
proof -
  have sb: "same_batch b t" and ns: "tx_state t \<noteq> TsRolledBack"
    and free: "\<forall>d \<in> set (tx_created_directories t). free_name r f0 d"
    using rec by (auto simp: recoverable_def)
  obtain f1 D x where ch: "chain f1 (tx_entries t) f" and g: "grown r f0 D f1"
      and D: "D \<subseteq> set (tx_created_directories t) \<union> set_option x"
    using rec by (auto simp: recoverable_def)
  have jn': "journal_file_name (tx_transaction_id t) \<noteq> None" and nn': "no_nul_paths (tx_entries t)"
    using sb jn nn no_nul_te_frame [of "tx_entries t" "tx_entries b"] by (auto simp: same_batch_def)
  obtain t1 w1 where rb: "rollback_transaction (og_env og) t (restart f disk n) =
        (Inr \<lparr>ro_result = FullyRolledBack, ro_transaction = t1\<rparr>, t1, w1)" and f1: "w_fs w1 = f1"
    using rollback_restores [OF ch ns q lr jw nc jn' nn', of disk n] by blast
  have dirs: "tx_created_directories t1 = tx_created_directories t"
    using recorded.rollback_transaction_frame [OF rb refl] by (simp add: recorded.journalled_def)
  obtain rd rn w2 where cd:
      "clean_directories og r (rev (tx_created_directories t)) w1 = (rd, rn, w2)"
    by (metis prod_cases3)
  have g': "grown r f0 (D - set (tx_created_directories t)) (w_fs w2)" and rn: "rn = []"
    using clean_directories_grown [OF cd q rm _ t _ look] g f1 free by auto
  obtain y where "D - set (tx_created_directories t) = set_option y"
    using D by (cases x) (auto simp: subset_insert_iff intro: that [of None] that [of x] split: if_splits)
  with g' rb cd dirs rn show ?thesis
    by (auto simp: rollback_organisation_transaction_def)
qed

section \<open>The pass up to the shared executor\<close>

text \<open>
  The invariant while the directories are made: the journal on disk is \<open>tj\<close>, nothing has
  been moved, the file system is \<open>f0\<close> with the recorded directories.
\<close>

definition waiting :: "rename_transaction \<Rightarrow> rename_transaction \<Rightarrow> bool" where
  "waiting b t \<longleftrightarrow>
     same_batch b t \<and> tx_state t \<noteq> TsRolledBack \<and> list_all unmoved (tx_entries t)"

lemma waiting_simps [simp]:
  "waiting b (t\<lparr>tx_created_directories := ds\<rparr>) = waiting b t"
  by (simp add: waiting_def same_batch_def)

lemma waiting_state: "waiting b t \<Longrightarrow> s \<noteq> TsRolledBack \<Longrightarrow> waiting b (t\<lparr>tx_state := s\<rparr>)"
  by (simp add: waiting_def same_batch_def)

lemma waiting_recoverable:
  assumes "waiting b t" and "\<forall>d \<in> set (tx_created_directories t). free_name r f0 d"
    and "grown r f0 D f" and "D \<subseteq> set (tx_created_directories t) \<union> set_option x"
  shows "recoverable r f0 b t f"
proof (rule recoverableI [OF _ _ assms(2) _ assms(3,4)])
  show "chain f (tx_entries t) f" using assms(1) by (simp add: waiting_def chain_unmoved)
qed (use assms(1) in \<open>simp_all add: waiting_def\<close>)

definition on_disk :: "rename_transaction \<Rightarrow> rename_transaction \<Rightarrow> world \<Rightarrow> bool" where
  "on_disk b t w \<longleftrightarrow>
     (\<exists>tj. journal_after None (w_hist w) = Some tj \<and> waiting b tj \<and>
        tx_created_directories tj = tx_created_directories t)"

definition growing :: "path \<Rightarrow> fs \<Rightarrow> rename_transaction \<Rightarrow> rename_transaction \<Rightarrow> world \<Rightarrow> bool" where
  "growing r f0 b t w \<longleftrightarrow>
     always_recoverable r f0 b w \<and> waiting b t \<and> on_disk b t w \<and>
     grown r f0 (set (tx_created_directories t)) (w_fs w)"

lemma grown_free: "grown r f0 D f \<Longrightarrow> d \<in> D \<Longrightarrow> free_name r f0 d"
  by (simp add: grown_def)

lemma growing_interleave [simp]:
  "quiet env \<Longrightarrow> growing r f0 b t (interleave env w) = growing r f0 b t w"
  by (simp add: growing_def always_recoverable_def on_disk_def)

text \<open>Writing the journal of a waiting transaction.\<close>

lemma write_journal_recoverable:
  assumes "write_journal env t w = (y, w')" and "quiet env" and "always_recoverable r f0 b w"
    and "waiting b t" and "grown r f0 (set (tx_created_directories t)) (w_fs w)"
  shows "always_recoverable r f0 b w' \<and> w_fs w' = w_fs w \<and> (y = Inr () \<longrightarrow> on_disk b t w')"
  using assms(1)
proof (rule write_journal_cases)
  fix name
  assume *: "w_fs w' = w_fs (interleave env w)" "w_hist w' = w_hist w @ [JournalWritten t (w_fs w')]"
  have "recoverable r f0 b t (w_fs w)"
    by (rule waiting_recoverable [OF assms(4) _ assms(5), of None])
      (use grown_free [OF assms(5)] in auto)
  with * assms(2-4) show ?thesis
    by (auto simp: always_recoverable_def crash_points_append journal_after_append on_disk_def)
next
  fix err
  assume "y = Inl err" "w' = interleave env w"
  with assms(2,3) show ?thesis by (simp add: always_recoverable_def)
qed

lemma journal_then_recoverable:
  assumes run: "journal_then env x t w = (y, t', w')" and q: "quiet env"
    and "always_recoverable r f0 b w" and "waiting b t"
    and "grown r f0 (set (tx_created_directories t)) (w_fs w)"
  shows "always_recoverable r f0 b w' \<and> (y = Inr () \<longrightarrow> growing r f0 b t' w')"
proof -
  obtain z w1 where wj: "write_journal env t w = (z, w1)" by force
  show ?thesis
    using write_journal_recoverable [OF wj q assms(3-5)] assms(4,5) run wj
    by (auto simp: journal_then_def growing_def split: sum.splits)
qed

lemma refuse_directory_recoverable:
  assumes run: "refuse_directory env m t w = (y, t', w')" and q: "quiet env"
    and inv: "growing r f0 b t w"
  shows "always_recoverable r f0 b w' \<and> (\<exists>err. y = Inl err)"
proof -
  let ?t = "t\<lparr>tx_state := TsApplyFailed\<rparr>"
  have w: "waiting b ?t" using inv by (simp add: growing_def waiting_state)
  have "\<exists>err. y = Inl err"
    using run by (auto simp: refuse_directory_def journal_then_def split: sum.splits prod.splits)
  moreover have "always_recoverable r f0 b w'"
    using journal_then_recoverable [OF run [unfolded refuse_directory_def] q _ w] inv
    by (simp add: growing_def)
  ultimately show ?thesis by simp
qed

text \<open>Making one directory: a crash right after it leaves it unrecorded.\<close>

lemma make_directory_recoverable:
  assumes run: "make_directory og d w = (x, w')" and q: "quiet (og_env og)"
    and mk: "dir_creation (og_mkdir og)" and inv: "growing r f0 b t w"
    and c: "is_platform_directory_candidate d r"
  shows "if x = Inr ()
    then always_recoverable r f0 b w' \<and>
      grown r f0 (insert d (set (tx_created_directories t))) (w_fs w')
    else growing r f0 b t w'"
  using run
proof (rule make_directory_cases)
  fix f'
  assume *: "x = Inr ()" "og_mkdir og (w_fs (interleave (og_env og) w)) d = Inr f'" "w_fs w' = f'"
    "w_hist w' = w_hist w @ [DirCreated d (w_fs (interleave (og_env og) w)) f']"
  have g: "grown r f0 (set (tx_created_directories t)) (w_fs w)"
    and ar: "always_recoverable r f0 b w" using inv by (simp_all add: growing_def)
  obtain tj where tj: "journal_after None (w_hist w) = Some tj" "waiting b tj"
      "tx_created_directories tj = tx_created_directories t"
    using inv by (auto simp: growing_def on_disk_def)
  have g': "grown r f0 (insert d (set (tx_created_directories t))) f'"
    using grown_make [OF g mk _ c] * q by simp
  have "recoverable r f0 b tj f'"
    by (rule waiting_recoverable [OF tj(2) _ g', of "Some d"])
      (use tj(3) grown_free [OF g] in auto)
  with * tj(1) ar g' show ?thesis
    by (auto simp: always_recoverable_def crash_points_append)
next
  fix err
  assume "x = Inl err" "w' = interleave (og_env og) w"
  with inv q show ?thesis by simp
qed

lemma ensure_directory_recoverable:
  assumes run: "ensure_directory og d t w = (y, t', w')" and q: "quiet (og_env og)"
    and mk: "dir_creation (og_mkdir og)" and inv: "growing r f0 b t w"
    and c: "is_platform_directory_candidate d r"
  shows "always_recoverable r f0 b w' \<and> (y = Inr () \<longrightarrow> growing r f0 b t' w')"
proof -
  let ?w = "interleave (og_env og) w"
  let ?t = "t\<lparr>tx_created_directories := tx_created_directories t @ [d]\<rparr>"
  have inv1: "growing r f0 b t ?w" using inv q by simp
  obtain x w2 where md: "make_directory og d ?w = (x, w2)" by force
  note step = make_directory_recoverable [OF md q mk inv1 c]
  have fail: "always_recoverable r f0 b w' \<and> (y = Inr () \<longrightarrow> growing r f0 b t' w')"
    if "refuse_directory (og_env og) m t v = (y, t', w')" "growing r f0 b t v" for m v
    using refuse_directory_recoverable [OF that(1) q that(2)] by auto
  have same: "growing r f0 b t v \<Longrightarrow> always_recoverable r f0 b v" for v
    by (simp add: growing_def)
  show ?thesis
  proof (cases "og_look_fails og (w_tick w) d \<or> symlink_metadata (w_fs ?w) d \<noteq> None")
    case True
    then show ?thesis using run fail [OF _ inv1] inv1 same [OF inv1]
      by (auto simp: ensure_directory_def Let_def split: if_splits)
  next
    case False
    show ?thesis
    proof (cases x)
      case (Inl err)
      then have inv2: "growing r f0 b t w2" using step by simp
      show ?thesis using run False md Inl fail [OF _ inv2] inv2 same [OF inv2]
        by (auto simp: ensure_directory_def Let_def split: sys_error.splits)
    next
      case (Inr u)
      then have "journal_then (og_env og) (Inr ()) ?t w2 = (y, t', w')"
        using run False md by (simp add: ensure_directory_def Let_def)
      then show ?thesis
        by (rule journal_then_recoverable [OF _ q])
          (use step Inr inv1 in \<open>simp_all add: growing_def\<close>)
    qed
  qed
qed

lemma create_directories_recoverable:
  assumes "create_directories og ds t w = (y, t', w')" and "quiet (og_env og)"
    and "dir_creation (og_mkdir og)" and "growing r f0 b t w"
    and "\<forall>d \<in> set ds. is_platform_directory_candidate d r"
  shows "always_recoverable r f0 b w' \<and> (y = Inr () \<longrightarrow> growing r f0 b t' w')"
  using assms(1,4,5)
proof (induction ds arbitrary: t w)
  case Nil
  then show ?case by (simp add: growing_def)
next
  case (Cons d ds)
  obtain c w1 where rc: "read_cancel (og_env og) w = (c, w1)" by force
  then have "w1 = interleave (og_env og) w" using read_cancel_world [of "og_env og" w] by simp
  then have inv1: "growing r f0 b t w1" using assms(2) Cons.prems(2) by simp
  then have ar1: "always_recoverable r f0 b w1" by (simp add: growing_def)
  obtain x t1 w2 where en: "ensure_directory og d t w1 = (x, t1, w2)" by (metis prod_cases3)
  have step: "always_recoverable r f0 b w2" "x = Inr () \<Longrightarrow> growing r f0 b t1 w2"
    using ensure_directory_recoverable [OF en assms(2,3) inv1] Cons.prems(3) by simp_all
  show ?case
  proof (cases c)
    case True
    then show ?thesis using Cons.prems(1) rc inv1 ar1 by simp
  next
    case False
    show ?thesis
    proof (cases x)
      case (Inl err)
      then show ?thesis using Cons.prems(1) rc False en step(1) by auto
    next
      case (Inr u)
      then have "create_directories og ds t1 w2 = (y, t', w')" using Cons.prems(1) rc False en by simp
      from Cons.IH [OF this step(2)] Cons.prems(3) Inr show ?thesis by simp
    qed
  qed
qed

section \<open>Giving up and going on\<close>

lemma conflict_entry_frame:
  assumes "conflict_entry f opts e = (e', c)"
  shows "te_state e' = te_state e" "te_frame e' = te_frame e"
  using assms by (auto simp: conflict_entry_def Let_def split: sum.splits)

lemma conflict_batch_frame:
  "conflict_batch env opts es w = (es', cs, w') \<Longrightarrow> quiet env \<Longrightarrow>
   w_fs w' = w_fs w \<and> map te_state es' = map te_state es \<and> map te_frame es' = map te_frame es"
proof (induction es arbitrary: w es' cs w')
  case Nil
  then show ?case by simp
next
  case (Cons e es)
  obtain es1 cs1 w1 where rec: "conflict_batch env opts es (interleave env w) = (es1, cs1, w1)"
    by (metis prod_cases3)
  obtain e1 c1 where ce: "conflict_entry (w_fs (interleave env w)) opts e = (e1, c1)" by force
  show ?case
    using Cons.IH [OF rec] Cons.prems rec ce conflict_entry_frame [OF ce] by (auto simp: Let_def)
qed

lemma conflict_batch_growing:
  assumes "conflict_batch env opts (tx_entries t) w = (es, cs, w')" and "quiet env"
    and "growing r f0 b t w"
  shows "growing r f0 b (t\<lparr>tx_entries := es\<rparr>) w'"
proof -
  have fr: "w_fs w' = w_fs w" "map te_state es = map te_state (tx_entries t)"
      "map te_frame es = map te_frame (tx_entries t)" "w_hist w' = w_hist w"
    using conflict_batch_frame [OF assms(1,2)] conflict_batch_hist [OF assms(1)] by simp_all
  have "list_all unmoved es = list_all unmoved (tx_entries t)" by (rule unmoved_states [OF fr(2)])
  with assms(3) fr show ?thesis
    by (simp add: growing_def on_disk_def always_recoverable_def waiting_def same_batch_def)
qed

text \<open>After hard conflicts every directory is taken away before the empty list is recorded.\<close>

lemma discard_directories_recoverable:
  assumes "quiet (og_env og)" and "live_dir_removal (og_rmdir og)" and "tree_ok f0"
    and "always_recoverable r f0 b w" and "on_disk b t w"
    and "\<forall>d \<in> set (tx_created_directories t). free_name r f0 d"
    and "set ds \<subseteq> set (tx_created_directories t)" and "D \<subseteq> set (tx_created_directories t)"
    and "grown r f0 D (w_fs w)"
  shows "always_recoverable r f0 b (discard_directories og ds w) \<and>
    grown r f0 (D - set ds) (w_fs (discard_directories og ds w))"
  using assms(4,5,7-9)
proof (induction ds arbitrary: w D)
  case Nil
  then show ?case by simp
next
  case (Cons d ds)
  obtain x w1 where rd: "remove_directory og d w = (x, w1)" by force
  have free: "free_name r f0 d" using assms(6) Cons.prems(3) by simp
  note step = remove_directory_grown [OF rd assms(1,2) Cons.prems(5) assms(3) free]
  obtain tj where tj: "journal_after None (w_hist w) = Some tj" "waiting b tj"
      "tx_created_directories tj = tx_created_directories t"
    using Cons.prems(2) by (auto simp: on_disk_def)
  have "recoverable r f0 b tj (w_fs w1)"
    by (rule waiting_recoverable [OF tj(2) _ conjunct1 [OF step], of None])
      (use tj(3) assms(6) Cons.prems(4) in auto)
  then have "always_recoverable r f0 b w1"
    using step Cons.prems(1) tj(1) by (auto simp: always_recoverable_def crash_points_append)
  moreover have "on_disk b t w1"
    using step tj by (auto simp: on_disk_def journal_after_append)
  moreover have "D - {d} - set ds = D - set (d # ds)" by auto
  ultimately show ?case using Cons.IH [of w1 "D - {d}"] Cons.prems(3,4) step rd by auto
qed

lemma abandon_recoverable:
  assumes run: "abandon_organisation og cs t w = (x, t', w')" and q: "quiet (og_env og)"
    and rm: "live_dir_removal (og_rmdir og)" and t: "tree_ok f0" and inv: "growing r f0 b t w"
  shows "always_recoverable r f0 b w'"
proof -
  let ?ds = "tx_created_directories t"
  let ?w1 = "discard_directories og (rev ?ds) w"
  let ?t1 = "t\<lparr>tx_created_directories := [], tx_state := TsApplyFailed\<rparr>"
  have g: "grown r f0 (set ?ds) (w_fs w)" using inv by (simp add: growing_def)
  have d: "always_recoverable r f0 b ?w1 \<and> grown r f0 (set ?ds - set (rev ?ds)) (w_fs ?w1)"
    by (rule discard_directories_recoverable [OF q rm t, of r b w t])
      (use inv grown_free [OF g] in \<open>auto simp: growing_def\<close>)
  have w: "waiting b ?t1" using inv by (simp add: growing_def waiting_def same_batch_def)
  obtain y w2 where wj: "write_journal (og_env og) ?t1 ?w1 = (y, w2)" by force
  have "always_recoverable r f0 b w2"
    using write_journal_recoverable [OF wj q _ w] d by simp
  with run wj show ?thesis by (auto simp: abandon_organisation_def Let_def split: sum.splits)
qed

text \<open>The shared pass starts from the grown file system.\<close>

lemma shared_pass_recoverable:
  assumes run: "apply_transaction env ex t w = (x, t', w')" and q: "quiet env"
    and nr: "noreplace_rename (e_ren env)" and nl: "\<not> ex_allow_symlink_source ex"
    and inv: "growing r f0 b t w"
  shows "always_recoverable r f0 b w'"
proof -
  let ?w0 = "w\<lparr>w_hist := []\<rparr>"
  obtain w1 where alone: "apply_transaction env ex t ?w0 = (x, t', w1)"
      and w': "w' = past (w_hist w) w1"
    by (rule apply_transaction_alone [OF run])
  have un: "list_all unmoved (tx_entries t)" and wb: "waiting b t"
    and g: "grown r f0 (set (tx_created_directories t)) (w_fs w)"
    and ar: "always_recoverable r f0 b w" using inv by (simp_all add: growing_def waiting_def)
  obtain tj where tj: "journal_after None (w_hist w) = Some tj"
    using inv by (auto simp: growing_def on_disk_def)
  have ok: "hist_ok env (w_hist w1)"
    by (rule apply_transaction_hist_ok [OF alone]) (simp add: hist_ok.start)
  have cs: "crash_safe (w_fs w) w1"
    using apply_transaction_chain [OF alone q nr nl un] by (simp add: crash_safe_def)
  have "recoverable r f0 b ta f" if at: "(ta, f) \<in> set (crash_points None (w_hist w1))" for ta f
  proof -
    obtain k where k: "JournalWritten ta k \<in> set (w_hist w1)"
      using crash_points_journal [OF at] by blast
    have "same_batch t ta"
      using batch.apply_transaction_frame [OF alone same_batch_refl] k
      by (auto simp: batch.journalled_def)
    then have sb: "same_batch b ta" using wb by (simp add: waiting_def same_batch_def)
    have ns: "tx_state ta \<noteq> TsRolledBack"
      using applying.apply_transaction_frame [OF alone] wb k
      by (auto simp: applying.journalled_def not_rolled_back_def waiting_def)
    have dirs: "tx_created_directories ta = tx_created_directories t"
      using recorded.apply_transaction_frame [OF alone refl] k by (auto simp: recorded.journalled_def)
    have ch: "chain (w_fs w) (tx_entries ta) f" using cs at by (auto simp: crash_safe_def)
    show ?thesis
      by (rule recoverableI [OF sb ns _ ch g, of None]) (use dirs grown_free [OF g] in auto)
  qed
  with ar tj w' show ?thesis
    by (auto simp: always_recoverable_def crash_points_append crash_points_started [OF ok, of "Some tj"])
qed

section \<open>Crash, restart, roll back\<close>

lemma organisation_recoverable:
  assumes run: "apply_organisation_transaction og t approved generation trusted mode r w = (x, t', w')"
    and q: "quiet (og_env og)" and nr: "noreplace_rename (e_ren (og_env og))"
    and mk: "dir_creation (og_mkdir og)" and rm: "live_dir_removal (og_rmdir og)"
    and w0: "w_hist w = []" and nd: "tx_created_directories t = []"
    and un: "list_all unmoved (tx_entries t)" and nm: "mode \<noteq> OrganiseSymlinkOnly"
    and tr: "tree_ok (w_fs w)"
  shows "always_recoverable r (w_fs w) t w'"
proof -
  let ?env = "og_env og" and ?f0 = "w_fs w" and ?t1 = "t\<lparr>tx_state := TsApplying\<rparr>"
  let ?ex = "organisation_execution approved generation trusted mode"
  obtain c w1 where rc: "read_cancel ?env w = (c, w1)" by force
  then have w1: "w_hist w1 = []" "w_fs w1 = ?f0" using read_cancel_world [of ?env w] w0 q by auto
  have ar1: "always_recoverable r ?f0 t w" "always_recoverable r ?f0 t w1"
    using w0 w1 by (simp_all add: always_recoverable_def)
  have wt: "waiting t ?t1" using un by (simp add: waiting_def same_batch_def)
  have g1: "grown r ?f0 (set (tx_created_directories ?t1)) (w_fs w1)"
    using nd w1 by (simp add: grown_none)
  obtain y w2 where wj: "write_journal ?env ?t1 w1 = (y, w2)" by force
  have s2: "always_recoverable r ?f0 t w2" "w_fs w2 = w_fs w1" "y = Inr () \<Longrightarrow> on_disk t ?t1 w2"
    using write_journal_recoverable [OF wj q ar1(2) wt g1] by simp_all
  have g2: "growing r ?f0 t ?t1 w2" if "y = Inr ()"
    using s2 that wt g1 by (simp add: growing_def)
  obtain z t2 w3 where cd:
      "create_directories og (planned_platform_directories ?t1 r) ?t1 w2 = (z, t2, w3)"
    by (metis prod_cases3)
  have cand: "\<forall>d \<in> set (planned_platform_directories ?t1 r). is_platform_directory_candidate d r"
    using planned_candidates [of _ r "tx_entries ?t1" "[]"]
    by (auto simp: planned_platform_directories_def)
  have s3: "always_recoverable r ?f0 t w3" "z = Inr () \<Longrightarrow> growing r ?f0 t t2 w3" if "y = Inr ()"
    using create_directories_recoverable [OF cd q mk g2 [OF that] cand] by simp_all
  obtain es cs w4 where cb: "conflict_batch ?env (options_of ?ex t2) (tx_entries t2) w3 = (es, cs, w4)"
    by (metis prod_cases3)
  have g4: "growing r ?f0 t (t2\<lparr>tx_entries := es\<rparr>) w4" if "y = Inr ()" "z = Inr ()"
    by (rule conflict_batch_growing [OF cb q s3(2) [OF that]])
  have nl: "\<not> ex_allow_symlink_source ?ex" using nm by (simp add: organisation_execution_def)
  have fin: "always_recoverable r ?f0 t v"
    if "(if cs \<noteq> [] then abandon_organisation og cs (t2\<lparr>tx_entries := es\<rparr>) w4
      else apply_transaction ?env ?ex (t2\<lparr>tx_entries := es\<rparr>) w4) = (x, t', v)"
      "y = Inr ()" "z = Inr ()" for v
    using that(1) abandon_recoverable [OF _ q rm tr g4 [OF that(2,3)]]
      shared_pass_recoverable [OF _ q nr nl g4 [OF that(2,3)]]
    by (simp split: if_splits)
  show ?thesis
  proof (cases "validate_classifier_version (tx_classifier_version t)")
    case (Inl err)
    then show ?thesis using run ar1 by (simp add: apply_organisation_transaction_def)
  next
    case version: (Inr u)
    show ?thesis
    proof (cases c)
      case True
      then show ?thesis using run version rc ar1 by (simp add: apply_organisation_transaction_def)
    next
      case False
      note go = run version rc False wj
      show ?thesis
      proof (cases y)
        case (Inl err)
        then show ?thesis using go s2(1) by (simp add: apply_organisation_transaction_def Let_def)
      next
        case y: (Inr u')
        show ?thesis
        proof (cases z)
          case (Inl err)
          then show ?thesis using go y cd s3(1) by (simp add: apply_organisation_transaction_def Let_def)
        next
          case (Inr u'')
          then show ?thesis using go y cd cb fin [of w']
            by (simp add: apply_organisation_transaction_def Let_def)
        qed
      qed
    qed
  qed
qed

lemma grown_at_most_one:
  assumes "grown r f0 (set_option x) f"
  shows "f = f0 \<or> (\<exists>d q n. is_platform_directory_candidate d r \<and> locate f0 d = Some q \<and>
    fmlookup f0 q = None \<and> n_kind n = DirNode \<and> f = fmupd q n f0)"
proof (cases x)
  case None
  then show ?thesis using assms by (simp add: grown_none)
next
  case (Some d)
  with assms have g: "grown r f0 {d} f" by simp
  obtain q n where q: "locate f0 d = Some q" "fmlookup f0 q = None" "fmlookup f q = Some n"
      "n_kind n = DirNode" "is_platform_directory_candidate d r"
    by (rule grown_at [OF g]) simp_all
  have "f = fmupd q n f0"
    by (rule fmap_ext) (use g q in \<open>auto simp: grown_def\<close>)
  with q show ?thesis by blast
qed

text \<open>
  C6: End to end for an organisation of real files: crash it at any instant, also while it makes
  or takes away platform directories, restart, and roll back what the journal says. The
  rollback reports every file as moved back, leaves none of the recorded directories behind,
  and the file system is the one before the pass, but for at most one empty platform directory
  that was made in the last instant before the crash and not yet recorded.
\<close>

theorem organisation_crash_then_rollback:
  assumes "apply_organisation_transaction og t approved generation trusted mode r w = (x, t1, w1)"
    and "quiet (og_env og)" and "noreplace_rename (e_ren (og_env og))"
    and "dir_creation (og_mkdir og)" and "live_dir_removal (og_rmdir og)"
    and "w_hist w = []" and "tx_created_directories t = []" and "list_all unmoved (tx_entries t)"
    and "mode \<noteq> OrganiseSymlinkOnly" and "tree_ok (w_fs w)"
    and "(tj, f) \<in> set (crash_points None (w_hist w1))"
    and "quiet (og_env og')" and "live_rename (e_ren (og_env og'))" and "journal_works (og_env og')"
    and "never_cancelled (og_env og')" and "live_dir_removal (og_rmdir og')"
    and "\<And>n p. \<not> og_look_fails og' n p"
    and "journal_file_name (tx_transaction_id t) \<noteq> None" and "no_nul_paths (tx_entries t)"
  shows "\<exists>out t' w'. rollback_organisation_transaction og' tj r (restart f disk n) = (Inr out, t', w') \<and>
    ro_result (or_rollback out) = FullyRolledBack \<and> or_directories_remaining out = [] \<and>
    (w_fs w' = w_fs w \<or>
      (\<exists>d q nd. is_platform_directory_candidate d r \<and> locate (w_fs w) d = Some q \<and>
        fmlookup (w_fs w) q = None \<and> n_kind nd = DirNode \<and> w_fs w' = fmupd q nd (w_fs w)))"
proof -
  have "recoverable r (w_fs w) t tj f"
    using organisation_recoverable [OF assms(1-10)] assms(11) by (auto simp: always_recoverable_def)
  from recoverable_restores [OF this assms(10,12-19)]
  obtain out t' w' y where "rollback_organisation_transaction og' tj r (restart f disk n) = (Inr out, t', w')"
      "ro_result (or_rollback out) = FullyRolledBack" "or_directories_remaining out = []"
      "grown r (w_fs w) (set_option y) (w_fs w')"
    by blast
  with grown_at_most_one [of r "w_fs w" y "w_fs w'"] show ?thesis by blast
qed

end
