(* ===== verification/OrgPlan.thy ===== *)
theory OrgPlan
  imports OrgModel PlatformIdentity RenameDerive
begin

text \<open>
  Building an organisation plan: \<open>dat/rom_organisation/plan.rs\<close>, and checking it again before
  it is applied, \<open>revalidate_organisation_plan\<close> of \<open>transaction.rs\<close>. Planning reads the file
  system, which is an argument, and writes nothing; the registry of platforms and the slug of
  a platform are arguments.
\<close>

record organisation_candidate =
  oc_source_path :: path
  oc_resolution :: platform_resolution
  oc_canonical_name :: "string option"
  oc_content_classification :: "dat_content_classification option"
  oc_original_metadata :: dat_original_metadata

record organisation_request =
  rq_master_root :: path
  rq_mode :: organisation_mode
  rq_content_policy :: content_selection_policy
  rq_candidates :: "organisation_candidate list"
  rq_slug_for_platform :: "string \<Rightarrow> string option"
  rq_generation :: nat

section \<open>One entry\<close>

definition refused_entry ::
    "organisation_request \<Rightarrow> organisation_candidate \<Rightarrow> organisation_status \<Rightarrow> string \<Rightarrow>
     string option \<Rightarrow> string \<Rightarrow> string \<Rightarrow> organisation_entry" where
  "refused_entry rq c status reason platform display src =
     \<lparr> oe_source_path = oc_source_path c, oe_destination_path = None, oe_platform = platform,
       oe_platform_display_name = display, oe_platform_source = src, oe_slug = None,
       oe_mode = rq_mode rq, oe_content_classification = oc_content_classification c,
       oe_original_metadata = oc_original_metadata c, oe_status = status,
       oe_reason = Some reason \<rparr>"

definition blocked_entry ::
    "organisation_request \<Rightarrow> organisation_candidate \<Rightarrow> string \<Rightarrow> organisation_entry" where
  "blocked_entry rq c reason = refused_entry rq c OsBlocked reason None [] []"

text \<open>The gates in the source's order: each gives the reason for a block.\<close>

definition content_refusal ::
    "organisation_request \<Rightarrow> organisation_candidate \<Rightarrow> string option" where
  "content_refusal rq c =
     (if rq_content_policy rq = GamesOnly
      then (case eligibility (rq_content_policy rq)
              (case oc_content_classification c of None \<Rightarrow> unknown_classification | Some cc \<Rightarrow> cc) of
              Selected \<Rightarrow> None
            | ExcludedNonGame \<Rightarrow>
                Some ''Games only does not select content confidently classified as non-game''
            | NeedsReview \<Rightarrow>
                Some (''this entry'' @ [quote] @
                  ''s content classification is Unknown; Games only never organises it automatically''))
      else None)"

definition object_refusal :: "organisation_mode \<Rightarrow> object_kind option \<Rightarrow> string option" where
  "object_refusal mode object_kind =
     (case object_kind of
        None \<Rightarrow> Some ''the source file does not exist''
      | Some kind \<Rightarrow>
          (case mode of
             MoveRealFile \<Rightarrow>
               if kind \<noteq> RegularFile
               then Some (if kind = Symlink \<or> kind = BrokenSymlink
                          then ''the source is a symlink; use '' @ [quote] @ ''Organise symlink only'' @ [quote] @
                               '' to move the link object without touching its target''
                          else ''this mode organises regular files only'')
               else None
           | OrganiseSymlinkOnly \<Rightarrow>
               if kind \<noteq> Symlink \<and> kind \<noteq> BrokenSymlink
               then Some ''this mode organises symlinks only; the source is not a symlink''
               else None
           | RenameInPlace \<Rightarrow>
               if kind = OtherObject then Some ''the source is not a supported file object'' else None))"

text \<open>\<open>max\<close> of the labels of the evidence.\<close>

fun max_label :: "string list \<Rightarrow> string option" where
  "max_label [] = None"
| "max_label (s # ss) =
     (case max_label ss of
        None \<Rightarrow> Some s
      | Some m \<Rightarrow> Some (if cmp_string s m = Greater then s else m))"

definition platform_source_label :: "platform_evidence list \<Rightarrow> string" where
  "platform_source_label ev =
     (case max_label (map (\<lambda>e. identity_source_label (pe_source e)) ev) of
        None \<Rightarrow> ''Inference'' | Some l \<Rightarrow> l)"

text \<open>A resolution that names a platform of the registry: its id, display name and source.\<close>

definition platform_gate ::
    "registry \<Rightarrow> platform_resolution \<Rightarrow> string + (string \<times> string \<times> string)" where
  "platform_gate reg res =
     (case res of
        UnknownPlatform g \<Rightarrow> Inl ''no platform identity could be resolved for this game''
      | ConflictingPlatform g ev \<Rightarrow>
          Inl ''the platform identity is in conflict (sources disagree); resolve it before organising''
      | ResolvedPlatform g platform display conf ev \<Rightarrow>
          (case platform_by_id reg platform of
             None \<Rightarrow> Inl ''the resolved platform is not in the canonical registry''
           | Some p \<Rightarrow> Inr (pl_id p, display, platform_source_label ev)))"

datatype slug_gate = NoSlugNeeded | SlugMissing | SlugUnsafe | SlugIs string

definition gate_slug :: "organisation_request \<Rightarrow> string \<Rightarrow> slug_gate" where
  "gate_slug rq platform =
     (if rq_mode rq = RenameInPlace then NoSlugNeeded
      else (case rq_slug_for_platform rq platform of
              None \<Rightarrow> SlugMissing
            | Some slug \<Rightarrow> if is_safe_basename slug then SlugIs slug else SlugUnsafe))"

definition organised_destination ::
    "organisation_request \<Rightarrow> path \<Rightarrow> string option \<Rightarrow> string \<Rightarrow> path option" where
  "organised_destination rq source slug proposed =
     (case rq_mode rq of
        RenameInPlace \<Rightarrow>
          (case path_parent source of
             None \<Rightarrow> Some source | Some parent \<Rightarrow> Some (path_join parent proposed))
      | _ \<Rightarrow>
          (case slug of
             None \<Rightarrow> None
           | Some s \<Rightarrow> Some (path_join (path_join (rq_master_root rq) s) proposed)))"

definition already_organised ::
    "organisation_request \<Rightarrow> path \<Rightarrow> string \<Rightarrow> string option \<Rightarrow> path \<Rightarrow> bool" where
  "already_organised rq source source_basename slug destination \<longleftrightarrow>
     (if source = destination then True
      else if rq_mode rq \<noteq> RenameInPlace \<and> path_file_name destination = Some source_basename
      then (case slug of
              None \<Rightarrow> False
            | Some s \<Rightarrow> path_parent source = Some (path_join (rq_master_root rq) s))
      else False)"

definition named_entry ::
    "organisation_request \<Rightarrow> organisation_candidate \<Rightarrow> string \<Rightarrow> string \<times> string \<times> string \<Rightarrow>
     string option \<Rightarrow> string \<Rightarrow> organisation_entry" where
  "named_entry rq c source_basename who slug proposed =
     (case who of (platform, display, src) \<Rightarrow>
        if \<not> is_safe_basename proposed
        then blocked_entry rq c ''the canonical filename is not a safe single path component''
        else (case organised_destination rq (oc_source_path c) slug proposed of
                None \<Rightarrow> blocked_entry rq c ''no canonical platform slug is available for this move''
              | Some destination \<Rightarrow>
                  \<lparr> oe_source_path = oc_source_path c, oe_destination_path = Some destination,
                    oe_platform = Some platform, oe_platform_display_name = display,
                    oe_platform_source = src, oe_slug = slug, oe_mode = rq_mode rq,
                    oe_content_classification = oc_content_classification c,
                    oe_original_metadata = oc_original_metadata c,
                    oe_status =
                      (if already_organised rq (oc_source_path c) source_basename slug destination
                       then OsAlreadyOrganised else OsSuggested),
                    oe_reason = None \<rparr>))"

definition slugged_entry ::
    "organisation_request \<Rightarrow> organisation_candidate \<Rightarrow> string \<Rightarrow> string \<times> string \<times> string \<Rightarrow>
     string option \<Rightarrow> organisation_entry" where
  "slugged_entry rq c source_basename who slug =
     (let rom_name = (case oc_canonical_name c of None \<Rightarrow> source_basename | Some name \<Rightarrow> name) in
      case derive_proposed_basename rom_name source_basename of
        DeriveBlocked reason \<Rightarrow> blocked_entry rq c reason
      | DeriveUnsupported reason \<Rightarrow>
          (case who of (platform, display, src) \<Rightarrow>
             refused_entry rq c OsUnsupported reason (Some platform) display src)
      | DeriveOk derived \<Rightarrow> named_entry rq c source_basename who slug (dn_proposed_basename derived))"

definition plan_entry ::
    "fs \<Rightarrow> registry \<Rightarrow> organisation_request \<Rightarrow> organisation_candidate \<Rightarrow> organisation_entry" where
  "plan_entry f reg rq c =
     (let source_basename = (case path_file_name (oc_source_path c) of None \<Rightarrow> [] | Some name \<Rightarrow> name) in
      case content_refusal rq c of
        Some reason \<Rightarrow> blocked_entry rq c reason
      | None \<Rightarrow>
          (case object_refusal (rq_mode rq)
                  (map_option id_kind (capture_identity f (oc_source_path c))) of
             Some reason \<Rightarrow> blocked_entry rq c reason
           | None \<Rightarrow>
               (case platform_gate reg (oc_resolution c) of
                  Inl reason \<Rightarrow> blocked_entry rq c reason
                | Inr (platform, display, src) \<Rightarrow>
                    (case gate_slug rq platform of
                       NoSlugNeeded \<Rightarrow> slugged_entry rq c source_basename (platform, display, src) None
                     | SlugMissing \<Rightarrow>
                         refused_entry rq c OsUnsupported
                           (''no canonical RomM slug mapping exists for this platform; '' @
                            ''add an identity cache import to define it'')
                           (Some platform) display src
                     | SlugUnsafe \<Rightarrow>
                         blocked_entry rq c ''the platform slug is not a safe single path component''
                     | SlugIs slug \<Rightarrow>
                         slugged_entry rq c source_basename (platform, display, src) (Some slug)))))"

section \<open>Collisions\<close>

definition mark_organisation_conflict :: "string \<Rightarrow> organisation_entry \<Rightarrow> organisation_entry" where
  "mark_organisation_conflict reason e =
     (if oe_status e = OsConflict then e
      else e\<lparr>oe_status := OsConflict, oe_reason := Some reason\<rparr>)"

definition mark_at ::
    "string \<Rightarrow> nat \<Rightarrow> organisation_entry list \<Rightarrow> organisation_entry list" where
  "mark_at reason i es = es[i := mark_organisation_conflict reason (es ! i)]"

definition mark_both ::
    "string \<Rightarrow> nat \<Rightarrow> nat \<Rightarrow> organisation_entry list \<Rightarrow> organisation_entry list" where
  "mark_both reason i j es = mark_at reason j (mark_at reason i es)"

definition takes_part :: "organisation_entry \<Rightarrow> bool" where
  "takes_part e \<longleftrightarrow>
     oe_destination_path e \<noteq> None \<and> (oe_status e = OsSuggested \<or> oe_status e = OsAlreadyOrganised)"

text \<open>
  The inner loop over the entries on the right: the destination on the left is read once,
  the status on the right when its turn comes.
\<close>

fun collide_right ::
    "path \<Rightarrow> nat \<Rightarrow> nat list \<Rightarrow> organisation_entry list \<Rightarrow> organisation_entry list" where
  "collide_right left i [] es = es"
| "collide_right left i (j # js) es =
     collide_right left i js
       (if \<not> takes_part (es ! j) then es
        else (case oe_destination_path (es ! j) of
                None \<Rightarrow> es
              | Some right \<Rightarrow>
                  if left = right then mark_both ''two plans target the same destination'' i j es
                  else if eq_ignore_ascii_case (path_text left) (path_text right)
                  then mark_both ''two plans differ only by case'' i j es
                  else es))"

fun collide_left :: "nat list \<Rightarrow> organisation_entry list \<Rightarrow> organisation_entry list" where
  "collide_left [] es = es"
| "collide_left (i # is) es =
     collide_left is
       (if \<not> takes_part (es ! i) then es
        else (case oe_destination_path (es ! i) of
                None \<Rightarrow> es
              | Some left \<Rightarrow> collide_right left i [Suc i..<length es] es))"

text \<open>The live destination: occupied, or beside a name that differs only by case.\<close>

definition collide_live :: "fs \<Rightarrow> organisation_entry \<Rightarrow> organisation_entry" where
  "collide_live f e =
     (case oe_destination_path e of
        None \<Rightarrow> e
      | Some destination \<Rightarrow>
          if oe_status e = OsAlreadyOrganised then e
          else if symlink_metadata f destination \<noteq> None
          then mark_organisation_conflict ''the destination already exists; nothing is overwritten'' e
          else (case (path_parent destination, path_file_name destination) of
                  (Some parent, Some file_name) \<Rightarrow>
                    (case read_dir f parent of
                       None \<Rightarrow> e
                     | Some names \<Rightarrow>
                         if fBex names (\<lambda>name. eq_ignore_ascii_case name file_name \<and> name \<noteq> file_name)
                         then mark_organisation_conflict
                                ''a file differing from the destination only by case exists'' e
                         else e)
                | _ \<Rightarrow> e))"

definition detect_organisation_collisions ::
    "fs \<Rightarrow> organisation_entry list \<Rightarrow> organisation_entry list" where
  "detect_organisation_collisions f es = map (collide_live f) (collide_left [0..<length es] es)"

section \<open>The plan\<close>

primrec status_rank :: "organisation_status \<Rightarrow> nat" where
  "status_rank OsSuggested = 0"
| "status_rank OsAlreadyOrganised = 1"
| "status_rank OsConflict = 2"
| "status_rank OsBlocked = 3"
| "status_rank OsUnsupported = 4"

text \<open>The empty path of an entry without a destination comes before every absolute path.\<close>

definition organisation_order :: "organisation_entry \<Rightarrow> organisation_entry \<Rightarrow> cmp_ordering" where
  "organisation_order a b =
     then_with (cmp_nat (status_rank (oe_status a)) (status_rank (oe_status b)))
       (then_with (cmp_path (oe_source_path a) (oe_source_path b))
          (cmp_option cmp_path (oe_destination_path a) (oe_destination_path b)))"

definition build_organisation_plan ::
    "fs \<Rightarrow> registry \<Rightarrow> organisation_request \<Rightarrow> organisation_plan" where
  "build_organisation_plan f reg rq =
     \<lparr> op_master_root = rq_master_root rq, op_mode = rq_mode rq,
       op_content_policy = rq_content_policy rq, op_classifier_version = classifier_version,
       op_generation = rq_generation rq,
       op_entries =
         sort_by organisation_order
           (detect_organisation_collisions f (map (plan_entry f reg rq) (rq_candidates rq))) \<rparr>"

section \<open>Checking a plan again\<close>

text \<open>
  The database is a parameter: opening it may fail, and a failed query gives nothing. The
  canonical name of a source is looked up again.
\<close>

record identity_database =
  db_archive_of :: "path \<Rightarrow> nat option"
  db_evidence :: "nat \<Rightarrow> nat \<Rightarrow> platform_evidence list"

definition live_resolution_for ::
    "registry \<Rightarrow> identity_database \<Rightarrow> path \<Rightarrow> nat \<Rightarrow> platform_resolution" where
  "live_resolution_for reg db source generation =
     (case db_archive_of db source of
        Some archive_id \<Rightarrow> resolve_platform_identity reg generation (db_evidence db archive_id generation)
      | None \<Rightarrow> UnknownPlatform generation)"

definition replanned_entry ::
    "fs \<Rightarrow> registry \<Rightarrow> identity_database \<Rightarrow> (path \<Rightarrow> string option) \<Rightarrow> (string \<Rightarrow> string option) \<Rightarrow>
     organisation_plan \<Rightarrow> organisation_entry \<Rightarrow> organisation_entry" where
  "replanned_entry f reg db name_for slug_for plan e =
     hd (op_entries (build_organisation_plan f reg
       \<lparr> rq_master_root = op_master_root plan, rq_mode = op_mode plan,
         rq_content_policy = op_content_policy plan,
         rq_candidates =
           [\<lparr> oc_source_path = oe_source_path e,
              oc_resolution = live_resolution_for reg db (oe_source_path e) (op_generation plan),
              oc_canonical_name = name_for (oe_source_path e),
              oc_content_classification = oe_content_classification e,
              oc_original_metadata = oe_original_metadata e \<rparr>],
         rq_slug_for_platform = slug_for, rq_generation = op_generation plan \<rparr>))"

definition still_valid ::
    "fs \<Rightarrow> registry \<Rightarrow> identity_database \<Rightarrow> (path \<Rightarrow> string option) \<Rightarrow> (string \<Rightarrow> string option) \<Rightarrow>
     organisation_plan \<Rightarrow> organisation_entry \<Rightarrow> bool" where
  "still_valid f reg db name_for slug_for plan e \<longleftrightarrow>
     (let re_entry = replanned_entry f reg db name_for slug_for plan e in
      oe_status re_entry = OsSuggested \<and>
      oe_destination_path re_entry = oe_destination_path e \<and>
      oe_platform re_entry = oe_platform e \<and> oe_slug re_entry = oe_slug e)"

fun revalidate_entries ::
    "(organisation_entry \<Rightarrow> bool) \<Rightarrow> organisation_entry list \<Rightarrow> string + unit" where
  "revalidate_entries ok [] = Inr ()"
| "revalidate_entries ok (e # es) =
     (if \<not> ok e
      then Inl (''the platform identity for '' @ path_text (oe_source_path e) @
                '' changed since the plan was generated; regenerate the plan'')
      else revalidate_entries ok es)"

definition revalidate_organisation_plan ::
    "fs \<Rightarrow> registry \<Rightarrow> string + identity_database \<Rightarrow> (path \<Rightarrow> string option) \<Rightarrow>
     (string \<Rightarrow> string option) \<Rightarrow> organisation_plan \<Rightarrow> string + unit" where
  "revalidate_organisation_plan f reg opened name_for slug_for plan =
     (case opened of
        Inl err \<Rightarrow> Inl (''could not open the platform identity database: '' @ err)
      | Inr db \<Rightarrow>
          revalidate_entries (still_valid f reg db name_for slug_for plan) (suggested plan))"

end
