(* ===== verification/OrgPlanProofs.thy ===== *)
theory OrgPlanProofs
  imports OrgPlan
begin

text \<open>
  What an organisation plan guarantees: every suggestion rests on a resolved platform of the
  registry and on the canonical slug, keeps to one platform directory below the master root,
  targets a free name, and no two suggestions target names that a file system without case
  could confuse.
\<close>

section \<open>One entry\<close>

lemma safe_basename_join: "is_safe_basename s \<Longrightarrow> path_join p s = p @ [s]"
  by (rule path_join_single) (simp_all add: is_safe_basename_def)

lemma safe_basename_file_name: "is_safe_basename s \<Longrightarrow> path_file_name (p @ [s]) = Some s"
  by (simp add: path_file_name_def is_safe_basename_def)

definition kind_allowed :: "organisation_mode \<Rightarrow> object_kind \<Rightarrow> bool" where
  "kind_allowed mode kind \<longleftrightarrow>
     (case mode of
        MoveRealFile \<Rightarrow> kind = RegularFile
      | OrganiseSymlinkOnly \<Rightarrow> kind = Symlink \<or> kind = BrokenSymlink
      | RenameInPlace \<Rightarrow> kind \<noteq> OtherObject)"

lemma object_refusal_None:
  "object_refusal mode k = None \<longleftrightarrow> (\<exists>kind. k = Some kind \<and> kind_allowed mode kind)"
  by (auto simp: object_refusal_def kind_allowed_def split: option.splits organisation_mode.splits)

text \<open>
  Where an entry with a destination puts its file: under a safe name, in its own directory
  when it is renamed in place, and otherwise in the directory of the platform's slug.
\<close>

definition placed :: "organisation_request \<Rightarrow> organisation_entry \<Rightarrow> path \<Rightarrow> bool" where
  "placed rq e d \<longleftrightarrow>
     (if rq_mode rq = RenameInPlace
      then oe_slug e = None \<and>
        (d = oe_source_path e \<or>
         oe_source_path e \<noteq> [] \<and> is_safe_basename (last d) \<and> d = butlast (oe_source_path e) @ [last d])
      else (\<exists>platform slug. oe_platform e = Some platform \<and> oe_slug e = Some slug \<and>
        rq_slug_for_platform rq platform = Some slug \<and> is_safe_basename slug \<and>
        is_safe_basename (last d) \<and> d = rq_master_root rq @ [slug, last d]))"

text \<open>What an entry with a destination rests on.\<close>

definition grounded ::
    "fs \<Rightarrow> registry \<Rightarrow> organisation_request \<Rightarrow> organisation_candidate \<Rightarrow> organisation_entry \<Rightarrow> bool" where
  "grounded f reg rq c e \<longleftrightarrow>
     oe_source_path e = oc_source_path c \<and> oe_mode e = rq_mode rq \<and>
     (\<exists>platform p. oe_platform e = Some platform \<and>
        resolution_platform (oc_resolution c) = Some platform \<and> p \<in> set reg \<and> pl_id p = platform) \<and>
     (\<exists>ident. capture_identity f (oc_source_path c) = Some ident \<and>
        kind_allowed (rq_mode rq) (id_kind ident)) \<and>
     (rq_content_policy rq = GamesOnly \<longrightarrow>
        (\<exists>cc. oc_content_classification c = Some cc \<and> eligibility GamesOnly cc = Selected))"

lemma unknown_not_selected: "eligibility GamesOnly unknown_classification \<noteq> Selected"
  by (simp add: eligibility_def unknown_classification_def)

lemma content_refusal_None:
  "content_refusal rq c = None \<longleftrightarrow>
     (rq_content_policy rq = GamesOnly \<longrightarrow>
        (\<exists>cc. oc_content_classification c = Some cc \<and> eligibility GamesOnly cc = Selected))"
  using unknown_not_selected
  by (auto simp: content_refusal_def split: option.splits content_eligibility.splits)

lemma platform_gate_Inr:
  "platform_gate reg res = Inr (platform, display, src) \<Longrightarrow>
   resolution_platform res = Some platform \<and> (\<exists>p \<in> set reg. pl_id p = platform)"
  using platform_by_id_Some
  by (fastforce simp: platform_gate_def split: platform_resolution.splits option.splits)

text \<open>The statuses a plan gives before the collisions.\<close>

lemma refused_fields [simp]:
  "oe_destination_path (refused_entry rq c s r p d v) = None"
  "oe_status (refused_entry rq c s r p d v) = s"
  "oe_destination_path (blocked_entry rq c r) = None"
  "oe_status (blocked_entry rq c r) = OsBlocked"
  by (simp_all add: refused_entry_def blocked_entry_def)

definition ready :: "organisation_entry \<Rightarrow> bool" where
  "ready e \<longleftrightarrow> oe_status e = OsSuggested \<or> oe_status e = OsAlreadyOrganised"

lemma ready_simps [simp]:
  "\<not> ready (blocked_entry rq c r)"
  "ready (refused_entry rq c s r p d v) \<longleftrightarrow> s = OsSuggested \<or> s = OsAlreadyOrganised"
  by (auto simp: ready_def)

lemma named_entry_ready:
  assumes "ready (named_entry rq c base (platform, display, src) slug proposed)"
    and "e = named_entry rq c base (platform, display, src) slug proposed"
    and "rq_mode rq = RenameInPlace \<longleftrightarrow> slug = None"
    and "\<And>s. slug = Some s \<Longrightarrow> is_safe_basename s \<and> rq_slug_for_platform rq platform = Some s"
  shows "\<exists>d. oe_destination_path e = Some d \<and> placed rq e d \<and>
      (oe_status e = OsSuggested \<longrightarrow> d \<noteq> oe_source_path e)" (is ?dest)
    and "oe_source_path e = oc_source_path c" "oe_mode e = rq_mode rq" "oe_platform e = Some platform"
proof -
  have safe: "is_safe_basename proposed"
    using assms(1) by (auto simp: named_entry_def split: if_splits)
  obtain d where d: "organised_destination rq (oc_source_path c) slug proposed = Some d"
    using assms(1) by (auto simp: named_entry_def split: if_splits option.splits)
  have e: "oe_destination_path e = Some d" "oe_slug e = slug" "oe_platform e = Some platform"
      "oe_source_path e = oc_source_path c" "oe_mode e = rq_mode rq"
      "oe_status e = OsSuggested \<longrightarrow> d \<noteq> oc_source_path c"
    using assms(2) safe d by (auto simp: named_entry_def already_organised_def)
  have "placed rq e d"
  proof (cases "rq_mode rq = RenameInPlace")
    case True
    then show ?thesis
      using d e safe assms(3)
      by (auto simp: placed_def organised_destination_def path_parent_def safe_basename_join
          split: option.splits if_splits)
  next
    case False
    then obtain s where s: "slug = Some s" using assms(3) by (cases slug) auto
    then have "d = path_join (path_join (rq_master_root rq) s) proposed"
      using d False by (auto simp: organised_destination_def split: organisation_mode.splits)
    with s assms(4) [OF s] safe e False show ?thesis
      by (simp add: placed_def safe_basename_join)
  qed
  with e show ?dest "oe_source_path e = oc_source_path c" "oe_mode e = rq_mode rq"
      "oe_platform e = Some platform" by simp_all
qed

lemma plan_entry_ready:
  assumes "ready (plan_entry f reg rq c)" and "e = plan_entry f reg rq c"
  shows "grounded f reg rq c e" and "\<exists>d. oe_destination_path e = Some d \<and> placed rq e d \<and>
      (oe_status e = OsSuggested \<longrightarrow> d \<noteq> oe_source_path e)"
proof -
  let ?base = "case path_file_name (oc_source_path c) of None \<Rightarrow> [] | Some name \<Rightarrow> name"
  have content: "content_refusal rq c = None"
    using assms(1) by (auto simp: plan_entry_def Let_def split: option.splits)
  have object: "object_refusal (rq_mode rq) (map_option id_kind (capture_identity f (oc_source_path c))) = None"
    using assms(1) content by (cases "object_refusal (rq_mode rq) (map_option id_kind (capture_identity f (oc_source_path c)))")
      (auto simp: plan_entry_def Let_def)
  obtain platform display src where gate:
      "platform_gate reg (oc_resolution c) = Inr (platform, display, src)"
    using assms(1) content object
    by (cases "platform_gate reg (oc_resolution c)") (auto simp: plan_entry_def Let_def)
  obtain slug where slug: "plan_entry f reg rq c = slugged_entry rq c ?base (platform, display, src) slug"
      "rq_mode rq = RenameInPlace \<longleftrightarrow> slug = None"
      "\<And>s. slug = Some s \<Longrightarrow> is_safe_basename s \<and> rq_slug_for_platform rq platform = Some s"
    using assms(1) content object gate
    by (cases "gate_slug rq platform")
      (auto simp: plan_entry_def Let_def gate_slug_def split: if_splits option.splits
        intro: that [of None] that [of "Some s" for s])
  obtain proposed where e: "e = named_entry rq c ?base (platform, display, src) slug proposed"
    using assms slug(1) by (auto simp: slugged_entry_def Let_def split: derive_outcome.splits)
  have "ready (named_entry rq c ?base (platform, display, src) slug proposed)" using assms e by simp
  note named = named_entry_ready [OF this e slug(2,3)]
  show "grounded f reg rq c e"
    using named(2-4) content object platform_gate_Inr [OF gate]
    by (auto simp: grounded_def content_refusal_None object_refusal_None)
  show "\<exists>d. oe_destination_path e = Some d \<and> placed rq e d \<and>
      (oe_status e = OsSuggested \<longrightarrow> d \<noteq> oe_source_path e)"
    using named(1) .
qed

section \<open>Collisions\<close>

text \<open>The collision passes only ever turn an entry into a conflict.\<close>

definition demoted :: "organisation_entry \<Rightarrow> organisation_entry \<Rightarrow> bool" where
  "demoted e e' \<longleftrightarrow>
     e' = e \<or> (\<exists>reason. e' = e\<lparr>oe_status := OsConflict, oe_reason := Some reason\<rparr>)"

lemma demoted_refl [simp]: "demoted e e"
  by (simp add: demoted_def)

lemma demoted_trans: "demoted a b \<Longrightarrow> demoted b c \<Longrightarrow> demoted a c"
  by (auto simp: demoted_def)

lemma demoted_mark [simp]: "demoted e (mark_organisation_conflict reason e)"
  by (auto simp: demoted_def mark_organisation_conflict_def)

lemma demoted_ready: "demoted e e' \<Longrightarrow> ready e' \<Longrightarrow> e' = e"
  by (auto simp: demoted_def ready_def)

lemma demoted_destination: "demoted e e' \<Longrightarrow> oe_destination_path e' = oe_destination_path e"
  by (auto simp: demoted_def)

lemma mark_not_ready [simp]: "\<not> ready (mark_organisation_conflict reason e)"
  by (simp add: mark_organisation_conflict_def ready_def)

lemma demoted_live: "demoted e (collide_live f e)"
  by (auto simp: collide_live_def split: option.splits)

definition demoted_all :: "organisation_entry list \<Rightarrow> organisation_entry list \<Rightarrow> bool" where
  "demoted_all es es' \<longleftrightarrow>
     length es' = length es \<and> (\<forall>k < length es. demoted (es ! k) (es' ! k))"

lemma demoted_all_refl [simp]: "demoted_all es es"
  by (simp add: demoted_all_def)

lemma demoted_all_trans: "demoted_all a b \<Longrightarrow> demoted_all b c \<Longrightarrow> demoted_all a c"
  using demoted_trans by (fastforce simp: demoted_all_def)

lemma mark_at_demotes: "demoted_all es (mark_at reason i es)"
  by (cases "i < length es") (auto simp: demoted_all_def mark_at_def nth_list_update)

lemma mark_both_demotes: "demoted_all es (mark_both reason i j es)"
  unfolding mark_both_def using mark_at_demotes demoted_all_trans by blast

lemma demoted_not_ready: "demoted_all es es' \<Longrightarrow> k < length es \<Longrightarrow> \<not> ready (es ! k) \<Longrightarrow> \<not> ready (es' ! k)"
  using demoted_ready by (fastforce simp: demoted_all_def)

lemma mark_both_conflicts:
  assumes "i < length es" and "j < length es"
  shows "\<not> ready (mark_both reason i j es ! i)" and "\<not> ready (mark_both reason i j es ! j)"
proof -
  have i: "\<not> ready (mark_at reason i es ! i)" using assms(1) by (simp add: mark_at_def)
  show "\<not> ready (mark_both reason i j es ! i)"
    unfolding mark_both_def
    by (rule demoted_not_ready [OF mark_at_demotes _ i]) (use assms(1) in \<open>simp add: mark_at_def\<close>)
  show "\<not> ready (mark_both reason i j es ! j)"
    using assms(2) by (simp add: mark_both_def mark_at_def [of _ j])
      (simp add: mark_at_def nth_list_update)
qed

text \<open>Two destinations that a file system without case could confuse.\<close>

definition confusable :: "path \<Rightarrow> path \<Rightarrow> bool" where
  "confusable p q \<longleftrightarrow> eq_ignore_ascii_case (path_text p) (path_text q)"

lemma confusable_refl [simp]: "confusable p p"
  by (simp add: confusable_def eq_ignore_ascii_case_def)

lemma confusable_sym: "confusable p q \<longleftrightarrow> confusable q p"
  by (auto simp: confusable_def eq_ignore_ascii_case_def)

definition clear_of :: "organisation_entry \<Rightarrow> organisation_entry \<Rightarrow> bool" where
  "clear_of a b \<longleftrightarrow>
     (\<forall>p q. ready a \<longrightarrow> ready b \<longrightarrow> oe_destination_path a = Some p \<longrightarrow>
        oe_destination_path b = Some q \<longrightarrow> \<not> confusable p q)"

lemma symp_clear_of: "symp clear_of"
  using confusable_sym by (fastforce simp: symp_def clear_of_def)

lemma takes_part_ready: "takes_part e \<longleftrightarrow> oe_destination_path e \<noteq> None \<and> ready e"
  by (simp add: takes_part_def ready_def)

lemma clear_of_demoted:
  "clear_of a b \<Longrightarrow> demoted a a' \<Longrightarrow> demoted b b' \<Longrightarrow> clear_of a' b'"
  by (metis clear_of_def demoted_ready)

text \<open>One step of the inner loop, and the loop.\<close>

definition collide_pair ::
    "path \<Rightarrow> nat \<Rightarrow> nat \<Rightarrow> organisation_entry list \<Rightarrow> organisation_entry list" where
  "collide_pair left i j es =
     (if \<not> takes_part (es ! j) then es
      else (case oe_destination_path (es ! j) of
              None \<Rightarrow> es
            | Some right \<Rightarrow>
                if left = right then mark_both ''two plans target the same destination'' i j es
                else if eq_ignore_ascii_case (path_text left) (path_text right)
                then mark_both ''two plans differ only by case'' i j es
                else es))"

lemma collide_right_pair:
  "collide_right left i (j # js) es = collide_right left i js (collide_pair left i j es)"
  by (simp add: collide_pair_def)

lemma collide_pair_demotes: "demoted_all es (collide_pair left i j es)"
  by (auto simp: collide_pair_def mark_both_demotes split: option.splits)

lemma collide_pair_clear:
  assumes "i < length es" and "j < length es" and "oe_destination_path (es ! i) = Some left"
  shows "clear_of (collide_pair left i j es ! i) (collide_pair left i j es ! j)"
proof (cases "takes_part (es ! j)")
  case False
  then show ?thesis by (auto simp: collide_pair_def clear_of_def takes_part_ready)
next
  case True
  then obtain right where r: "oe_destination_path (es ! j) = Some right"
    by (auto simp: takes_part_def)
  show ?thesis
  proof (cases "confusable left right")
    case True
    then have "\<exists>reason. collide_pair left i j es = mark_both reason i j es"
      using \<open>takes_part (es ! j)\<close> r by (auto simp: collide_pair_def confusable_def)
    then show ?thesis using mark_both_conflicts(1) [OF assms(1,2)] by (auto simp: clear_of_def)
  next
    case False
    then have "collide_pair left i j es = es"
      using r by (auto simp: collide_pair_def confusable_def eq_ignore_ascii_case_def)
    then show ?thesis using False r assms(3) by (auto simp: clear_of_def)
  qed
qed

lemma collide_right_demotes: "demoted_all es (collide_right left i js es)"
proof (induction js arbitrary: es)
  case (Cons j js)
  then show ?case
    unfolding collide_right_pair using collide_pair_demotes demoted_all_trans by blast
qed simp

lemma collide_right_clear:
  assumes "i < length es" and "oe_destination_path (es ! i) = Some left"
    and "\<forall>j \<in> set js. j < length es" and "j \<in> set js"
  shows "clear_of (collide_right left i js es ! i) (collide_right left i js es ! j)"
  using assms
proof (induction js arbitrary: es)
  case (Cons k js)
  let ?es = "collide_pair left i k es"
  have d: "demoted_all es ?es" by (rule collide_pair_demotes)
  have d': "demoted_all ?es (collide_right left i js ?es)" by (rule collide_right_demotes)
  have len: "length ?es = length es" using d by (simp add: demoted_all_def)
  have dest: "oe_destination_path (?es ! i) = Some left"
    using d demoted_destination Cons.prems(1,2) by (fastforce simp: demoted_all_def)
  show ?case
  proof (cases "j \<in> set js")
    case True
    then show ?thesis
      unfolding collide_right_pair using Cons.IH [of ?es] Cons.prems dest len by simp
  next
    case False
    then have jk: "j = k" using Cons.prems(4) by simp
    have "clear_of (?es ! i) (?es ! j)"
      using collide_pair_clear [OF Cons.prems(1) _ Cons.prems(2), of k] Cons.prems(3) jk by simp
    moreover have "demoted (?es ! i) (collide_right left i js ?es ! i)"
        "demoted (?es ! j) (collide_right left i js ?es ! j)"
      using d' Cons.prems(1,3,4) len by (auto simp: demoted_all_def)
    ultimately show ?thesis unfolding collide_right_pair by (rule clear_of_demoted)
  qed
qed simp

definition collide_from :: "nat \<Rightarrow> organisation_entry list \<Rightarrow> organisation_entry list" where
  "collide_from i es =
     (if \<not> takes_part (es ! i) then es
      else (case oe_destination_path (es ! i) of
              None \<Rightarrow> es
            | Some left \<Rightarrow> collide_right left i [Suc i..<length es] es))"

lemma collide_left_from: "collide_left (i # is) es = collide_left is (collide_from i es)"
  by (simp add: collide_from_def)

lemma collide_from_demotes: "demoted_all es (collide_from i es)"
  by (auto simp: collide_from_def collide_right_demotes split: option.splits)

lemma collide_from_clear:
  assumes "i < j" and "j < length es"
  shows "clear_of (collide_from i es ! i) (collide_from i es ! j)"
proof (cases "takes_part (es ! i)")
  case False
  then show ?thesis by (auto simp: collide_from_def clear_of_def takes_part_ready)
next
  case True
  then obtain left where l: "oe_destination_path (es ! i) = Some left" by (auto simp: takes_part_def)
  have "clear_of (collide_right left i [Suc i..<length es] es ! i)
      (collide_right left i [Suc i..<length es] es ! j)"
    by (rule collide_right_clear) (use assms l in auto)
  with True l show ?thesis by (simp add: collide_from_def)
qed

lemma collide_left_demotes: "demoted_all es (collide_left is es)"
proof (induction "is" arbitrary: es)
  case (Cons i "is")
  then show ?case
    unfolding collide_left_from using collide_from_demotes demoted_all_trans by blast
qed simp

lemma collide_left_clear:
  assumes "i \<in> set is" and "i < j" and "j < length es"
  shows "clear_of (collide_left is es ! i) (collide_left is es ! j)"
  using assms
proof (induction "is" arbitrary: es)
  case (Cons k "is")
  let ?es = "collide_from k es"
  have len: "length ?es = length es" using collide_from_demotes [of es k] by (simp add: demoted_all_def)
  have d: "demoted_all ?es (collide_left is ?es)" by (rule collide_left_demotes)
  show ?case
  proof (cases "i \<in> set is")
    case True
    then show ?thesis unfolding collide_left_from using Cons.IH [of ?es] Cons.prems len by simp
  next
    case False
    then have "clear_of (?es ! i) (?es ! j)" using collide_from_clear [of k j es] Cons.prems by auto
    moreover have "demoted (?es ! i) (collide_left is ?es ! i)" "demoted (?es ! j) (collide_left is ?es ! j)"
      using d Cons.prems(2,3) len by (auto simp: demoted_all_def)
    ultimately show ?thesis unfolding collide_left_from by (rule clear_of_demoted)
  qed
qed simp

lemma detect_demotes: "demoted_all es (detect_organisation_collisions f es)"
proof -
  have "demoted (es ! k) (collide_live f (collide_left [0..<length es] es ! k))" if "k < length es" for k
    using collide_left_demotes [of es "[0..<length es]"] demoted_live demoted_trans that
    by (fastforce simp: demoted_all_def)
  then show ?thesis
    using collide_left_demotes [of es "[0..<length es]"]
    by (simp add: demoted_all_def detect_organisation_collisions_def)
qed

lemma detect_clear: "sorted_wrt clear_of (detect_organisation_collisions f es)"
proof -
  let ?es = "collide_left [0..<length es] es"
  have len: "length ?es = length es"
    using collide_left_demotes [of es "[0..<length es]"] by (simp add: demoted_all_def)
  have "clear_of (map (collide_live f) ?es ! i) (map (collide_live f) ?es ! j)"
    if ij: "i < j" "j < length es" for i j
  proof -
    have "clear_of (?es ! i) (?es ! j)" by (rule collide_left_clear) (use ij in auto)
    from clear_of_demoted [OF this demoted_live demoted_live] show ?thesis using ij len by simp
  qed
  then show ?thesis using len by (auto simp: sorted_wrt_iff_nth_less detect_organisation_collisions_def)
qed

text \<open>A suggestion that survives the live check has a free destination.\<close>

definition free_destination :: "fs \<Rightarrow> path \<Rightarrow> bool" where
  "free_destination f d \<longleftrightarrow>
     absent f d \<and>
     (\<forall>parent name names other. path_parent d = Some parent \<longrightarrow> path_file_name d = Some name \<longrightarrow>
        read_dir f parent = Some names \<longrightarrow> other |\<in>| names \<longrightarrow>
        eq_ignore_ascii_case other name \<longrightarrow> other = name)"

lemma collide_live_suggested:
  assumes "oe_status (collide_live f e) = OsSuggested" and "oe_destination_path e = Some d"
  shows "free_destination f d"
proof -
  have e: "collide_live f e = e"
    using demoted_ready [OF demoted_live] assms(1) by (simp add: ready_def)
  then have s: "oe_status e \<noteq> OsAlreadyOrganised" "\<And>r. collide_live f e \<noteq> mark_organisation_conflict r e"
    using assms(1) mark_not_ready [of _ e] by (auto simp: ready_def) metis
  have a: "symlink_metadata f d = None"
  proof (rule ccontr)
    assume "symlink_metadata f d \<noteq> None"
    with s(1) assms(2) have "\<exists>r. collide_live f e = mark_organisation_conflict r e"
      by (auto simp: collide_live_def)
    with s(2) show False by blast
  qed
  have "other = name"
    if "path_parent d = Some parent" "path_file_name d = Some name" "read_dir f parent = Some names"
      "other |\<in>| names" "eq_ignore_ascii_case other name" for parent name names other
  proof (rule ccontr)
    assume "other \<noteq> name"
    then have "fBex names (\<lambda>name'. eq_ignore_ascii_case name' name \<and> name' \<noteq> name)" using that by blast
    with s a assms(2) that show False by (auto simp: collide_live_def)
  qed
  with a show ?thesis by (simp add: free_destination_def absent_def)
qed

section \<open>The plan\<close>

lemma plan_members:
  assumes "e \<in> set (op_entries (build_organisation_plan f reg rq))"
  obtains c e0 where "c \<in> set (rq_candidates rq)" "e0 = plan_entry f reg rq c" "demoted e0 e"
    "ready e \<longrightarrow> e = collide_live f e0 \<and> e = e0"
proof -
  let ?raw = "map (plan_entry f reg rq) (rq_candidates rq)"
  let ?es = "detect_organisation_collisions f ?raw"
  have "e \<in> set ?es" using assms by (simp add: build_organisation_plan_def)
  then obtain k where k: "k < length ?es" "e = ?es ! k" by (auto simp: in_set_conv_nth)
  have len: "length ?es = length ?raw" using detect_demotes [of ?raw f] by (simp add: demoted_all_def)
  let ?l = "collide_left [0..<length ?raw] ?raw"
  have d: "demoted (?raw ! k) (?l ! k)" "demoted (?raw ! k) e"
    using collide_left_demotes [of ?raw "[0..<length ?raw]"] detect_demotes [of ?raw f] k len
    by (simp_all add: demoted_all_def)
  have l: "?es = map (collide_live f) ?l" by (simp only: detect_organisation_collisions_def)
  with k(1) have "k < length ?l" by (metis length_map)
  with k(2) l have e: "e = collide_live f (?l ! k)" by (metis nth_map)
  have origin: "e = collide_live f (?raw ! k) \<and> e = ?raw ! k" if "ready e"
  proof -
    have e0: "e = ?raw ! k" by (rule demoted_ready [OF d(2) that])
    have "collide_live f (?l ! k) = ?l ! k"
      using demoted_ready [OF demoted_live] that e by metis
    with e e0 show ?thesis by metis
  qed
  have "?raw ! k = plan_entry f reg rq (rq_candidates rq ! k)" "rq_candidates rq ! k \<in> set (rq_candidates rq)"
    using k len by simp_all
  with that [of "rq_candidates rq ! k" "?raw ! k"] d(2) origin show thesis by metis
qed

text \<open>
  C8: Every suggestion of an organisation plan belongs to a candidate whose platform was
  resolved and is in the registry, whose object is of the kind the mode moves, and which the
  content policy selects; its destination differs from its source, is a free name with no
  sibling that differs only by case, and lies in the source's own directory when files are
  renamed in place, and otherwise directly in the directory of the platform's canonical slug
  below the master root, all under safe single names.
\<close>

theorem organisation_suggestions_grounded:
  assumes "e \<in> set (suggested (build_organisation_plan f reg rq))"
  shows "\<exists>c \<in> set (rq_candidates rq). \<exists>d. grounded f reg rq c e \<and>
    oe_destination_path e = Some d \<and> d \<noteq> oe_source_path e \<and> placed rq e d \<and> free_destination f d"
proof -
  have s: "oe_status e = OsSuggested" and mem: "e \<in> set (op_entries (build_organisation_plan f reg rq))"
    using assms by (auto simp: suggested_def)
  then have r: "ready e" by (simp add: ready_def)
  obtain c e0 where c: "c \<in> set (rq_candidates rq)" "e0 = plan_entry f reg rq c" "demoted e0 e"
      "ready e \<longrightarrow> e = collide_live f e0 \<and> e = e0"
    by (rule plan_members [OF mem])
  have e: "e = plan_entry f reg rq c" "e = collide_live f e" using c(2,4) r by metis+
  note rd = plan_entry_ready [OF r [unfolded e(1)] refl]
  obtain d where d: "oe_destination_path e = Some d" "placed rq e d" "d \<noteq> oe_source_path e"
    using rd(2) s e(1) by auto
  have "free_destination f d" by (rule collide_live_suggested [OF _ d(1)]) (use s e(2) in simp)
  with rd(1) e(1) c(1) d show ?thesis by auto
qed

text \<open>Two entries of a plan that are suggested or already organised never target confusable names.\<close>

lemma organisation_destinations_apart:
  assumes "i < j" and "j < length (op_entries (build_organisation_plan f reg rq))"
  shows "clear_of (op_entries (build_organisation_plan f reg rq) ! i)
    (op_entries (build_organisation_plan f reg rq) ! j)"
  using assms pairwise_sort_by [OF symp_clear_of detect_clear]
  by (simp add: build_organisation_plan_def sorted_wrt_iff_nth_less)

text \<open>
  A pure change of case is never suggested for a rename in place: the source itself is the
  sibling that differs only by case.
\<close>

lemma locate_in_directory:
  assumes "symlink_metadata f p = Some n" and "p \<noteq> []"
  shows "\<exists>names. read_dir f (butlast p) = Some names \<and> last p |\<in>| names"
proof -
  obtain d where d: "resolve_dir f (butlast p) = Some d" "fmlookup f (d @ [last p]) = Some n"
    using assms by (auto simp: symlink_metadata_def locate_def bind_eq_Some_conv)
  then have "d @ [last p] |\<in>| ffilter (\<lambda>q. q \<noteq> [] \<and> butlast q = d) (fmdom f)"
    by (auto intro: fmdomI)
  then have "last (d @ [last p]) |\<in>| last |`| ffilter (\<lambda>q. q \<noteq> [] \<and> butlast q = d) (fmdom f)"
    by (rule fimageI)
  with d show ?thesis by (simp add: read_dir_def)
qed

lemma case_change_never_suggested:
  assumes "e \<in> set (suggested (build_organisation_plan f reg rq))" and "rq_mode rq = RenameInPlace"
    and "oe_destination_path e = Some d"
  shows "\<not> eq_ignore_ascii_case (last (oe_source_path e)) (last d)"
proof
  assume eq: "eq_ignore_ascii_case (last (oe_source_path e)) (last d)"
  obtain c where c: "grounded f reg rq c e" "d \<noteq> oe_source_path e" "placed rq e d" "free_destination f d"
    using organisation_suggestions_grounded [OF assms(1)] assms(3) by auto
  have p: "oe_source_path e \<noteq> []" "is_safe_basename (last d)" "d = butlast (oe_source_path e) @ [last d]"
    using c(2,3) assms(2) by (auto simp: placed_def)
  obtain n where "symlink_metadata f (oe_source_path e) = Some n"
    using c(1) by (auto simp: grounded_def capture_identity_def split: option.splits)
  from locate_in_directory [OF this p(1)] obtain names where
      "read_dir f (butlast (oe_source_path e)) = Some names" "last (oe_source_path e) |\<in>| names" by blast
  moreover have "path_parent d = Some (butlast (oe_source_path e))"
    using p(3) by (metis butlast_snoc path_parent_def snoc_eq_iff_butlast)
  moreover have "path_file_name d = Some (last d)" using safe_basename_file_name [OF p(2)] p(3) by metis
  ultimately have "last (oe_source_path e) = last d" using c(4) eq by (auto simp: free_destination_def)
  with p(1,3) c(2) show False by (metis append_butlast_last_id)
qed

section \<open>From a plan to a transaction\<close>

text \<open>
  The transaction of a plan is ready for the pass: nothing is moved yet and no directory is
  recorded as the program's own.
\<close>

lemma organisation_transaction_ready:
  assumes "build_organisation_transaction f id_now sequence created_now plan approved generation = Inr t"
  shows "tx_created_directories t = []" and "tx_state t = TsPlanned"
    and "\<forall>e \<in> set (tx_entries t). te_state e = EsPlanned \<and> te_source_path e \<in> approved \<and>
      capture_identity f (te_source_path e) = Some (te_identity e) \<and>
      (\<exists>x \<in> set (suggested plan). oe_source_path x = te_source_path e \<and>
        oe_destination_path x = Some (te_destination_path e))"
proof -
  have t: "tx_entries t = List.map_filter (organisation_transaction_entry f approved) (suggested plan)"
      "tx_created_directories t = []" "tx_state t = TsPlanned"
    using assms by (auto simp: build_organisation_transaction_def Let_def split: sum.splits if_splits)
  then show "tx_created_directories t = []" "tx_state t = TsPlanned" by simp_all
  show "\<forall>e \<in> set (tx_entries t). te_state e = EsPlanned \<and> te_source_path e \<in> approved \<and>
      capture_identity f (te_source_path e) = Some (te_identity e) \<and>
      (\<exists>x \<in> set (suggested plan). oe_source_path x = te_source_path e \<and>
        oe_destination_path x = Some (te_destination_path e))"
    unfolding t(1)
    by (fastforce simp: mem_map_filter organisation_transaction_entry_def split: if_splits option.splits)
qed

end
