(* ===== verification/OrgExample.thy ===== *)
theory OrgExample
  imports OrgRestore OrgPlanProofs TxnExample
begin

text \<open>
  One organisation from the plan to the rollback: a file of an inbox whose platform a RomM
  record settled moves into the directory of that platform, which does not exist yet.
\<close>

definition inbox_fs :: fs where
  "inbox_fs = fmap_of_list
     [([''in''], dir_node), ([''roms''], dir_node), ([''in'', ''a.nes''], file_node 10 7)]"

definition nes_registry :: registry where
  "nes_registry =
     [\<lparr> pl_id = ''NES'', pl_display_name = ''Nintendo'', pl_folder_aliases = [''nes''],
        pl_filename_aliases = [], pl_strong_extensions = [''nes''], pl_weak_extensions = [],
        pl_magic = [], pl_layout = [], pl_conflicts_with = [], pl_preferred_emulator = None,
        pl_explanation = [] \<rparr>]"

definition inbox_candidate :: organisation_candidate where
  "inbox_candidate =
     \<lparr> oc_source_path = [''in'', ''a.nes''],
       oc_resolution = ResolvedPlatform 1 ''NES'' ''Nintendo'' IcHigh [],
       oc_canonical_name = Some ''Game.nes'', oc_content_classification = None,
       oc_original_metadata = fmempty \<rparr>"

definition inbox_request :: organisation_request where
  "inbox_request =
     \<lparr> rq_master_root = [''roms''], rq_mode = MoveRealFile, rq_content_policy = AllEntries,
       rq_candidates = [inbox_candidate], rq_slug_for_platform = (\<lambda>p. Some ''nes''),
       rq_generation = 1 \<rparr>"

definition inbox_plan :: organisation_plan where
  "inbox_plan = build_organisation_plan inbox_fs nes_registry inbox_request"

lemma inbox_plan_suggests:
  "map (\<lambda>e. (oe_status e, oe_source_path e, oe_destination_path e)) (op_entries inbox_plan) =
     [(OsSuggested, [''in'', ''a.nes''], Some [''roms'', ''nes'', ''Game.nes''])]"
  by code_simp

definition inbox_entry :: transaction_entry where
  "inbox_entry =
     \<lparr> te_source_path = [''in'', ''a.nes''], te_destination_path = [''roms'', ''nes'', ''Game.nes''],
       te_original_basename = ''a.nes'', te_proposed_basename = ''Game.nes'',
       te_identity = file_identity (file_node 10 7), te_preflight_passed = False,
       te_preflight_failures = [], te_state = EsPlanned, te_failure_reason = None,
       te_applied_at_unix = None, te_rolled_back_at_unix = None, te_unknown = [] \<rparr>"

definition inbox_tx :: rename_transaction where
  "inbox_tx =
     \<lparr> tx_transaction_id = ''9-0'', tx_plan_generation = 1,
       tx_classifier_version = Some classifier_version, tx_created_at_unix = 9,
       tx_source_scan_root = ''/roms'', tx_state = TsPlanned, tx_entries = [inbox_entry],
       tx_created_directories = [], tx_unknown = [] \<rparr>"

lemma inbox_tx_built:
  "build_organisation_transaction inbox_fs 9 0 9 inbox_plan {[''in'', ''a.nes'']} 1 = Inr inbox_tx"
  by code_simp

definition inbox_env :: organisation_env where
  "inbox_env =
     \<lparr> og_env = demo_env, og_mkdir = linux_mkdir 50, og_rmdir = linux_rmdir,
       og_look_fails = (\<lambda>_ _. False) \<rparr>"

section \<open>Evaluating the pass\<close>

definition nes_dir :: path where
  "nes_dir = [''roms'', ''nes'']"

definition grown_fs :: fs where
  "grown_fs = fmupd nes_dir (new_dir 50 inbox_fs nes_dir) inbox_fs"

definition organised_fs :: fs where
  "organised_fs = fmupd [''roms'', ''nes'', ''Game.nes''] (file_node 10 7) (fmdrop [''in'', ''a.nes''] grown_fs)"

definition inbox_execution :: apply_execution where
  "inbox_execution = organisation_execution {[''in'', ''a.nes'']} 1 [[''in''], [''roms'']] MoveRealFile"

definition inbox_pass :: apply_result where
  "inbox_pass = apply_organisation_transaction inbox_env inbox_tx {[''in'', ''a.nes'']} 1
     [[''in''], [''roms'']] MoveRealFile [''roms''] (restart inbox_fs fmempty 0)"

lemma inbox_env_fields [simp]:
  "og_env inbox_env = demo_env" "og_mkdir inbox_env = linux_mkdir 50" "og_rmdir inbox_env = linux_rmdir"
  "og_look_fails inbox_env n p = False"
  by (simp_all add: inbox_env_def)

lemma inbox_tx_fields [simp]:
  "tx_entries inbox_tx = [inbox_entry]" "tx_classifier_version inbox_tx = Some classifier_version"
  "tx_plan_generation inbox_tx = 1" "tx_transaction_id inbox_tx = ''9-0''"
  "tx_state inbox_tx = TsPlanned" "tx_created_directories inbox_tx = []"
  by (simp_all add: inbox_tx_def)

lemma inbox_entry_fields [simp]:
  "te_source_path inbox_entry = [''in'', ''a.nes'']"
  "te_destination_path inbox_entry = [''roms'', ''nes'', ''Game.nes'']"
  "te_state inbox_entry = EsPlanned" "te_identity inbox_entry = file_identity (file_node 10 7)"
  by (simp_all add: inbox_entry_def)

lemma inbox_execution_fields [simp]:
  "ex_current_generation inbox_execution = 1" "ex_hard_conflict_mode inbox_execution = AbortAll"
  "ex_allow_symlink_source inbox_execution = False"
  by (simp_all add: inbox_execution_def organisation_execution_def)

named_theorems inbox_eval

lemma inbox_planned [inbox_eval]:
  "planned_platform_directories (inbox_tx\<lparr>tx_state := s\<rparr>) [''roms''] = [nes_dir]"
proof -
  have "collect_directories [''roms''] [inbox_entry] [] = [nes_dir]" by code_simp
  then show ?thesis by (simp add: planned_platform_directories_def)
qed

lemma inbox_lookups [inbox_eval]:
  "symlink_metadata inbox_fs nes_dir = None"
  "linux_mkdir 50 inbox_fs nes_dir = Inr grown_fs"
  "locate grown_fs [''in'', ''a.nes''] = Some [''in'', ''a.nes'']"
  "locate grown_fs [''roms'', ''nes'', ''Game.nes''] = Some [''roms'', ''nes'', ''Game.nes'']"
  "fmlookup grown_fs [''in'', ''a.nes''] = Some (file_node 10 7)"
  "fmlookup grown_fs [''roms'', ''nes'', ''Game.nes''] = None"
  "symlink_metadata organised_fs [''in'', ''a.nes''] = None"
  "symlink_metadata organised_fs [''roms'', ''nes'', ''Game.nes''] = Some (file_node 10 7)"
proof -
  have "locate inbox_fs nes_dir = Some nes_dir" "fmlookup inbox_fs nes_dir = None"
    by (code_simp, code_simp)
  then show "linux_mkdir 50 inbox_fs nes_dir = Inr grown_fs" by (simp add: linux_mkdir_def grown_fs_def)
qed (code_simp+)

lemma inbox_rename [inbox_eval]:
  "linux_rename grown_fs [''in'', ''a.nes''] [''roms'', ''nes'', ''Game.nes''] = Inr organised_fs"
  by (simp add: linux_rename_def organised_fs_def inbox_lookups)

lemma inbox_exec [inbox_eval]:
  "organisation_execution {[''in'', ''a.nes'']} (Suc 0) [[''in''], [''roms'']] MoveRealFile = inbox_execution"
  by (simp add: inbox_execution_def)

lemma inbox_preflight [inbox_eval]:
  assumes "tx_plan_generation t = Suc 0" and "tx_entries t = [inbox_entry]"
  shows "run_preflight grown_fs inbox_entry (options_of inbox_execution t) = Inr ()"
    and "run_preflight grown_fs (inbox_entry\<lparr>te_preflight_passed := b\<rparr>) (options_of inbox_execution t) = Inr ()"
proof -
  have o: "options_of inbox_execution t = options_of inbox_execution inbox_tx"
    using assms by (simp add: options_of_def)
  show "run_preflight grown_fs inbox_entry (options_of inbox_execution t) = Inr ()"
    unfolding o by code_simp
  show "run_preflight grown_fs (inbox_entry\<lparr>te_preflight_passed := b\<rparr>)
      (options_of inbox_execution t) = Inr ()"
    unfolding o by code_simp
qed

lemma inbox_names [inbox_eval]:
  "has_nul [''in'', ''a.nes''] = False" "has_nul [''roms'', ''nes'', ''Game.nes''] = False"
  by (code_simp, code_simp)

lemmas organise_eval =
  apply_organisation_transaction_def ensure_directory_def make_directory_def journal_then_def
  conflict_entry_def apply_eval

lemma inbox_crashes:
  "map (\<lambda>(t, f). (tx_created_directories t, map te_state (tx_entries t), f))
     (crash_points None (w_hist (snd (snd inbox_pass)))) =
   [([], [EsPlanned], inbox_fs), ([], [EsPlanned], grown_fs), ([nes_dir], [EsPlanned], grown_fs),
    ([nes_dir], [EsPlanned], grown_fs), ([nes_dir], [EsPlanned], grown_fs),
    ([nes_dir], [EsApplying], grown_fs), ([nes_dir], [EsApplying], organised_fs),
    ([nes_dir], [EsApplied], organised_fs), ([nes_dir], [EsApplied], organised_fs)]"
  unfolding inbox_pass_def
  by (simp add: organise_eval demo_steps demo_names inbox_eval capture_file)

lemma inbox_creates: "DirCreated nes_dir inbox_fs grown_fs \<in> set (w_hist (snd (snd inbox_pass)))"
  unfolding inbox_pass_def
  by (simp add: organise_eval demo_steps demo_names inbox_eval capture_file)

lemma inbox_pass_run:
  "apply_organisation_transaction inbox_env inbox_tx {[''in'', ''a.nes'']} 1
     [[''in''], [''roms'']] MoveRealFile [''roms''] (restart inbox_fs fmempty 0) =
     (fst inbox_pass, fst (snd inbox_pass), snd (snd inbox_pass))"
  by (simp add: inbox_pass_def)

section \<open>The guarantees in this world\<close>

lemma linux_directory_calls [simp]:
  "dir_creation (linux_mkdir ino)" "dir_removal linux_rmdir" "live_dir_removal linux_rmdir"
  by (rule lnx_mkdir.dir_creation_axioms, rule lnx_rmdir.dir_removal_axioms,
      rule lnx_rmdir.live_dir_removal_axioms)

theorem organisation_suggestions_grounded_witness:
  "\<exists>e \<in> set (suggested inbox_plan). \<exists>d. oe_destination_path e = Some d \<and>
     free_destination inbox_fs d \<and> placed inbox_request e d"
proof -
  have "\<not> suggested inbox_plan = []" by code_simp
  then obtain e where "e \<in> set (suggested inbox_plan)" by (cases "suggested inbox_plan") auto
  with organisation_suggestions_grounded [of e inbox_fs nes_registry inbox_request] show ?thesis
    by (auto simp: inbox_plan_def)
qed

theorem organisation_lawful_witness:
  "absent inbox_fs nes_dir \<and> is_platform_directory_candidate nes_dir [''roms'']"
proof -
  obtain a b where "w_hist (snd (snd inbox_pass)) = a @ DirCreated nes_dir inbox_fs grown_fs # b"
    using split_list [OF inbox_creates] by blast
  from organisation_lawful [OF inbox_pass_run _ _ _ _ _ this] show ?thesis by simp
qed

theorem organisation_crash_then_rollback_witness:
  "\<exists>tj out t' w'. tx_created_directories tj = [nes_dir] \<and>
     rollback_organisation_transaction inbox_env tj [''roms''] (restart organised_fs fmempty 0) =
       (Inr out, t', w') \<and>
     ro_result (or_rollback out) = FullyRolledBack \<and> or_directories_remaining out = []"
proof -
  let ?cs = "crash_points None (w_hist (snd (snd inbox_pass)))"
  let ?view = "\<lambda>(t, f). (tx_created_directories t, map te_state (tx_entries t), f :: fs)"
  have len: "length ?cs = 9" using arg_cong [OF inbox_crashes, of length] by simp
  then have mem: "?cs ! 6 \<in> set ?cs" by simp
  have "?view (?cs ! 6) = map ?view ?cs ! 6" using len by simp
  also have "\<dots> = ([nes_dir], [EsApplying], organised_fs)" unfolding inbox_crashes by simp
  finally obtain tj where tj: "?cs ! 6 = (tj, organised_fs)" "tx_created_directories tj = [nes_dir]"
    by (cases "?cs ! 6") auto
  have tree: "tree_ok inbox_fs" by code_simp
  have un: "list_all unmoved (tx_entries inbox_tx)" by (simp add: unmoved_def)
  have nn: "no_nul_paths (tx_entries inbox_tx)" by (simp add: no_nul_paths_def inbox_names)
  from organisation_crash_then_rollback [OF inbox_pass_run _ _ _ _ _ _ un _ _ mem [unfolded tj(1)],
      of inbox_env fmempty 0] tree nn tj(2)
  show ?thesis by (auto simp: demo_names)
qed

text \<open>
  The journal still lists the directory after a full rollback. When the user makes it again
  and the batch is rolled back once more, it is taken away, although it is the user's now.
\<close>

lemma second_rollback_takes_user_directory:
  assumes "tx_state t = TsRolledBack" and "tx_created_directories t = [nes_dir]"
  shows "\<exists>out w'. rollback_organisation_transaction inbox_env t [''roms''] (restart grown_fs d n) =
      (Inr out, t, w') \<and>
    or_directories_removed out = [nes_dir] \<and> symlink_metadata (w_fs w') nes_dir = None"
proof -
  have look: "symlink_metadata grown_fs nes_dir = Some (new_dir 50 inbox_fs nes_dir)"
      "read_dir grown_fs nes_dir = Some {||}" "is_owned_platform_directory nes_dir [''roms'']"
    by (code_simp, code_simp, code_simp)
  have rm: "linux_rmdir grown_fs nes_dir = Inr (fmdrop nes_dir grown_fs)"
  proof -
    have "locate grown_fs nes_dir = Some nes_dir" "holds_nothing grown_fs nes_dir"
      by (code_simp, code_simp)
    then show ?thesis by (simp add: linux_rmdir_def grown_fs_def)
  qed
  have gone: "symlink_metadata (fmdrop nes_dir grown_fs) nes_dir = None" by code_simp
  show ?thesis
    using assms look rm gone
    by (simp add: rollback_organisation_transaction_def rollback_transaction_def clean_directory_def
        remove_directory_def demo_steps restart_def Let_def)
qed

end
