(* ===== verification/ParseModel.thy ===== *)
theory ParseModel
  imports DatModel
begin

text \<open>
  What the two catalogue parsers share: the ceilings of \<open>dat/limits.rs\<close> with their builder,
  the diagnostics and errors of \<open>dat/parser.rs\<close>, and the parts of \<open>str\<close> the text parser
  reads a file with. A \<open>u64\<close> or \<open>usize\<close> is a natural number; no operation on them here can
  overflow, they are only compared and bounded from above.
\<close>

section \<open>Ceilings\<close>

definition absolute_max_file_size :: nat where "absolute_max_file_size = 2147483648"
definition absolute_max_entries :: nat where "absolute_max_entries = 2000000"
definition absolute_max_roms_per_entry :: nat where "absolute_max_roms_per_entry = 16000000"
definition absolute_max_identifier_length :: nat where "absolute_max_identifier_length = 65536"
definition absolute_max_description_length :: nat where "absolute_max_description_length = 1048576"
definition absolute_max_warnings :: nat where "absolute_max_warnings = 10000"
definition absolute_max_xml_depth :: nat where "absolute_max_xml_depth = 128"

record dat_limits =
  max_file_size :: nat
  max_entries :: nat
  max_roms_per_entry :: nat
  max_identifier_length :: nat
  max_description_length :: nat
  max_warnings :: nat
  max_xml_depth :: nat

definition default_limits :: dat_limits where
  "default_limits =
     \<lparr> max_file_size = 268435456, max_entries = 500000, max_roms_per_entry = 1000000,
       max_identifier_length = 8192, max_description_length = 65536, max_warnings = 1024,
       max_xml_depth = 32 \<rparr>"

text \<open>The builder holds the limits it will hand out; each setter clamps to the absolute ceiling.\<close>

definition build_max_file_size :: "nat \<Rightarrow> dat_limits \<Rightarrow> dat_limits" where
  "build_max_file_size bytes b = b\<lparr>max_file_size := min bytes absolute_max_file_size\<rparr>"

definition build_max_entries :: "nat \<Rightarrow> dat_limits \<Rightarrow> dat_limits" where
  "build_max_entries n b = b\<lparr>max_entries := min n absolute_max_entries\<rparr>"

definition build_max_roms_per_entry :: "nat \<Rightarrow> dat_limits \<Rightarrow> dat_limits" where
  "build_max_roms_per_entry n b = b\<lparr>max_roms_per_entry := min n absolute_max_roms_per_entry\<rparr>"

definition build_max_identifier_length :: "nat \<Rightarrow> dat_limits \<Rightarrow> dat_limits" where
  "build_max_identifier_length n b =
     b\<lparr>max_identifier_length := min n absolute_max_identifier_length\<rparr>"

definition build_max_description_length :: "nat \<Rightarrow> dat_limits \<Rightarrow> dat_limits" where
  "build_max_description_length n b =
     b\<lparr>max_description_length := min n absolute_max_description_length\<rparr>"

definition build_max_warnings :: "nat \<Rightarrow> dat_limits \<Rightarrow> dat_limits" where
  "build_max_warnings n b = b\<lparr>max_warnings := min n absolute_max_warnings\<rparr>"

definition build_max_xml_depth :: "nat \<Rightarrow> dat_limits \<Rightarrow> dat_limits" where
  "build_max_xml_depth n b = b\<lparr>max_xml_depth := min n absolute_max_xml_depth\<rparr>"

section \<open>Diagnostics\<close>

datatype diagnostic_severity = NoteSeverity | WarningSeverity | ErrorSeverity

primrec severity_label :: "diagnostic_severity \<Rightarrow> string" where
  "severity_label NoteSeverity = ''parser note''"
| "severity_label WarningSeverity = ''warning''"
| "severity_label ErrorSeverity = ''error''"

record parse_warning =
  pw_byte_offset :: "nat option"
  pw_line :: "nat option"
  pw_column :: "nat option"
  pw_context :: string
  pw_message :: string
  pw_severity :: diagnostic_severity
  pw_code :: string

definition new_warning :: "string \<Rightarrow> parse_warning" where
  "new_warning message =
     \<lparr> pw_byte_offset = None, pw_line = None, pw_column = None, pw_context = [],
       pw_message = message, pw_severity = WarningSeverity, pw_code = ''unclassified'' \<rparr>"

definition warning_with_code :: "string \<Rightarrow> string \<Rightarrow> parse_warning" where
  "warning_with_code code message = (new_warning message)\<lparr>pw_code := code\<rparr>"

definition note_with_code :: "string \<Rightarrow> string \<Rightarrow> parse_warning" where
  "note_with_code code message =
     (new_warning message)\<lparr>pw_severity := NoteSeverity, pw_code := code\<rparr>"

definition warning_is_note :: "parse_warning \<Rightarrow> bool" where
  "warning_is_note w \<longleftrightarrow> pw_severity w = NoteSeverity"

definition warning_is_warning :: "parse_warning \<Rightarrow> bool" where
  "warning_is_warning w \<longleftrightarrow> pw_severity w = WarningSeverity"

definition with_offset :: "nat \<Rightarrow> parse_warning \<Rightarrow> parse_warning" where
  "with_offset offset w = w\<lparr>pw_byte_offset := Some offset\<rparr>"

definition with_line_column :: "nat \<Rightarrow> nat \<Rightarrow> parse_warning \<Rightarrow> parse_warning" where
  "with_line_column line column w = w\<lparr>pw_line := Some line, pw_column := Some column\<rparr>"

definition with_warning_context :: "string \<Rightarrow> parse_warning \<Rightarrow> parse_warning" where
  "with_warning_context text_near w = w\<lparr>pw_context := text_near\<rparr>"

text \<open>The \<open>Display\<close> rendering; the closing parenthesis after the context is the source's.\<close>

definition warning_display :: "parse_warning \<Rightarrow> string" where
  "warning_display w =
     pw_message w @
     (case pw_byte_offset w of None \<Rightarrow> [] | Some n \<Rightarrow> '' (byte '' @ nat_to_string n @ '')'') @
     (case (pw_line w, pw_column w) of
        (Some line, Some column) \<Rightarrow> '' at line '' @ nat_to_string line @ '':'' @ nat_to_string column
      | _ \<Rightarrow> []) @
     (if pw_context w = [] then [] else '' near '' @ pw_context w @ '')'')"

section \<open>Errors\<close>

text \<open>The operating system's error text stands for \<open>std::io::Error\<close>.\<close>

datatype parse_error =
  IoFailed path string
| FileTooLarge path nat nat
| XmlDepthExceeded nat nat
| EntryLimitExceeded nat nat
| RomsPerEntryExceeded string nat nat
| IdentifierTooLong string nat nat string
| DescriptionTooLong nat nat
| WarningLimitExceeded nat nat
| MalformedXml string "nat option"
| UnknownFormat
| UnsupportedFormat string

fun parse_error_display :: "parse_error \<Rightarrow> string" where
  "parse_error_display (IoFailed p err) = ''cannot read '' @ path_text p @ '': '' @ err"
| "parse_error_display (FileTooLarge p bytes limit) =
     path_text p @ '' is '' @ nat_to_string bytes @ '' bytes, above the '' @ nat_to_string limit @ ''-byte limit''"
| "parse_error_display (XmlDepthExceeded depth limit) =
     ''XML depth '' @ nat_to_string depth @ '' exceeds limit of '' @ nat_to_string limit"
| "parse_error_display (EntryLimitExceeded n limit) =
     ''entry count '' @ nat_to_string n @ '' exceeds limit of '' @ nat_to_string limit"
| "parse_error_display (RomsPerEntryExceeded game_name n limit) =
     ''game '' @ debug_str game_name @ '' has '' @ nat_to_string n @ '' ROMs, exceeding the '' @
     nat_to_string limit @ '' limit''"
| "parse_error_display (IdentifierTooLong field n limit snippet) =
     field @ '' is '' @ nat_to_string n @ '' bytes (limit '' @ nat_to_string limit @ ''); starts with '' @
     [CHR 0x22] @ snippet @ [CHR 0x22]"
| "parse_error_display (DescriptionTooLong n limit) =
     ''description is '' @ nat_to_string n @ '' bytes, exceeding the '' @ nat_to_string limit @ '' limit''"
| "parse_error_display (WarningLimitExceeded n limit) =
     ''warning count '' @ nat_to_string n @ '' exceeds limit of '' @ nat_to_string limit"
| "parse_error_display (MalformedXml detail offset) =
     (case offset of
        Some n \<Rightarrow> ''malformed XML at byte '' @ nat_to_string n @ '': '' @ detail
      | None \<Rightarrow> ''malformed XML: '' @ detail)"
| "parse_error_display UnknownFormat = ''unknown DAT format''"
| "parse_error_display (UnsupportedFormat detail) = ''unsupported DAT format: '' @ detail"

record parse_outcome =
  po_dat :: parsed_dat
  po_warnings :: "parse_warning list"

text \<open>
  The file system as the parsers see it: what \<open>fs::metadata\<close> says (is it a regular file, its
  length), what \<open>read_to_string\<close> returns, and the text of the first read of at most 4096
  bytes. A failure is the operating system's error text.
\<close>

record parse_env =
  pe_metadata :: "path \<Rightarrow> string + (bool \<times> nat)"
  pe_content :: "path \<Rightarrow> string + string"
  pe_head :: "path \<Rightarrow> string + string"

section \<open>Reading a text file\<close>

text \<open>
  \<open>str::lines\<close>: the lines with the byte offset each starts at; a line feed ends a line, one
  carriage return before it is dropped, and no empty line follows a final line feed.
\<close>

abbreviation newline :: char where "newline \<equiv> CHR 0x0A"
abbreviation carriage_return :: char where "carriage_return \<equiv> CHR 0x0D"
abbreviation dquote :: char where "dquote \<equiv> CHR 0x22"
abbreviation tab :: char where "tab \<equiv> CHR 0x09"

definition strip_suffix_char :: "char \<Rightarrow> string \<Rightarrow> string option" where
  "strip_suffix_char c s = (if s \<noteq> [] \<and> last s = c then Some (butlast s) else None)"

definition drop_carriage_return :: "string \<Rightarrow> string" where
  "drop_carriage_return s = (case strip_suffix_char carriage_return s of None \<Rightarrow> s | Some s' \<Rightarrow> s')"

fun lines_from :: "nat \<Rightarrow> string \<Rightarrow> string \<Rightarrow> (nat \<times> string) list" where
  "lines_from start w [] = (if w = [] then [] else [(start, rev w)])"
| "lines_from start w (c # cs) =
     (if c = newline
      then (start, drop_carriage_return (rev w)) # lines_from (start + utf8_len (rev w) + 1) [] cs
      else lines_from start (c # w) cs)"

definition text_lines :: "string \<Rightarrow> (nat \<times> string) list" where
  "text_lines content = lines_from 0 [] content"

text \<open>\<open>u8::is_ascii_whitespace\<close>: without the vertical tab, which \<open>char::is_whitespace\<close> has.\<close>

definition is_ascii_whitespace :: "char \<Rightarrow> bool" where
  "is_ascii_whitespace c \<longleftrightarrow> (let n = (of_char c :: nat) in n = 32 \<or> n = 9 \<or> n = 10 \<or> n = 12 \<or> n = 13)"

definition parse_u64 :: "string \<Rightarrow> nat option" where
  "parse_u64 s = parse_unsigned 18446744073709551615 s"

text \<open>\<open>str::contains\<close> for a string pattern.\<close>

fun contains_str :: "string \<Rightarrow> string \<Rightarrow> bool" where
  "contains_str pat [] \<longleftrightarrow> pat = []"
| "contains_str pat (c # cs) \<longleftrightarrow> prefix pat (c # cs) \<or> contains_str pat cs"

section \<open>Facts about lines and decimal numbers\<close>

lemma lines_from_line:
  "newline \<notin> set l \<Longrightarrow>
   lines_from start w (l @ newline # cs) =
     (start, drop_carriage_return (rev w @ l)) # lines_from (start + utf8_len (rev w @ l) + 1) [] cs"
  by (induction l arbitrary: w) auto

text \<open>A number's decimal digits parse to it.\<close>

lemma decimal_value_snoc: "decimal_value (s @ [c]) = 10 * decimal_value s + digit_value c"
  by (simp add: decimal_value_def)

lemma digit_char:
  "n < 10 \<Longrightarrow> is_ascii_digit (char_of (48 + n)) \<and> digit_value (char_of (48 + n)) = n"
  by (simp add: is_ascii_digit_def digit_value_def Let_def)

lemma nat_to_string_digits:
  "nat_to_string n \<noteq> [] \<and> list_all is_ascii_digit (nat_to_string n) \<and> decimal_value (nat_to_string n) = n"
proof (induction n rule: nat_to_string.induct)
  case (1 n)
  show ?case
  proof (cases "n < 10")
    case True
    then have "nat_to_string n = [char_of (48 + n)]" by (simp add: nat_to_string.simps [of n])
    then show ?thesis using digit_char [OF True] by (simp add: decimal_value_def)
  next
    case False
    then have "nat_to_string n = nat_to_string (n div 10) @ [char_of (48 + n mod 10)]"
      by (simp add: nat_to_string.simps [of n])
    then show ?thesis
      using 1 [OF False] digit_char [of "n mod 10"] by (simp add: decimal_value_snoc)
  qed
qed

lemma parse_u64_nat_to_string:
  assumes "n \<le> 18446744073709551615"
  shows "parse_u64 (nat_to_string n) = Some n"
proof -
  note d = nat_to_string_digits [of n]
  then have "hd (nat_to_string n) \<noteq> CHR ''+''"
    by (cases "nat_to_string n") (auto simp: is_ascii_digit_def Let_def)
  then show ?thesis using d assms by (simp add: parse_u64_def parse_unsigned_def Let_def)
qed

end
