(* ===== verification/TrustedDtd.thy ===== *)
theory TrustedDtd
  imports FileSystem ParseModel
begin

text \<open>
  The DOCTYPE of a Logiqx catalogue, \<open>dat/trusted_dtd.rs\<close>: reading the external identifier,
  deciding whether it names a DTD that is trusted by name, and looking for a local copy
  beside the catalogue. The declaration's bytes are given as text, or as nothing when they
  are not UTF-8. The data directory is where \<open>app_dirs::data_dir\<close> puts it, a parameter.
\<close>

section \<open>The registry\<close>

record trusted_dtd =
  td_name :: string
  td_allowed_basename :: string
  td_public_ids :: "string list"
  td_bundled_filename :: "string option"

definition trusted_dtds :: "trusted_dtd list" where
  "trusted_dtds =
     [\<lparr> td_name = ''Logiqx'', td_allowed_basename = ''logiqx.dtd'',
        td_public_ids = [''-//Logiqx//DTD ROM Management Datafile//EN''], td_bundled_filename = None \<rparr>]"

definition default_trusted_dtd_dir :: "path option \<Rightarrow> path option" where
  "default_trusted_dtd_dir data_dir = map_option (\<lambda>d. path_join d ''dtds'') data_dir"

section \<open>The external identifier\<close>

datatype external_id = SystemId string | PublicId string "string option"

definition trim_start :: "string \<Rightarrow> string" where
  "trim_start s = dropWhile is_whitespace s"

definition take_quoted_literal_with_remainder :: "string \<Rightarrow> (string \<times> string) option" where
  "take_quoted_literal_with_remainder t =
     (case trim_start t of
        [] \<Rightarrow> None
      | q # after_quote \<Rightarrow> if q \<noteq> dquote \<and> q \<noteq> quote then None else split_first q after_quote)"

definition take_quoted_literal :: "string \<Rightarrow> string option" where
  "take_quoted_literal t = map_option fst (take_quoted_literal_with_remainder t)"

definition parse_external_id :: "string option \<Rightarrow> external_id option" where
  "parse_external_id raw =
     (case raw of
        None \<Rightarrow> None
      | Some t \<Rightarrow>
          let after_root = trim_start t in
          if list_all (\<lambda>c. \<not> is_whitespace c) after_root then None
          else
            let rest = trim_start (dropWhile (\<lambda>c. \<not> is_whitespace c) after_root) in
            case strip_prefix ''SYSTEM'' rest of
              Some after_keyword \<Rightarrow> map_option SystemId (take_quoted_literal after_keyword)
            | None \<Rightarrow>
                (case strip_prefix ''PUBLIC'' rest of
                   Some after_keyword \<Rightarrow>
                     (case take_quoted_literal_with_remainder after_keyword of
                        None \<Rightarrow> None
                      | Some (public_id, remainder) \<Rightarrow>
                          Some (PublicId public_id (take_quoted_literal remainder)))
                 | None \<Rightarrow> None))"

datatype system_literal_shape = SimpleBasename string | RejectedLiteral string

definition classify_system_literal :: "string \<Rightarrow> system_literal_shape" where
  "classify_system_literal s =
     (if s = [] then RejectedLiteral ''the SYSTEM identifier is empty''
      else if (case split_first (CHR '':'') s of
                 Some (scheme, _) \<Rightarrow> scheme \<noteq> [] \<and> list_all is_ascii_alphanumeric scheme
               | None \<Rightarrow> False)
        then RejectedLiteral ''the SYSTEM identifier names a URL/URI scheme, not a local filename''
      else if slash \<in> set s \<or> backslash \<in> set s
        then RejectedLiteral (''the SYSTEM identifier contains a path separator - only a bare filename beside the '' @
               ''DAT is ever trusted'')
      else if s = ''.'' \<or> s = ''..''
        then RejectedLiteral ''the SYSTEM identifier is a directory reference''
      else SimpleBasename s)"

section \<open>Resolution\<close>

datatype dtd_source = Bundled path | BesideDat path

primrec dtd_source_path :: "dtd_source \<Rightarrow> path" where
  "dtd_source_path (Bundled p) = p"
| "dtd_source_path (BesideDat p) = p"

datatype doctype_outcome =
  NoDoctype
| TrustedDtdResolved string dtd_source
| TrustedDtdUnavailable string
| UnsafeOrUnknownDoctypeIgnored string

definition existing_file_directly_inside :: "fs \<Rightarrow> path \<Rightarrow> string \<Rightarrow> path option" where
  "existing_file_directly_inside f dir_path filename =
     (case canonicalize f dir_path of
        None \<Rightarrow> None
      | Some canonical_dir \<Rightarrow>
          (case canonicalize f (path_join dir_path filename) of
             None \<Rightarrow> None
           | Some candidate \<Rightarrow>
               if map_option n_kind (metadata f candidate) \<noteq> Some FileNode then None
               else if path_parent candidate \<noteq> Some canonical_dir then None
               else Some candidate))"

definition resolve_trusted :: "fs \<Rightarrow> path option \<Rightarrow> trusted_dtd \<Rightarrow> doctype_outcome" where
  "resolve_trusted f data_dir trusted =
     (case td_bundled_filename trusted of
        None \<Rightarrow> TrustedDtdUnavailable (td_name trusted)
      | Some filename \<Rightarrow>
          (case default_trusted_dtd_dir data_dir of
             None \<Rightarrow> TrustedDtdUnavailable (td_name trusted)
           | Some d \<Rightarrow>
               (case existing_file_directly_inside f d filename of
                  None \<Rightarrow> TrustedDtdUnavailable (td_name trusted)
                | Some p \<Rightarrow> TrustedDtdResolved (td_name trusted) (Bundled p))))"

definition resolve_beside_dat :: "fs \<Rightarrow> path \<Rightarrow> string \<Rightarrow> dtd_source option" where
  "resolve_beside_dat f dat_path basename =
     (case path_parent dat_path of
        None \<Rightarrow> None
      | Some dat_dir \<Rightarrow> map_option BesideDat (existing_file_directly_inside f dat_dir basename))"

definition resolve_by_system_literal :: "fs \<Rightarrow> path option \<Rightarrow> string \<Rightarrow> path \<Rightarrow> doctype_outcome" where
  "resolve_by_system_literal f data_dir literal dat_path =
     (case classify_system_literal literal of
        RejectedLiteral reason \<Rightarrow> UnsafeOrUnknownDoctypeIgnored reason
      | SimpleBasename basename \<Rightarrow>
          (case find (\<lambda>candidate. td_allowed_basename candidate = basename) trusted_dtds of
             None \<Rightarrow>
               UnsafeOrUnknownDoctypeIgnored ''the SYSTEM identifier does not name a DTD EmuWiz trusts''
           | Some trusted \<Rightarrow>
               (case resolve_beside_dat f dat_path basename of
                  Some source \<Rightarrow> TrustedDtdResolved (td_name trusted) source
                | None \<Rightarrow> resolve_trusted f data_dir trusted)))"

definition classify_doctype :: "fs \<Rightarrow> path option \<Rightarrow> string option \<Rightarrow> path \<Rightarrow> doctype_outcome" where
  "classify_doctype f data_dir raw dat_path =
     (case parse_external_id raw of
        None \<Rightarrow>
          UnsafeOrUnknownDoctypeIgnored
            ''the DOCTYPE declared no external SYSTEM/PUBLIC identifier to resolve''
      | Some (SystemId literal) \<Rightarrow> resolve_by_system_literal f data_dir literal dat_path
      | Some (PublicId public_id literal) \<Rightarrow>
          (case find (\<lambda>candidate. public_id \<in> set (td_public_ids candidate)) trusted_dtds of
             None \<Rightarrow>
               UnsafeOrUnknownDoctypeIgnored ''the PUBLIC identifier does not name a DTD EmuWiz trusts''
           | Some trusted \<Rightarrow>
               let beside =
                 (case literal of
                    None \<Rightarrow> None
                  | Some s \<Rightarrow>
                      (case classify_system_literal s of
                         RejectedLiteral reason \<Rightarrow> None
                       | SimpleBasename basename \<Rightarrow>
                           if basename = td_allowed_basename trusted
                           then resolve_beside_dat f dat_path basename else None)) in
               case beside of
                 Some source \<Rightarrow> TrustedDtdResolved (td_name trusted) source
               | None \<Rightarrow> resolve_trusted f data_dir trusted))"

fun describe_doctype_outcome :: "doctype_outcome \<Rightarrow> string" where
  "describe_doctype_outcome NoDoctype = []"
| "describe_doctype_outcome (TrustedDtdResolved name source) =
     name @ '' DTD referenced. A trusted local copy was found. This build does not '' @
     ''perform DTD schema validation.''"
| "describe_doctype_outcome (TrustedDtdUnavailable name) =
     name @ '' DTD referenced, but no trusted local copy was found. The DAT was parsed '' @
     ''normally without DTD validation.''"
| "describe_doctype_outcome (UnsafeOrUnknownDoctypeIgnored reason) =
     ''External or unknown DTD reference ignored for security ('' @ reason @ ''). No network or '' @
     ''arbitrary filesystem access was allowed.''"

section \<open>Confinement\<close>

lemma existing_file_directly_inside_Some:
  assumes "existing_file_directly_inside f d filename = Some q"
  shows "\<exists>c. canonicalize f d = Some c \<and> canonicalize f (path_join d filename) = Some q \<and>
    path_parent q = Some c \<and> map_option n_kind (metadata f q) = Some FileNode"
  using assms by (auto simp: existing_file_directly_inside_def split: option.splits if_splits)

lemma registry_entry: "trusted \<in> set trusted_dtds \<Longrightarrow>
    td_name trusted = ''Logiqx'' \<and> td_allowed_basename trusted = ''logiqx.dtd'' \<and> td_bundled_filename trusted = None"
  by (simp add: trusted_dtds_def)

lemma resolve_trusted_none: "trusted \<in> set trusted_dtds \<Longrightarrow> resolve_trusted f data_dir trusted = TrustedDtdUnavailable ''Logiqx''"
  by (simp add: resolve_trusted_def registry_entry)

lemma find_registry: "find P trusted_dtds = Some trusted \<Longrightarrow> trusted \<in> set trusted_dtds \<and> P trusted"
  by (auto simp: find_Some_iff)

definition resolved_beside :: "fs \<Rightarrow> path \<Rightarrow> doctype_outcome \<Rightarrow> bool" where
  "resolved_beside f dat_path outcome \<longleftrightarrow>
     (\<exists>d c q. outcome = TrustedDtdResolved ''Logiqx'' (BesideDat q) \<and> path_parent dat_path = Some d \<and>
        canonicalize f d = Some c \<and> canonicalize f (d @ [''logiqx.dtd'']) = Some q \<and>
        path_parent q = Some c \<and> map_option n_kind (metadata f q) = Some FileNode)"

lemma beside_resolved:
  assumes "resolve_beside_dat f dat_path ''logiqx.dtd'' = Some source"
  shows "resolved_beside f dat_path (TrustedDtdResolved ''Logiqx'' source)"
proof -
  obtain d q where d: "path_parent dat_path = Some d" "source = BesideDat q"
      "existing_file_directly_inside f d ''logiqx.dtd'' = Some q"
    using assms by (auto simp: resolve_beside_dat_def split: option.splits)
  have "path_join d ''logiqx.dtd'' = d @ [''logiqx.dtd'']" by (rule path_join_single) simp_all
  then show ?thesis
    using existing_file_directly_inside_Some [OF d(3)] d(1,2) unfolding resolved_beside_def by auto
qed

text \<open>
  C37: A DOCTYPE can make the reader look at one file only. Whatever the declaration says, and
  whatever links the file system holds, the outcome is that nothing is referenced or trusted,
  that the Logiqx DTD is named without a local copy, or that a copy was found - and then the
  copy is \<open>logiqx.dtd\<close> of the catalogue's own directory, resolved through every link to a
  regular file whose directory is that directory's own resolved form.
\<close>

theorem doctype_lookup_confined:
  "resolved_beside f dat_path (classify_doctype f data_dir raw dat_path) \<or>
   classify_doctype f data_dir raw dat_path = TrustedDtdUnavailable ''Logiqx'' \<or>
   (\<exists>reason. classify_doctype f data_dir raw dat_path = UnsafeOrUnknownDoctypeIgnored reason)"
proof (cases "parse_external_id raw")
  case None
  then show ?thesis by (simp add: classify_doctype_def)
next
  case (Some ext)
  show ?thesis
  proof (cases ext)
    case (SystemId literal)
    then show ?thesis
      using Some
      by (auto simp: classify_doctype_def resolve_by_system_literal_def resolve_trusted_none registry_entry
          beside_resolved dest!: find_registry split: system_literal_shape.split option.split)
  next
    case (PublicId public_id literal)
    then show ?thesis
      using Some
      by (auto simp: classify_doctype_def resolve_trusted_none registry_entry Let_def beside_resolved
          dest!: find_registry split: system_literal_shape.splits option.splits if_splits)
  qed
qed

end
