(* ===== verification/Logiqx.thy ===== *)
theory Logiqx
  imports TrustedDtd
begin

text \<open>
  The parser of Logiqx XML catalogues, \<open>dat/parsers/logiqx.rs\<close>, as the handler of the events
  its XML reader delivers. The reader, \<open>quick_xml\<close>, is not code of the repository: a document
  is the list of its events up to the end of the file, an element gives the raw value of each
  attribute it has, and the library's entity resolution is the parameter \<open>xml_library\<close>.
  The local variables of the source's loop are the fields of one state record; the fifteen
  variables of an open rom, which are set together when it starts and taken together when it
  ends, are one optional entry.
\<close>

section \<open>Events\<close>

text \<open>The bytes of an attribute as text, or their lossy reading and the decoding error.\<close>

datatype raw_text = ValidUtf8 string | InvalidUtf8 string string

record xml_element =
  xe_tag :: "string + string"
  xe_position :: nat
  xe_attribute :: "string \<Rightarrow> raw_text option"

datatype xml_event =
  DeclEvent
| DocTypeEvent "string option"
| StartEvent xml_element
| EndEvent "string + string" nat
| EmptyEvent xml_element
| TextEvent "string + string"
| CDataEvent "string option"
| RefEvent "string + string" "char option"
| CommentEvent
| PiEvent
| ReaderError string nat

text \<open>\<open>escape::unescape\<close> and \<open>escape::resolve_predefined_entity\<close>.\<close>

record xml_library =
  xl_unescape :: "string \<Rightarrow> string + string"
  xl_predefined :: "string \<Rightarrow> string option"

section \<open>Reading with diagnostics\<close>

type_synonym 'a reading = "parse_warning list \<Rightarrow> parse_error + ('a \<times> parse_warning list)"

definition give :: "'a \<Rightarrow> 'a reading" where
  "give x ws = Inr (x, ws)"

definition refuse :: "parse_error \<Rightarrow> 'a reading" where
  "refuse err ws = Inl err"

definition then_read :: "'a reading \<Rightarrow> ('a \<Rightarrow> 'b reading) \<Rightarrow> 'b reading" where
  "then_read m k ws = (case m ws of Inl err \<Rightarrow> Inl err | Inr (x, ws') \<Rightarrow> k x ws')"

definition add_warning :: "nat \<Rightarrow> parse_warning \<Rightarrow> parse_warning list \<Rightarrow> parse_warning list" where
  "add_warning limit w ws = (if length ws < limit then ws @ [w] else ws)"

definition record_warning :: "nat \<Rightarrow> string \<Rightarrow> string \<Rightarrow> parse_warning list \<Rightarrow> parse_warning list" where
  "record_warning limit code message ws = add_warning limit (warning_with_code code message) ws"

definition record_note :: "nat \<Rightarrow> string \<Rightarrow> string \<Rightarrow> parse_warning list \<Rightarrow> parse_warning list" where
  "record_note limit code message ws = add_warning limit (note_with_code code message) ws"

definition nested_message :: "string \<Rightarrow> string" where
  "nested_message element =
     ''nested <'' @ element @ ''> start would overwrite an unclosed <'' @ element @ ''>; '' @
     ''the active structure was retained''"

definition record_nested_state_warning :: "nat \<Rightarrow> string \<Rightarrow> parse_warning list \<Rightarrow> parse_warning list" where
  "record_nested_state_warning limit element ws =
     record_warning limit ''nested_state_overwrite_blocked'' (nested_message element) ws"

section \<open>Attributes\<close>

definition attr_str_opt :: "xml_library \<Rightarrow> dat_limits \<Rightarrow> xml_element \<Rightarrow> string \<Rightarrow> string option reading" where
  "attr_str_opt lib limits elem attr_name ws =
     (case xe_attribute elem attr_name of
        None \<Rightarrow> Inr (None, ws)
      | Some bytes \<Rightarrow>
          let (raw, ws1) =
            (case bytes of
               ValidUtf8 t \<Rightarrow> (t, ws)
             | InvalidUtf8 lossy err \<Rightarrow>
                 (lossy, record_warning (max_warnings limits) ''attribute_invalid_utf8''
                    (''attribute '' @ attr_name @ '' is not valid UTF-8 and was read with replacement '' @
                     ''characters: '' @ err) ws));
              (v, ws2) =
            (case xl_unescape lib raw of
               Inr decoded \<Rightarrow> (decoded, ws1)
             | Inl err \<Rightarrow>
                 (raw, record_warning (max_warnings limits) ''entity_unresolved_attribute''
                    (''unresolvable entity reference in attribute '' @ attr_name @ '' kept as written: '' @ err) ws1))
          in Inr (if v = [] then None else Some v, ws2))"

definition attr_str_checked :: "xml_library \<Rightarrow> dat_limits \<Rightarrow> xml_element \<Rightarrow> string \<Rightarrow> string option reading" where
  "attr_str_checked lib limits elem attr_name =
     then_read (attr_str_opt lib limits elem attr_name) (\<lambda>v.
       case v of
         Some t \<Rightarrow>
           if utf8_len t > max_identifier_length limits
           then refuse (IdentifierTooLong attr_name (utf8_len t) (max_identifier_length limits) (take 60 t))
           else give v
       | None \<Rightarrow> give v)"

definition hex_digit_value :: "char \<Rightarrow> nat" where
  "hex_digit_value c = (let n = of_char (to_ascii_lower_char c) in if n < 97 then n - 48 else n - 87)"

definition hex_value :: "string \<Rightarrow> nat" where
  "hex_value s = foldl (\<lambda>n c. 16 * n + hex_digit_value c) 0 s"

text \<open>\<open>u64::from_str_radix\<close> with radix sixteen.\<close>

definition parse_hex_u64 :: "string \<Rightarrow> nat option" where
  "parse_hex_u64 s =
     (let digits = (if length s > 1 \<and> hd s = CHR ''+'' then tl s else s) in
      if digits = [] \<or> \<not> list_all is_ascii_hexdigit digits then None
      else if hex_value digits > 18446744073709551615 then None
      else Some (hex_value digits))"

definition parse_size :: "string \<Rightarrow> nat option" where
  "parse_size raw =
     (case strip_prefix ''0x'' raw of
        Some hex \<Rightarrow> parse_hex_u64 hex
      | None \<Rightarrow> (case strip_prefix ''0X'' raw of Some hex \<Rightarrow> parse_hex_u64 hex | None \<Rightarrow> parse_u64 raw))"

definition attr_u64 :: "xml_library \<Rightarrow> dat_limits \<Rightarrow> xml_element \<Rightarrow> string \<Rightarrow> nat option reading" where
  "attr_u64 lib limits elem attr_name =
     then_read (attr_str_opt lib limits elem attr_name) (\<lambda>v.
       case v of
         None \<Rightarrow> give None
       | Some raw \<Rightarrow>
           (case parse_size raw of
              Some n \<Rightarrow> give (Some n)
            | None \<Rightarrow>
                refuse (MalformedXml (''attribute '' @ attr_name @ ''='' @ debug_str raw @
                          '' is not a valid decimal or 0x-prefixed u64'') None)))"

definition checksum_attr ::
    "xml_library \<Rightarrow> dat_limits \<Rightarrow> xml_element \<Rightarrow> string \<Rightarrow> (string \<Rightarrow> string option) \<Rightarrow> string \<Rightarrow> string option reading" where
  "checksum_attr lib limits elem attr_name normalise where_found =
     then_read (attr_str_opt lib limits elem attr_name) (\<lambda>v.
       case v of
         None \<Rightarrow> give None
       | Some raw \<Rightarrow>
           (case normalise raw of
              Some h \<Rightarrow> give (Some h)
            | None \<Rightarrow> (\<lambda>ws. Inr (None, record_warning (max_warnings limits) ''checksum_dropped''
                (attr_name @ '' attribute on '' @ where_found @
                 '' is not a well-formed checksum and was dropped: '' @ debug_str (take 32 raw)) ws))))"

section \<open>Entries read from one element\<close>

text \<open>A rom element, whichever form it has; a missing name is kept as an empty one.\<close>

definition rom_name_attr :: "xml_library \<Rightarrow> dat_limits \<Rightarrow> xml_element \<Rightarrow> string reading" where
  "rom_name_attr lib limits elem =
     then_read (attr_str_checked lib limits elem ''name'') (\<lambda>n.
       case n of
         Some t \<Rightarrow> give t
       | None \<Rightarrow> (\<lambda>ws. Inr ([], record_warning (max_warnings limits) ''rom_missing_name''
           ''ROM element missing name; retained for structural classification'' ws)))"

definition read_rom_entry :: "xml_library \<Rightarrow> dat_limits \<Rightarrow> xml_element \<Rightarrow> dat_rom_entry reading" where
  "read_rom_entry lib limits elem =
     (let str = attr_str_opt lib limits elem;
          sum = (\<lambda>attr normalise. checksum_attr lib limits elem attr normalise ''a rom element'') in
      then_read (rom_name_attr lib limits elem) (\<lambda>rom_name.
      then_read (attr_u64 lib limits elem ''size'') (\<lambda>bytes.
      then_read (sum ''crc'' normalise_crc32) (\<lambda>crc.
      then_read (sum ''md5'' normalise_md5) (\<lambda>md5.
      then_read (sum ''sha1'' normalise_sha1) (\<lambda>sha1.
      then_read (sum ''sha256'' normalise_sha256) (\<lambda>sha256.
      then_read (str ''status'') (\<lambda>status.
      then_read (str ''merge'') (\<lambda>merge.
      then_read (str ''date'') (\<lambda>date.
      then_read (str ''offset'') (\<lambda>offset.
      then_read (str ''loadflag'') (\<lambda>loadflag.
      then_read (str ''value'') (\<lambda>val.
      then_read (str ''optional'') (\<lambda>optional.
      then_read (str ''bios'') (\<lambda>bios.
      then_read (str ''region'') (\<lambda>region.
        give \<lparr> dr_name = rom_name, dr_size_bytes = bytes, dr_crc32 = crc, dr_md5 = md5,
               dr_sha1 = sha1, dr_sha256 = sha256, dr_status = status, dr_merge = merge,
               dr_date = date, dr_offset = offset, dr_loadflag = loadflag, dr_value = val,
               dr_optional = optional, dr_bios = bios, dr_region = region \<rparr>))))))))))))))))"

text \<open>The first attribute of two that has a value.\<close>

definition attr_or_else :: "xml_library \<Rightarrow> dat_limits \<Rightarrow> xml_element \<Rightarrow> string \<Rightarrow> string \<Rightarrow> string option reading" where
  "attr_or_else lib limits elem first second =
     then_read (attr_str_opt lib limits elem first) (\<lambda>v.
       case v of Some t \<Rightarrow> give v | None \<Rightarrow> attr_str_opt lib limits elem second)"

definition parse_disk_entry :: "xml_library \<Rightarrow> dat_limits \<Rightarrow> xml_element \<Rightarrow> dat_disk_entry reading" where
  "parse_disk_entry lib limits elem =
     (let str = attr_str_opt lib limits elem in
      then_read (attr_or_else lib limits elem ''writable'' ''writeable'') (\<lambda>writable.
      then_read (str ''name'') (\<lambda>disk_name.
      then_read (checksum_attr lib limits elem ''sha1'' normalise_sha1 ''a disk element'') (\<lambda>sha1.
      then_read (str ''merge'') (\<lambda>merge.
      then_read (str ''region'') (\<lambda>region.
      then_read (str ''index'') (\<lambda>index.
      then_read (str ''status'') (\<lambda>status.
      then_read (str ''optional'') (\<lambda>optional.
        give \<lparr> dd_name = disk_name, dd_sha1 = sha1, dd_merge = merge, dd_region = region,
               dd_index = index, dd_writable = writable, dd_status = status,
               dd_optional = optional \<rparr>)))))))))"

definition parse_bios_set_entry :: "xml_library \<Rightarrow> dat_limits \<Rightarrow> xml_element \<Rightarrow> dat_bios_set_entry reading" where
  "parse_bios_set_entry lib limits elem =
     (let str = attr_str_opt lib limits elem in
      then_read (str ''name'') (\<lambda>set_name.
      then_read (str ''description'') (\<lambda>description.
      then_read (str ''default'') (\<lambda>default.
        give \<lparr> bs_name = set_name, bs_description = description, bs_default = default \<rparr>))))"

definition parse_part_entry :: "xml_library \<Rightarrow> dat_limits \<Rightarrow> xml_element \<Rightarrow> dat_part_entry reading" where
  "parse_part_entry lib limits elem =
     (let str = attr_str_opt lib limits elem in
      then_read (str ''name'') (\<lambda>part_name.
      then_read (str ''interface'') (\<lambda>part_interface.
        give \<lparr> dp_name = part_name, dp_interface = part_interface, dp_data_areas = [], dp_disk_areas = [] \<rparr>)))"

section \<open>The parser's state\<close>

record current_entry =
  lg_name :: "string option"
  lg_id :: "string option"
  lg_desc :: "string option"
  lg_clone_of :: "string option"
  lg_rom_of :: "string option"
  lg_sample_of :: "string option"
  lg_is_bios :: "string option"
  lg_is_device :: "string option"
  lg_runnable :: "string option"
  lg_supported :: "string option"
  lg_metadata :: dat_original_metadata
  lg_unsupported :: bool

record logiqx_state =
  lq_name :: "string option"
  lq_description :: "string option"
  lq_version :: "string option"
  lq_author :: "string option"
  lq_homepage :: "string option"
  lq_clrmamepro :: "string option"
  lq_warnings :: "parse_warning list"
  lq_games :: "dat_game_entry list"
  lq_entry :: current_entry
  lq_roms :: "dat_rom_entry list"
  lq_disks :: "dat_disk_entry list"
  lq_device_refs :: "dat_device_ref_entry list"
  lq_samples :: "dat_sample_entry list"
  lq_bios_sets :: "dat_bios_set_entry list"
  lq_parts :: "dat_part_entry list"
  lq_part :: "dat_part_entry option"
  lq_part_depth :: "nat option"
  lq_data_area :: "dat_data_area_entry option"
  lq_data_area_depth :: "nat option"
  lq_disk_area :: "dat_disk_area_entry option"
  lq_disk_area_depth :: "nat option"
  lq_disk :: "dat_disk_entry option"
  lq_disk_depth :: "nat option"
  lq_rom_count :: nat
  lq_rom :: "dat_rom_entry option"
  lq_text :: string
  lq_depth :: nat
  lq_in_game :: bool

definition no_entry :: current_entry where
  "no_entry =
     \<lparr> lg_name = None, lg_id = None, lg_desc = None, lg_clone_of = None, lg_rom_of = None,
       lg_sample_of = None, lg_is_bios = None, lg_is_device = None, lg_runnable = None,
       lg_supported = None, lg_metadata = fmempty, lg_unsupported = False \<rparr>"

definition logiqx_start :: logiqx_state where
  "logiqx_start =
     \<lparr> lq_name = None, lq_description = None, lq_version = None, lq_author = None, lq_homepage = None,
       lq_clrmamepro = None, lq_warnings = [], lq_games = [], lq_entry = no_entry, lq_roms = [],
       lq_disks = [], lq_device_refs = [], lq_samples = [], lq_bios_sets = [], lq_parts = [],
       lq_part = None, lq_part_depth = None, lq_data_area = None, lq_data_area_depth = None,
       lq_disk_area = None, lq_disk_area_depth = None, lq_disk = None, lq_disk_depth = None,
       lq_rom_count = 0, lq_rom = None, lq_text = [], lq_depth = 0, lq_in_game = False \<rparr>"

definition warn :: "dat_limits \<Rightarrow> string \<Rightarrow> string \<Rightarrow> logiqx_state \<Rightarrow> logiqx_state" where
  "warn limits code message s = s\<lparr>lq_warnings := record_warning (max_warnings limits) code message (lq_warnings s)\<rparr>"

text \<open>Runs a reading on the diagnostics collected so far and hands its value on.\<close>

definition with_reading ::
    "'a reading \<Rightarrow> ('a \<Rightarrow> logiqx_state \<Rightarrow> logiqx_state) \<Rightarrow> logiqx_state \<Rightarrow> parse_error + logiqx_state" where
  "with_reading m k s =
     (case m (lq_warnings s) of Inl err \<Rightarrow> Inl err | Inr (x, ws) \<Rightarrow> Inr (k x (s\<lparr>lq_warnings := ws\<rparr>)))"

section \<open>Structures\<close>

definition append_rom :: "dat_rom_entry \<Rightarrow> logiqx_state \<Rightarrow> logiqx_state" where
  "append_rom rom s =
     (case lq_data_area s of
        Some area \<Rightarrow> s\<lparr>lq_data_area := Some (area\<lparr>da_roms := da_roms area @ [rom]\<rparr>)\<rparr>
      | None \<Rightarrow> s\<lparr>lq_roms := lq_roms s @ [rom]\<rparr>)"

definition append_disk :: "dat_disk_entry \<Rightarrow> logiqx_state \<Rightarrow> logiqx_state" where
  "append_disk disk s =
     (case lq_disk_area s of
        Some area \<Rightarrow> s\<lparr>lq_disk_area := Some (area\<lparr>dk_disks := dk_disks area @ [disk]\<rparr>)\<rparr>
      | None \<Rightarrow> s\<lparr>lq_disks := lq_disks s @ [disk]\<rparr>)"

text \<open>An area is taken whether or not there is a part to put it in.\<close>

definition close_data_area :: "logiqx_state \<Rightarrow> logiqx_state" where
  "close_data_area s =
     (case (lq_data_area s, lq_part s) of
        (Some area, Some part) \<Rightarrow>
          s\<lparr>lq_data_area := None, lq_part := Some (part\<lparr>dp_data_areas := dp_data_areas part @ [area]\<rparr>)\<rparr>
      | _ \<Rightarrow> s\<lparr>lq_data_area := None\<rparr>)"

definition close_disk_area :: "logiqx_state \<Rightarrow> logiqx_state" where
  "close_disk_area s =
     (case (lq_disk_area s, lq_part s) of
        (Some area, Some part) \<Rightarrow>
          s\<lparr>lq_disk_area := None, lq_part := Some (part\<lparr>dp_disk_areas := dp_disk_areas part @ [area]\<rparr>)\<rparr>
      | _ \<Rightarrow> s\<lparr>lq_disk_area := None\<rparr>)"

definition close_disk :: "logiqx_state \<Rightarrow> logiqx_state" where
  "close_disk s =
     (case lq_disk s of None \<Rightarrow> s | Some disk \<Rightarrow> append_disk disk (s\<lparr>lq_disk := None\<rparr>))"

definition close_part :: "logiqx_state \<Rightarrow> logiqx_state" where
  "close_part s =
     (case lq_part s of None \<Rightarrow> s | Some part \<Rightarrow> s\<lparr>lq_part := None, lq_parts := lq_parts s @ [part]\<rparr>)"

definition finish_current_structure :: "logiqx_state \<Rightarrow> logiqx_state" where
  "finish_current_structure s = close_part (close_disk_area (close_data_area (close_disk s)))"

definition entry_of :: "string \<Rightarrow> logiqx_state \<Rightarrow> dat_game_entry" where
  "entry_of game_name s =
     (let g = lq_entry s in
      \<lparr> dg_name = game_name, dg_id = lg_id g, dg_description = lg_desc g, dg_roms = lq_roms s,
        dg_clone_of = lg_clone_of g, dg_rom_of = lg_rom_of g, dg_sample_of = lg_sample_of g,
        dg_is_bios = lg_is_bios g, dg_is_device = lg_is_device g, dg_runnable = lg_runnable g,
        dg_supported = lg_supported g, dg_disks = lq_disks s, dg_device_refs = lq_device_refs s,
        dg_samples = lq_samples s, dg_bios_sets = lq_bios_sets s, dg_parts = lq_parts s,
        dg_board = None, dg_rebuild_to = None, dg_year = None, dg_manufacturer = None,
        dg_source_file = None, dg_comment = None, dg_original_metadata = lg_metadata g,
        dg_content_classification = unknown_classification,
        dg_unsupported_structure = lg_unsupported g \<rparr>)"

definition no_members :: "logiqx_state \<Rightarrow> logiqx_state" where
  "no_members s =
     s\<lparr>lq_roms := [], lq_disks := [], lq_device_refs := [], lq_samples := [], lq_bios_sets := [], lq_parts := []\<rparr>"

text \<open>Emits the entry of the game being read when it has a name; an unnamed one is discarded.\<close>

definition drop_current_game :: "logiqx_state \<Rightarrow> logiqx_state" where
  "drop_current_game s0 =
     (let s = close_part s0 in
      case lg_name (lq_entry s) of
        Some game_name \<Rightarrow>
          no_members (s\<lparr>lq_games := lq_games s @ [entry_of game_name s], lq_entry := no_entry\<rparr>)
      | None \<Rightarrow>
          no_members (s\<lparr>lq_entry := (lq_entry s)\<lparr>lg_rom_of := None, lg_sample_of := None, lg_is_bios := None,
            lg_runnable := None, lg_supported := None, lg_unsupported := False\<rparr>\<rparr>))"

section \<open>Start of an element\<close>

definition metadata_attributes :: "string list" where
  "metadata_attributes = [''category'', ''type'', ''content_type'', ''media'', ''release_type'', ''archive_devstatus'']"

fun read_metadata :: "xml_library \<Rightarrow> dat_limits \<Rightarrow> xml_element \<Rightarrow> string list \<Rightarrow> dat_original_metadata \<Rightarrow> dat_original_metadata reading" where
  "read_metadata lib limits elem [] m = give m"
| "read_metadata lib limits elem (key # keys) m =
     then_read (attr_str_opt lib limits elem key) (\<lambda>v.
       read_metadata lib limits elem keys (case v of None \<Rightarrow> m | Some t \<Rightarrow> fmupd key t m))"

definition read_game :: "xml_library \<Rightarrow> dat_limits \<Rightarrow> string \<Rightarrow> xml_element \<Rightarrow> current_entry reading" where
  "read_game lib limits tag elem =
     (let str = attr_str_opt lib limits elem in
      then_read (attr_str_checked lib limits elem ''name'') (\<lambda>game_name.
      then_read (str ''id'') (\<lambda>game_id.
      then_read (attr_or_else lib limits elem ''cloneof'' ''cloneofid'') (\<lambda>clone_of.
      then_read (str ''romof'') (\<lambda>rom_of.
      then_read (str ''sampleof'') (\<lambda>sample_of.
      then_read (str ''isbios'') (\<lambda>is_bios.
      then_read (str ''isdevice'') (\<lambda>is_device.
      then_read (str ''runnable'') (\<lambda>runnable.
      then_read (if tag = ''software'' then str ''supported'' else give None) (\<lambda>supported.
      then_read (read_metadata lib limits elem metadata_attributes fmempty) (\<lambda>attributes.
        give \<lparr> lg_name = game_name, lg_id = game_id, lg_desc = None, lg_clone_of = clone_of,
               lg_rom_of = rom_of, lg_sample_of = sample_of, lg_is_bios = is_bios,
               lg_is_device = is_device, lg_runnable = runnable, lg_supported = supported,
               lg_metadata = attributes, lg_unsupported = False \<rparr>)))))))))))"

definition open_entry :: "current_entry \<Rightarrow> logiqx_state \<Rightarrow> logiqx_state" where
  "open_entry g s =
     (no_members s)
       \<lparr>lq_entry := g, lq_part := None, lq_part_depth := None, lq_data_area := None,
        lq_data_area_depth := None, lq_disk_area := None, lq_disk_area_depth := None,
        lq_disk := None, lq_disk_depth := None, lq_rom_count := 0\<rparr>"

definition start_game :: "xml_library \<Rightarrow> dat_limits \<Rightarrow> string \<Rightarrow> xml_element \<Rightarrow> logiqx_state \<Rightarrow> parse_error + logiqx_state" where
  "start_game lib limits tag elem s =
     (let s1 = drop_current_game (finish_current_structure (s\<lparr>lq_in_game := True\<rparr>)) in
      if length (lq_games s1) \<ge> max_entries limits
      then Inl (EntryLimitExceeded (length (lq_games s1)) (max_entries limits))
      else with_reading (read_game lib limits tag elem) open_entry s1)"

definition too_many_roms :: "dat_limits \<Rightarrow> logiqx_state \<Rightarrow> parse_error" where
  "too_many_roms limits s =
     RomsPerEntryExceeded (case lg_name (lq_entry s) of Some n \<Rightarrow> n | None \<Rightarrow> ''<unnamed game>'')
       (length (lq_roms s)) (max_roms_per_entry limits)"

definition start_rom :: "xml_library \<Rightarrow> dat_limits \<Rightarrow> xml_element \<Rightarrow> logiqx_state \<Rightarrow> parse_error + logiqx_state" where
  "start_rom lib limits elem s =
     (if lq_rom_count s \<ge> max_roms_per_entry limits then Inl (too_many_roms limits s)
      else with_reading (read_rom_entry lib limits elem) (\<lambda>rom s. s\<lparr>lq_rom := Some rom\<rparr>) s)"

definition mark_unsupported :: "logiqx_state \<Rightarrow> logiqx_state" where
  "mark_unsupported s = s\<lparr>lq_entry := (lq_entry s)\<lparr>lg_unsupported := True\<rparr>\<rparr>"

definition refuse_nested :: "dat_limits \<Rightarrow> string \<Rightarrow> logiqx_state \<Rightarrow> logiqx_state" where
  "refuse_nested limits element s =
     (mark_unsupported s)\<lparr>lq_warnings := record_nested_state_warning (max_warnings limits) element (lq_warnings s)\<rparr>"

definition start_disk :: "xml_library \<Rightarrow> dat_limits \<Rightarrow> xml_element \<Rightarrow> logiqx_state \<Rightarrow> parse_error + logiqx_state" where
  "start_disk lib limits elem s =
     (if lq_disk s \<noteq> None then Inr (refuse_nested limits ''disk'' s)
      else with_reading (parse_disk_entry lib limits elem)
             (\<lambda>disk s. s\<lparr>lq_disk := Some disk, lq_disk_depth := Some (lq_depth s)\<rparr>) s)"

definition read_device_ref :: "xml_library \<Rightarrow> dat_limits \<Rightarrow> xml_element \<Rightarrow> logiqx_state \<Rightarrow> parse_error + logiqx_state" where
  "read_device_ref lib limits elem s =
     with_reading (attr_str_opt lib limits elem ''name'')
       (\<lambda>n s. s\<lparr>lq_device_refs := lq_device_refs s @ [\<lparr> dv_name = n \<rparr>]\<rparr>) s"

definition read_sample :: "xml_library \<Rightarrow> dat_limits \<Rightarrow> xml_element \<Rightarrow> logiqx_state \<Rightarrow> parse_error + logiqx_state" where
  "read_sample lib limits elem s =
     with_reading (attr_str_opt lib limits elem ''name'')
       (\<lambda>n s. s\<lparr>lq_samples := lq_samples s @ [\<lparr> dsm_name = n \<rparr>]\<rparr>) s"

definition read_bios_set :: "xml_library \<Rightarrow> dat_limits \<Rightarrow> xml_element \<Rightarrow> logiqx_state \<Rightarrow> parse_error + logiqx_state" where
  "read_bios_set lib limits elem s =
     with_reading (parse_bios_set_entry lib limits elem)
       (\<lambda>b s. s\<lparr>lq_bios_sets := lq_bios_sets s @ [b]\<rparr>) s"

definition start_part :: "xml_library \<Rightarrow> dat_limits \<Rightarrow> xml_element \<Rightarrow> logiqx_state \<Rightarrow> parse_error + logiqx_state" where
  "start_part lib limits elem s =
     (if lq_part s \<noteq> None then Inr (refuse_nested limits ''part'' s)
      else with_reading (parse_part_entry lib limits elem)
             (\<lambda>part s. s\<lparr>lq_part := Some part, lq_part_depth := Some (lq_depth s)\<rparr>) s)"

definition start_data_area :: "xml_library \<Rightarrow> dat_limits \<Rightarrow> xml_element \<Rightarrow> logiqx_state \<Rightarrow> parse_error + logiqx_state" where
  "start_data_area lib limits elem s =
     (if lq_data_area s \<noteq> None then Inr (refuse_nested limits ''dataarea'' s)
      else if lq_part s \<noteq> None then
        with_reading (attr_str_opt lib limits elem ''name'')
          (\<lambda>n s. s\<lparr>lq_data_area := Some \<lparr> da_name = n, da_roms = [] \<rparr>, lq_data_area_depth := Some (lq_depth s)\<rparr>) s
      else Inr (mark_unsupported s))"

definition start_disk_area :: "xml_library \<Rightarrow> dat_limits \<Rightarrow> xml_element \<Rightarrow> logiqx_state \<Rightarrow> parse_error + logiqx_state" where
  "start_disk_area lib limits elem s =
     (if lq_disk_area s \<noteq> None then Inr (refuse_nested limits ''diskarea'' s)
      else if lq_part s \<noteq> None then
        with_reading (attr_str_opt lib limits elem ''name'')
          (\<lambda>n s. s\<lparr>lq_disk_area := Some \<lparr> dk_name = n, dk_disks = [] \<rparr>, lq_disk_area_depth := Some (lq_depth s)\<rparr>) s
      else Inr (mark_unsupported s))"

definition game_tags :: "string list" where
  "game_tags = [''game'', ''machine'', ''software'']"

definition clear_text :: "logiqx_state \<Rightarrow> logiqx_state" where
  "clear_text s = s\<lparr>lq_text := []\<rparr>"

definition start_tag :: "xml_library \<Rightarrow> dat_limits \<Rightarrow> string \<Rightarrow> xml_element \<Rightarrow> logiqx_state \<Rightarrow> parse_error + logiqx_state" where
  "start_tag lib limits tag elem s =
     (if tag \<in> set game_tags then start_game lib limits tag elem s
      else if \<not> lq_in_game s then Inr s
      else if tag = ''rom'' then start_rom lib limits elem s
      else if tag = ''disk'' then start_disk lib limits elem s
      else if tag = ''device_ref'' then read_device_ref lib limits elem s
      else if tag = ''sample'' then read_sample lib limits elem s
      else if tag = ''biosset'' then read_bios_set lib limits elem s
      else if tag = ''part'' then start_part lib limits elem s
      else if tag = ''dataarea'' then start_data_area lib limits elem s
      else if tag = ''diskarea'' then start_disk_area lib limits elem s
      else if tag = ''device'' then Inr (mark_unsupported s)
      else Inr s)"

definition start_element :: "xml_library \<Rightarrow> dat_limits \<Rightarrow> xml_element \<Rightarrow> logiqx_state \<Rightarrow> parse_error + logiqx_state" where
  "start_element lib limits elem s0 =
     (let s = s0\<lparr>lq_depth := lq_depth s0 + 1\<rparr> in
      if lq_depth s > max_xml_depth limits then Inl (XmlDepthExceeded (lq_depth s) (max_xml_depth limits))
      else
        case xe_tag elem of
          Inl err \<Rightarrow> Inl (MalformedXml err (Some (xe_position elem)))
        | Inr tag \<Rightarrow> map_sum id clear_text (start_tag lib limits (to_ascii_lowercase tag) elem s))"

section \<open>End of an element\<close>

definition end_header_description :: "dat_limits \<Rightarrow> logiqx_state \<Rightarrow> logiqx_state" where
  "end_header_description limits s =
     (let t = trim (lq_text s) in
      if utf8_len t > max_description_length limits
      then (warn limits ''description_truncated''
              (''description truncated from '' @ nat_to_string (utf8_len t) @ '' to '' @
               nat_to_string (max_description_length limits) @ '' bytes'') s)
             \<lparr>lq_description := Some (take (max_description_length limits) t)\<rparr>
      else s\<lparr>lq_description := Some t\<rparr>)"

definition end_game_description :: "dat_limits \<Rightarrow> logiqx_state \<Rightarrow> logiqx_state" where
  "end_game_description limits s =
     (let t = trim (lq_text s) in
      if utf8_len t > max_description_length limits
      then (warn limits ''game_description_truncated''
              (''game description truncated at '' @ nat_to_string (max_description_length limits) @ '' bytes'') s)
             \<lparr>lq_entry := (lq_entry s)\<lparr>lg_desc := Some (take (max_description_length limits) t)\<rparr>\<rparr>
      else if t \<noteq> [] then s\<lparr>lq_entry := (lq_entry s)\<lparr>lg_desc := Some t\<rparr>\<rparr>
      else s)"

definition end_metadata :: "string \<Rightarrow> logiqx_state \<Rightarrow> logiqx_state" where
  "end_metadata tag s =
     (let v = trim (lq_text s) in
      if v \<noteq> [] then s\<lparr>lq_entry := (lq_entry s)\<lparr>lg_metadata := fmupd tag v (lg_metadata (lq_entry s))\<rparr>\<rparr>
      else s)"

definition end_rom :: "logiqx_state \<Rightarrow> logiqx_state" where
  "end_rom s =
     (case lq_rom s of
        None \<Rightarrow> s
      | Some rom \<Rightarrow> (append_rom rom (s\<lparr>lq_rom := None\<rparr>))\<lparr>lq_rom_count := lq_rom_count s + 1\<rparr>)"

text \<open>A structure is closed by the end tag at the depth it was opened at, and by no other.\<close>

definition end_disk :: "logiqx_state \<Rightarrow> logiqx_state" where
  "end_disk s =
     (if lq_disk_depth s = Some (lq_depth s + 1) then (close_disk s)\<lparr>lq_disk_depth := None\<rparr> else s)"

definition end_data_area :: "logiqx_state \<Rightarrow> logiqx_state" where
  "end_data_area s =
     (if lq_data_area_depth s = Some (lq_depth s + 1) then (close_data_area s)\<lparr>lq_data_area_depth := None\<rparr> else s)"

definition end_disk_area :: "logiqx_state \<Rightarrow> logiqx_state" where
  "end_disk_area s =
     (if lq_disk_area_depth s = Some (lq_depth s + 1) then (close_disk_area s)\<lparr>lq_disk_area_depth := None\<rparr> else s)"

definition end_part :: "logiqx_state \<Rightarrow> logiqx_state" where
  "end_part s =
     (if lq_part_depth s = Some (lq_depth s + 1) then (close_part s)\<lparr>lq_part_depth := None\<rparr> else s)"

definition end_tag :: "dat_limits \<Rightarrow> string \<Rightarrow> logiqx_state \<Rightarrow> logiqx_state" where
  "end_tag limits tag s =
     (if \<not> lq_in_game s \<and> tag = ''name'' then s\<lparr>lq_name := Some (trim (lq_text s))\<rparr>
      else if \<not> lq_in_game s \<and> tag = ''description'' then end_header_description limits s
      else if \<not> lq_in_game s \<and> tag = ''version'' then s\<lparr>lq_version := Some (trim (lq_text s))\<rparr>
      else if \<not> lq_in_game s \<and> tag = ''author'' then s\<lparr>lq_author := Some (trim (lq_text s))\<rparr>
      else if \<not> lq_in_game s \<and> tag = ''homepage'' then s\<lparr>lq_homepage := Some (trim (lq_text s))\<rparr>
      else if \<not> lq_in_game s \<and> tag = ''clrmamepro'' then s\<lparr>lq_clrmamepro := Some (trim (lq_text s))\<rparr>
      else if tag = ''description'' then end_game_description limits s
      else if tag \<in> set metadata_attributes \<and> lq_in_game s then end_metadata tag s
      else if tag = ''rom'' then end_rom s
      else if tag = ''disk'' then end_disk s
      else if tag = ''dataarea'' then end_data_area s
      else if tag = ''diskarea'' then end_disk_area s
      else if tag = ''part'' then end_part s
      else if tag \<in> set game_tags then s\<lparr>lq_in_game := False\<rparr>
      else s)"

definition end_element :: "dat_limits \<Rightarrow> string + string \<Rightarrow> nat \<Rightarrow> logiqx_state \<Rightarrow> parse_error + logiqx_state" where
  "end_element limits tag_bytes position s =
     (case tag_bytes of
        Inl err \<Rightarrow> Inl (MalformedXml err (Some position))
      | Inr tag \<Rightarrow>
          Inr (clear_text (end_tag limits (to_ascii_lowercase tag) (s\<lparr>lq_depth := lq_depth s - 1\<rparr>))))"

section \<open>Self-closing elements\<close>

definition empty_rom :: "xml_library \<Rightarrow> dat_limits \<Rightarrow> xml_element \<Rightarrow> logiqx_state \<Rightarrow> parse_error + logiqx_state" where
  "empty_rom lib limits elem s =
     (if lq_rom_count s \<ge> max_roms_per_entry limits then Inl (too_many_roms limits s)
      else with_reading (read_rom_entry lib limits elem)
             (\<lambda>rom s. (append_rom rom s)\<lparr>lq_rom_count := lq_rom_count s + 1\<rparr>) s)"

definition empty_disk :: "xml_library \<Rightarrow> dat_limits \<Rightarrow> xml_element \<Rightarrow> logiqx_state \<Rightarrow> parse_error + logiqx_state" where
  "empty_disk lib limits elem s =
     (if lq_disk s \<noteq> None then Inr (refuse_nested limits ''disk'' s)
      else with_reading (parse_disk_entry lib limits elem) append_disk s)"

definition empty_part :: "xml_library \<Rightarrow> dat_limits \<Rightarrow> xml_element \<Rightarrow> logiqx_state \<Rightarrow> parse_error + logiqx_state" where
  "empty_part lib limits elem s =
     (if lq_part s \<noteq> None then Inr (refuse_nested limits ''part'' s)
      else with_reading (parse_part_entry lib limits elem) (\<lambda>part s. s\<lparr>lq_parts := lq_parts s @ [part]\<rparr>) s)"

definition empty_data_area :: "xml_library \<Rightarrow> dat_limits \<Rightarrow> xml_element \<Rightarrow> logiqx_state \<Rightarrow> parse_error + logiqx_state" where
  "empty_data_area lib limits elem s =
     (if lq_data_area s \<noteq> None then Inr (refuse_nested limits ''dataarea'' s)
      else case lq_part s of
        Some part \<Rightarrow>
          with_reading (attr_str_opt lib limits elem ''name'')
            (\<lambda>n s. s\<lparr>lq_part := Some (part\<lparr>dp_data_areas := dp_data_areas part @ [\<lparr> da_name = n, da_roms = [] \<rparr>]\<rparr>)\<rparr>) s
      | None \<Rightarrow> Inr (mark_unsupported s))"

definition empty_disk_area :: "xml_library \<Rightarrow> dat_limits \<Rightarrow> xml_element \<Rightarrow> logiqx_state \<Rightarrow> parse_error + logiqx_state" where
  "empty_disk_area lib limits elem s =
     (if lq_disk_area s \<noteq> None then Inr (refuse_nested limits ''diskarea'' s)
      else case lq_part s of
        Some part \<Rightarrow>
          with_reading (attr_str_opt lib limits elem ''name'')
            (\<lambda>n s. s\<lparr>lq_part := Some (part\<lparr>dp_disk_areas := dp_disk_areas part @ [\<lparr> dk_name = n, dk_disks = [] \<rparr>]\<rparr>)\<rparr>) s
      | None \<Rightarrow> Inr (mark_unsupported s))"

definition empty_tag :: "xml_library \<Rightarrow> dat_limits \<Rightarrow> string \<Rightarrow> xml_element \<Rightarrow> logiqx_state \<Rightarrow> parse_error + logiqx_state" where
  "empty_tag lib limits tag elem s =
     (if \<not> lq_in_game s then Inr s
      else if tag = ''rom'' then empty_rom lib limits elem s
      else if tag = ''disk'' then empty_disk lib limits elem s
      else if tag = ''device_ref'' then read_device_ref lib limits elem s
      else if tag = ''sample'' then read_sample lib limits elem s
      else if tag = ''biosset'' then read_bios_set lib limits elem s
      else if tag = ''part'' then empty_part lib limits elem s
      else if tag = ''dataarea'' then empty_data_area lib limits elem s
      else if tag = ''diskarea'' then empty_disk_area lib limits elem s
      else if tag = ''device'' then Inr (mark_unsupported s)
      else Inr s)"

definition empty_element :: "xml_library \<Rightarrow> dat_limits \<Rightarrow> xml_element \<Rightarrow> logiqx_state \<Rightarrow> parse_error + logiqx_state" where
  "empty_element lib limits elem s =
     (case xe_tag elem of
        Inl err \<Rightarrow> Inl (MalformedXml err (Some (xe_position elem)))
      | Inr tag \<Rightarrow> map_sum id clear_text (empty_tag lib limits (to_ascii_lowercase tag) elem s))"

section \<open>Text and references\<close>

definition push_text :: "string \<Rightarrow> logiqx_state \<Rightarrow> logiqx_state" where
  "push_text t s = s\<lparr>lq_text := lq_text s @ t\<rparr>"

definition text_event :: "xml_library \<Rightarrow> dat_limits \<Rightarrow> string + string \<Rightarrow> logiqx_state \<Rightarrow> logiqx_state" where
  "text_event lib limits decoded s =
     (case decoded of
        Inr t \<Rightarrow>
          (case xl_unescape lib t of
             Inr resolved \<Rightarrow> push_text resolved s
           | Inl err \<Rightarrow>
               push_text t (warn limits ''entity_unresolved_text''
                 (''unresolvable entity reference in text kept as written: '' @ err) s))
      | Inl err \<Rightarrow>
          warn limits ''text_invalid_utf8'' (''text that is not valid UTF-8 was dropped: '' @ err) s)"

definition reference_event :: "xml_library \<Rightarrow> dat_limits \<Rightarrow> string + string \<Rightarrow> char option \<Rightarrow> logiqx_state \<Rightarrow> logiqx_state" where
  "reference_event lib limits decoded char_ref s =
     (case decoded of
        Inr name \<Rightarrow>
          (case char_ref of
             Some c \<Rightarrow> push_text [c] s
           | None \<Rightarrow>
               (case xl_predefined lib name of
                  Some resolved \<Rightarrow> push_text resolved s
                | None \<Rightarrow>
                    push_text (''&'' @ name @ '';'') (warn limits ''entity_unrecognized''
                      (''unresolvable entity reference in text kept as written: unrecognized entity `'' @
                       name @ ''`'') s)))
      | Inl err \<Rightarrow>
          warn limits ''reference_invalid_utf8''
            (''a reference that is not valid UTF-8 was dropped: '' @ err) s)"

fun doctype_code :: "doctype_outcome \<Rightarrow> string" where
  "doctype_code NoDoctype = ''doctype_none''"
| "doctype_code (TrustedDtdResolved name source) = ''trusted_dtd_resolved''"
| "doctype_code (TrustedDtdUnavailable name) = ''trusted_dtd_unavailable''"
| "doctype_code (UnsafeOrUnknownDoctypeIgnored reason) = ''unsafe_or_unknown_doctype_ignored''"

definition doctype_event :: "dat_limits \<Rightarrow> doctype_outcome \<Rightarrow> logiqx_state \<Rightarrow> logiqx_state" where
  "doctype_event limits outcome s =
     (let message = describe_doctype_outcome outcome; ws = lq_warnings s in
      s\<lparr>lq_warnings :=
          (case outcome of
             UnsafeOrUnknownDoctypeIgnored reason \<Rightarrow> record_warning (max_warnings limits) (doctype_code outcome) message ws
           | _ \<Rightarrow> record_note (max_warnings limits) (doctype_code outcome) message ws)\<rparr>)"

section \<open>A document\<close>

text \<open>The reader's surroundings: its library, what a DOCTYPE resolves to, the limits.\<close>

record logiqx_context =
  lx_library :: xml_library
  lx_doctype :: "string option \<Rightarrow> doctype_outcome"
  lx_limits :: dat_limits

definition handle_event :: "logiqx_context \<Rightarrow> xml_event \<Rightarrow> logiqx_state \<Rightarrow> parse_error + logiqx_state" where
  "handle_event ctx event s =
     (let lib = lx_library ctx; limits = lx_limits ctx in
      case event of
        DeclEvent \<Rightarrow> Inr s
      | DocTypeEvent raw \<Rightarrow> Inr (doctype_event limits (lx_doctype ctx raw) s)
      | StartEvent elem \<Rightarrow> start_element lib limits elem s
      | EndEvent tag position \<Rightarrow> end_element limits tag position s
      | EmptyEvent elem \<Rightarrow> empty_element lib limits elem s
      | TextEvent decoded \<Rightarrow> Inr (text_event lib limits decoded s)
      | CDataEvent content \<Rightarrow> Inr (case content of None \<Rightarrow> s | Some t \<Rightarrow> push_text t s)
      | RefEvent decoded char_ref \<Rightarrow> Inr (reference_event lib limits decoded char_ref s)
      | CommentEvent \<Rightarrow> Inr s
      | PiEvent \<Rightarrow> Inr s
      | ReaderError detail position \<Rightarrow> Inl (MalformedXml detail (Some position)))"

definition end_of_file :: "dat_limits \<Rightarrow> logiqx_state \<Rightarrow> logiqx_state" where
  "end_of_file limits s =
     (if lq_depth s > 0
      then warn limits ''document_truncated''
             (''document ended with '' @ nat_to_string (lq_depth s) @ '' element(s) still open: the DAT is '' @
              ''truncated and these entries may be incomplete'') s
      else s)"

text \<open>An end tag outside every element stops the reading; so does the end of the file.\<close>

definition stops :: "xml_event \<Rightarrow> logiqx_state \<Rightarrow> bool" where
  "stops event s \<longleftrightarrow> (case event of EndEvent tag position \<Rightarrow> lq_depth s = 0 | _ \<Rightarrow> False)"

fun parse_events :: "logiqx_context \<Rightarrow> xml_event list \<Rightarrow> logiqx_state \<Rightarrow> parse_error + logiqx_state" where
  "parse_events ctx [] s = Inr (end_of_file (lx_limits ctx) s)"
| "parse_events ctx (event # events) s =
     (if stops event s then Inr s
      else case handle_event ctx event s of Inl err \<Rightarrow> Inl err | Inr s' \<Rightarrow> parse_events ctx events s')"

definition detect_logiqx_ecosystem :: "string option \<Rightarrow> string option \<Rightarrow> dat_ecosystem" where
  "detect_logiqx_ecosystem name author =
     (let name_lower = to_ascii_lowercase (case name of None \<Rightarrow> [] | Some n \<Rightarrow> n);
          author_lower = to_ascii_lowercase (case author of None \<Rightarrow> [] | Some a \<Rightarrow> a) in
      if contains_str ''no-intro'' name_lower \<or> contains_str ''no-intro'' author_lower then NoIntro
      else if contains_str ''redump'' name_lower \<or> contains_str ''redump'' author_lower then Redump
      else GenericLogiqx)"

definition logiqx_outcome :: "path \<Rightarrow> logiqx_state \<Rightarrow> parse_outcome" where
  "logiqx_outcome p s =
     \<lparr> po_dat =
         \<lparr> pd_source =
             \<lparr> ds_format = dat_format.Logiqx, ds_ecosystem = detect_logiqx_ecosystem (lq_name s) (lq_author s),
               ds_file_path = path_text p, ds_name = lq_name s, ds_description = lq_description s,
               ds_version = lq_version s, ds_author = lq_author s, ds_homepage = lq_homepage s,
               ds_clrmamepro_header = lq_clrmamepro s,
               ds_entry_count = length (lq_games s),
               ds_rom_count = sum_list (map (\<lambda>g. length (dg_roms g)) (lq_games s)),
               ds_parse_warnings = map warning_display (lq_warnings s) \<rparr>,
           pd_games = lq_games s \<rparr>,
       po_warnings = lq_warnings s \<rparr>"

definition parse_document :: "logiqx_context \<Rightarrow> path \<Rightarrow> xml_event list \<Rightarrow> parse_error + parse_outcome" where
  "parse_document ctx p events =
     map_sum id (\<lambda>s. logiqx_outcome p (drop_current_game (finish_current_structure s)))
       (parse_events ctx events logiqx_start)"

text \<open>
  What the parser needs beyond \<open>fs::metadata\<close>: opening the file, whose events follow, the
  XML library, and for the DOCTYPE the file system and the data directory.
\<close>

record logiqx_env =
  le_open :: "path \<Rightarrow> string + xml_event list"
  le_library :: xml_library
  le_fs :: fs
  le_data_dir :: "path option"

definition parse_logiqx :: "parse_env \<Rightarrow> logiqx_env \<Rightarrow> path \<Rightarrow> dat_limits \<Rightarrow> parse_error + parse_outcome" where
  "parse_logiqx env lenv p limits =
     (case pe_metadata env p of
        Inl err \<Rightarrow> Inl (IoFailed p err)
      | Inr (is_file, bytes) \<Rightarrow>
          if bytes > max_file_size limits then Inl (FileTooLarge p bytes (max_file_size limits))
          else
            case le_open lenv p of
              Inl err \<Rightarrow> Inl (IoFailed p err)
            | Inr events \<Rightarrow>
                parse_document
                  \<lparr> lx_library = le_library lenv,
                    lx_doctype = (\<lambda>raw. classify_doctype (le_fs lenv) (le_data_dir lenv) raw p),
                    lx_limits = limits \<rparr> p events)"

end
