(* ===== verification/ClrMamePro.thy ===== *)
theory ClrMamePro
  imports ParseModel
begin

text \<open>
  The parser of ClrMamePro text catalogues, \<open>dat/parsers/clrmamepro.rs\<close>: the reader of
  key/value pairs, the flushes that turn what has been collected into a rom or a game entry,
  and the state machine over the trimmed lines of the file. The local variables of the
  source's loop are the fields of one state record, grouped as their names are; the
  catalogue's bytes and their count are what \<open>fs::metadata\<close> and \<open>fs::read_to_string\<close> return.
\<close>

section \<open>Key/value pairs\<close>

definition not_blank :: "char \<Rightarrow> bool" where
  "not_blank c \<longleftrightarrow> \<not> is_ascii_whitespace c"

definition unquoted_value_char :: "char \<Rightarrow> bool" where
  "unquoted_value_char c \<longleftrightarrow> \<not> is_ascii_whitespace c \<and> c \<noteq> CHR '')''"

definition not_dquote :: "char \<Rightarrow> bool" where
  "not_dquote c \<longleftrightarrow> c \<noteq> dquote"

function key_values :: "string \<Rightarrow> (string \<times> string) list" where
  "key_values line =
     (let s = dropWhile is_ascii_whitespace line in
      if s = [] then []
      else if takeWhile is_ascii_alphanumeric s = [] then key_values (dropWhile not_blank s)
      else
        let key = takeWhile is_ascii_alphanumeric s;
            rest = dropWhile is_ascii_whitespace (dropWhile is_ascii_alphanumeric s) in
        if rest = [] then []
        else if hd rest = dquote
          then (key, takeWhile not_dquote (tl rest)) # key_values (drop 1 (dropWhile not_dquote (tl rest)))
        else (key, takeWhile unquoted_value_char rest) # key_values (dropWhile unquoted_value_char rest))"
  by pat_completeness auto

lemma dropWhile_shorter: "s \<noteq> [] \<Longrightarrow> P (hd s) \<Longrightarrow> length (dropWhile P s) < length s"
  by (cases s) (simp_all add: le_imp_less_Suc length_dropWhile_le)

lemma alphanumeric_not_blank: "is_ascii_alphanumeric c \<Longrightarrow> not_blank c"
  by (auto simp: is_ascii_alphanumeric_def is_ascii_alphabetic_def is_ascii_digit_def not_blank_def
      is_ascii_whitespace_def Let_def)

lemma dropWhile_after_takeWhile: "takeWhile P s \<noteq> [] \<Longrightarrow> length (dropWhile P s) < length s"
  by (cases s) (simp_all add: le_imp_less_Suc length_dropWhile_le split: if_splits)

termination key_values
proof (relation "measure length", simp, goal_cases)
  case (1 line s)
  then have "s \<noteq> []" and s: "s = dropWhile is_ascii_whitespace line" by blast+
  then have "not_blank (hd s)" using hd_dropWhile [of is_ascii_whitespace line] by (simp add: not_blank_def)
  then have "length (dropWhile not_blank s) < length s" using \<open>s \<noteq> []\<close> by (intro dropWhile_shorter)
  then show ?case using s length_dropWhile_le [of is_ascii_whitespace line] by simp
next
  case (2 line s key rest)
  then have "takeWhile is_ascii_alphanumeric s \<noteq> []" and s: "s = dropWhile is_ascii_whitespace line"
    and rest: "rest = dropWhile is_ascii_whitespace (dropWhile is_ascii_alphanumeric s)" and "rest \<noteq> []"
    by blast+
  have "length (dropWhile is_ascii_alphanumeric s) < length s"
    using \<open>takeWhile is_ascii_alphanumeric s \<noteq> []\<close> by (rule dropWhile_after_takeWhile)
  moreover have "length s \<le> length line" unfolding s by (rule length_dropWhile_le)
  moreover have "length rest \<le> length (dropWhile is_ascii_alphanumeric s)"
    unfolding rest by (rule length_dropWhile_le)
  moreover have "length (dropWhile not_dquote (tl rest)) \<le> length rest"
    using length_dropWhile_le [of not_dquote "tl rest"] by simp
  ultimately show ?case by simp
next
  case (3 line s key rest)
  then have "takeWhile is_ascii_alphanumeric s \<noteq> []" and s: "s = dropWhile is_ascii_whitespace line"
    and rest: "rest = dropWhile is_ascii_whitespace (dropWhile is_ascii_alphanumeric s)"
    by blast+
  have "length (dropWhile is_ascii_alphanumeric s) < length s"
    using \<open>takeWhile is_ascii_alphanumeric s \<noteq> []\<close> by (rule dropWhile_after_takeWhile)
  moreover have "length s \<le> length line" unfolding s by (rule length_dropWhile_le)
  moreover have "length rest \<le> length (dropWhile is_ascii_alphanumeric s)"
    unfolding rest by (rule length_dropWhile_le)
  moreover have "length (dropWhile unquoted_value_char rest) \<le> length rest" by (rule length_dropWhile_le)
  ultimately show ?case by simp
qed

declare key_values.simps [simp del]

definition apply_kvs :: "(string \<Rightarrow> string \<Rightarrow> 's \<Rightarrow> 's) \<Rightarrow> string \<Rightarrow> 's \<Rightarrow> 's" where
  "apply_kvs cb line s = fold (\<lambda>(k, v). cb k v) (key_values line) s"

section \<open>The parser's state\<close>

record game_fidelity =
  gf_rom_of :: "string option"
  gf_sample_of :: "string option"
  gf_is_bios :: "string option"
  gf_runnable :: "string option"

record rom_fidelity =
  rf_offset :: "string option"
  rf_value :: "string option"
  rf_optional :: "string option"
  rf_bios :: "string option"
  rf_region :: "string option"

record current_game =
  cg_name :: "string option"
  cg_desc :: "string option"
  cg_clone_of :: "string option"
  cg_fidelity :: game_fidelity

record current_rom =
  cr_name :: "string option"
  cr_size :: "nat option"
  cr_crc :: "string option"
  cr_md5 :: "string option"
  cr_sha1 :: "string option"
  cr_sha256 :: "string option"
  cr_status :: "string option"
  cr_merge :: "string option"
  cr_date :: "string option"
  cr_loadflag :: "string option"
  cr_fidelity :: rom_fidelity

record clr_state =
  cl_name :: "string option"
  cl_description :: "string option"
  cl_version :: "string option"
  cl_author :: "string option"
  cl_header :: "string list"
  cl_warnings :: "parse_warning list"
  cl_games :: "dat_game_entry list"
  cl_in_header :: bool
  cl_in_game :: bool
  cl_in_rom :: bool
  cl_game :: current_game
  cl_rom :: current_rom
  cl_roms :: "dat_rom_entry list"

definition no_game_fidelity :: game_fidelity where
  "no_game_fidelity = \<lparr> gf_rom_of = None, gf_sample_of = None, gf_is_bios = None, gf_runnable = None \<rparr>"

definition no_rom_fidelity :: rom_fidelity where
  "no_rom_fidelity =
     \<lparr> rf_offset = None, rf_value = None, rf_optional = None, rf_bios = None, rf_region = None \<rparr>"

definition no_game :: current_game where
  "no_game = \<lparr> cg_name = None, cg_desc = None, cg_clone_of = None, cg_fidelity = no_game_fidelity \<rparr>"

definition no_rom :: current_rom where
  "no_rom =
     \<lparr> cr_name = None, cr_size = None, cr_crc = None, cr_md5 = None, cr_sha1 = None, cr_sha256 = None,
       cr_status = None, cr_merge = None, cr_date = None, cr_loadflag = None,
       cr_fidelity = no_rom_fidelity \<rparr>"

definition clr_start :: clr_state where
  "clr_start =
     \<lparr> cl_name = None, cl_description = None, cl_version = None, cl_author = None, cl_header = [],
       cl_warnings = [], cl_games = [], cl_in_header = False, cl_in_game = False, cl_in_rom = False,
       cl_game = no_game, cl_rom = no_rom, cl_roms = [] \<rparr>"

section \<open>Fields\<close>

definition rom_field :: "string \<Rightarrow> string \<Rightarrow> current_rom \<Rightarrow> current_rom" where
  "rom_field key v r =
     (if key = ''name'' then (if v \<noteq> [] then r\<lparr>cr_name := Some v\<rparr> else r)
      else if key = ''size'' then (case parse_u64 v of Some n \<Rightarrow> r\<lparr>cr_size := Some n\<rparr> | None \<Rightarrow> r)
      else if key = ''crc'' then (case normalise_crc32 v of Some n \<Rightarrow> r\<lparr>cr_crc := Some n\<rparr> | None \<Rightarrow> r)
      else if key = ''md5'' then (case normalise_md5 v of Some n \<Rightarrow> r\<lparr>cr_md5 := Some n\<rparr> | None \<Rightarrow> r)
      else if key = ''sha1'' then (case normalise_sha1 v of Some n \<Rightarrow> r\<lparr>cr_sha1 := Some n\<rparr> | None \<Rightarrow> r)
      else if key = ''sha256'' then (case normalise_sha256 v of Some n \<Rightarrow> r\<lparr>cr_sha256 := Some n\<rparr> | None \<Rightarrow> r)
      else if key = ''status'' then r\<lparr>cr_status := Some v\<rparr>
      else if key = ''merge'' then r\<lparr>cr_merge := Some v\<rparr>
      else if key = ''date'' then r\<lparr>cr_date := Some v\<rparr>
      else if key = ''offset'' then r\<lparr>cr_fidelity := (cr_fidelity r)\<lparr>rf_offset := Some v\<rparr>\<rparr>
      else if key = ''loadflag'' then r\<lparr>cr_loadflag := Some v\<rparr>
      else if key = ''value'' then r\<lparr>cr_fidelity := (cr_fidelity r)\<lparr>rf_value := Some v\<rparr>\<rparr>
      else if key = ''optional'' then r\<lparr>cr_fidelity := (cr_fidelity r)\<lparr>rf_optional := Some v\<rparr>\<rparr>
      else if key = ''bios'' then r\<lparr>cr_fidelity := (cr_fidelity r)\<lparr>rf_bios := Some v\<rparr>\<rparr>
      else if key = ''region'' then r\<lparr>cr_fidelity := (cr_fidelity r)\<lparr>rf_region := Some v\<rparr>\<rparr>
      else r)"

definition apply_rom_kv :: "string \<Rightarrow> string \<Rightarrow> clr_state \<Rightarrow> clr_state" where
  "apply_rom_kv key v s = s\<lparr>cl_rom := rom_field key v (cl_rom s)\<rparr>"

definition game_field :: "string \<Rightarrow> string \<Rightarrow> current_game \<Rightarrow> current_game" where
  "game_field key v g =
     (if key = ''name'' then g\<lparr>cg_name := Some v\<rparr>
      else if key = ''description'' then g\<lparr>cg_desc := Some v\<rparr>
      else if key = ''cloneof'' then g\<lparr>cg_clone_of := Some v\<rparr>
      else if key = ''romof'' then g\<lparr>cg_fidelity := (cg_fidelity g)\<lparr>gf_rom_of := Some v\<rparr>\<rparr>
      else if key = ''sampleof'' then g\<lparr>cg_fidelity := (cg_fidelity g)\<lparr>gf_sample_of := Some v\<rparr>\<rparr>
      else if key = ''isbios'' then g\<lparr>cg_fidelity := (cg_fidelity g)\<lparr>gf_is_bios := Some v\<rparr>\<rparr>
      else if key = ''runnable'' then g\<lparr>cg_fidelity := (cg_fidelity g)\<lparr>gf_runnable := Some v\<rparr>\<rparr>
      else g)"

text \<open>The pairs of a game's opening line; only there the name's length is limited.\<close>

definition apply_opening_kv :: "dat_limits \<Rightarrow> string \<Rightarrow> string \<Rightarrow> clr_state \<Rightarrow> clr_state" where
  "apply_opening_kv limits key v s =
     (if key = ''name'' \<and> utf8_len v > max_identifier_length limits then s
      else s\<lparr>cl_game := game_field key v (cl_game s)\<rparr>)"

definition apply_game_kv :: "string \<Rightarrow> string \<Rightarrow> clr_state \<Rightarrow> clr_state" where
  "apply_game_kv key v s = s\<lparr>cl_game := game_field key v (cl_game s)\<rparr>"

section \<open>Emitting entries\<close>

definition rom_entry_of :: "string \<Rightarrow> current_rom \<Rightarrow> dat_rom_entry" where
  "rom_entry_of rom_name r =
     \<lparr> dr_name = rom_name, dr_size_bytes = cr_size r, dr_crc32 = cr_crc r, dr_md5 = cr_md5 r,
       dr_sha1 = cr_sha1 r, dr_sha256 = cr_sha256 r, dr_status = cr_status r, dr_merge = cr_merge r,
       dr_date = cr_date r, dr_offset = rf_offset (cr_fidelity r), dr_loadflag = cr_loadflag r,
       dr_value = rf_value (cr_fidelity r), dr_optional = rf_optional (cr_fidelity r),
       dr_bios = rf_bios (cr_fidelity r), dr_region = rf_region (cr_fidelity r) \<rparr>"

text \<open>Every part of a named rom is taken; of a nameless one only the fidelity part is.\<close>

definition emit_rom_flush :: "clr_state \<Rightarrow> clr_state" where
  "emit_rom_flush s =
     (if \<not> cl_in_rom s then s
      else
        case cr_name (cl_rom s) of
          None \<Rightarrow> s\<lparr>cl_rom := (cl_rom s)\<lparr>cr_fidelity := no_rom_fidelity\<rparr>, cl_in_rom := False\<rparr>
        | Some rom_name \<Rightarrow>
            s\<lparr>cl_roms := cl_roms s @ [rom_entry_of rom_name (cl_rom s)], cl_rom := no_rom,
              cl_in_rom := False\<rparr>)"

definition game_entry_of :: "string \<Rightarrow> current_game \<Rightarrow> dat_rom_entry list \<Rightarrow> dat_game_entry" where
  "game_entry_of game_name g roms =
     \<lparr> dg_name = game_name, dg_id = None, dg_description = cg_desc g, dg_roms = roms,
       dg_clone_of = cg_clone_of g, dg_rom_of = gf_rom_of (cg_fidelity g),
       dg_sample_of = gf_sample_of (cg_fidelity g), dg_is_bios = gf_is_bios (cg_fidelity g),
       dg_is_device = None, dg_runnable = gf_runnable (cg_fidelity g), dg_supported = None,
       dg_disks = [], dg_device_refs = [], dg_samples = [], dg_bios_sets = [], dg_parts = [],
       dg_board = None, dg_rebuild_to = None, dg_year = None, dg_manufacturer = None,
       dg_source_file = None, dg_comment = None, dg_original_metadata = fmempty,
       dg_content_classification = unknown_classification, dg_unsupported_structure = True \<rparr>"

definition emit_game :: "dat_limits \<Rightarrow> clr_state \<Rightarrow> parse_error + clr_state" where
  "emit_game limits s =
     (case cg_name (cl_game s) of
        None \<Rightarrow> Inr (s\<lparr>cl_game := (cl_game s)\<lparr>cg_fidelity := no_game_fidelity\<rparr>\<rparr>)
      | Some game_name \<Rightarrow>
          if length (cl_games s) \<ge> max_entries limits
          then Inl (EntryLimitExceeded (length (cl_games s)) (max_entries limits))
          else Inr (s\<lparr>cl_games := cl_games s @ [game_entry_of game_name (cl_game s) (cl_roms s)],
                      cl_game := no_game, cl_roms := []\<rparr>))"

text \<open>What every caller but the last does after emitting a game.\<close>

definition clear_game :: "clr_state \<Rightarrow> clr_state" where
  "clear_game s =
     s\<lparr>cl_game := (cl_game s)\<lparr>cg_name := None, cg_desc := None, cg_clone_of := None\<rparr>, cl_roms := []\<rparr>"

section \<open>The header\<close>

definition unquote :: "string \<Rightarrow> string" where
  "unquote raw =
     (let trimmed = trim raw in
      case strip_prefix [dquote] trimmed of
        None \<Rightarrow> trimmed
      | Some rest \<Rightarrow> (case strip_suffix_char dquote rest of None \<Rightarrow> trimmed | Some inner \<Rightarrow> inner))"

text \<open>The number of the last line that starts at or before the offset.\<close>

definition line_number :: "(nat \<times> string) list \<Rightarrow> nat \<Rightarrow> nat option" where
  "line_number lines offset =
     (case filter (\<lambda>(i, start, line). start \<le> offset) (enumerate 0 lines) of
        [] \<Rightarrow> None
      | hits \<Rightarrow> Some (fst (last hits) + 1))"

definition push_warning ::
    "dat_limits \<Rightarrow> (nat \<times> string) list \<Rightarrow> nat \<Rightarrow> string \<Rightarrow> parse_warning list \<Rightarrow> parse_warning list" where
  "push_warning limits lines offset msg warnings =
     (if length warnings < max_warnings limits
      then warnings @
        [\<lparr> pw_byte_offset = Some offset, pw_line = line_number lines offset, pw_column = None,
           pw_context = [], pw_message = msg, pw_severity = WarningSeverity,
           pw_code = ''description_truncated'' \<rparr>]
      else warnings)"

definition parse_header_field ::
    "dat_limits \<Rightarrow> (nat \<times> string) list \<Rightarrow> nat \<Rightarrow> string \<Rightarrow> clr_state \<Rightarrow> clr_state" where
  "parse_header_field limits lines offset line s =
     (let lower = to_ascii_lowercase line in
      if prefix ''name '' lower then s\<lparr>cl_name := Some (unquote (drop 5 line))\<rparr>
      else if prefix ''description '' lower then
        (let text = unquote (drop 12 line) in
         if utf8_len text > max_description_length limits
         then s\<lparr>cl_warnings := push_warning limits lines offset
                   (''description truncated from '' @ nat_to_string (utf8_len text) @ '' to '' @
                    nat_to_string (max_description_length limits) @ '' bytes'') (cl_warnings s),
                cl_description := Some (take (max_description_length limits) text)\<rparr>
         else s\<lparr>cl_description := Some text\<rparr>)
      else if prefix ''version '' lower then s\<lparr>cl_version := Some (unquote (drop 8 line))\<rparr>
      else if prefix ''author '' lower then s\<lparr>cl_author := Some (unquote (drop 7 line))\<rparr>
      else s)"

definition detect_clrmamepro_ecosystem :: "string option \<Rightarrow> string option \<Rightarrow> string list \<Rightarrow> dat_ecosystem" where
  "detect_clrmamepro_ecosystem name description header =
     (let name_lower = to_ascii_lowercase (case name of None \<Rightarrow> [] | Some n \<Rightarrow> n);
          desc_lower = to_ascii_lowercase (case description of None \<Rightarrow> [] | Some d \<Rightarrow> d) in
      if contains_str ''tosec'' name_lower \<or> contains_str ''tosec'' desc_lower then Tosec
      else if contains_str ''tosec'' (to_ascii_lowercase (join_with [newline] header)) then Tosec
      else GenericClrMamePro)"

section \<open>Lines\<close>

text \<open>The text after the opening parenthesis, without one closing parenthesis at its end.\<close>

definition extract_inner :: "string \<Rightarrow> string \<Rightarrow> string option" where
  "extract_inner line p =
     (let rest = trim (drop (length p) line) in
      if rest = [] then None
      else
        case strip_suffix_char (CHR '')'') rest of
          Some inner \<Rightarrow> (if trim inner = [] then None else Some (trim inner))
        | None \<Rightarrow> Some rest)"

definition apply_inner :: "(string \<Rightarrow> string \<Rightarrow> clr_state \<Rightarrow> clr_state) \<Rightarrow> string option \<Rightarrow> clr_state \<Rightarrow> clr_state" where
  "apply_inner cb inner s = (case inner of None \<Rightarrow> s | Some text \<Rightarrow> apply_kvs cb text s)"

definition emit_and_clear :: "dat_limits \<Rightarrow> clr_state \<Rightarrow> parse_error + clr_state" where
  "emit_and_clear limits s = map_sum id clear_game (emit_game limits s)"

definition open_game :: "dat_limits \<Rightarrow> string \<Rightarrow> clr_state \<Rightarrow> parse_error + clr_state" where
  "open_game limits line s =
     (let inner = extract_inner line ''game ('';
          is_closed = ends_with line '')'' \<and> utf8_len line > 7 \<and> inner \<noteq> None in
      case emit_and_clear limits (emit_rom_flush s) of
        Inl err \<Rightarrow> Inl err
      | Inr s1 \<Rightarrow>
          let s2 = apply_inner (apply_opening_kv limits) inner s1 in
          if is_closed
          then map_sum id (\<lambda>s3. s3\<lparr>cl_in_game := False, cl_in_rom := False\<rparr>) (emit_and_clear limits s2)
          else Inr (s2\<lparr>cl_in_game := True, cl_in_rom := False\<rparr>))"

definition close_block :: "dat_limits \<Rightarrow> clr_state \<Rightarrow> parse_error + clr_state" where
  "close_block limits s =
     (let s1 = (if cl_in_rom s then emit_rom_flush s else s) in
      if cl_in_game s1
      then map_sum id (\<lambda>s2. s2\<lparr>cl_in_game := False\<rparr>) (emit_and_clear limits s1)
      else Inr s1)"

text \<open>A new rom starts with every field cleared but the load flag.\<close>

definition clear_rom :: "current_rom \<Rightarrow> current_rom" where
  "clear_rom r =
     r\<lparr>cr_name := None, cr_size := None, cr_crc := None, cr_md5 := None, cr_sha1 := None,
       cr_sha256 := None, cr_status := None, cr_merge := None, cr_date := None\<rparr>"

definition fill_rom :: "string option \<Rightarrow> bool \<Rightarrow> clr_state \<Rightarrow> clr_state" where
  "fill_rom inner is_closed s =
     (let s1 = apply_inner apply_rom_kv inner (s\<lparr>cl_rom := clear_rom (cl_rom s)\<rparr>);
          s2 = s1\<lparr>cl_in_rom := True\<rparr> in
      if is_closed then emit_rom_flush s2 else s2)"

definition open_rom :: "dat_limits \<Rightarrow> string \<Rightarrow> clr_state \<Rightarrow> parse_error + clr_state" where
  "open_rom limits line s =
     (let inner = extract_inner line ''rom ('';
          is_closed = ends_with line '')'' \<and> inner \<noteq> None;
          s1 = emit_rom_flush s in
      case cg_name (cl_game s1) of
        Some game_name \<Rightarrow>
          if length (cl_roms s1) \<ge> max_roms_per_entry limits
          then Inl (RomsPerEntryExceeded game_name (length (cl_roms s1)) (max_roms_per_entry limits))
          else Inr (fill_rom inner is_closed s1)
      | None \<Rightarrow> Inr (fill_rom inner is_closed s1))"

text \<open>
  A line of the file, with the offset it starts at. Inside the header every line but the
  closing one is a header field; a line of an open game may carry its closing parenthesis,
  which ends the game without emitting it.
\<close>

definition parse_line ::
    "dat_limits \<Rightarrow> (nat \<times> string) list \<Rightarrow> nat \<Rightarrow> string \<Rightarrow> clr_state \<Rightarrow> parse_error + clr_state" where
  "parse_line limits lines offset raw s =
     (let line = trim raw in
      if line = [] then Inr s
      else if line = ''clrmamepro ('' then Inr (s\<lparr>cl_in_header := True\<rparr>)
      else if cl_in_header s \<and> line = '')'' then Inr (s\<lparr>cl_in_header := False\<rparr>)
      else if cl_in_header s
        then Inr (parse_header_field limits lines offset line (s\<lparr>cl_header := cl_header s @ [line]\<rparr>))
      else if prefix ''game ('' line then open_game limits line s
      else if line = '')'' then close_block limits s
      else if prefix ''rom ('' line then open_rom limits line s
      else if cl_in_rom s then Inr (apply_kvs apply_rom_kv line s)
      else if cl_in_game s then
        (case strip_suffix_char (CHR '')'') line of
           Some inner \<Rightarrow> Inr ((apply_kvs apply_game_kv inner s)\<lparr>cl_in_game := False\<rparr>)
         | None \<Rightarrow> Inr (apply_kvs apply_game_kv line s))
      else Inr s)"

fun parse_lines ::
    "dat_limits \<Rightarrow> (nat \<times> string) list \<Rightarrow> (nat \<times> string) list \<Rightarrow> clr_state \<Rightarrow> parse_error + clr_state" where
  "parse_lines limits all_lines [] s = Inr s"
| "parse_lines limits all_lines ((offset, raw) # rest) s =
     (case parse_line limits all_lines offset raw s of
        Inl err \<Rightarrow> Inl err
      | Inr s' \<Rightarrow> parse_lines limits all_lines rest s')"

section \<open>A whole catalogue\<close>

definition clr_outcome :: "path \<Rightarrow> clr_state \<Rightarrow> parse_outcome" where
  "clr_outcome p s =
     \<lparr> po_dat =
         \<lparr> pd_source =
             \<lparr> ds_format = ClrMamePro,
               ds_ecosystem = detect_clrmamepro_ecosystem (cl_name s) (cl_description s) (cl_header s),
               ds_file_path = path_text p, ds_name = cl_name s, ds_description = cl_description s,
               ds_version = cl_version s, ds_author = cl_author s, ds_homepage = None,
               ds_clrmamepro_header =
                 (if cl_header s = [] then None else Some (join_with [newline] (cl_header s))),
               ds_entry_count = length (cl_games s),
               ds_rom_count = sum_list (map (\<lambda>g. length (dg_roms g)) (cl_games s)),
               ds_parse_warnings = map warning_display (cl_warnings s) \<rparr>,
           pd_games = cl_games s \<rparr>,
       po_warnings = cl_warnings s \<rparr>"

definition parse_content :: "dat_limits \<Rightarrow> path \<Rightarrow> string \<Rightarrow> parse_error + parse_outcome" where
  "parse_content limits p content =
     (let lines = text_lines content in
      case parse_lines limits lines lines clr_start of
        Inl err \<Rightarrow> Inl err
      | Inr s \<Rightarrow> map_sum id (clr_outcome p) (emit_game limits (emit_rom_flush s)))"

definition parse_clrmamepro :: "parse_env \<Rightarrow> path \<Rightarrow> dat_limits \<Rightarrow> parse_error + parse_outcome" where
  "parse_clrmamepro env p limits =
     (case pe_metadata env p of
        Inl err \<Rightarrow> Inl (IoFailed p err)
      | Inr (is_file, bytes) \<Rightarrow>
          if bytes > max_file_size limits then Inl (FileTooLarge p bytes (max_file_size limits))
          else
            case pe_content env p of
              Inl err \<Rightarrow> Inl (IoFailed p err)
            | Inr content \<Rightarrow> parse_content limits p content)"

end
