(* ===== verification/ClrRoundTrip.thy ===== *)
theory ClrRoundTrip
  imports ClrMamePro
begin

text \<open>
  A printer for ClrMamePro catalogues, in the layout the format's tools write (a header, then
  one block per game with a line for each field and a line for each rom), and the proof that
  the parser reads back what it prints: fields, their order, numbers and hashes, with values
  printed bare where they are words and quoted otherwise.
\<close>

section \<open>Printing\<close>

definition plain_word :: "string \<Rightarrow> bool" where
  "plain_word v \<longleftrightarrow> v \<noteq> [] \<and> list_all is_ascii_alphanumeric v"

definition quoted :: "string \<Rightarrow> string" where
  "quoted v = [dquote] @ v @ [dquote]"

definition print_value :: "string \<Rightarrow> string" where
  "print_value v = (if plain_word v then v else quoted v)"

definition print_pair :: "string \<times> string \<Rightarrow> string" where
  "print_pair p = fst p @ '' '' @ print_value (snd p)"

definition optional_pair :: "string \<Rightarrow> string option \<Rightarrow> (string \<times> string) list" where
  "optional_pair key v = (case v of None \<Rightarrow> [] | Some x \<Rightarrow> [(key, x)])"

definition rom_pairs :: "dat_rom_entry \<Rightarrow> (string \<times> string) list" where
  "rom_pairs r =
     [(''name'', dr_name r)] @ optional_pair ''size'' (map_option nat_to_string (dr_size_bytes r)) @
     optional_pair ''crc'' (dr_crc32 r) @ optional_pair ''md5'' (dr_md5 r) @
     optional_pair ''sha1'' (dr_sha1 r) @ optional_pair ''sha256'' (dr_sha256 r) @
     optional_pair ''status'' (dr_status r) @ optional_pair ''merge'' (dr_merge r) @
     optional_pair ''date'' (dr_date r) @ optional_pair ''offset'' (dr_offset r) @
     optional_pair ''loadflag'' (dr_loadflag r) @ optional_pair ''value'' (dr_value r) @
     optional_pair ''optional'' (dr_optional r) @ optional_pair ''bios'' (dr_bios r) @
     optional_pair ''region'' (dr_region r)"

definition game_pairs :: "dat_game_entry \<Rightarrow> (string \<times> string) list" where
  "game_pairs g =
     [(''name'', dg_name g)] @ optional_pair ''description'' (dg_description g) @
     optional_pair ''cloneof'' (dg_clone_of g) @ optional_pair ''romof'' (dg_rom_of g) @
     optional_pair ''sampleof'' (dg_sample_of g) @ optional_pair ''isbios'' (dg_is_bios g) @
     optional_pair ''runnable'' (dg_runnable g)"

definition rom_line :: "dat_rom_entry \<Rightarrow> string" where
  "rom_line r = [tab] @ ''rom ( '' @ join_with '' '' (map print_pair (rom_pairs r)) @ '' )''"

definition field_line :: "string \<times> string \<Rightarrow> string" where
  "field_line p = [tab] @ print_pair p"

definition game_lines :: "dat_game_entry \<Rightarrow> string list" where
  "game_lines g =
     [''game (''] @ map field_line (game_pairs g) @ map rom_line (dg_roms g) @ ['')'']"

record clr_heading =
  ch_name :: "string option"
  ch_description :: "string option"
  ch_version :: "string option"
  ch_author :: "string option"

definition heading_fields :: "clr_heading \<Rightarrow> string list" where
  "heading_fields h =
     map (\<lambda>p. fst p @ '' '' @ quoted (snd p))
       (optional_pair ''name'' (ch_name h) @ optional_pair ''description'' (ch_description h) @
        optional_pair ''version'' (ch_version h) @ optional_pair ''author'' (ch_author h))"

definition catalogue_lines :: "clr_heading \<Rightarrow> dat_game_entry list \<Rightarrow> string list" where
  "catalogue_lines h games =
     [''clrmamepro (''] @ map (\<lambda>f. [tab] @ f) (heading_fields h) @ ['')''] @ concat (map game_lines games)"

definition print_catalogue :: "clr_heading \<Rightarrow> dat_game_entry list \<Rightarrow> string" where
  "print_catalogue h games = concat (map (\<lambda>l. l @ [newline]) (catalogue_lines h games))"

section \<open>What can be printed\<close>

text \<open>
  Text of one line without a quotation mark; in the heading quotation marks are allowed. A
  game can be printed when it carries nothing the format's parser has no field for.
\<close>

definition one_line :: "string \<Rightarrow> bool" where
  "one_line v \<longleftrightarrow> newline \<notin> set v"

definition quotable :: "string \<Rightarrow> bool" where
  "quotable v \<longleftrightarrow> newline \<notin> set v \<and> dquote \<notin> set v"

definition normal_hash :: "(string \<Rightarrow> string option) \<Rightarrow> string option \<Rightarrow> bool" where
  "normal_hash normalise h \<longleftrightarrow> (case h of None \<Rightarrow> True | Some v \<Rightarrow> normalise v = Some v)"

definition printable_rom :: "dat_rom_entry \<Rightarrow> bool" where
  "printable_rom r \<longleftrightarrow>
     dr_name r \<noteq> [] \<and> list_all (\<lambda>p. quotable (snd p)) (rom_pairs r) \<and>
     (case dr_size_bytes r of None \<Rightarrow> True | Some n \<Rightarrow> n \<le> 18446744073709551615) \<and>
     normal_hash normalise_crc32 (dr_crc32 r) \<and> normal_hash normalise_md5 (dr_md5 r) \<and>
     normal_hash normalise_sha1 (dr_sha1 r) \<and> normal_hash normalise_sha256 (dr_sha256 r)"

definition current_of :: "dat_game_entry \<Rightarrow> current_game" where
  "current_of g =
     \<lparr> cg_name = Some (dg_name g), cg_desc = dg_description g, cg_clone_of = dg_clone_of g,
       cg_fidelity = \<lparr> gf_rom_of = dg_rom_of g, gf_sample_of = dg_sample_of g,
                       gf_is_bios = dg_is_bios g, gf_runnable = dg_runnable g \<rparr> \<rparr>"

definition printable_game :: "dat_limits \<Rightarrow> dat_game_entry \<Rightarrow> bool" where
  "printable_game limits g \<longleftrightarrow>
     g = game_entry_of (dg_name g) (current_of g) (dg_roms g) \<and>
     list_all (\<lambda>p. quotable (snd p)) (game_pairs g) \<and>
     list_all printable_rom (dg_roms g) \<and> length (dg_roms g) \<le> max_roms_per_entry limits"

definition printable_heading :: "dat_limits \<Rightarrow> clr_heading \<Rightarrow> bool" where
  "printable_heading limits h \<longleftrightarrow>
     list_all one_line (heading_fields h) \<and>
     (case ch_description h of None \<Rightarrow> True | Some d \<Rightarrow> utf8_len d \<le> max_description_length limits)"

section \<open>Reading pairs\<close>

lemma span_append:
  assumes "list_all P xs" and "t = [] \<or> \<not> P (hd t)"
  shows "takeWhile P (xs @ t) = xs" and "dropWhile P (xs @ t) = t"
  using assms by (induction xs; cases t; auto)+

lemma key_values_Nil [simp]: "key_values [] = []"
  by (simp add: key_values.simps)

lemma key_values_skip: "is_ascii_whitespace c \<Longrightarrow> key_values (c # s) = key_values s"
  by (subst (1 2) key_values.simps) simp

lemma space_blank [simp]: "is_ascii_whitespace (CHR '' '')" "\<not> is_ascii_whitespace dquote"
    "\<not> is_ascii_alphanumeric (CHR '' '')"
  by (simp_all add: is_ascii_whitespace_def is_ascii_alphanumeric_def is_ascii_alphabetic_def is_ascii_digit_def)

lemma alphanumeric_facts:
  assumes "is_ascii_alphanumeric c"
  shows "\<not> is_ascii_whitespace c" "c \<noteq> dquote" "c \<noteq> CHR '')''" "\<not> is_whitespace c" "c \<noteq> newline"
    "c \<noteq> carriage_return"
  using assms
  by (auto simp: is_ascii_alphanumeric_def is_ascii_alphabetic_def is_ascii_digit_def is_ascii_whitespace_def
      is_whitespace_def Let_def)

definition key_word :: "string \<Rightarrow> bool" where
  "key_word k \<longleftrightarrow> k \<noteq> [] \<and> list_all is_ascii_alphanumeric k"

lemma key_values_start:
  assumes "key_word k" and "rest \<noteq> []" and "\<not> is_ascii_whitespace (hd rest)"
  shows "key_values (k @ '' '' @ rest) =
    (if hd rest = dquote
     then (k, takeWhile not_dquote (tl rest)) # key_values (drop 1 (dropWhile not_dquote (tl rest)))
     else (k, takeWhile unquoted_value_char rest) # key_values (dropWhile unquoted_value_char rest))"
proof -
  let ?s = "k @ '' '' @ rest"
  have k: "k \<noteq> []" "list_all is_ascii_alphanumeric k" using assms(1) by (simp_all add: key_word_def)
  then have "\<not> is_ascii_whitespace (hd ?s)" by (cases k) (simp_all add: alphanumeric_facts)
  then have skip: "dropWhile is_ascii_whitespace ?s = ?s" using k(1) by (cases k) simp_all
  have key: "takeWhile is_ascii_alphanumeric ?s = k" "dropWhile is_ascii_alphanumeric ?s = '' '' @ rest"
    using span_append [OF k(2), of "'' '' @ rest"] by simp_all
  have gap: "dropWhile is_ascii_whitespace ('' '' @ rest) = rest"
    using assms(2,3) by (cases rest) simp_all
  show ?thesis
    by (subst key_values.simps) (simp only: Let_def skip key gap k(1) assms(2) append_is_Nil_conv simp_thms if_False)
qed

lemma key_values_pair:
  assumes "key_word (fst p)" and "quotable (snd p)" and "t = [] \<or> is_ascii_whitespace (hd t)"
  shows "key_values (print_pair p @ t) = p # key_values t"
proof (cases "plain_word (snd p)")
  case True
  then have v: "snd p \<noteq> []" "list_all is_ascii_alphanumeric (snd p)" by (simp_all add: plain_word_def)
  have "list_all unquoted_value_char (snd p)"
    using v(2) by (auto simp: list_all_iff unquoted_value_char_def alphanumeric_facts)
  moreover have "t = [] \<or> \<not> unquoted_value_char (hd t)" using assms(3) by (auto simp: unquoted_value_char_def)
  ultimately have span: "takeWhile unquoted_value_char (snd p @ t) = snd p"
      "dropWhile unquoted_value_char (snd p @ t) = t"
    by (rule span_append)+
  have hd: "hd (snd p @ t) \<noteq> dquote" "\<not> is_ascii_whitespace (hd (snd p @ t))" "snd p @ t \<noteq> []"
    using v by (cases "snd p"; simp add: alphanumeric_facts)+
  show ?thesis
    unfolding print_pair_def print_value_def append_assoc if_P [OF True]
      key_values_start [OF assms(1) hd(3,2)] if_not_P [OF hd(1)] span by simp
next
  case False
  have "list_all not_dquote (snd p)" using assms(2) by (auto simp: list_all_iff not_dquote_def quotable_def)
  then have span: "takeWhile not_dquote (snd p @ dquote # t) = snd p"
      "dropWhile not_dquote (snd p @ dquote # t) = dquote # t"
    using span_append [of not_dquote "snd p" "dquote # t"] by (simp_all add: not_dquote_def)
  have "key_values (fst p @ '' '' @ dquote # snd p @ dquote # t) = p # key_values t"
    by (subst key_values_start [OF assms(1)]) (simp_all add: span)
  then show ?thesis using False by (simp add: print_pair_def print_value_def quoted_def)
qed

lemma key_values_pairs:
  "\<forall>p \<in> set ps. key_word (fst p) \<and> quotable (snd p) \<Longrightarrow>
   key_values (join_with '' '' (map print_pair ps)) = ps"
proof (induction ps)
  case Nil
  then show ?case by simp
next
  case (Cons p ps)
  show ?case
  proof (cases ps)
    case Nil
    then show ?thesis using key_values_pair [of p "[]"] Cons.prems by simp
  next
    case (Cons q qs)
    have "key_values (print_pair p @ '' '' @ join_with '' '' (map print_pair ps)) =
        p # key_values ('' '' @ join_with '' '' (map print_pair ps))"
      using Cons.prems by (intro key_values_pair) simp_all
    then show ?thesis using Cons Cons.IH Cons.prems by (simp add: key_values_skip)
  qed
qed

section \<open>Trimmed lines\<close>

text \<open>A text whose first and last characters are not white space.\<close>

definition solid :: "string \<Rightarrow> bool" where
  "solid s \<longleftrightarrow> s \<noteq> [] \<and> \<not> is_whitespace (hd s) \<and> \<not> is_whitespace (last s)"

lemma trim_solid:
  assumes "solid s" and "list_all is_whitespace a" and "list_all is_whitespace b"
  shows "trim (a @ s @ b) = s"
proof -
  have s: "s \<noteq> []" "\<not> is_whitespace (hd s)" "\<not> is_whitespace (hd (rev s))"
    using assms(1) by (simp_all add: solid_def hd_rev)
  have "dropWhile is_whitespace (a @ s @ b) = s @ b"
    using span_append(2) [OF assms(2), of "s @ b"] s by simp
  moreover have "dropWhile is_whitespace (rev b @ rev s) = rev s"
    using span_append(2) [of is_whitespace "rev b" "rev s"] assms(3) s by simp
  ultimately show ?thesis by (simp add: trim_def)
qed

lemma trim_solid_simps [simp]:
  assumes "solid s"
  shows "trim s = s" "trim (tab # s) = s" "trim (CHR '' '' # s) = s" "trim (s @ '' '') = s"
  using trim_solid [OF assms, of "[]" "[]"] trim_solid [OF assms, of "[tab]" "[]"]
    trim_solid [OF assms, of "'' ''" "[]"] trim_solid [OF assms, of "[]" "'' ''"]
  by (simp_all add: is_whitespace_def)

lemma plain_value_last: "last (print_value v) = dquote \<or> is_ascii_alphanumeric (last (print_value v))"
  by (auto simp: print_value_def quoted_def plain_word_def list_all_iff)

lemma print_value_not_Nil: "print_value v \<noteq> []"
  by (simp add: print_value_def quoted_def plain_word_def)

lemma key_word_hd: "key_word k \<Longrightarrow> k \<noteq> [] \<and> is_ascii_alphanumeric (hd k)"
  by (cases k) (simp_all add: key_word_def)

lemma print_pair_ends:
  assumes "key_word (fst p)"
  shows "print_pair p \<noteq> []" "is_ascii_alphanumeric (hd (print_pair p))"
    "last (print_pair p) = dquote \<or> is_ascii_alphanumeric (last (print_pair p))"
  using key_word_hd [OF assms] plain_value_last [of "snd p"] print_value_not_Nil [of "snd p"]
  by (auto simp: print_pair_def)

lemma ends_not_blank: "c = dquote \<or> is_ascii_alphanumeric c \<Longrightarrow> \<not> is_whitespace c \<and> c \<noteq> CHR '')'' \<and> c \<noteq> carriage_return"
proof (elim disjE)
  assume "c = dquote"
  then show ?thesis by (simp add: is_whitespace_def)
next
  assume "is_ascii_alphanumeric c"
  then show ?thesis using alphanumeric_facts by blast
qed

lemma join_pairs_ends:
  assumes "ps \<noteq> []" and "\<forall>p \<in> set ps. key_word (fst p)"
  shows "join_with '' '' (map print_pair ps) \<noteq> [] \<and>
    is_ascii_alphanumeric (hd (join_with '' '' (map print_pair ps))) \<and>
    (last (join_with '' '' (map print_pair ps)) = dquote \<or>
     is_ascii_alphanumeric (last (join_with '' '' (map print_pair ps))))"
  using assms
proof (induction ps)
  case Nil
  then show ?case by simp
next
  case (Cons p ps)
  note p = print_pair_ends [of p]
  show ?case
  proof (cases ps)
    case Nil
    then show ?thesis using p Cons.prems by simp
  next
    case (Cons q qs)
    then show ?thesis using p Cons.IH Cons.prems by simp
  qed
qed

lemma solid_pair: "key_word (fst p) \<Longrightarrow> solid (print_pair p)"
  using print_pair_ends [of p] by (simp add: solid_def alphanumeric_facts ends_not_blank)

lemma solid_pairs:
  "ps \<noteq> [] \<Longrightarrow> \<forall>p \<in> set ps. key_word (fst p) \<Longrightarrow> solid (join_with '' '' (map print_pair ps))"
  using join_pairs_ends [of ps] by (simp add: solid_def alphanumeric_facts ends_not_blank)

section \<open>One line at a time\<close>

lemma optional_pair_set: "p \<in> set (optional_pair key v) \<longleftrightarrow> (\<exists>x. v = Some x \<and> p = (key, x))"
  by (auto simp: optional_pair_def split: option.splits)

lemma keys_are_words:
  "p \<in> set (game_pairs g) \<Longrightarrow> key_word (fst p)"
  "p \<in> set (rom_pairs r) \<Longrightarrow> key_word (fst p)"
  by (auto simp: game_pairs_def rom_pairs_def optional_pair_set key_word_def is_ascii_alphanumeric_def
      is_ascii_alphabetic_def is_ascii_digit_def)

lemma game_keys:
  "p \<in> set (game_pairs g) \<Longrightarrow>
   fst p \<in> {''name'', ''description'', ''cloneof'', ''romof'', ''sampleof'', ''isbios'', ''runnable''}"
  by (auto simp: game_pairs_def optional_pair_set)

lemma apply_kvs_pairs:
  assumes "\<forall>p \<in> set ps. key_word (fst p) \<and> quotable (snd p)"
  shows "apply_kvs cb (join_with '' '' (map print_pair ps)) s = fold (\<lambda>(k, v). cb k v) ps s"
  by (simp add: apply_kvs_def key_values_pairs [OF assms])

text \<open>A field of an open game.\<close>

lemma field_line_read:
  assumes "p \<in> set (game_pairs g)" and "quotable (snd p)"
    and "cl_in_game s" "\<not> cl_in_rom s" "\<not> cl_in_header s"
  shows "parse_line limits all_lines offset (field_line p) s = Inr (apply_game_kv (fst p) (snd p) s)"
proof -
  have key: "key_word (fst p)" using assms(1) by (rule keys_are_words)
  have line: "trim (field_line p) = print_pair p"
    using solid_pair [OF key] by (simp add: field_line_def)
  have kvs: "apply_kvs apply_game_kv (print_pair p) s = apply_game_kv (fst p) (snd p) s"
    using apply_kvs_pairs [of "[p]" apply_game_kv s] key assms(2) by (simp add: case_prod_unfold)
  have other: "print_pair p \<noteq> []" "print_pair p \<noteq> ''clrmamepro (''" "print_pair p \<noteq> '')''"
      "\<not> prefix ''game ('' (print_pair p)" "\<not> prefix ''rom ('' (print_pair p)"
    using game_keys [OF assms(1)] by (auto simp: print_pair_def)
  have open_end: "strip_suffix_char (CHR '')'') (print_pair p) = None"
    using print_pair_ends(3) [OF key] ends_not_blank by (auto simp: strip_suffix_char_def)
  show ?thesis
    unfolding parse_line_def Let_def line using other assms(3-5) by (simp add: open_end kvs)
qed

text \<open>A rom on one line, while a game is open and within the ceiling.\<close>

lemma rom_line_read:
  assumes "\<forall>p \<in> set (rom_pairs r). quotable (snd p)"
    and "\<not> cl_in_rom s" "\<not> cl_in_header s" "length (cl_roms s) < max_roms_per_entry limits"
  shows "parse_line limits all_lines offset (rom_line r) s =
    Inr (emit_rom_flush (fold (\<lambda>(k, v). apply_rom_kv k v) (rom_pairs r)
          (s\<lparr>cl_rom := clear_rom (cl_rom s)\<rparr>)\<lparr>cl_in_rom := True\<rparr>))"
proof -
  let ?ps = "rom_pairs r"
  let ?j = "join_with '' '' (map print_pair ?ps)"
  have keys: "\<forall>p \<in> set ?ps. key_word (fst p) \<and> quotable (snd p)" using assms(1) keys_are_words by blast
  have nonempty: "?ps \<noteq> []" by (simp add: rom_pairs_def)
  have j: "solid ?j" using solid_pairs [OF nonempty] keys by blast
  then have "solid (''rom ( '' @ ?j @ '' )'')" by (simp add: solid_def is_whitespace_def)
  then have line: "trim (rom_line r) = ''rom ( '' @ ?j @ '' )''" unfolding rom_line_def by simp
  have "solid (?j @ '' )'')" using j by (simp add: solid_def is_whitespace_def)
  then have "trim ('' '' @ ?j @ '' )'') = ?j @ '' )''" by simp
  moreover have "strip_suffix_char (CHR '')'') (?j @ '' )'') = Some (?j @ '' '')"
    by (simp add: strip_suffix_char_def butlast_append)
  ultimately have inner: "extract_inner (''rom ( '' @ ?j @ '' )'') ''rom ('' = Some ?j"
    using j by (simp add: extract_inner_def solid_def)
  have closed: "ends_with (''rom ( '' @ ?j @ '' )'') '')''"
    by (simp add: ends_with_def suffix_def)
  have flush: "emit_rom_flush s = s" using assms(2) by (simp add: emit_rom_flush_def)
  have "open_rom limits (''rom ( '' @ ?j @ '' )'') s = Inr (fill_rom (Some ?j) True s)"
    unfolding open_rom_def Let_def inner flush using closed assms(4) by (simp split: option.split)
  moreover have "fill_rom (Some ?j) True s =
      emit_rom_flush (fold (\<lambda>(k, v). apply_rom_kv k v) ?ps (s\<lparr>cl_rom := clear_rom (cl_rom s)\<rparr>)\<lparr>cl_in_rom := True\<rparr>)"
    by (simp add: fill_rom_def apply_inner_def apply_kvs_pairs [OF keys])
  ultimately show ?thesis
    unfolding parse_line_def Let_def line using assms(2,3) by simp
qed

section \<open>Fields collected\<close>

lemma fold_apply_rom_kv:
  "fold (\<lambda>(k, v). apply_rom_kv k v) ps s = s\<lparr>cl_rom := fold (\<lambda>(k, v). rom_field k v) ps (cl_rom s)\<rparr>"
  by (induction ps arbitrary: s) (auto simp: apply_rom_kv_def)

lemma fold_apply_game_kv:
  "fold (\<lambda>p. apply_game_kv (fst p) (snd p)) ps s = s\<lparr>cl_game := fold (\<lambda>(k, v). game_field k v) ps (cl_game s)\<rparr>"
  by (induction ps arbitrary: s) (auto simp: apply_game_kv_def)

lemma fold_optional_pair:
  "fold (\<lambda>(k, v). f k v) (optional_pair key v) r = (case v of None \<Rightarrow> r | Some x \<Rightarrow> f key x r)"
  by (simp add: optional_pair_def split: option.split)

lemma game_fields_read: "fold (\<lambda>(k, v). game_field k v) (game_pairs g) no_game = current_of g"
proof -
  have opt:
    "cg_desc c = None \<Longrightarrow> (case v of None \<Rightarrow> c | Some x \<Rightarrow> game_field ''description'' x c) = c\<lparr>cg_desc := v\<rparr>"
    "cg_clone_of c = None \<Longrightarrow> (case v of None \<Rightarrow> c | Some x \<Rightarrow> game_field ''cloneof'' x c) = c\<lparr>cg_clone_of := v\<rparr>"
    "gf_rom_of (cg_fidelity c) = None \<Longrightarrow> (case v of None \<Rightarrow> c | Some x \<Rightarrow> game_field ''romof'' x c) =
       c\<lparr>cg_fidelity := (cg_fidelity c)\<lparr>gf_rom_of := v\<rparr>\<rparr>"
    "gf_sample_of (cg_fidelity c) = None \<Longrightarrow> (case v of None \<Rightarrow> c | Some x \<Rightarrow> game_field ''sampleof'' x c) =
       c\<lparr>cg_fidelity := (cg_fidelity c)\<lparr>gf_sample_of := v\<rparr>\<rparr>"
    "gf_is_bios (cg_fidelity c) = None \<Longrightarrow> (case v of None \<Rightarrow> c | Some x \<Rightarrow> game_field ''isbios'' x c) =
       c\<lparr>cg_fidelity := (cg_fidelity c)\<lparr>gf_is_bios := v\<rparr>\<rparr>"
    "gf_runnable (cg_fidelity c) = None \<Longrightarrow> (case v of None \<Rightarrow> c | Some x \<Rightarrow> game_field ''runnable'' x c) =
       c\<lparr>cg_fidelity := (cg_fidelity c)\<lparr>gf_runnable := v\<rparr>\<rparr>"
    for c :: current_game and v
    by (cases v; simp add: game_field_def)+
  have name: "game_field ''name'' x c = c\<lparr>cg_name := Some x\<rparr>" for x c by (simp add: game_field_def)
  show ?thesis
    by (simp add: game_pairs_def fold_optional_pair no_game_def no_game_fidelity_def current_of_def opt name)
qed

definition current_rom_of :: "dat_rom_entry \<Rightarrow> current_rom" where
  "current_rom_of r =
     \<lparr> cr_name = Some (dr_name r), cr_size = dr_size_bytes r, cr_crc = dr_crc32 r, cr_md5 = dr_md5 r,
       cr_sha1 = dr_sha1 r, cr_sha256 = dr_sha256 r, cr_status = dr_status r, cr_merge = dr_merge r,
       cr_date = dr_date r, cr_loadflag = dr_loadflag r,
       cr_fidelity = \<lparr> rf_offset = dr_offset r, rf_value = dr_value r, rf_optional = dr_optional r,
                       rf_bios = dr_bios r, rf_region = dr_region r \<rparr> \<rparr>"

lemma rom_hash_read:
  "cr_crc r = None \<Longrightarrow> normal_hash normalise_crc32 v \<Longrightarrow>
     (case v of None \<Rightarrow> r | Some x \<Rightarrow> rom_field ''crc'' x r) = r\<lparr>cr_crc := v\<rparr>"
  "cr_md5 r = None \<Longrightarrow> normal_hash normalise_md5 v \<Longrightarrow>
     (case v of None \<Rightarrow> r | Some x \<Rightarrow> rom_field ''md5'' x r) = r\<lparr>cr_md5 := v\<rparr>"
  "cr_sha1 r = None \<Longrightarrow> normal_hash normalise_sha1 v \<Longrightarrow>
     (case v of None \<Rightarrow> r | Some x \<Rightarrow> rom_field ''sha1'' x r) = r\<lparr>cr_sha1 := v\<rparr>"
  "cr_sha256 r = None \<Longrightarrow> normal_hash normalise_sha256 v \<Longrightarrow>
     (case v of None \<Rightarrow> r | Some x \<Rightarrow> rom_field ''sha256'' x r) = r\<lparr>cr_sha256 := v\<rparr>"
  by (cases v; simp add: rom_field_def normal_hash_def)+

lemma rom_text_read:
  "cr_status r = None \<Longrightarrow> (case v of None \<Rightarrow> r | Some x \<Rightarrow> rom_field ''status'' x r) = r\<lparr>cr_status := v\<rparr>"
  "cr_merge r = None \<Longrightarrow> (case v of None \<Rightarrow> r | Some x \<Rightarrow> rom_field ''merge'' x r) = r\<lparr>cr_merge := v\<rparr>"
  "cr_date r = None \<Longrightarrow> (case v of None \<Rightarrow> r | Some x \<Rightarrow> rom_field ''date'' x r) = r\<lparr>cr_date := v\<rparr>"
  "cr_loadflag r = None \<Longrightarrow> (case v of None \<Rightarrow> r | Some x \<Rightarrow> rom_field ''loadflag'' x r) = r\<lparr>cr_loadflag := v\<rparr>"
  by (cases v; simp add: rom_field_def)+

lemma rom_fidelity_read:
  "rf_offset (cr_fidelity r) = None \<Longrightarrow> (case v of None \<Rightarrow> r | Some x \<Rightarrow> rom_field ''offset'' x r) =
     r\<lparr>cr_fidelity := (cr_fidelity r)\<lparr>rf_offset := v\<rparr>\<rparr>"
  "rf_value (cr_fidelity r) = None \<Longrightarrow> (case v of None \<Rightarrow> r | Some x \<Rightarrow> rom_field ''value'' x r) =
     r\<lparr>cr_fidelity := (cr_fidelity r)\<lparr>rf_value := v\<rparr>\<rparr>"
  "rf_optional (cr_fidelity r) = None \<Longrightarrow> (case v of None \<Rightarrow> r | Some x \<Rightarrow> rom_field ''optional'' x r) =
     r\<lparr>cr_fidelity := (cr_fidelity r)\<lparr>rf_optional := v\<rparr>\<rparr>"
  "rf_bios (cr_fidelity r) = None \<Longrightarrow> (case v of None \<Rightarrow> r | Some x \<Rightarrow> rom_field ''bios'' x r) =
     r\<lparr>cr_fidelity := (cr_fidelity r)\<lparr>rf_bios := v\<rparr>\<rparr>"
  "rf_region (cr_fidelity r) = None \<Longrightarrow> (case v of None \<Rightarrow> r | Some x \<Rightarrow> rom_field ''region'' x r) =
     r\<lparr>cr_fidelity := (cr_fidelity r)\<lparr>rf_region := v\<rparr>\<rparr>"
  by (cases v; simp add: rom_field_def)+

lemma rom_fields_read:
  assumes "printable_rom r"
  shows "fold (\<lambda>(k, v). rom_field k v) (rom_pairs r) no_rom = current_rom_of r"
proof -
  have name: "rom_field ''name'' (dr_name r) c = c\<lparr>cr_name := Some (dr_name r)\<rparr>" for c
    using assms by (simp add: rom_field_def printable_rom_def)
  have bytes: "(case map_option nat_to_string (dr_size_bytes r) of None \<Rightarrow> c | Some x \<Rightarrow> rom_field ''size'' x c) =
      c\<lparr>cr_size := dr_size_bytes r\<rparr>" if "cr_size c = None" for c
    using assms that
    by (cases "dr_size_bytes r") (simp_all add: rom_field_def printable_rom_def parse_u64_nat_to_string)
  have hashes: "normal_hash normalise_crc32 (dr_crc32 r)" "normal_hash normalise_md5 (dr_md5 r)"
      "normal_hash normalise_sha1 (dr_sha1 r)" "normal_hash normalise_sha256 (dr_sha256 r)"
    using assms by (simp_all add: printable_rom_def)
  show ?thesis
    unfolding rom_pairs_def
    by (simp add: fold_optional_pair no_rom_def no_rom_fidelity_def current_rom_of_def name bytes hashes
        rom_hash_read rom_text_read rom_fidelity_read del: case_map_option)
qed

lemma rom_entry_of_current: "rom_entry_of (dr_name r) (current_rom_of r) = r"
  by (simp add: rom_entry_of_def current_rom_of_def)

section \<open>Sequences of lines\<close>

text \<open>The lines take the parser from one state to another, whatever offsets they start at.\<close>

definition reads :: "dat_limits \<Rightarrow> string list \<Rightarrow> clr_state \<Rightarrow> clr_state \<Rightarrow> bool" where
  "reads limits ls s s' \<longleftrightarrow>
     (\<forall>all_lines offs. length offs = length ls \<longrightarrow> parse_lines limits all_lines (zip offs ls) s = Inr s')"

lemma reads_Nil [simp]: "reads limits [] s s' \<longleftrightarrow> s' = s"
  by (auto simp: reads_def)

lemma reads_Cons:
  assumes "\<And>all_lines offset. parse_line limits all_lines offset l s = Inr s1" and "reads limits ls s1 s2"
  shows "reads limits (l # ls) s s2"
  unfolding reads_def
proof (intro allI impI)
  fix all_lines :: "(nat \<times> string) list" and offs :: "nat list"
  assume "length offs = length (l # ls)"
  then obtain off offs' where "offs = off # offs'" "length offs' = length ls" by (cases offs) auto
  then show "parse_lines limits all_lines (zip offs (l # ls)) s = Inr s2"
    using assms by (simp add: reads_def)
qed

lemma parse_lines_append:
  "parse_lines limits all_lines (xs @ ys) s =
    (case parse_lines limits all_lines xs s of Inl err \<Rightarrow> Inl err | Inr s' \<Rightarrow> parse_lines limits all_lines ys s')"
  by (induction limits all_lines xs s rule: parse_lines.induct) (auto split: sum.splits)

lemma reads_append:
  assumes "reads limits ls1 s s1" and "reads limits ls2 s1 s2"
  shows "reads limits (ls1 @ ls2) s s2"
  unfolding reads_def
proof (intro allI impI)
  fix all_lines :: "(nat \<times> string) list" and offs :: "nat list"
  assume len: "length offs = length (ls1 @ ls2)"
  have "zip offs (ls1 @ ls2) = zip (take (length ls1) offs) ls1 @ zip (drop (length ls1) offs) ls2"
    by (simp add: zip_append2)
  moreover have "parse_lines limits all_lines (zip (take (length ls1) offs) ls1) s = Inr s1"
    using assms(1) len by (simp add: reads_def)
  moreover have "parse_lines limits all_lines (zip (drop (length ls1) offs) ls2) s1 = Inr s2"
    using assms(2) len by (simp add: reads_def)
  ultimately show "parse_lines limits all_lines (zip offs (ls1 @ ls2)) s = Inr s2"
    by (simp add: parse_lines_append)
qed

text \<open>Between two games: the heading is read, nothing is open and nothing is pending.\<close>

definition between :: "clr_heading \<Rightarrow> dat_game_entry list \<Rightarrow> clr_state" where
  "between h games =
     \<lparr> cl_name = ch_name h, cl_description = ch_description h, cl_version = ch_version h,
       cl_author = ch_author h, cl_header = heading_fields h, cl_warnings = [], cl_games = games,
       cl_in_header = False, cl_in_game = False, cl_in_rom = False, cl_game = no_game,
       cl_rom = no_rom, cl_roms = [] \<rparr>"

definition inside :: "clr_heading \<Rightarrow> dat_game_entry list \<Rightarrow> current_game \<Rightarrow> dat_rom_entry list \<Rightarrow> clr_state" where
  "inside h games g roms =
     (between h games)\<lparr>cl_in_game := True, cl_game := g, cl_roms := roms\<rparr>"

lemma inside_simps [simp]:
  "cl_in_game (inside h games g roms)" "\<not> cl_in_rom (inside h games g roms)"
  "\<not> cl_in_header (inside h games g roms)" "cl_game (inside h games g roms) = g"
  "cl_roms (inside h games g roms) = roms" "cl_rom (inside h games g roms) = no_rom"
  "(inside h games g roms)\<lparr>cl_game := g'\<rparr> = inside h games g' roms"
  by (simp_all add: inside_def between_def)

lemma between_simps [simp]:
  "\<not> cl_in_rom (between h games)" "\<not> cl_in_header (between h games)"
  "cl_game (between h games) = no_game" "cl_games (between h games) = games"
  by (simp_all add: between_def)

lemma game_opens:
  "parse_line limits all_lines offset ''game ('' (between h games) = Inr (inside h games no_game [])"
proof -
  have line: "trim ''game ('' = ''game (''" by (rule trim_solid_simps) (simp add: solid_def is_whitespace_def)
  have inner: "extract_inner ''game ('' ''game ('' = None" by (simp add: extract_inner_def trim_def)
  have flush: "emit_rom_flush (between h games) = between h games" by (simp add: emit_rom_flush_def)
  have emit: "emit_and_clear limits (between h games) = Inr (between h games)"
    by (simp add: emit_and_clear_def emit_game_def clear_game_def no_game_def between_def)
  have "open_game limits ''game ('' (between h games) = Inr (inside h games no_game [])"
    unfolding open_game_def Let_def inner flush emit
    by (simp add: apply_inner_def inside_def between_def)
  then show ?thesis unfolding parse_line_def Let_def line by simp
qed

lemma fields_read:
  assumes "set ps \<subseteq> set (game_pairs g)" and "\<forall>p \<in> set ps. quotable (snd p)"
  shows "reads limits (map field_line ps) (inside h games c [])
    (inside h games (fold (\<lambda>(k, v). game_field k v) ps c) [])"
  using assms
proof (induction ps arbitrary: c)
  case Nil
  then show ?case by simp
next
  case (Cons p ps)
  show ?case unfolding list.map
  proof (rule reads_Cons)
    show "parse_line limits all_lines offset (field_line p) (inside h games c []) =
        Inr (inside h games (game_field (fst p) (snd p) c) [])" for all_lines offset
      using field_line_read [of p g "inside h games c []" limits all_lines offset] Cons.prems
      by (simp add: apply_game_kv_def)
    show "reads limits (map field_line ps) (inside h games (game_field (fst p) (snd p) c) [])
        (inside h games (fold (\<lambda>(k, v). game_field k v) (p # ps) c) [])"
      using Cons by (simp add: case_prod_unfold)
  qed
qed

lemma clear_no_rom [simp]: "clear_rom no_rom = no_rom"
  by (simp add: clear_rom_def no_rom_def)

lemma rom_read:
  assumes "printable_rom r" and "length roms < max_roms_per_entry limits"
  shows "parse_line limits all_lines offset (rom_line r) (inside h games c roms) =
    Inr (inside h games c (roms @ [r]))"
proof -
  let ?s = "inside h games c roms"
  have pairs: "\<forall>p \<in> set (rom_pairs r). quotable (snd p)"
    using assms(1) by (auto simp: printable_rom_def list_all_iff)
  have "fold (\<lambda>(k, v). apply_rom_kv k v) (rom_pairs r) (?s\<lparr>cl_rom := clear_rom (cl_rom ?s)\<rparr>) =
      ?s\<lparr>cl_rom := current_rom_of r\<rparr>"
    using rom_fields_read [OF assms(1)] by (simp add: fold_apply_rom_kv)
  then have "parse_line limits all_lines offset (rom_line r) ?s =
      Inr (emit_rom_flush (?s\<lparr>cl_rom := current_rom_of r\<rparr>\<lparr>cl_in_rom := True\<rparr>))"
    using rom_line_read [OF pairs, of ?s limits all_lines offset] assms(2) by simp
  also have "emit_rom_flush (?s\<lparr>cl_rom := current_rom_of r\<rparr>\<lparr>cl_in_rom := True\<rparr>) = inside h games c (roms @ [r])"
    using rom_entry_of_current [of r]
    by (simp add: emit_rom_flush_def inside_def between_def current_rom_of_def)
  finally show ?thesis .
qed

lemma roms_read:
  assumes "list_all printable_rom rs" and "length (roms @ rs) \<le> max_roms_per_entry limits"
  shows "reads limits (map rom_line rs) (inside h games c roms) (inside h games c (roms @ rs))"
  using assms
proof (induction rs arbitrary: roms)
  case Nil
  then show ?case by simp
next
  case (Cons r rs)
  show ?case unfolding list.map
  proof (rule reads_Cons)
    show "parse_line limits all_lines offset (rom_line r) (inside h games c roms) =
        Inr (inside h games c (roms @ [r]))" for all_lines offset
      using Cons.prems by (intro rom_read) simp_all
    show "reads limits (map rom_line rs) (inside h games c (roms @ [r])) (inside h games c (roms @ r # rs))"
      using Cons.IH [of "roms @ [r]"] Cons.prems by simp
  qed
qed

lemma game_closes:
  assumes "printable_game limits g" and "length games < max_entries limits"
  shows "parse_line limits all_lines offset '')'' (inside h games (current_of g) (dg_roms g)) =
    Inr (between h (games @ [g]))"
proof -
  let ?s = "inside h games (current_of g) (dg_roms g)"
  have line: "trim '')'' = '')''" by (rule trim_solid_simps) (simp add: solid_def is_whitespace_def)
  have g: "game_entry_of (dg_name g) (current_of g) (dg_roms g) = g"
    using assms(1) by (simp add: printable_game_def)
  have "emit_game limits ?s = Inr ((between h (games @ [g]))\<lparr>cl_in_game := True\<rparr>)"
    using assms(2) g by (simp add: emit_game_def inside_def between_def current_of_def)
  then have "close_block limits ?s = Inr (between h (games @ [g]))"
    by (simp add: close_block_def emit_and_clear_def clear_game_def between_def no_game_def)
  then show ?thesis unfolding parse_line_def Let_def line by simp
qed

lemma game_read:
  assumes "printable_game limits g" and "length games < max_entries limits"
  shows "reads limits (game_lines g) (between h games) (between h (games @ [g]))"
  unfolding game_lines_def
proof (intro reads_append)
  show "reads limits [''game (''] (between h games) (inside h games no_game [])"
    by (rule reads_Cons [OF game_opens]) simp
  show "reads limits (map field_line (game_pairs g)) (inside h games no_game []) (inside h games (current_of g) [])"
    using fields_read [of "game_pairs g" g limits h games no_game] game_fields_read [of g] assms(1)
    by (simp add: printable_game_def list_all_iff)
  show "reads limits (map rom_line (dg_roms g)) (inside h games (current_of g) [])
      (inside h games (current_of g) (dg_roms g))"
    using roms_read [of "dg_roms g" "[]"] assms(1) by (simp add: printable_game_def)
  show "reads limits ['')''] (inside h games (current_of g) (dg_roms g)) (between h (games @ [g]))"
    by (rule reads_Cons [OF game_closes [OF assms]]) simp
qed

lemma games_read:
  assumes "list_all (printable_game limits) gs" and "length (games @ gs) \<le> max_entries limits"
  shows "reads limits (concat (map game_lines gs)) (between h games) (between h (games @ gs))"
  using assms
proof (induction gs arbitrary: games)
  case Nil
  then show ?case by simp
next
  case (Cons g gs)
  have "reads limits (game_lines g) (between h games) (between h (games @ [g]))"
    using Cons.prems by (intro game_read) simp_all
  then show ?case using Cons.IH [of "games @ [g]"] Cons.prems reads_append by fastforce
qed

section \<open>The heading\<close>

lemma solid_header_field: "key_word key \<Longrightarrow> solid (key @ '' '' @ quoted v)"
  using key_word_hd [of key] by (simp add: solid_def quoted_def alphanumeric_facts is_whitespace_def [of dquote])

lemma header_line_read:
  assumes "key_word key" and "cl_in_header s"
  shows "parse_line limits all_lines offset (tab # key @ '' '' @ quoted v) s =
    Inr (parse_header_field limits all_lines offset (key @ '' '' @ quoted v)
           (s\<lparr>cl_header := cl_header s @ [key @ '' '' @ quoted v]\<rparr>))"
proof -
  let ?l = "key @ '' '' @ quoted v"
  have line: "trim (tab # ?l) = ?l" using solid_header_field [OF assms(1)] by (rule trim_solid_simps)
  have "last ?l = dquote" by (simp add: quoted_def)
  then have "?l \<noteq> x" if "last x \<noteq> dquote" for x using that by metis
  from this [of "''clrmamepro (''"] this [of "'')''"]
  have other: "?l \<noteq> ''clrmamepro (''" "?l \<noteq> '')''" by simp_all
  show ?thesis unfolding parse_line_def Let_def line using other assms(2) by simp
qed

lemma unquote_quoted: "unquote (quoted v) = v"
proof -
  have "solid (quoted v)" by (simp add: solid_def quoted_def is_whitespace_def)
  then have "trim (quoted v) = quoted v" by simp
  then show ?thesis by (simp add: unquote_def quoted_def strip_prefix_def strip_suffix_char_def)
qed

lemma header_keys:
  "to_ascii_lowercase (''name '' @ s) = ''name '' @ to_ascii_lowercase s"
  "to_ascii_lowercase (''description '' @ s) = ''description '' @ to_ascii_lowercase s"
  "to_ascii_lowercase (''version '' @ s) = ''version '' @ to_ascii_lowercase s"
  "to_ascii_lowercase (''author '' @ s) = ''author '' @ to_ascii_lowercase s"
  by (simp_all add: to_ascii_lowercase_def to_ascii_lower_char_def)

lemma header_field_read:
  "parse_header_field limits all_lines offset (''name'' @ '' '' @ quoted v) s = s\<lparr>cl_name := Some v\<rparr>"
  "parse_header_field limits all_lines offset (''version'' @ '' '' @ quoted v) s = s\<lparr>cl_version := Some v\<rparr>"
  "parse_header_field limits all_lines offset (''author'' @ '' '' @ quoted v) s = s\<lparr>cl_author := Some v\<rparr>"
  "utf8_len v \<le> max_description_length limits \<Longrightarrow>
   parse_header_field limits all_lines offset (''description'' @ '' '' @ quoted v) s = s\<lparr>cl_description := Some v\<rparr>"
  using header_keys [of "quoted v"] by (simp_all add: parse_header_field_def unquote_quoted Let_def)

lemma optional_field_read:
  assumes "key_word key" and "cl_in_header s"
    and "\<And>x all_lines offset t. v = Some x \<Longrightarrow>
      parse_header_field limits all_lines offset (key @ '' '' @ quoted x) t = upd x t"
  shows "reads limits (map (\<lambda>p. [tab] @ fst p @ '' '' @ quoted (snd p)) (optional_pair key v)) s
    (case v of None \<Rightarrow> s | Some x \<Rightarrow> upd x (s\<lparr>cl_header := cl_header s @ [key @ '' '' @ quoted x]\<rparr>))"
proof (cases v)
  case None
  then show ?thesis by (simp add: optional_pair_def)
next
  case (Some x)
  have "reads limits [tab # key @ '' '' @ quoted x] s (upd x (s\<lparr>cl_header := cl_header s @ [key @ '' '' @ quoted x]\<rparr>))"
    using header_line_read [OF assms(1,2)] assms(3) [OF Some] by (intro reads_Cons) simp_all
  then show ?thesis using Some by (simp add: optional_pair_def)
qed

text \<open>Inside the header, with some of it read.\<close>

definition heading_state ::
    "string option \<Rightarrow> string option \<Rightarrow> string option \<Rightarrow> string option \<Rightarrow> string list \<Rightarrow> clr_state" where
  "heading_state n d v a header =
     \<lparr> cl_name = n, cl_description = d, cl_version = v, cl_author = a, cl_header = header,
       cl_warnings = [], cl_games = [], cl_in_header = True, cl_in_game = False, cl_in_rom = False,
       cl_game = no_game, cl_rom = no_rom, cl_roms = [] \<rparr>"

lemma heading_read:
  assumes "printable_heading limits h"
  shows "reads limits ([''clrmamepro (''] @ map (\<lambda>f. [tab] @ f) (heading_fields h) @ ['')'']) clr_start (between h [])"
proof -
  let ?p = "\<lambda>key v. map (\<lambda>p. fst p @ '' '' @ quoted (snd p)) (optional_pair key v)"
  let ?t = "\<lambda>key v. map (\<lambda>p. [tab] @ fst p @ '' '' @ quoted (snd p)) (optional_pair key v)"
  have words: "key_word ''name''" "key_word ''description''" "key_word ''version''" "key_word ''author''"
    by (simp_all add: key_word_def is_ascii_alphanumeric_def is_ascii_alphabetic_def)
  have start: "trim ''clrmamepro ('' = ''clrmamepro (''" "trim '')'' = '')''"
    by (rule trim_solid_simps, simp add: solid_def is_whitespace_def)+
  have n: "reads limits (?t ''name'' (ch_name h)) (heading_state None None None None [])
      (heading_state (ch_name h) None None None (?p ''name'' (ch_name h)))"
    using optional_field_read [OF words(1), of "heading_state None None None None []" "ch_name h" limits
        "\<lambda>x t. t\<lparr>cl_name := Some x\<rparr>"] header_field_read(1)
    by (simp add: heading_state_def optional_pair_def split: option.splits)
  have description: "parse_header_field limits all_lines offset (''description'' @ '' '' @ quoted x) t =
      t\<lparr>cl_description := Some x\<rparr>" if "ch_description h = Some x" for x all_lines offset t
    using that assms by (intro header_field_read(4)) (simp add: printable_heading_def)
  have d: "reads limits (?t ''description'' (ch_description h)) (heading_state n None None None hd)
      (heading_state n (ch_description h) None None (hd @ ?p ''description'' (ch_description h)))" for n hd
    using optional_field_read [where v = "ch_description h", OF words(2) _ description, where s = "heading_state n None None None hd"]
    by (simp add: heading_state_def optional_pair_def split: option.splits)
  have v: "reads limits (?t ''version'' (ch_version h)) (heading_state n e None None hd)
      (heading_state n e (ch_version h) None (hd @ ?p ''version'' (ch_version h)))" for n e hd
    using optional_field_read [OF words(3), of "heading_state n e None None hd" "ch_version h" limits
        "\<lambda>x t. t\<lparr>cl_version := Some x\<rparr>"] header_field_read(2)
    by (simp add: heading_state_def optional_pair_def split: option.splits)
  have a: "reads limits (?t ''author'' (ch_author h)) (heading_state n e w None hd)
      (heading_state n e w (ch_author h) (hd @ ?p ''author'' (ch_author h)))" for n e w hd
    using optional_field_read [OF words(4), of "heading_state n e w None hd" "ch_author h" limits
        "\<lambda>x t. t\<lparr>cl_author := Some x\<rparr>"] header_field_read(3)
    by (simp add: heading_state_def optional_pair_def split: option.splits)
  have fields: "map (\<lambda>f. [tab] @ f) (heading_fields h) = ?t ''name'' (ch_name h) @
      ?t ''description'' (ch_description h) @ ?t ''version'' (ch_version h) @ ?t ''author'' (ch_author h)"
    by (simp add: heading_fields_def)
  have header: "heading_fields h = ((?p ''name'' (ch_name h) @ ?p ''description'' (ch_description h)) @
      ?p ''version'' (ch_version h)) @ ?p ''author'' (ch_author h)"
    by (simp add: heading_fields_def)
  have body: "reads limits (map (\<lambda>f. [tab] @ f) (heading_fields h)) (heading_state None None None None [])
      (heading_state (ch_name h) (ch_description h) (ch_version h) (ch_author h) (heading_fields h))"
    unfolding fields by (subst header) (rule reads_append [OF n reads_append [OF d reads_append [OF v a]]])
  have first: "reads limits [''clrmamepro (''] clr_start (heading_state None None None None [])"
    by (rule reads_Cons) (simp_all add: parse_line_def start heading_state_def clr_start_def)
  have final: "reads limits ['')'']
      (heading_state (ch_name h) (ch_description h) (ch_version h) (ch_author h) (heading_fields h)) (between h [])"
    by (rule reads_Cons) (simp_all add: parse_line_def start heading_state_def clr_start_def between_def)
  show ?thesis by (rule reads_append [OF first reads_append [OF body final]])
qed

section \<open>The text of the file\<close>

definition clean_line :: "string \<Rightarrow> bool" where
  "clean_line l \<longleftrightarrow> newline \<notin> set l \<and> drop_carriage_return l = l"

lemma lines_of_text:
  "list_all clean_line ls \<Longrightarrow>
   \<exists>offs. length offs = length ls \<and> lines_from start [] (concat (map (\<lambda>l. l @ [newline]) ls)) = zip offs ls"
proof (induction ls arbitrary: start)
  case Nil
  then show ?case by simp
next
  case (Cons l ls)
  then obtain offs where offs: "length offs = length ls"
      "lines_from (start + utf8_len l + 1) [] (concat (map (\<lambda>l. l @ [newline]) ls)) = zip offs ls"
    by fastforce
  have "lines_from start [] (concat (map (\<lambda>l. l @ [newline]) (l # ls))) = zip (start # offs) (l # ls)"
    using offs(2) Cons.prems by (simp add: lines_from_line clean_line_def)
  then show ?case using offs(1) by (intro exI [of _ "start # offs"]) simp
qed

lemma clean_lineI: "newline \<notin> set l \<Longrightarrow> l \<noteq> [] \<Longrightarrow> last l \<noteq> carriage_return \<Longrightarrow> clean_line l"
  by (simp add: clean_line_def drop_carriage_return_def strip_suffix_char_def)

lemma newline_not_word [simp]: "\<not> is_ascii_alphanumeric newline"
  using alphanumeric_facts(5) by blast

lemma print_pair_chars: "key_word (fst p) \<Longrightarrow> quotable (snd p) \<Longrightarrow> newline \<notin> set (print_pair p)"
  by (auto simp: print_pair_def print_value_def quoted_def key_word_def quotable_def list_all_iff)

lemma join_with_chars:
  "newline \<notin> set sep \<Longrightarrow> \<forall>w \<in> set ws. newline \<notin> set w \<Longrightarrow> newline \<notin> set (join_with sep ws)"
  by (induction sep ws rule: join_with.induct) auto

lemma clean_field_line:
  assumes "p \<in> set (game_pairs g)" and "quotable (snd p)"
  shows "clean_line (field_line p)"
proof -
  have key: "key_word (fst p)" using assms(1) by (rule keys_are_words)
  show ?thesis
    using print_pair_chars [OF key assms(2)] print_pair_ends [OF key] ends_not_blank
    by (intro clean_lineI) (auto simp: field_line_def)
qed

lemma clean_rom_line:
  assumes "printable_rom r"
  shows "clean_line (rom_line r)"
proof -
  have "\<forall>w \<in> set (map print_pair (rom_pairs r)). newline \<notin> set w"
    using assms keys_are_words(2) print_pair_chars by (fastforce simp: printable_rom_def list_all_iff)
  then have "newline \<notin> set (join_with '' '' (map print_pair (rom_pairs r)))"
    by (intro join_with_chars) simp_all
  then show ?thesis by (intro clean_lineI) (simp_all add: rom_line_def)
qed

lemma clean_game_lines: "printable_game limits g \<Longrightarrow> list_all clean_line (game_lines g)"
  by (auto simp: game_lines_def printable_game_def list_all_iff clean_field_line clean_rom_line intro: clean_lineI)

lemma clean_catalogue_lines:
  assumes "printable_heading limits h" and "list_all (printable_game limits) games"
  shows "list_all clean_line (catalogue_lines h games)"
proof -
  have "clean_line ([tab] @ f)" if "f \<in> set (heading_fields h)" for f
  proof -
    from that obtain p where "f = fst p @ '' '' @ quoted (snd p)" by (auto simp: heading_fields_def)
    then have "f \<noteq> []" "last f = dquote" by (simp_all add: quoted_def)
    moreover have "newline \<notin> set f" using assms(1) that by (simp add: printable_heading_def one_line_def list_all_iff)
    ultimately show ?thesis by (intro clean_lineI) simp_all
  qed
  then show ?thesis
    using assms(2) clean_game_lines
    by (auto simp: catalogue_lines_def list_all_iff intro: clean_lineI)
qed

section \<open>What is printed is read back\<close>

definition heading_source :: "path \<Rightarrow> clr_heading \<Rightarrow> dat_game_entry list \<Rightarrow> dat_source" where
  "heading_source p h games =
     \<lparr> ds_format = ClrMamePro,
       ds_ecosystem = detect_clrmamepro_ecosystem (ch_name h) (ch_description h) (heading_fields h),
       ds_file_path = path_text p, ds_name = ch_name h, ds_description = ch_description h,
       ds_version = ch_version h, ds_author = ch_author h, ds_homepage = None,
       ds_clrmamepro_header =
         (if heading_fields h = [] then None else Some (join_with [newline] (heading_fields h))),
       ds_entry_count = length games,
       ds_rom_count = sum_list (map game_rom_count games), ds_parse_warnings = [] \<rparr>"

lemma printed_content_read:
  assumes "printable_heading limits h" and "list_all (printable_game limits) games"
    and "length games \<le> max_entries limits"
  shows "parse_content limits p (print_catalogue h games) =
    Inr \<lparr> po_dat = \<lparr> pd_source = heading_source p h games, pd_games = games \<rparr>, po_warnings = [] \<rparr>"
proof -
  obtain offs where offs: "length offs = length (catalogue_lines h games)"
      "text_lines (print_catalogue h games) = zip offs (catalogue_lines h games)"
    using lines_of_text [OF clean_catalogue_lines [OF assms(1,2)]]
    unfolding text_lines_def print_catalogue_def by blast
  have "reads limits (catalogue_lines h games) clr_start (between h games)"
    using reads_append [OF heading_read [OF assms(1)] games_read [OF assms(2), of "[]" h]] assms(3)
    by (simp add: catalogue_lines_def)
  then have "parse_lines limits (zip offs (catalogue_lines h games)) (zip offs (catalogue_lines h games)) clr_start =
      Inr (between h games)"
    using offs(1) by (simp add: reads_def)
  moreover have "emit_game limits (emit_rom_flush (between h games)) = Inr (between h games)"
    by (simp add: emit_rom_flush_def emit_game_def between_def no_game_def)
  moreover have "clr_outcome p (between h games) =
      \<lparr> po_dat = \<lparr> pd_source = heading_source p h games, pd_games = games \<rparr>, po_warnings = [] \<rparr>"
    by (simp add: clr_outcome_def between_def heading_source_def game_rom_count_def [abs_def])
  ultimately show ?thesis by (simp add: parse_content_def offs(2))
qed

text \<open>
  C34: A catalogue written in the ClrMamePro layout - a header block, then one block per game
  with one line per field and one line per rom, bare words unquoted and everything else in
  quotation marks - is read back exactly: every game in order with every field and every
  rom, sizes and hashes included, the header fields, the counts, and no warning; provided the
  file is within the size ceiling, the catalogue within the entry and rom ceilings, the texts
  hold no line feed and, outside the header, no quotation mark.
\<close>

theorem clrmamepro_round_trip:
  assumes "pe_metadata env p = Inr (is_file, bytes)" and "bytes \<le> max_file_size limits"
    and "pe_content env p = Inr (print_catalogue h games)"
    and "printable_heading limits h" and "list_all (printable_game limits) games"
    and "length games \<le> max_entries limits"
  shows "parse_clrmamepro env p limits =
    Inr \<lparr> po_dat = \<lparr> pd_source = heading_source p h games, pd_games = games \<rparr>, po_warnings = [] \<rparr>"
  using assms(1,2,3) printed_content_read [OF assms(4-6)] by (simp add: parse_clrmamepro_def)

end
