(* ===== verification/ClrProofs.thy ===== *)
theory ClrProofs
  imports ClrRoundTrip DatSetProofs
begin

text \<open>
  What holds of every result of the ClrMamePro parser, whatever the file says: the errors it
  can end with, the shape of the catalogue it returns, and that the set audit never reaches a
  confident verdict on one of its entries. The last section evaluates the inputs on which the
  parser and its documentation part.
\<close>

section \<open>Well-formed results\<close>

definition normal_rom :: "dat_rom_entry \<Rightarrow> bool" where
  "normal_rom r \<longleftrightarrow>
     dr_name r \<noteq> [] \<and> normal_hash normalise_crc32 (dr_crc32 r) \<and> normal_hash normalise_md5 (dr_md5 r) \<and>
     normal_hash normalise_sha1 (dr_sha1 r) \<and> normal_hash normalise_sha256 (dr_sha256 r) \<and>
     (case dr_size_bytes r of None \<Rightarrow> True | Some n \<Rightarrow> n \<le> 18446744073709551615)"

definition clr_game_ok :: "dat_game_entry \<Rightarrow> bool" where
  "clr_game_ok g \<longleftrightarrow>
     dg_unsupported_structure g \<and> dg_disks g = [] \<and> dg_parts g = [] \<and> list_all normal_rom (dg_roms g)"

definition clr_outcome_ok :: "dat_limits \<Rightarrow> parse_outcome \<Rightarrow> bool" where
  "clr_outcome_ok limits out \<longleftrightarrow>
     (let games = pd_games (po_dat out); source = pd_source (po_dat out) in
      list_all clr_game_ok games \<and> length games \<le> max_entries limits \<and>
      ds_entry_count source = length games \<and> ds_rom_count source = total_roms (po_dat out) \<and>
      length (po_warnings out) \<le> max_warnings limits \<and>
      ds_parse_warnings source = map warning_display (po_warnings out) \<and>
      (\<forall>d. ds_description source = Some d \<longrightarrow> length d \<le> max_description_length limits))"

definition rom_in_progress :: "current_rom \<Rightarrow> bool" where
  "rom_in_progress r \<longleftrightarrow>
     cr_name r \<noteq> Some [] \<and> normal_hash normalise_crc32 (cr_crc r) \<and> normal_hash normalise_md5 (cr_md5 r) \<and>
     normal_hash normalise_sha1 (cr_sha1 r) \<and> normal_hash normalise_sha256 (cr_sha256 r) \<and>
     (case cr_size r of None \<Rightarrow> True | Some n \<Rightarrow> n \<le> 18446744073709551615)"

definition state_ok :: "dat_limits \<Rightarrow> clr_state \<Rightarrow> bool" where
  "state_ok limits s \<longleftrightarrow>
     list_all clr_game_ok (cl_games s) \<and> length (cl_games s) \<le> max_entries limits \<and>
     list_all normal_rom (cl_roms s) \<and> rom_in_progress (cl_rom s) \<and>
     length (cl_warnings s) \<le> max_warnings limits \<and>
     (\<forall>d. cl_description s = Some d \<longrightarrow> length d \<le> max_description_length limits)"

definition limit_error :: "dat_limits \<Rightarrow> parse_error \<Rightarrow> bool" where
  "limit_error limits err \<longleftrightarrow>
     err = EntryLimitExceeded (max_entries limits) (max_entries limits) \<or>
     (\<exists>game_name n. n \<ge> max_roms_per_entry limits \<and>
        err = RomsPerEntryExceeded game_name n (max_roms_per_entry limits))"

definition step_ok :: "dat_limits \<Rightarrow> parse_error + clr_state \<Rightarrow> bool" where
  "step_ok limits x \<longleftrightarrow> (case x of Inl err \<Rightarrow> limit_error limits err | Inr s \<Rightarrow> state_ok limits s)"

lemma step_ok_simps [simp]:
  "step_ok limits (Inl err) = limit_error limits err" "step_ok limits (Inr s) = state_ok limits s"
  by (simp_all add: step_ok_def)

lemma step_ok_map:
  "step_ok limits x \<Longrightarrow> (\<And>s. state_ok limits s \<Longrightarrow> state_ok limits (f s)) \<Longrightarrow> step_ok limits (map_sum id f x)"
  by (cases x) simp_all

lemma fold_preserves: "(\<And>x s. P s \<Longrightarrow> P (f x s)) \<Longrightarrow> P s \<Longrightarrow> P (fold f xs s)"
  by (induction xs arbitrary: s) auto

lemma apply_kvs_preserves: "(\<And>k v s. P s \<Longrightarrow> P (cb k v s)) \<Longrightarrow> P s \<Longrightarrow> P (apply_kvs cb line s)"
  unfolding apply_kvs_def by (rule fold_preserves) auto

lemma apply_inner_preserves: "(\<And>k v s. P s \<Longrightarrow> P (cb k v s)) \<Longrightarrow> P s \<Longrightarrow> P (apply_inner cb inner s)"
  by (auto simp: apply_inner_def intro: apply_kvs_preserves split: option.split)

lemma normal_hash_read:
  "normalise_crc32 v = Some x \<Longrightarrow> normal_hash normalise_crc32 (Some x)"
  "normalise_md5 v = Some x \<Longrightarrow> normal_hash normalise_md5 (Some x)"
  "normalise_sha1 v = Some x \<Longrightarrow> normal_hash normalise_sha1 (Some x)"
  "normalise_sha256 v = Some x \<Longrightarrow> normal_hash normalise_sha256 (Some x)"
  by (auto simp: normal_hash_def normalise_defs intro: normalise_hex_idem)

lemma parse_u64_bound: "parse_u64 v = Some n \<Longrightarrow> n \<le> 18446744073709551615"
  by (auto simp: parse_u64_def parse_unsigned_def Let_def split: if_splits)

lemma if_cases: "(c \<Longrightarrow> P a) \<Longrightarrow> (\<not> c \<Longrightarrow> P b) \<Longrightarrow> P (if c then a else b)"
  by simp

lemma rom_field_ok:
  assumes "rom_in_progress r"
  shows "rom_in_progress (rom_field key v r)"
  unfolding rom_field_def
  by (rule if_cases [where P = rom_in_progress])+
    (use assms in \<open>simp_all add: rom_in_progress_def normal_hash_read parse_u64_bound split: option.split\<close>)

lemma apply_kv_ok:
  "state_ok limits s \<Longrightarrow> state_ok limits (apply_rom_kv k v s)"
  "state_ok limits s \<Longrightarrow> state_ok limits (apply_game_kv k v s)"
  "state_ok limits s \<Longrightarrow> state_ok limits (apply_opening_kv limits k v s)"
  by (simp_all add: state_ok_def apply_rom_kv_def apply_game_kv_def apply_opening_kv_def rom_field_ok)

lemma no_rom_ok: "rom_in_progress no_rom"
  by (simp add: rom_in_progress_def no_rom_def normal_hash_def)

lemma state_ok_flags:
  "state_ok limits (s\<lparr>cl_in_rom := b\<rparr>) = state_ok limits s"
  "state_ok limits (s\<lparr>cl_in_game := b\<rparr>) = state_ok limits s"
  "state_ok limits (s\<lparr>cl_in_header := b\<rparr>) = state_ok limits s"
  "state_ok limits (s\<lparr>cl_header := hs\<rparr>) = state_ok limits s"
  "state_ok limits (s\<lparr>cl_game := g\<rparr>) = state_ok limits s"
  by (simp_all add: state_ok_def)

lemma emit_rom_flush_ok:
  assumes "state_ok limits s"
  shows "state_ok limits (emit_rom_flush s)"
proof (cases "cr_name (cl_rom s)")
  case None
  then show ?thesis using assms
    by (simp add: emit_rom_flush_def state_ok_def rom_in_progress_def)
next
  case (Some rom_name)
  then have "normal_rom (rom_entry_of rom_name (cl_rom s))"
    using assms by (auto simp: state_ok_def rom_in_progress_def normal_rom_def rom_entry_of_def)
  then show ?thesis using assms Some no_rom_ok by (simp add: emit_rom_flush_def state_ok_def)
qed

lemma emit_game_ok:
  assumes "state_ok limits s"
  shows "step_ok limits (emit_game limits s)"
  using assms
  by (auto simp: emit_game_def state_ok_def limit_error_def clr_game_ok_def game_entry_of_def split: option.split)

lemma emit_and_clear_ok: "state_ok limits s \<Longrightarrow> step_ok limits (emit_and_clear limits s)"
  unfolding emit_and_clear_def
  by (rule step_ok_map [OF emit_game_ok]) (simp_all add: clear_game_def state_ok_def)

lemma fill_rom_ok:
  assumes "state_ok limits s"
  shows "state_ok limits (fill_rom inner is_closed s)"
proof -
  have "state_ok limits (s\<lparr>cl_rom := clear_rom (cl_rom s)\<rparr>)"
    using assms by (simp add: state_ok_def clear_rom_def rom_in_progress_def normal_hash_def)
  then have "state_ok limits (apply_inner apply_rom_kv inner (s\<lparr>cl_rom := clear_rom (cl_rom s)\<rparr>))"
    by (rule apply_inner_preserves [rotated]) (rule apply_kv_ok)
  then show ?thesis by (simp add: fill_rom_def Let_def emit_rom_flush_ok state_ok_flags)
qed

lemma open_rom_ok: "state_ok limits s \<Longrightarrow> step_ok limits (open_rom limits line s)"
  using emit_rom_flush_ok [of limits s] fill_rom_ok
  by (auto simp: open_rom_def Let_def limit_error_def split: option.split)

lemma open_game_ok:
  assumes "state_ok limits s"
  shows "step_ok limits (open_game limits line s)"
proof (cases "emit_and_clear limits (emit_rom_flush s)")
  case (Inl err)
  then show ?thesis using emit_and_clear_ok [OF emit_rom_flush_ok [OF assms]] by (simp add: open_game_def)
next
  case (Inr s1)
  let ?s2 = "apply_inner (apply_opening_kv limits) (extract_inner line ''game ('') s1"
  have "state_ok limits s1" using emit_and_clear_ok [OF emit_rom_flush_ok [OF assms]] Inr by simp
  then have "state_ok limits ?s2" by (rule apply_inner_preserves [rotated]) (rule apply_kv_ok)
  moreover have "step_ok limits (map_sum id (\<lambda>s3. s3\<lparr>cl_in_game := False, cl_in_rom := False\<rparr>) (emit_and_clear limits ?s2))"
    using calculation by (intro step_ok_map emit_and_clear_ok) (simp_all add: state_ok_flags)
  ultimately show ?thesis by (simp add: open_game_def Inr Let_def state_ok_flags)
qed

lemma close_block_ok:
  assumes "state_ok limits s"
  shows "step_ok limits (close_block limits s)"
proof -
  let ?s1 = "if cl_in_rom s then emit_rom_flush s else s"
  have ok: "state_ok limits ?s1" using assms emit_rom_flush_ok by simp
  then have "step_ok limits (map_sum id (\<lambda>s2. s2\<lparr>cl_in_game := False\<rparr>) (emit_and_clear limits ?s1))"
    by (intro step_ok_map emit_and_clear_ok) (simp_all add: state_ok_flags)
  then show ?thesis using ok unfolding close_block_def Let_def by (simp only: step_ok_simps split: if_split) simp
qed

lemma utf8_len_length: "length s \<le> utf8_len s"
  by (induction s) (auto simp: utf8_len_def)

lemma parse_header_field_ok:
  assumes "state_ok limits s"
  shows "state_ok limits (parse_header_field limits lines offset line s)"
proof -
  have "length d \<le> max_description_length limits" if "\<not> utf8_len d > max_description_length limits" for d
    using that utf8_len_length [of d] by linarith
  moreover have "length (push_warning limits lines offset msg ws) \<le> max_warnings limits"
    if "length ws \<le> max_warnings limits" for msg ws
    using that by (simp add: push_warning_def)
  ultimately show ?thesis using assms by (simp add: parse_header_field_def Let_def state_ok_def)
qed

lemma parse_line_ok:
  assumes "state_ok limits s"
  shows "step_ok limits (parse_line limits lines offset raw s)"
proof -
  have kvs: "state_ok limits (apply_kvs apply_rom_kv line s)" "state_ok limits (apply_kvs apply_game_kv line s)" for line
    using assms by (auto intro: apply_kvs_preserves apply_kv_ok)
  show ?thesis
    unfolding parse_line_def Let_def
    using assms kvs parse_header_field_ok open_game_ok open_rom_ok close_block_ok
    by (simp add: state_ok_flags split: option.split)
qed

lemma parse_lines_ok: "state_ok limits s \<Longrightarrow> step_ok limits (parse_lines limits lines rest s)"
proof (induction limits lines rest s rule: parse_lines.induct)
  case (2 limits all_lines offset raw rest s)
  then show ?case
    using parse_line_ok [OF 2(2), of all_lines offset raw]
    by (cases "parse_line limits all_lines offset raw s") simp_all
qed simp

lemma clr_start_ok: "state_ok limits clr_start"
  by (simp add: state_ok_def clr_start_def no_rom_ok)

lemma clr_outcome_ok: "state_ok limits s \<Longrightarrow> clr_outcome_ok limits (clr_outcome p s)"
  by (auto simp: state_ok_def clr_outcome_ok_def clr_outcome_def total_roms_def game_rom_count_def [abs_def])

lemma parse_content_ok:
  "case parse_content limits p content of Inl err \<Rightarrow> limit_error limits err | Inr out \<Rightarrow> clr_outcome_ok limits out"
proof (cases "parse_lines limits (text_lines content) (text_lines content) clr_start")
  case (Inl err)
  then show ?thesis
    using parse_lines_ok [OF clr_start_ok, of limits "text_lines content" "text_lines content"]
    by (simp add: parse_content_def Let_def)
next
  case (Inr s)
  then have "state_ok limits s"
    using parse_lines_ok [OF clr_start_ok, of limits "text_lines content" "text_lines content"] by simp
  then have "step_ok limits (emit_game limits (emit_rom_flush s))" by (intro emit_game_ok emit_rom_flush_ok)
  then show ?thesis
    using Inr clr_outcome_ok
    by (cases "emit_game limits (emit_rom_flush s)") (simp_all add: parse_content_def Let_def)
qed

lemma parse_content_cases:
  "parse_content limits p content = Inl err \<Longrightarrow> limit_error limits err"
  "parse_content limits p content = Inr out \<Longrightarrow> clr_outcome_ok limits out"
  using parse_content_ok [of limits p content] by simp_all

lemma clrmamepro_result_ok: "parse_clrmamepro env p limits = Inr out \<Longrightarrow> clr_outcome_ok limits out"
  by (auto simp: parse_clrmamepro_def parse_content_cases split: sum.splits prod.splits if_splits)

text \<open>
  C35: Reading a ClrMamePro file ends in one of these ways, whatever bytes it holds. It fails
  with the operating system's error; or because the file is larger than the ceiling; or with
  the entry ceiling or the roms-per-entry ceiling, both reported with the configured value.
  Otherwise it returns a catalogue whose games all carry the unsupported-structure mark and
  no disks or parts, whose roms all have a name and normalised hashes and a size that fits in
  64 bits, with no more entries or warnings than the ceilings allow, and whose counts and
  rendered warnings are those of the entries and diagnostics returned.
\<close>

theorem clrmamepro_result:
  "case parse_clrmamepro env p limits of
     Inl err \<Rightarrow>
       (\<exists>e. err = IoFailed p e \<and> (pe_metadata env p = Inl e \<or> pe_content env p = Inl e)) \<or>
       (\<exists>is_file bytes. pe_metadata env p = Inr (is_file, bytes) \<and> bytes > max_file_size limits \<and>
          err = FileTooLarge p bytes (max_file_size limits)) \<or>
       limit_error limits err
   | Inr out \<Rightarrow> clr_outcome_ok limits out"
proof (cases "pe_metadata env p")
  case (Inl e)
  then show ?thesis by (simp add: parse_clrmamepro_def)
next
  case (Inr m)
  obtain is_file bytes where m: "m = (is_file, bytes)" by (cases m)
  show ?thesis
  proof (cases "bytes > max_file_size limits")
    case True
    then show ?thesis using Inr m by (simp add: parse_clrmamepro_def)
  next
    case False
    then show ?thesis
      using Inr m
      by (cases "pe_content env p") (auto simp: parse_clrmamepro_def parse_content_cases split: sum.splits)
  qed
qed

section \<open>Sets of such a catalogue\<close>

lemma unsupported_storage:
  assumes "dg_unsupported_structure game"
  shows "\<exists>reason. storage_state i game roms disks t keys = SetNeedsReview reason"
  using assms by (simp add: storage_state_def Let_def)

lemma unsupported_set:
  assumes "dg_unsupported_structure game"
  shows "\<exists>reason. sr_state (classify_matched_set archive s dsc identity i game t) = SetNeedsReview reason"
  using unsupported_storage [OF assms]
  by (auto simp: classify_matched_set_def Let_def split: option.splits)

lemma unsupported_sets:
  assumes "\<forall>g \<in> set games. dg_unsupported_structure g"
    and "r \<in> set (classify_archive_sets archive evidence dsc games source_id)"
  shows "\<exists>reason. sr_state r = SetNeedsReview reason"
proof -
  let ?s = "summarize_disk_evidence evidence games"
  obtain g t where r: "classify_touched_set archive ?s dsc games source_id (g, t) = Some r"
    using assms(2) by (auto simp: classify_archive_sets_def map_filter_Some)
  show ?thesis
  proof (cases "\<exists>i game. filter (\<lambda>(_, c). dg_name c = g) (enumerate 0 games) = [(i, game)]")
    case True
    then obtain i game where one: "filter (\<lambda>(_, c). dg_name c = g) (enumerate 0 games) = [(i, game)]" by blast
    then have "(i, game) \<in> set (filter (\<lambda>(_, c). dg_name c = g) (enumerate 0 games))" by simp
    then have "game \<in> set games" by (auto simp: in_set_enumerate_eq)
    then have "dg_unsupported_structure game" using assms(1) by blast
    then show ?thesis using r one unsupported_set by (auto simp: classify_touched_set_def Let_def)
  next
    case False
    then show ?thesis using r
      by (auto simp: classify_touched_set_def Let_def empty_resolution_def split: list.splits prod.splits if_splits)
  qed
qed

text \<open>
  No set of a ClrMamePro catalogue is ever judged: whatever archive and disk evidence is
  held against the entries the parser returned, every set the audit reports on them needs
  review. This is the promise with which the parser leaves the blocks it cannot represent
  unread.
\<close>

theorem clrmamepro_sets_need_review:
  assumes "parse_clrmamepro env p limits = Inr out"
    and "r \<in> set (classify_archive_sets archive evidence dsc (pd_games (po_dat out)) source_id)"
  shows "\<exists>reason. sr_state r = SetNeedsReview reason"
proof (rule unsupported_sets [OF _ assms(2)])
  show "\<forall>g \<in> set (pd_games (po_dat out)). dg_unsupported_structure g"
    using clrmamepro_result_ok [OF assms(1)] by (auto simp: clr_outcome_ok_def clr_game_ok_def list_all_iff Let_def)
qed

end
