(* ===== verification/LogiqxProofs.thy ===== *)
theory LogiqxProofs
  imports Logiqx ClrProofs
begin

text \<open>
  What holds of every result of the Logiqx parser, for every sequence of events its reader can
  deliver: the errors it can end with, and the entries it returns - names and descriptions
  within the ceilings, normalised hashes, and the bounds on entries, roms and diagnostics.
\<close>

section \<open>Readings\<close>

text \<open>The errors a document can end in.\<close>

definition document_error :: "dat_limits \<Rightarrow> parse_error \<Rightarrow> bool" where
  "document_error limits err \<longleftrightarrow>
     (\<exists>detail offset. err = MalformedXml detail offset) \<or>
     err = XmlDepthExceeded (max_xml_depth limits + 1) (max_xml_depth limits) \<or>
     err = EntryLimitExceeded (max_entries limits) (max_entries limits) \<or>
     (\<exists>game_name n. err = RomsPerEntryExceeded game_name n (max_roms_per_entry limits)) \<or>
     (\<exists>field n snippet. n > max_identifier_length limits \<and>
        err = IdentifierTooLong field n (max_identifier_length limits) snippet)"

definition reading_ok :: "dat_limits \<Rightarrow> ('a \<Rightarrow> bool) \<Rightarrow> 'a reading \<Rightarrow> bool" where
  "reading_ok limits Q m \<longleftrightarrow>
     (\<forall>ws. length ws \<le> max_warnings limits \<longrightarrow>
        (case m ws of
           Inl err \<Rightarrow> document_error limits err
         | Inr (x, ws') \<Rightarrow> Q x \<and> length ws' \<le> max_warnings limits))"

lemma add_warning_length: "length ws \<le> limit \<Longrightarrow> length (add_warning limit w ws) \<le> limit"
  by (simp add: add_warning_def)

lemma record_length [simp]:
  "length ws \<le> limit \<Longrightarrow> length (record_warning limit code message ws) \<le> limit"
  "length ws \<le> limit \<Longrightarrow> length (record_note limit code message ws) \<le> limit"
  "length ws \<le> limit \<Longrightarrow> length (record_nested_state_warning limit element ws) \<le> limit"
  by (simp_all add: record_warning_def record_note_def record_nested_state_warning_def add_warning_length)

lemma give_ok: "Q x \<Longrightarrow> reading_ok limits Q (give x)"
  by (simp add: reading_ok_def give_def)

lemma refuse_ok: "document_error limits err \<Longrightarrow> reading_ok limits Q (refuse err)"
  by (simp add: reading_ok_def refuse_def)

lemma then_read_ok:
  assumes "reading_ok limits P m" and "\<And>x. P x \<Longrightarrow> reading_ok limits Q (k x)"
  shows "reading_ok limits Q (then_read m k)"
  unfolding reading_ok_def then_read_def
proof (intro allI impI)
  fix ws :: "parse_warning list"
  assume ws: "length ws \<le> max_warnings limits"
  show "case case m ws of Inl err \<Rightarrow> Inl err | Inr (x, ws') \<Rightarrow> k x ws' of
      Inl err \<Rightarrow> document_error limits err
    | Inr (x, ws') \<Rightarrow> Q x \<and> length ws' \<le> max_warnings limits"
  proof (cases "m ws")
    case (Inl err)
    then show ?thesis using assms(1) ws unfolding reading_ok_def by fastforce
  next
    case (Inr r)
    obtain x ws' where r: "r = (x, ws')" by (cases r)
    have "P x" "length ws' \<le> max_warnings limits"
      using assms(1) ws Inr r unfolding reading_ok_def by fastforce+
    then show ?thesis using assms(2) Inr r unfolding reading_ok_def by simp
  qed
qed

lemma reading_weaken: "reading_ok limits P m \<Longrightarrow> (\<And>x. P x \<Longrightarrow> Q x) \<Longrightarrow> reading_ok limits Q m"
  unfolding reading_ok_def by (fastforce split: sum.splits)

lemma attr_str_opt_ok: "reading_ok limits (\<lambda>v. True) (attr_str_opt lib limits elem name)"
  unfolding reading_ok_def attr_str_opt_def Let_def
  by (auto split: option.splits raw_text.splits sum.splits)

lemma attr_str_checked_ok:
  "reading_ok limits (\<lambda>v. \<forall>t. v = Some t \<longrightarrow> utf8_len t \<le> max_identifier_length limits)
     (attr_str_checked lib limits elem name)"
  unfolding attr_str_checked_def
  by (rule then_read_ok [OF attr_str_opt_ok])
    (auto simp: document_error_def intro!: give_ok refuse_ok split: option.split)

lemma hex_value_bound: "parse_hex_u64 h = Some n \<Longrightarrow> n \<le> 18446744073709551615"
  by (auto simp: parse_hex_u64_def Let_def split: if_splits)

lemma parse_size_bound: "parse_size raw = Some n \<Longrightarrow> n \<le> 18446744073709551615"
  by (auto simp: parse_size_def split: option.splits dest: hex_value_bound parse_u64_bound)

lemma attr_u64_ok:
  "reading_ok limits (\<lambda>v. \<forall>n. v = Some n \<longrightarrow> n \<le> 18446744073709551615) (attr_u64 lib limits elem name)"
  unfolding attr_u64_def
  by (rule then_read_ok [OF attr_str_opt_ok])
    (auto simp: document_error_def intro!: give_ok refuse_ok dest: parse_size_bound split: option.split)

lemma checksum_attr_ok:
  assumes "\<And>v h. normalise v = Some h \<Longrightarrow> normal_hash normalise (Some h)"
  shows "reading_ok limits (normal_hash normalise) (checksum_attr lib limits elem name normalise where_found)"
  unfolding checksum_attr_def
  by (rule then_read_ok [OF attr_str_opt_ok])
    (auto intro!: give_ok assms simp: normal_hash_def [of normalise None] reading_ok_def [of _ _ "\<lambda>ws. Inr (None, _ ws)"]
      split: option.split)

section \<open>Entries\<close>

definition logiqx_rom_ok :: "dat_limits \<Rightarrow> dat_rom_entry \<Rightarrow> bool" where
  "logiqx_rom_ok limits r \<longleftrightarrow>
     utf8_len (dr_name r) \<le> max_identifier_length limits \<and>
     normal_hash normalise_crc32 (dr_crc32 r) \<and> normal_hash normalise_md5 (dr_md5 r) \<and>
     normal_hash normalise_sha1 (dr_sha1 r) \<and> normal_hash normalise_sha256 (dr_sha256 r) \<and>
     (\<forall>n. dr_size_bytes r = Some n \<longrightarrow> n \<le> 18446744073709551615)"

lemma rom_name_attr_ok:
  "reading_ok limits (\<lambda>n. utf8_len n \<le> max_identifier_length limits) (rom_name_attr lib limits elem)"
  unfolding rom_name_attr_def
  by (rule then_read_ok [OF attr_str_checked_ok])
    (auto intro!: give_ok simp: utf8_len_def reading_ok_def [of _ _ "\<lambda>ws. Inr ([], _ ws)"] split: option.split)

lemma read_rom_entry_ok: "reading_ok limits (logiqx_rom_ok limits) (read_rom_entry lib limits elem)"
  unfolding read_rom_entry_def Let_def
  apply (rule then_read_ok [OF rom_name_attr_ok])
  apply (rule then_read_ok [OF attr_u64_ok])
  apply (rule then_read_ok [OF checksum_attr_ok [OF normal_hash_read(1)]], assumption)
  apply (rule then_read_ok [OF checksum_attr_ok [OF normal_hash_read(2)]], assumption)
  apply (rule then_read_ok [OF checksum_attr_ok [OF normal_hash_read(3)]], assumption)
  apply (rule then_read_ok [OF checksum_attr_ok [OF normal_hash_read(4)]], assumption)
  apply (rule then_read_ok [OF attr_str_opt_ok])+
  apply (rule give_ok)
  apply (simp add: logiqx_rom_ok_def)
  done

lemma attr_or_else_ok: "reading_ok limits (\<lambda>v. True) (attr_or_else lib limits elem a b)"
  unfolding attr_or_else_def
  by (rule then_read_ok [OF attr_str_opt_ok]) (auto intro: give_ok attr_str_opt_ok split: option.split)

lemma parse_entries_ok:
  "reading_ok limits (\<lambda>v. True) (parse_disk_entry lib limits elem)"
  "reading_ok limits (\<lambda>v. True) (parse_bios_set_entry lib limits elem)"
  "reading_ok limits (\<lambda>p. dp_data_areas p = []) (parse_part_entry lib limits elem)"
proof -
  note str = then_read_ok [OF attr_str_opt_ok]
  show "reading_ok limits (\<lambda>v. True) (parse_disk_entry lib limits elem)"
    unfolding parse_disk_entry_def Let_def
    apply (rule then_read_ok [OF attr_or_else_ok])
    apply (rule str)
    apply (rule then_read_ok [OF checksum_attr_ok [OF normal_hash_read(3)]], assumption)
    apply (rule str)+
    apply (rule give_ok)
    apply simp
    done
  show "reading_ok limits (\<lambda>v. True) (parse_bios_set_entry lib limits elem)"
    unfolding parse_bios_set_entry_def Let_def by (rule str)+ (rule give_ok, simp)
  show "reading_ok limits (\<lambda>p. dp_data_areas p = []) (parse_part_entry lib limits elem)"
    unfolding parse_part_entry_def Let_def by (rule str)+ (rule give_ok, simp)
qed

lemma read_metadata_ok: "reading_ok limits (\<lambda>v. True) (read_metadata lib limits elem keys m)"
proof (induction keys arbitrary: m)
  case Nil
  then show ?case by (simp add: give_ok)
next
  case (Cons key keys)
  then show ?case unfolding read_metadata.simps by (intro then_read_ok [OF attr_str_opt_ok])
qed

definition entry_ok :: "dat_limits \<Rightarrow> current_entry \<Rightarrow> bool" where
  "entry_ok limits g \<longleftrightarrow>
     (\<forall>n. lg_name g = Some n \<longrightarrow> utf8_len n \<le> max_identifier_length limits) \<and>
     (\<forall>d. lg_desc g = Some d \<longrightarrow> length d \<le> max_description_length limits)"

lemma read_game_ok: "reading_ok limits (entry_ok limits) (read_game lib limits tag elem)"
  unfolding read_game_def Let_def
  apply (rule then_read_ok [OF attr_str_checked_ok])
  apply (rule then_read_ok [OF attr_str_opt_ok])
  apply (rule then_read_ok [OF attr_or_else_ok])
  apply (rule then_read_ok [OF attr_str_opt_ok])+
  apply (rule then_read_ok [of _ "\<lambda>v. True"])
   apply (simp add: attr_str_opt_ok give_ok)
  apply (rule then_read_ok [OF read_metadata_ok])
  apply (rule give_ok)
  apply (simp add: entry_ok_def)
  done

end
