(* ===== verification/LogiqxBounds.thy ===== *)
theory LogiqxBounds
  imports LogiqxProofs "HOL-Library.Multiset"
begin

text \<open>
  The bounds the Logiqx parser keeps over a whole document: what it has emitted and what it
  still holds open, from the first event to the outcome.
\<close>

section \<open>What is held\<close>

definition part_roms :: "dat_part_entry \<Rightarrow> dat_rom_entry list" where
  "part_roms p = concat (map da_roms (dp_data_areas p))"

definition game_roms :: "dat_game_entry \<Rightarrow> dat_rom_entry list" where
  "game_roms g = dg_roms g @ concat (map part_roms (dg_parts g))"

text \<open>The roms collected for the game being read, wherever they are kept.\<close>

definition held_roms :: "logiqx_state \<Rightarrow> dat_rom_entry multiset" where
  "held_roms s =
     mset (lq_roms s) + mset (concat (map part_roms (lq_parts s))) +
     mset (case lq_part s of None \<Rightarrow> [] | Some p \<Rightarrow> part_roms p) +
     mset (case lq_data_area s of None \<Rightarrow> [] | Some a \<Rightarrow> da_roms a)"

definition logiqx_game_ok :: "dat_limits \<Rightarrow> dat_game_entry \<Rightarrow> bool" where
  "logiqx_game_ok limits g \<longleftrightarrow>
     utf8_len (dg_name g) \<le> max_identifier_length limits \<and>
     (\<forall>d. dg_description g = Some d \<longrightarrow> length d \<le> max_description_length limits) \<and>
     list_all (logiqx_rom_ok limits) (game_roms g) \<and>
     length (game_roms g) \<le> max_roms_per_entry limits + 1"

definition members_ok :: "dat_limits \<Rightarrow> logiqx_state \<Rightarrow> bool" where
  "members_ok limits s \<longleftrightarrow>
     (\<forall>r \<in># held_roms s. logiqx_rom_ok limits r) \<and> size (held_roms s) \<le> lq_rom_count s"

definition document_ok :: "dat_limits \<Rightarrow> logiqx_state \<Rightarrow> bool" where
  "document_ok limits s \<longleftrightarrow>
     list_all (logiqx_game_ok limits) (lq_games s) \<and>
     length (lq_games s) + (if lg_name (lq_entry s) = None then 0 else 1) \<le> max_entries limits \<and>
     members_ok limits s \<and> entry_ok limits (lq_entry s) \<and>
     (\<forall>r. lq_rom s = Some r \<longrightarrow> logiqx_rom_ok limits r) \<and>
     lq_rom_count s + (if lq_rom s = None then 0 else 1) \<le> max_roms_per_entry limits + 1 \<and>
     length (lq_warnings s) \<le> max_warnings limits \<and> lq_depth s \<le> max_xml_depth limits \<and>
     (\<forall>d. lq_description s = Some d \<longrightarrow> length d \<le> max_description_length limits)"

definition result_ok :: "dat_limits \<Rightarrow> parse_error + logiqx_state \<Rightarrow> bool" where
  "result_ok limits x \<longleftrightarrow> (case x of Inl err \<Rightarrow> document_error limits err | Inr s \<Rightarrow> document_ok limits s)"

lemma result_ok_simps [simp]:
  "result_ok limits (Inl err) = document_error limits err" "result_ok limits (Inr s) = document_ok limits s"
  by (simp_all add: result_ok_def)

lemma result_ok_map:
  "result_ok limits x \<Longrightarrow> (\<And>s. document_ok limits s \<Longrightarrow> document_ok limits (f s)) \<Longrightarrow> result_ok limits (map_sum id f x)"
  by (cases x) simp_all

lemma with_reading_ok:
  assumes "reading_ok limits Q m" and "document_ok limits s"
    and "\<And>x ws. Q x \<Longrightarrow> length ws \<le> max_warnings limits \<Longrightarrow> document_ok limits (s\<lparr>lq_warnings := ws\<rparr>) \<Longrightarrow>
      document_ok limits (k x (s\<lparr>lq_warnings := ws\<rparr>))"
  shows "result_ok limits (with_reading m k s)"
proof -
  have ws: "length (lq_warnings s) \<le> max_warnings limits" using assms(2) by (simp add: document_ok_def)
  show ?thesis
  proof (cases "m (lq_warnings s)")
    case (Inl err)
    then show ?thesis using assms(1) ws unfolding reading_ok_def with_reading_def by fastforce
  next
    case (Inr r)
    obtain x ws' where r: "r = (x, ws')" by (cases r)
    have x: "Q x" "length ws' \<le> max_warnings limits"
      using assms(1) ws Inr r unfolding reading_ok_def by fastforce+
    have "document_ok limits (s\<lparr>lq_warnings := ws'\<rparr>)"
      using assms(2) x(2) by (simp add: document_ok_def members_ok_def held_roms_def)
    then show ?thesis using assms(3) [OF x] Inr r by (simp add: with_reading_def)
  qed
qed

text \<open>Changes that leave what is emitted and held alone.\<close>

lemma document_ok_quiet [simp]:
  "document_ok limits (s\<lparr>lq_text := t\<rparr>) = document_ok limits s"
  "document_ok limits (s\<lparr>lq_in_game := b\<rparr>) = document_ok limits s"
  "document_ok limits (s\<lparr>lq_name := v\<rparr>) = document_ok limits s"
  "document_ok limits (s\<lparr>lq_version := v\<rparr>) = document_ok limits s"
  "document_ok limits (s\<lparr>lq_author := v\<rparr>) = document_ok limits s"
  "document_ok limits (s\<lparr>lq_homepage := v\<rparr>) = document_ok limits s"
  "document_ok limits (s\<lparr>lq_clrmamepro := v\<rparr>) = document_ok limits s"
  "document_ok limits (s\<lparr>lq_disks := ds\<rparr>) = document_ok limits s"
  "document_ok limits (s\<lparr>lq_device_refs := drs\<rparr>) = document_ok limits s"
  "document_ok limits (s\<lparr>lq_samples := sms\<rparr>) = document_ok limits s"
  "document_ok limits (s\<lparr>lq_bios_sets := bs\<rparr>) = document_ok limits s"
  "document_ok limits (s\<lparr>lq_disk := d\<rparr>) = document_ok limits s"
  "document_ok limits (s\<lparr>lq_disk_depth := n\<rparr>) = document_ok limits s"
  "document_ok limits (s\<lparr>lq_disk_area := da\<rparr>) = document_ok limits s"
  "document_ok limits (s\<lparr>lq_disk_area_depth := n\<rparr>) = document_ok limits s"
  "document_ok limits (s\<lparr>lq_data_area_depth := n\<rparr>) = document_ok limits s"
  "document_ok limits (s\<lparr>lq_part_depth := n\<rparr>) = document_ok limits s"
  by (simp_all add: document_ok_def members_ok_def held_roms_def)

lemma document_ok_warnings:
  "document_ok limits s \<Longrightarrow> length ws \<le> max_warnings limits \<Longrightarrow> document_ok limits (s\<lparr>lq_warnings := ws\<rparr>)"
  by (simp add: document_ok_def members_ok_def held_roms_def)

lemma document_ok_bounds:
  "document_ok limits s \<Longrightarrow> length (lq_warnings s) \<le> max_warnings limits"
  "document_ok limits s \<Longrightarrow> entry_ok limits (lq_entry s)"
  by (simp_all add: document_ok_def)

lemma warn_ok: "document_ok limits s \<Longrightarrow> document_ok limits (warn limits code message s)"
  by (simp add: warn_def document_ok_warnings document_ok_bounds)

lemma document_ok_entry:
  assumes "document_ok limits s" and "entry_ok limits g" and "lg_name g = lg_name (lq_entry s)"
  shows "document_ok limits (s\<lparr>lq_entry := g\<rparr>)"
  using assms by (simp add: document_ok_def members_ok_def held_roms_def)

text \<open>Fewer held roms are fine too.\<close>

lemma document_ok_held:
  assumes "document_ok limits s" and "held_roms s' \<subseteq># held_roms s"
    and "lq_games s' = lq_games s" "lq_entry s' = lq_entry s" "lq_rom s' = lq_rom s"
    and "lq_rom_count s' = lq_rom_count s" "lq_warnings s' = lq_warnings s" "lq_depth s' = lq_depth s"
    and "lq_description s' = lq_description s"
  shows "document_ok limits s'"
  using assms size_mset_mono [OF assms(2)] mset_subset_eqD [OF assms(2)]
  by (auto simp: document_ok_def members_ok_def)

section \<open>Structures\<close>

lemma append_disk_ok: "document_ok limits s \<Longrightarrow> document_ok limits (append_disk disk s)"
  by (simp add: append_disk_def split: option.split)

lemma close_disk_ok: "document_ok limits s \<Longrightarrow> document_ok limits (close_disk s)"
  by (simp add: close_disk_def append_disk_ok split: option.split)

lemma part_roms_snoc:
  "part_roms (p\<lparr>dp_data_areas := dp_data_areas p @ [a]\<rparr>) = part_roms p @ da_roms a"
  "part_roms (p\<lparr>dp_disk_areas := dks\<rparr>) = part_roms p"
  by (simp_all add: part_roms_def)

lemma close_data_area_ok:
  assumes "document_ok limits s"
  shows "document_ok limits (close_data_area s)"
proof (rule document_ok_held [OF assms])
  show "held_roms (close_data_area s) \<subseteq># held_roms s"
    by (cases "lq_data_area s"; cases "lq_part s")
      (simp_all add: close_data_area_def held_roms_def part_roms_snoc)
qed (simp_all add: close_data_area_def split: option.split)

lemma close_disk_area_ok:
  assumes "document_ok limits s"
  shows "document_ok limits (close_disk_area s)"
proof (rule document_ok_held [OF assms])
  show "held_roms (close_disk_area s) \<subseteq># held_roms s"
    by (cases "lq_disk_area s"; cases "lq_part s")
      (simp_all add: close_disk_area_def held_roms_def part_roms_snoc)
qed (simp_all add: close_disk_area_def split: option.split)

lemma close_part_ok:
  assumes "document_ok limits s"
  shows "document_ok limits (close_part s)"
proof (rule document_ok_held [OF assms])
  show "held_roms (close_part s) \<subseteq># held_roms s"
    by (cases "lq_part s") (simp_all add: close_part_def held_roms_def)
qed (simp_all add: close_part_def split: option.split)

lemma finish_current_structure_ok: "document_ok limits s \<Longrightarrow> document_ok limits (finish_current_structure s)"
  unfolding finish_current_structure_def
  by (intro close_part_ok close_disk_area_ok close_data_area_ok close_disk_ok)

lemma no_entry_ok: "entry_ok limits no_entry"
  by (simp add: entry_ok_def no_entry_def)

lemma part_closed: "lq_part (close_part s) = None"
  by (simp add: close_part_def split: option.split)

lemma emitted_ok:
  assumes "document_ok limits s" and "lg_name (lq_entry s) = Some n" and "lq_part s = None"
  shows "logiqx_game_ok limits (entry_of n s)"
proof -
  have "mset (game_roms (entry_of n s)) \<subseteq># held_roms s"
    using assms(3) by (simp add: game_roms_def entry_of_def held_roms_def Let_def)
  then have sub: "size (mset (game_roms (entry_of n s))) \<le> size (held_roms s)"
      "\<forall>r \<in> set (game_roms (entry_of n s)). r \<in># held_roms s"
    using size_mset_mono mset_subset_eqD by fastforce+
  have "size (held_roms s) \<le> max_roms_per_entry limits + 1"
    using assms(1) by (simp add: document_ok_def members_ok_def split: if_splits)
  then have "length (game_roms (entry_of n s)) \<le> max_roms_per_entry limits + 1" using sub(1) by simp
  moreover have "list_all (logiqx_rom_ok limits) (game_roms (entry_of n s))"
    using sub(2) assms(1) by (auto simp: list_all_iff document_ok_def members_ok_def)
  moreover have "entry_ok limits (lq_entry s)" using assms(1) by (rule document_ok_bounds)
  then have "utf8_len n \<le> max_identifier_length limits"
      "\<forall>d. lg_desc (lq_entry s) = Some d \<longrightarrow> length d \<le> max_description_length limits"
    using assms(2) by (simp_all add: entry_ok_def)
  ultimately show ?thesis by (simp add: logiqx_game_ok_def entry_of_def Let_def)
qed

lemma drop_current_game_ok:
  assumes "document_ok limits s0"
  shows "document_ok limits (drop_current_game s0) \<and> lg_name (lq_entry (drop_current_game s0)) = None"
proof -
  let ?s = "close_part s0"
  have ok: "document_ok limits ?s" using assms by (rule close_part_ok)
  have none: "members_ok limits (no_members t)" if "lq_part t = None" "lq_data_area t = lq_data_area ?s"
      "lq_rom_count t = lq_rom_count ?s" for t
  proof -
    have "held_roms (no_members t) \<subseteq># held_roms ?s"
      using that by (simp add: held_roms_def no_members_def)
    then show ?thesis
      using that(3) ok size_mset_mono mset_subset_eqD
      by (fastforce simp: members_ok_def document_ok_def no_members_def)
  qed
  show ?thesis
  proof (cases "lg_name (lq_entry ?s)")
    case None
    then show ?thesis
      using ok none part_closed [of s0]
      by (simp add: drop_current_game_def Let_def document_ok_def entry_ok_def)
        (simp add: no_members_def split: if_splits)
  next
    case (Some n)
    then show ?thesis
      using ok none part_closed [of s0] emitted_ok [OF ok Some part_closed] no_entry_ok
      by (simp add: drop_current_game_def Let_def document_ok_def)
        (simp add: no_members_def no_entry_def split: if_splits)
  qed
qed

section \<open>Events\<close>

lemma open_entry_ok:
  assumes "document_ok limits s" and "length (lq_games s) < max_entries limits" and "entry_ok limits g"
  shows "document_ok limits (open_entry g s)"
proof -
  have "members_ok limits (open_entry g s)"
    by (simp add: members_ok_def held_roms_def open_entry_def no_members_def)
  then show ?thesis
    using assms by (simp add: document_ok_def) (simp add: open_entry_def no_members_def)
qed

lemma start_game_ok:
  assumes "document_ok limits s"
  shows "result_ok limits (start_game lib limits tag elem s)"
proof -
  let ?s1 = "drop_current_game (finish_current_structure (s\<lparr>lq_in_game := True\<rparr>))"
  have ok: "document_ok limits ?s1" and none: "lg_name (lq_entry ?s1) = None"
    using drop_current_game_ok [OF finish_current_structure_ok, of limits "s\<lparr>lq_in_game := True\<rparr>"] assms by simp_all
  show ?thesis
  proof (cases "length (lq_games ?s1) \<ge> max_entries limits")
    case True
    then have "length (lq_games ?s1) = max_entries limits" using ok none by (simp add: document_ok_def)
    then show ?thesis by (simp add: start_game_def document_error_def)
  next
    case False
    have "result_ok limits (with_reading (read_game lib limits tag elem) open_entry ?s1)"
      by (rule with_reading_ok [OF read_game_ok ok]) (use False in \<open>auto intro: open_entry_ok\<close>)
    then show ?thesis using False by (simp add: start_game_def Let_def)
  qed
qed

lemma too_many_roms_error: "document_error limits (too_many_roms limits s)"
  by (simp add: document_error_def too_many_roms_def)

lemma start_rom_ok:
  assumes "document_ok limits s"
  shows "result_ok limits (start_rom lib limits elem s)"
proof (cases "lq_rom_count s \<ge> max_roms_per_entry limits")
  case True
  then show ?thesis by (simp add: start_rom_def too_many_roms_error)
next
  case False
  have "result_ok limits (with_reading (read_rom_entry lib limits elem) (\<lambda>rom s. s\<lparr>lq_rom := Some rom\<rparr>) s)"
    by (rule with_reading_ok [OF read_rom_entry_ok assms])
      (use False in \<open>simp add: document_ok_def members_ok_def held_roms_def\<close>)
  then show ?thesis using False by (simp add: start_rom_def)
qed

lemma mark_unsupported_ok: "document_ok limits s \<Longrightarrow> document_ok limits (mark_unsupported s)"
  unfolding mark_unsupported_def
  by (rule document_ok_entry) (auto dest: document_ok_bounds(2) simp: entry_ok_def)

lemma refuse_nested_ok: "document_ok limits s \<Longrightarrow> document_ok limits (refuse_nested limits element s)"
  unfolding refuse_nested_def
  by (rule document_ok_warnings) (simp_all add: mark_unsupported_ok document_ok_bounds)

lemma start_disk_ok: "document_ok limits s \<Longrightarrow> result_ok limits (start_disk lib limits elem s)"
  by (auto simp: start_disk_def refuse_nested_ok intro!: with_reading_ok [OF parse_entries_ok(1)])

lemma read_small_ok:
  "document_ok limits s \<Longrightarrow> result_ok limits (read_device_ref lib limits elem s)"
  "document_ok limits s \<Longrightarrow> result_ok limits (read_sample lib limits elem s)"
  "document_ok limits s \<Longrightarrow> result_ok limits (read_bios_set lib limits elem s)"
  unfolding read_device_ref_def read_sample_def read_bios_set_def
  by (rule with_reading_ok [OF attr_str_opt_ok] with_reading_ok [OF parse_entries_ok(2)]; simp)+

lemma start_part_ok:
  assumes "document_ok limits s"
  shows "result_ok limits (start_part lib limits elem s)"
proof (cases "lq_part s")
  case None
  have "result_ok limits (with_reading (parse_part_entry lib limits elem)
      (\<lambda>part s. s\<lparr>lq_part := Some part, lq_part_depth := Some (lq_depth s)\<rparr>) s)"
    by (rule with_reading_ok [OF parse_entries_ok(3) assms])
      (use None in \<open>simp add: document_ok_def members_ok_def held_roms_def part_roms_def\<close>)
  then show ?thesis using None by (simp add: start_part_def)
qed (simp add: start_part_def refuse_nested_ok assms)

lemma start_data_area_ok:
  assumes "document_ok limits s"
  shows "result_ok limits (start_data_area lib limits elem s)"
proof (cases "lq_data_area s = None \<and> lq_part s \<noteq> None")
  case True
  have "result_ok limits (with_reading (attr_str_opt lib limits elem ''name'')
      (\<lambda>n s. s\<lparr>lq_data_area := Some \<lparr> da_name = n, da_roms = [] \<rparr>, lq_data_area_depth := Some (lq_depth s)\<rparr>) s)"
    by (rule with_reading_ok [OF attr_str_opt_ok assms])
      (use True in \<open>simp add: document_ok_def members_ok_def held_roms_def\<close>)
  then show ?thesis using True by (simp add: start_data_area_def)
qed (auto simp: start_data_area_def refuse_nested_ok mark_unsupported_ok assms)

lemma start_disk_area_ok: "document_ok limits s \<Longrightarrow> result_ok limits (start_disk_area lib limits elem s)"
  by (auto simp: start_disk_area_def refuse_nested_ok mark_unsupported_ok intro!: with_reading_ok [OF attr_str_opt_ok])

lemma start_tag_ok: "document_ok limits s \<Longrightarrow> result_ok limits (start_tag lib limits tag elem s)"
  unfolding start_tag_def
  by (simp add: start_game_ok start_rom_ok start_disk_ok read_small_ok start_part_ok start_data_area_ok
      start_disk_area_ok mark_unsupported_ok)

lemma start_element_ok:
  assumes "document_ok limits s"
  shows "result_ok limits (start_element lib limits elem s)"
proof -
  let ?s = "s\<lparr>lq_depth := lq_depth s + 1\<rparr>"
  show ?thesis
  proof (cases "lq_depth ?s > max_xml_depth limits")
    case True
    moreover have "lq_depth s \<le> max_xml_depth limits" using assms by (simp add: document_ok_def)
    ultimately have "lq_depth s + 1 = max_xml_depth limits + 1" by simp
    then show ?thesis by (simp add: start_element_def Let_def document_error_def)
  next
    case False
    then have "document_ok limits ?s" using assms by (simp add: document_ok_def members_ok_def held_roms_def)
    then have "result_ok limits (map_sum id clear_text (start_tag lib limits tag elem ?s))" for tag
      by (intro result_ok_map start_tag_ok) (simp_all add: clear_text_def)
    then show ?thesis using False
      by (simp add: start_element_def Let_def document_error_def split: sum.split)
  qed
qed

lemma append_rom_ok:
  assumes "document_ok limits s" and "logiqx_rom_ok limits rom"
    and "lq_rom_count s + (if lq_rom s = None then 0 else 1) \<le> max_roms_per_entry limits"
  shows "document_ok limits ((append_rom rom s)\<lparr>lq_rom_count := lq_rom_count s + 1\<rparr>)"
proof -
  have "held_roms ((append_rom rom s)\<lparr>lq_rom_count := lq_rom_count s + 1\<rparr>) = add_mset rom (held_roms s)"
    by (cases "lq_data_area s") (simp_all add: append_rom_def held_roms_def)
  then have "members_ok limits ((append_rom rom s)\<lparr>lq_rom_count := lq_rom_count s + 1\<rparr>)"
    using assms(1,2) by (auto simp: members_ok_def document_ok_def)
  then show ?thesis
    using assms by (simp add: document_ok_def) (simp add: append_rom_def split: option.split if_splits)
qed

lemma end_rom_ok:
  assumes "document_ok limits s"
  shows "document_ok limits (end_rom s)"
proof (cases "lq_rom s")
  case None
  then show ?thesis using assms by (simp add: end_rom_def)
next
  case (Some rom)
  have "document_ok limits (s\<lparr>lq_rom := None\<rparr>)"
    using assms by (simp add: document_ok_def members_ok_def held_roms_def split: if_splits)
  moreover have "logiqx_rom_ok limits rom" "lq_rom_count s \<le> max_roms_per_entry limits"
    using assms Some by (simp_all add: document_ok_def)
  ultimately show ?thesis
    using append_rom_ok [of limits "s\<lparr>lq_rom := None\<rparr>" rom] Some by (simp add: end_rom_def)
qed

lemma description_ends_ok:
  assumes "document_ok limits s"
  shows "document_ok limits (end_header_description limits s)" "document_ok limits (end_game_description limits s)"
proof -
  have short: "length d \<le> max_description_length limits" if "\<not> utf8_len d > max_description_length limits" for d
    using that utf8_len_length [of d] by linarith
  have header: "document_ok limits (t\<lparr>lq_description := Some d\<rparr>)"
    if "document_ok limits t" "length d \<le> max_description_length limits" for t d
    using that by (simp add: document_ok_def members_ok_def held_roms_def)
  have game: "document_ok limits (t\<lparr>lq_entry := (lq_entry s)\<lparr>lg_desc := Some d\<rparr>\<rparr>)"
    if "document_ok limits t" "lq_entry t = lq_entry s" "length d \<le> max_description_length limits" for t d
    using document_ok_bounds(2) [OF assms] that by (intro document_ok_entry) (simp_all add: entry_ok_def)
  have entry: "lq_entry (warn limits code message s) = lq_entry s" for code message by (simp add: warn_def)
  show "document_ok limits (end_header_description limits s)"
    using assms short by (simp add: end_header_description_def Let_def header warn_ok)
  show "document_ok limits (end_game_description limits s)"
    using assms short by (simp add: end_game_description_def Let_def game warn_ok entry)
qed

lemma end_metadata_ok: "document_ok limits s \<Longrightarrow> document_ok limits (end_metadata tag s)"
  using document_ok_entry [of limits s] document_ok_bounds(2) [of limits s]
  by (simp add: end_metadata_def Let_def entry_ok_def)

lemma structure_ends_ok:
  "document_ok limits s \<Longrightarrow> document_ok limits (end_disk s)"
  "document_ok limits s \<Longrightarrow> document_ok limits (end_data_area s)"
  "document_ok limits s \<Longrightarrow> document_ok limits (end_disk_area s)"
  "document_ok limits s \<Longrightarrow> document_ok limits (end_part s)"
  by (simp_all add: end_disk_def end_data_area_def end_disk_area_def end_part_def close_disk_ok
      close_data_area_ok close_disk_area_ok close_part_ok)

lemma end_tag_ok: "document_ok limits s \<Longrightarrow> document_ok limits (end_tag limits tag s)"
  unfolding end_tag_def
  by (simp add: description_ends_ok end_metadata_ok end_rom_ok structure_ends_ok)

lemma end_element_ok:
  assumes "document_ok limits s"
  shows "result_ok limits (end_element limits tag position s)"
proof -
  have "lq_depth s \<le> max_xml_depth limits" using assms by (simp add: document_ok_def)
  then have "lq_depth s - 1 \<le> max_xml_depth limits" by simp
  then have "document_ok limits (s\<lparr>lq_depth := lq_depth s - 1\<rparr>)"
    using assms by (simp add: document_ok_def members_ok_def held_roms_def)
  then show ?thesis
    by (auto simp: end_element_def clear_text_def document_error_def end_tag_ok split: sum.split)
qed

lemma empty_tag_ok:
  assumes "document_ok limits s"
  shows "result_ok limits (empty_tag lib limits tag elem s)"
proof -
  have rom: "result_ok limits (empty_rom lib limits elem s)"
  proof (cases "lq_rom_count s \<ge> max_roms_per_entry limits")
    case True
    then show ?thesis by (simp add: empty_rom_def too_many_roms_error)
  next
    case False
    have "result_ok limits (with_reading (read_rom_entry lib limits elem)
        (\<lambda>rom s. (append_rom rom s)\<lparr>lq_rom_count := lq_rom_count s + 1\<rparr>) s)"
      by (rule with_reading_ok [OF read_rom_entry_ok assms], rule append_rom_ok) (use False in auto)
    then show ?thesis using False by (simp add: empty_rom_def)
  qed
  have disk: "result_ok limits (empty_disk lib limits elem s)"
    using assms by (auto simp: empty_disk_def refuse_nested_ok intro!: with_reading_ok [OF parse_entries_ok(1)] append_disk_ok)
  have part: "result_ok limits (empty_part lib limits elem s)"
    using assms
    by (auto simp: empty_part_def refuse_nested_ok intro!: with_reading_ok [OF parse_entries_ok(3)])
      (simp add: document_ok_def members_ok_def held_roms_def part_roms_def)
  have areas: "document_ok limits (t\<lparr>lq_part := Some (p\<lparr>dp_data_areas := dp_data_areas p @ [\<lparr> da_name = n, da_roms = [] \<rparr>]\<rparr>)\<rparr>)"
      "document_ok limits (t\<lparr>lq_part := Some (p\<lparr>dp_disk_areas := dks\<rparr>)\<rparr>)"
    if "document_ok limits t" "lq_part t = Some p" for t p n dks
    using that by (simp_all add: document_ok_def members_ok_def held_roms_def part_roms_snoc)
  have data: "result_ok limits (empty_data_area lib limits elem s)"
    using assms
    by (cases "lq_part s")
      (auto simp: empty_data_area_def refuse_nested_ok mark_unsupported_ok intro!: with_reading_ok [OF attr_str_opt_ok] areas)
  have disks: "result_ok limits (empty_disk_area lib limits elem s)"
    using assms
    by (cases "lq_part s")
      (auto simp: empty_disk_area_def refuse_nested_ok mark_unsupported_ok intro!: with_reading_ok [OF attr_str_opt_ok] areas)
  show ?thesis
    unfolding empty_tag_def using assms rom disk part data disks
    by (simp add: read_small_ok mark_unsupported_ok)
qed

lemma empty_element_ok: "document_ok limits s \<Longrightarrow> result_ok limits (empty_element lib limits elem s)"
  using result_ok_map [OF empty_tag_ok, of limits s clear_text]
  by (auto simp: empty_element_def clear_text_def document_error_def split: sum.split)

lemma push_text_ok: "document_ok limits (push_text t s) = document_ok limits s"
  by (simp add: push_text_def)

lemma handle_event_ok:
  assumes "document_ok (lx_limits ctx) s"
  shows "result_ok (lx_limits ctx) (handle_event ctx event s)"
proof -
  have "document_ok (lx_limits ctx) (text_event lib (lx_limits ctx) decoded s)" for lib decoded
    using assms by (simp add: text_event_def push_text_ok warn_ok split: sum.split)
  moreover have "document_ok (lx_limits ctx) (reference_event lib (lx_limits ctx) decoded char_ref s)" for lib decoded char_ref
    using assms by (simp add: reference_event_def push_text_ok warn_ok split: sum.split option.split)
  moreover have "document_ok (lx_limits ctx) (doctype_event (lx_limits ctx) outcome s)" for outcome
    using assms document_ok_bounds(1) [OF assms]
    by (cases outcome) (simp_all add: doctype_event_def document_ok_warnings)
  ultimately show ?thesis
    using assms
    by (cases event)
      (simp_all add: handle_event_def start_element_ok end_element_ok empty_element_ok push_text_ok
        document_error_def split: option.split)
qed

lemma parse_events_ok:
  "document_ok (lx_limits ctx) s \<Longrightarrow> result_ok (lx_limits ctx) (parse_events ctx events s)"
proof (induction ctx events s rule: parse_events.induct)
  case (1 ctx s)
  then show ?case by (simp add: end_of_file_def warn_ok)
next
  case (2 ctx event events s)
  then show ?case
    using handle_event_ok [OF 2(2), of event]
    by (cases "handle_event ctx event s") simp_all
qed

section \<open>The outcome\<close>

definition logiqx_outcome_ok :: "dat_limits \<Rightarrow> parse_outcome \<Rightarrow> bool" where
  "logiqx_outcome_ok limits out \<longleftrightarrow>
     (let games = pd_games (po_dat out); source = pd_source (po_dat out) in
      list_all (logiqx_game_ok limits) games \<and> length games \<le> max_entries limits \<and>
      ds_entry_count source = length games \<and> ds_rom_count source = total_roms (po_dat out) \<and>
      length (po_warnings out) \<le> max_warnings limits \<and>
      ds_parse_warnings source = map warning_display (po_warnings out) \<and>
      (\<forall>d. ds_description source = Some d \<longrightarrow> length d \<le> max_description_length limits))"

lemma logiqx_start_ok: "document_ok limits logiqx_start"
  by (simp add: document_ok_def members_ok_def held_roms_def logiqx_start_def no_entry_def entry_ok_def)

lemma outcome_of_document: "document_ok limits s \<Longrightarrow> lg_name (lq_entry s) = None \<Longrightarrow> logiqx_outcome_ok limits (logiqx_outcome p s)"
  by (simp add: document_ok_def logiqx_outcome_ok_def logiqx_outcome_def total_roms_def game_rom_count_def [abs_def])

lemma parse_document_cases:
  "parse_document ctx p events = Inl err \<Longrightarrow> document_error (lx_limits ctx) err"
  "parse_document ctx p events = Inr out \<Longrightarrow> logiqx_outcome_ok (lx_limits ctx) out"
proof -
  let ?r = "parse_events ctx events logiqx_start"
  have r: "result_ok (lx_limits ctx) ?r" by (rule parse_events_ok [OF logiqx_start_ok])
  show "document_error (lx_limits ctx) err" if "parse_document ctx p events = Inl err"
    using r that by (cases ?r) (simp_all add: parse_document_def)
  show "logiqx_outcome_ok (lx_limits ctx) out" if "parse_document ctx p events = Inr out"
    using r that drop_current_game_ok [OF finish_current_structure_ok]
    by (cases ?r) (auto simp: parse_document_def intro: outcome_of_document)
qed

lemma logiqx_result_ok: "parse_logiqx env lenv p limits = Inr out \<Longrightarrow> logiqx_outcome_ok limits out"
  by (auto simp: parse_logiqx_def dest: parse_document_cases(2) split: sum.splits prod.splits if_splits)

text \<open>
  C33: Reading a Logiqx file ends in one of these ways, whatever events the XML reader delivers.
  It fails with the operating system's error; because the file is over its ceiling; because a
  document is malformed, nested too deeply, or over the entry, rom or identifier ceiling - the
  ceilings reported with their configured value. Otherwise it returns at most the allowed
  number of entries and diagnostics; each entry's name and description are within their
  ceilings, each of its roms - also those inside data areas of parts - has a name within the
  ceiling, normalised hashes and a 64-bit size; and the counts and rendered warnings are
  those of what is returned. The rom ceiling is exceeded by one rom at most, and can be:
  a self-closing rom inside an open one is counted before it (\<open>one_rom_over_the_ceiling\<close> in
  \<open>ParserExample\<close>).
\<close>

theorem logiqx_result:
  "case parse_logiqx env lenv p limits of
     Inl err \<Rightarrow>
       (\<exists>e. err = IoFailed p e \<and> (pe_metadata env p = Inl e \<or> le_open lenv p = Inl e)) \<or>
       (\<exists>is_file bytes. pe_metadata env p = Inr (is_file, bytes) \<and> bytes > max_file_size limits \<and>
          err = FileTooLarge p bytes (max_file_size limits)) \<or>
       document_error limits err
   | Inr out \<Rightarrow> logiqx_outcome_ok limits out"
proof (cases "pe_metadata env p")
  case (Inl e)
  then show ?thesis by (simp add: parse_logiqx_def)
next
  case (Inr m)
  obtain is_file bytes where m: "m = (is_file, bytes)" by (cases m)
  show ?thesis
  proof (cases "bytes > max_file_size limits")
    case True
    then show ?thesis using Inr m by (simp add: parse_logiqx_def)
  next
    case False
    let ?ctx = "\<lparr> lx_library = le_library lenv,
      lx_doctype = (\<lambda>raw. classify_doctype (le_fs lenv) (le_data_dir lenv) raw p), lx_limits = limits \<rparr>"
    show ?thesis
    proof (cases "le_open lenv p")
      case (Inl e)
      then show ?thesis using Inr m False by (simp add: parse_logiqx_def)
    next
      case events: (Inr events)
      show ?thesis
        using Inr m False events parse_document_cases [of ?ctx p events]
        by (cases "parse_document ?ctx p events") (auto simp: parse_logiqx_def)
    qed
  qed
qed

end
