(* ===== verification/LogiqxRoundTrip.thy ===== *)
theory LogiqxRoundTrip
  imports LogiqxBounds
begin

text \<open>
  A writer of Logiqx documents, as the events an XML reader delivers for them, and the proof
  that the parser reads back every entry: the header, each game with its attributes,
  description, devices, samples, BIOS sets, roms and disks, and the parts of a software list
  with their data and disk areas.
\<close>

section \<open>Writing\<close>

text \<open>\<open>esc\<close> is the escaping the writer's XML library does in an attribute; reading undoes it.\<close>

definition written :: "(string \<Rightarrow> string) \<Rightarrow> string \<Rightarrow> (string \<times> string) list \<Rightarrow> xml_element" where
  "written esc tag attrs =
     \<lparr> xe_tag = Inr tag, xe_position = 0,
       xe_attribute = (\<lambda>k. map_option (\<lambda>v. ValidUtf8 (esc v)) (map_of attrs k)) \<rparr>"

definition metadata_pairs :: "dat_original_metadata \<Rightarrow> (string \<times> string) list" where
  "metadata_pairs m = concat (map (\<lambda>k. optional_pair k (fmlookup m k)) metadata_attributes)"

definition game_attributes :: "dat_game_entry \<Rightarrow> (string \<times> string) list" where
  "game_attributes g =
     [(''name'', dg_name g)] @ optional_pair ''id'' (dg_id g) @ optional_pair ''cloneof'' (dg_clone_of g) @
     optional_pair ''romof'' (dg_rom_of g) @ optional_pair ''sampleof'' (dg_sample_of g) @
     optional_pair ''isbios'' (dg_is_bios g) @ optional_pair ''isdevice'' (dg_is_device g) @
     optional_pair ''runnable'' (dg_runnable g) @ optional_pair ''supported'' (dg_supported g) @
     metadata_pairs (dg_original_metadata g)"

definition disk_attributes :: "dat_disk_entry \<Rightarrow> (string \<times> string) list" where
  "disk_attributes d =
     optional_pair ''name'' (dd_name d) @ optional_pair ''sha1'' (dd_sha1 d) @
     optional_pair ''merge'' (dd_merge d) @ optional_pair ''region'' (dd_region d) @
     optional_pair ''index'' (dd_index d) @ optional_pair ''writable'' (dd_writable d) @
     optional_pair ''status'' (dd_status d) @ optional_pair ''optional'' (dd_optional d)"

definition bios_attributes :: "dat_bios_set_entry \<Rightarrow> (string \<times> string) list" where
  "bios_attributes b =
     optional_pair ''name'' (bs_name b) @ optional_pair ''description'' (bs_description b) @
     optional_pair ''default'' (bs_default b)"

definition part_attributes :: "dat_part_entry \<Rightarrow> (string \<times> string) list" where
  "part_attributes p = optional_pair ''name'' (dp_name p) @ optional_pair ''interface'' (dp_interface p)"

text \<open>
  Element text: the reader delivers a reference as an event of its own, between the
  stretches of text around it. The writer makes one of every special character.
\<close>

definition reference_of :: "char \<Rightarrow> string option" where
  "reference_of c =
     (if c = CHR ''&'' then Some ''amp'' else if c = CHR ''<'' then Some ''lt''
      else if c = CHR ''>'' then Some ''gt'' else if c = dquote then Some ''quot''
      else if c = quote then Some ''apos'' else None)"

definition is_literal :: "char \<Rightarrow> bool" where
  "is_literal c \<longleftrightarrow> reference_of c = None"

function text_events :: "string \<Rightarrow> xml_event list" where
  "text_events t =
     (if takeWhile is_literal t = [] then [] else [TextEvent (Inr (takeWhile is_literal t))]) @
     (case dropWhile is_literal t of
        [] \<Rightarrow> []
      | c # rest \<Rightarrow> RefEvent (Inr (the (reference_of c))) None # text_events rest)"
  by pat_completeness auto

lemma dropWhile_rest_shorter: "dropWhile P t = c # rest \<Longrightarrow> length rest < length t"
  by (metis Suc_le_eq length_Cons length_dropWhile_le)

termination text_events
  by (relation "measure length") (auto dest: dropWhile_rest_shorter)

declare text_events.simps [simp del]

definition text_element :: "(string \<Rightarrow> string) \<Rightarrow> string \<Rightarrow> string option \<Rightarrow> xml_event list" where
  "text_element esc tag v =
     (case v of
        None \<Rightarrow> []
      | Some t \<Rightarrow> [StartEvent (written esc tag [])] @ text_events t @ [EndEvent (Inr tag) 0])"

definition rom_event :: "(string \<Rightarrow> string) \<Rightarrow> dat_rom_entry \<Rightarrow> xml_event" where
  "rom_event esc r = EmptyEvent (written esc ''rom'' (rom_pairs r))"

definition disk_event :: "(string \<Rightarrow> string) \<Rightarrow> dat_disk_entry \<Rightarrow> xml_event" where
  "disk_event esc d = EmptyEvent (written esc ''disk'' (disk_attributes d))"

definition data_area_events :: "(string \<Rightarrow> string) \<Rightarrow> dat_data_area_entry \<Rightarrow> xml_event list" where
  "data_area_events esc a =
     [StartEvent (written esc ''dataarea'' (optional_pair ''name'' (da_name a)))] @
     map (rom_event esc) (da_roms a) @ [EndEvent (Inr ''dataarea'') 0]"

definition disk_area_events :: "(string \<Rightarrow> string) \<Rightarrow> dat_disk_area_entry \<Rightarrow> xml_event list" where
  "disk_area_events esc a =
     [StartEvent (written esc ''diskarea'' (optional_pair ''name'' (dk_name a)))] @
     map (disk_event esc) (dk_disks a) @ [EndEvent (Inr ''diskarea'') 0]"

definition part_events :: "(string \<Rightarrow> string) \<Rightarrow> dat_part_entry \<Rightarrow> xml_event list" where
  "part_events esc p =
     [StartEvent (written esc ''part'' (part_attributes p))] @
     concat (map (data_area_events esc) (dp_data_areas p)) @
     concat (map (disk_area_events esc) (dp_disk_areas p)) @ [EndEvent (Inr ''part'') 0]"

definition game_tag :: "dat_game_entry \<Rightarrow> string" where
  "game_tag g = (if dg_supported g = None then ''game'' else ''software'')"

definition game_events :: "(string \<Rightarrow> string) \<Rightarrow> dat_game_entry \<Rightarrow> xml_event list" where
  "game_events esc g =
     [StartEvent (written esc (game_tag g) (game_attributes g))] @
     text_element esc ''description'' (dg_description g) @
     map (\<lambda>d. EmptyEvent (written esc ''device_ref'' (optional_pair ''name'' (dv_name d)))) (dg_device_refs g) @
     map (\<lambda>s. EmptyEvent (written esc ''sample'' (optional_pair ''name'' (dsm_name s)))) (dg_samples g) @
     map (\<lambda>b. EmptyEvent (written esc ''biosset'' (bios_attributes b))) (dg_bios_sets g) @
     map (rom_event esc) (dg_roms g) @ map (disk_event esc) (dg_disks g) @
     concat (map (part_events esc) (dg_parts g)) @ [EndEvent (Inr (game_tag g)) 0]"

record logiqx_heading =
  lh_name :: "string option"
  lh_description :: "string option"
  lh_version :: "string option"
  lh_author :: "string option"
  lh_homepage :: "string option"
  lh_clrmamepro :: "string option"

definition heading_events :: "(string \<Rightarrow> string) \<Rightarrow> logiqx_heading \<Rightarrow> xml_event list" where
  "heading_events esc h =
     [StartEvent (written esc ''header'' [])] @
     text_element esc ''name'' (lh_name h) @ text_element esc ''description'' (lh_description h) @
     text_element esc ''version'' (lh_version h) @ text_element esc ''author'' (lh_author h) @
     text_element esc ''homepage'' (lh_homepage h) @ text_element esc ''clrmamepro'' (lh_clrmamepro h) @
     [EndEvent (Inr ''header'') 0]"

definition document_events :: "(string \<Rightarrow> string) \<Rightarrow> logiqx_heading \<Rightarrow> dat_game_entry list \<Rightarrow> xml_event list" where
  "document_events esc h games =
     [DeclEvent, StartEvent (written esc ''datafile'' [])] @ heading_events esc h @
     concat (map (game_events esc) games) @ [EndEvent (Inr ''datafile'') 0]"

section \<open>What can be written\<close>

text \<open>An attribute with an empty value reads as a missing one; element text is trimmed.\<close>

definition nonempty_values :: "(string \<times> string) list \<Rightarrow> bool" where
  "nonempty_values attrs \<longleftrightarrow> list_all (\<lambda>p. snd p \<noteq> []) attrs"

definition trimmed_text :: "string option \<Rightarrow> bool" where
  "trimmed_text v \<longleftrightarrow> (case v of None \<Rightarrow> True | Some t \<Rightarrow> trim t = t)"

definition short_text :: "dat_limits \<Rightarrow> string option \<Rightarrow> bool" where
  "short_text limits v \<longleftrightarrow>
     trimmed_text v \<and> (case v of None \<Rightarrow> True | Some t \<Rightarrow> utf8_len t \<le> max_description_length limits)"

definition writable_rom :: "dat_limits \<Rightarrow> dat_rom_entry \<Rightarrow> bool" where
  "writable_rom limits r \<longleftrightarrow> nonempty_values (rom_pairs r) \<and> logiqx_rom_ok limits r"

definition writable_disk :: "dat_disk_entry \<Rightarrow> bool" where
  "writable_disk d \<longleftrightarrow> nonempty_values (disk_attributes d) \<and> normal_hash normalise_sha1 (dd_sha1 d)"

definition writable_part :: "dat_limits \<Rightarrow> dat_part_entry \<Rightarrow> bool" where
  "writable_part limits p \<longleftrightarrow>
     nonempty_values (part_attributes p) \<and>
     list_all (\<lambda>a. da_name a \<noteq> Some [] \<and> list_all (writable_rom limits) (da_roms a)) (dp_data_areas p) \<and>
     list_all (\<lambda>a. dk_name a \<noteq> Some [] \<and> list_all writable_disk (dk_disks a)) (dp_disk_areas p)"

definition writable_game :: "dat_limits \<Rightarrow> dat_game_entry \<Rightarrow> bool" where
  "writable_game limits g \<longleftrightarrow>
     nonempty_values (game_attributes g) \<and> utf8_len (dg_name g) \<le> max_identifier_length limits \<and>
     fmdom' (dg_original_metadata g) \<subseteq> set metadata_attributes \<and>
     short_text limits (dg_description g) \<and> dg_description g \<noteq> Some [] \<and>
     list_all (\<lambda>d. dv_name d \<noteq> Some []) (dg_device_refs g) \<and>
     list_all (\<lambda>s. dsm_name s \<noteq> Some []) (dg_samples g) \<and>
     list_all (\<lambda>b. nonempty_values (bios_attributes b)) (dg_bios_sets g) \<and>
     list_all (writable_rom limits) (dg_roms g) \<and> list_all writable_disk (dg_disks g) \<and>
     list_all (writable_part limits) (dg_parts g) \<and>
     length (game_roms g) \<le> max_roms_per_entry limits \<and>
     dg_board g = None \<and> dg_rebuild_to g = None \<and> dg_year g = None \<and> dg_manufacturer g = None \<and>
     dg_source_file g = None \<and> dg_comment g = None \<and>
     dg_content_classification g = unknown_classification \<and> \<not> dg_unsupported_structure g"

definition writable_heading :: "dat_limits \<Rightarrow> logiqx_heading \<Rightarrow> bool" where
  "writable_heading limits h \<longleftrightarrow>
     trimmed_text (lh_name h) \<and> short_text limits (lh_description h) \<and> trimmed_text (lh_version h) \<and>
     trimmed_text (lh_author h) \<and> trimmed_text (lh_homepage h) \<and> trimmed_text (lh_clrmamepro h)"

section \<open>Reading attributes back\<close>

text \<open>
  What the XML library documents: resolving the entities of an escaped value gives the
  value, text without a reference is itself, and the predefined entities are known.
\<close>

definition undoes :: "xml_library \<Rightarrow> (string \<Rightarrow> string) \<Rightarrow> bool" where
  "undoes lib esc \<longleftrightarrow>
     (\<forall>v. xl_unescape lib (esc v) = Inr v) \<and>
     (\<forall>t. CHR ''&'' \<notin> set t \<longrightarrow> xl_unescape lib t = Inr t) \<and>
     (\<forall>c n. reference_of c = Some n \<longrightarrow> xl_predefined lib n = Some [c])"

lemma then_give [simp]: "then_read (give x) k = k x"
  by (rule ext) (simp add: then_read_def give_def)

lemma attr_read:
  assumes "undoes lib esc" and "nonempty_values attrs"
  shows "attr_str_opt lib limits (written esc tag attrs) k = give (map_of attrs k)"
proof
  fix ws
  have "v \<noteq> []" if "map_of attrs k = Some v" for v
    using map_of_SomeD [OF that] assms(2) by (auto simp: nonempty_values_def list_all_iff)
  then show "attr_str_opt lib limits (written esc tag attrs) k ws = give (map_of attrs k) ws"
    using assms(1)
    by (cases "map_of attrs k") (auto simp: attr_str_opt_def written_def give_def undoes_def)
qed

lemma checked_attr_read:
  assumes "undoes lib esc" and "nonempty_values attrs"
    and "\<forall>t. map_of attrs k = Some t \<longrightarrow> utf8_len t \<le> max_identifier_length limits"
  shows "attr_str_checked lib limits (written esc tag attrs) k = give (map_of attrs k)"
  using assms(3)
  by (cases "map_of attrs k") (simp_all add: attr_str_checked_def attr_read [OF assms(1,2)] not_less)

lemma sum_attr_read:
  assumes "undoes lib esc" and "nonempty_values attrs" and "normal_hash normalise (map_of attrs k)"
  shows "checksum_attr lib limits (written esc tag attrs) k normalise where_found = give (map_of attrs k)"
  using assms(3)
  by (cases "map_of attrs k") (simp_all add: checksum_attr_def attr_read [OF assms(1,2)] normal_hash_def)

lemma parse_size_decimal:
  assumes "n \<le> 18446744073709551615"
  shows "parse_size (nat_to_string n) = Some n"
proof -
  have digits: "list_all is_ascii_digit (nat_to_string n)" using nat_to_string_digits [of n] by blast
  have "\<not> is_ascii_digit (CHR ''x'')" "\<not> is_ascii_digit (CHR ''X'')"
    by (simp_all add: is_ascii_digit_def)
  then have "strip_prefix ''0x'' (nat_to_string n) = None" "strip_prefix ''0X'' (nat_to_string n) = None"
    using digits by (auto simp: strip_prefix_def prefix_def)
  then show ?thesis using parse_u64_nat_to_string [OF assms] by (simp add: parse_size_def)
qed

lemma size_attr_read:
  assumes "undoes lib esc" and "nonempty_values attrs" and "map_of attrs k = map_option nat_to_string v"
    and "\<forall>n. v = Some n \<longrightarrow> n \<le> 18446744073709551615"
  shows "attr_u64 lib limits (written esc tag attrs) k = give v"
  using assms(3,4)
  by (cases v) (simp_all add: attr_u64_def attr_read [OF assms(1,2)] parse_size_decimal)

lemma map_of_optional:
  "(m ++ map_of (optional_pair k v)) k' = (if k' = k \<and> v \<noteq> None then v else m k')"
  "map_of (optional_pair k v) k' = (if k' = k then v else None)"
  by (auto simp: optional_pair_def split: option.split)

lemma rom_pairs_lookup:
  "map_of (rom_pairs r) ''name'' = Some (dr_name r)"
  "map_of (rom_pairs r) ''size'' = map_option nat_to_string (dr_size_bytes r)"
  "map_of (rom_pairs r) ''crc'' = dr_crc32 r" "map_of (rom_pairs r) ''md5'' = dr_md5 r"
  "map_of (rom_pairs r) ''sha1'' = dr_sha1 r" "map_of (rom_pairs r) ''sha256'' = dr_sha256 r"
  "map_of (rom_pairs r) ''status'' = dr_status r" "map_of (rom_pairs r) ''merge'' = dr_merge r"
  "map_of (rom_pairs r) ''date'' = dr_date r" "map_of (rom_pairs r) ''offset'' = dr_offset r"
  "map_of (rom_pairs r) ''loadflag'' = dr_loadflag r" "map_of (rom_pairs r) ''value'' = dr_value r"
  "map_of (rom_pairs r) ''optional'' = dr_optional r" "map_of (rom_pairs r) ''bios'' = dr_bios r"
  "map_of (rom_pairs r) ''region'' = dr_region r"
  by (simp_all add: rom_pairs_def map_of_optional)

lemma rom_attributes_read:
  assumes "undoes lib esc" and "writable_rom limits r"
  shows "read_rom_entry lib limits (written esc tag (rom_pairs r)) = give r"
proof -
  have vals: "nonempty_values (rom_pairs r)" and ok: "logiqx_rom_ok limits r"
    using assms(2) by (simp_all add: writable_rom_def)
  note str = attr_read [OF assms(1) vals]
  note sum = sum_attr_read [OF assms(1) vals]
  have name: "rom_name_attr lib limits (written esc tag (rom_pairs r)) = give (dr_name r)"
    using ok checked_attr_read [OF assms(1) vals, of "''name''" limits tag]
    by (simp add: rom_name_attr_def rom_pairs_lookup logiqx_rom_ok_def)
  have size: "attr_u64 lib limits (written esc tag (rom_pairs r)) ''size'' = give (dr_size_bytes r)"
    using ok by (intro size_attr_read [OF assms(1) vals]) (simp_all add: rom_pairs_lookup logiqx_rom_ok_def)
  have sums:
    "checksum_attr lib limits (written esc tag (rom_pairs r)) ''crc'' normalise_crc32 where_found = give (dr_crc32 r)"
    "checksum_attr lib limits (written esc tag (rom_pairs r)) ''md5'' normalise_md5 where_found = give (dr_md5 r)"
    "checksum_attr lib limits (written esc tag (rom_pairs r)) ''sha1'' normalise_sha1 where_found = give (dr_sha1 r)"
    "checksum_attr lib limits (written esc tag (rom_pairs r)) ''sha256'' normalise_sha256 where_found = give (dr_sha256 r)"
    for where_found
    using ok by (subst sum; simp add: rom_pairs_lookup logiqx_rom_ok_def)+
  show ?thesis
    by (simp add: read_rom_entry_def name size sums str rom_pairs_lookup) (cases r; simp)
qed

lemma disk_read:
  assumes "undoes lib esc" and "writable_disk d"
  shows "parse_disk_entry lib limits (written esc tag (disk_attributes d)) = give d"
proof -
  have vals: "nonempty_values (disk_attributes d)" and sha: "normal_hash normalise_sha1 (dd_sha1 d)"
    using assms(2) by (simp_all add: writable_disk_def)
  have lookup:
    "map_of (disk_attributes d) ''name'' = dd_name d" "map_of (disk_attributes d) ''sha1'' = dd_sha1 d"
    "map_of (disk_attributes d) ''merge'' = dd_merge d" "map_of (disk_attributes d) ''region'' = dd_region d"
    "map_of (disk_attributes d) ''index'' = dd_index d" "map_of (disk_attributes d) ''writable'' = dd_writable d"
    "map_of (disk_attributes d) ''writeable'' = None" "map_of (disk_attributes d) ''status'' = dd_status d"
    "map_of (disk_attributes d) ''optional'' = dd_optional d"
    by (simp_all add: disk_attributes_def map_of_optional)
  have sum: "checksum_attr lib limits (written esc tag (disk_attributes d)) ''sha1'' normalise_sha1 ''a disk element'' =
      give (dd_sha1 d)"
    using sha by (subst sum_attr_read [OF assms(1) vals]) (simp_all add: lookup)
  have writable: "attr_or_else lib limits (written esc tag (disk_attributes d)) ''writable'' ''writeable'' = give (dd_writable d)"
    by (cases "dd_writable d") (simp_all add: attr_or_else_def attr_read [OF assms(1) vals] lookup)
  show ?thesis
    by (simp add: parse_disk_entry_def writable sum attr_read [OF assms(1) vals] lookup) (cases d; simp)
qed

lemma bios_read:
  assumes "undoes lib esc" and "nonempty_values (bios_attributes b)"
  shows "parse_bios_set_entry lib limits (written esc tag (bios_attributes b)) = give b"
proof -
  have lookup: "map_of (bios_attributes b) ''name'' = bs_name b"
      "map_of (bios_attributes b) ''description'' = bs_description b"
      "map_of (bios_attributes b) ''default'' = bs_default b"
    by (simp_all add: bios_attributes_def map_of_optional)
  show ?thesis by (simp add: parse_bios_set_entry_def attr_read [OF assms] lookup) (cases b; simp)
qed

lemma part_read:
  assumes "undoes lib esc" and "nonempty_values (part_attributes p)"
  shows "parse_part_entry lib limits (written esc tag (part_attributes p)) =
    give (p\<lparr>dp_data_areas := [], dp_disk_areas := []\<rparr>)"
proof -
  have lookup: "map_of (part_attributes p) ''name'' = dp_name p"
      "map_of (part_attributes p) ''interface'' = dp_interface p"
    by (simp_all add: part_attributes_def map_of_optional)
  show ?thesis by (simp add: parse_part_entry_def attr_read [OF assms] lookup) (cases p; simp)
qed

lemma name_read:
  assumes "undoes lib esc" and "v \<noteq> Some []"
  shows "attr_str_opt lib limits (written esc tag (optional_pair ''name'' v)) ''name'' = give v"
proof -
  have "nonempty_values (optional_pair ''name'' v)"
    using assms(2) by (auto simp: nonempty_values_def optional_pair_def split: option.split)
  then show ?thesis by (simp add: attr_read [OF assms(1)] map_of_optional)
qed

section \<open>The game element\<close>

lemma metadata_pairs_lookup:
  "map_of (metadata_pairs m) k = (if k \<in> set metadata_attributes then fmlookup m k else None)"
proof -
  have "map_of (concat (map (\<lambda>k. optional_pair k (fmlookup m k)) ks)) k =
      (if k \<in> set ks then fmlookup m k else None)" for ks
    by (induction ks) (auto simp: map_of_optional)
  then show ?thesis by (simp add: metadata_pairs_def)
qed

lemma game_attributes_lookup:
  "map_of (game_attributes g) ''name'' = Some (dg_name g)" "map_of (game_attributes g) ''id'' = dg_id g"
  "map_of (game_attributes g) ''cloneof'' = dg_clone_of g" "map_of (game_attributes g) ''cloneofid'' = None"
  "map_of (game_attributes g) ''romof'' = dg_rom_of g" "map_of (game_attributes g) ''sampleof'' = dg_sample_of g"
  "map_of (game_attributes g) ''isbios'' = dg_is_bios g" "map_of (game_attributes g) ''isdevice'' = dg_is_device g"
  "map_of (game_attributes g) ''runnable'' = dg_runnable g"
  "map_of (game_attributes g) ''supported'' = dg_supported g"
  by (simp_all add: game_attributes_def map_of_optional metadata_pairs_lookup metadata_attributes_def)

lemma game_attributes_metadata:
  assumes "k \<in> set metadata_attributes"
  shows "map_of (game_attributes g) k = fmlookup (dg_original_metadata g) k"
proof -
  have "k \<noteq> ''name'' \<and> k \<noteq> ''id'' \<and> k \<noteq> ''cloneof'' \<and> k \<noteq> ''romof'' \<and> k \<noteq> ''sampleof'' \<and> k \<noteq> ''isbios'' \<and>
      k \<noteq> ''isdevice'' \<and> k \<noteq> ''runnable'' \<and> k \<noteq> ''supported''"
    using assms unfolding metadata_attributes_def by fastforce
  then show ?thesis
    using assms by (simp add: game_attributes_def map_of_optional metadata_pairs_lookup)
qed

lemma metadata_read:
  assumes "\<And>k. k \<in> set keys \<Longrightarrow> attr_str_opt lib limits elem k = give (f k)"
  shows "\<exists>m'. read_metadata lib limits elem keys m = give m' \<and>
    (\<forall>k. fmlookup m' k = (if k \<in> set keys \<and> f k \<noteq> None then f k else fmlookup m k))"
  using assms
proof (induction keys arbitrary: m)
  case Nil
  then show ?case by auto
next
  case (Cons key keys)
  let ?m = "case f key of None \<Rightarrow> m | Some t \<Rightarrow> fmupd key t m"
  obtain m' where m': "read_metadata lib limits elem keys ?m = give m'"
      "\<forall>k. fmlookup m' k = (if k \<in> set keys \<and> f k \<noteq> None then f k else fmlookup ?m k)"
    using Cons.IH [OF Cons.prems, of ?m] by (metis list.set_intros(2))
  have "read_metadata lib limits elem (key # keys) m = give m'"
    using Cons.prems m'(1) by simp
  moreover have "\<forall>k. fmlookup m' k = (if k \<in> set (key # keys) \<and> f k \<noteq> None then f k else fmlookup m k)"
    using m'(2) by (auto split: option.splits)
  ultimately show ?case by blast
qed

definition entry_from :: "dat_game_entry \<Rightarrow> current_entry" where
  "entry_from g =
     \<lparr> lg_name = Some (dg_name g), lg_id = dg_id g, lg_desc = dg_description g, lg_clone_of = dg_clone_of g,
       lg_rom_of = dg_rom_of g, lg_sample_of = dg_sample_of g, lg_is_bios = dg_is_bios g,
       lg_is_device = dg_is_device g, lg_runnable = dg_runnable g, lg_supported = dg_supported g,
       lg_metadata = dg_original_metadata g, lg_unsupported = dg_unsupported_structure g \<rparr>"

lemma game_element_read:
  assumes "undoes lib esc" and "writable_game limits g"
  shows "read_game lib limits (game_tag g) (written esc tag (game_attributes g)) =
    give ((entry_from g)\<lparr>lg_desc := None\<rparr>)"
proof -
  let ?e = "written esc tag (game_attributes g)"
  have vals: "nonempty_values (game_attributes g)" and plain: "\<not> dg_unsupported_structure g"
    and keys: "fmdom' (dg_original_metadata g) \<subseteq> set metadata_attributes"
    and short: "utf8_len (dg_name g) \<le> max_identifier_length limits"
    using assms(2) by (simp_all add: writable_game_def)
  note str = attr_read [OF assms(1) vals]
  have name: "attr_str_checked lib limits ?e ''name'' = give (Some (dg_name g))"
    using short by (subst checked_attr_read [OF assms(1) vals]) (simp_all add: game_attributes_lookup)
  have clone: "attr_or_else lib limits ?e ''cloneof'' ''cloneofid'' = give (dg_clone_of g)"
    by (cases "dg_clone_of g") (simp_all add: attr_or_else_def str game_attributes_lookup)
  have supported: "(if game_tag g = ''software'' then attr_str_opt lib limits ?e ''supported'' else give None) =
      give (dg_supported g)"
    by (simp add: game_tag_def str game_attributes_lookup)
  obtain m where m: "read_metadata lib limits ?e metadata_attributes fmempty = give m"
      "\<forall>k. fmlookup m k = (if k \<in> set metadata_attributes \<and> map_of (game_attributes g) k \<noteq> None
        then map_of (game_attributes g) k else fmlookup fmempty k)"
    using metadata_read [of metadata_attributes lib limits ?e "map_of (game_attributes g)" fmempty] str by blast
  have "m = dg_original_metadata g"
  proof (rule fmap_ext)
    fix k
    show "fmlookup m k = fmlookup (dg_original_metadata g) k"
    proof (cases "k \<in> set metadata_attributes")
      case True
      then show ?thesis using m(2) game_attributes_metadata [OF True] by simp
    next
      case False
      then have "k \<notin> fmdom' (dg_original_metadata g)" using keys by blast
      then show ?thesis using m(2) False by (simp add: fmdom'_notD)
    qed
  qed
  then show ?thesis
    using plain by (simp add: read_game_def name clone supported m(1) str game_attributes_lookup entry_from_def)
qed

section \<open>Sequences of events\<close>

definition runs :: "logiqx_context \<Rightarrow> xml_event list \<Rightarrow> logiqx_state \<Rightarrow> logiqx_state \<Rightarrow> bool" where
  "runs ctx es s s' \<longleftrightarrow> (\<forall>rest. parse_events ctx (es @ rest) s = parse_events ctx rest s')"

lemma runs_Nil: "runs ctx [] s s"
  by (simp add: runs_def)

lemma runs_append: "runs ctx es1 s s1 \<Longrightarrow> runs ctx es2 s1 s2 \<Longrightarrow> runs ctx (es1 @ es2) s s2"
  by (simp add: runs_def)

lemma runs_single: "handle_event ctx e s = Inr s' \<Longrightarrow> \<not> stops e s \<Longrightarrow> runs ctx [e] s s'"
  by (simp add: runs_def)

text \<open>One stretch of events for each element of a list, the state following what has been read.\<close>

lemma runs_list:
  assumes "\<And>ys x zs. xs = ys @ x # zs \<Longrightarrow> runs ctx (f x) (F ys) (F (ys @ [x]))"
  shows "runs ctx (concat (map f xs)) (F []) (F xs)"
  using assms
proof (induction xs rule: rev_induct)
  case Nil
  then show ?case by (simp add: runs_Nil)
next
  case (snoc x xs)
  have "runs ctx (concat (map f xs)) (F []) (F xs)"
    using snoc.prems by (intro snoc.IH) simp
  moreover have "runs ctx (f x) (F xs) (F (xs @ [x]))" using snoc.prems [of xs x "[]"] by simp
  ultimately show ?case using runs_append by fastforce
qed

lemma runs_each:
  assumes "\<And>ys x zs. xs = ys @ x # zs \<Longrightarrow> handle_event ctx (e x) (F ys) = Inr (F (ys @ [x])) \<and> \<not> stops (e x) (F ys)"
  shows "runs ctx (map e xs) (F []) (F xs)"
  using runs_list [of xs ctx "\<lambda>x. [e x]" F] assms runs_single by (simp add: concat_map_singleton)

section \<open>The state while a game is read\<close>

text \<open>
  \<open>b\<close> holds the header and the games emitted so far; \<open>g\<close> is the game as far as it has been
  read. Parts open at depth three, their areas at depth four.
\<close>

definition holding ::
    "logiqx_state \<Rightarrow> dat_game_entry \<Rightarrow> dat_part_entry option \<Rightarrow> dat_data_area_entry option \<Rightarrow>
     dat_disk_area_entry option \<Rightarrow> nat \<Rightarrow> nat \<Rightarrow> bool \<Rightarrow> logiqx_state" where
  "holding b g part area diska rc depth inside_game =
     b\<lparr>lq_entry := entry_from g, lq_roms := dg_roms g, lq_disks := dg_disks g,
       lq_device_refs := dg_device_refs g, lq_samples := dg_samples g, lq_bios_sets := dg_bios_sets g,
       lq_parts := dg_parts g, lq_part := part, lq_part_depth := map_option (\<lambda>p. 3) part,
       lq_data_area := area, lq_data_area_depth := map_option (\<lambda>a. 4) area,
       lq_disk_area := diska, lq_disk_area_depth := map_option (\<lambda>a. 4) diska,
       lq_disk := None, lq_disk_depth := None, lq_rom_count := rc, lq_rom := None, lq_text := [],
       lq_depth := depth, lq_in_game := inside_game\<rparr>"

lemma entry_from_members [simp]:
  "entry_from (g\<lparr>dg_roms := rs\<rparr>) = entry_from g" "entry_from (g\<lparr>dg_disks := ds\<rparr>) = entry_from g"
  "entry_from (g\<lparr>dg_device_refs := vs\<rparr>) = entry_from g" "entry_from (g\<lparr>dg_samples := ss\<rparr>) = entry_from g"
  "entry_from (g\<lparr>dg_bios_sets := bs\<rparr>) = entry_from g" "entry_from (g\<lparr>dg_parts := ps\<rparr>) = entry_from g"
  by (simp_all add: entry_from_def)

lemma tags_lower:
  "to_ascii_lowercase ''rom'' = ''rom''" "to_ascii_lowercase ''disk'' = ''disk''"
  "to_ascii_lowercase ''device_ref'' = ''device_ref''" "to_ascii_lowercase ''sample'' = ''sample''"
  "to_ascii_lowercase ''biosset'' = ''biosset''" "to_ascii_lowercase ''part'' = ''part''"
  "to_ascii_lowercase ''dataarea'' = ''dataarea''" "to_ascii_lowercase ''diskarea'' = ''diskarea''"
  "to_ascii_lowercase ''description'' = ''description''" "to_ascii_lowercase ''game'' = ''game''"
  "to_ascii_lowercase ''software'' = ''software''" "to_ascii_lowercase ''datafile'' = ''datafile''"
  "to_ascii_lowercase ''header'' = ''header''" "to_ascii_lowercase ''name'' = ''name''"
  "to_ascii_lowercase ''version'' = ''version''" "to_ascii_lowercase ''author'' = ''author''"
  "to_ascii_lowercase ''homepage'' = ''homepage''" "to_ascii_lowercase ''clrmamepro'' = ''clrmamepro''"
  by (simp_all add: to_ascii_lowercase_def to_ascii_lower_char_def)

lemma with_reading_give [simp]: "with_reading (give x) k s = Inr (k x s)"
  by (simp add: with_reading_def give_def)

lemma written_tag [simp]: "xe_tag (written esc tag attrs) = Inr tag"
  by (simp add: written_def)

lemmas event_defs = handle_event_def Let_def empty_element_def empty_tag_def start_element_def start_tag_def
  end_element_def end_tag_def game_tags_def metadata_attributes_def clear_text_def tags_lower

lemma not_stops [simp]:
  "\<not> stops (StartEvent el) s" "\<not> stops (EmptyEvent el) s" "\<not> stops (TextEvent t) s" "\<not> stops DeclEvent s"
  "\<not> stops (RefEvent t c) s"
  "0 < lq_depth s \<Longrightarrow> \<not> stops (EndEvent tag position) s"
  by (simp_all add: stops_def)

section \<open>Members\<close>

lemma rom_event_read:
  assumes "undoes (lx_library ctx) esc" and "writable_rom (lx_limits ctx) r"
    and "rc < max_roms_per_entry (lx_limits ctx)"
  shows "handle_event ctx (rom_event esc r) (holding b g part None diska rc depth True) =
      Inr (holding b (g\<lparr>dg_roms := dg_roms g @ [r]\<rparr>) part None diska (Suc rc) depth True)"
    and "handle_event ctx (rom_event esc r) (holding b g part (Some a) diska rc depth True) =
      Inr (holding b g part (Some (a\<lparr>da_roms := da_roms a @ [r]\<rparr>)) diska (Suc rc) depth True)"
proof -
  have "lq_in_game (holding b g part area diska rc depth True)" for area by (simp add: holding_def)
  moreover have "empty_rom (lx_library ctx) (lx_limits ctx) (written esc ''rom'' (rom_pairs r))
      (holding b g part area diska rc depth True) =
      Inr ((append_rom r (holding b g part area diska rc depth True))\<lparr>lq_rom_count := Suc rc\<rparr>)" for area
    using assms(3) by (simp add: empty_rom_def rom_attributes_read [OF assms(1,2)]) (simp add: holding_def)
  ultimately have event: "handle_event ctx (rom_event esc r) (holding b g part area diska rc depth True) =
      Inr (clear_text ((append_rom r (holding b g part area diska rc depth True))\<lparr>lq_rom_count := Suc rc\<rparr>))" for area
    by (simp add: rom_event_def handle_event_def empty_element_def empty_tag_def tags_lower)
  show "handle_event ctx (rom_event esc r) (holding b g part None diska rc depth True) =
      Inr (holding b (g\<lparr>dg_roms := dg_roms g @ [r]\<rparr>) part None diska (Suc rc) depth True)"
    and "handle_event ctx (rom_event esc r) (holding b g part (Some a) diska rc depth True) =
      Inr (holding b g part (Some (a\<lparr>da_roms := da_roms a @ [r]\<rparr>)) diska (Suc rc) depth True)"
    unfolding event by (simp_all add: append_rom_def clear_text_def holding_def)
qed

lemma disk_event_read:
  assumes "undoes (lx_library ctx) esc" and "writable_disk d"
  shows "handle_event ctx (disk_event esc d) (holding b g part area None rc depth True) =
      Inr (holding b (g\<lparr>dg_disks := dg_disks g @ [d]\<rparr>) part area None rc depth True)"
    and "handle_event ctx (disk_event esc d) (holding b g part area (Some a) rc depth True) =
      Inr (holding b g part area (Some (a\<lparr>dk_disks := dk_disks a @ [d]\<rparr>)) rc depth True)"
proof -
  have "lq_in_game (holding b g part area diska rc depth True)" for diska by (simp add: holding_def)
  moreover have "empty_disk (lx_library ctx) (lx_limits ctx) (written esc ''disk'' (disk_attributes d))
      (holding b g part area diska rc depth True) = Inr (append_disk d (holding b g part area diska rc depth True))" for diska
    by (simp add: empty_disk_def disk_read [OF assms]) (simp add: holding_def)
  ultimately have event: "handle_event ctx (disk_event esc d) (holding b g part area diska rc depth True) =
      Inr (clear_text (append_disk d (holding b g part area diska rc depth True)))" for diska
    by (simp add: disk_event_def handle_event_def empty_element_def empty_tag_def tags_lower)
  show "handle_event ctx (disk_event esc d) (holding b g part area None rc depth True) =
      Inr (holding b (g\<lparr>dg_disks := dg_disks g @ [d]\<rparr>) part area None rc depth True)"
    and "handle_event ctx (disk_event esc d) (holding b g part area (Some a) rc depth True) =
      Inr (holding b g part area (Some (a\<lparr>dk_disks := dk_disks a @ [d]\<rparr>)) rc depth True)"
    unfolding event by (simp_all add: append_disk_def clear_text_def holding_def)
qed

lemma small_events_read:
  assumes "undoes (lx_library ctx) esc"
  shows "dv_name v \<noteq> Some [] \<Longrightarrow>
      handle_event ctx (EmptyEvent (written esc ''device_ref'' (optional_pair ''name'' (dv_name v))))
        (holding b g part area diska rc depth True) =
      Inr (holding b (g\<lparr>dg_device_refs := dg_device_refs g @ [v]\<rparr>) part area diska rc depth True)"
    and "dsm_name sm \<noteq> Some [] \<Longrightarrow>
      handle_event ctx (EmptyEvent (written esc ''sample'' (optional_pair ''name'' (dsm_name sm))))
        (holding b g part area diska rc depth True) =
      Inr (holding b (g\<lparr>dg_samples := dg_samples g @ [sm]\<rparr>) part area diska rc depth True)"
    and "nonempty_values (bios_attributes bs) \<Longrightarrow>
      handle_event ctx (EmptyEvent (written esc ''biosset'' (bios_attributes bs)))
        (holding b g part area diska rc depth True) =
      Inr (holding b (g\<lparr>dg_bios_sets := dg_bios_sets g @ [bs]\<rparr>) part area diska rc depth True)"
proof -
  have "lq_in_game (holding b g part area diska rc depth True)" by (simp add: holding_def)
  note empties = this handle_event_def empty_element_def empty_tag_def tags_lower Let_def
  show "handle_event ctx (EmptyEvent (written esc ''device_ref'' (optional_pair ''name'' (dv_name v))))
        (holding b g part area diska rc depth True) =
      Inr (holding b (g\<lparr>dg_device_refs := dg_device_refs g @ [v]\<rparr>) part area diska rc depth True)"
    if "dv_name v \<noteq> Some []"
    using that by (simp add: empties read_device_ref_def name_read [OF assms]) (simp add: clear_text_def holding_def)
  show "handle_event ctx (EmptyEvent (written esc ''sample'' (optional_pair ''name'' (dsm_name sm))))
        (holding b g part area diska rc depth True) =
      Inr (holding b (g\<lparr>dg_samples := dg_samples g @ [sm]\<rparr>) part area diska rc depth True)"
    if "dsm_name sm \<noteq> Some []"
    using that by (simp add: empties read_sample_def name_read [OF assms]) (simp add: clear_text_def holding_def)
  show "handle_event ctx (EmptyEvent (written esc ''biosset'' (bios_attributes bs)))
        (holding b g part area diska rc depth True) =
      Inr (holding b (g\<lparr>dg_bios_sets := dg_bios_sets g @ [bs]\<rparr>) part area diska rc depth True)"
    if "nonempty_values (bios_attributes bs)"
    using that by (simp add: empties read_bios_set_def bios_read [OF assms]) (simp add: clear_text_def holding_def)
qed

section \<open>Parts and their areas\<close>

lemma nested_start:
  assumes "depth < max_xml_depth (lx_limits ctx)"
    and "start_tag (lx_library ctx) (lx_limits ctx) (to_ascii_lowercase tag) (written esc tag attrs)
      (holding b g part area diska rc (Suc depth) True) = Inr s"
  shows "handle_event ctx (StartEvent (written esc tag attrs)) (holding b g part area diska rc depth True) =
    Inr (clear_text s)"
proof -
  have "(holding b g part area diska rc depth True)\<lparr>lq_depth := lq_depth (holding b g part area diska rc depth True) + 1\<rparr> =
      holding b g part area diska rc (Suc depth) True"
    by (simp add: holding_def)
  moreover have "lq_depth (holding b g part area diska rc (Suc depth) True) = Suc depth" by (simp add: holding_def)
  ultimately show ?thesis using assms by (simp add: handle_event_def start_element_def Let_def)
qed

lemma nested_end:
  "handle_event ctx (EndEvent (Inr tag) position) (holding b g part area diska rc (Suc depth) inside_game) =
   Inr (clear_text (end_tag (lx_limits ctx) (to_ascii_lowercase tag) (holding b g part area diska rc depth inside_game)))"
proof -
  have "(holding b g part area diska rc (Suc depth) inside_game)
        \<lparr>lq_depth := lq_depth (holding b g part area diska rc (Suc depth) inside_game) - 1\<rparr> =
      holding b g part area diska rc depth inside_game"
    by (simp add: holding_def)
  then show ?thesis by (simp add: handle_event_def end_element_def Let_def)
qed

lemma clear_held_text [simp]: "clear_text (holding b g part area diska rc depth ig) = holding b g part area diska rc depth ig"
  by (simp add: clear_text_def holding_def)

lemma held_structure [simp]:
  "lq_in_game (holding b g part area diska rc depth ig) = ig"
  "lq_part (holding b g part area diska rc depth ig) = part"
  "lq_data_area (holding b g part area diska rc depth ig) = area"
  "lq_disk_area (holding b g part area diska rc depth ig) = diska"
  "lq_depth (holding b g part area diska rc depth ig) = depth"
  by (simp_all add: holding_def)

lemma data_area_read:
  assumes "undoes (lx_library ctx) esc" and "da_name a \<noteq> Some []"
    and "list_all (writable_rom (lx_limits ctx)) (da_roms a)"
    and "rc + length (da_roms a) \<le> max_roms_per_entry (lx_limits ctx)" and "4 \<le> max_xml_depth (lx_limits ctx)"
  shows "runs ctx (data_area_events esc a) (holding b g (Some p) None None rc 3 True)
    (holding b g (Some (p\<lparr>dp_data_areas := dp_data_areas p @ [a]\<rparr>)) None None (rc + length (da_roms a)) 3 True)"
  unfolding data_area_events_def
proof (intro runs_append)
  let ?a = "\<lambda>rs. a\<lparr>da_roms := rs\<rparr>"
  have opened: "start_tag (lx_library ctx) (lx_limits ctx) (to_ascii_lowercase ''dataarea'')
      (written esc ''dataarea'' (optional_pair ''name'' (da_name a))) (holding b g (Some p) None None rc (Suc 3) True) =
      Inr (holding b g (Some p) (Some (?a [])) None rc (Suc 3) True)"
    by (simp add: start_tag_def game_tags_def tags_lower start_data_area_def name_read [OF assms(1,2)])
      (cases a; simp add: holding_def)
  have start: "handle_event ctx (StartEvent (written esc ''dataarea'' (optional_pair ''name'' (da_name a))))
      (holding b g (Some p) None None rc 3 True) = Inr (holding b g (Some p) (Some (?a [])) None rc (Suc 3) True)"
    using nested_start [OF _ opened] assms(5) by simp
  show "runs ctx [StartEvent (written esc ''dataarea'' (optional_pair ''name'' (da_name a)))]
      (holding b g (Some p) None None rc 3 True) (holding b g (Some p) (Some (?a [])) None rc (Suc 3) True)"
    using start by (rule runs_single) simp
  have "runs ctx (map (rom_event esc) (da_roms a))
      ((\<lambda>rs. holding b g (Some p) (Some (?a rs)) None (rc + length rs) (Suc 3) True) [])
      ((\<lambda>rs. holding b g (Some p) (Some (?a rs)) None (rc + length rs) (Suc 3) True) (da_roms a))"
  proof (rule runs_each)
    fix ys x zs
    assume eq: "da_roms a = ys @ x # zs"
    have "writable_rom (lx_limits ctx) x" using assms(3) eq by simp
    moreover have "rc + length ys < max_roms_per_entry (lx_limits ctx)" using assms(4) eq by simp
    ultimately show "handle_event ctx (rom_event esc x) (holding b g (Some p) (Some (?a ys)) None (rc + length ys) (Suc 3) True) =
        Inr (holding b g (Some p) (Some (?a (ys @ [x]))) None (rc + length (ys @ [x])) (Suc 3) True) \<and>
        \<not> stops (rom_event esc x) (holding b g (Some p) (Some (?a ys)) None (rc + length ys) (Suc 3) True)"
      using rom_event_read(2) [OF assms(1)] by (simp add: rom_event_def)
  qed
  then show "runs ctx (map (rom_event esc) (da_roms a)) (holding b g (Some p) (Some (?a [])) None rc (Suc 3) True)
      (holding b g (Some p) (Some a) None (rc + length (da_roms a)) (Suc 3) True)"
    by simp
  show "runs ctx [EndEvent (Inr ''dataarea'') 0] (holding b g (Some p) (Some a) None (rc + length (da_roms a)) (Suc 3) True)
      (holding b g (Some (p\<lparr>dp_data_areas := dp_data_areas p @ [a]\<rparr>)) None None (rc + length (da_roms a)) 3 True)"
  proof (rule runs_single)
    show "handle_event ctx (EndEvent (Inr ''dataarea'') 0)
        (holding b g (Some p) (Some a) None (rc + length (da_roms a)) (Suc 3) True) =
      Inr (holding b g (Some (p\<lparr>dp_data_areas := dp_data_areas p @ [a]\<rparr>)) None None (rc + length (da_roms a)) 3 True)"
      unfolding nested_end
      by (simp add: end_tag_def tags_lower metadata_attributes_def end_data_area_def close_data_area_def)
        (simp add: holding_def clear_text_def)
  qed simp
qed

lemma disk_area_read:
  assumes "undoes (lx_library ctx) esc" and "dk_name a \<noteq> Some []"
    and "list_all writable_disk (dk_disks a)" and "4 \<le> max_xml_depth (lx_limits ctx)"
  shows "runs ctx (disk_area_events esc a) (holding b g (Some p) None None rc 3 True)
    (holding b g (Some (p\<lparr>dp_disk_areas := dp_disk_areas p @ [a]\<rparr>)) None None rc 3 True)"
  unfolding disk_area_events_def
proof (intro runs_append)
  let ?a = "\<lambda>ds. a\<lparr>dk_disks := ds\<rparr>"
  have opened: "start_tag (lx_library ctx) (lx_limits ctx) (to_ascii_lowercase ''diskarea'')
      (written esc ''diskarea'' (optional_pair ''name'' (dk_name a))) (holding b g (Some p) None None rc (Suc 3) True) =
      Inr (holding b g (Some p) None (Some (?a [])) rc (Suc 3) True)"
    by (simp add: start_tag_def game_tags_def tags_lower start_disk_area_def name_read [OF assms(1,2)])
      (cases a; simp add: holding_def)
  have start: "handle_event ctx (StartEvent (written esc ''diskarea'' (optional_pair ''name'' (dk_name a))))
      (holding b g (Some p) None None rc 3 True) = Inr (holding b g (Some p) None (Some (?a [])) rc (Suc 3) True)"
    using nested_start [OF _ opened] assms(4) by simp
  show "runs ctx [StartEvent (written esc ''diskarea'' (optional_pair ''name'' (dk_name a)))]
      (holding b g (Some p) None None rc 3 True) (holding b g (Some p) None (Some (?a [])) rc (Suc 3) True)"
    using start by (rule runs_single) simp
  have "runs ctx (map (disk_event esc) (dk_disks a))
      ((\<lambda>ds. holding b g (Some p) None (Some (?a ds)) rc (Suc 3) True) [])
      ((\<lambda>ds. holding b g (Some p) None (Some (?a ds)) rc (Suc 3) True) (dk_disks a))"
    by (rule runs_each) (use assms(3) disk_event_read(2) [OF assms(1)] in \<open>simp add: disk_event_def\<close>)
  then show "runs ctx (map (disk_event esc) (dk_disks a)) (holding b g (Some p) None (Some (?a [])) rc (Suc 3) True)
      (holding b g (Some p) None (Some a) rc (Suc 3) True)"
    by simp
  show "runs ctx [EndEvent (Inr ''diskarea'') 0] (holding b g (Some p) None (Some a) rc (Suc 3) True)
      (holding b g (Some (p\<lparr>dp_disk_areas := dp_disk_areas p @ [a]\<rparr>)) None None rc 3 True)"
  proof (rule runs_single)
    show "handle_event ctx (EndEvent (Inr ''diskarea'') 0) (holding b g (Some p) None (Some a) rc (Suc 3) True) =
      Inr (holding b g (Some (p\<lparr>dp_disk_areas := dp_disk_areas p @ [a]\<rparr>)) None None rc 3 True)"
      unfolding nested_end
      by (simp add: end_tag_def tags_lower metadata_attributes_def end_disk_area_def close_disk_area_def)
        (simp add: holding_def clear_text_def)
  qed simp
qed

lemma part_events_read:
  assumes lib: "undoes (lx_library ctx) esc" and p: "writable_part (lx_limits ctx) p"
    and count: "rc + length (part_roms p) \<le> max_roms_per_entry (lx_limits ctx)"
    and depth: "4 \<le> max_xml_depth (lx_limits ctx)"
  shows "runs ctx (part_events esc p) (holding b g None None None rc 2 True)
    (holding b (g\<lparr>dg_parts := dg_parts g @ [p]\<rparr>) None None None (rc + length (part_roms p)) 2 True)"
  unfolding part_events_def
proof (intro runs_append)
  let ?p = "\<lambda>das dks. p\<lparr>dp_disk_areas := dks, dp_data_areas := das\<rparr>"
  let ?rc = "\<lambda>das. rc + length (concat (map da_roms das))"
  have vals: "nonempty_values (part_attributes p)" using p by (simp add: writable_part_def)
  have opened: "start_tag (lx_library ctx) (lx_limits ctx) (to_ascii_lowercase ''part'')
      (written esc ''part'' (part_attributes p)) (holding b g None None None rc (Suc 2) True) =
      Inr (holding b g (Some (?p [] [])) None None rc (Suc 2) True)"
    by (simp add: start_tag_def game_tags_def tags_lower start_part_def part_read [OF lib vals])
      (cases p; simp add: holding_def)
  have start: "handle_event ctx (StartEvent (written esc ''part'' (part_attributes p)))
      (holding b g None None None rc 2 True) = Inr (holding b g (Some (?p [] [])) None None rc 3 True)"
    using nested_start [OF _ opened] depth by simp
  show "runs ctx [StartEvent (written esc ''part'' (part_attributes p))] (holding b g None None None rc 2 True)
      (holding b g (Some (?p [] [])) None None rc 3 True)"
    using start by (rule runs_single) simp
  have "runs ctx (concat (map (data_area_events esc) (dp_data_areas p)))
      ((\<lambda>das. holding b g (Some (?p das [])) None None (?rc das) 3 True) [])
      ((\<lambda>das. holding b g (Some (?p das [])) None None (?rc das) 3 True) (dp_data_areas p))"
  proof (rule runs_list)
    fix ys x zs
    assume eq: "dp_data_areas p = ys @ x # zs"
    have "?rc ys + length (da_roms x) \<le> max_roms_per_entry (lx_limits ctx)"
      using count by (simp add: part_roms_def eq)
    moreover have "da_name x \<noteq> Some []" "list_all (writable_rom (lx_limits ctx)) (da_roms x)"
      using p eq by (simp_all add: writable_part_def)
    ultimately show "runs ctx (data_area_events esc x) (holding b g (Some (?p ys [])) None None (?rc ys) 3 True)
        (holding b g (Some (?p (ys @ [x]) [])) None None (?rc (ys @ [x])) 3 True)"
      using data_area_read [OF lib, of x "?rc ys" b g "?p ys []"] depth by (simp add: add.assoc)
  qed
  then show "runs ctx (concat (map (data_area_events esc) (dp_data_areas p)))
      (holding b g (Some (?p [] [])) None None rc 3 True)
      (holding b g (Some (?p (dp_data_areas p) [])) None None (rc + length (part_roms p)) 3 True)"
    by (simp add: part_roms_def)
  have "runs ctx (concat (map (disk_area_events esc) (dp_disk_areas p)))
      ((\<lambda>dks. holding b g (Some (?p (dp_data_areas p) dks)) None None (rc + length (part_roms p)) 3 True) [])
      ((\<lambda>dks. holding b g (Some (?p (dp_data_areas p) dks)) None None (rc + length (part_roms p)) 3 True) (dp_disk_areas p))"
  proof (rule runs_list)
    fix ys x zs
    assume eq: "dp_disk_areas p = ys @ x # zs"
    then have "dk_name x \<noteq> Some []" "list_all writable_disk (dk_disks x)" using p by (simp_all add: writable_part_def)
    then show "runs ctx (disk_area_events esc x)
        (holding b g (Some (?p (dp_data_areas p) ys)) None None (rc + length (part_roms p)) 3 True)
        (holding b g (Some (?p (dp_data_areas p) (ys @ [x]))) None None (rc + length (part_roms p)) 3 True)"
      using disk_area_read [OF lib, of x b g "?p (dp_data_areas p) ys" "rc + length (part_roms p)"] depth by simp
  qed
  then show "runs ctx (concat (map (disk_area_events esc) (dp_disk_areas p)))
      (holding b g (Some (?p (dp_data_areas p) [])) None None (rc + length (part_roms p)) 3 True)
      (holding b g (Some p) None None (rc + length (part_roms p)) (Suc 2) True)"
    by simp
  show "runs ctx [EndEvent (Inr ''part'') 0] (holding b g (Some p) None None (rc + length (part_roms p)) (Suc 2) True)
      (holding b (g\<lparr>dg_parts := dg_parts g @ [p]\<rparr>) None None None (rc + length (part_roms p)) 2 True)"
  proof (rule runs_single)
    show "handle_event ctx (EndEvent (Inr ''part'') 0)
        (holding b g (Some p) None None (rc + length (part_roms p)) (Suc 2) True) =
      Inr (holding b (g\<lparr>dg_parts := dg_parts g @ [p]\<rparr>) None None None (rc + length (part_roms p)) 2 True)"
      unfolding nested_end
      by (simp add: end_tag_def tags_lower metadata_attributes_def end_part_def close_part_def)
        (simp add: holding_def clear_text_def)
  qed simp
qed

section \<open>A whole game\<close>

lemma literal_run_read:
  assumes "undoes (lx_library ctx) esc" and "list_all is_literal t" and "t \<noteq> []"
  shows "runs ctx [TextEvent (Inr t)] s (s\<lparr>lq_text := lq_text s @ t\<rparr>)"
proof (rule runs_single)
  have "CHR ''&'' \<notin> set t"
    using assms(2) by (auto simp: list_all_iff is_literal_def reference_of_def)
  then show "handle_event ctx (TextEvent (Inr t)) s = Inr (s\<lparr>lq_text := lq_text s @ t\<rparr>)"
    using assms(1) by (simp add: handle_event_def text_event_def undoes_def push_text_def)
qed simp

lemma reference_read:
  assumes "undoes (lx_library ctx) esc" and "\<not> is_literal c"
  shows "runs ctx [RefEvent (Inr (the (reference_of c))) None] s (s\<lparr>lq_text := lq_text s @ [c]\<rparr>)"
proof (rule runs_single)
  obtain n where n: "reference_of c = Some n" using assms(2) by (auto simp: is_literal_def)
  moreover have "xl_predefined (lx_library ctx) n = Some [c]" using assms(1) n by (auto simp: undoes_def)
  ultimately show "handle_event ctx (RefEvent (Inr (the (reference_of c))) None) s =
      Inr (s\<lparr>lq_text := lq_text s @ [c]\<rparr>)"
    by (simp add: handle_event_def reference_event_def push_text_def)
qed simp

text \<open>The pieces add up to the text they were made from.\<close>

lemma text_events_read:
  assumes lib: "undoes (lx_library ctx) esc"
  shows "runs ctx (text_events t) s (s\<lparr>lq_text := lq_text s @ t\<rparr>)"
proof (induction t arbitrary: s rule: text_events.induct)
  case (1 t)
  let ?run = "takeWhile is_literal t"
  let ?s1 = "s\<lparr>lq_text := lq_text s @ ?run\<rparr>"
  have "list_all is_literal ?run" by (auto simp: list_all_iff dest: set_takeWhileD)
  then have run: "runs ctx (if ?run = [] then [] else [TextEvent (Inr ?run)]) s ?s1"
    using literal_run_read [OF lib, of ?run s] by (auto simp: runs_Nil)
  show ?case
  proof (cases "dropWhile is_literal t")
    case Nil
    then have "?run = t" using takeWhile_dropWhile_id [of is_literal t] by simp
    have "text_events t = (if ?run = [] then [] else [TextEvent (Inr ?run)])"
      by (subst text_events.simps) (simp only: Nil list.case append_Nil2)
    with run show ?thesis unfolding \<open>?run = t\<close> by metis
  next
    case (Cons c rest)
    let ?s2 = "?s1\<lparr>lq_text := lq_text ?s1 @ [c]\<rparr>"
    have c: "\<not> is_literal c" using Cons by (metis hd_dropWhile list.distinct(1) list.sel(1))
    have t: "t = ?run @ c # rest" using takeWhile_dropWhile_id [of is_literal t] Cons by simp
    have "runs ctx (text_events rest) ?s2 (?s2\<lparr>lq_text := lq_text ?s2 @ rest\<rparr>)" by (rule "1.IH" [OF Cons])
    from runs_append [OF run runs_append [OF reference_read [OF lib c] this]]
    have "runs ctx (text_events t) s (?s2\<lparr>lq_text := lq_text ?s2 @ rest\<rparr>)"
      using Cons by (subst text_events.simps) simp
    moreover have "?s2\<lparr>lq_text := lq_text ?s2 @ rest\<rparr> = s\<lparr>lq_text := lq_text s @ t\<rparr>"
      by (subst (3) t) simp
    ultimately show ?thesis by simp
  qed
qed

lemma text_read:
  assumes "undoes (lx_library ctx) esc" and "0 < lq_depth s" and "lq_text s = []"
    and "lq_depth s < max_xml_depth (lx_limits ctx)" and "to_ascii_lowercase tag = tag"
    and "start_tag (lx_library ctx) (lx_limits ctx) tag (written esc tag []) (s\<lparr>lq_depth := lq_depth s + 1\<rparr>) =
      Inr (s\<lparr>lq_depth := lq_depth s + 1\<rparr>)"
  shows "runs ctx (text_element esc tag v) s
    (case v of None \<Rightarrow> s | Some t \<Rightarrow> clear_text (end_tag (lx_limits ctx) tag (s\<lparr>lq_text := t\<rparr>)))"
proof (cases v)
  case None
  then show ?thesis by (simp add: text_element_def runs_Nil)
next
  case (Some t)
  let ?s1 = "s\<lparr>lq_depth := lq_depth s + 1\<rparr>"
  let ?s2 = "?s1\<lparr>lq_text := t\<rparr>"
  have same: "clear_text ?s1 = ?s1" using assms(3) by (cases s) (simp add: clear_text_def)
  have "handle_event ctx (StartEvent (written esc tag [])) s = Inr ?s1"
    using assms(4-6) same by (simp add: handle_event_def start_element_def Let_def)
  then have 1: "runs ctx [StartEvent (written esc tag [])] s ?s1" by (rule runs_single) simp
  have 2: "runs ctx (text_events t) ?s1 ?s2" using text_events_read [OF assms(1), of t ?s1] assms(3) by simp
  have "?s2\<lparr>lq_depth := lq_depth ?s2 - 1\<rparr> = s\<lparr>lq_text := t\<rparr>" by (cases s) simp
  then have "handle_event ctx (EndEvent (Inr tag) 0) ?s2 =
      Inr (clear_text (end_tag (lx_limits ctx) tag (s\<lparr>lq_text := t\<rparr>)))"
    using assms(5) by (simp add: handle_event_def end_element_def Let_def)
  then have 3: "runs ctx [EndEvent (Inr tag) 0] ?s2 (clear_text (end_tag (lx_limits ctx) tag (s\<lparr>lq_text := t\<rparr>)))"
    by (rule runs_single) simp
  show ?thesis using runs_append [OF 1 runs_append [OF 2 3]] Some by (simp add: text_element_def)
qed

definition bare :: "dat_game_entry \<Rightarrow> dat_game_entry" where
  "bare g =
     g\<lparr>dg_description := None, dg_device_refs := [], dg_samples := [], dg_bios_sets := [], dg_roms := [],
       dg_disks := [], dg_parts := []\<rparr>"

text \<open>The header is read and these games are emitted.\<close>

definition base :: "logiqx_heading \<Rightarrow> dat_game_entry list \<Rightarrow> logiqx_state" where
  "base h games =
     logiqx_start\<lparr>lq_name := lh_name h, lq_description := lh_description h, lq_version := lh_version h,
       lq_author := lh_author h, lq_homepage := lh_homepage h, lq_clrmamepro := lh_clrmamepro h,
       lq_games := games, lq_depth := 1\<rparr>"

lemma entry_from_bare: "(entry_from g)\<lparr>lg_desc := None\<rparr> = entry_from (bare g)"
  by (simp add: entry_from_def bare_def)

lemma held_entry:
  assumes "writable_game limits g"
  shows "entry_of (dg_name g) (holding b g None area diska rc depth ig) = g"
  using assms
  by (cases g) (simp add: entry_of_def holding_def entry_from_def writable_game_def Let_def)

lemma held_name [simp]: "lg_name (lq_entry (holding b g part area diska rc depth ig)) = Some (dg_name g)"
  by (simp add: holding_def entry_from_def)

text \<open>Before a game: nothing was read, or the previous game is still held.\<close>

definition waiting :: "logiqx_heading \<Rightarrow> dat_game_entry list \<Rightarrow> logiqx_state \<Rightarrow> bool" where
  "waiting h games s \<longleftrightarrow>
     (games = [] \<and> s = base h []) \<or>
     (\<exists>ys y rc. games = ys @ [y] \<and> s = holding (base h ys) y None None None rc 1 False)"

lemma finish_held:
  "finish_current_structure (holding b g None None None rc depth ig) = holding b g None None None rc depth ig"
  by (simp add: finish_current_structure_def close_part_def close_disk_area_def close_data_area_def close_disk_def)
    (simp add: holding_def)

lemma flushed:
  assumes "waiting h games s" and "list_all (writable_game limits) games"
  shows "lq_games (drop_current_game (finish_current_structure (s\<lparr>lq_in_game := True, lq_depth := 2\<rparr>))) = games \<and>
    open_entry (entry_from (bare g)) (drop_current_game (finish_current_structure (s\<lparr>lq_in_game := True, lq_depth := 2\<rparr>))) =
      holding (base h games) (bare g) None None None 0 2 True"
proof (cases "games = []")
  case True
  then have "s = base h []" using assms(1) by (simp add: waiting_def)
  then show ?thesis
    using True
    by (simp add: finish_current_structure_def close_part_def close_disk_area_def close_data_area_def
        close_disk_def drop_current_game_def no_members_def open_entry_def holding_def base_def
        logiqx_start_def no_entry_def bare_def)
next
  case False
  then obtain ys y rc where y: "games = ys @ [y]" "s = holding (base h ys) y None None None rc 1 False"
    using assms(1) by (auto simp: waiting_def)
  let ?t = "holding (base h ys) y None None None rc 2 True"
  have t: "s\<lparr>lq_in_game := True, lq_depth := 2\<rparr> = ?t" unfolding y(2) by (simp add: holding_def)
  have "writable_game limits y" using assms(2) y(1) by simp
  then have "entry_of (dg_name y) ?t = y" by (rule held_entry)
  then have "drop_current_game (finish_current_structure ?t) =
      no_members (?t\<lparr>lq_games := ys @ [y], lq_entry := no_entry\<rparr>)"
    unfolding finish_held by (simp add: drop_current_game_def close_part_def Let_def) (simp add: holding_def base_def)
  then show ?thesis
    unfolding t y(1)
    by (simp add: no_members_def open_entry_def) (simp add: holding_def base_def bare_def)
qed

lemma game_starts:
  assumes "undoes (lx_library ctx) esc" and "writable_game (lx_limits ctx) g"
    and "waiting h games s" and "list_all (writable_game (lx_limits ctx)) games"
    and "length games < max_entries (lx_limits ctx)" and "4 \<le> max_xml_depth (lx_limits ctx)"
  shows "runs ctx [StartEvent (written esc (game_tag g) (game_attributes g))] s
    (holding (base h games) (bare g) None None None 0 2 True)"
proof (rule runs_single)
  let ?s = "s\<lparr>lq_depth := 2\<rparr>"
  have depth: "lq_depth s = 1" using assms(3) by (auto simp: waiting_def base_def)
  have tag: "to_ascii_lowercase (game_tag g) = game_tag g" "game_tag g \<in> set game_tags"
    by (simp_all add: game_tag_def tags_lower game_tags_def)
  have flags: "?s\<lparr>lq_in_game := True\<rparr> = s\<lparr>lq_in_game := True, lq_depth := 2\<rparr>" by (cases s) simp
  note flush = flushed [OF assms(3,4), of g]
  have "start_game (lx_library ctx) (lx_limits ctx) (game_tag g) (written esc (game_tag g) (game_attributes g)) ?s =
      Inr (holding (base h games) (bare g) None None None 0 2 True)"
    unfolding start_game_def Let_def flags
    using assms(5) flush by (simp add: game_element_read [OF assms(1,2)] entry_from_bare)
  then have "start_tag (lx_library ctx) (lx_limits ctx) (game_tag g) (written esc (game_tag g) (game_attributes g)) ?s =
      Inr (holding (base h games) (bare g) None None None 0 2 True)"
    using tag(2) by (simp add: start_tag_def)
  moreover have "s\<lparr>lq_depth := lq_depth s + 1\<rparr> = ?s" "lq_depth ?s \<le> max_xml_depth (lx_limits ctx)"
    using depth assms(6) by simp_all
  ultimately show "handle_event ctx (StartEvent (written esc (game_tag g) (game_attributes g))) s =
      Inr (holding (base h games) (bare g) None None None 0 2 True)"
    unfolding handle_event_def start_element_def Let_def by (simp only: tag(1)) (simp add: tag(1))
qed simp

lemma description_read:
  assumes "undoes (lx_library ctx) esc" and "short_text (lx_limits ctx) v" and "v \<noteq> Some []"
    and "4 \<le> max_xml_depth (lx_limits ctx)" and "dg_description g = None"
  shows "runs ctx (text_element esc ''description'' v) (holding b g None None None 0 2 True)
    (holding b (g\<lparr>dg_description := v\<rparr>) None None None 0 2 True)"
proof -
  let ?s = "holding b g None None None 0 2 True"
  have "start_tag (lx_library ctx) (lx_limits ctx) ''description'' (written esc ''description'' [])
      (?s\<lparr>lq_depth := lq_depth ?s + 1\<rparr>) = Inr (?s\<lparr>lq_depth := lq_depth ?s + 1\<rparr>)"
    by (simp add: start_tag_def game_tags_def)
  moreover have "lq_text ?s = []" by (simp add: holding_def)
  ultimately have "runs ctx (text_element esc ''description'' v) ?s
      (case v of None \<Rightarrow> ?s | Some t \<Rightarrow> clear_text (end_tag (lx_limits ctx) ''description'' (?s\<lparr>lq_text := t\<rparr>)))"
    using assms(1,4) by (intro text_read) (simp_all add: tags_lower)
  moreover have "clear_text (end_tag (lx_limits ctx) ''description'' (?s\<lparr>lq_text := t\<rparr>)) =
      holding b (g\<lparr>dg_description := v\<rparr>) None None None 0 2 True" if "v = Some t" for t
  proof -
    have "trim t = t" "utf8_len t \<le> max_description_length (lx_limits ctx)" "t \<noteq> []"
      using assms(2,3) that by (simp_all add: short_text_def trimmed_text_def)
    then show ?thesis
      using that by (simp add: end_tag_def end_game_description_def Let_def)
        (simp add: clear_text_def holding_def entry_from_def)
  qed
  moreover have "g\<lparr>dg_description := None\<rparr> = g" using assms(5) by (cases g) simp
  ultimately show ?thesis by (cases v) simp_all
qed

lemma xml_game_read:
  assumes lib: "undoes (lx_library ctx) esc" and g: "writable_game (lx_limits ctx) g"
    and w: "waiting h games s" and games: "list_all (writable_game (lx_limits ctx)) games"
    and room: "length games < max_entries (lx_limits ctx)" and depth: "4 \<le> max_xml_depth (lx_limits ctx)"
  shows "runs ctx (game_events esc g) s
    (holding (base h games) g None None None (length (game_roms g)) 1 False)"
  unfolding game_events_def
proof (intro runs_append)
  let ?b = "base h games"
  let ?g1 = "(bare g)\<lparr>dg_description := dg_description g\<rparr>"
  let ?g2 = "?g1\<lparr>dg_device_refs := dg_device_refs g\<rparr>"
  let ?g3 = "?g2\<lparr>dg_samples := dg_samples g\<rparr>"
  let ?g4 = "?g3\<lparr>dg_bios_sets := dg_bios_sets g\<rparr>"
  let ?g5 = "?g4\<lparr>dg_roms := dg_roms g\<rparr>"
  let ?g6 = "?g5\<lparr>dg_disks := dg_disks g\<rparr>"
  let ?at = "\<lambda>g rc. holding ?b g None None None rc 2 True"
  have ok: "list_all (\<lambda>d. dv_name d \<noteq> Some []) (dg_device_refs g)" "list_all (\<lambda>s. dsm_name s \<noteq> Some []) (dg_samples g)"
    "list_all (\<lambda>b. nonempty_values (bios_attributes b)) (dg_bios_sets g)"
    "list_all (writable_rom (lx_limits ctx)) (dg_roms g)" "list_all writable_disk (dg_disks g)"
    "list_all (writable_part (lx_limits ctx)) (dg_parts g)"
    "length (game_roms g) \<le> max_roms_per_entry (lx_limits ctx)"
    "short_text (lx_limits ctx) (dg_description g)" "dg_description g \<noteq> Some []"
    using g by (simp_all add: writable_game_def)
  have unread: "?g1\<lparr>dg_device_refs := []\<rparr> = ?g1" "?g2\<lparr>dg_samples := []\<rparr> = ?g2" "?g3\<lparr>dg_bios_sets := []\<rparr> = ?g3"
    "?g4\<lparr>dg_roms := []\<rparr> = ?g4" "?g5\<lparr>dg_disks := []\<rparr> = ?g5"
    by (cases g; simp add: bare_def)+
  show "runs ctx [StartEvent (written esc (game_tag g) (game_attributes g))] s (?at (bare g) 0)"
    by (rule game_starts [OF lib g w games room depth])
  show "runs ctx (text_element esc ''description'' (dg_description g)) (?at (bare g) 0) (?at ?g1 0)"
    by (rule description_read [OF lib ok(8,9) depth]) (simp add: bare_def)
  have "runs ctx (map (\<lambda>d. EmptyEvent (written esc ''device_ref'' (optional_pair ''name'' (dv_name d)))) (dg_device_refs g))
      ((\<lambda>vs. ?at (?g1\<lparr>dg_device_refs := vs\<rparr>) 0) []) ((\<lambda>vs. ?at (?g1\<lparr>dg_device_refs := vs\<rparr>) 0) (dg_device_refs g))"
    by (rule runs_each) (use ok(1) small_events_read(1) [OF lib] in simp)
  then show "runs ctx (map (\<lambda>d. EmptyEvent (written esc ''device_ref'' (optional_pair ''name'' (dv_name d)))) (dg_device_refs g))
      (?at ?g1 0) (?at ?g2 0)"
    by (simp add: unread)
  have "runs ctx (map (\<lambda>s. EmptyEvent (written esc ''sample'' (optional_pair ''name'' (dsm_name s)))) (dg_samples g))
      ((\<lambda>vs. ?at (?g2\<lparr>dg_samples := vs\<rparr>) 0) []) ((\<lambda>vs. ?at (?g2\<lparr>dg_samples := vs\<rparr>) 0) (dg_samples g))"
    by (rule runs_each) (use ok(2) small_events_read(2) [OF lib] in simp)
  then show "runs ctx (map (\<lambda>s. EmptyEvent (written esc ''sample'' (optional_pair ''name'' (dsm_name s)))) (dg_samples g))
      (?at ?g2 0) (?at ?g3 0)"
    by (simp add: unread)
  have "runs ctx (map (\<lambda>b. EmptyEvent (written esc ''biosset'' (bios_attributes b))) (dg_bios_sets g))
      ((\<lambda>vs. ?at (?g3\<lparr>dg_bios_sets := vs\<rparr>) 0) []) ((\<lambda>vs. ?at (?g3\<lparr>dg_bios_sets := vs\<rparr>) 0) (dg_bios_sets g))"
    by (rule runs_each) (use ok(3) small_events_read(3) [OF lib] in simp)
  then show "runs ctx (map (\<lambda>b. EmptyEvent (written esc ''biosset'' (bios_attributes b))) (dg_bios_sets g))
      (?at ?g3 0) (?at ?g4 0)"
    by (simp add: unread)
  have "runs ctx (map (rom_event esc) (dg_roms g))
      ((\<lambda>rs. ?at (?g4\<lparr>dg_roms := rs\<rparr>) (length rs)) []) ((\<lambda>rs. ?at (?g4\<lparr>dg_roms := rs\<rparr>) (length rs)) (dg_roms g))"
  proof (rule runs_each)
    fix ys x zs
    assume eq: "dg_roms g = ys @ x # zs"
    then have "length ys < max_roms_per_entry (lx_limits ctx)" using ok(7) by (simp add: game_roms_def)
    then show "handle_event ctx (rom_event esc x) (?at (?g4\<lparr>dg_roms := ys\<rparr>) (length ys)) =
        Inr (?at (?g4\<lparr>dg_roms := ys @ [x]\<rparr>) (length (ys @ [x]))) \<and>
        \<not> stops (rom_event esc x) (?at (?g4\<lparr>dg_roms := ys\<rparr>) (length ys))"
      using ok(4) eq rom_event_read(1) [OF lib] by (simp add: rom_event_def)
  qed
  then show "runs ctx (map (rom_event esc) (dg_roms g)) (?at ?g4 0) (?at ?g5 (length (dg_roms g)))"
    by (simp add: unread)
  have "runs ctx (map (disk_event esc) (dg_disks g))
      ((\<lambda>ds. ?at (?g5\<lparr>dg_disks := ds\<rparr>) (length (dg_roms g))) [])
      ((\<lambda>ds. ?at (?g5\<lparr>dg_disks := ds\<rparr>) (length (dg_roms g))) (dg_disks g))"
    by (rule runs_each) (use ok(5) disk_event_read(1) [OF lib] in \<open>simp add: disk_event_def\<close>)
  then show "runs ctx (map (disk_event esc) (dg_disks g)) (?at ?g5 (length (dg_roms g))) (?at ?g6 (length (dg_roms g)))"
    by (simp add: unread)
  let ?rc = "\<lambda>ps. length (dg_roms g) + length (concat (map part_roms ps))"
  have "runs ctx (concat (map (part_events esc) (dg_parts g)))
      ((\<lambda>ps. ?at (?g6\<lparr>dg_parts := ps\<rparr>) (?rc ps)) []) ((\<lambda>ps. ?at (?g6\<lparr>dg_parts := ps\<rparr>) (?rc ps)) (dg_parts g))"
  proof (rule runs_list)
    fix ys x zs
    assume eq: "dg_parts g = ys @ x # zs"
    then have "?rc ys + length (part_roms x) \<le> max_roms_per_entry (lx_limits ctx)"
      using ok(7) by (simp add: game_roms_def)
    moreover have "writable_part (lx_limits ctx) x" using ok(6) eq by simp
    ultimately show "runs ctx (part_events esc x) (?at (?g6\<lparr>dg_parts := ys\<rparr>) (?rc ys))
        (?at (?g6\<lparr>dg_parts := ys @ [x]\<rparr>) (?rc (ys @ [x])))"
      using part_events_read [OF lib, of x "?rc ys" ?b "?g6\<lparr>dg_parts := ys\<rparr>"] depth by (simp add: add.assoc)
  qed
  moreover have "?g6\<lparr>dg_parts := dg_parts g\<rparr> = g" "?g6\<lparr>dg_parts := []\<rparr> = ?g6"
    by (cases g; simp add: bare_def)+
  ultimately show "runs ctx (concat (map (part_events esc) (dg_parts g))) (?at ?g6 (length (dg_roms g)))
      (holding ?b g None None None (length (game_roms g)) (Suc 1) True)"
    by (simp add: game_roms_def numeral_2_eq_2)
  show "runs ctx [EndEvent (Inr (game_tag g)) 0] (holding ?b g None None None (length (game_roms g)) (Suc 1) True)
      (holding ?b g None None None (length (game_roms g)) 1 False)"
  proof (rule runs_single)
    show "handle_event ctx (EndEvent (Inr (game_tag g)) 0) (holding ?b g None None None (length (game_roms g)) (Suc 1) True) =
        Inr (holding ?b g None None None (length (game_roms g)) 1 False)"
      unfolding nested_end
      by (simp add: end_tag_def tags_lower metadata_attributes_def game_tags_def game_tag_def)
        (simp add: holding_def clear_text_def)
  qed simp
qed

lemma xml_games_read:
  assumes "undoes (lx_library ctx) esc" and "list_all (writable_game (lx_limits ctx)) games"
    and "length games \<le> max_entries (lx_limits ctx)" and "4 \<le> max_xml_depth (lx_limits ctx)"
  shows "\<exists>s. waiting h games s \<and> runs ctx (concat (map (game_events esc) games)) (base h []) s"
  using assms(2,3)
proof (induction games rule: rev_induct)
  case Nil
  then show ?case by (auto simp: waiting_def runs_Nil)
next
  case (snoc g games)
  then obtain s where s: "waiting h games s" "runs ctx (concat (map (game_events esc) games)) (base h []) s"
    by auto
  have "runs ctx (game_events esc g) s (holding (base h games) g None None None (length (game_roms g)) 1 False)"
    using snoc.prems by (intro xml_game_read [OF assms(1) _ s(1) _ _ assms(4)]) simp_all
  moreover have "waiting h (games @ [g]) (holding (base h games) g None None None (length (game_roms g)) 1 False)"
    by (auto simp: waiting_def)
  ultimately show ?case using runs_append [OF s(2)] by fastforce
qed

section \<open>The heading\<close>

text \<open>Inside the header element.\<close>

definition in_heading ::
    "string option \<Rightarrow> string option \<Rightarrow> string option \<Rightarrow> string option \<Rightarrow> string option \<Rightarrow> string option \<Rightarrow> logiqx_state"
where
  "in_heading n d v a p c =
     logiqx_start\<lparr>lq_name := n, lq_description := d, lq_version := v, lq_author := a, lq_homepage := p,
       lq_clrmamepro := c, lq_depth := 2\<rparr>"

lemma heading_text_read:
  assumes "undoes (lx_library ctx) esc" and "4 \<le> max_xml_depth (lx_limits ctx)"
    and "to_ascii_lowercase tag = tag" and "tag \<notin> set game_tags"
  shows "runs ctx (text_element esc tag x) (in_heading n d v a p c)
    (case x of None \<Rightarrow> in_heading n d v a p c
     | Some t \<Rightarrow> clear_text (end_tag (lx_limits ctx) tag ((in_heading n d v a p c)\<lparr>lq_text := t\<rparr>)))"
  using assms
  by (intro text_read) (simp_all add: in_heading_def logiqx_start_def start_tag_def)

lemma heading_tags:
  "''name'' \<notin> set game_tags" "''description'' \<notin> set game_tags" "''version'' \<notin> set game_tags"
  "''author'' \<notin> set game_tags" "''homepage'' \<notin> set game_tags" "''clrmamepro'' \<notin> set game_tags"
  by (simp_all add: game_tags_def)

lemma heading_ends:
  assumes "trim t = t"
  shows "clear_text (end_tag limits ''name'' ((in_heading n d v a p c)\<lparr>lq_text := t\<rparr>)) = in_heading (Some t) d v a p c"
    and "clear_text (end_tag limits ''version'' ((in_heading n d v a p c)\<lparr>lq_text := t\<rparr>)) = in_heading n d (Some t) a p c"
    and "clear_text (end_tag limits ''author'' ((in_heading n d v a p c)\<lparr>lq_text := t\<rparr>)) = in_heading n d v (Some t) p c"
    and "clear_text (end_tag limits ''homepage'' ((in_heading n d v a p c)\<lparr>lq_text := t\<rparr>)) = in_heading n d v a (Some t) c"
    and "clear_text (end_tag limits ''clrmamepro'' ((in_heading n d v a p c)\<lparr>lq_text := t\<rparr>)) = in_heading n d v a p (Some t)"
    and "utf8_len t \<le> max_description_length limits \<Longrightarrow>
      clear_text (end_tag limits ''description'' ((in_heading n d v a p c)\<lparr>lq_text := t\<rparr>)) = in_heading n (Some t) v a p c"
  using assms
  by (simp_all add: end_tag_def in_heading_def logiqx_start_def clear_text_def end_header_description_def)

lemma xml_heading_read:
  assumes lib: "undoes (lx_library ctx) esc" and depth: "4 \<le> max_xml_depth (lx_limits ctx)"
    and h: "writable_heading (lx_limits ctx) h"
  shows "runs ctx ([DeclEvent, StartEvent (written esc ''datafile'' [])] @ heading_events esc h) logiqx_start (base h [])"
proof -
  note texts = heading_text_read [OF lib depth]
  let ?e = "\<lambda>tag x. text_element esc tag x"
  have n: "runs ctx (?e ''name'' (lh_name h)) (in_heading None None None None None None)
      (in_heading (lh_name h) None None None None None)"
    using texts [of "''name''" "lh_name h" None None None None None None] h heading_ends(1) heading_tags
    by (cases "lh_name h") (simp_all add: tags_lower writable_heading_def trimmed_text_def)
  have d: "runs ctx (?e ''description'' (lh_description h)) (in_heading n None None None None None)
      (in_heading n (lh_description h) None None None None)" for n
    using texts [of "''description''" "lh_description h" n None None None None None] h heading_ends(6) heading_tags
    by (cases "lh_description h") (simp_all add: tags_lower writable_heading_def short_text_def trimmed_text_def)
  have v: "runs ctx (?e ''version'' (lh_version h)) (in_heading n d None None None None)
      (in_heading n d (lh_version h) None None None)" for n d
    using texts [of "''version''" "lh_version h" n d None None None None] h heading_ends(2) heading_tags
    by (cases "lh_version h") (simp_all add: tags_lower writable_heading_def trimmed_text_def)
  have a: "runs ctx (?e ''author'' (lh_author h)) (in_heading n d v None None None)
      (in_heading n d v (lh_author h) None None)" for n d v
    using texts [of "''author''" "lh_author h" n d v None None None] h heading_ends(3) heading_tags
    by (cases "lh_author h") (simp_all add: tags_lower writable_heading_def trimmed_text_def)
  have p: "runs ctx (?e ''homepage'' (lh_homepage h)) (in_heading n d v a None None)
      (in_heading n d v a (lh_homepage h) None)" for n d v a
    using texts [of "''homepage''" "lh_homepage h" n d v a None None] h heading_ends(4) heading_tags
    by (cases "lh_homepage h") (simp_all add: tags_lower writable_heading_def trimmed_text_def)
  have c: "runs ctx (?e ''clrmamepro'' (lh_clrmamepro h)) (in_heading n d v a p None)
      (in_heading n d v a p (lh_clrmamepro h))" for n d v a p
    using texts [of "''clrmamepro''" "lh_clrmamepro h" n d v a p None] h heading_ends(5) heading_tags
    by (cases "lh_clrmamepro h") (simp_all add: tags_lower writable_heading_def trimmed_text_def)
  have decl: "runs ctx [DeclEvent] logiqx_start logiqx_start"
    by (rule runs_single) (simp_all add: handle_event_def)
  have datafile: "runs ctx [StartEvent (written esc ''datafile'' [])] logiqx_start (logiqx_start\<lparr>lq_depth := 1\<rparr>)"
    by (rule runs_single)
      (use depth in \<open>simp_all add: handle_event_def start_element_def start_tag_def game_tags_def tags_lower
         clear_text_def logiqx_start_def\<close>)
  have header: "runs ctx [StartEvent (written esc ''header'' [])] (logiqx_start\<lparr>lq_depth := 1\<rparr>)
      (in_heading None None None None None None)"
    by (rule runs_single)
      (use depth in \<open>simp_all add: handle_event_def start_element_def start_tag_def game_tags_def tags_lower
         clear_text_def logiqx_start_def in_heading_def\<close>)
  have final: "runs ctx [EndEvent (Inr ''header'') 0]
      (in_heading (lh_name h) (lh_description h) (lh_version h) (lh_author h) (lh_homepage h) (lh_clrmamepro h)) (base h [])"
    by (rule runs_single)
      (simp_all add: handle_event_def end_element_def end_tag_def game_tags_def tags_lower metadata_attributes_def
         clear_text_def logiqx_start_def in_heading_def base_def)
  note fields = runs_append [OF n runs_append [OF d runs_append [OF v runs_append [OF a runs_append [OF p runs_append [OF c final]]]]]]
  show ?thesis
    using runs_append [OF decl runs_append [OF datafile runs_append [OF header fields]]]
    by (simp add: heading_events_def)
qed

section \<open>What is written is read back\<close>

definition written_source :: "path \<Rightarrow> logiqx_heading \<Rightarrow> dat_game_entry list \<Rightarrow> dat_source" where
  "written_source p h games =
     \<lparr> ds_format = dat_format.Logiqx, ds_ecosystem = detect_logiqx_ecosystem (lh_name h) (lh_author h),
       ds_file_path = path_text p, ds_name = lh_name h, ds_description = lh_description h,
       ds_version = lh_version h, ds_author = lh_author h, ds_homepage = lh_homepage h,
       ds_clrmamepro_header = lh_clrmamepro h, ds_entry_count = length games,
       ds_rom_count = sum_list (map game_rom_count games), ds_parse_warnings = [] \<rparr>"

lemma document_ends:
  assumes "waiting h games s" and "list_all (writable_game limits) games"
  shows "logiqx_outcome p (drop_current_game (finish_current_structure (s\<lparr>lq_depth := 0\<rparr>))) =
    \<lparr> po_dat = \<lparr> pd_source = written_source p h games, pd_games = games \<rparr>, po_warnings = [] \<rparr>"
proof (cases "games = []")
  case True
  then have "s = base h []" using assms(1) by (simp add: waiting_def)
  then show ?thesis
    using True
    by (simp add: finish_current_structure_def close_part_def close_disk_area_def close_data_area_def
        close_disk_def drop_current_game_def no_members_def base_def logiqx_start_def no_entry_def
        logiqx_outcome_def written_source_def)
next
  case False
  then obtain ys y rc where y: "games = ys @ [y]" "s = holding (base h ys) y None None None rc 1 False"
    using assms(1) by (auto simp: waiting_def)
  let ?t = "holding (base h ys) y None None None rc 0 False"
  have t: "s\<lparr>lq_depth := 0\<rparr> = ?t" unfolding y(2) by (simp add: holding_def)
  have "writable_game limits y" using assms(2) y(1) by simp
  then have "entry_of (dg_name y) ?t = y" by (rule held_entry)
  then have "drop_current_game (finish_current_structure ?t) =
      no_members (?t\<lparr>lq_games := ys @ [y], lq_entry := no_entry\<rparr>)"
    unfolding finish_held by (simp add: drop_current_game_def close_part_def Let_def) (simp add: holding_def base_def)
  then show ?thesis
    unfolding t y(1)
    by (simp add: no_members_def logiqx_outcome_def written_source_def game_rom_count_def)
      (simp add: holding_def base_def logiqx_start_def game_rom_count_def [abs_def])
qed

lemma document_read:
  assumes lib: "undoes (lx_library ctx) esc" and h: "writable_heading (lx_limits ctx) h"
    and games: "list_all (writable_game (lx_limits ctx)) games"
    and room: "length games \<le> max_entries (lx_limits ctx)" and depth: "4 \<le> max_xml_depth (lx_limits ctx)"
  shows "parse_document ctx p (document_events esc h games) =
    Inr \<lparr> po_dat = \<lparr> pd_source = written_source p h games, pd_games = games \<rparr>, po_warnings = [] \<rparr>"
proof -
  obtain s where s: "waiting h games s" "runs ctx (concat (map (game_events esc) games)) (base h []) s"
    using xml_games_read [OF lib games room depth] by blast
  have open1: "lq_depth s = 1" "\<not> lq_in_game s" "lq_text s = []"
    using s(1) by (auto simp: waiting_def base_def logiqx_start_def) (simp add: holding_def)
  then have closed: "clear_text (s\<lparr>lq_depth := 0\<rparr>) = s\<lparr>lq_depth := 0\<rparr>" by (cases s) (simp add: clear_text_def)
  have "handle_event ctx (EndEvent (Inr ''datafile'') 0) s = Inr (s\<lparr>lq_depth := 0\<rparr>)"
    using open1 closed
    by (simp add: handle_event_def end_element_def end_tag_def game_tags_def tags_lower metadata_attributes_def)
  then have "runs ctx [EndEvent (Inr ''datafile'') 0] s (s\<lparr>lq_depth := 0\<rparr>)"
    using open1(1) by (intro runs_single) simp_all
  then have "runs ctx (document_events esc h games) logiqx_start (s\<lparr>lq_depth := 0\<rparr>)"
    using runs_append [OF xml_heading_read [OF lib depth h] runs_append [OF s(2)]] by (simp add: document_events_def)
  then have "parse_events ctx (document_events esc h games @ []) logiqx_start = parse_events ctx [] (s\<lparr>lq_depth := 0\<rparr>)"
    unfolding runs_def by blast
  then have "parse_events ctx (document_events esc h games) logiqx_start = Inr (s\<lparr>lq_depth := 0\<rparr>)"
    by (simp add: end_of_file_def)
  then show ?thesis by (simp add: parse_document_def document_ends [OF s(1) games])
qed

text \<open>
  C32: A Logiqx document whose entries stay within the ceilings is read back exactly. For a
  header and a list of games written as the elements of the format - attributes for the
  fields, an element for the description, self-closing roms, disks, devices, samples and BIOS
  sets, parts with their data and disk areas - the parser returns those games in order with
  every field, rom, disk and area in place, the header fields and the counts, and no
  diagnostic. The XML library is asked for one thing: that resolving the entities of escaped
  text gives the text.
\<close>

theorem logiqx_round_trip:
  assumes "pe_metadata env p = Inr (is_file, bytes)" and "bytes \<le> max_file_size limits"
    and "le_open lenv p = Inr (document_events esc h games)" and "undoes (le_library lenv) esc"
    and "writable_heading limits h" and "list_all (writable_game limits) games"
    and "length games \<le> max_entries limits" and "4 \<le> max_xml_depth limits"
  shows "parse_logiqx env lenv p limits =
    Inr \<lparr> po_dat = \<lparr> pd_source = written_source p h games, pd_games = games \<rparr>, po_warnings = [] \<rparr>"
proof -
  let ?ctx = "\<lparr> lx_library = le_library lenv,
    lx_doctype = (\<lambda>raw. classify_doctype (le_fs lenv) (le_data_dir lenv) raw p), lx_limits = limits \<rparr>"
  have "parse_document ?ctx p (document_events esc h games) =
      Inr \<lparr> po_dat = \<lparr> pd_source = written_source p h games, pd_games = games \<rparr>, po_warnings = [] \<rparr>"
    using assms(4-8) by (intro document_read) simp_all
  then show ?thesis using assms(1-3) by (simp add: parse_logiqx_def)
qed

end
