(* ===== verification/DatParsers.thy ===== *)
theory DatParsers
  imports LogiqxRoundTrip Classification
begin

text \<open>
  Which parser reads a file, \<open>dat/parsers/mod.rs\<close>: the sniffing of its first bytes, the
  checks before it, and the content classification of what was parsed.
\<close>

section \<open>Dispatch\<close>

definition format_of_head :: "string \<Rightarrow> dat_format" where
  "format_of_head head =
     (let trimmed = to_ascii_lowercase (trim head) in
      if trimmed = [] then ClrMamePro
      else if prefix ''<?xml'' trimmed \<or> prefix ''<datafile'' trimmed \<or> prefix ''<!doctype'' trimmed
        then dat_format.Logiqx
      else if prefix ''clrmamepro'' trimmed then ClrMamePro
      else if prefix ''<'' trimmed then dat_format.Logiqx
      else ClrMamePro)"

definition detect_format :: "parse_env \<Rightarrow> path \<Rightarrow> parse_error + dat_format" where
  "detect_format env p =
     (case pe_head env p of Inl err \<Rightarrow> Inl (IoFailed p err) | Inr head \<Rightarrow> Inr (format_of_head head))"

definition classify_outcome :: "parse_outcome \<Rightarrow> parse_outcome" where
  "classify_outcome out = out\<lparr>po_dat := classify_catalogue (po_dat out)\<rparr>"

definition parse_dat_file :: "parse_env \<Rightarrow> logiqx_env \<Rightarrow> path \<Rightarrow> dat_limits \<Rightarrow> parse_error + parse_outcome" where
  "parse_dat_file env lenv p limits =
     (case pe_metadata env p of
        Inl err \<Rightarrow> Inl (IoFailed p err)
      | Inr (is_file, bytes) \<Rightarrow>
          if \<not> is_file then Inl (IoFailed p ''not a regular file'')
          else if bytes = 0 then map_sum id classify_outcome (parse_clrmamepro env p limits)
          else if bytes > max_file_size limits then Inl (FileTooLarge p bytes (max_file_size limits))
          else
            case detect_format env p of
              Inl err \<Rightarrow> Inl err
            | Inr dat_format.Logiqx \<Rightarrow> map_sum id classify_outcome (parse_logiqx env lenv p limits)
            | Inr ClrMamePro \<Rightarrow> map_sum id classify_outcome (parse_clrmamepro env p limits))"

section \<open>What decides\<close>

lemma lower_angle: "to_ascii_lower_char c = CHR ''<'' \<longleftrightarrow> c = CHR ''<''"
proof -
  have "to_ascii_lower_char c = CHR ''<'' \<Longrightarrow> c = CHR ''<''"
  proof (cases "65 \<le> (of_char c :: nat) \<and> (of_char c :: nat) \<le> 90")
    case True
    assume "to_ascii_lower_char c = CHR ''<''"
    then have "(char_of ((of_char c :: nat) + 32) :: char) = CHR ''<''" using True by (simp add: to_ascii_lower_char_def)
    then have "(of_char (char_of ((of_char c :: nat) + 32) :: char) :: nat) = of_char (CHR ''<'')" by simp
    then show ?thesis using True by simp
  qed (simp add: to_ascii_lower_char_def Let_def split: if_splits)
  then show ?thesis by (auto simp: to_ascii_lower_char_def)
qed

text \<open>The several tests of the sniffing come to one: the first character that is not white space.\<close>

lemma format_of_head_angle:
  "format_of_head head = (if trim head \<noteq> [] \<and> hd (trim head) = CHR ''<'' then dat_format.Logiqx else ClrMamePro)"
proof (cases "trim head")
  case Nil
  then show ?thesis by (simp add: format_of_head_def to_ascii_lowercase_def)
next
  case (Cons c cs)
  then have low: "to_ascii_lowercase (trim head) = to_ascii_lower_char c # to_ascii_lowercase cs"
    by (simp add: to_ascii_lowercase_def)
  show ?thesis
  proof (cases "c = CHR ''<''")
    case True
    then have "to_ascii_lower_char c = CHR ''<''" by (simp add: lower_angle)
    then show ?thesis using Cons True by (simp add: format_of_head_def Let_def to_ascii_lowercase_def)
  next
    case False
    then have "CHR ''<'' \<noteq> to_ascii_lower_char c" using lower_angle [of c] by metis
    then have "\<not> prefix (CHR ''<'' # s) (to_ascii_lowercase (trim head))" for s by (simp add: low)
    then show ?thesis using Cons False by (simp add: format_of_head_def Let_def)
  qed
qed

lemma map_sum_Inr: "map_sum id f x = Inr y \<Longrightarrow> (\<And>z. x = Inr z \<Longrightarrow> y = f z \<Longrightarrow> P) \<Longrightarrow> P"
  by (cases x) auto

section \<open>What is returned\<close>

definition unclassified :: "dat_game_entry \<Rightarrow> dat_game_entry" where
  "unclassified g = g\<lparr>dg_content_classification := unknown_classification\<rparr>"

text \<open>An outcome is a parser's outcome with the entries classified and nothing else changed.\<close>

definition classified_from :: "parse_outcome \<Rightarrow> parse_outcome \<Rightarrow> bool" where
  "classified_from raw out \<longleftrightarrow>
     map unclassified (pd_games (po_dat out)) = map unclassified (pd_games (po_dat raw)) \<and>
     pd_source (po_dat out) = pd_source (po_dat raw) \<and> po_warnings out = po_warnings raw \<and>
     classify_catalogue (po_dat out) = po_dat out"

lemma classify_outcome_from: "classified_from raw (classify_outcome raw)"
  by (simp add: classified_from_def classify_outcome_def classify_catalogue_def unclassified_def
      classify_entry_annotated comp_def)

text \<open>What the dispatcher relies on in the parser of a format.\<close>

locale catalogue_parser =
  fixes parse :: "dat_limits \<Rightarrow> parse_error + parse_outcome" and fmt :: dat_format
  assumes parsed_format: "parse limits = Inr raw \<Longrightarrow> ds_format (pd_source (po_dat raw)) = fmt"
    and parsed_bounded: "parse limits = Inr raw \<Longrightarrow>
      length (pd_games (po_dat raw)) \<le> max_entries limits \<and> length (po_warnings raw) \<le> max_warnings limits \<and>
      ds_entry_count (pd_source (po_dat raw)) = length (pd_games (po_dat raw))"
begin

lemma classified_result:
  assumes "map_sum id classify_outcome (parse limits) = Inr out"
  shows "\<exists>raw. parse limits = Inr raw \<and> classified_from raw out \<and> ds_format (pd_source (po_dat out)) = fmt \<and>
    length (pd_games (po_dat out)) \<le> max_entries limits \<and> length (po_warnings out) \<le> max_warnings limits \<and>
    ds_entry_count (pd_source (po_dat out)) = length (pd_games (po_dat out))"
proof -
  obtain raw where raw: "parse limits = Inr raw" "out = classify_outcome raw"
    using assms by (auto elim: map_sum_Inr)
  have from_raw: "classified_from raw out" unfolding raw(2) by (rule classify_outcome_from)
  then have "length (pd_games (po_dat out)) = length (pd_games (po_dat raw))"
    by (metis classified_from_def length_map)
  then show ?thesis
    using raw(1) from_raw parsed_format [OF raw(1)] parsed_bounded [OF raw(1)]
    by (intro exI [of _ raw]) (simp add: classified_from_def)
qed

end

interpretation clr_parser: catalogue_parser "parse_clrmamepro env p" ClrMamePro for env p
proof
  fix limits raw
  assume raw: "parse_clrmamepro env p limits = Inr raw"
  then show "ds_format (pd_source (po_dat raw)) = ClrMamePro"
    by (auto simp: parse_clrmamepro_def parse_content_def Let_def clr_outcome_def
        split: sum.splits prod.splits if_splits elim!: map_sum_Inr)
  show "length (pd_games (po_dat raw)) \<le> max_entries limits \<and> length (po_warnings raw) \<le> max_warnings limits \<and>
      ds_entry_count (pd_source (po_dat raw)) = length (pd_games (po_dat raw))"
    using clrmamepro_result_ok [OF raw] by (simp add: clr_outcome_ok_def Let_def)
qed

interpretation logiqx_parser: catalogue_parser "parse_logiqx env lenv p" dat_format.Logiqx for env lenv p
proof
  fix limits raw
  assume raw: "parse_logiqx env lenv p limits = Inr raw"
  then show "ds_format (pd_source (po_dat raw)) = dat_format.Logiqx"
    by (auto simp: parse_logiqx_def parse_document_def logiqx_outcome_def
        split: sum.splits prod.splits if_splits elim!: map_sum_Inr)
  show "length (pd_games (po_dat raw)) \<le> max_entries limits \<and> length (po_warnings raw) \<le> max_warnings limits \<and>
      ds_entry_count (pd_source (po_dat raw)) = length (pd_games (po_dat raw))"
    using logiqx_result_ok [OF raw] by (simp add: logiqx_outcome_ok_def Let_def)
qed

text \<open>A returned catalogue is what one parser returned, classified, and the sniffing says which.\<close>

lemma dat_file_cases:
  assumes "parse_dat_file env lenv p limits = Inr out"
  obtains (clr) "map_sum id classify_outcome (parse_clrmamepro env p limits) = Inr out"
      "pe_metadata env p = Inr (True, 0) \<or>
       (\<exists>head. pe_head env p = Inr head \<and> (trim head = [] \<or> hd (trim head) \<noteq> CHR ''<''))"
  | (xml) bytes head where "map_sum id classify_outcome (parse_logiqx env lenv p limits) = Inr out"
      "pe_metadata env p = Inr (True, bytes)" "bytes > 0" "pe_head env p = Inr head"
      "trim head \<noteq> []" "hd (trim head) = CHR ''<''"
  using assms
  by (auto simp: parse_dat_file_def detect_format_def format_of_head_angle
      split: if_splits sum.splits prod.splits dat_format.splits)

text \<open>
  C36: A catalogue is returned only for a regular file within the size ceiling, and it is what
  the parser of its format returned: read as Logiqx exactly when the first character of the
  sniffed text that is not white space is an opening angle bracket (an empty file is never),
  with every entry classified by content, the classification being the only change, and the
  entries, the warnings and the counts within what the ceilings allow.
\<close>

theorem dat_file_result:
  assumes "parse_dat_file env lenv p limits = Inr out"
  shows "\<exists>bytes raw. pe_metadata env p = Inr (True, bytes) \<and> bytes \<le> max_file_size limits \<and>
    classified_from raw out \<and>
    (if ds_format (pd_source (po_dat out)) = dat_format.Logiqx
     then parse_logiqx env lenv p limits = Inr raw \<and>
       (\<exists>head. bytes > 0 \<and> pe_head env p = Inr head \<and> trim head \<noteq> [] \<and> hd (trim head) = CHR ''<'')
     else parse_clrmamepro env p limits = Inr raw \<and>
       (bytes = 0 \<or> (\<exists>head. pe_head env p = Inr head \<and> (trim head = [] \<or> hd (trim head) \<noteq> CHR ''<'')))) \<and>
    length (pd_games (po_dat out)) \<le> max_entries limits \<and>
    length (po_warnings out) \<le> max_warnings limits \<and>
    ds_entry_count (pd_source (po_dat out)) = length (pd_games (po_dat out))"
proof -
  obtain bytes where m: "pe_metadata env p = Inr (True, bytes)" "bytes \<le> max_file_size limits"
    using assms by (auto simp: parse_dat_file_def split: sum.splits prod.splits if_splits)
  from assms show ?thesis
  proof (cases rule: dat_file_cases)
    case clr
    then show ?thesis using m clr_parser.classified_result [OF clr(1)] by fastforce
  next
    case xml
    then show ?thesis using m logiqx_parser.classified_result [OF xml(1)] by fastforce
  qed
qed

end
