(* ===== verification/RunParsers.thy ===== *)
theory RunParsers
  imports DatRunProofs DatParsers
begin

text \<open>
  An audit run over catalogues the modelled parsers read: how \<open>audit_run.rs\<close> calls
  \<open>parse_dat_file\<close>, and what a set it reports as complete says about the file the set's entry
  was read from.
\<close>

definition parse_catalogue :: "parse_env \<Rightarrow> logiqx_env \<Rightarrow> dat_limits \<Rightarrow> path \<Rightarrow> string + parsed_dat" where
  "parse_catalogue penv lenv limits p =
     (case parse_dat_file penv lenv p limits of
        Inl err \<Rightarrow> Inl (parse_error_display err)
      | Inr out \<Rightarrow> Inr (po_dat out))"

definition request_files :: "run_env \<Rightarrow> dat_audit_request \<Rightarrow> path list" where
  "request_files env req = (case fst (dat_files_of env req 0) of Inl _ \<Rightarrow> [] | Inr files \<Rightarrow> files)"

section \<open>The entry of a complete set\<close>

lemma complete_set_supported:
  assumes "r \<in> set (classify_archive_sets archive disks dsc games source_id)" and "sr_state r = SetComplete"
  shows "\<exists>i game. filter (\<lambda>(_, c). dg_name c = si_game_name (sr_identity r)) (enumerate 0 games) = [(i, game)] \<and>
    \<not> dg_unsupported_structure game"
proof -
  let ?s = "summarize_disk_evidence disks games"
  obtain g t where r: "classify_touched_set archive ?s dsc games source_id (g, t) = Some r"
    using assms(1) by (auto simp: classify_archive_sets_def mem_map_filter)
  then obtain i game where one: "filter (\<lambda>(_, c). dg_name c = g) (enumerate 0 games) = [(i, game)]"
      and matched: "r = classify_matched_set archive ?s dsc \<lparr> si_source_id = source_id, si_game_name = g \<rparr> i game t"
    using assms(2)
    by (auto simp: classify_touched_set_def Let_def empty_resolution_def split: list.splits prod.splits if_splits)
  have "sr_identity r = \<lparr> si_source_id = source_id, si_game_name = g \<rparr>"
    unfolding matched by (simp add: classify_matched_set_def Let_def split: prod.splits)
  moreover have "\<not> dg_unsupported_structure game"
    using unsupported_set [of game archive ?s dsc "\<lparr> si_source_id = source_id, si_game_name = g \<rparr>" i t] assms(2)
    unfolding matched by auto
  ultimately show ?thesis using one by auto
qed

lemma source_game_file:
  assumes "game \<in> set (source_games env req)"
  obtains p parsed where "p \<in> set (request_files env req)" "re_parse env p = Inr parsed" "game \<in> set (pd_games parsed)"
proof (cases "fst (dat_files_of env req 0)")
  case (Inl err)
  then show ?thesis using assms by (simp add: source_games_def)
next
  case (Inr files)
  then obtain p where p: "p \<in> set files"
      "game \<in> set (case re_parse env p of Inr parsed \<Rightarrow> pd_games parsed | Inl err \<Rightarrow> [])"
    using assms by (auto simp: source_games_def parsed_games_def)
  then obtain parsed where "re_parse env p = Inr parsed" "game \<in> set (pd_games parsed)"
    by (cases "re_parse env p") auto
  then show ?thesis using that p(1) Inr by (simp add: request_files_def)
qed

text \<open>An entry whose structure is known was read by the XML parser.\<close>

lemma supported_entry_from_xml:
  assumes "parse_catalogue penv lenv limits p = Inr parsed" and "game \<in> set (pd_games parsed)"
    and "\<not> dg_unsupported_structure game"
  shows "\<exists>raw head. parse_logiqx penv lenv p limits = Inr raw \<and> pe_head penv p = Inr head \<and>
    trim head \<noteq> [] \<and> hd (trim head) = CHR ''<'' \<and>
    unclassified game \<in> set (map unclassified (pd_games (po_dat raw)))"
proof -
  obtain out where out: "parse_dat_file penv lenv p limits = Inr out" "parsed = po_dat out"
    using assms(1) by (auto simp: parse_catalogue_def split: sum.splits)
  have read: "unclassified game \<in> set (map unclassified (pd_games (po_dat raw)))" if "classified_from raw out" for raw
    using that assms(2) out(2) by (force simp: classified_from_def dest: arg_cong [where f = set])
  from out(1) show ?thesis
  proof (cases rule: dat_file_cases)
    case clr
    then obtain raw where raw: "parse_clrmamepro penv p limits = Inr raw" "classified_from raw out"
      using clr_parser.classified_result by blast
    then obtain g where "g \<in> set (pd_games (po_dat raw))" "unclassified game = unclassified g"
      using read by auto
    then have "dg_unsupported_structure (unclassified game)"
      using clrmamepro_result_ok [OF raw(1)]
      by (auto simp: clr_outcome_ok_def clr_game_ok_def list_all_iff Let_def unclassified_def)
    then show ?thesis using assms(3) by (simp add: unclassified_def)
  next
    case xml
    then obtain raw where "parse_logiqx penv lenv p limits = Inr raw" "classified_from raw out"
      using logiqx_parser.classified_result by blast
    then show ?thesis using read xml by blast
  qed
qed

text \<open>
  C14: A set that a run reports as complete was read from XML. Its name is borne by exactly one
  entry of the source, and that entry is, but for its content class, one the Logiqx parser read
  from a file of the source whose first character is an opening angle bracket; its structure
  was understood, and its name, description and roms are as \<open>logiqx_game_ok\<close> says: within the
  ceilings, but for at most one rom over the rom ceiling. Nothing from a ClrMamePro
  file, whose parser cannot see a whole set, is ever reported as complete.
\<close>

theorem complete_sets_come_from_xml:
  assumes "run_dat_audit env req n = (Inr outcome, m)"
    and "\<And>p. p \<in> set (request_files env req) \<Longrightarrow> re_parse env p = parse_catalogue penv lenv limits p"
    and "r \<in> set (ao_sets outcome)" and "sr_state r = SetComplete"
  shows "\<exists>p raw head i game g.
    p \<in> set (request_files env req) \<and> parse_logiqx penv lenv p limits = Inr raw \<and>
    pe_head penv p = Inr head \<and> trim head \<noteq> [] \<and> hd (trim head) = CHR ''<'' \<and>
    filter (\<lambda>(_, c). dg_name c = si_game_name (sr_identity r)) (enumerate 0 (source_games env req)) = [(i, game)] \<and>
    g \<in> set (pd_games (po_dat raw)) \<and> unclassified game = unclassified g \<and>
    \<not> dg_unsupported_structure g \<and> logiqx_game_ok limits g"
proof -
  obtain archive disks dsc r0 where r0: "sr_identity r = sr_identity r0" "sr_state r0 = SetComplete"
      "r0 \<in> set (classify_archive_sets archive disks dsc (source_games env req) (rq_source_id req))"
    using run_set_classified [OF assms(1,3,4)] by blast
  obtain i game where game:
      "filter (\<lambda>(_, c). dg_name c = si_game_name (sr_identity r)) (enumerate 0 (source_games env req)) = [(i, game)]"
      "\<not> dg_unsupported_structure game"
    using complete_set_supported [OF r0(3,2)] r0(1) by auto
  then have "(i, game) \<in> set (filter (\<lambda>(_, c). dg_name c = si_game_name (sr_identity r)) (enumerate 0 (source_games env req)))"
    by simp
  then have "game \<in> set (source_games env req)" by (auto simp: in_set_enumerate_eq)
  then obtain p parsed where p: "p \<in> set (request_files env req)" "re_parse env p = Inr parsed" "game \<in> set (pd_games parsed)"
    by (rule source_game_file)
  then obtain raw head g where read: "parse_logiqx penv lenv p limits = Inr raw" "pe_head penv p = Inr head"
      "trim head \<noteq> []" "hd (trim head) = CHR ''<''" "g \<in> set (pd_games (po_dat raw))" "unclassified game = unclassified g"
    using supported_entry_from_xml [of penv lenv limits p parsed game] assms(2) [OF p(1)] game(2) by auto
  have "logiqx_game_ok limits g"
    using logiqx_result_ok [OF read(1)] read(5) by (auto simp: logiqx_outcome_ok_def list_all_iff Let_def)
  moreover have "dg_unsupported_structure (unclassified game) = dg_unsupported_structure (unclassified g)"
    by (simp add: read(6))
  then have "\<not> dg_unsupported_structure g" using game(2) by (simp add: unclassified_def)
  ultimately show ?thesis using p(1) read game(1) by blast
qed

end
