(* ===== verification/ParserExample.thy ===== *)
theory ParserExample
  imports RunParsers DatRunExample
begin

text \<open>
  A small catalogue in both formats, on which the round trips hold, and the audit of the
  catalogue read from the text format.
\<close>

section \<open>ClrMamePro\<close>

definition text_entry :: "string \<Rightarrow> string option \<Rightarrow> dat_rom_entry list \<Rightarrow> dat_game_entry" where
  "text_entry name desc roms =
     game_entry_of name
       \<lparr> cg_name = Some name, cg_desc = desc, cg_clone_of = None, cg_fidelity = no_game_fidelity \<rparr> roms"

definition text_games :: "dat_game_entry list" where
  "text_games = [text_entry ''Tails'' None [], text_entry ''Sonic'' (Some ''Sonic (USA)'') [sonic_rom]]"

definition text_heading :: clr_heading where
  "text_heading =
     \<lparr> ch_name = Some ''Mega Drive'', ch_description = None, ch_version = Some ''2024'', ch_author = None \<rparr>"

definition text_env :: parse_env where
  "text_env =
     \<lparr> pe_metadata = (\<lambda>p. Inr (True, 250)), pe_content = (\<lambda>p. Inr (print_catalogue text_heading text_games)),
       pe_head = (\<lambda>p. Inr (print_catalogue text_heading text_games)) \<rparr>"

lemma sonic_sha1_no_quote: "quotable sonic_sha1"
  by (simp add: quotable_def sonic_sha1_def)

lemma ceilings [simp]:
  "max_file_size default_limits = 268435456" "max_entries default_limits = 500000"
  "max_roms_per_entry default_limits = 1000000" "max_description_length default_limits = 65536"
  "max_identifier_length default_limits = 8192" "max_xml_depth default_limits = 32"
  by (simp_all add: default_limits_def)

lemma three: "nat_to_string 3 = ''3''"
  by (simp add: nat_to_string.simps char_of_def bit_0)

lemma sonic_pairs: "rom_pairs sonic_rom = [(''name'', ''Sonic.bin''), (''size'', ''3''), (''sha1'', sonic_sha1)]"
  by (simp add: rom_pairs_def sonic_rom_def demo_rom_def optional_pair_def three)

lemma sonic_rom_printable: "printable_rom sonic_rom"
proof -
  have "list_all (\<lambda>p. quotable (snd p)) (rom_pairs sonic_rom)"
    using sonic_sha1_no_quote by (simp add: quotable_def sonic_pairs)
  then show ?thesis
    using sonic_sha1_normal by (simp add: printable_rom_def normal_hash_def sonic_rom_def demo_rom_def)
qed

lemma text_entry_printable:
  assumes "quotable name" and "\<And>d. desc = Some d \<Longrightarrow> quotable d" and "list_all printable_rom roms"
    and "length roms \<le> max_roms_per_entry limits"
  shows "printable_game limits (text_entry name desc roms)"
  using assms
  by (cases desc)
    (simp_all add: printable_game_def game_pairs_def text_entry_def game_entry_of_def current_of_def
      no_game_fidelity_def optional_pair_def)

lemma text_games_printable: "list_all (printable_game default_limits) text_games"
  using sonic_rom_printable by (auto simp: text_games_def quotable_def intro!: text_entry_printable)

lemma text_heading_printable: "printable_heading default_limits text_heading"
  by (simp add: printable_heading_def heading_fields_def text_heading_def optional_pair_def one_line_def quoted_def)

definition text_outcome :: parse_outcome where
  "text_outcome =
     \<lparr> po_dat = \<lparr> pd_source = heading_source [''dats'', ''md.dat''] text_heading text_games, pd_games = text_games \<rparr>,
       po_warnings = [] \<rparr>"

lemma text_games_two: "length text_games = 2"
  by (simp add: text_games_def)

theorem clrmamepro_round_trip_witness:
  "parse_clrmamepro text_env [''dats'', ''md.dat''] default_limits = Inr text_outcome"
  unfolding text_outcome_def
  by (rule clrmamepro_round_trip [where is_file = True and bytes = 250])
    (simp_all add: text_env_def text_heading_printable text_games_printable text_games_two)

text \<open>The same file and the archive of \<open>DatExample\<close>: the set it touches needs review.\<close>

lemma text_parsed: "parse_clrmamepro text_env [''dats'', ''md.dat''] default_limits = Inr text_outcome"
  using printed_content_read [OF text_heading_printable text_games_printable, of "[''dats'', ''md.dat'']"]
  by (simp add: parse_clrmamepro_def text_env_def text_games_two text_outcome_def)

lemma text_games_fields:
  "text_games ! Suc 0 = text_entry ''Sonic'' (Some ''Sonic (USA)'') [sonic_rom]" "length text_games = 2"
  "dg_name (text_entry name desc roms) = name" "dg_roms (text_entry name desc roms) = roms"
  "dg_parts (text_entry name desc roms) = []"
  by (simp_all add: text_games_def text_entry_def game_entry_of_def)

lemma text_attributed: "safely_attributed text_games sonic_member"
proof -
  have "ref_matches_catalogue sonic_ref text_games"
    by (simp add: ref_matches_catalogue_def Let_def get_at_def text_games_fields rom_at_def)
      (simp add: sonic_ref_def rom_ref_def)
  then show ?thesis by (simp add: safely_attributed_def Let_def sonic_member_def strong_verdict_def)
qed

lemma text_touched: "\<exists>t. attribute_archive_members demo_archive text_games = [(''Sonic'', t)]"
proof -
  have refs: "am_matched_refs sonic_member = [sonic_ref]" by (simp add: sonic_member_def)
  have dup: "\<not> duplicate_index demo_archive (me_index (am_evidence sonic_member))"
    by (simp add: duplicate_index_def demo_archive_def)
  show ?thesis
    using text_attributed dup refs
    by (simp add: attribute_archive_members_def demo_archive_def attribute_member_def Let_def
        touch_def mark_verified_def untouched_def)
qed

lemma text_set_reported: "\<exists>r. r \<in> set (classify_archive_sets demo_archive [] True text_games ''src'')"
proof -
  obtain t where t: "attribute_archive_members demo_archive text_games = [(''Sonic'', t)]"
    using text_touched by blast
  have find: "filter (\<lambda>(_, c). dg_name c = ''Sonic'') (enumerate 0 text_games) =
      [(Suc 0, text_entry ''Sonic'' (Some ''Sonic (USA)'') [sonic_rom])]"
    by (simp add: text_games_def text_games_fields)
  show ?thesis
    unfolding classify_archive_sets_def t
    by (simp add: List.map_filter_simps classify_touched_set_def Let_def find)
qed

theorem clrmamepro_sets_need_review_witness:
  "\<exists>r reason. r \<in> set (classify_archive_sets demo_archive [] True text_games ''src'') \<and>
     sr_state r = SetNeedsReview reason"
proof -
  obtain r where "r \<in> set (classify_archive_sets demo_archive [] True text_games ''src'')"
    using text_set_reported by blast
  then show ?thesis
    using clrmamepro_sets_need_review [OF text_parsed, of r demo_archive "[]" True "''src''"]
    by (auto simp: text_outcome_def)
qed

text \<open>Through the dispatcher the same file is read as the text format.\<close>

lemma text_head: "\<exists>rest. print_catalogue text_heading text_games = ''clrmamepro'' @ rest"
  by (simp add: print_catalogue_def catalogue_lines_def)

lemma trim_head: "\<not> is_whitespace c \<Longrightarrow> hd (trim (c # s)) = c"
  by (simp add: trim_def dropWhile_append3)

lemma text_dispatched:
  "parse_dat_file text_env lenv [''dats'', ''md.dat''] default_limits = Inr (classify_outcome text_outcome)"
proof -
  obtain rest where rest: "print_catalogue text_heading text_games = ''clrmamepro'' @ rest"
    using text_head by blast
  have "hd (trim (print_catalogue text_heading text_games)) = CHR ''c''"
    unfolding rest by (simp add: trim_head is_whitespace_def)
  then have "format_of_head (print_catalogue text_heading text_games) = ClrMamePro"
    by (auto simp: format_of_head_angle)
  then show ?thesis
    using text_parsed by (simp add: parse_dat_file_def detect_format_def text_env_def)
qed

theorem dat_file_result_witness:
  "\<exists>raw. parse_clrmamepro text_env [''dats'', ''md.dat''] default_limits = Inr raw \<and>
     classified_from raw (classify_outcome text_outcome)"
proof -
  have "ds_format (pd_source (po_dat (classify_outcome text_outcome))) = ClrMamePro"
    by (simp add: classify_outcome_def classify_catalogue_def text_outcome_def heading_source_def)
  then show ?thesis using dat_file_result [OF text_dispatched] by auto
qed

section \<open>Logiqx\<close>

text \<open>A game with a rom, and a software list entry whose part holds a disk area.\<close>

definition plain_library :: xml_library where
  "plain_library =
     \<lparr> xl_unescape = Inr,
       xl_predefined = map_of [(''amp'', ''&''), (''lt'', ''<''), (''gt'', ''>''), (''quot'', [dquote]),
         (''apos'', [quote])] \<rparr>"

lemma plain_library_undoes: "undoes plain_library id"
  by (auto simp: undoes_def plain_library_def reference_of_def split: if_splits)

definition xml_heading :: logiqx_heading where
  "xml_heading =
     \<lparr> lh_name = Some ''Mega-Drive'', lh_description = None, lh_version = None, lh_author = None,
       lh_homepage = None, lh_clrmamepro = None \<rparr>"

definition disc :: dat_disk_entry where
  "disc =
     \<lparr> dd_name = Some ''cd'', dd_sha1 = Some sonic_sha1, dd_merge = None, dd_region = None, dd_index = None,
       dd_writable = None, dd_status = None, dd_optional = None \<rparr>"

definition xml_games :: "dat_game_entry list" where
  "xml_games =
     [sonic_game,
      (demo_game ''Tails'' [])\<lparr>dg_supported := Some ''yes'', dg_description := Some ''R&B'',
        dg_parts := [\<lparr> dp_name = Some ''p1'', dp_interface = None,
          dp_data_areas = [\<lparr> da_name = Some ''rom'', da_roms = [sonic_rom] \<rparr>],
          dp_disk_areas = [\<lparr> dk_name = None, dk_disks = [disc] \<rparr>] \<rparr>]\<rparr>]"

definition xml_env :: logiqx_env where
  "xml_env =
     \<lparr> le_open = (\<lambda>p. Inr (document_events id xml_heading xml_games)), le_library = plain_library,
       le_fs = fmempty, le_data_dir = None \<rparr>"

lemma sonic_rom_writable: "writable_rom default_limits sonic_rom"
  using sonic_sha1_normal
  by (simp add: writable_rom_def nonempty_values_def sonic_pairs logiqx_rom_ok_def normal_hash_def)
    (simp add: sonic_rom_def demo_rom_def utf8_len_def sonic_sha1_def)

lemma disc_writable: "writable_disk disc"
  using sonic_sha1_normal
  by (simp add: writable_disk_def nonempty_values_def disk_attributes_def disc_def optional_pair_def normal_hash_def)
    (simp add: sonic_sha1_def)

lemma xml_games_writable: "list_all (writable_game default_limits) xml_games"
proof -
  have "trim ''R&B'' = ''R&B''" by (simp add: trim_def is_whitespace_def)
  then show ?thesis
    using sonic_rom_writable disc_writable
    by (simp add: xml_games_def sonic_game_def demo_game_def writable_game_def nonempty_values_def
        game_attributes_def metadata_pairs_def metadata_attributes_def optional_pair_def utf8_len_def
        short_text_def trimmed_text_def writable_part_def part_attributes_def game_roms_def part_roms_def)
qed

theorem logiqx_round_trip_witness:
  "parse_logiqx text_env xml_env [''dats'', ''md.xml''] default_limits =
   Inr \<lparr> po_dat = \<lparr> pd_source = written_source [''dats'', ''md.xml''] xml_heading xml_games, pd_games = xml_games \<rparr>,
         po_warnings = [] \<rparr>"
proof (rule logiqx_round_trip [where is_file = True and bytes = 250 and esc = id])
  have "trim ''Mega-Drive'' = ''Mega-Drive''" by (simp add: trim_def is_whitespace_def)
  then show "writable_heading default_limits xml_heading"
    by (simp add: writable_heading_def xml_heading_def trimmed_text_def short_text_def)
  show "undoes (le_library xml_env) id" by (simp add: xml_env_def plain_library_undoes)
  show "le_open xml_env [''dats'', ''md.xml''] = Inr (document_events id xml_heading xml_games)"
    by (simp add: xml_env_def)
  show "list_all (writable_game default_limits) xml_games" by (rule xml_games_writable)
qed (simp_all add: text_env_def xml_games_def)

section \<open>A run\<close>

text \<open>The catalogue of the run of \<open>DatRunExample\<close>, written as XML.\<close>

definition demo_heading :: logiqx_heading where
  "demo_heading =
     \<lparr> lh_name = Some ''Demo'', lh_description = None, lh_version = None, lh_author = None,
       lh_homepage = None, lh_clrmamepro = None \<rparr>"

definition demo_parse_env :: parse_env where
  "demo_parse_env =
     \<lparr> pe_metadata = (\<lambda>p. Inr (True, 250)), pe_content = (\<lambda>p. Inr []), pe_head = (\<lambda>p. Inr ''<?xml'') \<rparr>"

definition demo_xml_env :: logiqx_env where
  "demo_xml_env =
     \<lparr> le_open = (\<lambda>p. Inr (document_events id demo_heading demo_games)), le_library = plain_library,
       le_fs = fmempty, le_data_dir = None \<rparr>"

lemma demo_games_writable: "list_all (writable_game default_limits) demo_games"
  using sonic_rom_writable
  by (simp add: demo_games_def sonic_game_def demo_game_def writable_game_def nonempty_values_def
      game_attributes_def metadata_pairs_def metadata_attributes_def optional_pair_def utf8_len_def
      short_text_def trimmed_text_def game_roms_def)

lemma demo_xml_parsed:
  "parse_logiqx demo_parse_env demo_xml_env p default_limits =
   Inr \<lparr> po_dat = \<lparr> pd_source = written_source p demo_heading demo_games, pd_games = demo_games \<rparr>, po_warnings = [] \<rparr>"
proof -
  let ?ctx = "\<lparr> lx_library = plain_library, lx_doctype = (\<lambda>raw. classify_doctype fmempty None raw p),
    lx_limits = default_limits \<rparr>"
  have "trim ''Demo'' = ''Demo''" by (simp add: trim_def is_whitespace_def)
  then have "writable_heading default_limits demo_heading"
    by (simp add: writable_heading_def demo_heading_def trimmed_text_def short_text_def)
  moreover note plain_library_undoes
  ultimately have "parse_document ?ctx p (document_events id demo_heading demo_games) =
      Inr \<lparr> po_dat = \<lparr> pd_source = written_source p demo_heading demo_games, pd_games = demo_games \<rparr>, po_warnings = [] \<rparr>"
    by (intro document_read) (simp_all add: demo_games_writable, simp add: demo_games_def)
  then show ?thesis by (simp add: parse_logiqx_def demo_parse_env_def demo_xml_env_def)
qed

lemma demo_catalogue_read:
  "parse_catalogue demo_parse_env demo_xml_env default_limits [''d.dat''] = Inr small_catalogue"
proof -
  have "hd (trim ''<?xml'') = CHR ''<''" "trim ''<?xml'' \<noteq> []" by (simp_all add: trim_def is_whitespace_def)
  then have "format_of_head ''<?xml'' = dat_format.Logiqx" by (simp add: format_of_head_angle)
  then have dispatched: "parse_dat_file demo_parse_env demo_xml_env p default_limits =
      map_sum id classify_outcome (parse_logiqx demo_parse_env demo_xml_env p default_limits)" for p
    by (simp add: parse_dat_file_def detect_format_def demo_parse_env_def)
  have "detect_logiqx_ecosystem (Some ''Demo'') None = GenericLogiqx"
    by (simp add: detect_logiqx_ecosystem_def Let_def to_ascii_lowercase_def to_ascii_lower_char_def)
  then have source: "written_source [''d.dat''] demo_heading demo_games = small_source"
    by (simp add: written_source_def small_source_def demo_heading_def path_text_def demo_games_def
        game_rom_count_def demo_game_def)
  have "classify_catalogue \<lparr> pd_source = small_source, pd_games = demo_games \<rparr> = small_catalogue"
    by (simp add: classify_catalogue_def small_catalogue_def small_source_def classify_entry_def
        demo_games_def sonic_game_def demo_game_def)
  then show ?thesis
    by (simp add: parse_catalogue_def dispatched demo_xml_parsed classify_outcome_def source)
qed

theorem complete_sets_come_from_xml_witness:
  "\<exists>outcome r raw. run_dat_audit small_env small_request 0 = (Inr outcome, 8) \<and> r \<in> set (ao_sets outcome) \<and>
     sr_state r = SetComplete \<and> parse_logiqx demo_parse_env demo_xml_env [''d.dat''] default_limits = Inr raw"
proof -
  obtain outcome where run: "run_dat_audit small_env small_request 0 = (Inr outcome, 8)" "ao_sets outcome = [small_report]"
    by (rule small_run)
  then have mem: "small_report \<in> set (ao_sets outcome)" by simp
  have files: "request_files small_env small_request = [[''d.dat'']]"
    by (simp add: request_files_def dat_files_of_def small_env_def small_request_def return_def)
  have "re_parse small_env p = parse_catalogue demo_parse_env demo_xml_env default_limits p"
    if "p \<in> set (request_files small_env small_request)" for p
    using that demo_catalogue_read by (simp add: files) (simp add: small_env_def)
  from complete_sets_come_from_xml [OF run(1) this mem small_report_complete(1)] show ?thesis
    using run(1) mem small_report_complete(1) by (auto simp: files)
qed

section \<open>What a document loses without a diagnostic\<close>

text \<open>
  A rom opened inside an open rom replaces it: the result is the one without the outer rom,
  diagnostics and all. Disks, parts and areas are kept and the game marked in that case.
\<close>

lemma nested_rom_forgotten:
  "start_rom lib limits elem (s\<lparr>lq_rom := Some outer\<rparr>) = start_rom lib limits elem (s\<lparr>lq_rom := None\<rparr>)"
  by (simp add: start_rom_def with_reading_def too_many_roms_def split: sum.split)

text \<open>
  The rom ceiling is compared with the roms counted so far, and an open rom is counted when it
  ends. With the last rom allowed open, one self-closing rom inside it is still read: the game
  ends up with one rom more than the ceiling, and no error.
\<close>

lemma one_rom_over_the_ceiling:
  assumes "lq_rom_count s + 1 = max_roms_per_entry limits" and "lq_data_area s = None"
    and "read_rom_entry lib limits outer = give r" and "read_rom_entry lib limits inner = give q"
  shows "\<exists>s1 s2. start_rom lib limits outer s = Inr s1 \<and> empty_rom lib limits inner s1 = Inr s2 \<and>
    lq_roms (end_rom s2) = lq_roms s @ [q, r] \<and>
    lq_rom_count (end_rom s2) = max_roms_per_entry limits + 1"
  using assms
  by (simp add: start_rom_def empty_rom_def end_rom_def append_rom_def with_reading_def give_def not_le)

text \<open>A game written as one empty element leaves nothing behind, no entry and no diagnostic.\<close>

lemma self_closing_game_dropped:
  assumes "xe_tag elem = Inr tag" and "to_ascii_lowercase tag \<in> set game_tags"
  shows "empty_element lib limits elem s = Inr (clear_text s)"
  using assms by (auto simp: empty_element_def empty_tag_def game_tags_def)

end
