(* ===== verification/ClrFindings.thy ===== *)
theory ClrFindings
  imports ClrMamePro
begin

text \<open>
  Small files on which the ClrMamePro parser departs from what its comments and its limits say.
\<close>

section \<open>Where the text format and its documentation part\<close>

definition tight_limits :: dat_limits where
  "tight_limits =
     \<lparr> max_file_size = 400, max_entries = 5, max_roms_per_entry = 1, max_identifier_length = 3,
       max_description_length = 2, max_warnings = 2, max_xml_depth = 3 \<rparr>"

definition unlines :: "string list \<Rightarrow> string" where
  "unlines ls = concat (map (\<lambda>l. l @ [newline]) ls)"

definition games_and_roms :: "parse_error + parse_outcome \<Rightarrow> (string \<times> string list) list" where
  "games_and_roms r =
     (case r of Inl err \<Rightarrow> []
      | Inr out \<Rightarrow> map (\<lambda>g. (dg_name g, map dr_name (dg_roms g))) (pd_games (po_dat out)))"

text \<open>The parenthesis that closes a rom of several lines also closes its game; the later roms are lost.\<close>

lemma multi_line_roms_lost:
  "games_and_roms (parse_content tight_limits []
     (unlines [''game ('', ''name G'', ''rom ('', ''name a'', '')'', ''rom ('', ''name b'', '')'', '')''])) =
   [(''G'', [''a''])]"
  by code_simp

text \<open>The load flag of a rom without a name is given to the next rom.\<close>

lemma load_flag_of_another_rom:
  "(case parse_content tight_limits []
      (unlines [''game ('', ''name G'', ''rom ( loadflag continue )'', ''rom ( name a )'', '')'']) of
      Inl err \<Rightarrow> [] | Inr out \<Rightarrow> map dr_loadflag (concat (map dg_roms (pd_games (po_dat out))))) =
   [Some ''continue'']"
  by code_simp

text \<open>A game on one line takes the name of a rom it holds, and the rom is lost.\<close>

lemma inline_rom_renames_game:
  "games_and_roms (parse_content tight_limits [] ''game ( name G rom ( name a ) )'') = [(''a'', [])]"
  by code_simp

text \<open>A name over several lines is not held to the identifier ceiling, and roms before the name not counted.\<close>

lemma long_name_accepted:
  "games_and_roms (parse_content tight_limits [] (unlines [''game ('', ''name Longer'', '')''])) =
   [(''Longer'', [])]"
  by code_simp

lemma roms_before_the_name:
  "games_and_roms (parse_content tight_limits []
     (unlines [''game ('', ''rom ( name a )'', ''rom ( name b )'', ''name G'', '')''])) =
   [(''G'', [''a'', ''b''])]"
  by code_simp

text \<open>A description is cut by characters where the ceiling counts bytes.\<close>

lemma truncation_counts_characters:
  "(case parse_content tight_limits []
      (unlines [''clrmamepro ('', ''description '' @ [CHR 0xE9, CHR 0xE8], '')'']) of
      Inl err \<Rightarrow> None | Inr out \<Rightarrow> map_option utf8_len (ds_description (pd_source (po_dat out)))) = Some 4"
  by code_simp

end
