(* ===== verification/Spec2Isabelle.thy ===== *)
theory Spec2Isabelle
  imports TxnWitness Classification RenameExample DepProofs DatRunExample PathMapProofs
    IdentityExample OrgExample ParserExample ClrFindings
begin

text \<open>
  A verification development for the core of archivefs: the catalogue pipeline that identifies
  local files against DAT catalogues, the rename planner that turns its verdicts into file names,
  the transaction engine that carries the renames out and recovers from crashes, and the matching
  of identities that other services publish. All paths below are relative to
  \<open>crates/archivefs-core/src/\<close>.

  \<^bold>\<open>The program and its parts.\<close>
  An audit run (\<open>dat/sources/audit_run.rs\<close>) walks one folder, reads the catalogues of
  one source with the parsers of \<open>dat/parsers/\<close>, builds hash indexes over their
  entries (\<open>dat/index.rs\<close>), hashes every loose file and every archive member, and
  asks the audit (\<open>dat/audit.rs\<close>) for a verdict. Members of archives
  (\<open>dat/archive/mod.rs\<close>) and CHD headers (\<open>dat/archive/chd.rs\<close>) feed the
  completeness of sets (\<open>dat/set.rs\<close>); a set that borrows from other sets is resolved
  over the whole collection (\<open>dat/dependency/\<close>). Verdicts with several candidates are
  ranked by the user's matching policy (\<open>dat/policy/\<close>), which reads region and
  revision markers of names and the content classes of \<open>dat/classification.rs\<close>. The
  rename planner (\<open>dat/rename_plan/\<close>) reads the outcome and proposes names;
  \<open>dat/rename_apply/\<close> builds a transaction from the plan, checks it, renames,
  journals each step, and reconciles or rolls back later. Beside the catalogues,
  \<open>identity_source/\<close> imports records of other services: \<open>path_map.rs\<close>
  translates their paths into local ones, \<open>hashing.rs\<close> hashes local files,
  \<open>matching.rs\<close> gives each record a level, and \<open>platform/identity.rs\<close>
  takes platforms from all of these. With the platforms resolved,
  \<open>dat/rom_organisation/\<close> moves files into platform directories through the same
  transaction engine.

  \<^bold>\<open>Theories and code.\<close>
  \<^item> Base: \<open>Prelude\<close> and \<open>Text\<close> (strings, paths, the string operations of the Rust library),
    \<open>Ordering\<close> (\<open>Ordering\<close>, comparators, the stable sort), \<open>OrderedMap\<close> (\<open>BTreeMap\<close>),
    \<open>FileSystem\<close> (the system calls the engine uses, over a finite map from resolved paths to
    nodes with symbolic links).
  \<^item> Transactions: \<open>TxnModel\<close> (\<open>rename_apply/model.rs\<close>), \<open>TxnJournal\<close> (\<open>journal.rs\<close>,
    \<open>noclobber.rs\<close>, and the world: file system, journals, interference, ghost history),
    \<open>TxnPreflight\<close> (\<open>preflight.rs\<close>), \<open>TxnExecutor\<close> (\<open>executor.rs\<close>), \<open>TxnRecovery\<close>
    (\<open>reconcile.rs\<close>, \<open>rollback.rs\<close>); their proofs are \<open>TxnSafety\<close> (any environment),
    \<open>TxnFrame\<close>, \<open>TxnOutcomes\<close>, \<open>TxnReport\<close>, \<open>TxnCrash\<close> and \<open>TxnRestore\<close> (a quiet environment), and
    the instances \<open>TxnExample\<close>, \<open>TxnWitness\<close>.
  \<^item> Catalogues: \<open>DatModel\<close> (\<open>dat/model.rs\<close>), \<open>Classification\<close>, \<open>DatIndex\<close>, \<open>DatAudit\<close>,
    \<open>Platforms\<close> (\<open>platform/mod.rs\<close>), \<open>PolicyModel\<close>, \<open>PolicyTags\<close>, \<open>PolicyRank\<close>,
    \<open>ArchiveModel\<close>, \<open>ChdHeader\<close>, \<open>SetModel\<close>, \<open>DatSet\<close>, \<open>DatSetProofs\<close>, \<open>DepGraph\<close>,
    \<open>DepResolve\<close>, \<open>DepClosure\<close>, \<open>DepProofs\<close>, \<open>DatScan\<close>, \<open>DatRun\<close>, \<open>DatRunProofs\<close>, with
    the instances \<open>DatExample\<close>, \<open>DatRunExample\<close>.
  \<^item> Parsers: \<open>ParseModel\<close> (\<open>dat/limits.rs\<close>,
    \<open>dat/parser.rs\<close>), \<open>ClrMamePro\<close>, \<open>ClrRoundTrip\<close>,
    \<open>ClrProofs\<close>, \<open>ClrFindings\<close>
    (\<open>dat/parsers/clrmamepro.rs\<close>), \<open>TrustedDtd\<close>
    (\<open>dat/trusted_dtd.rs\<close>), \<open>Logiqx\<close>, \<open>LogiqxProofs\<close>,
    \<open>LogiqxBounds\<close>, \<open>LogiqxRoundTrip\<close>
    (\<open>dat/parsers/logiqx.rs\<close>), \<open>DatParsers\<close>
    (\<open>dat/parsers/mod.rs\<close>), \<open>RunParsers\<close> (a run over these parsers),
    with \<open>ParserExample\<close>. A parser is a function of a state record that holds the
    local variables of the source's loop; a Logiqx document is the list of the events its XML
    reader delivers.
  \<^item> Rename plans: \<open>RenameDerive\<close>, \<open>RenameModel\<close>, \<open>RenamePlan\<close>, \<open>RenamePlanProofs\<close>,
    \<open>RenameChecks\<close>, with \<open>RenameExample\<close>.
  \<^item> Organisation: \<open>DirCalls\<close> (making and removing directories), \<open>OrgModel\<close> (\<open>model.rs\<close> and the
    building of a transaction), \<open>OrgPlan\<close> (\<open>plan.rs\<close>, revalidation), \<open>OrgTransaction\<close>
    (\<open>transaction.rs\<close>); proofs in \<open>TxnPast\<close> (a pass does not read its history),
    \<open>OrgSafety\<close>, \<open>OrgRestore\<close>, \<open>OrgPlanProofs\<close>, the instance in \<open>OrgExample\<close>.
  \<^item> Identities: \<open>PathMap\<close>, \<open>PathMapProofs\<close>, \<open>IdentityModel\<close>, \<open>FileHashing\<close>,
    \<open>FileHashingProofs\<close>, \<open>IdentityMatch\<close>, \<open>IdentityMatchProofs\<close>, \<open>PlatformIdentity\<close>,
    \<open>PlatformIdentityProofs\<close>, with \<open>IdentityExample\<close>.

  \<^bold>\<open>How state and operations correspond.\<close>
  A struct is a record, an enum a datatype, an error enum a datatype under \<open>Inl\<close> of a sum; a
  function of the source is one definition of the same name. A transaction pass is a function of
  an environment and a world: the world holds the file system, the journal directory, a step
  counter and a ghost history of the durable effects (journal writes and renames, with the file
  system before and after); the environment holds what the source does not decide: the rename
  call, what other processes do between two steps, which journal writes fail, when the user
  cancels, the clock. Every read of the file system and every write first lets the other
  processes act. The audit run in the same way reads the scan, the parsed catalogues, the opened
  archives, the hashes and the cancellation flag from its environment. Reads of a file are the
  list of results the reader gives, with interrupted and failing reads.

  \<^bold>\<open>Interfaces.\<close> The locales state the contracts one part relies on: the
  documented behaviour of the rename call (\<open>noreplace_rename\<close>,
  \<open>live_rename\<close> in \<open>FileSystem\<close>) and of the directory calls
  (\<open>dir_creation\<close>, \<open>dir_removal\<close>, \<open>live_dir_removal\<close> in
  \<open>DirCalls\<close>), the updates a pass is allowed to make (\<open>txn_frame\<close>,
  \<open>txn_frame_full\<close> in \<open>TxnFrame\<close>), what the dispatcher relies on in a
  parser (\<open>catalogue_parser\<close> in \<open>DatParsers\<close>), and total comparators for
  sorts and sorted maps (\<open>total_cmp\<close>, \<open>ordered_keys\<close>). Each is
  interpreted on the model's own definitions.

  \<^bold>\<open>What the lemma groups show.\<close>
  \<^item> Transactions: no rename ever replaces an object, whatever other processes do; each rename
    directly follows a durable record of the intent; at every instant of a pass, of a rollback or
    of a reconciliation the journal and the file system differ by at most one entry in flight, so
    a crash followed by a rollback restores every file; the preflight decides exactly the safe
    entries; failures stop a batch; the result of a rollback says exactly what the pass did, and
    an entry that an earlier pass was refused is neither retried nor counted.
  \<^item> Catalogues: lookups and Exact verdicts are sound and complete against the declared roms; a
    complete set has evidence for every required member; a satisfied dependency rests on a path
    or a closure of verified sets; the resolution of a collection is that of its sets; the walk
    is exact and ends on every tree; a run stops when asked; the ranking decides exactly when one
    candidate strictly outranks all others, and the comparator handed to the sort has a cycle
    under two clone policies.
  \<^item> Parsers: what is written in either format is read back exactly; whatever the input, the
    result is a named error or a catalogue within the ceilings the parser enforces (one rom per
    entry may exceed the rom ceiling of the XML parser) with its counts right; a
    set a run reports as complete was read from XML, never from the text format; a DOCTYPE never
    leads outside the directory of its catalogue; the dispatcher changes nothing but the content
    class.
  \<^item> Rename plans: suggestions are safe, apart from each other in any case folding, rest on
    verified evidence, and on an unchanged file system the preflight can refuse an entry only
    for one of four stated causes outside the plan's knowledge.
  \<^item> Organisation: suggestions rest on a resolved platform and the canonical slug and target
    free names in one platform directory; in any environment the journal claims only directories
    the pass made, and only empty ones are removed; a crash followed by a rollback restores
    every file and leaves at most one empty directory behind.
  \<^item> Identities: a provider path is never repaired and its translation never leaves the
    destination of its mapping; the CRC separates contents that differ in four consecutive bytes;
    a reported hash describes the bytes of an unchanged file; the exact condition of each of
    the six verdicts; no two usable records share a file; a platform is resolved exactly when
    the deciding facts agree.

  \<^bold>\<open>Bounds and recursion.\<close>
  Symbolic links are followed at most 40 times (\<open>max_symlinks\<close>, the limit of Linux);
  dependencies to depth 64, the source's own limit; the walk has the source's limits of depth 8,
  25000 directories and 200000 files and ends because every step consumes a pending directory of a
  finite tree; the scan for pairs of the text parser ends because every pair consumes characters;
  at most 64 mappings and 4096 bytes of provider path; archive budgets are 64-bit words whose
  checked sums are written out; CHD headers and CRC registers are words of their width. The loop
  over the reads of a file is a \<open>partial_function (option)\<close>: its value is
  \<open>None\<close> exactly for a reader that never ends. No other definition uses fuel.

  \<^bold>\<open>Not modelled.\<close>
  The law that lets a rename succeed (\<open>live_rename\<close>) speaks of one device; crossing
  devices is what the preflight refuses. A \<open>char\<close> is a code point up to U+00FF, so texts beyond Latin-1 are outside the
  model, and so are the few labels that contain them. Serialisation (serde) is the identity;
  SQLite, network access, external processes, the XML reader, the ZIP, 7z and RAR decoders, MD5,
  SHA-1 and SHA-256 are parameters or left out; a file that is not UTF-8 is a read error or lossy
  text, as the library gives it. The registry of sources, the repair engine, the cheat manager,
  disk images, host probing, the database and its views, the command line and the graphical
  interface are not modelled: the last two are most of the lines of the repository and are input,
  output and presentation. Progress callbacks and display strings are left out where no decision
  reads them.
\<close>

end
